(* ===== verification/Prelude.thy ===== *)
theory Prelude
  imports "HOL-Library.Word" "HOL-Library.Signed_Division"
begin

text \<open>
  The vocabulary every component theory shares: the C integer types, the two loops the kernel
  writes again and again (scan a fixed table for the first matching slot; copy or compare a
  NUL-terminated string), the C division, clamping, and a locale for state machines whose
  states all satisfy an invariant.

  C strings are HOL strings without the terminating NUL; a character array of size \<open>n\<close> holds a
  string of at most \<open>n - 1\<close> characters. The simp set \<open>slot_simps\<close> collects the facts on slot
  scans and list updates that the table-shaped components use; \<open>inv_rules\<close> collects the
  invariant-preservation lemmas.
\<close>

unbundle bit_operations_syntax

named_theorems slot_simps \<open>facts on scanning and updating fixed-size tables\<close>
named_theorems inv_rules \<open>invariant preservation\<close>

type_synonym u8 = "8 word"
type_synonym u16 = "16 word"
type_synonym u32 = "32 word"
type_synonym u64 = "64 word"

section \<open>Scanning a table for its first matching slot\<close>

text \<open>The loop \<open>for (i = 0; i < N; i++) if (P (t[i])) return i;\<close> with its fall-through \<open>-1\<close>.\<close>

primrec find_slot :: "('a \<Rightarrow> bool) \<Rightarrow> 'a list \<Rightarrow> nat option" where
  "find_slot P [] = None"
| "find_slot P (x # xs) = (if P x then Some 0 else map_option Suc (find_slot P xs))"

lemma find_slot_None: "find_slot P xs = None \<longleftrightarrow> (\<forall>x \<in> set xs. \<not> P x)"
  by (induction xs) auto

lemma find_slot_SomeD:
  "find_slot P xs = Some i \<Longrightarrow> i < length xs \<and> P (xs ! i) \<and> (\<forall>j < i. \<not> P (xs ! j))"
proof (induction xs arbitrary: i)
  case Nil
  then show ?case by simp
next
  case (Cons x xs)
  show ?case
  proof (cases "P x")
    case True
    with Cons.prems show ?thesis by simp
  next
    case False
    with Cons.prems obtain k where k: "find_slot P xs = Some k" "i = Suc k" by auto
    from Cons.IH [OF k(1)] False k(2) show ?thesis
      by (auto simp: less_Suc_eq_0_disj)
  qed
qed

lemma find_slot_Some_less [slot_simps, dest]: "find_slot P xs = Some i \<Longrightarrow> i < length xs"
  by (simp add: find_slot_SomeD)

lemma find_slot_Some_sat [dest]: "find_slot P xs = Some i \<Longrightarrow> P (xs ! i)"
  by (simp add: find_slot_SomeD)

lemma find_slot_Some_first: "find_slot P xs = Some i \<Longrightarrow> j < i \<Longrightarrow> \<not> P (xs ! j)"
  by (simp add: find_slot_SomeD)

lemma find_slot_SomeI:
  "i < length xs \<Longrightarrow> P (xs ! i) \<Longrightarrow> (\<And>j. j < i \<Longrightarrow> \<not> P (xs ! j)) \<Longrightarrow> find_slot P xs = Some i"
proof (induction xs arbitrary: i)
  case Nil
  then show ?case by simp
next
  case (Cons x xs)
  show ?case
  proof (cases i)
    case 0
    with Cons.prems show ?thesis by simp
  next
    case (Suc k)
    with Cons.prems(3) [of 0] have "\<not> P x" by simp
    moreover have "find_slot P xs = Some k"
    proof (rule Cons.IH)
      show "\<not> P (xs ! j)" if "j < k" for j
        using Cons.prems(3) [of "Suc j"] that Suc by simp
    qed (use Cons.prems(1,2) Suc in auto)
    ultimately show ?thesis using Suc by simp
  qed
qed

lemma find_slot_exists: "i < length xs \<Longrightarrow> P (xs ! i) \<Longrightarrow> \<exists>k. find_slot P xs = Some k"
  by (cases "find_slot P xs") (auto simp: find_slot_None)

lemma find_slot_map: "find_slot P (map f xs) = find_slot (\<lambda>x. P (f x)) xs"
  by (induction xs) auto

text \<open>The number of occupied slots of a table, and how one update changes it.\<close>

abbreviation occupied :: "('a \<Rightarrow> bool) \<Rightarrow> 'a list \<Rightarrow> nat" where
  "occupied P xs \<equiv> length (filter P xs)"

lemma occupied_insert [slot_simps]:
  "i < length xs \<Longrightarrow> \<not> P (xs ! i) \<Longrightarrow> P x \<Longrightarrow> occupied P (xs[i := x]) = Suc (occupied P xs)"
  by (induction xs arbitrary: i) (auto simp: less_Suc_eq_0_disj nth_Cons' split: nat.splits)

lemma occupied_remove [slot_simps]:
  "i < length xs \<Longrightarrow> P (xs ! i) \<Longrightarrow> \<not> P x \<Longrightarrow> Suc (occupied P (xs[i := x])) = occupied P xs"
proof (induction xs arbitrary: i)
  case Nil
  then show ?case by simp
next
  case (Cons y ys)
  show ?case
  proof (cases i)
    case 0
    with Cons.prems show ?thesis by simp
  next
    case (Suc k)
    with Cons.prems Cons.IH [of k] show ?thesis by auto
  qed
qed

lemma occupied_same [slot_simps]:
  "i < length xs \<Longrightarrow> P x = P (xs ! i) \<Longrightarrow> occupied P (xs[i := x]) = occupied P xs"
  by (induction xs arbitrary: i) (auto simp: less_Suc_eq_0_disj nth_Cons' split: nat.splits)

lemma occupied_le: "occupied P xs \<le> length xs"
  by (rule length_filter_le)

text \<open>The loop that copies the occupied entries of a table out, up to a caller's limit.\<close>

definition copy_out :: "('a \<Rightarrow> bool) \<Rightarrow> nat \<Rightarrow> 'a list \<Rightarrow> 'a list" where
  "copy_out P m xs = take m (filter P xs)"

lemma list_all_update [slot_simps]:
  "list_all P xs \<Longrightarrow> P x \<Longrightarrow> list_all P (xs[i := x])"
  by (auto simp: list_all_iff dest!: set_update_subset_insert [THEN subsetD])

lemma list_all_nth [slot_simps]: "list_all P xs \<Longrightarrow> i < length xs \<Longrightarrow> P (xs ! i)"
  by (simp add: list_all_iff)

section \<open>C strings\<close>

text \<open>
  \<open>str_eq_local\<close> walks both strings while both have characters and agree, then asks whether both
  ended. A null pointer is \<open>None\<close> and equals nothing, not even another null pointer.
\<close>

fun str_eq_loop :: "string \<Rightarrow> string \<Rightarrow> bool" where
  "str_eq_loop (a # as) (b # bs) = (if a \<noteq> b then False else str_eq_loop as bs)"
| "str_eq_loop as bs = (as = [] \<and> bs = [])"

definition str_eq_local :: "string option \<Rightarrow> string option \<Rightarrow> bool" where
  "str_eq_local a b = (case (a, b) of (Some x, Some y) \<Rightarrow> str_eq_loop x y | _ \<Rightarrow> False)"

lemma str_eq_loop_iff [simp]: "str_eq_loop a b \<longleftrightarrow> a = b"
  by (induction a b rule: str_eq_loop.induct) auto

lemma str_eq_local_iff [simp]: "str_eq_local (Some a) (Some b) \<longleftrightarrow> a = b"
  by (simp add: str_eq_local_def)

lemma str_eq_local_null [simp]: "\<not> str_eq_local None b" "\<not> str_eq_local a None"
  by (cases b; simp add: str_eq_local_def) (cases a; simp add: str_eq_local_def)

text \<open>
  \<open>copy_name\<close>: copy until the source ends or the buffer (\<open>n\<close> bytes, one of them for the NUL) is
  full. A null source leaves the empty string.
\<close>

fun copy_loop :: "nat \<Rightarrow> string \<Rightarrow> string" where
  "copy_loop (Suc k) (c # cs) = c # copy_loop k cs"
| "copy_loop k cs = []"

definition copy_name :: "nat \<Rightarrow> string option \<Rightarrow> string" where
  "copy_name n src = (case src of None \<Rightarrow> [] | Some s \<Rightarrow> copy_loop (n - 1) s)"

lemma copy_loop_take [simp]: "copy_loop k cs = take k cs"
  by (induction k cs rule: copy_loop.induct) auto

lemma copy_name_take [simp]: "copy_name n (Some s) = take (n - 1) s"
  by (simp add: copy_name_def)

lemma copy_name_idem: "copy_name n (Some (copy_name n (Some s))) = copy_name n (Some s)"
  by simp

lemma length_copy_name: "0 < n \<Longrightarrow> length (copy_name n src) < n"
  by (cases src) (auto simp: copy_name_def)

section \<open>C arithmetic\<close>

definition clamp_i32 :: "int \<Rightarrow> int \<Rightarrow> int \<Rightarrow> int" where
  "clamp_i32 v lo hi = (if v < lo then lo else if v > hi then hi else v)"

lemma clamp_i32_range: "lo \<le> hi \<Longrightarrow> lo \<le> clamp_i32 v lo hi \<and> clamp_i32 v lo hi \<le> hi"
  by (simp add: clamp_i32_def)

lemma clamp_i32_id: "lo \<le> v \<Longrightarrow> v \<le> hi \<Longrightarrow> clamp_i32 v lo hi = v"
  by (simp add: clamp_i32_def)

text \<open>Two's-complement truncation of an unbounded result to the C type \<open>int\<close>.\<close>

definition to_i32 :: "int \<Rightarrow> int" where
  "to_i32 x = sint (word_of_int x :: u32)"

lemma to_i32_id: "- (2 ^ 31) \<le> x \<Longrightarrow> x < 2 ^ 31 \<Longrightarrow> to_i32 x = x"
  by (simp add: to_i32_def signed_of_int signed_take_bit_int_eq_self)

lemma unat_add_small:
  fixes a b :: "'w::len word"
  assumes "unat a + unat b < 2 ^ LENGTH('w)"
  shows "unat (a + b) = unat a + unat b"
  using assms by (simp add: unat_word_ariths)

lemma unat_inc:
  fixes a :: "'w::len word"
  assumes "Suc (unat a) < 2 ^ LENGTH('w)"
  shows "unat (a + 1) = Suc (unat a)"
  using assms by (simp add: unat_word_ariths)

section \<open>Characters as bytes\<close>

lemma char_byte: "char_of (unat (of_char c :: u8)) = c"
proof -
  have "(of_char c :: u8) = of_nat (of_char c)" by (simp only: of_nat_of_char)
  then have "unat (of_char c :: u8) = of_char c mod 256" by (simp add: unat_of_nat)
  then show ?thesis by simp
qed

lemma char_byte_zero: "(of_char c :: u8) = 0 \<longleftrightarrow> c = CHR 0x00"
proof
  assume "(of_char c :: u8) = 0"
  then show "c = CHR 0x00" using char_byte [of c] by (simp add: char_of_def)
qed simp

section \<open>State machines with an invariant\<close>

text \<open>
  A component is a set of operations on its state; \<open>step s t\<close> holds when some operation leads
  from \<open>s\<close> to \<open>t\<close>. A component whose initial states satisfy \<open>inv\<close> and whose operations keep it
  satisfies it in every reachable state.
\<close>

inductive reach :: "('s \<Rightarrow> bool) \<Rightarrow> ('s \<Rightarrow> 's \<Rightarrow> bool) \<Rightarrow> 's \<Rightarrow> bool"
  for init :: "'s \<Rightarrow> bool" and step :: "'s \<Rightarrow> 's \<Rightarrow> bool" where
  reach_init: "init s \<Longrightarrow> reach init step s"
| reach_step: "reach init step s \<Longrightarrow> step s t \<Longrightarrow> reach init step t"

locale invariant_system =
  fixes init :: "'s \<Rightarrow> bool" and step :: "'s \<Rightarrow> 's \<Rightarrow> bool" and inv :: "'s \<Rightarrow> bool"
  assumes inv_init: "init s \<Longrightarrow> inv s"
    and inv_step: "inv s \<Longrightarrow> step s t \<Longrightarrow> inv t"
begin

lemma reach_inv: "reach init step s \<Longrightarrow> inv s"
  by (induction rule: reach.induct) (auto intro: inv_init inv_step)

lemma rtranclp_inv: "step\<^sup>*\<^sup>* s t \<Longrightarrow> inv s \<Longrightarrow> inv t"
  by (induction rule: rtranclp_induct) (auto intro: inv_step)

end

end
