(* ===== verification/Pmm.thy ===== *)
theory Pmm
  imports Prelude
begin

text \<open>
  The physical page allocator of \<open>src/kernel/pmm.c\<close>: a bitmap of 1024 bytes, one bit for each
  4 KB page of 32 MB. An access outside the bitmap, which the C code does not check, is the
  result \<open>None\<close>; the theorems show for which addresses it cannot happen. The abstraction
  \<open>pages_used\<close> reads the bitmap as the set of used page numbers, and every operation is
  characterised by what it does to that set.
\<close>

section \<open>State and operations\<close>

abbreviation PAGE_SIZE :: nat where "PAGE_SIZE \<equiv> 4096"
abbreviation BITMAP_SIZE :: nat where "BITMAP_SIZE \<equiv> 1024"
abbreviation PMM_PAGES :: nat where "PMM_PAGES \<equiv> 8192"
abbreviation FIRST_USER_PAGE :: nat where "FIRST_USER_PAGE \<equiv> 256"

record pmm =
  memory_bitmap :: "u8 list"
  pmm_alloc_calls :: u32
  pmm_free_calls :: u32

definition pmm_page :: "u32 \<Rightarrow> nat" where
  "pmm_page page_addr = unat page_addr div PAGE_SIZE"

definition pmm_set_page :: "u32 \<Rightarrow> pmm \<Rightarrow> pmm option" where
  "pmm_set_page page_addr s =
     (let page = pmm_page page_addr; bm = memory_bitmap s in
      if page div 8 < BITMAP_SIZE
      then Some (s\<lparr>memory_bitmap := bm[page div 8 := bm ! (page div 8) OR push_bit (page mod 8) 1]\<rparr>)
      else None)"

definition pmm_free_page :: "u32 \<Rightarrow> pmm \<Rightarrow> pmm option" where
  "pmm_free_page page_addr s =
     (let page = pmm_page page_addr; bm = memory_bitmap s in
      if page_addr < 0x100000 then Some s
      else if page div 8 < BITMAP_SIZE
      then Some (s\<lparr>pmm_free_calls := pmm_free_calls s + 1,
                   memory_bitmap := bm[page div 8 := bm ! (page div 8) AND NOT (push_bit (page mod 8) 1)]\<rparr>)
      else None)"

definition pmm_is_page_used :: "u32 \<Rightarrow> pmm \<Rightarrow> bool option" where
  "pmm_is_page_used page_addr s =
     (let page = pmm_page page_addr in
      if page div 8 < BITMAP_SIZE
      then Some (memory_bitmap s ! (page div 8) AND push_bit (page mod 8) 1 \<noteq> 0)
      else None)"

text \<open>The search loop, with the number of iterations left and the loop variable \<open>i\<close>.\<close>

primrec pmm_alloc_loop :: "nat \<Rightarrow> nat \<Rightarrow> pmm \<Rightarrow> (u32 \<times> pmm) option" where
  "pmm_alloc_loop 0 i s = Some (0, s)"
| "pmm_alloc_loop (Suc n) i s =
     (let addr = of_nat (i * PAGE_SIZE) in
      case pmm_is_page_used addr s of
        None \<Rightarrow> None
      | Some True \<Rightarrow> pmm_alloc_loop n (Suc i) s
      | Some False \<Rightarrow> map_option (\<lambda>s'. (addr, s')) (pmm_set_page addr s))"

definition pmm_alloc_page :: "pmm \<Rightarrow> (u32 \<times> pmm) option" where
  "pmm_alloc_page s =
     pmm_alloc_loop PMM_PAGES 0 (s\<lparr>pmm_alloc_calls := pmm_alloc_calls s + 1\<rparr>)"

text \<open>\<open>init_pmm\<close> with the linker symbol \<open>_kernel_end\<close> as its parameter.\<close>

function pmm_reserve :: "nat \<Rightarrow> nat \<Rightarrow> pmm \<Rightarrow> pmm option" where
  "pmm_reserve addr kernel_top s =
     (if addr < kernel_top
      then (case pmm_set_page (of_nat addr) s of
              None \<Rightarrow> None | Some s' \<Rightarrow> pmm_reserve (addr + PAGE_SIZE) kernel_top s')
      else Some s)"
  by pat_completeness auto
termination
  by (relation "measure (\<lambda>(addr, kernel_top, s). kernel_top - addr)") auto

declare pmm_reserve.simps [simp del]

definition init_pmm :: "u32 \<Rightarrow> pmm \<Rightarrow> pmm option" where
  "init_pmm kernel_end s =
     pmm_reserve 0 (unat kernel_end) (s\<lparr>memory_bitmap := replicate BITMAP_SIZE 0\<rparr>)"

text \<open>The range of the counting loops: every page from 1 MB on.\<close>

definition user_pages :: "nat list" where
  "user_pages = [FIRST_USER_PAGE..<PMM_PAGES]"

definition pmm_page_free :: "pmm \<Rightarrow> nat \<Rightarrow> bool" where
  "pmm_page_free s i \<longleftrightarrow> pmm_is_page_used (of_nat (i * PAGE_SIZE)) s = Some False"

definition pmm_get_free_pages :: "pmm \<Rightarrow> nat" where
  "pmm_get_free_pages s = length (filter (pmm_page_free s) user_pages)"

definition pmm_get_total_pages :: nat where
  "pmm_get_total_pages = BITMAP_SIZE * 8"

record pmm_stats =
  total_pages :: nat
  used_pages :: nat
  free_pages :: nat
  largest_free_run :: nat
  free_runs :: nat
  fragmentation_permille :: nat
  alloc_calls :: u32
  free_calls :: u32

record run_scan =
  sc_used :: nat
  sc_largest :: nat
  sc_cur :: nat
  sc_runs :: nat

text \<open>The body of the statistics loop for one page, given whether the page is free.\<close>

definition run_scan_step :: "bool \<Rightarrow> run_scan \<Rightarrow> run_scan" where
  "run_scan_step is_free a =
     (if is_free
      then let cur = sc_cur a + 1;
               runs = (if cur = 1 then sc_runs a + 1 else sc_runs a);
               largest = (if cur > sc_largest a then cur else sc_largest a)
           in a\<lparr>sc_cur := cur, sc_runs := runs, sc_largest := largest\<rparr>
      else a\<lparr>sc_used := sc_used a + 1, sc_cur := 0\<rparr>)"

definition run_scan_init :: run_scan where
  "run_scan_init = \<lparr>sc_used = 0, sc_largest = 0, sc_cur = 0, sc_runs = 0\<rparr>"

definition run_scan_pages :: "bool list \<Rightarrow> run_scan" where
  "run_scan_pages fs = fold run_scan_step fs run_scan_init"

definition pmm_get_stats :: "pmm \<Rightarrow> pmm_stats" where
  "pmm_get_stats s =
     (let total = BITMAP_SIZE * 8 - FIRST_USER_PAGE;
          a = run_scan_pages (map (pmm_page_free s) user_pages);
          free = total - sc_used a
      in \<lparr>total_pages = total, used_pages = sc_used a, free_pages = free,
          largest_free_run = sc_largest a, free_runs = sc_runs a,
          fragmentation_permille =
            (if free = 0 \<or> sc_largest a = 0 then 0 else 1000 - (sc_largest a * 1000) div free),
          alloc_calls = pmm_alloc_calls s, free_calls = pmm_free_calls s\<rparr>)"

text \<open>\<open>itoa_pmm\<close>: digits are produced least significant first into \<open>tmp\<close> and then reversed.\<close>

definition digit_char :: "nat \<Rightarrow> char" where
  "digit_char d = char_of (48 + d)"

fun itoa_digits :: "nat \<Rightarrow> string" where
  "itoa_digits value = (if value = 0 then [] else digit_char (value mod 10) # itoa_digits (value div 10))"

declare itoa_digits.simps [simp del]

definition itoa_pmm :: "int \<Rightarrow> string" where
  "itoa_pmm value = (if value = 0 then ''0'' else if value > 0 then rev (itoa_digits (nat value)) else '''')"

section \<open>The bitmap as a set of pages\<close>

definition pmm_wf :: "pmm \<Rightarrow> bool" where
  "pmm_wf s \<longleftrightarrow> length (memory_bitmap s) = BITMAP_SIZE"

definition page_bit :: "pmm \<Rightarrow> nat \<Rightarrow> bool" where
  "page_bit s p = bit (memory_bitmap s ! (p div 8)) (p mod 8)"

definition pages_used :: "pmm \<Rightarrow> nat set" where
  "pages_used s = {p. p < PMM_PAGES \<and> page_bit s p}"

definition addr_of_page :: "nat \<Rightarrow> u32" where
  "addr_of_page p = of_nat (p * PAGE_SIZE)"

lemma unat_addr_of_page: "p < PMM_PAGES \<Longrightarrow> unat (addr_of_page p) = p * PAGE_SIZE"
  by (simp add: addr_of_page_def unat_of_nat del: of_nat_mult)

lemma pmm_page_addr [simp]: "p < PMM_PAGES \<Longrightarrow> pmm_page (addr_of_page p) = p"
  by (simp add: pmm_page_def unat_addr_of_page)

lemma addr_of_page_inj: "p < PMM_PAGES \<Longrightarrow> q < PMM_PAGES \<Longrightarrow> addr_of_page p = addr_of_page q \<longleftrightarrow> p = q"
  using pmm_page_addr by metis

lemma addr_of_page_eq_0: "p < PMM_PAGES \<Longrightarrow> addr_of_page p = 0 \<longleftrightarrow> p = 0"
  by (metis addr_of_page_inj addr_of_page_def mult_0 of_nat_0 zero_less_numeral)

lemma bit_mask8: "(w AND 2 ^ k \<noteq> 0) \<longleftrightarrow> k < 8 \<and> bit w k" for w :: u8
proof -
  have "w AND 2 ^ k \<noteq> 0 \<longleftrightarrow> (\<exists>n. bit (w AND 2 ^ k) n)"
    by (metis bit_0_eq bit_eqI bot_apply bot_bool_def)
  also have "\<dots> \<longleftrightarrow> k < 8 \<and> bit w k"
    by (auto simp: bit_simps dest: bit_imp_le_length)
  finally show ?thesis .
qed

lemma bit_set8: "k < 8 \<Longrightarrow> bit (w OR 2 ^ k) n \<longleftrightarrow> bit w n \<or> n = k" for w :: u8
  by (auto simp: bit_simps)

lemma bit_clear8: "bit (w AND NOT (2 ^ k)) n \<longleftrightarrow> bit w n \<and> n \<noteq> k" for w :: u8
  by (auto simp: bit_simps dest: bit_imp_le_length)

lemma is_page_used_iff:
  assumes "p < PMM_PAGES"
  shows "pmm_is_page_used (addr_of_page p) s = Some (p \<in> pages_used s)"
proof -
  have "p div 8 < BITMAP_SIZE" "p mod 8 < 8" using assms by auto
  with assms show ?thesis
    by (simp add: pmm_is_page_used_def Let_def bit_mask8 pages_used_def page_bit_def)
qed

lemma page_bit_upd:
  assumes "pmm_wf s" "p < PMM_PAGES" "q < PMM_PAGES"
  shows "page_bit (s\<lparr>memory_bitmap := (memory_bitmap s)[p div 8 := w]\<rparr>) q =
         (if q div 8 = p div 8 then bit w (q mod 8) else page_bit s q)"
  using assms by (simp add: page_bit_def pmm_wf_def nth_list_update)

lemma same_page: "(q::nat) div 8 = p div 8 \<Longrightarrow> q mod 8 = p mod 8 \<longleftrightarrow> q = p"
  by (metis div_mult_mod_eq)

lemma set_page_used:
  assumes "pmm_wf s" "p < PMM_PAGES"
  obtains s' where "pmm_set_page (addr_of_page p) s = Some s'" "pmm_wf s'"
    "pages_used s' = insert p (pages_used s)"
    "pmm_alloc_calls s' = pmm_alloc_calls s" "pmm_free_calls s' = pmm_free_calls s"
proof -
  let ?bm = "memory_bitmap s"
  let ?w = "?bm ! (p div 8) OR push_bit (p mod 8) 1"
  let ?s' = "s\<lparr>memory_bitmap := ?bm[p div 8 := ?w]\<rparr>"
  have eq: "pmm_set_page (addr_of_page p) s = Some ?s'"
    using assms by (auto simp: pmm_set_page_def Let_def)
  have "page_bit ?s' q \<longleftrightarrow> q = p \<or> page_bit s q" if "q < PMM_PAGES" for q
    using page_bit_upd [OF assms that, of ?w] same_page [of q p] bit_set8 [of "p mod 8" "?bm ! (p div 8)"]
    by (auto simp: page_bit_def)
  then have "pages_used ?s' = insert p (pages_used s)"
    using assms(2) by (auto simp: pages_used_def)
  with eq assms(1) show thesis by (intro that [OF eq]) (auto simp: pmm_wf_def)
qed

lemma free_page_used:
  assumes "pmm_wf s" "FIRST_USER_PAGE \<le> p" "p < PMM_PAGES"
  obtains s' where "pmm_free_page (addr_of_page p) s = Some s'" "pmm_wf s'"
    "pages_used s' = pages_used s - {p}"
    "pmm_alloc_calls s' = pmm_alloc_calls s" "pmm_free_calls s' = pmm_free_calls s + 1"
proof -
  let ?bm = "memory_bitmap s"
  let ?w = "?bm ! (p div 8) AND NOT (push_bit (p mod 8) 1)"
  let ?s0 = "s\<lparr>memory_bitmap := ?bm[p div 8 := ?w]\<rparr>"
  let ?s' = "s\<lparr>pmm_free_calls := pmm_free_calls s + 1, memory_bitmap := ?bm[p div 8 := ?w]\<rparr>"
  have "\<not> addr_of_page p < 0x100000"
    using assms by (simp add: word_less_nat_alt unat_addr_of_page)
  then have eq: "pmm_free_page (addr_of_page p) s = Some ?s'"
    using assms by (auto simp: pmm_free_page_def Let_def)
  have "page_bit ?s0 q \<longleftrightarrow> q \<noteq> p \<and> page_bit s q" if "q < PMM_PAGES" for q
    using page_bit_upd [OF assms(1,3) that, of ?w] same_page [of q p]
      bit_clear8 [of "?bm ! (p div 8)" "p mod 8"]
    by (auto simp: page_bit_def)
  then have "pages_used ?s' = pages_used s - {p}"
    using assms by (auto simp: pages_used_def page_bit_def)
  with eq assms(1) show thesis by (intro that [OF eq]) (auto simp: pmm_wf_def)
qed

text \<open>Pages below 1 MB are never freed.\<close>

lemma free_page_reserved:
  "p < FIRST_USER_PAGE \<Longrightarrow> pmm_free_page (addr_of_page p) s = Some s"
  by (simp add: pmm_free_page_def word_less_nat_alt unat_addr_of_page)

section \<open>Allocation finds the lowest free page\<close>

lemma pmm_alloc_loop_spec:
  assumes "pmm_wf s" "n + i = PMM_PAGES" "\<forall>p < i. p \<in> pages_used s"
  shows "case find_slot (\<lambda>p. p \<notin> pages_used s) [0..<PMM_PAGES] of
           None \<Rightarrow> pmm_alloc_loop n i s = Some (0, s)
         | Some p \<Rightarrow> \<exists>s'. pmm_alloc_loop n i s = Some (addr_of_page p, s') \<and> pmm_wf s' \<and>
             pages_used s' = insert p (pages_used s) \<and>
             pmm_alloc_calls s' = pmm_alloc_calls s \<and> pmm_free_calls s' = pmm_free_calls s"
  using assms(2,3)
proof (induction n arbitrary: i)
  case 0
  then have "find_slot (\<lambda>p. p \<notin> pages_used s) [0..<PMM_PAGES] = None"
    by (auto simp: find_slot_None)
  then show ?case by simp
next
  case (Suc n)
  then have i: "i < PMM_PAGES" by simp
  note step = is_page_used_iff [OF i, of s, unfolded addr_of_page_def]
  show ?case
  proof (cases "i \<in> pages_used s")
    case True
    with Suc.prems have "\<forall>p < Suc i. p \<in> pages_used s" by (simp add: less_Suc_eq)
    from Suc.IH [OF _ this] Suc.prems(1) show ?thesis
      using True step by (simp add: Let_def split: option.splits)
  next
    case False
    have found: "find_slot (\<lambda>p. p \<notin> pages_used s) [0..<PMM_PAGES] = Some i"
      using i False Suc.prems(2) by (intro find_slot_SomeI) auto
    obtain s' where "pmm_set_page (addr_of_page i) s = Some s'" "pmm_wf s'"
      "pages_used s' = insert i (pages_used s)"
      "pmm_alloc_calls s' = pmm_alloc_calls s" "pmm_free_calls s' = pmm_free_calls s"
      by (rule set_page_used [OF assms(1) i])
    with found False step show ?thesis by (simp add: Let_def addr_of_page_def)
  qed
qed

lemma pages_used_calls [simp]:
  "pages_used (s\<lparr>pmm_alloc_calls := c\<rparr>) = pages_used s"
  "pages_used (s\<lparr>pmm_free_calls := c\<rparr>) = pages_used s"
  "pmm_wf (s\<lparr>pmm_alloc_calls := c\<rparr>) = pmm_wf s"
  by (simp_all add: pages_used_def page_bit_def pmm_wf_def)

lemma pmm_alloc_page_cases:
  assumes "pmm_wf s"
  obtains (Full) "pages_used s = {..<PMM_PAGES}"
      "pmm_alloc_page s = Some (0, s\<lparr>pmm_alloc_calls := pmm_alloc_calls s + 1\<rparr>)"
  | (Page) p s' where "p < PMM_PAGES" "p \<notin> pages_used s" "\<forall>q < p. q \<in> pages_used s"
      "pmm_alloc_page s = Some (addr_of_page p, s')" "pmm_wf s'"
      "pages_used s' = insert p (pages_used s)"
      "pmm_alloc_calls s' = pmm_alloc_calls s + 1" "pmm_free_calls s' = pmm_free_calls s"
proof (cases "find_slot (\<lambda>p. p \<notin> pages_used s) [0..<PMM_PAGES]")
  case None
  then have "pages_used s = {..<PMM_PAGES}"
    by (auto simp: find_slot_None pages_used_def)
  moreover have "pmm_alloc_page s = Some (0, s\<lparr>pmm_alloc_calls := pmm_alloc_calls s + 1\<rparr>)"
    using pmm_alloc_loop_spec [of "s\<lparr>pmm_alloc_calls := pmm_alloc_calls s + 1\<rparr>" PMM_PAGES 0] assms None
    by (simp add: pmm_alloc_page_def)
  ultimately show thesis by (rule Full)
next
  case (Some p)
  then have p: "p < PMM_PAGES" "p \<notin> pages_used s" "\<forall>q < p. q \<in> pages_used s"
    by (auto dest!: find_slot_SomeD)
  show thesis
    using pmm_alloc_loop_spec [of "s\<lparr>pmm_alloc_calls := pmm_alloc_calls s + 1\<rparr>" PMM_PAGES 0] assms Some
    by (auto simp: pmm_alloc_page_def intro: Page [OF p])
qed


section \<open>The allocator's invariant and its interface to clients\<close>

text \<open>
  Page 0 stays reserved for ever, so that the null pointer \<open>pmm_alloc_page\<close> returns on failure
  is never the address of a page it handed out.
\<close>

definition pmm_inv :: "pmm \<Rightarrow> bool" where
  "pmm_inv s \<longleftrightarrow> pmm_wf s \<and> 0 \<in> pages_used s"

lemma free_page_round: "pmm_free_page a s = pmm_free_page (addr_of_page (pmm_page a)) s"
  if "unat a < PMM_PAGES * PAGE_SIZE"
proof -
  have p: "pmm_page a < PMM_PAGES" using that by (simp add: pmm_page_def)
  have "a < 0x100000 \<longleftrightarrow> addr_of_page (pmm_page a) < 0x100000"
    using unat_addr_of_page [OF p] by (auto simp: word_less_nat_alt pmm_page_def)
  then show ?thesis using p by (simp add: pmm_free_page_def)
qed

lemma pmm_alloc_page_inv [inv_rules]:
  assumes "pmm_inv s" "pmm_alloc_page s = Some (r, s')"
  shows "pmm_inv s'"
proof -
  from assms(1) have wf: "pmm_wf s" by (simp add: pmm_inv_def)
  show ?thesis by (rule pmm_alloc_page_cases [OF wf]) (use assms in \<open>auto simp: pmm_inv_def\<close>)
qed

lemma pmm_free_page_inv [inv_rules]:
  assumes "pmm_inv s" "pmm_free_page a s = Some s'"
  shows "pmm_inv s'"
proof (cases "unat a < PMM_PAGES * PAGE_SIZE")
  case True
  then have p: "pmm_page a < PMM_PAGES" by (simp add: pmm_page_def)
  show ?thesis
  proof (cases "pmm_page a < FIRST_USER_PAGE")
    case True
    with assms free_page_reserved free_page_round \<open>unat a < _\<close> show ?thesis by simp
  next
    case False
    obtain t where "pmm_free_page (addr_of_page (pmm_page a)) s = Some t" "pmm_wf t"
      "pages_used t = pages_used s - {pmm_page a}"
      using assms(1) False p by (auto simp: pmm_inv_def intro: free_page_used [of s "pmm_page a"])
    with assms free_page_round [OF True] False show ?thesis by (auto simp: pmm_inv_def)
  qed
next
  case False
  then have "PMM_PAGES \<le> pmm_page a" unfolding pmm_page_def by linarith
  then have "\<not> pmm_page a div 8 < BITMAP_SIZE" by linarith
  with assms show ?thesis
    by (auto simp: pmm_free_page_def Let_def split: if_splits)
qed

locale page_provider =
  fixes alloc :: "'s \<Rightarrow> (u32 \<times> 's) option"
    and used :: "'s \<Rightarrow> nat set"
    and inv :: "'s \<Rightarrow> bool"
  assumes zero_used: "inv s \<Longrightarrow> 0 \<in> used s"
    and alloc_total: "inv s \<Longrightarrow> \<exists>r s'. alloc s = Some (r, s')"
    and alloc_inv: "inv s \<Longrightarrow> alloc s = Some (r, s') \<Longrightarrow> inv s'"
    and alloc_fail: "inv s \<Longrightarrow> alloc s = Some (0, s') \<Longrightarrow> used s' = used s"
    and alloc_page: "inv s \<Longrightarrow> alloc s = Some (r, s') \<Longrightarrow> r \<noteq> 0 \<Longrightarrow>
      \<exists>p < PMM_PAGES. r = addr_of_page p \<and> p \<notin> used s \<and> used s' = insert p (used s)"
begin

lemma alloc_fresh:
  assumes "inv s" "alloc s = Some (r, s')" "r \<noteq> 0"
  shows "pmm_page r \<notin> used s" "pmm_page r \<in> used s'" "pmm_page r < PMM_PAGES"
    "addr_of_page (pmm_page r) = r"
proof -
  obtain p where p: "p < PMM_PAGES" "r = addr_of_page p" "p \<notin> used s" "used s' = insert p (used s)"
    using alloc_page [OF assms] by blast
  then have "pmm_page r = p" by simp
  with p show "pmm_page r \<notin> used s" "pmm_page r \<in> used s'" "pmm_page r < PMM_PAGES"
    "addr_of_page (pmm_page r) = r" by simp_all
qed

lemma alloc_mono:
  assumes "inv s" "alloc s = Some (r, s')"
  shows "used s \<subseteq> used s'"
proof (cases "r = 0")
  case True
  with assms alloc_fail show ?thesis by blast
next
  case False
  with alloc_page [OF assms] show ?thesis by auto
qed

lemma alloc_twice_distinct:
  assumes "inv s" "alloc s = Some (r, s')" "alloc s' = Some (r', s'')" "r \<noteq> 0" "r' \<noteq> 0"
  shows "r \<noteq> r'"
  using alloc_fresh [OF assms(1,2,4)] alloc_fresh [OF alloc_inv [OF assms(1,2)] assms(3,5)] by auto

end

interpretation pmm: page_provider pmm_alloc_page pages_used pmm_inv
proof
  show "0 \<in> pages_used s" if "pmm_inv s" for s
    using that by (simp add: pmm_inv_def)
  show "\<exists>r s'. pmm_alloc_page s = Some (r, s')" if "pmm_inv s" for s
    by (rule pmm_alloc_page_cases [of s]) (use that in \<open>auto simp: pmm_inv_def\<close>)
  show "pmm_inv s'" if "pmm_inv s" "pmm_alloc_page s = Some (r, s')" for s r s'
    using that by (rule pmm_alloc_page_inv)
  show "pages_used s' = pages_used s" if "pmm_inv s" "pmm_alloc_page s = Some (0, s')" for s s'
    by (rule pmm_alloc_page_cases [of s]) (use that in \<open>auto simp: pmm_inv_def addr_of_page_eq_0\<close>)
  show "\<exists>p < PMM_PAGES. r = addr_of_page p \<and> p \<notin> pages_used s \<and> pages_used s' = insert p (pages_used s)"
    if "pmm_inv s" "pmm_alloc_page s = Some (r, s')" "r \<noteq> 0" for s r s'
    by (rule pmm_alloc_page_cases [of s]) (use that in \<open>auto simp: pmm_inv_def\<close>)
qed

section \<open>Initialisation\<close>

lemma pages_used_clear: "pages_used (s\<lparr>memory_bitmap := replicate BITMAP_SIZE 0\<rparr>) = {}"
  by (auto simp: pages_used_def page_bit_def)

lemma pmm_reserve_spec:
  assumes "kernel_top \<le> PMM_PAGES * PAGE_SIZE" "pmm_wf s" "addr mod PAGE_SIZE = 0"
  shows "\<exists>s'. pmm_reserve addr kernel_top s = Some s' \<and> pmm_wf s' \<and>
     pages_used s' = pages_used s \<union> {p. addr \<le> p * PAGE_SIZE \<and> p * PAGE_SIZE < kernel_top}"
  using assms
proof (induction addr kernel_top s rule: pmm_reserve.induct)
  case (1 addr kernel_top s)
  show ?case
  proof (cases "addr < kernel_top")
    case False
    then have none: "{p. addr \<le> p * PAGE_SIZE \<and> p * PAGE_SIZE < kernel_top} = {}" by auto
    show ?thesis unfolding none using 1 False by (subst pmm_reserve.simps) simp
  next
    case True
    define p where "p = addr div PAGE_SIZE"
    have addr: "addr = p * PAGE_SIZE" using 1 unfolding p_def by auto
    have p: "p < PMM_PAGES" using True 1 addr by simp
    obtain s1 where s1: "pmm_set_page (addr_of_page p) s = Some s1" "pmm_wf s1"
      "pages_used s1 = insert p (pages_used s)"
      using 1 p by (auto intro: set_page_used [of s p])
    have set: "pmm_set_page (of_nat addr) s = Some s1"
      using s1(1) by (simp only: addr_of_page_def addr)
    obtain s' where s': "pmm_reserve (addr + PAGE_SIZE) kernel_top s1 = Some s'" "pmm_wf s'"
      "pages_used s' = pages_used s1 \<union> {q. addr + PAGE_SIZE \<le> q * PAGE_SIZE \<and> q * PAGE_SIZE < kernel_top}"
      using 1 True set s1 by auto
    have "{q. addr \<le> q * PAGE_SIZE \<and> q * PAGE_SIZE < kernel_top} =
          insert p {q. addr + PAGE_SIZE \<le> q * PAGE_SIZE \<and> q * PAGE_SIZE < kernel_top}"
      using True unfolding addr by auto
    with s' s1 set True show ?thesis by (subst pmm_reserve.simps) simp
  qed
qed

lemma init_pmm_spec:
  assumes "unat kernel_end \<le> PMM_PAGES * PAGE_SIZE"
  shows "\<exists>s'. init_pmm kernel_end s = Some s' \<and> pmm_wf s' \<and>
     pages_used s' = {p. p * PAGE_SIZE < unat kernel_end}"
  using pmm_reserve_spec [OF assms, of "s\<lparr>memory_bitmap := replicate BITMAP_SIZE 0\<rparr>" 0] pages_used_clear
  by (simp add: init_pmm_def pmm_wf_def)

section \<open>The statistics loop against its specification\<close>

text \<open>\<open>is_run fs i n\<close>: the \<open>n\<close> entries from \<open>i\<close> on are all free.\<close>

definition is_run :: "bool list \<Rightarrow> nat \<Rightarrow> nat \<Rightarrow> bool" where
  "is_run fs i n \<longleftrightarrow> i + n \<le> length fs \<and> (\<forall>k < n. fs ! (i + k))"

definition run_starts :: "bool list \<Rightarrow> nat set" where
  "run_starts fs = {i. i < length fs \<and> fs ! i \<and> (i = 0 \<or> \<not> fs ! (i - 1))}"

lemma run_scan_snoc: "run_scan_pages (fs @ [b]) = run_scan_step b (run_scan_pages fs)"
  by (simp add: run_scan_pages_def)

lemma is_run_snoc:
  "is_run (fs @ [b]) i n \<longleftrightarrow>
     is_run fs i n \<or> (n = 0 \<and> i = Suc (length fs)) \<or>
     (\<exists>m. n = Suc m \<and> b \<and> i + m = length fs \<and> is_run fs i m)"
proof (cases "i + n \<le> length fs")
  case True
  then show ?thesis by (auto simp: is_run_def nth_append)
next
  case False
  show ?thesis
  proof (cases n)
    case 0
    with False show ?thesis by (auto simp: is_run_def)
  next
    case (Suc m)
    with False show ?thesis
      by (auto simp: is_run_def nth_append less_Suc_eq all_conj_distrib split: if_splits)
  qed
qed

lemma run_scan_used: "sc_used (run_scan_pages fs) = length (filter Not fs)"
  by (induction fs rule: rev_induct)
    (auto simp: run_scan_snoc run_scan_step_def Let_def run_scan_pages_def run_scan_init_def)

lemma run_scan_cur:
  "n \<le> sc_cur (run_scan_pages fs) \<longleftrightarrow> n \<le> length fs \<and> is_run fs (length fs - n) n"
proof (induction fs arbitrary: n rule: rev_induct)
  case Nil
  then show ?case by (auto simp: run_scan_pages_def run_scan_init_def is_run_def)
next
  case (snoc b fs)
  show ?case
  proof (cases n)
    case 0
    then show ?thesis by (simp add: is_run_def)
  next
    case (Suc m)
    have "is_run (fs @ [b]) (length fs - m) (Suc m) \<longleftrightarrow> b \<and> is_run fs (length fs - m) m"
      if "m \<le> length fs"
      using that by (auto simp: is_run_snoc) (auto simp: is_run_def)
    then show ?thesis using Suc snoc.IH [of m]
      by (auto simp: run_scan_snoc run_scan_step_def Let_def)
  qed
qed

lemma run_scan_largest:
  "n \<le> sc_largest (run_scan_pages fs) \<longleftrightarrow> (\<exists>i. is_run fs i n)"
proof (induction fs arbitrary: n rule: rev_induct)
  case Nil
  then show ?case by (auto simp: run_scan_pages_def run_scan_init_def is_run_def)
next
  case (snoc b fs)
  have ex0: "\<exists>i. is_run fs i 0" by (auto simp: is_run_def)
  have "(\<exists>i. is_run (fs @ [b]) i n) \<longleftrightarrow>
      (\<exists>i. is_run fs i n) \<or> (b \<and> (\<exists>m. n = Suc m \<and> m \<le> length fs \<and> is_run fs (length fs - m) m))"
  proof -
    have "(\<exists>i m. n = Suc m \<and> i + m = length fs \<and> is_run fs i m) \<longleftrightarrow>
        (\<exists>m. n = Suc m \<and> m \<le> length fs \<and> is_run fs (length fs - m) m)"
      by (metis add_diff_cancel_right' le_add2 le_add_diff_inverse2)
    then show ?thesis using ex0 by (auto simp: is_run_snoc)
  qed
  also have "\<dots> \<longleftrightarrow> n \<le> sc_largest (run_scan_pages fs) \<or>
      (b \<and> (\<exists>m. n = Suc m \<and> m \<le> sc_cur (run_scan_pages fs)))"
    by (simp add: snoc.IH run_scan_cur)
  also have "\<dots> \<longleftrightarrow> n \<le> sc_largest (run_scan_pages (fs @ [b]))"
    by (cases n) (auto simp: run_scan_snoc run_scan_step_def Let_def)
  finally show ?case by simp
qed

lemma finite_run_starts [simp]: "finite (run_starts fs)"
  by (auto simp: run_starts_def)

lemma run_starts_snoc:
  "run_starts (fs @ [b]) =
     (if b \<and> (fs = [] \<or> \<not> last fs) then insert (length fs) (run_starts fs) else run_starts fs)"
proof (cases "fs = []")
  case True
  then show ?thesis by (auto simp: run_starts_def)
next
  case False
  then have "last fs = fs ! (length fs - 1)" by (rule last_conv_nth)
  with False show ?thesis by (auto simp: run_starts_def nth_append less_Suc_eq split: if_splits)
qed

lemma run_scan_cur_pos: "0 < sc_cur (run_scan_pages fs) \<longleftrightarrow> fs \<noteq> [] \<and> last fs"
  using run_scan_cur [of 1 fs] by (cases fs rule: rev_cases) (auto simp: is_run_def nth_append)

lemma run_scan_runs: "sc_runs (run_scan_pages fs) = card (run_starts fs)"
proof (induction fs rule: rev_induct)
  case Nil
  then show ?case by (simp add: run_scan_pages_def run_scan_init_def run_starts_def)
next
  case (snoc b fs)
  have "length fs \<notin> run_starts fs" by (simp add: run_starts_def)
  then show ?case
    using snoc run_scan_cur_pos [of fs]
    by (auto simp: run_scan_snoc run_scan_step_def Let_def run_starts_snoc)
qed

lemma is_run_count: "is_run fs i n \<Longrightarrow> n \<le> length (filter id fs)"
proof -
  assume r: "is_run fs i n"
  then have "(\<lambda>k. i + k) ` {..<n} \<subseteq> {j. j < length fs \<and> fs ! j}"
    by (auto simp: is_run_def)
  then have "card ((\<lambda>k. i + k) ` {..<n}) \<le> card {j. j < length fs \<and> fs ! j}"
    by (intro card_mono) auto
  then show ?thesis by (simp add: card_image length_filter_conv_card)
qed

lemma page_free_iff: "i < PMM_PAGES \<Longrightarrow> pmm_page_free s i \<longleftrightarrow> i \<notin> pages_used s"
  using is_page_used_iff [of i s] by (simp add: pmm_page_free_def addr_of_page_def)

lemma itoa_digits_value:
  "foldr (\<lambda>c acc. acc * 10 + (of_char c - 48)) (itoa_digits n) (0::nat) = n"
  by (induction n rule: itoa_digits.induct)
    (subst itoa_digits.simps, auto simp: digit_char_def)

definition user_free :: "pmm \<Rightarrow> bool list" where
  "user_free s = map (\<lambda>p. p \<notin> pages_used s) user_pages"

lemma user_pages_facts: "distinct user_pages" "set user_pages = {FIRST_USER_PAGE..<PMM_PAGES}"
    "length user_pages = PMM_PAGES - FIRST_USER_PAGE"
  by (simp_all only: user_pages_def distinct_upt set_upt length_upt)

lemma map_page_free: "map (pmm_page_free s) user_pages = user_free s"
  unfolding user_free_def by (rule map_cong) (auto simp: page_free_iff user_pages_facts)

lemma length_filter_user:
  "length (filter P user_pages) = card {p \<in> {FIRST_USER_PAGE..<PMM_PAGES}. P p}"
proof -
  have "length (filter P user_pages) = card (set (filter P user_pages))"
    by (rule distinct_card [symmetric]) (simp add: user_pages_facts)
  also have "set (filter P user_pages) = {p \<in> {FIRST_USER_PAGE..<PMM_PAGES}. P p}"
    by (auto simp: user_pages_facts)
  finally show ?thesis .
qed

lemma scan_used: "sc_used (run_scan_pages (user_free s)) = card (pages_used s \<inter> {FIRST_USER_PAGE..<PMM_PAGES})"
proof -
  have "sc_used (run_scan_pages (user_free s)) = length (filter (\<lambda>p. p \<in> pages_used s) user_pages)"
    unfolding run_scan_used user_free_def by (simp add: filter_map comp_def)
  also have "\<dots> = card {p \<in> {FIRST_USER_PAGE..<PMM_PAGES}. p \<in> pages_used s}"
    by (rule length_filter_user)
  also have "{p \<in> {FIRST_USER_PAGE..<PMM_PAGES}. p \<in> pages_used s} = pages_used s \<inter> {FIRST_USER_PAGE..<PMM_PAGES}"
    by blast
  finally show ?thesis .
qed

lemma scan_free:
  "sc_used (run_scan_pages (user_free s)) + length (filter id (user_free s)) = PMM_PAGES - FIRST_USER_PAGE"
  unfolding run_scan_used
  using sum_length_filter_compl [of Not "user_free s"]
  by (simp add: user_free_def user_pages_facts id_def)

lemma stats_fields:
  "used_pages (pmm_get_stats s) = sc_used (run_scan_pages (user_free s))"
  "total_pages (pmm_get_stats s) = PMM_PAGES - FIRST_USER_PAGE"
  "free_pages (pmm_get_stats s) = length (filter id (user_free s))"
  "largest_free_run (pmm_get_stats s) = sc_largest (run_scan_pages (user_free s))"
  "free_runs (pmm_get_stats s) = sc_runs (run_scan_pages (user_free s))"
  using scan_free [of s] by (simp_all add: pmm_get_stats_def Let_def map_page_free)

lemma stats_fragmentation:
  "fragmentation_permille (pmm_get_stats s) =
     (if free_pages (pmm_get_stats s) = 0 \<or> largest_free_run (pmm_get_stats s) = 0 then 0
      else 1000 - (largest_free_run (pmm_get_stats s) * 1000) div free_pages (pmm_get_stats s))"
  by (simp add: pmm_get_stats_def Let_def)

lemma free_pages_count: "pmm_get_free_pages s = length (filter id (user_free s))"
  by (simp add: pmm_get_free_pages_def user_free_def filter_map comp_def)
    (rule arg_cong [where f = length], rule filter_cong, auto simp: page_free_iff user_pages_facts)

lemma largest_run_le_free: "largest_free_run (pmm_get_stats s) \<le> free_pages (pmm_get_stats s)"
  using run_scan_largest [of "sc_largest (run_scan_pages (user_free s))" "user_free s"] is_run_count
  unfolding stats_fields by blast

lemma largest_run_pos:
  assumes "0 < free_pages (pmm_get_stats s)"
  shows "0 < largest_free_run (pmm_get_stats s)"
proof -
  obtain j where "j < length (user_free s)" "user_free s ! j"
    using assms unfolding stats_fields by (auto simp: filter_empty_conv in_set_conv_nth)
  then have "is_run (user_free s) j 1" by (simp add: is_run_def)
  then have "1 \<le> sc_largest (run_scan_pages (user_free s))" unfolding run_scan_largest by blast
  then show ?thesis unfolding stats_fields by simp
qed

lemma fragmentation_zero_iff:
  "fragmentation_permille (pmm_get_stats s) = 0 \<longleftrightarrow>
     free_pages (pmm_get_stats s) = largest_free_run (pmm_get_stats s)"
proof (cases "free_pages (pmm_get_stats s) = 0 \<or> largest_free_run (pmm_get_stats s) = 0")
  case True
  with largest_run_pos [of s] largest_run_le_free [of s]
  have "free_pages (pmm_get_stats s) = 0" "largest_free_run (pmm_get_stats s) = 0" by linarith+
  then show ?thesis by (simp add: stats_fragmentation)
next
  case False
  have "1000 \<le> (largest_free_run (pmm_get_stats s) * 1000) div free_pages (pmm_get_stats s) \<longleftrightarrow>
      free_pages (pmm_get_stats s) \<le> largest_free_run (pmm_get_stats s)"
    using False by (simp add: less_eq_div_iff_mult_less_eq)
  with False largest_run_le_free [of s] show ?thesis by (auto simp: stats_fragmentation)
qed

section \<open>Properties\<close>

text \<open>
  C4. \<open>pmm_alloc_page\<close> implements the abstract allocator on sets of pages: while a page is free it
  returns the address of the lowest free page and adds exactly that page to the used set; when
  every page is used it returns 0 and changes nothing but the call counter. It never reads
  outside the bitmap.
\<close>

theorem pmm_alloc_page_refines:
  assumes "pmm_inv s"
  shows "case find_slot (\<lambda>p. p \<notin> pages_used s) [0..<PMM_PAGES] of
      None \<Rightarrow> pmm_alloc_page s = Some (0, s\<lparr>pmm_alloc_calls := pmm_alloc_calls s + 1\<rparr>)
    | Some p \<Rightarrow> \<exists>s'. pmm_alloc_page s = Some (addr_of_page p, s') \<and> addr_of_page p \<noteq> 0 \<and>
        pages_used s' = insert p (pages_used s) \<and> pmm_inv s'"
proof -
  have wf: "pmm_wf s" and z: "0 \<in> pages_used s" using assms by (auto simp: pmm_inv_def)
  show ?thesis
  proof (rule pmm_alloc_page_cases [OF wf])
    assume "pages_used s = {..<PMM_PAGES}"
      and "pmm_alloc_page s = Some (0, s\<lparr>pmm_alloc_calls := pmm_alloc_calls s + 1\<rparr>)"
    moreover from this(1) have "find_slot (\<lambda>p. p \<notin> pages_used s) [0..<PMM_PAGES] = None"
      by (auto simp: find_slot_None)
    ultimately show ?thesis by simp
  next
    fix p s'
    assume p: "p < PMM_PAGES" "p \<notin> pages_used s" "\<forall>q < p. q \<in> pages_used s"
      "pmm_alloc_page s = Some (addr_of_page p, s')" "pmm_wf s'" "pages_used s' = insert p (pages_used s)"
    then have "find_slot (\<lambda>p. p \<notin> pages_used s) [0..<PMM_PAGES] = Some p"
      by (intro find_slot_SomeI) auto
    moreover have "p \<noteq> 0" using p(2) z by metis
    ultimately show ?thesis using p z by (auto simp: pmm_inv_def addr_of_page_eq_0)
  qed
qed

definition pmm_boot :: pmm where
  "pmm_boot = \<lparr>memory_bitmap = (replicate BITMAP_SIZE 0)[0 := 1], pmm_alloc_calls = 0, pmm_free_calls = 0\<rparr>"

lemma pmm_boot_used: "pages_used pmm_boot = {0}"
  by (auto simp: pages_used_def page_bit_def pmm_boot_def nth_list_update bit_1_iff split: if_splits)

lemma pmm_boot_inv: "pmm_inv pmm_boot"
  by (simp add: pmm_inv_def pmm_boot_used) (simp add: pmm_wf_def pmm_boot_def)

theorem pmm_alloc_page_refines_witness:
  "\<exists>s'. pmm_alloc_page pmm_boot = Some (0x1000, s') \<and> pages_used s' = {0, 1}"
proof -
  have "find_slot (\<lambda>p. p \<notin> pages_used pmm_boot) [0..<PMM_PAGES] = Some 1"
    by (rule find_slot_SomeI) (auto simp: pmm_boot_used)
  with pmm_alloc_page_refines [OF pmm_boot_inv] show ?thesis
    by (auto simp: pmm_boot_used addr_of_page_def insert_commute)
qed

text \<open>
  C34. When the first megabyte is in use, freeing the page that \<open>pmm_alloc_page\<close> just returned restores the set of used pages, and the next allocation returns the
  same page; marking that page with \<open>pmm_set_page\<close> in the first place has the effect of the allocation on the set; and freeing any address below 1 MB changes nothing.
\<close>

theorem pmm_free_alloc_roundtrip:
  assumes "pmm_inv s" "{..<FIRST_USER_PAGE} \<subseteq> pages_used s"
    "pmm_alloc_page s = Some (r, s')" "r \<noteq> 0"
  shows "(\<exists>s''. pmm_free_page r s' = Some s'' \<and> pages_used s'' = pages_used s \<and> pmm_inv s'' \<and> (\<exists>s3. pmm_alloc_page s'' = Some (r, s3))) \<and>
    (\<exists>s1. pmm_set_page r s = Some s1 \<and> pages_used s1 = pages_used s' \<and> pages_used s' \<noteq> pages_used s) \<and>
    (\<forall>a < 0x100000. pmm_free_page a s' = Some s')"
proof -
  have wf: "pmm_wf s" using assms(1) by (simp add: pmm_inv_def)
  obtain p where p: "p < PMM_PAGES" "r = addr_of_page p" "p \<notin> pages_used s" "\<forall>q < p. q \<in> pages_used s"
    "pages_used s' = insert p (pages_used s)"
    by (rule pmm_alloc_page_cases [OF wf]) (use assms(3,4) in auto)
  have inv': "pmm_inv s'" using assms(1,3) by (rule pmm.alloc_inv)
  have ge: "FIRST_USER_PAGE \<le> p" using p(3) assms(2) by (force simp: not_le)
  obtain t where t: "pmm_free_page (addr_of_page p) s' = Some t" "pages_used t = pages_used s' - {p}"
    using inv' ge p(1) by (auto simp: pmm_inv_def intro: free_page_used [of s' p])
  have ti: "pmm_inv t" "pages_used t = pages_used s" using pmm_free_page_inv [OF inv' t(1)] t(2) p(3,5) by simp_all
  then have wt: "pmm_wf t" by (simp add: pmm_inv_def)
  have "\<exists>s3. pmm_alloc_page t = Some (r, s3)"
  proof (rule pmm_alloc_page_cases [OF wt])
    fix q s3 assume q: "q \<notin> pages_used t" "\<forall>i < q. i \<in> pages_used t" "pmm_alloc_page t = Some (addr_of_page q, s3)"
    then have "q = p" using p(3,4) ti(2) by (metis linorder_neqE_nat)
    with q(3) p(2) show ?thesis by simp
  qed (use p(1,3) ti(2) in auto)
  moreover obtain s1 where "pmm_set_page (addr_of_page p) s = Some s1" "pages_used s1 = insert p (pages_used s)" by (rule set_page_used [OF wf p(1)])
  ultimately show ?thesis using p ti t(1) by (auto simp: pmm_free_page_def)
qed

theorem pmm_free_alloc_roundtrip_witness:
  "\<exists>s r s' s''. pmm_inv s \<and> pmm_alloc_page s = Some (r, s') \<and> r = 0x100000 \<and>
     pmm_free_page r s' = Some s'' \<and> pages_used s'' = {..<FIRST_USER_PAGE}"
proof -
  obtain s where s: "init_pmm 0x100000 pmm_boot = Some s" "pmm_wf s" "pages_used s = {p. p * PAGE_SIZE < 0x100000}"
    using init_pmm_spec [of "0x100000" pmm_boot] by auto
  then have used: "pages_used s = {..<FIRST_USER_PAGE}" by auto
  with s have inv: "pmm_inv s" by (simp add: pmm_inv_def)
  have "find_slot (\<lambda>p. p \<notin> pages_used s) [0..<PMM_PAGES] = Some FIRST_USER_PAGE"
    by (rule find_slot_SomeI) (auto simp: used)
  with pmm_alloc_loop_spec [of "s\<lparr>pmm_alloc_calls := pmm_alloc_calls s + 1\<rparr>" PMM_PAGES 0] s
  obtain s' where s': "pmm_alloc_page s = Some (addr_of_page FIRST_USER_PAGE, s')"
    by (auto simp: pmm_alloc_page_def)
  then have a: "pmm_alloc_page s = Some (0x100000, s')" by (simp add: addr_of_page_def)
  have "{..<FIRST_USER_PAGE} \<subseteq> pages_used s" by (simp add: used)
  from pmm_free_alloc_roundtrip [OF inv this a] obtain s'' where
    "pmm_free_page 0x100000 s' = Some s''" "pages_used s'' = {..<FIRST_USER_PAGE}"
    by (auto simp: used)
  with inv a show ?thesis by blast
qed

text \<open>
  \<open>pmm_get_stats\<close> reports what its fields say about the pages above 1 MB: the used count is the
  number of used pages, used and free add up to the total, the largest free run is the length of
  the longest interval of free pages, the number of runs is the number of maximal intervals, and
  the fragmentation figure lies between 0 and 1000 and is 0 exactly when the free pages form
  a single interval or there are none.
\<close>

theorem pmm_get_stats_correct:
  "used_pages (pmm_get_stats s) = card (pages_used s \<inter> {FIRST_USER_PAGE..<PMM_PAGES}) \<and>
   used_pages (pmm_get_stats s) + free_pages (pmm_get_stats s) = total_pages (pmm_get_stats s) \<and>
   free_pages (pmm_get_stats s) = pmm_get_free_pages s \<and>
   (\<exists>i. is_run (user_free s) i (largest_free_run (pmm_get_stats s))) \<and>
   (\<forall>i n. is_run (user_free s) i n \<longrightarrow> n \<le> largest_free_run (pmm_get_stats s)) \<and>
   free_runs (pmm_get_stats s) = card (run_starts (user_free s)) \<and>
   fragmentation_permille (pmm_get_stats s) \<le> 1000 \<and>
   (fragmentation_permille (pmm_get_stats s) = 0 \<longleftrightarrow>
      free_pages (pmm_get_stats s) = largest_free_run (pmm_get_stats s))"
proof (intro conjI)
  show "\<exists>i. is_run (user_free s) i (largest_free_run (pmm_get_stats s))"
    unfolding stats_fields run_scan_largest [symmetric] by simp
  show "\<forall>i n. is_run (user_free s) i n \<longrightarrow> n \<le> largest_free_run (pmm_get_stats s)"
    unfolding stats_fields run_scan_largest by blast
  show "fragmentation_permille (pmm_get_stats s) \<le> 1000"
    by (simp add: stats_fragmentation)
qed (simp_all add: stats_fields scan_used run_scan_runs free_pages_count fragmentation_zero_iff
       scan_free [unfolded scan_used])

theorem pmm_get_stats_correct_witness:
  "is_run (user_free pmm_boot) 0 7936 \<and> 7936 \<le> largest_free_run (pmm_get_stats pmm_boot)"
proof -
  have "is_run (user_free pmm_boot) 0 7936"
    using nth_mem [of _ user_pages]
    by (force simp: is_run_def user_free_def pmm_boot_used user_pages_facts)
  with pmm_get_stats_correct [of pmm_boot] show ?thesis by blast
qed

text \<open>
  \<open>init_pmm\<close> reserves exactly the pages that lie below the kernel's end and establishes the
  allocator's invariant, for every kernel end between 1 byte and 32 MB.
\<close>

theorem init_pmm_reserves:
  assumes "0 < kernel_end" "unat kernel_end \<le> PMM_PAGES * PAGE_SIZE"
  shows "\<exists>s'. init_pmm kernel_end s = Some s' \<and> pmm_inv s' \<and>
     (\<forall>p. p \<in> pages_used s' \<longleftrightarrow> p * PAGE_SIZE < unat kernel_end)"
proof -
  obtain s' where s': "init_pmm kernel_end s = Some s'" "pmm_wf s'"
    "pages_used s' = {p. p * PAGE_SIZE < unat kernel_end}"
    using init_pmm_spec [OF assms(2)] by blast
  moreover have "0 < unat kernel_end" using assms(1) by (simp add: word_less_nat_alt)
  ultimately show ?thesis by (auto simp: pmm_inv_def)
qed

theorem init_pmm_reserves_witness:
  "\<exists>s'. init_pmm 0x401000 pmm_boot = Some s' \<and> pmm_inv s' \<and> 1024 \<in> pages_used s' \<and> 1025 \<notin> pages_used s'"
  using init_pmm_reserves [of "0x401000" pmm_boot] by auto

text \<open>
  The C code never checks an address against the size of the bitmap: \<open>pmm_free_page\<close> and
  \<open>pmm_is_page_used\<close> stay inside it exactly for addresses below 32 MB (and, for \<open>pmm_free_page\<close>,
  those below 1 MB which it rejects first); every other address makes them access memory behind
  the bitmap.
\<close>

theorem pmm_bitmap_bounds:
  "(pmm_free_page a s = None \<longleftrightarrow> PMM_PAGES * PAGE_SIZE \<le> unat a) \<and>
   (pmm_is_page_used a s = None \<longleftrightarrow> PMM_PAGES * PAGE_SIZE \<le> unat a) \<and>
   (pmm_set_page a s = None \<longleftrightarrow> PMM_PAGES * PAGE_SIZE \<le> unat a)"
proof -
  have "\<not> pmm_page a div 8 < BITMAP_SIZE \<longleftrightarrow> PMM_PAGES * PAGE_SIZE \<le> unat a"
    unfolding pmm_page_def by linarith
  then show ?thesis
    by (auto simp: pmm_free_page_def pmm_is_page_used_def pmm_set_page_def Let_def word_less_nat_alt)
qed

end
