(* ===== verification/Slab.thy ===== *)
theory Slab
  imports Pmm
begin

text \<open>
  The slab allocator of \<open>src/kernel/pmm.c\<close>: four classes of small objects carved out of pages
  that \<open>pmm_alloc_page\<close> provides. The free objects of a class form a singly linked list that is
  stored in the objects themselves, so the model has an explicit store \<open>km_heap\<close> from addresses to
  the word stored there (the \<open>next\<close> field of \<open>SlabNode\<close>).

  \<open>slab_rep\<close> relates a state to what it represents: the class each page belongs to, the live objects
  of each class and its free objects in list order. \<open>slab_alloc\<close> and \<open>slab_free\<close> move objects
  between the free list and the live set and never lose or duplicate one.
\<close>

section \<open>State and operations\<close>

abbreviation SLAB_CACHE_COUNT :: nat where "SLAB_CACHE_COUNT \<equiv> 4"

type_synonym heap = "u32 \<Rightarrow> u32"

record slab_cache =
  obj_size :: nat
  free_list :: u32
  slab_pages :: u32
  slab_allocs :: u32
  slab_frees :: u32
  in_use :: u32

record kmem =
  km_pmm :: pmm
  km_heap :: heap
  slab_caches :: "slab_cache list"

definition slab_cache0 :: "nat \<Rightarrow> slab_cache" where
  "slab_cache0 n = \<lparr>obj_size = n, free_list = 0, slab_pages = 0, slab_allocs = 0, slab_frees = 0, in_use = 0\<rparr>"

definition slab_caches0 :: "slab_cache list" where
  "slab_caches0 = [slab_cache0 32, slab_cache0 64, slab_cache0 128, slab_cache0 256]"

definition slab_pick_cache :: "nat \<Rightarrow> slab_cache list \<Rightarrow> nat option" where
  "slab_pick_cache req cs = find_slot (\<lambda>c. req \<le> obj_size c) cs"

text \<open>The carving loop: \<open>offset\<close> runs over the page in steps of the object size.\<close>

function slab_carve :: "nat \<Rightarrow> u32 \<Rightarrow> nat \<Rightarrow> heap \<Rightarrow> u32 \<Rightarrow> heap \<times> u32" where
  "slab_carve sz page offset h fl =
     (if 0 < sz \<and> offset + sz \<le> PAGE_SIZE
      then slab_carve sz page (offset + sz) (h(page + of_nat offset := fl)) (page + of_nat offset)
      else (h, fl))"
  by pat_completeness auto
termination
  by (relation "measure (\<lambda>(sz, page, offset, h, fl). PAGE_SIZE - offset)") auto

declare slab_carve.simps [simp del]

definition slab_grow_cache :: "nat \<Rightarrow> kmem \<Rightarrow> (bool \<times> kmem) option" where
  "slab_grow_cache i k =
     (let c = slab_caches k ! i in
      if obj_size c < 4 then Some (False, k)
      else case pmm_alloc_page (km_pmm k) of
             None \<Rightarrow> None
           | Some (page, p) \<Rightarrow>
               if page = 0 then Some (False, k\<lparr>km_pmm := p\<rparr>)
               else let (h, fl) = slab_carve (obj_size c) page 0 (km_heap k) (free_list c)
                    in Some (True, k\<lparr>km_pmm := p, km_heap := h,
                         slab_caches := (slab_caches k)[i := c\<lparr>slab_pages := slab_pages c + 1, free_list := fl\<rparr>]\<rparr>))"

text \<open>The last lines of \<open>slab_alloc\<close>: take the first node of a non-empty free list.\<close>

definition slab_take :: "nat \<Rightarrow> kmem \<Rightarrow> u32 \<times> kmem" where
  "slab_take i k =
     (let c = slab_caches k ! i; node = free_list c in
      (node, k\<lparr>slab_caches := (slab_caches k)[i := c\<lparr>free_list := km_heap k node,
                 slab_allocs := slab_allocs c + 1, in_use := in_use c + 1\<rparr>]\<rparr>))"

definition slab_alloc :: "nat \<Rightarrow> kmem \<Rightarrow> (u32 \<times> kmem) option" where
  "slab_alloc req k =
     (case slab_pick_cache req (slab_caches k) of
        None \<Rightarrow> map_option (\<lambda>(r, p). (r, k\<lparr>km_pmm := p\<rparr>)) (pmm_alloc_page (km_pmm k))
      | Some i \<Rightarrow>
          if free_list (slab_caches k ! i) = 0
          then (case slab_grow_cache i k of
                  None \<Rightarrow> None
                | Some (False, k') \<Rightarrow> Some (0, k')
                | Some (True, k') \<Rightarrow> Some (slab_take i k'))
          else Some (slab_take i k))"

definition slab_free :: "u32 \<Rightarrow> nat \<Rightarrow> kmem \<Rightarrow> (bool \<times> kmem) option" where
  "slab_free ptr req k =
     (if ptr = 0 then Some (False, k)
      else case slab_pick_cache req (slab_caches k) of
        None \<Rightarrow> map_option (\<lambda>p. (True, k\<lparr>km_pmm := p\<rparr>)) (pmm_free_page ptr (km_pmm k))
      | Some i \<Rightarrow>
          let c = slab_caches k ! i in
          Some (True, k\<lparr>km_heap := (km_heap k)(ptr := free_list c),
                 slab_caches := (slab_caches k)[i := c\<lparr>free_list := ptr, slab_frees := slab_frees c + 1,
                    in_use := (if in_use c > 0 then in_use c - 1 else in_use c)\<rparr>]\<rparr>))"

record slab_class_stats =
  scs_obj_size :: nat
  scs_pages :: u32
  scs_allocs :: u32
  scs_frees :: u32
  scs_in_use :: u32
  scs_free_objects :: nat

text \<open>The counting walk over the free list; it does not return when the list is cyclic.\<close>

partial_function (option) slab_count :: "heap \<Rightarrow> u32 \<Rightarrow> nat \<Rightarrow> nat option" where
  "slab_count h n cnt = (if n = 0 then Some cnt else slab_count h (h n) (Suc cnt))"

datatype slab_stats_result = BadClass | Stats slab_class_stats

definition slab_get_stats :: "int \<Rightarrow> kmem \<Rightarrow> slab_stats_result option" where
  "slab_get_stats class_index k =
     (if class_index < 0 \<or> class_index \<ge> int SLAB_CACHE_COUNT then Some BadClass
      else let c = slab_caches k ! nat class_index in
        map_option (\<lambda>n. Stats \<lparr>scs_obj_size = obj_size c, scs_pages = slab_pages c,
           scs_allocs = slab_allocs c, scs_frees = slab_frees c, scs_in_use = in_use c, scs_free_objects = n\<rparr>)
          (slab_count (km_heap k) (free_list c) 0))"

section \<open>Linked free lists\<close>

fun flist :: "heap \<Rightarrow> u32 \<Rightarrow> u32 list \<Rightarrow> bool" where
  "flist h p [] \<longleftrightarrow> p = 0"
| "flist h p (x # xs) \<longleftrightarrow> p = x \<and> x \<noteq> 0 \<and> flist h (h x) xs"

lemma flist_null [simp]: "flist h 0 xs \<longleftrightarrow> xs = []"
  by (cases xs) auto

lemma flist_upd [simp]: "u \<notin> set xs \<Longrightarrow> flist (h(u := v)) p xs = flist h p xs"
  by (induction xs arbitrary: p) auto

lemma flist_cong: "(\<And>x. x \<in> set xs \<Longrightarrow> h x = h' x) \<Longrightarrow> flist h p xs = flist h' p xs"
  by (induction xs arbitrary: p) auto

lemma flist_nonzero: "flist h p xs \<Longrightarrow> 0 \<notin> set xs"
  by (induction xs arbitrary: p) auto

lemma slab_count_flist: "flist h p xs \<Longrightarrow> slab_count h p cnt = Some (cnt + length xs)"
proof (induction xs arbitrary: p cnt)
  case Nil
  then show ?case by (simp add: slab_count.simps)
next
  case (Cons x xs)
  then show ?case by (subst slab_count.simps) auto
qed

section \<open>The objects of a page\<close>

definition obj_addr :: "nat \<Rightarrow> nat \<Rightarrow> nat \<Rightarrow> u32" where
  "obj_addr sz p m = addr_of_page p + of_nat (m * sz)"

definition page_objs :: "nat \<Rightarrow> nat \<Rightarrow> u32 list" where
  "page_objs sz p = map (obj_addr sz p) [0..<PAGE_SIZE div sz]"

lemma obj_offset: "m < PAGE_SIZE div sz \<Longrightarrow> m * sz + sz \<le> PAGE_SIZE"
proof -
  assume "m < PAGE_SIZE div sz"
  then have "Suc m * sz \<le> (PAGE_SIZE div sz) * sz" by (intro mult_right_mono) auto
  also have "\<dots> \<le> PAGE_SIZE" by simp
  finally show ?thesis by simp
qed

lemma unat_obj_addr:
  assumes "p < PMM_PAGES" "m < PAGE_SIZE div sz" "0 < sz"
  shows "unat (obj_addr sz p m) = p * PAGE_SIZE + m * sz"
proof -
  have "m * sz < PAGE_SIZE" using obj_offset [OF assms(2)] assms(3) by linarith
  with assms(1) have "p * PAGE_SIZE + m * sz < 2 ^ 32" by simp
  then show ?thesis unfolding obj_addr_def addr_of_page_def
    by (simp only: of_nat_add [symmetric] unat_of_nat) simp
qed

lemma pmm_page_obj:
  assumes "p < PMM_PAGES" "m < PAGE_SIZE div sz" "0 < sz"
  shows "pmm_page (obj_addr sz p m) = p"
proof -
  have "m * sz < PAGE_SIZE" using obj_offset [OF assms(2)] assms(3) by linarith
  then show ?thesis by (simp add: pmm_page_def unat_obj_addr [OF assms])
qed

lemma obj_addr_inj:
  assumes "p < PMM_PAGES" "m < PAGE_SIZE div sz" "m' < PAGE_SIZE div sz" "0 < sz"
    "obj_addr sz p m = obj_addr sz p m'"
  shows "m = m'"
proof -
  have "p * PAGE_SIZE + m * sz = p * PAGE_SIZE + m' * sz"
    unfolding unat_obj_addr [OF assms(1,2,4), symmetric] unat_obj_addr [OF assms(1,3,4), symmetric]
    by (rule arg_cong [OF assms(5)])
  then show ?thesis using assms(4) by auto
qed

lemma distinct_page_objs: "p < PMM_PAGES \<Longrightarrow> 0 < sz \<Longrightarrow> distinct (page_objs sz p)"
  by (auto simp: page_objs_def distinct_map inj_on_def dest: obj_addr_inj)

lemma page_objs_page: "p < PMM_PAGES \<Longrightarrow> 0 < sz \<Longrightarrow> x \<in> set (page_objs sz p) \<Longrightarrow> pmm_page x = p"
  by (auto simp: page_objs_def pmm_page_obj)

lemma page_objs_nonzero: "p < PMM_PAGES \<Longrightarrow> 0 < p \<Longrightarrow> 0 < sz \<Longrightarrow> 0 \<notin> set (page_objs sz p)"
  using page_objs_page [of p sz 0] by (auto simp: pmm_page_def)

text \<open>The carving loop threads all objects of the page onto the free list, last object first.\<close>

lemma slab_carve_spec:
  assumes "flist h fl xs" "0 < sz" "p < PMM_PAGES" "0 < p" "m \<le> PAGE_SIZE div sz"
    "set xs \<inter> set (page_objs sz p) = obj_addr sz p ` {..<m}"
    "slab_carve sz (addr_of_page p) (m * sz) h fl = (h', fl')"
  shows "flist h' fl' (rev (map (obj_addr sz p) [m..<PAGE_SIZE div sz]) @ xs) \<and>
    (\<forall>x. x \<notin> set (page_objs sz p) \<longrightarrow> h' x = h x)"
  using assms
proof (induction "PAGE_SIZE div sz - m" arbitrary: m h fl xs)
  case 0
  then have m: "m = PAGE_SIZE div sz" by linarith
  have "\<not> m * sz + sz \<le> PAGE_SIZE"
    unfolding m not_le using dividend_less_div_times [OF 0(3), of PAGE_SIZE] by linarith
  with 0(8) have "h' = h" "fl' = fl" by (auto simp: slab_carve.simps)
  with 0(2) m show ?case by simp
next
  case (Suc d)
  have m: "m < PAGE_SIZE div sz" using Suc.hyps(2) by simp
  let ?a = "obj_addr sz p m"
  have a: "addr_of_page p + of_nat (m * sz) = ?a" by (simp add: obj_addr_def)
  have mem: "?a \<in> set (page_objs sz p)" using m by (simp add: page_objs_def)
  have nin: "?a \<notin> set xs"
  proof
    assume "?a \<in> set xs"
    with mem Suc.prems(6) have "?a \<in> obj_addr sz p ` {..<m}" by blast
    then obtain m' where m': "m' < m" "obj_addr sz p m = obj_addr sz p m'" by auto
    have "m' < PAGE_SIZE div sz" using m m'(1) by (rule less_trans [rotated])
    from obj_addr_inj [OF Suc.prems(3) m this Suc.prems(2) m'(2)] m'(1) show False by simp
  qed
  have nz: "?a \<noteq> 0" using mem page_objs_nonzero Suc.prems(2,3,4) by metis
  have fl: "flist (h(?a := fl)) ?a (?a # xs)" using Suc.prems(1) nin nz by simp
  have objs: "set (?a # xs) \<inter> set (page_objs sz p) = obj_addr sz p ` {..<Suc m}"
    using Suc.prems(6) mem by (auto simp: lessThan_Suc)
  have run: "slab_carve sz (addr_of_page p) (Suc m * sz) (h(?a := fl)) ?a = (h', fl')"
    using Suc.prems(2,7) obj_offset [OF m]
    by (subst (asm) slab_carve.simps) (simp only: a mult_Suc add.commute conj_absorb simp_thms if_True)
  have d: "d = PAGE_SIZE div sz - Suc m" using Suc.hyps(2) by linarith
  have IH: "flist h' fl' (rev (map (obj_addr sz p) [Suc m..<PAGE_SIZE div sz]) @ ?a # xs) \<and>
    (\<forall>x. x \<notin> set (page_objs sz p) \<longrightarrow> h' x = (h(?a := fl)) x)"
    by (rule Suc.hyps(1) [OF d fl Suc.prems(2,3,4) Suc_leI [OF m] objs run])
  moreover have "[m..<PAGE_SIZE div sz] = m # [Suc m..<PAGE_SIZE div sz]"
    using m by (rule upt_conv_Cons)
  ultimately show ?case using mem by auto
qed


section \<open>What a state represents\<close>

definition class_objs :: "(nat \<rightharpoonup> nat) \<Rightarrow> nat \<Rightarrow> nat \<Rightarrow> u32 set" where
  "class_objs own i sz = (\<Union>p \<in> {p. own p = Some i}. set (page_objs sz p))"

definition slab_sizes :: "nat list" where
  "slab_sizes = [32, 64, 128, 256]"

definition slab_rep :: "kmem \<Rightarrow> (nat \<rightharpoonup> nat) \<Rightarrow> (nat \<Rightarrow> u32 set) \<Rightarrow> u32 list list \<Rightarrow> bool" where
  "slab_rep k own live xss \<longleftrightarrow>
     pmm_inv (km_pmm k) \<and> map obj_size (slab_caches k) = slab_sizes \<and> length xss = SLAB_CACHE_COUNT \<and>
     dom own \<subseteq> pages_used (km_pmm k) - {0} \<and>
     (\<forall>i < SLAB_CACHE_COUNT.
        flist (km_heap k) (free_list (slab_caches k ! i)) (xss ! i) \<and> distinct (xss ! i) \<and>
        set (xss ! i) \<inter> live i = {} \<and> set (xss ! i) \<union> live i = class_objs own i (slab_sizes ! i))"

lemma slab_repD:
  assumes "slab_rep k own live xss"
  shows "pmm_inv (km_pmm k)" "map obj_size (slab_caches k) = slab_sizes" "length xss = SLAB_CACHE_COUNT"
    "dom own \<subseteq> pages_used (km_pmm k) - {0}" "length (slab_caches k) = SLAB_CACHE_COUNT"
proof -
  show "map obj_size (slab_caches k) = slab_sizes" using assms by (simp add: slab_rep_def)
  from arg_cong [OF this, of length] show "length (slab_caches k) = SLAB_CACHE_COUNT"
    by (simp add: slab_sizes_def)
qed (use assms in \<open>simp_all add: slab_rep_def\<close>)

lemma slab_rep_class:
  assumes "slab_rep k own live xss" "i < SLAB_CACHE_COUNT"
  shows "flist (km_heap k) (free_list (slab_caches k ! i)) (xss ! i)" "distinct (xss ! i)"
    "set (xss ! i) \<inter> live i = {}" "set (xss ! i) \<union> live i = class_objs own i (slab_sizes ! i)"
    "obj_size (slab_caches k ! i) = slab_sizes ! i"
  using assms slab_repD(5) [OF assms(1)]
  by (auto simp: slab_rep_def) (metis nth_map slab_repD(5) [OF assms(1)])

lemma slab_size_pos: "i < SLAB_CACHE_COUNT \<Longrightarrow> 4 \<le> slab_sizes ! i"
  by (auto simp: slab_sizes_def nth_Cons' )

lemma own_page:
  assumes "dom own \<subseteq> pages_used s - {0}" "own p = Some i"
  shows "p < PMM_PAGES" "0 < p"
  using assms by (auto simp: pages_used_def)

lemma class_objs_disjoint:
  assumes "dom own \<subseteq> pages_used s - {0}" "i \<noteq> j" "0 < a" "0 < b"
  shows "class_objs own i a \<inter> class_objs own j b = {}"
proof -
  have False if "own p = Some i" "x \<in> set (page_objs a p)" "own q = Some j" "x \<in> set (page_objs b q)" for p q x
    using that page_objs_page own_page(1) [OF assms(1)] assms(2-4) by (metis option.inject)
  then show ?thesis by (auto simp: class_objs_def)
qed

lemma slab_pick_cache_spec:
  assumes "slab_rep k own live xss"
  shows "slab_pick_cache req (slab_caches k) = find_slot (\<lambda>s. req \<le> s) slab_sizes"
  unfolding slab_pick_cache_def slab_repD(2) [OF assms, symmetric] find_slot_map ..

lemma slab_pick_less: "find_slot (\<lambda>s. req \<le> s) slab_sizes = Some i \<Longrightarrow> i < SLAB_CACHE_COUNT \<and> req \<le> slab_sizes ! i"
  by (drule find_slot_SomeD) (simp add: slab_sizes_def)

lemma map_obj_size_update:
  "map obj_size cs = slab_sizes \<Longrightarrow> i < length cs \<Longrightarrow> obj_size c = obj_size (cs ! i) \<Longrightarrow>
   map obj_size (cs[i := c]) = slab_sizes"
  by (metis list_update_id map_update)

text \<open>Giving a fresh page with all its objects threaded onto the free list to an empty class.\<close>

lemma class_objs_upd:
  assumes "own p = None"
  shows "class_objs (own(p \<mapsto> i)) j sz =
    (if j = i then set (page_objs sz p) \<union> class_objs own i sz else class_objs own j sz)"
proof (cases "j = i")
  case True
  with assms show ?thesis by (auto simp: class_objs_def split: if_splits)
next
  case False
  with assms have "{q. (own(p \<mapsto> i)) q = Some j} = {q. own q = Some j}" by auto
  with False show ?thesis by (simp add: class_objs_def)
qed

lemma class_objs_other_page:
  assumes "dom own \<subseteq> pages_used s - {0}" "x \<in> class_objs own j sz" "own p = None" "p < PMM_PAGES" "0 < sz" "0 < sz'"
  shows "x \<notin> set (page_objs sz' p)"
proof
  assume x: "x \<in> set (page_objs sz' p)"
  obtain q where q: "own q = Some j" "x \<in> set (page_objs sz q)" using assms(2) by (auto simp: class_objs_def)
  have "q = p"
    using page_objs_page [OF own_page(1) [OF assms(1) q(1)] assms(5) q(2)] page_objs_page [OF assms(4,6) x] by simp
  with q assms(3) show False by simp
qed

lemma slab_rep_add_page:
  assumes rep: "slab_rep k own live xss" and i: "i < SLAB_CACHE_COUNT" and empty: "xss ! i = []"
    and p: "p < PMM_PAGES" "0 < p" "p \<notin> pages_used (km_pmm k)"
    and p': "pmm_inv p'" "pages_used p' = insert p (pages_used (km_pmm k))"
    and h: "flist h fl (rev (page_objs (slab_sizes ! i) p))"
      "\<And>x. x \<notin> set (page_objs (slab_sizes ! i) p) \<Longrightarrow> h x = km_heap k x"
    and c: "obj_size c = slab_sizes ! i" "free_list c = fl"
  shows "slab_rep (k\<lparr>km_pmm := p', km_heap := h, slab_caches := (slab_caches k)[i := c]\<rparr>)
    (own(p \<mapsto> i)) live (xss[i := rev (page_objs (slab_sizes ! i) p)])"
    (is "slab_rep ?k' ?own live ?xss")
proof -
  have sz: "0 < slab_sizes ! j" if "j < SLAB_CACHE_COUNT" for j using slab_size_pos [OF that] by simp
  have len: "i < length (slab_caches k)" "length xss = SLAB_CACHE_COUNT"
    using slab_repD(3,5) [OF rep] i by simp_all
  have pn: "own p = None" using p(3) slab_repD(4) [OF rep] by auto
  have other: "x \<notin> set (page_objs (slab_sizes ! i) p)"
    if "x \<in> class_objs own j (slab_sizes ! j)" "j < SLAB_CACHE_COUNT" for x j
    using class_objs_other_page [OF slab_repD(4) [OF rep] that(1) pn p(1) sz [OF that(2)] sz [OF i]] .
  show ?thesis
    unfolding slab_rep_def
  proof (intro conjI allI impI)
    show "map obj_size (slab_caches ?k') = slab_sizes"
      using map_obj_size_update [OF slab_repD(2) [OF rep] len(1)] c(1) slab_rep_class(5) [OF rep i] by simp
    show "dom ?own \<subseteq> pages_used (km_pmm ?k') - {0}" using slab_repD(4) [OF rep] p p' by auto
  next
    fix j assume j: "j < SLAB_CACHE_COUNT"
    note cl = slab_rep_class [OF rep j]
    have "flist h q (xss ! j) = flist (km_heap k) q (xss ! j)" for q
      by (rule flist_cong) (use h(2) other [OF _ j] cl(4) in auto)
    then show "flist (km_heap ?k') (free_list (slab_caches ?k' ! j)) (?xss ! j)"
      using h(1) cl(1) len c(2) i by (cases "j = i") auto
    show "distinct (?xss ! j)"
      using cl(2) distinct_page_objs [OF p(1) sz [OF i]] len i by (cases "j = i") auto
    show "set (?xss ! j) \<inter> live j = {}"
      using cl(3,4) other [OF _ j] len i by (cases "j = i") auto
    show "set (?xss ! j) \<union> live j = class_objs ?own j (slab_sizes ! j)"
      using cl(4) class_objs_upd [of own p i j] pn empty len i by (cases "j = i") auto
  qed (use p' len in simp_all)
qed

text \<open>Growing an empty class adds all objects of one fresh page to its free list.\<close>

lemma slab_grow_cache_spec:
  assumes rep: "slab_rep k own live xss" and i: "i < SLAB_CACHE_COUNT" and empty: "xss ! i = []"
    and grow: "slab_grow_cache i k = Some (ok, k')"
  shows "if ok then \<exists>p. p \<notin> pages_used (km_pmm k) \<and> pages_used (km_pmm k') = insert p (pages_used (km_pmm k)) \<and>
           slab_rep k' (own(p \<mapsto> i)) live (xss[i := rev (page_objs (slab_sizes ! i) p)])
         else slab_rep k' own live xss \<and> pages_used (km_pmm k') = pages_used (km_pmm k)"
proof -
  let ?c = "slab_caches k ! i" and ?sz = "slab_sizes ! i"
  have sz: "0 < ?sz" "obj_size ?c = ?sz" using slab_size_pos [OF i] slab_rep_class(5) [OF rep i] by auto
  have inv: "pmm_inv (km_pmm k)" by (rule slab_repD(1) [OF rep])
  obtain r p' where al: "pmm_alloc_page (km_pmm k) = Some (r, p')"
    using pmm.alloc_total [OF inv] by blast
  have inv': "pmm_inv p'" by (rule pmm.alloc_inv [OF inv al])
  have fl0: "free_list ?c = 0" using slab_rep_class(1) [OF rep i] empty by simp
  show ?thesis
  proof (cases "r = 0")
    case True
    with grow al sz slab_size_pos [OF i] have k': "ok = False" "k' = k\<lparr>km_pmm := p'\<rparr>"
      by (auto simp: slab_grow_cache_def Let_def)
    have "pages_used p' = pages_used (km_pmm k)" using pmm.alloc_fail inv al True by blast
    with rep k' inv' show ?thesis by (simp add: slab_rep_def)
  next
    case False
    obtain p where p: "p < PMM_PAGES" "r = addr_of_page p" "p \<notin> pages_used (km_pmm k)"
      "pages_used p' = insert p (pages_used (km_pmm k))"
      using pmm.alloc_page [OF inv al False] by blast
    have p0: "0 < p" using p(3) pmm.zero_used [OF inv] by (metis gr0I)
    obtain h fl where carve: "slab_carve ?sz (addr_of_page p) 0 (km_heap k) 0 = (h, fl)" by fastforce
    have spec: "flist h fl (rev (page_objs ?sz p)) \<and> (\<forall>x. x \<notin> set (page_objs ?sz p) \<longrightarrow> h x = km_heap k x)"
      using slab_carve_spec [of "km_heap k" 0 "[]" ?sz p 0 h fl] carve sz(1) p(1) p0
      by (auto simp: page_objs_def)
    have k': "ok" "k' = k\<lparr>km_pmm := p', km_heap := h,
        slab_caches := (slab_caches k)[i := ?c\<lparr>slab_pages := slab_pages ?c + 1, free_list := fl\<rparr>]\<rparr>"
      using grow al False sz slab_size_pos [OF i] carve fl0 p(2)
      by (auto simp: slab_grow_cache_def Let_def)
    have "slab_rep k' (own(p \<mapsto> i)) live (xss[i := rev (page_objs ?sz p)])"
      unfolding k'(2) by (rule slab_rep_add_page [OF rep i empty p(1) p0 p(3) inv' p(4)]) (use spec sz in auto)
    with k' p show ?thesis by auto
  qed
qed

text \<open>Taking the head of a non-empty free list, and putting a live object back.\<close>

lemma slab_rep_set_class:
  assumes rep: "slab_rep k own live xss" and i: "i < SLAB_CACHE_COUNT"
    and c: "obj_size c = slab_sizes ! i" "flist h (free_list c) xs" "distinct xs"
    and h: "\<And>j x. j < SLAB_CACHE_COUNT \<Longrightarrow> j \<noteq> i \<Longrightarrow> x \<in> set (xss ! j) \<Longrightarrow> h x = km_heap k x"
    and l: "set xs \<inter> l = {}" "set xs \<union> l = class_objs own i (slab_sizes ! i)"
  shows "slab_rep (k\<lparr>km_heap := h, slab_caches := (slab_caches k)[i := c]\<rparr>) own (live(i := l)) (xss[i := xs])"
    (is "slab_rep ?k' own ?live ?xss")
  unfolding slab_rep_def
proof (intro conjI allI impI)
  have len: "i < length (slab_caches k)" "length xss = SLAB_CACHE_COUNT"
    using slab_repD(3,5) [OF rep] i by simp_all
  show "map obj_size (slab_caches ?k') = slab_sizes"
    using map_obj_size_update [OF slab_repD(2) [OF rep] len(1)] c(1) slab_rep_class(5) [OF rep i] by simp
  fix j assume j: "j < SLAB_CACHE_COUNT"
  note cl = slab_rep_class [OF rep j]
  have "flist h q (xss ! j) = flist (km_heap k) q (xss ! j)" if "j \<noteq> i" for q
    by (rule flist_cong) (use h j that in auto)
  then show "flist (km_heap ?k') (free_list (slab_caches ?k' ! j)) (?xss ! j)"
    using cl(1) len c(2) i by (cases "j = i") auto
  show "distinct (?xss ! j)" using cl(2) c(3) len i by (cases "j = i") auto
  show "set (?xss ! j) \<inter> ?live j = {}" using cl(3) l(1) len i by (cases "j = i") auto
  show "set (?xss ! j) \<union> ?live j = class_objs own j (slab_sizes ! j)"
    using cl(4) l(2) len i by (cases "j = i") auto
qed (use slab_repD [OF rep] in simp_all)

lemma slab_take_spec:
  assumes rep: "slab_rep k own live xss" and i: "i < SLAB_CACHE_COUNT" and xs: "xss ! i = x # xs"
  shows "fst (slab_take i k) = x"
    "slab_rep (snd (slab_take i k)) own (live(i := insert x (live i))) (xss[i := xs])"
    "km_pmm (snd (slab_take i k)) = km_pmm k"
proof -
  note cl = slab_rep_class [OF rep i]
  show x: "fst (slab_take i k) = x" using cl(1) xs by (simp add: slab_take_def Let_def)
  show "km_pmm (snd (slab_take i k)) = km_pmm k" by (simp add: slab_take_def Let_def)
  have "snd (slab_take i k) = k\<lparr>km_heap := km_heap k, slab_caches := (slab_caches k)[i :=
      (slab_caches k ! i)\<lparr>free_list := km_heap k x, slab_allocs := slab_allocs (slab_caches k ! i) + 1,
         in_use := in_use (slab_caches k ! i) + 1\<rparr>]\<rparr>"
    using cl(1) xs by (simp add: slab_take_def Let_def)
  also have "slab_rep \<dots> own (live(i := insert x (live i))) (xss[i := xs])"
    by (rule slab_rep_set_class [OF rep i]) (use cl xs in auto)
  finally show "slab_rep (snd (slab_take i k)) own (live(i := insert x (live i))) (xss[i := xs])" .
qed

section \<open>Properties\<close>

lemma slab_grow_cache_total:
  assumes "pmm_inv (km_pmm k)"
  obtains ok k1 where "slab_grow_cache i k = Some (ok, k1)"
proof -
  obtain r s' where a: "pmm_alloc_page (km_pmm k) = Some (r, s')" using pmm.alloc_total [OF assms] by blast
  obtain h fl where c: "slab_carve (obj_size (slab_caches k ! i)) r 0 (km_heap k) (free_list (slab_caches k ! i)) = (h, fl)"
    by fastforce
  show thesis using that a c by (cases "obj_size (slab_caches k ! i) < 4"; cases "r = 0") (auto simp: slab_grow_cache_def Let_def)
qed

lemma slab_grow_cache_fail:
  assumes "pmm_inv (km_pmm k)" "4 \<le> obj_size (slab_caches k ! i)" "slab_grow_cache i k = Some (False, k')"
  shows "pages_used (km_pmm k) = {..<PMM_PAGES}"
proof (rule pmm_alloc_page_cases [of "km_pmm k"])
  show "pmm_wf (km_pmm k)" using assms(1) by (simp add: pmm_inv_def)
next
  fix p s' assume p: "p < PMM_PAGES" "p \<notin> pages_used (km_pmm k)"
    "pmm_alloc_page (km_pmm k) = Some (addr_of_page p, s')"
  from p(2) have "p \<noteq> 0" using pmm.zero_used [OF assms(1)] by metis
  with p assms(2,3) show ?thesis
    by (auto simp: slab_grow_cache_def Let_def addr_of_page_eq_0 split: prod.splits)
qed simp

lemma slab_alloc_class:
  assumes rep: "slab_rep k own live xss" and pick: "find_slot (\<lambda>s. req \<le> s) slab_sizes = Some i"
  shows "\<exists>r k'. slab_alloc req k = Some (r, k') \<and>
    (if r = 0 then slab_rep k' own live xss \<and> xss ! i = [] \<and> pages_used (km_pmm k) = {..<PMM_PAGES}
     else \<exists>own' xss'. slab_rep k' own' (live(i := insert r (live i))) xss' \<and> own \<subseteq>\<^sub>m own' \<and>
       r \<notin> live i \<and> (\<forall>j. j \<noteq> i \<longrightarrow> xss' ! j = xss ! j))"
proof -
  have i: "i < SLAB_CACHE_COUNT" using slab_pick_less [OF pick] by simp
  have pk: "slab_pick_cache req (slab_caches k) = Some i" using slab_pick_cache_spec [OF rep] pick by simp
  note cl = slab_rep_class [OF rep i]
  show ?thesis
  proof (cases "xss ! i")
    case (Cons x xs)
    then have "free_list (slab_caches k ! i) \<noteq> 0" using cl(1) by auto
    then have al: "slab_alloc req k = Some (slab_take i k)" by (simp add: slab_alloc_def pk)
    have "x \<noteq> 0" "x \<notin> live i" using cl(1,3) Cons by auto
    with al slab_take_spec [OF rep i Cons] show ?thesis
      by (auto simp: prod_eq_iff intro!: exI [of _ own])
  next
    case Nil
    have inv: "pmm_inv (km_pmm k)" by (rule slab_repD(1) [OF rep])
    obtain ok k1 where g: "slab_grow_cache i k = Some (ok, k1)"
      by (rule slab_grow_cache_total [OF inv])
    have al: "slab_alloc req k = (if ok then Some (slab_take i k1) else Some (0, k1))"
      using cl(1) Nil g by (simp add: slab_alloc_def pk)
    note sp = slab_grow_cache_spec [OF rep i Nil g]
    show ?thesis
    proof (cases ok)
      case False
      have sz4: "4 \<le> obj_size (slab_caches k ! i)" unfolding cl(5) by (rule slab_size_pos [OF i])
      from False g have "slab_grow_cache i k = Some (False, k1)" by simp
      from slab_grow_cache_fail [OF inv sz4 this] have "pages_used (km_pmm k) = {..<PMM_PAGES}" .
      with False al sp Nil show ?thesis by auto
    next
      case True
      then obtain p where p: "p \<notin> pages_used (km_pmm k)"
        "slab_rep k1 (own(p \<mapsto> i)) live (xss[i := rev (page_objs (slab_sizes ! i) p)])" using sp by auto
      have "page_objs (slab_sizes ! i) p \<noteq> []" using i by (auto simp: page_objs_def slab_sizes_def nth_Cons' split: if_splits)
      then obtain x xs where x: "rev (page_objs (slab_sizes ! i) p) = x # xs" by (metis neq_Nil_conv rev_is_Nil_conv)
      then have hd: "(xss[i := rev (page_objs (slab_sizes ! i) p)]) ! i = x # xs"
        using slab_repD(3) [OF rep] i by simp
      note cl1 = slab_rep_class [OF p(2) i]
      have "x \<noteq> 0" "x \<notin> live i" using cl1(1,3) hd by auto
      moreover have "own \<subseteq>\<^sub>m own(p \<mapsto> i)" using p(1) slab_repD(4) [OF rep] by (auto simp: map_le_def)
      ultimately show ?thesis using al True slab_take_spec [OF p(2) i hd]
        by (auto simp: prod_eq_iff intro!: exI [of _ "own(p \<mapsto> i)"] exI [of _ "xss[i := xs]"])
    qed
  qed
qed

text \<open>
  C18. \<open>slab_alloc\<close> for a request that fits a class returns an object of that class which is not live,
  and makes exactly this object live; it returns the null pointer only when the class has no free
  object and every physical page is used, and then nothing is allocated. Objects of other classes
  and the free lists of other classes are untouched, and the representation (free and live objects
  of a class partition the objects of the pages it owns) is preserved.
\<close>

theorem slab_alloc_correct:
  assumes "slab_rep k own live xss" "find_slot (\<lambda>s. req \<le> s) slab_sizes = Some i"
  shows "\<exists>r k'. slab_alloc req k = Some (r, k') \<and>
    (if r = 0 then slab_rep k' own live xss \<and> xss ! i = [] \<and> pages_used (km_pmm k) = {..<PMM_PAGES}
     else \<exists>own' xss'. slab_rep k' own' (live(i := insert r (live i))) xss' \<and> own \<subseteq>\<^sub>m own' \<and>
       r \<notin> live i \<and> r \<in> class_objs own' i (slab_sizes ! i) \<and> (\<forall>j. j \<noteq> i \<longrightarrow> xss' ! j = xss ! j))"
proof -
  have i: "i < SLAB_CACHE_COUNT" using slab_pick_less [OF assms(2)] by simp
  obtain r k' where r: "slab_alloc req k = Some (r, k')"
    "if r = 0 then slab_rep k' own live xss \<and> xss ! i = [] \<and> pages_used (km_pmm k) = {..<PMM_PAGES}
     else \<exists>own' xss'. slab_rep k' own' (live(i := insert r (live i))) xss' \<and> own \<subseteq>\<^sub>m own' \<and>
       r \<notin> live i \<and> (\<forall>j. j \<noteq> i \<longrightarrow> xss' ! j = xss ! j)"
    using slab_alloc_class [OF assms] by blast
  have "r \<in> class_objs own' i (slab_sizes ! i)" if "slab_rep k' own' (live(i := insert r (live i))) xss'" for own' xss'
    using slab_rep_class(4) [OF that i] by auto
  with r show ?thesis by (metis (no_types, lifting))
qed

definition kmem_boot :: kmem where
  "kmem_boot = \<lparr>km_pmm = pmm_boot, km_heap = (\<lambda>_. 0), slab_caches = slab_caches0\<rparr>"

lemma kmem_boot_rep: "slab_rep kmem_boot Map.empty (\<lambda>_. {}) [[], [], [], []]"
  by (auto simp: slab_rep_def kmem_boot_def pmm_boot_inv slab_caches0_def slab_cache0_def slab_sizes_def
      class_objs_def nth_Cons' split: if_splits)

lemma kmem_boot_pmm: "km_pmm kmem_boot = pmm_boot"
  by (simp add: kmem_boot_def)

text \<open>The object and the state that the first allocation after boot gives.\<close>

definition ptr_one :: u32 where
  "ptr_one = fst (the (slab_alloc 100 kmem_boot))"

definition kmem_one :: kmem where
  "kmem_one = snd (the (slab_alloc 100 kmem_boot))"

lemma pick_100: "find_slot (\<lambda>s. 100 \<le> s) slab_sizes = Some 2"
  by (simp add: slab_sizes_def)

lemma kmem_boot_not_full: "pages_used (km_pmm kmem_boot) \<noteq> {..<PMM_PAGES}"
proof
  assume "pages_used (km_pmm kmem_boot) = {..<PMM_PAGES}"
  moreover have "(8191::nat) \<in> {..<PMM_PAGES}" by simp
  moreover have "8191 \<notin> pages_used (km_pmm kmem_boot)" by (simp only: kmem_boot_pmm pmm_boot_used) simp
  ultimately show False by blast
qed

lemma kmem_one_rep:
  "\<exists>own xss. slab_rep kmem_one own ((\<lambda>_. {})(2 := {ptr_one})) xss"
proof -
  obtain r k' where r: "slab_alloc 100 kmem_boot = Some (r, k')"
    "if r = 0 then slab_rep k' Map.empty (\<lambda>_. {}) [[], [], [], []] \<and> [[], [], [], [] :: u32 list] ! 2 = [] \<and>
       pages_used (km_pmm kmem_boot) = {..<PMM_PAGES}
     else \<exists>own' xss'. slab_rep k' own' ((\<lambda>_. {})(2 := insert r {})) xss' \<and> Map.empty \<subseteq>\<^sub>m own' \<and>
       r \<notin> {} \<and> (\<forall>j. j \<noteq> 2 \<longrightarrow> xss' ! j = [[], [], [], []] ! j)"
    using slab_alloc_class [OF kmem_boot_rep pick_100] by (elim exE conjE) (rule that)
  have "r \<noteq> 0" using r(2) kmem_boot_not_full by (metis (full_types))
  with r(2) have "\<exists>own xss. slab_rep k' own ((\<lambda>_. {})(2 := {r})) xss" by (simp only: if_False) blast
  with r(1) show ?thesis by (simp add: ptr_one_def kmem_one_def)
qed

theorem slab_alloc_correct_witness:
  "\<exists>r k'. slab_alloc 100 kmem_boot = Some (r, k') \<and> r \<noteq> 0 \<and>
     (\<exists>own xss. slab_rep k' own ((\<lambda>_. {})(2 := {r})) xss)"
proof -
  obtain r k' where r: "slab_alloc 100 kmem_boot = Some (r, k')"
    "if r = 0 then slab_rep k' Map.empty (\<lambda>_. {}) [[], [], [], []] \<and> [[], [], [], [] :: u32 list] ! 2 = [] \<and>
       pages_used (km_pmm kmem_boot) = {..<PMM_PAGES}
     else \<exists>own' xss'. slab_rep k' own' ((\<lambda>_. {})(2 := insert r {})) xss' \<and> Map.empty \<subseteq>\<^sub>m own' \<and>
       r \<notin> {} \<and> r \<in> class_objs own' 2 (slab_sizes ! 2) \<and> (\<forall>j. j \<noteq> 2 \<longrightarrow> xss' ! j = [[], [], [], []] ! j)"
    using slab_alloc_correct [OF kmem_boot_rep pick_100] by (elim exE conjE) (rule that)
  have "r \<noteq> 0" using r(2) kmem_boot_not_full by (metis (full_types))
  with r show ?thesis by (simp only: if_False) blast
qed

lemma slab_live_nonzero:
  assumes "slab_rep k own live xss" "i < SLAB_CACHE_COUNT" "ptr \<in> live i"
  shows "ptr \<noteq> 0"
proof -
  have "ptr \<in> class_objs own i (slab_sizes ! i)" using slab_rep_class(4) [OF assms(1,2)] assms(3) by blast
  then obtain p where p: "own p = Some i" "ptr \<in> set (page_objs (slab_sizes ! i) p)"
    unfolding class_objs_def by blast
  have "0 < slab_sizes ! i" using slab_size_pos [OF assms(2)] by simp
  from page_objs_nonzero [OF own_page [OF slab_repD(4) [OF assms(1)] p(1)] this] p(2) show ?thesis by metis
qed

lemma slab_live_other:
  assumes "slab_rep k own live xss" "i < SLAB_CACHE_COUNT" "ptr \<in> live i" "j < SLAB_CACHE_COUNT" "j \<noteq> i"
  shows "ptr \<notin> set (xss ! j)"
proof -
  have sz: "0 < slab_sizes ! i" "0 < slab_sizes ! j"
    using slab_size_pos [OF assms(2)] slab_size_pos [OF assms(4)] by simp_all
  have "ptr \<in> class_objs own i (slab_sizes ! i)" using slab_rep_class(4) [OF assms(1,2)] assms(3) by blast
  moreover have "class_objs own j (slab_sizes ! j) \<inter> class_objs own i (slab_sizes ! i) = {}"
    by (rule class_objs_disjoint [OF slab_repD(4) [OF assms(1)] assms(5) sz(2,1)])
  ultimately show ?thesis using slab_rep_class(4) [OF assms(1,4)] by blast
qed

text \<open>
  C33. Releasing a live object of the class puts it at the head of the class's free list, removes it from
  the live set and preserves the representation; allocating again returns that same object.
\<close>

theorem slab_free_correct:
  assumes "slab_rep k own live xss" "find_slot (\<lambda>s. req \<le> s) slab_sizes = Some i" "ptr \<in> live i"
  shows "\<exists>k'. slab_free ptr req k = Some (True, k') \<and>
    slab_rep k' own (live(i := live i - {ptr})) (xss[i := ptr # xss ! i]) \<and>
    (\<exists>k''. slab_alloc req k' = Some (ptr, k'') \<and> slab_rep k'' own live xss)"
proof -
  have i: "i < SLAB_CACHE_COUNT" using slab_pick_less [OF assms(2)] by simp
  note cl = slab_rep_class [OF assms(1) i]
  have ptr: "ptr \<in> class_objs own i (slab_sizes ! i)" "ptr \<notin> set (xss ! i)" using cl(3,4) assms(3) by auto
  have nz: "ptr \<noteq> 0" by (rule slab_live_nonzero [OF assms(1) i assms(3)])
  have other: "ptr \<notin> set (xss ! j)" if "j < SLAB_CACHE_COUNT" "j \<noteq> i" for j
    by (rule slab_live_other [OF assms(1) i assms(3) that])
  let ?c = "(slab_caches k ! i)\<lparr>free_list := ptr, slab_frees := slab_frees (slab_caches k ! i) + 1,
      in_use := (if in_use (slab_caches k ! i) > 0 then in_use (slab_caches k ! i) - 1 else in_use (slab_caches k ! i))\<rparr>"
  let ?k = "k\<lparr>km_heap := (km_heap k)(ptr := free_list (slab_caches k ! i)), slab_caches := (slab_caches k)[i := ?c]\<rparr>"
  have free: "slab_free ptr req k = Some (True, ?k)"
    using nz assms(2) slab_pick_cache_spec [OF assms(1)] by (simp add: slab_free_def Let_def)
  have rep: "slab_rep ?k own (live(i := live i - {ptr})) (xss[i := ptr # xss ! i])"
    by (rule slab_rep_set_class [OF assms(1) i]) (use cl nz ptr other assms(3) in auto)
  have hd: "(xss[i := ptr # xss ! i]) ! i = ptr # xss ! i" using slab_repD(3) [OF assms(1)] i by simp
  have len: "i < length (slab_caches k)" using slab_repD(5) [OF assms(1)] i by simp
  have al: "slab_alloc req ?k = Some (slab_take i ?k)"
    using nz len assms(2) slab_pick_cache_spec [OF rep] by (simp add: slab_alloc_def)
  have "slab_rep (snd (slab_take i ?k)) own live xss"
    using slab_take_spec(2) [OF rep i hd] assms(3) by (simp add: insert_absorb)
  with free rep al slab_take_spec(1) [OF rep i hd] show ?thesis by (auto simp: prod_eq_iff)
qed

theorem slab_free_correct_witness:
  "\<exists>k' k''. slab_free ptr_one 100 kmem_one = Some (True, k') \<and> slab_alloc 100 k' = Some (ptr_one, k'')"
proof -
  obtain own xss where rep: "slab_rep kmem_one own ((\<lambda>_. {})(2 := {ptr_one})) xss" using kmem_one_rep by blast
  have "ptr_one \<in> ((\<lambda>_. {})(2 := {ptr_one})) (2::nat)" by simp
  from slab_free_correct [OF rep pick_100 this] show ?thesis by blast
qed

lemma slab_count_cycle: "p \<noteq> 0 \<Longrightarrow> h p = p \<Longrightarrow> slab_count h p n = None"
proof -
  have "slab_count h p n = Some r \<Longrightarrow> p \<noteq> 0 \<longrightarrow> h p \<noteq> p" for h p n r
    by (rule slab_count.raw_induct [where P = "\<lambda>h p n r. p \<noteq> 0 \<longrightarrow> h p \<noteq> p"]) (auto split: if_splits)
  then show "p \<noteq> 0 \<Longrightarrow> h p = p \<Longrightarrow> slab_count h p n = None" by (cases "slab_count h p n") auto
qed

lemma slab_pick_update:
  "obj_size c = obj_size (cs ! i) \<Longrightarrow> slab_pick_cache req (cs[i := c]) = slab_pick_cache req cs"
proof -
  assume c: "obj_size c = obj_size (cs ! i)"
  have "map obj_size (cs[i := c]) = map obj_size cs" using c by (metis list_update_id map_update)
  from arg_cong [OF this, of "find_slot (\<lambda>s. req \<le> s)"]
  show "slab_pick_cache req (cs[i := c]) = slab_pick_cache req cs"
    by (simp add: slab_pick_cache_def find_slot_map)
qed

text \<open>
  \<open>slab_free\<close> does not detect that an object is already free: after freeing the same address twice the
  free list is a cycle, so the next two allocations return the same object, and \<open>slab_get_stats\<close> walks
  that cycle for ever.
\<close>

theorem slab_double_free:
  assumes "slab_rep k own live xss" "find_slot (\<lambda>s. req \<le> s) slab_sizes = Some i" "ptr \<in> live i"
  shows "\<exists>k1 k2 k3 k4. slab_free ptr req k = Some (True, k1) \<and> slab_free ptr req k1 = Some (True, k2) \<and>
    slab_get_stats (int i) k2 = None \<and>
    slab_alloc req k2 = Some (ptr, k3) \<and> slab_alloc req k3 = Some (ptr, k4)"
proof -
  have i: "i < SLAB_CACHE_COUNT" using slab_pick_less [OF assms(2)] by simp
  have len: "i < length (slab_caches k)" using slab_repD(5) [OF assms(1)] i by simp
  have nz: "ptr \<noteq> 0" by (rule slab_live_nonzero [OF assms(1) i assms(3)])
  have pick: "slab_pick_cache req (slab_caches k) = Some i"
    using assms(2) slab_pick_cache_spec [OF assms(1)] by simp
  have pick': "slab_pick_cache req ((slab_caches k)[i := c]) = Some i"
    if "obj_size c = obj_size (slab_caches k ! i)" for c
    using pick slab_pick_update [of c "slab_caches k" i req] that by simp
  show ?thesis
    using nz i len
    by (simp add: slab_free_def slab_alloc_def slab_take_def slab_get_stats_def Let_def pick pick' slab_count_cycle)
qed

theorem slab_double_free_witness:
  "\<exists>k1 k2. slab_free ptr_one 100 kmem_one = Some (True, k1) \<and> slab_free ptr_one 100 k1 = Some (True, k2) \<and>
     slab_get_stats 2 k2 = None"
proof -
  obtain own xss where rep: "slab_rep kmem_one own ((\<lambda>_. {})(2 := {ptr_one})) xss" using kmem_one_rep by blast
  have "ptr_one \<in> ((\<lambda>_. {})(2 := {ptr_one})) (2::nat)" by simp
  from slab_double_free [OF rep pick_100 this] show ?thesis by auto
qed

end
