(* ===== verification/Task.thy ===== *)
theory Task
  imports Slab
begin

text \<open>
  The task table of \<open>src/kernel/task.h\<close> and \<open>src/kernel/task.c\<close>: the task control block with all
  its fields, the table as the C initialiser really leaves it, slot allocation, tracing and
  \<open>create_task\<close>, which allocates the stack pages from the page allocator of \<open>Pmm\<close> and writes the
  initial frame into memory.
\<close>

section \<open>Data\<close>

datatype task_state =
    TASK_STATE_READY
  | TASK_STATE_RUNNING
  | TASK_STATE_BLOCKED
  | TASK_STATE_SLEEPING
  | TASK_STATE_TERMINATED

datatype wait_kind = TASK_WAIT_NONE | TASK_WAIT_CHILD

datatype workload = WORKLOAD_CLASS_SIM | WORKLOAD_CLASS_LOG | WORKLOAD_CLASS_EXPORT

datatype trace_evt =
    EVT_NONE
  | EVT_SWITCH_IN
  | EVT_SWITCH_OUT
  | EVT_SYSCALL
  | EVT_SLEEP
  | EVT_WAKE
  | EVT_TERMINATE
  | EVT_PRIORITY
  | EVT_KILL
  | EVT_FAULT

abbreviation MAX_TASKS :: nat where "MAX_TASKS \<equiv> 8"
abbreviation TASK_MAX_FDS :: nat where "TASK_MAX_FDS \<equiv> 256"
abbreviation TASK_SIGNAL_MAX :: nat where "TASK_SIGNAL_MAX \<equiv> 32"
abbreviation SCHED_TIME_SLICE_TICKS :: u32 where "SCHED_TIME_SLICE_TICKS \<equiv> 5"

record tcb =
  esp :: u32
  ebp :: u32
  eip :: u32
  page_dir :: u32
  state :: task_state
  wake_tick :: u32
  time_slice :: u32
  runtime_ticks :: u32
  context_switches :: u32
  priority :: u32
  workload_class :: workload
  trace_enabled :: u32
  trace_last_event :: trace_evt
  trace_last_arg :: u32
  trace_last_syscall :: u32
  trace_last_arg0 :: u32
  trace_last_arg1 :: u32
  trace_last_arg2 :: u32
  trace_last_result :: u32
  trace_event_count :: u32
  fault_code :: u32
  fault_addr :: u32
  fault_eip :: u32
  user_entry :: u32
  user_stack :: u32
  user_retval :: u32
  signal_pending :: u32
  signal_mask :: u32
  signal_handler :: "u32 list"
  parent_pid :: int
  exit_status :: int
  exited :: bool
  waited :: int
  wait_target :: int
  fd_table :: "int list"
  wait_reason :: wait_kind
  task_id :: int
  sched_wait_ticks :: u32
  sched_wake_boost :: u32
  sched_last_run_tick :: u32

record task_table =
  os_tasks :: "tcb list"
  os_current_task :: nat
  os_task_count :: nat

section \<open>The initial table\<close>

text \<open>A block of zero bytes: every slot the initialiser does not mention.\<close>

definition tcb_zero :: tcb where
  "tcb_zero = \<lparr>esp = 0, ebp = 0, eip = 0, page_dir = 0, state = TASK_STATE_READY, wake_tick = 0, time_slice = 0,
     runtime_ticks = 0, context_switches = 0, priority = 0, workload_class = WORKLOAD_CLASS_SIM,
     trace_enabled = 0, trace_last_event = EVT_NONE, trace_last_arg = 0, trace_last_syscall = 0,
     trace_last_arg0 = 0, trace_last_arg1 = 0, trace_last_arg2 = 0, trace_last_result = 0,
     trace_event_count = 0, fault_code = 0, fault_addr = 0, fault_eip = 0, user_entry = 0, user_stack = 0,
     user_retval = 0, signal_pending = 0, signal_mask = 0, signal_handler = replicate TASK_SIGNAL_MAX 0,
     parent_pid = 0, exit_status = 0, exited = False, waited = 0, wait_target = 0,
     fd_table = replicate TASK_MAX_FDS 0, wait_reason = TASK_WAIT_NONE, task_id = 0,
     sched_wait_ticks = 0, sched_wake_boost = 0, sched_last_run_tick = 0\<rparr>"

text \<open>
  The initialiser lists 23 scalars, a braced zero, and then the values meant for \<open>parent_pid\<close>,
  \<open>exit_status\<close>, \<open>exited\<close>, \<open>waited\<close>, \<open>wait_target\<close>, \<open>fd_table\<close>, \<open>wait_reason\<close> and \<open>task_id\<close>. The
  struct has five more scalars before them (\<open>user_entry\<close> to \<open>signal_mask\<close>), so by the rules of C the
  braced zero initialises \<open>user_entry\<close>, the first \<open>-1\<close> lands in \<open>user_stack\<close> and the last five values in
  \<open>signal_handler[0..3]\<close>.
\<close>

definition tcb_initial :: "task_state \<Rightarrow> workload \<Rightarrow> u32 \<Rightarrow> tcb" where
  "tcb_initial st wc n = tcb_zero\<lparr>state := st, time_slice := SCHED_TIME_SLICE_TICKS, priority := 1,
     workload_class := wc, user_stack := -1,
     signal_handler := (replicate TASK_SIGNAL_MAX 0)[0 := -1, 1 := 0, 2 := 0, 3 := n]\<rparr>"

definition os_tasks0 :: "tcb list" where
  "os_tasks0 = [tcb_initial TASK_STATE_RUNNING WORKLOAD_CLASS_SIM 0,
     tcb_initial TASK_STATE_TERMINATED WORKLOAD_CLASS_LOG 1,
     tcb_initial TASK_STATE_TERMINATED WORKLOAD_CLASS_EXPORT 2] @ replicate 5 tcb_zero"

definition task_table0 :: task_table where
  "task_table0 = \<lparr>os_tasks = os_tasks0, os_current_task = 0, os_task_count = 1\<rparr>"

section \<open>Operations\<close>

definition task_is_valid :: "int \<Rightarrow> bool" where
  "task_is_valid i \<longleftrightarrow> i \<ge> 0 \<and> i < int MAX_TASKS"

definition task_alloc_slot :: "('a) task_table_scheme \<Rightarrow> int" where
  "task_alloc_slot t =
     (case find_slot (\<lambda>k. state k = TASK_STATE_TERMINATED) (drop 1 (os_tasks t)) of
        Some k \<Rightarrow> int k + 1 | None \<Rightarrow> -1)"

definition upd_task :: "nat \<Rightarrow> (tcb \<Rightarrow> tcb) \<Rightarrow> ('a) task_table_scheme \<Rightarrow> ('a) task_table_scheme" where
  "upd_task i f t = t\<lparr>os_tasks := (os_tasks t)[i := f (os_tasks t ! i)]\<rparr>"

definition task_trace_event :: "int \<Rightarrow> trace_evt \<Rightarrow> u32 \<Rightarrow> ('a) task_table_scheme \<Rightarrow> ('a) task_table_scheme" where
  "task_trace_event tid event arg t =
     (if \<not> task_is_valid tid then t
      else if trace_enabled (os_tasks t ! nat tid) = 0 then t
      else upd_task (nat tid) (\<lambda>k. k\<lparr>trace_last_event := event, trace_last_arg := arg,
             trace_event_count := trace_event_count k + 1\<rparr>) t)"

definition task_trace_syscall_ex ::
  "int \<Rightarrow> u32 \<Rightarrow> u32 \<Rightarrow> u32 \<Rightarrow> u32 \<Rightarrow> u32 \<Rightarrow> ('a) task_table_scheme \<Rightarrow> ('a) task_table_scheme" where
  "task_trace_syscall_ex tid syscall_num result arg0 arg1 arg2 t =
     (let packed = push_bit 24 (syscall_num AND 0xFF) OR (result AND 0x00FFFFFF) in
      if \<not> task_is_valid tid then t
      else if trace_enabled (os_tasks t ! nat tid) = 0 then t
      else upd_task (nat tid) (\<lambda>k. k\<lparr>trace_last_event := EVT_SYSCALL, trace_last_arg := packed,
             trace_last_syscall := syscall_num, trace_last_arg0 := arg0, trace_last_arg1 := arg1,
             trace_last_arg2 := arg2, trace_last_result := result,
             trace_event_count := trace_event_count k + 1\<rparr>) t)"

definition task_trace_syscall :: "int \<Rightarrow> u32 \<Rightarrow> u32 \<Rightarrow> ('a) task_table_scheme \<Rightarrow> ('a) task_table_scheme" where
  "task_trace_syscall tid syscall_num result t = task_trace_syscall_ex tid syscall_num result 0 0 0 t"

text \<open>\<open>*--stack = v\<close>\<close>

definition stack_push :: "u32 \<Rightarrow> u32 \<times> heap \<Rightarrow> u32 \<times> heap" where
  "stack_push v = (\<lambda>(sp, h). (sp - 4, h(sp - 4 := v)))"

definition tcb_created :: "nat \<Rightarrow> u32 \<Rightarrow> u32 \<Rightarrow> u32 \<Rightarrow> tcb" where
  "tcb_created index func_ptr pd sp = \<lparr>esp = sp, ebp = 0, eip = func_ptr, page_dir = pd,
     state = TASK_STATE_READY, wake_tick = 0, time_slice = SCHED_TIME_SLICE_TICKS,
     runtime_ticks = 0, context_switches = 0, priority = 1,
     workload_class = (if index = 1 then WORKLOAD_CLASS_LOG else if index = 2 then WORKLOAD_CLASS_EXPORT
                       else WORKLOAD_CLASS_SIM),
     trace_enabled = 0, trace_last_event = EVT_NONE, trace_last_arg = 0, trace_last_syscall = 0,
     trace_last_arg0 = 0, trace_last_arg1 = 0, trace_last_arg2 = 0, trace_last_result = 0,
     trace_event_count = 0, fault_code = 0, fault_addr = 0, fault_eip = 0, user_entry = 0, user_stack = 0,
     user_retval = 0, signal_pending = 0, signal_mask = 0, signal_handler = replicate TASK_SIGNAL_MAX 0,
     parent_pid = -1, exit_status = 0, exited = False, waited = 0, wait_target = -1,
     fd_table = replicate TASK_MAX_FDS (-1), wait_reason = TASK_WAIT_NONE, task_id = int index,
     sched_wait_ticks = 0, sched_wake_boost = 0, sched_last_run_tick = 0\<rparr>"

text \<open>\<open>create_task\<close> on the page allocator, the memory and the task table; \<open>None\<close> is an access outside
  the allocator's bitmap.\<close>

definition create_task ::
  "int \<Rightarrow> u32 \<Rightarrow> u32 \<Rightarrow> pmm \<times> heap \<times> ('a) task_table_scheme \<Rightarrow> (pmm \<times> heap \<times> ('a) task_table_scheme) option" where
  "create_task index func_ptr pd = (\<lambda>(p, h, t).
     if index \<le> 0 \<or> index \<ge> int MAX_TASKS \<or> func_ptr = 0 then Some (p, h, t)
     else case pmm_alloc_page p of None \<Rightarrow> None | Some (stack_phys, p1) \<Rightarrow>
       if stack_phys = 0 then Some (p1, h, t)
       else case pmm_alloc_page p1 of None \<Rightarrow> None | Some (_, p2) \<Rightarrow>
         case pmm_alloc_page p2 of None \<Rightarrow> None | Some (_, p3) \<Rightarrow>
         case pmm_alloc_page p3 of None \<Rightarrow> None | Some (_, p4) \<Rightarrow>
           let (sp, h') = stack_push 0 (stack_push 0 (stack_push 0 (stack_push 0
                            (stack_push func_ptr (stack_phys + 16384, h)))));
               i = nat index;
               t' = t\<lparr>os_tasks := (os_tasks t)[i := tcb_created i func_ptr pd sp]\<rparr>
           in Some (p4, h', if i \<ge> os_task_count t' then t'\<lparr>os_task_count := i + 1\<rparr> else t'))"

section \<open>Invariant of the table\<close>

definition table_wf :: "('a) task_table_scheme \<Rightarrow> bool" where
  "table_wf t \<longleftrightarrow> length (os_tasks t) = MAX_TASKS \<and> os_task_count t \<le> MAX_TASKS \<and>
     os_current_task t < os_task_count t"

definition task :: "('a) task_table_scheme \<Rightarrow> nat \<Rightarrow> tcb" where
  "task t i = os_tasks t ! i"

lemma upd_task_fields [simp]:
  "os_current_task (upd_task i f t) = os_current_task t"
  "os_task_count (upd_task i f t) = os_task_count t"
  "length (os_tasks (upd_task i f t)) = length (os_tasks t)"
  "task_table.more (upd_task i f t) = task_table.more t"
  by (simp_all add: upd_task_def)

lemma table_wf_upd [simp]: "table_wf (upd_task i f t) = table_wf t"
  by (simp add: table_wf_def)

lemma task_upd: "i < length (os_tasks t) \<Longrightarrow> task (upd_task i f t) j = (if i = j then f (task t j) else task t j)"
  by (simp add: task_def upd_task_def)

text \<open>Tracing changes no field but the trace fields, so nothing the scheduler decides on.\<close>

lemma task_trace_event_fields [simp]:
  "os_current_task (task_trace_event i e a t) = os_current_task t"
  "os_task_count (task_trace_event i e a t) = os_task_count t"
  "length (os_tasks (task_trace_event i e a t)) = length (os_tasks t)"
  "task_table.more (task_trace_event i e a t) = task_table.more t"
  by (simp_all add: task_trace_event_def)

lemma table_wf_trace [simp]: "table_wf (task_trace_event i e a t) = table_wf t"
  by (simp add: table_wf_def)

definition trace_tcb :: "trace_evt \<Rightarrow> u32 \<Rightarrow> tcb \<Rightarrow> tcb" where
  "trace_tcb e a k = (if trace_enabled k = 0 then k
     else k\<lparr>trace_last_event := e, trace_last_arg := a, trace_event_count := trace_event_count k + 1\<rparr>)"

lemma trace_tcb_fields [simp]:
  "state (trace_tcb e a k) = state k" "wake_tick (trace_tcb e a k) = wake_tick k"
  "time_slice (trace_tcb e a k) = time_slice k" "priority (trace_tcb e a k) = priority k"
  "sched_wait_ticks (trace_tcb e a k) = sched_wait_ticks k" "sched_wake_boost (trace_tcb e a k) = sched_wake_boost k"
  "exit_status (trace_tcb e a k) = exit_status k" "exited (trace_tcb e a k) = exited k"
  "parent_pid (trace_tcb e a k) = parent_pid k" "wait_reason (trace_tcb e a k) = wait_reason k"
  "wait_target (trace_tcb e a k) = wait_target k" "page_dir (trace_tcb e a k) = page_dir k"
  by (simp_all add: trace_tcb_def)

lemma task_trace_event_upd:
  "task_trace_event (int i) e a t = (if i < MAX_TASKS then upd_task i (trace_tcb e a) t else t)"
  by (simp add: task_trace_event_def task_is_valid_def trace_tcb_def upd_task_def)

section \<open>Creating tasks\<close>

lemma pmm_alloc_lowest:
  assumes "pmm_inv s" "p < PMM_PAGES" "p \<notin> pages_used s" "\<forall>q < p. q \<in> pages_used s"
  obtains s' where "pmm_alloc_page s = Some (addr_of_page p, s')" "pmm_inv s'"
    "pages_used s' = insert p (pages_used s)"
proof -
  have wf: "pmm_wf s" using assms(1) by (simp add: pmm_inv_def)
  show thesis
  proof (rule pmm_alloc_page_cases [OF wf])
    assume "pages_used s = {..<PMM_PAGES}"
    with assms(2,3) show thesis by blast
  next
    fix q s'
    assume q: "q < PMM_PAGES" "q \<notin> pages_used s" "\<forall>r < q. r \<in> pages_used s"
      "pmm_alloc_page s = Some (addr_of_page q, s')" "pages_used s' = insert q (pages_used s)"
    have "q = p" using q(2,3) assms(3,4) by (metis linorder_neqE_nat)
    with q pmm.alloc_inv [OF assms(1) q(4)] that show thesis by blast
  qed
qed

lemma pmm_alloc_more:
  assumes "pmm_inv s"
  obtains r s' where "pmm_alloc_page s = Some (r, s')" "pmm_inv s'" "pages_used s \<subseteq> pages_used s'"
  using pmm.alloc_total [OF assms] pmm.alloc_inv [OF assms] pmm.alloc_mono [OF assms] by blast

definition stack_frame :: "u32 \<Rightarrow> u32 \<Rightarrow> heap \<Rightarrow> bool" where
  "stack_frame sp func_ptr h \<longleftrightarrow>
     h sp = 0 \<and> h (sp + 4) = 0 \<and> h (sp + 8) = 0 \<and> h (sp + 12) = 0 \<and> h (sp + 16) = func_ptr"

lemma stack_frame_built:
  assumes "stack_push 0 (stack_push 0 (stack_push 0 (stack_push 0 (stack_push f (b, h))))) = (sp, h')"
  shows "sp = b - 20 \<and> stack_frame sp f h'"
  using assms by (auto simp: stack_push_def stack_frame_def)

lemma create_task_success:
  assumes "pmm_inv p" "0 < i" "i < MAX_TASKS" "f \<noteq> 0"
    "q < PMM_PAGES" "q \<notin> pages_used p" "\<forall>r < q. r \<in> pages_used p"
  obtains p' h' where
    "create_task (int i) f pd (p, h, t) = Some (p', h',
       t\<lparr>os_tasks := (os_tasks t)[i := tcb_created i f pd (addr_of_page q + 16364)],
         os_task_count := max (os_task_count t) (i + 1)\<rparr>)"
    "pmm_inv p'" "insert q (pages_used p) \<subseteq> pages_used p'" "stack_frame (addr_of_page q + 16364) f h'"
proof -
  obtain p1 where p1: "pmm_alloc_page p = Some (addr_of_page q, p1)" "pmm_inv p1"
    "pages_used p1 = insert q (pages_used p)"
    by (rule pmm_alloc_lowest [OF assms(1,5,6,7)])
  obtain r2 p2 where p2: "pmm_alloc_page p1 = Some (r2, p2)" "pmm_inv p2" "pages_used p1 \<subseteq> pages_used p2"
    by (rule pmm_alloc_more [OF p1(2)])
  obtain r3 p3 where p3: "pmm_alloc_page p2 = Some (r3, p3)" "pmm_inv p3" "pages_used p2 \<subseteq> pages_used p3"
    by (rule pmm_alloc_more [OF p2(2)])
  obtain r4 p4 where p4: "pmm_alloc_page p3 = Some (r4, p4)" "pmm_inv p4" "pages_used p3 \<subseteq> pages_used p4"
    by (rule pmm_alloc_more [OF p3(2)])
  obtain sp h' where sp: "stack_push 0 (stack_push 0 (stack_push 0 (stack_push 0
      (stack_push f (addr_of_page q + 16384, h))))) = (sp, h')" by fastforce
  have frame: "sp = addr_of_page q + 16364" "stack_frame sp f h'" using stack_frame_built [OF sp] by auto
  have "q \<noteq> 0" using assms(6) pmm.zero_used [OF assms(1)] by metis
  then have nz: "addr_of_page q \<noteq> 0" using addr_of_page_eq_0 [OF assms(5)] by simp
  have "create_task (int i) f pd (p, h, t) = Some (p4, h',
       t\<lparr>os_tasks := (os_tasks t)[i := tcb_created i f pd (addr_of_page q + 16364)],
         os_task_count := max (os_task_count t) (i + 1)\<rparr>)"
    using assms(2-4) nz
    by (simp add: create_task_def p1(1) p2(1) p3(1) p4(1) sp frame(1) Let_def max_def)
  moreover have "insert q (pages_used p) \<subseteq> pages_used p4" using p1(3) p2(3) p3(3) p4(3) by blast
  ultimately show thesis using that p4(2) frame by metis
qed

text \<open>
  With a page available, \<open>create_task\<close> on a valid index and entry point makes that slot READY with
  priority 1, no pending signals, all file descriptors closed and no parent, builds the frame that
  \<open>switch_task\<close> pops (four zero registers, then the entry point) 20 bytes below the end of the 16 KB
  stack area, extends the task count to cover the index and leaves every other slot alone.
\<close>

theorem create_task_correct:
  assumes "pmm_inv p" "table_wf t" "0 < i" "i < MAX_TASKS" "f \<noteq> 0"
    "q < PMM_PAGES" "q \<notin> pages_used p" "\<forall>r < q. r \<in> pages_used p"
  shows "\<exists>p' h' t'. create_task (int i) f pd (p, h, t) = Some (p', h', t') \<and> pmm_inv p' \<and> table_wf t' \<and>
    task t' i = tcb_created i f pd (addr_of_page q + 16364) \<and> (\<forall>j. j \<noteq> i \<longrightarrow> task t' j = task t j) \<and>
    os_task_count t' = max (os_task_count t) (i + 1) \<and> os_current_task t' = os_current_task t \<and>
    stack_frame (esp (task t' i)) f h' \<and> pages_used p \<subseteq> pages_used p' \<and> q \<in> pages_used p'"
proof -
  obtain p' h' where c: "create_task (int i) f pd (p, h, t) = Some (p', h',
       t\<lparr>os_tasks := (os_tasks t)[i := tcb_created i f pd (addr_of_page q + 16364)],
         os_task_count := max (os_task_count t) (i + 1)\<rparr>)"
    "pmm_inv p'" "insert q (pages_used p) \<subseteq> pages_used p'" "stack_frame (addr_of_page q + 16364) f h'"
    by (rule create_task_success [OF assms(1,3-8)])
  have len: "i < length (os_tasks t)" using assms(2,4) by (simp add: table_wf_def)
  have esp: "esp (tcb_created i f pd sp) = sp" for sp by (simp add: tcb_created_def)
  show ?thesis
    by (rule exI, rule exI, rule exI, rule conjI [OF c(1)])
      (use c(2-4) assms(2,4) len in \<open>auto simp: table_wf_def task_def esp\<close>)
qed

theorem create_task_correct_witness:
  "\<exists>p' h' t'. create_task 1 0x100000 0 (pmm_boot, \<lambda>_. 0, task_table0) = Some (p', h', t') \<and>
     state (task t' 1) = TASK_STATE_READY \<and> os_task_count t' = 2"
proof -
  have wf: "table_wf task_table0" by (simp add: table_wf_def task_table0_def os_tasks0_def)
  have f: "(0x100000 :: u32) \<noteq> 0" "1 \<notin> pages_used pmm_boot" "\<forall>r < 1. r \<in> pages_used pmm_boot"
    by (simp_all add: pmm_boot_used)
  have b: "(0::nat) < 1" "(1::nat) < MAX_TASKS" "(1::nat) < PMM_PAGES" by simp_all
  have "int 1 = 1" "max (os_task_count task_table0) (1 + 1) = 2" by (simp_all add: task_table0_def)
  with create_task_correct [OF pmm_boot_inv wf b(1,2) f(1) b(3) f(2,3), of 0 "\<lambda>_. 0"]
  show ?thesis by (auto simp: tcb_created_def)
qed

text \<open>
  The four page allocations of \<open>create_task\<close> are assumed to be contiguous, which nothing ensures: when
  the third page after the lowest free page is already in use, the new task's stack pointer and its
  initial frame lie in that foreign page.
\<close>

theorem create_task_stack_overlap:
  assumes "pmm_inv p" "0 < i" "i < MAX_TASKS" "f \<noteq> 0"
    "q + 3 < PMM_PAGES" "q \<notin> pages_used p" "\<forall>r < q. r \<in> pages_used p" "q + 3 \<in> pages_used p"
    "table_wf t"
  shows "\<exists>p' h' t'. create_task (int i) f pd (p, h, t) = Some (p', h', t') \<and>
    pmm_page (esp (task t' i)) \<in> pages_used p \<and> stack_frame (esp (task t' i)) f h'"
proof -
  have q: "q < PMM_PAGES" using assms(5) by simp
  obtain p' h' where c: "create_task (int i) f pd (p, h, t) = Some (p', h',
       t\<lparr>os_tasks := (os_tasks t)[i := tcb_created i f pd (addr_of_page q + 16364)],
         os_task_count := max (os_task_count t) (i + 1)\<rparr>)"
    "stack_frame (addr_of_page q + 16364) f h'"
    by (rule create_task_success [OF assms(1-4) q assms(6,7)])
  have len: "i < length (os_tasks t)" using assms(3,9) by (simp add: table_wf_def)
  have "unat (addr_of_page q + 16364) = q * PAGE_SIZE + 16364"
    using unat_addr_of_page [OF q] assms(5) by (subst unat_add_small) auto
  then have pg: "pmm_page (addr_of_page q + 16364) = q + 3" by (simp add: pmm_page_def)
  show ?thesis
    by (intro exI, intro conjI, rule c(1)) (use pg c(2) len assms(8) in \<open>simp_all add: task_def tcb_created_def\<close>)
qed

definition pmm_fragmented :: pmm where
  "pmm_fragmented = \<lparr>memory_bitmap = (replicate BITMAP_SIZE 0)[0 := 17], pmm_alloc_calls = 0, pmm_free_calls = 0\<rparr>"

theorem create_task_stack_overlap_witness:
  "\<exists>p' h' t'. create_task 1 0x100000 0 (pmm_fragmented, \<lambda>_. 0, task_table0) = Some (p', h', t') \<and>
     pmm_page (esp (task t' 1)) \<in> pages_used pmm_fragmented"
proof -
  have wf: "table_wf task_table0" by (simp add: table_wf_def task_table0_def os_tasks0_def)
  have bit: "page_bit pmm_fragmented 0" "\<not> page_bit pmm_fragmented 1" "page_bit pmm_fragmented 4"
    by (simp_all add: page_bit_def pmm_fragmented_def bit_numeral_rec)
  have u: "0 \<in> pages_used pmm_fragmented" "1 \<notin> pages_used pmm_fragmented" "1 + 3 \<in> pages_used pmm_fragmented"
    using bit by (simp_all add: pages_used_def)
  have inv: "pmm_inv pmm_fragmented" using u(1) by (simp add: pmm_inv_def pmm_wf_def pmm_fragmented_def)
  have b: "(0::nat) < 1" "(1::nat) < MAX_TASKS" "(1::nat) + 3 < PMM_PAGES" "(0x100000 :: u32) \<noteq> 0"
    "\<forall>r < (1::nat). r \<in> pages_used pmm_fragmented" using u(1) by simp_all
  from create_task_stack_overlap [OF inv b(1,2,4,3) u(2) b(5) u(3) wf, of 0 "\<lambda>_. 0"]
  show ?thesis by auto
qed

end
