(* ===== verification/Ring.thy ===== *)
theory Ring
  imports Prelude
begin

text \<open>
  The circular buffer that the kernel's queues share (\<open>ipc_channel_t\<close> and \<open>wait_queue_t\<close> of
  \<open>src/kernel/scheduler.c\<close>, the job queues of \<open>src/kernel/ai_scheduler.c\<close>): an array with a head
  index, a tail index and a count. The locale \<open>fifo\<close> states what a bounded first-in-first-out
  queue promises to its clients and proves the trace refinement once: any sequence of inserts and
  removals behaves as on a list. \<open>ring_push\<close> and \<open>ring_pop\<close> satisfy it for every capacity.
\<close>

section \<open>The buffer\<close>

record 'a ring =
  r_buf :: "'a list"
  r_head :: nat
  r_tail :: nat
  r_count :: nat

definition ring_init :: "nat \<Rightarrow> 'a \<Rightarrow> 'a ring" where
  "ring_init n d = \<lparr>r_buf = replicate n d, r_head = 0, r_tail = 0, r_count = 0\<rparr>"

text \<open>\<open>buf[tail] = v; tail = (tail + 1) % N; count++\<close>\<close>

definition ring_push :: "nat \<Rightarrow> 'a \<Rightarrow> 'a ring \<Rightarrow> 'a ring" where
  "ring_push n v r = r\<lparr>r_buf := (r_buf r)[r_tail r := v], r_tail := (r_tail r + 1) mod n, r_count := r_count r + 1\<rparr>"

text \<open>\<open>v = buf[head]; head = (head + 1) % N; count--\<close>\<close>

definition ring_pop :: "nat \<Rightarrow> 'a ring \<Rightarrow> 'a \<times> 'a ring" where
  "ring_pop n r = (r_buf r ! r_head r, r\<lparr>r_head := (r_head r + 1) mod n, r_count := r_count r - 1\<rparr>)"

text \<open>The variant that also clears the slot it read.\<close>

definition ring_pop_clear :: "nat \<Rightarrow> 'a \<Rightarrow> 'a ring \<Rightarrow> 'a \<times> 'a ring" where
  "ring_pop_clear n d r =
     (r_buf r ! r_head r, r\<lparr>r_buf := (r_buf r)[r_head r := d], r_head := (r_head r + 1) mod n, r_count := r_count r - 1\<rparr>)"

section \<open>What it contains\<close>

definition ring_wf :: "nat \<Rightarrow> 'a ring \<Rightarrow> bool" where
  "ring_wf n r \<longleftrightarrow> length (r_buf r) = n \<and> r_head r < n \<and> r_count r \<le> n \<and> r_tail r = (r_head r + r_count r) mod n"

definition ring_items :: "nat \<Rightarrow> 'a ring \<Rightarrow> 'a list" where
  "ring_items n r = map (\<lambda>k. r_buf r ! ((r_head r + k) mod n)) [0..<r_count r]"

lemma length_ring_items [simp]: "length (ring_items n r) = r_count r"
  by (simp add: ring_items_def)

lemma ring_items_empty: "ring_items n r = [] \<longleftrightarrow> r_count r = 0"
  by (metis length_0_conv length_ring_items)

lemma ring_init_wf: "0 < n \<Longrightarrow> ring_wf n (ring_init n d)"
  by (simp add: ring_wf_def ring_init_def)

lemma ring_init_items [simp]: "ring_items n (ring_init n d) = []"
  by (simp add: ring_items_def ring_init_def)

lemma ring_count_init [simp]: "r_count (ring_init n d) = 0"
  by (simp add: ring_init_def)

lemma mod_inj_window: "(a::nat) < n \<Longrightarrow> j < n \<Longrightarrow> k < n \<Longrightarrow> (a + j) mod n = (a + k) mod n \<Longrightarrow> j = k"
  by (auto simp: mod_if split: if_splits)

lemma ring_push_wf:
  assumes "ring_wf n r" "r_count r < n"
  shows "ring_wf n (ring_push n v r)"
  using assms by (auto simp: ring_wf_def ring_push_def mod_simps)

lemma ring_push_items:
  assumes "ring_wf n r" "r_count r < n"
  shows "ring_items n (ring_push n v r) = ring_items n r @ [v]"
proof -
  have len: "(r_head r + r_count r) mod n < length (r_buf r)" using assms by (auto simp: ring_wf_def)
  have "(r_head r + r_count r) mod n \<noteq> (r_head r + k) mod n" if "k < r_count r" for k
    using mod_inj_window [of "r_head r" n k "r_count r"] that assms by (auto simp: ring_wf_def)
  then show ?thesis using assms len
    by (simp add: ring_items_def ring_push_def ring_wf_def nth_list_update_neq)
qed

lemma ring_pop_wf:
  assumes "ring_wf n r" "0 < r_count r"
  shows "ring_wf n (snd (ring_pop n r))"
proof -
  have "((r_head r + 1) mod n + (r_count r - 1)) mod n = (r_head r + r_count r) mod n"
    using assms(2) by (metis add.assoc add_diff_inverse_nat less_one linorder_not_less mod_add_left_eq nat_neq_iff)
  then show ?thesis using assms by (auto simp: ring_wf_def ring_pop_def)
qed

lemma ring_pop_items:
  assumes "ring_wf n r" "0 < r_count r"
  shows "ring_items n r = fst (ring_pop n r) # ring_items n (snd (ring_pop n r))"
proof -
  obtain c where c: "r_count r = Suc c" using assms(2) by (cases "r_count r") auto
  have "((r_head r + 1) mod n + k) mod n = (r_head r + Suc k) mod n" for k by (simp add: mod_add_left_eq)
  then show ?thesis using assms c
    by (auto simp: ring_items_def ring_pop_def ring_wf_def upt_conv_Cons map_Suc_upt [symmetric] simp del: upt_Suc)
qed

lemma ring_pop_clear_wf: "ring_wf n r \<Longrightarrow> 0 < r_count r \<Longrightarrow> ring_wf n (snd (ring_pop_clear n d r))"
  using ring_pop_wf [of n r] by (auto simp: ring_wf_def ring_pop_def ring_pop_clear_def)

lemma ring_pop_clear_items:
  assumes "ring_wf n r" "0 < r_count r"
  shows "ring_items n r = fst (ring_pop_clear n d r) # ring_items n (snd (ring_pop_clear n d r))"
proof -
  have "r_head r \<noteq> (Suc (r_head r) mod n + k) mod n" if "k < r_count r - 1" for k
  proof -
    have "(Suc (r_head r) mod n + k) mod n = (r_head r + Suc k) mod n" by (simp add: mod_add_left_eq)
    moreover have "(r_head r + Suc k) mod n \<noteq> (r_head r + 0) mod n"
      using mod_inj_window [of "r_head r" n "Suc k" 0] that assms unfolding ring_wf_def by linarith
    ultimately show ?thesis using assms by (simp add: ring_wf_def)
  qed
  then have "ring_items n (snd (ring_pop_clear n d r)) = ring_items n (snd (ring_pop n r))"
    by (auto simp: ring_items_def ring_pop_def ring_pop_clear_def nth_list_update_neq)
  with ring_pop_items [OF assms] show ?thesis by (simp add: ring_pop_def ring_pop_clear_def)
qed

section \<open>Bounded queues\<close>

datatype 'a qop = Enq 'a | Deq

text \<open>The abstract queue: a list of at most \<open>n\<close> items. The output of an insert is whether it was
  accepted, the output of a removal is the item if there was one.\<close>

datatype 'a qout = Accepted bool | Got "'a option"

fun queue_step :: "nat \<Rightarrow> 'a qop \<Rightarrow> 'a list \<Rightarrow> 'a qout \<times> 'a list" where
  "queue_step n (Enq v) xs = (if length xs < n then (Accepted True, xs @ [v]) else (Accepted False, xs))"
| "queue_step n Deq [] = (Got None, [])"
| "queue_step n Deq (x # xs) = (Got (Some x), xs)"

primrec run_ops :: "('o \<Rightarrow> 's \<Rightarrow> 'r \<times> 's) \<Rightarrow> 'o list \<Rightarrow> 's \<Rightarrow> 'r list \<times> 's" where
  "run_ops f [] s = ([], s)"
| "run_ops f (op # ops) s =
     (let (r, s') = f op s; (rs, s'') = run_ops f ops s' in (r # rs, s''))"

locale fifo =
  fixes items :: "'q \<Rightarrow> 'a list" and wf :: "'q \<Rightarrow> bool" and cap :: nat
    and step :: "'a qop \<Rightarrow> 'q \<Rightarrow> 'a qout \<times> 'q"
  assumes items_bounded: "wf q \<Longrightarrow> length (items q) \<le> cap"
    and step_wf: "wf q \<Longrightarrow> wf (snd (step op q))"
    and step_sim: "wf q \<Longrightarrow> (fst (step op q), items (snd (step op q))) = queue_step cap op (items q)"
begin

lemma run_wf: "wf q \<Longrightarrow> wf (snd (run_ops step ops q))"
proof (induction ops arbitrary: q)
  case Nil
  then show ?case by simp
next
  case (Cons op ops)
  from Cons.IH [OF step_wf [OF Cons.prems, of op]] show ?case by (simp add: split_beta)
qed

text \<open>Trace refinement: the outputs and the final contents are those of the list queue.\<close>

lemma run_sim:
  "wf q \<Longrightarrow> fst (run_ops step ops q) = fst (run_ops (queue_step cap) ops (items q)) \<and>
    items (snd (run_ops step ops q)) = snd (run_ops (queue_step cap) ops (items q))"
proof (induction ops arbitrary: q)
  case Nil
  then show ?case by simp
next
  case (Cons op ops)
  have "queue_step cap op (items q) = (fst (step op q), items (snd (step op q)))"
    using step_sim [OF Cons.prems] by simp
  with Cons.IH [OF step_wf [OF Cons.prems, of op]] show ?case by (simp add: split_beta)
qed

lemma enq_full: "wf q \<Longrightarrow> length (items q) = cap \<Longrightarrow> fst (step (Enq v) q) = Accepted False"
  using step_sim [of q "Enq v"] by simp

lemma enq_room: "wf q \<Longrightarrow> length (items q) < cap \<Longrightarrow>
    fst (step (Enq v) q) = Accepted True \<and> items (snd (step (Enq v) q)) = items q @ [v]"
  using step_sim [of q "Enq v"] by simp

lemma deq_items: "wf q \<Longrightarrow> items q = x # xs \<Longrightarrow> fst (step Deq q) = Got (Some x) \<and> items (snd (step Deq q)) = xs"
  using step_sim [of q Deq] by simp

end

text \<open>The operations as one step function, guarded the way every user of the ring guards them.\<close>

fun ring_step :: "nat \<Rightarrow> 'a qop \<Rightarrow> 'a ring \<Rightarrow> 'a qout \<times> 'a ring" where
  "ring_step n (Enq v) r = (if r_count r \<ge> n then (Accepted False, r) else (Accepted True, ring_push n v r))"
| "ring_step n Deq r = (if r_count r = 0 then (Got None, r) else (let (v, r') = ring_pop n r in (Got (Some v), r')))"

interpretation ring: fifo "ring_items n" "ring_wf n" n "ring_step n" for n :: nat
proof
  fix q :: "'a ring" and op :: "'a qop"
  assume wf: "ring_wf n q"
  show "length (ring_items n q) \<le> n" using wf by (simp add: ring_wf_def)
  show "ring_wf n (snd (ring_step n op q))"
    using wf ring_push_wf [OF wf] ring_pop_wf [OF wf] by (cases op) (auto simp: split_beta)
  show "(fst (ring_step n op q), ring_items n (snd (ring_step n op q))) = queue_step n op (ring_items n q)"
  proof (cases op)
    case (Enq v)
    with wf ring_push_items [OF wf] show ?thesis by auto
  next
    case Deq
    show ?thesis
    proof (cases "r_count q = 0")
      case True
      with Deq show ?thesis by (simp add: ring_items_empty [THEN iffD2])
    next
      case False
      with Deq ring_pop_items [OF wf] show ?thesis by (simp add: split_beta)
    qed
  qed
qed

end
