(* ===== verification/Scheduler.thy ===== *)
theory Scheduler
  imports Task Ring
begin

text \<open>
  The scheduler of \<open>src/kernel/scheduler.c\<close>: effective priorities, selection of the next task, timer
  ticks, sleeping, exit and kill, wait queues, events and the IPC channels.

  A section between \<open>irq_lock_acquire\<close> and \<open>irq_lock_release\<close> runs with interrupts off on the only
  processor, so it is one atomic step of the model. The register switch of \<open>switch_task\<close> (assembly) is
  not modelled: \<open>scheduler_select_and_switch\<close> gives the state in which the chosen task continues.
  A call that reads the state again after it was switched out takes an argument \<open>env\<close>, which is what the other
  tasks and the interrupts did meanwhile. The profiler's time stamps are left out.
  A function that takes a pointer to a queue or an event comes in two parts: the body for an existing
  queue (with suffix \<open>_q\<close> or \<open>_ev\<close>) and the function itself, whose argument \<open>None\<close> is the null pointer.
\<close>

section \<open>State\<close>

abbreviation SCHED_PRIO_MAX :: u32 where "SCHED_PRIO_MAX \<equiv> 7"
abbreviation SCHED_WAIT_BOOST_MAX :: u32 where "SCHED_WAIT_BOOST_MAX \<equiv> 3"
abbreviation SCHED_WAKE_BOOST_MAX :: u32 where "SCHED_WAKE_BOOST_MAX \<equiv> 2"
abbreviation SCHED_STARVATION_WAIT_TICKS :: u32 where "SCHED_STARVATION_WAIT_TICKS \<equiv> 120"
abbreviation IPC_CHANNELS :: nat where "IPC_CHANNELS \<equiv> 4"
abbreviation IPC_QUEUE_CAPACITY :: nat where "IPC_QUEUE_CAPACITY \<equiv> 16"
abbreviation SCHED_PRIO_BANDS :: nat where "SCHED_PRIO_BANDS \<equiv> 4"

type_synonym wait_queue = "int ring"
type_synonym ipc_channel = "int ring"

record sched_event =
  waiters :: wait_queue
  signaled :: bool

record scheduler_metrics =
  m_ticks :: u32
  io_wake_boosts :: u32
  starvation_mitigations :: u32
  inversion_hints :: u32
  band_runtime :: "u32 list"
  band_switches :: "u32 list"
  max_wait_ticks :: "u32 list"

record sched = task_table +
  scheduler_ticks :: u32
  sched_metrics :: scheduler_metrics
  ipc_channels :: "ipc_channel list"
  ipc_send_waiters :: "wait_queue list"
  ipc_recv_waiters :: "wait_queue list"
  ipc_initialized :: bool

definition metrics0 :: scheduler_metrics where
  "metrics0 = \<lparr>m_ticks = 0, io_wake_boosts = 0, starvation_mitigations = 0, inversion_hints = 0,
     band_runtime = replicate SCHED_PRIO_BANDS 0, band_switches = replicate SCHED_PRIO_BANDS 0,
     max_wait_ticks = replicate SCHED_PRIO_BANDS 0\<rparr>"

text \<open>The static state before the kernel runs.\<close>

definition sched0 :: sched where
  "sched0 = \<lparr>os_tasks = os_tasks0, os_current_task = 0, os_task_count = 1, scheduler_ticks = 0,
     sched_metrics = metrics0, ipc_channels = replicate IPC_CHANNELS (ring_init IPC_QUEUE_CAPACITY 0),
     ipc_send_waiters = replicate IPC_CHANNELS (ring_init MAX_TASKS 0),
     ipc_recv_waiters = replicate IPC_CHANNELS (ring_init MAX_TASKS 0), ipc_initialized = False\<rparr>"

section \<open>Priorities\<close>

definition scheduler_prio_band :: "u32 \<Rightarrow> nat" where
  "scheduler_prio_band prio = (if prio \<le> 1 then 0 else if prio \<le> 3 then 1 else if prio \<le> 5 then 2 else 3)"

definition umin :: "u32 \<Rightarrow> u32 \<Rightarrow> u32" where
  "umin v m = (if v > m then m else v)"

definition eff_priority :: "tcb \<Rightarrow> u32" where
  "eff_priority k =
     (let base = umin (priority k) SCHED_PRIO_MAX;
          wait_boost = umin (drop_bit 4 (sched_wait_ticks k)) SCHED_WAIT_BOOST_MAX;
          wake_boost = umin (sched_wake_boost k) SCHED_WAKE_BOOST_MAX
      in umin (base + wait_boost + wake_boost) (SCHED_PRIO_MAX + SCHED_WAIT_BOOST_MAX + SCHED_WAKE_BOOST_MAX))"

definition scheduler_effective_priority_locked :: "nat \<Rightarrow> ('a) task_table_scheme \<Rightarrow> u32" where
  "scheduler_effective_priority_locked i s = (if i \<ge> os_task_count s then 0 else eff_priority (os_tasks s ! i))"

definition time_slice_for_priority :: "u32 \<Rightarrow> u32" where
  "time_slice_for_priority prio = (if prio = 0 then 3 else if prio \<ge> 3 then 8 else 5 + prio)"

section \<open>Waking and choosing\<close>

definition upd_metrics :: "(scheduler_metrics \<Rightarrow> scheduler_metrics) \<Rightarrow> sched \<Rightarrow> sched" where
  "upd_metrics f s = s\<lparr>sched_metrics := f (sched_metrics s)\<rparr>"

definition wake_due :: "u32 \<Rightarrow> tcb \<Rightarrow> bool" where
  "wake_due now k \<longleftrightarrow> (state k = TASK_STATE_SLEEPING \<or> state k = TASK_STATE_BLOCKED) \<and>
     wake_tick k \<noteq> 0 \<and> wake_tick k \<le> now"

definition wake_sleeper :: "nat \<Rightarrow> sched \<Rightarrow> sched" where
  "wake_sleeper i s =
     (if wake_due (scheduler_ticks s) (os_tasks s ! i)
      then task_trace_event (int i) EVT_WAKE (scheduler_ticks s)
             (upd_metrics (\<lambda>m. m\<lparr>io_wake_boosts := io_wake_boosts m + 1\<rparr>)
               (upd_task i (\<lambda>k. k\<lparr>state := TASK_STATE_READY, wake_tick := 0,
                  sched_wake_boost := SCHED_WAKE_BOOST_MAX\<rparr>) s))
      else s)"

definition scheduler_wake_sleepers_locked :: "sched \<Rightarrow> sched" where
  "scheduler_wake_sleepers_locked s = fold wake_sleeper [0..<os_task_count s] s"

text \<open>The body of the selection loop; the accumulator is \<open>best_idx\<close> (\<open>None\<close> for \<open>-1\<close>) and \<open>best_prio\<close>.\<close>

definition pick_step :: "nat \<Rightarrow> ('a) task_table_scheme \<Rightarrow> nat \<Rightarrow> nat option \<times> u32 \<Rightarrow> nat option \<times> u32" where
  "pick_step old_task s step b =
     (let idx = (old_task + step) mod os_task_count s in
      if state (os_tasks s ! idx) = TASK_STATE_READY
      then let prio = scheduler_effective_priority_locked idx s in
           if fst b = None \<or> prio > snd b then (Some idx, prio) else b
      else b)"

definition scheduler_pick_next_locked :: "nat \<Rightarrow> sched \<Rightarrow> nat \<times> sched" where
  "scheduler_pick_next_locked old_task s =
     (case fst (fold (pick_step old_task s) [1..<os_task_count s + 1] (None, 0)) of
        Some best \<Rightarrow>
          (best, if sched_wait_ticks (os_tasks s ! best) \<ge> SCHED_STARVATION_WAIT_TICKS
                 then upd_metrics (\<lambda>m. m\<lparr>starvation_mitigations := starvation_mitigations m + 1\<rparr>) s else s)
      | None \<Rightarrow>
          if state (os_tasks s ! old_task) = TASK_STATE_RUNNING \<or> state (os_tasks s ! old_task) = TASK_STATE_READY
          then (old_task, s)
          else (case find_slot (\<lambda>k. state k \<noteq> TASK_STATE_BLOCKED \<and> state k \<noteq> TASK_STATE_SLEEPING \<and>
                         state k \<noteq> TASK_STATE_TERMINATED) (take (os_task_count s) (os_tasks s)) of
                  Some i \<Rightarrow> (i, s) | None \<Rightarrow> (old_task, s)))"

definition bump_at :: "nat \<Rightarrow> u32 list \<Rightarrow> u32 list" where
  "bump_at i xs = xs[i := xs ! i + 1]"

text \<open>The assignments to the chosen task, and the trace records of a real switch.\<close>

definition switch_to :: "nat \<Rightarrow> nat \<Rightarrow> sched \<Rightarrow> sched" where
  "switch_to old_task new_task s =
     (let s1 = (upd_task new_task (\<lambda>k. k\<lparr>state := TASK_STATE_RUNNING,
                  time_slice := time_slice_for_priority (priority k),
                  sched_last_run_tick := scheduler_ticks s, sched_wait_ticks := 0, sched_wake_boost := 0\<rparr>) s)
                \<lparr>os_current_task := new_task\<rparr>;
          s2 = upd_metrics (\<lambda>m. m\<lparr>band_switches :=
                  bump_at (scheduler_prio_band (priority (os_tasks s1 ! new_task))) (band_switches m)\<rparr>) s1
      in if new_task \<noteq> old_task
         then upd_task new_task (\<lambda>k. k\<lparr>context_switches := context_switches k + 1\<rparr>)
                (task_trace_event (int new_task) EVT_SWITCH_IN (of_nat old_task)
                  (task_trace_event (int old_task) EVT_SWITCH_OUT (of_nat new_task) s2))
         else s2)"

definition scheduler_select_and_switch :: "bool \<Rightarrow> sched \<Rightarrow> sched" where
  "scheduler_select_and_switch force_current_ready s =
     (let old_task = os_current_task s;
          s1 = (if force_current_ready \<and> state (os_tasks s ! old_task) = TASK_STATE_RUNNING
                then upd_task old_task (\<lambda>k. k\<lparr>state := TASK_STATE_READY, sched_wait_ticks := 0\<rparr>) s else s);
          s2 = scheduler_wake_sleepers_locked s1;
          (new_task, s3) = scheduler_pick_next_locked old_task s2
      in switch_to old_task new_task s3)"

definition schedule :: "sched \<Rightarrow> sched" where
  "schedule s = scheduler_select_and_switch True s"

definition task_yield :: "sched \<Rightarrow> sched" where
  "task_yield s = schedule s"

definition task_sleep :: "u32 \<Rightarrow> sched \<Rightarrow> sched" where
  "task_sleep ticks s =
     (if ticks = 0 then task_yield s
      else let current = os_current_task s;
               s1 = upd_task current (\<lambda>k. k\<lparr>state := TASK_STATE_SLEEPING, wake_tick := scheduler_ticks s + ticks\<rparr>) s
           in scheduler_select_and_switch False (task_trace_event (int current) EVT_SLEEP ticks s1))"

section \<open>Exit and kill\<close>

text \<open>The part that \<open>task_exit_with_code\<close> and \<open>task_kill\<close> share: wake the parent that waits for this child.\<close>

definition wake_parent :: "int \<Rightarrow> nat \<Rightarrow> sched \<Rightarrow> sched" where
  "wake_parent parent child s =
     (if parent \<ge> 0 \<and> parent < int (os_task_count s) \<and>
         state (os_tasks s ! nat parent) = TASK_STATE_BLOCKED \<and>
         wait_reason (os_tasks s ! nat parent) = TASK_WAIT_CHILD
      then let target = wait_target (os_tasks s ! nat parent) in
           if target < 0 \<or> target = int child
           then upd_task (nat parent) (\<lambda>k. k\<lparr>state := TASK_STATE_READY, wake_tick := 0,
                  wait_reason := TASK_WAIT_NONE, wait_target := -1\<rparr>) s
           else s
      else s)"

definition mark_terminated :: "int \<Rightarrow> tcb \<Rightarrow> tcb" where
  "mark_terminated code k = k\<lparr>state := TASK_STATE_TERMINATED, wake_tick := 0, exit_status := code, exited := True\<rparr>"

text \<open>
  Closing the task's files and destroying its address space act on a world \<open>'w\<close> outside the scheduler:
  \<open>close_all\<close> stands for \<open>vfs_close_all_for_task\<close>, \<open>destroy\<close> for \<open>destroy_user_address_space\<close> and
  \<open>kernel_pd\<close> for the address of \<open>page_directory\<close>.
\<close>

definition release_task ::
  "(nat \<Rightarrow> 'w \<Rightarrow> 'w) \<Rightarrow> (u32 \<Rightarrow> 'w \<Rightarrow> 'w) \<Rightarrow> u32 \<Rightarrow> nat \<Rightarrow> u32 \<Rightarrow> 'w \<times> sched \<Rightarrow> 'w \<times> sched" where
  "release_task close_all destroy kernel_pd tid task_pd = (\<lambda>(w, s).
     let w1 = close_all tid w in
     if task_pd \<noteq> 0 \<and> task_pd \<noteq> kernel_pd
     then (destroy task_pd w1, upd_task tid (\<lambda>k. k\<lparr>page_dir := 0\<rparr>) s)
     else (w1, s))"

definition task_exit_with_code ::
  "(nat \<Rightarrow> 'w \<Rightarrow> 'w) \<Rightarrow> (u32 \<Rightarrow> 'w \<Rightarrow> 'w) \<Rightarrow> u32 \<Rightarrow> int \<Rightarrow> 'w \<times> sched \<Rightarrow> 'w \<times> sched" where
  "task_exit_with_code close_all destroy kernel_pd code = (\<lambda>(w, s).
     let current = os_current_task s;
         k = os_tasks s ! current;
         has_fault = (fault_code k \<noteq> 0 \<or> fault_addr k \<noteq> 0 \<or> fault_eip k \<noteq> 0);
         s1 = (if \<not> has_fault then task_trace_event (int current) EVT_TERMINATE 0 s else s);
         s2 = upd_task current (mark_terminated code) s1;
         s3 = wake_parent (parent_pid k) current s2;
         (w', s4) = release_task close_all destroy kernel_pd current (page_dir k) (w, s3)
     in (w', scheduler_select_and_switch False s4))"

definition task_terminate_current ::
  "(nat \<Rightarrow> 'w \<Rightarrow> 'w) \<Rightarrow> (u32 \<Rightarrow> 'w \<Rightarrow> 'w) \<Rightarrow> u32 \<Rightarrow> 'w \<times> sched \<Rightarrow> 'w \<times> sched" where
  "task_terminate_current close_all destroy kernel_pd = task_exit_with_code close_all destroy kernel_pd 0"

definition task_kill ::
  "(nat \<Rightarrow> 'w \<Rightarrow> 'w) \<Rightarrow> (u32 \<Rightarrow> 'w \<Rightarrow> 'w) \<Rightarrow> u32 \<Rightarrow> int \<Rightarrow> int \<Rightarrow> 'w \<times> sched \<Rightarrow> bool \<times> 'w \<times> sched" where
  "task_kill close_all destroy kernel_pd tid code = (\<lambda>(w, s).
     if tid < 0 \<or> tid \<ge> int (os_task_count s) then (False, w, s)
     else if tid = int (os_current_task s)
     then (True, task_exit_with_code close_all destroy kernel_pd code (w, s))
     else let i = nat tid; k = os_tasks s ! i in
       if state k = TASK_STATE_TERMINATED then (False, w, s)
       else let s1 = upd_task i (mark_terminated code) s;
                s2 = wake_parent (parent_pid k) i s1
            in (True, release_task close_all destroy kernel_pd i (page_dir k) (w, s2)))"

section \<open>The timer interrupt\<close>

definition tick_wait :: "nat \<Rightarrow> nat \<Rightarrow> sched \<Rightarrow> sched" where
  "tick_wait current i s =
     (if i = current then s
      else if state (os_tasks s ! i) = TASK_STATE_READY
      then let band = scheduler_prio_band (priority (os_tasks s ! i));
               s1 = (if sched_wait_ticks (os_tasks s ! i) < 0xFFFFFFFF
                     then upd_task i (\<lambda>k. k\<lparr>sched_wait_ticks := sched_wait_ticks k + 1\<rparr>) s else s);
               w = sched_wait_ticks (os_tasks s1 ! i)
           in if w > max_wait_ticks (sched_metrics s1) ! band
              then upd_metrics (\<lambda>m. m\<lparr>max_wait_ticks := (max_wait_ticks m)[band := w]\<rparr>) s1
              else s1
      else s)"

definition inversion_hint :: "nat \<Rightarrow> sched \<Rightarrow> bool" where
  "inversion_hint current s =
     (let cur_eff = scheduler_effective_priority_locked current s in
      list_ex (\<lambda>i. i \<noteq> current \<and> state (os_tasks s ! i) = TASK_STATE_READY \<and>
         scheduler_effective_priority_locked i s > cur_eff) [0..<os_task_count s])"

text \<open>The part for a RUNNING current task: its run time, its time slice and whether a READY task of higher
  effective priority exists.\<close>

definition tick_charge :: "nat \<Rightarrow> sched \<Rightarrow> sched" where
  "tick_charge current s =
     (let s5 = upd_metrics (\<lambda>m. m\<lparr>band_runtime :=
                 bump_at (scheduler_prio_band (priority (os_tasks s ! current))) (band_runtime m)\<rparr>) s;
          s6 = upd_task current (\<lambda>k. k\<lparr>runtime_ticks := runtime_ticks k + 1,
                 time_slice := (if time_slice k > 0 then time_slice k - 1 else time_slice k)\<rparr>) s5;
          by_slice = (time_slice (os_tasks s6 ! current) = 0);
          inv = inversion_hint current s6;
          s7 = (if inv then upd_metrics (\<lambda>m. m\<lparr>inversion_hints := inversion_hints m + 1\<rparr>) s6 else s6)
      in if by_slice \<or> inv
         then upd_task current (\<lambda>k. if by_slice
                then k\<lparr>time_slice := time_slice_for_priority (priority k)\<rparr>
                else if time_slice k > 1 then k\<lparr>time_slice := 1\<rparr> else k) s7
         else s7)"

definition scheduler_timer_tick :: "sched \<Rightarrow> sched" where
  "scheduler_timer_tick s =
     (let s1 = s\<lparr>scheduler_ticks := scheduler_ticks s + 1\<rparr>;
          s2 = upd_metrics (\<lambda>m. m\<lparr>m_ticks := scheduler_ticks s1\<rparr>) s1;
          s3 = scheduler_wake_sleepers_locked s2;
          current = os_current_task s3;
          s4 = fold (tick_wait current) [0..<os_task_count s3] s3
      in if state (os_tasks s4 ! current) = TASK_STATE_RUNNING then tick_charge current s4 else s4)"

definition scheduler_now_ticks :: "sched \<Rightarrow> u32" where
  "scheduler_now_ticks s = scheduler_ticks s"

definition scheduler_get_metrics :: "sched \<Rightarrow> scheduler_metrics" where
  "scheduler_get_metrics s = sched_metrics s"

definition scheduler_reset_metrics :: "sched \<Rightarrow> sched" where
  "scheduler_reset_metrics s = upd_metrics (\<lambda>m. m\<lparr>m_ticks := scheduler_ticks s, io_wake_boosts := 0,
     starvation_mitigations := 0, inversion_hints := 0, band_runtime := replicate SCHED_PRIO_BANDS 0,
     band_switches := replicate SCHED_PRIO_BANDS 0, max_wait_ticks := replicate SCHED_PRIO_BANDS 0\<rparr>) s"

section \<open>Wait queues\<close>

definition wait_queue_init :: "wait_queue option \<Rightarrow> wait_queue option" where
  "wait_queue_init = map_option (\<lambda>_. ring_init MAX_TASKS (-1))"

definition wait_queue_wait_q :: "wait_queue \<Rightarrow> sched \<Rightarrow> wait_queue \<times> sched" where
  "wait_queue_wait_q q s =
     (let current = os_current_task s in
      if r_count q < MAX_TASKS
      then (ring_push MAX_TASKS (int current) q,
            scheduler_select_and_switch False (upd_task current (\<lambda>k. k\<lparr>state := TASK_STATE_BLOCKED\<rparr>) s))
      else (q, scheduler_select_and_switch False s))"

definition wait_queue_wait :: "wait_queue option \<Rightarrow> sched \<Rightarrow> wait_queue option \<times> sched" where
  "wait_queue_wait qo s = (case qo of None \<Rightarrow> (None, s) | Some q \<Rightarrow> apfst Some (wait_queue_wait_q q s))"

definition wakeable :: "int \<Rightarrow> ('a) task_table_scheme \<Rightarrow> bool" where
  "wakeable tid s \<longleftrightarrow> tid \<ge> 0 \<and> tid < int (os_task_count s) \<and> state (os_tasks s ! nat tid) = TASK_STATE_BLOCKED"

definition wake_task :: "nat \<Rightarrow> sched \<Rightarrow> sched" where
  "wake_task i s = upd_metrics (\<lambda>m. m\<lparr>io_wake_boosts := io_wake_boosts m + 1\<rparr>)
     (upd_task i (\<lambda>k. k\<lparr>state := TASK_STATE_READY, wake_tick := 0, sched_wake_boost := SCHED_WAKE_BOOST_MAX\<rparr>) s)"

function wait_queue_wake_one_q :: "wait_queue \<Rightarrow> sched \<Rightarrow> bool \<times> wait_queue \<times> sched" where
  "wait_queue_wake_one_q q s =
     (if r_count q > 0
      then let (tid, q') = ring_pop_clear MAX_TASKS (-1) q in
           if wakeable tid s then (True, q', wake_task (nat tid) s) else wait_queue_wake_one_q q' s
      else (False, q, s))"
  by pat_completeness auto
termination
  by (relation "measure (\<lambda>(q, s). r_count q)") (auto simp: ring_pop_clear_def)

declare wait_queue_wake_one_q.simps [simp del]

lemma wake_one_count: "wait_queue_wake_one_q q s = (True, q', s') \<Longrightarrow> r_count q' < r_count q"
proof (induction q s rule: wait_queue_wake_one_q.induct)
  case (1 q s)
  then show ?case
    by (subst (asm) (2) wait_queue_wake_one_q.simps) (fastforce simp: Let_def ring_pop_clear_def split: if_splits)
qed

function wait_queue_wake_all_q :: "wait_queue \<Rightarrow> sched \<Rightarrow> nat \<times> wait_queue \<times> sched" where
  "wait_queue_wake_all_q q s =
     (case wait_queue_wake_one_q q s of
        (False, q', s') \<Rightarrow> (0, q', s')
      | (True, q', s') \<Rightarrow> let (n, q'', s'') = wait_queue_wake_all_q q' s' in (Suc n, q'', s''))"
  by pat_completeness auto
termination
  by (relation "measure (\<lambda>(q, s). r_count q)") (auto dest: wake_one_count [OF sym])

declare wait_queue_wake_all_q.simps [simp del]

definition wait_queue_wake_one :: "wait_queue option \<Rightarrow> sched \<Rightarrow> bool \<times> wait_queue option \<times> sched" where
  "wait_queue_wake_one qo s = (case qo of None \<Rightarrow> (False, None, s) | Some q \<Rightarrow>
     let (w, q', s') = wait_queue_wake_one_q q s in (w, Some q', s'))"

definition wait_queue_wake_all :: "wait_queue option \<Rightarrow> sched \<Rightarrow> nat \<times> wait_queue option \<times> sched" where
  "wait_queue_wake_all qo s = (case qo of None \<Rightarrow> (0, None, s) | Some q \<Rightarrow>
     let (n, q', s') = wait_queue_wake_all_q q s in (n, Some q', s'))"

section \<open>Events and timeouts\<close>

definition sched_event_init :: "sched_event option \<Rightarrow> sched_event option" where
  "sched_event_init = map_option (\<lambda>e. e\<lparr>signaled := False, waiters := ring_init MAX_TASKS (-1)\<rparr>)"

text \<open>Waiting for an event tests the flag in one locked section and enqueues in another; \<open>intr\<close> is what
  interrupts do between the two.\<close>

definition sched_event_wait_ev ::
  "(sched_event \<times> sched \<Rightarrow> sched_event \<times> sched) \<Rightarrow> sched_event \<Rightarrow> sched \<Rightarrow> sched_event \<times> sched" where
  "sched_event_wait_ev intr e s =
     (if signaled e then (e\<lparr>signaled := False\<rparr>, s)
      else let (e1, s1) = intr (e, s); (q, s') = wait_queue_wait_q (waiters e1) s1 in (e1\<lparr>waiters := q\<rparr>, s'))"

definition sched_event_wait ::
  "(sched_event \<times> sched \<Rightarrow> sched_event \<times> sched) \<Rightarrow> sched_event option \<Rightarrow> sched \<Rightarrow> sched_event option \<times> sched" where
  "sched_event_wait intr eo s = (case eo of None \<Rightarrow> (None, s) | Some e \<Rightarrow> apfst Some (sched_event_wait_ev intr e s))"

definition sched_event_signal_ev :: "sched_event \<Rightarrow> sched \<Rightarrow> sched_event \<times> sched" where
  "sched_event_signal_ev e s =
     (let (woken, q, s') = wait_queue_wake_one_q (waiters e) s; e' = e\<lparr>waiters := q\<rparr>
      in if \<not> woken then (e'\<lparr>signaled := True\<rparr>, s') else (e', s'))"

definition sched_event_signal :: "sched_event option \<Rightarrow> sched \<Rightarrow> sched_event option \<times> sched" where
  "sched_event_signal eo s = (case eo of None \<Rightarrow> (None, s) | Some e \<Rightarrow> apfst Some (sched_event_signal_ev e s))"

definition sched_event_broadcast :: "sched_event option \<Rightarrow> sched \<Rightarrow> sched_event option \<times> sched" where
  "sched_event_broadcast eo s = (case eo of None \<Rightarrow> (None, s) | Some e \<Rightarrow>
     let (_, q, s') = wait_queue_wake_all_q (waiters e) s in (Some (e\<lparr>waiters := q, signaled := True\<rparr>), s'))"

text \<open>The state in which \<open>task_sleep_timeout\<close> has been switched out, for non-zero arguments.\<close>

definition task_sleep_timeout_enter :: "u32 \<Rightarrow> u32 \<Rightarrow> sched \<Rightarrow> sched" where
  "task_sleep_timeout_enter ticks max_ticks s =
     (let current = os_current_task s; deadline = scheduler_ticks s + max_ticks;
          s1 = upd_task current (\<lambda>k. k\<lparr>state := TASK_STATE_SLEEPING, wake_tick := scheduler_ticks s + ticks\<rparr>) s;
          s2 = (if wake_tick (os_tasks s1 ! current) > deadline
                then upd_task current (\<lambda>k. k\<lparr>wake_tick := deadline\<rparr>) s1 else s1)
      in scheduler_select_and_switch False (task_trace_event (int current) EVT_SLEEP ticks s2))"

definition task_sleep_timeout :: "(sched \<Rightarrow> sched) \<Rightarrow> u32 \<Rightarrow> u32 \<Rightarrow> sched \<Rightarrow> bool \<times> sched" where
  "task_sleep_timeout env ticks max_ticks s =
     (if ticks = 0 then (True, task_yield s)
      else if max_ticks = 0 then (False, s)
      else let deadline = scheduler_ticks s + max_ticks;
               s' = env (task_sleep_timeout_enter ticks max_ticks s)
           in (\<not> scheduler_ticks s' \<ge> deadline, s'))"

definition wait_queue_wait_timeout_enter :: "wait_queue \<Rightarrow> u32 \<Rightarrow> sched \<Rightarrow> wait_queue \<times> sched" where
  "wait_queue_wait_timeout_enter q max_ticks s =
     (let current = os_current_task s; deadline = scheduler_ticks s + max_ticks in
      if r_count q < MAX_TASKS
      then (ring_push MAX_TASKS (int current) q,
            scheduler_select_and_switch False
              (upd_task current (\<lambda>k. k\<lparr>state := TASK_STATE_BLOCKED, wake_tick := deadline\<rparr>) s))
      else (q, scheduler_select_and_switch False s))"

definition wait_queue_wait_timeout ::
  "(wait_queue \<times> sched \<Rightarrow> wait_queue \<times> sched) \<Rightarrow> wait_queue option \<Rightarrow> u32 \<Rightarrow> sched \<Rightarrow> bool \<times> wait_queue option \<times> sched" where
  "wait_queue_wait_timeout env qo max_ticks s = (case qo of None \<Rightarrow> (False, None, s) | Some q \<Rightarrow>
     if max_ticks = 0 then (False, Some q, s)
     else let deadline = scheduler_ticks s + max_ticks;
              (q', s') = env (wait_queue_wait_timeout_enter q max_ticks s)
          in (\<not> scheduler_ticks s' \<ge> deadline, Some q', s'))"

definition sched_event_wait_timeout ::
  "(sched_event \<times> sched \<Rightarrow> sched_event \<times> sched) \<Rightarrow> (wait_queue \<times> sched \<Rightarrow> wait_queue \<times> sched) \<Rightarrow> sched_event option \<Rightarrow> u32 \<Rightarrow> sched \<Rightarrow> bool \<times> sched_event option \<times> sched" where
  "sched_event_wait_timeout intr env eo max_ticks s = (case eo of None \<Rightarrow> (False, None, s) | Some e \<Rightarrow>
     if max_ticks = 0 then (False, Some e, s)
     else if signaled e then (True, Some (e\<lparr>signaled := False\<rparr>), s)
     else let (e1, s1) = intr (e, s);
              (r, q, s') = wait_queue_wait_timeout env (Some (waiters e1)) max_ticks s1
          in (r, Some (case q of None \<Rightarrow> e1 | Some q' \<Rightarrow> e1\<lparr>waiters := q'\<rparr>), s'))"

section \<open>IPC channels\<close>

definition ipc_init_once :: "sched \<Rightarrow> sched" where
  "ipc_init_once s = (if ipc_initialized s then s
     else s\<lparr>ipc_channels := replicate IPC_CHANNELS (ring_init IPC_QUEUE_CAPACITY 0),
            ipc_send_waiters := replicate IPC_CHANNELS (ring_init MAX_TASKS (-1)),
            ipc_recv_waiters := replicate IPC_CHANNELS (ring_init MAX_TASKS (-1)), ipc_initialized := True\<rparr>)"

text \<open>\<open>ipc_send\<close> returns its result flag; \<open>ipc_recv\<close> the value it stored through \<open>out_value\<close>, with
  \<open>out_ok\<close> telling whether that pointer is not null.\<close>

definition wake_recv_waiter :: "nat \<Rightarrow> sched \<Rightarrow> sched" where
  "wake_recv_waiter c s = (let (_, q, s') = wait_queue_wake_one_q (ipc_recv_waiters s ! c) s
     in s'\<lparr>ipc_recv_waiters := (ipc_recv_waiters s')[c := q]\<rparr>)"

definition wake_send_waiter :: "nat \<Rightarrow> sched \<Rightarrow> sched" where
  "wake_send_waiter c s = (let (_, q, s') = wait_queue_wake_one_q (ipc_send_waiters s ! c) s
     in s'\<lparr>ipc_send_waiters := (ipc_send_waiters s')[c := q]\<rparr>)"

definition ipc_send :: "int \<Rightarrow> int \<Rightarrow> sched \<Rightarrow> bool \<times> sched" where
  "ipc_send channel v s =
     (if channel < 0 \<or> channel \<ge> int IPC_CHANNELS then (False, s)
      else let s1 = ipc_init_once s; c = nat channel; ch = ipc_channels s1 ! c in
        if r_count ch \<ge> IPC_QUEUE_CAPACITY then (False, s1)
        else let ch' = ring_push IPC_QUEUE_CAPACITY v ch;
                 s2 = s1\<lparr>ipc_channels := (ipc_channels s1)[c := ch']\<rparr>
             in (True, if r_count ch' > 0 then wake_recv_waiter c s2 else s2))"

definition ipc_recv :: "int \<Rightarrow> bool \<Rightarrow> sched \<Rightarrow> int option \<times> sched" where
  "ipc_recv channel out_ok s =
     (if channel < 0 \<or> channel \<ge> int IPC_CHANNELS \<or> \<not> out_ok then (None, s)
      else let s1 = ipc_init_once s; c = nat channel; ch = ipc_channels s1 ! c in
        if r_count ch = 0 then (None, s1)
        else let (v, ch') = ring_pop IPC_QUEUE_CAPACITY ch;
                 s2 = s1\<lparr>ipc_channels := (ipc_channels s1)[c := ch']\<rparr>
             in (Some v, if r_count ch' < IPC_QUEUE_CAPACITY then wake_send_waiter c s2 else s2))"

definition ipc_queue_depth :: "int \<Rightarrow> sched \<Rightarrow> int \<times> sched" where
  "ipc_queue_depth channel s =
     (if channel < 0 \<or> channel \<ge> int IPC_CHANNELS then (-1, s)
      else let s1 = ipc_init_once s in (int (r_count (ipc_channels s1 ! nat channel)), s1))"

text \<open>The blocking calls. The \<open>n\<close>-th time the caller is switched out, \<open>env n\<close> is what happens until it
  runs again; a call that never returns is \<open>None\<close>.\<close>

definition block_on_send :: "nat \<Rightarrow> sched \<Rightarrow> sched" where
  "block_on_send c s = (let (q, s') = wait_queue_wait_q (ipc_send_waiters s ! c) s
     in s'\<lparr>ipc_send_waiters := (ipc_send_waiters s')[c := q]\<rparr>)"

definition block_on_recv :: "nat \<Rightarrow> sched \<Rightarrow> sched" where
  "block_on_recv c s = (let (q, s') = wait_queue_wait_q (ipc_recv_waiters s ! c) s
     in s'\<lparr>ipc_recv_waiters := (ipc_recv_waiters s')[c := q]\<rparr>)"

partial_function (option) ipc_send_wait_loop ::
  "(nat \<Rightarrow> sched \<Rightarrow> sched) \<Rightarrow> nat \<Rightarrow> int \<Rightarrow> int \<Rightarrow> sched \<Rightarrow> (bool \<times> sched) option" where
  "ipc_send_wait_loop env n channel v s =
     (if fst (ipc_send channel v s) then Some (True, snd (ipc_send channel v s))
      else ipc_send_wait_loop env (Suc n) channel v
             (env n (block_on_send (nat channel) (snd (ipc_send channel v s)))))"

definition ipc_send_wait :: "(nat \<Rightarrow> sched \<Rightarrow> sched) \<Rightarrow> int \<Rightarrow> int \<Rightarrow> sched \<Rightarrow> (bool \<times> sched) option" where
  "ipc_send_wait env channel v s =
     (if channel < 0 \<or> channel \<ge> int IPC_CHANNELS then Some (False, s)
      else ipc_send_wait_loop env 0 channel v (ipc_init_once s))"

partial_function (option) ipc_recv_wait_loop ::
  "(nat \<Rightarrow> sched \<Rightarrow> sched) \<Rightarrow> nat \<Rightarrow> int \<Rightarrow> sched \<Rightarrow> (int option \<times> sched) option" where
  "ipc_recv_wait_loop env n channel s =
     (if fst (ipc_recv channel True s) \<noteq> None then Some (ipc_recv channel True s)
      else ipc_recv_wait_loop env (Suc n) channel
             (env n (block_on_recv (nat channel) (snd (ipc_recv channel True s)))))"

definition ipc_recv_wait :: "(nat \<Rightarrow> sched \<Rightarrow> sched) \<Rightarrow> int \<Rightarrow> bool \<Rightarrow> sched \<Rightarrow> (int option \<times> sched) option" where
  "ipc_recv_wait env channel out_ok s =
     (if channel < 0 \<or> channel \<ge> int IPC_CHANNELS \<or> \<not> out_ok then Some (None, s)
      else ipc_recv_wait_loop env 0 channel (ipc_init_once s))"

definition block_on_send_timeout :: "nat \<Rightarrow> u32 \<Rightarrow> sched \<Rightarrow> sched" where
  "block_on_send_timeout c max_ticks s =
     (let (q, s') = wait_queue_wait_timeout_enter (ipc_send_waiters s ! c) max_ticks s
      in s'\<lparr>ipc_send_waiters := (ipc_send_waiters s')[c := q]\<rparr>)"

definition block_on_recv_timeout :: "nat \<Rightarrow> u32 \<Rightarrow> sched \<Rightarrow> sched" where
  "block_on_recv_timeout c max_ticks s =
     (let (q, s') = wait_queue_wait_timeout_enter (ipc_recv_waiters s ! c) max_ticks s
      in s'\<lparr>ipc_recv_waiters := (ipc_recv_waiters s')[c := q]\<rparr>)"

text \<open>The loop of the timed calls: \<open>start\<close> and \<open>max_ticks\<close> are fixed; the wait itself reports a timeout
  when the tick counter has reached the deadline it computed.\<close>

partial_function (option) ipc_send_timeout_loop ::
  "(nat \<Rightarrow> sched \<Rightarrow> sched) \<Rightarrow> nat \<Rightarrow> u32 \<Rightarrow> u32 \<Rightarrow> int \<Rightarrow> int \<Rightarrow> sched \<Rightarrow> (bool \<times> sched) option" where
  "ipc_send_timeout_loop env n start max_ticks channel v s =
     (let r = ipc_send channel v s; s1 = snd r in
      if fst r then Some (True, s1)
      else let elapsed = scheduler_now_ticks s1 - start in
        if elapsed \<ge> max_ticks then Some (False, s1)
        else let remaining = max_ticks - elapsed;
                 deadline = scheduler_ticks s1 + remaining;
                 s2 = env n (block_on_send_timeout (nat channel) remaining s1)
             in if scheduler_ticks s2 \<ge> deadline then Some (False, s2)
                else ipc_send_timeout_loop env (Suc n) start max_ticks channel v s2)"

definition ipc_send_timeout ::
  "(nat \<Rightarrow> sched \<Rightarrow> sched) \<Rightarrow> int \<Rightarrow> int \<Rightarrow> u32 \<Rightarrow> sched \<Rightarrow> (bool \<times> sched) option" where
  "ipc_send_timeout env channel v max_ticks s =
     (if channel < 0 \<or> channel \<ge> int IPC_CHANNELS \<or> max_ticks = 0 then Some (False, s)
      else let s1 = ipc_init_once s
           in ipc_send_timeout_loop env 0 (scheduler_now_ticks s1) max_ticks channel v s1)"

partial_function (option) ipc_recv_timeout_loop ::
  "(nat \<Rightarrow> sched \<Rightarrow> sched) \<Rightarrow> nat \<Rightarrow> u32 \<Rightarrow> u32 \<Rightarrow> int \<Rightarrow> sched \<Rightarrow> (int option \<times> sched) option" where
  "ipc_recv_timeout_loop env n start max_ticks channel s =
     (let r = ipc_recv channel True s; s1 = snd r in
      if fst r \<noteq> None then Some r
      else let elapsed = scheduler_now_ticks s1 - start in
        if elapsed \<ge> max_ticks then Some (None, s1)
        else let remaining = max_ticks - elapsed;
                 deadline = scheduler_ticks s1 + remaining;
                 s2 = env n (block_on_recv_timeout (nat channel) remaining s1)
             in if scheduler_ticks s2 \<ge> deadline then Some (None, s2)
                else ipc_recv_timeout_loop env (Suc n) start max_ticks channel s2)"

definition ipc_recv_timeout ::
  "(nat \<Rightarrow> sched \<Rightarrow> sched) \<Rightarrow> int \<Rightarrow> bool \<Rightarrow> u32 \<Rightarrow> sched \<Rightarrow> (int option \<times> sched) option" where
  "ipc_recv_timeout env channel out_ok max_ticks s =
     (if channel < 0 \<or> channel \<ge> int IPC_CHANNELS \<or> \<not> out_ok \<or> max_ticks = 0 then Some (None, s)
      else let s1 = ipc_init_once s
           in ipc_recv_timeout_loop env 0 (scheduler_now_ticks s1) max_ticks channel s1)"

end
