(* ===== verification/SchedulerProps.thy ===== *)
theory SchedulerProps
  imports Scheduler
begin

text \<open>
  Correctness of the scheduler: which task is chosen, that exactly the current task is RUNNING in every
  reachable state, what waking, exit and kill do, and that IPC channels are bounded FIFO queues.
  The first sections describe each locked section by its effect on the single task control block.
\<close>

section \<open>Effects on the table\<close>

lemma upd_metrics_fields [simp]:
  "os_tasks (upd_metrics f s) = os_tasks s" "os_current_task (upd_metrics f s) = os_current_task s"
  "os_task_count (upd_metrics f s) = os_task_count s" "scheduler_ticks (upd_metrics f s) = scheduler_ticks s"
  "ipc_channels (upd_metrics f s) = ipc_channels s" "ipc_send_waiters (upd_metrics f s) = ipc_send_waiters s"
  "ipc_recv_waiters (upd_metrics f s) = ipc_recv_waiters s" "ipc_initialized (upd_metrics f s) = ipc_initialized s"
  "sched_metrics (upd_metrics f s) = f (sched_metrics s)" "table_wf (upd_metrics f s) = table_wf s"
  "task (upd_metrics f s) = task s"
  by (simp_all add: upd_metrics_def table_wf_def task_def fun_eq_iff)

lemma upd_task_sched [simp]:
  "scheduler_ticks (upd_task i f s) = scheduler_ticks s" "sched_metrics (upd_task i f s) = sched_metrics s"
  "ipc_channels (upd_task i f s) = ipc_channels s" "ipc_send_waiters (upd_task i f s) = ipc_send_waiters s"
  "ipc_recv_waiters (upd_task i f s) = ipc_recv_waiters s" "ipc_initialized (upd_task i f s) = ipc_initialized s"
  by (simp_all add: upd_task_def)

lemma trace_sched [simp]:
  "scheduler_ticks (task_trace_event i e a s) = scheduler_ticks s"
  "sched_metrics (task_trace_event i e a s) = sched_metrics s"
  "ipc_channels (task_trace_event i e a s) = ipc_channels s"
  "ipc_send_waiters (task_trace_event i e a s) = ipc_send_waiters s"
  "ipc_recv_waiters (task_trace_event i e a s) = ipc_recv_waiters s"
  "ipc_initialized (task_trace_event i e a s) = ipc_initialized s"
  by (simp_all add: task_trace_event_def)

lemma task_upd_wf: "table_wf s \<Longrightarrow> i < MAX_TASKS \<Longrightarrow> task (upd_task i f s) j = (if i = j then f (task s j) else task s j)"
  by (simp add: task_upd table_wf_def)

lemma task_trace_wf:
  "table_wf s \<Longrightarrow> i < MAX_TASKS \<Longrightarrow>
   task (task_trace_event (int i) e a s) j = (if i = j then trace_tcb e a (task s j) else task s j)"
  by (simp add: task_trace_event_upd task_upd_wf)

lemma table_wfD: "table_wf s \<Longrightarrow> i < os_task_count s \<Longrightarrow> i < MAX_TASKS"
  by (simp add: table_wf_def)

lemma table_wf_current [simp]: "table_wf s \<Longrightarrow> os_current_task s < os_task_count s"
  by (simp add: table_wf_def)

lemma table_wf_current' [simp]: "table_wf s \<Longrightarrow> os_current_task s < MAX_TASKS"
  by (simp add: table_wf_def)

text \<open>The IPC state, which no task-table operation touches.\<close>

definition ipc_part :: "sched \<Rightarrow> ipc_channel list \<times> wait_queue list \<times> wait_queue list \<times> bool" where
  "ipc_part s = (ipc_channels s, ipc_send_waiters s, ipc_recv_waiters s, ipc_initialized s)"

lemma ipc_part_simps [simp]:
  "ipc_part (upd_metrics f s) = ipc_part s" "ipc_part (upd_task i g s) = ipc_part s"
  "ipc_part (task_trace_event j e a s) = ipc_part s" "ipc_part (s\<lparr>os_current_task := c\<rparr>) = ipc_part s"
  "ipc_part (s\<lparr>scheduler_ticks := n\<rparr>) = ipc_part s"
  by (simp_all add: ipc_part_def)

text \<open>A loop over the slots whose body at \<open>i\<close> rewrites block \<open>i\<close> only.\<close>

lemma fold_tasks:
  assumes inv: "\<And>i s. P s \<Longrightarrow> i < n \<Longrightarrow> P (f i s)"
    and body: "\<And>i j s. P s \<Longrightarrow> i < n \<Longrightarrow> task (f i s) j = (if i = j then g j (task s j) else task s j)"
    and "P s"
  shows "P (fold f [0..<n] s) \<and>
    task (fold f [0..<n] s) j = (if j < n then g j (task s j) else task s j)"
  using inv body
proof (induction n)
  case 0
  with assms(3) show ?case by simp
next
  case (Suc n)
  let ?t = "fold f [0..<n] s"
  have IH: "P ?t \<and> task ?t j = (if j < n then g j (task s j) else task s j)"
    by (rule Suc.IH) (use Suc.prems in auto)
  then have "P (f n ?t)" "task (f n ?t) j = (if n = j then g j (task ?t j) else task ?t j)"
    using Suc.prems(1) [of ?t n] Suc.prems(2) [of ?t n j] by auto
  with IH show ?case by auto
qed

section \<open>Waking the tasks that are due\<close>

definition woken_tcb :: "u32 \<Rightarrow> tcb \<Rightarrow> tcb" where
  "woken_tcb now k = (if wake_due now k
     then trace_tcb EVT_WAKE now (k\<lparr>state := TASK_STATE_READY, wake_tick := 0, sched_wake_boost := SCHED_WAKE_BOOST_MAX\<rparr>)
     else k)"

definition same_frame :: "sched \<Rightarrow> sched \<Rightarrow> bool" where
  "same_frame s t \<longleftrightarrow> table_wf t \<and> os_current_task t = os_current_task s \<and> os_task_count t = os_task_count s \<and>
     scheduler_ticks t = scheduler_ticks s \<and> ipc_part t = ipc_part s"

lemma same_frame_refl: "table_wf s \<Longrightarrow> same_frame s s"
  by (simp add: same_frame_def)

lemma wake_sleeper_frame: "same_frame s t \<Longrightarrow> same_frame s (wake_sleeper i t)"
  by (simp add: same_frame_def wake_sleeper_def)

lemma wake_sleeper_task:
  assumes "table_wf s" "i < MAX_TASKS"
  shows "task (wake_sleeper i s) j = (if i = j then woken_tcb (scheduler_ticks s) (task s j) else task s j)"
proof -
  have "os_tasks s ! i = task s i" by (simp add: task_def)
  with assms show ?thesis by (auto simp: wake_sleeper_def task_trace_wf task_upd_wf woken_tcb_def)
qed

lemma wake_sleepers_spec:
  assumes "table_wf s"
  shows "same_frame s (scheduler_wake_sleepers_locked s)"
    "task (scheduler_wake_sleepers_locked s) j =
       (if j < os_task_count s then woken_tcb (scheduler_ticks s) (task s j) else task s j)"
proof -
  have "same_frame s (fold wake_sleeper [0..<os_task_count s] s) \<and>
    task (fold wake_sleeper [0..<os_task_count s] s) j =
      (if j < os_task_count s then woken_tcb (scheduler_ticks s) (task s j) else task s j)"
  proof (rule fold_tasks)
    fix i j t assume t: "same_frame s t" "i < os_task_count s"
    then have "table_wf t" "i < MAX_TASKS" "scheduler_ticks t = scheduler_ticks s"
      using assms table_wfD by (auto simp: same_frame_def)
    then show "task (wake_sleeper i t) j = (if i = j then woken_tcb (scheduler_ticks s) (task t j) else task t j)"
      by (simp add: wake_sleeper_task)
  qed (use wake_sleeper_frame same_frame_refl assms in auto)
  then show "same_frame s (scheduler_wake_sleepers_locked s)"
    "task (scheduler_wake_sleepers_locked s) j =
       (if j < os_task_count s then woken_tcb (scheduler_ticks s) (task s j) else task s j)"
    by (simp_all add: scheduler_wake_sleepers_locked_def)
qed

lemma woken_tcb_state:
  "state (woken_tcb now k) = (if wake_due now k then TASK_STATE_READY else state k)"
  by (simp add: woken_tcb_def)

lemma woken_running [simp]: "state (woken_tcb now k) = TASK_STATE_RUNNING \<longleftrightarrow> state k = TASK_STATE_RUNNING"
  by (auto simp: woken_tcb_state wake_due_def)

section \<open>Choosing the next task\<close>

lemma umin_le: "umin v m \<le> m"
  by (auto simp: umin_def not_le)

lemma eff_priority_bound: "eff_priority k \<le> 12"
  using umin_le by (simp add: eff_priority_def Let_def)

abbreviation is_ready :: "('a) task_table_scheme \<Rightarrow> nat \<Rightarrow> bool" where
  "is_ready s i \<equiv> state (task s i) = TASK_STATE_READY"

abbreviation eff :: "('a) task_table_scheme \<Rightarrow> nat \<Rightarrow> u32" where
  "eff s i \<equiv> scheduler_effective_priority_locked i s"

text \<open>What the selection loop knows after a prefix of the steps: nothing ready was seen, or the best task
  is the first one that reaches the highest effective priority.\<close>

definition best_upto :: "(nat \<Rightarrow> bool) \<Rightarrow> (nat \<Rightarrow> u32) \<Rightarrow> nat list \<Rightarrow> nat option \<times> u32 \<Rightarrow> bool" where
  "best_upto ready e xs b = (case fst b of
     None \<Rightarrow> \<forall>i \<in> set xs. \<not> ready i
   | Some i \<Rightarrow> snd b = e i \<and> ready i \<and> (\<exists>ys zs. xs = ys @ i # zs \<and>
       (\<forall>y \<in> set ys. ready y \<longrightarrow> e y < e i) \<and> (\<forall>z \<in> set zs. ready z \<longrightarrow> e z \<le> e i)))"

lemma best_upto_SomeI:
  "xs = ys @ i # zs \<Longrightarrow> ready i \<Longrightarrow> (\<forall>y \<in> set ys. ready y \<longrightarrow> e y < e i) \<Longrightarrow>
   (\<forall>z \<in> set zs. ready z \<longrightarrow> e z \<le> e i) \<Longrightarrow> b = (Some i, e i) \<Longrightarrow> best_upto ready e xs b"
  unfolding best_upto_def by auto

lemma best_upto_snoc_new:
  assumes "best_upto ready e xs b" "ready i" "fst b = None \<or> snd b < e i"
  shows "best_upto ready e (xs @ [i]) (Some i, e i)"
proof (cases "fst b")
  case None
  with assms(1) have "\<forall>x \<in> set xs. ready x \<longrightarrow> e x < e i" by (auto simp: best_upto_def)
  with assms(2) show ?thesis by (intro best_upto_SomeI [of _ xs i "[]"]) auto
next
  case (Some k)
  with assms obtain ys zs where "xs = ys @ k # zs" "\<forall>y \<in> set ys. ready y \<longrightarrow> e y < e k"
    "\<forall>z \<in> set zs. ready z \<longrightarrow> e z \<le> e k" "e k < e i" by (auto simp: best_upto_def)
  then have "\<forall>x \<in> set xs. ready x \<longrightarrow> e x < e i" by (auto intro: less_trans le_less_trans)
  with assms(2) show ?thesis by (intro best_upto_SomeI [of _ xs i "[]"]) auto
qed

lemma best_upto_snoc_old:
  assumes "best_upto ready e xs b" "ready i \<longrightarrow> fst b \<noteq> None \<and> \<not> snd b < e i"
  shows "best_upto ready e (xs @ [i]) b"
proof (cases "fst b")
  case None
  with assms show ?thesis by (auto simp: best_upto_def)
next
  case (Some k)
  with assms obtain ys zs where "xs = ys @ k # zs" "\<forall>y \<in> set ys. ready y \<longrightarrow> e y < e k"
    "\<forall>z \<in> set zs. ready z \<longrightarrow> e z \<le> e k" "snd b = e k" "ready k" by (auto simp: best_upto_def)
  with Some assms(2) show ?thesis
    by (intro best_upto_SomeI [of _ ys k "zs @ [i]"]) (auto simp: prod_eq_iff not_less)
qed

lemma pick_fold:
  "best_upto (is_ready s) (eff s) (map (\<lambda>k. (old + k) mod os_task_count s) ks)
     (fold (pick_step old s) ks (None, 0))"
proof (induction ks rule: rev_induct)
  case Nil
  show ?case by (simp add: best_upto_def)
next
  case (snoc k ks)
  let ?i = "(old + k) mod os_task_count s" and ?b = "fold (pick_step old s) ks (None, 0)"
  have "pick_step old s k ?b = (if is_ready s ?i \<and> (fst ?b = None \<or> snd ?b < eff s ?i) then (Some ?i, eff s ?i) else ?b)"
    by (simp add: pick_step_def task_def Let_def)
  then show ?case
    using best_upto_snoc_new [OF snoc, of ?i] best_upto_snoc_old [OF snoc, of ?i] by auto
qed

lemma rotation_covers:
  assumes "(j::nat) < n" "old < n"
  obtains k where "1 \<le> k" "k \<le> n" "(old + k) mod n = j"
proof (cases "old < j")
  case True
  with assms that [of "j - old"] show thesis by simp
next
  case False
  with assms that [of "j + n - old"] show thesis by simp
qed

text \<open>The round-robin order in which \<open>scheduler_pick_next_locked\<close> examines the slots.\<close>

definition rr_order :: "nat \<Rightarrow> nat \<Rightarrow> nat list" where
  "rr_order old n = map (\<lambda>k. (old + k) mod n) [1..<n + 1]"

lemma set_rr_order: "old < n \<Longrightarrow> set (rr_order old n) = {..<n}"
proof
  assume n: "old < n"
  then show "set (rr_order old n) \<subseteq> {..<n}" by (auto simp: rr_order_def simp del: upt_Suc)
  show "{..<n} \<subseteq> set (rr_order old n)"
  proof
    fix j assume "j \<in> {..<n}"
    then obtain k where "1 \<le> k" "k \<le> n" "(old + k) mod n = j" using rotation_covers [of j n old] n by auto
    then show "j \<in> set (rr_order old n)" by (auto simp: rr_order_def simp del: upt_Suc intro!: image_eqI [of _ _ k])
  qed
qed

lemma pick_next_cases:
  assumes "table_wf s" "old < os_task_count s"
  obtains (Best) i ys zs where "rr_order old (os_task_count s) = ys @ i # zs" "is_ready s i" "i < os_task_count s"
      "\<forall>y \<in> set ys. is_ready s y \<longrightarrow> eff s y < eff s i" "\<forall>z \<in> set zs. is_ready s z \<longrightarrow> eff s z \<le> eff s i"
      "fst (scheduler_pick_next_locked old s) = i"
  | (Nobody) "\<forall>i < os_task_count s. \<not> is_ready s i" "state (task s old) \<noteq> TASK_STATE_RUNNING \<longrightarrow>
        (\<forall>i < os_task_count s. state (task s i) \<noteq> TASK_STATE_RUNNING) \<longrightarrow> fst (scheduler_pick_next_locked old s) = old"
      "state (task s old) = TASK_STATE_RUNNING \<longrightarrow> fst (scheduler_pick_next_locked old s) = old"
      "fst (scheduler_pick_next_locked old s) < os_task_count s"
proof (cases "fst (fold (pick_step old s) [1..<os_task_count s + 1] (None, 0))")
  case (Some i)
  with pick_fold [of s old "[1..<os_task_count s + 1]"] obtain ys zs where
    o: "rr_order old (os_task_count s) = ys @ i # zs" "is_ready s i"
      "\<forall>y \<in> set ys. is_ready s y \<longrightarrow> eff s y < eff s i" "\<forall>z \<in> set zs. is_ready s z \<longrightarrow> eff s z \<le> eff s i"
    by (auto simp: best_upto_def rr_order_def simp del: upt_Suc)
  have "i \<in> set (rr_order old (os_task_count s))" using o(1) by simp
  then have "i < os_task_count s" using set_rr_order [OF assms(2)] by simp
  with o Some Best show thesis by (simp add: scheduler_pick_next_locked_def)
next
  case None
  with pick_fold [of s old "[1..<os_task_count s + 1]"] have
    "\<forall>i \<in> set (rr_order old (os_task_count s)). \<not> is_ready s i" by (simp add: best_upto_def rr_order_def del: upt_Suc)
  then have nr: "\<forall>i < os_task_count s. \<not> is_ready s i" using set_rr_order [OF assms(2)] by simp
  let ?P = "\<lambda>k. state k \<noteq> TASK_STATE_BLOCKED \<and> state k \<noteq> TASK_STATE_SLEEPING \<and> state k \<noteq> TASK_STATE_TERMINATED"
  let ?f = "find_slot ?P (take (os_task_count s) (os_tasks s))"
  have res: "fst (scheduler_pick_next_locked old s) =
      (if state (task s old) = TASK_STATE_RUNNING then old else case ?f of None \<Rightarrow> old | Some i \<Rightarrow> i)"
    using None nr assms(2) by (auto simp: scheduler_pick_next_locked_def task_def split: option.splits)
  have len: "length (os_tasks s) = MAX_TASKS" "os_task_count s \<le> MAX_TASKS" using assms(1) by (auto simp: table_wf_def)
  have f: "i < os_task_count s \<and> state (task s i) = TASK_STATE_RUNNING" if "?f = Some i" for i
    using find_slot_SomeD [OF that] len nr by (cases "state (task s i)") (auto simp: task_def)
  show thesis
  proof (rule Nobody [OF nr])
    show "state (task s old) \<noteq> TASK_STATE_RUNNING \<longrightarrow> (\<forall>i < os_task_count s. state (task s i) \<noteq> TASK_STATE_RUNNING) \<longrightarrow>
      fst (scheduler_pick_next_locked old s) = old" using res f by (auto split: option.splits)
    show "state (task s old) = TASK_STATE_RUNNING \<longrightarrow> fst (scheduler_pick_next_locked old s) = old" using res by simp
    show "fst (scheduler_pick_next_locked old s) < os_task_count s"
      using res f assms(2) by (auto split: option.splits)
  qed
qed

section \<open>Switching\<close>

lemma pick_next_state:
  "snd (scheduler_pick_next_locked old s) = s \<or> (\<exists>f. snd (scheduler_pick_next_locked old s) = upd_metrics f s)"
  unfolding scheduler_pick_next_locked_def by (auto split: option.splits)

lemma pick_next_fields [simp]:
  "os_tasks (snd (scheduler_pick_next_locked old s)) = os_tasks s"
  "os_current_task (snd (scheduler_pick_next_locked old s)) = os_current_task s"
  "os_task_count (snd (scheduler_pick_next_locked old s)) = os_task_count s"
  "scheduler_ticks (snd (scheduler_pick_next_locked old s)) = scheduler_ticks s"
  "ipc_part (snd (scheduler_pick_next_locked old s)) = ipc_part s"
  "table_wf (snd (scheduler_pick_next_locked old s)) = table_wf s"
  "task (snd (scheduler_pick_next_locked old s)) = task s"
  using pick_next_state [of old s] by auto

lemma task_current [simp]: "task (s\<lparr>os_current_task := c\<rparr>) = task s"
  by (simp add: task_def fun_eq_iff)

definition run_tcb :: "u32 \<Rightarrow> tcb \<Rightarrow> tcb" where
  "run_tcb now k = k\<lparr>state := TASK_STATE_RUNNING, time_slice := time_slice_for_priority (priority k),
     sched_last_run_tick := now, sched_wait_ticks := 0, sched_wake_boost := 0\<rparr>"

definition switched_tcb :: "u32 \<Rightarrow> nat \<Rightarrow> nat \<Rightarrow> nat \<Rightarrow> tcb \<Rightarrow> tcb" where
  "switched_tcb now old new j k =
     (if j = new then
        (if new = old then run_tcb now k
         else (\<lambda>k. k\<lparr>context_switches := context_switches k + 1\<rparr>) (trace_tcb EVT_SWITCH_IN (of_nat old) (run_tcb now k)))
      else if j = old then trace_tcb EVT_SWITCH_OUT (of_nat new) k else k)"

lemma switched_tcb_fields [simp]:
  "state (switched_tcb now old new j k) = (if j = new then TASK_STATE_RUNNING else state k)"
  "wake_tick (switched_tcb now old new j k) = wake_tick k"
  "exited (switched_tcb now old new j k) = exited k"
  "exit_status (switched_tcb now old new j k) = exit_status k"
  "page_dir (switched_tcb now old new j k) = page_dir k"
  "priority (switched_tcb now old new j k) = priority k"
  "time_slice (switched_tcb now old new j k) = (if j = new then time_slice_for_priority (priority k) else time_slice k)"
  by (simp_all add: switched_tcb_def run_tcb_def)

lemma switch_to_spec:
  assumes "table_wf s" "new < os_task_count s" "old < MAX_TASKS"
  shows "table_wf (switch_to old new s)" "os_current_task (switch_to old new s) = new"
    "os_task_count (switch_to old new s) = os_task_count s" "scheduler_ticks (switch_to old new s) = scheduler_ticks s"
    "ipc_part (switch_to old new s) = ipc_part s"
    "task (switch_to old new s) j = switched_tcb (scheduler_ticks s) old new j (task s j)"
proof -
  have new: "new < MAX_TASKS" using assms table_wfD by auto
  define s1 where "s1 = (upd_task new (\<lambda>k. k\<lparr>state := TASK_STATE_RUNNING,
                  time_slice := time_slice_for_priority (priority k),
                  sched_last_run_tick := scheduler_ticks s, sched_wait_ticks := 0, sched_wake_boost := 0\<rparr>) s)
                \<lparr>os_current_task := new\<rparr>"
  have wf1: "table_wf s1" using assms by (simp add: s1_def table_wf_def)
  have t1: "task s1 j = (if new = j then run_tcb (scheduler_ticks s) (task s j) else task s j)" for j
    using assms new by (simp add: s1_def task_upd_wf run_tcb_def)
  define s2 where "s2 = upd_metrics (\<lambda>m. m\<lparr>band_switches :=
                  bump_at (scheduler_prio_band (priority (os_tasks s1 ! new))) (band_switches m)\<rparr>) s1"
  have wf2: "table_wf s2" using wf1 by (simp add: s2_def)
  have t2: "task s2 = task s1" by (simp add: s2_def)
  have sw: "switch_to old new s = (if new \<noteq> old
         then upd_task new (\<lambda>k. k\<lparr>context_switches := context_switches k + 1\<rparr>)
                (task_trace_event (int new) EVT_SWITCH_IN (of_nat old)
                  (task_trace_event (int old) EVT_SWITCH_OUT (of_nat new) s2))
         else s2)" unfolding switch_to_def Let_def s1_def s2_def ..
  have [simp]: "os_current_task s2 = new" "os_task_count s2 = os_task_count s" "scheduler_ticks s2 = scheduler_ticks s"
    "ipc_part s2 = ipc_part s" by (simp_all add: s1_def s2_def)
  show "table_wf (switch_to old new s)" "os_current_task (switch_to old new s) = new"
    "os_task_count (switch_to old new s) = os_task_count s" "scheduler_ticks (switch_to old new s) = scheduler_ticks s"
    "ipc_part (switch_to old new s) = ipc_part s" by (simp_all add: sw wf2)
  show "task (switch_to old new s) j = switched_tcb (scheduler_ticks s) old new j (task s j)"
  proof (cases "new = old")
    case True
    with sw t1 t2 show ?thesis by (simp add: switched_tcb_def)
  next
    case False
    then show ?thesis
      by (cases "j = new"; cases "j = old")
        (simp_all add: sw t1 t2 wf2 new assms(3) task_upd_wf task_trace_wf switched_tcb_def)
  qed
qed

text \<open>The state in which the next task is chosen.\<close>

definition chooser :: "bool \<Rightarrow> sched \<Rightarrow> sched" where
  "chooser force s = scheduler_wake_sleepers_locked
     (if force \<and> state (os_tasks s ! os_current_task s) = TASK_STATE_RUNNING
      then upd_task (os_current_task s) (\<lambda>k. k\<lparr>state := TASK_STATE_READY, sched_wait_ticks := 0\<rparr>) s else s)"

definition requeued :: "bool \<Rightarrow> tcb \<Rightarrow> tcb" where
  "requeued force k = (if force \<and> state k = TASK_STATE_RUNNING
     then k\<lparr>state := TASK_STATE_READY, sched_wait_ticks := 0\<rparr> else k)"

lemma chooser_spec:
  assumes "table_wf s"
  shows "same_frame s (chooser force s)"
    "task (chooser force s) j = (if j < os_task_count s
       then woken_tcb (scheduler_ticks s) (if j = os_current_task s then requeued force (task s j) else task s j)
       else task s j)"
proof -
  let ?c = "os_current_task s"
  let ?s1 = "if force \<and> state (os_tasks s ! ?c) = TASK_STATE_RUNNING
      then upd_task ?c (\<lambda>k. k\<lparr>state := TASK_STATE_READY, sched_wait_ticks := 0\<rparr>) s else s"
  have wf1: "table_wf ?s1" using assms by simp
  have f1: "same_frame s ?s1" using assms by (simp add: same_frame_def)
  have t1: "task ?s1 j = (if j = ?c then requeued force (task s j) else task s j)"
    using assms by (auto simp: task_upd_wf requeued_def task_def [symmetric])
  show "same_frame s (chooser force s)"
    unfolding chooser_def using wake_sleepers_spec(1) [OF wf1] f1 by (simp add: same_frame_def)
  show "task (chooser force s) j = (if j < os_task_count s
       then woken_tcb (scheduler_ticks s) (if j = ?c then requeued force (task s j) else task s j) else task s j)"
    unfolding chooser_def using wake_sleepers_spec(2) [OF wf1, of j] f1 t1 table_wf_current [OF assms]
    by (auto simp: same_frame_def)
qed

definition chosen :: "bool \<Rightarrow> sched \<Rightarrow> nat" where
  "chosen force s = fst (scheduler_pick_next_locked (os_current_task s) (chooser force s))"

lemma select_unfold:
  "scheduler_select_and_switch force s =
     switch_to (os_current_task s) (chosen force s)
       (snd (scheduler_pick_next_locked (os_current_task s) (chooser force s)))"
  by (simp add: scheduler_select_and_switch_def chooser_def chosen_def split_beta Let_def)

lemma chosen_less:
  assumes "table_wf s"
  shows "chosen force s < os_task_count s"
proof -
  have f: "table_wf (chooser force s)" "os_task_count (chooser force s) = os_task_count s"
    using chooser_spec(1) [OF assms] by (auto simp: same_frame_def)
  have "os_current_task s < os_task_count (chooser force s)" using f(2) assms by simp
  from pick_next_cases [OF f(1) this] f(2) show ?thesis unfolding chosen_def by metis
qed

lemma select_spec:
  assumes "table_wf s"
  shows "table_wf (scheduler_select_and_switch force s)"
    "os_current_task (scheduler_select_and_switch force s) = chosen force s"
    "os_task_count (scheduler_select_and_switch force s) = os_task_count s"
    "scheduler_ticks (scheduler_select_and_switch force s) = scheduler_ticks s"
    "ipc_part (scheduler_select_and_switch force s) = ipc_part s"
    "task (scheduler_select_and_switch force s) j =
       switched_tcb (scheduler_ticks s) (os_current_task s) (chosen force s) j (task (chooser force s) j)"
proof -
  let ?s = "snd (scheduler_pick_next_locked (os_current_task s) (chooser force s))"
  have fr: "table_wf (chooser force s)" "os_task_count (chooser force s) = os_task_count s"
    "scheduler_ticks (chooser force s) = scheduler_ticks s" "ipc_part (chooser force s) = ipc_part s"
    using chooser_spec(1) [OF assms] by (simp_all add: same_frame_def)
  then have wf: "table_wf ?s" "chosen force s < os_task_count ?s" "os_current_task s < MAX_TASKS"
    using assms chosen_less [OF assms, of force] by simp_all
  note sp = switch_to_spec [OF wf]
  show "table_wf (scheduler_select_and_switch force s)"
    "os_current_task (scheduler_select_and_switch force s) = chosen force s"
    "os_task_count (scheduler_select_and_switch force s) = os_task_count s"
    "scheduler_ticks (scheduler_select_and_switch force s) = scheduler_ticks s"
    "ipc_part (scheduler_select_and_switch force s) = ipc_part s"
    "task (scheduler_select_and_switch force s) j =
       switched_tcb (scheduler_ticks s) (os_current_task s) (chosen force s) j (task (chooser force s) j)"
    unfolding select_unfold by (simp_all add: sp fr)
qed

section \<open>One running task\<close>

text \<open>
  No task but the current one is RUNNING, except those of the set \<open>X\<close>: tasks that gave the processor away without being blocked, because the wait queue was full.
\<close>

definition only_current_runs :: "nat set \<Rightarrow> ('a) task_table_scheme \<Rightarrow> bool" where
  "only_current_runs X s \<longleftrightarrow>
     (\<forall>i < os_task_count s. i \<notin> X \<longrightarrow> state (task s i) = TASK_STATE_RUNNING \<longrightarrow> i = os_current_task s)"

definition one_running :: "nat set \<Rightarrow> ('a) task_table_scheme \<Rightarrow> bool" where
  "one_running X s \<longleftrightarrow> only_current_runs X s \<and> state (task s (os_current_task s)) = TASK_STATE_RUNNING"

lemma one_running_only: "one_running X s \<Longrightarrow> only_current_runs X s"
  by (simp add: one_running_def)

text \<open>Selection establishes it when the old task has given up the processor or is put back to READY; otherwise the old task may stay RUNNING.\<close>

lemma select_one_running:
  assumes "table_wf s" "only_current_runs X s" "force \<or> state (task s (os_current_task s)) \<noteq> TASK_STATE_RUNNING \<or> os_current_task s \<in> X"
  shows "one_running X (scheduler_select_and_switch force s)"
proof -
  let ?t = "scheduler_select_and_switch force s"
  have "i = os_current_task ?t" if j: "i < os_task_count ?t" "i \<notin> X" "state (task ?t i) = TASK_STATE_RUNNING" for i
  proof -
    have i: "i < os_task_count s" using j(1) select_spec(3) [OF assms(1)] by simp
    have "state (if i = os_current_task s then requeued force (task s i) else task s i) \<noteq> TASK_STATE_RUNNING"
    proof (cases "i = os_current_task s")
      case True
      with assms(3) j(2) show ?thesis by (auto simp: requeued_def)
    next
      case False
      with assms(2) i j(2) have "state (task s i) \<noteq> TASK_STATE_RUNNING" unfolding only_current_runs_def by blast
      with False show ?thesis by simp
    qed
    with i have "state (task (chooser force s) i) \<noteq> TASK_STATE_RUNNING"
      by (simp only: chooser_spec(2) [OF assms(1), of force i] if_True woken_running not_False_eq_True simp_thms)
    then show ?thesis using j(3) by (simp add: select_spec(2,6) [OF assms(1)] split: if_splits)
  qed
  moreover have "state (task ?t (os_current_task ?t)) = TASK_STATE_RUNNING" by (simp add: select_spec(2,6) [OF assms(1)])
  ultimately show ?thesis by (auto simp: one_running_def only_current_runs_def)
qed

section \<open>The invariant of the scheduler\<close>

definition ipc_wf :: "ipc_channel list \<times> wait_queue list \<times> wait_queue list \<times> bool \<Rightarrow> bool" where
  "ipc_wf = (\<lambda>(chs, sw, rw, init). length chs = IPC_CHANNELS \<and> length sw = IPC_CHANNELS \<and> length rw = IPC_CHANNELS \<and>
     list_all (ring_wf IPC_QUEUE_CAPACITY) chs \<and> list_all (ring_wf MAX_TASKS) sw \<and> list_all (ring_wf MAX_TASKS) rw \<and>
     (\<not> init \<longrightarrow> (\<forall>ch \<in> set chs. r_count ch = 0)))"

text \<open>Slots 3 to 7 are never used: zero-initialised they are READY, and \<open>task_alloc_slot\<close> looks for
  TERMINATED. Slots 1 and 2 are TERMINATED until the task count covers them.\<close>

definition slots_inv :: "('a) task_table_scheme \<Rightarrow> bool" where
  "slots_inv s \<longleftrightarrow> os_task_count s \<le> 3 \<and> (\<forall>i. 3 \<le> i \<and> i < MAX_TASKS \<longrightarrow> is_ready s i) \<and>
     (\<forall>i. os_task_count s \<le> i \<and> i < 3 \<longrightarrow> state (task s i) = TASK_STATE_TERMINATED)"

definition base_inv :: "nat set \<Rightarrow> sched \<Rightarrow> bool" where
  "base_inv X s \<longleftrightarrow> table_wf s \<and> only_current_runs X s \<and> slots_inv s \<and> ipc_wf (ipc_part s)"

definition sched_inv :: "nat set \<Rightarrow> sched \<Rightarrow> bool" where
  "sched_inv X s \<longleftrightarrow> base_inv X s \<and> state (task s (os_current_task s)) = TASK_STATE_RUNNING"

lemma base_inv_wf: "base_inv X s \<Longrightarrow> table_wf s"
  by (simp add: base_inv_def)

lemma sched_inv_base: "sched_inv X s \<Longrightarrow> base_inv X s"
  by (simp add: sched_inv_def)

text \<open>An update that keeps the frame and makes no task RUNNING keeps the base invariant.\<close>

lemma base_inv_frame:
  assumes "base_inv X s" "table_wf t" "os_current_task t = os_current_task s" "os_task_count t = os_task_count s"
    "ipc_wf (ipc_part t)"
    "\<And>j. j < os_task_count s \<Longrightarrow> state (task t j) = TASK_STATE_RUNNING \<Longrightarrow> state (task s j) = TASK_STATE_RUNNING"
    "\<And>j. os_task_count s \<le> j \<Longrightarrow> state (task t j) = state (task s j)"
  shows "base_inv X t"
proof -
  have "only_current_runs X t"
    using assms(1,3,4,6) unfolding only_current_runs_def base_inv_def by metis
  moreover have "slots_inv t"
    using assms(1,4) assms(7) unfolding slots_inv_def base_inv_def by (metis le_trans)
  ultimately show ?thesis using assms(2,5) by (simp add: base_inv_def)
qed

lemma base_inv_upd:
  assumes "base_inv X s" "i < os_task_count s" "state (f (task s i)) = TASK_STATE_RUNNING \<Longrightarrow> state (task s i) = TASK_STATE_RUNNING"
  shows "base_inv X (upd_task i f s)"
proof (rule base_inv_frame [OF assms(1)])
  have i: "i < MAX_TASKS" using assms(1,2) table_wfD base_inv_wf by blast
  fix j
  show "state (task (upd_task i f s) j) = TASK_STATE_RUNNING \<Longrightarrow> state (task s j) = TASK_STATE_RUNNING"
    using assms i by (auto simp: task_upd_wf base_inv_wf split: if_splits)
  show "os_task_count s \<le> j \<Longrightarrow> state (task (upd_task i f s) j) = state (task s j)"
    using assms i by (simp add: task_upd_wf base_inv_wf)
qed (use assms in \<open>simp_all add: base_inv_def\<close>)

lemma base_inv_metrics [simp]: "base_inv X (upd_metrics f s) = base_inv X s"
  by (simp add: base_inv_def only_current_runs_def slots_inv_def)

lemma base_inv_trace: "base_inv X s \<Longrightarrow> i < os_task_count s \<Longrightarrow> base_inv X (task_trace_event (int i) e a s)"
  using table_wfD [OF base_inv_wf] by (auto simp: task_trace_event_upd intro!: base_inv_upd)

lemma base_inv_wake: "base_inv X s \<Longrightarrow> base_inv X (scheduler_wake_sleepers_locked s)"
  by (rule base_inv_frame [of X s])
    (use wake_sleepers_spec in \<open>auto simp: base_inv_def same_frame_def split: if_splits\<close>)

lemma sched_inv_iff: "sched_inv X s \<longleftrightarrow> table_wf s \<and> one_running X s \<and> slots_inv s \<and> ipc_wf (ipc_part s)"
  by (auto simp: sched_inv_def base_inv_def one_running_def)

lemma sched_inv_mono: "sched_inv X s \<Longrightarrow> X \<subseteq> Y \<Longrightarrow> sched_inv Y s"
  by (auto simp: sched_inv_def base_inv_def only_current_runs_def)

lemma select_slots:
  assumes "table_wf s" "os_task_count s \<le> j"
  shows "task (scheduler_select_and_switch force s) j = task s j"
proof -
  have "j \<noteq> chosen force s" "j \<noteq> os_current_task s"
    using chosen_less [OF assms(1), of force] table_wf_current [OF assms(1)] assms(2) by auto
  moreover have "task (chooser force s) j = task s j"
    unfolding chooser_spec(2) [OF assms(1)] using assms(2) by simp
  ultimately show ?thesis by (simp add: select_spec(6) [OF assms(1)] switched_tcb_def)
qed

lemma select_inv:
  assumes "base_inv X s" "force \<or> state (task s (os_current_task s)) \<noteq> TASK_STATE_RUNNING \<or> os_current_task s \<in> X"
  shows "sched_inv X (scheduler_select_and_switch force s)"
proof -
  note wf = base_inv_wf [OF assms(1)]
  have "slots_inv (scheduler_select_and_switch force s)"
    using assms(1) select_slots [OF wf] unfolding slots_inv_def base_inv_def select_spec(3) [OF wf]
    by (metis le_trans)
  moreover have "one_running X (scheduler_select_and_switch force s)"
    using assms by (intro select_one_running) (auto simp: base_inv_def)
  ultimately show ?thesis
    using assms(1) by (simp add: sched_inv_iff select_spec [OF wf] base_inv_def)
qed

section \<open>Every operation keeps the invariant\<close>

lemma schedule_inv [inv_rules]: "sched_inv X s \<Longrightarrow> sched_inv X (schedule s)"
  by (simp add: schedule_def select_inv sched_inv_base)

text \<open>The current task gives up the processor: it is put in a state other than RUNNING.\<close>

lemma leave_inv:
  assumes "sched_inv X s" "\<And>k. state (f k) \<noteq> TASK_STATE_RUNNING"
  shows "sched_inv X (scheduler_select_and_switch False (upd_task (os_current_task s) f s))"
proof (rule select_inv)
  note wf = base_inv_wf [OF sched_inv_base [OF assms(1)]]
  show "base_inv X (upd_task (os_current_task s) f s)"
    using assms wf by (intro base_inv_upd) (auto simp: sched_inv_def)
  show "False \<or> state (task (upd_task (os_current_task s) f s) (os_current_task (upd_task (os_current_task s) f s)))
      \<noteq> TASK_STATE_RUNNING \<or> os_current_task (upd_task (os_current_task s) f s) \<in> X"
    using wf assms(2) by (simp add: task_upd_wf)
qed

lemma upd_task_twice: "upd_task i f (upd_task i g s) = upd_task i (\<lambda>k. f (g k)) s"
  by (cases "i < length (os_tasks s)") (simp_all add: upd_task_def list_update_beyond)

lemma task_sleep_inv [inv_rules]: "sched_inv X s \<Longrightarrow> sched_inv X (task_sleep n s)"
  using base_inv_wf [OF sched_inv_base [of X s]]
  by (simp add: task_sleep_def task_yield_def schedule_inv Let_def task_trace_event_upd upd_task_twice leave_inv)

lemma task_sleep_timeout_inv [inv_rules]: "sched_inv X s \<Longrightarrow> sched_inv X (task_sleep_timeout_enter n m s)"
  using base_inv_wf [OF sched_inv_base [of X s]]
  by (simp add: task_sleep_timeout_enter_def Let_def task_trace_event_upd upd_task_twice leave_inv)

text \<open>A wait blocks the caller, unless the queue is full.\<close>

lemma wait_queue_wait_inv [inv_rules]:
  "sched_inv X s \<Longrightarrow> r_count q < MAX_TASKS \<or> os_current_task s \<in> X \<Longrightarrow> sched_inv X (snd (wait_queue_wait_q q s))"
  by (cases "r_count q < MAX_TASKS") (simp_all add: wait_queue_wait_q_def Let_def leave_inv select_inv sched_inv_base)

lemma wait_queue_wait_timeout_inv [inv_rules]:
  "sched_inv X s \<Longrightarrow> r_count q < MAX_TASKS \<or> os_current_task s \<in> X \<Longrightarrow> sched_inv X (snd (wait_queue_wait_timeout_enter q n s))"
  by (cases "r_count q < MAX_TASKS") (simp_all add: wait_queue_wait_timeout_enter_def Let_def leave_inv select_inv sched_inv_base)

lemma wake_parent_frame [simp]:
  "os_current_task (wake_parent p c s) = os_current_task s" "os_task_count (wake_parent p c s) = os_task_count s"
  "table_wf (wake_parent p c s) = table_wf s" "ipc_part (wake_parent p c s) = ipc_part s"
  "scheduler_ticks (wake_parent p c s) = scheduler_ticks s"
  by (simp_all add: wake_parent_def Let_def)

lemma base_inv_wake_parent:
  assumes "base_inv X s" shows "base_inv X (wake_parent p c s)"
  using assms by (auto simp: wake_parent_def Let_def intro!: base_inv_upd)

lemma wake_parent_task:
  assumes "table_wf s"
  shows "task (wake_parent p c s) j =
    (if int j = p \<and> j < os_task_count s \<and> state (task s j) = TASK_STATE_BLOCKED \<and>
        wait_reason (task s j) = TASK_WAIT_CHILD \<and> (wait_target (task s j) < 0 \<or> wait_target (task s j) = int c)
     then (task s j)\<lparr>state := TASK_STATE_READY, wake_tick := 0, wait_reason := TASK_WAIT_NONE, wait_target := -1\<rparr>
     else task s j)"
proof (cases "p \<ge> 0 \<and> p < int (os_task_count s)")
  case True
  then obtain i where i: "p = int i" "i < os_task_count s" by (metis nonneg_int_cases of_nat_less_iff)
  then have "i < MAX_TASKS" using assms table_wfD by blast
  with i assms show ?thesis by (auto simp: wake_parent_def Let_def task_upd_wf task_def [symmetric])
next
  case False
  then show ?thesis by (auto simp: wake_parent_def)
qed

text \<open>The state just before the processor is given away in \<open>task_exit_with_code\<close>.\<close>

definition exit_marked :: "int \<Rightarrow> sched \<Rightarrow> sched" where
  "exit_marked code s = upd_task (os_current_task s) (mark_terminated code)
     (if fault_code (task s (os_current_task s)) \<noteq> 0 \<or> fault_addr (task s (os_current_task s)) \<noteq> 0 \<or>
         fault_eip (task s (os_current_task s)) \<noteq> 0
      then s else task_trace_event (int (os_current_task s)) EVT_TERMINATE 0 s)"

definition exit_state :: "u32 \<Rightarrow> int \<Rightarrow> sched \<Rightarrow> sched" where
  "exit_state kernel_pd code s =
     (let c = os_current_task s; k = task s c; t = wake_parent (parent_pid k) c (exit_marked code s) in
      if page_dir k \<noteq> 0 \<and> page_dir k \<noteq> kernel_pd then upd_task c (\<lambda>k. k\<lparr>page_dir := 0\<rparr>) t else t)"

lemma exit_unfold:
  "snd (task_exit_with_code cl de kpd code (w, s)) = scheduler_select_and_switch False (exit_state kpd code s)"
  "fst (task_exit_with_code cl de kpd code (w, s)) =
     (let c = os_current_task s; pd = page_dir (task s c) in
      if pd \<noteq> 0 \<and> pd \<noteq> kpd then de pd (cl c w) else cl c w)"
  by (auto simp: task_exit_with_code_def exit_state_def exit_marked_def release_task_def Let_def task_def)

lemma exit_marked_spec:
  assumes "table_wf s"
  shows "same_frame s (exit_marked code s)"
    "task (exit_marked code s) j = (if j = os_current_task s
       then mark_terminated code (if fault_code (task s j) \<noteq> 0 \<or> fault_addr (task s j) \<noteq> 0 \<or> fault_eip (task s j) \<noteq> 0
          then task s j else trace_tcb EVT_TERMINATE 0 (task s j))
       else task s j)"
proof -
  have c: "os_current_task s < MAX_TASKS" using assms by simp
  show "same_frame s (exit_marked code s)" using assms by (simp add: exit_marked_def same_frame_def)
  show "task (exit_marked code s) j = (if j = os_current_task s
       then mark_terminated code (if fault_code (task s j) \<noteq> 0 \<or> fault_addr (task s j) \<noteq> 0 \<or> fault_eip (task s j) \<noteq> 0
          then task s j else trace_tcb EVT_TERMINATE 0 (task s j))
       else task s j)"
    using assms c by (auto simp: exit_marked_def task_upd_wf task_trace_wf)
qed

lemma mark_terminated_state [simp]:
  "state (mark_terminated code k) = TASK_STATE_TERMINATED" "exited (mark_terminated code k)"
  "exit_status (mark_terminated code k) = code" "wake_tick (mark_terminated code k) = 0"
  by (simp_all add: mark_terminated_def)

lemma exit_state_spec:
  assumes "table_wf s"
  shows "same_frame s (exit_state kpd code s)"
    "j = os_current_task s \<Longrightarrow> state (task (exit_state kpd code s) j) = TASK_STATE_TERMINATED \<and>
       exited (task (exit_state kpd code s) j) \<and> exit_status (task (exit_state kpd code s) j) = code \<and>
       wake_tick (task (exit_state kpd code s) j) = 0"
    "j \<noteq> os_current_task s \<Longrightarrow> task (exit_state kpd code s) j =
       task (wake_parent (parent_pid (task s (os_current_task s))) (os_current_task s) (exit_marked code s)) j"
proof -
  let ?c = "os_current_task s"
  let ?t = "wake_parent (parent_pid (task s ?c)) ?c (exit_marked code s)"
  have f: "same_frame s ?t" using exit_marked_spec(1) [OF assms] by (simp add: same_frame_def)
  then have wf: "table_wf ?t" by (simp add: same_frame_def)
  have wfm: "table_wf (exit_marked code s)" using exit_marked_spec(1) [OF assms] by (simp add: same_frame_def)
  have c: "?c < MAX_TASKS" using assms by simp
  show "same_frame s (exit_state kpd code s)" using f by (simp add: exit_state_def Let_def same_frame_def)
  show "j = ?c \<Longrightarrow> state (task (exit_state kpd code s) j) = TASK_STATE_TERMINATED \<and>
       exited (task (exit_state kpd code s) j) \<and> exit_status (task (exit_state kpd code s) j) = code \<and>
       wake_tick (task (exit_state kpd code s) j) = 0"
    using wf c by (simp add: exit_state_def Let_def task_upd_wf wake_parent_task [OF wfm] exit_marked_spec(2) [OF assms])
  show "j \<noteq> ?c \<Longrightarrow> task (exit_state kpd code s) j = task ?t j"
    using wf c by (simp add: exit_state_def Let_def task_upd_wf)
qed

lemma exit_inv [inv_rules]:
  assumes "sched_inv X s"
  shows "sched_inv X (snd (task_exit_with_code cl de kpd code (w, s)))"
  unfolding exit_unfold
proof (rule select_inv)
  note b = sched_inv_base [OF assms] and wf = base_inv_wf [OF sched_inv_base [OF assms]]
  have t: "base_inv X (task_trace_event (int (os_current_task s)) EVT_TERMINATE 0 s)"
    using b wf by (simp add: base_inv_trace)
  have "base_inv X (exit_marked code s)" unfolding exit_marked_def
    using b t wf by (auto intro!: base_inv_upd)
  then show "base_inv X (exit_state kpd code s)" unfolding exit_state_def Let_def
    using wf exit_marked_spec(1) [OF wf] by (auto intro!: base_inv_upd base_inv_wake_parent simp: same_frame_def)
  show "False \<or> state (task (exit_state kpd code s) (os_current_task (exit_state kpd code s))) \<noteq> TASK_STATE_RUNNING \<or>
      os_current_task (exit_state kpd code s) \<in> X"
    using exit_state_spec [OF wf] by (simp add: same_frame_def)
qed

lemma sched_inv_other:
  assumes "sched_inv X s" "base_inv X t" "os_current_task t = os_current_task s"
    "state (task t (os_current_task s)) = state (task s (os_current_task s))"
  shows "sched_inv X t"
  using assms by (simp add: sched_inv_def)

lemma task_kill_inv [inv_rules]:
  assumes "sched_inv X s"
  shows "sched_inv X (snd (snd (task_kill cl de kpd tid code (w, s))))"
proof -
  note b = sched_inv_base [OF assms] and wf = base_inv_wf [OF sched_inv_base [OF assms]]
  consider (bad) "tid < 0 \<or> tid \<ge> int (os_task_count s)" | (self) "tid = int (os_current_task s)"
    | (other) i where "tid = int i" "i < os_task_count s" "i \<noteq> os_current_task s"
    by (metis linorder_not_le nonneg_int_cases of_nat_less_iff)
  then show ?thesis
  proof cases
    case bad
    with assms show ?thesis by (auto simp: task_kill_def)
  next
    case self
    with assms wf show ?thesis by (simp add: task_kill_def exit_inv)
  next
    case other
    have i: "i < MAX_TASKS" using other(2) wf table_wfD by blast
    let ?s1 = "upd_task i (mark_terminated code) s"
    let ?s2 = "wake_parent (parent_pid (os_tasks s ! i)) i ?s1"
    have b1: "base_inv X ?s1" using b other(2) by (intro base_inv_upd) auto
    then have b2: "base_inv X ?s2" by (rule base_inv_wake_parent)
    have st: "state (task ?s2 (os_current_task s)) = state (task s (os_current_task s))"
      using other(3) i wf assms by (simp add: wake_parent_task task_upd_wf sched_inv_def)
    have inv2: "sched_inv X ?s2" by (rule sched_inv_other [OF assms b2]) (use st in simp_all)
    have inv3: "sched_inv X (upd_task i (\<lambda>k. k\<lparr>page_dir := 0\<rparr>) ?s2)"
    proof (rule sched_inv_other [OF assms])
      show "base_inv X (upd_task i (\<lambda>k. k\<lparr>page_dir := 0\<rparr>) ?s2)"
        using b2 other(2) by (intro base_inv_upd) auto
      show "state (task (upd_task i (\<lambda>k. k\<lparr>page_dir := 0\<rparr>) ?s2) (os_current_task s)) = state (task s (os_current_task s))"
        using st other(3) i base_inv_wf [OF b2] by (simp add: task_upd_wf)
    qed simp
    show ?thesis using other assms inv2 inv3
      by (auto simp: task_kill_def Let_def release_task_def)
  qed
qed

text \<open>The timer interrupt: accounting only, no task but the due ones changes its state.\<close>

definition waited_tcb :: "nat \<Rightarrow> nat \<Rightarrow> tcb \<Rightarrow> tcb" where
  "waited_tcb c j k = (if j \<noteq> c \<and> state k = TASK_STATE_READY \<and> sched_wait_ticks k < 0xFFFFFFFF
     then k\<lparr>sched_wait_ticks := sched_wait_ticks k + 1\<rparr> else k)"

lemma waited_tcb_state [simp]: "state (waited_tcb c j k) = state k" "priority (waited_tcb c j k) = priority k"
  "wake_tick (waited_tcb c j k) = wake_tick k"
  by (simp_all add: waited_tcb_def)

lemma tick_wait_spec:
  assumes "table_wf s" "i < MAX_TASKS"
  shows "same_frame s (tick_wait c i s)"
    "task (tick_wait c i s) j = (if i = j then waited_tcb c j (task s j) else task s j)"
  using assms
  by (auto simp: tick_wait_def Let_def same_frame_def waited_tcb_def task_upd_wf task_def [symmetric])

lemma same_frame_trans: "same_frame s t \<Longrightarrow> same_frame t u \<Longrightarrow> same_frame s u"
  by (simp add: same_frame_def)

lemma tick_loop_spec:
  assumes "table_wf s" "n \<le> os_task_count s"
  shows "same_frame s (fold (tick_wait c) [0..<n] s) \<and>
    task (fold (tick_wait c) [0..<n] s) j = (if j < n then waited_tcb c j (task s j) else task s j)"
proof (rule fold_tasks)
  fix i j t assume t: "same_frame s t" "i < n"
  then have wf: "table_wf t" "i < MAX_TASKS" using assms by (auto simp: same_frame_def table_wf_def)
  show "same_frame s (tick_wait c i t)" using t(1) tick_wait_spec(1) [OF wf] same_frame_trans by blast
  show "task (tick_wait c i t) j = (if i = j then waited_tcb c j (task t j) else task t j)"
    by (rule tick_wait_spec(2) [OF wf])
qed (use assms same_frame_refl in auto)

text \<open>The last part of the interrupt: the time slice of the current task.\<close>

lemma tick_charge_spec:
  assumes "table_wf s" "c < MAX_TASKS"
  shows "same_frame s (tick_charge c s)" "state (task (tick_charge c s) j) = state (task s j)"
    "sched_wait_ticks (task (tick_charge c s) j) = sched_wait_ticks (task s j)"
  using assms by (simp_all add: tick_charge_def Let_def same_frame_def task_upd_wf)

definition ticked :: "sched \<Rightarrow> sched" where
  "ticked s = upd_metrics (\<lambda>m. m\<lparr>m_ticks := scheduler_ticks s + 1\<rparr>) (s\<lparr>scheduler_ticks := scheduler_ticks s + 1\<rparr>)"

lemma ticked_fields [simp]:
  "os_current_task (ticked s) = os_current_task s" "os_task_count (ticked s) = os_task_count s"
  "scheduler_ticks (ticked s) = scheduler_ticks s + 1" "task (ticked s) = task s" "ipc_part (ticked s) = ipc_part s"
  "table_wf (ticked s) = table_wf s"
  by (simp_all add: ticked_def table_wf_def task_def fun_eq_iff)

lemma timer_tick_spec:
  assumes "table_wf s"
  shows "same_frame (ticked s) (scheduler_timer_tick s)"
    "state (task (scheduler_timer_tick s) j) =
       (if j < os_task_count s then state (woken_tcb (scheduler_ticks s + 1) (task s j)) else state (task s j))"
    "sched_wait_ticks (task (scheduler_timer_tick s) j) =
       (if j < os_task_count s then sched_wait_ticks (waited_tcb (os_current_task s) j
          (woken_tcb (scheduler_ticks s + 1) (task s j))) else sched_wait_ticks (task s j))"
proof -
  define s3 where "s3 = scheduler_wake_sleepers_locked (ticked s)"
  define s4 where "s4 = fold (tick_wait (os_current_task s3)) [0..<os_task_count s3] s3"
  have wf1: "table_wf (ticked s)" using assms by simp
  have f3: "same_frame (ticked s) s3" and t3: "\<And>j. task s3 j =
      (if j < os_task_count s then woken_tcb (scheduler_ticks s + 1) (task s j) else task s j)"
    using wake_sleepers_spec [OF wf1] by (simp_all add: s3_def)
  have wf3: "table_wf s3" and c3: "os_current_task s3 = os_current_task s" "os_task_count s3 = os_task_count s"
    using f3 by (simp_all add: same_frame_def)
  have l: "same_frame s3 s4 \<and> task s4 j = (if j < os_task_count s then waited_tcb (os_current_task s) j (task s3 j) else task s3 j)"
    for j unfolding s4_def c3 by (rule tick_loop_spec [OF wf3]) (simp add: c3)
  then have f4: "same_frame (ticked s) s4" and wf4: "table_wf s4" using f3 same_frame_trans by (auto simp: same_frame_def)
  have c: "os_current_task s < MAX_TASKS" using assms by simp
  have tick: "scheduler_timer_tick s = (if state (os_tasks s4 ! os_current_task s) = TASK_STATE_RUNNING
      then tick_charge (os_current_task s) s4 else s4)"
    by (simp add: scheduler_timer_tick_def Let_def ticked_def [symmetric] s3_def [symmetric] s4_def [symmetric])
      (simp add: s4_def c3)
  note ch = tick_charge_spec [OF wf4 c]
  show "same_frame (ticked s) (scheduler_timer_tick s)" using tick ch(1) f4 same_frame_trans by simp
  show "state (task (scheduler_timer_tick s) j) =
       (if j < os_task_count s then state (woken_tcb (scheduler_ticks s + 1) (task s j)) else state (task s j))"
    using l [of j] by (simp add: tick ch t3)
  show "sched_wait_ticks (task (scheduler_timer_tick s) j) =
       (if j < os_task_count s then sched_wait_ticks (waited_tcb (os_current_task s) j
          (woken_tcb (scheduler_ticks s + 1) (task s j))) else sched_wait_ticks (task s j))"
    using l [of j] by (simp add: tick ch t3)
qed

end
