(* ===== verification/SchedulerSteps.thy ===== *)
theory SchedulerSteps
  imports SchedulerProps
begin

text \<open>
  Wait queues and IPC channels on the scheduler state, the step relation of all scheduler operations with
  its invariant, and the properties of the scheduler.
\<close>

section \<open>Wait queues\<close>

lemma wake_task_spec:
  assumes "table_wf s" "i < MAX_TASKS"
  shows "same_frame s (wake_task i s)"
    "task (wake_task i s) j = (if i = j
       then (task s j)\<lparr>state := TASK_STATE_READY, wake_tick := 0, sched_wake_boost := SCHED_WAKE_BOOST_MAX\<rparr> else task s j)"
  using assms by (simp_all add: wake_task_def same_frame_def task_upd_wf)

lemma wakeable_iff: "wakeable t s \<longleftrightarrow> (\<exists>i. t = int i \<and> i < os_task_count s \<and> state (task s i) = TASK_STATE_BLOCKED)"
  by (auto simp: wakeable_def task_def) (metis nat_0_le nat_less_iff)

text \<open>The first entry of the queue whose task is still blocked is woken; the entries before it are dropped.\<close>

definition woken_first :: "wait_queue \<Rightarrow> sched \<Rightarrow> bool \<times> wait_queue \<times> sched \<Rightarrow> bool" where
  "woken_first q s r = (case find_slot (\<lambda>t. wakeable t s) (ring_items MAX_TASKS q) of
     None \<Rightarrow> fst r = False \<and> ring_items MAX_TASKS (fst (snd r)) = [] \<and> snd (snd r) = s
   | Some k \<Rightarrow> fst r = True \<and> ring_items MAX_TASKS (fst (snd r)) = drop (Suc k) (ring_items MAX_TASKS q) \<and>
       snd (snd r) = wake_task (nat (ring_items MAX_TASKS q ! k)) s)"

lemma wake_one_spec:
  "ring_wf MAX_TASKS q \<Longrightarrow>
   woken_first q s (wait_queue_wake_one_q q s) \<and> ring_wf MAX_TASKS (fst (snd (wait_queue_wake_one_q q s)))"
proof (induction q s rule: wait_queue_wake_one_q.induct)
  case (1 q s)
  show ?case
  proof (cases "r_count q > 0")
    case False
    then show ?thesis
      using 1 by (subst (1 2) wait_queue_wake_one_q.simps) (simp add: woken_first_def ring_items_empty [THEN iffD2])
  next
    case True
    obtain t q' where p: "ring_pop_clear MAX_TASKS (-1) q = (t, q')" by fastforce
    have it: "ring_items MAX_TASKS q = t # ring_items MAX_TASKS q'" and wf: "ring_wf MAX_TASKS q'"
      using ring_pop_clear_items [OF 1(2) True, of "-1"] ring_pop_clear_wf [OF 1(2) True, of "-1"] by (simp_all add: p)
    show ?thesis
    proof (cases "wakeable t s")
      case True
      then have "wait_queue_wake_one_q q s = (True, q', wake_task (nat t) s)"
        using \<open>r_count q > 0\<close> p by (subst wait_queue_wake_one_q.simps) simp
      with True it wf show ?thesis by (simp add: woken_first_def)
    next
      case False
      then have "wait_queue_wake_one_q q s = wait_queue_wake_one_q q' s"
        using \<open>r_count q > 0\<close> p by (subst wait_queue_wake_one_q.simps) simp
      moreover have "woken_first q' s (wait_queue_wake_one_q q' s) \<and> ring_wf MAX_TASKS (fst (snd (wait_queue_wake_one_q q' s)))"
        by (rule 1(1) [OF True p [symmetric] refl False wf])
      ultimately show ?thesis using False it by (auto simp: woken_first_def split: option.splits)
    qed
  qed
qed

lemma wake_one_cases:
  assumes "ring_wf MAX_TASKS q" "table_wf s"
  obtains (None) q' where "\<forall>t \<in> set (ring_items MAX_TASKS q). \<not> wakeable t s"
      "wait_queue_wake_one_q q s = (False, q', s)" "ring_wf MAX_TASKS q'" "ring_items MAX_TASKS q' = []"
  | (Woken) ys i zs q' where "ring_items MAX_TASKS q = ys @ int i # zs" "\<forall>t \<in> set ys. \<not> wakeable t s"
      "i < os_task_count s" "i < MAX_TASKS" "state (task s i) = TASK_STATE_BLOCKED"
      "wait_queue_wake_one_q q s = (True, q', wake_task i s)" "ring_wf MAX_TASKS q'" "ring_items MAX_TASKS q' = zs"
proof (cases "find_slot (\<lambda>t. wakeable t s) (ring_items MAX_TASKS q)")
  case None
  with wake_one_spec [OF assms(1), of s] show thesis
    by (intro that(1) [of "fst (snd (wait_queue_wake_one_q q s))"])
      (auto simp: find_slot_None woken_first_def prod_eq_iff)
next
  case (Some k)
  let ?xs = "ring_items MAX_TASKS q"
  have k: "k < length ?xs" "wakeable (?xs ! k) s" "\<forall>j < k. \<not> wakeable (?xs ! j) s"
    using find_slot_SomeD [OF Some] by auto
  obtain i where i: "?xs ! k = int i" "i < os_task_count s" "state (task s i) = TASK_STATE_BLOCKED"
    using k(2) wakeable_iff by blast
  have "?xs = take k ?xs @ int i # drop (Suc k) ?xs" using id_take_nth_drop [OF k(1)] i(1) by simp
  moreover have "\<forall>t \<in> set (take k ?xs). \<not> wakeable t s" using k(1,3) by (auto simp: in_set_conv_nth)
  moreover have "i < MAX_TASKS" using i(2) assms(2) table_wfD by blast
  moreover have "wait_queue_wake_one_q q s = (True, fst (snd (wait_queue_wake_one_q q s)), wake_task i s)"
    "ring_wf MAX_TASKS (fst (snd (wait_queue_wake_one_q q s)))"
    "ring_items MAX_TASKS (fst (snd (wait_queue_wake_one_q q s))) = drop (Suc k) ?xs"
    using wake_one_spec [OF assms(1), of s] Some i(1) by (auto simp: woken_first_def prod_eq_iff)
  ultimately show thesis using i that(2) by blast
qed

lemma wake_one_inv [inv_rules]:
  assumes "sched_inv X s" "ring_wf MAX_TASKS q"
  shows "sched_inv X (snd (snd (wait_queue_wake_one_q q s)))" "ipc_part (snd (snd (wait_queue_wake_one_q q s))) = ipc_part s"
    "ring_wf MAX_TASKS (fst (snd (wait_queue_wake_one_q q s)))"
proof -
  note wf = base_inv_wf [OF sched_inv_base [OF assms(1)]]
  have w: "sched_inv X (wake_task i s)" if i: "i < os_task_count s" "state (task s i) = TASK_STATE_BLOCKED" for i
  proof (rule sched_inv_other [OF assms(1)])
    have m: "i < MAX_TASKS" using i(1) wf table_wfD by blast
    show "base_inv X (wake_task i s)" unfolding wake_task_def
      using sched_inv_base [OF assms(1)] i(1) by (auto intro!: base_inv_upd)
    show "state (task (wake_task i s) (os_current_task s)) = state (task s (os_current_task s))"
      using i assms(1) wake_task_spec(2) [OF wf m] by (auto simp: sched_inv_def)
  qed (simp add: wake_task_def)
  have p: "ipc_part (wake_task i s) = ipc_part s" for i by (simp add: wake_task_def)
  show "sched_inv X (snd (snd (wait_queue_wake_one_q q s)))"
    by (rule wake_one_cases [OF assms(2) wf]) (use w assms(1) in simp_all)
  show "ipc_part (snd (snd (wait_queue_wake_one_q q s))) = ipc_part s"
    by (rule wake_one_cases [OF assms(2) wf]) (use p in simp_all)
  show "ring_wf MAX_TASKS (fst (snd (wait_queue_wake_one_q q s)))"
    using wake_one_spec [OF assms(2)] by simp
qed

section \<open>IPC channels\<close>

definition chan :: "nat \<Rightarrow> sched \<Rightarrow> int list" where
  "chan c s = ring_items IPC_QUEUE_CAPACITY (ipc_channels s ! c)"

lemma ipc_wfD:
  assumes "ipc_wf (ipc_part s)" "c < IPC_CHANNELS"
  shows "ring_wf IPC_QUEUE_CAPACITY (ipc_channels s ! c)" "ring_wf MAX_TASKS (ipc_send_waiters s ! c)"
    "ring_wf MAX_TASKS (ipc_recv_waiters s ! c)" "length (ipc_channels s) = IPC_CHANNELS"
    "length (ipc_send_waiters s) = IPC_CHANNELS" "length (ipc_recv_waiters s) = IPC_CHANNELS"
    "\<not> ipc_initialized s \<Longrightarrow> chan c s = []"
  using assms by (auto simp: ipc_wf_def ipc_part_def chan_def list_all_nth ring_items_empty)

lemma sched_inv_ipc:
  assumes "sched_inv X s" "os_tasks t = os_tasks s" "os_current_task t = os_current_task s"
    "os_task_count t = os_task_count s" "ipc_wf (ipc_part t)"
  shows "sched_inv X t"
proof -
  have "task t = task s" using assms(2) by (simp add: task_def fun_eq_iff)
  then show ?thesis using assms
    by (simp add: sched_inv_def base_inv_def table_wf_def only_current_runs_def slots_inv_def)
qed

lemma list_all_replicate_ring: "list_all P (replicate n x) \<longleftrightarrow> n = 0 \<or> P x"
  by (auto simp: list_all_iff)

lemma ipc_init_inv [inv_rules]: "sched_inv X s \<Longrightarrow> sched_inv X (ipc_init_once s)"
  by (rule sched_inv_ipc [of X s])
    (auto simp: ipc_init_once_def ipc_wf_def ipc_part_def ring_init_wf sched_inv_def base_inv_def list_all_replicate_ring)

lemma ipc_init_chan: "ipc_wf (ipc_part s) \<Longrightarrow> c < IPC_CHANNELS \<Longrightarrow> chan c (ipc_init_once s) = chan c s"
  using ipc_wfD(7) [of s c] by (auto simp: ipc_init_once_def chan_def)

lemma ipc_init_done [simp]: "ipc_initialized (ipc_init_once s)"
  by (simp add: ipc_init_once_def)

lemma ipc_part_upd:
  "ipc_wf (ipc_part s) \<Longrightarrow> ring_wf IPC_QUEUE_CAPACITY ch \<Longrightarrow> ipc_initialized s \<Longrightarrow>
     ipc_wf (ipc_part (s\<lparr>ipc_channels := (ipc_channels s)[c := ch]\<rparr>))"
  "ipc_wf (ipc_part s) \<Longrightarrow> ring_wf MAX_TASKS q \<Longrightarrow> ipc_wf (ipc_part (s\<lparr>ipc_send_waiters := (ipc_send_waiters s)[c := q]\<rparr>))"
  "ipc_wf (ipc_part s) \<Longrightarrow> ring_wf MAX_TASKS q \<Longrightarrow> ipc_wf (ipc_part (s\<lparr>ipc_recv_waiters := (ipc_recv_waiters s)[c := q]\<rparr>))"
  by (simp_all add: ipc_wf_def ipc_part_def list_all_update)

text \<open>Waking a sender or receiver touches no channel.\<close>

lemma wake_waiter_inv [inv_rules]:
  assumes "sched_inv X s" "c < IPC_CHANNELS"
  shows "sched_inv X (wake_recv_waiter c s)" "sched_inv X (wake_send_waiter c s)"
    "ipc_channels (wake_recv_waiter c s) = ipc_channels s" "ipc_channels (wake_send_waiter c s) = ipc_channels s"
proof -
  have ipc: "ipc_wf (ipc_part s)" using assms(1) by (simp add: sched_inv_def base_inv_def)
  note r = wake_one_inv [OF assms(1) ipc_wfD(3) [OF ipc assms(2)]] and w = wake_one_inv [OF assms(1) ipc_wfD(2) [OF ipc assms(2)]]
  have "ipc_wf (ipc_part t)" if "sched_inv X t" for t using that by (simp add: sched_inv_def base_inv_def)
  then show "sched_inv X (wake_recv_waiter c s)"
    unfolding wake_recv_waiter_def Let_def split_beta using r ipc
    by (intro sched_inv_ipc [OF r(1)] ipc_part_upd) simp_all
  show "sched_inv X (wake_send_waiter c s)"
    unfolding wake_send_waiter_def Let_def split_beta using w ipc
    by (intro sched_inv_ipc [OF w(1)] ipc_part_upd) simp_all
  show "ipc_channels (wake_recv_waiter c s) = ipc_channels s" "ipc_channels (wake_send_waiter c s) = ipc_channels s"
    unfolding wake_recv_waiter_def wake_send_waiter_def Let_def split_beta
    using r(2) w(2) by (simp_all add: ipc_part_def)
qed

lemma chan_upd:
  "length (ipc_channels s) = IPC_CHANNELS \<Longrightarrow> c < IPC_CHANNELS \<Longrightarrow>
   chan d (s\<lparr>ipc_channels := (ipc_channels s)[c := ch]\<rparr>) =
     (if d = c then ring_items IPC_QUEUE_CAPACITY ch else chan d s)"
  by (simp add: chan_def)

lemma chan_cong: "ipc_channels s = ipc_channels t \<Longrightarrow> chan d s = chan d t"
  by (simp add: chan_def)

lemma ipc_send_spec:
  assumes "sched_inv X s" "c < IPC_CHANNELS"
  shows "fst (ipc_send (int c) v s) \<longleftrightarrow> length (chan c s) < IPC_QUEUE_CAPACITY"
    "sched_inv X (snd (ipc_send (int c) v s))"
    "d < IPC_CHANNELS \<Longrightarrow> chan d (snd (ipc_send (int c) v s)) =
       (if d = c \<and> length (chan c s) < IPC_QUEUE_CAPACITY then chan c s @ [v] else chan d s)"
proof -
  let ?s1 = "ipc_init_once s" and ?ch = "ipc_channels (ipc_init_once s) ! c"
  have ipc0: "ipc_wf (ipc_part s)" using assms(1) by (simp add: sched_inv_def base_inv_def)
  have inv1: "sched_inv X ?s1" by (rule ipc_init_inv [OF assms(1)])
  then have ipc: "ipc_wf (ipc_part ?s1)" by (simp add: sched_inv_def base_inv_def)
  note D = ipc_wfD [OF ipc assms(2)]
  have len: "r_count ?ch = length (chan c s)" using ipc_init_chan [OF ipc0 assms(2)] by (metis chan_def length_ring_items)
  have eq: "ipc_send (int c) v s = (if length (chan c s) < IPC_QUEUE_CAPACITY
      then (True, wake_recv_waiter c (?s1\<lparr>ipc_channels := (ipc_channels ?s1)[c := ring_push IPC_QUEUE_CAPACITY v ?ch]\<rparr>))
      else (False, ?s1))"
    using assms(2) len by (auto simp: ipc_send_def Let_def ring_push_def)
  then show "fst (ipc_send (int c) v s) \<longleftrightarrow> length (chan c s) < IPC_QUEUE_CAPACITY" by simp
  have room: "sched_inv X (?s1\<lparr>ipc_channels := (ipc_channels ?s1)[c := ring_push IPC_QUEUE_CAPACITY v ?ch]\<rparr>)"
    if "length (chan c s) < IPC_QUEUE_CAPACITY"
    using that len D(1) ipc ipc_part_upd(1) [OF ipc ring_push_wf]
    by (intro sched_inv_ipc [OF inv1]) simp_all
  then show "sched_inv X (snd (ipc_send (int c) v s))"
    using eq inv1 assms(2) by (simp add: wake_waiter_inv)
  show "d < IPC_CHANNELS \<Longrightarrow> chan d (snd (ipc_send (int c) v s)) =
       (if d = c \<and> length (chan c s) < IPC_QUEUE_CAPACITY then chan c s @ [v] else chan d s)"
  proof -
    assume d: "d < IPC_CHANNELS"
    have "ring_items IPC_QUEUE_CAPACITY (ring_push IPC_QUEUE_CAPACITY v ?ch) = chan c s @ [v]"
      if "length (chan c s) < IPC_QUEUE_CAPACITY"
      using that len ring_push_items [OF D(1)] ipc_init_chan [OF ipc0 assms(2)] by (simp add: chan_def)
    moreover have "chan d (wake_recv_waiter c (?s1\<lparr>ipc_channels := (ipc_channels ?s1)[c := ring_push IPC_QUEUE_CAPACITY v ?ch]\<rparr>)) =
        (if d = c then ring_items IPC_QUEUE_CAPACITY (ring_push IPC_QUEUE_CAPACITY v ?ch) else chan d s)"
      if "length (chan c s) < IPC_QUEUE_CAPACITY"
      using chan_cong [OF wake_waiter_inv(3) [OF room [OF that] assms(2)], of d] assms(2) D(4) ipc_init_chan [OF ipc0 d]
      by (simp add: chan_upd)
    ultimately show ?thesis
      using eq ipc_init_chan [OF ipc0 d] by (cases "length (chan c s) < IPC_QUEUE_CAPACITY") simp_all
  qed
qed

lemma ipc_recv_spec:
  assumes "sched_inv X s" "c < IPC_CHANNELS"
  shows "fst (ipc_recv (int c) True s) = (case chan c s of [] \<Rightarrow> None | x # xs \<Rightarrow> Some x)"
    "sched_inv X (snd (ipc_recv (int c) True s))"
    "d < IPC_CHANNELS \<Longrightarrow> chan d (snd (ipc_recv (int c) True s)) = (if d = c then tl (chan c s) else chan d s)"
proof -
  let ?s1 = "ipc_init_once s" and ?ch = "ipc_channels (ipc_init_once s) ! c"
  have ipc0: "ipc_wf (ipc_part s)" using assms(1) by (simp add: sched_inv_def base_inv_def)
  have inv1: "sched_inv X ?s1" by (rule ipc_init_inv [OF assms(1)])
  then have ipc: "ipc_wf (ipc_part ?s1)" by (simp add: sched_inv_def base_inv_def)
  note D = ipc_wfD [OF ipc assms(2)]
  have it: "ring_items IPC_QUEUE_CAPACITY ?ch = chan c s" using ipc_init_chan [OF ipc0 assms(2)] by (simp add: chan_def)
  then have len: "r_count ?ch = length (chan c s)" by (metis length_ring_items)
  let ?s2 = "?s1\<lparr>ipc_channels := (ipc_channels ?s1)[c := snd (ring_pop IPC_QUEUE_CAPACITY ?ch)]\<rparr>"
  show "fst (ipc_recv (int c) True s) = (case chan c s of [] \<Rightarrow> None | x # xs \<Rightarrow> Some x)"
    "sched_inv X (snd (ipc_recv (int c) True s))"
    "d < IPC_CHANNELS \<Longrightarrow> chan d (snd (ipc_recv (int c) True s)) = (if d = c then tl (chan c s) else chan d s)"
  proof (atomize (full), cases "chan c s")
    case Nil
    then have eq: "ipc_recv (int c) True s = (None, ?s1)" using assms(2) len by (simp add: ipc_recv_def Let_def)
    with inv1 Nil ipc_init_chan [OF ipc0] show "fst (ipc_recv (int c) True s) = (case chan c s of [] \<Rightarrow> None | x # xs \<Rightarrow> Some x) \<and>
      sched_inv X (snd (ipc_recv (int c) True s)) \<and>
      (d < IPC_CHANNELS \<longrightarrow> chan d (snd (ipc_recv (int c) True s)) = (if d = c then tl (chan c s) else chan d s))" by auto
  next
    case (Cons x xs)
    then have pos: "0 < r_count ?ch" using len by simp
    have pop: "fst (ring_pop IPC_QUEUE_CAPACITY ?ch) = x"
      "ring_items IPC_QUEUE_CAPACITY (snd (ring_pop IPC_QUEUE_CAPACITY ?ch)) = xs"
      using ring_pop_items [OF D(1) pos] it Cons by simp_all
    have "r_count (snd (ring_pop IPC_QUEUE_CAPACITY ?ch)) < IPC_QUEUE_CAPACITY"
      using pos D(1) by (auto simp: ring_pop_def ring_wf_def)
    then have eq: "ipc_recv (int c) True s = (Some x, wake_send_waiter c ?s2)"
      using assms(2) pos pop(1) by (auto simp: ipc_recv_def Let_def split_beta)
    have inv2: "sched_inv X ?s2"
      using D(1) pos ipc ipc_part_upd(1) [OF ipc ring_pop_wf] by (intro sched_inv_ipc [OF inv1]) simp_all
    have "chan d (wake_send_waiter c ?s2) = (if d = c then xs else chan d s)" if "d < IPC_CHANNELS"
      using that chan_cong [OF wake_waiter_inv(4) [OF inv2 assms(2)], of d] D(4) assms(2) pop(2) ipc_init_chan [OF ipc0 that]
      by (simp add: chan_upd)
    with eq Cons wake_waiter_inv(2) [OF inv2 assms(2)]
    show "fst (ipc_recv (int c) True s) = (case chan c s of [] \<Rightarrow> None | x # xs \<Rightarrow> Some x) \<and>
      sched_inv X (snd (ipc_recv (int c) True s)) \<and>
      (d < IPC_CHANNELS \<longrightarrow> chan d (snd (ipc_recv (int c) True s)) = (if d = c then tl (chan c s) else chan d s))" by simp
  qed
qed

text \<open>A channel seen as a bounded queue whose state is the whole scheduler.\<close>

fun ipc_step :: "nat \<Rightarrow> int qop \<Rightarrow> sched \<Rightarrow> int qout \<times> sched" where
  "ipc_step c (Enq v) s = (let (ok, s') = ipc_send (int c) v s in (Accepted ok, s'))"
| "ipc_step c Deq s = (let (v, s') = ipc_recv (int c) True s in (Got v, s'))"

interpretation ipc: fifo "chan c" "\<lambda>s. sched_inv X s \<and> c < IPC_CHANNELS" IPC_QUEUE_CAPACITY "ipc_step c" for c
proof
  fix s :: sched and op :: "int qop"
  assume "sched_inv X s \<and> c < IPC_CHANNELS"
  then have inv: "sched_inv X s" and c: "c < IPC_CHANNELS" by auto
  have ipc: "ipc_wf (ipc_part s)" using inv by (simp add: sched_inv_def base_inv_def)
  note send = ipc_send_spec [OF inv c] and recv = ipc_recv_spec [OF inv c]
  show b: "length (chan c s) \<le> IPC_QUEUE_CAPACITY" using ipc_wfD(1) [OF ipc c] by (simp add: chan_def ring_wf_def)
  show "sched_inv X (snd (ipc_step c op s)) \<and> c < IPC_CHANNELS"
    using send(2) recv(2) c by (cases op) (simp_all add: split_beta)
  show "(fst (ipc_step c op s), chan c (snd (ipc_step c op s))) = queue_step IPC_QUEUE_CAPACITY op (chan c s)"
  proof (cases op)
    case (Enq v)
    with send(1,3) c show ?thesis by (simp add: split_beta)
  next
    case Deq
    with recv(1,3) c show ?thesis by (cases "chan c s") (simp_all add: split_beta)
  qed
qed

section \<open>Steps\<close>

lemma count_max:
  "(if i \<ge> os_task_count t then t\<lparr>os_task_count := i + 1\<rparr> else t) = t\<lparr>os_task_count := max (os_task_count t) (i + 1)\<rparr>"
  by (cases t) (auto simp: max_def)

lemma create_task_shape:
  assumes "create_task i f pd (p, h, s) = Some (p', h', s')"
  shows "s' = s \<or> (0 < i \<and> i < int MAX_TASKS \<and> (\<exists>sp. s' = s\<lparr>os_tasks := (os_tasks s)[nat i := tcb_created (nat i) f pd sp],
     os_task_count := max (os_task_count s) (nat i + 1)\<rparr>))"
proof (cases "i \<le> 0 \<or> i \<ge> int MAX_TASKS \<or> f = 0")
  case True
  with assms show ?thesis by (auto simp: create_task_def)
next
  case False
  from assms show ?thesis
    unfolding create_task_def split Let_def count_max using False
    by (auto split: option.split_asm prod.split_asm if_split_asm)
qed

lemma task_alloc_slot_cases:
  assumes "sched_inv X s"
  obtains (None) "task_alloc_slot s = -1"
  | (Slot) i where "task_alloc_slot s = int i" "i \<in> {1, 2}" "state (task s i) = TASK_STATE_TERMINATED"
      "i \<le> os_task_count s" "i \<noteq> os_current_task s"
proof (cases "find_slot (\<lambda>k. state k = TASK_STATE_TERMINATED) (drop 1 (os_tasks s))")
  case None
  then show thesis using that(1) by (simp add: task_alloc_slot_def)
next
  case (Some k)
  let ?i = "Suc k"
  have wf: "table_wf s" and sl: "slots_inv s" using assms by (simp_all add: sched_inv_def base_inv_def)
  have len: "length (os_tasks s) = MAX_TASKS" using wf by (simp add: table_wf_def)
  have k: "k < 7" "state (task s ?i) = TASK_STATE_TERMINATED" "\<forall>j < k. state (task s (Suc j)) \<noteq> TASK_STATE_TERMINATED"
    using find_slot_SomeD [OF Some] len by (auto simp: task_def)
  have "?i < 3"
  proof (rule ccontr)
    assume "\<not> ?i < 3"
    then have "3 \<le> ?i \<and> ?i < MAX_TASKS" using k(1) by simp
    then have "is_ready s ?i" using sl unfolding slots_inv_def by blast
    with k(2) show False by simp
  qed
  then have "?i \<in> {1, 2}" by auto
  moreover have "?i \<le> os_task_count s"
  proof (rule ccontr)
    assume "\<not> ?i \<le> os_task_count s"
    then have "os_task_count s \<le> k" "k < 3" using \<open>?i < 3\<close> by auto
    then have "state (task s k) = TASK_STATE_TERMINATED" using sl unfolding slots_inv_def by blast
    moreover have "k \<noteq> 0" using \<open>os_task_count s \<le> k\<close> table_wf_current [OF wf] by auto
    then obtain j where "k = Suc j" by (cases k) auto
    ultimately show False using k(3) by blast
  qed
  moreover have "?i \<noteq> os_current_task s" using k(2) assms by (auto simp: sched_inv_def)
  moreover have "task_alloc_slot s = int ?i" using Some by (simp add: task_alloc_slot_def)
  ultimately show thesis using that(2) k(2) by blast
qed

lemma create_task_inv [inv_rules]:
  assumes "sched_inv X s" "create_task (task_alloc_slot s) f pd (p, h, s) = Some (p', h', s')"
  shows "sched_inv X s'"
proof (rule task_alloc_slot_cases [OF assms(1)])
  assume "task_alloc_slot s = -1"
  then show ?thesis using create_task_shape [OF assms(2)] assms(1) by simp
next
  fix i assume i: "task_alloc_slot s = int i" "i \<in> {1, 2}" "state (task s i) = TASK_STATE_TERMINATED"
    "i \<le> os_task_count s" "i \<noteq> os_current_task s"
  have wf: "table_wf s" and inv: "only_current_runs X s" "slots_inv s" "ipc_wf (ipc_part s)"
    using assms(1) by (simp_all add: sched_inv_def base_inv_def)
  show ?thesis
  proof (cases "s' = s")
    case True
    with assms(1) show ?thesis by simp
  next
    case False
    then obtain sp where s': "s' = s\<lparr>os_tasks := (os_tasks s)[i := tcb_created i f pd sp],
        os_task_count := max (os_task_count s) (i + 1)\<rparr>"
      using create_task_shape [OF assms(2)] i(1) by auto
    have i8: "i < 8" using i(2) by auto
    have t: "task s' j = (if j = i then tcb_created i f pd sp else task s j)" for j
      using wf i8 by (simp add: s' task_def table_wf_def)
    have st: "state (tcb_created i f pd sp) = TASK_STATE_READY" by (simp add: tcb_created_def)
    have cnt: "os_task_count s' = max (os_task_count s) (i + 1)" "os_current_task s' = os_current_task s"
      "ipc_part s' = ipc_part s" by (simp_all add: s' ipc_part_def)
    have c3: "os_task_count s \<le> 3" using inv(2) by (simp add: slots_inv_def)
    have "table_wf s'" using wf i8 by (auto simp: s' table_wf_def)
    moreover have "only_current_runs X s'"
      unfolding only_current_runs_def cnt
    proof (intro allI impI)
      fix j assume j: "j < max (os_task_count s) (i + 1)" "j \<notin> X" "state (task s' j) = TASK_STATE_RUNNING"
      then have "j \<noteq> i" using t st by auto
      with j i(4) have "j < os_task_count s" by auto
      with j \<open>j \<noteq> i\<close> inv(1) show "j = os_current_task s" using t unfolding only_current_runs_def by metis
    qed
    moreover have "slots_inv s'"
      using inv(2) i(2) i8 c3 by (auto simp: slots_inv_def cnt t st)
    moreover have "state (task s' (os_current_task s')) = TASK_STATE_RUNNING"
      using assms(1) i(5) by (simp add: cnt t sched_inv_def)
    ultimately show ?thesis using inv(3) by (simp add: sched_inv_def base_inv_def cnt)
  qed
qed

lemma timer_tick_inv [inv_rules]: "sched_inv X s \<Longrightarrow> sched_inv X (scheduler_timer_tick s)"
proof -
  assume inv: "sched_inv X s"
  note b = sched_inv_base [OF inv] and wf = base_inv_wf [OF sched_inv_base [OF inv]]
  note sp = timer_tick_spec [OF wf]
  show ?thesis
  proof (rule sched_inv_other [OF inv])
    show "base_inv X (scheduler_timer_tick s)"
    proof (rule base_inv_frame [OF b])
      fix j assume "state (task (scheduler_timer_tick s) j) = TASK_STATE_RUNNING"
      then show "state (task s j) = TASK_STATE_RUNNING" by (simp add: sp(2) split: if_splits)
    qed (use sp(1) b in \<open>simp_all add: same_frame_def sp(2) base_inv_def\<close>)
    show "state (task (scheduler_timer_tick s) (os_current_task s)) = state (task s (os_current_task s))"
      using inv by (simp add: sp(2) sched_inv_def)
  qed (use sp(1) in \<open>simp add: same_frame_def\<close>)
qed

lemma metrics_inv [inv_rules]: "sched_inv X s \<Longrightarrow> sched_inv X (scheduler_reset_metrics s)"
  by (simp add: scheduler_reset_metrics_def sched_inv_def)

lemma block_on_inv [inv_rules]:
  assumes "sched_inv X s" "c < IPC_CHANNELS"
  shows "r_count (ipc_send_waiters s ! c) < MAX_TASKS \<or> os_current_task s \<in> X \<Longrightarrow> sched_inv X (block_on_send c s)"
    "r_count (ipc_recv_waiters s ! c) < MAX_TASKS \<or> os_current_task s \<in> X \<Longrightarrow> sched_inv X (block_on_recv c s)"
    "r_count (ipc_send_waiters s ! c) < MAX_TASKS \<or> os_current_task s \<in> X \<Longrightarrow> sched_inv X (block_on_send_timeout c n s)"
    "r_count (ipc_recv_waiters s ! c) < MAX_TASKS \<or> os_current_task s \<in> X \<Longrightarrow> sched_inv X (block_on_recv_timeout c n s)"
proof -
  have ipc: "ipc_wf (ipc_part t)" if "sched_inv X t" for t using that by (simp add: sched_inv_def base_inv_def)
  note D = ipc_wfD [OF ipc [OF assms(1)] assms(2)]
  have q: "ring_wf MAX_TASKS (fst (wait_queue_wait_q q s))" "ring_wf MAX_TASKS (fst (wait_queue_wait_timeout_enter q n s))"
    if "ring_wf MAX_TASKS q" for q
    using ring_push_wf [OF that] that
    by (simp_all add: wait_queue_wait_q_def wait_queue_wait_timeout_enter_def Let_def)
  note w = wait_queue_wait_inv [OF assms(1)] and t = wait_queue_wait_timeout_inv [OF assms(1)]
  show "r_count (ipc_send_waiters s ! c) < MAX_TASKS \<or> os_current_task s \<in> X \<Longrightarrow> sched_inv X (block_on_send c s)"
    unfolding block_on_send_def Let_def split_beta using q(1) w ipc D(2)
    by (intro sched_inv_ipc [OF w] ipc_part_upd) simp_all
  show "r_count (ipc_recv_waiters s ! c) < MAX_TASKS \<or> os_current_task s \<in> X \<Longrightarrow> sched_inv X (block_on_recv c s)"
    unfolding block_on_recv_def Let_def split_beta using q(1) w ipc D(3)
    by (intro sched_inv_ipc [OF w] ipc_part_upd) simp_all
  show "r_count (ipc_send_waiters s ! c) < MAX_TASKS \<or> os_current_task s \<in> X \<Longrightarrow> sched_inv X (block_on_send_timeout c n s)"
    unfolding block_on_send_timeout_def Let_def split_beta using q(2) t ipc D(2)
    by (intro sched_inv_ipc [OF t] ipc_part_upd) simp_all
  show "r_count (ipc_recv_waiters s ! c) < MAX_TASKS \<or> os_current_task s \<in> X \<Longrightarrow> sched_inv X (block_on_recv_timeout c n s)"
    unfolding block_on_recv_timeout_def Let_def split_beta using q(2) t ipc D(3)
    by (intro sched_inv_ipc [OF t] ipc_part_upd) simp_all
qed

lemma ipc_ops_inv [inv_rules]:
  assumes "sched_inv X s"
  shows "sched_inv X (snd (ipc_send channel v s))" "sched_inv X (snd (ipc_recv channel out_ok s))"
    "sched_inv X (snd (ipc_queue_depth channel s))"
proof -
  have ok: "\<exists>c < IPC_CHANNELS. channel = int c" if "\<not> (channel < 0 \<or> channel \<ge> int IPC_CHANNELS)"
    using that by (metis linorder_not_le nonneg_int_cases of_nat_less_iff)
  show "sched_inv X (snd (ipc_send channel v s))"
  proof (cases "channel < 0 \<or> channel \<ge> int IPC_CHANNELS")
    case True
    then have "snd (ipc_send channel v s) = s" by (simp add: ipc_send_def)
    with assms show ?thesis by simp
  next
    case False
    then obtain c where c: "c < IPC_CHANNELS" "channel = int c" using ok by blast
    show ?thesis unfolding c(2) by (rule ipc_send_spec(2) [OF assms c(1)])
  qed
  show "sched_inv X (snd (ipc_recv channel out_ok s))"
  proof (cases "channel < 0 \<or> channel \<ge> int IPC_CHANNELS \<or> \<not> out_ok")
    case True
    then have "snd (ipc_recv channel out_ok s) = s" by (simp add: ipc_recv_def)
    with assms show ?thesis by simp
  next
    case False
    then obtain c where c: "c < IPC_CHANNELS" "channel = int c" using ok by blast
    have "out_ok = True" using False by simp
    then show ?thesis unfolding c(2) by (simp only: ipc_recv_spec(2) [OF assms c(1)])
  qed
  show "sched_inv X (snd (ipc_queue_depth channel s))"
    using assms ipc_init_inv by (simp add: ipc_queue_depth_def Let_def)
qed

text \<open>
  The atomic steps of the scheduler. A step is marked when it is a wait that finds its queue full: the caller is then not blocked. \<open>create_task\<close> is called on the
  slot that \<open>task_alloc_slot\<close> found; queues that live outside the scheduler are arbitrary well-formed rings.
\<close>

inductive sched_step :: "bool \<Rightarrow> sched \<Rightarrow> sched \<Rightarrow> bool" where
  step_schedule: "sched_step False s (schedule s)"
| step_sleep: "sched_step False s (task_sleep n s)"
| step_sleep_timeout: "sched_step False s (task_sleep_timeout_enter n m s)"
| step_exit: "sched_step False s (snd (task_exit_with_code cl de kpd code (w :: nat, s)))"
| step_kill: "sched_step False s (snd (snd (task_kill cl de kpd tid code (w :: nat, s))))"
| step_tick: "sched_step False s (scheduler_timer_tick s)"
| step_create: "create_task (task_alloc_slot s) f pd (p, h, s) = Some (p', h', s') \<Longrightarrow> sched_step False s s'"
| step_wait: "sched_step (r_count q \<ge> MAX_TASKS) s (snd (wait_queue_wait_q q s))"
| step_wait_timeout: "sched_step (r_count q \<ge> MAX_TASKS) s (snd (wait_queue_wait_timeout_enter q n s))"
| step_wake: "ring_wf MAX_TASKS q \<Longrightarrow> sched_step False s (snd (snd (wait_queue_wake_one_q q s)))"
| step_send: "sched_step False s (snd (ipc_send channel v s))"
| step_recv: "sched_step False s (snd (ipc_recv channel out_ok s))"
| step_depth: "sched_step False s (snd (ipc_queue_depth channel s))"
| step_block_send: "c < IPC_CHANNELS \<Longrightarrow> sched_step (r_count (ipc_send_waiters s ! c) \<ge> MAX_TASKS) s (block_on_send c s)"
| step_block_recv: "c < IPC_CHANNELS \<Longrightarrow> sched_step (r_count (ipc_recv_waiters s ! c) \<ge> MAX_TASKS) s (block_on_recv c s)"
| step_block_send_t: "c < IPC_CHANNELS \<Longrightarrow> sched_step (r_count (ipc_send_waiters s ! c) \<ge> MAX_TASKS) s (block_on_send_timeout c n s)"
| step_block_recv_t: "c < IPC_CHANNELS \<Longrightarrow> sched_step (r_count (ipc_recv_waiters s ! c) \<ge> MAX_TASKS) s (block_on_recv_timeout c n s)"
| step_metrics: "sched_step False s (scheduler_reset_metrics s)"

lemma sched0_inv: "sched_inv X sched0"
proof -
  have t: "task sched0 i = os_tasks0 ! i" for i by (simp add: task_def sched0_def)
  have st: "state (os_tasks0 ! i) = (if i = 0 then TASK_STATE_RUNNING else if i < 3 then TASK_STATE_TERMINATED
      else TASK_STATE_READY)" if "i < 8" for i
    using that by (auto simp: os_tasks0_def tcb_initial_def tcb_zero_def nth_Cons' less_Suc_eq numeral_eq_Suc)
  have f: "os_task_count sched0 = 1" "os_current_task sched0 = 0" "length (os_tasks sched0) = MAX_TASKS"
    by (simp_all add: sched0_def os_tasks0_def)
  have "slots_inv sched0" unfolding slots_inv_def f t using st by auto
  moreover have "ipc_wf (ipc_part sched0)"
    by (simp add: sched0_def ipc_wf_def ipc_part_def list_all_replicate_ring ring_init_wf)
  ultimately show ?thesis
    unfolding sched_inv_def base_inv_def table_wf_def only_current_runs_def f t using st [of 0] by simp
qed

lemma sched_step_inv:
  assumes "sched_step full s t" "sched_inv X s" "full \<Longrightarrow> os_current_task s \<in> X"
  shows "sched_inv X t"
  using assms by cases (auto simp: inv_rules linorder_not_less [symmetric])

text \<open>Two systems: every step, and the steps that find room in their wait queue.\<close>

interpretation all_steps: invariant_system "\<lambda>s. s = sched0" "\<lambda>s t. \<exists>full. sched_step full s t" "sched_inv UNIV"
  by unfold_locales (auto simp: sched0_inv intro: sched_step_inv)

interpretation room_steps: invariant_system "\<lambda>s. s = sched0" "sched_step False" "sched_inv {}"
  by unfold_locales (auto simp: sched0_inv intro: sched_step_inv)

end
