(* ===== verification/SchedulerCorrect.thy ===== *)
theory SchedulerCorrect
  imports SchedulerSteps
begin

text \<open>The properties of the scheduler, its wait queues and its IPC channels, with their witnesses.\<close>

section \<open>A state with two tasks\<close>

definition sched_two :: sched where
  "sched_two = sched0\<lparr>os_tasks := (os_tasks sched0)[1 := tcb_created 1 0x100000 0 0x4fec],
     os_task_count := max (os_task_count sched0) (1 + 1)\<rparr>"

lemma sched_two_inv: "sched_inv {} sched_two"
proof -
  have slot: "task_alloc_slot sched0 = 1"
    by (simp add: task_alloc_slot_def sched0_def os_tasks0_def tcb_initial_def)
  have f: "(0x100000 :: u32) \<noteq> 0" "1 \<notin> pages_used pmm_boot" "\<forall>r < 1. r \<in> pages_used pmm_boot"
    by (simp_all add: pmm_boot_used)
  have b: "(0::nat) < 1" "(1::nat) < MAX_TASKS" "(1::nat) < PMM_PAGES" by simp_all
  obtain p' h' where c: "create_task (int 1) 0x100000 0 (pmm_boot, \<lambda>_. 0, sched0) = Some (p', h',
       sched0\<lparr>os_tasks := (os_tasks sched0)[1 := tcb_created 1 0x100000 0 (addr_of_page 1 + 16364)],
         os_task_count := max (os_task_count sched0) (1 + 1)\<rparr>)"
    by (rule create_task_success [OF pmm_boot_inv b(1,2) f(1) b(3) f(2,3)])
  have "addr_of_page 1 + 16364 = 0x4fec" by (simp add: addr_of_page_def)
  with c have "create_task (task_alloc_slot sched0) 0x100000 0 (pmm_boot, \<lambda>_. 0, sched0) = Some (p', h', sched_two)"
    by (simp add: slot sched_two_def)
  from create_task_inv [OF sched0_inv this] show ?thesis .
qed

lemma sched_two_simps:
  "os_task_count sched_two = 2" "os_current_task sched_two = 0" "table_wf sched_two"
  "task sched_two 0 = tcb_initial TASK_STATE_RUNNING WORKLOAD_CLASS_SIM 0"
  "task sched_two 1 = tcb_created 1 0x100000 0 0x4fec" "scheduler_ticks sched_two = 0"
  using sched_two_inv
  by (simp_all add: sched_two_def sched0_def task_def os_tasks0_def sched_inv_def base_inv_def)

lemma less_2_cases_task: "(j::nat) < 2 \<longleftrightarrow> j = 0 \<or> j = 1"
  by auto

section \<open>Selection\<close>

text \<open>
  C9. When some task is READY, \<open>scheduler_pick_next_locked\<close> chooses a READY task whose effective priority no READY
  task exceeds, and among those of equal effective priority the first one in round-robin order after the
  old task; effective priorities never exceed 12.
\<close>

theorem pick_next_correct:
  assumes "table_wf s" "old < os_task_count s" "\<exists>i < os_task_count s. state (task s i) = TASK_STATE_READY"
  shows "\<exists>new ys zs. fst (scheduler_pick_next_locked old s) = new \<and> new < os_task_count s \<and>
    state (task s new) = TASK_STATE_READY \<and> scheduler_effective_priority_locked new s \<le> 12 \<and>
    (\<forall>j < os_task_count s. state (task s j) = TASK_STATE_READY \<longrightarrow>
       scheduler_effective_priority_locked j s \<le> scheduler_effective_priority_locked new s) \<and>
    rr_order old (os_task_count s) = ys @ new # zs \<and>
    (\<forall>y \<in> set ys. state (task s y) = TASK_STATE_READY \<longrightarrow>
       scheduler_effective_priority_locked y s < scheduler_effective_priority_locked new s)"
proof (rule pick_next_cases [OF assms(1,2)])
  fix i ys zs
  assume o: "rr_order old (os_task_count s) = ys @ i # zs" "is_ready s i" "i < os_task_count s"
    "\<forall>y \<in> set ys. is_ready s y \<longrightarrow> eff s y < eff s i" "\<forall>z \<in> set zs. is_ready s z \<longrightarrow> eff s z \<le> eff s i"
    "fst (scheduler_pick_next_locked old s) = i"
  have "eff s j \<le> eff s i" if "j < os_task_count s" "is_ready s j" for j
  proof -
    have "j \<in> set (ys @ i # zs)" using that(1) set_rr_order [OF assms(2)] o(1) by auto
    then show ?thesis using o(4,5) that(2) by (auto intro: less_imp_le)
  qed
  moreover have "eff s i \<le> 12" using eff_priority_bound by (simp add: scheduler_effective_priority_locked_def)
  ultimately show ?thesis using o by blast
next
  assume "\<forall>i < os_task_count s. \<not> is_ready s i"
  with assms(3) show ?thesis by blast
qed

theorem pick_next_correct_witness:
  "fst (scheduler_pick_next_locked 0 sched_two) = 1"
proof -
  have r: "\<exists>i < os_task_count sched_two. state (task sched_two i) = TASK_STATE_READY"
    unfolding sched_two_simps by (rule exI [of _ 1]) (simp add: sched_two_simps(5) [simplified] tcb_created_def)
  have o: "0 < os_task_count sched_two" by (simp add: sched_two_simps)
  from pick_next_correct [OF sched_two_simps(3) o r] obtain new where
    n: "fst (scheduler_pick_next_locked 0 sched_two) = new" "new < 2" "state (task sched_two new) = TASK_STATE_READY"
    unfolding sched_two_simps by blast
  have "new \<noteq> 0"
  proof
    assume "new = 0"
    with n(3) show False by (simp add: sched_two_simps(4) tcb_initial_def)
  qed
  with n show ?thesis by simp
qed

section \<open>Reachable states\<close>

text \<open>
  C2. In every state that the scheduler operations reach from the initial tables, whatever queues they wait on, the current task is RUNNING, the queues are
  well-formed, and \<open>task_alloc_slot\<close> never finds a slot other than 1 and 2, so at most three of the eight slots are ever used. As long as no wait has found its
  queue full, the current task is also the only RUNNING one.
\<close>

theorem sched_reachable_inv:
  assumes "reach (\<lambda>s. s = sched0) (\<lambda>s t. \<exists>full. sched_step full s t) s"
  shows "table_wf s \<and> state (task s (os_current_task s)) = TASK_STATE_RUNNING \<and> os_task_count s \<le> 3 \<and> task_alloc_slot s \<in> {-1, 1, 2} \<and> ipc_wf (ipc_part s) \<and>
    (reach (\<lambda>s. s = sched0) (sched_step False) s \<longrightarrow> (\<forall>i < os_task_count s. state (task s i) = TASK_STATE_RUNNING \<longleftrightarrow> i = os_current_task s))"
proof -
  have inv: "sched_inv UNIV s" by (rule all_steps.reach_inv [OF assms])
  then have f: "table_wf s" "state (task s (os_current_task s)) = TASK_STATE_RUNNING" "slots_inv s" "ipc_wf (ipc_part s)" by (simp_all add: sched_inv_def base_inv_def)
  have "task_alloc_slot s \<in> {-1, 1, 2}" by (rule task_alloc_slot_cases [OF inv]) auto
  moreover have "only_current_runs {} s" if "reach (\<lambda>s. s = sched0) (sched_step False) s"
    using room_steps.reach_inv [OF that] by (simp add: sched_inv_def base_inv_def)
  ultimately show ?thesis using f by (auto simp: slots_inv_def only_current_runs_def)
qed

theorem sched_reachable_inv_witness:
  "state (task (scheduler_timer_tick sched0) 0) = TASK_STATE_RUNNING \<longleftrightarrow> os_current_task (scheduler_timer_tick sched0) = 0"
proof -
  let ?t = "scheduler_timer_tick sched0"
  have r: "reach (\<lambda>s. s = sched0) (\<lambda>s t. \<exists>full. sched_step full s t) ?t" "reach (\<lambda>s. s = sched0) (sched_step False) ?t"
    by (rule reach_step [of _ _ sched0]; auto simp: reach_init intro: step_tick)+
  from sched_reachable_inv [OF r(1)] r(2) have wf: "table_wf ?t"
    and run: "\<forall>i < os_task_count ?t. state (task ?t i) = TASK_STATE_RUNNING \<longleftrightarrow> i = os_current_task ?t" by blast+
  from run table_wf_current [OF wf] show ?thesis by (metis gr_zeroI less_nat_zero_code)
qed

section \<open>The timer\<close>

text \<open>
  C30. A timer tick makes READY exactly the tasks whose wake time has come, adds one to the wait counter of every
  other READY task (saturating), never changes the current task, and leaves every other state alone.
\<close>

theorem timer_tick_correct:
  assumes "table_wf s"
  shows "os_current_task (scheduler_timer_tick s) = os_current_task s \<and>
    scheduler_ticks (scheduler_timer_tick s) = scheduler_ticks s + 1 \<and>
    (\<forall>j < os_task_count s. state (task (scheduler_timer_tick s) j) =
       (if wake_due (scheduler_ticks s + 1) (task s j) then TASK_STATE_READY else state (task s j))) \<and>
    (\<forall>j < os_task_count s. state (task s j) = TASK_STATE_READY \<and> j \<noteq> os_current_task s \<longrightarrow>
       sched_wait_ticks (task (scheduler_timer_tick s) j) =
       (if sched_wait_ticks (task s j) < 0xFFFFFFFF then sched_wait_ticks (task s j) + 1 else sched_wait_ticks (task s j)))"
proof -
  note sp = timer_tick_spec [OF assms]
  have "woken_tcb n k = k" if "state k = TASK_STATE_READY" for n k using that by (simp add: woken_tcb_def wake_due_def)
  then show ?thesis using sp(1) by (simp add: same_frame_def sp(2,3) woken_tcb_state waited_tcb_def)
qed

theorem timer_tick_correct_witness:
  "sched_wait_ticks (task (scheduler_timer_tick sched_two) 1) = 1"
proof -
  have "sched_wait_ticks (task sched_two 1) = 0" "state (task sched_two 1) = TASK_STATE_READY"
    by (simp_all add: sched_two_simps(5) [simplified] tcb_created_def)
  with timer_tick_correct [OF sched_two_simps(3)] show ?thesis by (simp add: sched_two_simps(1,2))
qed

section \<open>Wait queues\<close>

text \<open>
  C32. \<open>wait_queue_wake_one\<close> wakes the longest-waiting task of the queue that is still blocked: the entries before it
  (tasks that were woken by a timeout or killed) are discarded, the entries behind it stay, and no other task changes;
  when no entry is blocked the queue is emptied and nothing is woken.
\<close>

theorem wake_one_fifo:
  assumes "ring_wf MAX_TASKS q" "table_wf s"
  shows "(\<exists>ys i zs q'. ring_items MAX_TASKS q = ys @ int i # zs \<and> (\<forall>t \<in> set ys. \<not> wakeable t s) \<and>
      wakeable (int i) s \<and> wait_queue_wake_one (Some q) s = (True, Some q', wake_task i s) \<and>
      ring_items MAX_TASKS q' = zs \<and> state (task (wake_task i s) i) = TASK_STATE_READY \<and>
      (\<forall>j. j \<noteq> i \<longrightarrow> task (wake_task i s) j = task s j)) \<or>
    (\<exists>q'. (\<forall>t \<in> set (ring_items MAX_TASKS q). \<not> wakeable t s) \<and>
      wait_queue_wake_one (Some q) s = (False, Some q', s) \<and> ring_items MAX_TASKS q' = [])"
proof (rule wake_one_cases [OF assms])
  fix q' assume "\<forall>t \<in> set (ring_items MAX_TASKS q). \<not> wakeable t s" "wait_queue_wake_one_q q s = (False, q', s)"
    "ring_items MAX_TASKS q' = []"
  then show ?thesis by (auto simp: wait_queue_wake_one_def)
next
  fix ys i zs q'
  assume o: "ring_items MAX_TASKS q = ys @ int i # zs" "\<forall>t \<in> set ys. \<not> wakeable t s" "i < os_task_count s" "i < MAX_TASKS"
    "state (task s i) = TASK_STATE_BLOCKED" "wait_queue_wake_one_q q s = (True, q', wake_task i s)"
    "ring_items MAX_TASKS q' = zs"
  have "wakeable (int i) s" using o(3,5) wakeable_iff by blast
  moreover have "wait_queue_wake_one (Some q) s = (True, Some q', wake_task i s)" using o(6) by (simp add: wait_queue_wake_one_def)
  moreover have "state (task (wake_task i s) i) = TASK_STATE_READY" "\<forall>j. j \<noteq> i \<longrightarrow> task (wake_task i s) j = task s j"
    using wake_task_spec(2) [OF assms(2) o(4)] by simp_all
  ultimately show ?thesis using o(1,2,7) by blast
qed

definition sched_blocked :: sched where
  "sched_blocked = upd_task 1 (\<lambda>k. k\<lparr>state := TASK_STATE_BLOCKED\<rparr>) sched_two"

theorem wake_one_fifo_witness:
  "\<exists>q'. wait_queue_wake_one (Some (ring_push MAX_TASKS 1 (ring_push MAX_TASKS 0 (ring_init MAX_TASKS (-1))))) sched_blocked =
     (True, Some q', wake_task 1 sched_blocked)"
proof -
  let ?q = "ring_push MAX_TASKS 1 (ring_push MAX_TASKS 0 (ring_init MAX_TASKS (-1))) :: wait_queue"
  have q0: "ring_wf MAX_TASKS (ring_init MAX_TASKS (-1) :: wait_queue)" by (simp add: ring_init_wf)
  have q: "ring_wf MAX_TASKS ?q" by (simp add: ring_wf_def ring_push_def ring_init_def)
  have it: "ring_items MAX_TASKS ?q = [0, 1]" by (simp add: ring_items_def ring_push_def ring_init_def upt_rec)
  have wf: "table_wf sched_blocked" by (simp add: sched_blocked_def sched_two_simps)
  have t: "state (task sched_blocked 0) = TASK_STATE_RUNNING" "state (task sched_blocked 1) = TASK_STATE_BLOCKED"
    by (simp_all add: sched_blocked_def task_upd_wf [OF sched_two_simps(3)] sched_two_simps(4) tcb_initial_def)
  have w: "\<not> wakeable 0 sched_blocked" "wakeable 1 sched_blocked"
    using t by (auto simp: wakeable_def task_def sched_blocked_def sched_two_simps(1))
  from wake_one_fifo [OF q wf] show ?thesis
  proof
    assume "\<exists>ys i zs q'. ring_items MAX_TASKS ?q = ys @ int i # zs \<and> (\<forall>t \<in> set ys. \<not> wakeable t sched_blocked) \<and>
      wakeable (int i) sched_blocked \<and> wait_queue_wake_one (Some ?q) sched_blocked = (True, Some q', wake_task i sched_blocked) \<and>
      ring_items MAX_TASKS q' = zs \<and> state (task (wake_task i sched_blocked) i) = TASK_STATE_READY \<and>
      (\<forall>j. j \<noteq> i \<longrightarrow> task (wake_task i sched_blocked) j = task sched_blocked j)"
    then obtain ys i zs q' where o: "[0, 1] = ys @ int i # zs" "wakeable (int i) sched_blocked"
      "wait_queue_wake_one (Some ?q) sched_blocked = (True, Some q', wake_task i sched_blocked)" unfolding it by blast
    then have "i = 1" using w(1) by (cases ys) (auto simp: Cons_eq_append_conv)
    with o(3) show ?thesis by blast
  next
    assume "\<exists>q'. (\<forall>t \<in> set (ring_items MAX_TASKS ?q). \<not> wakeable t sched_blocked) \<and>
      wait_queue_wake_one (Some ?q) sched_blocked = (False, Some q', sched_blocked) \<and> ring_items MAX_TASKS q' = []"
    with w(2) it show ?thesis by auto
  qed
qed

section \<open>IPC\<close>

text \<open>
  C10. An IPC channel is a bounded first-in-first-out queue of 16 values: any sequence of \<open>ipc_send\<close> and \<open>ipc_recv\<close> calls
  on a channel returns the results, and leaves the contents, that a list with the same operations gives (a send is refused
  exactly when 16 values are pending, a receive fails exactly when none is), and the other channels keep theirs.
\<close>

theorem ipc_fifo_refinement:
  assumes "sched_inv {} s" "c < IPC_CHANNELS"
  shows "fst (run_ops (ipc_step c) ops s) = fst (run_ops (queue_step IPC_QUEUE_CAPACITY) ops (chan c s)) \<and>
    chan c (snd (run_ops (ipc_step c) ops s)) = snd (run_ops (queue_step IPC_QUEUE_CAPACITY) ops (chan c s)) \<and>
    (\<forall>d < IPC_CHANNELS. d \<noteq> c \<longrightarrow> chan d (snd (run_ops (ipc_step c) ops s)) = chan d s)"
proof -
  have other: "chan d (snd (run_ops (ipc_step c) ops t)) = chan d t"
    if "sched_inv {} t" "d < IPC_CHANNELS" "d \<noteq> c" for d t
    using that(1)
  proof (induction ops arbitrary: t)
    case Nil
    then show ?case by simp
  next
    case (Cons op ops)
    have "sched_inv {} (snd (ipc_step c op t))" using ipc.step_wf [of _ t c op] Cons.prems assms(2) by simp
    moreover have "chan d (snd (ipc_step c op t)) = chan d t"
      using ipc_send_spec(3) [OF Cons.prems assms(2) that(2)] ipc_recv_spec(3) [OF Cons.prems assms(2) that(2)] that(3)
      by (cases op) (simp_all add: split_beta)
    ultimately show ?case using Cons.IH by (simp add: split_beta)
  qed
  have "sched_inv {} s \<and> c < IPC_CHANNELS" using assms by simp
  from ipc.run_sim [OF this] other assms(1) show ?thesis by blast
qed

theorem ipc_fifo_refinement_witness:
  "fst (run_ops (ipc_step 2) [Enq 7, Enq 9, Deq, Deq, Deq] sched0) =
     [Accepted True, Accepted True, Got (Some 7), Got (Some 9), Got None]"
proof -
  have "chan 2 sched0 = []" by (simp add: chan_def sched0_def)
  then show ?thesis using ipc_fifo_refinement [OF sched0_inv, of 2 "[Enq 7, Enq 9, Deq, Deq, Deq]"] by simp
qed

section \<open>Exit\<close>

text \<open>
  C31. When another task is READY, \<open>task_exit_with_code\<close> records the exit code, closes the files of the task, destroys its own address space (and no other), leaves the
  task TERMINATED and gives the processor to a task that was READY or whose wake time has come; every other task keeps its state, or becomes READY when its
  wake time has come. (Tasks that wait for a child are excepted; no code puts a task into that state.)
\<close>

theorem task_exit_correct:
  assumes "table_wf s" "c = os_current_task s" "r < os_task_count s" "r \<noteq> c" "state (task s r) = TASK_STATE_READY"
  shows "\<exists>t. task_exit_with_code close_all destroy kernel_pd code (w, s) =
      (if page_dir (task s c) \<noteq> 0 \<and> page_dir (task s c) \<noteq> kernel_pd
       then destroy (page_dir (task s c)) (close_all c w) else close_all c w, t) \<and>
    exited (task t c) \<and> exit_status (task t c) = code \<and> state (task t c) = TASK_STATE_TERMINATED \<and>
    os_current_task t \<noteq> c \<and> os_current_task t < os_task_count s \<and> state (task t (os_current_task t)) = TASK_STATE_RUNNING \<and>
    (\<forall>j < os_task_count s. j \<noteq> c \<and> wait_reason (task s j) \<noteq> TASK_WAIT_CHILD \<longrightarrow>
       (if j = os_current_task t then state (task s j) = TASK_STATE_READY \<or> wake_due (scheduler_ticks s) (task s j)
        else state (task t j) = (if wake_due (scheduler_ticks s) (task s j) then TASK_STATE_READY else state (task s j))))"
proof -
  let ?e = "exit_state kernel_pd code s"
  let ?t = "scheduler_select_and_switch False ?e"
  note es = exit_state_spec [OF assms(1), where kpd = kernel_pd and code = code]
  have wfe: "table_wf ?e" and fe: "os_current_task ?e = c" "os_task_count ?e = os_task_count s" "scheduler_ticks ?e = scheduler_ticks s"
    using es(1) assms(2) by (simp_all add: same_frame_def)
  have wfm: "table_wf (exit_marked code s)" using exit_marked_spec(1) [OF assms(1)] by (simp add: same_frame_def)
  have c: "c < os_task_count s" using assms(1,2) by simp
  have pe: "task ?e j = task s j" if "j \<noteq> c" "wait_reason (task s j) \<noteq> TASK_WAIT_CHILD \<or> state (task s j) \<noteq> TASK_STATE_BLOCKED" for j
    using es(3) [of j] assms(2) that exit_marked_spec(2) [OF assms(1)] by (auto simp: wake_parent_task [OF wfm])
  have pc: "task (chooser False ?e) j = woken_tcb (scheduler_ticks s) (task s j)"
    if "j \<noteq> c" "wait_reason (task s j) \<noteq> TASK_WAIT_CHILD \<or> state (task s j) \<noteq> TASK_STATE_BLOCKED" "j < os_task_count s" for j
    using pe that by (simp add: chooser_spec(2) [OF wfe] fe)
  have chc: "exited (task (chooser False ?e) c) \<and> exit_status (task (chooser False ?e) c) = code \<and> state (task (chooser False ?e) c) = TASK_STATE_TERMINATED"
    using es(2) [of c] assms(2) c by (simp add: chooser_spec(2) [OF wfe] fe requeued_def woken_tcb_def wake_due_def)
  have fch: "table_wf (chooser False ?e)" "os_task_count (chooser False ?e) = os_task_count s" using chooser_spec(1) [OF wfe] fe by (simp_all add: same_frame_def)
  have rr: "is_ready (chooser False ?e) r" using pc [of r] assms(3-5) by (simp add: woken_tcb_state)
  have "c < os_task_count (chooser False ?e)" using c fch(2) by simp
  then have rc: "is_ready (chooser False ?e) (chosen False ?e)"
    by (rule pick_next_cases [OF fch(1)]) (use rr assms(3) fch(2) fe(1) in \<open>auto simp: chosen_def\<close>)
  have ne: "chosen False ?e \<noteq> c" using rc chc by auto
  have lt: "chosen False ?e < os_task_count s" using chosen_less [OF wfe, of False] fe by simp
  have "task_exit_with_code close_all destroy kernel_pd code (w, s) =
      (if page_dir (task s c) \<noteq> 0 \<and> page_dir (task s c) \<noteq> kernel_pd
       then destroy (page_dir (task s c)) (close_all c w) else close_all c w, ?t)"
    by (simp add: prod_eq_iff exit_unfold assms(2) Let_def)
  moreover have "exited (task ?t c)" "exit_status (task ?t c) = code" "state (task ?t c) = TASK_STATE_TERMINATED"
    using chc ne by (simp_all add: select_spec(6) [OF wfe])
  moreover have "os_current_task ?t \<noteq> c" "os_current_task ?t < os_task_count s" "state (task ?t (os_current_task ?t)) = TASK_STATE_RUNNING"
    using ne lt by (simp_all add: select_spec(2,6) [OF wfe])
  moreover have "if j = os_current_task ?t then state (task s j) = TASK_STATE_READY \<or> wake_due (scheduler_ticks s) (task s j)
        else state (task ?t j) = (if wake_due (scheduler_ticks s) (task s j) then TASK_STATE_READY else state (task s j))"
    if "j < os_task_count s" "j \<noteq> c" "wait_reason (task s j) \<noteq> TASK_WAIT_CHILD" for j
    using pc [of j] that rc by (auto simp: select_spec(2,6) [OF wfe] woken_tcb_state split: if_splits)
  ultimately show ?thesis by blast
qed

theorem task_exit_correct_witness:
  "\<exists>t. task_exit_with_code (\<lambda>i w. i # w) (\<lambda>pd w. w) 0 42 ([], sched_two) = ([0], t) \<and>
     exited (task t 0) \<and> exit_status (task t 0) = 42 \<and> os_current_task t = 1 \<and> state (task t 1) = TASK_STATE_RUNNING"
proof -
  have h: "0 = os_current_task sched_two" "1 < os_task_count sched_two" "1 \<noteq> (0 :: nat)" "state (task sched_two 1) = TASK_STATE_READY"
    using sched_two_simps by (simp_all add: tcb_created_def)
  obtain t where t: "task_exit_with_code (\<lambda>i w. i # w) (\<lambda>pd w. w) 0 42 ([], sched_two) = ([0], t)" "exited (task t 0)" "exit_status (task t 0) = 42"
    "os_current_task t \<noteq> 0" "os_current_task t < os_task_count sched_two" "state (task t (os_current_task t)) = TASK_STATE_RUNNING"
    using task_exit_correct [OF sched_two_simps(3) h, of "\<lambda>i w. i # w" "\<lambda>pd w. w" 0 42 "[]"] by auto
  moreover have "os_current_task t = 1" using t(4,5) sched_two_simps(1) by simp
  ultimately show ?thesis by auto
qed

lemma ticks_stay:
  assumes "table_wf t"
  shows "table_wf ((scheduler_timer_tick ^^ n) t) \<and> os_task_count ((scheduler_timer_tick ^^ n) t) = os_task_count t \<and>
    os_current_task ((scheduler_timer_tick ^^ n) t) = os_current_task t \<and>
    (state (task t (os_current_task t)) = TASK_STATE_RUNNING \<longrightarrow>
     state (task ((scheduler_timer_tick ^^ n) t) (os_current_task t)) = TASK_STATE_RUNNING)"
proof (induction n)
  case 0
  with assms show ?case by simp
next
  case (Suc n)
  let ?t = "(scheduler_timer_tick ^^ n) t"
  have wf: "table_wf ?t" using Suc by blast
  note sp = timer_tick_spec [OF wf]
  show ?case using Suc sp(1) by (auto simp: same_frame_def sp(2))
qed

text \<open>
  If every other task is asleep (or terminated) when a task exits, the scheduler marks the exited task RUNNING again;
  the exit routine then halts in a loop, and since the timer tick never switches tasks it stays current for
  ever, even after the sleepers have become READY.
\<close>

theorem task_exit_hang:
  assumes "sched_inv {} s" "c = os_current_task s"
    "\<forall>j < os_task_count s. j \<noteq> c \<longrightarrow> state (task s j) = TASK_STATE_TERMINATED \<or>
       (state (task s j) = TASK_STATE_SLEEPING \<and> scheduler_ticks s < wake_tick (task s j))"
    "t = snd (task_exit_with_code close_all destroy kernel_pd code (w, s))"
  shows "exited (task t c) \<and> (\<forall>n. os_current_task ((scheduler_timer_tick ^^ n) t) = c \<and>
    state (task ((scheduler_timer_tick ^^ n) t) c) = TASK_STATE_RUNNING)"
proof -
  have wf: "table_wf s" using assms(1) by (simp add: sched_inv_def base_inv_def)
  let ?e = "exit_state kernel_pd code s"
  note es = exit_state_spec [OF wf, where kpd = kernel_pd and code = code]
  have wfe: "table_wf ?e" and fe: "os_current_task ?e = c" "os_task_count ?e = os_task_count s" "scheduler_ticks ?e = scheduler_ticks s"
    using es(1) assms(2) by (simp_all add: same_frame_def)
  have c: "c < os_task_count s" using wf assms(2) by simp
  have wfm: "table_wf (exit_marked code s)" using exit_marked_spec(1) [OF wf] by (simp add: same_frame_def)
  have other: "task (chooser False ?e) j = task s j" if j: "j < os_task_count s" "j \<noteq> c" for j
  proof -
    have m: "task (exit_marked code s) j = task s j" using exit_marked_spec(2) [OF wf] j(2) assms(2) by simp
    have st: "state (task s j) \<noteq> TASK_STATE_BLOCKED" "\<not> wake_due (scheduler_ticks s) (task s j)"
      using assms(3) j by (auto simp: wake_due_def)
    have "task ?e j = task s j" using es(3) [of j] j(2) assms(2) st(1) by (simp add: wake_parent_task [OF wfm] m)
    with j st(2) show ?thesis by (simp add: chooser_spec(2) [OF wfe] fe woken_tcb_def)
  qed
  have self: "task (chooser False ?e) c = task ?e c" and tm: "state (task ?e c) = TASK_STATE_TERMINATED" "exited (task ?e c)"
    using es(2) [of c] assms(2) c by (simp_all add: chooser_spec(2) [OF wfe] fe requeued_def woken_tcb_def wake_due_def)
  have fc: "table_wf (chooser False ?e)" "os_task_count (chooser False ?e) = os_task_count s"
    using chooser_spec(1) [OF wfe, of False] fe by (simp_all add: same_frame_def)
  have none: "\<not> is_ready (chooser False ?e) j \<and> state (task (chooser False ?e) j) \<noteq> TASK_STATE_RUNNING"
    if "j < os_task_count s" for j
    using other [OF that] self tm assms(3) that by (cases "j = c") auto
  have "c < os_task_count (chooser False ?e)" using c fc(2) by simp
  then have ch: "chosen False ?e = c"
    by (rule pick_next_cases [OF fc(1)]) (use none fc(2) c in \<open>auto simp: chosen_def fe\<close>)
  have t: "t = scheduler_select_and_switch False ?e" by (simp add: assms(4) exit_unfold)
  have "table_wf t" "os_current_task t = c" "state (task t c) = TASK_STATE_RUNNING" "exited (task t c)"
    using self tm by (simp_all add: t select_spec [OF wfe] ch)
  with ticks_stay [of t] show ?thesis by metis
qed

definition sched_asleep :: sched where
  "sched_asleep = (upd_task 0 (\<lambda>k. k\<lparr>state := TASK_STATE_SLEEPING, wake_tick := 10\<rparr>)
     (upd_task 1 (\<lambda>k. k\<lparr>state := TASK_STATE_RUNNING\<rparr>) sched_two))\<lparr>os_current_task := 1\<rparr>"

lemma sched_asleep_facts:
  "sched_inv {} sched_asleep" "os_current_task sched_asleep = 1" "os_task_count sched_asleep = 2"
  "state (task sched_asleep 0) = TASK_STATE_SLEEPING" "wake_tick (task sched_asleep 0) = 10" "scheduler_ticks sched_asleep = 0"
proof -
  have sl: "slots_inv sched_two" "ipc_wf (ipc_part sched_two)" using sched_two_inv by (simp_all add: sched_inv_def base_inv_def)
  have wf: "table_wf sched_asleep" using sched_two_simps(1-3) by (simp add: sched_asleep_def table_wf_def)
  have t: "task sched_asleep j = (if j = 0 then (task sched_two 0)\<lparr>state := TASK_STATE_SLEEPING, wake_tick := 10\<rparr>
      else if j = 1 then (task sched_two 1)\<lparr>state := TASK_STATE_RUNNING\<rparr> else task sched_two j)" for j
    using sched_two_simps(3) by (simp add: sched_asleep_def task_upd_wf)
  show f: "os_current_task sched_asleep = 1" "os_task_count sched_asleep = 2" "scheduler_ticks sched_asleep = 0"
    "state (task sched_asleep 0) = TASK_STATE_SLEEPING" "wake_tick (task sched_asleep 0) = 10"
    by (simp_all add: t) (simp_all add: sched_asleep_def sched_two_simps)
  have "only_current_runs {} sched_asleep" unfolding only_current_runs_def f less_2_cases_task by (auto simp: t)
  moreover have "slots_inv sched_asleep" using sl(1) unfolding slots_inv_def f sched_two_simps(1) by (simp add: t)
  moreover have "ipc_wf (ipc_part sched_asleep)" using sl(2) by (simp add: sched_asleep_def)
  ultimately show "sched_inv {} sched_asleep" using wf by (simp add: sched_inv_def base_inv_def f t)
qed

theorem task_exit_hang_witness:
  "os_current_task ((scheduler_timer_tick ^^ 1000) (snd (task_exit_with_code (\<lambda>_ w. w) (\<lambda>_ w. w) 0 0 ((), sched_asleep)))) = 1"
proof -
  have h: "\<forall>j < os_task_count sched_asleep. j \<noteq> 1 \<longrightarrow> state (task sched_asleep j) = TASK_STATE_TERMINATED \<or>
       (state (task sched_asleep j) = TASK_STATE_SLEEPING \<and> scheduler_ticks sched_asleep < wake_tick (task sched_asleep j))"
    unfolding sched_asleep_facts less_2_cases_task using sched_asleep_facts(4,5) by auto
  from task_exit_hang [OF sched_asleep_facts(1) sched_asleep_facts(2) [symmetric] h refl, of "\<lambda>_ w. w" "\<lambda>_ w. w" 0 0 "()"]
  show ?thesis by blast
qed

section \<open>Waking everybody, and waiting on a full queue\<close>

lemma wakeable_frame: "same_frame s t \<Longrightarrow> task t i = task s i \<Longrightarrow> wakeable (int i) t = wakeable (int i) s"
  by (simp add: wakeable_def same_frame_def task_def)

lemma wake_all_spec:
  "ring_wf MAX_TASKS q \<Longrightarrow> table_wf s \<Longrightarrow> wait_queue_wake_all_q q s = (n, q', s') \<Longrightarrow>
   ring_items MAX_TASKS q' = [] \<and> same_frame s s' \<and>
   (\<forall>j. state (task s' j) = (if int j \<in> set (ring_items MAX_TASKS q) \<and> wakeable (int j) s
      then TASK_STATE_READY else state (task s j)))"
proof (induction q s arbitrary: n q' s' rule: wait_queue_wake_all_q.induct)
  case (1 q s)
  show ?case
  proof (rule wake_one_cases [OF 1(2,3)])
    fix q1 assume o: "\<forall>t \<in> set (ring_items MAX_TASKS q). \<not> wakeable t s" "wait_queue_wake_one_q q s = (False, q1, s)"
      "ring_items MAX_TASKS q1 = []"
    have "q' = q1" "s' = s" using 1(4) o(2) by (simp_all add: wait_queue_wake_all_q.simps)
    with o 1(3) show ?thesis by (auto simp: same_frame_def)
  next
    fix ys i zs q1
    assume o: "ring_items MAX_TASKS q = ys @ int i # zs" "\<forall>t \<in> set ys. \<not> wakeable t s" "i < os_task_count s" "i < MAX_TASKS"
      "state (task s i) = TASK_STATE_BLOCKED" "wait_queue_wake_one_q q s = (True, q1, wake_task i s)"
      "ring_wf MAX_TASKS q1" "ring_items MAX_TASKS q1 = zs"
    note w = wake_task_spec [OF 1(3) o(4)]
    have wf: "table_wf (wake_task i s)" using w(1) by (simp add: same_frame_def)
    obtain m where m: "wait_queue_wake_all_q q1 (wake_task i s) = (m, q', s')"
      using 1(4) o(6) by (cases "wait_queue_wake_all_q q1 (wake_task i s)") (simp add: wait_queue_wake_all_q.simps [of q s])
    from 1(1) [OF o(6) [symmetric] refl refl o(7) wf m] o(8)
    have IH: "ring_items MAX_TASKS q' = []" "same_frame (wake_task i s) s'"
      "\<And>j. state (task s' j) = (if int j \<in> set zs \<and> wakeable (int j) (wake_task i s)
         then TASK_STATE_READY else state (task (wake_task i s) j))" by simp_all
    have i: "wakeable (int i) s" using o(3,5) wakeable_iff by blast
    have wk: "wakeable (int j) (wake_task i s) = wakeable (int j) s" if "j \<noteq> i" for j
      using wakeable_frame [OF w(1)] w(2) that by simp
    have "state (task s' j) = (if int j \<in> set (ring_items MAX_TASKS q) \<and> wakeable (int j) s
      then TASK_STATE_READY else state (task s j))" for j
    proof (cases "j = i")
      case True
      then show ?thesis using IH(3) [of i] w(2) i o(1) by simp
    next
      case False
      then show ?thesis using IH(3) [of j] w(2) wk [OF False] o(1,2) by auto
    qed
    with IH(1,2) w(1) same_frame_trans show ?thesis by blast
  qed
qed

text \<open>
  \<open>wait_queue_wake_all\<close> ends with an empty queue; exactly the tasks that are in the queue and still blocked become READY,
  each once, and no other task changes its state.
\<close>

theorem wake_all_correct:
  assumes "ring_wf MAX_TASKS q" "table_wf s"
  shows "\<exists>n q' s'. wait_queue_wake_all (Some q) s = (n, Some q', s') \<and> ring_items MAX_TASKS q' = [] \<and>
    os_current_task s' = os_current_task s \<and>
    (\<forall>j. state (task s' j) = (if int j \<in> set (ring_items MAX_TASKS q) \<and> j < os_task_count s \<and>
        state (task s j) = TASK_STATE_BLOCKED then TASK_STATE_READY else state (task s j)))"
proof -
  obtain n q' s' where r: "wait_queue_wake_all_q q s = (n, q', s')" by (metis prod_cases3)
  have "wakeable (int j) s \<longleftrightarrow> j < os_task_count s \<and> state (task s j) = TASK_STATE_BLOCKED" for j
    using wakeable_iff by auto
  with wake_all_spec [OF assms r] r show ?thesis
    by (auto simp: wait_queue_wake_all_def same_frame_def)
qed

theorem wake_all_correct_witness:
  "\<exists>n q' s'. wait_queue_wake_all (Some (ring_push MAX_TASKS 1 (ring_init MAX_TASKS (-1)))) sched_blocked = (n, Some q', s') \<and>
     state (task s' 1) = TASK_STATE_READY"
proof -
  let ?q = "ring_push MAX_TASKS 1 (ring_init MAX_TASKS (-1)) :: wait_queue"
  have q: "ring_wf MAX_TASKS ?q" by (simp add: ring_wf_def ring_push_def ring_init_def)
  have it: "ring_items MAX_TASKS ?q = [1]" by (simp add: ring_items_def ring_push_def ring_init_def)
  have wf: "table_wf sched_blocked" by (simp add: sched_blocked_def sched_two_simps)
  have t: "os_task_count sched_blocked = 2" "state (task sched_blocked 1) = TASK_STATE_BLOCKED"
    by (simp_all add: sched_blocked_def task_upd_wf [OF sched_two_simps(3)] sched_two_simps)
  from wake_all_correct [OF q wf] t it show ?thesis by fastforce
qed

text \<open>
  A full wait queue breaks the scheduler's invariant: \<open>wait_queue_wait\<close> then neither enqueues nor blocks the caller but still
  gives the processor away, so that two tasks are RUNNING at once.
\<close>

theorem wait_full_queue:
  assumes "sched_inv {} s" "r_count q \<ge> MAX_TASKS" "j < os_task_count s" "state (task s j) = TASK_STATE_READY"
  shows "\<exists>t. wait_queue_wait (Some q) s = (Some q, t) \<and> os_current_task t \<noteq> os_current_task s \<and>
    state (task t (os_current_task t)) = TASK_STATE_RUNNING \<and> state (task t (os_current_task s)) = TASK_STATE_RUNNING"
proof -
  have wf: "table_wf s" and run: "state (task s (os_current_task s)) = TASK_STATE_RUNNING"
    using assms(1) by (simp_all add: sched_inv_def base_inv_def)
  let ?c = "os_current_task s" and ?t = "scheduler_select_and_switch False s"
  have f: "table_wf (chooser False s)" "os_task_count (chooser False s) = os_task_count s"
    using chooser_spec(1) [OF wf] by (simp_all add: same_frame_def)
  have rc: "state (task (chooser False s) ?c) = TASK_STATE_RUNNING"
    using run wf by (simp add: chooser_spec(2) [OF wf] requeued_def)
  have rj: "is_ready (chooser False s) j"
    using assms(3,4) by (auto simp: chooser_spec(2) [OF wf] requeued_def woken_tcb_state)
  have "?c < os_task_count (chooser False s)" using f(2) wf by simp
  then have "is_ready (chooser False s) (chosen False s)"
    by (rule pick_next_cases [OF f(1)]) (use rj assms(3) f(2) in \<open>auto simp: chosen_def\<close>)
  with rc have "chosen False s \<noteq> ?c" by auto
  then have "os_current_task ?t \<noteq> ?c" "state (task ?t (os_current_task ?t)) = TASK_STATE_RUNNING"
    "state (task ?t ?c) = TASK_STATE_RUNNING" using rc by (simp_all add: select_spec(2,6) [OF wf])
  moreover have "wait_queue_wait (Some q) s = (Some q, ?t)"
    using assms(2) by (simp add: wait_queue_wait_def wait_queue_wait_q_def Let_def)
  ultimately show ?thesis by blast
qed

theorem wait_full_queue_witness:
  "\<exists>t. wait_queue_wait (Some \<lparr>r_buf = replicate 8 1, r_head = 0, r_tail = 0, r_count = 8\<rparr>) sched_two =
      (Some \<lparr>r_buf = replicate 8 1, r_head = 0, r_tail = 0, r_count = 8\<rparr>, t) \<and>
     state (task t 0) = TASK_STATE_RUNNING \<and> os_current_task t \<noteq> 0"
proof -
  have h: "r_count (\<lparr>r_buf = replicate 8 1, r_head = 0, r_tail = 0, r_count = 8\<rparr> :: wait_queue) \<ge> MAX_TASKS" by simp
  have j: "1 < os_task_count sched_two" "state (task sched_two 1) = TASK_STATE_READY"
    using sched_two_simps(1,5) by (simp_all add: tcb_created_def)
  from wait_full_queue [OF sched_two_inv h j] show ?thesis unfolding sched_two_simps(2) by blast
qed

end
