(* ===== verification/Disk.thy ===== *)
theory Disk
  imports Prelude "HOL-Library.Multiset"
begin

text \<open>
  The disk driver of \<open>src/kernel/disk.c\<close> and \<open>src/kernel/disk.h\<close>. The hardware is a parameter: a record of the
  operations the driver calls on it (port input and output, and the AHCI driver's entry points) over a
  state \<open>'h\<close>. Sectors are lists of 256 words; a null buffer is \<open>None\<close>.
\<close>

section \<open>Hardware and state\<close>

type_synonym sector = "u16 list"

datatype ahci_rc = AHCI_READ_OK | AHCI_READ_ERR_NO_CONTROLLER | AHCI_READ_ERR_NO_READY_PORT
  | AHCI_READ_ERR_TIMEOUT | AHCI_READ_ERR_TFES

datatype disk_rc = DISK_IO_OK | DISK_IO_ERR_NO_DEVICE | DISK_IO_ERR_NO_READY_PORT | DISK_IO_ERR_TIMEOUT
  | DISK_IO_ERR_TFES | DISK_IO_ERR_UNSUPPORTED

record ahci_port =
  implemented :: bool
  ready :: bool
  sata :: bool

record ahci_probe =
  controller_found :: bool
  implemented_ports :: nat
  ready_ports :: nat
  ports :: "ahci_port list"

record ahci_identify =
  id_success :: bool
  id_smart_supported :: bool
  id_smart_enabled :: bool
  lba48_sectors_low :: u32
  lba48_sectors_high :: u32
  id_model :: string

text \<open>Reads and identifications deliver into a buffer: the operation gets its old contents and gives the new.\<close>

record 'h hw =
  inb :: "u16 \<Rightarrow> 'h \<Rightarrow> u8 \<times> 'h"
  outb :: "u16 \<Rightarrow> u8 \<Rightarrow> 'h \<Rightarrow> 'h"
  inw :: "u16 \<Rightarrow> 'h \<Rightarrow> u16 \<times> 'h"
  outw :: "u16 \<Rightarrow> u16 \<Rightarrow> 'h \<Rightarrow> 'h"
  ahci_get_runtime_report :: "'h \<Rightarrow> ahci_probe option \<times> 'h"
  ahci_port_reset_and_start :: "nat \<Rightarrow> 'h \<Rightarrow> bool \<times> 'h"
  ahci_read_sector :: "nat \<Rightarrow> u32 \<Rightarrow> sector \<Rightarrow> 'h \<Rightarrow> ahci_rc \<times> sector \<times> 'h"
  ahci_write_sector :: "nat \<Rightarrow> u32 \<Rightarrow> sector \<Rightarrow> 'h \<Rightarrow> ahci_rc \<times> 'h"
  ahci_identify_first_ready :: "'h \<Rightarrow> ahci_identify option \<times> 'h"

record disk_io_stats_t =
  uncached_reads :: u32
  uncached_writes :: u32
  cached_reads :: u32
  cached_writes :: u32

record disk_sched_stats_t =
  batches :: u32
  requests :: u32
  reordered_requests :: u32
  max_batch_depth :: u32
  last_lba :: u32

record 'h disk =
  hwst :: 'h
  ata_disk_available :: bool
  disk_preferred_backend :: u8
  disk_io_stats :: disk_io_stats_t
  disk_sched_stats :: disk_sched_stats_t
  disk_read_errors :: u32
  disk_write_errors :: u32
  disk_last_error :: disk_rc

abbreviation PORT_DATA :: u16 where "PORT_DATA \<equiv> 0x1F0"
abbreviation PORT_SECCOUNT :: u16 where "PORT_SECCOUNT \<equiv> 0x1F2"
abbreviation PORT_LBA_LOW :: u16 where "PORT_LBA_LOW \<equiv> 0x1F3"
abbreviation PORT_LBA_MID :: u16 where "PORT_LBA_MID \<equiv> 0x1F4"
abbreviation PORT_LBA_HIGH :: u16 where "PORT_LBA_HIGH \<equiv> 0x1F5"
abbreviation PORT_DEVICE :: u16 where "PORT_DEVICE \<equiv> 0x1F6"
abbreviation PORT_COMMAND :: u16 where "PORT_COMMAND \<equiv> 0x1F7"
abbreviation PORT_CONTROL :: u16 where "PORT_CONTROL \<equiv> 0x3F6"
abbreviation STATUS_BSY :: u8 where "STATUS_BSY \<equiv> 0x80"
abbreviation STATUS_RDY :: u8 where "STATUS_RDY \<equiv> 0x40"
abbreviation CMD_READ :: u8 where "CMD_READ \<equiv> 0x20"
abbreviation CMD_WRITE :: u8 where "CMD_WRITE \<equiv> 0x30"
abbreviation AHCI_MAX_PORTS :: nat where "AHCI_MAX_PORTS \<equiv> 32"
abbreviation DISK_READ_RETRY_COUNT :: nat where "DISK_READ_RETRY_COUNT \<equiv> 3"
abbreviation ATA_TIMEOUT :: nat where "ATA_TIMEOUT \<equiv> 500000"
abbreviation DISK_BACKEND_AUTO :: u8 where "DISK_BACKEND_AUTO \<equiv> 0"
abbreviation DISK_BACKEND_ATA :: u8 where "DISK_BACKEND_ATA \<equiv> 1"
abbreviation DISK_BACKEND_AHCI :: u8 where "DISK_BACKEND_AHCI \<equiv> 2"

section \<open>Statistics and settings\<close>

definition io_stats0 :: disk_io_stats_t where
  "io_stats0 = \<lparr>uncached_reads = 0, uncached_writes = 0, cached_reads = 0, cached_writes = 0\<rparr>"

definition sched_stats0 :: disk_sched_stats_t where
  "sched_stats0 = \<lparr>batches = 0, requests = 0, reordered_requests = 0, max_batch_depth = 0, last_lba = 0\<rparr>"

definition disk_note_error :: "disk_rc \<Rightarrow> bool \<Rightarrow> 'h disk \<Rightarrow> 'h disk" where
  "disk_note_error rc is_write d =
     (if rc = DISK_IO_OK then d
      else let d' = d\<lparr>disk_last_error := rc\<rparr> in
        if is_write then d'\<lparr>disk_write_errors := disk_write_errors d + 1\<rparr>
        else d'\<lparr>disk_read_errors := disk_read_errors d + 1\<rparr>)"

definition disk_get_io_stats :: "'h disk \<Rightarrow> disk_io_stats_t" where
  "disk_get_io_stats d = disk_io_stats d"

definition disk_reset_io_stats :: "'h disk \<Rightarrow> 'h disk" where
  "disk_reset_io_stats d = d\<lparr>disk_io_stats := io_stats0, disk_read_errors := 0, disk_write_errors := 0,
     disk_last_error := DISK_IO_OK\<rparr>"

definition disk_get_scheduler_stats :: "'h disk \<Rightarrow> disk_sched_stats_t" where
  "disk_get_scheduler_stats d = disk_sched_stats d"

definition disk_reset_scheduler_stats :: "'h disk \<Rightarrow> 'h disk" where
  "disk_reset_scheduler_stats d = d\<lparr>disk_sched_stats := sched_stats0\<rparr>"

definition disk_set_preferred_backend :: "u8 \<Rightarrow> 'h disk \<Rightarrow> 'h disk" where
  "disk_set_preferred_backend backend d =
     d\<lparr>disk_preferred_backend := (if backend \<noteq> DISK_BACKEND_AUTO \<and> backend \<noteq> DISK_BACKEND_ATA \<and>
        backend \<noteq> DISK_BACKEND_AHCI then DISK_BACKEND_AUTO else backend)\<rparr>"

definition disk_get_preferred_backend :: "'h disk \<Rightarrow> u8" where
  "disk_get_preferred_backend d = disk_preferred_backend d"

fun disk_read_error_string :: "disk_rc \<Rightarrow> string" where
  "disk_read_error_string DISK_IO_OK = ''OK''"
| "disk_read_error_string DISK_IO_ERR_NO_DEVICE = ''NO_DEVICE''"
| "disk_read_error_string DISK_IO_ERR_NO_READY_PORT = ''NO_READY_PORT''"
| "disk_read_error_string DISK_IO_ERR_TIMEOUT = ''TIMEOUT''"
| "disk_read_error_string DISK_IO_ERR_TFES = ''TFES''"
| "disk_read_error_string DISK_IO_ERR_UNSUPPORTED = ''UNSUPPORTED''"

section \<open>The ATA backend\<close>

text \<open>The polling loops, with the number of polls left. The detection loop also probes a register.\<close>

primrec ata_detect_loop :: "'h hw \<Rightarrow> nat \<Rightarrow> 'h \<Rightarrow> bool \<times> 'h" where
  "ata_detect_loop hw 0 h = (False, h)"
| "ata_detect_loop hw (Suc n) h =
     (let (status, h1) = inb hw PORT_COMMAND h in
      if status AND STATUS_BSY = 0
      then let (val, h2) = inb hw PORT_LBA_LOW (outb hw PORT_LBA_LOW 0xAB h1) in
           if val = 0xAB then (True, outb hw PORT_LBA_LOW 0 h2) else (False, h2)
      else ata_detect_loop hw n h1)"

definition ata_detect_disk :: "'h hw \<Rightarrow> 'h \<Rightarrow> bool \<times> 'h" where
  "ata_detect_disk hw h =
     (let (status, h1) = inb hw PORT_COMMAND (outb hw PORT_CONTROL 0x02 h) in
      if status = 0xFF then (False, h1) else ata_detect_loop hw 200000 h1)"

text \<open>\<open>do { status = inb(...); if (--timeout == 0) return; } while (cond)\<close> with \<open>n\<close> the value of \<open>timeout\<close>.\<close>

primrec ata_wait_loop :: "'h hw \<Rightarrow> (u8 \<Rightarrow> bool) \<Rightarrow> nat \<Rightarrow> 'h \<Rightarrow> 'h" where
  "ata_wait_loop hw again 0 h = h"
| "ata_wait_loop hw again (Suc n) h =
     (let (status, h1) = inb hw PORT_COMMAND h in
      if n = 0 then h1 else if again status then ata_wait_loop hw again n h1 else h1)"

definition ata_wait_ready :: "'h hw \<Rightarrow> 'h \<Rightarrow> 'h" where
  "ata_wait_ready hw h =
     ata_wait_loop hw (\<lambda>status. status AND STATUS_BSY \<noteq> 0 \<or> status AND STATUS_RDY = 0) ATA_TIMEOUT h"

definition ata_wait_drq :: "'h hw \<Rightarrow> 'h \<Rightarrow> 'h" where
  "ata_wait_drq hw h = ata_wait_loop hw (\<lambda>status. status AND 0x08 = 0) ATA_TIMEOUT h"

text \<open>The two waits of \<open>ata_read_sector_ex\<close>; on success they give the polls that are left.\<close>

primrec ata_read_idle :: "'h hw \<Rightarrow> nat \<Rightarrow> 'h \<Rightarrow> (disk_rc + nat) \<times> 'h" where
  "ata_read_idle hw 0 h = (Inl DISK_IO_ERR_TIMEOUT, h)"
| "ata_read_idle hw (Suc n) h =
     (let (status, h1) = inb hw PORT_COMMAND h in
      if status = 0xFF then (Inl DISK_IO_ERR_NO_DEVICE, h1)
      else if status AND STATUS_BSY = 0 then (Inr (Suc n), h1)
      else ata_read_idle hw n h1)"

primrec ata_read_drq :: "'h hw \<Rightarrow> nat \<Rightarrow> 'h \<Rightarrow> (disk_rc + nat) \<times> 'h" where
  "ata_read_drq hw 0 h = (Inl DISK_IO_ERR_TIMEOUT, h)"
| "ata_read_drq hw (Suc n) h =
     (let (status, h1) = inb hw PORT_COMMAND h in
      if status AND 0x01 \<noteq> 0 then (Inl DISK_IO_ERR_NO_DEVICE, h1)
      else if status AND 0x08 \<noteq> 0 then (Inr (Suc n), h1)
      else ata_read_drq hw n h1)"

primrec ata_read_words :: "'h hw \<Rightarrow> nat \<Rightarrow> 'h \<Rightarrow> sector \<times> 'h" where
  "ata_read_words hw 0 h = ([], h)"
| "ata_read_words hw (Suc n) h =
     (let (w, h1) = inw hw PORT_DATA h; (ws, h2) = ata_read_words hw n h1 in (w # ws, h2))"

definition ata_write_words :: "'h hw \<Rightarrow> sector \<Rightarrow> 'h \<Rightarrow> 'h" where
  "ata_write_words hw ws h = fold (outw hw PORT_DATA) ws h"

text \<open>Selecting the sector: 28 bits of the block address go to the task file registers.\<close>

definition ata_select :: "'h hw \<Rightarrow> u32 \<Rightarrow> 'h \<Rightarrow> 'h" where
  "ata_select hw lba h =
     outb hw PORT_LBA_HIGH (ucast (drop_bit 16 lba AND 0xFF))
      (outb hw PORT_LBA_MID (ucast (drop_bit 8 lba AND 0xFF))
       (outb hw PORT_LBA_LOW (ucast (lba AND 0xFF))
        (outb hw PORT_SECCOUNT 1
         (outb hw PORT_DEVICE (ucast (0xE0 OR (drop_bit 24 lba AND 0x0F))) h))))"

definition ata_read_sector_ex :: "'h hw \<Rightarrow> u32 \<Rightarrow> sector option \<Rightarrow> 'h disk \<Rightarrow> disk_rc \<times> sector option \<times> 'h disk" where
  "ata_read_sector_ex hw lba buffer d =
     (if \<not> ata_disk_available d \<or> buffer = None then (DISK_IO_ERR_NO_DEVICE, buffer, d)
      else case ata_read_idle hw ATA_TIMEOUT (hwst d) of
        (Inl rc, h) \<Rightarrow> (rc, buffer, d\<lparr>hwst := h\<rparr>)
      | (Inr timeout, h) \<Rightarrow>
          (case ata_read_drq hw timeout (outb hw PORT_COMMAND CMD_READ (ata_select hw lba h)) of
             (Inl rc, h1) \<Rightarrow> (rc, buffer, d\<lparr>hwst := h1\<rparr>)
           | (Inr _, h1) \<Rightarrow> let (ws, h2) = ata_read_words hw 256 h1 in (DISK_IO_OK, Some ws, d\<lparr>hwst := h2\<rparr>)))"

text \<open>The tail of \<open>disk_write_sector_uncached\<close>: the PIO write followed by a cache flush.\<close>

definition ata_write_sector :: "'h hw \<Rightarrow> u32 \<Rightarrow> sector \<Rightarrow> 'h \<Rightarrow> 'h" where
  "ata_write_sector hw lba ws h =
     ata_wait_ready hw (outb hw PORT_COMMAND 0xE7 (ata_write_words hw ws
       (ata_wait_drq hw (outb hw PORT_COMMAND CMD_WRITE (ata_select hw lba (ata_wait_ready hw h))))))"

section \<open>The AHCI backend\<close>

primrec ahci_reset_ports :: "'h hw \<Rightarrow> ahci_probe \<Rightarrow> nat list \<Rightarrow> 'h \<Rightarrow> bool \<times> 'h" where
  "ahci_reset_ports hw r [] h = (False, h)"
| "ahci_reset_ports hw r (p # ps) h =
     (if \<not> implemented (ports r ! p) then ahci_reset_ports hw r ps h
      else let (ok, h1) = ahci_port_reset_and_start hw p h in
        if ok then (True, h1) else ahci_reset_ports hw r ps h1)"

definition ahci_reset_first_available_port :: "'h hw \<Rightarrow> 'h \<Rightarrow> bool \<times> 'h" where
  "ahci_reset_first_available_port hw h =
     (case ahci_get_runtime_report hw h of
        (None, h1) \<Rightarrow> (False, h1)
      | (Some r, h1) \<Rightarrow> if \<not> controller_found r \<or> implemented_ports r = 0 then (False, h1)
                        else ahci_reset_ports hw r [0..<AHCI_MAX_PORTS] h1)"

text \<open>The attempts on one port: \<open>Some rc\<close> returns from the function, \<open>None\<close> goes on with the next port.\<close>

primrec ahci_read_attempts :: "'h hw \<Rightarrow> nat \<Rightarrow> u32 \<Rightarrow> nat \<Rightarrow> sector \<Rightarrow> 'h \<Rightarrow> disk_rc option \<times> sector \<times> 'h" where
  "ahci_read_attempts hw p lba 0 b h = (None, b, h)"
| "ahci_read_attempts hw p lba (Suc n) b h =
     (let (rc, b1, h1) = ahci_read_sector hw p lba b h in
      if rc = AHCI_READ_OK then (Some DISK_IO_OK, b1, h1)
      else if rc = AHCI_READ_ERR_TIMEOUT \<or> rc = AHCI_READ_ERR_TFES
      then ahci_read_attempts hw p lba n b1 (snd (ahci_port_reset_and_start hw p h1))
      else if rc = AHCI_READ_ERR_NO_READY_PORT then (None, b1, h1)
      else (Some DISK_IO_ERR_NO_DEVICE, b1, h1))"

definition port_usable :: "ahci_probe \<Rightarrow> nat \<Rightarrow> bool" where
  "port_usable r p \<longleftrightarrow> implemented (ports r ! p) \<and> ready (ports r ! p) \<and> sata (ports r ! p)"

primrec ahci_read_ports :: "'h hw \<Rightarrow> ahci_probe \<Rightarrow> u32 \<Rightarrow> nat list \<Rightarrow> sector \<Rightarrow> 'h \<Rightarrow> disk_rc \<times> sector \<times> 'h" where
  "ahci_read_ports hw r lba [] b h = (DISK_IO_ERR_NO_READY_PORT, b, h)"
| "ahci_read_ports hw r lba (p # ps) b h =
     (if \<not> port_usable r p then ahci_read_ports hw r lba ps b h
      else case ahci_read_attempts hw p lba DISK_READ_RETRY_COUNT b h of
        (Some rc, b1, h1) \<Rightarrow> (rc, b1, h1)
      | (None, b1, h1) \<Rightarrow> ahci_read_ports hw r lba ps b1 h1)"

definition ahci_read_sector_ex :: "'h hw \<Rightarrow> u32 \<Rightarrow> sector option \<Rightarrow> 'h disk \<Rightarrow> disk_rc \<times> sector option \<times> 'h disk" where
  "ahci_read_sector_ex hw lba buffer d = (case buffer of
     None \<Rightarrow> (DISK_IO_ERR_UNSUPPORTED, None, d)
   | Some b \<Rightarrow> (case ahci_get_runtime_report hw (hwst d) of
       (None, h) \<Rightarrow> (DISK_IO_ERR_NO_READY_PORT, buffer, d\<lparr>hwst := h\<rparr>)
     | (Some r, h) \<Rightarrow>
         if \<not> controller_found r \<or> ready_ports r = 0 then (DISK_IO_ERR_NO_READY_PORT, buffer, d\<lparr>hwst := h\<rparr>)
         else let (rc, b1, h1) = ahci_read_ports hw r lba [0..<AHCI_MAX_PORTS] b h
              in (rc, Some b1, d\<lparr>hwst := h1\<rparr>)))"

primrec ahci_write_attempts :: "'h hw \<Rightarrow> nat \<Rightarrow> u32 \<Rightarrow> nat \<Rightarrow> sector \<Rightarrow> 'h \<Rightarrow> disk_rc option \<times> 'h" where
  "ahci_write_attempts hw p lba 0 b h = (None, h)"
| "ahci_write_attempts hw p lba (Suc n) b h =
     (let (rc, h1) = ahci_write_sector hw p lba b h in
      if rc = AHCI_READ_OK then (Some DISK_IO_OK, h1)
      else if rc = AHCI_READ_ERR_TIMEOUT \<or> rc = AHCI_READ_ERR_TFES
      then ahci_write_attempts hw p lba n b (snd (ahci_port_reset_and_start hw p h1))
      else if rc = AHCI_READ_ERR_NO_READY_PORT then (None, h1)
      else (Some DISK_IO_ERR_NO_DEVICE, h1))"

primrec ahci_write_ports :: "'h hw \<Rightarrow> ahci_probe \<Rightarrow> u32 \<Rightarrow> nat list \<Rightarrow> sector \<Rightarrow> 'h \<Rightarrow> disk_rc \<times> 'h" where
  "ahci_write_ports hw r lba [] b h = (DISK_IO_ERR_NO_READY_PORT, h)"
| "ahci_write_ports hw r lba (p # ps) b h =
     (if \<not> port_usable r p then ahci_write_ports hw r lba ps b h
      else case ahci_write_attempts hw p lba DISK_READ_RETRY_COUNT b h of
        (Some rc, h1) \<Rightarrow> (rc, h1)
      | (None, h1) \<Rightarrow> ahci_write_ports hw r lba ps b h1)"

definition ahci_write_sector_ex :: "'h hw \<Rightarrow> u32 \<Rightarrow> sector option \<Rightarrow> 'h \<Rightarrow> disk_rc \<times> 'h" where
  "ahci_write_sector_ex hw lba buffer h0 = (case buffer of
     None \<Rightarrow> (DISK_IO_ERR_UNSUPPORTED, h0)
   | Some b \<Rightarrow> (case ahci_get_runtime_report hw h0 of
       (None, h) \<Rightarrow> (DISK_IO_ERR_NO_READY_PORT, h)
     | (Some r, h) \<Rightarrow>
         if \<not> controller_found r \<or> ready_ports r = 0 then (DISK_IO_ERR_NO_READY_PORT, h)
         else ahci_write_ports hw r lba [0..<AHCI_MAX_PORTS] b h))"

section \<open>Reading and writing a sector\<close>

text \<open>An AHCI write with the driver's second try after a port reset.\<close>

definition ahci_write_retry :: "'h hw \<Rightarrow> u32 \<Rightarrow> sector option \<Rightarrow> 'h \<Rightarrow> disk_rc \<times> 'h" where
  "ahci_write_retry hw lba buffer h =
     (let (rc, h1) = ahci_write_sector_ex hw lba buffer h in
      if rc = DISK_IO_OK then (rc, h1)
      else if rc = DISK_IO_ERR_TIMEOUT \<or> rc = DISK_IO_ERR_TFES
      then ahci_write_sector_ex hw lba buffer (snd (ahci_reset_first_available_port hw h1))
      else (rc, h1))"

definition bump_uncached_writes :: "'h disk \<Rightarrow> 'h disk" where
  "bump_uncached_writes d = d\<lparr>disk_io_stats := (disk_io_stats d)\<lparr>uncached_writes := uncached_writes (disk_io_stats d) + 1\<rparr>\<rparr>"

definition bump_uncached_reads :: "'h disk \<Rightarrow> 'h disk" where
  "bump_uncached_reads d = d\<lparr>disk_io_stats := (disk_io_stats d)\<lparr>uncached_reads := uncached_reads (disk_io_stats d) + 1\<rparr>\<rparr>"

definition disk_write_sector_uncached :: "'h hw \<Rightarrow> u32 \<Rightarrow> sector option \<Rightarrow> 'h disk \<Rightarrow> 'h disk" where
  "disk_write_sector_uncached hw lba buffer d0 =
     (let d = bump_uncached_writes d0 in
      case buffer of None \<Rightarrow> disk_note_error DISK_IO_ERR_UNSUPPORTED True d
      | Some ws \<Rightarrow>
        let pref = disk_preferred_backend d in
        if pref = DISK_BACKEND_AHCI \<or> pref = DISK_BACKEND_AUTO
        then let (rc, h) = ahci_write_retry hw lba buffer (hwst d); d1 = d\<lparr>hwst := h\<rparr> in
          if rc = DISK_IO_OK then d1
          else if \<not> ata_disk_available d1 then disk_note_error rc True d1
          else d1\<lparr>hwst := ata_write_sector hw lba ws (hwst d1)\<rparr>
        else if \<not> ata_disk_available d then disk_note_error DISK_IO_ERR_NO_DEVICE True d
        else d\<lparr>hwst := ata_write_sector hw lba ws (hwst d)\<rparr>)"

definition disk_read_sector_backend ::
  "'h hw \<Rightarrow> u32 \<Rightarrow> sector option \<Rightarrow> u8 \<Rightarrow> 'h disk \<Rightarrow> disk_rc \<times> sector option \<times> 'h disk" where
  "disk_read_sector_backend hw lba buffer backend d =
     (if backend = DISK_BACKEND_ATA then ata_read_sector_ex hw lba buffer d
      else if backend = DISK_BACKEND_AHCI then ahci_read_sector_ex hw lba buffer d
      else (DISK_IO_ERR_UNSUPPORTED, buffer, d))"

definition note_read :: "disk_rc \<times> sector option \<times> 'h disk \<Rightarrow> disk_rc \<times> sector option \<times> 'h disk" where
  "note_read = (\<lambda>(rc, b, d). (rc, b, if rc \<noteq> DISK_IO_OK then disk_note_error rc False d else d))"

text \<open>The ATA attempts of the AUTO backend, with the result code of the last one.\<close>

primrec ata_read_attempts ::
  "'h hw \<Rightarrow> u32 \<Rightarrow> nat \<Rightarrow> disk_rc \<Rightarrow> sector option \<Rightarrow> 'h disk \<Rightarrow> disk_rc \<times> sector option \<times> 'h disk" where
  "ata_read_attempts hw lba 0 rc b d = (rc, b, disk_note_error rc False d)"
| "ata_read_attempts hw lba (Suc n) rc b d =
     (let (rc1, b1, d1) = ata_read_sector_ex hw lba b d in
      if rc1 = DISK_IO_OK then (DISK_IO_OK, b1, d1) else ata_read_attempts hw lba n rc1 b1 d1)"

definition disk_read_sector_uncached ::
  "'h hw \<Rightarrow> u32 \<Rightarrow> sector option \<Rightarrow> 'h disk \<Rightarrow> disk_rc \<times> sector option \<times> 'h disk" where
  "disk_read_sector_uncached hw lba buffer d0 =
     (let d = bump_uncached_reads d0 in
      if disk_preferred_backend d = DISK_BACKEND_ATA then note_read (ata_read_sector_ex hw lba buffer d)
      else if disk_preferred_backend d = DISK_BACKEND_AHCI then note_read (ahci_read_sector_ex hw lba buffer d)
      else let (rc, b1, d1) = ahci_read_sector_ex hw lba buffer d in
        if rc = DISK_IO_OK then (DISK_IO_OK, b1, d1)
        else let (rc2, b2, d2) =
                 (if rc = DISK_IO_ERR_TIMEOUT \<or> rc = DISK_IO_ERR_TFES
                  then ahci_read_sector_ex hw lba b1 (d1\<lparr>hwst := snd (ahci_reset_first_available_port hw (hwst d1))\<rparr>)
                  else (rc, b1, d1))
             in if rc2 = DISK_IO_OK then (DISK_IO_OK, b2, d2)
                else if ata_disk_available d2
                then ata_read_attempts hw lba DISK_READ_RETRY_COUNT DISK_IO_ERR_TIMEOUT b2 d2
                else (rc2, b2, disk_note_error rc2 False d2))"

definition disk_read_sector_ex ::
  "'h hw \<Rightarrow> u32 \<Rightarrow> sector option \<Rightarrow> 'h disk \<Rightarrow> disk_rc \<times> sector option \<times> 'h disk" where
  "disk_read_sector_ex hw lba buffer d = disk_read_sector_uncached hw lba buffer d"

section \<open>Geometry and health\<close>

record disk_geometry =
  total_sectors_low :: u32
  total_sectors_high :: u32
  sector_size :: u32
  geo_backend :: u8
  geo_model :: string

definition copy_text :: "string \<Rightarrow> nat \<Rightarrow> string" where
  "copy_text src cap = copy_loop (cap - 1) src"

definition disk_get_geometry :: "'h hw \<Rightarrow> 'h disk \<Rightarrow> (bool \<times> disk_geometry) \<times> 'h disk" where
  "disk_get_geometry hw d =
     (let g0 = \<lparr>total_sectors_low = 0, total_sectors_high = 0, sector_size = 512,
                geo_backend = disk_preferred_backend d, geo_model = ''''\<rparr>;
          (info, h) = ahci_identify_first_ready hw (hwst d); d1 = d\<lparr>hwst := h\<rparr>;
          fallback = (if ata_disk_available d1
             then ((True, g0\<lparr>geo_backend := DISK_BACKEND_ATA, geo_model := copy_text ''ATA-LEGACY'' 41\<rparr>), d1)
             else ((False, g0\<lparr>geo_model := copy_text ''NO-DISK'' 41\<rparr>), d1))
      in case info of
           Some i \<Rightarrow> if id_success i
             then ((True, g0\<lparr>geo_backend := DISK_BACKEND_AHCI, total_sectors_low := lba48_sectors_low i,
                      total_sectors_high := lba48_sectors_high i, geo_model := copy_text (id_model i) 41\<rparr>), d1)
             else fallback
         | None \<Rightarrow> fallback)"

record disk_health =
  hl_available :: bool
  hl_backend :: u8
  hl_preferred_backend :: u8
  ahci_ready_ports :: nat
  smart_supported :: bool
  smart_enabled :: bool
  temperature_c :: u32
  life_percent :: u32
  read_error_count :: u32
  write_error_count :: u32
  last_error_code :: disk_rc

definition disk_get_health :: "'h hw \<Rightarrow> 'h disk \<Rightarrow> (bool \<times> disk_health) \<times> 'h disk" where
  "disk_get_health hw d =
     (let i0 = \<lparr>hl_available = False, hl_backend = DISK_BACKEND_AUTO, hl_preferred_backend = disk_preferred_backend d,
                ahci_ready_ports = 0, smart_supported = False, smart_enabled = False, temperature_c = 0,
                life_percent = 100, read_error_count = disk_read_errors d, write_error_count = disk_write_errors d,
                last_error_code = disk_last_error d\<rparr>;
          (rep, h1) = ahci_get_runtime_report hw (hwst d);
          i1 = (case rep of
                  Some r \<Rightarrow> if controller_found r
                    then (if ready_ports r > 0
                          then i0\<lparr>ahci_ready_ports := ready_ports r, hl_available := True, hl_backend := DISK_BACKEND_AHCI\<rparr>
                          else i0\<lparr>ahci_ready_ports := ready_ports r\<rparr>)
                    else i0
                | None \<Rightarrow> i0);
          (ident, h2) = ahci_identify_first_ready hw h1;
          i2 = (case ident of
                  Some i \<Rightarrow> if id_success i
                    then i1\<lparr>hl_available := True, hl_backend := DISK_BACKEND_AHCI,
                            smart_supported := id_smart_supported i, smart_enabled := id_smart_enabled i\<rparr>
                    else if ata_disk_available d
                    then i1\<lparr>hl_available := True,
                            hl_backend := (if hl_backend i1 = DISK_BACKEND_AUTO then DISK_BACKEND_ATA else hl_backend i1)\<rparr>
                    else i1
                | None \<Rightarrow> if ata_disk_available d
                    then i1\<lparr>hl_available := True,
                            hl_backend := (if hl_backend i1 = DISK_BACKEND_AUTO then DISK_BACKEND_ATA else hl_backend i1)\<rparr>
                    else i1)
      in ((hl_available i2, i2), d\<lparr>hwst := h2\<rparr>))"

section \<open>Batches\<close>

record batch_req =
  rq_lba :: u32
  rq_buffer :: "sector option"
  rq_write :: bool
  rq_result :: disk_rc

text \<open>
  \<open>order\<close> is an array of indices; an element that was never assigned is \<open>None\<close>, and using it makes the whole
  batch undefined, which is the result \<open>None\<close>. The inner loop of the insertion sort runs \<open>j\<close> down.
\<close>

primrec sort_shift :: "(nat \<Rightarrow> u32) \<Rightarrow> nat \<Rightarrow> nat \<Rightarrow> nat option list \<Rightarrow> nat option list option" where
  "sort_shift key_of key 0 order = Some (order[0 := Some key])"
| "sort_shift key_of key (Suc j) order =
     (case order ! j of
        None \<Rightarrow> None
      | Some k \<Rightarrow> if key_of k > key_of key then sort_shift key_of key j (order[Suc j := order ! j])
                  else Some (order[Suc j := Some key]))"

primrec sort_loop :: "(nat \<Rightarrow> u32) \<Rightarrow> nat list \<Rightarrow> nat option list \<Rightarrow> nat option list option" where
  "sort_loop key_of [] order = Some order"
| "sort_loop key_of (i # is) order =
     (case order ! i of
        None \<Rightarrow> None
      | Some key \<Rightarrow> (case sort_shift key_of key i order of
            None \<Rightarrow> None | Some order' \<Rightarrow> sort_loop key_of is order'))"

definition batch_one :: "'h hw \<Rightarrow> nat \<Rightarrow> nat \<Rightarrow> batch_req list \<times> u32 \<times> 'h disk \<Rightarrow> batch_req list \<times> u32 \<times> 'h disk" where
  "batch_one hw pos idx = (\<lambda>(reqs, processed, d).
     let q = reqs ! idx in
     if rq_buffer q = None then (reqs, processed, d)
     else let (rc, b, d1) = (if rq_write q then (DISK_IO_OK, rq_buffer q, disk_write_sector_uncached hw (rq_lba q) (rq_buffer q) d)
                             else disk_read_sector_uncached hw (rq_lba q) (rq_buffer q) d);
              st = (disk_sched_stats d1)\<lparr>last_lba := rq_lba q\<rparr>;
              st' = (if idx \<noteq> pos then st\<lparr>reordered_requests := reordered_requests st + 1\<rparr> else st)
          in (reqs[idx := q\<lparr>rq_buffer := b, rq_result := rc\<rparr>], processed + 1, d1\<lparr>disk_sched_stats := st'\<rparr>))"

primrec batch_run :: "'h hw \<Rightarrow> nat \<Rightarrow> nat option list \<Rightarrow> batch_req list \<times> u32 \<times> 'h disk \<Rightarrow> (batch_req list \<times> u32 \<times> 'h disk) option" where
  "batch_run hw pos [] st = Some st"
| "batch_run hw pos (x # xs) st =
     (case x of None \<Rightarrow> None | Some idx \<Rightarrow> batch_run hw (Suc pos) xs (batch_one hw pos idx st))"

definition disk_process_batch ::
  "'h hw \<Rightarrow> batch_req list option \<Rightarrow> nat \<Rightarrow> 'h disk \<Rightarrow> (u32 \<times> batch_req list option \<times> 'h disk) option" where
  "disk_process_batch hw reqs_opt count0 d = (case reqs_opt of
     None \<Rightarrow> Some (0, None, d)
   | Some reqs0 \<Rightarrow>
       if count0 = 0 then Some (0, Some reqs0, d)
       else let count = (if count0 > 64 then 64 else count0);
                reqs = map (\<lambda>q. q\<lparr>rq_result := DISK_IO_ERR_UNSUPPORTED\<rparr>) (take count reqs0) @ drop count reqs0;
                order0 = map (\<lambda>i. if rq_buffer (reqs ! i) = None then None else Some i) [0..<count]
            in case sort_loop (\<lambda>i. rq_lba (reqs ! i)) [1..<count] order0 of
                 None \<Rightarrow> None
               | Some order \<Rightarrow> (case batch_run hw 0 order (reqs, 0, d) of
                     None \<Rightarrow> None
                   | Some (reqs', processed, d') \<Rightarrow>
                       let st = disk_sched_stats d';
                           st' = st\<lparr>batches := batches st + 1, requests := requests st + processed,
                                    max_batch_depth := (if of_nat count > max_batch_depth st then of_nat count else max_batch_depth st)\<rparr>
                       in Some (processed, Some reqs', d'\<lparr>disk_sched_stats := st'\<rparr>)))"

section \<open>The snapshot directory\<close>

abbreviation TFS_MAX_FILES :: nat where "TFS_MAX_FILES \<equiv> 25"

record file_entry =
  fe_name :: string
  fe_lba :: u32
  fe_size :: u32
  fe_flags :: u32

definition find_free_slot :: "file_entry list \<Rightarrow> int" where
  "find_free_slot dir = (case find_slot (\<lambda>e. fe_flags e = 0) (take TFS_MAX_FILES dir) of Some i \<Rightarrow> int i | None \<Rightarrow> -1)"

section \<open>The insertion sort\<close>

lemma sort_shift_mset:
  "sort_shift key_of key j order = Some o' \<Longrightarrow> j < length order \<Longrightarrow>
   length o' = length order \<and> mset o' = mset (order[j := Some key])"
proof (induction j arbitrary: order)
  case 0
  then show ?case by auto
next
  case (Suc j)
  then obtain k where k: "order ! j = Some k" by (auto split: option.splits)
  show ?case
  proof (cases "key_of k > key_of key")
    case True
    let ?o = "order[Suc j := order ! j]"
    have IH: "length o' = length ?o \<and> mset o' = mset (?o[j := Some key])"
      by (rule Suc.IH) (use Suc.prems k True in auto)
    let ?l = "order[Suc j := Some key]"
    have "?o[j := Some key] = ?l[Suc j := ?l ! j, j := ?l ! Suc j]" using Suc.prems(2) by simp
    then have "mset (?o[j := Some key]) = mset ?l" using Suc.prems(2) mset_swap [of "Suc j" ?l j]
      by (metis Suc_lessD length_list_update mset_swap)
    with IH show ?thesis by simp
  next
    case False
    with Suc.prems k show ?thesis by auto
  qed
qed

lemma sort_loop_mset:
  "sort_loop key_of is order = Some o' \<Longrightarrow> (\<forall>i \<in> set is. i < length order) \<Longrightarrow>
   length o' = length order \<and> mset o' = mset order"
proof (induction "is" arbitrary: order)
  case Nil
  then show ?case by simp
next
  case (Cons i "is")
  then obtain key o1 where k: "order ! i = Some key" "sort_shift key_of key i order = Some o1" "sort_loop key_of is o1 = Some o'"
    by (auto split: option.splits)
  have s: "length o1 = length order" "mset o1 = mset (order[i := Some key])"
    using sort_shift_mset [OF k(2)] Cons.prems(2) by auto
  have "order[i := Some key] = order" using k(1) by (metis list_update_id)
  with s Cons.IH [OF k(3)] Cons.prems(2) show ?case by simp
qed

text \<open>On a prefix whose entries are all assigned, one round inserts the key behind the last entry that is not larger.\<close>

fun insd :: "(nat \<Rightarrow> u32) \<Rightarrow> nat \<Rightarrow> nat list \<Rightarrow> nat list" where
  "insd f k [] = [k]"
| "insd f k (x # xs) = (if f x > f k then x # insd f k xs else k # x # xs)"

definition ins_right :: "(nat \<Rightarrow> u32) \<Rightarrow> nat \<Rightarrow> nat list \<Rightarrow> nat list" where
  "ins_right f k xs = rev (insd f k (rev xs))"

lemma ins_right_snoc: "ins_right f k (xs @ [x]) = (if f x > f k then ins_right f k xs @ [x] else xs @ [x, k])"
  by (simp add: ins_right_def)

lemma ins_right_Nil [simp]: "ins_right f k [] = [k]"
  by (simp add: ins_right_def)

lemma set_ins_right: "set (ins_right f k xs) = insert k (set xs)"
  by (induction xs rule: rev_induct) (auto simp: ins_right_snoc)

lemma sorted_ins_right: "sorted (map f xs) \<Longrightarrow> sorted (map f (ins_right f k xs))"
proof (induction xs rule: rev_induct)
  case Nil
  then show ?case by simp
next
  case (snoc x xs)
  then have s: "sorted (map f xs)" "\<forall>y \<in> set xs. f y \<le> f x" by (auto simp: sorted_append)
  show ?case
    using snoc.IH [OF s(1)] snoc.prems s(2)
    by (auto simp: ins_right_snoc sorted_append set_ins_right not_less intro: less_imp_le order_trans)
qed

text \<open>Requests for one sector keep their order.\<close>

lemma ins_right_stable: "filter (\<lambda>i. f i = v) (ins_right f k xs) = filter (\<lambda>i. f i = v) (xs @ [k])"
  if "sorted (map f xs)"
  using that
proof (induction xs rule: rev_induct)
  case Nil
  then show ?case by simp
next
  case (snoc x xs)
  then have "sorted (map f xs)" by (simp add: sorted_append)
  from snoc.IH [OF this] show ?case by (auto simp: ins_right_snoc)
qed

lemma sort_shift_ins:
  "j < length order \<Longrightarrow> take j order = map Some xs \<Longrightarrow>
   \<exists>o'. sort_shift key_of key j order = Some o' \<and> length o' = length order \<and>
     take (Suc j) o' = map Some (ins_right key_of key xs) \<and> drop (Suc j) o' = drop (Suc j) order"
proof (induction j arbitrary: order xs)
  case 0
  then show ?case by (cases order) auto
next
  case (Suc j)
  have "take (Suc j) order = take j order @ [order ! j]" using Suc.prems(1) by (simp add: take_Suc_conv_app_nth)
  with Suc.prems(2) obtain ys x where x: "xs = ys @ [x]" "take j order = map Some ys" "order ! j = Some x"
    by (metis (no_types, lifting) append_butlast_last_id butlast_snoc last_map last_snoc list.map_disc_iff map_butlast snoc_eq_iff_butlast)
  show ?case
  proof (cases "key_of x > key_of key")
    case True
    let ?o = "order[Suc j := order ! j]"
    obtain o' where o: "sort_shift key_of key j ?o = Some o'" "length o' = length order"
      "take (Suc j) o' = map Some (ins_right key_of key ys)" "drop (Suc j) o' = drop (Suc j) ?o"
      using Suc.IH [of ?o ys] Suc.prems(1) x(2) by auto
    have "o' ! Suc j = ?o ! Suc j" using o(2,4) Suc.prems(1)
      by (metis (no_types, lifting) Cons_nth_drop_Suc length_list_update list.inject)
    then have "o' ! Suc j = Some x" using Suc.prems(1) x(3) by simp
    then have "take (Suc (Suc j)) o' = map Some (ins_right key_of key xs)"
      using o(2,3) Suc.prems(1) True x(1) by (simp add: take_Suc_conv_app_nth ins_right_snoc)
    moreover have "drop (Suc (Suc j)) o' = drop (Suc (Suc j)) order"
      using arg_cong [OF o(4), of "drop 1"] by (simp add: drop_update_cancel)
    ultimately show ?thesis using o(1,2) True x(3) by auto
  next
    case False
    have "take (Suc (Suc j)) (order[Suc j := Some key]) = map Some (xs @ [key])"
      using Suc.prems by (simp add: take_Suc_conv_app_nth [of "Suc j"])
    with False x Suc.prems(1) show ?thesis by (auto simp: ins_right_snoc)
  qed
qed

lemma sort_loop_ins:
  assumes "\<And>i. i \<in> set is \<Longrightarrow> i < n" "is = [m..<n]" "m \<le> n" "0 < m" "length order = n"
    "take m order = map Some xs" "drop m order = map Some [m..<n]" "sorted (map f xs)"
    "\<And>v. filter (\<lambda>i. f i = v) xs = filter (\<lambda>i. f i = v) [0..<m]"
  shows "\<exists>ys. sort_loop f is order = Some (map Some ys) \<and> sorted (map f ys) \<and>
    (\<forall>v. filter (\<lambda>i. f i = v) ys = filter (\<lambda>i. f i = v) [0..<n])"
  using assms
proof (induction "is" arbitrary: m order xs)
  case Nil
  then have mn: "m = n" by simp
  with Nil.prems(5,6) have "order = map Some xs" by simp
  with mn Nil.prems(8,9) show ?case by auto
next
  case (Cons i is')
  have mn: "m < n" using Cons.prems(2) by (metis list.distinct(1) upt_eq_Nil_conv linorder_not_le)
  then have i: "i = m" "is' = [Suc m..<n]" using Cons.prems(2) by (simp_all add: upt_conv_Cons)
  have "order ! m = drop m order ! 0" using Cons.prems(5) mn by simp
  then have om: "order ! m = Some m" using Cons.prems(7) mn by simp
  obtain o' where o: "sort_shift f m m order = Some o'" "length o' = length order"
      "take (Suc m) o' = map Some (ins_right f m xs)" "drop (Suc m) o' = drop (Suc m) order"
    using sort_shift_ins [of m order xs f m] Cons.prems(5,6) mn by blast
  have "drop (Suc m) order = tl (drop m order)" by (simp add: drop_Suc tl_drop)
  then have d: "drop (Suc m) o' = map Some [Suc m..<n]"
    using o(4) Cons.prems(7) mn by (simp add: upt_conv_Cons)
  have fl: "filter (\<lambda>i. f i = v) (ins_right f m xs) = filter (\<lambda>i. f i = v) [0..<Suc m]" for v
    using ins_right_stable [OF Cons.prems(8)] Cons.prems(9) [of v] by simp
  have IH: "\<exists>ys. sort_loop f is' o' = Some (map Some ys) \<and> sorted (map f ys) \<and>
    (\<forall>v. filter (\<lambda>i. f i = v) ys = filter (\<lambda>i. f i = v) [0..<n])"
    by (rule Cons.IH [of "Suc m" o' "ins_right f m xs"])
      (use Cons.prems(1,5) mn i o d sorted_ins_right [OF Cons.prems(8)] fl in auto)
  show ?case using IH by (simp add: i(1) om o(1))
qed

text \<open>The whole sort on an order array that was fully assigned: a stable sort of the indices by block address.\<close>

lemma sort_order:
  assumes "0 < n"
  obtains ys where "sort_loop f [1..<n] (map Some [0..<n]) = Some (map Some ys)" "sorted (map f ys)"
    "mset ys = mset [0..<n]" "\<And>v. filter (\<lambda>i. f i = v) ys = filter (\<lambda>i. f i = v) [0..<n]"
proof -
  have d: "drop 1 (map Some [0..<n]) = map Some [1..<n]" using assms by (simp add: drop_map)
  have t: "take 1 (map Some [0..<n]) = map Some [0]" using assms by (simp add: take_map)
  obtain ys where ys: "sort_loop f [1..<n] (map Some [0..<n]) = Some (map Some ys)" "sorted (map f ys)"
    "\<forall>v. filter (\<lambda>i. f i = v) ys = filter (\<lambda>i. f i = v) [0..<n]"
    using sort_loop_ins [of "[1..<n]" n 1 "map Some [0..<n]" "[0]" f] assms d t by auto
  have "mset (map Some ys) = mset (map Some [0..<n])" using sort_loop_mset [OF ys(1)] assms by simp
  then have "image_mset the (image_mset Some (mset ys)) = image_mset the (image_mset Some (mset [0..<n]))" by simp
  then have "mset ys = mset [0..<n]" by (simp only: image_mset.compositionality comp_def option.sel image_mset.identity id_apply)
  with ys that show thesis by blast
qed

end
