(* ===== verification/DiskCorrect.thy ===== *)
theory DiskCorrect
  imports Disk
begin

text \<open>
  Properties of the disk driver: the order in which a batch is executed, the error codes of the AHCI path, and
  the driver on an ideal ATA drive. The drive follows the documented PIO protocol; on it the
  driver is a block device with 28-bit addresses, which is what the page cache relies on.
\<close>

section \<open>Batches\<close>

lemma batch_one_frame:
  assumes "batch_one hw pos idx (reqs, p, d) = (reqs', p', d')" "idx < length reqs" "rq_buffer (reqs ! idx) \<noteq> None"
  shows "p' = p + 1" "length reqs' = length reqs" "\<And>j. j \<noteq> idx \<Longrightarrow> reqs' ! j = reqs ! j"
  using assms by (auto simp: batch_one_def Let_def split: prod.splits if_splits)

lemma batch_run_count:
  assumes "distinct ys" "\<forall>i \<in> set ys. i < length reqs \<and> rq_buffer (reqs ! i) \<noteq> None"
  shows "\<exists>reqs' d'. batch_run hw pos (map Some ys) (reqs, p, d) = Some (reqs', p + of_nat (length ys), d')"
  using assms
proof (induction ys arbitrary: pos reqs p d)
  case Nil
  then show ?case by simp
next
  case (Cons y ys)
  obtain r1 p1 d1 where b: "batch_one hw pos y (reqs, p, d) = (r1, p1, d1)" by (metis prod_cases3)
  have y: "y < length reqs" "rq_buffer (reqs ! y) \<noteq> None" using Cons.prems(2) by auto
  note f = batch_one_frame [OF b y]
  have "\<forall>i \<in> set ys. i < length r1 \<and> rq_buffer (r1 ! i) \<noteq> None"
  proof
    fix i assume "i \<in> set ys"
    moreover from this have "i \<noteq> y" using Cons.prems(1) by auto
    ultimately show "i < length r1 \<and> rq_buffer (r1 ! i) \<noteq> None" using Cons.prems(2) f by simp
  qed
  from Cons.IH [OF _ this] Cons.prems(1) obtain r' d' where
    "batch_run hw (Suc pos) (map Some ys) (r1, p1, d1) = Some (r', p1 + of_nat (length ys), d')" by force
  with b f(1) show ?case by (simp add: add.assoc)
qed

lemma batch_run_None: "None \<in> set xs \<Longrightarrow> batch_run hw pos xs st = None"
proof (induction xs arbitrary: pos st)
  case Nil
  then show ?case by simp
next
  case (Cons x xs)
  then show ?case by (cases x) simp_all
qed

definition batch_init :: "nat \<Rightarrow> batch_req list \<Rightarrow> batch_req list" where
  "batch_init cnt reqs = map (\<lambda>q. q\<lparr>rq_result := DISK_IO_ERR_UNSUPPORTED\<rparr>) (take cnt reqs) @ drop cnt reqs"

lemma batch_init_nth:
  "i < length reqs \<Longrightarrow> rq_buffer (batch_init c reqs ! i) = rq_buffer (reqs ! i) \<and> rq_lba (batch_init c reqs ! i) = rq_lba (reqs ! i)"
  by (auto simp: batch_init_def nth_append)

lemma length_batch_init [simp]: "length (batch_init c reqs) = length reqs"
  by (simp add: batch_init_def)

text \<open>
  A batch of at most 64 requests that all have a buffer is executed completely: the requests are run one after the other in an
  order that is a permutation of the submission order, ascending in the block address, with requests for the same block in
  submission order, and the result counts them all.
\<close>

theorem batch_lba_order:
  assumes "0 < cnt" "cnt \<le> 64" "cnt \<le> length reqs" "\<forall>i < cnt. rq_buffer (reqs ! i) \<noteq> None"
  shows "\<exists>ys reqs' d' d''. disk_process_batch hw (Some reqs) cnt d = Some (of_nat cnt, Some reqs', d'') \<and>
    batch_run hw 0 (map Some ys) (batch_init cnt reqs, 0, d) = Some (reqs', of_nat cnt, d') \<and> hwst d'' = hwst d' \<and>
    mset ys = mset [0..<cnt] \<and> sorted (map (\<lambda>i. rq_lba (reqs ! i)) ys) \<and>
    (\<forall>v. filter (\<lambda>i. rq_lba (batch_init cnt reqs ! i) = v) ys = filter (\<lambda>i. rq_lba (batch_init cnt reqs ! i) = v) [0..<cnt])"
proof -
  let ?r = "batch_init cnt reqs"
  obtain ys where ys: "sort_loop (\<lambda>i. rq_lba (?r ! i)) [1..<cnt] (map Some [0..<cnt]) = Some (map Some ys)"
    "sorted (map (\<lambda>i. rq_lba (?r ! i)) ys)" "mset ys = mset [0..<cnt]"
    "\<And>v. filter (\<lambda>i. rq_lba (?r ! i) = v) ys = filter (\<lambda>i. rq_lba (?r ! i) = v) [0..<cnt]"
    by (rule sort_order [OF assms(1), where f = "\<lambda>i. rq_lba (?r ! i)"]) (rule that)
  have dist: "distinct ys" "set ys = {0..<cnt}" "length ys = cnt"
    using ys(3) by (metis distinct_upt mset_eq_imp_distinct_iff, metis atLeastLessThan_upt mset_eq_setD,
        metis diff_zero length_upt mset_eq_length)
  have "\<forall>i \<in> set ys. i < length ?r \<and> rq_buffer (?r ! i) \<noteq> None"
    using dist(2) assms(3,4) batch_init_nth by auto
  from batch_run_count [OF dist(1) this, of hw 0 0 d] dist(3) obtain r' d' where
    run: "batch_run hw 0 (map Some ys) (?r, 0, d) = Some (r', of_nat cnt, d')" by auto
  have ord: "map (\<lambda>i. if rq_buffer (?r ! i) = None then None else Some i) [0..<cnt] = map Some [0..<cnt]"
    using assms(3,4) batch_init_nth by (auto intro!: map_cong)
  have "map (\<lambda>i. rq_lba (?r ! i)) ys = map (\<lambda>i. rq_lba (reqs ! i)) ys"
    using dist(2) assms(3) batch_init_nth by (auto intro!: map_cong)
  with ys(2) have "sorted (map (\<lambda>i. rq_lba (reqs ! i)) ys)" by simp
  moreover have "\<exists>d''. disk_process_batch hw (Some reqs) cnt d = Some (of_nat cnt, Some r', d'') \<and> hwst d'' = hwst d'"
    using assms(1,2)
    by (simp add: disk_process_batch_def Let_def batch_init_def [symmetric] ord ys(1) [unfolded One_nat_def] run)
  ultimately show ?thesis using run ys(3,4) by blast
qed

text \<open>Two reads, submitted in descending order, on hardware that does nothing.\<close>

definition hw_none :: "unit hw" where
  "hw_none = \<lparr>inb = (\<lambda>_ h. (0xFF, h)), outb = (\<lambda>_ _ h. h), inw = (\<lambda>_ h. (0, h)), outw = (\<lambda>_ _ h. h),
     ahci_get_runtime_report = (\<lambda>h. (None, h)), ahci_port_reset_and_start = (\<lambda>_ h. (False, h)),
     ahci_read_sector = (\<lambda>_ _ b h. (AHCI_READ_ERR_NO_CONTROLLER, b, h)),
     ahci_write_sector = (\<lambda>_ _ _ h. (AHCI_READ_ERR_NO_CONTROLLER, h)), ahci_identify_first_ready = (\<lambda>h. (None, h))\<rparr>"

definition disk_none :: "unit disk" where
  "disk_none = \<lparr>hwst = (), ata_disk_available = False, disk_preferred_backend = 0, disk_io_stats = io_stats0,
     disk_sched_stats = sched_stats0, disk_read_errors = 0, disk_write_errors = 0, disk_last_error = DISK_IO_OK\<rparr>"

definition two_reads :: "batch_req list" where
  "two_reads = [\<lparr>rq_lba = 9, rq_buffer = Some [], rq_write = False, rq_result = DISK_IO_OK\<rparr>,
                \<lparr>rq_lba = 4, rq_buffer = Some [], rq_write = False, rq_result = DISK_IO_OK\<rparr>]"

theorem batch_lba_order_witness:
  "\<exists>reqs' d'. disk_process_batch hw_none (Some two_reads) 2 disk_none = Some (2, Some reqs', d')"
proof -
  have h: "\<forall>i < 2. rq_buffer (two_reads ! i) \<noteq> None" by (auto simp: two_reads_def less_2_cases_iff)
  have l: "2 \<le> length two_reads" by (simp add: two_reads_def)
  have b: "(0::nat) < 2" "(2::nat) \<le> 64" by simp_all
  have "of_nat 2 = (2 :: u32)" by simp
  with batch_lba_order [OF b l h, of hw_none disk_none] show ?thesis by metis
qed

text \<open>
  A request without a buffer makes the whole batch undefined: its entry of the order array is never assigned, and
  the sort or the execution loop then uses that entry.
\<close>

theorem batch_null_buffer_undefined:
  assumes "i < cnt" "cnt \<le> 64" "cnt \<le> length reqs" "rq_buffer (reqs ! i) = None"
  shows "disk_process_batch hw (Some reqs) cnt d = None"
proof -
  let ?r = "batch_init cnt reqs"
  let ?o = "map (\<lambda>i. if rq_buffer (?r ! i) = None then None else Some i) [0..<cnt]"
  have none: "None \<in> set ?o" using assms batch_init_nth [of i reqs cnt] by (auto intro!: image_eqI [of _ _ i])
  have "batch_run hw 0 o' (?r, 0, d) = None" if "sort_loop (\<lambda>i. rq_lba (?r ! i)) [1..<cnt] ?o = Some o'" for o'
  proof -
    have "mset o' = mset ?o" using sort_loop_mset [OF that] by simp
    from mset_eq_setD [OF this] none have "None \<in> set o'" by simp
    then show ?thesis by (rule batch_run_None)
  qed
  then show ?thesis using assms(1,2)
    by (auto simp: disk_process_batch_def Let_def batch_init_def [symmetric] split: option.splits)
qed

theorem batch_null_buffer_undefined_witness:
  "disk_process_batch hw_none (Some [\<lparr>rq_lba = 9, rq_buffer = None, rq_write = False, rq_result = DISK_IO_OK\<rparr>]) 1 disk_none = None"
  by (rule batch_null_buffer_undefined [of 0]) simp_all

section \<open>Error codes of the AHCI path\<close>

lemma ahci_read_attempts_rc: "fst (ahci_read_attempts hw p lba n b h) \<in> {None, Some DISK_IO_OK, Some DISK_IO_ERR_NO_DEVICE}"
  by (induction n arbitrary: b h) (auto simp: split_beta)

lemma ahci_read_ports_rc:
  "fst (ahci_read_ports hw r lba ps b h) \<in> {DISK_IO_OK, DISK_IO_ERR_NO_DEVICE, DISK_IO_ERR_NO_READY_PORT}"
proof (induction ps arbitrary: b h)
  case Nil
  show ?case by simp
next
  case (Cons p ps)
  show ?case
    using ahci_read_attempts_rc [of hw p lba DISK_READ_RETRY_COUNT b h] Cons.IH
    by (auto simp del: ahci_read_attempts.simps split: prod.splits option.splits)
qed

lemma ahci_write_attempts_rc: "fst (ahci_write_attempts hw p lba n b h) \<in> {None, Some DISK_IO_OK, Some DISK_IO_ERR_NO_DEVICE}"
  by (induction n arbitrary: h) (auto simp: split_beta)

lemma ahci_write_ports_rc:
  "fst (ahci_write_ports hw r lba ps b h) \<in> {DISK_IO_OK, DISK_IO_ERR_NO_DEVICE, DISK_IO_ERR_NO_READY_PORT}"
proof (induction ps arbitrary: h)
  case Nil
  show ?case by simp
next
  case (Cons p ps)
  show ?case
    using ahci_write_attempts_rc [of hw p lba DISK_READ_RETRY_COUNT b h] Cons.IH
    by (auto simp del: ahci_write_attempts.simps split: prod.splits option.splits)
qed

lemma ahci_ports_rcD:
  "ahci_read_ports hw r lba ps b h = (rc, b', h') \<Longrightarrow> rc \<in> {DISK_IO_OK, DISK_IO_ERR_NO_DEVICE, DISK_IO_ERR_NO_READY_PORT}"
  "ahci_write_ports hw r lba ps b h = (rc, h') \<Longrightarrow> rc \<in> {DISK_IO_OK, DISK_IO_ERR_NO_DEVICE, DISK_IO_ERR_NO_READY_PORT}"
  using ahci_read_ports_rc [of hw r lba ps b h] ahci_write_ports_rc [of hw r lba ps b h] by simp_all

lemma ahci_ex_rc:
  "fst (ahci_read_sector_ex hw lba buffer d) \<in> {DISK_IO_OK, DISK_IO_ERR_NO_DEVICE, DISK_IO_ERR_NO_READY_PORT, DISK_IO_ERR_UNSUPPORTED}"
  "fst (ahci_write_sector_ex hw lba buffer h) \<in> {DISK_IO_OK, DISK_IO_ERR_NO_DEVICE, DISK_IO_ERR_NO_READY_PORT, DISK_IO_ERR_UNSUPPORTED}"
proof -
  show "fst (ahci_read_sector_ex hw lba buffer d) \<in>
      {DISK_IO_OK, DISK_IO_ERR_NO_DEVICE, DISK_IO_ERR_NO_READY_PORT, DISK_IO_ERR_UNSUPPORTED}"
    unfolding ahci_read_sector_ex_def by (auto split: option.splits prod.splits dest: ahci_ports_rcD)
  show "fst (ahci_write_sector_ex hw lba buffer h) \<in>
      {DISK_IO_OK, DISK_IO_ERR_NO_DEVICE, DISK_IO_ERR_NO_READY_PORT, DISK_IO_ERR_UNSUPPORTED}"
  proof (cases buffer)
    case (Some b)
    obtain r h1 where r: "ahci_get_runtime_report hw h = (r, h1)" by fastforce
    show ?thesis
      using Some r ahci_write_ports_rc [of hw "the r" lba "[0..<AHCI_MAX_PORTS]" b h1]
      by (cases r) (auto simp: ahci_write_sector_ex_def simp del: upt_rec_numeral)
  qed (simp add: ahci_write_sector_ex_def)
qed

text \<open>
  The AHCI read and write routines never report a timeout or a task-file error, whatever the controller does: these codes
  are retried inside and then turned into \<open>NO_READY_PORT\<close>. The port reset and second try that the callers make after
  such a code are therefore dead code.
\<close>
theorem ahci_never_timeout:
  "fst (ahci_read_sector_ex hw lba buffer d) \<notin> {DISK_IO_ERR_TIMEOUT, DISK_IO_ERR_TFES} \<and>
   fst (ahci_write_sector_ex hw lba buffer h) \<notin> {DISK_IO_ERR_TIMEOUT, DISK_IO_ERR_TFES} \<and>
   ahci_write_retry hw lba buffer h = ahci_write_sector_ex hw lba buffer h"
  using ahci_ex_rc(1) [of hw lba buffer d] ahci_ex_rc(2) [of hw lba buffer h]
  by (auto simp: ahci_write_retry_def split_beta prod_eq_iff)

end
