(* ===== verification/PageCache.thy ===== *)
theory PageCache
  imports DiskCorrect
begin

text \<open>
  The sector cache of \<open>src/kernel/page_cache.c\<close> (32 lines, clock replacement, write back) and the cached
  entry points of \<open>src/kernel/disk.c\<close>. The device below it is reached through two operations, the arguments
  \<open>rd\<close> and \<open>wr\<close>; the locale \<open>block_device\<close> says what they promise, and inside it the cache is shown
  to behave as one flat array of sectors.
\<close>

section \<open>State and operations\<close>

abbreviation CACHE_LINES :: nat where "CACHE_LINES \<equiv> 32"

record cache_line =
  cl_valid :: bool
  cl_dirty :: bool
  cl_ref :: bool
  cl_lba :: u32
  cl_data :: sector

record page_cache_stats =
  read_hits :: u32
  read_misses :: u32
  write_hits :: u32
  write_misses :: u32
  evictions :: u32
  buffered_writes :: u32
  flush_writes :: u32
  dirty_lines :: u32

record 'd pcache =
  cache_lines :: "cache_line list"
  clock_hand :: nat
  cache_initialized :: bool
  cache_stats :: page_cache_stats
  pc_dev :: 'd

type_synonym 'd rd_op = "u32 \<Rightarrow> sector option \<Rightarrow> 'd \<Rightarrow> disk_rc \<times> sector option \<times> 'd"
type_synonym 'd wr_op = "u32 \<Rightarrow> sector option \<Rightarrow> 'd \<Rightarrow> 'd"

definition upd_line :: "nat \<Rightarrow> (cache_line \<Rightarrow> cache_line) \<Rightarrow> 'd pcache \<Rightarrow> 'd pcache" where
  "upd_line i f c = c\<lparr>cache_lines := (cache_lines c)[i := f (cache_lines c ! i)]\<rparr>"

definition upd_stats :: "(page_cache_stats \<Rightarrow> page_cache_stats) \<Rightarrow> 'd pcache \<Rightarrow> 'd pcache" where
  "upd_stats f c = c\<lparr>cache_stats := f (cache_stats c)\<rparr>"

definition find_line :: "u32 \<Rightarrow> 'd pcache \<Rightarrow> nat option" where
  "find_line lba c = find_slot (\<lambda>l. cl_valid l \<and> cl_lba l = lba) (cache_lines c)"

definition flush_line :: "'d wr_op \<Rightarrow> nat \<Rightarrow> 'd pcache \<Rightarrow> 'd pcache" where
  "flush_line wr idx c =
     (if idx \<ge> CACHE_LINES then c
      else let l = cache_lines c ! idx in
        if cl_valid l \<and> cl_dirty l
        then upd_stats (\<lambda>s. s\<lparr>flush_writes := flush_writes s + 1\<rparr>)
               (upd_line idx (\<lambda>l. l\<lparr>cl_dirty := False\<rparr>) (c\<lparr>pc_dev := wr (cl_lba l) (Some (cl_data l)) (pc_dev c)\<rparr>))
        else c)"

text \<open>The common end of \<open>pick_victim_line\<close>: write the line back, invalidate it, count the eviction.\<close>

definition evict_line :: "'d wr_op \<Rightarrow> nat \<Rightarrow> 'd pcache \<Rightarrow> 'd pcache" where
  "evict_line wr idx c = upd_stats (\<lambda>s. s\<lparr>evictions := evictions s + 1\<rparr>)
     (upd_line idx (\<lambda>l. l\<lparr>cl_valid := False\<rparr>) (flush_line wr idx c))"

primrec pick_victim_loop :: "'d wr_op \<Rightarrow> nat \<Rightarrow> 'd pcache \<Rightarrow> nat \<times> 'd pcache" where
  "pick_victim_loop wr 0 c = (clock_hand c, evict_line wr (clock_hand c) c)"
| "pick_victim_loop wr (Suc n) c =
     (let idx = clock_hand c; c1 = c\<lparr>clock_hand := (clock_hand c + 1) mod CACHE_LINES\<rparr>; l = cache_lines c1 ! idx in
      if \<not> cl_valid l then (idx, c1)
      else if cl_ref l then pick_victim_loop wr n (upd_line idx (\<lambda>l. l\<lparr>cl_ref := False\<rparr>) c1)
      else (idx, evict_line wr idx c1))"

definition pick_victim_line :: "'d wr_op \<Rightarrow> 'd pcache \<Rightarrow> nat \<times> 'd pcache" where
  "pick_victim_line wr c = pick_victim_loop wr (CACHE_LINES * 2) c"

definition page_cache_init :: "'d pcache \<Rightarrow> 'd pcache" where
  "page_cache_init c =
     (if cache_initialized c then c
      else c\<lparr>cache_lines := map (\<lambda>l. l\<lparr>cl_valid := False, cl_dirty := False, cl_ref := False, cl_lba := 0\<rparr>) (cache_lines c),
             clock_hand := 0, cache_initialized := True\<rparr>)"

definition page_cache_read_sector ::
  "'d rd_op \<Rightarrow> 'd wr_op \<Rightarrow> u32 \<Rightarrow> sector option \<Rightarrow> 'd pcache \<Rightarrow> disk_rc \<times> sector option \<times> 'd pcache" where
  "page_cache_read_sector rd wr lba buffer c0 =
     (if buffer = None then (DISK_IO_ERR_NO_DEVICE, buffer, c0)
      else let c = page_cache_init c0 in
        case find_line lba c of
          Some idx \<Rightarrow>
            (DISK_IO_OK, Some (cl_data (cache_lines c ! idx)),
             upd_stats (\<lambda>s. s\<lparr>read_hits := read_hits s + 1\<rparr>) (upd_line idx (\<lambda>l. l\<lparr>cl_ref := True\<rparr>) c))
        | None \<Rightarrow>
            let (idx, c1) = pick_victim_line wr (upd_stats (\<lambda>s. s\<lparr>read_misses := read_misses s + 1\<rparr>) c);
                (rc, b, d) = rd lba (Some (cl_data (cache_lines c1 ! idx))) (pc_dev c1);
                data = (case b of Some x \<Rightarrow> x | None \<Rightarrow> cl_data (cache_lines c1 ! idx));
                c2 = upd_line idx (\<lambda>l. l\<lparr>cl_data := data\<rparr>) (c1\<lparr>pc_dev := d\<rparr>)
            in if rc \<noteq> DISK_IO_OK
               then (DISK_IO_ERR_NO_DEVICE, buffer, upd_line idx (\<lambda>l. l\<lparr>cl_valid := False, cl_dirty := False, cl_ref := False\<rparr>) c2)
               else (DISK_IO_OK, Some data,
                     upd_line idx (\<lambda>l. l\<lparr>cl_valid := True, cl_dirty := False, cl_ref := True, cl_lba := lba\<rparr>) c2))"

definition page_cache_write_sector ::
  "'d wr_op \<Rightarrow> u32 \<Rightarrow> sector option \<Rightarrow> 'd pcache \<Rightarrow> disk_rc \<times> 'd pcache" where
  "page_cache_write_sector wr lba buffer c0 = (case buffer of
     None \<Rightarrow> (DISK_IO_ERR_NO_DEVICE, c0)
   | Some ws \<Rightarrow>
      let c = page_cache_init c0;
          (idx, c1) = (case find_line lba c of
             None \<Rightarrow> (let (i, c') = pick_victim_line wr (upd_stats (\<lambda>s. s\<lparr>write_misses := write_misses s + 1\<rparr>) c)
                      in (i, upd_line i (\<lambda>l. l\<lparr>cl_valid := True, cl_lba := lba\<rparr>) c'))
           | Some i \<Rightarrow> (i, upd_stats (\<lambda>s. s\<lparr>write_hits := write_hits s + 1\<rparr>) c))
      in (DISK_IO_OK, upd_stats (\<lambda>s. s\<lparr>buffered_writes := buffered_writes s + 1\<rparr>)
            (upd_line idx (\<lambda>l. l\<lparr>cl_data := ws, cl_dirty := True, cl_ref := True\<rparr>) c1)))"

definition page_cache_flush_all :: "'d wr_op \<Rightarrow> 'd pcache \<Rightarrow> 'd pcache" where
  "page_cache_flush_all wr c = fold (flush_line wr) [0..<CACHE_LINES] (page_cache_init c)"

definition page_cache_get_stats :: "'d pcache \<Rightarrow> page_cache_stats \<times> 'd pcache" where
  "page_cache_get_stats c =
     (let c' = upd_stats (\<lambda>s. s\<lparr>dirty_lines := of_nat (occupied (\<lambda>l. cl_valid l \<and> cl_dirty l) (cache_lines c))\<rparr>) c
      in (cache_stats c', c'))"

definition page_cache_reset_stats :: "'d pcache \<Rightarrow> 'd pcache" where
  "page_cache_reset_stats c = c\<lparr>cache_stats := \<lparr>read_hits = 0, read_misses = 0, write_hits = 0, write_misses = 0,
     evictions = 0, buffered_writes = 0, flush_writes = 0, dirty_lines = 0\<rparr>\<rparr>"

text \<open>The cached entry points of \<open>disk.c\<close>.\<close>

definition disk_read_sector :: "'h hw \<Rightarrow> u32 \<Rightarrow> sector option \<Rightarrow> 'h disk pcache \<Rightarrow> sector option \<times> 'h disk pcache" where
  "disk_read_sector hw lba buffer c =
     (let c1 = c\<lparr>pc_dev := (pc_dev c)\<lparr>disk_io_stats := (disk_io_stats (pc_dev c))\<lparr>cached_reads := cached_reads (disk_io_stats (pc_dev c)) + 1\<rparr>\<rparr>\<rparr>
      in snd (page_cache_read_sector (disk_read_sector_uncached hw) (disk_write_sector_uncached hw) lba buffer c1))"

definition disk_write_sector :: "'h hw \<Rightarrow> u32 \<Rightarrow> sector option \<Rightarrow> 'h disk pcache \<Rightarrow> 'h disk pcache" where
  "disk_write_sector hw lba buffer c =
     (let c1 = c\<lparr>pc_dev := (pc_dev c)\<lparr>disk_io_stats := (disk_io_stats (pc_dev c))\<lparr>cached_writes := cached_writes (disk_io_stats (pc_dev c)) + 1\<rparr>\<rparr>\<rparr>
      in snd (page_cache_write_sector (disk_write_sector_uncached hw) lba buffer c1))"

section \<open>Lines\<close>

lemma upd_line_simps [simp]:
  "length (cache_lines (upd_line i f c)) = length (cache_lines c)" "clock_hand (upd_line i f c) = clock_hand c"
  "pc_dev (upd_line i f c) = pc_dev c" "cache_initialized (upd_line i f c) = cache_initialized c"
  by (simp_all add: upd_line_def)

lemma upd_stats_simps [simp]:
  "cache_lines (upd_stats g c) = cache_lines c" "clock_hand (upd_stats g c) = clock_hand c"
  "pc_dev (upd_stats g c) = pc_dev c" "cache_initialized (upd_stats g c) = cache_initialized c"
  by (simp_all add: upd_stats_def)

definition cline :: "'d pcache \<Rightarrow> nat \<Rightarrow> cache_line" where
  "cline c i = cache_lines c ! i"

lemma cline_upd [simp]:
  "i < length (cache_lines c) \<Longrightarrow> cline (upd_line i f c) j = (if i = j then f (cline c j) else cline c j)"
  "cline (upd_stats g c) = cline c"
  by (simp_all add: cline_def upd_line_def fun_eq_iff)

text \<open>Line \<open>i\<close> holds sector \<open>lba\<close>.\<close>

definition holds_sector :: "'d pcache \<Rightarrow> nat \<Rightarrow> u32 \<Rightarrow> bool" where
  "holds_sector c i lba \<longleftrightarrow> i < CACHE_LINES \<and> cl_valid (cline c i) \<and> cl_lba (cline c i) = lba"

lemma find_line_Some: "length (cache_lines c) = CACHE_LINES \<Longrightarrow> find_line lba c = Some i \<Longrightarrow> holds_sector c i lba"
  by (auto simp: find_line_def holds_sector_def cline_def dest!: find_slot_SomeD)

lemma find_line_None: "length (cache_lines c) = CACHE_LINES \<Longrightarrow> find_line lba c = None \<Longrightarrow> \<not> holds_sector c i lba"
  by (auto simp: find_line_def holds_sector_def cline_def find_slot_None)

section \<open>What the cached disk contains\<close>

definition cache_view :: "('d \<Rightarrow> u32 \<Rightarrow> sector) \<Rightarrow> 'd pcache \<Rightarrow> u32 \<Rightarrow> sector" where
  "cache_view content c lba = (case find_line lba c of Some i \<Rightarrow> cl_data (cline c i) | None \<Rightarrow> content (pc_dev c) lba)"

definition line_ok :: "('d \<Rightarrow> u32 \<Rightarrow> sector) \<Rightarrow> (u32 \<Rightarrow> bool) \<Rightarrow> 'd \<Rightarrow> cache_line \<Rightarrow> bool" where
  "line_ok content valid d l \<longleftrightarrow> (cl_valid l \<longrightarrow> valid (cl_lba l) \<and> length (cl_data l) = 256 \<and>
     (\<not> cl_dirty l \<longrightarrow> cl_data l = content d (cl_lba l)))"

definition cache_inv :: "('d \<Rightarrow> u32 \<Rightarrow> sector) \<Rightarrow> ('d \<Rightarrow> bool) \<Rightarrow> (u32 \<Rightarrow> bool) \<Rightarrow> 'd pcache \<Rightarrow> bool" where
  "cache_inv content ok valid c \<longleftrightarrow> ok (pc_dev c) \<and> length (cache_lines c) = CACHE_LINES \<and> clock_hand c < CACHE_LINES \<and>
     (\<forall>i j lba. holds_sector c i lba \<longrightarrow> holds_sector c j lba \<longrightarrow> i = j) \<and>
     (\<forall>i < CACHE_LINES. line_ok content valid (pc_dev c) (cline c i)) \<and>
     (\<not> cache_initialized c \<longrightarrow> (\<forall>i < CACHE_LINES. \<not> cl_valid (cline c i)))"

lemma cache_invD:
  assumes "cache_inv content ok valid c"
  shows "ok (pc_dev c)" "length (cache_lines c) = CACHE_LINES" "clock_hand c < CACHE_LINES"
    "holds_sector c i lba \<Longrightarrow> holds_sector c j lba \<Longrightarrow> i = j"
    "i < CACHE_LINES \<Longrightarrow> line_ok content valid (pc_dev c) (cline c i)"
  using assms by (simp_all add: cache_inv_def)

text \<open>A sector's value is that of the line that holds it, or else that of the device.\<close>

lemma cache_view_eqI:
  assumes "length (cache_lines c) = CACHE_LINES" "\<And>i. holds_sector c i lba \<Longrightarrow> cl_data (cline c i) = v"
    "(\<And>i. \<not> holds_sector c i lba) \<Longrightarrow> content (pc_dev c) lba = v"
  shows "cache_view content c lba = v"
  using find_line_Some [OF assms(1), of lba] find_line_None [OF assms(1), of lba] assms(2,3)
  by (auto simp: cache_view_def split: option.splits)

lemma cache_view_hit:
  assumes "cache_inv content ok valid c" "holds_sector c i lba"
  shows "cache_view content c lba = cl_data (cline c i)"
  by (rule cache_view_eqI) (use assms cache_invD(2,4) [OF assms(1)] in auto)

lemma cache_view_miss:
  assumes "cache_inv content ok valid c" "\<And>i. \<not> holds_sector c i lba"
  shows "cache_view content c lba = content (pc_dev c) lba"
  by (rule cache_view_eqI) (use assms cache_invD(2) [OF assms(1)] in auto)

lemma holds_sector_upd:
  assumes "length (cache_lines c) = CACHE_LINES" "i < CACHE_LINES"
  shows "holds_sector (upd_line i f c) j lba =
    (if j = i then cl_valid (f (cline c i)) \<and> cl_lba (f (cline c i)) = lba else holds_sector c j lba)"
  using assms by (auto simp: holds_sector_def)

lemma holds_sector_cong:
  "cline c' = cline c \<Longrightarrow> holds_sector c' i lba = holds_sector c i lba"
  by (simp add: holds_sector_def)

text \<open>Updating one line keeps the invariant when the new line is fine and its sector is held nowhere else.\<close>

lemma cache_inv_upd:
  assumes inv: "cache_inv content ok valid c" and i: "i < CACHE_LINES"
    and l: "line_ok content valid (pc_dev c) (f (cline c i))"
    and u: "\<And>j. cl_valid (f (cline c i)) \<Longrightarrow> holds_sector c j (cl_lba (f (cline c i))) \<Longrightarrow> j = i"
    and n: "cl_valid (f (cline c i)) \<Longrightarrow> cache_initialized c"
  shows "cache_inv content ok valid (upd_line i f c)"
proof -
  note D = cache_invD [OF inv]
  have len: "i < length (cache_lines c)" using D(2) i by simp
  have "holds_sector (upd_line i f c) j lba \<Longrightarrow> holds_sector (upd_line i f c) k lba \<Longrightarrow> j = k" for j k lba
    using D(4) u by (auto simp: holds_sector_upd [OF D(2) i] split: if_splits)
  moreover have "line_ok content valid (pc_dev c) (cline (upd_line i f c) j)" if "j < CACHE_LINES" for j
    using D(5) [OF that] l len by auto
  moreover have "\<not> cache_initialized c \<longrightarrow> (\<forall>j < CACHE_LINES. \<not> cl_valid (cline (upd_line i f c) j))"
    using inv n len by (auto simp: cache_inv_def)
  ultimately show ?thesis using D(1-3) unfolding cache_inv_def by simp
qed

lemma cache_inv_stats [simp]: "cache_inv content ok valid (upd_stats g c) = cache_inv content ok valid c"
  by (simp add: cache_inv_def holds_sector_def)

lemma cache_view_stats [simp]: "cache_view content (upd_stats g c) = cache_view content c"
  by (rule ext) (simp add: cache_view_def find_line_def split: option.split)

lemma cline_hand [simp]: "cline (c\<lparr>clock_hand := h\<rparr>) = cline c"
  by (simp add: cline_def fun_eq_iff)

lemma cache_inv_hand: "cache_inv content ok valid c \<Longrightarrow> h < CACHE_LINES \<Longrightarrow> cache_inv content ok valid (c\<lparr>clock_hand := h\<rparr>)"
  by (simp add: cache_inv_def holds_sector_def)

lemma cache_view_hand [simp]: "cache_view content (c\<lparr>clock_hand := h\<rparr>) = cache_view content c"
  by (rule ext) (simp add: cache_view_def find_line_def split: option.split)

section \<open>The contract of a block device\<close>

locale block_device =
  fixes rd :: "'d rd_op" and wr :: "'d wr_op" and content :: "'d \<Rightarrow> u32 \<Rightarrow> sector"
    and ok :: "'d \<Rightarrow> bool" and valid :: "u32 \<Rightarrow> bool"
  assumes rd_ok: "ok d \<Longrightarrow> valid lba \<Longrightarrow>
      \<exists>d'. rd lba (Some b) d = (DISK_IO_OK, Some (content d lba), d') \<and> ok d' \<and> content d' = content d"
    and wr_ok: "ok d \<Longrightarrow> valid lba \<Longrightarrow> length b = 256 \<Longrightarrow> ok (wr lba (Some b) d)"
    and wr_content: "ok d \<Longrightarrow> valid lba \<Longrightarrow> length b = 256 \<Longrightarrow> valid l \<Longrightarrow>
      content (wr lba (Some b) d) l = (if l = lba then b else content d l)"
    and content_length: "ok d \<Longrightarrow> valid lba \<Longrightarrow> length (content d lba) = 256"
begin

abbreviation inv where "inv \<equiv> cache_inv content ok valid"
abbreviation view where "view \<equiv> cache_view content"

text \<open>Changing only the reference bit, or forgetting a clean line, changes no sector.\<close>

lemma view_upd_same:
  assumes "inv c" "i < CACHE_LINES" "cl_valid (f (cline c i)) = cl_valid (cline c i)"
    "cl_lba (f (cline c i)) = cl_lba (cline c i)" "cl_data (f (cline c i)) = cl_data (cline c i)"
  shows "view (upd_line i f c) lba = view c lba"
proof -
  note D = cache_invD [OF assms(1)]
  have len: "i < length (cache_lines c)" using D(2) assms(2) by simp
  have h: "holds_sector (upd_line i f c) j lba = holds_sector c j lba" for j
    using assms(2-4) len by (auto simp: holds_sector_def)
  show ?thesis
    by (rule cache_view_eqI)
      (use h D(2) assms len cache_view_hit [OF assms(1)] cache_view_miss [OF assms(1)] in auto)
qed

lemma drop_clean:
  assumes "inv c" "i < CACHE_LINES" "\<not> (cl_valid (cline c i) \<and> cl_dirty (cline c i))"
  shows "inv (upd_line i (\<lambda>l. l\<lparr>cl_valid := False\<rparr>) c)"
    "view (upd_line i (\<lambda>l. l\<lparr>cl_valid := False\<rparr>) c) lba = view c lba"
proof -
  note D = cache_invD [OF assms(1)]
  have len: "i < length (cache_lines c)" using D(2) assms(2) by simp
  show inv': "inv (upd_line i (\<lambda>l. l\<lparr>cl_valid := False\<rparr>) c)"
    by (rule cache_inv_upd [OF assms(1,2)]) (auto simp: line_ok_def)
  let ?c = "upd_line i (\<lambda>l. l\<lparr>cl_valid := False\<rparr>) c"
  have h: "holds_sector ?c j lba \<longleftrightarrow> holds_sector c j lba \<and> j \<noteq> i" for j
    by (auto simp: holds_sector_upd [OF D(2) assms(2)])
  show "view ?c lba = view c lba"
  proof (rule cache_view_eqI)
    fix j assume "holds_sector ?c j lba"
    then show "cl_data (cline ?c j) = view c lba" using h cache_view_hit [OF assms(1)] len by auto
  next
    assume none: "\<And>j. \<not> holds_sector ?c j lba"
    show "content (pc_dev ?c) lba = view c lba"
    proof (cases "holds_sector c i lba")
      case True
      then have "cl_data (cline c i) = content (pc_dev c) lba"
        using D(5) [OF assms(2)] assms(3) by (auto simp: line_ok_def holds_sector_def)
      then show ?thesis using cache_view_hit [OF assms(1) True] by simp
    next
      case False
      then have "\<not> holds_sector c j lba" for j using none h by metis
      then show ?thesis using cache_view_miss [OF assms(1)] by simp
    qed
  qed (use D(2) in simp)
qed

text \<open>Writing a dirty line back.\<close>

lemma flush_line_spec:
  assumes "inv c"
  shows "inv (flush_line wr i c)" "valid lba \<Longrightarrow> view (flush_line wr i c) lba = view c lba"
    "clock_hand (flush_line wr i c) = clock_hand c" "cache_initialized (flush_line wr i c) = cache_initialized c"
    "cline (flush_line wr i c) j = (if j = i \<and> i < CACHE_LINES \<and> cl_valid (cline c i) then (cline c j)\<lparr>cl_dirty := False\<rparr> else cline c j)"
proof -
  note D = cache_invD [OF assms]
  let ?go = "i < CACHE_LINES \<and> cl_valid (cline c i) \<and> cl_dirty (cline c i)"
  let ?l = "cline c i"
  let ?d = "wr (cl_lba ?l) (Some (cl_data ?l)) (pc_dev c)"
  let ?c = "upd_line i (\<lambda>l. l\<lparr>cl_dirty := False\<rparr>) (c\<lparr>pc_dev := ?d\<rparr>)"
  have eq: "flush_line wr i c = (if ?go then upd_stats (\<lambda>s. s\<lparr>flush_writes := flush_writes s + 1\<rparr>) ?c else c)"
    by (auto simp: flush_line_def Let_def cline_def)
  have cl: "cline ?c j = (if j = i then ?l\<lparr>cl_dirty := False\<rparr> else cline c j)" if ?go for j
    using that D(2) by (simp add: cline_def upd_line_def)
  show "clock_hand (flush_line wr i c) = clock_hand c" "cache_initialized (flush_line wr i c) = cache_initialized c"
    by (simp_all add: eq)
  show "cline (flush_line wr i c) j =
      (if j = i \<and> i < CACHE_LINES \<and> cl_valid ?l then (cline c j)\<lparr>cl_dirty := False\<rparr> else cline c j)"
    using cl [of j] by (auto simp: eq)
  have go: "inv ?c \<and> (valid lba \<longrightarrow> view ?c lba = view c lba)" if g: ?go for lba
  proof -
    have l: "valid (cl_lba ?l)" "length (cl_data ?l) = 256" using D(5) [of i] g by (auto simp: line_ok_def)
    have d: "ok ?d" "\<And>l'. valid l' \<Longrightarrow> content ?d l' = (if l' = cl_lba ?l then cl_data ?l else content (pc_dev c) l')"
      using wr_ok [OF D(1) l] wr_content [OF D(1) l] by auto
    have h: "holds_sector ?c j l' = holds_sector c j l'" for j l' using cl [OF g, of j] g by (auto simp: holds_sector_def)
    have hi: "holds_sector c i (cl_lba ?l)" using g by (simp add: holds_sector_def)
    have lo: "line_ok content valid ?d (cline ?c j)" if j: "j < CACHE_LINES" for j
    proof (cases "j = i")
      case True
      then show ?thesis using cl [OF g, of j] l d by (simp add: line_ok_def)
    next
      case False
      then have "cl_valid (cline c j) \<Longrightarrow> cl_lba (cline c j) \<noteq> cl_lba ?l"
        using D(4) [OF hi, of j] j by (auto simp: holds_sector_def)
      then show ?thesis using cl [OF g, of j] False D(5) [OF j] d by (auto simp: line_ok_def)
    qed
    have "inv ?c" unfolding cache_inv_def
    proof (intro conjI allI impI)
      fix j k l' assume "holds_sector ?c j l'" "holds_sector ?c k l'"
      then show "j = k" using h D(4) by metis
    next
      fix j assume "\<not> cache_initialized ?c" "j < CACHE_LINES"
      then show "\<not> cl_valid (cline ?c j)" using assms g by (auto simp: cache_inv_def)
    qed (use d D lo in auto)
    moreover have "view ?c lba = view c lba" if v: "valid lba"
    proof (rule cache_view_eqI)
      fix j assume "holds_sector ?c j lba"
      then show "cl_data (cline ?c j) = view c lba"
        using h cl [OF g, of j] cache_view_hit [OF assms, of j lba] by (cases "j = i") auto
    next
      assume "\<And>j. \<not> holds_sector ?c j lba"
      then have n: "\<And>j. \<not> holds_sector c j lba" using h by metis
      then have "lba \<noteq> cl_lba ?l" using hi by metis
      then show "content (pc_dev ?c) lba = view c lba" using cache_view_miss [OF assms n] d(2) [OF v] by simp
    qed (use D(2) in simp)
    ultimately show ?thesis by blast
  qed
  show "inv (flush_line wr i c)" "valid lba \<Longrightarrow> view (flush_line wr i c) lba = view c lba"
    using go assms by (auto simp: eq)
qed

text \<open>Choosing a victim leaves an invalid line and changes no sector.\<close>

definition victim_ok :: "'d pcache \<Rightarrow> nat \<times> 'd pcache \<Rightarrow> bool" where
  "victim_ok c r \<longleftrightarrow> fst r < CACHE_LINES \<and> inv (snd r) \<and> \<not> cl_valid (cline (snd r) (fst r)) \<and>
     (\<forall>lba. valid lba \<longrightarrow> view (snd r) lba = view c lba) \<and> cache_initialized (snd r) = cache_initialized c \<and>
     (\<forall>lba. (\<forall>i. \<not> holds_sector c i lba) \<longrightarrow> (\<forall>i. \<not> holds_sector (snd r) i lba))"

lemma evict_line_spec:
  assumes "inv c" "i < CACHE_LINES"
  shows "victim_ok c (i, evict_line wr i c)"
proof -
  note f = flush_line_spec [OF assms(1), where i = i]
  have clean: "\<not> (cl_valid (cline (flush_line wr i c) i) \<and> cl_dirty (cline (flush_line wr i c) i))"
    using assms(2) by (simp add: f(5))
  note d = drop_clean [OF f(1) assms(2) clean]
  have len: "i < length (cache_lines (flush_line wr i c))" using cache_invD(2) [OF f(1)] assms(2) by simp
  have "\<not> holds_sector (upd_line i (\<lambda>l. l\<lparr>cl_valid := False\<rparr>) (flush_line wr i c)) j lba"
    if "\<And>i. \<not> holds_sector c i lba" for j lba
    using that [of j] len by (auto simp: holds_sector_def f(5) split: if_splits)
  then show ?thesis using assms(2) d f(2,4) len
    by (auto simp: victim_ok_def evict_line_def holds_sector_cong [OF cline_upd(2)])
qed

lemma victim_ok_trans:
  assumes "victim_ok c' r" "\<And>lba. valid lba \<Longrightarrow> view c' lba = view c lba" "cache_initialized c' = cache_initialized c"
    "\<And>lba i. holds_sector c' i lba = holds_sector c i lba"
  shows "victim_ok c r"
  using assms unfolding victim_ok_def by simp

lemma pick_victim_spec: "inv c \<Longrightarrow> victim_ok c (pick_victim_loop wr n c)"
proof (induction n arbitrary: c)
  case 0
  then show ?case using evict_line_spec [OF 0 cache_invD(3) [OF 0]] by simp
next
  case (Suc n)
  let ?i = "clock_hand c"
  let ?c1 = "c\<lparr>clock_hand := (?i + 1) mod CACHE_LINES\<rparr>"
  have i: "?i < CACHE_LINES" using cache_invD(3) [OF Suc.prems] .
  have inv1: "inv ?c1" by (rule cache_inv_hand [OF Suc.prems]) simp
  have h1: "holds_sector ?c1 j lba = holds_sector c j lba" for j lba by (simp add: holds_sector_def)
  show ?case
  proof (cases "cl_valid (cline c ?i)")
    case False
    then have "pick_victim_loop wr (Suc n) c = (?i, ?c1)" by (simp add: cline_def Let_def)
    with False i inv1 h1 show ?thesis by (simp add: victim_ok_def)
  next
    case v: True
    show ?thesis
    proof (cases "cl_ref (cline c ?i)")
      case True
      let ?c2 = "upd_line ?i (\<lambda>l. l\<lparr>cl_ref := False\<rparr>) ?c1"
      have step: "pick_victim_loop wr (Suc n) c = pick_victim_loop wr n ?c2" using v True by (simp add: cline_def Let_def)
      have lo: "line_ok content valid (pc_dev ?c1) ((cline ?c1 ?i)\<lparr>cl_ref := False\<rparr>)"
        using cache_invD(5) [OF inv1 i] by (simp add: line_ok_def)
      have init: "cache_initialized ?c1" using inv1 v i by (auto simp: cache_inv_def)
      have inv2: "inv ?c2"
      proof (rule cache_inv_upd [OF inv1 i _ _ init])
        show "line_ok content valid (pc_dev ?c1) ((cline ?c1 ?i)\<lparr>cl_ref := False\<rparr>)" by (rule lo)
        fix j assume "holds_sector ?c1 j (cl_lba ((cline ?c1 ?i)\<lparr>cl_ref := False\<rparr>))"
        then have j: "holds_sector ?c1 j (cl_lba (cline ?c1 ?i))" by simp
        have "holds_sector ?c1 ?i (cl_lba (cline ?c1 ?i))" using v i by (simp add: holds_sector_def)
        from cache_invD(4) [OF inv1 j this] show "j = ?i" .
      qed
      have len: "?i < length (cache_lines ?c1)" using cache_invD(2) [OF inv1] i by simp
      have h2: "holds_sector ?c2 j lba = holds_sector c j lba" for j lba using len by (simp add: holds_sector_def)
      have "view ?c2 lba = view c lba" for lba using view_upd_same [OF inv1 i] by simp
      with victim_ok_trans [OF Suc.IH [OF inv2]] h2 show ?thesis unfolding step by simp
    next
      case False
      then have step: "pick_victim_loop wr (Suc n) c = (?i, evict_line wr ?i ?c1)" using v by (simp add: cline_def Let_def)
      from victim_ok_trans [OF evict_line_spec [OF inv1 i]] h1 show ?thesis unfolding step by simp
    qed
  qed
qed

lemma init_spec:
  assumes "inv c"
  shows "inv (page_cache_init c)" "view (page_cache_init c) lba = view c lba" "cache_initialized (page_cache_init c)"
proof -
  note D = cache_invD [OF assms]
  have l: "\<not> cl_valid (cline (page_cache_init c) i)" "\<not> cl_valid (cline c i)" if "\<not> cache_initialized c" "i < CACHE_LINES" for i
    using that assms D(2) by (simp_all add: page_cache_init_def cline_def cache_inv_def)
  show i: "cache_initialized (page_cache_init c)" by (simp add: page_cache_init_def)
  show inv': "inv (page_cache_init c)"
  proof (cases "cache_initialized c")
    case True
    with assms show ?thesis by (simp add: page_cache_init_def)
  next
    case False
    have "\<not> holds_sector (page_cache_init c) j l'" for j l' using l(1) [OF False] by (auto simp: holds_sector_def)
    moreover have "line_ok content valid (pc_dev c) (cline (page_cache_init c) j)" if "j < CACHE_LINES" for j
      using l(1) [OF False that] by (simp add: line_ok_def)
    ultimately show ?thesis using D(1,2) i False unfolding cache_inv_def by (auto simp: page_cache_init_def)
  qed
  show "view (page_cache_init c) lba = view c lba"
  proof (cases "cache_initialized c")
    case True
    then show ?thesis by (simp add: page_cache_init_def)
  next
    case False
    have "\<not> holds_sector (page_cache_init c) j lba" "\<not> holds_sector c j lba" for j
      using l [OF False] by (auto simp: holds_sector_def)
    with cache_view_miss [OF inv'] cache_view_miss [OF assms] show ?thesis by (simp add: page_cache_init_def)
  qed
qed

text \<open>Filling the victim line with a sector that no line holds.\<close>

lemma fill_line:
  assumes "inv c" "i < CACHE_LINES" "cache_initialized c" "\<And>j. \<not> holds_sector c j lba" "valid lba" "length b = 256"
    "f (cline c i) = l" "cl_valid l" "cl_lba l = lba" "cl_data l = b" "cl_dirty l \<or> b = content (pc_dev c) lba"
    "\<not> cl_valid (cline c i)"
  shows "inv (upd_line i f c)" "valid m \<Longrightarrow> view (upd_line i f c) m = (if m = lba then b else view c m)"
proof -
  note D = cache_invD [OF assms(1)]
  have len: "i < length (cache_lines c)" using D(2) assms(2) by simp
  show inv': "inv (upd_line i f c)"
    by (rule cache_inv_upd [OF assms(1,2)]) (use assms in \<open>auto simp: line_ok_def\<close>)
  have h: "holds_sector (upd_line i f c) j m = (if j = i then m = lba else holds_sector c j m)" for j
    using assms(7-9) by (auto simp: holds_sector_upd [OF D(2) assms(2)])
  show "view (upd_line i f c) m = (if m = lba then b else view c m)" if "valid m"
  proof (rule cache_view_eqI)
    fix j assume j: "holds_sector (upd_line i f c) j m"
    show "cl_data (cline (upd_line i f c) j) = (if m = lba then b else view c m)"
      using j h [of j] assms(4,7,10) len cache_view_hit [OF assms(1), of j m] by (auto split: if_splits)
  next
    assume n: "\<And>j. \<not> holds_sector (upd_line i f c) j m"
    then have "m \<noteq> lba" using h [of i] by auto
    moreover have "\<not> holds_sector c j m" for j
      using n [of j] h [of j] assms(12) by (cases "j = i") (auto simp: holds_sector_def)
    ultimately show "content (pc_dev (upd_line i f c)) m = (if m = lba then b else view c m)"
      using cache_view_miss [OF assms(1)] by simp
  qed (use D(2) in simp)
qed

text \<open>Touching a line that holds the sector.\<close>

lemma hit_line:
  assumes "inv c" "holds_sector c i lba" "cl_valid (f (cline c i))" "cl_lba (f (cline c i)) = lba"
    "length (cl_data (f (cline c i))) = 256"
    "cl_dirty (f (cline c i)) \<or> cl_data (f (cline c i)) = content (pc_dev c) lba"
  shows "inv (upd_line i f c)" "view (upd_line i f c) m = (if m = lba then cl_data (f (cline c i)) else view c m)"
proof -
  note D = cache_invD [OF assms(1)]
  have i: "i < CACHE_LINES" and v: "cl_valid (cline c i)" "cl_lba (cline c i) = lba" using assms(2) by (auto simp: holds_sector_def)
  have len: "i < length (cache_lines c)" using D(2) i by simp
  have lba: "valid lba" using D(5) [OF i] v by (simp add: line_ok_def)
  have init: "cache_initialized c" using assms(1) v i by (auto simp: cache_inv_def)
  show inv': "inv (upd_line i f c)"
  proof (rule cache_inv_upd [OF assms(1) i _ _ init])
    show "line_ok content valid (pc_dev c) (f (cline c i))" using assms(4-6) lba by (auto simp: line_ok_def)
    fix j assume "holds_sector c j (cl_lba (f (cline c i)))"
    then have "holds_sector c j lba" using assms(4) by simp
    from D(4) [OF this assms(2)] show "j = i" .
  qed
  have h: "holds_sector (upd_line i f c) j m = holds_sector c j m" for j m
    using assms(3,4) v len by (auto simp: holds_sector_def)
  show "view (upd_line i f c) m = (if m = lba then cl_data (f (cline c i)) else view c m)"
  proof (rule cache_view_eqI)
    fix j assume j: "holds_sector (upd_line i f c) j m"
    then have j': "holds_sector c j m" using h by simp
    show "cl_data (cline (upd_line i f c) j) = (if m = lba then cl_data (f (cline c i)) else view c m)"
      using j' D(4) [OF assms(2)] len v cache_view_hit [OF assms(1) j'] by (auto simp: holds_sector_def)
  next
    assume n: "\<And>j. \<not> holds_sector (upd_line i f c) j m"
    then have n': "\<And>j. \<not> holds_sector c j m" using h by simp
    then have "m \<noteq> lba" using assms(2) by metis
    then show "content (pc_dev (upd_line i f c)) m = (if m = lba then cl_data (f (cline c i)) else view c m)"
      using cache_view_miss [OF assms(1) n'] by simp
  qed (use D(2) in simp)
qed

lemma view_length: "inv c \<Longrightarrow> valid lba \<Longrightarrow> length (view c lba) = 256"
proof (cases "\<exists>i. holds_sector c i lba")
  case True
  assume inv: "inv c"
  from True obtain i where i: "holds_sector c i lba" by blast
  then have "length (cl_data (cline c i)) = 256" using cache_invD(5) [OF inv, of i] by (simp add: holds_sector_def line_ok_def)
  then show ?thesis using cache_view_hit [OF inv i] by simp
next
  case False
  assume inv: "inv c" "valid lba"
  then show ?thesis using cache_view_miss [OF inv(1)] False content_length [OF cache_invD(1) [OF inv(1)]] by simp
qed

lemma dev_replaced:
  assumes "inv c" "ok d" "content d = content (pc_dev c)"
  shows "inv (c\<lparr>pc_dev := d\<rparr>)" "view (c\<lparr>pc_dev := d\<rparr>) = view c"
proof -
  have [simp]: "cline (c\<lparr>pc_dev := d\<rparr>) = cline c" by (simp add: cline_def fun_eq_iff)
  show "inv (c\<lparr>pc_dev := d\<rparr>)" using assms by (simp add: cache_inv_def holds_sector_def line_ok_def)
  show "view (c\<lparr>pc_dev := d\<rparr>) = view c"
    by (rule ext) (simp add: cache_view_def find_line_def assms(3) split: option.split)
qed

lemma upd_line_twice: "upd_line i f (upd_line i g c) = upd_line i (\<lambda>l. f (g l)) c"
  by (cases "i < length (cache_lines c)") (simp_all add: upd_line_def list_update_beyond)

lemma read_spec:
  assumes "inv c" "valid lba"
  shows "\<exists>c'. page_cache_read_sector rd wr lba (Some b) c = (DISK_IO_OK, Some (view c lba), c') \<and> inv c' \<and>
    (\<forall>m. valid m \<longrightarrow> view c' m = view c m)"
proof -
  let ?c = "page_cache_init c"
  note I = init_spec [OF assms(1)]
  note D = cache_invD [OF I(1)]
  show ?thesis
  proof (cases "find_line lba ?c")
    case (Some i)
    have h: "holds_sector ?c i lba" by (rule find_line_Some [OF D(2) Some])
    have data: "cl_data (cline ?c i) = view c lba" using cache_view_hit [OF I(1) h] I(2) by simp
    have dirty: "cl_dirty (cline ?c i) \<or> cl_data (cline ?c i) = content (pc_dev ?c) lba"
      and len: "length (cl_data (cline ?c i)) = 256"
      using D(5) [of i] h by (auto simp: holds_sector_def line_ok_def)
    note hit = hit_line [OF I(1) h, of "\<lambda>l. l\<lparr>cl_ref := True\<rparr>"]
    have "cl_valid (cline ?c i)" "cl_lba (cline ?c i) = lba" using h by (simp_all add: holds_sector_def)
    then show ?thesis using Some hit dirty len data I(2)
      by (auto simp: page_cache_read_sector_def Let_def cline_def)
  next
    case None
    let ?s = "upd_stats (\<lambda>s. s\<lparr>read_misses := read_misses s + 1\<rparr>) ?c"
    obtain i c1 where p: "pick_victim_line wr ?s = (i, c1)" by fastforce
    have vo: "victim_ok ?s (i, c1)" 
    proof -
      have "inv ?s" using I(1) by simp
      from pick_victim_spec [OF this, of "CACHE_LINES * 2"] show ?thesis unfolding p [unfolded pick_victim_line_def] .
    qed
    then have v: "i < CACHE_LINES" "inv c1" "\<not> cl_valid (cline c1 i)" "cache_initialized c1"
      "\<And>m. valid m \<Longrightarrow> view c1 m = view c m" "\<And>j. \<not> holds_sector c1 j lba"
      using I find_line_None [OF D(2) None] by (auto simp: victim_ok_def holds_sector_cong [OF cline_upd(2)])
    obtain d where d: "rd lba (Some (cl_data (cache_lines c1 ! i))) (pc_dev c1) = (DISK_IO_OK, Some (content (pc_dev c1) lba), d)"
      "ok d" "content d = content (pc_dev c1)" using rd_ok [OF cache_invD(1) [OF v(2)] assms(2)] by blast
    have cv: "content (pc_dev c1) lba = view c lba" using cache_view_miss [OF v(2,6)] v(5) [OF assms(2)] by simp
    note dr = dev_replaced [OF v(2) d(2,3)]
    let ?c2 = "c1\<lparr>pc_dev := d\<rparr>"
    let ?f = "\<lambda>l. l\<lparr>cl_data := view c lba, cl_valid := True, cl_dirty := False, cl_ref := True, cl_lba := lba\<rparr>"
    have cl2: "cline ?c2 = cline c1" by (simp add: cline_def fun_eq_iff)
    have fill: "inv (upd_line i ?f ?c2)" "\<And>m. valid m \<Longrightarrow> view (upd_line i ?f ?c2) m = (if m = lba then view c lba else view ?c2 m)"
      using fill_line [OF dr(1) v(1), where lba = lba and b = "view c lba" and f = ?f] v(3,4,6) cv d(3)
        view_length [OF assms] assms(2) by (auto simp: cl2 holds_sector_cong [OF cl2])
    have "page_cache_read_sector rd wr lba (Some b) c = (DISK_IO_OK, Some (view c lba), upd_line i ?f ?c2)"
      using None p d(1) cv by (simp add: page_cache_read_sector_def Let_def upd_line_twice)
    moreover have "\<forall>m. valid m \<longrightarrow> view (upd_line i ?f ?c2) m = view c m" using fill(2) dr(2) v(5) by auto
    ultimately show ?thesis using fill(1) by blast
  qed
qed

lemma write_spec:
  assumes "inv c" "valid lba" "length b = 256"
  shows "\<exists>c'. page_cache_write_sector wr lba (Some b) c = (DISK_IO_OK, c') \<and> inv c' \<and>
    (\<forall>m. valid m \<longrightarrow> view c' m = (if m = lba then b else view c m))"
proof -
  let ?c = "page_cache_init c"
  note I = init_spec [OF assms(1)]
  note D = cache_invD [OF I(1)]
  let ?g = "\<lambda>l. l\<lparr>cl_data := b, cl_dirty := True, cl_ref := True\<rparr>"
  show ?thesis
  proof (cases "find_line lba ?c")
    case (Some i)
    let ?s = "upd_stats (\<lambda>s. s\<lparr>write_hits := write_hits s + 1\<rparr>) ?c"
    have h: "holds_sector ?s i lba" using find_line_Some [OF D(2) Some] by (simp add: holds_sector_def)
    then have "cl_valid (cline ?s i)" "cl_lba (cline ?s i) = lba" by (simp_all add: holds_sector_def)
    then have hit: "inv (upd_line i ?g ?s)" "\<And>m. view (upd_line i ?g ?s) m = (if m = lba then b else view ?s m)"
      using hit_line [OF _ h, of ?g] I(1) assms(3) by simp_all
    have "page_cache_write_sector wr lba (Some b) c = (DISK_IO_OK,
        upd_stats (\<lambda>s. s\<lparr>buffered_writes := buffered_writes s + 1\<rparr>) (upd_line i ?g ?s))"
      using Some by (simp add: page_cache_write_sector_def Let_def)
    with hit I(2) show ?thesis by simp
  next
    case None
    let ?s = "upd_stats (\<lambda>s. s\<lparr>write_misses := write_misses s + 1\<rparr>) ?c"
    obtain i c1 where p: "pick_victim_line wr ?s = (i, c1)" by fastforce
    have vo: "victim_ok ?s (i, c1)" 
    proof -
      have "inv ?s" using I(1) by simp
      from pick_victim_spec [OF this, of "CACHE_LINES * 2"] show ?thesis unfolding p [unfolded pick_victim_line_def] .
    qed
    then have v: "i < CACHE_LINES" "inv c1" "\<not> cl_valid (cline c1 i)" "cache_initialized c1"
      "\<And>m. valid m \<Longrightarrow> view c1 m = view c m" "\<And>j. \<not> holds_sector c1 j lba"
      using I find_line_None [OF D(2) None] by (auto simp: victim_ok_def holds_sector_cong [OF cline_upd(2)])
    let ?f = "\<lambda>l. ?g (l\<lparr>cl_valid := True, cl_lba := lba\<rparr>)"
    have fill: "inv (upd_line i ?f c1)" "\<And>m. valid m \<Longrightarrow> view (upd_line i ?f c1) m = (if m = lba then b else view c1 m)"
      using fill_line [OF v(2,1,4), where lba = lba and b = b and f = ?f] v(3,6) assms(2,3) by auto
    have "page_cache_write_sector wr lba (Some b) c = (DISK_IO_OK,
        upd_stats (\<lambda>s. s\<lparr>buffered_writes := buffered_writes s + 1\<rparr>) (upd_line i ?f c1))"
      using None p by (simp add: page_cache_write_sector_def Let_def upd_line_twice)
    with fill v(5) show ?thesis by simp
  qed
qed

lemma flush_fold:
  assumes "inv c" "n \<le> CACHE_LINES"
  shows "inv (fold (flush_line wr) [0..<n] c) \<and> (\<forall>m. valid m \<longrightarrow> view (fold (flush_line wr) [0..<n] c) m = view c m) \<and>
    (\<forall>i < n. \<not> (cl_valid (cline (fold (flush_line wr) [0..<n] c) i) \<and> cl_dirty (cline (fold (flush_line wr) [0..<n] c) i)))"
  using assms
proof (induction n)
  case 0
  then show ?case by simp
next
  case (Suc n)
  let ?t = "fold (flush_line wr) [0..<n] c"
  have IH: "inv ?t" "\<forall>m. valid m \<longrightarrow> view ?t m = view c m"
    "\<forall>i < n. \<not> (cl_valid (cline ?t i) \<and> cl_dirty (cline ?t i))" using Suc by auto
  note f = flush_line_spec [OF IH(1), where i = n]
  have "\<not> (cl_valid (cline (flush_line wr n ?t) i) \<and> cl_dirty (cline (flush_line wr n ?t) i))" if "i < Suc n" for i
    using that IH(3) Suc.prems(2) by (auto simp: f(5) less_Suc_eq)
  with f(1,2) IH(2) show ?case by simp
qed

lemma flush_all_spec:
  assumes "inv c"
  shows "inv (page_cache_flush_all wr c)" "valid m \<Longrightarrow> view (page_cache_flush_all wr c) m = view c m"
    "valid m \<Longrightarrow> content (pc_dev (page_cache_flush_all wr c)) m = view c m"
proof -
  note I = init_spec [OF assms]
  let ?c = "page_cache_flush_all wr c"
  have f: "inv ?c" "\<forall>m. valid m \<longrightarrow> view ?c m = view c m" "\<forall>i < CACHE_LINES. \<not> (cl_valid (cline ?c i) \<and> cl_dirty (cline ?c i))"
    using flush_fold [OF I(1), of CACHE_LINES] I(2) by (simp_all add: page_cache_flush_all_def del: upt_rec_numeral)
  show "inv ?c" by (rule f(1))
  show "valid m \<Longrightarrow> view ?c m = view c m" using f(2) by simp
  show "content (pc_dev ?c) m = view c m" if v: "valid m"
  proof (cases "\<exists>i. holds_sector ?c i m")
    case True
    then obtain i where i: "holds_sector ?c i m" by blast
    then have "cl_data (cline ?c i) = content (pc_dev ?c) m"
      using cache_invD(5) [OF f(1), of i] f(3) by (auto simp: holds_sector_def line_ok_def)
    then show ?thesis using cache_view_hit [OF f(1) i] f(2) v by simp
  next
    case False
    then show ?thesis using cache_view_miss [OF f(1), of m] f(2) v by simp
  qed
qed

end

end
