(* ===== verification/AtaDevice.thy ===== *)
theory AtaDevice
  imports PageCache
begin

text \<open>
  An ideal ATA drive: task file registers, one sector transfer at a time, a store of sectors addressed by the
  28 bits the driver programs. It shows that the driver's parameters can be instantiated, and it is the device on which the
  driver of \<open>Disk\<close> is proved to be a block device and the cache of \<open>PageCache\<close> to be transparent.
\<close>

section \<open>The drive\<close>

datatype ata_mode = Ata_Idle | Ata_Reading sector | Ata_Writing sector

record ata_dev =
  av_reg :: "u16 \<Rightarrow> u8"
  av_mode :: ata_mode
  av_store :: "nat \<Rightarrow> sector"

definition av_addr :: "ata_dev \<Rightarrow> nat" where
  "av_addr d = unat (av_reg d PORT_LBA_LOW) + 256 * unat (av_reg d PORT_LBA_MID) +
     65536 * unat (av_reg d PORT_LBA_HIGH) + 16777216 * unat (av_reg d PORT_DEVICE AND 0x0F)"

definition av_inb :: "u16 \<Rightarrow> ata_dev \<Rightarrow> u8 \<times> ata_dev" where
  "av_inb p d = (if p = PORT_COMMAND then (if av_mode d = Ata_Idle then 0x40 else 0x48) else av_reg d p, d)"

definition av_outb :: "u16 \<Rightarrow> u8 \<Rightarrow> ata_dev \<Rightarrow> ata_dev" where
  "av_outb p v d =
     (if p = PORT_COMMAND
      then d\<lparr>av_mode := (if v = CMD_READ then Ata_Reading (av_store d (av_addr d))
                         else if v = CMD_WRITE then Ata_Writing [] else Ata_Idle)\<rparr>
      else d\<lparr>av_reg := (av_reg d)(p := v)\<rparr>)"

definition av_inw :: "u16 \<Rightarrow> ata_dev \<Rightarrow> u16 \<times> ata_dev" where
  "av_inw p d = (case av_mode d of
     Ata_Reading (w # ws) \<Rightarrow> (w, d\<lparr>av_mode := (if ws = [] then Ata_Idle else Ata_Reading ws)\<rparr>)
   | _ \<Rightarrow> (0, d))"

definition av_outw :: "u16 \<Rightarrow> u16 \<Rightarrow> ata_dev \<Rightarrow> ata_dev" where
  "av_outw p w d = (case av_mode d of
     Ata_Writing ws \<Rightarrow> (if length ws + 1 = 256
       then d\<lparr>av_store := (av_store d)(av_addr d := ws @ [w]), av_mode := Ata_Idle\<rparr>
       else d\<lparr>av_mode := Ata_Writing (ws @ [w])\<rparr>)
   | _ \<Rightarrow> d)"

definition hw_ata :: "ata_dev hw" where
  "hw_ata = \<lparr>inb = av_inb, outb = av_outb, inw = av_inw, outw = av_outw,
     ahci_get_runtime_report = (\<lambda>h. (None, h)), ahci_port_reset_and_start = (\<lambda>_ h. (False, h)),
     ahci_read_sector = (\<lambda>_ _ b h. (AHCI_READ_ERR_NO_CONTROLLER, b, h)),
     ahci_write_sector = (\<lambda>_ _ _ h. (AHCI_READ_ERR_NO_CONTROLLER, h)), ahci_identify_first_ready = (\<lambda>h. (None, h))\<rparr>"

lemma hw_ata_simps [simp]:
  "inb hw_ata = av_inb" "outb hw_ata = av_outb" "inw hw_ata = av_inw" "outw hw_ata = av_outw"
  "ahci_get_runtime_report hw_ata h = (None, h)"
  by (simp_all add: hw_ata_def)

section \<open>Addressing\<close>

lemma and_15: "x AND 0x0F = take_bit 4 x" and and_255: "x AND 0xFF = take_bit 8 x" for x :: "'w::len word"
  by (simp_all add: take_bit_eq_mask mask_eq_exp_minus_1)

lemma device_nibble: "unat ((ucast (0xE0 OR y) :: u8) AND 0x0F) = unat y" if "y < 16" for y :: u32
proof -
  define k where "k = unat y"
  have k: "y = of_nat k" "k < 16" using that by (simp_all add: k_def word_less_nat_alt)
  from k(2) have "k = 0 \<or> k = 1 \<or> k = 2 \<or> k = 3 \<or> k = 4 \<or> k = 5 \<or> k = 6 \<or> k = 7 \<or> k = 8 \<or> k = 9 \<or> k = 10 \<or> k = 11 \<or>
    k = 12 \<or> k = 13 \<or> k = 14 \<or> k = 15" by arith
  then show ?thesis unfolding k(1) by (elim disjE) simp_all
qed

lemma lba_digits: "x mod 256 + 256 * (x div 256 mod 256) + 65536 * (x div 65536 mod 256) + 16777216 * (x div 16777216 mod 16) =
  x mod 268435456" for x :: nat
  using mod_mult2_eq [of x 256 256] mod_mult2_eq [of x 65536 256] mod_mult2_eq [of x 16777216 16] by simp

lemma unat_u32_mod: "unat w mod 4294967296 = unat w" for w :: u32
  using unsigned_less [of w, where 'a = nat] by simp

lemma ata_select_spec:
  "av_mode (ata_select hw_ata lba d) = av_mode d" "av_store (ata_select hw_ata lba d) = av_store d"
  "av_addr (ata_select hw_ata lba d) = unat lba mod 2 ^ 28"
proof -
  show "av_mode (ata_select hw_ata lba d) = av_mode d" "av_store (ata_select hw_ata lba d) = av_store d"
    by (simp_all add: ata_select_def av_outb_def)
  have low: "unat (ucast (lba AND 0xFF) :: u8) = unat lba mod 256"
    by (simp add: and_255 unsigned_ucast_eq unsigned_take_bit_eq take_bit_eq_mod [where 'a = nat])
  have mid: "unat (ucast (drop_bit 8 lba AND 0xFF) :: u8) = unat lba div 256 mod 256"
    by (simp add: and_255 unsigned_ucast_eq unsigned_take_bit_eq take_bit_eq_mod [where 'a = nat] unsigned_drop_bit_eq drop_bit_eq_div [where 'a = nat] unat_u32_mod)
  have high: "unat (ucast (drop_bit 16 lba AND 0xFF) :: u8) = unat lba div 65536 mod 256"
    by (simp add: and_255 unsigned_ucast_eq unsigned_take_bit_eq take_bit_eq_mod [where 'a = nat] unsigned_drop_bit_eq drop_bit_eq_div [where 'a = nat] unat_u32_mod)
  have nib: "unat (drop_bit 24 lba AND 0x0F) = unat lba div 16777216 mod 16"
    by (simp add: and_15 unsigned_take_bit_eq take_bit_eq_mod [where 'a = nat] unsigned_drop_bit_eq drop_bit_eq_div [where 'a = nat] unat_u32_mod)
  then have "drop_bit 24 lba AND 0x0F < 16" by (simp add: word_less_nat_alt)
  from device_nibble [OF this] nib have dev: "unat ((ucast (0xE0 OR (drop_bit 24 lba AND 0x0F)) :: u8) AND 0x0F) =
      unat lba div 16777216 mod 16" by simp
  show "av_addr (ata_select hw_ata lba d) = unat lba mod 2 ^ 28"
    using lba_digits [of "unat lba"]
    by (simp add: av_addr_def ata_select_def av_outb_def low mid high dev del: unsigned_ucast_eq unsigned_or_eq unsigned_and_eq)
qed

section \<open>Transfers\<close>

lemma av_status [simp]: "av_inb PORT_COMMAND d = (if av_mode d = Ata_Idle then 0x40 else 0x48, d)"
  by (simp add: av_inb_def)

lemma ata_read_idle_dev: "0 < n \<Longrightarrow> ata_read_idle hw_ata n d = (Inr n, d)"
  by (cases n) simp_all

lemma ata_read_drq_dev: "0 < n \<Longrightarrow> av_mode d \<noteq> Ata_Idle \<Longrightarrow> ata_read_drq hw_ata n d = (Inr n, d)"
  by (cases n) simp_all

lemma ata_wait_loop_dev: "ata_wait_loop hw_ata again n d = d"
  by (induction n) (simp_all add: Let_def)

lemma ata_read_words_dev:
  assumes "av_mode d = (if xs = [] then Ata_Idle else Ata_Reading xs)"
  shows "ata_read_words hw_ata (length xs) d = (xs, d\<lparr>av_mode := Ata_Idle\<rparr>)"
  using assms
proof (induction xs arbitrary: d)
  case (Cons x xs)
  then show ?case by (simp add: av_inw_def)
qed simp

lemma av_addr_mode [simp]: "av_addr (d\<lparr>av_mode := m\<rparr>) = av_addr d" "av_addr (d\<lparr>av_store := s\<rparr>) = av_addr d"
  by (simp_all add: av_addr_def)

lemma ata_write_words_dev:
  assumes "av_mode d = Ata_Writing ys" "length ys + length xs = 256" "xs \<noteq> []"
  shows "ata_write_words hw_ata xs d = d\<lparr>av_store := (av_store d)(av_addr d := ys @ xs), av_mode := Ata_Idle\<rparr>"
  using assms
proof (induction xs arbitrary: d ys)
  case (Cons x xs)
  show ?case
  proof (cases "xs = []")
    case True
    with Cons.prems show ?thesis by (simp add: ata_write_words_def av_outw_def fun_upd_def)
  next
    case False
    let ?d = "d\<lparr>av_mode := Ata_Writing (ys @ [x])\<rparr>"
    have "av_outw PORT_DATA x d = ?d" using Cons.prems False by (auto simp: av_outw_def)
    then show ?thesis using Cons.IH [of ?d "ys @ [x]"] Cons.prems False by (simp add: ata_write_words_def)
  qed
qed simp

section \<open>The drive with the driver is a block device\<close>

definition ata_ok :: "ata_dev disk \<Rightarrow> bool" where
  "ata_ok d \<longleftrightarrow> ata_disk_available d \<and> disk_preferred_backend d \<noteq> DISK_BACKEND_AHCI \<and> av_mode (hwst d) = Ata_Idle \<and>
     (\<forall>a. length (av_store (hwst d) a) = 256)"

definition ata_content :: "ata_dev disk \<Rightarrow> u32 \<Rightarrow> sector" where
  "ata_content d lba = av_store (hwst d) (unat lba mod 2 ^ 28)"

definition ata_valid :: "u32 \<Rightarrow> bool" where
  "ata_valid lba \<longleftrightarrow> lba < 0x10000000"

text \<open>Reading, on the ATA and the AUTO backend.\<close>

lemma ata_read_ex_dev:
  assumes "ata_ok d"
  shows "\<exists>d'. ata_read_sector_ex hw_ata lba (Some b) d = (DISK_IO_OK, Some (ata_content d lba), d') \<and>
    d' = d\<lparr>hwst := hwst d'\<rparr> \<and> av_store (hwst d') = av_store (hwst d) \<and> av_mode (hwst d') = Ata_Idle"
proof -
  let ?xs = "ata_content d lba"
  let ?h = "av_outb PORT_COMMAND CMD_READ (ata_select hw_ata lba (hwst d))"
  have xs: "length ?xs = 256" using assms by (simp add: ata_ok_def ata_content_def)
  then have "?xs \<noteq> []" by auto
  have h: "av_mode ?h = Ata_Reading ?xs" "av_store ?h = av_store (hwst d)"
    by (simp_all add: av_outb_def ata_select_spec ata_content_def)
  have w: "ata_read_words hw_ata 256 ?h = (?xs, ?h\<lparr>av_mode := Ata_Idle\<rparr>)"
    using ata_read_words_dev [of ?h ?xs] h(1) xs \<open>?xs \<noteq> []\<close> by simp
  have avail: "ata_disk_available d" using assms by (simp add: ata_ok_def)
  have "ata_read_sector_ex hw_ata lba (Some b) d = (DISK_IO_OK, Some ?xs, d\<lparr>hwst := ?h\<lparr>av_mode := Ata_Idle\<rparr>\<rparr>)"
    using avail h(1) w by (simp add: ata_read_sector_ex_def ata_read_idle_dev ata_read_drq_dev Let_def)
  with h show ?thesis by (intro exI [of _ "d\<lparr>hwst := ?h\<lparr>av_mode := Ata_Idle\<rparr>\<rparr>"]) simp
qed

lemma ata_read_dev:
  assumes "ata_ok d"
  shows "\<exists>d'. disk_read_sector_uncached hw_ata lba (Some b) d = (DISK_IO_OK, Some (ata_content d lba), d') \<and> ata_ok d' \<and>
    ata_content d' = ata_content d"
proof -
  let ?e = "bump_uncached_reads d"
  have e: "ata_ok ?e" "ata_content ?e = ata_content d"
    using assms by (simp_all add: ata_ok_def ata_content_def fun_eq_iff bump_uncached_reads_def)
  obtain d' where d': "ata_read_sector_ex hw_ata lba (Some b) ?e = (DISK_IO_OK, Some (ata_content d lba), d')"
    "d' = ?e\<lparr>hwst := hwst d'\<rparr>" "av_store (hwst d') = av_store (hwst ?e)" "av_mode (hwst d') = Ata_Idle"
    using ata_read_ex_dev [OF e(1), of lba b] e(2) by auto
  have avail: "ata_disk_available ?e" using e(1) by (simp add: ata_ok_def)
  have "ata_disk_available d' = ata_disk_available ?e" "disk_preferred_backend d' = disk_preferred_backend ?e"
    by (subst d'(2), simp)+
  then have ok: "ata_ok d'" "ata_content d' = ata_content d"
    using e d'(3,4) by (simp_all add: ata_ok_def ata_content_def fun_eq_iff)
  have "?e\<lparr>hwst := hwst ?e\<rparr> = ?e" by simp
  then have "disk_read_sector_uncached hw_ata lba (Some b) d = (DISK_IO_OK, Some (ata_content d lba), d')"
    using e(1) d'(1) avail by (auto simp: disk_read_sector_uncached_def ahci_read_sector_ex_def ata_ok_def note_read_def Let_def
      eval_nat_numeral)
  with ok show ?thesis by blast
qed

text \<open>Writing: the AUTO backend finds no AHCI port and uses the ATA drive.\<close>

lemma ata_write_sector_dev:
  assumes "length ws = 256" "av_mode h = Ata_Idle"
  shows "av_store (ata_write_sector hw_ata lba ws h) = (av_store h)(unat lba mod 2 ^ 28 := ws)"
    "av_mode (ata_write_sector hw_ata lba ws h) = Ata_Idle"
proof -
  let ?h = "av_outb PORT_COMMAND CMD_WRITE (ata_select hw_ata lba h)"
  have "av_mode ?h = Ata_Writing []" "av_addr ?h = unat lba mod 2 ^ 28" "av_store ?h = av_store h"
    by (simp_all add: av_outb_def ata_select_spec)
  moreover have "ws \<noteq> []" using assms(1) by auto
  ultimately have "ata_write_words hw_ata ws ?h = ?h\<lparr>av_store := (av_store h)(unat lba mod 2 ^ 28 := ws), av_mode := Ata_Idle\<rparr>"
    using ata_write_words_dev [of ?h "[]" ws] assms(1) by simp
  then show "av_store (ata_write_sector hw_ata lba ws h) = (av_store h)(unat lba mod 2 ^ 28 := ws)"
    "av_mode (ata_write_sector hw_ata lba ws h) = Ata_Idle"
    by (simp_all add: ata_write_sector_def ata_wait_ready_def ata_wait_drq_def ata_wait_loop_dev av_outb_def)
qed

lemma ata_write_dev:
  assumes "ata_ok d" "length b = 256"
  shows "ata_ok (disk_write_sector_uncached hw_ata lba (Some b) d)"
    "av_store (hwst (disk_write_sector_uncached hw_ata lba (Some b) d)) = (av_store (hwst d))(unat lba mod 2 ^ 28 := b)"
proof -
  let ?e = "bump_uncached_writes d"
  have e: "ata_disk_available ?e" "disk_preferred_backend ?e \<noteq> DISK_BACKEND_AHCI" "hwst ?e = hwst d" "av_mode (hwst d) = Ata_Idle"
    "\<forall>a. length (av_store (hwst d) a) = 256"
    using assms(1) by (simp_all add: ata_ok_def bump_uncached_writes_def)
  have w: "disk_write_sector_uncached hw_ata lba (Some b) d = ?e\<lparr>hwst := ata_write_sector hw_ata lba b (hwst d)\<rparr>"
    using e by (simp add: disk_write_sector_uncached_def ahci_write_retry_def ahci_write_sector_ex_def Let_def)
  show "ata_ok (disk_write_sector_uncached hw_ata lba (Some b) d)"
    "av_store (hwst (disk_write_sector_uncached hw_ata lba (Some b) d)) = (av_store (hwst d))(unat lba mod 2 ^ 28 := b)"
    unfolding w using e assms(2) ata_write_sector_dev [OF assms(2) e(4), of lba] by (simp_all add: ata_ok_def)
qed

lemma ata_valid_mod: "ata_valid lba \<Longrightarrow> unat lba mod 2 ^ 28 = unat lba"
  by (simp add: ata_valid_def word_less_nat_alt)

interpretation ata: block_device "disk_read_sector_uncached hw_ata" "disk_write_sector_uncached hw_ata" ata_content ata_ok ata_valid
proof unfold_locales
  fix d lba b
  assume "ata_ok d" "ata_valid lba"
  then show "\<exists>d'. disk_read_sector_uncached hw_ata lba (Some b) d = (DISK_IO_OK, Some (ata_content d lba), d') \<and> ata_ok d' \<and>
    ata_content d' = ata_content d" by (intro ata_read_dev)
next
  fix d lba and b :: sector
  assume "ata_ok d" "ata_valid lba" "length b = 256"
  then show "ata_ok (disk_write_sector_uncached hw_ata lba (Some b) d)" by (intro ata_write_dev(1))
next
  fix d lba l and b :: sector
  assume a: "ata_ok d" "ata_valid lba" "length b = 256" "ata_valid l"
  then show "ata_content (disk_write_sector_uncached hw_ata lba (Some b) d) l = (if l = lba then b else ata_content d l)"
    using ata_write_dev(2) [OF a(1,3)] ata_valid_mod by (simp add: ata_content_def word_unat_eq_iff)
next
  fix d lba
  assume "ata_ok d" "ata_valid lba"
  then show "length (ata_content d lba) = 256" by (simp add: ata_ok_def ata_content_def)
qed

section \<open>The cached disk as an array of sectors\<close>

datatype disk_op = Read_Op u32 | Write_Op u32 sector | Flush_Op

text \<open>One request of a client; a read gives the contents of the client's buffer afterwards.\<close>

fun disk_step :: "'h hw \<Rightarrow> sector \<Rightarrow> disk_op \<Rightarrow> 'h disk pcache \<Rightarrow> sector option \<times> 'h disk pcache" where
  "disk_step hw buf (Read_Op lba) c = disk_read_sector hw lba (Some buf) c"
| "disk_step hw buf (Write_Op lba ws) c = (None, disk_write_sector hw lba (Some ws) c)"
| "disk_step hw buf Flush_Op c = (None, page_cache_flush_all (disk_write_sector_uncached hw) c)"

primrec disk_run :: "'h hw \<Rightarrow> sector \<Rightarrow> disk_op list \<Rightarrow> 'h disk pcache \<Rightarrow> sector option list \<times> 'h disk pcache" where
  "disk_run hw buf [] c = ([], c)"
| "disk_run hw buf (op # ops) c =
     (let (r, c1) = disk_step hw buf op c; (rs, c2) = disk_run hw buf ops c1 in (r # rs, c2))"

text \<open>The specification: an array of sectors.\<close>

fun flat_step :: "disk_op \<Rightarrow> (u32 \<Rightarrow> sector) \<Rightarrow> sector option \<times> (u32 \<Rightarrow> sector)" where
  "flat_step (Read_Op lba) f = (Some (f lba), f)"
| "flat_step (Write_Op lba ws) f = (None, f(lba := ws))"
| "flat_step Flush_Op f = (None, f)"

primrec flat_run :: "disk_op list \<Rightarrow> (u32 \<Rightarrow> sector) \<Rightarrow> sector option list \<times> (u32 \<Rightarrow> sector)" where
  "flat_run [] f = ([], f)"
| "flat_run (op # ops) f = (let (r, f1) = flat_step op f; (rs, f2) = flat_run ops f1 in (r # rs, f2))"

fun valid_op :: "disk_op \<Rightarrow> bool" where
  "valid_op (Read_Op lba) = ata_valid lba"
| "valid_op (Write_Op lba ws) = (ata_valid lba \<and> length ws = 256)"
| "valid_op Flush_Op = True"

abbreviation ata_view :: "ata_dev disk pcache \<Rightarrow> u32 \<Rightarrow> sector" where
  "ata_view \<equiv> cache_view ata_content"

abbreviation ata_inv :: "ata_dev disk pcache \<Rightarrow> bool" where
  "ata_inv \<equiv> cache_inv ata_content ata_ok ata_valid"

lemma counted_dev:
  assumes "ata_inv c"
  shows "ata_inv (c\<lparr>pc_dev := (pc_dev c)\<lparr>disk_io_stats := s\<rparr>\<rparr>)" "ata_view (c\<lparr>pc_dev := (pc_dev c)\<lparr>disk_io_stats := s\<rparr>\<rparr>) = ata_view c"
proof -
  have "ata_ok ((pc_dev c)\<lparr>disk_io_stats := s\<rparr>)" "ata_content ((pc_dev c)\<lparr>disk_io_stats := s\<rparr>) = ata_content (pc_dev c)"
    using cache_invD(1) [OF assms] by (simp_all add: ata_ok_def ata_content_def fun_eq_iff)
  from ata.dev_replaced [OF assms this] show "ata_inv (c\<lparr>pc_dev := (pc_dev c)\<lparr>disk_io_stats := s\<rparr>\<rparr>)"
    "ata_view (c\<lparr>pc_dev := (pc_dev c)\<lparr>disk_io_stats := s\<rparr>\<rparr>) = ata_view c" by simp_all
qed

definition same_disk :: "(u32 \<Rightarrow> sector) \<Rightarrow> (u32 \<Rightarrow> sector) \<Rightarrow> bool" where
  "same_disk f g \<longleftrightarrow> (\<forall>lba. ata_valid lba \<longrightarrow> f lba = g lba)"

lemma disk_step_refines:
  assumes "ata_inv c" "valid_op op" "same_disk (ata_view c) f"
  shows "fst (disk_step hw_ata buf op c) = fst (flat_step op f) \<and> ata_inv (snd (disk_step hw_ata buf op c)) \<and>
    same_disk (ata_view (snd (disk_step hw_ata buf op c))) (snd (flat_step op f))"
proof (cases op)
  case (Read_Op lba)
  let ?s = "(disk_io_stats (pc_dev c))\<lparr>cached_reads := cached_reads (disk_io_stats (pc_dev c)) + 1\<rparr>"
  note C = counted_dev [OF assms(1), of ?s]
  from Read_Op assms(2) have v: "ata_valid lba" by simp
  from ata.read_spec [OF C(1) v, of buf] obtain c' where
    "page_cache_read_sector (disk_read_sector_uncached hw_ata) (disk_write_sector_uncached hw_ata) lba (Some buf)
       (c\<lparr>pc_dev := (pc_dev c)\<lparr>disk_io_stats := ?s\<rparr>\<rparr>) = (DISK_IO_OK, Some (ata_view c lba), c')"
    "ata_inv c'" "\<forall>m. ata_valid m \<longrightarrow> ata_view c' m = ata_view c m" by (auto simp: C(2))
  with assms(3) v Read_Op show ?thesis by (auto simp: disk_read_sector_def same_disk_def)
next
  case (Write_Op lba ws)
  let ?s = "(disk_io_stats (pc_dev c))\<lparr>cached_writes := cached_writes (disk_io_stats (pc_dev c)) + 1\<rparr>"
  note C = counted_dev [OF assms(1), of ?s]
  from Write_Op assms(2) have v: "ata_valid lba" "length ws = 256" by simp_all
  from ata.write_spec [OF C(1) v] obtain c' where
    "page_cache_write_sector (disk_write_sector_uncached hw_ata) lba (Some ws)
       (c\<lparr>pc_dev := (pc_dev c)\<lparr>disk_io_stats := ?s\<rparr>\<rparr>) = (DISK_IO_OK, c')"
    "ata_inv c'" "\<forall>m. ata_valid m \<longrightarrow> ata_view c' m = (if m = lba then ws else ata_view c m)" by (auto simp: C(2))
  with assms(3) v Write_Op show ?thesis by (auto simp: disk_write_sector_def same_disk_def)
next
  case Flush_Op
  with ata.flush_all_spec [OF assms(1)] assms(3) show ?thesis by (simp add: same_disk_def)
qed

lemma disk_run_refines:
  assumes "ata_inv c" "list_all valid_op ops" "same_disk (ata_view c) f"
  shows "fst (disk_run hw_ata buf ops c) = fst (flat_run ops f) \<and> ata_inv (snd (disk_run hw_ata buf ops c)) \<and>
    same_disk (ata_view (snd (disk_run hw_ata buf ops c))) (snd (flat_run ops f))"
  using assms
proof (induction ops arbitrary: c f)
  case (Cons op ops)
  have "valid_op op" "list_all valid_op ops" using Cons.prems(2) by simp_all
  with disk_step_refines [OF Cons.prems(1) _ Cons.prems(3), of op buf] Cons.IH [of "snd (disk_step hw_ata buf op c)" "snd (flat_step op f)"]
  show ?case by (simp add: split_beta Let_def)
qed simp

text \<open>A drive with every word zero behind a cache that has not been used.\<close>

definition ata_blank :: "ata_dev disk pcache" where
  "ata_blank = \<lparr>cache_lines = replicate CACHE_LINES \<lparr>cl_valid = False, cl_dirty = False, cl_ref = False, cl_lba = 0, cl_data = []\<rparr>,
     clock_hand = 0, cache_initialized = False,
     cache_stats = \<lparr>read_hits = 0, read_misses = 0, write_hits = 0, write_misses = 0, evictions = 0, buffered_writes = 0,
       flush_writes = 0, dirty_lines = 0\<rparr>,
     pc_dev = \<lparr>hwst = \<lparr>av_reg = \<lambda>_. 0, av_mode = Ata_Idle, av_store = \<lambda>_. replicate 256 0\<rparr>, ata_disk_available = True,
       disk_preferred_backend = DISK_BACKEND_AUTO, disk_io_stats = io_stats0, disk_sched_stats = sched_stats0,
       disk_read_errors = 0, disk_write_errors = 0, disk_last_error = DISK_IO_OK\<rparr>\<rparr>"

lemma ata_blank_inv: "ata_inv ata_blank"
proof -
  have "\<not> cl_valid (cline ata_blank i)" if "i < CACHE_LINES" for i
    using that by (simp add: ata_blank_def cline_def)
  moreover have "ata_ok (pc_dev ata_blank)" "length (cache_lines ata_blank) = CACHE_LINES" "clock_hand ata_blank < CACHE_LINES"
    by (simp_all add: ata_blank_def ata_ok_def)
  ultimately show ?thesis by (auto simp: cache_inv_def holds_sector_def line_ok_def)
qed

lemma ata_blank_view: "ata_view ata_blank = (\<lambda>_. replicate 256 0)"
proof -
  have "find_line lba ata_blank = None" for lba
    by (simp add: find_line_def find_slot_None ata_blank_def)
  then show ?thesis by (simp add: cache_view_def fun_eq_iff) (simp add: ata_blank_def ata_content_def)
qed

section \<open>Properties\<close>

text \<open>
  C3. The cached disk is an array of sectors. On an ATA drive, for every sequence of reads, writes and flushes
  of sectors below \<open>2\<^sup>2\<^sup>8\<close>, in any order and with any number of evictions on the way, the reads return exactly
  what they return on a plain array of sectors that starts with what the cached disk contains, every write taking
  effect at once; and after a final flush the drive itself contains that array.
\<close>
theorem disk_cache_transparent:
  assumes "ata_inv c" "list_all valid_op ops"
  shows "fst (disk_run hw_ata buf ops c) = fst (flat_run ops (ata_view c)) \<and>
    (\<forall>lba. lba < 0x10000000 \<longrightarrow>
       ata_content (pc_dev (page_cache_flush_all (disk_write_sector_uncached hw_ata) (snd (disk_run hw_ata buf ops c)))) lba =
       snd (flat_run ops (ata_view c)) lba)"
proof -
  have "same_disk (ata_view c) (ata_view c)" by (simp add: same_disk_def)
  note R = disk_run_refines [OF assms this, of buf]
  with ata.flush_all_spec(3) [of "snd (disk_run hw_ata buf ops c)"] show ?thesis
    by (simp add: same_disk_def ata_valid_def)
qed

theorem disk_cache_transparent_witness:
  "fst (disk_run hw_ata (replicate 256 7) [Write_Op 5 (replicate 256 9), Read_Op 5, Flush_Op, Read_Op 6] ata_blank) =
    [None, Some (replicate 256 9), None, Some (replicate 256 0)] \<and>
   ata_content (pc_dev (page_cache_flush_all (disk_write_sector_uncached hw_ata) (snd (disk_run hw_ata (replicate 256 7)
     [Write_Op 5 (replicate 256 9), Read_Op 5, Flush_Op, Read_Op 6] ata_blank)))) 5 = replicate 256 9"
  using disk_cache_transparent [OF ata_blank_inv, of "[Write_Op 5 (replicate 256 9), Read_Op 5, Flush_Op, Read_Op 6]" "replicate 256 7"]
  by (simp add: ata_valid_def ata_blank_view)

lemma drop_take_28: "take_bit 4 (drop_bit 24 x) = drop_bit 24 (take_bit 28 x)" "take_bit 8 (drop_bit 16 x) = take_bit 8 (drop_bit 16 (take_bit 28 x))"
  "take_bit 8 (drop_bit 8 x) = take_bit 8 (drop_bit 8 (take_bit 28 x))" "take_bit 8 x = take_bit 8 (take_bit 28 x)" for x :: u32
  by (simp_all add: bit_eq_iff bit_take_bit_iff bit_drop_bit_eq) auto

lemma ata_select_28: "take_bit 28 x = take_bit 28 y \<Longrightarrow> ata_select hw x h = ata_select hw y h"
  unfolding ata_select_def and_15 and_255 drop_take_28 [of x] drop_take_28 [of y] by simp

lemma take_28_add: "take_bit 28 (x + 0x10000000) = take_bit 28 x" for x :: u32
proof -
  have "(unat x + 268435456) mod 4294967296 mod 268435456 = unat x mod (268435456 :: nat)"
    by (simp add: mod_mod_cancel)
  then show ?thesis
    by (simp add: word_unat_eq_iff unsigned_take_bit_eq unat_word_ariths take_bit_eq_mod [where 'a = nat])
qed

text \<open>
  The ATA driver keeps only 28 bits of a block address, whatever the hardware: a read or a write of
  sector \<open>lba + 2\<^sup>2\<^sup>8\<close> does exactly what the access to sector \<open>lba\<close> does, and is not refused.
\<close>
theorem ata_address_aliasing:
  "ata_read_sector_ex hw (lba + 0x10000000) buffer d = ata_read_sector_ex hw lba buffer d \<and>
   ata_write_sector hw (lba + 0x10000000) ws h = ata_write_sector hw lba ws h"
proof -
  have "ata_select hw (lba + 0x10000000) = ata_select hw lba" by (rule ext) (rule ata_select_28 [OF take_28_add])
  then show ?thesis unfolding ata_read_sector_ex_def ata_write_sector_def by (simp only: simp_thms)
qed

end
