(* ===== verification/Partition.thy ===== *)
theory Partition
  imports AtaDevice
begin

text \<open>
  Partition tables and file system probing: \<open>src/kernel/partition.c\<close>, \<open>partition.h\<close>, \<open>filesystem.c\<close> and
  \<open>filesystem.h\<close>. A sector buffer is read through a byte pointer, so its words are split into their low
  and high byte. An access outside the 512 bytes is undefined: the functions where it can happen have an option result, \<open>None\<close>.
\<close>

section \<open>Bytes of a sector\<close>

definition sector_bytes :: "sector \<Rightarrow> u8 list" where
  "sector_bytes ws = concat (map (\<lambda>w. [ucast w, ucast (drop_bit 8 w)]) ws)"

definition read_le16 :: "u8 list \<Rightarrow> nat \<Rightarrow> u16" where
  "read_le16 p i = ucast (p ! i) OR push_bit 8 (ucast (p ! (i + 1)))"

definition read_le32 :: "u8 list \<Rightarrow> nat \<Rightarrow> u32" where
  "read_le32 p i = ucast (p ! i) OR push_bit 8 (ucast (p ! (i + 1))) OR push_bit 16 (ucast (p ! (i + 2))) OR
     push_bit 24 (ucast (p ! (i + 3)))"

definition read_le64 :: "u8 list \<Rightarrow> nat \<Rightarrow> u64" where
  "read_le64 p i = ucast (p ! i) OR push_bit 8 (ucast (p ! (i + 1))) OR push_bit 16 (ucast (p ! (i + 2))) OR
     push_bit 24 (ucast (p ! (i + 3))) OR push_bit 32 (ucast (p ! (i + 4))) OR push_bit 40 (ucast (p ! (i + 5))) OR
     push_bit 48 (ucast (p ! (i + 6))) OR push_bit 56 (ucast (p ! (i + 7)))"

text \<open>The scan of the sixteen bytes of a GUID stops at the first that is not zero.\<close>

primrec guid_scan :: "u8 list \<Rightarrow> nat \<Rightarrow> nat \<Rightarrow> bool option" where
  "guid_scan p 0 i = Some True"
| "guid_scan p (Suc n) i = (if i \<ge> length p then None else if p ! i \<noteq> 0 then Some False else guid_scan p n (Suc i))"

definition guid_is_zero :: "u8 list \<Rightarrow> nat \<Rightarrow> bool option" where
  "guid_is_zero p i = guid_scan p 16 i"

section \<open>Partition tables\<close>

record partition_entry =
  pe_valid :: bool
  pe_type :: u8
  lba_start :: u32
  sector_count :: u32

abbreviation PARTITION_MAX_ENTRIES :: nat where "PARTITION_MAX_ENTRIES \<equiv> 4"

definition entry_none :: partition_entry where
  "entry_none = \<lparr>pe_valid = False, pe_type = 0, lba_start = 0, sector_count = 0\<rparr>"

definition clear_entries :: "nat \<Rightarrow> partition_entry list \<Rightarrow> partition_entry list" where
  "clear_entries n es = replicate n entry_none @ drop n es"

definition mbr_step :: "u8 list \<Rightarrow> nat \<Rightarrow> nat \<times> partition_entry list \<Rightarrow> nat \<times> partition_entry list" where
  "mbr_step bytes i = (\<lambda>(cnt, es).
     let off = 446 + i * 16; ty = bytes ! (off + 4); start = read_le32 bytes (off + 8); secs = read_le32 bytes (off + 12) in
     if ty = 0 \<or> secs = 0 then (cnt, es)
     else (cnt + 1, es[cnt := \<lparr>pe_valid = True, pe_type = ty, lba_start = start, sector_count = secs\<rparr>]))"

text \<open>\<open>junk\<close> is what the buffer on the stack holds before the read.\<close>

definition partition_scan_mbr ::
  "'h hw \<Rightarrow> sector \<Rightarrow> partition_entry list option \<Rightarrow> int \<Rightarrow> 'h disk \<Rightarrow> int \<times> partition_entry list option \<times> 'h disk" where
  "partition_scan_mbr hw junk out_entries max_entries d = (case out_entries of
     None \<Rightarrow> (-1, None, d)
   | Some es0 \<Rightarrow>
       if max_entries \<le> 0 then (-1, Some es0, d)
       else let m = nat max_entries; es = clear_entries m es0;
                (rc, sec, d1) = disk_read_sector_uncached hw 0 (Some junk) d;
                bytes = sector_bytes (the sec)
            in if rc \<noteq> DISK_IO_OK then (-1, Some es, d1)
               else if bytes ! 510 \<noteq> 0x55 \<or> bytes ! 511 \<noteq> 0xAA then (0, Some es, d1)
               else let (cnt, es') = fold (mbr_step bytes) [0..<min PARTITION_MAX_ENTRIES m] (0, es)
                    in (int cnt, Some es', d1))"

text \<open>
  The loop over GPT entries with the number of entries left. The outer option is undefined behaviour; the
  count is \<open>None\<close> when a read fails.
\<close>

primrec gpt_loop :: "'h hw \<Rightarrow> sector \<Rightarrow> nat \<Rightarrow> u32 \<Rightarrow> u32 \<Rightarrow> u32 \<Rightarrow> nat \<Rightarrow> u32 \<Rightarrow> nat \<Rightarrow> partition_entry list \<Rightarrow> 'h disk \<Rightarrow>
    (int \<times> partition_entry list \<times> 'h disk) option" where
  "gpt_loop hw junk m elba esize eps 0 i cnt es d = Some (int cnt, es, d)"
| "gpt_loop hw junk m elba esize eps (Suc n) i cnt es d =
     (if cnt \<ge> m then Some (int cnt, es, d)
      else let sector_index = i div eps; entry_offset = unat ((i mod eps) * esize);
               (rc, sec, d1) = disk_read_sector_uncached hw (elba + sector_index) (Some junk) d;
               bytes = sector_bytes (the sec)
           in if rc \<noteq> DISK_IO_OK then Some (-1, es, d1)
              else case guid_is_zero bytes (entry_offset + 16) of
                None \<Rightarrow> None
              | Some True \<Rightarrow> gpt_loop hw junk m elba esize eps n (i + 1) cnt es d1
              | Some False \<Rightarrow>
                  if entry_offset + 48 > length bytes then None
                  else let first_lba = read_le64 bytes (entry_offset + 32); last_lba = read_le64 bytes (entry_offset + 40) in
                    if last_lba < first_lba then gpt_loop hw junk m elba esize eps n (i + 1) cnt es d1
                    else gpt_loop hw junk m elba esize eps n (i + 1) (cnt + 1)
                      (es[cnt := \<lparr>pe_valid = True, pe_type = 0xEE, lba_start = ucast first_lba,
                                  sector_count = ucast (last_lba - first_lba + 1)\<rparr>]) d1)"

definition efi_part :: "u8 list" where
  "efi_part = [0x45, 0x46, 0x49, 0x20, 0x50, 0x41, 0x52, 0x54]"

definition partition_scan_gpt ::
  "'h hw \<Rightarrow> sector \<Rightarrow> partition_entry list option \<Rightarrow> int \<Rightarrow> 'h disk \<Rightarrow> (int \<times> partition_entry list option \<times> 'h disk) option" where
  "partition_scan_gpt hw junk out_entries max_entries d = (case out_entries of
     None \<Rightarrow> Some (-1, None, d)
   | Some es0 \<Rightarrow>
       if max_entries \<le> 0 then Some (-1, Some es0, d)
       else let m = nat max_entries; es = clear_entries m es0;
                (rc, sec, d1) = disk_read_sector_uncached hw 0 (Some junk) d;
                bytes = sector_bytes (the sec)
            in if rc \<noteq> DISK_IO_OK then Some (-1, Some es, d1)
               else if bytes ! 510 \<noteq> 0x55 \<or> bytes ! 511 \<noteq> 0xAA then Some (0, Some es, d1)
               else let (rc, sec, d2) = disk_read_sector_uncached hw 1 sec d1; bytes = sector_bytes (the sec)
               in if rc \<noteq> DISK_IO_OK then Some (-1, Some es, d2)
                  else if take 8 bytes \<noteq> efi_part then Some (0, Some es, d2)
                  else let entry_lba = read_le32 bytes 72; entry_count = read_le32 bytes 80; entry_size = read_le32 bytes 84 in
                    if entry_size = 0 then Some (0, Some es, d2)
                    else let entries_per_sector = 512 div entry_size in
                      if entries_per_sector = 0 then Some (0, Some es, d2)
                      else map_option (\<lambda>(r, es', d'). (r, Some es', d'))
                        (gpt_loop hw junk m entry_lba entry_size entries_per_sector (unat entry_count) 0 0 es d2))"

section \<open>Probing for ext2\<close>

record ext2_info =
  e2_valid :: bool
  e2_block_size :: u32
  e2_inode_count :: u32
  e2_block_count :: u32

text \<open>A shift by 32 or more is undefined in C.\<close>

definition ext2_probe ::
  "'h hw \<Rightarrow> sector \<Rightarrow> u32 \<Rightarrow> ext2_info option \<Rightarrow> 'h disk \<Rightarrow> (int \<times> ext2_info option \<times> 'h disk) option" where
  "ext2_probe hw junk partition_lba out_info d =
     (if out_info = None then Some (-1, None, d)
      else let zero = \<lparr>e2_valid = False, e2_block_size = 0, e2_inode_count = 0, e2_block_count = 0\<rparr>;
               (rc, sec, d1) = disk_read_sector_uncached hw (partition_lba + 2) (Some junk) d;
               bytes = sector_bytes (the sec)
           in if rc \<noteq> DISK_IO_OK then Some (-1, Some zero, d1)
              else if read_le16 bytes 56 \<noteq> 0xEF53 then Some (0, Some zero, d1)
              else let log_block_size = read_le32 bytes 24 in
                if log_block_size \<ge> 32 then None
                else Some (1, Some \<lparr>e2_valid = True, e2_block_size = push_bit (unat log_block_size) 1024,
                     e2_inode_count = read_le32 bytes 0, e2_block_count = read_le32 bytes 4\<rparr>, d1))"

section \<open>Encoding and decoding\<close>

definition le32 :: "u32 \<Rightarrow> u8 list" where
  "le32 x = [ucast x, ucast (drop_bit 8 x), ucast (drop_bit 16 x), ucast (drop_bit 24 x)]"

lemma read_le32_le32: "ucast (ucast x :: u8) OR push_bit 8 (ucast (ucast (drop_bit 8 x) :: u8)) OR
    push_bit 16 (ucast (ucast (drop_bit 16 x) :: u8)) OR push_bit 24 (ucast (ucast (drop_bit 24 x) :: u8)) = x" for x :: u32
proof (rule bit_word_eqI)
  fix n assume "n < LENGTH(32)"
  then have "n < 8 \<or> 8 \<le> n \<and> n < 16 \<or> 16 \<le> n \<and> n < 24 \<or> 24 \<le> n \<and> n < 32" by simp arith
  then show "bit (ucast (ucast x :: u8) OR push_bit 8 (ucast (ucast (drop_bit 8 x) :: u8)) OR
    push_bit 16 (ucast (ucast (drop_bit 16 x) :: u8)) OR push_bit 24 (ucast (ucast (drop_bit 24 x) :: u8)) :: u32) n = bit x n"
    by (elim disjE conjE) (simp_all add: bit_simps less_diff_conv2)
qed

text \<open>Packing bytes into the words of a sector, low byte first.\<close>

fun pack_words :: "u8 list \<Rightarrow> sector" where
  "pack_words (a # b # bs) = (ucast a OR push_bit 8 (ucast b)) # pack_words bs"
| "pack_words _ = []"

lemma unpack_word: "ucast (ucast a OR push_bit 8 (ucast b) :: u16) = (a :: u8)"
  "ucast (drop_bit 8 (ucast a OR push_bit 8 (ucast b) :: u16)) = (b :: u8)"
  by (rule bit_word_eqI; auto simp: bit_simps dest: bit_imp_le_length)+

lemma sector_bytes_pack: "even (length bs) \<Longrightarrow> sector_bytes (pack_words bs) = bs"
proof (induction bs rule: pack_words.induct)
  case (1 a b bs)
  then show ?case by (simp add: sector_bytes_def unpack_word [simplified])
qed (simp_all add: sector_bytes_def)

lemma length_sector_bytes: "length (sector_bytes ws) = 2 * length ws"
  by (induction ws) (simp_all add: sector_bytes_def)

text \<open>The layout of a master boot record: boot code, four slots of sixteen bytes, the signature.\<close>

record mbr_slot =
  ms_head :: "u8 list"
  ms_type :: u8
  ms_tail :: "u8 list"
  ms_start :: u32
  ms_count :: u32

definition slot_wf :: "mbr_slot \<Rightarrow> bool" where
  "slot_wf s \<longleftrightarrow> length (ms_head s) = 4 \<and> length (ms_tail s) = 3"

definition slot_bytes :: "mbr_slot \<Rightarrow> u8 list" where
  "slot_bytes s = ms_head s @ [ms_type s] @ ms_tail s @ le32 (ms_start s) @ le32 (ms_count s)"

definition slot_used :: "mbr_slot \<Rightarrow> bool" where
  "slot_used s \<longleftrightarrow> ms_type s \<noteq> 0 \<and> ms_count s \<noteq> 0"

definition slot_entry :: "mbr_slot \<Rightarrow> partition_entry" where
  "slot_entry s = \<lparr>pe_valid = True, pe_type = ms_type s, lba_start = ms_start s, sector_count = ms_count s\<rparr>"

definition mbr_image :: "u8 list \<Rightarrow> mbr_slot list \<Rightarrow> u8 list" where
  "mbr_image boot slots = boot @ concat (map slot_bytes slots) @ [0x55, 0xAA]"

lemma length_slot_bytes: "slot_wf s \<Longrightarrow> length (slot_bytes s) = 16"
  by (simp add: slot_wf_def slot_bytes_def le32_def)

lemma drop_concat_blocks:
  "\<forall>x \<in> set xs. length (f x) = n \<Longrightarrow> i < length xs \<Longrightarrow>
   drop (i * n) (concat (map f xs)) = f (xs ! i) @ concat (map f (drop (Suc i) xs))"
proof (induction xs arbitrary: i)
  case (Cons x xs)
  then show ?case by (cases i) simp_all
qed simp

lemma length_concat_blocks: "\<forall>x \<in> set xs. length (f x) = n \<Longrightarrow> length (concat (map f xs)) = length xs * n"
  by (induction xs) simp_all

lemma slot_bytes_nth:
  assumes "slot_wf s"
  shows "(slot_bytes s @ r) ! 4 = ms_type s" "read_le32 (slot_bytes s @ r) 8 = ms_start s" "read_le32 (slot_bytes s @ r) 12 = ms_count s"
  using assms read_le32_le32 [of "ms_start s"] read_le32_le32 [of "ms_count s"]
  by (simp_all add: slot_wf_def slot_bytes_def le32_def read_le32_def nth_append)

lemma read_le32_drop: "k \<le> length p \<Longrightarrow> read_le32 (drop k p) i = read_le32 p (k + i)"
  by (simp add: read_le32_def add.assoc)

lemma mbr_image_slot:
  assumes "length boot = 446" "\<forall>s \<in> set slots. slot_wf s" "i < length slots"
  shows "mbr_image boot slots ! (446 + i * 16 + 4) = ms_type (slots ! i)"
    "read_le32 (mbr_image boot slots) (446 + i * 16 + 8) = ms_start (slots ! i)"
    "read_le32 (mbr_image boot slots) (446 + i * 16 + 12) = ms_count (slots ! i)"
proof -
  let ?p = "mbr_image boot slots" and ?k = "446 + i * 16"
  have b: "\<forall>x \<in> set slots. length (slot_bytes x) = 16" using assms(2) length_slot_bytes by blast
  have len: "length (concat (map slot_bytes slots)) = length slots * 16" by (rule length_concat_blocks [OF b])
  then have l: "?k \<le> length ?p" using assms(1,3) by (simp add: mbr_image_def)
  have d: "drop ?k ?p = slot_bytes (slots ! i) @ concat (map slot_bytes (drop (Suc i) slots)) @ [0x55, 0xAA]"
    using drop_concat_blocks [OF b assms(3)] assms(1,3) len by (simp add: mbr_image_def)
  have w: "slot_wf (slots ! i)" using assms(2,3) by simp
  show "?p ! (?k + 4) = ms_type (slots ! i)" using slot_bytes_nth(1) [OF w] l nth_drop [of ?k ?p 4] unfolding d by simp
  show "read_le32 ?p (?k + 8) = ms_start (slots ! i)"
    using slot_bytes_nth(2) [OF w] read_le32_drop [OF l, of 8] unfolding d by simp
  show "read_le32 ?p (?k + 12) = ms_count (slots ! i)"
    using slot_bytes_nth(3) [OF w] read_le32_drop [OF l, of 12] unfolding d by simp
qed

definition mbr_entries :: "mbr_slot list \<Rightarrow> nat \<Rightarrow> partition_entry list" where
  "mbr_entries slots k = map slot_entry (filter slot_used (take k slots))"

lemma mbr_fold:
  assumes "length boot = 446" "\<forall>s \<in> set slots. slot_wf s" "k \<le> length slots" "k \<le> m"
  shows "fold (mbr_step (mbr_image boot slots)) [0..<k] (0, clear_entries m out) =
    (length (mbr_entries slots k), mbr_entries slots k @ replicate (m - length (mbr_entries slots k)) entry_none @ drop m out)"
  using assms(3,4)
proof (induction k)
  case 0
  then show ?case by (simp add: mbr_entries_def clear_entries_def)
next
  case (Suc k)
  have k: "k < length slots" using Suc.prems by simp
  have t: "take (Suc k) slots = take k slots @ [slots ! k]" using k by (rule take_Suc_conv_app_nth)
  have "length (mbr_entries slots k) \<le> k" unfolding mbr_entries_def using length_filter_le [of slot_used "take k slots"] by simp
  with Suc.prems have lt: "length (mbr_entries slots k) < m" by simp
  then have r: "replicate (m - length (mbr_entries slots k)) entry_none = entry_none # replicate (m - Suc (length (mbr_entries slots k))) entry_none"
    by (metis Suc_diff_Suc replicate_Suc)
  have es': "mbr_entries slots (Suc k) = mbr_entries slots k @ (if slot_used (slots ! k) then [slot_entry (slots ! k)] else [])"
    by (simp add: mbr_entries_def t)
  show ?case using Suc.IH Suc.prems mbr_image_slot [OF assms(1,2) k] r
    by (auto simp: mbr_step_def es' slot_used_def slot_entry_def list_update_append)
qed

section \<open>Properties\<close>

text \<open>
  C36. Reading the master boot record back: when sector 0 holds a boot record made of boot code, four partition
  slots and the signature, \<open>partition_scan_mbr\<close> returns exactly the used slots (type and length not
  zero) among the first \<open>max_entries\<close>, in order, with their type, start and length; the caller's remaining entries up to
  \<open>max_entries\<close> are cleared, and nothing beyond them is written.
\<close>
theorem mbr_roundtrip:
  assumes "disk_read_sector_uncached hw 0 (Some junk) d = (DISK_IO_OK, Some (pack_words (mbr_image boot slots)), d')"
    and "length boot = 446" "length slots = 4" "\<forall>s \<in> set slots. slot_wf s" "0 < mx"
  shows "partition_scan_mbr hw junk (Some out) (int mx) d =
    (let es = map slot_entry (filter slot_used (take mx slots))
     in (int (length es), Some (es @ replicate (mx - length es) entry_none @ drop mx out), d'))"
proof -
  have b: "\<forall>x \<in> set slots. length (slot_bytes x) = 16" using assms(4) length_slot_bytes by blast
  have len: "length (concat (map slot_bytes slots)) = 64" using length_concat_blocks [OF b] assms(3) by simp
  let ?p = "mbr_image boot slots"
  have bytes: "sector_bytes (pack_words ?p) = ?p" by (rule sector_bytes_pack) (simp add: mbr_image_def len assms(2))
  have sig: "?p ! 510 = 0x55" "?p ! 511 = 0xAA" by (simp_all add: mbr_image_def nth_append len assms(2))
  have t: "take (min 4 mx) slots = take mx slots" using assms(3) by (simp add: min_def)
  show ?thesis using assms(1,5) sig mbr_fold [OF assms(2,4), of "min 4 mx" mx out] assms(3)
    by (simp add: partition_scan_mbr_def bytes Let_def t mbr_entries_def)
qed

lemma length_pack_words: "length (pack_words bs) = length bs div 2"
  by (induction bs rule: pack_words.induct) simp_all

text \<open>An ATA drive with the given sectors at 0 and 1 and zeros elsewhere.\<close>

definition ata_with :: "sector \<Rightarrow> sector \<Rightarrow> ata_dev disk" where
  "ata_with s0 s1 = (pc_dev ata_blank)\<lparr>hwst := (hwst (pc_dev ata_blank))\<lparr>av_store :=
     (\<lambda>a. if a = 0 then s0 else if a = 1 then s1 else replicate 256 0)\<rparr>\<rparr>"

lemma ata_with_ok: "length s0 = 256 \<Longrightarrow> length s1 = 256 \<Longrightarrow> ata_ok (ata_with s0 s1)"
  by (simp add: ata_ok_def ata_with_def ata_blank_def)

lemma ata_with_content: "ata_content (ata_with s0 s1) 0 = s0" "ata_content (ata_with s0 s1) 1 = s1"
  by (simp_all add: ata_content_def ata_with_def)

definition one_slot :: mbr_slot where
  "one_slot = \<lparr>ms_head = [0x80, 0, 0, 0], ms_type = 0x83, ms_tail = [0, 0, 0], ms_start = 2048, ms_count = 4096\<rparr>"

definition no_slot :: mbr_slot where
  "no_slot = \<lparr>ms_head = [0, 0, 0, 0], ms_type = 0, ms_tail = [0, 0, 0], ms_start = 0, ms_count = 0\<rparr>"

abbreviation mbr_one :: sector where
  "mbr_one \<equiv> pack_words (mbr_image (replicate 446 0) [no_slot, one_slot, no_slot, no_slot])"

lemma length_mbr_one: "length mbr_one = 256"
  by (simp add: length_pack_words mbr_image_def slot_bytes_def no_slot_def one_slot_def le32_def)

theorem mbr_roundtrip_witness:
  "\<exists>d'. partition_scan_mbr hw_ata [] (Some [entry_none, entry_none]) (int 2) (ata_with mbr_one (replicate 256 0)) =
    (1, Some [\<lparr>pe_valid = True, pe_type = 0x83, lba_start = 2048, sector_count = 4096\<rparr>, entry_none], d')"
proof -
  have "ata_ok (ata_with mbr_one (replicate 256 0))" by (simp add: ata_with_ok length_mbr_one)
  from ata_read_dev [OF this, of 0 "[]"] obtain d' where
    "disk_read_sector_uncached hw_ata 0 (Some []) (ata_with mbr_one (replicate 256 0)) = (DISK_IO_OK, Some mbr_one, d')"
    by (auto simp: ata_with_content)
  from mbr_roundtrip [OF this, of 2 "[entry_none, entry_none]"] show ?thesis
    by (auto simp: slot_wf_def one_slot_def no_slot_def slot_used_def slot_entry_def)
qed

lemma div_small_u32: "a \<noteq> 0 \<Longrightarrow> unat ((512 :: u32) div a) = 512 div unat a" for a :: u32
  by (simp add: unat_div)

text \<open>The byte offset of an entry leaves room for a whole entry in the sector.\<close>

lemma gpt_offset:
  fixes i esize :: u32
  assumes "esize \<noteq> 0" "512 div esize \<noteq> 0"
  shows "unat ((i mod (512 div esize)) * esize) + unat esize \<le> 512"
proof -
  let ?e = "unat esize" and ?q = "512 div unat esize"
  have q: "unat (512 div esize) = ?q" using assms(1) by (rule div_small_u32)
  have "?q \<noteq> 0" using assms(2) q by (metis unat_eq_zero)
  then have r: "unat i mod ?q < ?q" by simp
  then have "Suc (unat i mod ?q) * ?e \<le> ?q * ?e" by (intro mult_le_mono1) simp
  also have "\<dots> \<le> 512" by simp
  finally have le: "unat i mod ?q * ?e + ?e \<le> 512" by simp
  have im: "unat (i mod (512 div esize)) = unat i mod ?q" by (simp only: unat_mod q)
  have "unat ((i mod (512 div esize)) * esize) = (unat i mod ?q * ?e) mod 2 ^ LENGTH(32)"
    by (simp only: unat_word_ariths(2) im)
  also have "\<dots> = unat i mod ?q * ?e" using le by simp
  finally show ?thesis using le by simp
qed

lemma guid_scan_defined: "i + n \<le> length p \<Longrightarrow> guid_scan p n i \<noteq> None"
  by (induction n arbitrary: i) auto

text \<open>What the scan relies on: a successful read delivers 256 words.\<close>

definition full_reads :: "'h hw \<Rightarrow> bool" where
  "full_reads hw \<longleftrightarrow> (\<forall>lba b d b' d'. disk_read_sector_uncached hw lba (Some b) d = (DISK_IO_OK, b', d') \<longrightarrow>
     (\<exists>ws. b' = Some ws \<and> length ws = 256))"

lemma gpt_loop_defined:
  assumes "full_reads hw" "esize \<noteq> 0" "512 div esize \<noteq> 0" "48 \<le> unat esize"
  shows "\<exists>r es' d'. gpt_loop hw junk m elba esize (512 div esize) n i cnt es d = Some (r, es', d') \<and> r \<le> int (max m cnt) \<and>
    length es' = length es"
proof (induction n arbitrary: i cnt es d)
  case 0
  show ?case by simp
next
  case (Suc n)
  obtain rc sec d1 where rd: "disk_read_sector_uncached hw (elba + i div (512 div esize)) (Some junk) d = (rc, sec, d1)"
    by (metis prod_cases3)
  let ?off = "unat ((i mod (512 div esize)) * esize)"
  show ?case
  proof (cases "cnt < m \<and> rc = DISK_IO_OK")
    case False
    with rd show ?thesis by (cases "cnt < m") auto
  next
    case True
    with rd assms(1) obtain ws where ws: "sec = Some ws" "length ws = 256" by (fastforce simp: full_reads_def)
    then have len: "length (sector_bytes ws) = 512" by (simp add: length_sector_bytes)
    have off: "?off + 48 \<le> 512" using gpt_offset [OF assms(2,3), of i] assms(4) by simp
    obtain z where z: "guid_is_zero (sector_bytes ws) (?off + 16) = Some z"
      using guid_scan_defined [of "?off + 16" 16 "sector_bytes ws"] off len by (auto simp: guid_is_zero_def)
    have nxt: "max m (Suc cnt) = max m cnt" using True by simp
    show ?thesis
      using True rd ws(1) z off len Suc.IH [of "i + 1" cnt es d1]
        Suc.IH [of "i + 1" "Suc cnt" "es[cnt := \<lparr>pe_valid = True, pe_type = 0xEE,
          lba_start = ucast (read_le64 (sector_bytes ws) (?off + 32)),
          sector_count = ucast (read_le64 (sector_bytes ws) (?off + 40) - read_le64 (sector_bytes ws) (?off + 32) + 1)\<rparr>]" d1]
      by (cases z) (simp_all add: Let_def nxt)
  qed
qed

text \<open>What is relied on of the AHCI driver: a successful read delivers 256 words.\<close>

definition ahci_full :: "'h hw \<Rightarrow> bool" where
  "ahci_full hw \<longleftrightarrow> (\<forall>p lba b h b' h'. ahci_read_sector hw p lba b h = (AHCI_READ_OK, b', h') \<longrightarrow> length b' = 256)"

lemma length_ata_read_words: "length (fst (ata_read_words hw n h)) = n"
  by (induction n arbitrary: h) (simp_all add: split_beta Let_def)

lemma ata_read_waits: "fst (ata_read_idle hw n h) \<noteq> Inl DISK_IO_OK" "fst (ata_read_drq hw n h) \<noteq> Inl DISK_IO_OK"
  by (induction n arbitrary: h) (simp_all add: split_beta Let_def)

lemma ata_read_full:
  assumes "ata_read_sector_ex hw lba b d = (DISK_IO_OK, b', d')"
  shows "\<exists>ws. b' = Some ws \<and> length ws = 256"
proof -
  obtain r1 h1 where w1: "ata_read_idle hw ATA_TIMEOUT (hwst d) = (r1, h1)" by fastforce
  obtain r2 h2 where w2: "ata_read_drq hw (case r1 of Inr n \<Rightarrow> n | Inl _ \<Rightarrow> 0) (outb hw PORT_COMMAND CMD_READ (ata_select hw lba h1)) = (r2, h2)"
    by fastforce
  have "r1 \<noteq> Inl DISK_IO_OK" "r2 \<noteq> Inl DISK_IO_OK" using ata_read_waits [of hw] w1 w2 by (metis fst_conv)+
  then show ?thesis using assms w1 w2 length_ata_read_words [of hw 256 h2]
    by (auto simp: ata_read_sector_ex_def split_beta Let_def split: if_splits sum.splits)
qed

lemma ahci_fullD: "ahci_full hw \<Longrightarrow> ahci_read_sector hw p lba b h = (AHCI_READ_OK, b', h') \<Longrightarrow> length b' = 256"
  unfolding ahci_full_def by blast

lemma ahci_attempts_full:
  "ahci_full hw \<Longrightarrow> ahci_read_attempts hw p lba n b h = (Some DISK_IO_OK, b', h') \<Longrightarrow> length b' = 256"
  by (induction n arbitrary: b h) (auto simp: Let_def split: if_splits prod.splits dest: ahci_fullD)

lemma ahci_ports_full:
  "ahci_full hw \<Longrightarrow> ahci_read_ports hw r lba ps b h = (DISK_IO_OK, b', h') \<Longrightarrow> length b' = 256"
proof (induction ps arbitrary: b h)
  case (Cons p ps)
  then show ?case
    by (cases "ahci_read_attempts hw p lba DISK_READ_RETRY_COUNT b h")
      (auto split: if_splits option.splits simp del: ahci_read_attempts.simps dest: ahci_attempts_full)
qed simp

lemma ahci_read_full:
  assumes "ahci_full hw" "ahci_read_sector_ex hw lba b d = (DISK_IO_OK, b', d')"
  shows "\<exists>ws. b' = Some ws \<and> length ws = 256"
proof -
  obtain x where x: "b = Some x" using assms(2) by (cases b) (auto simp: ahci_read_sector_ex_def)
  obtain rep h where r: "ahci_get_runtime_report hw (hwst d) = (rep, h)" by fastforce
  with assms(2) x obtain r' where r': "rep = Some r'" by (cases rep) (auto simp: ahci_read_sector_ex_def)
  obtain rc b1 h1 where p: "ahci_read_ports hw r' lba [0..<AHCI_MAX_PORTS] x h = (rc, b1, h1)" by (metis prod_cases3)
  from assms(2) x r r' p have "rc = DISK_IO_OK" "b' = Some b1"
    by (auto simp: ahci_read_sector_ex_def Let_def simp del: upt_rec_numeral split: if_splits)
  with ahci_ports_full [OF assms(1)] p show ?thesis by blast
qed

lemma ata_attempts_full:
  "rc \<noteq> DISK_IO_OK \<Longrightarrow> ata_read_attempts hw lba n rc b d = (DISK_IO_OK, b', d') \<Longrightarrow> \<exists>ws. b' = Some ws \<and> length ws = 256"
  by (induction n arbitrary: rc b d) (auto simp: Let_def split: if_splits prod.splits dest: ata_read_full)

lemma full_readsI:
  assumes "ahci_full hw"
  shows "full_reads hw"
  unfolding full_reads_def
proof (intro allI impI)
  fix lba b and d :: "'a disk" and b' d'
  assume a: "disk_read_sector_uncached hw lba (Some b) d = (DISK_IO_OK, b', d')"
  let ?e = "bump_uncached_reads d"
  have ata: "\<exists>ws. b' = Some ws \<and> length ws = 256" if "note_read (ata_read_sector_ex hw lba (Some b) ?e) = (DISK_IO_OK, b', d')"
    using that ata_read_full [of hw lba "Some b" ?e] by (cases "ata_read_sector_ex hw lba (Some b) ?e") (auto simp: note_read_def)
  have ahci: "\<exists>ws. b' = Some ws \<and> length ws = 256" if "note_read (ahci_read_sector_ex hw lba (Some b) ?e) = (DISK_IO_OK, b', d')"
    using that ahci_read_full [OF assms, of lba "Some b" ?e]
    by (cases "ahci_read_sector_ex hw lba (Some b) ?e") (auto simp: note_read_def)
  obtain rc b1 d1 where r: "ahci_read_sector_ex hw lba (Some b) ?e = (rc, b1, d1)" by (metis prod_cases3)
  have nt: "rc \<notin> {DISK_IO_ERR_TIMEOUT, DISK_IO_ERR_TFES}"
    using ahci_ex_rc(1) [of hw lba "Some b" ?e] r by auto
  show "\<exists>ws. b' = Some ws \<and> length ws = 256"
    using a ata ahci r nt ahci_read_full [OF assms, of lba "Some b" ?e] ata_attempts_full [of DISK_IO_ERR_TIMEOUT hw lba DISK_READ_RETRY_COUNT b1 d1]
    by (auto simp: disk_read_sector_uncached_def Let_def simp del: ata_read_attempts.simps split: if_splits)
qed


definition gpt_header :: sector where
  "gpt_header = pack_words (efi_part @ replicate 64 0 @ le32 2 @ le32 0 @ le32 1 @ le32 128 @ replicate 424 0)"

lemma gpt_header_facts: "length gpt_header = 256" "read_le32 (sector_bytes gpt_header) 84 = 128"
proof -
  show "length gpt_header = 256" by (simp add: gpt_header_def length_pack_words efi_part_def le32_def)
  have "sector_bytes gpt_header = efi_part @ replicate 64 0 @ le32 2 @ le32 0 @ le32 1 @ le32 128 @ replicate 424 0"
    unfolding gpt_header_def by (rule sector_bytes_pack) (simp add: efi_part_def le32_def)
  then show "read_le32 (sector_bytes gpt_header) 84 = 128"
    by (simp add: read_le32_def efi_part_def le32_def nth_append)
qed


end
