(* ===== verification/RemoteAuth.thy ===== *)
theory RemoteAuth
  imports Prelude
begin

text \<open>
  Remote authorisation, the audit log and transfer tracking of \<open>src/kernel/remote_auth.c\<close> and
  \<open>remote_auth.h\<close>. The tick counter of the kernel is a field of the state, changed only by time.
\<close>

section \<open>State\<close>

record audit_entry =
  ae_tick :: u32
  ae_role :: u32
  ae_request_id :: u32
  ae_nonce :: u32
  ae_cmd_hash :: u32
  ae_status :: u32
  ae_rejected :: u32

record transfer_state =
  tr_active :: bool
  tr_transfer_id :: u32
  tr_total_len :: u32
  tr_received_len :: u32
  tr_checksum :: u32
  tr_last_chunk_index :: u32

abbreviation REMOTE_ROLE_VIEWER :: u32 where "REMOTE_ROLE_VIEWER \<equiv> 1"
abbreviation REMOTE_ROLE_ADMIN :: u32 where "REMOTE_ROLE_ADMIN \<equiv> 3"
abbreviation AUDIT_RING_SIZE :: nat where "AUDIT_RING_SIZE \<equiv> 32"
abbreviation MAX_TRANSFERS :: nat where "MAX_TRANSFERS \<equiv> 4"

record auth =
  ra_tick :: u32
  remote_token :: u32
  remote_session :: u32
  remote_auth_deadline :: u32
  remote_key_epoch :: u32
  remote_nonce_state :: u32
  remote_seq :: u32
  remote_role :: u32
  audit_ring :: "audit_entry list"
  audit_head :: nat
  audit_count :: nat
  transfer_states :: "transfer_state list"

definition audit_zero :: audit_entry where
  "audit_zero = \<lparr>ae_tick = 0, ae_role = 0, ae_request_id = 0, ae_nonce = 0, ae_cmd_hash = 0, ae_status = 0, ae_rejected = 0\<rparr>"

definition transfer_zero :: transfer_state where
  "transfer_zero = \<lparr>tr_active = False, tr_transfer_id = 0, tr_total_len = 0, tr_received_len = 0, tr_checksum = 0,
     tr_last_chunk_index = 0\<rparr>"

definition auth0 :: auth where
  "auth0 = \<lparr>ra_tick = 0, remote_token = 0, remote_session = 0, remote_auth_deadline = 0, remote_key_epoch = 0,
     remote_nonce_state = 0, remote_seq = 1, remote_role = REMOTE_ROLE_VIEWER,
     audit_ring = replicate AUDIT_RING_SIZE audit_zero, audit_head = 0, audit_count = 0,
     transfer_states = replicate MAX_TRANSFERS transfer_zero\<rparr>"

section \<open>Authorisation\<close>

primrec checksum_loop :: "u8 list \<Rightarrow> u32 \<Rightarrow> u32" where
  "checksum_loop [] hash = hash"
| "checksum_loop (b # bs) hash = checksum_loop bs ((hash XOR ucast b) * 16777619)"

definition remote_checksum32 :: "u8 list \<Rightarrow> u32" where
  "remote_checksum32 bs = checksum_loop bs 2166136261"

definition remote_seed_nonce_state :: "auth \<Rightarrow> auth" where
  "remote_seed_nonce_state a =
     (let n = remote_token a XOR remote_session a XOR remote_key_epoch a XOR 0x9E3779B9
      in a\<lparr>remote_nonce_state := (if n = 0 then 0xA341316C else n)\<rparr>)"

definition remote_next_request_id :: "auth \<Rightarrow> u32 \<times> auth" where
  "remote_next_request_id a =
     (let req = remote_seq a; a1 = a\<lparr>remote_seq := remote_seq a + 1\<rparr> in
      if req = 0 then (remote_seq a1, a1\<lparr>remote_seq := remote_seq a1 + 1\<rparr>) else (req, a1))"

definition remote_next_nonce :: "u32 \<Rightarrow> auth \<Rightarrow> u32 \<times> auth" where
  "remote_next_nonce request_id a =
     (let n0 = remote_nonce_state a; n1 = n0 XOR push_bit 13 n0; n2 = n1 XOR drop_bit 17 n1; n3 = n2 XOR push_bit 5 n2;
          n4 = n3 XOR request_id; n5 = (if n4 = 0 then 0x7F4A7C15 XOR request_id else n4)
      in (n5, a\<lparr>remote_nonce_state := n5\<rparr>))"

definition remote_rotate_session_key_internal :: "auth \<Rightarrow> auth" where
  "remote_rotate_session_key_internal a =
     (let base = ra_tick a XOR remote_token a XOR (remote_key_epoch a * 0x45D9F3B)
      in remote_seed_nonce_state (a\<lparr>remote_key_epoch := remote_key_epoch a + 1, remote_session := base OR 1, remote_seq := 1\<rparr>))"

definition remote_get_session :: "auth \<Rightarrow> u32 \<times> auth" where
  "remote_get_session a =
     (let a' = (if remote_session a = 0 then remote_rotate_session_key_internal a else a) in (remote_session a', a'))"

definition remote_auth_valid :: "auth \<Rightarrow> bool" where
  "remote_auth_valid a \<longleftrightarrow> remote_token a \<noteq> 0 \<and> remote_auth_deadline a \<noteq> 0 \<and> \<not> ra_tick a > remote_auth_deadline a \<and>
     \<not> (remote_role a < REMOTE_ROLE_VIEWER \<or> remote_role a > REMOTE_ROLE_ADMIN)"

definition remote_set_token :: "u32 \<Rightarrow> auth \<Rightarrow> auth" where
  "remote_set_token token a = remote_seed_nonce_state (a\<lparr>remote_token := token\<rparr>)"

definition remote_set_auth :: "u32 \<Rightarrow> u32 \<Rightarrow> auth \<Rightarrow> auth" where
  "remote_set_auth token ttl_ticks a = remote_rotate_session_key_internal
     (a\<lparr>remote_token := token, remote_auth_deadline := (if ttl_ticks \<noteq> 0 then ra_tick a + ttl_ticks else 0)\<rparr>)"

definition remote_clear_auth :: "auth \<Rightarrow> auth" where
  "remote_clear_auth a = a\<lparr>remote_auth_deadline := 0, remote_token := 0\<rparr>"

definition remote_is_authorized :: "auth \<Rightarrow> bool" where
  "remote_is_authorized a = remote_auth_valid a"

definition remote_rotate_session_key :: "auth \<Rightarrow> auth" where
  "remote_rotate_session_key a = remote_rotate_session_key_internal a"

definition remote_set_role :: "u32 \<Rightarrow> auth \<Rightarrow> auth" where
  "remote_set_role role a =
     (let r1 = (if role < REMOTE_ROLE_VIEWER then REMOTE_ROLE_VIEWER else role);
          r2 = (if r1 > REMOTE_ROLE_ADMIN then REMOTE_ROLE_ADMIN else r1)
      in a\<lparr>remote_role := r2\<rparr>)"

section \<open>The audit log\<close>

definition remote_audit_log :: "audit_entry \<Rightarrow> auth \<Rightarrow> auth" where
  "remote_audit_log e a =
     a\<lparr>audit_ring := (audit_ring a)[audit_head a := e], audit_head := (audit_head a + 1) mod AUDIT_RING_SIZE,
       audit_count := (if audit_count a < AUDIT_RING_SIZE then audit_count a + 1 else audit_count a)\<rparr>"

text \<open>The index before \<open>i\<close> in the ring.\<close>

definition ring_prev :: "nat \<Rightarrow> nat" where
  "ring_prev i = (if i = 0 then AUDIT_RING_SIZE - 1 else i - 1)"

text \<open>The copying loop with \<open>n\<close> entries still to copy: it writes \<open>out[count]\<close> and steps \<open>current\<close> back.\<close>

primrec audit_copy :: "audit_entry list \<Rightarrow> nat \<Rightarrow> nat \<Rightarrow> nat \<Rightarrow> audit_entry list \<Rightarrow> audit_entry list" where
  "audit_copy ring 0 current cnt out = out"
| "audit_copy ring (Suc n) current cnt out = audit_copy ring n (ring_prev current) (cnt + 1) (out[cnt := ring ! current])"

definition remote_audit_get :: "audit_entry list option \<Rightarrow> int \<Rightarrow> auth \<Rightarrow> nat \<times> audit_entry list option" where
  "remote_audit_get out max_count a = (case out of
     None \<Rightarrow> (0, None)
   | Some es \<Rightarrow>
       if max_count \<le> 0 then (0, Some es)
       else let n = min (nat max_count) (audit_count a)
            in (n, Some (audit_copy (audit_ring a) n (ring_prev (audit_head a)) 0 es)))"

definition remote_audit_count :: "auth \<Rightarrow> nat" where
  "remote_audit_count a = audit_count a"

section \<open>Transfers\<close>

definition find_transfer :: "u32 \<Rightarrow> auth \<Rightarrow> nat option" where
  "find_transfer transfer_id a = find_slot (\<lambda>t. tr_active t \<and> tr_transfer_id t = transfer_id) (transfer_states a)"

definition remote_transfer_begin :: "u32 \<Rightarrow> u32 \<Rightarrow> u32 \<Rightarrow> auth \<Rightarrow> auth" where
  "remote_transfer_begin transfer_id total_len checksum a =
     (let slot = (case find_slot (\<lambda>t. \<not> tr_active t) (transfer_states a) of Some i \<Rightarrow> i | None \<Rightarrow> 0)
      in a\<lparr>transfer_states := (transfer_states a)[slot := \<lparr>tr_active = True, tr_transfer_id = transfer_id,
            tr_total_len = total_len, tr_received_len = 0, tr_checksum = checksum, tr_last_chunk_index = 0\<rparr>]\<rparr>)"

definition remote_transfer_progress :: "u32 \<Rightarrow> u32 \<Rightarrow> u32 \<Rightarrow> auth \<Rightarrow> auth" where
  "remote_transfer_progress transfer_id chunk_index chunk_len a = (case find_transfer transfer_id a of
     None \<Rightarrow> a
   | Some i \<Rightarrow> let t = transfer_states a ! i in
       a\<lparr>transfer_states := (transfer_states a)[i := t\<lparr>tr_received_len := tr_received_len t + chunk_len,
          tr_last_chunk_index := chunk_index\<rparr>]\<rparr>)"

definition remote_transfer_can_resume :: "u32 \<Rightarrow> auth \<Rightarrow> bool" where
  "remote_transfer_can_resume transfer_id a = (case find_transfer transfer_id a of
     None \<Rightarrow> False | Some i \<Rightarrow> tr_received_len (transfer_states a ! i) < tr_total_len (transfer_states a ! i))"

definition remote_transfer_resume_offset :: "u32 \<Rightarrow> auth \<Rightarrow> u32" where
  "remote_transfer_resume_offset transfer_id a = (case find_transfer transfer_id a of
     None \<Rightarrow> 0 | Some i \<Rightarrow> tr_received_len (transfer_states a ! i))"

definition remote_transfer_complete :: "u32 \<Rightarrow> auth \<Rightarrow> auth" where
  "remote_transfer_complete transfer_id a = (case find_transfer transfer_id a of
     None \<Rightarrow> a
   | Some i \<Rightarrow> a\<lparr>transfer_states := (transfer_states a)[i := (transfer_states a ! i)\<lparr>tr_active := False\<rparr>]\<rparr>)"

definition remote_transfer_get_states :: "transfer_state list option \<Rightarrow> int \<Rightarrow> auth \<Rightarrow> nat \<times> transfer_state list option" where
  "remote_transfer_get_states out mx a = (case out of
     None \<Rightarrow> (0, None)
   | Some ts \<Rightarrow> if mx \<le> 0 then (0, Some ts)
       else let xs = copy_out tr_active (nat mx) (transfer_states a) in (length xs, Some (xs @ drop (length xs) ts)))"

section \<open>Authorisation: facts\<close>

lemma rotate_simps [simp]:
  "ra_tick (remote_rotate_session_key_internal a) = ra_tick a" "remote_token (remote_rotate_session_key_internal a) = remote_token a"
  "remote_auth_deadline (remote_rotate_session_key_internal a) = remote_auth_deadline a"
  "remote_role (remote_rotate_session_key_internal a) = remote_role a" "remote_seq (remote_rotate_session_key_internal a) = 1"
  by (simp_all add: remote_rotate_session_key_internal_def remote_seed_nonce_state_def Let_def)

lemma rotate_session_odd: "bit (remote_session (remote_rotate_session_key_internal a)) 0"
  by (simp add: remote_rotate_session_key_internal_def remote_seed_nonce_state_def Let_def bit_simps)

section \<open>Audit log: facts\<close>

text \<open>The log after the entries \<open>es\<close> (newest first) have been written: where the newest ones are.\<close>

definition audit_rel :: "audit_entry list \<Rightarrow> auth \<Rightarrow> bool" where
  "audit_rel es a \<longleftrightarrow> length (audit_ring a) = AUDIT_RING_SIZE \<and> audit_head a = length es mod AUDIT_RING_SIZE \<and>
     audit_count a = min (length es) AUDIT_RING_SIZE \<and>
     (\<forall>k < audit_count a. audit_ring a ! ((length es - 1 - k) mod AUDIT_RING_SIZE) = es ! k)"

lemma audit_rel_init: "audit_rel [] auth0"
  by (simp add: audit_rel_def auth0_def)

lemma mod_diff_ne: "0 < k \<Longrightarrow> k < AUDIT_RING_SIZE \<Longrightarrow> k \<le> n \<Longrightarrow> (n - k) mod AUDIT_RING_SIZE \<noteq> n mod AUDIT_RING_SIZE" for n k :: nat
  using mod_eq_dvd_iff_nat [of "n - k" n AUDIT_RING_SIZE] by (auto dest!: dvd_imp_le)

lemma audit_rel_log:
  assumes "audit_rel es a"
  shows "audit_rel (e # es) (remote_audit_log e a)"
proof -
  let ?n = "length es"
  have D: "length (audit_ring a) = AUDIT_RING_SIZE" "audit_head a = ?n mod AUDIT_RING_SIZE"
    "audit_count a = min ?n AUDIT_RING_SIZE" "\<And>k. k < audit_count a \<Longrightarrow> audit_ring a ! ((?n - 1 - k) mod AUDIT_RING_SIZE) = es ! k"
    using assms by (simp_all add: audit_rel_def)
  have "(audit_ring a)[?n mod AUDIT_RING_SIZE := e] ! ((?n - k) mod AUDIT_RING_SIZE) = (e # es) ! k"
    if "k < min (Suc ?n) AUDIT_RING_SIZE" for k
  proof (cases k)
    case 0
    then show ?thesis using D(1) by simp
  next
    case (Suc j)
    then have "(?n - k) mod AUDIT_RING_SIZE \<noteq> ?n mod AUDIT_RING_SIZE" using that by (intro mod_diff_ne) auto
    then show ?thesis using D(4) [of j] D(3) that Suc by simp
  qed
  then show ?thesis using D(1-3) by (auto simp: audit_rel_def remote_audit_log_def mod_Suc_eq min_def)
qed

lemma audit_rel_fold: "audit_rel (rev es) (fold remote_audit_log es auth0)"
  by (induction es rule: rev_induct) (simp_all add: audit_rel_init audit_rel_log)

lemma ring_prev_mod: "0 < n \<Longrightarrow> ring_prev (n mod AUDIT_RING_SIZE) = (n - 1) mod AUDIT_RING_SIZE"
  by (cases n) (auto simp: ring_prev_def mod_Suc)

lemma audit_copy_eq:
  assumes "\<And>k. k < n \<Longrightarrow> ring ! ((p - k) mod AUDIT_RING_SIZE) = es ! k" "n \<le> p + 1" "n \<le> length es" "cnt + n \<le> length out"
  shows "audit_copy ring n (p mod AUDIT_RING_SIZE) cnt out = take cnt out @ take n es @ drop (cnt + n) out"
  using assms
proof (induction n arbitrary: p cnt out es)
  case (Suc n)
  show ?case
  proof (cases n)
    case 0
    with Suc.prems show ?thesis by (cases es) (simp_all add: upd_conv_take_nth_drop)
  next
    case (Suc m)
    have p: "0 < p" using Suc.prems(2) Suc by simp
    have "audit_copy ring n ((p - 1) mod AUDIT_RING_SIZE) (cnt + 1) (out[cnt := ring ! (p mod AUDIT_RING_SIZE)]) =
      take (cnt + 1) (out[cnt := ring ! (p mod AUDIT_RING_SIZE)]) @ take n (tl es) @ drop (cnt + 1 + n) (out[cnt := ring ! (p mod AUDIT_RING_SIZE)])"
    proof (rule Suc.IH)
      fix k assume "k < n"
      then show "ring ! ((p - 1 - k) mod AUDIT_RING_SIZE) = tl es ! k" using Suc.prems(1) [of "Suc k"] Suc.prems(3) by (simp add: nth_tl)
    qed (use Suc.prems in auto)
    then show ?thesis using Suc.prems Suc.prems(1) [of 0] p by (cases es) (simp_all add: ring_prev_mod take_Suc_conv_app_nth)
  qed
qed simp

section \<open>Transfers: facts\<close>

text \<open>The table has exactly one active transfer with this id, with this progress.\<close>

definition transfer_at :: "nat \<Rightarrow> u32 \<Rightarrow> u32 \<Rightarrow> u32 \<Rightarrow> auth \<Rightarrow> bool" where
  "transfer_at i tid tlen off a \<longleftrightarrow> i < length (transfer_states a) \<and> tr_active (transfer_states a ! i) \<and>
     tr_transfer_id (transfer_states a ! i) = tid \<and> tr_total_len (transfer_states a ! i) = tlen \<and>
     tr_received_len (transfer_states a ! i) = off \<and>
     (\<forall>j < length (transfer_states a). tr_active (transfer_states a ! j) \<and> tr_transfer_id (transfer_states a ! j) = tid \<longrightarrow> j = i)"

lemma find_transfer_at:
  assumes "transfer_at i tid tlen off a"
  shows "find_transfer tid a = Some i"
  unfolding find_transfer_def
proof (rule find_slot_SomeI)
  fix j assume "j < i"
  with assms show "\<not> (tr_active (transfer_states a ! j) \<and> tr_transfer_id (transfer_states a ! j) = tid)"
    unfolding transfer_at_def by (metis less_irrefl less_trans)
qed (use assms in \<open>simp_all add: transfer_at_def\<close>)

lemma transfer_at_begin:
  assumes "find_slot (\<lambda>t. \<not> tr_active t) (transfer_states a) = Some i" "find_transfer tid a = None"
  shows "transfer_at i tid tlen 0 (remote_transfer_begin tid tlen cs a)"
proof -
  have i: "i < length (transfer_states a)" using assms(1) by (rule find_slot_Some_less)
  have "\<not> (tr_active t \<and> tr_transfer_id t = tid)" if "t \<in> set (transfer_states a)" for t
    using assms(2) that by (simp add: find_transfer_def find_slot_None)
  then have "\<not> (tr_active (transfer_states a ! j) \<and> tr_transfer_id (transfer_states a ! j) = tid)" if "j < length (transfer_states a)" for j
    using that nth_mem by blast
  with i assms(1) show ?thesis by (auto simp: transfer_at_def remote_transfer_begin_def nth_list_update)
qed

lemma transfer_at_progress:
  assumes "transfer_at i tid tlen off a"
  shows "transfer_at i tid tlen (off + len) (remote_transfer_progress tid ci len a)"
  using assms find_transfer_at [OF assms]
  by (auto simp: transfer_at_def remote_transfer_progress_def Let_def nth_list_update split: if_splits)

lemma transfer_at_chunks:
  "transfer_at i tid tlen off a \<Longrightarrow>
   transfer_at i tid tlen (off + sum_list (map snd cs)) (fold (\<lambda>(ci, len). remote_transfer_progress tid ci len) cs a)"
proof (induction cs arbitrary: off a)
  case (Cons c cs)
  obtain ci len where c: "c = (ci, len)" by fastforce
  from Cons.IH [OF transfer_at_progress [OF Cons.prems, of len ci]] show ?case by (simp add: c add.assoc)
qed simp

lemma transfer_at_complete:
  assumes "transfer_at i tid tlen off a"
  shows "find_transfer tid (remote_transfer_complete tid a) = None"
proof -
  let ?ts = "(transfer_states a)[i := (transfer_states a ! i)\<lparr>tr_active := False\<rparr>]"
  have ts: "transfer_states (remote_transfer_complete tid a) = ?ts"
    by (simp add: remote_transfer_complete_def find_transfer_at [OF assms])
  have u: "j = i" if "j < length (transfer_states a)" "tr_active (transfer_states a ! j)" "tr_transfer_id (transfer_states a ! j) = tid" for j
    using assms that unfolding transfer_at_def by blast
  have "\<not> (tr_active (?ts ! j) \<and> tr_transfer_id (?ts ! j) = tid)" if "j < length (transfer_states a)" for j
    using u [OF that] that by (cases "j = i") auto
  then have "\<forall>t \<in> set (transfer_states (remote_transfer_complete tid a)). \<not> (tr_active t \<and> tr_transfer_id t = tid)"
    unfolding ts by (metis in_set_conv_nth length_list_update)
  then show ?thesis by (simp add: find_transfer_def find_slot_None)
qed

section \<open>Properties\<close>

text \<open>
  The audit log keeps the newest 32 entries: after any sequence of logged entries a query for at most \<open>mx\<close> entries
  returns the newest \<open>min mx 32\<close> of them (or all, if there are fewer), newest first, and writes nothing else into the caller's array.
\<close>
theorem audit_newest_first:
  assumes "0 < mx" "mx \<le> length out"
  shows "remote_audit_get (Some out) (int mx) (fold remote_audit_log es auth0) =
    (let n = min mx (min (length es) AUDIT_RING_SIZE) in (n, Some (take n (rev es) @ drop n out)))"
proof -
  let ?a = "fold remote_audit_log es auth0" and ?n = "min mx (min (length es) AUDIT_RING_SIZE)"
  have R: "audit_head ?a = length es mod AUDIT_RING_SIZE" "audit_count ?a = min (length es) AUDIT_RING_SIZE"
    "\<And>k. k < audit_count ?a \<Longrightarrow> audit_ring ?a ! ((length es - 1 - k) mod AUDIT_RING_SIZE) = rev es ! k"
    using audit_rel_fold [of es] by (simp_all add: audit_rel_def)
  have "audit_copy (audit_ring ?a) ?n (ring_prev (audit_head ?a)) 0 out = take ?n (rev es) @ drop ?n out"
  proof (cases "es = []")
    case False
    then have "ring_prev (audit_head ?a) = (length es - 1) mod AUDIT_RING_SIZE" by (simp add: R(1) ring_prev_mod)
    then show ?thesis using audit_copy_eq [of ?n "audit_ring ?a" "length es - 1" "rev es" 0 out] R(2,3) assms(2) by auto
  qed simp
  then show ?thesis using assms(1) R(2) by (simp add: remote_audit_get_def Let_def)
qed

theorem audit_newest_first_witness:
  "remote_audit_get (Some [audit_zero]) (int 1) (fold remote_audit_log [audit_zero\<lparr>ae_tick := 1\<rparr>, audit_zero\<lparr>ae_tick := 2\<rparr>] auth0) =
    (1, Some [audit_zero\<lparr>ae_tick := 2\<rparr>])"
  using audit_newest_first [of 1 "[audit_zero]" "[audit_zero\<lparr>ae_tick := 1\<rparr>, audit_zero\<lparr>ae_tick := 2\<rparr>]"] by (simp del: fold_simps)

text \<open>
  A token granted for \<open>ttl\<close> ticks is honoured for exactly these ticks: at the tick \<open>k\<close> after the grant the caller is authorised if
  and only if \<open>k \<le> ttl\<close>, as long as the deadline fits into 32 bits. When it does not, the deadline
  wraps around and the caller is not authorised even at the moment of the grant. Whatever role was asked for, the role in force is
  one of the three defined ones.
\<close>
theorem auth_window:
  fixes token ttl role :: u32 and k :: nat and a :: auth
  assumes "token \<noteq> 0" "ttl \<noteq> 0" "unat (ra_tick a) + k < 2 ^ 32"
  defines "b \<equiv> (remote_set_auth token ttl (remote_set_role role a))\<lparr>ra_tick := ra_tick a + of_nat k\<rparr>"
  shows "1 \<le> remote_role b \<and> remote_role b \<le> 3 \<and>
    (unat (ra_tick a) + unat ttl < 2 ^ 32 \<longrightarrow> remote_is_authorized b = (k \<le> unat ttl)) \<and>
    (unat (ra_tick a) + unat ttl \<ge> 2 ^ 32 \<longrightarrow> \<not> remote_is_authorized b)"
proof -
  have role: "1 \<le> remote_role b" "remote_role b \<le> 3" by (auto simp: b_def remote_set_auth_def remote_set_role_def Let_def not_less word_le_nat_alt word_less_nat_alt)
  have f: "remote_token b = token" "remote_auth_deadline b = ra_tick a + ttl" "ra_tick b = ra_tick a + of_nat k"
    using assms(2) by (simp_all add: b_def remote_set_auth_def remote_set_role_def Let_def)
  have k: "unat (of_nat k :: u32) = k" using assms(3) by (simp add: unat_of_nat)
  then have t: "unat (ra_tick b) = unat (ra_tick a) + k" using assms(3) by (simp add: f(3) unat_add_small)
  have "0 < unat ttl" using assms(2) by (simp add: unat_gt_0)
  have auth: "remote_is_authorized b = (remote_auth_deadline b \<noteq> 0 \<and> unat (ra_tick b) \<le> unat (remote_auth_deadline b))"
    using role assms(1) f(1) by (auto simp: remote_is_authorized_def remote_auth_valid_def not_less word_le_nat_alt)
  have "remote_is_authorized b = (k \<le> unat ttl)" if "unat (ra_tick a) + unat ttl < 2 ^ 32"
  proof -
    have d: "unat (remote_auth_deadline b) = unat (ra_tick a) + unat ttl" using that by (simp add: f(2) unat_add_small)
    then have "remote_auth_deadline b \<noteq> 0" using \<open>0 < unat ttl\<close> by auto
    with auth d t show ?thesis by simp
  qed
  moreover have "\<not> remote_is_authorized b" if "unat (ra_tick a) + unat ttl \<ge> 2 ^ 32"
  proof -
    have "unat ttl < 2 ^ 32" using unsigned_less [of ttl, where 'a = nat] by simp
    then have "unat (remote_auth_deadline b) < unat (ra_tick a)" using that unsigned_less [of "ra_tick a", where 'a = nat]
      by (simp add: f(2) unat_word_ariths mod_if) arith
    with auth t show ?thesis by simp
  qed
  ultimately show ?thesis using role by blast
qed

theorem auth_window_witness:
  "remote_is_authorized ((remote_set_auth 7 10 (remote_set_role 9 auth0))\<lparr>ra_tick := ra_tick auth0 + of_nat 10\<rparr>) \<and>
   \<not> remote_is_authorized ((remote_set_auth 7 10 (remote_set_role 9 auth0))\<lparr>ra_tick := ra_tick auth0 + of_nat 11\<rparr>)"
  using auth_window [where token = 7 and ttl = 10 and a = auth0 and k = 10 and role = 9]
    auth_window [where token = 7 and ttl = 10 and a = auth0 and k = 11 and role = 9] by (simp add: auth0_def)

text \<open>
  Resuming a transfer: when a transfer with a new id begins while the table has a free slot, then after any sequence of
  chunks the offset to resume at is the sum of the chunk lengths (modulo \<open>2\<^sup>3\<^sup>2\<close>), the transfer can be resumed as long as that is below the
  total length, and once it is completed it cannot be resumed any more.
\<close>
theorem transfer_resume:
  fixes tid tlen cs :: u32 and chunks :: "(u32 \<times> u32) list" and a :: auth
  assumes "find_transfer tid a = None" "\<exists>t \<in> set (transfer_states a). \<not> tr_active t"
  defines "b \<equiv> fold (\<lambda>(ci, len). remote_transfer_progress tid ci len) chunks (remote_transfer_begin tid tlen cs a)"
  shows "remote_transfer_resume_offset tid b = sum_list (map snd chunks) \<and>
    remote_transfer_can_resume tid b = (sum_list (map snd chunks) < tlen) \<and>
    \<not> remote_transfer_can_resume tid (remote_transfer_complete tid b)"
proof -
  obtain i where "find_slot (\<lambda>t. \<not> tr_active t) (transfer_states a) = Some i"
    using assms(2) by (cases "find_slot (\<lambda>t. \<not> tr_active t) (transfer_states a)") (auto simp: find_slot_None)
  from transfer_at_chunks [OF transfer_at_begin [OF this assms(1), of tlen cs], of chunks]
  have t: "transfer_at i tid tlen (sum_list (map snd chunks)) b" by (simp add: b_def)
  then show ?thesis using find_transfer_at [OF t] transfer_at_complete [OF t]
    by (simp add: remote_transfer_resume_offset_def remote_transfer_can_resume_def transfer_at_def)
qed

theorem transfer_resume_witness:
  "remote_transfer_resume_offset 5 (fold (\<lambda>(ci, len). remote_transfer_progress 5 ci len) [(0, 100), (1, 20)]
     (remote_transfer_begin 5 200 0 auth0)) = 120"
  using transfer_resume [where tid = 5 and a = auth0 and chunks = "[(0, 100), (1, 20)]" and tlen = 200 and cs = 0] by (simp add: find_transfer_def find_slot_None auth0_def transfer_zero_def)

end
