(* ===== verification/NetSocket.thy ===== *)
theory NetSocket
  imports Task
begin

text \<open>
  Socket and epoll descriptors of \<open>src/kernel/net_socket.c\<close> and \<open>net_socket.h\<close>. A pointer into one of the tables
  is the pair of its indices. The network stack, the file layer and time are a record of operations over the state
  of the rest of the system: what is asked of them (\<open>net_udp_has_data\<close>, \<open>vfs_fcntl\<close>, \<open>scheduler_now_ticks\<close>) and what they do
  (\<open>net_tcp_close\<close>, and \<open>task_sleep(1)\<close>, which lets all other tasks run and so may change the tables too).
\<close>

section \<open>State\<close>

abbreviation NS_SOCKET_FD_BASE :: int where "NS_SOCKET_FD_BASE \<equiv> 1024"
abbreviation NS_SOCKET_MAX_PER_TASK :: nat where "NS_SOCKET_MAX_PER_TASK \<equiv> 64"
abbreviation NS_O_NONBLOCK :: u32 where "NS_O_NONBLOCK \<equiv> 0x800"
abbreviation NS_POLLIN :: u16 where "NS_POLLIN \<equiv> 1"
abbreviation NS_POLLOUT :: u16 where "NS_POLLOUT \<equiv> 4"
abbreviation NS_POLLERR :: u16 where "NS_POLLERR \<equiv> 8"
abbreviation NS_EPOLL_FD_BASE :: int where "NS_EPOLL_FD_BASE \<equiv> 2048"
abbreviation NS_EPOLL_MAX_PER_TASK :: nat where "NS_EPOLL_MAX_PER_TASK \<equiv> 8"
abbreviation NS_EPOLL_MAX_WATCH :: nat where "NS_EPOLL_MAX_WATCH \<equiv> 64"
abbreviation NS_EPOLL_CTL_ADD :: int where "NS_EPOLL_CTL_ADD \<equiv> 1"
abbreviation NS_EPOLL_CTL_MOD :: int where "NS_EPOLL_CTL_MOD \<equiv> 2"
abbreviation NS_EPOLL_CTL_DEL :: int where "NS_EPOLL_CTL_DEL \<equiv> 3"
abbreviation NS_SOCK_STREAM :: int where "NS_SOCK_STREAM \<equiv> 1"
abbreviation NS_SOCK_DGRAM :: int where "NS_SOCK_DGRAM \<equiv> 2"
abbreviation NS_FOREVER :: u32 where "NS_FOREVER \<equiv> 0xFFFFFFFF"

record sock =
  sk_used :: bool
  sk_type :: int
  sk_protocol :: int
  sk_flags :: u32
  sk_bound :: bool
  sk_local_port :: u16
  sk_peer_ip :: u32
  sk_peer_port :: u16
  sk_listening :: bool
  sk_net_conn_id :: int
  sk_rcv_timeout_ticks :: u32
  sk_snd_timeout_ticks :: u32
  sk_reuse_addr :: u8
  sk_keepalive :: u8
  sk_shut_rd :: u8
  sk_shut_wr :: u8

record poll_fd =
  pf_fd :: int
  pf_events :: u16
  pf_revents :: u16

record epoll_req =
  er_op :: int
  er_event :: poll_fd

record epoll_watch =
  ew_used :: bool
  ew_fd :: int
  ew_events :: u16

record epoll_obj =
  eo_used :: bool
  eo_watches :: "epoll_watch list"

record 'n nsys =
  task_sockets :: "sock list list"
  task_epolls :: "epoll_obj list list"
  ns_rest :: 'n

type_synonym handle = "nat \<times> nat"

record 'n net_ops =
  net_udp_unbind :: "u16 \<Rightarrow> 'n \<Rightarrow> 'n"
  net_tcp_unlisten :: "u16 \<Rightarrow> 'n \<Rightarrow> 'n"
  net_tcp_close :: "int \<Rightarrow> 'n \<Rightarrow> 'n"
  net_udp_has_data :: "u16 \<Rightarrow> 'n \<Rightarrow> bool"
  net_tcp_accept_ready :: "u16 \<Rightarrow> 'n \<Rightarrow> bool"
  net_tcp_can_recv :: "int \<Rightarrow> 'n \<Rightarrow> bool"
  net_tcp_can_send :: "int \<Rightarrow> 'n \<Rightarrow> bool"
  vfs_fcntl_getfl :: "int \<Rightarrow> 'n \<Rightarrow> int"
  now_ticks :: "'n \<Rightarrow> u32"
  sleep_tick :: "'n nsys \<Rightarrow> 'n nsys"

section \<open>Tables\<close>

definition sock_at :: "handle \<Rightarrow> 'n nsys \<Rightarrow> sock" where
  "sock_at h s = task_sockets s ! fst h ! snd h"

definition set_sock :: "handle \<Rightarrow> sock \<Rightarrow> 'n nsys \<Rightarrow> 'n nsys" where
  "set_sock h e s = s\<lparr>task_sockets := (task_sockets s)[fst h := (task_sockets s ! fst h)[snd h := e]]\<rparr>"

definition epoll_at :: "handle \<Rightarrow> 'n nsys \<Rightarrow> epoll_obj" where
  "epoll_at h s = task_epolls s ! fst h ! snd h"

definition set_epoll :: "handle \<Rightarrow> epoll_obj \<Rightarrow> 'n nsys \<Rightarrow> 'n nsys" where
  "set_epoll h e s = s\<lparr>task_epolls := (task_epolls s)[fst h := (task_epolls s ! fst h)[snd h := e]]\<rparr>"

definition ns_socket_init :: "'n nsys \<Rightarrow> 'n nsys" where
  "ns_socket_init s = s\<lparr>task_sockets := map (map (\<lambda>e. e\<lparr>sk_used := False\<rparr>)) (task_sockets s),
     task_epolls := map (map (\<lambda>e. e\<lparr>eo_used := False\<rparr>)) (task_epolls s)\<rparr>"

definition task_ok :: "int \<Rightarrow> bool" where
  "task_ok tid \<longleftrightarrow> \<not> (tid < 0 \<or> tid \<ge> int MAX_TASKS)"

definition ns_socket_fd_to_slot :: "int \<Rightarrow> nat option" where
  "ns_socket_fd_to_slot fd =
     (let slot = fd - NS_SOCKET_FD_BASE in if slot < 0 \<or> slot \<ge> int NS_SOCKET_MAX_PER_TASK then None else Some (nat slot))"

definition ns_socket_entry_for_fd :: "int \<Rightarrow> int \<Rightarrow> 'n nsys \<Rightarrow> handle option" where
  "ns_socket_entry_for_fd tid fd s =
     (if \<not> task_ok tid then None
      else case ns_socket_fd_to_slot fd of
        None \<Rightarrow> None
      | Some slot \<Rightarrow> if \<not> sk_used (sock_at (nat tid, slot) s) then None else Some (nat tid, slot))"

definition sock_fresh :: "int \<Rightarrow> int \<Rightarrow> sock" where
  "sock_fresh ty proto = \<lparr>sk_used = True, sk_type = ty, sk_protocol = proto, sk_flags = 0, sk_bound = False, sk_local_port = 0,
     sk_peer_ip = 0, sk_peer_port = 0, sk_listening = False, sk_net_conn_id = -1, sk_rcv_timeout_ticks = NS_FOREVER,
     sk_snd_timeout_ticks = NS_FOREVER, sk_reuse_addr = 0, sk_keepalive = 0, sk_shut_rd = 0, sk_shut_wr = 0\<rparr>"

definition ns_socket_alloc_fd :: "int \<Rightarrow> int \<Rightarrow> int \<Rightarrow> 'n nsys \<Rightarrow> int \<times> 'n nsys" where
  "ns_socket_alloc_fd tid ty proto s =
     (if \<not> task_ok tid then (-1, s)
      else case find_slot (\<lambda>e. \<not> sk_used e) (take NS_SOCKET_MAX_PER_TASK (task_sockets s ! nat tid)) of
        None \<Rightarrow> (-1, s)
      | Some i \<Rightarrow> (NS_SOCKET_FD_BASE + int i, set_sock (nat tid, i) (sock_fresh ty proto) s))"

definition ns_socket_close_entry :: "'n net_ops \<Rightarrow> handle option \<Rightarrow> 'n nsys \<Rightarrow> 'n nsys" where
  "ns_socket_close_entry ops hopt s = (case hopt of None \<Rightarrow> s
   | Some h \<Rightarrow> let e = sock_at h s in
       if \<not> sk_used e then s
       else let r1 = (if sk_type e = NS_SOCK_DGRAM \<and> sk_bound e then net_udp_unbind ops (sk_local_port e) (ns_rest s) else ns_rest s);
                r2 = (if sk_type e = NS_SOCK_STREAM
                      then (if sk_listening e \<and> sk_bound e then net_tcp_unlisten ops (sk_local_port e) r1
                            else if sk_net_conn_id e \<ge> 0 then net_tcp_close ops (sk_net_conn_id e) r1 else r1)
                      else r1)
            in set_sock h ((sock_fresh 0 0)\<lparr>sk_used := False\<rparr>) (s\<lparr>ns_rest := r2\<rparr>))"

definition ns_socket_close_all_for_task :: "'n net_ops \<Rightarrow> int \<Rightarrow> 'n nsys \<Rightarrow> 'n nsys" where
  "ns_socket_close_all_for_task ops tid s =
     (if \<not> task_ok tid then s
      else fold (\<lambda>i s. if sk_used (sock_at (nat tid, i) s) then ns_socket_close_entry ops (Some (nat tid, i)) s else s)
        [0..<NS_SOCKET_MAX_PER_TASK] s)"

section \<open>Readiness\<close>

definition ns_socket_is_nonblocking :: "handle option \<Rightarrow> 'n nsys \<Rightarrow> bool" where
  "ns_socket_is_nonblocking hopt s = (case hopt of None \<Rightarrow> False | Some h \<Rightarrow> sk_flags (sock_at h s) AND NS_O_NONBLOCK \<noteq> 0)"

definition ns_socket_ready_for_read :: "'n net_ops \<Rightarrow> handle option \<Rightarrow> 'n nsys \<Rightarrow> bool" where
  "ns_socket_ready_for_read ops hopt s = (case hopt of None \<Rightarrow> False
   | Some h \<Rightarrow> let e = sock_at h s in
       if \<not> sk_used e then False
       else if sk_shut_rd e \<noteq> 0 then False
       else if sk_type e = NS_SOCK_DGRAM then sk_bound e \<and> net_udp_has_data ops (sk_local_port e) (ns_rest s)
       else if sk_type e = NS_SOCK_STREAM
       then (if sk_listening e then net_tcp_accept_ready ops (sk_local_port e) (ns_rest s)
             else sk_net_conn_id e \<ge> 0 \<and> net_tcp_can_recv ops (sk_net_conn_id e) (ns_rest s))
       else False)"

definition ns_socket_ready_for_write :: "'n net_ops \<Rightarrow> handle option \<Rightarrow> 'n nsys \<Rightarrow> bool" where
  "ns_socket_ready_for_write ops hopt s = (case hopt of None \<Rightarrow> False
   | Some h \<Rightarrow> let e = sock_at h s in
       if \<not> sk_used e then False
       else if sk_shut_wr e \<noteq> 0 then False
       else if sk_type e = NS_SOCK_DGRAM then sk_peer_ip e \<noteq> 0 \<and> sk_peer_port e \<noteq> 0
       else if sk_type e = NS_SOCK_STREAM then sk_net_conn_id e \<ge> 0 \<and> net_tcp_can_send ops (sk_net_conn_id e) (ns_rest s)
       else False)"

text \<open>The waiting loop of the two functions below; it need not end, and then its value is \<open>None\<close>.\<close>

partial_function (option) wait_loop ::
  "'n net_ops \<Rightarrow> ('n nsys \<Rightarrow> bool) \<Rightarrow> bool \<Rightarrow> u32 \<Rightarrow> 'n nsys \<Rightarrow> (bool \<times> 'n nsys) option" where
  "wait_loop ops cond forever deadline s =
     (if cond s then Some (True, s)
      else if \<not> forever \<and> now_ticks ops (ns_rest s) \<ge> deadline then Some (False, s)
      else wait_loop ops cond forever deadline (sleep_tick ops s))"

definition ns_socket_wait_for_readable :: "'n net_ops \<Rightarrow> handle option \<Rightarrow> u32 \<Rightarrow> 'n nsys \<Rightarrow> (bool \<times> 'n nsys) option" where
  "ns_socket_wait_for_readable ops hopt timeout_ticks s =
     (let forever = (timeout_ticks = NS_FOREVER);
          deadline = (if \<not> forever then now_ticks ops (ns_rest s) + timeout_ticks else 0)
      in wait_loop ops (ns_socket_ready_for_read ops hopt) forever deadline s)"

definition ns_socket_wait_for_writable :: "'n net_ops \<Rightarrow> handle option \<Rightarrow> u32 \<Rightarrow> 'n nsys \<Rightarrow> (bool \<times> 'n nsys) option" where
  "ns_socket_wait_for_writable ops hopt timeout_ticks s =
     (let forever = (timeout_ticks = NS_FOREVER);
          deadline = (if \<not> forever then now_ticks ops (ns_rest s) + timeout_ticks else 0)
      in wait_loop ops (ns_socket_ready_for_write ops hopt) forever deadline s)"

section \<open>Epoll objects\<close>

definition watch_none :: epoll_watch where
  "watch_none = \<lparr>ew_used = False, ew_fd = -1, ew_events = 0\<rparr>"

definition ns_epoll_fd_to_slot :: "int \<Rightarrow> nat option" where
  "ns_epoll_fd_to_slot fd =
     (let slot = fd - NS_EPOLL_FD_BASE in if slot < 0 \<or> slot \<ge> int NS_EPOLL_MAX_PER_TASK then None else Some (nat slot))"

definition ns_epoll_object_for_fd :: "int \<Rightarrow> int \<Rightarrow> 'n nsys \<Rightarrow> handle option" where
  "ns_epoll_object_for_fd tid fd s =
     (if \<not> task_ok tid then None
      else case ns_epoll_fd_to_slot fd of
        None \<Rightarrow> None
      | Some slot \<Rightarrow> if \<not> eo_used (epoll_at (nat tid, slot) s) then None else Some (nat tid, slot))"

definition ns_epoll_alloc_fd :: "int \<Rightarrow> 'n nsys \<Rightarrow> int \<times> 'n nsys" where
  "ns_epoll_alloc_fd tid s =
     (if \<not> task_ok tid then (-1, s)
      else case find_slot (\<lambda>e. \<not> eo_used e) (take NS_EPOLL_MAX_PER_TASK (task_epolls s ! nat tid)) of
        None \<Rightarrow> (-1, s)
      | Some i \<Rightarrow> (NS_EPOLL_FD_BASE + int i,
           set_epoll (nat tid, i) \<lparr>eo_used = True, eo_watches = replicate NS_EPOLL_MAX_WATCH watch_none\<rparr> s))"

definition ns_epoll_close_object :: "handle option \<Rightarrow> 'n nsys \<Rightarrow> 'n nsys" where
  "ns_epoll_close_object hopt s = (case hopt of None \<Rightarrow> s
   | Some h \<Rightarrow> if \<not> eo_used (epoll_at h s) then s
       else set_epoll h \<lparr>eo_used = False, eo_watches = replicate NS_EPOLL_MAX_WATCH watch_none\<rparr> s)"

definition ns_epoll_close_all_for_task :: "int \<Rightarrow> 'n nsys \<Rightarrow> 'n nsys" where
  "ns_epoll_close_all_for_task tid s =
     (if \<not> task_ok tid then s
      else fold (\<lambda>i s. if eo_used (epoll_at (nat tid, i) s) then ns_epoll_close_object (Some (nat tid, i)) s else s)
        [0..<NS_EPOLL_MAX_PER_TASK] s)"

text \<open>The scan of \<open>ns_epoll_ctl_apply\<close>: the first free slot before the match, and the match.\<close>

primrec ctl_scan :: "int \<Rightarrow> epoll_watch list \<Rightarrow> nat \<Rightarrow> nat option \<Rightarrow> nat option \<times> nat option" where
  "ctl_scan fd [] i free = (free, None)"
| "ctl_scan fd (w # ws) i free =
     (let free' = (if \<not> ew_used w \<and> free = None then Some i else free) in
      if ew_used w \<and> ew_fd w = fd then (free', Some i) else ctl_scan fd ws (Suc i) free')"

definition ns_epoll_ctl_apply :: "epoll_obj option \<Rightarrow> epoll_req option \<Rightarrow> int \<times> epoll_obj option" where
  "ns_epoll_ctl_apply obj req = (case (obj, req) of
     (Some ob, Some rq) \<Rightarrow>
       let fd = pf_fd (er_event rq); ev = pf_events (er_event rq) in
       if fd < 0 then (-22, obj)
       else let (free_slot, found_slot) = ctl_scan fd (eo_watches ob) 0 None in
         if er_op rq = NS_EPOLL_CTL_ADD
         then (case found_slot of Some _ \<Rightarrow> (-22, obj)
               | None \<Rightarrow> (case free_slot of None \<Rightarrow> (-28, obj)
                   | Some i \<Rightarrow> (0, Some (ob\<lparr>eo_watches := (eo_watches ob)[i := \<lparr>ew_used = True, ew_fd = fd, ew_events = ev\<rparr>]\<rparr>))))
         else if er_op rq = NS_EPOLL_CTL_MOD
         then (case found_slot of None \<Rightarrow> (-22, obj)
               | Some i \<Rightarrow> (0, Some (ob\<lparr>eo_watches := (eo_watches ob)[i := (eo_watches ob ! i)\<lparr>ew_events := ev\<rparr>]\<rparr>)))
         else if er_op rq = NS_EPOLL_CTL_DEL
         then (case found_slot of None \<Rightarrow> (-22, obj)
               | Some i \<Rightarrow> (0, Some (ob\<lparr>eo_watches := (eo_watches ob)[i := watch_none]\<rparr>)))
         else (-22, obj)
   | _ \<Rightarrow> (-22, obj))"

section \<open>Polling\<close>

text \<open>The result and the value stored through \<open>revents_out\<close>.\<close>

definition ns_fd_poll_revents :: "'n net_ops \<Rightarrow> int \<Rightarrow> int \<Rightarrow> u16 \<Rightarrow> 'n nsys \<Rightarrow> bool \<times> u16" where
  "ns_fd_poll_revents ops tid fd events s = (case ns_socket_entry_for_fd tid fd s of
     Some h \<Rightarrow>
       let r1 = (if ns_socket_ready_for_read ops (Some h) s \<and> events AND NS_POLLIN \<noteq> 0 then 0 OR NS_POLLIN else 0);
           r2 = (if ns_socket_ready_for_write ops (Some h) s \<and> events AND NS_POLLOUT \<noteq> 0 then r1 OR NS_POLLOUT else r1)
       in (r2 \<noteq> 0, r2)
   | None \<Rightarrow>
       if vfs_fcntl_getfl ops fd (ns_rest s) \<ge> 0
       then let r1 = (if events AND NS_POLLIN \<noteq> 0 then 0 OR NS_POLLIN else 0);
                r2 = (if events AND NS_POLLOUT \<noteq> 0 then r1 OR NS_POLLOUT else r1)
            in (r2 \<noteq> 0, r2)
       else (False, NS_POLLERR))"

primrec ns_poll_loop :: "'n net_ops \<Rightarrow> int \<Rightarrow> 'n nsys \<Rightarrow> nat \<Rightarrow> poll_fd list \<Rightarrow> nat \<times> poll_fd list" where
  "ns_poll_loop ops tid s 0 fds = (0, fds)"
| "ns_poll_loop ops tid s (Suc n) fds =
     (let (ready, fds') = ns_poll_loop ops tid s n fds; f = fds' ! n;
          rev = snd (ns_fd_poll_revents ops tid (pf_fd f) (pf_events f) s)
      in (if rev \<noteq> 0 then ready + 1 else ready, fds'[n := f\<lparr>pf_revents := rev\<rparr>]))"

definition ns_poll_socket_array :: "'n net_ops \<Rightarrow> int \<Rightarrow> poll_fd list \<Rightarrow> nat \<Rightarrow> 'n nsys \<Rightarrow> nat \<times> poll_fd list" where
  "ns_poll_socket_array ops tid fds cnt s = ns_poll_loop ops tid s cnt fds"

partial_function (option) poll_wait_loop ::
  "'n net_ops \<Rightarrow> int \<Rightarrow> nat \<Rightarrow> u32 \<Rightarrow> u32 \<Rightarrow> poll_fd list \<Rightarrow> 'n nsys \<Rightarrow> (nat \<times> poll_fd list \<times> 'n nsys) option" where
  "poll_wait_loop ops tid cnt timeout_ticks deadline fds s =
     (let (ready, fds') = ns_poll_socket_array ops tid fds cnt s in
      if ready > 0 \<or> timeout_ticks = 0 then Some (ready, fds', s)
      else if now_ticks ops (ns_rest s) \<ge> deadline then Some (0, fds', s)
      else poll_wait_loop ops tid cnt timeout_ticks deadline fds' (sleep_tick ops s))"

definition ns_poll_socket_array_wait ::
  "'n net_ops \<Rightarrow> int \<Rightarrow> poll_fd list \<Rightarrow> nat \<Rightarrow> u32 \<Rightarrow> 'n nsys \<Rightarrow> (nat \<times> poll_fd list \<times> 'n nsys) option" where
  "ns_poll_socket_array_wait ops tid fds cnt timeout_ticks s =
     poll_wait_loop ops tid cnt timeout_ticks
       (if timeout_ticks \<noteq> 0 then now_ticks ops (ns_rest s) + timeout_ticks else 0) fds s"

text \<open>The scan of \<open>ns_epoll_collect_ready\<close>; \<open>ready\<close> entries are already in \<open>out\<close>.\<close>

primrec collect_loop :: "'n net_ops \<Rightarrow> int \<Rightarrow> nat \<Rightarrow> 'n nsys \<Rightarrow> epoll_watch list \<Rightarrow> nat \<Rightarrow> poll_fd list \<Rightarrow> nat \<times> poll_fd list" where
  "collect_loop ops cur mx s [] ready out = (ready, out)"
| "collect_loop ops cur mx s (w # ws) ready out =
     (if \<not> ew_used w then collect_loop ops cur mx s ws ready out
      else let rev = snd (ns_fd_poll_revents ops cur (ew_fd w) (ew_events w) s) in
        if rev = 0 then collect_loop ops cur mx s ws ready out
        else let out' = out[ready := \<lparr>pf_fd = ew_fd w, pf_events = ew_events w, pf_revents = rev\<rparr>] in
          if ready + 1 \<ge> mx then (ready + 1, out') else collect_loop ops cur mx s ws (ready + 1) out')"

definition ns_epoll_collect_ready ::
  "'n net_ops \<Rightarrow> int \<Rightarrow> handle option \<Rightarrow> poll_fd list option \<Rightarrow> nat \<Rightarrow> 'n nsys \<Rightarrow> nat \<times> poll_fd list option" where
  "ns_epoll_collect_ready ops cur hopt out maxevents s = (case (hopt, out) of
     (Some h, Some o1) \<Rightarrow> if maxevents = 0 then (0, out)
       else let (n, o2) = collect_loop ops cur maxevents s (eo_watches (epoll_at h s)) 0 o1 in (n, Some o2)
   | _ \<Rightarrow> (0, out))"

partial_function (option) epoll_wait_loop ::
  "'n net_ops \<Rightarrow> int \<Rightarrow> handle option \<Rightarrow> nat \<Rightarrow> u32 \<Rightarrow> u32 \<Rightarrow> poll_fd list option \<Rightarrow> 'n nsys \<Rightarrow>
     (nat \<times> poll_fd list option \<times> 'n nsys) option" where
  "epoll_wait_loop ops cur hopt maxevents timeout_ticks deadline out s =
     (let (ready, out') = ns_epoll_collect_ready ops cur hopt out maxevents s in
      if ready > 0 \<or> timeout_ticks = 0 then Some (ready, out', s)
      else if timeout_ticks \<noteq> NS_FOREVER \<and> now_ticks ops (ns_rest s) \<ge> deadline then Some (0, out', s)
      else epoll_wait_loop ops cur hopt maxevents timeout_ticks deadline out' (sleep_tick ops s))"

definition ns_epoll_wait_ready ::
  "'n net_ops \<Rightarrow> int \<Rightarrow> handle option \<Rightarrow> poll_fd list option \<Rightarrow> nat \<Rightarrow> u32 \<Rightarrow> 'n nsys \<Rightarrow>
     (nat \<times> poll_fd list option \<times> 'n nsys) option" where
  "ns_epoll_wait_ready ops cur hopt out maxevents timeout_ticks s =
     epoll_wait_loop ops cur hopt maxevents timeout_ticks
       (if timeout_ticks \<noteq> NS_FOREVER \<and> timeout_ticks \<noteq> 0 then now_ticks ops (ns_rest s) + timeout_ticks else 0) out s"

end
