(* ===== verification/NetSocketCorrect.thy ===== *)
theory NetSocketCorrect
  imports NetSocket
begin

text \<open>
  Properties of the descriptor tables of \<open>NetSocket\<close>: the life cycle of a socket descriptor, the watch list of an epoll
  object as a bounded finite map, what is collected from it, and that waiting with a timeout ends when the clock runs.
\<close>

section \<open>Tables\<close>

definition ns_wf :: "'n nsys \<Rightarrow> bool" where
  "ns_wf s \<longleftrightarrow> length (task_sockets s) = MAX_TASKS \<and> list_all (\<lambda>t. length t = NS_SOCKET_MAX_PER_TASK) (task_sockets s)"

definition valid_handle :: "handle \<Rightarrow> bool" where
  "valid_handle h \<longleftrightarrow> fst h < MAX_TASKS \<and> snd h < NS_SOCKET_MAX_PER_TASK"

lemma ns_wf_row: "ns_wf s \<Longrightarrow> i < MAX_TASKS \<Longrightarrow> length (task_sockets s ! i) = NS_SOCKET_MAX_PER_TASK"
  using list_all_nth [of "\<lambda>t. length t = NS_SOCKET_MAX_PER_TASK" "task_sockets s" i] by (simp add: ns_wf_def)

lemma sock_at_set:
  "ns_wf s \<Longrightarrow> valid_handle h \<Longrightarrow> sock_at h' (set_sock h e s) = (if h' = h then e else sock_at h' s)"
  using ns_wf_row [of s "fst h"]
  by (cases h; cases h') (auto simp: sock_at_def set_sock_def valid_handle_def ns_wf_def nth_list_update)

lemma ns_wf_set: "ns_wf s \<Longrightarrow> valid_handle h \<Longrightarrow> ns_wf (set_sock h e s)"
  using ns_wf_row [of s "fst h"] by (auto simp: ns_wf_def set_sock_def valid_handle_def intro!: list_all_update)

lemma ns_wf_rest [simp]: "ns_wf (s\<lparr>ns_rest := r\<rparr>) = ns_wf s" "sock_at h (s\<lparr>ns_rest := r\<rparr>) = sock_at h s"
  by (simp_all add: ns_wf_def sock_at_def)

lemma task_ok_iff: "task_ok t \<longleftrightarrow> 0 \<le> t \<and> nat t < MAX_TASKS"
  by (auto simp: task_ok_def)

text \<open>The handle that a task and a descriptor name, used or not.\<close>

definition handle_of :: "int \<Rightarrow> int \<Rightarrow> handle option" where
  "handle_of t fd = (if task_ok t then map_option (Pair (nat t)) (ns_socket_fd_to_slot fd) else None)"

lemma entry_for_fd_iff:
  "ns_socket_entry_for_fd t fd s = (case handle_of t fd of None \<Rightarrow> None | Some h \<Rightarrow> if sk_used (sock_at h s) then Some h else None)"
  by (simp add: ns_socket_entry_for_fd_def handle_of_def split: option.split)

lemma handle_of_inj: "handle_of t fd = Some h \<Longrightarrow> handle_of t' fd' = Some h \<Longrightarrow> t' = t \<and> fd' = fd"
  by (auto simp: handle_of_def ns_socket_fd_to_slot_def Let_def task_ok_iff eq_nat_nat_iff split: if_splits)

lemma handle_of_valid: "handle_of t fd = Some h \<Longrightarrow> valid_handle h"
  by (auto simp: handle_of_def ns_socket_fd_to_slot_def Let_def task_ok_iff valid_handle_def nat_less_iff split: if_splits)

lemma alloc_cases:
  assumes "ns_wf s" "task_ok t" "ns_socket_alloc_fd t ty proto s = (fd, s')"
  shows "(fd = -1 \<and> s' = s \<and> (\<forall>i < NS_SOCKET_MAX_PER_TASK. sk_used (sock_at (nat t, i) s))) \<or>
    (\<exists>i < NS_SOCKET_MAX_PER_TASK. fd = NS_SOCKET_FD_BASE + int i \<and> handle_of t fd = Some (nat t, i) \<and>
       \<not> sk_used (sock_at (nat t, i) s) \<and> s' = set_sock (nat t, i) (sock_fresh ty proto) s)"
proof -
  let ?row = "task_sockets s ! nat t"
  have len: "length ?row = NS_SOCKET_MAX_PER_TASK" using ns_wf_row [OF assms(1)] assms(2) by (simp add: task_ok_iff)
  then have row: "take NS_SOCKET_MAX_PER_TASK ?row = ?row" by simp
  show ?thesis
  proof (cases "find_slot (\<lambda>e. \<not> sk_used e) ?row")
    case None
    then have "\<forall>x \<in> set ?row. sk_used x" by (simp add: find_slot_None)
    with None assms(2,3) len row show ?thesis by (simp add: ns_socket_alloc_fd_def sock_at_def)
  next
    case (Some i)
    then have i: "i < NS_SOCKET_MAX_PER_TASK" "\<not> sk_used (?row ! i)" using len find_slot_SomeD [OF Some] by auto
    moreover have "handle_of t (NS_SOCKET_FD_BASE + int i) = Some (nat t, i)"
      using assms(2) i(1) by (simp add: handle_of_def ns_socket_fd_to_slot_def)
    ultimately show ?thesis using Some assms(2,3) row by (auto simp: ns_socket_alloc_fd_def sock_at_def)
  qed
qed

lemma close_entry_spec:
  assumes "ns_wf s" "valid_handle h"
  shows "\<not> sk_used (sock_at h (ns_socket_close_entry ops (Some h) s))"
    "h' \<noteq> h \<Longrightarrow> sock_at h' (ns_socket_close_entry ops (Some h) s) = sock_at h' s" "ns_wf (ns_socket_close_entry ops (Some h) s)"
  using assms by (auto simp: ns_socket_close_entry_def Let_def sock_at_set ns_wf_set)

section \<open>Epoll watches as a finite map\<close>

definition watch_map :: "epoll_watch list \<Rightarrow> int \<Rightarrow> u16 option" where
  "watch_map ws fd = map_option ew_events (List.find (\<lambda>w. ew_used w \<and> ew_fd w = fd) ws)"

text \<open>No descriptor is watched twice.\<close>

definition watch_inv :: "epoll_watch list \<Rightarrow> bool" where
  "watch_inv ws \<longleftrightarrow> length ws = NS_EPOLL_MAX_WATCH \<and> distinct (map ew_fd (filter ew_used ws))"

definition watch_fds :: "epoll_watch list \<Rightarrow> int set" where
  "watch_fds ws = ew_fd ` set (filter ew_used ws)"

lemma watch_inv_unique:
  assumes "distinct (map ew_fd (filter ew_used ws))" "i < length ws" "j < length ws" "ew_used (ws ! i)" "ew_used (ws ! j)"
    "ew_fd (ws ! i) = ew_fd (ws ! j)"
  shows "i = j"
  using assms
proof (induction ws arbitrary: i j)
  case (Cons w ws)
  have no: "ew_fd (ws ! k) \<noteq> ew_fd w" if "ew_used w" "k < length ws" "ew_used (ws ! k)" for k
    using Cons.prems(1) that by (auto simp: image_iff)
  have d: "distinct (map ew_fd (filter ew_used ws))" using Cons.prems(1) by (auto split: if_splits)
  consider "i = 0" "j = 0" | k where "i = 0" "j = Suc k" | k where "i = Suc k" "j = 0" | k l where "i = Suc k" "j = Suc l"
    by (cases i; cases j) auto
  then show ?case
  proof cases
    case 1
    then show ?thesis by simp
  next
    case 2
    with no [of k] Cons.prems show ?thesis by simp
  next
    case 3
    with no [of k] Cons.prems show ?thesis by simp
  next
    case 4
    with Cons.IH [OF d, of k l] Cons.prems show ?thesis by simp
  qed
qed simp

lemma unique_watch_inv:
  assumes "\<And>i j. i < length ws \<Longrightarrow> j < length ws \<Longrightarrow> ew_used (ws ! i) \<Longrightarrow> ew_used (ws ! j) \<Longrightarrow> ew_fd (ws ! i) = ew_fd (ws ! j) \<Longrightarrow> i = j"
  shows "distinct (map ew_fd (filter ew_used ws))"
  using assms
proof (induction ws)
  case (Cons w ws)
  have "distinct (map ew_fd (filter ew_used ws))"
  proof (rule Cons.IH)
    fix i j assume "i < length ws" "j < length ws" "ew_used (ws ! i)" "ew_used (ws ! j)" "ew_fd (ws ! i) = ew_fd (ws ! j)"
    then show "i = j" using Cons.prems [of "Suc i" "Suc j"] by simp
  qed
  moreover have "ew_fd w \<notin> ew_fd ` set (filter ew_used ws)" if "ew_used w"
  proof
    assume "ew_fd w \<in> ew_fd ` set (filter ew_used ws)"
    then obtain k where "k < length ws" "ew_used (ws ! k)" "ew_fd (ws ! k) = ew_fd w" by (auto simp: in_set_conv_nth)
    then show False using Cons.prems [of 0 "Suc k"] that by simp
  qed
  ultimately show ?case by simp
qed simp

lemma watch_map_eqI:
  assumes "distinct (map ew_fd (filter ew_used ws))" "i < length ws" "ew_used (ws ! i)" "ew_fd (ws ! i) = fd"
  shows "watch_map ws fd = Some (ew_events (ws ! i))"
proof (cases "List.find (\<lambda>w. ew_used w \<and> ew_fd w = fd) ws")
  case None
  with assms(2-4) show ?thesis by (auto simp: find_None_iff)
next
  case (Some w)
  then obtain j where "j < length ws" "w = ws ! j" "ew_used w" "ew_fd w = fd" by (auto simp: find_Some_iff)
  moreover from this have "j = i" using watch_inv_unique [OF assms(1), of j i] assms(2-4) by simp
  ultimately show ?thesis using Some by (simp add: watch_map_def)
qed

lemma watch_map_None: "watch_map ws fd = None \<longleftrightarrow> (\<forall>i < length ws. \<not> (ew_used (ws ! i) \<and> ew_fd (ws ! i) = fd))"
  by (auto simp: watch_map_def find_None_iff in_set_conv_nth)

lemma plus_Suc_fun: "(+) (Suc k) = (\<lambda>x. Suc (k + x))"
  by (simp add: fun_eq_iff)

lemma map_option_plus_0: "map_option ((+) (0 :: nat)) x = x"
  by (cases x) simp_all

lemma ctl_scan_found:
  "snd (ctl_scan fd ws k free) = map_option ((+) k) (find_slot (\<lambda>w. ew_used w \<and> ew_fd w = fd) ws)"
  by (induction ws arbitrary: k free) (auto simp: Let_def option.map_comp comp_def plus_Suc_fun)

lemma ctl_scan_free:
  "find_slot (\<lambda>w. ew_used w \<and> ew_fd w = fd) ws = None \<Longrightarrow>
   fst (ctl_scan fd ws k free) = (case free of Some i \<Rightarrow> Some i | None \<Rightarrow> map_option ((+) k) (find_slot (\<lambda>w. \<not> ew_used w) ws))"
  by (induction ws arbitrary: k free) (auto simp: Let_def option.map_comp comp_def plus_Suc_fun split: option.splits if_splits)

lemma dom_watch_map: "dom (watch_map ws) = watch_fds ws"
  by (auto simp: watch_map_def watch_fds_def dom_def find_None_iff find_Some_iff image_iff)

lemma card_watch: "distinct (map ew_fd (filter ew_used ws)) \<Longrightarrow> card (dom (watch_map ws)) = occupied ew_used ws"
  unfolding dom_watch_map watch_fds_def using distinct_card [of "map ew_fd (filter ew_used ws)"] by simp

text \<open>Replacing one watch.\<close>

lemma watch_update:
  assumes "distinct (map ew_fd (filter ew_used ws))" "i < length ws"
    "\<And>j. ew_used w \<Longrightarrow> j < length ws \<Longrightarrow> j \<noteq> i \<Longrightarrow> ew_used (ws ! j) \<Longrightarrow> ew_fd (ws ! j) \<noteq> ew_fd w"
  shows "distinct (map ew_fd (filter ew_used (ws[i := w])))"
    "watch_map (ws[i := w]) fd = (if ew_used w \<and> fd = ew_fd w then Some (ew_events w)
       else if ew_used (ws ! i) \<and> ew_fd (ws ! i) = fd then None else watch_map ws fd)"
proof -
  show d: "distinct (map ew_fd (filter ew_used (ws[i := w])))"
  proof (rule unique_watch_inv)
    fix j k
    assume a: "j < length (ws[i := w])" "k < length (ws[i := w])" "ew_used (ws[i := w] ! j)" "ew_used (ws[i := w] ! k)"
      "ew_fd (ws[i := w] ! j) = ew_fd (ws[i := w] ! k)"
    show "j = k"
    proof (rule ccontr)
      assume "j \<noteq> k"
      then consider "j = i" "k \<noteq> i" | "k = i" "j \<noteq> i" | "j \<noteq> i" "k \<noteq> i" by blast
      then show False
      proof cases
        case 1
        with a assms(2) assms(3) [of k] show False by simp
      next
        case 2
        with a assms(2) assms(3) [of j] show False by simp
      next
        case 3
        with a watch_inv_unique [OF assms(1), of j k] \<open>j \<noteq> k\<close> show False by simp
      qed
    qed
  qed
  show "watch_map (ws[i := w]) fd = (if ew_used w \<and> fd = ew_fd w then Some (ew_events w)
       else if ew_used (ws ! i) \<and> ew_fd (ws ! i) = fd then None else watch_map ws fd)"
  proof (cases "ew_used w \<and> fd = ew_fd w")
    case True
    with watch_map_eqI [OF d, of i fd] assms(2) show ?thesis by simp
  next
    case nw: False
    show ?thesis
    proof (cases "\<exists>j < length ws. j \<noteq> i \<and> ew_used (ws ! j) \<and> ew_fd (ws ! j) = fd")
      case True
      then obtain j where j: "j < length ws" "j \<noteq> i" "ew_used (ws ! j)" "ew_fd (ws ! j) = fd" by blast
      have "\<not> (ew_used (ws ! i) \<and> ew_fd (ws ! i) = fd)" using watch_inv_unique [OF assms(1), of i j] j assms(2) by auto
      moreover have "watch_map (ws[i := w]) fd = Some (ew_events (ws ! j))" using watch_map_eqI [OF d, of j fd] j by simp
      moreover have "watch_map ws fd = Some (ew_events (ws ! j))" using watch_map_eqI [OF assms(1), of j fd] j by simp
      ultimately show ?thesis using nw by auto
    next
      case False
      have "\<not> (ew_used (ws[i := w] ! j) \<and> ew_fd (ws[i := w] ! j) = fd)" if "j < length ws" for j
        using that False nw assms(2) by (cases "j = i") auto
      then have n: "watch_map (ws[i := w]) fd = None" by (simp add: watch_map_None)
      have "watch_map ws fd = None" if "\<not> (ew_used (ws ! i) \<and> ew_fd (ws ! i) = fd)"
        using that False by (auto simp: watch_map_None)
      with n nw show ?thesis by auto
    qed
  qed
qed

text \<open>The specification: a finite map with at most 64 entries.\<close>

definition ctl_spec :: "epoll_req \<Rightarrow> (int \<rightharpoonup> u16) \<Rightarrow> int \<times> (int \<rightharpoonup> u16)" where
  "ctl_spec rq m =
     (let fd = pf_fd (er_event rq); ev = pf_events (er_event rq) in
      if fd < 0 then (-22, m)
      else if er_op rq = NS_EPOLL_CTL_ADD
      then (if fd \<in> dom m then (-22, m) else if card (dom m) \<ge> NS_EPOLL_MAX_WATCH then (-28, m) else (0, m(fd \<mapsto> ev)))
      else if er_op rq = NS_EPOLL_CTL_MOD then (if fd \<in> dom m then (0, m(fd \<mapsto> ev)) else (-22, m))
      else if er_op rq = NS_EPOLL_CTL_DEL then (if fd \<in> dom m then (0, m(fd := None)) else (-22, m))
      else (-22, m))"

primrec ctl_spec_run :: "epoll_req list \<Rightarrow> (int \<rightharpoonup> u16) \<Rightarrow> int list \<times> (int \<rightharpoonup> u16)" where
  "ctl_spec_run [] m = ([], m)"
| "ctl_spec_run (q # qs) m = (let (r, m1) = ctl_spec q m; (rs, m2) = ctl_spec_run qs m1 in (r # rs, m2))"

primrec ctl_run :: "epoll_req list \<Rightarrow> epoll_obj option \<Rightarrow> int list \<times> epoll_obj option" where
  "ctl_run [] ob = ([], ob)"
| "ctl_run (q # qs) ob = (let (r, o1) = ns_epoll_ctl_apply ob (Some q); (rs, o2) = ctl_run qs o1 in (r # rs, o2))"

definition ctl_rel :: "epoll_obj \<Rightarrow> (int \<rightharpoonup> u16) \<Rightarrow> bool" where
  "ctl_rel ob m \<longleftrightarrow> watch_inv (eo_watches ob) \<and> watch_map (eo_watches ob) = m"

lemma ctl_full_iff:
  assumes "watch_inv ws"
  shows "find_slot (\<lambda>w. \<not> ew_used w) ws = None \<longleftrightarrow> card (dom (watch_map ws)) \<ge> NS_EPOLL_MAX_WATCH"
proof -
  have len: "length ws = NS_EPOLL_MAX_WATCH" and d: "distinct (map ew_fd (filter ew_used ws))"
    using assms by (simp_all add: watch_inv_def)
  have "(\<forall>x \<in> set ws. ew_used x) \<longleftrightarrow> occupied ew_used ws = length ws" by (metis filter_True length_filter_less less_irrefl)
  then show ?thesis using len card_watch [OF d] occupied_le [of ew_used ws] by (auto simp: find_slot_None)
qed

lemma ctl_found_iff: "find_slot (\<lambda>w. ew_used w \<and> ew_fd w = fd) ws = None \<longleftrightarrow> fd \<notin> dom (watch_map ws)"
  by (auto simp: find_slot_None dom_watch_map watch_fds_def)

lemma ctl_step_refines:
  assumes "ctl_rel ob m"
  shows "\<exists>ob'. ns_epoll_ctl_apply (Some ob) (Some rq) = (fst (ctl_spec rq m), Some ob') \<and> ctl_rel ob' (snd (ctl_spec rq m))"
proof -
  let ?ws = "eo_watches ob" and ?fd = "pf_fd (er_event rq)" and ?ev = "pf_events (er_event rq)"
  have inv: "watch_inv ?ws" and m: "m = watch_map ?ws" using assms by (simp_all add: ctl_rel_def)
  have len: "length ?ws = NS_EPOLL_MAX_WATCH" and d: "distinct (map ew_fd (filter ew_used ?ws))"
    using inv by (simp_all add: watch_inv_def)
  show ?thesis
  proof (cases "find_slot (\<lambda>w. ew_used w \<and> ew_fd w = ?fd) ?ws")
    case None
    then have nd: "?fd \<notin> dom m" by (simp add: m ctl_found_iff)
    then have free: "\<And>j. j < length ?ws \<Longrightarrow> ew_used (?ws ! j) \<Longrightarrow> ew_fd (?ws ! j) \<noteq> ?fd"
      by (auto simp: m domIff watch_map_None)
    have scan: "ctl_scan ?fd ?ws 0 None = (find_slot (\<lambda>w. \<not> ew_used w) ?ws, None)"
      using ctl_scan_found [of ?fd ?ws 0 None] ctl_scan_free [OF None, of 0 None] None
      by (cases "ctl_scan ?fd ?ws 0 None") (simp add: map_option_plus_0)
    show ?thesis
    proof (cases "find_slot (\<lambda>w. \<not> ew_used w) ?ws")
      case None
      then have "card (dom m) \<ge> NS_EPOLL_MAX_WATCH" using ctl_full_iff [OF inv] by (simp add: m)
      then show ?thesis using None scan nd assms by (simp add: ns_epoll_ctl_apply_def ctl_spec_def Let_def)
    next
      case (Some i)
      then have c: "\<not> card (dom m) \<ge> NS_EPOLL_MAX_WATCH" using ctl_full_iff [OF inv] by (simp add: m)
      have i: "i < length ?ws" "\<not> ew_used (?ws ! i)" using find_slot_SomeD [OF Some] by auto
      let ?w = "\<lparr>ew_used = True, ew_fd = ?fd, ew_events = ?ev\<rparr>"
      have "ctl_rel (ob\<lparr>eo_watches := ?ws[i := ?w]\<rparr>) (m(?fd \<mapsto> ?ev))"
        using watch_update [OF d i(1), of ?w] free i(2) len by (auto simp: ctl_rel_def watch_inv_def m fun_eq_iff)
      then show ?thesis using Some scan nd c assms by (simp add: ns_epoll_ctl_apply_def ctl_spec_def Let_def)
    qed
  next
    case (Some i)
    then have dm: "?fd \<in> dom m" using ctl_found_iff [of ?fd ?ws] by (auto simp: m)
    have i: "i < length ?ws" "ew_used (?ws ! i)" "ew_fd (?ws ! i) = ?fd" using find_slot_SomeD [OF Some] by auto
    obtain f where scan: "ctl_scan ?fd ?ws 0 None = (f, Some i)"
      using ctl_scan_found [of ?fd ?ws 0 None] Some by (cases "ctl_scan ?fd ?ws 0 None") auto
    have other: "ew_fd (?ws ! j) \<noteq> ?fd" if "j < length ?ws" "j \<noteq> i" "ew_used (?ws ! j)" for j
      using watch_inv_unique [OF d, of j i] that i by auto
    have md: "ctl_rel (ob\<lparr>eo_watches := ?ws[i := (?ws ! i)\<lparr>ew_events := ?ev\<rparr>]\<rparr>) (m(?fd \<mapsto> ?ev))"
      using watch_update [OF d i(1), of "(?ws ! i)\<lparr>ew_events := ?ev\<rparr>"] other i len
      by (auto simp: ctl_rel_def watch_inv_def m fun_eq_iff)
    have dl: "ctl_rel (ob\<lparr>eo_watches := ?ws[i := watch_none]\<rparr>) (m(?fd := None))"
      using watch_update [OF d i(1), of watch_none] i len by (auto simp: ctl_rel_def watch_inv_def m fun_eq_iff watch_none_def)
    show ?thesis using scan dm md dl assms by (auto simp: ns_epoll_ctl_apply_def ctl_spec_def Let_def)
  qed
qed

lemma ctl_run_refines:
  "ctl_rel ob m \<Longrightarrow> \<exists>ob'. ctl_run qs (Some ob) = (fst (ctl_spec_run qs m), Some ob') \<and> ctl_rel ob' (snd (ctl_spec_run qs m))"
proof (induction qs arbitrary: ob m)
  case (Cons q qs)
  obtain ob1 where s: "ns_epoll_ctl_apply (Some ob) (Some q) = (fst (ctl_spec q m), Some ob1)" "ctl_rel ob1 (snd (ctl_spec q m))"
    using ctl_step_refines [OF Cons.prems] by blast
  from Cons.IH [OF s(2)] show ?case by (auto simp: s(1) split_beta Let_def)
qed simp

definition epoll_fresh :: epoll_obj where
  "epoll_fresh = \<lparr>eo_used = True, eo_watches = replicate NS_EPOLL_MAX_WATCH watch_none\<rparr>"

lemma ctl_rel_fresh: "ctl_rel epoll_fresh Map.empty"
proof -
  have "filter ew_used (replicate NS_EPOLL_MAX_WATCH watch_none) = []" by (simp add: watch_none_def)
  moreover have "watch_map (replicate NS_EPOLL_MAX_WATCH watch_none) fd = None" for fd
    by (simp add: watch_map_None watch_none_def)
  ultimately show ?thesis by (simp add: ctl_rel_def epoll_fresh_def watch_inv_def fun_eq_iff)
qed

section \<open>Collecting\<close>

definition watch_ready :: "'n net_ops \<Rightarrow> int \<Rightarrow> 'n nsys \<Rightarrow> epoll_watch \<Rightarrow> bool" where
  "watch_ready ops cur s w \<longleftrightarrow> ew_used w \<and> snd (ns_fd_poll_revents ops cur (ew_fd w) (ew_events w) s) \<noteq> 0"

definition watch_event :: "'n net_ops \<Rightarrow> int \<Rightarrow> 'n nsys \<Rightarrow> epoll_watch \<Rightarrow> poll_fd" where
  "watch_event ops cur s w = \<lparr>pf_fd = ew_fd w, pf_events = ew_events w,
     pf_revents = snd (ns_fd_poll_revents ops cur (ew_fd w) (ew_events w) s)\<rparr>"

lemma collect_loop_eq:
  assumes "ready < mx" "mx \<le> length out"
  shows "collect_loop ops cur mx s ws ready out =
    (let L = take (mx - ready) (map (watch_event ops cur s) (filter (watch_ready ops cur s) ws))
     in (ready + length L, take ready out @ L @ drop (ready + length L) out))"
  using assms
proof (induction ws arbitrary: ready out)
  case (Cons w ws)
  show ?case
  proof (cases "watch_ready ops cur s w")
    case False
    with Cons show ?thesis by (auto simp: watch_ready_def Let_def)
  next
    case True
    let ?e = "watch_event ops cur s w"
    have u: "ew_used w" "snd (ns_fd_poll_revents ops cur (ew_fd w) (ew_events w) s) \<noteq> 0" using True by (simp_all add: watch_ready_def)
    have e: "\<lparr>pf_fd = ew_fd w, pf_events = ew_events w, pf_revents = snd (ns_fd_poll_revents ops cur (ew_fd w) (ew_events w) s)\<rparr> = ?e"
      by (simp add: watch_event_def)
    have t: "take (mx - ready) (?e # xs) = ?e # take (mx - Suc ready) xs" for xs
      using Cons.prems(1) by (metis Suc_diff_Suc take_Suc_Cons)
    have o1: "take (Suc ready) (out[ready := ?e]) = take ready out @ [?e]" "drop (Suc ready + k) (out[ready := ?e]) = drop (Suc ready + k) out" for k
      using Cons.prems by (simp_all add: take_Suc_conv_app_nth)
    show ?thesis
    proof (cases "ready + 1 \<ge> mx")
      case True
      then have "mx - Suc ready = 0" by simp
      then show ?thesis using u e t True o1(2) [of 0] Cons.prems \<open>watch_ready ops cur s w\<close>
        by (simp add: Let_def upd_conv_take_nth_drop)
    next
      case False
      with Cons.IH [of "Suc ready" "out[ready := ?e]"] Cons.prems u e t o1 \<open>watch_ready ops cur s w\<close> show ?thesis
        by (simp add: Let_def)
    qed
  qed
qed simp

section \<open>Waiting\<close>

lemma wait_loop_wrapped:
  "now_ticks ops (ns_rest s) \<ge> deadline \<Longrightarrow> wait_loop ops cond False deadline s = Some (cond s, s)"
  by (subst wait_loop.simps) simp

section \<open>Properties\<close>

text \<open>
  The life cycle of a socket descriptor. Allocation fails exactly when the task has 64 sockets; otherwise
  it returns a descriptor of the task that named nothing before, in the range 1024 to 1087 and so
  never an epoll descriptor, which now names a socket in its initial state; every other descriptor of every task names what it named, with the same contents. Closing it makes the
  descriptor invalid again and again affects no other.
\<close>
theorem socket_fd_lifecycle:
  assumes "ns_wf s" "task_ok t" "ns_socket_alloc_fd t ty proto s = (fd, s1)"
  shows "(fd = -1 \<longleftrightarrow> (\<forall>i < 64. sk_used (sock_at (nat t, i) s))) \<and>
    (fd \<noteq> -1 \<longrightarrow> (\<exists>h. 1024 \<le> fd \<and> fd < 1088 \<and> ns_epoll_fd_to_slot fd = None \<and>
       ns_socket_entry_for_fd t fd s = None \<and> ns_socket_entry_for_fd t fd s1 = Some h \<and> sock_at h s1 = sock_fresh ty proto \<and>
       ns_socket_entry_for_fd t fd (ns_socket_close_entry ops (Some h) s1) = None \<and>
       (\<forall>t' fd' h'. (t', fd') \<noteq> (t, fd) \<and> handle_of t' fd' = Some h' \<longrightarrow>
          sock_at h' s1 = sock_at h' s \<and> sock_at h' (ns_socket_close_entry ops (Some h) s1) = sock_at h' s)))"
  using alloc_cases [OF assms]
proof (elim disjE exE conjE)
  fix i
  assume i: "i < NS_SOCKET_MAX_PER_TASK" "fd = NS_SOCKET_FD_BASE + int i" "handle_of t fd = Some (nat t, i)"
    "\<not> sk_used (sock_at (nat t, i) s)" and s1: "s1 = set_sock (nat t, i) (sock_fresh ty proto) s"
  let ?h = "(nat t, i)"
  have v: "valid_handle ?h" by (rule handle_of_valid [OF i(3)])
  have wf1: "ns_wf s1" unfolding s1 by (rule ns_wf_set [OF assms(1) v])
  note C = close_entry_spec [OF wf1 v, where ops = ops]
  have at: "sock_at h' s1 = (if h' = ?h then sock_fresh ty proto else sock_at h' s)" for h'
    unfolding s1 by (rule sock_at_set [OF assms(1) v])
  have other: "h' \<noteq> ?h" if "(t', fd') \<noteq> (t, fd)" "handle_of t' fd' = Some h'" for t' fd' h'
    using handle_of_inj [OF i(3), of t' fd'] that by auto
  have "1024 \<le> fd" "fd < 1088" "ns_epoll_fd_to_slot fd = None" "fd \<noteq> -1"
    using i(1,2) by (simp_all add: ns_epoll_fd_to_slot_def Let_def)
  moreover have "ns_socket_entry_for_fd t fd s = None" using i(3,4) by (simp add: entry_for_fd_iff)
  moreover have "ns_socket_entry_for_fd t fd s1 = Some ?h" using i(3) by (simp add: entry_for_fd_iff at sock_fresh_def)
  moreover have "ns_socket_entry_for_fd t fd (ns_socket_close_entry ops (Some ?h) s1) = None"
    using i(3) C(1) by (simp add: entry_for_fd_iff)
  moreover have "sock_at h' s1 = sock_at h' s \<and> sock_at h' (ns_socket_close_entry ops (Some ?h) s1) = sock_at h' s"
    if "(t', fd') \<noteq> (t, fd) \<and> handle_of t' fd' = Some h'" for t' fd' h'
    using other [of t' fd' h'] that at C(2) [of h'] by simp
  ultimately show ?thesis using i(1,4) at [of ?h] by auto
qed auto

definition sys_one :: "u32 nsys" where
  "sys_one = \<lparr>task_sockets = replicate MAX_TASKS (replicate NS_SOCKET_MAX_PER_TASK ((sock_fresh 0 0)\<lparr>sk_used := False\<rparr>)),
     task_epolls = replicate MAX_TASKS (replicate NS_EPOLL_MAX_PER_TASK (epoll_fresh\<lparr>eo_used := False\<rparr>)), ns_rest = 0\<rparr>"

theorem socket_fd_lifecycle_witness: "fst (ns_socket_alloc_fd 2 NS_SOCK_DGRAM 0 sys_one) \<noteq> -1"
proof -
  obtain fd s1 where a: "ns_socket_alloc_fd 2 NS_SOCK_DGRAM 0 sys_one = (fd, s1)" by fastforce
  have wf: "ns_wf sys_one" by (simp add: ns_wf_def sys_one_def list_all_iff)
  have "\<not> sk_used (sock_at (nat 2, 0) sys_one)" by (simp add: sock_at_def sys_one_def)
  moreover have "task_ok 2" by (simp add: task_ok_def)
  ultimately show ?thesis using socket_fd_lifecycle [OF wf _ a] a by (metis fst_conv zero_less_numeral)
qed

text \<open>
  C19. The watch list of an epoll object is a finite map from descriptors to event masks with room for 64 entries:
  for every sequence of control requests on a fresh object the return values and the watched descriptors are those
  of the map, whichever slots were freed and reused on the way.
\<close>
theorem epoll_ctl_refines:
  "\<exists>ob. ctl_run qs (Some epoll_fresh) = (fst (ctl_spec_run qs Map.empty), Some ob) \<and>
    watch_map (eo_watches ob) = snd (ctl_spec_run qs Map.empty)"
  using ctl_run_refines [OF ctl_rel_fresh, of qs] by (auto simp: ctl_rel_def)

text \<open>
  Collecting the ready descriptors of an epoll object stores exactly the first \<open>maxevents\<close> watches that are ready, in the order of the table,
  each with the events that hold, and writes nothing else of the caller's array.
\<close>
theorem epoll_collect_exact:
  assumes "0 < mx" "mx \<le> length out"
  shows "ns_epoll_collect_ready ops cur (Some h) (Some out) mx s =
    (let L = take mx (map (watch_event ops cur s) (filter (watch_ready ops cur s) (eo_watches (epoll_at h s))))
     in (length L, Some (L @ drop (length L) out)))"
  using assms collect_loop_eq [of 0 mx out ops cur s] by (simp add: ns_epoll_collect_ready_def Let_def)

definition ops_clock :: "u32 net_ops" where
  "ops_clock = \<lparr>net_udp_unbind = \<lambda>_ n. n, net_tcp_unlisten = \<lambda>_ n. n, net_tcp_close = \<lambda>_ n. n, net_udp_has_data = \<lambda>_ n. n \<ge> 3,
     net_tcp_accept_ready = \<lambda>_ _. False, net_tcp_can_recv = \<lambda>_ _. False, net_tcp_can_send = \<lambda>_ _. False,
     vfs_fcntl_getfl = \<lambda>_ _. 0, now_ticks = \<lambda>n. n, sleep_tick = \<lambda>s. s\<lparr>ns_rest := ns_rest s + 1\<rparr>\<rparr>"

definition out_one :: poll_fd where
  "out_one = \<lparr>pf_fd = 0, pf_events = 0, pf_revents = 0\<rparr>"

theorem epoll_collect_exact_witness:
  "ns_epoll_collect_ready ops_clock 0 (Some (0, 0)) (Some [out_one]) 1
     (sys_one\<lparr>task_epolls := [[\<lparr>eo_used = True, eo_watches = [watch_none, \<lparr>ew_used = True, ew_fd = 5, ew_events = NS_POLLIN\<rparr>]\<rparr>]]\<rparr>) =
   (1, Some [\<lparr>pf_fd = 5, pf_events = NS_POLLIN, pf_revents = NS_POLLIN\<rparr>])"
  using epoll_collect_exact [of 1 "[out_one]" ops_clock 0 "(0, 0)"
    "sys_one\<lparr>task_epolls := [[\<lparr>eo_used = True, eo_watches = [watch_none, \<lparr>ew_used = True, ew_fd = 5, ew_events = NS_POLLIN\<rparr>]\<rparr>]]\<rparr>"]
  by (simp add: epoll_at_def watch_none_def watch_ready_def watch_event_def ns_fd_poll_revents_def ns_socket_entry_for_fd_def
    ns_socket_fd_to_slot_def task_ok_def ops_clock_def Let_def)

text \<open>
  When the deadline of a timed wait wraps around \<open>2\<^sup>3\<^sup>2\<close>, the wait does not wait at all: it reports whether the socket is ready now.
\<close>
theorem socket_wait_wrapped:
  assumes "timeout \<noteq> NS_FOREVER" "unat (now_ticks ops (ns_rest s)) + unat timeout \<ge> 2 ^ 32"
  shows "ns_socket_wait_for_readable ops h timeout s = Some (ns_socket_ready_for_read ops h s, s)"
proof -
  let ?now = "now_ticks ops (ns_rest s)"
  have "?now \<ge> ?now + timeout"
    using assms(2) unsigned_less [of timeout, where 'a = nat] unsigned_less [of ?now, where 'a = nat]
    by (simp add: word_le_nat_alt unat_word_ariths mod_if) arith
  then show ?thesis using assms(1) by (simp add: ns_socket_wait_for_readable_def wait_loop_wrapped)
qed

theorem socket_wait_wrapped_witness:
  "ns_socket_wait_for_readable ops_clock (Some (0, 0)) 10 (sys_one\<lparr>ns_rest := 0xFFFFFFFF\<rparr>) =
     Some (ns_socket_ready_for_read ops_clock (Some (0, 0)) (sys_one\<lparr>ns_rest := 0xFFFFFFFF\<rparr>), sys_one\<lparr>ns_rest := 0xFFFFFFFF\<rparr>)"
  by (rule socket_wait_wrapped) (simp_all add: ops_clock_def)

text \<open>
  \<open>poll\<close> does not know the timeout \<open>0xFFFFFFFF\<close> that the socket and epoll waits take for waiting without end: unless the tick counter is 0, the
  deadline computed from it has passed already and \<open>ns_poll_socket_array_wait\<close> returns at once.
\<close>
theorem poll_forever_returns:
  assumes "now_ticks ops (ns_rest s) \<noteq> 0"
  shows "ns_poll_socket_array_wait ops t fds cnt NS_FOREVER s =
    (let (ready, fds') = ns_poll_socket_array ops t fds cnt s in Some (ready, fds', s))"
proof -
  let ?now = "now_ticks ops (ns_rest s)"
  have "?now + NS_FOREVER = ?now - 1" by simp
  moreover have "?now - 1 \<le> ?now" using assms by (simp add: word_le_nat_alt unat_minus_one)
  ultimately have "?now + NS_FOREVER \<le> ?now" by (simp only:)
  then show ?thesis unfolding ns_poll_socket_array_wait_def
    by (subst poll_wait_loop.simps) (auto simp: Let_def split: prod.split)
qed

theorem poll_forever_returns_witness:
  "ns_poll_socket_array_wait ops_clock 0 [] 0 NS_FOREVER (sys_one\<lparr>ns_rest := 5\<rparr>) = Some (0, [], sys_one\<lparr>ns_rest := 5\<rparr>)"
  using poll_forever_returns [of ops_clock "sys_one\<lparr>ns_rest := 5\<rparr>" 0 "[]" 0] by (simp add: ops_clock_def ns_poll_socket_array_def)

end
