(* ===== verification/Neural.thy ===== *)
theory Neural
  imports Prelude
begin

text \<open>
  The neural side of the kernel: the pixels and task records that \<open>switch_tasks\<close> of \<open>src/kernel/scheduler.c\<close> exchanges,
  and the neuron models of \<open>src/kernel/model_manager.c\<close> and \<open>model_manager.h\<close>. Values of the C type \<open>int\<close> are integers;
  division truncates as in C.
\<close>

section \<open>Data\<close>

record neuron =
  voltage :: int
  spike_count :: int
  nr_id :: int
  synaptic_weight :: int
  refractory_timer :: int
  dynamic_threshold :: int

record pixel =
  neurons :: "neuron list"
  current_phase :: u8
  pixel_recent_spikes :: int

record ntask =
  nt_task_id :: int
  nt_priority :: int
  target_pixel :: int
  base_integration :: int
  fire_threshold :: int
  task_name :: string
  saved_voltages :: "int list"
  saved_weights :: "int list"
  saved_thresholds :: "int list"
  last_spike_count :: int
  spikes_per_second :: int
  nt_state :: int

abbreviation NEURONS :: nat where "NEURONS \<equiv> 5"

record neural =
  task_list :: "ntask list"
  os_memory_map :: "pixel list"

section \<open>Exchanging the tasks of the two pixels\<close>

definition save_neurons :: "pixel \<Rightarrow> ntask \<Rightarrow> ntask" where
  "save_neurons px t = t\<lparr>saved_voltages := map voltage (neurons px), saved_weights := map synaptic_weight (neurons px),
     saved_thresholds := map dynamic_threshold (neurons px)\<rparr>"

definition load_neurons :: "ntask \<Rightarrow> pixel \<Rightarrow> pixel" where
  "load_neurons t px = px\<lparr>neurons := map (\<lambda>n. (neurons px ! n)\<lparr>voltage := saved_voltages t ! n,
     synaptic_weight := saved_weights t ! n, dynamic_threshold := saved_thresholds t ! n\<rparr>) [0..<NEURONS]\<rparr>"

text \<open>The first of the two tasks whose target is pixel \<open>p\<close>.\<close>

definition task_of_pixel :: "nat \<Rightarrow> neural \<Rightarrow> nat option" where
  "task_of_pixel p s = find_slot (\<lambda>t. target_pixel t = int p) (take 2 (task_list s))"

definition save_pixel :: "nat \<Rightarrow> neural \<Rightarrow> neural" where
  "save_pixel p s = (case task_of_pixel p s of None \<Rightarrow> s
     | Some t \<Rightarrow> s\<lparr>task_list := (task_list s)[t := save_neurons (os_memory_map s ! p) (task_list s ! t)]\<rparr>)"

definition load_pixel :: "nat \<Rightarrow> neural \<Rightarrow> neural" where
  "load_pixel p s = (case task_of_pixel p s of None \<Rightarrow> s
     | Some t \<Rightarrow> s\<lparr>os_memory_map := (os_memory_map s)[p := load_neurons (task_list s ! t) (os_memory_map s ! p)]\<rparr>)"

definition switch_tasks :: "neural \<Rightarrow> neural" where
  "switch_tasks s =
     (let s1 = fold save_pixel [0, 1] s; l = task_list s1;
          s2 = s1\<lparr>task_list := l[0 := (l ! 1)\<lparr>target_pixel := 0\<rparr>, 1 := (l ! 0)\<lparr>target_pixel := 1\<rparr>]\<rparr>
      in fold load_pixel [0, 1] s2)"

section \<open>Model parameters\<close>

abbreviation MODEL_KIND_LIF :: int where "MODEL_KIND_LIF \<equiv> 0"
abbreviation MODEL_KIND_ADAPT :: int where "MODEL_KIND_ADAPT \<equiv> 1"
abbreviation MODEL_KIND_STDP :: int where "MODEL_KIND_STDP \<equiv> 2"
abbreviation MODEL_TASK_COUNT :: nat where "MODEL_TASK_COUNT \<equiv> 2"
abbreviation MODEL_NEURON_COUNT :: nat where "MODEL_NEURON_COUNT \<equiv> 5"

record nparams =
  tau :: int
  refractory_ticks :: int
  adaptation_step :: int
  learning_rate :: int
  weight_min :: int
  weight_max :: int

record models =
  task_model :: "int list"
  stdp_enabled :: bool
  mparams :: "nparams list list"

definition model_name_to_kind :: "string option \<Rightarrow> int" where
  "model_name_to_kind name =
     (if str_eq_local name (Some ''lif'') then MODEL_KIND_LIF
      else if str_eq_local name (Some ''adapt'') then MODEL_KIND_ADAPT
      else if str_eq_local name (Some ''stdp'') then MODEL_KIND_STDP else -1)"

definition task_index_valid :: "int \<Rightarrow> bool" where
  "task_index_valid i \<longleftrightarrow> i \<ge> 0 \<and> i < int MODEL_TASK_COUNT"

definition neuron_index_valid :: "int \<Rightarrow> bool" where
  "neuron_index_valid i \<longleftrightarrow> i \<ge> 0 \<and> i < int MODEL_NEURON_COUNT"

definition params_at :: "nat \<Rightarrow> nat \<Rightarrow> models \<Rightarrow> nparams" where
  "params_at t n m = mparams m ! t ! n"

definition set_params :: "nat \<Rightarrow> nat \<Rightarrow> nparams \<Rightarrow> models \<Rightarrow> models" where
  "set_params t n p m = m\<lparr>mparams := (mparams m)[t := (mparams m ! t)[n := p]]\<rparr>"

definition params_default :: nparams where
  "params_default = \<lparr>tau = 1, refractory_ticks = 10, adaptation_step = 200, learning_rate = 10, weight_min = 50, weight_max = 2000\<rparr>"

definition model_manager_init :: "models \<Rightarrow> models" where
  "model_manager_init m = m\<lparr>stdp_enabled := False, task_model := [MODEL_KIND_LIF, MODEL_KIND_ADAPT],
     mparams := replicate MODEL_TASK_COUNT (replicate MODEL_NEURON_COUNT params_default)\<rparr>"

definition model_select :: "int \<Rightarrow> string option \<Rightarrow> models \<Rightarrow> bool \<times> models" where
  "model_select tid name m =
     (let kind = model_name_to_kind name in
      if kind < 0 then (False, m)
      else if tid < 0 then (True, m\<lparr>task_model := [kind, kind]\<rparr>)
      else if \<not> task_index_valid tid then (False, m)
      else (True, m\<lparr>task_model := (task_model m)[nat tid := kind]\<rparr>))"

definition model_name :: "int \<Rightarrow> models \<Rightarrow> string" where
  "model_name tid m =
     (if \<not> task_index_valid tid then ''na''
      else let k = task_model m ! nat tid in
        if k = MODEL_KIND_LIF then ''lif'' else if k = MODEL_KIND_ADAPT then ''adapt''
        else if k = MODEL_KIND_STDP then ''stdp'' else ''na'')"

text \<open>One key of \<open>model_set_param\<close> on one neuron; \<open>None\<close> for an unknown key.\<close>

definition set_key :: "string \<Rightarrow> int \<Rightarrow> nparams \<Rightarrow> nparams option" where
  "set_key key v p =
     (if str_eq_local (Some key) (Some ''tau'') then Some (p\<lparr>tau := clamp_i32 v 1 8\<rparr>)
      else if str_eq_local (Some key) (Some ''refractory'') \<or> str_eq_local (Some key) (Some ''ref'')
      then Some (p\<lparr>refractory_ticks := clamp_i32 v 1 40\<rparr>)
      else if str_eq_local (Some key) (Some ''adapt'') \<or> str_eq_local (Some key) (Some ''astp'')
      then Some (p\<lparr>adaptation_step := clamp_i32 v 10 600\<rparr>)
      else if str_eq_local (Some key) (Some ''lr'') \<or> str_eq_local (Some key) (Some ''learn'')
      then Some (p\<lparr>learning_rate := clamp_i32 v 1 80\<rparr>)
      else if str_eq_local (Some key) (Some ''wmin'')
      then (let w = clamp_i32 v 1 2000 in Some (p\<lparr>weight_min := (if w > weight_max p then weight_max p else w)\<rparr>))
      else if str_eq_local (Some key) (Some ''wmax'')
      then (let w = clamp_i32 v 10 4000 in Some (p\<lparr>weight_max := (if w < weight_min p then weight_min p else w)\<rparr>))
      else None)"

primrec set_param_loop :: "string \<Rightarrow> int \<Rightarrow> (nat \<times> nat) list \<Rightarrow> models \<Rightarrow> bool \<times> models" where
  "set_param_loop key v [] m = (True, m)"
| "set_param_loop key v (tn # tns) m = (case set_key key v (params_at (fst tn) (snd tn) m) of
     None \<Rightarrow> (False, m)
   | Some p \<Rightarrow> set_param_loop key v tns (set_params (fst tn) (snd tn) p m))"

text \<open>The neurons a call is about: a negative index stands for all.\<close>

definition param_targets :: "int \<Rightarrow> int \<Rightarrow> (nat \<times> nat) list" where
  "param_targets tid nid = List.product (if tid \<ge> 0 then [nat tid] else [0..<MODEL_TASK_COUNT])
     (if nid \<ge> 0 then [nat nid] else [0..<MODEL_NEURON_COUNT])"

definition model_set_param :: "int \<Rightarrow> int \<Rightarrow> string option \<Rightarrow> int \<Rightarrow> models \<Rightarrow> bool \<times> models" where
  "model_set_param tid nid key v m = (case key of None \<Rightarrow> (False, m)
   | Some k \<Rightarrow>
       if k = [] then (False, m)
       else if tid \<ge> 0 \<and> \<not> task_index_valid tid then (False, m)
       else if nid \<ge> 0 \<and> \<not> neuron_index_valid nid then (False, m)
       else set_param_loop k v (param_targets tid nid) m)"

definition model_set_stdp :: "int \<Rightarrow> models \<Rightarrow> models" where
  "model_set_stdp enabled m = m\<lparr>stdp_enabled := (enabled \<noteq> 0)\<rparr>"

definition model_get_stdp :: "models \<Rightarrow> bool" where
  "model_get_stdp m = stdp_enabled m"

section \<open>Queries\<close>

definition model_adjust_base_gain :: "int \<Rightarrow> int \<Rightarrow> int \<Rightarrow> u32 \<Rightarrow> models \<Rightarrow> int" where
  "model_adjust_base_gain tid nid base_gain tick m =
     (if \<not> task_index_valid tid \<or> \<not> neuron_index_valid nid then base_gain
      else let kind = task_model m ! nat tid; p = params_at (nat tid) (nat nid) m;
               t = (if tau p \<le> 0 then 1 else tau p); g0 = base_gain sdiv t; g = (if g0 < 1 then 1 else g0)
           in if kind = MODEL_KIND_ADAPT then g + adaptation_step p sdiv 40
              else if kind = MODEL_KIND_STDP then (if tick mod 3 = 0 then g + learning_rate p sdiv 3 else g)
              else g)"

definition model_get_refractory_ticks :: "int \<Rightarrow> int \<Rightarrow> models \<Rightarrow> int" where
  "model_get_refractory_ticks tid nid m =
     (if \<not> task_index_valid tid \<or> \<not> neuron_index_valid nid then 10
      else let v = refractory_ticks (params_at (nat tid) (nat nid) m) in if v \<le> 0 then 10 else v)"

definition model_get_threshold_raise_step :: "int \<Rightarrow> int \<Rightarrow> models \<Rightarrow> int" where
  "model_get_threshold_raise_step tid nid m =
     (if \<not> task_index_valid tid \<or> \<not> neuron_index_valid nid then 200
      else let a = adaptation_step (params_at (nat tid) (nat nid) m); step = (if a \<le> 0 then 200 else a) in
        if task_model m ! nat tid = MODEL_KIND_LIF
        then (if step sdiv 2 < 40 then 40 else step sdiv 2) else step)"

text \<open>This query repairs parameters that are not positive.\<close>

definition model_get_threshold_decay_step :: "int \<Rightarrow> int \<Rightarrow> models \<Rightarrow> int \<times> models" where
  "model_get_threshold_decay_step tid nid m =
     (if \<not> task_index_valid tid \<or> \<not> neuron_index_valid nid then (50, m)
      else let p0 = params_at (nat tid) (nat nid) m;
               p1 = (if adaptation_step p0 \<le> 0 then p0\<lparr>adaptation_step := 200\<rparr> else p0);
               p = (if learning_rate p1 \<le> 0 then p1\<lparr>learning_rate := 10\<rparr> else p1);
               kind = task_model m ! nat tid
           in (if kind = MODEL_KIND_LIF then 35
               else if kind = MODEL_KIND_STDP then 45 + learning_rate p sdiv 8
               else 50 + adaptation_step p sdiv 12, set_params (nat tid) (nat nid) p m))"

section \<open>Learning\<close>

definition spike_weight :: "models \<Rightarrow> nat \<Rightarrow> nat \<Rightarrow> neuron list \<Rightarrow> int" where
  "spike_weight m t i ns =
     (let kind = task_model m ! t; p = params_at t i m;
          lr0 = (if learning_rate p \<le> 0 then 1 else learning_rate p);
          lr = (if kind = MODEL_KIND_LIF then (if lr0 sdiv 2 < 1 then 1 else lr0 sdiv 2) else lr0);
          w1 = to_i32 (synaptic_weight (ns ! i) + lr);
          prev = (i + MODEL_NEURON_COUNT - 1) mod MODEL_NEURON_COUNT; nxt = (i + 1) mod MODEL_NEURON_COUNT;
          stdp = (stdp_enabled m \<or> kind = MODEL_KIND_STDP);
          w2 = (if stdp \<and> voltage (ns ! prev) > dynamic_threshold (ns ! prev) sdiv 2 then to_i32 (w1 + lr) else w1);
          w3 = (if stdp \<and> voltage (ns ! nxt) < dynamic_threshold (ns ! nxt) sdiv 4 then to_i32 (w2 - lr sdiv 2) else w2);
          w4 = (if w3 < weight_min p then weight_min p else w3)
      in if w4 > weight_max p then weight_max p else w4)"

definition model_on_spike :: "int \<Rightarrow> int \<Rightarrow> int \<Rightarrow> models \<Rightarrow> pixel list \<Rightarrow> pixel list" where
  "model_on_spike tid pid nid m map0 =
     (if \<not> task_index_valid tid \<or> \<not> neuron_index_valid nid \<or> pid < 0 \<or> pid \<ge> int MODEL_TASK_COUNT then map0
      else let px = map0 ! nat pid; i = nat nid
           in map0[nat pid := px\<lparr>neurons := (neurons px)[i := (neurons px ! i)\<lparr>synaptic_weight := spike_weight m (nat tid) i (neurons px)\<rparr>]\<rparr>])"

section \<open>Manifests\<close>

record manifest =
  mf_version :: u32
  mf_stdp_enabled :: u32
  mf_task_model :: "u32 list"
  mf_tau :: "int list list"
  mf_refractory_ticks :: "int list list"
  mf_adaptation_step :: "int list list"
  mf_learning_rate :: "int list list"
  mf_weight_min :: "int list list"
  mf_weight_max :: "int list list"

definition table :: "(nat \<Rightarrow> nat \<Rightarrow> 'a) \<Rightarrow> 'a list list" where
  "table f = map (\<lambda>t. map (f t) [0..<MODEL_NEURON_COUNT]) [0..<MODEL_TASK_COUNT]"

definition model_manifest_capture :: "models \<Rightarrow> manifest" where
  "model_manifest_capture m = \<lparr>mf_version = 1, mf_stdp_enabled = (if stdp_enabled m then 1 else 0),
     mf_task_model = map (\<lambda>t. word_of_int (task_model m ! t)) [0..<MODEL_TASK_COUNT],
     mf_tau = table (\<lambda>t n. tau (params_at t n m)), mf_refractory_ticks = table (\<lambda>t n. refractory_ticks (params_at t n m)),
     mf_adaptation_step = table (\<lambda>t n. adaptation_step (params_at t n m)), mf_learning_rate = table (\<lambda>t n. learning_rate (params_at t n m)),
     mf_weight_min = table (\<lambda>t n. weight_min (params_at t n m)), mf_weight_max = table (\<lambda>t n. weight_max (params_at t n m))\<rparr>"

definition params_apply :: "manifest \<Rightarrow> nat \<Rightarrow> nat \<Rightarrow> nparams" where
  "params_apply f t n =
     (let lo = clamp_i32 (mf_weight_min f ! t ! n) 1 2000; hi = clamp_i32 (mf_weight_max f ! t ! n) 10 4000
      in \<lparr>tau = clamp_i32 (mf_tau f ! t ! n) 1 8, refractory_ticks = clamp_i32 (mf_refractory_ticks f ! t ! n) 1 40,
          adaptation_step = clamp_i32 (mf_adaptation_step f ! t ! n) 10 600,
          learning_rate = clamp_i32 (mf_learning_rate f ! t ! n) 1 80,
          weight_min = (if lo > hi then hi else lo), weight_max = hi\<rparr>)"

definition kind_apply :: "u32 \<Rightarrow> int" where
  "kind_apply w = (let tm = sint w in if tm < MODEL_KIND_LIF \<or> tm > MODEL_KIND_STDP then MODEL_KIND_LIF else tm)"

definition model_manifest_apply :: "manifest option \<Rightarrow> models \<Rightarrow> bool \<times> models" where
  "model_manifest_apply f m = (case f of None \<Rightarrow> (False, m)
   | Some f \<Rightarrow> if mf_version f \<noteq> 1 then (False, m)
       else (True, m\<lparr>stdp_enabled := (mf_stdp_enabled f \<noteq> 0),
              task_model := map (\<lambda>t. kind_apply (mf_task_model f ! t)) [0..<MODEL_TASK_COUNT],
              mparams := table (params_apply f)\<rparr>))"

section \<open>The parameters stay in range\<close>

definition params_wf :: "nparams \<Rightarrow> bool" where
  "params_wf p \<longleftrightarrow> 1 \<le> tau p \<and> tau p \<le> 8 \<and> 1 \<le> refractory_ticks p \<and> refractory_ticks p \<le> 40 \<and>
     10 \<le> adaptation_step p \<and> adaptation_step p \<le> 600 \<and> 1 \<le> learning_rate p \<and> learning_rate p \<le> 80 \<and>
     1 \<le> weight_min p \<and> weight_min p \<le> 2000 \<and> 10 \<le> weight_max p \<and> weight_max p \<le> 4000 \<and> weight_min p \<le> weight_max p"

definition models_wf :: "models \<Rightarrow> bool" where
  "models_wf m \<longleftrightarrow> length (task_model m) = MODEL_TASK_COUNT \<and> list_all (\<lambda>k. 0 \<le> k \<and> k \<le> 2) (task_model m) \<and>
     length (mparams m) = MODEL_TASK_COUNT \<and>
     list_all (\<lambda>row. length row = MODEL_NEURON_COUNT \<and> list_all params_wf row) (mparams m)"

lemma models_wf_row:
  assumes "models_wf m" "t < MODEL_TASK_COUNT"
  shows "length (mparams m ! t) = MODEL_NEURON_COUNT" "list_all params_wf (mparams m ! t)"
  using assms list_all_nth [of "\<lambda>row. length row = MODEL_NEURON_COUNT \<and> list_all params_wf row" "mparams m" t]
  by (simp_all add: models_wf_def)

lemma models_wf_params: "models_wf m \<Longrightarrow> t < MODEL_TASK_COUNT \<Longrightarrow> n < MODEL_NEURON_COUNT \<Longrightarrow> params_wf (params_at t n m)"
  using models_wf_row [of m t] list_all_nth [of params_wf "mparams m ! t" n] by (simp add: params_at_def)

lemma models_wf_set:
  assumes "models_wf m" "t < MODEL_TASK_COUNT" "params_wf p"
  shows "models_wf (set_params t n p m)"
proof -
  have "length ((mparams m ! t)[n := p]) = MODEL_NEURON_COUNT \<and> list_all params_wf ((mparams m ! t)[n := p])"
    using models_wf_row [OF assms(1,2)] assms(3) by (simp add: list_all_update)
  then show ?thesis using assms(1) by (simp add: models_wf_def set_params_def list_all_update)
qed

lemma models_wf_init [inv_rules]: "models_wf (model_manager_init m)"
  by (simp add: models_wf_def model_manager_init_def params_wf_def params_default_def list_all_iff)

lemma clamp_cases:
  "lo \<le> hi \<Longrightarrow> lo \<le> clamp_i32 v lo hi" "lo \<le> hi \<Longrightarrow> clamp_i32 v lo hi \<le> hi"
  using clamp_i32_range by blast+

lemma params_wf_upd:
  "params_wf p \<Longrightarrow> params_wf (p\<lparr>tau := clamp_i32 v 1 8\<rparr>)"
  "params_wf p \<Longrightarrow> params_wf (p\<lparr>refractory_ticks := clamp_i32 v 1 40\<rparr>)"
  "params_wf p \<Longrightarrow> params_wf (p\<lparr>adaptation_step := clamp_i32 v 10 600\<rparr>)"
  "params_wf p \<Longrightarrow> params_wf (p\<lparr>learning_rate := clamp_i32 v 1 80\<rparr>)"
  "params_wf p \<Longrightarrow> params_wf (p\<lparr>weight_min := min (weight_max p) (clamp_i32 v 1 2000)\<rparr>)"
  "params_wf p \<Longrightarrow> params_wf (p\<lparr>weight_max := max (weight_min p) (clamp_i32 v 10 4000)\<rparr>)"
  by (simp_all add: params_wf_def clamp_i32_def min_def max_def)

lemma params_wf_set_key:
  assumes "params_wf p" "set_key key v p = Some q"
  shows "params_wf q"
proof -
  have mm: "(if w > y then y else w) = min y w" "(if w < y then y else w) = max y w" for w y :: int by auto
  from assms(2) params_wf_upd [OF assms(1), of v] show ?thesis
    unfolding set_key_def Let_def mm by (auto split: if_split_asm)
qed

lemma models_wf_set_loop:
  "models_wf m \<Longrightarrow> \<forall>tn \<in> set tns. fst tn < MODEL_TASK_COUNT \<and> snd tn < MODEL_NEURON_COUNT \<Longrightarrow> models_wf (snd (set_param_loop key v tns m))"
proof (induction tns arbitrary: m)
  case (Cons tn tns)
  have p: "params_wf (params_at (fst tn) (snd tn) m)" using Cons.prems models_wf_params by simp
  show ?case
  proof (cases "set_key key v (params_at (fst tn) (snd tn) m)")
    case None
    with Cons.prems show ?thesis by simp
  next
    case (Some q)
    have "models_wf (set_params (fst tn) (snd tn) q m)"
      using models_wf_set [OF Cons.prems(1)] params_wf_set_key [OF p Some] Cons.prems(2) by simp
    with Some Cons show ?thesis by simp
  qed
qed simp

lemma param_targets_valid:
  assumes "tid \<ge> 0 \<longrightarrow> task_index_valid tid" "nid \<ge> 0 \<longrightarrow> neuron_index_valid nid"
  shows "\<forall>tn \<in> set (param_targets tid nid). fst tn < MODEL_TASK_COUNT \<and> snd tn < MODEL_NEURON_COUNT"
  using assms by (auto simp: param_targets_def task_index_valid_def neuron_index_valid_def nat_less_iff split: if_splits)

lemma models_wf_set_param [inv_rules]: "models_wf m \<Longrightarrow> models_wf (snd (model_set_param tid nid key v m))"
  using models_wf_set_loop [OF _ param_targets_valid, of m tid nid] by (auto simp: model_set_param_def split: option.split)

lemma models_wf_select [inv_rules]: "models_wf m \<Longrightarrow> models_wf (snd (model_select tid name m))"
  by (auto simp: model_select_def model_name_to_kind_def models_wf_def Let_def list_all_update)

lemma models_wf_stdp [inv_rules]: "models_wf m \<Longrightarrow> models_wf (model_set_stdp e m)"
  by (simp add: models_wf_def model_set_stdp_def)

lemma models_wf_decay [inv_rules]: "models_wf m \<Longrightarrow> models_wf (snd (model_get_threshold_decay_step tid nid m))"
proof -
  assume wf: "models_wf m"
  have "models_wf (set_params (nat tid) (nat nid) (params_at (nat tid) (nat nid) m) m)" "params_wf (params_at (nat tid) (nat nid) m)"
    if "task_index_valid tid" "neuron_index_valid nid"
    using that wf models_wf_params [OF wf, of "nat tid" "nat nid"]
    by (auto simp: task_index_valid_def neuron_index_valid_def nat_less_iff intro!: models_wf_set)
  with wf show ?thesis by (auto simp: model_get_threshold_decay_step_def Let_def params_wf_def)
qed

lemma params_wf_apply: "params_wf (params_apply f t n)"
  by (simp add: params_apply_def params_wf_def Let_def clamp_i32_def)

lemma models_wf_apply [inv_rules]: "models_wf m \<Longrightarrow> models_wf (snd (model_manifest_apply f m))"
  by (auto simp: model_manifest_apply_def models_wf_def table_def list_all_iff params_wf_apply kind_apply_def Let_def split: option.split)

inductive model_step :: "models \<Rightarrow> models \<Rightarrow> bool" where
  step_select: "model_step m (snd (model_select tid name m))"
| step_set_param: "model_step m (snd (model_set_param tid nid key v m))"
| step_stdp: "model_step m (model_set_stdp e m)"
| step_decay: "model_step m (snd (model_get_threshold_decay_step tid nid m))"
| step_apply: "model_step m (snd (model_manifest_apply f m))"
| step_init: "model_step m (model_manager_init m)"

definition model_boot :: "models \<Rightarrow> bool" where
  "model_boot m \<longleftrightarrow> (\<exists>m0. m = model_manager_init m0)"

interpretation models: invariant_system model_boot model_step models_wf
  by unfold_locales (auto simp: model_boot_def elim!: model_step.cases intro!: inv_rules)

lemma spike_weight_range: "params_wf (params_at t i m) \<Longrightarrow>
  weight_min (params_at t i m) \<le> spike_weight m t i ns \<and> spike_weight m t i ns \<le> weight_max (params_at t i m)"
  by (auto simp: spike_weight_def Let_def params_wf_def)

section \<open>Exchange: facts\<close>

text \<open>Pixel \<open>a\<close> with the electrical state of the neurons of \<open>b\<close>.\<close>

definition with_state_of :: "pixel \<Rightarrow> pixel \<Rightarrow> pixel" where
  "with_state_of a b = a\<lparr>neurons := map2 (\<lambda>x y. x\<lparr>voltage := voltage y, synaptic_weight := synaptic_weight y,
     dynamic_threshold := dynamic_threshold y\<rparr>) (neurons a) (neurons b)\<rparr>"

definition neural_wf :: "neural \<Rightarrow> bool" where
  "neural_wf s \<longleftrightarrow> (\<exists>t0 t1. task_list s = [t0, t1] \<and> target_pixel t0 = 0 \<and> target_pixel t1 = 1) \<and>
     (\<exists>p0 p1. os_memory_map s = [p0, p1] \<and> length (neurons p0) = NEURONS \<and> length (neurons p1) = NEURONS)"

lemma load_save: "length (neurons a) = NEURONS \<Longrightarrow> length (neurons b) = NEURONS \<Longrightarrow>
  load_neurons ((save_neurons b t)\<lparr>target_pixel := k\<rparr>) a = with_state_of a b"
  by (simp add: load_neurons_def save_neurons_def with_state_of_def list_eq_iff_nth_eq)

lemma switch_tasks_eq:
  assumes "task_list s = [t0, t1]" "target_pixel t0 = 0" "target_pixel t1 = 1" "os_memory_map s = [p0, p1]"
    "length (neurons p0) = NEURONS" "length (neurons p1) = NEURONS"
  shows "switch_tasks s = s\<lparr>task_list := [(save_neurons p1 t1)\<lparr>target_pixel := 0\<rparr>, (save_neurons p0 t0)\<lparr>target_pixel := 1\<rparr>],
    os_memory_map := [with_state_of p0 p1, with_state_of p1 p0]\<rparr>"
proof -
  have f: "target_pixel (save_neurons p t) = target_pixel t" for p t by (simp add: save_neurons_def)
  let ?t0 = "save_neurons p0 t0" and ?t1 = "save_neurons p1 t1"
  have s1: "fold save_pixel [0, 1] s = s\<lparr>task_list := [?t0, ?t1]\<rparr>"
    using assms(1-4) by (simp add: save_pixel_def task_of_pixel_def f)
  show ?thesis unfolding switch_tasks_def s1 using assms
    by (simp add: Let_def load_pixel_def task_of_pixel_def load_save)
qed

lemma with_state_of_twice:
  assumes "length (neurons a) = length (neurons b)"
  shows "with_state_of (with_state_of a b) (with_state_of b a) = a"
  using assms by (auto simp: with_state_of_def list_eq_iff_nth_eq intro!: pixel.equality neuron.equality)

lemma length_with_state_of: "length (neurons a) = length (neurons b) \<Longrightarrow> length (neurons (with_state_of a b)) = length (neurons a)"
  by (simp add: with_state_of_def)

section \<open>Properties\<close>

text \<open>
  C27. In every state that the model manager reaches after its initialisation, whatever models, parameters and manifests are chosen, every parameter is in its range, and a
  spike leaves the weight of the neuron between the minimum and the maximum set for it, which lie between 1 and 4000; no other neuron changes.
\<close>
theorem spike_weight_bounded:
  assumes "reach model_boot model_step m" "t < 2" "i < 5" "px < 2"
    and "length pixels = 2" "length (neurons (pixels ! px)) = 5"
  shows "params_wf (params_at t i m) \<and>
    (let w = synaptic_weight (neurons (model_on_spike (int t) (int px) (int i) m pixels ! px) ! i)
     in 1 \<le> weight_min (params_at t i m) \<and> weight_min (params_at t i m) \<le> w \<and> w \<le> weight_max (params_at t i m) \<and> weight_max (params_at t i m) \<le> 4000) \<and>
    (\<forall>q j. (q, j) \<noteq> (px, i) \<longrightarrow> neurons (model_on_spike (int t) (int px) (int i) m pixels ! q) ! j = neurons (pixels ! q) ! j)"
proof -
  have wf: "params_wf (params_at t i m)" using models_wf_params [OF models.reach_inv [OF assms(1)]] assms(2,3) by simp
  have v: "task_index_valid (int t)" "neuron_index_valid (int i)" using assms(2,3) by (simp_all add: task_index_valid_def neuron_index_valid_def)
  show ?thesis using wf v assms spike_weight_range [OF wf, of "neurons (pixels ! px)"]
    by (auto simp: model_on_spike_def Let_def params_wf_def nth_list_update)
qed

definition neuron_one :: neuron where
  "neuron_one = \<lparr>voltage = 0, spike_count = 0, nr_id = 0, synaptic_weight = 1995, refractory_timer = 0, dynamic_threshold = 100\<rparr>"

definition pixel_one :: pixel where
  "pixel_one = \<lparr>neurons = replicate NEURONS neuron_one, current_phase = 0, pixel_recent_spikes = 0\<rparr>"

definition models_blank :: models where
  "models_blank = model_manager_init \<lparr>task_model = [], stdp_enabled = False, mparams = []\<rparr>"

lemma models_blank_reach: "reach model_boot model_step models_blank"
  by (rule reach_init) (auto simp: model_boot_def models_blank_def)

theorem spike_weight_bounded_witness:
  "synaptic_weight (neurons (model_on_spike (int 1) (int 0) (int 3) models_blank [pixel_one, pixel_one] ! 0) ! 3) \<le> 4000"
  using spike_weight_bounded [OF models_blank_reach, of 1 3 0 "[pixel_one, pixel_one]"]
  by (auto simp: pixel_one_def Let_def)

text \<open>
  C40. A captured manifest restores the configuration: in every reachable state, applying the manifest captured from it to any
  state of the model manager succeeds and gives that state back.
\<close>
theorem manifest_roundtrip:
  assumes "reach model_boot model_step m"
  shows "model_manifest_apply (Some (model_manifest_capture m)) m' = (True, m)"
proof -
  have wf: "models_wf m" by (rule models.reach_inv [OF assms])
  have P: "params_apply (model_manifest_capture m) t n = params_at t n m" if "t < MODEL_TASK_COUNT" "n < MODEL_NEURON_COUNT" for t n
    using models_wf_params [OF wf that] that
    by (simp add: params_apply_def model_manifest_capture_def table_def params_wf_def clamp_i32_id)
  have "mparams m = table (\<lambda>t n. params_at t n m)"
    using models_wf_row [OF wf] wf by (simp add: table_def params_at_def models_wf_def list_eq_iff_nth_eq)
  then have prm: "table (params_apply (model_manifest_capture m)) = mparams m" using P by (simp add: table_def)
  have K: "kind_apply (mf_task_model (model_manifest_capture m) ! t) = task_model m ! t" if "t < MODEL_TASK_COUNT" for t
  proof -
    have k: "0 \<le> task_model m ! t" "task_model m ! t \<le> 2"
      using wf that list_all_nth [of "\<lambda>k. 0 \<le> k \<and> k \<le> 2" "task_model m" t] by (simp_all add: models_wf_def)
    then have "sint (word_of_int (task_model m ! t) :: u32) = task_model m ! t" using to_i32_id [of "task_model m ! t"] by (simp add: to_i32_def)
    then show ?thesis using k that by (simp add: kind_apply_def model_manifest_capture_def)
  qed
  then have "map (\<lambda>t. kind_apply (mf_task_model (model_manifest_capture m) ! t)) [0..<MODEL_TASK_COUNT] = task_model m"
    using wf by (simp add: models_wf_def list_eq_iff_nth_eq)
  with prm show ?thesis by (simp add: model_manifest_apply_def) (simp add: model_manifest_capture_def)
qed

theorem manifest_roundtrip_witness:
  "model_manifest_apply (Some (model_manifest_capture models_blank)) (models_blank\<lparr>stdp_enabled := True\<rparr>) = (True, models_blank)"
  by (rule manifest_roundtrip [OF models_blank_reach])

text \<open>
  \<open>switch_tasks\<close> exchanges the electrical state (voltage, weight and threshold) of the two pixels neuron by neuron and nothing else of
  them, and leaves the tasks exchanged with their targets in place; switching twice restores both pixels.
\<close>
theorem switch_tasks_swaps:
  assumes "neural_wf s"
  shows "os_memory_map (switch_tasks s) = [with_state_of (os_memory_map s ! 0) (os_memory_map s ! 1),
      with_state_of (os_memory_map s ! 1) (os_memory_map s ! 0)] \<and>
    neural_wf (switch_tasks s) \<and> os_memory_map (switch_tasks (switch_tasks s)) = os_memory_map s"
proof -
  obtain t0 t1 p0 p1 where s: "task_list s = [t0, t1]" "target_pixel t0 = 0" "target_pixel t1 = 1" "os_memory_map s = [p0, p1]"
    "length (neurons p0) = NEURONS" "length (neurons p1) = NEURONS" using assms unfolding neural_wf_def by blast
  note E = switch_tasks_eq [OF s]
  have len: "length (neurons (with_state_of p0 p1)) = NEURONS" "length (neurons (with_state_of p1 p0)) = NEURONS"
    using s(5,6) by (simp_all add: length_with_state_of)
  have wf: "neural_wf (switch_tasks s)" unfolding E neural_wf_def using len by simp
  have "os_memory_map (switch_tasks (switch_tasks s)) = [with_state_of (with_state_of p0 p1) (with_state_of p1 p0),
    with_state_of (with_state_of p1 p0) (with_state_of p0 p1)]"
    by (subst switch_tasks_eq [of _ "(save_neurons p1 t1)\<lparr>target_pixel := 0\<rparr>" "(save_neurons p0 t0)\<lparr>target_pixel := 1\<rparr>"
        "with_state_of p0 p1" "with_state_of p1 p0"]) (simp_all add: E len)
  then show ?thesis using wf E s with_state_of_twice [of p0 p1] with_state_of_twice [of p1 p0] by simp
qed

definition ntask_one :: "int \<Rightarrow> ntask" where
  "ntask_one p = \<lparr>nt_task_id = p, nt_priority = 1, target_pixel = p, base_integration = 1, fire_threshold = 100, task_name = ''n'',
     saved_voltages = [], saved_weights = [], saved_thresholds = [], last_spike_count = 0, spikes_per_second = 0, nt_state = 0\<rparr>"

theorem switch_tasks_swaps_witness:
  "os_memory_map (switch_tasks (switch_tasks \<lparr>task_list = [ntask_one 0, ntask_one 1], os_memory_map = [pixel_one, pixel_one]\<rparr>)) =
    [pixel_one, pixel_one]"
  using switch_tasks_swaps [of "\<lparr>task_list = [ntask_one 0, ntask_one 1], os_memory_map = [pixel_one, pixel_one]\<rparr>"]
  by (simp add: neural_wf_def ntask_one_def pixel_one_def)

end
