(* ===== verification/AiRuntime.thy ===== *)
theory AiRuntime
  imports Partition
begin

text \<open>
  The model registry and inference of \<open>src/kernel/ai_runtime.c\<close> and \<open>ai_runtime.h\<close>: eight models, a checksum over their description,
  import of packages from a file, and two inference backends. The file layer is a record of the five operations that import
  uses, over a state \<open>'v\<close>. Signed arithmetic is taken modulo \<open>2\<^sup>3\<^sup>2\<close>, as compiled.
\<close>

section \<open>Data\<close>

abbreviation AI_MAX_MODELS :: nat where "AI_MAX_MODELS \<equiv> 8"
abbreviation AI_MODEL_KIND_ANN :: u32 where "AI_MODEL_KIND_ANN \<equiv> 1"
abbreviation AI_MODEL_KIND_SNN :: u32 where "AI_MODEL_KIND_SNN \<equiv> 2"
abbreviation AI_BACKEND_CPU :: u32 where "AI_BACKEND_CPU \<equiv> 0"
abbreviation AI_BACKEND_NEURO :: u32 where "AI_BACKEND_NEURO \<equiv> 1"
abbreviation AI_MODEL_PACKAGE_MAGIC :: u32 where "AI_MODEL_PACKAGE_MAGIC \<equiv> 0x314D4941"
abbreviation AI_MODEL_PACKAGE_MAX_BYTES :: u32 where "AI_MODEL_PACKAGE_MAX_BYTES \<equiv> 0x4000000"
abbreviation HEADER_BYTES :: nat where "HEADER_BYTES \<equiv> 96"

record model_info =
  mi_id :: u32
  mi_active :: bool
  mi_schema_version :: u32
  mi_kind :: u32
  mi_version :: u32
  mi_checksum :: u32
  mi_artifact_hash :: u32
  mi_package_bytes :: u32
  mi_provenance :: u32
  mi_preferred_backend :: u32
  mi_seed :: u32
  mi_bias :: int
  mi_source_path :: string
  mi_name :: string

record runtime_stats =
  rs_model_count :: u32
  rs_active_backend :: u32
  rs_load_ok :: u32
  rs_load_fail :: u32
  rs_verify_ok :: u32
  rs_verify_fail :: u32
  rs_infer_ok :: u32
  rs_infer_fail :: u32
  rs_last_hash :: u32

record package_header =
  ph_magic :: u32
  ph_schema_version :: u32
  ph_header_size :: u32
  ph_package_size :: u32
  ph_model_kind :: u32
  ph_preferred_backend :: u32
  ph_model_version :: u32
  ph_seed :: u32
  ph_provenance :: u32
  ph_bias :: int
  ph_payload_bytes :: u32
  ph_checksum :: u32
  ph_model_name :: string

record package_info =
  pi_schema_version :: u32
  pi_package_bytes :: u32
  pi_payload_bytes :: u32
  pi_checksum :: u32
  pi_artifact_hash :: u32
  pi_kind :: u32
  pi_preferred_backend :: u32
  pi_version :: u32
  pi_seed :: u32
  pi_provenance :: u32
  pi_bias :: int
  pi_name :: string
  pi_source_path :: string

record ai =
  g_models :: "model_info list"
  g_stats :: runtime_stats

record 'v vfs_ops =
  vo_stat :: "string \<Rightarrow> 'v \<Rightarrow> u32 option"
  vo_open :: "string \<Rightarrow> 'v \<Rightarrow> int \<times> 'v"
  vo_read :: "int \<Rightarrow> nat \<Rightarrow> 'v \<Rightarrow> int \<times> u8 list \<times> 'v"
  vo_lseek :: "int \<Rightarrow> int \<Rightarrow> 'v \<Rightarrow> int \<times> 'v"
  vo_close :: "int \<Rightarrow> 'v \<Rightarrow> 'v"

section \<open>Hashing\<close>

definition mix_u32 :: "u32 \<Rightarrow> u32" where
  "mix_u32 x =
     (let x1 = x XOR drop_bit 16 x; x2 = x1 * 0x7FEB352D; x3 = x2 XOR drop_bit 15 x2; x4 = x3 * 0x846CA68B
      in x4 XOR drop_bit 16 x4)"

definition mix_step :: "u32 \<Rightarrow> u32 \<Rightarrow> u32" where
  "mix_step w h = mix_u32 (h XOR w)"

definition hash_init :: u32 where
  "hash_init = 0xC0FFEE11"

definition hash_byte :: "u8 \<Rightarrow> u32 \<Rightarrow> u32" where
  "hash_byte b h = (let h1 = h XOR ucast b in mix_u32 (h1 + 0x9E3779B9 + push_bit 6 h1 + drop_bit 2 h1))"

definition hash_update :: "u32 \<Rightarrow> u8 list \<Rightarrow> u32" where
  "hash_update h bs = fold hash_byte bs h"

function hash_chunks :: "'v vfs_ops \<Rightarrow> int \<Rightarrow> nat \<Rightarrow> u32 \<Rightarrow> 'v \<Rightarrow> u32 option \<times> 'v" where
  "hash_chunks vo fd remaining h v =
     (if remaining = 0 then (Some h, v)
      else let want = (if remaining > 512 then 512 else remaining); (got, bytes, v1) = vo_read vo fd want v
           in if got \<noteq> int want then (None, v1) else hash_chunks vo fd (remaining - want) (hash_update h (take want bytes)) v1)"
  by pat_completeness auto
termination by (relation "measure (\<lambda>(_, _, n, _, _). n)") (auto split: if_splits)

declare hash_chunks.simps [simp del]

definition hash_stream_range :: "'v vfs_ops \<Rightarrow> int \<Rightarrow> u32 \<Rightarrow> u32 \<Rightarrow> 'v \<Rightarrow> u32 option \<times> 'v" where
  "hash_stream_range vo fd start len v =
     (if fd < 0 then (None, v)
      else let (pos, v1) = vo_lseek vo fd (sint start) v in
        if pos < 0 then (None, v1) else hash_chunks vo fd (unat len) hash_init v1)"

text \<open>The checksum of a model: the name byte by byte, then ten words.\<close>

definition model_package_hash ::
  "string \<Rightarrow> u32 \<Rightarrow> u32 \<Rightarrow> u32 \<Rightarrow> u32 \<Rightarrow> u32 \<Rightarrow> int \<Rightarrow> u32 \<Rightarrow> u32 \<Rightarrow> u32 \<Rightarrow> u32 \<Rightarrow> u32" where
  "model_package_hash name kind version backend seed provenance bias payload_bytes artifact schema package_bytes =
     fold mix_step [kind, version, backend, seed, provenance, word_of_int bias, payload_bytes, artifact, schema, package_bytes]
       (fold (\<lambda>c. mix_step (of_char c)) name 0x5A17C0DE)"

section \<open>Names\<close>

definition name_char :: "char \<Rightarrow> bool" where
  "name_char c = (let n = of_char c :: nat in 97 \<le> n \<and> n \<le> 122 \<or> 65 \<le> n \<and> n \<le> 90 \<or> 48 \<le> n \<and> n \<le> 57 \<or> n = 95 \<or> n = 45)"

definition name_valid :: "string option \<Rightarrow> bool" where
  "name_valid name = (case name of None \<Rightarrow> False | Some s \<Rightarrow> s \<noteq> [] \<and> list_all name_char s)"

text \<open>The part of a path after its last slash, by one pass from the left.\<close>

primrec base_scan :: "string \<Rightarrow> string \<Rightarrow> string" where
  "base_scan [] base = base"
| "base_scan (c # cs) base = base_scan cs (if c = CHR ''/'' then cs else base)"

fun derive_loop :: "nat \<Rightarrow> string \<Rightarrow> string" where
  "derive_loop (Suc n) (c # cs) = (if c = CHR ''.'' then [] else (if name_char c then c else CHR ''_'') # derive_loop n cs)"
| "derive_loop n cs = []"

definition derive_name_from_path :: "string option \<Rightarrow> nat \<Rightarrow> string" where
  "derive_name_from_path path out_len = (case path of None \<Rightarrow> copy_name out_len (Some ''model'')
   | Some p \<Rightarrow> if p = [] then copy_name out_len (Some ''model'')
       else let out = derive_loop (out_len - 1) (base_scan p p) in
         if \<not> name_valid (Some out) then copy_name out_len (Some ''model'') else out)"

definition valid_backend :: "u32 \<Rightarrow> bool" where
  "valid_backend b \<longleftrightarrow> b = AI_BACKEND_CPU \<or> b = AI_BACKEND_NEURO"

definition valid_kind :: "u32 \<Rightarrow> bool" where
  "valid_kind k \<longleftrightarrow> k = AI_MODEL_KIND_ANN \<or> k = AI_MODEL_KIND_SNN"

section \<open>The registry\<close>

definition find_model_index :: "string option \<Rightarrow> ai \<Rightarrow> nat option" where
  "find_model_index name a = find_slot (\<lambda>m. mi_active m \<and> str_eq_local (Some (mi_name m)) name) (g_models a)"

definition upd_rstats :: "(runtime_stats \<Rightarrow> runtime_stats) \<Rightarrow> ai \<Rightarrow> ai" where
  "upd_rstats f a = a\<lparr>g_stats := f (g_stats a)\<rparr>"

definition count_load_fail :: "ai \<Rightarrow> ai" where
  "count_load_fail = upd_rstats (\<lambda>s. s\<lparr>rs_load_fail := rs_load_fail s + 1\<rparr>)"

definition ai_runtime_init :: "ai \<Rightarrow> ai" where
  "ai_runtime_init a =
     \<lparr>g_models = map (\<lambda>i. (g_models a ! i)\<lparr>mi_active := False, mi_id := of_nat i, mi_schema_version := 0, mi_name := [],
        mi_source_path := [], mi_bias := 0\<rparr>) [0..<AI_MAX_MODELS],
      g_stats = \<lparr>rs_model_count = 0, rs_active_backend = AI_BACKEND_CPU, rs_load_ok = 0, rs_load_fail = 0, rs_verify_ok = 0,
        rs_verify_fail = 0, rs_infer_ok = 0, rs_infer_fail = 0, rs_last_hash = 0\<rparr>\<rparr>"

text \<open>Everything of a model but its id, before \<open>store_model\<close> looks at the bias.\<close>

definition fill_model :: "model_info \<Rightarrow> model_info \<Rightarrow> model_info" where
  "fill_model d m = d\<lparr>mi_id := mi_id m, mi_active := True, mi_name := copy_name 16 (Some (mi_name d)),
     mi_source_path := copy_name 48 (Some (mi_source_path d)),
     mi_bias := (if mi_bias d < -100000 \<or> mi_bias d > 100000 then 0 else mi_bias d)\<rparr>"

definition store_model :: "model_info \<Rightarrow> ai \<Rightarrow> bool \<times> ai" where
  "store_model d a =
     (if \<not> name_valid (Some (mi_name d)) \<or> \<not> valid_kind (mi_kind d) \<or> \<not> valid_backend (mi_preferred_backend d) then (False, a)
      else let idx = (case find_model_index (Some (mi_name d)) a of Some i \<Rightarrow> Some i
                      | None \<Rightarrow> find_slot (\<lambda>m. \<not> mi_active m) (g_models a))
           in case idx of None \<Rightarrow> (False, a)
              | Some i \<Rightarrow>
                  let ms = (g_models a)[i := fill_model d (g_models a ! i)]
                  in (True, upd_rstats (\<lambda>s. s\<lparr>rs_load_ok := rs_load_ok s + 1, rs_last_hash := mi_checksum d,
                        rs_model_count := of_nat (occupied mi_active ms)\<rparr>) (a\<lparr>g_models := ms\<rparr>)))"

definition ai_runtime_load_model :: "string option \<Rightarrow> u32 \<Rightarrow> u32 \<Rightarrow> u32 \<Rightarrow> u32 \<Rightarrow> u32 \<Rightarrow> ai \<Rightarrow> bool \<times> ai" where
  "ai_runtime_load_model name kind version backend seed provenance a = (case name of
     None \<Rightarrow> (False, count_load_fail a)
   | Some nm \<Rightarrow>
       if \<not> name_valid name \<or> \<not> valid_kind kind \<or> \<not> valid_backend backend then (False, count_load_fail a)
       else let artifact = mix_u32 (seed XOR provenance XOR push_bit 1 version XOR kind XOR backend);
                checksum = model_package_hash nm kind version backend seed provenance 0 0 artifact 0 0;
                (ok, a1) = store_model \<lparr>mi_id = 0, mi_active = True, mi_schema_version = 0, mi_kind = kind, mi_version = version,
                   mi_checksum = checksum, mi_artifact_hash = artifact, mi_package_bytes = 0, mi_provenance = provenance,
                   mi_preferred_backend = backend, mi_seed = seed, mi_bias = 0, mi_source_path = ''<memory>'', mi_name = nm\<rparr> a
            in if ok then (True, a1) else (False, count_load_fail a1))"

section \<open>Packages\<close>

definition bytes_string :: "u8 list \<Rightarrow> string" where
  "bytes_string bs = map (\<lambda>b. char_of (unat b)) (takeWhile (\<lambda>b. b \<noteq> 0) bs)"

text \<open>The packed header: twelve words, then the name in sixteen bytes.\<close>

definition parse_header :: "u8 list \<Rightarrow> package_header" where
  "parse_header bs = \<lparr>ph_magic = read_le32 bs 0, ph_schema_version = read_le32 bs 4, ph_header_size = read_le32 bs 8,
     ph_package_size = read_le32 bs 12, ph_model_kind = read_le32 bs 16, ph_preferred_backend = read_le32 bs 20,
     ph_model_version = read_le32 bs 24, ph_seed = read_le32 bs 28, ph_provenance = read_le32 bs 32,
     ph_bias = sint (read_le32 bs 36), ph_payload_bytes = read_le32 bs 40, ph_checksum = read_le32 bs 44,
     ph_model_name = bytes_string (take 16 (drop 48 bs))\<rparr>"

definition header_ok :: "package_header \<Rightarrow> u32 \<Rightarrow> bool" where
  "header_ok h package_bytes \<longleftrightarrow> ph_magic h = AI_MODEL_PACKAGE_MAGIC \<and> ph_schema_version h = 1 \<and>
     ph_header_size h = of_nat HEADER_BYTES \<and> ph_package_size h = package_bytes \<and> valid_kind (ph_model_kind h) \<and>
     valid_backend (ph_preferred_backend h) \<and> ph_payload_bytes h \<le> package_bytes - ph_header_size h"

definition info_zero :: package_info where
  "info_zero = \<lparr>pi_schema_version = 0, pi_package_bytes = 0, pi_payload_bytes = 0, pi_checksum = 0, pi_artifact_hash = 0,
     pi_kind = 0, pi_preferred_backend = 0, pi_version = 0, pi_seed = 0, pi_provenance = 0, pi_bias = 0, pi_name = [],
     pi_source_path = []\<rparr>"

text \<open>What the two kinds of package give, before the payload is hashed and named.\<close>

definition info_v1 :: "package_header \<Rightarrow> u32 \<Rightarrow> package_info" where
  "info_v1 h package_bytes = info_zero\<lparr>pi_schema_version := ph_schema_version h, pi_package_bytes := package_bytes,
     pi_payload_bytes := ph_payload_bytes h, pi_kind := ph_model_kind h, pi_preferred_backend := ph_preferred_backend h,
     pi_version := ph_model_version h, pi_seed := ph_seed h, pi_provenance := ph_provenance h, pi_bias := ph_bias h\<rparr>"

definition info_raw :: "u32 \<Rightarrow> package_info" where
  "info_raw package_bytes = info_zero\<lparr>pi_package_bytes := package_bytes, pi_payload_bytes := package_bytes,
     pi_kind := AI_MODEL_KIND_ANN, pi_preferred_backend := AI_BACKEND_CPU, pi_version := 1, pi_seed := package_bytes,
     pi_provenance := mix_u32 (package_bytes XOR 0xA11C0DE)\<rparr>"

definition info_hash :: "package_info \<Rightarrow> u32" where
  "info_hash i = model_package_hash (pi_name i) (pi_kind i) (pi_version i) (pi_preferred_backend i) (pi_seed i) (pi_provenance i)
     (pi_bias i) (pi_payload_bytes i) (pi_artifact_hash i) (pi_schema_version i) (pi_package_bytes i)"

definition has_alias :: "string option \<Rightarrow> bool" where
  "has_alias alias = (case alias of None \<Rightarrow> False | Some s \<Rightarrow> s \<noteq> [])"

text \<open>Reading the open file: the description with payload hash, name and checksum, or failure.\<close>

definition import_body :: "'v vfs_ops \<Rightarrow> string \<Rightarrow> string option \<Rightarrow> u32 \<Rightarrow> int \<Rightarrow> 'v \<Rightarrow> package_info option \<times> 'v" where
  "import_body vo path alias package_bytes fd v =
     (let (got, bytes, v1) = vo_read vo fd HEADER_BYTES v in
      if got \<noteq> int HEADER_BYTES then (None, v1)
      else let hdr = parse_header bytes in
        if header_ok hdr package_bytes
        then (case hash_stream_range vo fd (ph_header_size hdr) (ph_payload_bytes hdr) v1 of
                (None, v2) \<Rightarrow> (None, v2)
              | (Some payload_hash, v2) \<Rightarrow>
                  let name = (if has_alias alias then copy_name 16 alias else copy_name 16 (Some (ph_model_name hdr)));
                      i = (info_v1 hdr package_bytes)\<lparr>pi_artifact_hash := payload_hash, pi_name := name\<rparr>; expected = info_hash i
                  in if \<not> name_valid (Some name) then (None, v2)
                     else if ph_checksum hdr \<noteq> 0 \<and> ph_checksum hdr \<noteq> expected then (None, v2)
                     else (Some (i\<lparr>pi_checksum := expected\<rparr>), v2))
        else (case hash_stream_range vo fd 0 package_bytes v1 of
                (None, v2) \<Rightarrow> (None, v2)
              | (Some payload_hash, v2) \<Rightarrow>
                  let name = (if has_alias alias then copy_name 16 alias else derive_name_from_path (Some path) 16);
                      i = (info_raw package_bytes)\<lparr>pi_artifact_hash := payload_hash, pi_name := name\<rparr>
                  in if \<not> name_valid (Some name) then (None, v2) else (Some (i\<lparr>pi_checksum := info_hash i\<rparr>), v2)))"

definition info_model :: "package_info \<Rightarrow> string \<Rightarrow> model_info" where
  "info_model i path = \<lparr>mi_id = 0, mi_active = True, mi_schema_version = pi_schema_version i, mi_kind = pi_kind i, mi_version = pi_version i,
     mi_checksum = pi_checksum i, mi_artifact_hash = pi_artifact_hash i, mi_package_bytes = pi_package_bytes i,
     mi_provenance = pi_provenance i, mi_preferred_backend = pi_preferred_backend i, mi_seed = pi_seed i, mi_bias = pi_bias i,
     mi_source_path = path, mi_name = pi_name i\<rparr>"

definition ai_runtime_import_model_package ::
  "'v vfs_ops \<Rightarrow> string option \<Rightarrow> string option \<Rightarrow> 'v \<Rightarrow> ai \<Rightarrow> (bool \<times> package_info) \<times> 'v \<times> ai" where
  "ai_runtime_import_model_package vo path alias v a = (case path of
     None \<Rightarrow> ((False, info_zero), v, count_load_fail a)
   | Some p \<Rightarrow>
       if p = [] then ((False, info_zero), v, count_load_fail a)
       else case vo_stat vo p v of
         None \<Rightarrow> ((False, info_zero), v, count_load_fail a)
       | Some sz \<Rightarrow>
           if sz < of_nat HEADER_BYTES \<or> sz > AI_MODEL_PACKAGE_MAX_BYTES then ((False, info_zero), v, count_load_fail a)
           else let (fd, v1) = vo_open vo p v in
             if fd < 0 then ((False, info_zero), v1, count_load_fail a)
             else let (r, v2) = import_body vo p alias sz fd v1; v3 = vo_close vo fd v2 in
               case r of None \<Rightarrow> ((False, info_zero), v3, count_load_fail a)
               | Some i \<Rightarrow>
                   let (ok, a1) = store_model (info_model i p) a in
                   if ok then ((True, i\<lparr>pi_source_path := copy_name 48 (Some p)\<rparr>), v3, a1)
                   else ((False, info_zero), v3, count_load_fail a1))"

section \<open>Verification and inference\<close>

definition ai_runtime_verify_model :: "string option \<Rightarrow> ai \<Rightarrow> u32 option \<times> ai" where
  "ai_runtime_verify_model name a = (case find_model_index name a of
     None \<Rightarrow> (None, upd_rstats (\<lambda>s. s\<lparr>rs_verify_fail := rs_verify_fail s + 1\<rparr>) a)
   | Some i \<Rightarrow>
       let m = g_models a ! i;
           computed = model_package_hash (mi_name m) (mi_kind m) (mi_version m) (mi_preferred_backend m) (mi_seed m)
             (mi_provenance m) (mi_bias m) (mi_package_bytes m) (mi_artifact_hash m) (mi_schema_version m) (mi_package_bytes m)
       in if computed \<noteq> mi_checksum m then (None, upd_rstats (\<lambda>s. s\<lparr>rs_verify_fail := rs_verify_fail s + 1\<rparr>) a)
          else (Some computed, upd_rstats (\<lambda>s. s\<lparr>rs_verify_ok := rs_verify_ok s + 1, rs_last_hash := computed\<rparr>) a))"

definition ai_runtime_list_models :: "model_info list option \<Rightarrow> int \<Rightarrow> ai \<Rightarrow> nat \<times> model_info list option" where
  "ai_runtime_list_models out max_models a = (case out of None \<Rightarrow> (0, None)
   | Some ms \<Rightarrow> if max_models \<le> 0 then (0, Some ms)
       else let xs = copy_out mi_active (nat max_models) (g_models a) in (length xs, Some (xs @ drop (length xs) ms)))"

definition ai_runtime_set_backend :: "u32 \<Rightarrow> ai \<Rightarrow> bool \<times> ai" where
  "ai_runtime_set_backend backend a =
     (if backend \<noteq> AI_BACKEND_CPU \<and> backend \<noteq> AI_BACKEND_NEURO then (False, a)
      else (True, upd_rstats (\<lambda>s. s\<lparr>rs_active_backend := backend\<rparr>) a))"

definition ai_runtime_get_backend :: "ai \<Rightarrow> u32" where
  "ai_runtime_get_backend a = rs_active_backend (g_stats a)"

text \<open>A backend gives the output and the hash.\<close>

definition cpu_backend_infer :: "model_info \<Rightarrow> int \<Rightarrow> u32 \<Rightarrow> int \<times> u32" where
  "cpu_backend_infer m input_value seed =
     (let s0 = (if seed \<noteq> 0 then seed else mi_seed m);
          s1 = mix_u32 (s0 XOR word_of_int (input_value + 0x13579));
          s2 = mix_u32 (s1 XOR mi_checksum m); s = mix_u32 (s2 XOR mi_artifact_hash m);
          out = uint (s mod 2048) + input_value + mi_bias m;
          out' = (if mi_kind m = AI_MODEL_KIND_SNN then out + uint (drop_bit 8 s AND 0x3F) else out)
      in (to_i32 out', s))"

definition neuro_backend_infer :: "model_info \<Rightarrow> int \<Rightarrow> u32 \<Rightarrow> int \<times> u32" where
  "neuro_backend_infer m input_value seed =
     (let s0 = (if seed \<noteq> 0 then seed else mi_seed m);
          s1 = mix_u32 (s0 XOR (word_of_int input_value + 0x2468B));
          s2 = mix_u32 (s1 XOR push_bit 1 (mi_checksum m)); s = mix_u32 (s2 XOR mi_artifact_hash m XOR 0x5A5AA11);
          out = uint (s mod 1024) + input_value * 2 + mi_bias m + uint (drop_bit 7 s AND 0x7F);
          out' = (if mi_kind m = AI_MODEL_KIND_SNN then out + uint (drop_bit 3 s AND 0x3F) else out)
      in (to_i32 out', s))"

definition resolve_backend :: "u32 \<Rightarrow> (model_info \<Rightarrow> int \<Rightarrow> u32 \<Rightarrow> int \<times> u32) option" where
  "resolve_backend b = (if b = AI_BACKEND_CPU then Some cpu_backend_infer
     else if b = AI_BACKEND_NEURO then Some neuro_backend_infer else None)"

definition ai_runtime_infer :: "string option \<Rightarrow> int \<Rightarrow> u32 \<Rightarrow> ai \<Rightarrow> int option \<times> ai" where
  "ai_runtime_infer name input_value seed a =
     (let fail = (None, upd_rstats (\<lambda>s. s\<lparr>rs_infer_fail := rs_infer_fail s + 1\<rparr>) a) in
      case find_model_index name a of None \<Rightarrow> fail
      | Some i \<Rightarrow> (case resolve_backend (rs_active_backend (g_stats a)) of None \<Rightarrow> fail
          | Some infer \<Rightarrow> let (out, s) = infer (g_models a ! i) input_value seed
              in (Some out, upd_rstats (\<lambda>st. st\<lparr>rs_infer_ok := rs_infer_ok st + 1, rs_last_hash := s\<rparr>) a)))"

definition ai_runtime_get_model_bias :: "string option \<Rightarrow> ai \<Rightarrow> int option" where
  "ai_runtime_get_model_bias name a = map_option (\<lambda>i. mi_bias (g_models a ! i)) (find_model_index name a)"

definition ai_runtime_set_model_bias :: "string option \<Rightarrow> int \<Rightarrow> ai \<Rightarrow> bool \<times> ai" where
  "ai_runtime_set_model_bias name bias a = (case find_model_index name a of None \<Rightarrow> (False, a)
   | Some i \<Rightarrow> (True, a\<lparr>g_models := (g_models a)[i := (g_models a ! i)\<lparr>mi_bias :=
        (let b1 = (if bias < -100000 then -100000 else bias) in if b1 > 100000 then 100000 else b1)\<rparr>]\<rparr>))"

definition ai_runtime_get_stats :: "ai \<Rightarrow> runtime_stats" where
  "ai_runtime_get_stats a = g_stats a"

section \<open>The mixing function is injective\<close>

lemma xor_zeroD: "a XOR b = 0 \<Longrightarrow> a = b" for a b :: u32
proof -
  assume "a XOR b = 0"
  then have "(a XOR b) XOR b = 0 XOR b" by simp
  then show "a = b" by (simp add: xor.assoc)
qed

lemma xor_shift_inj:
  fixes x y :: u32
  assumes "x XOR drop_bit k x = y XOR drop_bit k y" "11 \<le> k"
  shows "x = y"
proof -
  let ?z = "x XOR y"
  have "?z XOR drop_bit k ?z = (x XOR drop_bit k x) XOR (y XOR drop_bit k y)" by (simp add: drop_bit_xor ac_simps)
  also have "\<dots> = 0" using assms(1) by simp
  finally have z: "?z = drop_bit k ?z" by (rule xor_zeroD)
  then have "?z = drop_bit k (drop_bit k (drop_bit k ?z))" by metis
  also have "\<dots> = 0" using assms(2) by (intro bit_word_eqI) (auto simp: bit_simps dest: bit_imp_le_length)
  finally show ?thesis by (rule xor_zeroD)
qed

lemma mult_inj: "a * c = b * c \<Longrightarrow> c * d = 1 \<Longrightarrow> a = b" for a b c d :: u32
proof -
  assume "a * c = b * c" and d: "c * d = 1"
  then have "a * c * d = b * c * d" by simp
  then show "a = b" by (simp add: mult.assoc d)
qed

lemma mix_u32_inj: "mix_u32 x = mix_u32 y \<Longrightarrow> x = y"
proof -
  assume "mix_u32 x = mix_u32 y"
  then have "((x XOR drop_bit 16 x) * 0x7FEB352D XOR drop_bit 15 ((x XOR drop_bit 16 x) * 0x7FEB352D)) * 0x846CA68B =
    ((y XOR drop_bit 16 y) * 0x7FEB352D XOR drop_bit 15 ((y XOR drop_bit 16 y) * 0x7FEB352D)) * 0x846CA68B"
    unfolding mix_u32_def Let_def by (rule xor_shift_inj) simp
  then have "(x XOR drop_bit 16 x) * 0x7FEB352D XOR drop_bit 15 ((x XOR drop_bit 16 x) * 0x7FEB352D) =
    (y XOR drop_bit 16 y) * 0x7FEB352D XOR drop_bit 15 ((y XOR drop_bit 16 y) * 0x7FEB352D)"
    by (rule mult_inj [where d = "0x43021123"]) simp
  then have "(x XOR drop_bit 16 x) * 0x7FEB352D = (y XOR drop_bit 16 y) * 0x7FEB352D" by (rule xor_shift_inj) simp
  then have "x XOR drop_bit 16 x = y XOR drop_bit 16 y" by (rule mult_inj [where d = "0x1D69E2A5"]) simp
  then show "x = y" by (rule xor_shift_inj) simp
qed

end
