(* ===== verification/AiScheduler.thy ===== *)
theory AiScheduler
  imports AiRuntime Ring
begin

text \<open>
  The inference queue of \<open>src/kernel/ai_scheduler.c\<close> and \<open>ai_scheduler.h\<close>. A job carries two pointers of its
  submitter, to the result and to a flag on the submitter's stack; the memory they point into is part of the state (\<open>as_ints\<close>, \<open>as_flags\<close>), with
  addresses as numbers. The address of the flag and the tick counter are arguments of a submission.
\<close>

section \<open>State\<close>

abbreviation AI_QUEUE_CAP :: nat where "AI_QUEUE_CAP \<equiv> 64"
abbreviation AI_QOS_LATENCY :: u32 where "AI_QOS_LATENCY \<equiv> 0"
abbreviation AI_QOS_THROUGHPUT :: u32 where "AI_QOS_THROUGHPUT \<equiv> 1"

record ai_sched_stats =
  st_qos_mode :: u32
  st_budget_pct :: u32
  st_queue_depth :: u32
  st_stream_queue_depth :: u32
  st_batch_queue_depth :: u32
  st_max_queue_depth :: u32
  st_submitted :: u32
  st_completed :: u32
  st_processed_jobs :: u32
  st_dropped :: u32
  st_latency_accum :: u32
  st_latency_max :: u32
  st_last_latency :: u32

record job =
  jb_model_name :: string
  jb_input_value :: int
  jb_seed :: u32
  jb_out_value :: "nat option"
  jb_done_flag :: "nat option"
  jb_latency :: u32
  jb_in_use :: bool

record jobq =
  jq_buf :: "job list"
  jq_head :: nat
  jq_tail :: nat

record aisched =
  as_stats :: ai_sched_stats
  as_stream :: jobq
  as_batch :: jobq
  as_ai :: ai
  as_ints :: "nat \<Rightarrow> int"
  as_flags :: "nat \<Rightarrow> u32"

section \<open>Queues\<close>

definition queue_push :: "job \<Rightarrow> jobq \<Rightarrow> bool \<times> jobq" where
  "queue_push j q =
     (let next_tail = (jq_tail q + 1) mod AI_QUEUE_CAP in
      if next_tail = jq_head q then (False, q)
      else (True, q\<lparr>jq_buf := (jq_buf q)[jq_tail q := j\<lparr>jb_in_use := True\<rparr>], jq_tail := next_tail\<rparr>))"

definition queue_pop :: "jobq \<Rightarrow> job option \<times> jobq" where
  "queue_pop q =
     (if jq_head q = jq_tail q then (None, q)
      else (Some (jq_buf q ! jq_head q),
            q\<lparr>jq_buf := (jq_buf q)[jq_head q := (jq_buf q ! jq_head q)\<lparr>jb_in_use := False\<rparr>],
              jq_head := (jq_head q + 1) mod AI_QUEUE_CAP\<rparr>))"

definition queue_depth :: "nat \<Rightarrow> nat \<Rightarrow> nat" where
  "queue_depth head tail = (if tail \<ge> head then tail - head else (AI_QUEUE_CAP - head) + tail)"

definition refresh_queue_depths :: "aisched \<Rightarrow> aisched" where
  "refresh_queue_depths s =
     (let sd = of_nat (queue_depth (jq_head (as_stream s)) (jq_tail (as_stream s)));
          bd = of_nat (queue_depth (jq_head (as_batch s)) (jq_tail (as_batch s)));
          st = (as_stats s)\<lparr>st_stream_queue_depth := sd, st_batch_queue_depth := bd, st_queue_depth := sd + bd\<rparr>
      in s\<lparr>as_stats := (if st_queue_depth st > st_max_queue_depth st then st\<lparr>st_max_queue_depth := st_queue_depth st\<rparr> else st)\<rparr>)"

definition scheduler_budget_jobs :: "aisched \<Rightarrow> nat" where
  "scheduler_budget_jobs s =
     (let p = st_budget_pct (as_stats s); jobs = (if p \<ge> 75 then 4 else if p \<ge> 50 then 3 else if p \<ge> 25 then 2 else 1)
      in if st_qos_mode (as_stats s) = AI_QOS_THROUGHPUT then jobs + 1 else jobs)"

definition upd_sstats :: "(ai_sched_stats \<Rightarrow> ai_sched_stats) \<Rightarrow> aisched \<Rightarrow> aisched" where
  "upd_sstats f s = s\<lparr>as_stats := f (as_stats s)\<rparr>"

definition count_dropped :: "aisched \<Rightarrow> aisched" where
  "count_dropped = upd_sstats (\<lambda>st. st\<lparr>st_dropped := st_dropped st + 1\<rparr>)"

definition set_flag :: "nat option \<Rightarrow> aisched \<Rightarrow> aisched" where
  "set_flag p s = (case p of None \<Rightarrow> s | Some d \<Rightarrow> s\<lparr>as_flags := (as_flags s)(d := 1)\<rparr>)"

definition process_one_job :: "job \<Rightarrow> aisched \<Rightarrow> aisched" where
  "process_one_job j s = (case ai_runtime_infer (Some (jb_model_name j)) (jb_input_value j) (jb_seed j) (as_ai s) of
     (None, a1) \<Rightarrow> count_dropped (set_flag (jb_done_flag j) (s\<lparr>as_ai := a1\<rparr>))
   | (Some out, a1) \<Rightarrow>
       let s1 = s\<lparr>as_ai := a1\<rparr>;
           s2 = (case jb_out_value j of None \<Rightarrow> s1 | Some p \<Rightarrow> s1\<lparr>as_ints := (as_ints s1)(p := out)\<rparr>)
       in upd_sstats (\<lambda>st. st\<lparr>st_completed := st_completed st + 1, st_processed_jobs := st_processed_jobs st + 1\<rparr>)
            (set_flag (jb_done_flag j) s2))"

definition pop_stream :: "aisched \<Rightarrow> job option \<times> aisched" where
  "pop_stream s = (let (j, q) = queue_pop (as_stream s) in (j, s\<lparr>as_stream := q\<rparr>))"

definition pop_batch :: "aisched \<Rightarrow> job option \<times> aisched" where
  "pop_batch s = (let (j, q) = queue_pop (as_batch s) in (j, s\<lparr>as_batch := q\<rparr>))"

definition pop_next :: "aisched \<Rightarrow> job option \<times> aisched" where
  "pop_next s =
     (if st_qos_mode (as_stats s) = AI_QOS_LATENCY
      then (case pop_stream s of (Some j, s1) \<Rightarrow> (Some j, s1) | (None, s1) \<Rightarrow> pop_batch s1)
      else (case pop_batch s of (Some j, s1) \<Rightarrow> (Some j, s1) | (None, s1) \<Rightarrow> pop_stream s1))"

primrec drain_loop :: "nat \<Rightarrow> aisched \<Rightarrow> aisched" where
  "drain_loop 0 s = s"
| "drain_loop (Suc n) s = (case pop_next s of (None, s1) \<Rightarrow> s1 | (Some j, s1) \<Rightarrow> drain_loop n (process_one_job j s1))"

definition drain_queues :: "nat \<Rightarrow> aisched \<Rightarrow> aisched" where
  "drain_queues budget_jobs s = refresh_queue_depths (drain_loop budget_jobs s)"

definition estimate_latency :: "u32 \<Rightarrow> u32 \<Rightarrow> u32 \<Rightarrow> u32" where
  "estimate_latency mode budget_pct depth =
     (let base = (if mode = AI_QOS_LATENCY then 2 else 6) in base + (100 - budget_pct) div 10 + depth div 2)"

section \<open>Interface\<close>

definition queue_reset :: "jobq \<Rightarrow> jobq" where
  "queue_reset q = \<lparr>jq_buf = map (\<lambda>j. j\<lparr>jb_in_use := False\<rparr>) (jq_buf q), jq_head = 0, jq_tail = 0\<rparr>"

definition ai_scheduler_init :: "aisched \<Rightarrow> aisched" where
  "ai_scheduler_init s = s\<lparr>as_stats := \<lparr>st_qos_mode = AI_QOS_LATENCY, st_budget_pct = 50, st_queue_depth = 0,
     st_stream_queue_depth = 0, st_batch_queue_depth = 0, st_max_queue_depth = 0, st_submitted = 0, st_completed = 0,
     st_processed_jobs = 0, st_dropped = 0, st_latency_accum = 0, st_latency_max = 0, st_last_latency = 0\<rparr>,
     as_stream := queue_reset (as_stream s), as_batch := queue_reset (as_batch s)\<rparr>"

definition ai_scheduler_set_qos :: "u32 \<Rightarrow> u32 \<Rightarrow> aisched \<Rightarrow> bool \<times> aisched" where
  "ai_scheduler_set_qos mode budget_pct s =
     (if (mode \<noteq> AI_QOS_LATENCY \<and> mode \<noteq> AI_QOS_THROUGHPUT) \<or> budget_pct = 0 \<or> budget_pct > 100 then (False, s)
      else (True, upd_sstats (\<lambda>st. st\<lparr>st_qos_mode := mode, st_budget_pct := budget_pct\<rparr>) s))"

text \<open>The loop that drains until the flag at \<open>d\<close> is set.\<close>

primrec spin_loop :: "nat \<Rightarrow> nat \<Rightarrow> aisched \<Rightarrow> aisched" where
  "spin_loop d 0 s = s"
| "spin_loop d (Suc n) s = (if as_flags s d \<noteq> 0 then s else spin_loop d n (drain_queues (scheduler_budget_jobs s) s))"

definition note_latency :: "aisched \<Rightarrow> aisched" where
  "note_latency s =
     (let st = as_stats s; l = estimate_latency (st_qos_mode st) (st_budget_pct st) (st_queue_depth st) in
      upd_sstats (\<lambda>st. st\<lparr>st_last_latency := l, st_latency_accum := st_latency_accum st + l,
        st_latency_max := (if l > st_latency_max st then l else st_latency_max st)\<rparr>) s)"

definition push_job :: "job \<Rightarrow> aisched \<Rightarrow> bool \<times> aisched" where
  "push_job j s =
     (if st_qos_mode (as_stats s) = AI_QOS_LATENCY
      then (let (ok, q) = queue_push j (as_stream s) in (ok, s\<lparr>as_stream := q\<rparr>))
      else (let (ok, q) = queue_push j (as_batch s) in (ok, s\<lparr>as_batch := q\<rparr>)))"

definition ai_scheduler_submit_infer ::
  "u32 \<Rightarrow> nat \<Rightarrow> string option \<Rightarrow> int \<Rightarrow> u32 \<Rightarrow> nat option \<Rightarrow> aisched \<Rightarrow> bool \<times> aisched" where
  "ai_scheduler_submit_infer now d name input_value seed out_value s0 =
     (let s = s0\<lparr>as_flags := (as_flags s0)(d := 0)\<rparr> in
      if name = None \<or> out_value = None then (False, count_dropped s)
      else let s1 = refresh_queue_depths s in
        if st_queue_depth (as_stats s1) \<ge> of_nat AI_QUEUE_CAP - 1 then (False, count_dropped s1)
        else let j = \<lparr>jb_model_name = copy_name 16 name, jb_input_value = input_value, jb_seed = seed XOR now,
                      jb_out_value = out_value, jb_done_flag = Some d, jb_latency = 0, jb_in_use = True\<rparr>;
                 (ok, s2) = push_job j (upd_sstats (\<lambda>st. st\<lparr>st_submitted := st_submitted st + 1\<rparr>) s1)
             in if \<not> ok then (False, count_dropped s2)
                else let s3 = spin_loop d (AI_QUEUE_CAP * 2) (note_latency (refresh_queue_depths s2))
                     in if as_flags s3 d = 0 then (False, count_dropped s3) else (True, s3))"

text \<open>
  The loop of the benchmark, with \<open>now i\<close> the tick counter in round \<open>i\<close>; \<open>p\<close> and \<open>d\<close> are the addresses of its locals. The result are
  the number of successes, the sum and the maximum of the latencies.
\<close>

primrec bench_loop ::
  "(nat \<Rightarrow> u32) \<Rightarrow> nat \<Rightarrow> nat \<Rightarrow> string option \<Rightarrow> int \<Rightarrow> u32 \<Rightarrow> nat \<Rightarrow> aisched \<Rightarrow> (u32 \<times> u32 \<times> u32) \<times> aisched" where
  "bench_loop now p d name input_value seed 0 s = ((0, 0, 0), s)"
| "bench_loop now p d name input_value seed (Suc i) s =
     (let ((ok, lat_sum, lat_max), s1) = bench_loop now p d name input_value seed i s;
          (r, s2) = ai_scheduler_submit_infer (now i) d name (to_i32 (input_value + int i)) (seed + of_nat i) (Some p)
                      (s1\<lparr>as_ints := (as_ints s1)(p := 0)\<rparr>);
          l = st_last_latency (as_stats s2)
      in if r then ((ok + 1, lat_sum + l, if l > lat_max then l else lat_max), s2) else ((ok, lat_sum, lat_max), s2))"

definition ai_scheduler_run_bench ::
  "(nat \<Rightarrow> u32) \<Rightarrow> nat \<Rightarrow> nat \<Rightarrow> string option \<Rightarrow> int \<Rightarrow> int \<Rightarrow> u32 \<Rightarrow> aisched \<Rightarrow> (u32 \<times> u32 \<times> u32) option \<times> aisched" where
  "ai_scheduler_run_bench now p d name rounds input_value seed s =
     (if name = None \<or> rounds \<le> 0 \<or> rounds > 4096 then (None, s)
      else let ((ok, lat_sum, lat_max), s1) = bench_loop now p d name input_value seed (nat rounds) s
           in (Some (ok, if ok = 0 then 0 else lat_sum div ok, lat_max), drain_queues 1024 s1))"

definition ai_scheduler_get_stats :: "aisched \<Rightarrow> ai_sched_stats" where
  "ai_scheduler_get_stats s = as_stats s"

section \<open>The queue is a bounded first-in-first-out queue\<close>

definition jq_wf :: "jobq \<Rightarrow> bool" where
  "jq_wf q \<longleftrightarrow> length (jq_buf q) = AI_QUEUE_CAP \<and> jq_head q < AI_QUEUE_CAP \<and> jq_tail q < AI_QUEUE_CAP"

definition jq_ring :: "jobq \<Rightarrow> job ring" where
  "jq_ring q = \<lparr>r_buf = jq_buf q, r_head = jq_head q, r_tail = jq_tail q, r_count = queue_depth (jq_head q) (jq_tail q)\<rparr>"

definition jq_items :: "jobq \<Rightarrow> job list" where
  "jq_items q = ring_items AI_QUEUE_CAP (jq_ring q)"

text \<open>What a job asks for; the in-use mark is the queue's own.\<close>

type_synonym request = "string \<times> int \<times> u32 \<times> nat option \<times> nat option \<times> u32"

definition job_request :: "job \<Rightarrow> request" where
  "job_request j = (jb_model_name j, jb_input_value j, jb_seed j, jb_out_value j, jb_done_flag j, jb_latency j)"

fun request_job :: "request \<Rightarrow> job" where
  "request_job (nm, x, sd, out, d, l) = \<lparr>jb_model_name = nm, jb_input_value = x, jb_seed = sd, jb_out_value = out, jb_done_flag = d,
     jb_latency = l, jb_in_use = True\<rparr>"

fun jq_step :: "request qop \<Rightarrow> jobq \<Rightarrow> request qout \<times> jobq" where
  "jq_step (Enq r) q = (let (ok, q') = queue_push (request_job r) q in (Accepted ok, q'))"
| "jq_step Deq q = (let (j, q') = queue_pop q in (Got (map_option job_request j), q'))"

lemma depth_mod: "h < AI_QUEUE_CAP \<Longrightarrow> t < AI_QUEUE_CAP \<Longrightarrow> t = (h + queue_depth h t) mod AI_QUEUE_CAP"
  by (auto simp: queue_depth_def mod_if)

lemma depth_lt: "h < AI_QUEUE_CAP \<Longrightarrow> t < AI_QUEUE_CAP \<Longrightarrow> queue_depth h t < AI_QUEUE_CAP"
  by (auto simp: queue_depth_def)

lemma jq_ring_wf: "jq_wf q \<Longrightarrow> ring_wf AI_QUEUE_CAP (jq_ring q)"
  using depth_mod [of "jq_head q" "jq_tail q"] depth_lt [of "jq_head q" "jq_tail q"] by (simp add: jq_wf_def ring_wf_def jq_ring_def)

lemma push_full_iff: "h < AI_QUEUE_CAP \<Longrightarrow> t < AI_QUEUE_CAP \<Longrightarrow> (t + 1) mod AI_QUEUE_CAP = h \<longleftrightarrow> queue_depth h t = 63"
  by (auto simp: queue_depth_def mod_if)

lemma depth_push: "h < AI_QUEUE_CAP \<Longrightarrow> t < AI_QUEUE_CAP \<Longrightarrow> (t + 1) mod AI_QUEUE_CAP \<noteq> h \<Longrightarrow>
  queue_depth h ((t + 1) mod AI_QUEUE_CAP) = queue_depth h t + 1"
  by (auto simp: queue_depth_def mod_if)

lemma depth_pop: "h < AI_QUEUE_CAP \<Longrightarrow> t < AI_QUEUE_CAP \<Longrightarrow> h \<noteq> t \<Longrightarrow>
  queue_depth ((h + 1) mod AI_QUEUE_CAP) t = queue_depth h t - 1"
  by (auto simp: queue_depth_def mod_if)

lemma depth_0_iff: "h < AI_QUEUE_CAP \<Longrightarrow> t < AI_QUEUE_CAP \<Longrightarrow> queue_depth h t = 0 \<longleftrightarrow> h = t"
  by (auto simp: queue_depth_def)

lemma queue_push_spec:
  assumes "jq_wf q"
  shows "jq_wf (snd (queue_push j q))"
    "fst (queue_push j q) = (length (jq_items q) < 63)"
    "jq_items (snd (queue_push j q)) = (if length (jq_items q) < 63 then jq_items q @ [j\<lparr>jb_in_use := True\<rparr>] else jq_items q)"
proof -
  have B: "jq_head q < AI_QUEUE_CAP" "jq_tail q < AI_QUEUE_CAP" using assms by (simp_all add: jq_wf_def)
  note full = push_full_iff [OF B] and lt = depth_lt [OF B] and R = jq_ring_wf [OF assms]
  have len: "length (jq_items q) = queue_depth (jq_head q) (jq_tail q)" by (simp add: jq_items_def jq_ring_def)
  show "jq_wf (snd (queue_push j q))" using assms by (simp add: queue_push_def jq_wf_def Let_def)
  show "fst (queue_push j q) = (length (jq_items q) < 63)" using full lt len by (auto simp: queue_push_def Let_def)
  show "jq_items (snd (queue_push j q)) = (if length (jq_items q) < 63 then jq_items q @ [j\<lparr>jb_in_use := True\<rparr>] else jq_items q)"
  proof (cases "queue_depth (jq_head q) (jq_tail q) = 63")
    case True
    with full len show ?thesis by (simp add: queue_push_def Let_def)
  next
    case False
    then have nf: "(jq_tail q + 1) mod AI_QUEUE_CAP \<noteq> jq_head q" using full by simp
    have "jq_ring (snd (queue_push j q)) = ring_push AI_QUEUE_CAP (j\<lparr>jb_in_use := True\<rparr>) (jq_ring q)"
      using nf depth_push [OF B nf] by (simp add: queue_push_def Let_def jq_ring_def ring_push_def)
    with ring_push_items [OF R, of "j\<lparr>jb_in_use := True\<rparr>"] False lt len show ?thesis by (simp add: jq_items_def jq_ring_def)
  qed
qed

lemma queue_pop_spec:
  assumes "jq_wf q"
  shows "jq_wf (snd (queue_pop q))"
    "queue_pop q = (case jq_items q of [] \<Rightarrow> (None, q) | x # xs \<Rightarrow> (Some x, snd (queue_pop q)))"
    "jq_items (snd (queue_pop q)) = tl (jq_items q)"
proof -
  have B: "jq_head q < AI_QUEUE_CAP" "jq_tail q < AI_QUEUE_CAP" using assms by (simp_all add: jq_wf_def)
  note R = jq_ring_wf [OF assms]
  show "jq_wf (snd (queue_pop q))" using assms by (simp add: queue_pop_def jq_wf_def)
  show "queue_pop q = (case jq_items q of [] \<Rightarrow> (None, q) | x # xs \<Rightarrow> (Some x, snd (queue_pop q)))"
    and "jq_items (snd (queue_pop q)) = tl (jq_items q)"
  proof (atomize (full), cases "jq_head q = jq_tail q")
    case True
    then have "jq_items q = []" using depth_0_iff [OF B] by (simp add: jq_items_def jq_ring_def ring_items_def)
    with True show "queue_pop q = (case jq_items q of [] \<Rightarrow> (None, q) | x # xs \<Rightarrow> (Some x, snd (queue_pop q))) \<and>
      jq_items (snd (queue_pop q)) = tl (jq_items q)" by (simp add: queue_pop_def)
  next
    case False
    let ?d = "(jq_buf q ! jq_head q)\<lparr>jb_in_use := False\<rparr>"
    have c: "0 < r_count (jq_ring q)" using False depth_0_iff [OF B] by (simp add: jq_ring_def)
    have "jq_ring (snd (queue_pop q)) = snd (ring_pop_clear AI_QUEUE_CAP ?d (jq_ring q))"
      using False depth_pop [OF B False] by (simp add: queue_pop_def jq_ring_def ring_pop_clear_def)
    with ring_pop_clear_items [OF R c, of ?d] False show "queue_pop q = (case jq_items q of [] \<Rightarrow> (None, q) | x # xs \<Rightarrow> (Some x, snd (queue_pop q))) \<and>
      jq_items (snd (queue_pop q)) = tl (jq_items q)"
      by (simp add: jq_items_def) (simp add: queue_pop_def ring_pop_clear_def jq_ring_def)
  qed
qed

interpretation jobs: fifo "\<lambda>q. map job_request (jq_items q)" jq_wf 63 jq_step
proof
  fix q :: jobq and op :: "request qop"
  assume wf: "jq_wf q"
  note push = queue_push_spec [OF wf] and pop = queue_pop_spec [OF wf]
  show "length (map job_request (jq_items q)) \<le> 63"
    using depth_lt [of "jq_head q" "jq_tail q"] wf by (simp add: jq_items_def jq_ring_def jq_wf_def)
  show "jq_wf (snd (jq_step op q))" using push(1) pop(1) by (cases op) (simp_all add: split_beta Let_def)
  have r: "job_request ((request_job r)\<lparr>jb_in_use := True\<rparr>) = r" for r by (cases r) (simp add: job_request_def)
  show "(fst (jq_step op q), map job_request (jq_items (snd (jq_step op q)))) = queue_step 63 op (map job_request (jq_items q))"
  proof (cases op)
    case (Enq v)
    then show ?thesis using push(2,3) r by (simp add: split_beta Let_def)
  next
    case Deq
    then show ?thesis using pop(2,3) by (cases "queue_pop q"; cases "jq_items q") auto
  qed
qed

section \<open>One submission on empty queues\<close>

definition idle :: "aisched \<Rightarrow> bool" where
  "idle s \<longleftrightarrow> jq_wf (as_stream s) \<and> jq_wf (as_batch s) \<and> jq_items (as_stream s) = [] \<and> jq_items (as_batch s) = []"

lemma upd_simps [simp]:
  "as_stream (upd_sstats f s) = as_stream s" "as_batch (upd_sstats f s) = as_batch s" "as_ai (upd_sstats f s) = as_ai s"
  "as_ints (upd_sstats f s) = as_ints s" "as_flags (upd_sstats f s) = as_flags s" "as_stats (upd_sstats f s) = f (as_stats s)"
  "as_stream (refresh_queue_depths s) = as_stream s" "as_batch (refresh_queue_depths s) = as_batch s"
  "as_ai (refresh_queue_depths s) = as_ai s" "as_ints (refresh_queue_depths s) = as_ints s" "as_flags (refresh_queue_depths s) = as_flags s"
  "st_qos_mode (as_stats (refresh_queue_depths s)) = st_qos_mode (as_stats s)"
  "as_stream (set_flag p s) = as_stream s" "as_batch (set_flag p s) = as_batch s" "as_ai (set_flag p s) = as_ai s"
  "as_ints (set_flag p s) = as_ints s" "as_stats (set_flag p s) = as_stats s"
  by (simp_all add: upd_sstats_def refresh_queue_depths_def set_flag_def Let_def split: option.split)

lemma idle_upd [simp]: "idle (upd_sstats f s) = idle s" "idle (refresh_queue_depths s) = idle s" "idle (s\<lparr>as_flags := g\<rparr>) = idle s"
  "idle (s\<lparr>as_ints := h\<rparr>) = idle s" "idle (s\<lparr>as_ai := a\<rparr>) = idle s" "idle (set_flag p s) = idle s"
  by (simp_all add: idle_def)

lemma idle_pop: "idle s \<Longrightarrow> pop_next s = (None, s)"
  using queue_pop_spec(2) [of "as_stream s"] queue_pop_spec(2) [of "as_batch s"]
  by (auto simp: idle_def pop_next_def pop_stream_def pop_batch_def)

lemma idle_drain: "idle s \<Longrightarrow> drain_loop n s = s"
  by (cases n) (simp_all add: idle_pop)

lemma idle_depth: "idle s \<Longrightarrow> st_queue_depth (as_stats (refresh_queue_depths s)) = 0"
proof -
  assume "idle s"
  then have "queue_depth (jq_head (as_stream s)) (jq_tail (as_stream s)) = 0" "queue_depth (jq_head (as_batch s)) (jq_tail (as_batch s)) = 0"
    by (simp_all add: idle_def jq_items_def jq_ring_def ring_items_def)
  then show ?thesis by (simp add: refresh_queue_depths_def Let_def)
qed

lemma idle_process: "idle s \<Longrightarrow> idle (process_one_job j s)"
  by (simp add: process_one_job_def count_dropped_def Let_def split: prod.split option.split)

text \<open>Pushing on idle queues and popping again gives the job back and leaves the queues idle.\<close>

lemma push_idle:
  assumes "idle s" "jb_in_use j"
  shows "\<exists>s1. push_job j s = (True, s1) \<and> as_stats s1 = as_stats s \<and> as_ai s1 = as_ai s \<and> as_ints s1 = as_ints s \<and>
    as_flags s1 = as_flags s \<and>
    (\<forall>t. as_stream t = as_stream s1 \<and> as_batch t = as_batch s1 \<and> st_qos_mode (as_stats t) = st_qos_mode (as_stats s) \<longrightarrow>
      (\<exists>t1. pop_next t = (Some j, t1) \<and> idle t1 \<and> as_stats t1 = as_stats t \<and> as_ai t1 = as_ai t \<and> as_ints t1 = as_ints t \<and>
        as_flags t1 = as_flags t))"
proof -
  have wf: "jq_wf (as_stream s)" "jq_wf (as_batch s)" "jq_items (as_stream s) = []" "jq_items (as_batch s) = []"
    using assms(1) by (simp_all add: idle_def)
  have j: "j\<lparr>jb_in_use := True\<rparr> = j" using assms(2) by simp
  have Q: "\<exists>q1 q2. queue_push j q = (True, q1) \<and> queue_pop q1 = (Some j, q2) \<and> jq_wf q2 \<and> jq_items q2 = []" if "jq_wf q" "jq_items q = []" for q
  proof -
    obtain ok q1 where p: "queue_push j q = (ok, q1)" by fastforce
    from queue_push_spec [OF that(1), of j] that(2) p j have q1: "jq_wf q1" "ok" "jq_items q1 = [j]" by simp_all
    from queue_pop_spec [OF q1(1)] q1(3) p q1(2) show ?thesis by (cases "queue_pop q1") auto
  qed
  show ?thesis
  proof (cases "st_qos_mode (as_stats s) = AI_QOS_LATENCY")
    case True
    from Q [OF wf(1,3)] obtain q1 q2 where q: "queue_push j (as_stream s) = (True, q1)" "queue_pop q1 = (Some j, q2)" "jq_wf q2" "jq_items q2 = []" by blast
    have "\<exists>t1. pop_next t = (Some j, t1) \<and> idle t1 \<and> as_stats t1 = as_stats t \<and> as_ai t1 = as_ai t \<and> as_ints t1 = as_ints t \<and>
        as_flags t1 = as_flags t" if "as_stream t = q1" "as_batch t = as_batch s" "st_qos_mode (as_stats t) = st_qos_mode (as_stats s)" for t
      using that True q wf by (simp add: pop_next_def pop_stream_def idle_def)
    with True q(1) show ?thesis by (simp add: push_job_def)
  next
    case False
    from Q [OF wf(2,4)] obtain q1 q2 where q: "queue_push j (as_batch s) = (True, q1)" "queue_pop q1 = (Some j, q2)" "jq_wf q2" "jq_items q2 = []" by blast
    have "\<exists>t1. pop_next t = (Some j, t1) \<and> idle t1 \<and> as_stats t1 = as_stats t \<and> as_ai t1 = as_ai t \<and> as_ints t1 = as_ints t \<and>
        as_flags t1 = as_flags t" if "as_stream t = as_stream s" "as_batch t = q1" "st_qos_mode (as_stats t) = st_qos_mode (as_stats s)" for t
      using that False q wf by (simp add: pop_next_def pop_batch_def idle_def)
    with False q(1) show ?thesis by (simp add: push_job_def)
  qed
qed

lemma budget_pos: "0 < scheduler_budget_jobs s"
  by (simp add: scheduler_budget_jobs_def Let_def)

text \<open>The effect of the direct call, and that a submission has the same.\<close>

definition infer_result :: "aisched \<Rightarrow> string \<Rightarrow> int \<Rightarrow> u32 \<Rightarrow> nat \<Rightarrow> (nat \<Rightarrow> int) \<times> ai" where
  "infer_result s nm x sd p = (case ai_runtime_infer (Some nm) x sd (as_ai s) of
     (None, a1) \<Rightarrow> (as_ints s, a1) | (Some out, a1) \<Rightarrow> ((as_ints s)(p := out), a1))"

lemma process_effect:
  assumes "jb_model_name j = nm" "jb_input_value j = x" "jb_seed j = sd" "jb_out_value j = Some p" "jb_done_flag j = Some d"
  shows "(as_ints (process_one_job j s), as_ai (process_one_job j s)) = infer_result s nm x sd p"
    "as_flags (process_one_job j s) d = 1"
    "st_last_latency (as_stats (process_one_job j s)) = st_last_latency (as_stats s)"
  using assms by (auto simp: process_one_job_def infer_result_def count_dropped_def Let_def set_flag_def split: prod.split option.split)

lemma submit_spec:
  assumes "idle s0"
  shows "\<exists>s1. ai_scheduler_submit_infer now d (Some nm) x seed (Some p) s0 = (True, s1) \<and> idle s1 \<and>
    (as_ints s1, as_ai s1) = infer_result s0 (take 15 nm) x (seed XOR now) p"
proof -
  let ?s = "s0\<lparr>as_flags := (as_flags s0)(d := 0)\<rparr>"
  let ?j = "\<lparr>jb_model_name = copy_name 16 (Some nm), jb_input_value = x, jb_seed = seed XOR now, jb_out_value = Some p,
    jb_done_flag = Some d, jb_latency = 0, jb_in_use = True\<rparr>"
  let ?u = "upd_sstats (\<lambda>st. st\<lparr>st_submitted := st_submitted st + 1\<rparr>) (refresh_queue_depths ?s)"
  have i: "idle ?s" "idle ?u" using assms by simp_all
  obtain s1 where s1: "push_job ?j ?u = (True, s1)" "as_stats s1 = as_stats ?u" "as_ai s1 = as_ai s0" "as_ints s1 = as_ints s0"
    "as_flags s1 = as_flags ?s"
    and pop: "\<And>t. as_stream t = as_stream s1 \<Longrightarrow> as_batch t = as_batch s1 \<Longrightarrow> st_qos_mode (as_stats t) = st_qos_mode (as_stats ?u) \<Longrightarrow>
      \<exists>t1. pop_next t = (Some ?j, t1) \<and> idle t1 \<and> as_stats t1 = as_stats t \<and> as_ai t1 = as_ai t \<and> as_ints t1 = as_ints t \<and>
        as_flags t1 = as_flags t"
    using push_idle [OF i(2), of ?j] by auto
  let ?t = "note_latency (refresh_queue_depths s1)"
  have t: "as_stream ?t = as_stream s1" "as_batch ?t = as_batch s1" "st_qos_mode (as_stats ?t) = st_qos_mode (as_stats ?u)"
    "as_ai ?t = as_ai s0" "as_ints ?t = as_ints s0" "as_flags ?t d = 0"
    using s1(2-5) by (simp_all add: note_latency_def Let_def)
  obtain t1 where t1: "pop_next ?t = (Some ?j, t1)" "idle t1" "as_ai t1 = as_ai s0" "as_ints t1 = as_ints s0"
    using pop [OF t(1-3)] t(4,5) by auto
  let ?r = "process_one_job ?j t1"
  note E = process_effect [of ?j "copy_name 16 (Some nm)" x "seed XOR now" p d t1]
  obtain b where b: "scheduler_budget_jobs ?t = Suc b" using budget_pos [of ?t] by (cases "scheduler_budget_jobs ?t") auto
  have dr: "drain_queues (scheduler_budget_jobs ?t) ?t = refresh_queue_depths ?r"
    using t1(1) idle_drain [OF idle_process [OF t1(2)], of b ?j] by (simp add: drain_queues_def b)
  have fl: "as_flags (refresh_queue_depths ?r) d \<noteq> 0" using E(2) by simp
  have "spin_loop d (Suc (Suc n)) ?t = refresh_queue_depths ?r" for n using t(6) dr fl by simp
  from this [of 126] have sp: "spin_loop d (AI_QUEUE_CAP * 2) ?t = refresh_queue_depths ?r" by (simp del: spin_loop.simps add: numeral_eq_Suc)
  have "ai_scheduler_submit_infer now d (Some nm) x seed (Some p) s0 = (True, refresh_queue_depths ?r)"
    using idle_depth [OF i(1)] s1(1) sp fl by (simp add: ai_scheduler_submit_infer_def Let_def del: copy_name_take)
  moreover have "infer_result t1 (take 15 nm) x (seed XOR now) p = infer_result s0 (take 15 nm) x (seed XOR now) p"
    unfolding infer_result_def t1(3,4) ..
  ultimately show ?thesis using E(1) idle_process [OF t1(2)] by simp
qed

section \<open>Every state the scheduler reaches is idle between calls\<close>

lemma idle_submit: "idle s \<Longrightarrow> idle (snd (ai_scheduler_submit_infer now d name x seed out s))"
proof (cases "name = None \<or> out = None")
  case True
  assume "idle s"
  with True show ?thesis by (auto simp: ai_scheduler_submit_infer_def count_dropped_def Let_def)
next
  case False
  then obtain nm p where "name = Some nm" "out = Some p" by auto
  moreover assume "idle s"
  ultimately show ?thesis using submit_spec [of s now d nm x seed p] by auto
qed

lemma bench_spec:
  assumes "idle s" "name = Some nm"
  shows "\<exists>sm mx s1. bench_loop now p d name x seed n s = ((of_nat n, sm, mx), s1) \<and> idle s1"
proof (induction n)
  case 0
  with assms show ?case by simp
next
  case (Suc n)
  then obtain sm mx s1 where IH: "bench_loop now p d name x seed n s = ((of_nat n, sm, mx), s1)" "idle s1" by blast
  obtain s2 where s2: "ai_scheduler_submit_infer (now n) d (Some nm) (to_i32 (x + int n)) (seed + of_nat n) (Some p)
      (s1\<lparr>as_ints := (as_ints s1)(p := 0)\<rparr>) = (True, s2)" "idle s2"
    using submit_spec [of "s1\<lparr>as_ints := (as_ints s1)(p := 0)\<rparr>"] IH(2) by (metis idle_upd(4))
  show ?case using IH(1) s2 assms(2) by (simp add: Let_def add.commute)
qed

lemma idle_bench: "idle s \<Longrightarrow> idle (snd (ai_scheduler_run_bench now p d name rounds x seed s))"
proof (cases "name = None \<or> rounds \<le> 0 \<or> rounds > 4096")
  case True
  assume "idle s"
  with True show ?thesis by (auto simp: ai_scheduler_run_bench_def)
next
  case False
  assume "idle s"
  then obtain sm mx s1 where "bench_loop now p d name x seed (nat rounds) s = ((of_nat (nat rounds), sm, mx), s1)" "idle s1"
    using bench_spec [of s name "the name" now p d x seed "nat rounds"] False by auto
  with False show ?thesis by (auto simp: ai_scheduler_run_bench_def drain_queues_def idle_drain)
qed

inductive ai_step :: "aisched \<Rightarrow> aisched \<Rightarrow> bool" where
  ai_step_qos: "ai_step s (snd (ai_scheduler_set_qos mode budget s))"
| ai_step_submit: "ai_step s (snd (ai_scheduler_submit_infer now d name x seed out s))"
| ai_step_bench: "ai_step s (snd (ai_scheduler_run_bench tks p d name rounds x seed s))"
| ai_step_rest: "ai_step s (s\<lparr>as_ai := a, as_ints := ints, as_flags := flags\<rparr>)"

definition ai_boot :: "aisched \<Rightarrow> bool" where
  "ai_boot s \<longleftrightarrow> (\<exists>s0. length (jq_buf (as_stream s0)) = AI_QUEUE_CAP \<and> length (jq_buf (as_batch s0)) = AI_QUEUE_CAP \<and>
     s = ai_scheduler_init s0)"

lemma idle_init: "ai_boot s \<Longrightarrow> idle s"
  by (auto simp: ai_boot_def ai_scheduler_init_def idle_def queue_reset_def jq_wf_def jq_items_def jq_ring_def ring_items_def queue_depth_def)

interpretation aisched: invariant_system ai_boot ai_step idle
  by unfold_locales (auto simp: idle_init ai_scheduler_set_qos_def elim!: ai_step.cases intro: idle_submit idle_bench)

section \<open>Properties\<close>

text \<open>
  The inference queue is transparent: in every reachable state a submission with a model name and a place for the result has on the
  runtime and on the memory of the caller exactly the effect of the direct call of \<open>ai_runtime_infer\<close> with the first 15 characters of the name and the seed
  mixed with the time; it is served before it returns, so that no job with a pointer into the caller's stack outlives the call. The result is 1
  in every case, also when the inference failed.
\<close>
theorem submit_is_infer:
  assumes "reach ai_boot ai_step s"
  shows "\<exists>s1. ai_scheduler_submit_infer now d (Some nm) x seed (Some p) s = (True, s1) \<and>
    jq_items (as_stream s1) = [] \<and> jq_items (as_batch s1) = [] \<and>
    (case ai_runtime_infer (Some (take 15 nm)) x (seed XOR now) (as_ai s) of
       (None, a1) \<Rightarrow> as_ai s1 = a1 \<and> as_ints s1 = as_ints s
     | (Some out, a1) \<Rightarrow> as_ai s1 = a1 \<and> as_ints s1 = (as_ints s)(p := out))"
proof -
  have "idle s" by (rule aisched.reach_inv [OF assms])
  from submit_spec [OF this, of now d nm x seed p] show ?thesis
    by (auto simp: infer_result_def idle_def split: prod.splits option.splits)
qed

definition queue_blank :: jobq where
  "queue_blank = \<lparr>jq_buf = replicate AI_QUEUE_CAP \<lparr>jb_model_name = [], jb_input_value = 0, jb_seed = 0, jb_out_value = None,
     jb_done_flag = None, jb_latency = 0, jb_in_use = False\<rparr>, jq_head = 0, jq_tail = 0\<rparr>"

definition ai_empty :: ai where
  "ai_empty = \<lparr>g_models = [], g_stats = \<lparr>rs_model_count = 0, rs_active_backend = 0, rs_load_ok = 0, rs_load_fail = 0, rs_verify_ok = 0,
     rs_verify_fail = 0, rs_infer_ok = 0, rs_infer_fail = 0, rs_last_hash = 0\<rparr>\<rparr>"

definition aisched_blank :: aisched where
  "aisched_blank = ai_scheduler_init \<lparr>as_stats = \<lparr>st_qos_mode = 0, st_budget_pct = 0, st_queue_depth = 0, st_stream_queue_depth = 0,
     st_batch_queue_depth = 0, st_max_queue_depth = 0, st_submitted = 0, st_completed = 0, st_processed_jobs = 0, st_dropped = 0,
     st_latency_accum = 0, st_latency_max = 0, st_last_latency = 0\<rparr>, as_stream = queue_blank, as_batch = queue_blank,
     as_ai = ai_empty, as_ints = \<lambda>_. 0, as_flags = \<lambda>_. 0\<rparr>"

lemma aisched_blank_reach: "reach ai_boot ai_step aisched_blank"
  by (rule reach_init) (auto simp: ai_boot_def aisched_blank_def queue_blank_def intro!: exI)

theorem submit_is_infer_witness: "fst (ai_scheduler_submit_infer 3 1 (Some ''net'') 5 7 (Some 0) aisched_blank)"
  using submit_is_infer [OF aisched_blank_reach, of 3 1 "''net''" 5 7 0] by auto

text \<open>
  The benchmark always reports full success: for every model name, known or not, the number of successful rounds it returns is the number of rounds asked for.
\<close>
theorem bench_always_ok:
  assumes "reach ai_boot ai_step s" "0 < rounds" "rounds \<le> 4096"
  shows "\<exists>avg mx s1. ai_scheduler_run_bench now p d (Some nm) rounds x seed s = (Some (of_nat (nat rounds), avg, mx), s1)"
proof -
  have "idle s" by (rule aisched.reach_inv [OF assms(1)])
  then obtain sm mx s1 where "bench_loop now p d (Some nm) x seed (nat rounds) s = ((of_nat (nat rounds), sm, mx), s1)"
    using bench_spec [of s "Some nm" nm now p d x seed "nat rounds"] by auto
  then show ?thesis using assms(2,3) by (simp add: ai_scheduler_run_bench_def)
qed

theorem bench_always_ok_witness:
  "\<exists>avg mx s1. ai_scheduler_run_bench (\<lambda>_. 0) 0 1 (Some ''none'') 10 0 0 aisched_blank = (Some (10, avg, mx), s1)"
  using bench_always_ok [OF aisched_blank_reach, of 10 "\<lambda>_. 0" 0 1 "''none''" 0 0] by simp

end
