(* ===== verification/Paging.thy ===== *)
theory Paging
  imports Pmm
begin

text \<open>
  Virtual memory of \<open>src/kernel/paging.c\<close>: two-level page tables in physical memory, the kernel directory, user
  address spaces, their duplication for \<open>fork\<close> and their destruction.

  Physical memory is a map from word addresses to 32-bit words. A pointer to a page table is its physical address, which is how
  the code uses it (page tables lie in identity-mapped memory); the two temporary windows of \<open>clone_user_address_space\<close> are accessed through the page tables of the
  directory in \<open>CR3\<close>, and an access that finds no mapping there is a page fault, the result \<open>None\<close>, as is an access of the allocator outside its bitmap. The
  byte loop that copies a page goes by words here. Cached translations (\<open>invlpg\<close>) and the assembly that loads \<open>CR3\<close> and turns paging on are not modelled.
\<close>

section \<open>State\<close>

abbreviation PAGE_PRESENT :: u32 where "PAGE_PRESENT \<equiv> 1"
abbreviation PAGE_RW :: u32 where "PAGE_RW \<equiv> 2"
abbreviation PAGE_USER :: u32 where "PAGE_USER \<equiv> 4"
abbreviation PAGE_MASK :: u32 where "PAGE_MASK \<equiv> 0xFFFFF000"
abbreviation USER_VADDR_MIN :: u32 where "USER_VADDR_MIN \<equiv> 0x40000000"
abbreviation USER_VADDR_MAX :: u32 where "USER_VADDR_MAX \<equiv> 0xBFFFFFFF"
abbreviation KERNEL_TEMP_MAP_VA :: u32 where "KERNEL_TEMP_MAP_VA \<equiv> 0x3FF00000"
abbreviation KERNEL_TEMP_MAP_VA2 :: u32 where "KERNEL_TEMP_MAP_VA2 \<equiv> 0x3FEFF000"

text \<open>The addresses of the three static tables come from the linker, the framebuffer address from the boot loader.\<close>

record paging =
  pg_mem :: "u32 \<Rightarrow> u32"
  pg_pmm :: pmm
  page_directory :: u32
  first_page_table :: u32
  second_page_table :: u32
  pg_cr3 :: u32
  vbe_framebuffer :: u32

definition ent :: "u32 \<Rightarrow> u32 \<Rightarrow> u32" where
  "ent table i = table + 4 * i"

definition rd :: "u32 \<Rightarrow> paging \<Rightarrow> u32" where
  "rd a s = pg_mem s a"

definition wr :: "u32 \<Rightarrow> u32 \<Rightarrow> paging \<Rightarrow> paging" where
  "wr a v s = s\<lparr>pg_mem := (pg_mem s)(a := v)\<rparr>"

definition present :: "u32 \<Rightarrow> bool" where
  "present e \<longleftrightarrow> e AND PAGE_PRESENT \<noteq> 0"

definition user_bit :: "u32 \<Rightarrow> bool" where
  "user_bit e \<longleftrightarrow> e AND PAGE_USER \<noteq> 0"

definition pd_index :: "u32 \<Rightarrow> u32" where
  "pd_index virt_addr = drop_bit 22 virt_addr"

definition pt_index :: "u32 \<Rightarrow> u32" where
  "pt_index virt_addr = drop_bit 12 virt_addr AND 0x03FF"

text \<open>Loops over table indices that may fault, and that may end early with a failure code.\<close>

primrec for_each :: "('a \<Rightarrow> 's \<Rightarrow> 's option) \<Rightarrow> 'a list \<Rightarrow> 's \<Rightarrow> 's option" where
  "for_each f [] s = Some s"
| "for_each f (x # xs) s = (case f x s of None \<Rightarrow> None | Some s1 \<Rightarrow> for_each f xs s1)"

primrec for_until_fail :: "('a \<Rightarrow> 's \<Rightarrow> (bool \<times> 's) option) \<Rightarrow> 'a list \<Rightarrow> 's \<Rightarrow> (bool \<times> 's) option" where
  "for_until_fail f [] s = Some (True, s)"
| "for_until_fail f (x # xs) s = (case f x s of None \<Rightarrow> None | Some (False, s1) \<Rightarrow> Some (False, s1)
     | Some (True, s1) \<Rightarrow> for_until_fail f xs s1)"

definition table_indices :: "u32 list" where
  "table_indices = map of_nat [0..<1024]"

definition user_indices :: "u32 list" where
  "user_indices = map of_nat [256..<768]"

section \<open>Single pages\<close>

definition page_is_user_accessible :: "u32 \<Rightarrow> u32 \<Rightarrow> paging \<Rightarrow> bool" where
  "page_is_user_accessible pd virt_addr s =
     (if pd = 0 then False
      else let pde = rd (ent pd (pd_index virt_addr)) s in
        if \<not> present pde \<or> \<not> user_bit pde then False
        else let pte = rd (ent (pde AND PAGE_MASK) (pt_index virt_addr)) s in present pte \<and> user_bit pte)"

definition zero_table :: "u32 \<Rightarrow> paging \<Rightarrow> paging" where
  "zero_table table s = fold (\<lambda>i. wr (ent table i) 0) table_indices s"

definition alloc_page :: "paging \<Rightarrow> (u32 \<times> paging) option" where
  "alloc_page s = map_option (\<lambda>(a, m). (a, s\<lparr>pg_pmm := m\<rparr>)) (pmm_alloc_page (pg_pmm s))"

definition free_page :: "u32 \<Rightarrow> paging \<Rightarrow> paging option" where
  "free_page a s = map_option (\<lambda>m. s\<lparr>pg_pmm := m\<rparr>) (pmm_free_page a (pg_pmm s))"

text \<open>\<open>map_page_flags\<close> does not look at the address that the allocator returns for a new table.\<close>

definition map_page_flags :: "u32 \<Rightarrow> u32 \<Rightarrow> u32 \<Rightarrow> paging \<Rightarrow> paging option" where
  "map_page_flags phys_addr virt_addr flags s =
     (let pde_at = ent (page_directory s) (pd_index virt_addr);
          pte = (phys_addr AND PAGE_MASK) OR (flags AND 0xFFF) in
      if rd pde_at s AND 1 = 0
      then (case alloc_page s of None \<Rightarrow> None
        | Some (new_table, s1) \<Rightarrow>
            let s2 = wr pde_at ((new_table AND PAGE_MASK) OR PAGE_PRESENT OR PAGE_RW) (zero_table new_table s1)
            in Some (wr (ent new_table (pt_index virt_addr)) pte s2))
      else Some (wr (ent (rd pde_at s AND PAGE_MASK) (pt_index virt_addr)) pte s))"

definition map_page :: "u32 \<Rightarrow> u32 \<Rightarrow> paging \<Rightarrow> paging option" where
  "map_page phys_addr virt_addr s = map_page_flags phys_addr virt_addr (PAGE_PRESENT OR PAGE_RW) s"

definition unmap_kernel_page :: "u32 \<Rightarrow> paging \<Rightarrow> paging" where
  "unmap_kernel_page virt_addr s =
     (let pde = rd (ent (page_directory s) (pd_index virt_addr)) s in
      if \<not> present pde then s else wr (ent (pde AND PAGE_MASK) (pt_index virt_addr)) 0 s)"

definition create_user_page_directory :: "paging \<Rightarrow> (u32 \<times> paging) option" where
  "create_user_page_directory s =
     (case alloc_page s of None \<Rightarrow> None
      | Some (new_pd, s1) \<Rightarrow> if new_pd = 0 then Some (0, s1)
          else Some (new_pd, fold (\<lambda>i t. let entry = rd (ent (page_directory t) i) t in
             wr (ent new_pd i) (if present entry then entry AND NOT PAGE_USER else 2) t) table_indices s1))"

definition map_user_page :: "u32 \<Rightarrow> u32 \<Rightarrow> u32 \<Rightarrow> paging \<Rightarrow> (bool \<times> paging) option" where
  "map_user_page pd_phys phys_addr virt_addr s =
     (let pd = pd_phys AND PAGE_MASK; pde_at = ent pd (pd_index virt_addr);
          pte = (phys_addr AND PAGE_MASK) OR PAGE_PRESENT OR PAGE_RW OR PAGE_USER in
      if pd = 0 then Some (False, s)
      else if \<not> present (rd pde_at s)
      then (case alloc_page s of None \<Rightarrow> None
        | Some (new_table, s1) \<Rightarrow>
            if new_table = 0 then Some (False, s1)
            else let table = new_table AND PAGE_MASK;
                     s2 = wr pde_at ((new_table AND PAGE_MASK) OR PAGE_PRESENT OR PAGE_RW OR PAGE_USER) (zero_table table s1)
                 in Some (True, wr (ent table (pt_index virt_addr)) pte s2))
      else Some (True, wr (ent (rd pde_at s AND PAGE_MASK) (pt_index virt_addr)) pte s))"

text \<open>The address and value of the entry that maps a page for user mode, if there is one; the guards of the next three operations.\<close>

definition user_pte :: "u32 \<Rightarrow> u32 \<Rightarrow> paging \<Rightarrow> (u32 \<times> u32) option" where
  "user_pte pd_phys virt_addr s =
     (let pd = pd_phys AND PAGE_MASK; pde = rd (ent pd (pd_index virt_addr)) s;
          pte_at = ent (pde AND PAGE_MASK) (pt_index virt_addr); pte = rd pte_at s in
      if pd = 0 then None
      else if \<not> present pde \<or> \<not> user_bit pde then None
      else if \<not> present pte \<or> \<not> user_bit pte then None
      else Some (pte_at, pte))"

definition unmap_user_page :: "u32 \<Rightarrow> u32 \<Rightarrow> paging \<Rightarrow> (bool \<times> paging) option" where
  "unmap_user_page pd_phys virt_addr s = (case user_pte pd_phys virt_addr s of None \<Rightarrow> Some (False, s)
     | Some (pte_at, pte) \<Rightarrow> map_option (\<lambda>s1. (True, wr pte_at 0 s1)) (free_page (pte AND PAGE_MASK) s))"

definition set_user_page_writable :: "u32 \<Rightarrow> u32 \<Rightarrow> bool \<Rightarrow> paging \<Rightarrow> bool \<times> paging" where
  "set_user_page_writable pd_phys virt_addr writable s = (case user_pte pd_phys virt_addr s of None \<Rightarrow> (False, s)
     | Some (pte_at, pte) \<Rightarrow> (True, wr pte_at (if writable then pte OR PAGE_RW else pte AND NOT PAGE_RW) s))"

definition resolve_user_phys :: "u32 \<Rightarrow> u32 \<Rightarrow> paging \<Rightarrow> u32" where
  "resolve_user_phys pd_phys virt_addr s =
     (let pd = pd_phys AND PAGE_MASK; pde = rd (ent pd (pd_index virt_addr)) s;
          pte = rd (ent (pde AND PAGE_MASK) (pt_index virt_addr)) s in
      if pd = 0 then 0
      else if \<not> present pde then 0
      else if \<not> present pte then 0
      else (pte AND PAGE_MASK) OR (virt_addr AND 0xFFF))"

section \<open>Checking a user buffer\<close>

definition is_user_range :: "u32 \<Rightarrow> u32 \<Rightarrow> bool" where
  "is_user_range start sz =
     (if start = 0 \<or> sz = 0 then False
      else let top_addr = start + sz - 1 in
        if top_addr < start then False else \<not> (start < USER_VADDR_MIN \<or> top_addr > USER_VADDR_MAX))"

text \<open>The loop over the pages, from \<open>addr\<close> on; it leaves when \<open>addr >= end\<close> or the next address wraps.\<close>

function accessible_loop :: "u32 \<Rightarrow> u32 \<Rightarrow> u32 \<Rightarrow> paging \<Rightarrow> bool" where
  "accessible_loop pd addr top_addr s =
     (if \<not> page_is_user_accessible pd addr s then False
      else if addr \<ge> top_addr \<or> addr + 4096 < addr then True
      else accessible_loop pd (addr + 4096) top_addr s)"
  by pat_completeness auto
termination
proof (relation "measure (\<lambda>(pd, addr, top_addr, s). 2 ^ 32 - unat addr)")
  fix pd addr top_addr :: u32 and s
  assume "\<not> (addr \<ge> top_addr \<or> addr + 4096 < addr)"
  then have "unat addr \<le> unat (addr + 4096)" "unat addr < unat top_addr" by (simp_all add: word_le_nat_alt word_less_nat_alt)
  moreover have "addr + 4096 \<noteq> addr" by simp
  then have "unat (addr + 4096) \<noteq> unat addr" by (simp add: word_unat_eq_iff)
  moreover have "unat (addr + 4096) < 2 ^ 32" using unsigned_less [of "addr + 4096"] by simp
  ultimately show "((pd, addr + 4096, top_addr, s), pd, addr, top_addr, s) \<in> measure (\<lambda>(pd, addr, top_addr, s). 2 ^ 32 - unat addr)"
    by simp
qed simp

declare accessible_loop.simps [simp del]

definition is_user_range_accessible :: "u32 \<Rightarrow> u32 \<Rightarrow> u32 \<Rightarrow> paging \<Rightarrow> bool" where
  "is_user_range_accessible pd_phys start sz s =
     (let pd = pd_phys AND PAGE_MASK in
      if \<not> is_user_range start sz \<or> pd = 0 then False
      else accessible_loop pd (start AND PAGE_MASK) (start + sz - 1) s)"

section \<open>Whole address spaces\<close>

text \<open>What the processor does with a virtual address, in supervisor mode.\<close>

definition mmu :: "u32 \<Rightarrow> paging \<Rightarrow> u32 option" where
  "mmu va s =
     (let pde = rd (ent (pg_cr3 s AND PAGE_MASK) (pd_index va)) s; pte = rd (ent (pde AND PAGE_MASK) (pt_index va)) s in
      if present pde \<and> present pte then Some ((pte AND PAGE_MASK) OR (va AND 0xFFF)) else None)"

definition copy_word :: "u32 \<Rightarrow> paging \<Rightarrow> paging option" where
  "copy_word i s = (case (mmu (KERNEL_TEMP_MAP_VA + 4 * i) s, mmu (KERNEL_TEMP_MAP_VA2 + 4 * i) s) of
     (Some src, Some dst) \<Rightarrow> Some (wr dst (rd src s) s) | _ \<Rightarrow> None)"

definition destroy_pte :: "u32 \<Rightarrow> u32 \<Rightarrow> paging \<Rightarrow> paging option" where
  "destroy_pte pt pti s =
     (let pte = rd (ent pt pti) s in
      if present pte \<and> user_bit pte then map_option (wr (ent pt pti) 0) (free_page (pte AND PAGE_MASK) s) else Some s)"

definition destroy_pde :: "u32 \<Rightarrow> u32 \<Rightarrow> paging \<Rightarrow> paging option" where
  "destroy_pde pd pdi s =
     (let pde = rd (ent pd pdi) s; pt = pde AND PAGE_MASK in
      if \<not> present pde \<or> \<not> user_bit pde then Some s
      else case for_each (destroy_pte pt) table_indices s of None \<Rightarrow> None
        | Some s1 \<Rightarrow> map_option (wr (ent pd pdi) 0) (free_page pt s1))"

definition destroy_user_address_space :: "u32 \<Rightarrow> paging \<Rightarrow> paging option" where
  "destroy_user_address_space pd_phys s =
     (let pd = pd_phys AND PAGE_MASK in
      if pd = 0 \<or> pd = page_directory s then Some s
      else case for_each (destroy_pde pd) user_indices s of None \<Rightarrow> None | Some s1 \<Rightarrow> free_page pd s1)"

definition copy_user_page :: "u32 \<Rightarrow> u32 \<Rightarrow> paging \<Rightarrow> paging option" where
  "copy_user_page src_phys dst_phys s =
     (case map_page src_phys KERNEL_TEMP_MAP_VA s of None \<Rightarrow> None
      | Some s1 \<Rightarrow> (case map_page dst_phys KERNEL_TEMP_MAP_VA2 s1 of None \<Rightarrow> None
        | Some s2 \<Rightarrow> map_option (\<lambda>s3. unmap_kernel_page KERNEL_TEMP_MAP_VA2 (unmap_kernel_page KERNEL_TEMP_MAP_VA s3))
            (for_each copy_word table_indices s2)))"

definition clone_pte :: "u32 \<Rightarrow> u32 \<Rightarrow> u32 \<Rightarrow> paging \<Rightarrow> (bool \<times> paging) option" where
  "clone_pte src_pt dst_pt pti s =
     (let src_pte = rd (ent src_pt pti) s in
      if \<not> present src_pte \<or> \<not> user_bit src_pte then Some (True, s)
      else case alloc_page s of None \<Rightarrow> None
        | Some (dst_phys, s1) \<Rightarrow>
            if dst_phys = 0 then Some (False, s1)
            else map_option (\<lambda>s2. (True, wr (ent dst_pt pti) ((dst_phys AND PAGE_MASK) OR PAGE_PRESENT OR PAGE_RW OR PAGE_USER) s2))
              (copy_user_page (src_pte AND PAGE_MASK) dst_phys s1))"

definition clone_pde :: "u32 \<Rightarrow> u32 \<Rightarrow> u32 \<Rightarrow> paging \<Rightarrow> (bool \<times> paging) option" where
  "clone_pde src_pd dst_pd pdi s =
     (let src_pde = rd (ent src_pd pdi) s in
      if \<not> present src_pde \<or> \<not> user_bit src_pde then Some (True, s)
      else case alloc_page s of None \<Rightarrow> None
        | Some (dst_pt_phys, s1) \<Rightarrow>
            if dst_pt_phys = 0 then Some (False, s1)
            else let dst_pt = dst_pt_phys AND PAGE_MASK in
              for_until_fail (clone_pte (src_pde AND PAGE_MASK) dst_pt) table_indices
                (wr (ent dst_pd pdi) ((dst_pt_phys AND PAGE_MASK) OR PAGE_PRESENT OR PAGE_RW OR PAGE_USER) (zero_table dst_pt s1)))"

definition clone_user_address_space :: "u32 \<Rightarrow> paging \<Rightarrow> (u32 \<times> paging) option" where
  "clone_user_address_space src_pd_phys s =
     (let src_pd = src_pd_phys AND PAGE_MASK in
      if src_pd = 0 then Some (0, s)
      else case create_user_page_directory s of None \<Rightarrow> None
        | Some (dst_pd_phys, s1) \<Rightarrow>
            if dst_pd_phys = 0 then Some (0, s1)
            else case for_until_fail (clone_pde src_pd (dst_pd_phys AND PAGE_MASK)) user_indices s1 of None \<Rightarrow> None
              | Some (False, s2) \<Rightarrow> map_option (\<lambda>s3. (0, s3)) (destroy_user_address_space dst_pd_phys s2)
              | Some (True, s2) \<Rightarrow> Some (dst_pd_phys, s2))"

section \<open>The kernel directory\<close>

definition map_vbe_buffer :: "u32 \<Rightarrow> paging \<Rightarrow> paging option" where
  "map_vbe_buffer physical_addr s = for_each (\<lambda>i. let addr = physical_addr + i * 4096 in map_page addr addr) (map of_nat [0..<512]) s"

definition map_mmio_region :: "u32 \<Rightarrow> u32 \<Rightarrow> paging \<Rightarrow> paging option" where
  "map_mmio_region phys sz s =
     (let pages0 = (sz + 4095) div 4096; pages = (if pages0 > 1024 then 1024 else pages0) in
      for_each (\<lambda>i. let addr = (phys AND PAGE_MASK) + i * 4096 in map_page addr addr) (map of_nat [0..<unat pages]) s)"

definition init_paging :: "paging \<Rightarrow> paging option" where
  "init_paging s =
     (let s1 = fold (\<lambda>i. wr (ent (page_directory s) i) 2) table_indices s;
          s2 = fold (\<lambda>i. wr (ent (first_page_table s) i) ((i * 4096) OR 3)) table_indices s1;
          s3 = wr (ent (page_directory s) 0) (first_page_table s OR 3) s2;
          s4 = fold (\<lambda>i. wr (ent (second_page_table s) i) ((0x400000 + i * 4096) OR 3)) table_indices s3;
          s5 = wr (ent (page_directory s) 1) (second_page_table s OR 3) s4;
          s6 = s5\<lparr>pg_cr3 := page_directory s\<rparr>
      in if vbe_framebuffer s \<noteq> 0
         then for_each (\<lambda>i. let phys_addr = vbe_framebuffer s + i * 4096 in map_page phys_addr phys_addr) (map of_nat [0..<512]) s6
         else Some s6)"

end
