(* ===== verification/PagingCorrect.thy ===== *)
theory PagingCorrect
  imports Paging
begin

text \<open>
  What the page tables mean: reading an entry after writes, the view of a directory as a function from virtual pages to leaf entries, and that
  mapping, unmapping, range checks and duplication do what they should to that view.
\<close>

section \<open>Entries and addresses\<close>

lemma page_mask: "PAGE_MASK = NOT (mask 12)"
  by (simp add: mask_eq_exp_minus_1)

lemma drop_page: "drop_bit 12 x = drop_bit 12 y \<longleftrightarrow> pmm_page x = pmm_page y" for x y :: u32
proof -
  have "unat (drop_bit 12 z) = pmm_page z" for z :: u32
    by (simp add: drop_bit_eq_div unat_div pmm_page_def)
  then show ?thesis by (metis word_unat_eq_iff)
qed

lemma mask_addr: "e AND PAGE_MASK = addr_of_page (pmm_page e)"
proof -
  have "e AND PAGE_MASK = push_bit 12 (drop_bit 12 e)" unfolding page_mask
    by (rule bit_eqI) (auto simp: bit_and_iff bit_not_iff bit_mask_iff bit_push_bit_iff bit_drop_bit_eq)
  also have "\<dots> = of_nat (unat (drop_bit 12 e)) * 4096" by (simp add: push_bit_eq_mult)
  also have "unat (drop_bit 12 e) = pmm_page e" by (simp add: drop_bit_eq_div unat_div pmm_page_def)
  finally show ?thesis by (simp add: addr_of_page_def)
qed

lemma pmm_page_or:
  assumes "take_bit 12 f = f"
  shows "pmm_page ((x AND PAGE_MASK) OR f) = pmm_page x"
proof -
  have f: "bit f n \<Longrightarrow> n < 12" for n using assms by (metis bit_take_bit_iff)
  have "drop_bit 12 ((x AND PAGE_MASK) OR f) = drop_bit 12 x" unfolding page_mask
    by (rule bit_eqI) (auto simp: bit_drop_bit_eq bit_or_iff bit_and_iff bit_not_iff bit_mask_iff dest: f bit_imp_le_length)
  then show ?thesis unfolding drop_page .
qed

lemma pt_index_10: "pt_index v = take_bit 10 (drop_bit 12 v)"
  by (simp add: pt_index_def take_bit_eq_mask mask_eq_exp_minus_1)

lemma pd_index_less: "pd_index v < 1024" and pt_index_less: "pt_index v < 1024"
proof -
  have "unat v < 2 ^ 32" using unsigned_less [of v] by simp
  then have "unat v div 2 ^ 22 < 1024" by (simp add: div_less_iff_less_mult)
  then show "pd_index v < 1024" by (simp add: pd_index_def word_less_nat_alt drop_bit_eq_div unat_div)
  have "unat (pt_index v) = unat (drop_bit 12 v) mod 1024"
    unfolding pt_index_10 by (simp add: unsigned_take_bit_eq take_bit_eq_mod [where 'a = nat])
  then show "pt_index v < 1024" by (simp add: word_less_nat_alt)
qed

lemma same_page_indices: "pd_index v = pd_index w \<and> pt_index v = pt_index w \<longleftrightarrow> pmm_page v = pmm_page w"
proof -
  have b: "bit (drop_bit 12 x) n = (if n < 10 then bit (pt_index x) n else bit (pd_index x) (n - 10))" for x :: u32 and n
    unfolding pt_index_10 pd_index_def by (simp add: bit_take_bit_iff bit_drop_bit_eq)
  have "drop_bit 12 v = drop_bit 12 w" if "pd_index v = pd_index w" "pt_index v = pt_index w"
    by (rule bit_eqI) (simp only: b that)
  moreover have "pd_index v = pd_index w" if "drop_bit 12 v = drop_bit 12 w"
  proof -
    have "pd_index x = drop_bit 10 (drop_bit 12 x)" for x by (simp add: pd_index_def drop_bit_drop_bit)
    then show ?thesis by (simp only: that)
  qed
  moreover have "pt_index v = pt_index w" if "drop_bit 12 v = drop_bit 12 w" using that by (simp add: pt_index_def)
  ultimately show ?thesis unfolding drop_page [symmetric] by blast
qed

lemma unat_ent:
  assumes "p < PMM_PAGES" "i < 1024"
  shows "unat (ent (addr_of_page p) i) = p * PAGE_SIZE + 4 * unat i"
proof -
  have i: "unat i < 1024" using assms(2) by (simp add: word_less_nat_alt)
  then have 4: "unat (4 * i) = 4 * unat i" by (simp add: unat_word_ariths(2))
  show ?thesis unfolding ent_def using assms(1) i 4 by (subst unat_add_small) (simp_all add: unat_addr_of_page)
qed

lemma ent_eq_iff:
  assumes "p < PMM_PAGES" "q < PMM_PAGES" "i < 1024" "j < 1024"
  shows "ent (addr_of_page p) i = ent (addr_of_page q) j \<longleftrightarrow> p = q \<and> i = j"
proof -
  have "(p * PAGE_SIZE + 4 * unat i) div PAGE_SIZE = p" "(q * PAGE_SIZE + 4 * unat j) div PAGE_SIZE = q"
    using assms(3,4) by (simp_all add: word_less_nat_alt)
  then have "p * PAGE_SIZE + 4 * unat i = q * PAGE_SIZE + 4 * unat j \<longleftrightarrow> p = q \<and> unat i = unat j" by fastforce
  then show ?thesis unfolding word_unat_eq_iff [of "ent (addr_of_page p) i"] unat_ent [OF assms(1,3)] unat_ent [OF assms(2,4)]
    by (simp add: word_unat_eq_iff)
qed

section \<open>Tables as arrays\<close>

definition slot :: "nat \<Rightarrow> u32 \<Rightarrow> paging \<Rightarrow> u32" where
  "slot p i s = rd (ent (addr_of_page p) i) s"

definition set_slot :: "nat \<Rightarrow> u32 \<Rightarrow> u32 \<Rightarrow> paging \<Rightarrow> paging" where
  "set_slot p i v = wr (ent (addr_of_page p) i) v"

lemma slot_set [simp]:
  "p < PMM_PAGES \<Longrightarrow> q < PMM_PAGES \<Longrightarrow> i < 1024 \<Longrightarrow> j < 1024 \<Longrightarrow>
   slot p i (set_slot q j v s) = (if p = q \<and> i = j then v else slot p i s)"
  by (simp add: slot_def set_slot_def rd_def wr_def ent_eq_iff)

lemma set_slot_simps [simp]:
  "pg_pmm (set_slot p i v s) = pg_pmm s" "page_directory (set_slot p i v s) = page_directory s" "pg_cr3 (set_slot p i v s) = pg_cr3 s"
  by (simp_all add: set_slot_def wr_def)

lemma slot_pmm [simp]: "slot p i (s\<lparr>pg_pmm := m\<rparr>) = slot p i s"
  by (simp add: slot_def rd_def)

lemma mem_index_range:
  fixes i :: u32
  assumes "b \<le> 1024"
  shows "i \<in> set (map of_nat [a..<b]) \<longleftrightarrow> a \<le> unat i \<and> unat i < b"
proof
  assume "i \<in> set (map of_nat [a..<b])"
  then obtain n where "i = of_nat n" "a \<le> n" "n < b" by auto
  then show "a \<le> unat i \<and> unat i < b" using assms by (simp add: unat_of_nat)
next
  assume "a \<le> unat i \<and> unat i < b"
  then have "unat i \<in> set [a..<b]" by simp
  then have "(of_nat (unat i) :: u32) \<in> set (map of_nat [a..<b])" unfolding set_map by (rule imageI)
  moreover have "(of_nat (unat i) :: u32) = i" by simp
  ultimately show "i \<in> set (map of_nat [a..<b])" by (simp only:)
qed

lemma distinct_index_range:
  assumes "b \<le> 1024"
  shows "distinct (map (of_nat :: nat \<Rightarrow> u32) [a..<b])"
  unfolding distinct_map
proof (intro conjI inj_onI)
  fix m n assume m: "m \<in> set [a..<b]" "n \<in> set [a..<b]" "(of_nat m :: u32) = of_nat n"
  then have "unat (of_nat m :: u32) = unat (of_nat n :: u32)" by simp
  then show "m = n" using m(1,2) assms by (simp add: unat_of_nat)
qed simp

lemma set_table_indices: "set table_indices = {i. i < 1024}"
  unfolding table_indices_def by (rule set_eqI) (subst mem_index_range, simp_all add: word_less_nat_alt)

lemma set_user_indices: "set user_indices = {i. 256 \<le> i \<and> i < 768}"
  unfolding user_indices_def by (rule set_eqI) (subst mem_index_range, simp_all add: word_less_nat_alt word_le_nat_alt)

lemma distinct_indices: "distinct table_indices" "distinct user_indices"
  unfolding table_indices_def user_indices_def by (rule distinct_index_range, simp)+

lemma rd_wr [simp]: "rd a (wr b v s) = (if a = b then v else rd a s)"
  by (simp add: rd_def wr_def)

lemma rd_fold_other: "\<forall>x \<in> set xs. g x \<noteq> a \<Longrightarrow> rd a (fold (\<lambda>x. wr (g x) (f x)) xs s) = rd a s"
  by (induction xs arbitrary: s) auto

lemma rd_fold_same:
  "x \<in> set xs \<Longrightarrow> inj_on g (set xs) \<Longrightarrow> rd (g x) (fold (\<lambda>x. wr (g x) (f x)) xs s) = f x"
proof (induction xs arbitrary: s)
  case (Cons y ys)
  show ?case
  proof (cases "x \<in> set ys")
    case True
    with Cons show ?thesis by simp
  next
    case False
    with Cons.prems have "x = y" "\<forall>z \<in> set ys. g z \<noteq> g x" by (auto simp: inj_on_def)
    then show ?thesis using rd_fold_other [of ys g "g x" f "wr (g y) (f y) s"] by simp
  qed
qed simp

text \<open>Filling a table.\<close>

lemma fill_table:
  assumes "p < PMM_PAGES" "q < PMM_PAGES" "i < 1024"
  shows "slot p i (fold (\<lambda>i. wr (ent (addr_of_page q) i) (f i)) table_indices s) = (if p = q then f i else slot p i s)"
proof (cases "p = q")
  case True
  have "inj_on (ent (addr_of_page q)) (set table_indices)"
    using ent_eq_iff [OF assms(2,2)] by (auto simp: set_table_indices inj_on_def)
  then show ?thesis using True assms(3) rd_fold_same [of i table_indices "ent (addr_of_page q)" f s]
    by (simp add: slot_def set_table_indices)
next
  case False
  then have "\<forall>j \<in> set table_indices. ent (addr_of_page q) j \<noteq> ent (addr_of_page p) i"
    using ent_eq_iff [OF assms(2,1) _ assms(3)] by (auto simp: set_table_indices)
  then show ?thesis using False rd_fold_other [of table_indices "ent (addr_of_page q)" "ent (addr_of_page p) i" f s]
    by (simp add: slot_def)
qed

lemma fold_wr_simps [simp]:
  "pg_pmm (fold (\<lambda>x. wr (g x) (f x)) xs s) = pg_pmm s" "page_directory (fold (\<lambda>x. wr (g x) (f x)) xs s) = page_directory s"
  "pg_cr3 (fold (\<lambda>x. wr (g x) (f x)) xs s) = pg_cr3 s"
  by (induction xs arbitrary: s) (simp_all add: wr_def)

lemma zero_table_simps [simp]:
  "pg_pmm (zero_table t s) = pg_pmm s" "page_directory (zero_table t s) = page_directory s" "pg_cr3 (zero_table t s) = pg_cr3 s"
  by (simp_all add: zero_table_def)

lemma slot_zero_table [simp]:
  "p < PMM_PAGES \<Longrightarrow> q < PMM_PAGES \<Longrightarrow> i < 1024 \<Longrightarrow> slot p i (zero_table (addr_of_page q) s) = (if p = q then 0 else slot p i s)"
  unfolding zero_table_def by (rule fill_table)

section \<open>Directories\<close>

text \<open>
  A well-formed directory: it and its tables are pages in use, all different. The leaf of a virtual address is the table entry for its
  page, 0 when there is no table.
\<close>

definition dir_wf :: "nat \<Rightarrow> paging \<Rightarrow> bool" where
  "dir_wf d s \<longleftrightarrow> d \<in> pages_used (pg_pmm s) \<and> d \<noteq> 0 \<and>
     (\<forall>i < 1024. present (slot d i s) \<longrightarrow> pmm_page (slot d i s) \<in> pages_used (pg_pmm s) \<and> pmm_page (slot d i s) \<noteq> d \<and>
       (\<forall>j < 1024. present (slot d j s) \<and> pmm_page (slot d j s) = pmm_page (slot d i s) \<longrightarrow> j = i))"

definition leaf :: "nat \<Rightarrow> u32 \<Rightarrow> paging \<Rightarrow> u32" where
  "leaf d v s = (let pde = slot d (pd_index v) s in if present pde then slot (pmm_page pde) (pt_index v) s else 0)"

lemma used_less: "p \<in> pages_used m \<Longrightarrow> p < PMM_PAGES"
  by (simp add: pages_used_def)

lemma dir_wf_page: "dir_wf d s \<Longrightarrow> d < PMM_PAGES" and dir_wf_used: "dir_wf d s \<Longrightarrow> d \<in> pages_used (pg_pmm s)"
  and dir_wf_nonzero: "dir_wf d s \<Longrightarrow> addr_of_page d \<noteq> 0"
  by (auto simp: dir_wf_def used_less addr_of_page_eq_0)

lemma dir_wf_table:
  assumes "dir_wf d s" "i < 1024" "present (slot d i s)"
  shows "pmm_page (slot d i s) \<in> pages_used (pg_pmm s)" "pmm_page (slot d i s) < PMM_PAGES" "pmm_page (slot d i s) \<noteq> d"
    "j < 1024 \<Longrightarrow> present (slot d j s) \<Longrightarrow> pmm_page (slot d j s) = pmm_page (slot d i s) \<Longrightarrow> j = i"
  using assms used_less unfolding dir_wf_def by blast+

lemma not_present_0 [simp]: "\<not> present 0" "\<not> present 2"
  by (simp_all add: present_def)

lemma dir_addr: "d < PMM_PAGES \<Longrightarrow> addr_of_page d AND PAGE_MASK = addr_of_page d"
  by (simp add: mask_addr)

lemma resolve_leaf:
  assumes "d < PMM_PAGES" "d \<noteq> 0"
  shows "resolve_user_phys (addr_of_page d) v s =
    (if present (leaf d v s) then (leaf d v s AND PAGE_MASK) OR (v AND 0xFFF) else 0)"
  using assms by (simp add: resolve_user_phys_def leaf_def Let_def dir_addr addr_of_page_eq_0 flip: slot_def)
    (simp add: mask_addr slot_def)

lemma accessible_leaf:
  assumes "d < PMM_PAGES" "d \<noteq> 0"
  shows "page_is_user_accessible (addr_of_page d) v s \<longleftrightarrow> user_bit (slot d (pd_index v) s) \<and> present (leaf d v s) \<and> user_bit (leaf d v s)"
  using assms by (auto simp: page_is_user_accessible_def leaf_def Let_def addr_of_page_eq_0 mask_addr slot_def)

lemma and_exp_bit: "e AND 2 ^ k \<noteq> 0 \<longleftrightarrow> k < 32 \<and> bit e k" for e :: u32
proof -
  have "e AND 2 ^ k \<noteq> 0 \<longleftrightarrow> (\<exists>n. bit (e AND 2 ^ k) n)" by (metis bit_0_eq bit_eqI bot_apply bot_bool_def)
  also have "\<dots> \<longleftrightarrow> k < 32 \<and> bit e k" by (auto simp: bit_simps dest: bit_imp_le_length)
  finally show ?thesis .
qed

lemma present_bit: "present e \<longleftrightarrow> bit e 0" and user_bit_bit: "user_bit e \<longleftrightarrow> bit e 2"
  using and_exp_bit [of e 0] and_exp_bit [of e 2] by (simp_all add: present_def user_bit_def)

text \<open>The entry for a page with all three flags set.\<close>

definition user_entry :: "u32 \<Rightarrow> u32" where
  "user_entry a = (a AND PAGE_MASK) OR PAGE_PRESENT OR PAGE_RW OR PAGE_USER"

lemma user_entry_simps [simp]:
  "present (user_entry a)" "user_bit (user_entry a)" "pmm_page (user_entry a) = pmm_page a" "user_entry a AND PAGE_MASK = a AND PAGE_MASK"
proof -
  have e: "user_entry a = (a AND PAGE_MASK) OR 7" by (simp add: user_entry_def)
  show "present (user_entry a)" unfolding e present_bit by (simp add: bit_0 even_or_iff)
  show "user_bit (user_entry a)" unfolding e user_bit_bit by (simp add: bit_or_iff)
  show p: "pmm_page (user_entry a) = pmm_page a" unfolding e by (rule pmm_page_or) simp
  show "user_entry a AND PAGE_MASK = a AND PAGE_MASK" unfolding mask_addr p ..
qed

lemma alloc_page_cases:
  assumes "pmm_inv (pg_pmm s)"
  obtains (Full) m where "pages_used (pg_pmm s) = {..<PMM_PAGES}" "alloc_page s = Some (0, s\<lparr>pg_pmm := m\<rparr>)" "pmm_inv m"
      "pages_used m = pages_used (pg_pmm s)"
  | (Page) p m where "p < PMM_PAGES" "p \<notin> pages_used (pg_pmm s)" "p \<noteq> 0" "addr_of_page p \<noteq> 0"
      "alloc_page s = Some (addr_of_page p, s\<lparr>pg_pmm := m\<rparr>)" "pmm_inv m" "pages_used m = insert p (pages_used (pg_pmm s))"
proof -
  have wf: "pmm_wf (pg_pmm s)" "0 \<in> pages_used (pg_pmm s)" using assms by (simp_all add: pmm_inv_def)
  show thesis
  proof (rule pmm_alloc_page_cases [OF wf(1)], goal_cases)
    case 1
    then show thesis using assms by (intro Full [of "(pg_pmm s)\<lparr>pmm_alloc_calls := pmm_alloc_calls (pg_pmm s) + 1\<rparr>"]) (simp_all add: alloc_page_def pmm_inv_def)
  next
    case (2 p m)
    then have "p \<noteq> 0" using wf(2) by metis
    with 2 show thesis using wf(2) by (intro Page [of p m]) (simp_all add: alloc_page_def pmm_inv_def addr_of_page_eq_0)
  qed
qed

text \<open>Mapping a page for user mode changes the leaf of that page and nothing else of the directory.\<close>

lemma map_user_page_leaf:
  assumes "dir_wf d s" "pmm_inv (pg_pmm s)" "present (slot d (pd_index v) s) \<or> pages_used (pg_pmm s) \<noteq> {..<PMM_PAGES}"
  obtains s1 where "map_user_page (addr_of_page d) phys v s = Some (True, s1)" "dir_wf d s1" "pmm_inv (pg_pmm s1)"
    "leaf d v s1 = user_entry phys" "\<And>w. pmm_page w \<noteq> pmm_page v \<Longrightarrow> leaf d w s1 = leaf d w s"
    "user_bit (slot d (pd_index v) s1) \<longleftrightarrow> \<not> present (slot d (pd_index v) s) \<or> user_bit (slot d (pd_index v) s)"
proof -
  let ?i = "pd_index v" and ?j = "pt_index v"
  note I = pd_index_less pt_index_less
  have d: "d < PMM_PAGES" "addr_of_page d \<noteq> 0" "addr_of_page d AND PAGE_MASK = addr_of_page d"
    using assms(1) by (simp_all add: dir_wf_page dir_wf_nonzero dir_addr)
  have W: "\<And>w. pmm_page w \<noteq> pmm_page v \<Longrightarrow> pd_index w = ?i \<Longrightarrow> pt_index w \<noteq> ?j" using same_page_indices by blast
  show thesis
  proof (cases "present (slot d ?i s)")
    case True
    define t where "t = pmm_page (slot d ?i s)"
    note T = dir_wf_table [OF assms(1) I(1) True, folded t_def]
    let ?s = "set_slot t ?j (user_entry phys) s"
    have e: "map_user_page (addr_of_page d) phys v s = Some (True, ?s)"
      using d True by (simp add: map_user_page_def Let_def t_def user_entry_def set_slot_def mask_addr slot_def)
    have sd: "slot d i ?s = slot d i s" if "i < 1024" for i using that T d(1) I by simp
    have wf: "dir_wf d ?s" using assms(1) sd unfolding dir_wf_def by simp
    have lv: "leaf d v ?s = user_entry phys" using True sd [OF I(1)] T I by (simp add: leaf_def t_def Let_def)
    have lw: "leaf d w ?s = leaf d w s" if w: "pmm_page w \<noteq> pmm_page v" for w
    proof (cases "present (slot d (pd_index w) s)")
      case p: True
      have "pmm_page (slot d (pd_index w) s) \<noteq> t \<or> pt_index w \<noteq> ?j" using T(4) [OF I(1) p] W [OF w] by blast
      then show ?thesis using sd [OF I(1)] dir_wf_table(2) [OF assms(1) I(1) p] T I by (auto simp: leaf_def Let_def)
    qed (use sd [OF I(1)] in \<open>simp add: leaf_def\<close>)
    show thesis by (rule that [OF e wf _ lv lw]) (use assms(2) True sd [OF I(1)] in simp_all)
  next
    case False
    show thesis
    proof (rule alloc_page_cases [OF assms(2)], goal_cases)
      case 1
      with assms(3) False show thesis by simp
    next
      case (2 t m)
      let ?s0 = "zero_table (addr_of_page t) (s\<lparr>pg_pmm := m\<rparr>)"
      let ?s = "set_slot t ?j (user_entry phys) (set_slot d ?i (user_entry (addr_of_page t)) ?s0)"
      have td: "t \<noteq> d" using 2(2) dir_wf_used [OF assms(1)] by blast
      have e: "map_user_page (addr_of_page d) phys v s = Some (True, ?s)"
        using d False 2 by (simp add: map_user_page_def Let_def user_entry_def set_slot_def slot_def dir_addr)
      have sd: "slot d i ?s = (if i = ?i then user_entry (addr_of_page t) else slot d i s)" if "i < 1024" for i
        using that 2(1) td d(1) I by simp
      have st: "slot p i ?s = slot p i s" if "p < PMM_PAGES" "p \<noteq> d" "p \<noteq> t" "i < 1024" for p i
        using that 2(1) td d(1) I by simp
      have wf: "dir_wf d ?s" unfolding dir_wf_def
      proof (intro conjI allI impI)
        show "d \<in> pages_used (pg_pmm ?s)" "d \<noteq> 0" using assms(1) 2(7) by (simp_all add: dir_wf_def)
        fix i :: u32 assume i: "i < 1024" "present (slot d i ?s)"
        show "pmm_page (slot d i ?s) \<in> pages_used (pg_pmm ?s)" "pmm_page (slot d i ?s) \<noteq> d"
          using i sd [OF i(1)] 2(1,7) td dir_wf_table(1,3) [OF assms(1) i(1)] by (auto split: if_splits)
        show "j = i" if j: "j < 1024" "present (slot d j ?s) \<and> pmm_page (slot d j ?s) = pmm_page (slot d i ?s)" for j
          using i j sd [OF i(1)] sd [OF j(1)] 2(1,2) dir_wf_table(1,4) [OF assms(1)] by (auto split: if_splits)
      qed
      have lv: "leaf d v ?s = user_entry phys" using sd [OF I(1)] 2(1) I by (simp add: leaf_def Let_def)
      have lw: "leaf d w ?s = leaf d w s" if w: "pmm_page w \<noteq> pmm_page v" for w
      proof (cases "pd_index w = ?i")
        case True
        then have "leaf d w ?s = slot t (pt_index w) ?s" using sd [OF I(1)] 2(1) by (simp add: leaf_def Let_def)
        also have "\<dots> = 0" using W [OF w True] 2(1) d(1) td I by simp
        finally show ?thesis using True False by (simp add: leaf_def)
      next
        case i: False
        have "pmm_page (slot d (pd_index w) s) \<noteq> t" if "present (slot d (pd_index w) s)"
          using dir_wf_table(1) [OF assms(1) I(1) that] 2(2) by blast
        then show ?thesis using sd [OF I(1)] i dir_wf_table(2,3) [OF assms(1) I(1)]
          by (auto simp: leaf_def Let_def st [OF _ _ _ I(2)] simp del: slot_set)
      qed
      show thesis by (rule that [OF e wf _ lv lw]) (use 2(6) sd [OF I(1)] False in simp_all)
    qed
  qed
qed

lemma user_pte_leaf:
  assumes "d < PMM_PAGES" "d \<noteq> 0"
  shows "user_pte (addr_of_page d) v s = (if page_is_user_accessible (addr_of_page d) v s
    then Some (ent (addr_of_page (pmm_page (slot d (pd_index v) s))) (pt_index v), leaf d v s) else None)"
  using assms by (auto simp: user_pte_def page_is_user_accessible_def leaf_def Let_def addr_of_page_eq_0 mask_addr slot_def)

lemma unmap_user_page_leaf:
  assumes "dir_wf d s" "pmm_inv (pg_pmm s)" "page_is_user_accessible (addr_of_page d) v s"
    and "q = pmm_page (leaf d v s)" "FIRST_USER_PAGE \<le> q" "q < PMM_PAGES" "q \<noteq> d"
    and "\<And>i. i < 1024 \<Longrightarrow> present (slot d i s) \<Longrightarrow> pmm_page (slot d i s) \<noteq> q"
  obtains s1 where "unmap_user_page (addr_of_page d) v s = Some (True, s1)" "dir_wf d s1" "pmm_inv (pg_pmm s1)"
    "pages_used (pg_pmm s1) = pages_used (pg_pmm s) - {q}"
    "leaf d v s1 = 0" "\<And>w. pmm_page w \<noteq> pmm_page v \<Longrightarrow> leaf d w s1 = leaf d w s"
proof -
  let ?i = "pd_index v" and ?j = "pt_index v"
  define t where "t = pmm_page (slot d ?i s)"
  note I = pd_index_less pt_index_less
  have d: "d < PMM_PAGES" "d \<noteq> 0" using dir_wf_page [OF assms(1)] assms(1) by (simp_all add: dir_wf_def)
  have pr: "present (slot d ?i s)" using assms(3) accessible_leaf [OF d] by (auto simp: leaf_def Let_def split: if_splits)
  note T = dir_wf_table [OF assms(1) I(1) pr, folded t_def]
  obtain m where m: "pmm_free_page (addr_of_page q) (pg_pmm s) = Some m" "pmm_wf m" "pages_used m = pages_used (pg_pmm s) - {q}"
    using free_page_used [of "pg_pmm s" q] assms(2,5,6) by (auto simp: pmm_inv_def)
  let ?s = "set_slot t ?j 0 (s\<lparr>pg_pmm := m\<rparr>)"
  have e: "unmap_user_page (addr_of_page d) v s = Some (True, ?s)"
    using assms(3,4) m(1) by (simp add: unmap_user_page_def user_pte_leaf [OF d] free_page_def mask_addr set_slot_def t_def)
  have sd: "slot d i ?s = slot d i s" if "i < 1024" for i using that T d(1) I by simp
  have wf: "dir_wf d ?s" using assms(1,7,8) sd m(3) unfolding dir_wf_def by (simp del: slot_set)
  have inv: "pmm_inv (pg_pmm ?s)" using assms(2,5) m by (simp add: pmm_inv_def)
  have lv: "leaf d v ?s = 0" using sd [OF I(1)] T I by (simp add: leaf_def t_def Let_def)
  have lw: "leaf d w ?s = leaf d w s" if w: "pmm_page w \<noteq> pmm_page v" for w
  proof (cases "present (slot d (pd_index w) s)")
    case p: True
    have "pmm_page (slot d (pd_index w) s) \<noteq> t \<or> pt_index w \<noteq> ?j" using T(4) [OF I(1) p] same_page_indices [of w v] w by blast
    then show ?thesis using sd [OF I(1)] dir_wf_table(2) [OF assms(1) I(1) p] T I by (auto simp: leaf_def Let_def)
  qed (use sd [OF I(1)] in \<open>simp add: leaf_def\<close>)
  show thesis by (rule that [OF e wf inv _ lv lw]) (simp add: m(3))
qed

section \<open>The range check\<close>

lemma unat_add_page: "unat a + 4096 < 2 ^ 32 \<Longrightarrow> unat (a + 4096) = unat a + 4096" for a :: u32
  using unat_add_small [of a 4096] by simp

lemma accessible_loop_iff:
  assumes "p * PAGE_SIZE + 8192 \<le> 2 ^ 32" "unat e + 8192 \<le> 2 ^ 32"
  shows "accessible_loop pd (of_nat (p * PAGE_SIZE)) e s \<longleftrightarrow>
    (\<forall>q \<in> {p..max p ((unat e + 4095) div 4096)}. page_is_user_accessible pd (of_nat (q * PAGE_SIZE)) s)"
  using assms
proof (induction "unat e - p * PAGE_SIZE" arbitrary: p rule: less_induct)
  case less
  let ?a = "of_nat (p * PAGE_SIZE) :: u32" and ?A = "\<lambda>q. page_is_user_accessible pd (of_nat (q * PAGE_SIZE)) s"
  have a: "unat ?a = p * PAGE_SIZE" using less.prems by (simp add: unat_of_nat del: of_nat_mult)
  have next_a: "?a + 4096 = of_nat (Suc p * PAGE_SIZE)" "\<not> ?a + 4096 < ?a"
    using less.prems a unat_add_page [of ?a] by (simp_all add: word_less_nat_alt algebra_simps)
  show ?case
  proof (cases "unat e \<le> p * PAGE_SIZE")
    case True
    then have "(unat e + 4095) div 4096 \<le> p" by (simp add: less_mult_imp_div_less less_Suc_eq_le [symmetric])
    then have "{p..max p ((unat e + 4095) div 4096)} = {p}" by (simp add: max_def)
    then show ?thesis using True a by (subst accessible_loop.simps) (simp add: word_le_nat_alt)
  next
    case False
    then have m: "Suc p \<le> (unat e + 4095) div 4096" by (simp add: less_eq_div_iff_mult_less_eq)
    then have S: "{p..max p ((unat e + 4095) div 4096)} = insert p {Suc p..max (Suc p) ((unat e + 4095) div 4096)}" by auto
    have "accessible_loop pd (of_nat (Suc p * PAGE_SIZE)) e s \<longleftrightarrow> (\<forall>q \<in> {Suc p..max (Suc p) ((unat e + 4095) div 4096)}. ?A q)"
      by (rule less.hyps) (use False less.prems in auto)
    then show ?thesis using False a next_a unfolding S by (subst accessible_loop.simps) (simp add: word_le_nat_alt add.commute del: of_nat_mult)
  qed
qed

section \<open>Mapping and unmapping\<close>

lemma leaf_same_page: "pmm_page w = pmm_page v \<Longrightarrow> leaf d w s = leaf d v s"
proof -
  assume "pmm_page w = pmm_page v"
  then have "pd_index w = pd_index v" "pt_index w = pt_index v" using same_page_indices by blast+
  then show ?thesis by (simp add: leaf_def Let_def)
qed

text \<open>
  C14. \<open>map_user_page\<close> on a well-formed directory, when the directory has a table for the address or a page is free for one: it succeeds, the directory stays well-formed, every address of
  the mapped page then resolves to the given frame with its offset, every address of every other page resolves as before, and user mode may
  access the page exactly when its directory entry is new or was already a user entry.
\<close>

theorem map_user_page_correct:
  assumes "dir_wf d s" "pmm_inv (pg_pmm s)" "present (slot d (pd_index v) s) \<or> pages_used (pg_pmm s) \<noteq> {..<PMM_PAGES}"
  shows "\<exists>s1. map_user_page (addr_of_page d) phys v s = Some (True, s1) \<and> dir_wf d s1 \<and> pmm_inv (pg_pmm s1) \<and>
    (\<forall>w. resolve_user_phys (addr_of_page d) w s1 =
       (if pmm_page w = pmm_page v then (phys AND PAGE_MASK) OR (w AND 0xFFF) else resolve_user_phys (addr_of_page d) w s)) \<and>
    (page_is_user_accessible (addr_of_page d) v s1 \<longleftrightarrow>
       \<not> present (slot d (pd_index v) s) \<or> user_bit (slot d (pd_index v) s))"
proof -
  have d: "d < PMM_PAGES" "d \<noteq> 0" using dir_wf_page [OF assms(1)] assms(1) by (simp_all add: dir_wf_def)
  obtain s1 where s1: "map_user_page (addr_of_page d) phys v s = Some (True, s1)" "dir_wf d s1" "pmm_inv (pg_pmm s1)"
    "leaf d v s1 = user_entry phys" "\<And>w. pmm_page w \<noteq> pmm_page v \<Longrightarrow> leaf d w s1 = leaf d w s"
    "user_bit (slot d (pd_index v) s1) \<longleftrightarrow> \<not> present (slot d (pd_index v) s) \<or> user_bit (slot d (pd_index v) s)"
    using map_user_page_leaf [OF assms, of phys] by blast
  have "resolve_user_phys (addr_of_page d) w s1 =
      (if pmm_page w = pmm_page v then (phys AND PAGE_MASK) OR (w AND 0xFFF) else resolve_user_phys (addr_of_page d) w s)" for w
    by (cases "pmm_page w = pmm_page v") (simp_all add: resolve_leaf [OF d] leaf_same_page [of w v] s1(4,5))
  with s1 show ?thesis by (simp add: accessible_leaf [OF d])
qed

text \<open>
  C35. \<open>unmap_user_page\<close> on a page that user mode may access, whose frame is an allocated page above 1 MB that is not itself a table of the directory: it
  succeeds, gives the frame back to the page allocator, no address of the page resolves any more, and all other pages resolve as before. On any other page it returns 0 and
  changes nothing.
\<close>

theorem unmap_user_page_correct:
  assumes "dir_wf d s" "pmm_inv (pg_pmm s)"
    and "q = pmm_page (leaf d v s)" "FIRST_USER_PAGE \<le> q" "q < PMM_PAGES" "q \<noteq> d"
    and "\<forall>i < 1024. present (slot d i s) \<longrightarrow> pmm_page (slot d i s) \<noteq> q"
  shows "(page_is_user_accessible (addr_of_page d) v s \<longrightarrow>
      (\<exists>s1. unmap_user_page (addr_of_page d) v s = Some (True, s1) \<and> dir_wf d s1 \<and> pmm_inv (pg_pmm s1) \<and>
        pages_used (pg_pmm s1) = pages_used (pg_pmm s) - {q} \<and>
        (\<forall>w. resolve_user_phys (addr_of_page d) w s1 =
          (if pmm_page w = pmm_page v then 0 else resolve_user_phys (addr_of_page d) w s)))) \<and>
    (\<not> page_is_user_accessible (addr_of_page d) v s \<longrightarrow> unmap_user_page (addr_of_page d) v s = Some (False, s))"
proof (intro conjI impI)
  have d: "d < PMM_PAGES" "d \<noteq> 0" using dir_wf_page [OF assms(1)] assms(1) by (simp_all add: dir_wf_def)
  show "unmap_user_page (addr_of_page d) v s = Some (False, s)" if "\<not> page_is_user_accessible (addr_of_page d) v s"
    using that by (simp add: unmap_user_page_def user_pte_leaf [OF d])
  assume a: "page_is_user_accessible (addr_of_page d) v s"
  obtain s1 where s1: "unmap_user_page (addr_of_page d) v s = Some (True, s1)" "dir_wf d s1" "pmm_inv (pg_pmm s1)"
    "pages_used (pg_pmm s1) = pages_used (pg_pmm s) - {q}"
    "leaf d v s1 = 0" "\<And>w. pmm_page w \<noteq> pmm_page v \<Longrightarrow> leaf d w s1 = leaf d w s"
    using unmap_user_page_leaf [OF assms(1,2) a assms(3-6)] assms(7) by blast
  have "resolve_user_phys (addr_of_page d) w s1 =
      (if pmm_page w = pmm_page v then 0 else resolve_user_phys (addr_of_page d) w s)" for w
    by (cases "pmm_page w = pmm_page v") (simp_all add: resolve_leaf [OF d] leaf_same_page [of w v] s1(5,6))
  with s1(1-4) show "\<exists>s1. unmap_user_page (addr_of_page d) v s = Some (True, s1) \<and> dir_wf d s1 \<and> pmm_inv (pg_pmm s1) \<and>
        pages_used (pg_pmm s1) = pages_used (pg_pmm s) - {q} \<and>
        (\<forall>w. resolve_user_phys (addr_of_page d) w s1 =
          (if pmm_page w = pmm_page v then 0 else resolve_user_phys (addr_of_page d) w s))"
    by blast
qed

text \<open>A machine whose page 1 is an empty directory.\<close>

definition blank_machine :: "pmm \<Rightarrow> paging" where
  "blank_machine m = \<lparr>pg_mem = \<lambda>_. 0, pg_pmm = m, page_directory = addr_of_page 1, first_page_table = 0, second_page_table = 0,
     pg_cr3 = addr_of_page 1, vbe_framebuffer = 0\<rparr>"

lemma not_full: "p \<notin> U \<Longrightarrow> p < PMM_PAGES \<Longrightarrow> U \<noteq> {..<PMM_PAGES}"
  by blast

lemma blank_slot [simp]: "slot p i (blank_machine m) = 0"
  by (simp add: blank_machine_def slot_def rd_def)

lemma blank_machine_facts:
  obtains m where "dir_wf 1 (blank_machine m)" "pmm_inv m" "pages_used m = {0, 1, 2}" "pg_pmm (blank_machine m) = m"
    "pages_used m \<noteq> {..<PMM_PAGES}"
proof -
  obtain m where m: "pmm_wf m" "pages_used m = insert 1 {0}"
    by (rule set_page_used [of pmm_boot 1]) (use pmm_boot_inv pmm_boot_used in \<open>simp_all add: pmm_inv_def\<close>)
  obtain n where n: "pmm_wf n" "pages_used n = insert 2 {1, 0}"
    by (rule set_page_used [of m 2]) (use m in simp_all)
  have "3 \<notin> pages_used n" unfolding n(2) by simp
  then have "pages_used n \<noteq> {..<PMM_PAGES}" by (rule not_full) simp
  moreover have "dir_wf 1 (blank_machine n)" using n(2) by (simp add: dir_wf_def) (simp add: blank_machine_def)
  ultimately show thesis using n by (intro that [of n]) (auto simp: pmm_inv_def blank_machine_def)
qed

theorem map_user_page_correct_witness:
  "\<exists>s s1. map_user_page (addr_of_page 1) 0x300000 0x40000000 s = Some (True, s1) \<and>
     resolve_user_phys (addr_of_page 1) 0x40000123 s1 = 0x300123 \<and> page_is_user_accessible (addr_of_page 1) 0x40000000 s1"
proof -
  obtain m where m: "dir_wf 1 (blank_machine m)" "pmm_inv (pg_pmm (blank_machine m))"
    "pages_used (pg_pmm (blank_machine m)) \<noteq> {..<PMM_PAGES}"
    by (rule blank_machine_facts) simp
  have f: "present (slot 1 (pd_index 0x40000000) (blank_machine m)) \<or> pages_used (pg_pmm (blank_machine m)) \<noteq> {..<PMM_PAGES}"
    using m(3) by blast
  have n: "\<not> present (slot 1 (pd_index 0x40000000) (blank_machine m))" by simp
  have p: "pmm_page 0x40000123 = pmm_page 0x40000000" by (simp add: pmm_page_def)
  obtain s1 where A: "map_user_page (addr_of_page 1) 0x300000 0x40000000 (blank_machine m) = Some (True, s1)"
    and B: "\<forall>w. resolve_user_phys (addr_of_page 1) w s1 = (if pmm_page w = pmm_page 0x40000000
      then (0x300000 AND PAGE_MASK) OR (w AND 0xFFF) else resolve_user_phys (addr_of_page 1) w (blank_machine m))"
    and C: "page_is_user_accessible (addr_of_page 1) 0x40000000 s1"
    using map_user_page_correct [OF m(1,2) f, where phys = "0x300000"] n by blast
  have "resolve_user_phys (addr_of_page 1) 0x40000123 s1 = (0x300000 AND PAGE_MASK) OR (0x40000123 AND 0xFFF)"
    using spec [OF B, of "0x40000123"] unfolding p by simp
  then have "resolve_user_phys (addr_of_page 1) 0x40000123 s1 = 0x300123" by simp
  with A C show ?thesis by blast
qed

theorem unmap_user_page_correct_witness:
  "\<exists>s s1. page_is_user_accessible (addr_of_page 1) 0x40000000 s \<and> unmap_user_page (addr_of_page 1) 0x40000000 s = Some (True, s1) \<and>
     resolve_user_phys (addr_of_page 1) 0x40000000 s1 = 0"
proof -
  obtain m where m: "pmm_inv m" "pages_used m = {0, 1, 2}" "pg_pmm (blank_machine m) = m" by (rule blank_machine_facts)
  define s where "s = set_slot 2 0 (user_entry 0x300000) (set_slot 1 256 (user_entry (addr_of_page 2)) (blank_machine m))"
  have ix: "pd_index 0x40000000 = 256" "pt_index 0x40000000 = 0" by (simp_all add: pd_index_def pt_index_def)
  have sl: "slot 1 i s = (if i = 256 then user_entry (addr_of_page 2) else 0)" if "i < 1024" for i using that by (simp add: s_def)
  have lf: "leaf 1 0x40000000 s = user_entry 0x300000" unfolding leaf_def ix by (simp add: sl Let_def) (simp add: s_def)
  have pg: "pmm_page 0x300000 = 768" by (simp add: pmm_page_def)
  have wf: "dir_wf 1 s" unfolding dir_wf_def
    by (simp add: sl s_def [symmetric] del: slot_set) (simp add: s_def m(2,3) split: if_splits)
  have ac: "page_is_user_accessible (addr_of_page 1) 0x40000000 s" by (simp add: accessible_leaf sl lf ix del: One_nat_def)
  have inv: "pmm_inv (pg_pmm s)" by (simp add: s_def m)
  have q: "768 = pmm_page (leaf 1 0x40000000 s)" by (simp add: lf pg del: One_nat_def)
  have tb: "\<forall>i < 1024. present (slot 1 i s) \<longrightarrow> pmm_page (slot 1 i s) \<noteq> 768" by (simp add: sl del: One_nat_def)
  obtain s1 where s1: "unmap_user_page (addr_of_page 1) 0x40000000 s = Some (True, s1)"
    and r: "\<forall>w. resolve_user_phys (addr_of_page 1) w s1 = (if pmm_page w = pmm_page 0x40000000 then 0 else resolve_user_phys (addr_of_page 1) w s)"
    using unmap_user_page_correct [OF wf inv q _ _ _ tb] ac by auto
  have "resolve_user_phys (addr_of_page 1) 0x40000000 s1 = 0" using spec [OF r, of USER_VADDR_MIN] by simp
  with s1 ac show ?thesis by blast
qed

section \<open>What the range check accepts\<close>

lemma accessible_same_page:
  assumes "pmm_page a = pmm_page b"
  shows "page_is_user_accessible pd a s = page_is_user_accessible pd b s"
proof -
  have "pd_index a = pd_index b" "pt_index a = pt_index b" using assms same_page_indices by blast+
  then show ?thesis by (simp add: page_is_user_accessible_def Let_def)
qed

lemma user_range_bounds:
  assumes "is_user_range start sz"
  shows "start \<le> start + sz - 1" "unat (start + sz - 1) \<le> 0xBFFFFFFF"
  using assms unfolding is_user_range_def by (auto simp: Let_def word_le_nat_alt word_less_nat_alt split: if_splits)

lemma range_accessible_iff:
  "is_user_range_accessible pd start sz s \<longleftrightarrow> is_user_range start sz \<and> pd AND PAGE_MASK \<noteq> 0 \<and>
     (\<forall>q \<in> {pmm_page start..max (pmm_page start) ((unat (start + sz - 1) + 4095) div 4096)}.
        page_is_user_accessible (pd AND PAGE_MASK) (addr_of_page q) s)"
proof (cases "is_user_range start sz")
  case True
  note B = user_range_bounds [OF True]
  have "unat start \<le> unat (start + sz - 1)" using B(1) by (simp add: word_le_nat_alt)
  with B(2) have "pmm_page start * PAGE_SIZE \<le> 0xBFFFFFFF" unfolding pmm_page_def by linarith
  then show ?thesis using True B(2) accessible_loop_iff [of "pmm_page start" "start + sz - 1" "pd AND PAGE_MASK" s]
    by (simp add: is_user_range_accessible_def Let_def mask_addr [of start] addr_of_page_def del: of_nat_mult)
qed (simp add: is_user_range_accessible_def Let_def)

lemma page_round_up: "n mod 4096 \<noteq> 0 \<Longrightarrow> (n + 4095) div 4096 = n div 4096 + 1" for n :: nat
proof -
  assume r: "n mod 4096 \<noteq> 0"
  have "n + 4095 = (n mod 4096 - 1) + (n div 4096 + 1) * 4096" using r by (simp add: algebra_simps)
  moreover have "n mod 4096 - 1 < 4096" using mod_less_divisor [of 4096 n] by linarith
  ultimately show ?thesis by (simp only: div_mult_self1 div_less)
qed

text \<open>
  C17. The check of a user buffer (\<open>is_user_range_accessible\<close>) is sound: when it accepts, the buffer lies in the user half of the address space without wrapping, and user mode may access the page of each of
  its bytes. It is too strict by one page: unless the last byte is the first of its page, the page after the last one is tested as well, and when
  user mode may not access that page the buffer is rejected.
\<close>

theorem user_range_check:
  assumes "e = start + sz - 1"
  shows "(is_user_range_accessible pd start sz s \<longrightarrow>
      start \<le> e \<and> USER_VADDR_MIN \<le> start \<and> e \<le> USER_VADDR_MAX \<and>
      (\<forall>a. start \<le> a \<and> a \<le> e \<longrightarrow> page_is_user_accessible (pd AND PAGE_MASK) a s)) \<and>
    (unat e mod 4096 \<noteq> 0 \<and> \<not> page_is_user_accessible (pd AND PAGE_MASK) (addr_of_page (pmm_page e + 1)) s \<longrightarrow>
      \<not> is_user_range_accessible pd start sz s)"
proof (intro conjI impI allI)
  assume acc: "is_user_range_accessible pd start sz s"
  then have r: "is_user_range start sz" by (simp add: range_accessible_iff)
  show "start \<le> e" using user_range_bounds(1) [OF r] assms by simp
  show "USER_VADDR_MIN \<le> start" "e \<le> USER_VADDR_MAX" using r assms unfolding is_user_range_def by (auto simp: Let_def split: if_splits)
  fix a assume a: "start \<le> a \<and> a \<le> e"
  then have "pmm_page start \<le> pmm_page a" "pmm_page a \<le> (unat e + 4095) div 4096"
    unfolding pmm_page_def word_le_nat_alt by (auto intro!: div_le_mono)
  then have "page_is_user_accessible (pd AND PAGE_MASK) (addr_of_page (pmm_page a)) s"
    using acc assms by (simp add: range_accessible_iff le_max_iff_disj)
  moreover have "pmm_page (addr_of_page (pmm_page a)) = pmm_page a"
  proof -
    have "pmm_page (a AND PAGE_MASK) = pmm_page a" using pmm_page_or [of 0 a] by simp
    then show ?thesis unfolding mask_addr .
  qed
  ultimately show "page_is_user_accessible (pd AND PAGE_MASK) a s" using accessible_same_page by blast
next
  assume n: "unat e mod 4096 \<noteq> 0 \<and> \<not> page_is_user_accessible (pd AND PAGE_MASK) (addr_of_page (pmm_page e + 1)) s"
  show "\<not> is_user_range_accessible pd start sz s"
  proof
    assume acc: "is_user_range_accessible pd start sz s"
    then have "unat start \<le> unat e" using user_range_bounds(1) [of start sz] assms by (simp add: range_accessible_iff word_le_nat_alt)
    then have "pmm_page start \<le> pmm_page e" unfolding pmm_page_def by (rule div_le_mono)
    moreover have "(unat e + 4095) div 4096 = pmm_page e + 1" unfolding pmm_page_def using n page_round_up by simp
    ultimately have "pmm_page e + 1 \<in> {pmm_page start..max (pmm_page start) ((unat e + 4095) div 4096)}" by simp
    then show False using acc n assms unfolding range_accessible_iff by blast
  qed
qed

theorem user_range_check_witness:
  "is_user_range_accessible 0x1000 0x40000010 16 ((blank_machine pmm_boot)\<lparr>pg_mem := \<lambda>_. 7\<rparr>) \<and>
   page_is_user_accessible 0x1000 0x40000015 ((blank_machine pmm_boot)\<lparr>pg_mem := \<lambda>_. 7\<rparr>)"
proof -
  let ?s = "(blank_machine pmm_boot)\<lparr>pg_mem := \<lambda>_. 7\<rparr>"
  have A: "page_is_user_accessible 0x1000 a ?s" for a
    by (simp add: page_is_user_accessible_def rd_def present_def user_bit_def)
  have "is_user_range 0x40000010 16" by (simp add: is_user_range_def)
  then have B: "is_user_range_accessible 0x1000 0x40000010 16 ?s" using A by (simp add: range_accessible_iff)
  moreover have "page_is_user_accessible (0x1000 AND PAGE_MASK) 0x40000015 ?s"
    using user_range_check [of "0x4000001F" "0x40000010" 16 "0x1000" ?s] B by simp
  ultimately show ?thesis by simp
qed

end
