(* ===== verification/PagingClone.thy ===== *)
theory PagingClone
  imports PagingCorrect
begin

text \<open>
  Duplication of an address space (\<open>clone_user_address_space\<close>): the copy has the same accessible pages with the same contents, in
  frames that nobody used before, and the original is untouched.
\<close>

section \<open>Frames\<close>

text \<open>Outside the pages \<open>X\<close>, memory is the same in both states.\<close>

definition frame :: "nat set \<Rightarrow> paging \<Rightarrow> paging \<Rightarrow> bool" where
  "frame X s t \<longleftrightarrow> (\<forall>p < PMM_PAGES. p \<notin> X \<longrightarrow> (\<forall>i < 1024. slot p i t = slot p i s))"

lemma frameD: "frame X s t \<Longrightarrow> p < PMM_PAGES \<Longrightarrow> p \<notin> X \<Longrightarrow> i < 1024 \<Longrightarrow> slot p i t = slot p i s"
  by (simp add: frame_def)

lemma frame_refl: "frame X s s"
  by (simp add: frame_def)

lemma frame_trans: "frame X s t \<Longrightarrow> frame Y t u \<Longrightarrow> X \<subseteq> Z \<Longrightarrow> Y \<subseteq> Z \<Longrightarrow> frame Z s u"
  unfolding frame_def by (metis subsetD)

lemma frame_set_slot: "p < PMM_PAGES \<Longrightarrow> i < 1024 \<Longrightarrow> p \<in> X \<Longrightarrow> frame X s (set_slot p i v s)"
  by (auto simp: frame_def)

lemma frame_zero_table: "p < PMM_PAGES \<Longrightarrow> p \<in> X \<Longrightarrow> frame X s (zero_table (addr_of_page p) s)"
  by (auto simp: frame_def)

section \<open>Copying one page through the windows\<close>

text \<open>The kernel directory \<open>k\<close> and the active directory \<open>c\<close> share the table \<open>t\<close> that holds the two windows.\<close>

definition window :: "nat \<Rightarrow> nat \<Rightarrow> nat \<Rightarrow> paging \<Rightarrow> bool" where
  "window k c t s \<longleftrightarrow> pmm_inv (pg_pmm s) \<and> page_directory s = addr_of_page k \<and> pg_cr3 s = addr_of_page c \<and>
     {k, c, t} \<subseteq> pages_used (pg_pmm s) \<and> t \<noteq> k \<and> t \<noteq> c \<and>
     present (slot k 255 s) \<and> pmm_page (slot k 255 s) = t \<and> present (slot c 255 s) \<and> pmm_page (slot c 255 s) = t"

lemma window_facts:
  assumes "window k c t s"
  shows "k < PMM_PAGES" "c < PMM_PAGES" "t < PMM_PAGES" "t \<noteq> k" "t \<noteq> c" "page_directory s = addr_of_page k" "pg_cr3 s = addr_of_page c"
    "present (slot k 255 s)" "pmm_page (slot k 255 s) = t" "present (slot c 255 s)" "pmm_page (slot c 255 s) = t" "pmm_inv (pg_pmm s)"
    "k \<in> pages_used (pg_pmm s)" "c \<in> pages_used (pg_pmm s)" "t \<in> pages_used (pg_pmm s)"
  using assms by (auto simp: window_def used_less)

lemma window_frame:
  assumes "window k c t s" "frame X s s1" "k \<notin> X" "c \<notin> X" "pg_pmm s1 = pg_pmm s" "page_directory s1 = page_directory s" "pg_cr3 s1 = pg_cr3 s"
  shows "window k c t s1"
  using assms frameD [OF assms(2), of k 255] frameD [OF assms(2), of c 255] window_facts [OF assms(1)] by (simp add: window_def)

lemma window_indices:
  "pd_index KERNEL_TEMP_MAP_VA = 255" "pt_index KERNEL_TEMP_MAP_VA = 768" "pd_index KERNEL_TEMP_MAP_VA2 = 255" "pt_index KERNEL_TEMP_MAP_VA2 = 767"
  by (simp_all add: pd_index_def pt_index_def)

abbreviation kernel_entry :: "nat \<Rightarrow> u32" where
  "kernel_entry p \<equiv> (addr_of_page p AND PAGE_MASK) OR 3"

lemma kernel_entry_simps: "p < PMM_PAGES \<Longrightarrow> present (kernel_entry p)" "p < PMM_PAGES \<Longrightarrow> pmm_page (kernel_entry p) = p"
  using pmm_page_or [of 3 "addr_of_page p"] by (simp_all add: present_bit bit_0 even_or_iff)

lemma map_page_window:
  assumes "window k c t s" "pd_index va = 255"
  shows "map_page (addr_of_page p) va s = Some (set_slot t (pt_index va) (kernel_entry p) s)"
proof -
  note W = window_facts [OF assms(1)]
  have "\<not> rd (ent (addr_of_page k) 255) s AND 1 = 0" using W(8) by (simp add: present_def slot_def)
  moreover have "rd (ent (addr_of_page k) 255) s AND PAGE_MASK = addr_of_page t" using W(9) by (simp add: mask_addr slot_def)
  ultimately show ?thesis using W(6) assms(2) by (simp add: map_page_def map_page_flags_def Let_def set_slot_def)
qed

lemma unmap_page_window:
  assumes "window k c t s" "pd_index va = 255"
  shows "unmap_kernel_page va s = set_slot t (pt_index va) 0 s"
  using window_facts [OF assms(1)] assms(2) by (simp add: unmap_kernel_page_def Let_def set_slot_def mask_addr flip: slot_def)

lemma window_address:
  assumes "i < 1024" "unat va mod 4096 = 0" "unat va + 4096 < 2 ^ 32"
  shows "pmm_page (va + 4 * i) = pmm_page va" "(va + 4 * i) AND 0xFFF = 4 * i"
proof -
  have i: "unat i < 1024" using assms(1) by (simp add: word_less_nat_alt)
  then have 4: "unat (4 * i) = 4 * unat i" by (simp add: unat_word_ariths(2))
  have u: "unat (va + 4 * i) = unat va + 4 * unat i" using i 4 assms(3) by (subst unat_add_small) simp_all
  obtain k where v: "unat va = k * 4096" using assms(2) by (metis dvdE mod_0_imp_dvd mult.commute)
  show "pmm_page (va + 4 * i) = pmm_page va" unfolding pmm_page_def u v using i by simp
  have "(va + 4 * i) AND 0xFFF = take_bit 12 (va + 4 * i)" by (simp add: take_bit_eq_mask mask_eq_exp_minus_1)
  moreover have "unat (take_bit 12 (va + 4 * i)) = 4 * unat i"
    using u v i by (simp add: unsigned_take_bit_eq take_bit_eq_mod [where 'a = nat])
  ultimately show "(va + 4 * i) AND 0xFFF = 4 * i" using 4 by (simp add: word_unat_eq_iff)
qed

lemma ent_or: "p < PMM_PAGES \<Longrightarrow> i < 1024 \<Longrightarrow> addr_of_page p OR (4 * i) = ent (addr_of_page p) i"
proof -
  assume p: "p < PMM_PAGES" and i: "i < 1024"
  have "take_bit 12 (4 * i) = 4 * i" using window_address(2) [of i 0] i by (simp add: take_bit_eq_mask mask_eq_exp_minus_1)
  then have b: "bit (4 * i) n \<Longrightarrow> n < 12" for n by (metis bit_take_bit_iff)
  have "\<not> bit (addr_of_page p) n" if "n < 12" for n
    using that dir_addr [OF p] unfolding page_mask by (metis bit_and_iff bit_mask_iff bit_not_iff)
  then have "addr_of_page p AND (4 * i) = 0" by (intro bit_eqI) (auto simp: bit_and_iff dest: b)
  then show ?thesis unfolding ent_def by (simp add: disjunctive_add_eq_or)
qed

lemma mmu_window:
  assumes "window k c t s" "p < PMM_PAGES" "i < 1024" "slot t (pt_index va) s = kernel_entry p" "pd_index va = 255"
    "unat va mod 4096 = 0" "unat va + 4096 < 2 ^ 32"
  shows "mmu (va + 4 * i) s = Some (ent (addr_of_page p) i)"
proof -
  note W = window_facts [OF assms(1)] and A = window_address [OF assms(3,6,7)] and K = kernel_entry_simps [OF assms(2)]
  have ix: "pd_index (va + 4 * i) = 255" "pt_index (va + 4 * i) = pt_index va"
    using A(1) same_page_indices [of "va + 4 * i" va] assms(5) by auto
  have c: "pg_cr3 s AND PAGE_MASK = addr_of_page c" using W(2,7) by (simp add: dir_addr)
  have t: "rd (ent (addr_of_page c) 255) s AND PAGE_MASK = addr_of_page t" using W(11) by (simp add: mask_addr slot_def)
  have pt: "rd (ent (addr_of_page t) (pt_index va)) s = kernel_entry p" using assms(4) by (simp add: slot_def)
  have "mmu (va + 4 * i) s = Some ((kernel_entry p AND PAGE_MASK) OR (4 * i))"
    using W(10) K(1) unfolding mmu_def Let_def ix c t pt A(2) by (simp add: slot_def)
  then show ?thesis using ent_or [OF assms(2,3)] K(2) by (simp only: mask_addr)
qed

text \<open>The copy loop writes the words of the source page one after the other.\<close>

lemma copy_words:
  assumes "window k c t s" "p < PMM_PAGES" "q < PMM_PAGES" "q \<noteq> t" "q \<noteq> k" "q \<noteq> c" "q \<noteq> p"
    and "slot t 768 s = kernel_entry p" "slot t 767 s = kernel_entry q" "set xs \<subseteq> {i. i < 1024}"
  shows "for_each copy_word xs s = Some (fold (\<lambda>i. wr (ent (addr_of_page q) i) (slot p i s)) xs s)"
  using assms(1,8,9,10)
proof (induction xs arbitrary: s)
  case (Cons i js)
  note W = window_facts [OF Cons.prems(1)]
  have i: "i < 1024" "set js \<subseteq> {i. i < 1024}" using Cons.prems(4) by auto
  let ?s = "set_slot q i (slot p i s) s"
  have "mmu (KERNEL_TEMP_MAP_VA + 4 * i) s = Some (ent (addr_of_page p) i)"
    "mmu (KERNEL_TEMP_MAP_VA2 + 4 * i) s = Some (ent (addr_of_page q) i)"
    using mmu_window [OF Cons.prems(1) assms(2) i(1), of KERNEL_TEMP_MAP_VA] mmu_window [OF Cons.prems(1) assms(3) i(1), of KERNEL_TEMP_MAP_VA2]
      Cons.prems(2,3) window_indices by simp_all
  then have st: "copy_word i s = Some ?s" by (simp add: copy_word_def set_slot_def slot_def)
  have f: "frame {q} s ?s" using frame_set_slot [OF assms(3) i(1)] by simp
  have "window k c t ?s" by (rule window_frame [OF Cons.prems(1) f]) (use assms in simp_all)
  moreover have "slot t 768 ?s = kernel_entry p" "slot t 767 ?s = kernel_entry q"
    using Cons.prems(2,3) W(3) assms(3,4) i(1) by simp_all
  ultimately have "for_each copy_word js ?s = Some (fold (\<lambda>i. wr (ent (addr_of_page q) i) (slot p i ?s)) js ?s)"
    by (rule Cons.IH [OF _ _ _ i(2)])
  moreover have "slot p j ?s = slot p j s" if "j \<in> set js" for j
    using that i assms(2,3,7) by auto
  then have "fold (\<lambda>i. wr (ent (addr_of_page q) i) (slot p i ?s)) js ?s = fold (\<lambda>i. wr (ent (addr_of_page q) i) (slot p i s)) js ?s"
    by (intro fold_cong) simp_all
  ultimately show ?case using st by (simp add: set_slot_def)
qed simp

lemma copy_user_page_spec:
  assumes "window k c t s" "p < PMM_PAGES" "q < PMM_PAGES" "q \<noteq> t" "q \<noteq> k" "q \<noteq> c" "q \<noteq> p" "p \<noteq> t"
  obtains s1 where "copy_user_page (addr_of_page p) (addr_of_page q) s = Some s1" "frame {t, q} s s1" "window k c t s1"
    "pg_pmm s1 = pg_pmm s" "\<And>i. i < 1024 \<Longrightarrow> slot q i s1 = slot p i s"
proof -
  note W = window_facts [OF assms(1)]
  define s1 where "s1 = set_slot t 768 (kernel_entry p) s"
  define s2 where "s2 = set_slot t 767 (kernel_entry q) s1"
  define s3 where "s3 = fold (\<lambda>i. wr (ent (addr_of_page q) i) (slot p i s2)) table_indices s2"
  define s4 where "s4 = set_slot t 767 0 (set_slot t 768 0 s3)"
  have win: "window k c t (set_slot t i v u)" if "window k c t u" "i < 1024" for i v u
    by (rule window_frame [OF that(1) frame_set_slot [of t i "{t}"]]) (use that W in auto)
  have w1: "window k c t s1" using win [OF assms(1)] by (simp add: s1_def)
  have w2: "window k c t s2" using win [OF w1] by (simp add: s2_def)
  have f3: "frame {q} s2 s3" using fill_table assms(3) by (simp add: frame_def s3_def)
  have w3: "window k c t s3" by (rule window_frame [OF w2 f3]) (use assms in \<open>simp_all add: s3_def\<close>)
  have w4: "window k c t s4" using win [OF win [OF w3]] by (simp add: s4_def)
  have m1: "map_page (addr_of_page p) KERNEL_TEMP_MAP_VA s = Some s1"
    using map_page_window [OF assms(1), of KERNEL_TEMP_MAP_VA p] window_indices by (simp add: s1_def)
  have m2: "map_page (addr_of_page q) KERNEL_TEMP_MAP_VA2 s1 = Some s2"
    using map_page_window [OF w1, of KERNEL_TEMP_MAP_VA2 q] window_indices by (simp add: s2_def)
  have m3: "for_each copy_word table_indices s2 = Some s3"
    unfolding s3_def by (rule copy_words [OF w2 assms(2-7)]) (use W in \<open>simp_all add: s2_def s1_def set_table_indices\<close>)
  have m4: "unmap_kernel_page KERNEL_TEMP_MAP_VA2 (unmap_kernel_page KERNEL_TEMP_MAP_VA s3) = s4"
    using unmap_page_window [OF w3, of KERNEL_TEMP_MAP_VA] unmap_page_window [OF win [OF w3, of 768 0], of KERNEL_TEMP_MAP_VA2] window_indices
    by (simp add: s4_def)
  have e: "copy_user_page (addr_of_page p) (addr_of_page q) s = Some s4" using m1 m2 m3 m4 by (simp add: copy_user_page_def)
  have fr: "frame {t, q} s s4" using W(3) f3 by (auto simp: frame_def s4_def s2_def s1_def)
  have "slot q i s4 = slot p i s" if "i < 1024" for i
    using that assms W(3) fill_table [OF assms(3,3) that] by (simp add: s4_def s3_def) (simp add: s2_def s1_def)
  then show thesis by (intro that [OF e fr w4]) (simp_all add: s4_def s3_def s2_def s1_def)
qed

section \<open>One table\<close>

abbreviation used :: "paging \<Rightarrow> nat set" where
  "used s \<equiv> pages_used (pg_pmm s)"

definition user_ent :: "u32 \<Rightarrow> bool" where
  "user_ent e \<longleftrightarrow> present e \<and> user_bit e"

lemma user_ent_simps [simp]: "user_ent (user_entry a)" "\<not> user_ent 0"
  by (simp_all add: user_ent_def)

lemma finite_used [simp]: "finite (used s)"
  by (simp add: pages_used_def)

lemma alloc_room:
  assumes "pmm_inv (pg_pmm s)" "card (used s) < PMM_PAGES"
  obtains q m where "q < PMM_PAGES" "q \<notin> used s" "addr_of_page q \<noteq> 0" "alloc_page s = Some (addr_of_page q, s\<lparr>pg_pmm := m\<rparr>)"
    "pmm_inv m" "pages_used m = insert q (used s)"
proof (rule alloc_page_cases [OF assms(1)], goal_cases)
  case (1 m)
  then show thesis using assms(2) by (simp only: card_lessThan)
qed (use that in blast)

text \<open>The page of every user entry of the table \<open>a\<close> is in use and is neither the window table nor \<open>b\<close>.\<close>

definition row_ok :: "nat \<Rightarrow> nat \<Rightarrow> nat \<Rightarrow> u32 list \<Rightarrow> paging \<Rightarrow> bool" where
  "row_ok t b a js s \<longleftrightarrow> (\<forall>j \<in> set js. user_ent (slot a j s) \<longrightarrow>
     pmm_page (slot a j s) \<in> used s \<and> pmm_page (slot a j s) \<noteq> t \<and> pmm_page (slot a j s) \<noteq> b)"

definition row_need :: "nat \<Rightarrow> u32 list \<Rightarrow> paging \<Rightarrow> nat" where
  "row_need a js s = length (filter (\<lambda>j. user_ent (slot a j s)) js)"

text \<open>
  The entries \<open>js\<close> of table \<open>a\<close> in state \<open>s\<close> have been copied to table \<open>b\<close> in state \<open>u\<close>: into pages that were not in use, all different, with the
  same contents; entries without a user page are as before.
\<close>

definition row_copied :: "nat \<Rightarrow> nat \<Rightarrow> u32 list \<Rightarrow> paging \<Rightarrow> paging \<Rightarrow> bool" where
  "row_copied a b js s u \<longleftrightarrow>
     (\<forall>j \<in> set js. user_ent (slot a j s) \<longrightarrow> user_ent (slot b j u) \<and> pmm_page (slot b j u) \<in> used u - used s \<and>
        (\<forall>w < 1024. slot (pmm_page (slot b j u)) w u = slot (pmm_page (slot a j s)) w s)) \<and>
     (\<forall>j \<in> set js. \<forall>l \<in> set js. user_ent (slot a j s) \<and> user_ent (slot a l s) \<and>
        pmm_page (slot b j u) = pmm_page (slot b l u) \<longrightarrow> j = l) \<and>
     (\<forall>j < 1024. j \<notin> set js \<or> \<not> user_ent (slot a j s) \<longrightarrow> slot b j u = slot b j s)"

lemma clone_pte_skip: "\<not> user_ent (slot a j s) \<Longrightarrow> clone_pte (addr_of_page a) (addr_of_page b) j s = Some (True, s)"
  by (auto simp: clone_pte_def Let_def user_ent_def slot_def)

lemma clone_pte_copy:
  assumes "window k c t s" "b \<in> used s" "b \<notin> {t, k, c}" "j < 1024" "user_ent (slot a j s)" "card (used s) < PMM_PAGES"
    and "p = pmm_page (slot a j s)" "p \<in> used s" "p \<noteq> t" "p \<noteq> b"
  obtains q u where "clone_pte (addr_of_page a) (addr_of_page b) j s = Some (True, u)" "window k c t u" "q \<notin> used s" "q < PMM_PAGES"
    "used u = insert q (used s)" "frame {t, b, q} s u" "slot b j u = user_entry (addr_of_page q)"
    "\<And>l. l < 1024 \<Longrightarrow> l \<noteq> j \<Longrightarrow> slot b l u = slot b l s" "\<And>w. w < 1024 \<Longrightarrow> slot q w u = slot p w s"
proof -
  note W = window_facts [OF assms(1)]
  obtain q m where q: "q < PMM_PAGES" "q \<notin> used s" "addr_of_page q \<noteq> 0" "alloc_page s = Some (addr_of_page q, s\<lparr>pg_pmm := m\<rparr>)"
    "pmm_inv m" "pages_used m = insert q (used s)" by (rule alloc_room [OF W(12) assms(6)])
  have w1: "window k c t (s\<lparr>pg_pmm := m\<rparr>)" using assms(1) q(5,6) by (auto simp: window_def)
  have ne: "q \<noteq> t" "q \<noteq> k" "q \<noteq> c" "q \<noteq> p" "q \<noteq> b" using q(2) W(13-15) assms(2,8) by auto
  have lt: "p < PMM_PAGES" "b < PMM_PAGES" using assms(2,8) used_less by auto
  obtain s2 where s2: "copy_user_page (addr_of_page p) (addr_of_page q) (s\<lparr>pg_pmm := m\<rparr>) = Some s2" "frame {t, q} (s\<lparr>pg_pmm := m\<rparr>) s2"
    "window k c t s2" "pg_pmm s2 = m" "\<And>i. i < 1024 \<Longrightarrow> slot q i s2 = slot p i s"
    using copy_user_page_spec [OF w1 lt(1) q(1) ne(1-4) assms(9)] by auto
  let ?u = "set_slot b j (user_entry (addr_of_page q)) s2"
  have e: "clone_pte (addr_of_page a) (addr_of_page b) j s = Some (True, ?u)"
    using assms(5,7) q(3,4) s2(1)
    by (simp add: clone_pte_def Let_def user_ent_def mask_addr slot_def set_slot_def user_entry_def q(1))
  have w: "window k c t ?u" by (rule window_frame [OF s2(3) frame_set_slot [OF lt(2) assms(4), of "{b}"]]) (use assms(3) in auto)
  have f: "frame {t, b, q} s ?u" using s2(2) lt(2) assms(4) by (auto simp: frame_def)
  have o: "slot b l ?u = slot b l s" if "l < 1024" "l \<noteq> j" for l
    using that lt(2) assms(3,4) frameD [OF s2(2) lt(2), of l] ne(5) by simp
  show thesis
    by (rule that [OF e w q(2,1) _ f _ o]) (use q(1,6) s2(4,5) lt assms(4) ne(5) in simp_all)
qed

lemma row_copied_step:
  assumes "frame ({t, b} \<union> (used u - used s1)) s1 u" "frame {t, b, q} s s1" "row_copied a b js s1 u" "row_ok t b a (j # js) s"
    and "used s1 = insert q (used s)" "used s1 \<subseteq> used u" "q \<notin> used s" "a \<in> used s" "a \<noteq> t" "a \<noteq> b" "b \<in> used s" "q \<noteq> t"
    and "j \<notin> set js" "j < 1024" "set js \<subseteq> {i. i < 1024}" "user_ent (slot a j s)"
    and "slot b j s1 = user_entry (addr_of_page q)" "q < PMM_PAGES" "\<And>l. l < 1024 \<Longrightarrow> l \<noteq> j \<Longrightarrow> slot b l s1 = slot b l s"
    and "\<And>w. w < 1024 \<Longrightarrow> slot q w s1 = slot (pmm_page (slot a j s)) w s"
  shows "row_copied a b (j # js) s u"
proof -
  note C = assms(3) [unfolded row_copied_def]
  have sa: "slot a l s1 = slot a l s" if "l < 1024" for l
    using frameD [OF assms(2) used_less [OF assms(8)] _ that] assms(7-10) by auto
  have bj: "slot b j u = user_entry (addr_of_page q)" using C assms(13,14,17) by simp
  then have pj: "pmm_page (slot b j u) = q" using assms(18) by simp
  have qb: "q \<noteq> b" "q \<in> used s1" using assms(5,7,11) by auto
  have qu: "slot q w u = slot (pmm_page (slot a j s)) w s" if "w < 1024" for w
    using frameD [OF assms(1,18) _ that] assms(12,20) qb that by auto
  have cont: "slot (pmm_page (slot a l s)) w s1 = slot (pmm_page (slot a l s)) w s"
    if "l \<in> set js" "user_ent (slot a l s)" "w < 1024" for l w
    using frameD [OF assms(2) _ _ that(3), of "pmm_page (slot a l s)"] assms(4,7) that(1,2) used_less by (auto simp: row_ok_def)
  have js: "l < 1024" if "l \<in> set js" for l using that assms(15) by auto
  have fresh: "pmm_page (slot b l u) \<noteq> q" if "l \<in> set js" "user_ent (slot a l s)" for l
    using C that sa [OF js [OF that(1)]] qb(2) by auto
  show ?thesis unfolding row_copied_def
  proof (intro conjI ballI allI impI)
    fix l assume l: "l \<in> set (j # js)" "user_ent (slot a l s)"
    show "user_ent (slot b l u)" using l bj C sa [OF js] by auto
    show "pmm_page (slot b l u) \<in> used u - used s" using l pj C sa [OF js] qb(2) assms(5-7) by auto
    show "slot (pmm_page (slot b l u)) w u = slot (pmm_page (slot a l s)) w s" if "w < 1024" for w
      using l pj C sa [OF js] qu [OF that] cont that by auto
  next
    fix l n assume "l \<in> set (j # js)" "n \<in> set (j # js)"
      "user_ent (slot a l s) \<and> user_ent (slot a n s) \<and> pmm_page (slot b l u) = pmm_page (slot b n u)"
    then show "l = n" using pj fresh C sa [OF js] by (metis set_ConsD)
  next
    fix l assume l: "l < 1024" "l \<notin> set (j # js) \<or> \<not> user_ent (slot a l s)"
    then have "l \<noteq> j" using assms(16) by auto
    then show "slot b l u = slot b l s" using l C assms(19) sa by auto
  qed
qed

lemma clone_row:
  assumes "window k c t s" "a \<in> used s" "b \<in> used s" "a \<noteq> t" "b \<notin> {t, k, c}" "a \<noteq> b" "distinct js" "set js \<subseteq> {i. i < 1024}"
    and "row_ok t b a js s" "card (used s) + row_need a js s \<le> PMM_PAGES"
  shows "\<exists>u. for_until_fail (clone_pte (addr_of_page a) (addr_of_page b)) js s = Some (True, u) \<and> window k c t u \<and> used s \<subseteq> used u \<and>
    card (used u) = card (used s) + row_need a js s \<and> frame ({t, b} \<union> (used u - used s)) s u \<and> row_copied a b js s u"
  using assms
proof (induction js arbitrary: s)
  case Nil
  then show ?case by (auto simp: row_need_def frame_refl row_copied_def)
next
  case (Cons j js)
  note P = Cons.prems
  have j: "j < 1024" "j \<notin> set js" "distinct js" "set js \<subseteq> {i. i < 1024}" using P(7,8) by auto
  show ?case
  proof (cases "user_ent (slot a j s)")
    case False
    have ok: "row_ok t b a js s" "row_need a (j # js) s = row_need a js s" using P(9) False by (simp_all add: row_ok_def row_need_def)
    obtain u where u: "for_until_fail (clone_pte (addr_of_page a) (addr_of_page b)) js s = Some (True, u)" "window k c t u" "used s \<subseteq> used u"
      "card (used u) = card (used s) + row_need a js s" "frame ({t, b} \<union> (used u - used s)) s u" "row_copied a b js s u"
      using Cons.IH [OF P(1-6) j(3,4) ok(1)] P(10) ok(2) by auto
    have "row_copied a b (j # js) s u" using u(6) False by (auto simp: row_copied_def)
    with u show ?thesis using ok(2) clone_pte_skip [OF False, of b] by auto
  next
    case True
    have need: "row_need a (j # js) s = Suc (row_need a js s)" using True by (simp add: row_need_def)
    have pg: "pmm_page (slot a j s) \<in> used s" "pmm_page (slot a j s) \<noteq> t" "pmm_page (slot a j s) \<noteq> b" "card (used s) < PMM_PAGES"
      using P(9,10) True need by (simp_all add: row_ok_def)
    obtain q s1 where s1: "clone_pte (addr_of_page a) (addr_of_page b) j s = Some (True, s1)" "window k c t s1" "q \<notin> used s" "q < PMM_PAGES"
      "used s1 = insert q (used s)" "frame {t, b, q} s s1" "slot b j s1 = user_entry (addr_of_page q)"
      "\<And>l. l < 1024 \<Longrightarrow> l \<noteq> j \<Longrightarrow> slot b l s1 = slot b l s"
      "\<And>w. w < 1024 \<Longrightarrow> slot q w s1 = slot (pmm_page (slot a j s)) w s"
      using clone_pte_copy [OF P(1,3,5) j(1) True pg(4) refl pg(1-3)] by metis
    have sa: "slot a l s1 = slot a l s" if "l < 1024" for l
      using frameD [OF s1(6) used_less [OF P(2)] _ that] s1(3) P(2,4,6) by auto
    then have sj: "slot a l s1 = slot a l s" if "l \<in> set js" for l using that j(4) by blast
    have ok: "row_ok t b a js s1" using P(9) sj s1(5) by (simp add: row_ok_def)
    have nd: "row_need a js s1 = row_need a js s" unfolding row_need_def by (simp add: sj cong: filter_cong)
    have cd: "card (used s1) = Suc (card (used s))" using s1(3,5) by simp
    obtain u where u: "for_until_fail (clone_pte (addr_of_page a) (addr_of_page b)) js s1 = Some (True, u)" "window k c t u" "used s1 \<subseteq> used u"
      "card (used u) = card (used s1) + row_need a js s1" "frame ({t, b} \<union> (used u - used s1)) s1 u" "row_copied a b js s1 u"
      using Cons.IH [OF s1(2) _ _ P(4-6) j(3,4) ok] P(2,3,10) s1(5) nd need cd by auto
    have qt: "q \<noteq> t" using window_facts(15) [OF P(1)] s1(3) by auto
    have rc: "row_copied a b (j # js) s u"
      by (rule row_copied_step [OF u(5) s1(6) u(6) P(9) s1(5) u(3) s1(3) P(2,4,6,3) qt j(2,1,4) True s1(7,4) s1(8,9)])
    have "frame ({t, b} \<union> (used u - used s)) s u" by (rule frame_trans [OF s1(6) u(5)]) (use s1(3,5) u(3) in auto)
    then show ?thesis using u rc s1(1,5) need nd cd by auto
  qed
qed

section \<open>The whole space\<close>

text \<open>Tables and pages of the user part of directory \<open>d\<close> are in use and none of the pages \<open>X\<close>.\<close>

definition space_ok :: "nat set \<Rightarrow> nat \<Rightarrow> u32 list \<Rightarrow> paging \<Rightarrow> bool" where
  "space_ok X d ks s \<longleftrightarrow> (\<forall>i \<in> set ks. user_ent (slot d i s) \<longrightarrow>
     pmm_page (slot d i s) \<in> used s - X \<and>
     (\<forall>j < 1024. user_ent (slot (pmm_page (slot d i s)) j s) \<longrightarrow> pmm_page (slot (pmm_page (slot d i s)) j s) \<in> used s - X))"

definition pde_need :: "nat \<Rightarrow> paging \<Rightarrow> u32 \<Rightarrow> nat" where
  "pde_need d s i = (if user_ent (slot d i s) then Suc (row_need (pmm_page (slot d i s)) table_indices s) else 0)"

definition dir_need :: "nat \<Rightarrow> u32 list \<Rightarrow> paging \<Rightarrow> nat" where
  "dir_need d ks s = sum_list (map (pde_need d s) ks)"

definition table_copied :: "nat \<Rightarrow> nat \<Rightarrow> paging \<Rightarrow> paging \<Rightarrow> bool" where
  "table_copied a b s u \<longleftrightarrow>
     (\<forall>j < 1024. (user_ent (slot a j s) \<longrightarrow> user_ent (slot b j u) \<and> pmm_page (slot b j u) \<in> used u - used s \<and>
        (\<forall>w < 1024. slot (pmm_page (slot b j u)) w u = slot (pmm_page (slot a j s)) w s)) \<and>
        (\<not> user_ent (slot a j s) \<longrightarrow> slot b j u = 0)) \<and>
     (\<forall>j < 1024. \<forall>l < 1024. user_ent (slot a j s) \<and> user_ent (slot a l s) \<and> pmm_page (slot b j u) = pmm_page (slot b l u) \<longrightarrow> j = l)"

lemma clone_pde_skip: "\<not> user_ent (slot d i s) \<Longrightarrow> clone_pde (addr_of_page d) (addr_of_page D) i s = Some (True, s)"
  by (auto simp: clone_pde_def Let_def user_ent_def slot_def)

lemma clone_pde_copy:
  assumes "window k c t s" "D \<in> used s" "D \<notin> {t, k, c}" "i < 1024" "user_ent (slot d i s)" "a = pmm_page (slot d i s)"
    and "space_ok {t, D} d [i] s" "card (used s) + pde_need d s i \<le> PMM_PAGES"
  obtains b u where "clone_pde (addr_of_page d) (addr_of_page D) i s = Some (True, u)" "window k c t u" "used s \<subseteq> used u"
    "card (used u) = card (used s) + pde_need d s i" "frame ({t, D} \<union> (used u - used s)) s u" "b \<in> used u - used s"
    "slot D i u = user_entry (addr_of_page b)" "\<And>l. l < 1024 \<Longrightarrow> l \<noteq> i \<Longrightarrow> slot D l u = slot D l s" "table_copied a b s u"
    "\<And>j. j < 1024 \<Longrightarrow> user_ent (slot a j s) \<Longrightarrow> pmm_page (slot b j u) \<noteq> b"
proof -
  note W = window_facts [OF assms(1)]
  have a: "a \<in> used s" "a \<noteq> t" "a \<noteq> D" using assms(5-7) by (auto simp: space_ok_def)
  have pg: "pmm_page (slot a j s) \<in> used s" "pmm_page (slot a j s) \<noteq> t" "pmm_page (slot a j s) \<noteq> D"
    if "j < 1024" "user_ent (slot a j s)" for j using assms(5-7) that by (auto simp: space_ok_def)
  have need: "pde_need d s i = Suc (row_need a table_indices s)" using assms(5,6) by (simp add: pde_need_def)
  obtain b m where b: "b < PMM_PAGES" "b \<notin> used s" "addr_of_page b \<noteq> 0" "alloc_page s = Some (addr_of_page b, s\<lparr>pg_pmm := m\<rparr>)"
    "pmm_inv m" "pages_used m = insert b (used s)" by (rule alloc_room [OF W(12)]) (use assms(8) need in simp)
  define s1 where "s1 = set_slot D i (user_entry (addr_of_page b)) (zero_table (addr_of_page b) (s\<lparr>pg_pmm := m\<rparr>))"
  have D: "D < PMM_PAGES" using assms(2) used_less by blast
  have ne: "b \<noteq> t" "b \<noteq> k" "b \<noteq> c" "b \<noteq> a" "b \<noteq> D" using b(2) W(13-15) assms(2) a(1) by auto
  have e: "clone_pde (addr_of_page d) (addr_of_page D) i s =
      for_until_fail (clone_pte (addr_of_page a) (addr_of_page b)) table_indices s1"
    using assms(5,6) b(1,3,4) by (simp add: clone_pde_def Let_def user_ent_def mask_addr slot_def set_slot_def user_entry_def s1_def)
  have sl: "slot p l s1 = (if p = D \<and> l = i then user_entry (addr_of_page b) else if p = b then 0 else slot p l s)"
    if "p < PMM_PAGES" "l < 1024" for p l using that b(1) D assms(4) by (simp add: s1_def)
  have u1: "used s1 = insert b (used s)" by (simp add: s1_def b(6))
  have w1: "window k c t s1" using assms(1,3) W b(5,6) ne sl [of k 255] sl [of c 255] by (auto simp: window_def s1_def)
  have sa: "slot a j s1 = slot a j s" if "j < 1024" for j using sl [of a j] that a ne used_less by auto
  have ok: "row_ok t b a table_indices s1" using pg sa u1 b(2) by (auto simp: row_ok_def set_table_indices)
  have nd: "row_need a table_indices s1 = row_need a table_indices s"
    unfolding row_need_def by (rule arg_cong [where f = length], rule filter_cong) (auto simp: sa set_table_indices)
  obtain u where u: "for_until_fail (clone_pte (addr_of_page a) (addr_of_page b)) table_indices s1 = Some (True, u)" "window k c t u"
    "used s1 \<subseteq> used u" "card (used u) = card (used s1) + row_need a table_indices s1" "frame ({t, b} \<union> (used u - used s1)) s1 u"
    "row_copied a b table_indices s1 u"
    using clone_row [OF w1 _ _ a(2) _ _ distinct_indices(1) _ ok] a(1) u1 ne nd need assms(8) b(2) by (auto simp: set_table_indices)
  have f1: "frame {D, b} s s1" using sl by (auto simp: frame_def)
  have fr: "frame ({t, D} \<union> (used u - used s)) s u" by (rule frame_trans [OF f1 u(5)]) (use u(3) u1 b(2) in auto)
  have Du: "slot D l u = slot D l s1" if "l < 1024" for l using frameD [OF u(5) D _ that] assms(2,3) ne(5) u1 by auto
  note R = u(6) [unfolded row_copied_def set_table_indices]
  have cont: "slot (pmm_page (slot a j s)) w s1 = slot (pmm_page (slot a j s)) w s" if "j < 1024" "user_ent (slot a j s)" "w < 1024" for j w
    using sl [of "pmm_page (slot a j s)" w] pg [OF that(1,2)] used_less that(3) b(2) by auto
  have tc: "table_copied a b s u" unfolding table_copied_def
  proof (intro conjI allI impI)
    fix j :: u32 assume j: "j < 1024"
    show "slot b j u = 0" if "\<not> user_ent (slot a j s)" using R j that sa [OF j] sl [OF b(1) j] ne(5) by auto
    assume us: "user_ent (slot a j s)"
    show "user_ent (slot b j u)" using R j us sa [OF j] by auto
    show "pmm_page (slot b j u) \<in> used u - used s" using R j us sa [OF j] u1 by auto
    show "slot (pmm_page (slot b j u)) w u = slot (pmm_page (slot a j s)) w s" if "w < 1024" for w
      using R j us sa [OF j] that cont [OF j us that] by auto
  next
    fix j l :: u32 assume "j < 1024" "l < 1024"
      "user_ent (slot a j s) \<and> user_ent (slot a l s) \<and> pmm_page (slot b j u) = pmm_page (slot b l u)"
    then show "j = l" using R sa by auto
  qed
  have nb: "pmm_page (slot b j u) \<noteq> b" if "j < 1024" "user_ent (slot a j s)" for j using R that sa [OF that(1)] u1 by auto
  show thesis
    by (rule that [OF _ u(2) _ _ fr _ _ _ tc nb])
       (use e u(1,3,4) u1 b(2) need nd Du sl D assms(4) ne(5) in auto)
qed

definition dir_copied :: "nat \<Rightarrow> nat \<Rightarrow> u32 list \<Rightarrow> paging \<Rightarrow> paging \<Rightarrow> bool" where
  "dir_copied d D ks s u \<longleftrightarrow>
     (\<forall>i \<in> set ks. user_ent (slot d i s) \<longrightarrow> user_ent (slot D i u) \<and> table_copied (pmm_page (slot d i s)) (pmm_page (slot D i u)) s u) \<and>
     (\<forall>i \<in> set ks. \<forall>l \<in> set ks. \<forall>j < 1024. \<forall>n < 1024. user_ent (slot d i s) \<and> user_ent (slot d l s) \<and>
        user_ent (slot (pmm_page (slot d i s)) j s) \<and> user_ent (slot (pmm_page (slot d l s)) n s) \<and>
        pmm_page (slot (pmm_page (slot D i u)) j u) = pmm_page (slot (pmm_page (slot D l u)) n u) \<longrightarrow> i = l) \<and>
     (\<forall>i < 1024. i \<notin> set ks \<or> \<not> user_ent (slot d i s) \<longrightarrow> slot D i u = slot D i s)"

lemma table_copiedD:
  assumes "table_copied a b s u" "j < 1024"
  shows "user_ent (slot a j s) \<Longrightarrow> user_ent (slot b j u)" "user_ent (slot a j s) \<Longrightarrow> pmm_page (slot b j u) \<in> used u - used s"
    "user_ent (slot a j s) \<Longrightarrow> w < 1024 \<Longrightarrow> slot (pmm_page (slot b j u)) w u = slot (pmm_page (slot a j s)) w s"
    "\<not> user_ent (slot a j s) \<Longrightarrow> slot b j u = 0"
    "user_ent (slot a j s) \<Longrightarrow> l < 1024 \<Longrightarrow> user_ent (slot a l s) \<Longrightarrow> pmm_page (slot b j u) = pmm_page (slot b l u) \<Longrightarrow> j = l"
  using assms unfolding table_copied_def by blast+

lemma table_copiedI:
  assumes "\<And>j. j < 1024 \<Longrightarrow> user_ent (slot a j s) \<Longrightarrow> user_ent (slot b j u) \<and> pmm_page (slot b j u) \<in> used u - used s"
    and "\<And>j w. j < 1024 \<Longrightarrow> user_ent (slot a j s) \<Longrightarrow> w < 1024 \<Longrightarrow> slot (pmm_page (slot b j u)) w u = slot (pmm_page (slot a j s)) w s"
    and "\<And>j. j < 1024 \<Longrightarrow> \<not> user_ent (slot a j s) \<Longrightarrow> slot b j u = 0"
    and "\<And>j l. j < 1024 \<Longrightarrow> l < 1024 \<Longrightarrow> user_ent (slot a j s) \<Longrightarrow> user_ent (slot a l s) \<Longrightarrow>
      pmm_page (slot b j u) = pmm_page (slot b l u) \<Longrightarrow> j = l"
  shows "table_copied a b s u"
  unfolding table_copied_def using assms by blast

lemma table_copied_later:
  assumes "table_copied a b s s1" "frame ({t, D} \<union> (used u - used s1)) s1 u" "used s1 \<subseteq> used u" "b \<in> used s1" "b \<notin> {t, D}" "{t, D} \<subseteq> used s"
  shows "table_copied a b s u" "j < 1024 \<Longrightarrow> slot b j u = slot b j s1"
proof -
  have b: "slot b j u = slot b j s1" if "j < 1024" for j using frameD [OF assms(2) used_less [OF assms(4)] _ that] assms(4,5) by auto
  have q: "slot q w u = slot q w s1" if "q \<in> used s1 - used s" "w < 1024" for q w
    using frameD [OF assms(2) used_less [of q "pg_pmm s1"] _ that(2)] that(1) assms(6) by auto
  note T = table_copiedD [OF assms(1)]
  show "table_copied a b s u"
  proof (rule table_copiedI)
    fix j :: u32 assume j: "j < 1024"
    show "slot b j u = 0" if "\<not> user_ent (slot a j s)" using T(4) [OF j that] b [OF j] by simp
    assume us: "user_ent (slot a j s)"
    show "user_ent (slot b j u) \<and> pmm_page (slot b j u) \<in> used u - used s" using T(1,2) [OF j us] b [OF j] assms(3) by auto
    show "slot (pmm_page (slot b j u)) w u = slot (pmm_page (slot a j s)) w s" if "w < 1024" for w
      unfolding b [OF j] q [OF T(2) [OF j us] that] by (rule T(3) [OF j us that])
    show "j = l" if "l < 1024" "user_ent (slot a l s)" "pmm_page (slot b j u) = pmm_page (slot b l u)" for l
      using T(5) [OF j us that(1,2)] that(3) b [OF j] b [OF that(1)] by simp
  qed
  show "j < 1024 \<Longrightarrow> slot b j u = slot b j s1" by (rule b)
qed

lemma table_copied_earlier:
  assumes "table_copied a b s1 u" "frame ({t, D} \<union> (used s1 - used s)) s s1" "used s \<subseteq> used s1" "a \<in> used s - {t, D}"
    and "\<And>j. j < 1024 \<Longrightarrow> user_ent (slot a j s) \<Longrightarrow> pmm_page (slot a j s) \<in> used s - {t, D}"
  shows "table_copied a b s u"
proof -
  have f: "slot q w s1 = slot q w s" if "q \<in> used s - {t, D}" "w < 1024" for q w
    using frameD [OF assms(2) used_less [of q "pg_pmm s"] _ that(2)] that(1) by auto
  note T = table_copiedD [OF assms(1)] and fa = f [OF assms(4)]
  show ?thesis
  proof (rule table_copiedI)
    fix j :: u32 assume j: "j < 1024"
    show "slot b j u = 0" if "\<not> user_ent (slot a j s)" using T(4) [OF j] that fa [OF j] by simp
    assume us: "user_ent (slot a j s)"
    then have us1: "user_ent (slot a j s1)" using fa [OF j] by simp
    show "user_ent (slot b j u) \<and> pmm_page (slot b j u) \<in> used u - used s" using T(1,2) [OF j us1] assms(3) by auto
    show "slot (pmm_page (slot b j u)) w u = slot (pmm_page (slot a j s)) w s" if "w < 1024" for w
      using T(3) [OF j us1 that] unfolding fa [OF j] f [OF assms(5) [OF j us] that] .
    show "j = l" if "l < 1024" "user_ent (slot a l s)" "pmm_page (slot b j u) = pmm_page (slot b l u)" for l
      using T(5) [OF j us1 that(1) _ that(3)] that(2) fa [OF that(1)] by simp
  qed
qed

lemma space_ok_frame:
  assumes "space_ok {t, D} d ks s" "frame ({t, D} \<union> (used s1 - used s)) s s1" "used s \<subseteq> used s1" "d \<in> used s - {t, D}" "set ks \<subseteq> {i. i < 1024}"
  shows "space_ok {t, D} d ks s1" "dir_need d ks s1 = dir_need d ks s" "i < 1024 \<Longrightarrow> slot d i s1 = slot d i s"
proof -
  have f: "slot q w s1 = slot q w s" if "q \<in> used s - {t, D}" "w < 1024" for q w
    using frameD [OF assms(2) used_less [of q "pg_pmm s"] _ that(2)] that(1) by auto
  have d: "slot d i s1 = slot d i s" if "i < 1024" for i using f [OF assms(4) that] .
  have ks: "i < 1024" if "i \<in> set ks" for i using that assms(5) by auto
  have a: "slot (pmm_page (slot d i s)) j s1 = slot (pmm_page (slot d i s)) j s"
    if "i \<in> set ks" "user_ent (slot d i s)" "j < 1024" for i j using f that assms(1) by (auto simp: space_ok_def)
  show "space_ok {t, D} d ks s1" unfolding space_ok_def
  proof (intro ballI impI conjI allI)
    fix i assume i: "i \<in> set ks" "user_ent (slot d i s1)"
    then have us: "user_ent (slot d i s)" using d [OF ks] by simp
    then show "pmm_page (slot d i s1) \<in> used s1 - {t, D}" using assms(1,3) i(1) d [OF ks [OF i(1)]] by (auto simp: space_ok_def)
    fix j :: u32 assume j: "j < 1024" "user_ent (slot (pmm_page (slot d i s1)) j s1)"
    then show "pmm_page (slot (pmm_page (slot d i s1)) j s1) \<in> used s1 - {t, D}"
      using assms(1,3) i(1) us unfolding d [OF ks [OF i(1)]] a [OF i(1) us j(1)] by (auto simp: space_ok_def)
  qed
  have "pde_need d s1 i = pde_need d s i" if i: "i \<in> set ks" for i
  proof -
    have "row_need (pmm_page (slot d i s)) table_indices s1 = row_need (pmm_page (slot d i s)) table_indices s" if "user_ent (slot d i s)"
      unfolding row_need_def by (rule arg_cong [where f = length], rule filter_cong) (auto simp: a [OF i that] set_table_indices)
    then show ?thesis using d [OF ks [OF i]] by (simp add: pde_need_def)
  qed
  then show "dir_need d ks s1 = dir_need d ks s" by (simp add: dir_need_def cong: map_cong)
  show "i < 1024 \<Longrightarrow> slot d i s1 = slot d i s" by (rule d)
qed

lemma dir_copied_step:
  assumes "space_ok {t, D} d (i # ks) s" "d \<in> used s - {t, D}" "{t, D} \<subseteq> used s" "i \<notin> set ks" "i < 1024" "set ks \<subseteq> {i. i < 1024}" "b < PMM_PAGES"
    and "frame ({t, D} \<union> (used s1 - used s)) s s1" "used s \<subseteq> used s1" "b \<in> used s1 - used s" "slot D i s1 = user_entry (addr_of_page b)"
    and "\<And>l. l < 1024 \<Longrightarrow> l \<noteq> i \<Longrightarrow> slot D l s1 = slot D l s" "table_copied (pmm_page (slot d i s)) b s s1" "user_ent (slot d i s)"
    and "frame ({t, D} \<union> (used u - used s1)) s1 u" "used s1 \<subseteq> used u" "dir_copied d D ks s1 u"
  shows "dir_copied d D (i # ks) s u"
proof -
  let ?a = "\<lambda>l. pmm_page (slot d l s)" and ?b = "\<lambda>l. pmm_page (slot D l u)"
  note R = assms(17) [unfolded dir_copied_def]
  have ok: "space_ok {t, D} d ks s" using assms(1) by (simp add: space_ok_def)
  note F = space_ok_frame [OF ok assms(8,9,2,6)]
  have ks: "l < 1024" "l \<noteq> i" "slot d l s1 = slot d l s" if "l \<in> set ks" for l using that assms(4,6) F(3) by auto
  have bt: "b \<notin> {t, D}" using assms(3,10) by auto
  have Di: "slot D i u = user_entry (addr_of_page b)" "?b i = b" using R assms(4,5,7,11) by auto
  have T: "table_copied (?a i) b s u" "j < 1024 \<Longrightarrow> slot b j u = slot b j s1" for j
    using table_copied_later [OF assms(13,15,16) _ bt assms(3)] assms(10) by auto
  have Tl: "user_ent (slot D l u)" "table_copied (?a l) (?b l) s u" "table_copied (?a l) (?b l) s1 u" if l: "l \<in> set ks" "user_ent (slot d l s)" for l
  proof -
    show "user_ent (slot D l u)" and c: "table_copied (?a l) (?b l) s1 u" using R l ks [OF l(1)] by auto
    show "table_copied (?a l) (?b l) s u"
      by (rule table_copied_earlier [OF c assms(8,9)]) (use ok l in \<open>auto simp: space_ok_def\<close>)
  qed
  have mixed: False if l: "l \<in> set ks" "user_ent (slot d l s)" "user_ent (slot (?a l) n s)" "n < 1024"
    and j: "j < 1024" "user_ent (slot (?a i) j s)" and eq: "pmm_page (slot b j u) = pmm_page (slot (?b l) n u)" for l j n
  proof -
    have "slot (?a l) n s1 = slot (?a l) n s"
      using frameD [OF assms(8) used_less [of "?a l" "pg_pmm s"] _ l(4)] ok l(1,2) by (auto simp: space_ok_def)
    then have "pmm_page (slot (?b l) n u) \<notin> used s1" using table_copiedD(2) [OF Tl(3) [OF l(1,2)] l(4)] l(3) by auto
    moreover have "pmm_page (slot b j u) \<in> used s1" using table_copiedD(2) [OF assms(13) j] T(2) [OF j(1)] by auto
    ultimately show False using eq by simp
  qed
  show ?thesis unfolding dir_copied_def
  proof (intro conjI ballI allI impI)
    fix l assume l: "l \<in> set (i # ks)" "user_ent (slot d l s)"
    show "user_ent (slot D l u)" using l Di(1) Tl(1) by auto
    show "table_copied (?a l) (?b l) s u" using l Di(2) T(1) Tl(2) by auto
  next
    fix l m and j n :: u32
    assume lm: "l \<in> set (i # ks)" "m \<in> set (i # ks)" "j < 1024" "n < 1024"
      and us: "user_ent (slot d l s) \<and> user_ent (slot d m s) \<and> user_ent (slot (?a l) j s) \<and> user_ent (slot (?a m) n s) \<and>
        pmm_page (slot (?b l) j u) = pmm_page (slot (?b m) n u)"
    have rest: "l = m" if "l \<in> set ks" "m \<in> set ks"
    proof -
      have "slot (?a l) j s1 = slot (?a l) j s" "slot (?a m) n s1 = slot (?a m) n s"
        using frameD [OF assms(8) used_less [of "?a l" "pg_pmm s"] _ lm(3)] frameD [OF assms(8) used_less [of "?a m" "pg_pmm s"] _ lm(4)] ok that us
        by (auto simp: space_ok_def)
      then show ?thesis using R that lm(3,4) us ks(3) [OF that(1)] ks(3) [OF that(2)] by metis
    qed
    show "l = m"
    proof (cases "l = i")
      case True
      then show ?thesis using lm us mixed [of m n j] Di(2) by auto
    next
      case False
      then show ?thesis using lm us mixed [of l j n] Di(2) rest by (cases "m = i") auto
    qed
  next
    fix l assume l: "l < 1024" "l \<notin> set (i # ks) \<or> \<not> user_ent (slot d l s)"
    then have "l \<noteq> i" using assms(14) by auto
    then show "slot D l u = slot D l s" using l R assms(12) F(3) by auto
  qed
qed

text \<open>The tables of the new directory for the indices \<open>ks\<close> are pages that were free, one for each index, and none of them is also a page of the space.\<close>

definition tables_fresh :: "nat \<Rightarrow> nat \<Rightarrow> u32 list \<Rightarrow> paging \<Rightarrow> paging \<Rightarrow> bool" where
  "tables_fresh d D ks s u \<longleftrightarrow> (\<forall>i \<in> set ks. user_ent (slot d i s) \<longrightarrow> pmm_page (slot D i u) \<in> used u - used s \<and>
     (\<forall>l \<in> set ks. user_ent (slot d l s) \<longrightarrow> (pmm_page (slot D i u) = pmm_page (slot D l u) \<longrightarrow> i = l) \<and>
        (\<forall>j < 1024. user_ent (slot (pmm_page (slot d l s)) j s) \<longrightarrow> pmm_page (slot (pmm_page (slot D l u)) j u) \<noteq> pmm_page (slot D i u))))"

lemma tables_fresh_step:
  assumes "space_ok {t, D} d (i # ks) s" "d \<in> used s - {t, D}" "{t, D} \<subseteq> used s" "i \<notin> set ks" "i < 1024" "set ks \<subseteq> {i. i < 1024}" "b < PMM_PAGES"
    and "frame ({t, D} \<union> (used s1 - used s)) s s1" "used s \<subseteq> used s1" "b \<in> used s1 - used s" "slot D i s1 = user_entry (addr_of_page b)"
    and "table_copied (pmm_page (slot d i s)) b s s1" "\<And>j. j < 1024 \<Longrightarrow> user_ent (slot (pmm_page (slot d i s)) j s) \<Longrightarrow> pmm_page (slot b j s1) \<noteq> b"
    and "frame ({t, D} \<union> (used u - used s1)) s1 u" "used s1 \<subseteq> used u" "dir_copied d D ks s1 u" "tables_fresh d D ks s1 u"
  shows "tables_fresh d D (i # ks) s u"
proof -
  let ?a = "\<lambda>l. pmm_page (slot d l s)" and ?b = "\<lambda>l. pmm_page (slot D l u)"
  note R = assms(16) [unfolded dir_copied_def] and N = assms(17) [unfolded tables_fresh_def]
  have ok: "space_ok {t, D} d ks s" using assms(1) by (simp add: space_ok_def)
  note F = space_ok_frame [OF ok assms(8,9,2,6)]
  have ks: "l < 1024" "l \<noteq> i" "slot d l s1 = slot d l s" if "l \<in> set ks" for l using that assms(4,6) F(3) by auto
  have a1: "slot (?a l) j s1 = slot (?a l) j s" if "l \<in> set ks" "user_ent (slot d l s)" "j < 1024" for l j
    using frameD [OF assms(8) used_less [of "?a l" "pg_pmm s"] _ that(3)] ok that(1,2) by (auto simp: space_ok_def)
  have Di: "?b i = b" using R assms(4,5,7,11) by auto
  have bu: "slot b j u = slot b j s1" if "j < 1024" for j using frameD [OF assms(14) assms(7) _ that] assms(3,10) by auto
  have old: "pmm_page (slot b j u) \<in> used s1" "pmm_page (slot b j u) \<noteq> b" if "j < 1024" "user_ent (slot (?a i) j s)" for j
    using table_copiedD(2) [OF assms(12) that] assms(13) [OF that] bu [OF that(1)] by auto
  have new: "?b l \<in> used u - used s1" "\<And>j. j < 1024 \<Longrightarrow> user_ent (slot (?a l) j s) \<Longrightarrow> pmm_page (slot (?b l) j u) \<in> used u - used s1"
    if l: "l \<in> set ks" "user_ent (slot d l s)" for l
  proof -
    have "user_ent (slot d l s1)" using l ks by simp
    then show "?b l \<in> used u - used s1" using N l(1) by auto
    have "table_copied (?a l) (?b l) s1 u" using R l ks [OF l(1)] by auto
    then show "pmm_page (slot (?b l) j u) \<in> used u - used s1" if "j < 1024" "user_ent (slot (?a l) j s)" for j
      using table_copiedD(2) that a1 [OF l that(1)] by auto
  qed
  have rest: "(?b l = ?b m \<longrightarrow> l = m) \<and> (\<forall>j < 1024. user_ent (slot (?a m) j s) \<longrightarrow> pmm_page (slot (?b m) j u) \<noteq> ?b l)"
    if "l \<in> set ks" "user_ent (slot d l s)" "m \<in> set ks" "user_ent (slot d m s)" for l m
    using N that ks a1 [OF that(3,4)] by auto
  have "?b l \<in> used u - used s \<and> (?b l = ?b m \<longrightarrow> l = m) \<and> (\<forall>j < 1024. user_ent (slot (?a m) j s) \<longrightarrow> pmm_page (slot (?b m) j u) \<noteq> ?b l)"
    if lm: "l \<in> set (i # ks)" "user_ent (slot d l s)" "m \<in> set (i # ks)" "user_ent (slot d m s)" for l m
  proof -
    have l: "l = i \<or> l \<in> set ks" and m: "m = i \<or> m \<in> set ks" using lm(1,3) by auto
    have "?b l \<in> used u - used s" using l new(1) [OF _ lm(2)] Di assms(9,10,15) by auto
    moreover have "?b l = ?b m \<longrightarrow> l = m" using l m new(1) [OF _ lm(2)] new(1) [OF _ lm(4)] rest lm(2,4) Di assms(10) by (metis DiffD1 DiffD2)
    moreover have "pmm_page (slot (?b m) j u) \<noteq> ?b l" if j: "j < 1024" "user_ent (slot (?a m) j s)" for j
    proof (cases "m = i")
      case True
      then have o: "pmm_page (slot (?b m) j u) \<in> used s1" "pmm_page (slot (?b m) j u) \<noteq> b" using old [of j] j Di by simp_all
      from l show ?thesis
      proof
        assume "l = i"
        then show ?thesis using o(2) Di by simp
      next
        assume "l \<in> set ks"
        then have "?b l \<notin> used s1" using new(1) [OF _ lm(2)] by simp
        then show ?thesis using o(1) by metis
      qed
    next
      case False
      then have mk: "m \<in> set ks" using m by simp
      have n: "pmm_page (slot (?b m) j u) \<notin> used s1" using new(2) [OF mk lm(4) j] by simp
      from l show ?thesis
      proof
        assume "l = i"
        then show ?thesis using n Di assms(10) by (metis DiffD1)
      next
        assume "l \<in> set ks"
        then show ?thesis using rest [OF _ lm(2) mk lm(4)] j by simp
      qed
    qed
    ultimately show ?thesis by blast
  qed
  then show ?thesis unfolding tables_fresh_def by blast
qed

lemma clone_dir:
  assumes "window k c t s" "D \<in> used s" "D \<notin> {t, k, c}" "d \<in> used s - {t, D}" "distinct ks" "set ks \<subseteq> {i. i < 1024}"
    and "space_ok {t, D} d ks s" "card (used s) + dir_need d ks s \<le> PMM_PAGES"
  shows "\<exists>u. for_until_fail (clone_pde (addr_of_page d) (addr_of_page D)) ks s = Some (True, u) \<and> window k c t u \<and> used s \<subseteq> used u \<and>
    card (used u) = card (used s) + dir_need d ks s \<and> frame ({t, D} \<union> (used u - used s)) s u \<and> dir_copied d D ks s u \<and> tables_fresh d D ks s u"
  using assms
proof (induction ks arbitrary: s)
  case Nil
  then show ?case by (auto simp: dir_need_def frame_refl dir_copied_def tables_fresh_def)
next
  case (Cons i ks)
  note P = Cons.prems
  have i: "i < 1024" "i \<notin> set ks" "distinct ks" "set ks \<subseteq> {i. i < 1024}" using P(5,6) by auto
  have ok: "space_ok {t, D} d ks s" "space_ok {t, D} d [i] s" using P(7) by (simp_all add: space_ok_def)
  have need: "dir_need d (i # ks) s = pde_need d s i + dir_need d ks s" by (simp add: dir_need_def)
  show ?case
  proof (cases "user_ent (slot d i s)")
    case False
    then have z: "pde_need d s i = 0" by (simp add: pde_need_def)
    obtain u where u: "for_until_fail (clone_pde (addr_of_page d) (addr_of_page D)) ks s = Some (True, u)" "window k c t u" "used s \<subseteq> used u"
      "card (used u) = card (used s) + dir_need d ks s" "frame ({t, D} \<union> (used u - used s)) s u" "dir_copied d D ks s u" "tables_fresh d D ks s u"
      using Cons.IH [OF P(1-4) i(3,4) ok(1)] P(8) need z by auto
    have "dir_copied d D (i # ks) s u" "tables_fresh d D (i # ks) s u" using u(6,7) False by (auto simp: dir_copied_def tables_fresh_def)
    with u show ?thesis using need z clone_pde_skip [OF False, of D] by auto
  next
    case True
    have nd: "card (used s) + pde_need d s i \<le> PMM_PAGES" using P(8) need by simp
    obtain b s1 where s1: "clone_pde (addr_of_page d) (addr_of_page D) i s = Some (True, s1)" "window k c t s1" "used s \<subseteq> used s1"
      "card (used s1) = card (used s) + pde_need d s i" "frame ({t, D} \<union> (used s1 - used s)) s s1" "b \<in> used s1 - used s"
      "slot D i s1 = user_entry (addr_of_page b)" "\<And>l. l < 1024 \<Longrightarrow> l \<noteq> i \<Longrightarrow> slot D l s1 = slot D l s"
      "table_copied (pmm_page (slot d i s)) b s s1" "\<And>j. j < 1024 \<Longrightarrow> user_ent (slot (pmm_page (slot d i s)) j s) \<Longrightarrow> pmm_page (slot b j s1) \<noteq> b"
      by (rule clone_pde_copy [OF P(1-3) i(1) True refl ok(2) nd]) blast
    note F = space_ok_frame [OF ok(1) s1(5,3) P(4) i(4)]
    obtain u where u: "for_until_fail (clone_pde (addr_of_page d) (addr_of_page D)) ks s1 = Some (True, u)" "window k c t u" "used s1 \<subseteq> used u"
      "card (used u) = card (used s1) + dir_need d ks s1" "frame ({t, D} \<union> (used u - used s1)) s1 u" "dir_copied d D ks s1 u" "tables_fresh d D ks s1 u"
      using Cons.IH [OF s1(2) _ P(3) _ i(3,4) F(1)] P(2,4,8) s1(3,4) need F(2) by auto
    have tD: "{t, D} \<subseteq> used s" using P(2) window_facts(15) [OF P(1)] by simp
    have "dir_copied d D (i # ks) s u"
      by (rule dir_copied_step [OF P(7,4) tD i(2,1,4) _ s1(5,3,6,7) s1(8,9) True u(5,3,6)]) (use s1(6) used_less in auto)
    moreover have "tables_fresh d D (i # ks) s u"
      by (rule tables_fresh_step [OF P(7,4) tD i(2,1,4) _ s1(5,3,6,7) s1(9,10) u(5,3,6,7)]) (use s1(6) used_less in auto)
    moreover have "frame ({t, D} \<union> (used u - used s)) s u" by (rule frame_trans [OF s1(5) u(5)]) (use s1(3) u(3) in auto)
    ultimately show ?thesis using u s1 need F(2) by auto
  qed
qed

section \<open>The new directory\<close>

lemma kernel_half:
  assumes "D < PMM_PAGES" "k < PMM_PAGES" "D \<noteq> k" "page_directory s = addr_of_page k" "set xs \<subseteq> {i. i < 1024}"
  shows "fold (\<lambda>i t. let entry = rd (ent (page_directory t) i) t in wr (ent (addr_of_page D) i) (g entry) t) xs s =
    fold (\<lambda>i. wr (ent (addr_of_page D) i) (g (slot k i s))) xs s"
  using assms(4,5)
proof (induction xs arbitrary: s)
  case (Cons i xs)
  let ?s = "set_slot D i (g (slot k i s)) s"
  have i: "i < 1024" "set xs \<subseteq> {i. i < 1024}" using Cons.prems(2) by auto
  have "fold (\<lambda>i. wr (ent (addr_of_page D) i) (g (slot k i ?s))) xs ?s = fold (\<lambda>i. wr (ent (addr_of_page D) i) (g (slot k i s))) xs ?s"
    using i assms(1-3) by (intro fold_cong) auto
  moreover have "page_directory ?s = addr_of_page k" using Cons.prems(1) by simp
  ultimately show ?case using Cons.IH [of ?s] Cons.prems(1) i(2) by (simp add: Let_def set_slot_def slot_def)
qed simp

lemma create_dir:
  assumes "window k c t s" "card (used s) < PMM_PAGES"
  obtains D u where "create_user_page_directory s = Some (addr_of_page D, u)" "D < PMM_PAGES" "D \<notin> used s" "addr_of_page D \<noteq> 0"
    "used u = insert D (used s)" "window k c t u" "frame {D} s u" "\<And>i. i < 1024 \<Longrightarrow> \<not> user_bit (slot D i u)"
proof -
  note W = window_facts [OF assms(1)]
  obtain D m where D: "D < PMM_PAGES" "D \<notin> used s" "addr_of_page D \<noteq> 0" "alloc_page s = Some (addr_of_page D, s\<lparr>pg_pmm := m\<rparr>)"
    "pmm_inv m" "pages_used m = insert D (used s)" by (rule alloc_room [OF W(12) assms(2)])
  have ne: "D \<noteq> k" "D \<noteq> c" using D(2) W(13,14) by auto
  let ?g = "\<lambda>entry. if present entry then entry AND NOT PAGE_USER else 2" and ?m = "s\<lparr>pg_pmm := m\<rparr>"
  let ?u = "fold (\<lambda>i. wr (ent (addr_of_page D) i) (?g (slot k i ?m))) table_indices ?m"
  have "fold (\<lambda>i t. let entry = rd (ent (page_directory t) i) t in wr (ent (addr_of_page D) i) (?g entry) t) table_indices ?m = ?u"
    by (rule kernel_half) (use D(1) W(1,6) ne in \<open>simp_all add: set_table_indices\<close>)
  then have e: "create_user_page_directory s = Some (addr_of_page D, ?u)"
    using D(3,4) by (simp add: create_user_page_directory_def)
  have sl: "slot p i ?u = (if p = D then ?g (slot k i s) else slot p i s)" if "p < PMM_PAGES" "i < 1024" for p i
    using fill_table [OF that(1) D(1) that(2), of "\<lambda>i. ?g (slot k i ?m)" ?m] by simp
  have f: "frame {D} s ?u" using sl by (auto simp: frame_def)
  have w1: "window k c t ?m" using assms(1) D(5,6) by (auto simp: window_def)
  have w: "window k c t ?u" by (rule window_frame [OF w1, of "{D}"]) (use f ne in \<open>auto simp: frame_def\<close>)
  have "\<not> user_bit (slot D i ?u)" if "i < 1024" for i
    unfolding sl [OF D(1) that] user_bit_bit by (simp add: bit_and_iff bit_not_iff)
  then show thesis by (intro that [OF e D(1-3) _ w f]) (simp_all add: D(6))
qed

lemma user_index:
  assumes "USER_VADDR_MIN \<le> v" "v \<le> USER_VADDR_MAX"
  shows "pd_index v \<in> set user_indices"
proof -
  have "unat (pd_index v) = unat v div 2 ^ 22" by (simp add: pd_index_def drop_bit_eq_div unat_div)
  moreover have "0x40000000 \<le> unat v" "unat v \<le> 0xBFFFFFFF" using assms by (simp_all add: word_le_nat_alt)
  ultimately have "256 \<le> unat (pd_index v)" "unat (pd_index v) < 768" by simp_all
  then show ?thesis by (simp add: set_user_indices word_le_nat_alt word_less_nat_alt)
qed

lemma accessible_ents:
  assumes "d < PMM_PAGES" "d \<noteq> 0"
  shows "page_is_user_accessible (addr_of_page d) v s \<longleftrightarrow>
    user_ent (slot d (pd_index v) s) \<and> user_ent (slot (pmm_page (slot d (pd_index v) s)) (pt_index v) s)"
    "user_ent (slot d (pd_index v) s) \<Longrightarrow> leaf d v s = slot (pmm_page (slot d (pd_index v) s)) (pt_index v) s"
  unfolding accessible_leaf [OF assms] by (auto simp: user_ent_def leaf_def Let_def)

text \<open>What duplication achieves, for every address of the user half.\<close>

definition cloned_at :: "nat \<Rightarrow> nat \<Rightarrow> paging \<Rightarrow> paging \<Rightarrow> u32 \<Rightarrow> bool" where
  "cloned_at d D s u v \<longleftrightarrow>
     page_is_user_accessible (addr_of_page D) v u = page_is_user_accessible (addr_of_page d) v s \<and>
     page_is_user_accessible (addr_of_page d) v u = page_is_user_accessible (addr_of_page d) v s \<and>
     (page_is_user_accessible (addr_of_page d) v s \<longrightarrow>
        pmm_page (leaf D v u) \<notin> used s \<and> leaf d v u = leaf d v s \<and>
        (\<forall>w < 1024. slot (pmm_page (leaf D v u)) w u = slot (pmm_page (leaf d v s)) w s \<and>
           slot (pmm_page (leaf d v s)) w u = slot (pmm_page (leaf d v s)) w s))"

lemma dir_copied_at:
  assumes "dir_copied d D user_indices s u" "frame ({t, D} \<union> (used u - used s)) s u" "used s \<subseteq> used u" "D \<in> used s"
    and "d \<in> used s - {t, D}" "space_ok {t, D} d user_indices s" "0 \<notin> {d, D}" "\<And>i. i < 1024 \<Longrightarrow> \<not> user_bit (slot D i s)"
    and "pd_index v \<in> set user_indices"
  shows "cloned_at d D s u v"
proof -
  note C = assms(1) [unfolded dir_copied_def] and I = pd_index_less pt_index_less
  have lt: "d < PMM_PAGES" "D < PMM_PAGES" "d \<noteq> 0" "D \<noteq> 0" using assms(4,5,7) used_less by auto
  note ad = accessible_ents [OF lt(1,3)] and aD = accessible_ents [OF lt(2,4)]
  have f: "slot q w u = slot q w s" if "q \<in> used s - {t, D}" "w < 1024" for q w
    using frameD [OF assms(2) used_less [of q "pg_pmm s"] _ that(2)] that(1) by auto
  let ?i = "pd_index v" and ?j = "pt_index v"
  let ?a = "pmm_page (slot d ?i s)" and ?b = "pmm_page (slot D ?i u)"
  have du: "slot d ?i u = slot d ?i s" by (rule f [OF assms(5) I(1)])
  show ?thesis
  proof (cases "user_ent (slot d ?i s)")
    case False
    then have "slot D ?i u = slot D ?i s" using C I(1) by blast
    then have "\<not> user_ent (slot D ?i u)" using assms(8) I(1) by (simp add: user_ent_def)
    then show ?thesis using False du by (simp add: cloned_at_def ad(1) aD(1))
  next
    case True
    have a: "?a \<in> used s - {t, D}" using assms(6,9) True by (simp add: space_ok_def)
    have b: "user_ent (slot D ?i u)" and T: "table_copied ?a ?b s u" using C assms(9) True by auto
    note TD = table_copiedD [OF T I(2)]
    have au: "slot ?a ?j u = slot ?a ?j s" by (rule f [OF a I(2)])
    have p: "pmm_page (slot ?a ?j s) \<in> used s - {t, D}" if "user_ent (slot ?a ?j s)"
      using assms(6,9) True that I(2) by (simp add: space_ok_def)
    show ?thesis
    proof (cases "user_ent (slot ?a ?j s)")
      case us: True
      then show ?thesis using True b TD(1-3) du au f [OF p [OF us]] ad(2) aD(2) [OF b] by (simp add: cloned_at_def ad(1) aD(1))
    next
      case False
      then show ?thesis using True b TD(4) du au by (simp add: cloned_at_def ad(1) aD(1))
    qed
  qed
qed

lemma dir_copied_inj:
  assumes "dir_copied d D user_indices s u" "0 \<notin> {d, D}" "d < PMM_PAGES" "D < PMM_PAGES"
    and "pd_index v \<in> set user_indices" "pd_index w \<in> set user_indices"
    and "page_is_user_accessible (addr_of_page d) v s" "page_is_user_accessible (addr_of_page d) w s"
    and "pmm_page (leaf D v u) = pmm_page (leaf D w u)"
  shows "pmm_page v = pmm_page w"
proof -
  have nz: "d \<noteq> 0" "D \<noteq> 0" using assms(2) by auto
  note C = assms(1) [unfolded dir_copied_def] and I = pd_index_less pt_index_less
    and ad = accessible_ents [OF assms(3) nz(1)] and aD = accessible_ents [OF assms(4) nz(2)]
  have us: "user_ent (slot d (pd_index v) s)" "user_ent (slot (pmm_page (slot d (pd_index v) s)) (pt_index v) s)"
    "user_ent (slot d (pd_index w) s)" "user_ent (slot (pmm_page (slot d (pd_index w) s)) (pt_index w) s)"
    using assms(7,8) by (simp_all add: ad(1))
  have e: "user_ent (slot D (pd_index v) u)" "user_ent (slot D (pd_index w) u)"
    "table_copied (pmm_page (slot d (pd_index v) s)) (pmm_page (slot D (pd_index v) u)) s u" using C assms(5,6) us by auto
  have eq: "pmm_page (slot (pmm_page (slot D (pd_index v) u)) (pt_index v) u) = pmm_page (slot (pmm_page (slot D (pd_index w) u)) (pt_index w) u)"
    using assms(9) aD(2) [OF e(1)] aD(2) [OF e(2)] by simp
  then have i: "pd_index v = pd_index w" using C assms(5,6) us I(2) by blast
  then have "pt_index v = pt_index w" using table_copiedD(5) [OF e(3) I(2) us(2) I(2)] us(4) eq by simp
  with i show ?thesis using same_page_indices by blast
qed

text \<open>The new directory does not disturb the original space.\<close>

lemma before_dir:
  assumes "frame {D} s s1" "space_ok {t} d user_indices s" "D \<notin> used s" "d \<in> used s" "d \<noteq> 0" "pd_index v \<in> set user_indices"
  shows "page_is_user_accessible (addr_of_page d) v s1 = page_is_user_accessible (addr_of_page d) v s"
    "page_is_user_accessible (addr_of_page d) v s \<Longrightarrow> leaf d v s1 = leaf d v s"
    "page_is_user_accessible (addr_of_page d) v s \<Longrightarrow> w < 1024 \<Longrightarrow> slot (pmm_page (leaf d v s)) w s1 = slot (pmm_page (leaf d v s)) w s"
proof -
  have d: "d < PMM_PAGES" using assms(4) used_less by blast
  note ad = accessible_ents [OF d assms(5)] and I = pd_index_less pt_index_less
  have f: "slot q w s1 = slot q w s" if "q \<in> used s" "w < 1024" for q w
    using frameD [OF assms(1) used_less [of q "pg_pmm s"] _ that(2)] that(1) assms(3) by auto
  have i: "slot d (pd_index v) s1 = slot d (pd_index v) s" by (rule f [OF assms(4) I(1)])
  have a: "slot (pmm_page (slot d (pd_index v) s)) (pt_index v) s1 = slot (pmm_page (slot d (pd_index v) s)) (pt_index v) s"
    if "user_ent (slot d (pd_index v) s)" using f [OF _ I(2)] assms(2,6) that by (simp add: space_ok_def)
  show "page_is_user_accessible (addr_of_page d) v s1 = page_is_user_accessible (addr_of_page d) v s" using a i by (auto simp: ad(1))
  assume acc: "page_is_user_accessible (addr_of_page d) v s"
  then have us: "user_ent (slot d (pd_index v) s)" "user_ent (slot (pmm_page (slot d (pd_index v) s)) (pt_index v) s)" by (simp_all add: ad(1))
  show "leaf d v s1 = leaf d v s" using us(1) a i by (simp add: ad(2))
  have "pmm_page (leaf d v s) \<in> used s" using us assms(2,6) I(2) by (simp add: ad(2) space_ok_def)
  then show "w < 1024 \<Longrightarrow> slot (pmm_page (leaf d v s)) w s1 = slot (pmm_page (leaf d v s)) w s" by (rule f)
qed

lemma cloned_at_earlier:
  assumes "cloned_at d D s1 u v" "frame {D} s s1" "space_ok {t} d user_indices s" "D \<notin> used s" "d \<in> used s \<and> used s \<subseteq> used s1" "d \<noteq> 0"
    "pd_index v \<in> set user_indices"
  shows "cloned_at d D s u v"
proof -
  note B = before_dir [OF assms(2-4) conjunct1 [OF assms(5)] assms(6,7)]
  show ?thesis using assms(1,5) B unfolding cloned_at_def by auto
qed

text \<open>
  The directory \<open>D\<close> has tables of its own for the user half: one where \<open>d\<close> has one, in a page that was free, a different one for each index, none of which is the
  directory or one of the pages that \<open>D\<close> maps.
\<close>

definition own_tables :: "nat \<Rightarrow> nat \<Rightarrow> paging \<Rightarrow> paging \<Rightarrow> bool" where
  "own_tables d D s u \<longleftrightarrow> (\<forall>i \<in> set user_indices. user_ent (slot D i u) = user_ent (slot d i s) \<and>
     (user_ent (slot d i s) \<longrightarrow> pmm_page (slot D i u) \<in> used u - insert D (used s) \<and>
       (\<forall>l \<in> set user_indices. user_ent (slot d l s) \<longrightarrow> (pmm_page (slot D i u) = pmm_page (slot D l u) \<longrightarrow> i = l) \<and>
          (\<forall>j < 1024. user_ent (slot (pmm_page (slot d l s)) j s) \<longrightarrow>
             pmm_page (slot (pmm_page (slot D l u)) j u) \<notin> {D, pmm_page (slot D i u)}))))"

lemma own_tablesI:
  assumes "dir_copied d D user_indices s1 u" "tables_fresh d D user_indices s1 u" "used s1 = insert D (used s)" "D \<notin> used s" "frame {D} s s1" "d \<in> used s"
    and "space_ok {t} d user_indices s" "\<And>i. i < 1024 \<Longrightarrow> \<not> user_bit (slot D i s1)" "set user_indices \<subseteq> {i. i < 1024}"
  shows "own_tables d D s u"
proof -
  have lt: "i < 1024" if "i \<in> set user_indices" for i using that assms(9) by auto
  have ds: "slot d i s1 = slot d i s" if "i \<in> set user_indices" for i
    using frameD [OF assms(5) used_less [OF assms(6)] _ lt [OF that]] assms(4,6) by auto
  have as: "slot (pmm_page (slot d l s)) j s1 = slot (pmm_page (slot d l s)) j s" if "l \<in> set user_indices" "user_ent (slot d l s)" "j < 1024" for l j
    using frameD [OF assms(5) used_less [of "pmm_page (slot d l s)" "pg_pmm s"] _ that(3)] assms(4,7) that(1,2) by (auto simp: space_ok_def)
  have ue: "user_ent (slot D i u) = user_ent (slot d i s)" if "i \<in> set user_indices" for i
  proof (cases "user_ent (slot d i s)")
    case True
    then show ?thesis using assms(1) that ds [OF that] by (simp add: dir_copied_def)
  next
    case False
    then have "slot D i u = slot D i s1" using assms(1) lt [OF that] ds [OF that] by (simp add: dir_copied_def)
    then show ?thesis using False assms(8) [OF lt [OF that]] by (simp add: user_ent_def user_bit_def)
  qed
  have fr: "pmm_page (slot (pmm_page (slot D l u)) j u) \<in> used u - used s1"
    if "l \<in> set user_indices" "user_ent (slot d l s)" "j < 1024" "user_ent (slot (pmm_page (slot d l s)) j s)" for l j
  proof -
    have "table_copied (pmm_page (slot d l s)) (pmm_page (slot D l u)) s1 u"
      using bspec [OF conjunct1 [OF assms(1) [unfolded dir_copied_def]] that(1)] that(2) ds [OF that(1)] by simp
    then show ?thesis using table_copiedD(2) [OF _ that(3)] that(4) as [OF that(1-3)] by auto
  qed
  have "pmm_page (slot D i u) \<in> used u - insert D (used s) \<and> (pmm_page (slot D i u) = pmm_page (slot D l u) \<longrightarrow> i = l) \<and>
      (\<forall>j < 1024. user_ent (slot (pmm_page (slot d l s)) j s) \<longrightarrow> pmm_page (slot (pmm_page (slot D l u)) j u) \<notin> {D, pmm_page (slot D i u)})"
    if i: "i \<in> set user_indices" "user_ent (slot d i s)" and l: "l \<in> set user_indices" "user_ent (slot d l s)" for i l
    using assms(2,3) i l ds [OF i(1)] ds [OF l(1)] as [OF l] fr [OF l] unfolding tables_fresh_def by auto
  then show ?thesis using ue unfolding own_tables_def by blast
qed


section \<open>A machine with one user page\<close>

lemma pmm_with_pages: "n < PMM_PAGES \<Longrightarrow> \<exists>m. pmm_inv m \<and> pages_used m = {..n}"
proof (induction n)
  case 0
  then show ?case using pmm_boot_inv pmm_boot_used by (auto intro!: exI [of _ pmm_boot])
next
  case (Suc n)
  then obtain m where m: "pmm_inv m" "pages_used m = {..n}" by auto
  obtain r where "pmm_wf r" "pages_used r = insert (Suc n) {..n}"
    by (rule set_page_used [of m "Suc n"]) (use m Suc.prems in \<open>auto simp: pmm_inv_def\<close>)
  then show ?case by (intro exI [of _ r]) (simp add: pmm_inv_def atMost_Suc)
qed

text \<open>Page 1 is the kernel directory with the window table in page 2; page 3 is a directory with one table, page 4, that maps page 5.\<close>

definition one_page :: "pmm \<Rightarrow> paging" where
  "one_page m = set_slot 5 7 42 (set_slot 4 0 (user_entry (addr_of_page 5)) (set_slot 3 256 (user_entry (addr_of_page 4))
     (set_slot 1 255 (user_entry (addr_of_page 2)) (blank_machine m))))"

lemma one_page_slots:
  "i < 1024 \<Longrightarrow> slot 1 i (one_page m) = (if i = 255 then user_entry (addr_of_page 2) else 0)"
  "i < 1024 \<Longrightarrow> slot 3 i (one_page m) = (if i = 256 then user_entry (addr_of_page 4) else 0)"
  "i < 1024 \<Longrightarrow> slot 4 i (one_page m) = (if i = 0 then user_entry (addr_of_page 5) else 0)"
  "slot 5 7 (one_page m) = 42" "pg_pmm (one_page m) = m" "page_directory (one_page m) = addr_of_page 1" "pg_cr3 (one_page m) = addr_of_page 1"
  by (simp_all add: one_page_def blank_machine_def) (simp_all add: slot_def rd_def)

lemma table_indices_facts:
  shows "length table_indices = 1024" and "(\<And>js. table_indices = 0 # js \<Longrightarrow> thesis) \<Longrightarrow> thesis"
proof -
  show "length table_indices = 1024" by (simp only: table_indices_def length_map length_upt)
  have "[0..<1024 :: nat] = 0 # [Suc 0..<1024]" by (rule upt_conv_Cons) simp
  moreover have "(of_nat 0 :: u32) = 0" by simp
  ultimately have "table_indices = 0 # map of_nat [Suc 0..<1024]" by (simp only: table_indices_def list.map)
  then show "(\<And>js. table_indices = 0 # js \<Longrightarrow> thesis) \<Longrightarrow> thesis" by blast
qed

lemma one_page_need: "dir_need 3 user_indices (one_page m) \<le> 1025"
proof -
  have "pde_need 3 (one_page m) i = (if i = 256 then pde_need 3 (one_page m) 256 else 0)" if "i \<in> set user_indices" for i
  proof -
    have "i < 1024" using that by (simp add: set_user_indices word_less_nat_alt)
    then show ?thesis by (simp add: pde_need_def one_page_slots(2))
  qed
  then have "dir_need 3 user_indices (one_page m) = (\<Sum>i \<in> set user_indices. if i = 256 then pde_need 3 (one_page m) 256 else 0)"
    unfolding dir_need_def sum_list_distinct_conv_sum_set [OF distinct_indices(2)] by (rule sum.cong [OF refl])
  also have "\<dots> \<le> pde_need 3 (one_page m) 256" by (simp add: sum.delta')
  also have "\<dots> \<le> 1025" using length_filter_le [of _ table_indices] by (simp add: pde_need_def row_need_def table_indices_facts)
  finally show ?thesis .
qed


text \<open>
  The temporary windows work only under a directory that has their table: while the processor runs on a directory without an entry for it, such as the directory of a
  process created before the table, copying any page (and with it \<open>fork\<close>) ends in a page fault.
\<close>

theorem window_fault:
  assumes "page_directory s = addr_of_page k" "pg_cr3 s = addr_of_page c" "{k, c, t} \<subseteq> used s" "c \<noteq> k" "c \<noteq> t" "t \<noteq> k"
    and "present (slot k 255 s)" "pmm_page (slot k 255 s) = t" "\<not> present (slot c 255 s)"
  shows "copy_user_page p q s = None"
proof -
  have lt: "k < PMM_PAGES" "c < PMM_PAGES" "t < PMM_PAGES" using assms(3) used_less by auto
  have mp: "map_page x va r = Some (set_slot t (pt_index va) ((x AND PAGE_MASK) OR 3) r)"
    if "pd_index va = 255" "page_directory r = addr_of_page k" "slot k 255 r = slot k 255 s" for x va r
  proof -
    have "\<not> rd (ent (addr_of_page k) 255) r AND 1 = 0" "rd (ent (addr_of_page k) 255) r AND PAGE_MASK = addr_of_page t"
      using assms(7,8) that(3) by (simp_all add: present_def mask_addr slot_def)
    then show ?thesis using that by (simp add: map_page_def map_page_flags_def Let_def set_slot_def)
  qed
  let ?s1 = "set_slot t 768 ((p AND PAGE_MASK) OR 3) s"
  let ?s2 = "set_slot t 767 ((q AND PAGE_MASK) OR 3) ?s1"
  have m1: "map_page p KERNEL_TEMP_MAP_VA s = Some ?s1" using mp [of KERNEL_TEMP_MAP_VA s p] assms(1) window_indices by simp
  have m2: "map_page q KERNEL_TEMP_MAP_VA2 ?s1 = Some ?s2"
    using mp [of KERNEL_TEMP_MAP_VA2 ?s1 q] assms(1,6) lt window_indices by simp
  have "\<not> present (slot c 255 ?s2)" using assms(5,9) lt by simp
  then have "mmu (KERNEL_TEMP_MAP_VA + 4 * 0) ?s2 = None"
    using assms(2) lt(2) window_indices(1) by (simp add: mmu_def Let_def dir_addr flip: slot_def)
  then have "copy_word 0 ?s2 = None" by (simp add: copy_word_def)
  then have first: "for_each copy_word (0 # js) ?s2 = None" for js by (simp only: for_each.simps option.case)
  obtain js where js: "table_indices = 0 # js" by (rule table_indices_facts(2))
  have "for_each copy_word table_indices ?s2 = None" unfolding js by (rule first)
  then show ?thesis using m1 m2 by (simp add: copy_user_page_def)
qed

theorem window_fault_witness: "\<exists>s. copy_user_page 0x300000 0x301000 s = None \<and> present (slot 1 255 s)"
proof -
  obtain m where m: "pages_used m = {..5}" using pmm_with_pages [of 5] by auto
  let ?s = "(one_page m)\<lparr>pg_cr3 := addr_of_page 3\<rparr>"
  have sl: "slot p i ?s = slot p i (one_page m)" for p i by (simp add: slot_def rd_def)
  note S = one_page_slots [where m = m]
  have "copy_user_page 0x300000 0x301000 ?s = None"
    by (rule window_fault [of _ 1 3 2]) (use S m sl in simp_all)
  moreover have "present (slot 1 255 ?s)" using S sl by simp
  ultimately show ?thesis by blast
qed

end
