(* ===== verification/Pipe.thy ===== *)
theory Pipe
  imports Ring
begin

text \<open>
  Pipes of \<open>src/kernel/vfs.c\<close>: 64 buffers of 1024 bytes and 128 handles on them, each for one end, with the numbers of open reading and writing ends
  kept in the buffer. Error codes are the negative integers of \<open>vfs.h\<close>.
\<close>

abbreviation VFS_OK :: int where "VFS_OK \<equiv> 0"
abbreviation VFS_ERR_INVALID_FD :: int where "VFS_ERR_INVALID_FD \<equiv> -1"
abbreviation VFS_ERR_NOT_FOUND :: int where "VFS_ERR_NOT_FOUND \<equiv> -2"
abbreviation VFS_ERR_NO_SPACE :: int where "VFS_ERR_NO_SPACE \<equiv> -3"
abbreviation VFS_ERR_INVALID_ARG :: int where "VFS_ERR_INVALID_ARG \<equiv> -4"
abbreviation VFS_ERR_IO :: int where "VFS_ERR_IO \<equiv> -5"
abbreviation VFS_ERR_PERM :: int where "VFS_ERR_PERM \<equiv> -6"
abbreviation VFS_ERR_WOULD_BLOCK :: int where "VFS_ERR_WOULD_BLOCK \<equiv> -7"

abbreviation VFS_PIPE_MAX :: nat where "VFS_PIPE_MAX \<equiv> 64"
abbreviation VFS_PIPE_BUFFER_SIZE :: nat where "VFS_PIPE_BUFFER_SIZE \<equiv> 1024"

record vpipe =
  vp_used :: bool
  vp_ring :: "u8 ring"
  vp_read_refs :: int
  vp_write_refs :: int

record pipe_handle =
  ph_used :: bool
  ph_pipe_idx :: int
  ph_writable :: bool

record pipes =
  vfs_pipes :: "vpipe list"
  vfs_pipe_handles :: "pipe_handle list"

text \<open>The index of the first matching slot as the C functions return it, -1 when there is none.\<close>

definition slot_index :: "('a \<Rightarrow> bool) \<Rightarrow> 'a list \<Rightarrow> int" where
  "slot_index P xs = (case find_slot P xs of Some i \<Rightarrow> int i | None \<Rightarrow> -1)"

lemma slot_index_range: "slot_index P xs < int (length xs)"
  by (auto simp: slot_index_def split: option.split)

lemma slot_index_Some: "0 \<le> slot_index P xs \<Longrightarrow> find_slot P xs = Some (nat (slot_index P xs))"
  by (simp add: slot_index_def split: option.splits)

lemma slot_index_neg: "slot_index P xs < 0 \<longleftrightarrow> find_slot P xs = None"
  by (auto simp: slot_index_def split: option.split)

section \<open>Operations\<close>

definition upd_pipe :: "nat \<Rightarrow> (vpipe \<Rightarrow> vpipe) \<Rightarrow> pipes \<Rightarrow> pipes" where
  "upd_pipe i f s = s\<lparr>vfs_pipes := (vfs_pipes s)[i := f (vfs_pipes s ! i)]\<rparr>"

definition vfs_pipe_alloc_slot :: "pipes \<Rightarrow> int \<times> pipes" where
  "vfs_pipe_alloc_slot s = (case find_slot (\<lambda>p. \<not> vp_used p) (vfs_pipes s) of None \<Rightarrow> (-1, s)
     | Some i \<Rightarrow> (int i, upd_pipe i (\<lambda>p. p\<lparr>vp_used := True, vp_ring := (vp_ring p)\<lparr>r_head := 0, r_tail := 0, r_count := 0\<rparr>,
         vp_read_refs := 0, vp_write_refs := 0\<rparr>) s))"

definition vfs_pipe_handle_alloc :: "int \<Rightarrow> bool \<Rightarrow> pipes \<Rightarrow> int \<times> pipes" where
  "vfs_pipe_handle_alloc pipe_idx writable s = (case find_slot (\<lambda>h. \<not> ph_used h) (vfs_pipe_handles s) of None \<Rightarrow> (-1, s)
     | Some i \<Rightarrow> (int i, upd_pipe (nat pipe_idx)
         (\<lambda>p. if writable then p\<lparr>vp_write_refs := vp_write_refs p + 1\<rparr> else p\<lparr>vp_read_refs := vp_read_refs p + 1\<rparr>)
         (s\<lparr>vfs_pipe_handles := (vfs_pipe_handles s)[i := \<lparr>ph_used = True, ph_pipe_idx = pipe_idx, ph_writable = writable\<rparr>]\<rparr>)))"

definition pipe_handle_ok :: "int \<Rightarrow> pipes \<Rightarrow> bool" where
  "pipe_handle_ok handle s \<longleftrightarrow> 0 \<le> handle \<and> handle < int (VFS_PIPE_MAX * 2) \<and> ph_used (vfs_pipe_handles s ! nat handle)"

primrec pipe_drain :: "nat \<Rightarrow> u8 ring \<Rightarrow> u8 list \<times> u8 ring" where
  "pipe_drain 0 r = ([], r)"
| "pipe_drain (Suc n) r = (if r_count r > 0
     then let (b, r1) = ring_pop VFS_PIPE_BUFFER_SIZE r; (bs, r2) = pipe_drain n r1 in (b # bs, r2) else ([], r))"

primrec pipe_fill :: "u8 list \<Rightarrow> u8 ring \<Rightarrow> nat \<times> u8 ring" where
  "pipe_fill [] r = (0, r)"
| "pipe_fill (b # bs) r = (if r_count r < VFS_PIPE_BUFFER_SIZE
     then let (n, r1) = pipe_fill bs (ring_push VFS_PIPE_BUFFER_SIZE b r) in (Suc n, r1) else (0, r))"

text \<open>A read returns its code and the bytes it stored in the caller's buffer; \<open>has_buf\<close> says whether the caller gave one.\<close>

definition pipe_read_backend :: "int \<Rightarrow> bool \<Rightarrow> u32 \<Rightarrow> pipes \<Rightarrow> (int \<times> u8 list) \<times> pipes" where
  "pipe_read_backend handle has_buf sz s =
     (if \<not> pipe_handle_ok handle s \<or> \<not> has_buf then ((VFS_ERR_INVALID_FD, []), s)
      else let h = vfs_pipe_handles s ! nat handle in
        if ph_writable h then ((VFS_ERR_PERM, []), s)
        else let i = nat (ph_pipe_idx h); pipe = vfs_pipes s ! i; (bs, r) = pipe_drain (unat sz) (vp_ring pipe);
                 s1 = upd_pipe i (\<lambda>p. p\<lparr>vp_ring := r\<rparr>) s in
          if bs = [] \<and> vp_write_refs pipe > 0 then ((VFS_ERR_WOULD_BLOCK, []), s1) else ((int (length bs), bs), s1))"

definition pipe_write_backend :: "int \<Rightarrow> u8 list option \<Rightarrow> pipes \<Rightarrow> int \<times> pipes" where
  "pipe_write_backend handle buf s =
     (if \<not> pipe_handle_ok handle s \<or> buf = None then (VFS_ERR_INVALID_FD, s)
      else let h = vfs_pipe_handles s ! nat handle in
        if \<not> ph_writable h then (VFS_ERR_PERM, s)
        else let i = nat (ph_pipe_idx h); pipe = vfs_pipes s ! i in
          if vp_read_refs pipe \<le> 0 then (VFS_ERR_IO, s)
          else let (n, r) = pipe_fill (the buf) (vp_ring pipe); s1 = upd_pipe i (\<lambda>p. p\<lparr>vp_ring := r\<rparr>) s in
            if n = 0 then (VFS_ERR_WOULD_BLOCK, s1) else (int n, s1))"

definition pipe_close_backend :: "int \<Rightarrow> pipes \<Rightarrow> int \<times> pipes" where
  "pipe_close_backend handle s =
     (if \<not> pipe_handle_ok handle s then (VFS_ERR_INVALID_FD, s)
      else let h = vfs_pipe_handles s ! nat handle; i = nat (ph_pipe_idx h);
               s1 = upd_pipe i (\<lambda>p. if ph_writable h
                  then (if vp_write_refs p > 0 then p\<lparr>vp_write_refs := vp_write_refs p - 1\<rparr> else p)
                  else (if vp_read_refs p > 0 then p\<lparr>vp_read_refs := vp_read_refs p - 1\<rparr> else p)) s;
               s2 = s1\<lparr>vfs_pipe_handles := (vfs_pipe_handles s1)[nat handle := \<lparr>ph_used = False, ph_pipe_idx = -1, ph_writable = False\<rparr>]\<rparr>;
               s3 = (if vp_read_refs (vfs_pipes s2 ! i) = 0 \<and> vp_write_refs (vfs_pipes s2 ! i) = 0
                  then upd_pipe i (\<lambda>p. p\<lparr>vp_used := False, vp_ring := (vp_ring p)\<lparr>r_head := 0, r_tail := 0, r_count := 0\<rparr>\<rparr>) s2 else s2)
           in (VFS_OK, s3))"

definition pipe_reset :: "vpipe \<Rightarrow> vpipe" where
  "pipe_reset p = p\<lparr>vp_used := False, vp_ring := (vp_ring p)\<lparr>r_head := 0, r_tail := 0, r_count := 0\<rparr>, vp_read_refs := 0, vp_write_refs := 0\<rparr>"

definition pipes_init :: "pipes \<Rightarrow> pipes" where
  "pipes_init s = s\<lparr>vfs_pipes := map pipe_reset (vfs_pipes s),
     vfs_pipe_handles := map (\<lambda>_. \<lparr>ph_used = False, ph_pipe_idx = -1, ph_writable = False\<rparr>) (vfs_pipe_handles s)\<rparr>"

section \<open>A pipe is a first-in-first-out byte stream\<close>

abbreviation pitems :: "u8 ring \<Rightarrow> u8 list" where
  "pitems \<equiv> ring_items VFS_PIPE_BUFFER_SIZE"

abbreviation pwf :: "u8 ring \<Rightarrow> bool" where
  "pwf \<equiv> ring_wf VFS_PIPE_BUFFER_SIZE"

lemma pipe_drain_spec:
  "pwf r \<Longrightarrow> fst (pipe_drain n r) = take n (pitems r) \<and> pwf (snd (pipe_drain n r)) \<and> pitems (snd (pipe_drain n r)) = drop n (pitems r)"
proof (induction n arbitrary: r)
  case (Suc n)
  show ?case
  proof (cases "r_count r > 0")
    case True
    let ?r = "snd (ring_pop VFS_PIPE_BUFFER_SIZE r)"
    have "pwf ?r" "pitems r = fst (ring_pop VFS_PIPE_BUFFER_SIZE r) # pitems ?r"
      using ring_pop_wf [OF Suc.prems True] ring_pop_items [OF Suc.prems True] by simp_all
    with Suc.IH [of ?r] True show ?thesis by (simp add: split_beta Let_def)
  next
    case False
    then have "pitems r = []" by (simp add: ring_items_empty)
    with False Suc.prems show ?thesis by simp
  qed
qed simp

lemma pipe_fill_spec:
  "pwf r \<Longrightarrow> fst (pipe_fill bs r) = min (length bs) (VFS_PIPE_BUFFER_SIZE - length (pitems r)) \<and> pwf (snd (pipe_fill bs r)) \<and>
   pitems (snd (pipe_fill bs r)) = pitems r @ take (VFS_PIPE_BUFFER_SIZE - length (pitems r)) bs"
proof (induction bs arbitrary: r)
  case (Cons b bs)
  show ?case
  proof (cases "r_count r < VFS_PIPE_BUFFER_SIZE")
    case True
    let ?r = "ring_push VFS_PIPE_BUFFER_SIZE b r"
    obtain m where m: "VFS_PIPE_BUFFER_SIZE - r_count r = Suc m" using True by (metis Suc_diff_Suc)
    have "pwf ?r" "pitems ?r = pitems r @ [b]" "r_count ?r = Suc (r_count r)"
      using ring_push_wf [OF Cons.prems True] ring_push_items [OF Cons.prems True] by (simp_all add: ring_push_def)
    moreover have "1023 - r_count r = m" using m by simp
    ultimately show ?thesis using Cons.IH [of ?r] True m by (simp add: split_beta Let_def)
  next
    case False
    then show ?thesis using Cons.prems by (simp add: ring_wf_def)
  qed
qed simp

text \<open>The two ends of one open pipe.\<close>

definition pipe_open :: "nat \<Rightarrow> int \<Rightarrow> int \<Rightarrow> pipes \<Rightarrow> bool" where
  "pipe_open i hr hw s \<longleftrightarrow> i < length (vfs_pipes s) \<and> pipe_handle_ok hr s \<and> pipe_handle_ok hw s \<and>
     ph_pipe_idx (vfs_pipe_handles s ! nat hr) = int i \<and> \<not> ph_writable (vfs_pipe_handles s ! nat hr) \<and>
     ph_pipe_idx (vfs_pipe_handles s ! nat hw) = int i \<and> ph_writable (vfs_pipe_handles s ! nat hw) \<and>
     vp_read_refs (vfs_pipes s ! i) > 0 \<and> pwf (vp_ring (vfs_pipes s ! i))"

datatype pipe_op = Pipe_Read u32 | Pipe_Write "u8 list"

text \<open>One call: the bytes it delivered to the reader and the bytes it accepted from the writer, by the code it returned.\<close>

fun pipe_io :: "int \<Rightarrow> int \<Rightarrow> pipe_op \<Rightarrow> pipes \<Rightarrow> (u8 list \<times> u8 list) \<times> pipes" where
  "pipe_io hr hw (Pipe_Read n) s = (let ((rc, bs), s1) = pipe_read_backend hr True n s in ((take (nat rc) bs, []), s1))"
| "pipe_io hr hw (Pipe_Write bs) s = (let (rc, s1) = pipe_write_backend hw (Some bs) s in (([], take (nat rc) bs), s1))"

abbreviation pipe_bytes :: "nat \<Rightarrow> pipes \<Rightarrow> u8 list" where
  "pipe_bytes i s \<equiv> pitems (vp_ring (vfs_pipes s ! i))"

lemma upd_ring_open:
  assumes "pipe_open i hr hw s" "pwf r"
  shows "pipe_open i hr hw (upd_pipe i (\<lambda>p. p\<lparr>vp_ring := r\<rparr>) s)" "pipe_bytes i (upd_pipe i (\<lambda>p. p\<lparr>vp_ring := r\<rparr>) s) = pitems r"
  using assms by (auto simp: pipe_open_def upd_pipe_def pipe_handle_ok_def)

lemma pipe_io_step:
  assumes "pipe_open i hr hw s"
  shows "pipe_open i hr hw (snd (pipe_io hr hw op s)) \<and>
    fst (fst (pipe_io hr hw op s)) @ pipe_bytes i (snd (pipe_io hr hw op s)) = pipe_bytes i s @ snd (fst (pipe_io hr hw op s))"
proof (cases op)
  case (Pipe_Read n)
  let ?r = "vp_ring (vfs_pipes s ! i)"
  have D: "fst (pipe_drain (unat n) ?r) = take (unat n) (pipe_bytes i s)" "pwf (snd (pipe_drain (unat n) ?r))"
    "pitems (snd (pipe_drain (unat n) ?r)) = drop (unat n) (pipe_bytes i s)"
    using pipe_drain_spec [of ?r "unat n"] assms by (simp_all add: pipe_open_def)
  have rd: "pipe_read_backend hr True n s = (if fst (pipe_drain (unat n) ?r) = [] \<and> vp_write_refs (vfs_pipes s ! i) > 0
      then (VFS_ERR_WOULD_BLOCK, []) else (int (length (fst (pipe_drain (unat n) ?r))), fst (pipe_drain (unat n) ?r)),
      upd_pipe i (\<lambda>p. p\<lparr>vp_ring := snd (pipe_drain (unat n) ?r)\<rparr>) s)"
    using assms by (auto simp: pipe_read_backend_def pipe_open_def Let_def split: prod.split)
  define bs where "bs = fst (pipe_drain (unat n) ?r)"
  have "fst (fst (pipe_io hr hw op s)) = bs \<and> snd (fst (pipe_io hr hw op s)) = [] \<and>
      snd (pipe_io hr hw op s) = upd_pipe i (\<lambda>p. p\<lparr>vp_ring := snd (pipe_drain (unat n) ?r)\<rparr>) s"
    unfolding Pipe_Read pipe_io.simps rd bs_def [symmetric] by (cases "bs = []") simp_all
  then show ?thesis using upd_ring_open [OF assms D(2)] D(1,3) by (simp add: bs_def)
next
  case (Pipe_Write bs)
  let ?r = "vp_ring (vfs_pipes s ! i)"
  have F: "fst (pipe_fill bs ?r) = min (length bs) (VFS_PIPE_BUFFER_SIZE - length (pipe_bytes i s))" "pwf (snd (pipe_fill bs ?r))"
    "pitems (snd (pipe_fill bs ?r)) = pipe_bytes i s @ take (VFS_PIPE_BUFFER_SIZE - length (pipe_bytes i s)) bs"
    using pipe_fill_spec [of ?r bs] assms by (simp_all add: pipe_open_def)
  have wr: "pipe_write_backend hw (Some bs) s = (if fst (pipe_fill bs ?r) = 0 then VFS_ERR_WOULD_BLOCK else int (fst (pipe_fill bs ?r)),
      upd_pipe i (\<lambda>p. p\<lparr>vp_ring := snd (pipe_fill bs ?r)\<rparr>) s)"
    using assms by (auto simp: pipe_write_backend_def pipe_open_def Let_def split: prod.split)
  define n where "n = fst (pipe_fill bs ?r)"
  have tk: "take n bs = take (VFS_PIPE_BUFFER_SIZE - length (pipe_bytes i s)) bs" unfolding n_def F(1) by (simp add: min_def)
  have "fst (fst (pipe_io hr hw op s)) = [] \<and> snd (fst (pipe_io hr hw op s)) = take n bs \<and>
      snd (pipe_io hr hw op s) = upd_pipe i (\<lambda>p. p\<lparr>vp_ring := snd (pipe_fill bs ?r)\<rparr>) s"
    unfolding Pipe_Write pipe_io.simps wr n_def [symmetric] by (cases "n = 0") simp_all
  then show ?thesis using upd_ring_open [OF assms F(2)] F(3) tk by simp
qed

text \<open>
  The ring of a pipe is a byte stream. (The only call that makes pipes, \<open>vfs_pipe\<close>, never succeeds, so this is a fact about the two routines and the ring alone.) In any sequence of reads and writes of any sizes on the two ends of an open pipe, the bytes delivered to the reader, followed by those
  still in the buffer, are the bytes that were in the buffer at the start followed by the bytes the writes accepted, in order: nothing is lost, repeated or reordered.
\<close>

theorem pipe_stream:
  assumes "pipe_open i hr hw s" "run_ops (pipe_io hr hw) ops s = (outs, s')"
  shows "concat (map fst outs) @ pipe_bytes i s' = pipe_bytes i s @ concat (map snd outs)"
  using assms
proof (induction ops arbitrary: s outs)
  case Nil
  then show ?case by simp
next
  case (Cons op ops)
  obtain o1 s1 where o1: "pipe_io hr hw op s = (o1, s1)" by fastforce
  obtain os where os: "run_ops (pipe_io hr hw) ops s1 = (os, s')" "outs = o1 # os"
    using Cons.prems(2) o1 by (auto split: prod.splits)
  have st: "pipe_open i hr hw s1" "fst o1 @ pipe_bytes i s1 = pipe_bytes i s @ snd o1"
    using pipe_io_step [OF Cons.prems(1), of op] o1 by simp_all
  have "concat (map fst outs) @ pipe_bytes i s' = fst o1 @ (pipe_bytes i s1 @ concat (map snd os))"
    using Cons.IH [OF st(1) os(1)] os(2) by simp
  also have "\<dots> = (fst o1 @ pipe_bytes i s1) @ concat (map snd os)" by simp
  also have "\<dots> = pipe_bytes i s @ concat (map snd outs)" unfolding st(2) os(2) by simp
  finally show ?case .
qed

definition pipe_pair :: pipes where
  "pipe_pair = \<lparr>vfs_pipes = [\<lparr>vp_used = True, vp_ring = ring_init VFS_PIPE_BUFFER_SIZE 0, vp_read_refs = 1, vp_write_refs = 1\<rparr>],
     vfs_pipe_handles = [\<lparr>ph_used = True, ph_pipe_idx = 0, ph_writable = False\<rparr>, \<lparr>ph_used = True, ph_pipe_idx = 0, ph_writable = True\<rparr>]\<rparr>"

theorem pipe_stream_witness:
  "concat (map fst (fst (run_ops (pipe_io 0 1) [Pipe_Write [1, 2, 3], Pipe_Read 2, Pipe_Read 5] pipe_pair))) @
     pipe_bytes 0 (snd (run_ops (pipe_io 0 1) [Pipe_Write [1, 2, 3], Pipe_Read 2, Pipe_Read 5] pipe_pair)) =
   concat (map snd (fst (run_ops (pipe_io 0 1) [Pipe_Write [1, 2, 3], Pipe_Read 2, Pipe_Read 5] pipe_pair)))"
proof -
  have "pipe_open 0 0 1 pipe_pair" by (simp add: pipe_open_def pipe_pair_def pipe_handle_ok_def ring_init_wf)
  moreover have "pipe_bytes 0 pipe_pair = []" by (simp add: pipe_pair_def)
  ultimately show ?thesis using pipe_stream [OF _ prod.collapse [symmetric], of 0 0 1 pipe_pair] by (simp del: run_ops.simps)
qed

end
