(* ===== verification/Ramdisk.thy ===== *)
theory Ramdisk
  imports Pipe
begin

text \<open>
  The memory file system of \<open>src/kernel/vfs.c\<close>: 64 files of up to 8192 bytes and 128 handles. A flat name space; a path is a name with an
  optional leading slash.
\<close>

abbreviation VFS_O_RDONLY :: u32 where "VFS_O_RDONLY \<equiv> 1"
abbreviation VFS_O_WRONLY :: u32 where "VFS_O_WRONLY \<equiv> 2"
abbreviation VFS_O_RDWR :: u32 where "VFS_O_RDWR \<equiv> 3"
abbreviation VFS_O_CREAT :: u32 where "VFS_O_CREAT \<equiv> 4"
abbreviation VFS_O_TRUNC :: u32 where "VFS_O_TRUNC \<equiv> 8"
abbreviation RAMDISK_MAX_FILES :: nat where "RAMDISK_MAX_FILES \<equiv> 64"
abbreviation RAMDISK_MAX_HANDLES :: nat where "RAMDISK_MAX_HANDLES \<equiv> 128"
abbreviation RAMDISK_NAME_MAX :: nat where "RAMDISK_NAME_MAX \<equiv> 23"
abbreviation RAMDISK_FILE_CAPACITY :: nat where "RAMDISK_FILE_CAPACITY \<equiv> 8192"

record vfs_stat_info =
  vs_size :: u32
  vs_flags :: u32

record ram_file =
  rf_used :: bool
  rf_name :: string
  rf_size :: u32
  rf_inode :: u32
  rf_mtime :: u32
  rf_data :: "u8 list"

record ram_handle =
  rh_used :: bool
  rh_entry_idx :: int
  rh_pos :: u32
  rh_flags :: u32

record ramdisk =
  ramdisk_files :: "ram_file list"
  ramdisk_handles :: "ram_handle list"
  ramdisk_next_inode :: u32
  ramdisk_mtime_tick :: u32

section \<open>Names and tables\<close>

text \<open>The scan of the name: what was copied and where it stopped.\<close>

fun name_scan :: "nat \<Rightarrow> string \<Rightarrow> string \<times> string" where
  "name_scan (Suc k) (c # cs) = (if c \<noteq> CHR ''/'' then (let (n, r) = name_scan k cs in (c # n, r)) else ([], c # cs))"
| "name_scan k cs = ([], cs)"

definition ramdisk_extract_name :: "string option \<Rightarrow> string option" where
  "ramdisk_extract_name path = (case path of None \<Rightarrow> None
     | Some p \<Rightarrow> let (name, rest) = name_scan RAMDISK_NAME_MAX (case p of CHR ''/'' # q \<Rightarrow> q | _ \<Rightarrow> p)
         in if name = [] \<or> rest \<noteq> [] then None else Some name)"

definition ramdisk_find_entry :: "string \<Rightarrow> ramdisk \<Rightarrow> int" where
  "ramdisk_find_entry name s = slot_index (\<lambda>f. rf_used f \<and> str_eq_loop (rf_name f) name) (ramdisk_files s)"

definition ramdisk_alloc_entry :: "ramdisk \<Rightarrow> int" where
  "ramdisk_alloc_entry s = slot_index (\<lambda>f. \<not> rf_used f) (ramdisk_files s)"

definition ramdisk_alloc_handle :: "ramdisk \<Rightarrow> int" where
  "ramdisk_alloc_handle s = slot_index (\<lambda>h. \<not> rh_used h) (ramdisk_handles s)"

definition upd_file :: "int \<Rightarrow> (ram_file \<Rightarrow> ram_file) \<Rightarrow> ramdisk \<Rightarrow> ramdisk" where
  "upd_file i f s = s\<lparr>ramdisk_files := (ramdisk_files s)[nat i := f (ramdisk_files s ! nat i)]\<rparr>"

definition upd_handle :: "int \<Rightarrow> (ram_handle \<Rightarrow> ram_handle) \<Rightarrow> ramdisk \<Rightarrow> ramdisk" where
  "upd_handle i f s = s\<lparr>ramdisk_handles := (ramdisk_handles s)[nat i := f (ramdisk_handles s ! nat i)]\<rparr>"

text \<open>\<open>file->mtime = ramdisk_mtime_tick++\<close>\<close>

definition touch :: "int \<Rightarrow> ramdisk \<Rightarrow> ramdisk" where
  "touch i s = upd_file i (\<lambda>f. f\<lparr>rf_mtime := ramdisk_mtime_tick s\<rparr>) (s\<lparr>ramdisk_mtime_tick := ramdisk_mtime_tick s + 1\<rparr>)"

definition ram_handle_ok :: "int \<Rightarrow> ramdisk \<Rightarrow> bool" where
  "ram_handle_ok handle s \<longleftrightarrow> 0 \<le> handle \<and> handle < int RAMDISK_MAX_HANDLES \<and> rh_used (ramdisk_handles s ! nat handle)"

abbreviation rhandle :: "ramdisk \<Rightarrow> int \<Rightarrow> ram_handle" where
  "rhandle s h \<equiv> ramdisk_handles s ! nat h"

abbreviation rfile :: "ramdisk \<Rightarrow> int \<Rightarrow> ram_file" where
  "rfile s i \<equiv> ramdisk_files s ! nat i"

section \<open>Operations\<close>

text \<open>The file that opening a new name makes, and the handle on an entry.\<close>

definition new_file :: "string \<Rightarrow> ramdisk \<Rightarrow> ramdisk" where
  "new_file name s = (let i = ramdisk_alloc_entry s in
     touch i (upd_file i (\<lambda>f. f\<lparr>rf_used := True, rf_name := copy_name (RAMDISK_NAME_MAX + 1) (Some name),
       rf_size := 0, rf_inode := ramdisk_next_inode s\<rparr>) (s\<lparr>ramdisk_next_inode := ramdisk_next_inode s + 1\<rparr>)))"

definition new_handle :: "u32 \<Rightarrow> int \<Rightarrow> ramdisk \<Rightarrow> int \<times> ramdisk" where
  "new_handle flags entry_idx s = (let handle = ramdisk_alloc_handle s in
     if handle < 0 then (VFS_ERR_NO_SPACE, s)
     else (handle, upd_handle handle (\<lambda>_. \<lparr>rh_used = True, rh_entry_idx = entry_idx, rh_pos = 0, rh_flags = flags\<rparr>) s))"

definition ramdisk_open :: "string option \<Rightarrow> u32 \<Rightarrow> ramdisk \<Rightarrow> int \<times> ramdisk" where
  "ramdisk_open path flags s = (case ramdisk_extract_name path of None \<Rightarrow> (VFS_ERR_INVALID_ARG, s)
     | Some name \<Rightarrow>
        let entry_idx = ramdisk_find_entry name s in
        if entry_idx < 0
        then if flags AND VFS_O_CREAT = 0 then (VFS_ERR_NOT_FOUND, s)
             else if ramdisk_alloc_entry s < 0 then (VFS_ERR_NO_SPACE, s)
             else new_handle flags (ramdisk_alloc_entry s) (new_file name s)
        else if flags AND VFS_O_TRUNC \<noteq> 0
        then new_handle flags entry_idx (touch entry_idx (upd_file entry_idx (\<lambda>f. f\<lparr>rf_size := 0\<rparr>) s))
        else new_handle flags entry_idx s)"

definition ramdisk_read :: "int \<Rightarrow> bool \<Rightarrow> u32 \<Rightarrow> ramdisk \<Rightarrow> (int \<times> u8 list) \<times> ramdisk" where
  "ramdisk_read handle has_buf sz s =
     (if \<not> ram_handle_ok handle s \<or> \<not> has_buf then ((VFS_ERR_INVALID_ARG, []), s)
      else let h = rhandle s handle in
        if rh_flags h AND VFS_O_RDONLY = 0 \<and> rh_flags h AND VFS_O_RDWR \<noteq> VFS_O_RDWR then ((VFS_ERR_PERM, []), s)
        else let file = rfile s (rh_entry_idx h) in
          if rh_pos h \<ge> rf_size file then ((0, []), s)
          else let remaining = rf_size file - rh_pos h; n = (if sz > remaining then remaining else sz);
                   bs = map (\<lambda>i. rf_data file ! (unat (rh_pos h) + i)) [0..<unat n]
               in ((sint n, bs), upd_handle handle (\<lambda>h. h\<lparr>rh_pos := rh_pos h + n\<rparr>) s))"

text \<open>The copy loop of a write: \<open>data[pos + i] = buf[i]\<close>.\<close>

definition poke :: "nat \<Rightarrow> u8 list \<Rightarrow> u8 list \<Rightarrow> u8 list" where
  "poke pos bs data = fold (\<lambda>i d. d[pos + i := bs ! i]) [0..<length bs] data"

definition ramdisk_write :: "int \<Rightarrow> u8 list option \<Rightarrow> ramdisk \<Rightarrow> int \<times> ramdisk" where
  "ramdisk_write handle buf s =
     (if \<not> ram_handle_ok handle s \<or> buf = None then (VFS_ERR_INVALID_ARG, s)
      else let h = rhandle s handle in
        if rh_flags h AND VFS_O_WRONLY = 0 \<and> rh_flags h AND VFS_O_RDWR \<noteq> VFS_O_RDWR then (VFS_ERR_PERM, s)
        else if unat (rh_pos h) \<ge> RAMDISK_FILE_CAPACITY then (VFS_ERR_NO_SPACE, s)
        else let idx = rh_entry_idx h; bs = take (RAMDISK_FILE_CAPACITY - unat (rh_pos h)) (the buf); n = of_nat (length bs);
                 s1 = upd_file idx (\<lambda>f. f\<lparr>rf_data := poke (unat (rh_pos h)) bs (rf_data f)\<rparr>) s;
                 s2 = upd_handle handle (\<lambda>h. h\<lparr>rh_pos := rh_pos h + n\<rparr>) s1;
                 s3 = (if rh_pos h + n > rf_size (rfile s2 idx) then upd_file idx (\<lambda>f. f\<lparr>rf_size := rh_pos h + n\<rparr>) s2 else s2)
             in (int (length bs), touch idx s3))"

definition ramdisk_close :: "int \<Rightarrow> ramdisk \<Rightarrow> int \<times> ramdisk" where
  "ramdisk_close handle s = (if \<not> ram_handle_ok handle s then (VFS_ERR_INVALID_ARG, s)
     else (VFS_OK, upd_handle handle (\<lambda>_. \<lparr>rh_used = False, rh_entry_idx = -1, rh_pos = 0, rh_flags = 0\<rparr>) s))"

definition ramdisk_delete :: "string option \<Rightarrow> ramdisk \<Rightarrow> int \<times> ramdisk" where
  "ramdisk_delete path s = (case ramdisk_extract_name path of None \<Rightarrow> (VFS_ERR_INVALID_ARG, s)
     | Some name \<Rightarrow> let entry_idx = ramdisk_find_entry name s in
         if entry_idx < 0 then (VFS_ERR_NOT_FOUND, s)
         else if list_ex (\<lambda>h. rh_used h \<and> rh_entry_idx h = entry_idx) (ramdisk_handles s) then (VFS_ERR_PERM, s)
         else (VFS_OK, upd_file entry_idx (\<lambda>f. f\<lparr>rf_used := False, rf_name := [], rf_size := 0, rf_inode := 0, rf_mtime := 0\<rparr>) s))"

definition ramdisk_lseek :: "int \<Rightarrow> int \<Rightarrow> int \<Rightarrow> ramdisk \<Rightarrow> int \<times> ramdisk" where
  "ramdisk_lseek handle offset whence s =
     (if \<not> ram_handle_ok handle s then (VFS_ERR_INVALID_ARG, s)
      else let h = rhandle s handle; size = sint (rf_size (rfile s (rh_entry_idx h)));
               base = (if whence = 0 then Some 0 else if whence = 1 then Some (sint (rh_pos h)) else if whence = 2 then Some size else None) in
        case base of None \<Rightarrow> (VFS_ERR_INVALID_ARG, s)
        | Some b \<Rightarrow> let new_pos = clamp_i32 (to_i32 (b + offset)) 0 size
            in (new_pos, upd_handle handle (\<lambda>h. h\<lparr>rh_pos := word_of_int new_pos\<rparr>) s))"

definition ramdisk_stat :: "string option \<Rightarrow> bool \<Rightarrow> ramdisk \<Rightarrow> int \<times> vfs_stat_info option" where
  "ramdisk_stat path has_out s = (if \<not> has_out then (VFS_ERR_INVALID_ARG, None)
     else case ramdisk_extract_name path of None \<Rightarrow> (VFS_ERR_INVALID_ARG, None)
     | Some name \<Rightarrow> let entry_idx = ramdisk_find_entry name s in
         if entry_idx < 0 then (VFS_ERR_NOT_FOUND, None) else (VFS_OK, Some \<lparr>vs_size = rf_size (rfile s entry_idx), vs_flags = 1\<rparr>))"

definition ramdisk_rename :: "string option \<Rightarrow> string option \<Rightarrow> ramdisk \<Rightarrow> int \<times> ramdisk" where
  "ramdisk_rename old_path new_path s = (case (ramdisk_extract_name old_path, ramdisk_extract_name new_path) of
       (Some old_name, Some new_name) \<Rightarrow>
         let old_idx = ramdisk_find_entry old_name s; new_idx = ramdisk_find_entry new_name s in
         if old_idx < 0 then (VFS_ERR_NOT_FOUND, s)
         else if new_idx \<ge> 0 \<and> new_idx \<noteq> old_idx then (VFS_ERR_PERM, s)
         else (VFS_OK, touch old_idx (upd_file old_idx (\<lambda>f. f\<lparr>rf_name := copy_name (RAMDISK_NAME_MAX + 1) (Some new_name)\<rparr>) s))
     | _ \<Rightarrow> (VFS_ERR_INVALID_ARG, s))"

definition ram_cap :: "u32 \<Rightarrow> u32" where
  "ram_cap sz = (if sz > 8192 then 8192 else sz)"

definition ramdisk_truncate :: "string option \<Rightarrow> u32 \<Rightarrow> ramdisk \<Rightarrow> int \<times> ramdisk" where
  "ramdisk_truncate path sz s = (case ramdisk_extract_name path of None \<Rightarrow> (VFS_ERR_INVALID_ARG, s)
     | Some name \<Rightarrow> let entry_idx = ramdisk_find_entry name s; n = ram_cap sz in
         if entry_idx < 0 then (VFS_ERR_NOT_FOUND, s)
         else let s1 = touch entry_idx (upd_file entry_idx (\<lambda>f. f\<lparr>rf_size := n\<rparr>) s)
              in (VFS_OK, s1\<lparr>ramdisk_handles := map (\<lambda>h. if rh_used h \<and> rh_entry_idx h = entry_idx \<and> rh_pos h > n then h\<lparr>rh_pos := n\<rparr> else h)
                   (ramdisk_handles s1)\<rparr>))"

definition ramdisk_ftruncate :: "int \<Rightarrow> u32 \<Rightarrow> ramdisk \<Rightarrow> int \<times> ramdisk" where
  "ramdisk_ftruncate handle sz s =
     (if \<not> ram_handle_ok handle s then (VFS_ERR_INVALID_FD, s)
      else let n = ram_cap sz; idx = rh_entry_idx (rhandle s handle);
               s1 = upd_file idx (\<lambda>f. f\<lparr>rf_size := n\<rparr>) s
           in (VFS_OK, touch idx (upd_handle handle (\<lambda>h. if rh_pos h > n then h\<lparr>rh_pos := n\<rparr> else h) s1)))"

definition ramdisk_init :: "ramdisk \<Rightarrow> ramdisk" where
  "ramdisk_init s = s\<lparr>ramdisk_files := map (\<lambda>f. f\<lparr>rf_used := False, rf_name := [], rf_size := 0, rf_inode := 0, rf_mtime := 0\<rparr>) (ramdisk_files s),
     ramdisk_handles := map (\<lambda>_. \<lparr>rh_used = False, rh_entry_idx = -1, rh_pos = 0, rh_flags = 0\<rparr>) (ramdisk_handles s),
     ramdisk_next_inode := 1, ramdisk_mtime_tick := 1\<rparr>"

end
