(* ===== verification/Vfs.thy ===== *)
theory Vfs
  imports Ramdisk
begin

text \<open>
  The descriptor layer of \<open>src/kernel/vfs.c\<close>: the mount table, the table of open files shared by all tasks, the descriptor table of each task, and the
  operations that dispatch to a backend. A backend is a table of function pointers, some of them null; \<open>'w\<close> is the state that the backends share.
\<close>

abbreviation VFS_MAX_MOUNTS :: nat where "VFS_MAX_MOUNTS \<equiv> 8"
abbreviation VFS_MAX_GLOBAL_FDS :: nat where "VFS_MAX_GLOBAL_FDS \<equiv> 512"
abbreviation VFS_MAX_TASKS :: nat where "VFS_MAX_TASKS \<equiv> 8"
abbreviation TASK_MAX_FDS :: nat where "TASK_MAX_FDS \<equiv> 256"

text \<open>The tables of function pointers, by address.\<close>

datatype backend = TFS | RAMDISK | PIPE | EXT2

record 'w vfs_ops =
  op_open :: "(string \<Rightarrow> u32 \<Rightarrow> 'w \<Rightarrow> int \<times> 'w) option"
  op_read :: "(int \<Rightarrow> bool \<Rightarrow> u32 \<Rightarrow> 'w \<Rightarrow> (int \<times> u8 list) \<times> 'w) option"
  op_write :: "(int \<Rightarrow> u8 list option \<Rightarrow> 'w \<Rightarrow> int \<times> 'w) option"
  op_close :: "(int \<Rightarrow> 'w \<Rightarrow> int \<times> 'w) option"
  op_delete :: "(string \<Rightarrow> 'w \<Rightarrow> int \<times> 'w) option"
  op_lseek :: "(int \<Rightarrow> int \<Rightarrow> int \<Rightarrow> 'w \<Rightarrow> int \<times> 'w) option"
  op_stat :: "(string \<Rightarrow> 'w \<Rightarrow> (int \<times> vfs_stat_info option) \<times> 'w) option"
  op_rename :: "(string \<Rightarrow> string \<Rightarrow> 'w \<Rightarrow> int \<times> 'w) option"
  op_mkdir :: "(string \<Rightarrow> int \<Rightarrow> 'w \<Rightarrow> int \<times> 'w) option"
  op_rmdir :: "(string \<Rightarrow> 'w \<Rightarrow> int \<times> 'w) option"
  op_truncate :: "(string \<Rightarrow> u32 \<Rightarrow> 'w \<Rightarrow> int \<times> 'w) option"
  op_ftruncate :: "(int \<Rightarrow> u32 \<Rightarrow> 'w \<Rightarrow> int \<times> 'w) option"
  op_chmod :: "(string \<Rightarrow> int \<Rightarrow> 'w \<Rightarrow> int \<times> 'w) option"
  op_chown :: "(string \<Rightarrow> int \<Rightarrow> int \<Rightarrow> 'w \<Rightarrow> int \<times> 'w) option"
  op_link :: "(string \<Rightarrow> string \<Rightarrow> 'w \<Rightarrow> int \<times> 'w) option"
  op_symlink :: "(string \<Rightarrow> string \<Rightarrow> 'w \<Rightarrow> int \<times> 'w) option"
  op_readlink :: "(string \<Rightarrow> u32 \<Rightarrow> 'w \<Rightarrow> (int \<times> string) \<times> 'w) option"

record vfs_mnt =
  mt_used :: bool
  mt_path :: string
  mt_len :: nat
  mt_ops :: "backend option"

record vfs_fd =
  fd_used :: bool
  fd_ops :: "backend option"
  fd_backend_handle :: int
  fd_flags :: u32
  fd_ref_count :: int

record 'w vfs =
  mounts :: "vfs_mnt list"
  fd_table :: "vfs_fd list"
  task_fd_map :: "int list list"
  vfs_task :: int
  world :: 'w

section \<open>Descriptors\<close>

definition current_task_id :: "'w vfs \<Rightarrow> nat" where
  "current_task_id s = (if vfs_task s < 0 \<or> vfs_task s \<ge> int VFS_MAX_TASKS then 0 else nat (vfs_task s))"

definition alloc_task_fd :: "nat \<Rightarrow> 'w vfs \<Rightarrow> int" where
  "alloc_task_fd task_id s = slot_index (\<lambda>g. g < 0) (task_fd_map s ! task_id)"

definition alloc_global_fd :: "'w vfs \<Rightarrow> int" where
  "alloc_global_fd s = slot_index (\<lambda>f. \<not> fd_used f) (fd_table s)"

definition task_fd_to_global :: "int \<Rightarrow> 'w vfs \<Rightarrow> int" where
  "task_fd_to_global local_fd s =
     (if local_fd < 0 \<or> local_fd \<ge> int TASK_MAX_FDS then -1 else task_fd_map s ! current_task_id s ! nat local_fd)"

abbreviation gfd_of :: "'w vfs \<Rightarrow> int \<Rightarrow> vfs_fd" where
  "gfd_of s g \<equiv> fd_table s ! nat g"

definition set_fd_map :: "nat \<Rightarrow> nat \<Rightarrow> int \<Rightarrow> 'w vfs \<Rightarrow> 'w vfs" where
  "set_fd_map t i g s = s\<lparr>task_fd_map := (task_fd_map s)[t := (task_fd_map s ! t)[i := g]]\<rparr>"

definition upd_gfd :: "int \<Rightarrow> (vfs_fd \<Rightarrow> vfs_fd) \<Rightarrow> 'w vfs \<Rightarrow> 'w vfs" where
  "upd_gfd g f s = s\<lparr>fd_table := (fd_table s)[nat g := f (gfd_of s g)]\<rparr>"

abbreviation free_fd :: vfs_fd where
  "free_fd \<equiv> \<lparr>fd_used = False, fd_ops = None, fd_backend_handle = -1, fd_flags = 0, fd_ref_count = 0\<rparr>"

text \<open>Calling through a function pointer of a backend, on the part of the state the backends own.\<close>

definition on_world :: "('w \<Rightarrow> 'r \<times> 'w) \<Rightarrow> 'w vfs \<Rightarrow> 'r \<times> 'w vfs" where
  "on_world f s = (let (r, w) = f (world s) in (r, s\<lparr>world := w\<rparr>))"

definition gfd_ok :: "int \<Rightarrow> 'w vfs \<Rightarrow> bool" where
  "gfd_ok g s \<longleftrightarrow> 0 \<le> g \<and> g < int VFS_MAX_GLOBAL_FDS \<and> fd_used (gfd_of s g) \<and> fd_ops (gfd_of s g) \<noteq> None"

definition close_global_fd :: "(backend \<Rightarrow> 'w vfs_ops) \<Rightarrow> int \<Rightarrow> 'w vfs \<Rightarrow> int \<times> 'w vfs" where
  "close_global_fd ops gfd s =
     (if \<not> gfd_ok gfd s then (VFS_ERR_INVALID_FD, s)
      else if fd_ref_count (gfd_of s gfd) > 1 then (VFS_OK, upd_gfd gfd (\<lambda>f. f\<lparr>fd_ref_count := fd_ref_count f - 1\<rparr>) s)
      else let (rc, s1) = (case op_close (ops (the (fd_ops (gfd_of s gfd)))) of None \<Rightarrow> (VFS_OK, s)
             | Some close \<Rightarrow> on_world (close (fd_backend_handle (gfd_of s gfd))) s)
           in (rc, upd_gfd gfd (\<lambda>_. free_fd) s1))"

section \<open>Mounts\<close>

fun str_prefix :: "string \<Rightarrow> string \<Rightarrow> bool" where
  "str_prefix s [] = True"
| "str_prefix (c # s) (p # prefix) = (if c \<noteq> p then False else str_prefix s prefix)"
| "str_prefix [] (p # prefix) = False"

text \<open>One round of the search; \<open>path[ml]\<close> is the end of the string or a slash.\<close>

definition mount_step :: "string \<Rightarrow> vfs_mnt list \<Rightarrow> nat \<Rightarrow> nat option \<Rightarrow> nat option" where
  "mount_step path ms i best =
     (let m = ms ! i in
      if \<not> mt_used m then best
      else if str_eq_loop (mt_path m) ''/'' then (if best = None then Some i else best)
      else if str_prefix path (mt_path m) \<and> (let rest = drop (mt_len m) path in rest = [] \<or> hd rest = CHR ''/'') \<and>
        (best = None \<or> mt_len m > mt_len (ms ! the best)) then Some i
      else best)"

definition resolve_mount :: "string \<Rightarrow> 'w vfs \<Rightarrow> (backend option \<times> string) option" where
  "resolve_mount path s =
     (case fold (mount_step path (mounts s)) [0..<VFS_MAX_MOUNTS] None of None \<Rightarrow> None
      | Some b \<Rightarrow> let m = mounts s ! b in
          Some (mt_ops m, if str_eq_loop (mt_path m) ''/'' then path
            else if drop (mt_len m) path = [] then ''/'' else drop (mt_len m) path))"

definition upd_mount :: "nat \<Rightarrow> (vfs_mnt \<Rightarrow> vfs_mnt) \<Rightarrow> 'w vfs \<Rightarrow> 'w vfs" where
  "upd_mount i f s = s\<lparr>mounts := (mounts s)[i := f (mounts s ! i)]\<rparr>"

definition vfs_mount :: "string option \<Rightarrow> backend option \<Rightarrow> 'w vfs \<Rightarrow> int \<times> 'w vfs" where
  "vfs_mount mount_path ops s =
     (case (mount_path, ops) of
        (Some p, Some b) \<Rightarrow>
          if p = [] \<or> hd p \<noteq> CHR ''/'' then (VFS_ERR_INVALID_ARG, s)
          else (case find_slot (\<lambda>m. mt_used m \<and> str_eq_loop (mt_path m) p) (mounts s) of
              Some i \<Rightarrow> (VFS_OK, upd_mount i (\<lambda>m. m\<lparr>mt_ops := Some b\<rparr>) s)
            | None \<Rightarrow> (case find_slot (\<lambda>m. \<not> mt_used m) (mounts s) of
                Some i \<Rightarrow> let path = copy_name 24 (Some p)
                  in (VFS_OK, upd_mount i (\<lambda>_. \<lparr>mt_used = True, mt_path = path, mt_len = length path, mt_ops = Some b\<rparr>) s)
              | None \<Rightarrow> (VFS_ERR_NO_SPACE, s)))
      | _ \<Rightarrow> (VFS_ERR_INVALID_ARG, s))"

definition vfs_umount :: "string option \<Rightarrow> 'w vfs \<Rightarrow> int \<times> 'w vfs" where
  "vfs_umount mount_path s =
     (case mount_path of None \<Rightarrow> (VFS_ERR_INVALID_ARG, s)
      | Some p \<Rightarrow>
          if p = [] \<or> hd p \<noteq> CHR ''/'' then (VFS_ERR_INVALID_ARG, s)
          else if str_eq_loop p ''/'' then (VFS_ERR_PERM, s)
          else (case find_slot (\<lambda>m. mt_used m \<and> str_eq_loop (mt_path m) p) (mounts s) of
              Some i \<Rightarrow> (VFS_OK, upd_mount i (\<lambda>_. \<lparr>mt_used = False, mt_path = [], mt_len = 0, mt_ops = None\<rparr>) s)
            | None \<Rightarrow> (VFS_ERR_NOT_FOUND, s)))"

definition lower_case :: "char \<Rightarrow> char" where
  "lower_case c = (if 65 \<le> (of_char c :: nat) \<and> (of_char c :: nat) \<le> 90 then char_of (of_char c + 32 :: nat) else c)"

fun str_case_eq :: "string \<Rightarrow> string \<Rightarrow> bool" where
  "str_case_eq (a # as) (b # bs) = (if lower_case a \<noteq> lower_case b then False else str_case_eq as bs)"
| "str_case_eq as bs = (as = [] \<and> bs = [])"

text \<open>The ext2 driver reads partition tables to find its backend; it is the argument \<open>ext2_backend_from_spec\<close>.\<close>

definition lookup_backend :: "(string \<Rightarrow> 'w \<Rightarrow> backend option \<times> 'w) \<Rightarrow> string option \<Rightarrow> 'w vfs \<Rightarrow> backend option \<times> 'w vfs" where
  "lookup_backend ext2_backend_from_spec name s =
     (case name of None \<Rightarrow> (None, s)
      | Some n \<Rightarrow>
          if str_case_eq n ''tfs'' then (Some TFS, s)
          else if str_case_eq n ''ramdisk'' then (Some RAMDISK, s)
          else if str_prefix n ''ext2'' then on_world (ext2_backend_from_spec n) s
          else (None, s))"

definition vfs_mount_backend ::
  "(string \<Rightarrow> 'w \<Rightarrow> backend option \<times> 'w) \<Rightarrow> string option \<Rightarrow> string option \<Rightarrow> 'w vfs \<Rightarrow> int \<times> 'w vfs" where
  "vfs_mount_backend ext2_backend_from_spec mount_path backend_name s =
     (let (ops, s1) = lookup_backend ext2_backend_from_spec backend_name s
      in if ops = None then (VFS_ERR_NOT_FOUND, s1) else vfs_mount mount_path ops s1)"

definition vfs_list_mounts :: "bool \<Rightarrow> int \<Rightarrow> 'w vfs \<Rightarrow> int \<times> string list" where
  "vfs_list_mounts has_out max_entries s =
     (if \<not> has_out \<or> max_entries \<le> 0 then (VFS_ERR_INVALID_ARG, [])
      else let ms = copy_out mt_used (nat max_entries) (mounts s) in (int (length ms), map (\<lambda>m. copy_name 24 (Some (mt_path m))) ms))"

section \<open>Operations on paths\<close>

text \<open>The common guard of the operations on a path: the mount is found, it has a backend, and the backend has the operation.\<close>

definition with_backend ::
  "(backend \<Rightarrow> 'w vfs_ops) \<Rightarrow> ('w vfs_ops \<Rightarrow> 'f option) \<Rightarrow> string \<Rightarrow> 'r \<Rightarrow> (backend \<Rightarrow> 'f \<Rightarrow> string \<Rightarrow> 'w vfs \<Rightarrow> 'r \<times> 'w vfs) \<Rightarrow>
     'w vfs \<Rightarrow> 'r \<times> 'w vfs" where
  "with_backend ops op path not_found k s =
     (case resolve_mount path s of None \<Rightarrow> (not_found, s)
      | Some (None, _) \<Rightarrow> (not_found, s)
      | Some (Some b, rel_path) \<Rightarrow> (case op (ops b) of None \<Rightarrow> (not_found, s) | Some f \<Rightarrow> k b f rel_path s))"

definition vfs_open :: "(backend \<Rightarrow> 'w vfs_ops) \<Rightarrow> string option \<Rightarrow> u32 \<Rightarrow> 'w vfs \<Rightarrow> int \<times> 'w vfs" where
  "vfs_open ops path flags s =
     (if path = None \<or> path = Some [] then (VFS_ERR_INVALID_ARG, s)
      else with_backend ops op_open (the path) VFS_ERR_NOT_FOUND (\<lambda>b open rel_path s0.
        let (backend_handle, s1) = on_world (open rel_path flags) s0 in
        if backend_handle < 0 then (backend_handle, s1)
        else let task_id = current_task_id s1; gfd = alloc_global_fd s1; lfd = alloc_task_fd task_id s1 in
          if gfd < 0 \<or> lfd < 0
          then (VFS_ERR_NO_SPACE, case op_close (ops b) of None \<Rightarrow> s1 | Some close \<Rightarrow> snd (on_world (close backend_handle) s1))
          else (lfd, set_fd_map task_id (nat lfd) gfd (upd_gfd gfd (\<lambda>_. \<lparr>fd_used = True, fd_ops = Some b,
                 fd_backend_handle = backend_handle, fd_flags = flags, fd_ref_count = 1\<rparr>) s1))) s)"

definition vfs_delete :: "(backend \<Rightarrow> 'w vfs_ops) \<Rightarrow> string option \<Rightarrow> 'w vfs \<Rightarrow> int \<times> 'w vfs" where
  "vfs_delete ops path s =
     (if path = None \<or> path = Some [] then (VFS_ERR_INVALID_ARG, s)
      else with_backend ops op_delete (the path) VFS_ERR_NOT_FOUND (\<lambda>b f rel_path. on_world (f rel_path)) s)"

definition vfs_stat :: "(backend \<Rightarrow> 'w vfs_ops) \<Rightarrow> string option \<Rightarrow> bool \<Rightarrow> 'w vfs \<Rightarrow> (int \<times> vfs_stat_info option) \<times> 'w vfs" where
  "vfs_stat ops path has_out s =
     (if path = None \<or> \<not> has_out then ((VFS_ERR_INVALID_ARG, None), s)
      else with_backend ops op_stat (the path) (VFS_ERR_NOT_FOUND, None) (\<lambda>b f rel_path. on_world (f rel_path)) s)"

definition vfs_rename :: "(backend \<Rightarrow> 'w vfs_ops) \<Rightarrow> string option \<Rightarrow> string option \<Rightarrow> 'w vfs \<Rightarrow> int \<times> 'w vfs" where
  "vfs_rename ops old_path new_path s =
     (case (old_path, new_path) of
        (Some p, Some q) \<Rightarrow>
          (case (resolve_mount p s, resolve_mount q s) of
             (Some (ops_old, rel_old), Some (ops_new, rel_new)) \<Rightarrow>
               if ops_old \<noteq> ops_new \<or> ops_old = None then (VFS_ERR_PERM, s)
               else (case op_rename (ops (the ops_old)) of None \<Rightarrow> (VFS_ERR_PERM, s)
                 | Some f \<Rightarrow> on_world (f rel_old rel_new) s)
           | _ \<Rightarrow> (VFS_ERR_NOT_FOUND, s))
      | _ \<Rightarrow> (VFS_ERR_INVALID_ARG, s))"

definition vfs_mkdir :: "(backend \<Rightarrow> 'w vfs_ops) \<Rightarrow> string option \<Rightarrow> int \<Rightarrow> 'w vfs \<Rightarrow> int \<times> 'w vfs" where
  "vfs_mkdir ops path mode s =
     (if path = None then (VFS_ERR_INVALID_ARG, s)
      else with_backend ops op_mkdir (the path) VFS_ERR_NOT_FOUND (\<lambda>b f rel_path. on_world (f rel_path mode)) s)"

definition vfs_rmdir :: "(backend \<Rightarrow> 'w vfs_ops) \<Rightarrow> string option \<Rightarrow> 'w vfs \<Rightarrow> int \<times> 'w vfs" where
  "vfs_rmdir ops path s =
     (if path = None then (VFS_ERR_INVALID_ARG, s)
      else with_backend ops op_rmdir (the path) VFS_ERR_NOT_FOUND (\<lambda>b f rel_path. on_world (f rel_path)) s)"

definition vfs_truncate :: "(backend \<Rightarrow> 'w vfs_ops) \<Rightarrow> string option \<Rightarrow> u32 \<Rightarrow> 'w vfs \<Rightarrow> int \<times> 'w vfs" where
  "vfs_truncate ops path sz s =
     (if path = None then (VFS_ERR_INVALID_ARG, s)
      else with_backend ops op_truncate (the path) VFS_ERR_NOT_FOUND (\<lambda>b f rel_path. on_world (f rel_path sz)) s)"

definition vfs_chmod :: "(backend \<Rightarrow> 'w vfs_ops) \<Rightarrow> string option \<Rightarrow> int \<Rightarrow> 'w vfs \<Rightarrow> int \<times> 'w vfs" where
  "vfs_chmod ops path mode s =
     (if path = None then (VFS_ERR_INVALID_ARG, s)
      else with_backend ops op_chmod (the path) VFS_ERR_NOT_FOUND (\<lambda>b f rel_path. on_world (f rel_path mode)) s)"

definition vfs_chown :: "(backend \<Rightarrow> 'w vfs_ops) \<Rightarrow> string option \<Rightarrow> int \<Rightarrow> int \<Rightarrow> 'w vfs \<Rightarrow> int \<times> 'w vfs" where
  "vfs_chown ops path uid gid s =
     (if path = None then (VFS_ERR_INVALID_ARG, s)
      else with_backend ops op_chown (the path) VFS_ERR_NOT_FOUND (\<lambda>b f rel_path. on_world (f rel_path uid gid)) s)"

text \<open>The link operations hand the backend the whole paths, not the paths below the mount.\<close>

definition vfs_link :: "(backend \<Rightarrow> 'w vfs_ops) \<Rightarrow> string option \<Rightarrow> string option \<Rightarrow> 'w vfs \<Rightarrow> int \<times> 'w vfs" where
  "vfs_link ops old_path new_path s =
     (if old_path = None \<or> new_path = None then (VFS_ERR_INVALID_ARG, s)
      else with_backend ops op_link (the new_path) VFS_ERR_NOT_FOUND (\<lambda>b f _. on_world (f (the old_path) (the new_path))) s)"

definition vfs_symlink :: "(backend \<Rightarrow> 'w vfs_ops) \<Rightarrow> string option \<Rightarrow> string option \<Rightarrow> 'w vfs \<Rightarrow> int \<times> 'w vfs" where
  "vfs_symlink ops target link_path s =
     (if target = None \<or> link_path = None then (VFS_ERR_INVALID_ARG, s)
      else with_backend ops op_symlink (the link_path) VFS_ERR_NOT_FOUND (\<lambda>b f _. on_world (f (the target) (the link_path))) s)"

definition vfs_readlink :: "(backend \<Rightarrow> 'w vfs_ops) \<Rightarrow> string option \<Rightarrow> bool \<Rightarrow> u32 \<Rightarrow> 'w vfs \<Rightarrow> (int \<times> string) \<times> 'w vfs" where
  "vfs_readlink ops link_path has_buf max_len s =
     (if link_path = None \<or> \<not> has_buf then ((VFS_ERR_INVALID_ARG, []), s)
      else with_backend ops op_readlink (the link_path) (VFS_ERR_NOT_FOUND, []) (\<lambda>b f _. on_world (f (the link_path) max_len)) s)"

section \<open>Operations on descriptors\<close>

text \<open>The common guard of the operations on a descriptor.\<close>

definition with_fd ::
  "(backend \<Rightarrow> 'w vfs_ops) \<Rightarrow> ('w vfs_ops \<Rightarrow> 'f option) \<Rightarrow> int \<Rightarrow> 'r \<Rightarrow> ('f \<Rightarrow> int \<Rightarrow> 'w \<Rightarrow> 'r \<times> 'w) \<Rightarrow> 'w vfs \<Rightarrow> 'r \<times> 'w vfs" where
  "with_fd ops op fd bad k s =
     (let gfd = task_fd_to_global fd s in
      if \<not> gfd_ok gfd s then (bad, s)
      else case op (ops (the (fd_ops (gfd_of s gfd)))) of None \<Rightarrow> (bad, s)
        | Some f \<Rightarrow> on_world (k f (fd_backend_handle (gfd_of s gfd))) s)"

definition vfs_read :: "(backend \<Rightarrow> 'w vfs_ops) \<Rightarrow> int \<Rightarrow> bool \<Rightarrow> u32 \<Rightarrow> 'w vfs \<Rightarrow> (int \<times> u8 list) \<times> 'w vfs" where
  "vfs_read ops fd has_buf sz s = with_fd ops op_read fd (VFS_ERR_INVALID_FD, []) (\<lambda>f h. f h has_buf sz) s"

definition vfs_write :: "(backend \<Rightarrow> 'w vfs_ops) \<Rightarrow> int \<Rightarrow> u8 list option \<Rightarrow> 'w vfs \<Rightarrow> int \<times> 'w vfs" where
  "vfs_write ops fd buf s = with_fd ops op_write fd VFS_ERR_INVALID_FD (\<lambda>f h. f h buf) s"

definition vfs_lseek :: "(backend \<Rightarrow> 'w vfs_ops) \<Rightarrow> int \<Rightarrow> int \<Rightarrow> int \<Rightarrow> 'w vfs \<Rightarrow> int \<times> 'w vfs" where
  "vfs_lseek ops fd offset whence s = with_fd ops op_lseek fd VFS_ERR_INVALID_FD (\<lambda>f h. f h offset whence) s"

definition vfs_ftruncate :: "(backend \<Rightarrow> 'w vfs_ops) \<Rightarrow> int \<Rightarrow> u32 \<Rightarrow> 'w vfs \<Rightarrow> int \<times> 'w vfs" where
  "vfs_ftruncate ops fd sz s = with_fd ops op_ftruncate fd VFS_ERR_INVALID_FD (\<lambda>f h. f h sz) s"

definition vfs_close :: "(backend \<Rightarrow> 'w vfs_ops) \<Rightarrow> int \<Rightarrow> 'w vfs \<Rightarrow> int \<times> 'w vfs" where
  "vfs_close ops fd s =
     (if fd < 0 \<or> fd \<ge> int TASK_MAX_FDS then (VFS_ERR_INVALID_FD, s)
      else let task_id = current_task_id s; gfd = task_fd_map s ! task_id ! nat fd in
        if gfd < 0 then (VFS_ERR_INVALID_FD, s) else close_global_fd ops gfd (set_fd_map task_id (nat fd) (-1) s))"

definition vfs_dup :: "int \<Rightarrow> 'w vfs \<Rightarrow> int \<times> 'w vfs" where
  "vfs_dup fd s =
     (let task_id = current_task_id s; gfd = task_fd_to_global fd s in
      if \<not> gfd_ok gfd s then (VFS_ERR_INVALID_FD, s)
      else let newfd = alloc_task_fd task_id s in
        if newfd < 0 then (VFS_ERR_NO_SPACE, s)
        else (newfd, upd_gfd gfd (\<lambda>f. f\<lparr>fd_ref_count := fd_ref_count f + 1\<rparr>) (set_fd_map task_id (nat newfd) gfd s)))"

definition vfs_dup2 :: "(backend \<Rightarrow> 'w vfs_ops) \<Rightarrow> int \<Rightarrow> int \<Rightarrow> 'w vfs \<Rightarrow> int \<times> 'w vfs" where
  "vfs_dup2 ops fd newfd s =
     (let task_id = current_task_id s; src_gfd = task_fd_to_global fd s in
      if \<not> gfd_ok src_gfd s then (VFS_ERR_INVALID_FD, s)
      else if newfd < 0 \<or> newfd \<ge> int TASK_MAX_FDS then (VFS_ERR_INVALID_ARG, s)
      else if fd = newfd then (newfd, s)
      else let s1 = (if task_fd_map s ! task_id ! nat newfd \<ge> 0 then snd (vfs_close ops newfd s) else s)
           in (newfd, upd_gfd src_gfd (\<lambda>f. f\<lparr>fd_ref_count := fd_ref_count f + 1\<rparr>) (set_fd_map task_id (nat newfd) src_gfd s1)))"

definition vfs_fcntl :: "int \<Rightarrow> int \<Rightarrow> u32 \<Rightarrow> 'w vfs \<Rightarrow> int \<times> 'w vfs" where
  "vfs_fcntl fd cmd arg s =
     (let gfd = task_fd_to_global fd s in
      if gfd < 0 \<or> gfd \<ge> int VFS_MAX_GLOBAL_FDS \<or> \<not> fd_used (gfd_of s gfd) then (VFS_ERR_INVALID_FD, s)
      else if cmd = 1 then (sint (fd_flags (gfd_of s gfd)), s)
      else if cmd = 2 then (VFS_OK, upd_gfd gfd (\<lambda>f. f\<lparr>fd_flags := arg\<rparr>) s)
      else (VFS_ERR_INVALID_ARG, s))"

definition close_slot :: "(backend \<Rightarrow> 'w vfs_ops) \<Rightarrow> nat \<Rightarrow> nat \<Rightarrow> 'w vfs \<Rightarrow> 'w vfs" where
  "close_slot ops t i s =
     (let gfd = task_fd_map s ! t ! i in if gfd \<ge> 0 then snd (close_global_fd ops gfd (set_fd_map t i (-1) s)) else s)"

definition vfs_close_all_for_task :: "(backend \<Rightarrow> 'w vfs_ops) \<Rightarrow> int \<Rightarrow> 'w vfs \<Rightarrow> 'w vfs" where
  "vfs_close_all_for_task ops task_id s =
     (if task_id < 0 \<or> task_id \<ge> int VFS_MAX_TASKS then s else fold (close_slot ops (nat task_id)) [0..<TASK_MAX_FDS] s)"

definition clone_slot :: "nat \<Rightarrow> nat \<Rightarrow> nat \<Rightarrow> 'w vfs \<Rightarrow> 'w vfs" where
  "clone_slot src dst i s =
     (let gfd = task_fd_map s ! src ! i in
      if 0 \<le> gfd \<and> gfd < int VFS_MAX_GLOBAL_FDS \<and> fd_used (gfd_of s gfd)
      then upd_gfd gfd (\<lambda>f. f\<lparr>fd_ref_count := fd_ref_count f + 1\<rparr>) (set_fd_map dst i gfd s) else s)"

definition vfs_clone_task_fds :: "int \<Rightarrow> int \<Rightarrow> 'w vfs \<Rightarrow> int \<times> 'w vfs" where
  "vfs_clone_task_fds src_task_id dst_task_id s =
     (if src_task_id < 0 \<or> src_task_id \<ge> int VFS_MAX_TASKS \<or> dst_task_id < 0 \<or> dst_task_id \<ge> int VFS_MAX_TASKS then (VFS_ERR_INVALID_ARG, s)
      else let s1 = fold (\<lambda>i. set_fd_map (nat dst_task_id) i (-1)) [0..<TASK_MAX_FDS] s
           in (VFS_OK, fold (clone_slot (nat src_task_id) (nat dst_task_id)) [0..<TASK_MAX_FDS] s1))"

section \<open>Whole files\<close>

text \<open>
  The loops of \<open>vfs_read_file\<close> and \<open>vfs_write_file\<close> end only if the backend makes progress: not returning is \<open>None\<close>. The bytes read so far are
  \<open>acc\<close>; \<open>buf + totalal\<close> is a null pointer only in the first round.
\<close>

partial_function (option) read_file_loop ::
  "(backend \<Rightarrow> 'w vfs_ops) \<Rightarrow> int \<Rightarrow> bool \<Rightarrow> u32 \<Rightarrow> u32 \<Rightarrow> u8 list \<Rightarrow> 'w vfs \<Rightarrow> ((int \<times> u8 list) \<times> 'w vfs) option" where
  "read_file_loop ops fd has_buf max_size tot acc s =
     (if tot < max_size
      then let ((n, bs), s1) = vfs_read ops fd (has_buf \<or> tot \<noteq> 0) (max_size - tot) s in
        if n < 0 then Some ((n, acc), snd (vfs_close ops fd s1))
        else if n = 0 then Some ((sint tot, acc), snd (vfs_close ops fd s1))
        else read_file_loop ops fd has_buf max_size (tot + word_of_int n) (acc @ bs) s1
      else Some ((sint tot, acc), snd (vfs_close ops fd s)))"

definition vfs_read_file ::
  "(backend \<Rightarrow> 'w vfs_ops) \<Rightarrow> string option \<Rightarrow> bool \<Rightarrow> u32 \<Rightarrow> 'w vfs \<Rightarrow> ((int \<times> u8 list) \<times> 'w vfs) option" where
  "vfs_read_file ops path has_buf max_size s =
     (let (fd, s1) = vfs_open ops path VFS_O_RDONLY s in
      if fd < 0 then Some ((fd, []), s1) else read_file_loop ops fd has_buf max_size 0 [] s1)"

partial_function (option) write_file_loop ::
  "(backend \<Rightarrow> 'w vfs_ops) \<Rightarrow> int \<Rightarrow> u8 list \<Rightarrow> u32 \<Rightarrow> 'w vfs \<Rightarrow> (int \<times> 'w vfs) option" where
  "write_file_loop ops fd buf tot s =
     (if tot < of_nat (length buf)
      then let (n, s1) = vfs_write ops fd (Some (drop (unat tot) buf)) s in
        if n \<le> 0 then Some (VFS_ERR_IO, snd (vfs_close ops fd s1))
        else write_file_loop ops fd buf (tot + word_of_int n) s1
      else Some (sint tot, snd (vfs_close ops fd s)))"

definition vfs_write_file :: "(backend \<Rightarrow> 'w vfs_ops) \<Rightarrow> string option \<Rightarrow> u8 list \<Rightarrow> 'w vfs \<Rightarrow> (int \<times> 'w vfs) option" where
  "vfs_write_file ops path buf s =
     (let (fd, s1) = vfs_open ops path (VFS_O_WRONLY OR VFS_O_CREAT OR VFS_O_TRUNC) s in
      if fd < 0 then Some (fd, s1) else write_file_loop ops fd buf 0 s1)"

definition vfs_init :: "('w \<Rightarrow> 'w) \<Rightarrow> 'w vfs \<Rightarrow> 'w vfs" where
  "vfs_init world_init s =
     snd (vfs_mount (Some ''/'') (Some TFS) (s\<lparr>mounts := map (\<lambda>_. \<lparr>mt_used = False, mt_path = [], mt_len = 0, mt_ops = None\<rparr>) (mounts s),
       fd_table := map (\<lambda>_. free_fd) (fd_table s), task_fd_map := map (map (\<lambda>_. -1)) (task_fd_map s), world := world_init (world s)\<rparr>))"

end
