(* ===== verification/Tfs.thy ===== *)
theory Tfs
  imports Vfs Partition
begin

text \<open>
  The disk backend of \<open>src/kernel/vfs.c\<close>: the tiny file system. The directory is an array of 25 entries of 24 bytes in memory (600 bytes), of which the
  one directory sector holds the first 512; the data of entry \<open>i\<close> starts at sector \<open>200 + i\<close>. The sector operations are those of the cached disk.
\<close>

abbreviation TFS_DIR_LBA :: u32 where "TFS_DIR_LBA \<equiv> 150"
abbreviation TFS_DATA_START :: u32 where "TFS_DATA_START \<equiv> 200"
abbreviation TFS_MAX_FILES :: nat where "TFS_MAX_FILES \<equiv> 25"
abbreviation TFS_MAX_HANDLES :: nat where "TFS_MAX_HANDLES \<equiv> 256"

record 'c disk_if =
  dk_read :: "u32 \<Rightarrow> sector option \<Rightarrow> 'c \<Rightarrow> sector option \<times> 'c"
  dk_write :: "u32 \<Rightarrow> sector option \<Rightarrow> 'c \<Rightarrow> 'c"
  dk_available :: "'c \<Rightarrow> bool"

record tfs_handle =
  th_used :: bool
  th_ref_count :: int
  th_entry_idx :: int
  th_pos :: u32
  th_flags :: u32

record 'c tfs =
  root_directory :: "u8 list"
  tfs_handles :: "tfs_handle list"
  tfs_disk :: 'c

section \<open>The directory\<close>

text \<open>The fields of an entry: a name of up to 11 characters and its NUL, the first sector, the size, the flags.\<close>

definition entry_name :: "u8 list \<Rightarrow> int \<Rightarrow> string" where
  "entry_name dir i = map (\<lambda>b. char_of (unat b)) (takeWhile (\<lambda>b. b \<noteq> 0) (drop (24 * nat i) dir))"

definition entry_lba :: "u8 list \<Rightarrow> int \<Rightarrow> u32" where
  "entry_lba dir i = read_le32 dir (24 * nat i + 12)"

definition entry_size :: "u8 list \<Rightarrow> int \<Rightarrow> u32" where
  "entry_size dir i = read_le32 dir (24 * nat i + 16)"

definition entry_flags :: "u8 list \<Rightarrow> int \<Rightarrow> u32" where
  "entry_flags dir i = read_le32 dir (24 * nat i + 20)"

text \<open>Storing a word, and the bytes of a name up to its NUL.\<close>

definition set_field :: "nat \<Rightarrow> u32 \<Rightarrow> 'c tfs \<Rightarrow> 'c tfs" where
  "set_field off v s = s\<lparr>root_directory := poke off (le32 v) (root_directory s)\<rparr>"

definition set_entry_size :: "int \<Rightarrow> u32 \<Rightarrow> 'c tfs \<Rightarrow> 'c tfs" where
  "set_entry_size i v s = set_field (24 * nat i + 16) v s"

definition set_entry_name :: "int \<Rightarrow> string \<Rightarrow> 'c tfs \<Rightarrow> 'c tfs" where
  "set_entry_name i name s = s\<lparr>root_directory := poke (24 * nat i) (map of_char name @ [0]) (root_directory s)\<rparr>"

definition clear_file_entry :: "int \<Rightarrow> 'c tfs \<Rightarrow> 'c tfs" where
  "clear_file_entry i s = s\<lparr>root_directory := poke (24 * nat i) (replicate 24 0) (root_directory s)\<rparr>"

text \<open>The directory is read into and written from the first 512 of its 600 bytes.\<close>

definition read_directory :: "'c disk_if \<Rightarrow> 'c tfs \<Rightarrow> 'c tfs" where
  "read_directory dk s =
     (let (b, c) = dk_read dk TFS_DIR_LBA (Some (pack_words (take 512 (root_directory s)))) (tfs_disk s)
      in s\<lparr>root_directory := sector_bytes (the b) @ drop 512 (root_directory s), tfs_disk := c\<rparr>)"

definition write_directory :: "'c disk_if \<Rightarrow> 'c tfs \<Rightarrow> 'c tfs" where
  "write_directory dk s = s\<lparr>tfs_disk := dk_write dk TFS_DIR_LBA (Some (pack_words (take 512 (root_directory s)))) (tfs_disk s)\<rparr>"

definition normalize_tfs_name :: "string option \<Rightarrow> string option" where
  "normalize_tfs_name path =
     (case path of None \<Rightarrow> None
      | Some p \<Rightarrow> let name = takeWhile (\<lambda>c. c \<noteq> CHR ''/'') (dropWhile (\<lambda>c. c = CHR ''/'') p)
          in if name = [] then None else Some (take 11 name))"

definition tfs_find_entry_by_name :: "string \<Rightarrow> 'c tfs \<Rightarrow> int" where
  "tfs_find_entry_by_name name s =
     slot_index (\<lambda>i. entry_flags (root_directory s) i = 1 \<and> str_case_eq (entry_name (root_directory s) i) name) [0..int TFS_MAX_FILES - 1]"

definition dir_free_slot :: "'c tfs \<Rightarrow> int" where
  "dir_free_slot s = slot_index (\<lambda>i. entry_flags (root_directory s) i = 0) [0..int TFS_MAX_FILES - 1]"

section \<open>Handles\<close>

definition tfs_handle_ok :: "int \<Rightarrow> 'c tfs \<Rightarrow> bool" where
  "tfs_handle_ok handle s \<longleftrightarrow> 0 \<le> handle \<and> handle < int TFS_MAX_HANDLES \<and> th_used (tfs_handles s ! nat handle)"

definition upd_th :: "int \<Rightarrow> (tfs_handle \<Rightarrow> tfs_handle) \<Rightarrow> 'c tfs \<Rightarrow> 'c tfs" where
  "upd_th i f s = s\<lparr>tfs_handles := (tfs_handles s)[nat i := f (tfs_handles s ! nat i)]\<rparr>"

abbreviation thandle :: "'c tfs \<Rightarrow> int \<Rightarrow> tfs_handle" where
  "thandle s h \<equiv> tfs_handles s ! nat h"

definition tfs_alloc_handle :: "'c tfs \<Rightarrow> int \<times> 'c tfs" where
  "tfs_alloc_handle s = (let i = slot_index (\<lambda>h. \<not> th_used h) (tfs_handles s) in
     if i < 0 then (-1, s)
     else (i, upd_th i (\<lambda>_. \<lparr>th_used = True, th_ref_count = 1, th_entry_idx = -1, th_pos = 0, th_flags = 0\<rparr>) s))"

section \<open>Operations\<close>

definition tfs_create :: "'c disk_if \<Rightarrow> string \<Rightarrow> int \<Rightarrow> 'c tfs \<Rightarrow> 'c tfs" where
  "tfs_create dk name i s =
     write_directory dk (set_field (24 * nat i + 20) 1 (set_entry_size i 0 (set_field (24 * nat i + 12) (TFS_DATA_START + word_of_int i) (set_entry_name i name s))))"

definition tfs_open :: "'c disk_if \<Rightarrow> string \<Rightarrow> u32 \<Rightarrow> 'c tfs \<Rightarrow> int \<times> 'c tfs" where
  "tfs_open dk path flags s =
     (if \<not> dk_available dk (tfs_disk s) then (VFS_ERR_IO, s)
      else case normalize_tfs_name (Some path) of None \<Rightarrow> (VFS_ERR_INVALID_ARG, s)
      | Some name \<Rightarrow>
          let s1 = read_directory dk s; found = tfs_find_entry_by_name name s1;
              entry_idx = (if found < 0 then dir_free_slot s1 else found) in
          if found < 0 \<and> flags AND VFS_O_CREAT = 0 then (VFS_ERR_NOT_FOUND, s1)
          else if entry_idx < 0 then (VFS_ERR_NO_SPACE, s1)
          else let s2 = (if found < 0 then tfs_create dk name entry_idx s1 else s1);
                   s3 = (if flags AND VFS_O_TRUNC \<noteq> 0 then write_directory dk (set_entry_size entry_idx 0 s2) else s2);
                   (handle, s4) = tfs_alloc_handle s3 in
            if handle < 0 then (VFS_ERR_NO_SPACE, s4)
            else (handle, upd_th handle (\<lambda>h. h\<lparr>th_entry_idx := entry_idx, th_pos := 0, th_flags := flags\<rparr>) s4))"

text \<open>One round of the transfer loops: the offset in the sector and the bytes that this round moves.\<close>

definition tfs_chunk :: "u32 \<Rightarrow> u32 \<Rightarrow> u32" where
  "tfs_chunk abs_pos left = (let chunk = 512 - abs_pos mod 512 in if chunk > left then left else chunk)"

lemma tfs_chunk_pos: "0 < n \<Longrightarrow> 0 < tfs_chunk p n" and tfs_chunk_le: "tfs_chunk p n \<le> n"
proof -
  have "unat (p mod 512) < 512" by (simp add: unat_mod)
  then have "unat ((512 :: u32) - p mod 512) = 512 - unat (p mod 512)" by (subst unat_sub) (simp_all add: word_le_nat_alt)
  then have "0 < (512 :: u32) - p mod 512" using \<open>unat (p mod 512) < 512\<close> by (simp add: word_less_nat_alt)
  then show "0 < n \<Longrightarrow> 0 < tfs_chunk p n" "tfs_chunk p n \<le> n" by (auto simp: tfs_chunk_def Let_def)
qed

lemma tfs_round_measure:
  fixes tot sz :: u32
  assumes "tot < sz"
  shows "unat sz - unat (tot + tfs_chunk p (sz - tot)) < unat sz - unat tot"
proof -
  have d: "unat (sz - tot) = unat sz - unat tot" using assms by (simp add: unat_sub)
  have "unat (tfs_chunk p (sz - tot)) \<le> unat sz - unat tot" "0 < unat (tfs_chunk p (sz - tot))"
    using tfs_chunk_le [of p "sz - tot"] tfs_chunk_pos [of "sz - tot" p] assms d by (simp_all add: word_le_nat_alt word_less_nat_alt)
  moreover have "unat (tot + tfs_chunk p (sz - tot)) = unat tot + unat (tfs_chunk p (sz - tot))"
  proof (rule unat_add_small)
    have "unat sz < 2 ^ LENGTH(32)" by (rule unsigned_less)
    then show "unat tot + unat (tfs_chunk p (sz - tot)) < 2 ^ LENGTH(32)" using calculation assms unfolding word_less_nat_alt by linarith
  qed
  ultimately show ?thesis using assms by (simp add: word_less_nat_alt)
qed

function tfs_read_loop :: "'c disk_if \<Rightarrow> u32 \<Rightarrow> u32 \<Rightarrow> u32 \<Rightarrow> u32 \<Rightarrow> sector \<Rightarrow> u8 list \<Rightarrow> 'c \<Rightarrow> u8 list \<times> 'c" where
  "tfs_read_loop dk lba0 pos sz tot sector acc c =
     (if tot < sz
      then let abs_pos = pos + tot; off = abs_pos mod 512; chunk = tfs_chunk abs_pos (sz - tot);
               (b, c1) = dk_read dk (lba0 + abs_pos div 512) (Some sector) c
           in tfs_read_loop dk lba0 pos sz (tot + chunk) (the b) (acc @ take (unat chunk) (drop (unat off) (sector_bytes (the b)))) c1
      else (acc, c))"
  by pat_completeness auto
termination
  by (relation "measure (\<lambda>(dk, lba0, pos, sz, tot, sector, acc, c). unat sz - unat tot)") (auto simp: tfs_round_measure)

declare tfs_read_loop.simps [simp del]

definition tfs_read :: "'c disk_if \<Rightarrow> sector \<Rightarrow> int \<Rightarrow> bool \<Rightarrow> u32 \<Rightarrow> 'c tfs \<Rightarrow> (int \<times> u8 list) \<times> 'c tfs" where
  "tfs_read dk junk handle has_buf sz s =
     (if \<not> tfs_handle_ok handle s then ((VFS_ERR_INVALID_FD, []), s)
      else if \<not> has_buf \<or> sz = 0 then ((VFS_ERR_INVALID_ARG, []), s)
      else let h = thandle s handle in
        if th_flags h AND VFS_O_RDONLY = 0 \<and> th_flags h AND VFS_O_RDWR \<noteq> VFS_O_RDWR then ((VFS_ERR_PERM, []), s)
        else let dir = root_directory s; i = th_entry_idx h in
          if th_pos h \<ge> entry_size dir i then ((0, []), s)
          else let remaining = entry_size dir i - th_pos h; n = (if sz > remaining then remaining else sz);
                   (bs, c) = tfs_read_loop dk (entry_lba dir i) (th_pos h) n 0 junk [] (tfs_disk s)
               in ((sint n, bs), upd_th handle (\<lambda>h. h\<lparr>th_pos := th_pos h + n\<rparr>) (s\<lparr>tfs_disk := c\<rparr>)))"

function tfs_write_loop :: "'c disk_if \<Rightarrow> u32 \<Rightarrow> u32 \<Rightarrow> u8 list \<Rightarrow> u32 \<Rightarrow> u32 \<Rightarrow> sector \<Rightarrow> 'c \<Rightarrow> u32 \<times> 'c" where
  "tfs_write_loop dk lba0 pos src sz tot sector c =
     (if tot < sz
      then let abs_pos = pos + tot; off = abs_pos mod 512; chunk = tfs_chunk abs_pos (sz - tot); lba = lba0 + abs_pos div 512
           in if lba \<ge> TFS_DATA_START + of_nat TFS_MAX_FILES then (tot, c)
              else let (b, c1) = dk_read dk lba (Some sector) c;
                       sector1 = pack_words (poke (unat off) (take (unat chunk) (drop (unat tot) src)) (sector_bytes (the b)))
                   in tfs_write_loop dk lba0 pos src sz (tot + chunk) sector1 (dk_write dk lba (Some sector1) c1)
      else (tot, c))"
  by pat_completeness auto
termination
  by (relation "measure (\<lambda>(dk, lba0, pos, src, sz, tot, sector, c). unat sz - unat tot)") (auto simp: tfs_round_measure)

declare tfs_write_loop.simps [simp del]

definition tfs_write :: "'c disk_if \<Rightarrow> sector \<Rightarrow> int \<Rightarrow> u8 list option \<Rightarrow> 'c tfs \<Rightarrow> int \<times> 'c tfs" where
  "tfs_write dk junk handle buf s =
     (if \<not> tfs_handle_ok handle s then (VFS_ERR_INVALID_FD, s)
      else if buf = None \<or> buf = Some [] then (VFS_ERR_INVALID_ARG, s)
      else let h = thandle s handle; dir = root_directory s; i = th_entry_idx h in
        if th_flags h AND VFS_O_WRONLY = 0 \<and> th_flags h AND VFS_O_RDWR = 0 then (VFS_ERR_PERM, s)
        else let (tot, c) = tfs_write_loop dk (entry_lba dir i) (th_pos h) (the buf) (of_nat (length (the buf))) 0 junk (tfs_disk s);
                 s1 = upd_th handle (\<lambda>h. h\<lparr>th_pos := th_pos h + tot\<rparr>) (s\<lparr>tfs_disk := c\<rparr>);
                 s2 = (if th_pos h + tot > entry_size dir i then write_directory dk (set_entry_size i (th_pos h + tot) s1) else s1)
             in (sint tot, s2))"

definition tfs_close :: "int \<Rightarrow> 'c tfs \<Rightarrow> int \<times> 'c tfs" where
  "tfs_close handle s =
     (if \<not> tfs_handle_ok handle s then (VFS_ERR_INVALID_FD, s)
      else if th_ref_count (thandle s handle) > 1 then (VFS_OK, upd_th handle (\<lambda>h. h\<lparr>th_ref_count := th_ref_count h - 1\<rparr>) s)
      else (VFS_OK, upd_th handle (\<lambda>h. h\<lparr>th_used := False, th_ref_count := 0\<rparr>) s))"

definition tfs_lseek :: "int \<Rightarrow> int \<Rightarrow> int \<Rightarrow> 'c tfs \<Rightarrow> int \<times> 'c tfs" where
  "tfs_lseek handle offset whence s =
     (if \<not> tfs_handle_ok handle s then (VFS_ERR_INVALID_FD, s)
      else let h = thandle s handle;
               base = (if whence = 0 then Some 0 else if whence = 1 then Some (sint (th_pos h))
                 else if whence = 2 then Some (sint (entry_size (root_directory s) (th_entry_idx h))) else None) in
        case base of None \<Rightarrow> (VFS_ERR_INVALID_ARG, s)
        | Some b \<Rightarrow> let target = to_i32 (b + offset) in
            if target < 0 then (VFS_ERR_INVALID_ARG, s) else (target, upd_th handle (\<lambda>h. h\<lparr>th_pos := word_of_int target\<rparr>) s))"

text \<open>The operations on a name start alike: the drive, the name, the directory read again, the entry.\<close>

definition with_entry :: "'c disk_if \<Rightarrow> string \<Rightarrow> 'r \<Rightarrow> 'r \<Rightarrow> 'r \<Rightarrow> (int \<Rightarrow> 'c tfs \<Rightarrow> 'r \<times> 'c tfs) \<Rightarrow> 'c tfs \<Rightarrow> 'r \<times> 'c tfs" where
  "with_entry dk path io arg nf k s =
     (if \<not> dk_available dk (tfs_disk s) then (io, s)
      else case normalize_tfs_name (Some path) of None \<Rightarrow> (arg, s)
      | Some name \<Rightarrow> let s1 = read_directory dk s; i = tfs_find_entry_by_name name s1 in if i < 0 then (nf, s1) else k i s1)"

definition tfs_stat :: "'c disk_if \<Rightarrow> string \<Rightarrow> 'c tfs \<Rightarrow> (int \<times> vfs_stat_info option) \<times> 'c tfs" where
  "tfs_stat dk path s = with_entry dk path (VFS_ERR_IO, None) (VFS_ERR_INVALID_ARG, None) (VFS_ERR_NOT_FOUND, None)
     (\<lambda>i s1. ((VFS_OK, Some \<lparr>vs_size = entry_size (root_directory s1) i, vs_flags = entry_flags (root_directory s1) i\<rparr>), s1)) s"

definition tfs_delete :: "'c disk_if \<Rightarrow> string \<Rightarrow> 'c tfs \<Rightarrow> int \<times> 'c tfs" where
  "tfs_delete dk path s = with_entry dk path VFS_ERR_IO VFS_ERR_INVALID_ARG VFS_ERR_NOT_FOUND
     (\<lambda>i s1. (VFS_OK, write_directory dk (clear_file_entry i s1))) s"

definition tfs_rename :: "'c disk_if \<Rightarrow> string \<Rightarrow> string \<Rightarrow> 'c tfs \<Rightarrow> int \<times> 'c tfs" where
  "tfs_rename dk old_path new_path s =
     (if \<not> dk_available dk (tfs_disk s) then (VFS_ERR_IO, s)
      else case (normalize_tfs_name (Some old_path), normalize_tfs_name (Some new_path)) of
        (Some old_name, Some new_name) \<Rightarrow>
          let s1 = read_directory dk s; old_idx = tfs_find_entry_by_name old_name s1; new_idx = tfs_find_entry_by_name new_name s1 in
          if old_idx < 0 then (VFS_ERR_NOT_FOUND, s1)
          else if new_idx \<ge> 0 \<and> new_idx \<noteq> old_idx then (VFS_ERR_PERM, s1)
          else (VFS_OK, write_directory dk (set_entry_name old_idx new_name s1))
      | _ \<Rightarrow> (VFS_ERR_INVALID_ARG, s))"

definition tfs_truncate :: "'c disk_if \<Rightarrow> string \<Rightarrow> u32 \<Rightarrow> 'c tfs \<Rightarrow> int \<times> 'c tfs" where
  "tfs_truncate dk path sz s = with_entry dk path VFS_ERR_IO VFS_ERR_INVALID_ARG VFS_ERR_NOT_FOUND
     (\<lambda>i s1. (VFS_OK, write_directory dk (set_entry_size i sz s1))) s"

definition tfs_ftruncate :: "'c disk_if \<Rightarrow> int \<Rightarrow> u32 \<Rightarrow> 'c tfs \<Rightarrow> int \<times> 'c tfs" where
  "tfs_ftruncate dk handle sz s =
     (if \<not> tfs_handle_ok handle s then (VFS_ERR_INVALID_FD, s)
      else (VFS_OK, write_directory dk (upd_th handle (\<lambda>h. if th_pos h > sz then h\<lparr>th_pos := sz\<rparr> else h)
             (set_entry_size (th_entry_idx (thandle s handle)) sz s))))"

definition tfs_init :: "'c tfs \<Rightarrow> 'c tfs" where
  "tfs_init s = s\<lparr>tfs_handles := map (\<lambda>h. h\<lparr>th_used := False, th_ref_count := 0\<rparr>) (tfs_handles s)\<rparr>"

end
