(* ===== verification/Ext2.thy ===== *)
theory Ext2
  imports Tfs "HOL-Library.Monad_Syntax"
begin

text \<open>
  The ext2 file system of \<open>src/kernel/ext2fs.c\<close> and \<open>ext2fs.h\<close> over the uncached disk driver of \<open>Disk\<close>: the mounted state, block and inode access, the two
  allocation bitmaps, directories, path resolution, handles and the operations of the backend.

  A result \<open>None\<close> stands for a division by zero, an undefined shift or an access outside of an array; everything else is a value. \<open>junk\<close> is what the 4096 bytes of a buffer on the stack hold
  before it is filled; blocks have 1024 bytes, so the rest of such a buffer is never filled. Offsets in a block stay far below \<open>2\<^sup>3\<^sup>2\<close> and are natural numbers.
\<close>

section \<open>Data\<close>

abbreviation EXT2_BLOCK_SIZE :: u32 where "EXT2_BLOCK_SIZE \<equiv> 1024"
abbreviation EXT2_ROOT_INODE :: u32 where "EXT2_ROOT_INODE \<equiv> 2"
abbreviation EXT2_MAX_HANDLES :: nat where "EXT2_MAX_HANDLES \<equiv> 256"
abbreviation EXT2_NAME_MAX :: nat where "EXT2_NAME_MAX \<equiv> 255"
abbreviation EXT2_S_IFREG :: u16 where "EXT2_S_IFREG \<equiv> 0x8000"
abbreviation EXT2_S_IFDIR :: u16 where "EXT2_S_IFDIR \<equiv> 0x4000"
abbreviation EXT2_FT_UNKNOWN :: u8 where "EXT2_FT_UNKNOWN \<equiv> 0"
abbreviation EXT2_FT_REG_FILE :: u8 where "EXT2_FT_REG_FILE \<equiv> 1"
abbreviation EXT2_FT_DIR :: u8 where "EXT2_FT_DIR \<equiv> 2"

text \<open>The fields of the superblock that are read.\<close>

record e2_superblock =
  sb_inode_count :: u32
  sb_block_count :: u32
  sb_first_data_block :: u32
  sb_log_block_size :: u32
  sb_blocks_per_group :: u32
  sb_inodes_per_group :: u32
  sb_magic :: u16
  sb_rev_level :: u32
  sb_first_ino :: u32
  sb_inode_size :: u16

record e2_group_desc =
  gd_block_bitmap :: u32
  gd_inode_bitmap :: u32
  gd_inode_table :: u32
  gd_free_blocks_count :: u16
  gd_free_inodes_count :: u16
  gd_used_dirs_count :: u16

record e2_inode =
  i_mode :: u16
  i_uid :: u16
  i_size :: u32
  i_atime :: u32
  i_ctime :: u32
  i_mtime :: u32
  i_dtime :: u32
  i_gid :: u16
  i_links_count :: u16
  i_blocks :: u32
  i_flags :: u32
  i_osd1 :: u32
  i_block :: "u32 list"
  i_generation :: u32
  i_file_acl :: u32
  i_dir_acl :: u32
  i_faddr :: u32
  i_osd2 :: "u8 list"

record e2_handle =
  eh_used :: bool
  eh_ref_count :: int
  eh_inode_num :: u32
  eh_pos :: u32
  eh_flags :: u32

record 'h ext2 =
  e_mounted :: bool
  e_partition_lba :: u32
  e_block_size :: u32
  e_sectors_per_block :: u32
  e_inodes_per_group :: u32
  e_blocks_per_group :: u32
  e_inode_size :: u32
  e_inode_table_block :: u32
  e_block_bitmap_block :: u32
  e_inode_bitmap_block :: u32
  e_group_desc_block :: u32
  e_group_desc_count :: u32
  e_total_inodes :: u32
  e_total_blocks :: u32
  e_sb :: e2_superblock
  e_handles :: "e2_handle list"
  e_dev :: "'h disk"

type_synonym ('h, 'r) e2_op = "'h ext2 \<Rightarrow> ('r \<times> 'h ext2) option"

definition le16 :: "u16 \<Rightarrow> u8 list" where
  "le16 v = [ucast v, ucast (drop_bit 8 v)]"

text \<open>The 128 bytes of an inode in memory, which is packed.\<close>

definition inode_bytes :: "e2_inode \<Rightarrow> u8 list" where
  "inode_bytes i = le16 (i_mode i) @ le16 (i_uid i) @ le32 (i_size i) @ le32 (i_atime i) @ le32 (i_ctime i) @ le32 (i_mtime i) @ le32 (i_dtime i) @
     le16 (i_gid i) @ le16 (i_links_count i) @ le32 (i_blocks i) @ le32 (i_flags i) @ le32 (i_osd1 i) @ concat (map le32 (i_block i)) @
     le32 (i_generation i) @ le32 (i_file_acl i) @ le32 (i_dir_acl i) @ le32 (i_faddr i) @ i_osd2 i"

definition bytes_inode :: "u8 list \<Rightarrow> e2_inode" where
  "bytes_inode p = \<lparr>i_mode = read_le16 p 0, i_uid = read_le16 p 2, i_size = read_le32 p 4, i_atime = read_le32 p 8, i_ctime = read_le32 p 12,
     i_mtime = read_le32 p 16, i_dtime = read_le32 p 20, i_gid = read_le16 p 24, i_links_count = read_le16 p 26, i_blocks = read_le32 p 28,
     i_flags = read_le32 p 32, i_osd1 = read_le32 p 36, i_block = map (\<lambda>k. read_le32 p (40 + 4 * k)) [0..<15], i_generation = read_le32 p 100,
     i_file_acl = read_le32 p 104, i_dir_acl = read_le32 p 108, i_faddr = read_le32 p 112, i_osd2 = take 12 (drop 116 p)\<rparr>"

section \<open>Blocks\<close>

definition parse_u32_dec :: "string \<Rightarrow> u32 option" where
  "parse_u32_dec s =
     (if s = [] \<or> \<not> list_all (\<lambda>c. 48 \<le> (of_char c :: nat) \<and> (of_char c :: nat) \<le> 57) s then None
      else Some (fold (\<lambda>c v. v * 10 + (of_char c - 48)) s 0))"

definition block_to_lba :: "u32 \<Rightarrow> 'h ext2 \<Rightarrow> u32" where
  "block_to_lba block_num s = e_partition_lba s + block_num * e_sectors_per_block s"

text \<open>One sector into the buffer at byte \<open>512 * k\<close>, and back.\<close>

definition read_sector_at :: "'h hw \<Rightarrow> u32 \<Rightarrow> nat \<Rightarrow> u8 list \<Rightarrow> 'h ext2 \<Rightarrow> bool \<times> u8 list \<times> 'h ext2" where
  "read_sector_at hw lba k buffer s =
     (let (rc, sec, d) = disk_read_sector_uncached hw lba (Some (pack_words (take 512 (drop (512 * k) buffer)))) (e_dev s)
      in (rc = DISK_IO_OK, case sec of Some ws \<Rightarrow> poke (512 * k) (sector_bytes ws) buffer | None \<Rightarrow> buffer, s\<lparr>e_dev := d\<rparr>))"

primrec read_block_loop :: "'h hw \<Rightarrow> u32 \<Rightarrow> nat \<Rightarrow> nat \<Rightarrow> u8 list \<Rightarrow> 'h ext2 \<Rightarrow> bool \<times> u8 list \<times> 'h ext2" where
  "read_block_loop hw lba 0 k buffer s = (True, buffer, s)"
| "read_block_loop hw lba (Suc n) k buffer s =
     (let (ok, b, s1) = read_sector_at hw (lba + of_nat k) k buffer s
      in if \<not> ok then (False, b, s1) else read_block_loop hw lba n (Suc k) b s1)"

definition read_block :: "'h hw \<Rightarrow> u32 \<Rightarrow> u8 list \<Rightarrow> 'h ext2 \<Rightarrow> bool \<times> u8 list \<times> 'h ext2" where
  "read_block hw block_num buffer s = read_block_loop hw (block_to_lba block_num s) (unat (e_sectors_per_block s)) 0 buffer s"

primrec write_block_loop :: "'h hw \<Rightarrow> u32 \<Rightarrow> nat \<Rightarrow> nat \<Rightarrow> u8 list \<Rightarrow> 'h ext2 \<Rightarrow> 'h ext2" where
  "write_block_loop hw lba 0 k buffer s = s"
| "write_block_loop hw lba (Suc n) k buffer s = write_block_loop hw lba n (Suc k) buffer
     (s\<lparr>e_dev := disk_write_sector_uncached hw (lba + of_nat k) (Some (pack_words (take 512 (drop (512 * k) buffer)))) (e_dev s)\<rparr>)"

definition write_block :: "'h hw \<Rightarrow> u32 \<Rightarrow> u8 list \<Rightarrow> 'h ext2 \<Rightarrow> bool \<times> 'h ext2" where
  "write_block hw block_num buffer s = (True, write_block_loop hw (block_to_lba block_num s) (unat (e_sectors_per_block s)) 0 buffer s)"

definition read_superblock :: "'h hw \<Rightarrow> u8 list \<Rightarrow> 'h ext2 \<Rightarrow> bool \<times> 'h ext2" where
  "read_superblock hw junk s =
     (let (ok1, raw1, s1) = read_sector_at hw (e_partition_lba s + 2) 0 (take 1024 junk) s in
      if \<not> ok1 then (False, s1)
      else let (ok2, raw, s2) = read_sector_at hw (e_partition_lba s + 2 + 1) 1 raw1 s1 in
        if \<not> ok2 then (False, s2)
        else let sb = \<lparr>sb_inode_count = read_le32 raw 0, sb_block_count = read_le32 raw 4, sb_first_data_block = read_le32 raw 20,
                 sb_log_block_size = read_le32 raw 24, sb_blocks_per_group = read_le32 raw 32, sb_inodes_per_group = read_le32 raw 40,
                 sb_magic = read_le16 raw 56, sb_rev_level = read_le32 raw 76, sb_first_ino = read_le32 raw 84, sb_inode_size = read_le16 raw 88\<rparr>
             in (sb_magic sb = 0xEF53, s2\<lparr>e_sb := sb\<rparr>))"

section \<open>Group descriptors and inodes\<close>

definition bytes_group_desc :: "u8 list \<Rightarrow> nat \<Rightarrow> e2_group_desc" where
  "bytes_group_desc raw off = \<lparr>gd_block_bitmap = read_le32 raw off, gd_inode_bitmap = read_le32 raw (off + 4), gd_inode_table = read_le32 raw (off + 8),
     gd_free_blocks_count = read_le16 raw (off + 12), gd_free_inodes_count = read_le16 raw (off + 14), gd_used_dirs_count = read_le16 raw (off + 16)\<rparr>"

definition read_group_desc :: "'h hw \<Rightarrow> u8 list \<Rightarrow> u32 \<Rightarrow> ('h, e2_group_desc option) e2_op" where
  "read_group_desc hw junk grp s =
     (let per_block = e_block_size s div 32 in
      if per_block = 0 then None
      else let block_index = e_group_desc_block s + grp div per_block; off = unat ((grp mod per_block) * 32);
               (ok, raw, s1) = read_block hw block_index (take 1024 junk) s
           in if \<not> ok then Some (None, s1)
              else Some (Some (bytes_group_desc raw off), s1))"

definition inode_group_and_offset :: "u32 \<Rightarrow> 'h ext2 \<Rightarrow> (u32 \<times> u32) option option" where
  "inode_group_and_offset inode_num s =
     (if inode_num = 0 \<or> inode_num > e_total_inodes s then Some None
      else if e_inodes_per_group s = 0 then None
      else Some (Some ((inode_num - 1) div e_inodes_per_group s, (inode_num - 1) mod e_inodes_per_group s)))"

text \<open>The block of the inode table that holds an inode and its place there.\<close>

definition inode_place :: "u32 \<Rightarrow> e2_group_desc \<Rightarrow> 'h ext2 \<Rightarrow> (u32 \<times> nat) option" where
  "inode_place index gd s =
     (if e_block_size s = 0 then None
      else let inode_offset = index * e_inode_size s
           in Some (gd_inode_table gd + inode_offset div e_block_size s, unat (inode_offset mod e_block_size s)))"

definition read_inode :: "'h hw \<Rightarrow> u8 list \<Rightarrow> u32 \<Rightarrow> ('h, e2_inode option) e2_op" where
  "read_inode hw junk inode_num s = do {
     loc \<leftarrow> inode_group_and_offset inode_num s;
     (case loc of None \<Rightarrow> Some (None, s)
      | Some (grp, index) \<Rightarrow> do {
          (gdo, s1) \<leftarrow> read_group_desc hw junk grp s;
          (case gdo of None \<Rightarrow> Some (None, s1)
           | Some gd \<Rightarrow> do {
               (block_index, block_offset) \<leftarrow> inode_place index gd s1;
               let (ok, raw, s2) = read_block hw block_index (take 1024 junk) s1;
               (if \<not> ok then Some (None, s2)
                else if block_offset + 128 > unat (e_block_size s2)
                then if e_block_size s2 > 4096 then Some (None, s2)
                     else let (ok, temp, s3) = read_block hw block_index junk s2
                          in if \<not> ok then Some (None, s3) else Some (Some (bytes_inode (take 128 (drop block_offset temp))), s3)
                else Some (Some (bytes_inode (take 128 (drop block_offset raw))), s2)) }) }) }"

definition write_inode :: "'h hw \<Rightarrow> u8 list \<Rightarrow> u32 \<Rightarrow> e2_inode \<Rightarrow> ('h, bool) e2_op" where
  "write_inode hw junk inode_num inode s = do {
     loc \<leftarrow> inode_group_and_offset inode_num s;
     (case loc of None \<Rightarrow> Some (False, s)
      | Some (grp, index) \<Rightarrow> do {
          (gdo, s1) \<leftarrow> read_group_desc hw junk grp s;
          (case gdo of None \<Rightarrow> Some (False, s1)
           | Some gd \<Rightarrow>
               if e_block_size s1 > 4096 then Some (False, s1)
               else do {
                 (block_index, block_offset) \<leftarrow> inode_place index gd s1;
                 let (ok, raw, s2) = read_block hw block_index junk s1;
                 (if \<not> ok then Some (False, s2)
                  else Some (write_block hw block_index (poke block_offset (inode_bytes inode) raw) s2)) }) }) }"

section \<open>The bitmaps\<close>

text \<open>Both allocators keep the bitmap of a group in an array of 1024 bytes.\<close>

definition e2_bit_test :: "u8 list \<Rightarrow> nat \<Rightarrow> bool option" where
  "e2_bit_test bitmap k = (if k div 8 < length bitmap then Some (bitmap ! (k div 8) AND push_bit (k mod 8) 1 \<noteq> 0) else None)"

definition e2_bit_set :: "u8 list \<Rightarrow> nat \<Rightarrow> bool \<Rightarrow> u8 list option" where
  "e2_bit_set bitmap k v =
     (let mask = push_bit (k mod 8) 1; b = bitmap ! (k div 8) in
      if k div 8 < length bitmap then Some (bitmap[k div 8 := if v then b OR mask else b AND NOT mask]) else None)"

text \<open>The inner loop of an allocation: the first clear bit of a group before \<open>last\<close> holds; \<open>n\<close> bits are left.\<close>

primrec find_clear_bit :: "u8 list \<Rightarrow> (u32 \<Rightarrow> bool) \<Rightarrow> nat \<Rightarrow> nat \<Rightarrow> nat option option" where
  "find_clear_bit bitmap stop 0 k = Some None"
| "find_clear_bit bitmap stop (Suc n) k =
     (if stop (of_nat k) then Some None
      else do {
        used \<leftarrow> e2_bit_test bitmap k;
        (if used then find_clear_bit bitmap stop n (Suc k) else Some (Some k)) })"

text \<open>The loop over the groups, \<open>n\<close> of them left: \<open>bm\<close> selects the bitmap of a group, \<open>num\<close> numbers a bit and \<open>stop\<close> ends a group.\<close>

primrec alloc_loop ::
  "'h hw \<Rightarrow> u8 list \<Rightarrow> (e2_group_desc \<Rightarrow> u32) \<Rightarrow> (u32 \<Rightarrow> u32 \<Rightarrow> u32) \<Rightarrow> (u32 \<Rightarrow> bool) \<Rightarrow> u32 \<Rightarrow> nat \<Rightarrow> u32 \<Rightarrow> ('h, int) e2_op" where
  "alloc_loop hw junk bm num stop per_group 0 grp s = Some (-1, s)"
| "alloc_loop hw junk bm num stop per_group (Suc n) grp s = do {
     (gdo, s1) \<leftarrow> read_group_desc hw junk grp s;
     (case gdo of None \<Rightarrow> Some (-1, s1)
      | Some gd \<Rightarrow>
          let (ok, bitmap, s2) = read_block hw (bm gd) (take 1024 junk) s1 in
          if \<not> ok then Some (-1, s2)
          else do {
            found \<leftarrow> find_clear_bit bitmap (\<lambda>bit. stop (num grp bit)) (unat per_group) 0;
            (case found of None \<Rightarrow> alloc_loop hw junk bm num stop per_group n (grp + 1) s2
             | Some k \<Rightarrow> do {
                 bitmap' \<leftarrow> e2_bit_set bitmap k True;
                 let (ok, s3) = write_block hw (bm gd) bitmap' s2;
                 (if \<not> ok then Some (-1, s3) else Some (sint (num grp (of_nat k)), s3)) }) }) }"

definition alloc_inode :: "'h hw \<Rightarrow> u8 list \<Rightarrow> ('h, int) e2_op" where
  "alloc_inode hw junk s = alloc_loop hw junk gd_inode_bitmap (\<lambda>grp bit. grp * e_inodes_per_group s + bit + 1)
     (\<lambda>inode_num. inode_num > e_total_inodes s) (e_inodes_per_group s) (unat (e_group_desc_count s)) 0 s"

definition alloc_block :: "'h hw \<Rightarrow> u8 list \<Rightarrow> ('h, int) e2_op" where
  "alloc_block hw junk s = alloc_loop hw junk gd_block_bitmap (\<lambda>grp bit. grp * e_blocks_per_group s + bit + sb_first_data_block (e_sb s))
     (\<lambda>block_num. block_num \<ge> e_total_blocks s) (e_blocks_per_group s) (unat (e_group_desc_count s)) 0 s"

text \<open>Clearing a bit in the bitmap of a group.\<close>

definition clear_bit_in :: "'h hw \<Rightarrow> u8 list \<Rightarrow> (e2_group_desc \<Rightarrow> u32) \<Rightarrow> u32 \<Rightarrow> u32 \<Rightarrow> 'h ext2 \<Rightarrow> 'h ext2 option" where
  "clear_bit_in hw junk bm grp index s = do {
     (gdo, s1) \<leftarrow> read_group_desc hw junk grp s;
     (case gdo of None \<Rightarrow> Some s1
      | Some gd \<Rightarrow>
          let (ok, bitmap, s2) = read_block hw (bm gd) (take 1024 junk) s1 in
          if \<not> ok then Some s2
          else do { bitmap' \<leftarrow> e2_bit_set bitmap (unat index) False; Some (snd (write_block hw (bm gd) bitmap' s2)) }) }"

definition free_inode :: "'h hw \<Rightarrow> u8 list \<Rightarrow> u32 \<Rightarrow> 'h ext2 \<Rightarrow> 'h ext2 option" where
  "free_inode hw junk inode_num s = do {
     loc \<leftarrow> inode_group_and_offset inode_num s;
     (case loc of None \<Rightarrow> Some s | Some (grp, index) \<Rightarrow> clear_bit_in hw junk gd_inode_bitmap grp index s) }"

definition free_block :: "'h hw \<Rightarrow> u8 list \<Rightarrow> u32 \<Rightarrow> 'h ext2 \<Rightarrow> 'h ext2 option" where
  "free_block hw junk block_num s =
     (if e_blocks_per_group s = 0 then None
      else let grp = (block_num - sb_first_data_block (e_sb s)) div e_blocks_per_group s;
               index = (block_num - sb_first_data_block (e_sb s)) mod e_blocks_per_group s
           in if grp \<ge> e_group_desc_count s then Some s else clear_bit_in hw junk gd_block_bitmap grp index s)"

section \<open>The blocks of a file\<close>

definition inode_ptrs_per_block :: "'h ext2 \<Rightarrow> u32" where
  "inode_ptrs_per_block s = e_block_size s div 4"

definition set_block :: "nat \<Rightarrow> u32 \<Rightarrow> e2_inode \<Rightarrow> e2_inode" where
  "set_block k b inode = inode\<lparr>i_block := (i_block inode)[k := b]\<rparr>"

text \<open>The indirect block of an inode, allocated and cleared when it is missing; the flag says whether to go on.\<close>

definition get_indirect :: "'h hw \<Rightarrow> u8 list \<Rightarrow> bool \<Rightarrow> e2_inode \<Rightarrow> ('h, bool \<times> e2_inode \<times> u8 list) e2_op" where
  "get_indirect hw junk create inode s =
     (if i_block inode ! 12 \<noteq> 0 then Some ((True, inode, junk), s)
      else if \<not> create then Some ((False, inode, junk), s)
      else do {
        (b, s1) \<leftarrow> alloc_block hw junk s;
        (if b \<le> 0 then Some ((False, inode, junk), s1)
         else let indirect = replicate (unat (e_block_size s1)) 0 @ drop (unat (e_block_size s1)) junk;
                  (ok, s2) = write_block hw (word_of_int b) indirect s1
              in Some ((ok, set_block 12 (word_of_int b) inode, indirect), s2)) })"

definition inode_get_block :: "'h hw \<Rightarrow> u8 list \<Rightarrow> e2_inode \<Rightarrow> u32 \<Rightarrow> bool \<Rightarrow> ('h, int \<times> e2_inode) e2_op" where
  "inode_get_block hw junk inode index create s =
     (if index < 12
      then if i_block inode ! unat index = 0 \<and> create
           then do {
             (b, s1) \<leftarrow> alloc_block hw junk s;
             (if b \<le> 0 then Some ((0, inode), s1) else Some ((b, set_block (unat index) (word_of_int b) inode), s1)) }
           else Some ((sint (i_block inode ! unat index), inode), s)
      else let k = index - 12 in
        if k \<ge> inode_ptrs_per_block s then Some ((0, inode), s)
        else do {
          ((go, inode1, buf), s1) \<leftarrow> get_indirect hw junk create inode s;
          (if \<not> go then Some ((0, inode1), s1)
           else let (ok, indirect, s2) = read_block hw (i_block inode1 ! 12) buf s1 in
             if \<not> ok then Some ((0, inode1), s2)
             else let block_num = read_le32 indirect (unat k * 4) in
               if block_num = 0 \<and> create
               then do {
                 (b, s3) \<leftarrow> alloc_block hw junk s2;
                 (if b \<le> 0 then Some ((0, inode1), s3)
                  else let indirect1 = poke (unat k * 4) (le32 (word_of_int b)) indirect;
                           (ok, s4) = write_block hw (i_block inode1 ! 12) indirect1 s3
                       in if \<not> ok then Some ((0, inode1), s4) else Some ((sint (read_le32 indirect1 (unat k * 4)), inode1), s4)) }
               else Some ((sint block_num, inode1), s2)) })"

primrec free_blocks :: "'h hw \<Rightarrow> u8 list \<Rightarrow> u32 list \<Rightarrow> 'h ext2 \<Rightarrow> 'h ext2 option" where
  "free_blocks hw junk [] s = Some s"
| "free_blocks hw junk (b # bs) s = do {
     s1 \<leftarrow> (if b \<noteq> 0 then free_block hw junk b s else Some s);
     free_blocks hw junk bs s1 }"

definition inode_clear_blocks :: "'h hw \<Rightarrow> u8 list \<Rightarrow> e2_inode \<Rightarrow> ('h, e2_inode) e2_op" where
  "inode_clear_blocks hw junk inode s = do {
     s1 \<leftarrow> free_blocks hw junk (take 12 (i_block inode)) s;
     let inode1 = inode\<lparr>i_block := replicate 12 0 @ drop 12 (i_block inode)\<rparr>;
     s3 \<leftarrow> (if i_block inode ! 12 \<noteq> 0
        then let (ok, indirect, s2) = read_block hw (i_block inode ! 12) junk s1 in do {
          s3 \<leftarrow> (if ok then free_blocks hw junk (map (\<lambda>k. read_le32 indirect (4 * k)) [0..<unat (inode_ptrs_per_block s2)]) s2 else Some s2);
          free_block hw junk (i_block inode ! 12) s3 }
        else Some s1);
     Some (inode1\<lparr>i_block := (i_block inode1)[12 := 0], i_size := 0, i_blocks := 0\<rparr>, s3) }"

section \<open>Directories\<close>

definition ent_inode :: "u8 list \<Rightarrow> nat \<Rightarrow> u32" where
  "ent_inode block off = read_le32 block off"

definition ent_rec_len :: "u8 list \<Rightarrow> nat \<Rightarrow> u16" where
  "ent_rec_len block off = read_le16 block (off + 4)"

definition ent_name_len :: "u8 list \<Rightarrow> nat \<Rightarrow> u8" where
  "ent_name_len block off = block ! (off + 6)"

text \<open>The name of an entry, copied and terminated, as a C string.\<close>

definition ent_name :: "u8 list \<Rightarrow> nat \<Rightarrow> string" where
  "ent_name block off = map (\<lambda>b. char_of (unat b)) (takeWhile (\<lambda>b. b \<noteq> 0) (take (unat (ent_name_len block off)) (drop (off + 8) block)))"

text \<open>The walk over the entries of a block of \<open>bs\<close> bytes: it ends at a record of length zero. The first entry that satisfies \<open>P\<close>.\<close>

lemma rec_step_less:
  "\<not> bs < off + 8 \<Longrightarrow> ent_rec_len block off \<noteq> 0 \<Longrightarrow> bs - (off + unat (ent_rec_len block off)) < bs - off"
  using unat_gt_0 [of "ent_rec_len block off"] by linarith

function dir_scan :: "(nat \<Rightarrow> bool) \<Rightarrow> nat \<Rightarrow> u8 list \<Rightarrow> nat \<Rightarrow> nat option" where
  "dir_scan P bs block off =
     (if off + 8 > bs \<or> ent_rec_len block off = 0 then None
      else if P off then Some off
      else dir_scan P bs block (off + unat (ent_rec_len block off)))"
  by pat_completeness auto
termination
  by (relation "measure (\<lambda>(P, bs, block, off). bs - off)") (auto simp: rec_step_less)

declare dir_scan.simps [simp del]

text \<open>The walk of \<open>dir_remove_entry\<close>, which remembers the entry before.\<close>

function dir_scan_prev :: "(nat \<Rightarrow> bool) \<Rightarrow> nat \<Rightarrow> u8 list \<Rightarrow> nat option \<Rightarrow> nat \<Rightarrow> (nat option \<times> nat) option" where
  "dir_scan_prev P bs block prev off =
     (if off + 8 > bs \<or> ent_rec_len block off = 0 then None
      else if P off then Some (prev, off)
      else dir_scan_prev P bs block (Some off) (off + unat (ent_rec_len block off)))"
  by pat_completeness auto
termination
  by (relation "measure (\<lambda>(P, bs, block, prev, off). bs - off)") (auto simp: rec_step_less)

declare dir_scan_prev.simps [simp del]

definition is_dir :: "e2_inode \<Rightarrow> bool" where
  "is_dir inode \<longleftrightarrow> i_mode inode AND EXT2_S_IFDIR \<noteq> 0"

text \<open>The number of blocks of a file; the sum wraps.\<close>

definition block_count :: "u32 \<Rightarrow> 'h ext2 \<Rightarrow> u32 option" where
  "block_count sz s = (if e_block_size s = 0 then None else Some ((sz + e_block_size s - 1) div e_block_size s))"

text \<open>The loop over the blocks of a directory, \<open>n\<close> of them left: \<open>visit b block_num block\<close> may end it with a result. Blocks that are missing or cannot be read are skipped.\<close>

primrec dir_blocks :: "'h hw \<Rightarrow> u8 list \<Rightarrow> e2_inode \<Rightarrow> (u32 \<Rightarrow> u32 \<Rightarrow> u8 list \<Rightarrow> 'r option) \<Rightarrow> nat \<Rightarrow> u32 \<Rightarrow> ('h, 'r option) e2_op" where
  "dir_blocks hw junk inode visit 0 b s = Some (None, s)"
| "dir_blocks hw junk inode visit (Suc n) b s = do {
     ((block_num, _), s1) \<leftarrow> inode_get_block hw junk inode b False s;
     (if block_num \<le> 0 then dir_blocks hw junk inode visit n (b + 1) s1
      else let (ok, block, s2) = read_block hw (word_of_int block_num) junk s1 in
        if \<not> ok then dir_blocks hw junk inode visit n (b + 1) s2
        else case visit b (word_of_int block_num) block of
          Some r \<Rightarrow> Some (Some r, s2)
        | None \<Rightarrow> dir_blocks hw junk inode visit n (b + 1) s2) }"

text \<open>A directory inode and the number of its blocks, or failure.\<close>

definition open_dir :: "'h hw \<Rightarrow> u8 list \<Rightarrow> u32 \<Rightarrow> ('h, (e2_inode \<times> u32) option) e2_op" where
  "open_dir hw junk dir_inode_num s = do {
     (io, s1) \<leftarrow> read_inode hw junk dir_inode_num s;
     (case io of None \<Rightarrow> Some (None, s1)
      | Some inode \<Rightarrow> if \<not> is_dir inode then Some (None, s1) else do { n \<leftarrow> block_count (i_size inode) s1; Some (Some (inode, n), s1) }) }"

definition name_match :: "u8 list \<Rightarrow> string \<Rightarrow> nat \<Rightarrow> bool" where
  "name_match block name off \<longleftrightarrow> ent_inode block off \<noteq> 0 \<and> ent_name_len block off > 0 \<and> ent_name block off = name"

record e2_found =
  fo_inode :: u32
  fo_block_num :: u32
  fo_off :: nat
  fo_rec_len :: u16
  fo_block_index :: u32

definition dir_lookup :: "'h hw \<Rightarrow> u8 list \<Rightarrow> u32 \<Rightarrow> string \<Rightarrow> ('h, e2_found option) e2_op" where
  "dir_lookup hw junk dir_inode_num name s = do {
     (dir, s1) \<leftarrow> open_dir hw junk dir_inode_num s;
     (case dir of None \<Rightarrow> Some (None, s1)
      | Some (inode, n) \<Rightarrow> dir_blocks hw junk inode (\<lambda>b block_num block. map_option
          (\<lambda>off. \<lparr>fo_inode = ent_inode block off, fo_block_num = block_num, fo_off = off, fo_rec_len = ent_rec_len block off, fo_block_index = b\<rparr>)
          (dir_scan (name_match block name) (unat (e_block_size s1)) block 0)) (unat n) 0 s1) }"

text \<open>The room a record needs, in bytes.\<close>

definition rec_room :: "u32 \<Rightarrow> u16" where
  "rec_room name_len = ucast ((8 + name_len + 3) AND NOT 3)"

definition ent_space :: "u8 list \<Rightarrow> nat \<Rightarrow> u16" where
  "ent_space block off = ent_rec_len block off - rec_room (ucast (ent_name_len block off))"

definition has_space :: "nat \<Rightarrow> u8 list \<Rightarrow> u16 \<Rightarrow> nat \<Rightarrow> bool" where
  "has_space bs block need off \<longleftrightarrow>
     ent_inode block off \<noteq> 0 \<and> off + unat (ent_rec_len block off) \<le> bs \<and> ent_space block off \<ge> need"

text \<open>Storing a record with its name, which is terminated in memory.\<close>

definition put_entry :: "nat \<Rightarrow> u32 \<Rightarrow> u16 \<Rightarrow> u8 \<Rightarrow> string \<Rightarrow> u8 list \<Rightarrow> u8 list" where
  "put_entry off inode_num rec_len file_type name block =
     poke off (le32 inode_num @ le16 rec_len @ [of_nat (length name), file_type] @ map of_char name @ [0]) block"

definition split_entry :: "nat \<Rightarrow> u32 \<Rightarrow> u8 \<Rightarrow> string \<Rightarrow> u8 list \<Rightarrow> u8 list" where
  "split_entry off inode_num file_type name block =
     (let actual_len = rec_room (ucast (ent_name_len block off)); space_left = ent_space block off
      in put_entry (off + unat actual_len) inode_num space_left file_type name (poke (off + 4) (le16 actual_len) block))"

primrec add_loop :: "'h hw \<Rightarrow> u8 list \<Rightarrow> u32 \<Rightarrow> string \<Rightarrow> u32 \<Rightarrow> u8 \<Rightarrow> u32 \<Rightarrow> nat \<Rightarrow> u32 \<Rightarrow> e2_inode \<Rightarrow> ('h, bool) e2_op" where
  "add_loop hw junk dir_inode_num name inode_num file_type cnt 0 b dir_inode s = Some (False, s)"
| "add_loop hw junk dir_inode_num name inode_num file_type cnt (Suc n) b dir_inode s = do {
     ((block_num, inode), s1) \<leftarrow> inode_get_block hw junk dir_inode b True s;
     (if block_num \<le> 0 then Some (False, s1)
      else let (ok, block, s2) = read_block hw (word_of_int block_num) junk s1; bs = e_block_size s2 in
        if \<not> ok then Some (False, s2)
        else case dir_scan (has_space (unat bs) block (rec_room (of_nat (length name)))) (unat bs) block 0 of
          Some off \<Rightarrow>
            let (ok, s3) = write_block hw (word_of_int block_num) (split_entry off inode_num file_type name block) s2 in
            if \<not> ok then Some (False, s3)
            else if i_size inode < (b + 1) * bs
            then do { (_, s4) \<leftarrow> write_inode hw junk dir_inode_num (inode\<lparr>i_size := (b + 1) * bs\<rparr>) s3; Some (True, s4) }
            else Some (True, s3)
        | None \<Rightarrow>
            if b \<ge> cnt
            then let (ok, s3) = write_block hw (word_of_int block_num)
                       (put_entry 0 inode_num (ucast bs) file_type name (replicate (unat bs) 0 @ drop (unat bs) block)) s2
                 in if \<not> ok then Some (False, s3) else write_inode hw junk dir_inode_num (inode\<lparr>i_size := i_size inode + bs\<rparr>) s3
            else add_loop hw junk dir_inode_num name inode_num file_type cnt n (b + 1) inode s2) }"

definition dir_add_entry :: "'h hw \<Rightarrow> u8 list \<Rightarrow> u32 \<Rightarrow> string \<Rightarrow> u32 \<Rightarrow> u8 \<Rightarrow> ('h, bool) e2_op" where
  "dir_add_entry hw junk dir_inode_num name inode_num file_type s = do {
     (dir, s1) \<leftarrow> open_dir hw junk dir_inode_num s;
     (case dir of None \<Rightarrow> Some (False, s1)
      | Some (inode, n) \<Rightarrow> add_loop hw junk dir_inode_num (take EXT2_NAME_MAX name) inode_num file_type n (unat (n + 1)) 0 inode s1) }"

definition remove_at :: "nat option \<Rightarrow> nat \<Rightarrow> u8 list \<Rightarrow> u8 list" where
  "remove_at prev off block = (case prev of
     Some p \<Rightarrow> poke (p + 4) (le16 (ent_rec_len block p + ent_rec_len block off)) block
   | None \<Rightarrow> poke off (le32 0) block)"

definition name_used :: "u8 list \<Rightarrow> string \<Rightarrow> nat \<Rightarrow> bool" where
  "name_used block name off \<longleftrightarrow> ent_inode block off \<noteq> 0 \<and> ent_name block off = name"

definition dir_remove_entry :: "'h hw \<Rightarrow> u8 list \<Rightarrow> u32 \<Rightarrow> string \<Rightarrow> ('h, bool) e2_op" where
  "dir_remove_entry hw junk dir_inode_num name s = do {
     (dir, s1) \<leftarrow> open_dir hw junk dir_inode_num s;
     (case dir of None \<Rightarrow> Some (False, s1)
      | Some (inode, n) \<Rightarrow> do {
          (r, s2) \<leftarrow> dir_blocks hw junk inode (\<lambda>b block_num block. map_option (\<lambda>(prev, off). (block_num, remove_at prev off block))
            (dir_scan_prev (name_used block name) (unat (e_block_size s1)) block None 0)) (unat n) 0 s1;
          (case r of None \<Rightarrow> Some (False, s2) | Some (block_num, block) \<Rightarrow> Some (write_block hw block_num block s2)) }) }"

definition ext2_is_dir_effectively_empty :: "'h hw \<Rightarrow> u8 list \<Rightarrow> u32 \<Rightarrow> ('h, bool) e2_op" where
  "ext2_is_dir_effectively_empty hw junk inode_num s = do {
     (dir, s1) \<leftarrow> open_dir hw junk inode_num s;
     (case dir of None \<Rightarrow> Some (False, s1)
      | Some (inode, n) \<Rightarrow> do {
          (r, s2) \<leftarrow> dir_blocks hw junk inode (\<lambda>b block_num block.
            dir_scan (\<lambda>off. ent_inode block off \<noteq> 0 \<and> ent_name_len block off > 0 \<and> ent_name block off \<noteq> ''.'' \<and> ent_name block off \<noteq> ''..'')
              (unat (e_block_size s1)) block 0) (unat n) 0 s1;
          Some (r = None, s2) }) }"

section \<open>Paths\<close>

text \<open>The first component of a path and the rest after it; a component is cut at 255 characters.\<close>

definition parse_component :: "string \<Rightarrow> (string \<times> string) option" where
  "parse_component path =
     (let p = dropWhile (\<lambda>c. c = CHR ''/'') path; component = take EXT2_NAME_MAX (takeWhile (\<lambda>c. c \<noteq> CHR ''/'') p) in
      if p = [] then None else Some (component, dropWhile (\<lambda>c. c = CHR ''/'') (drop (length component) p)))"

lemma parse_component_less: "parse_component path = Some (component, rest) \<Longrightarrow> length rest < length path"
proof -
  let ?p = "dropWhile (\<lambda>c. c = CHR ''/'') path"
  assume "parse_component path = Some (component, rest)"
  then have p: "?p \<noteq> []"
    and c: "component = take EXT2_NAME_MAX (takeWhile (\<lambda>c. c \<noteq> CHR ''/'') ?p)" and r: "rest = dropWhile (\<lambda>c. c = CHR ''/'') (drop (length component) ?p)"
    by (auto simp: parse_component_def Let_def split: if_splits)
  have "hd ?p \<noteq> CHR ''/''" by (rule hd_dropWhile [OF p])
  then have "component \<noteq> []" using p c by (cases ?p) auto
  then have "length (drop (length component) ?p) < length ?p" using p by simp
  moreover have "length rest \<le> length (drop (length component) ?p)" unfolding r by (rule length_dropWhile_le)
  moreover have "length ?p \<le> length path" by (rule length_dropWhile_le)
  ultimately show ?thesis by linarith
qed

text \<open>
  The outcome of a resolution: the inode (0 when the last name looked up does not exist), the directory it was looked up in, and the name. The name of the last component is looked up only when
  the caller wants the inode.
\<close>

record e2_path =
  pa_inode :: u32
  pa_parent :: u32
  pa_leaf :: string

function resolve_loop :: "'h hw \<Rightarrow> u8 list \<Rightarrow> bool \<Rightarrow> u32 \<Rightarrow> string \<Rightarrow> ('h, e2_path option) e2_op" where
  "resolve_loop hw junk want current cursor s =
     (case parse_component cursor of None \<Rightarrow> Some (None, s)
      | Some (component, rest) \<Rightarrow>
          if rest = [] \<and> \<not> want then Some (Some \<lparr>pa_inode = 0, pa_parent = current, pa_leaf = component\<rparr>, s)
          else do {
            (f, s1) \<leftarrow> dir_lookup hw junk current component s;
            (case f of None \<Rightarrow> Some (Some \<lparr>pa_inode = 0, pa_parent = current, pa_leaf = component\<rparr>, s1)
             | Some e \<Rightarrow> if rest = [] then Some (Some \<lparr>pa_inode = fo_inode e, pa_parent = current, pa_leaf = component\<rparr>, s1)
                         else resolve_loop hw junk want (fo_inode e) rest s1) })"
  by pat_completeness auto
termination
  by (relation "measure (\<lambda>(hw, junk, want, current, cursor, s). length cursor)") (auto dest: parse_component_less)

declare resolve_loop.simps [simp del]

definition resolve_path :: "'h hw \<Rightarrow> u8 list \<Rightarrow> bool \<Rightarrow> string \<Rightarrow> ('h, e2_path option) e2_op" where
  "resolve_path hw junk want path s =
     (if path = [] \<or> hd path \<noteq> CHR ''/'' then Some (None, s)
      else if tl path = [] then Some (Some \<lparr>pa_inode = EXT2_ROOT_INODE, pa_parent = 0, pa_leaf = []\<rparr>, s)
      else resolve_loop hw junk want EXT2_ROOT_INODE path s)"

section \<open>Handles\<close>

definition upd_eh :: "int \<Rightarrow> (e2_handle \<Rightarrow> e2_handle) \<Rightarrow> 'h ext2 \<Rightarrow> 'h ext2" where
  "upd_eh h f s = s\<lparr>e_handles := (e_handles s)[nat h := f (e_handles s ! nat h)]\<rparr>"

abbreviation ehandle :: "'h ext2 \<Rightarrow> int \<Rightarrow> e2_handle" where
  "ehandle s h \<equiv> e_handles s ! nat h"

definition eh_ok :: "int \<Rightarrow> 'h ext2 \<Rightarrow> bool" where
  "eh_ok handle s \<longleftrightarrow> \<not> (handle < 0 \<or> handle \<ge> int EXT2_MAX_HANDLES \<or> \<not> eh_used (ehandle s handle))"

definition ext2_handle_alloc :: "'h ext2 \<Rightarrow> int \<times> 'h ext2" where
  "ext2_handle_alloc s =
     (let i = slot_index (\<lambda>h. \<not> eh_used h) (e_handles s) in
      if i < 0 then (-1, s)
      else (i, upd_eh i (\<lambda>_. \<lparr>eh_used = True, eh_ref_count = 1, eh_inode_num = 0, eh_pos = 0, eh_flags = 0\<rparr>) s))"

definition ext2_close :: "int \<Rightarrow> 'h ext2 \<Rightarrow> int \<times> 'h ext2" where
  "ext2_close handle s =
     (if \<not> eh_ok handle s then (VFS_ERR_INVALID_FD, s)
      else if eh_ref_count (ehandle s handle) > 1 then (VFS_OK, upd_eh handle (\<lambda>h. h\<lparr>eh_ref_count := eh_ref_count h - 1\<rparr>) s)
      else (VFS_OK, upd_eh handle (\<lambda>h. h\<lparr>eh_used := False, eh_ref_count := 0\<rparr>) s))"

section \<open>Files\<close>

text \<open>Freeing the blocks from \<open>i\<close> on, \<open>n\<close> of them.\<close>

primrec free_tail :: "'h hw \<Rightarrow> u8 list \<Rightarrow> e2_inode \<Rightarrow> nat \<Rightarrow> u32 \<Rightarrow> 'h ext2 \<Rightarrow> 'h ext2 option" where
  "free_tail hw junk inode 0 i s = Some s"
| "free_tail hw junk inode (Suc n) i s = do {
     ((block_num, _), s1) \<leftarrow> inode_get_block hw junk inode i False s;
     s2 \<leftarrow> (if block_num > 0 then free_block hw junk (word_of_int block_num) s1 else Some s1);
     free_tail hw junk inode n (i + 1) s2 }"

definition ext2_truncate_inode :: "'h hw \<Rightarrow> u8 list \<Rightarrow> u32 \<Rightarrow> u32 \<Rightarrow> ('h, bool) e2_op" where
  "ext2_truncate_inode hw junk inode_num new_size s = do {
     (io, s1) \<leftarrow> read_inode hw junk inode_num s;
     (case io of None \<Rightarrow> Some (False, s1)
      | Some inode \<Rightarrow> do {
          old_blocks \<leftarrow> block_count (i_size inode) s1;
          new_blocks \<leftarrow> block_count new_size s1;
          (inode1, s2) \<leftarrow> (if new_blocks < old_blocks
             then do {
               t \<leftarrow> free_tail hw junk inode (unat (old_blocks - new_blocks)) new_blocks s1;
               (if new_blocks \<le> 12 then inode_clear_blocks hw junk inode t else Some (inode, t)) }
             else Some (inode, s1));
          (inode2, s3) \<leftarrow> (if new_size = 0 then inode_clear_blocks hw junk inode1 s2 else Some (inode1, s2));
          write_inode hw junk inode_num (inode2\<lparr>i_size := new_size\<rparr>) s3 }) }"

definition new_inode :: "u16 \<Rightarrow> u32 \<Rightarrow> u16 \<Rightarrow> u32 \<Rightarrow> e2_inode" where
  "new_inode mode sz links blks = \<lparr>i_mode = mode, i_uid = 0, i_size = sz, i_atime = 0, i_ctime = 0, i_mtime = 0, i_dtime = 0, i_gid = 0,
     i_links_count = links, i_blocks = blks, i_flags = 0, i_osd1 = 0, i_block = replicate 15 0, i_generation = 0, i_file_acl = 0, i_dir_acl = 0,
     i_faddr = 0, i_osd2 = replicate 12 0\<rparr>"

text \<open>The part of \<open>ext2_open\<close> that makes a file: its number, or an error.\<close>

definition create_file :: "'h hw \<Rightarrow> u8 list \<Rightarrow> e2_path \<Rightarrow> ('h, int + u32) e2_op" where
  "create_file hw junk p s = do {
     (n, s1) \<leftarrow> alloc_inode hw junk s;
     (if n \<le> 0 then Some (Inl VFS_ERR_NO_SPACE, s1)
      else do {
        (ok, s2) \<leftarrow> write_inode hw junk (word_of_int n) (new_inode (EXT2_S_IFREG OR 0x1A4) 0 1 0) s1;
        (if \<not> ok then do { s3 \<leftarrow> free_inode hw junk (word_of_int n) s2; Some (Inl VFS_ERR_IO, s3) }
         else do {
           (ok, s3) \<leftarrow> dir_add_entry hw junk (pa_parent p) (pa_leaf p) (word_of_int n) EXT2_FT_REG_FILE s2;
           (if \<not> ok then do { s4 \<leftarrow> free_inode hw junk (word_of_int n) s3; Some (Inl VFS_ERR_IO, s4) }
            else Some (Inr (word_of_int n), s3)) }) }) }"

definition ext2_open_handle :: "u32 \<Rightarrow> u32 \<Rightarrow> 'h ext2 \<Rightarrow> int \<times> 'h ext2" where
  "ext2_open_handle inode_num flags s =
     (let (handle, s1) = ext2_handle_alloc s in
      if handle < 0 then (VFS_ERR_NO_SPACE, s1)
      else (handle, upd_eh handle (\<lambda>h. h\<lparr>eh_inode_num := inode_num, eh_pos := 0, eh_flags := flags\<rparr>) s1))"

definition ext2_open :: "'h hw \<Rightarrow> u8 list \<Rightarrow> string \<Rightarrow> u32 \<Rightarrow> ('h, int) e2_op" where
  "ext2_open hw junk path flags s =
     (if \<not> e_mounted s then Some (VFS_ERR_IO, s)
      else do {
        (po, s1) \<leftarrow> resolve_path hw junk True path s;
        (case po of None \<Rightarrow> Some (VFS_ERR_INVALID_ARG, s1)
         | Some p \<Rightarrow>
             if pa_inode p = 0 \<and> flags AND VFS_O_CREAT = 0 then Some (VFS_ERR_NOT_FOUND, s1)
             else do {
               (r, s2) \<leftarrow> (if pa_inode p = 0 then create_file hw junk p s1 else Some (Inr (pa_inode p), s1));
               (case r of Inl e \<Rightarrow> Some (e, s2)
                | Inr inode_num \<Rightarrow> do {
                    (io, s3) \<leftarrow> read_inode hw junk inode_num s2;
                    (if io = None then Some (VFS_ERR_IO, s3)
                     else if flags AND VFS_O_TRUNC \<noteq> 0
                     then do {
                       (ok, s4) \<leftarrow> ext2_truncate_inode hw junk inode_num 0 s3;
                       (if \<not> ok then Some (VFS_ERR_IO, s4)
                        else do {
                          (io, s5) \<leftarrow> read_inode hw junk inode_num s4;
                          (if io = None then Some (VFS_ERR_IO, s5) else Some (ext2_open_handle inode_num flags s5)) }) }
                     else Some (ext2_open_handle inode_num flags s3)) }) }) })"

text \<open>The transfer loops, by the number of bytes done; a chunk ends at the end of a block.\<close>

definition e2_chunk :: "u32 \<Rightarrow> u32 \<Rightarrow> u32 \<Rightarrow> u32" where
  "e2_chunk bs abs_pos left = (let chunk = bs - abs_pos mod bs in if chunk > left then left else chunk)"

lemma e2_chunk_pos:
  assumes "bs \<noteq> 0" "left \<noteq> 0"
  shows "0 < unat (e2_chunk bs p left)" "unat (e2_chunk bs p left) \<le> unat left"
proof -
  have "p mod bs < bs" using assms(1) by (simp add: word_less_nat_alt unat_mod unat_gt_0)
  then have "bs - p mod bs \<noteq> 0" by auto
  then show "0 < unat (e2_chunk bs p left)" using assms(2) by (simp add: e2_chunk_def Let_def unat_gt_0)
  show "unat (e2_chunk bs p left) \<le> unat left" by (simp add: e2_chunk_def Let_def word_less_nat_alt)
qed

lemma e2_round_less:
  fixes tot sz :: u32
  assumes "tot < sz" "bs \<noteq> 0"
  shows "unat sz - unat (tot + e2_chunk bs p (sz - tot)) < unat sz - unat tot" "tot + e2_chunk bs p (sz - tot) \<le> sz"
    "unat (tot + e2_chunk bs p (sz - tot)) = unat tot + unat (e2_chunk bs p (sz - tot))"
proof -
  have lt: "unat tot < unat sz" using assms(1) by (simp add: word_less_nat_alt)
  have l: "unat (sz - tot) = unat sz - unat tot" using assms(1) by (simp add: unat_sub)
  then have nz: "sz - tot \<noteq> 0" using lt by (metis unat_0 zero_less_diff less_irrefl)
  note c = e2_chunk_pos [OF assms(2) nz, of p]
  show u: "unat (tot + e2_chunk bs p (sz - tot)) = unat tot + unat (e2_chunk bs p (sz - tot))"
    using c(2) l lt unsigned_less [of sz, where 'a = nat] by (intro unat_add_small) simp
  show "unat sz - unat (tot + e2_chunk bs p (sz - tot)) < unat sz - unat tot" using u c lt by linarith
  show "tot + e2_chunk bs p (sz - tot) \<le> sz" using u c(2) l lt unfolding word_le_nat_alt by linarith
qed

function e2_read_loop :: "'h hw \<Rightarrow> u8 list \<Rightarrow> e2_inode \<Rightarrow> u32 \<Rightarrow> u32 \<Rightarrow> u32 \<Rightarrow> u8 list \<Rightarrow> ('h, u8 list option) e2_op" where
  "e2_read_loop hw junk inode pos sz tot out s =
     (if e_block_size s = 0 \<and> tot < sz then None
      else if tot < sz
      then let abs_pos = pos + tot; chunk = e2_chunk (e_block_size s) abs_pos (sz - tot) in
        case inode_get_block hw junk inode (abs_pos div e_block_size s) False s of None \<Rightarrow> None
        | Some ((block_num, _), s1) \<Rightarrow>
            if block_num \<le> 0 then Some (Some out, s1)
            else let (ok, block, s2) = read_block hw (word_of_int block_num) junk s1 in
              if \<not> ok then Some (None, s2)
              else e2_read_loop hw junk inode pos sz (tot + chunk) (out @ take (unat chunk) (drop (unat (abs_pos mod e_block_size s)) block)) s2
      else Some (Some out, s))"
  by pat_completeness auto
termination
proof (relation "measure (\<lambda>(hw, junk, inode, pos, sz, tot, out, s). unat sz - unat tot)", goal_cases)
  case (2 hw junk inode pos sz tot out s)
  then show ?case using e2_round_less(1) [of tot sz "e_block_size s"] by auto
qed simp

declare e2_read_loop.simps [simp del]

definition ext2_read :: "'h hw \<Rightarrow> u8 list \<Rightarrow> int \<Rightarrow> bool \<Rightarrow> u32 \<Rightarrow> ('h, int \<times> u8 list) e2_op" where
  "ext2_read hw junk handle buf sz s =
     (if \<not> eh_ok handle s \<or> \<not> buf then Some ((VFS_ERR_INVALID_FD, []), s)
      else let h = ehandle s handle in
        if eh_flags h AND VFS_O_RDONLY = 0 \<and> eh_flags h AND VFS_O_RDWR \<noteq> VFS_O_RDWR then Some ((VFS_ERR_PERM, []), s)
        else do {
          (io, s1) \<leftarrow> read_inode hw junk (eh_inode_num h) s;
          (case io of None \<Rightarrow> Some ((VFS_ERR_IO, []), s1)
           | Some inode \<Rightarrow>
               if eh_pos h \<ge> i_size inode then Some ((0, []), s1)
               else do {
                 (r, s2) \<leftarrow> e2_read_loop hw junk inode (eh_pos h) (min sz (i_size inode - eh_pos h)) 0 [] s1;
                 (case r of None \<Rightarrow> Some ((VFS_ERR_IO, []), s2)
                  | Some bs \<Rightarrow> Some ((sint (of_nat (length bs) :: u32), bs), upd_eh handle (\<lambda>h. h\<lparr>eh_pos := eh_pos h + of_nat (length bs)\<rparr>) s2)) }) })"

function e2_write_loop :: "'h hw \<Rightarrow> u8 list \<Rightarrow> u32 \<Rightarrow> u8 list \<Rightarrow> u32 \<Rightarrow> u32 \<Rightarrow> e2_inode \<Rightarrow> ('h, (int + u32) \<times> e2_inode) e2_op" where
  "e2_write_loop hw junk pos src sz tot inode s =
     (if e_block_size s = 0 \<and> tot < sz then None
      else if tot < sz
      then let abs_pos = pos + tot; chunk = e2_chunk (e_block_size s) abs_pos (sz - tot) in
        case inode_get_block hw junk inode (abs_pos div e_block_size s) True s of None \<Rightarrow> None
        | Some ((block_num, inode1), s1) \<Rightarrow>
            if block_num \<le> 0 then Some ((Inl VFS_ERR_NO_SPACE, inode1), s1)
            else let (ok, block, s2) = read_block hw (word_of_int block_num) junk s1;
                     block1 = (if ok then block else replicate (unat (e_block_size s)) 0 @ drop (unat (e_block_size s)) block);
                     (ok, s3) = write_block hw (word_of_int block_num)
                       (poke (unat (abs_pos mod e_block_size s)) (take (unat chunk) (drop (unat tot) src)) block1) s2
                 in if \<not> ok then Some ((Inl VFS_ERR_IO, inode1), s3)
                    else e2_write_loop hw junk pos src sz (tot + chunk) inode1 s3
      else Some ((Inr tot, inode), s))"
  by pat_completeness auto
termination
proof (relation "measure (\<lambda>(hw, junk, pos, src, sz, tot, inode, s). unat sz - unat tot)", goal_cases)
  case (2 hw junk pos src sz tot inode s)
  then show ?case using e2_round_less(1) [of tot sz "e_block_size s"] by auto
qed simp

declare e2_write_loop.simps [simp del]

definition ext2_write :: "'h hw \<Rightarrow> u8 list \<Rightarrow> int \<Rightarrow> u8 list option \<Rightarrow> ('h, int) e2_op" where
  "ext2_write hw junk handle buf s = (case buf of None \<Rightarrow> Some (VFS_ERR_INVALID_FD, s)
   | Some src \<Rightarrow>
       if \<not> eh_ok handle s then Some (VFS_ERR_INVALID_FD, s)
       else let h = ehandle s handle in
         if eh_flags h AND VFS_O_WRONLY = 0 \<and> eh_flags h AND VFS_O_RDWR \<noteq> VFS_O_RDWR then Some (VFS_ERR_PERM, s)
         else do {
           (io, s1) \<leftarrow> read_inode hw junk (eh_inode_num h) s;
           (case io of None \<Rightarrow> Some (VFS_ERR_IO, s1)
            | Some inode \<Rightarrow> do {
                ((r, inode1), s2) \<leftarrow> e2_write_loop hw junk (eh_pos h) src (of_nat (length src)) 0 inode s1;
                (case r of Inl e \<Rightarrow> Some (e, s2)
                 | Inr tot \<Rightarrow> do {
                     let s3 = upd_eh handle (\<lambda>h. h\<lparr>eh_pos := eh_pos h + tot\<rparr>) s2;
                     let sz = max (i_size inode1) (eh_pos (ehandle s3 handle));
                     (ok, s4) \<leftarrow> write_inode hw junk (eh_inode_num h) (inode1\<lparr>i_size := sz, i_blocks := (sz + 511) div 512\<rparr>) s3;
                     Some (if \<not> ok then VFS_ERR_IO else sint tot, s4) }) }) })"

definition ext2_lseek :: "'h hw \<Rightarrow> u8 list \<Rightarrow> int \<Rightarrow> int \<Rightarrow> int \<Rightarrow> ('h, int) e2_op" where
  "ext2_lseek hw junk handle offset whence s =
     (if \<not> eh_ok handle s then Some (VFS_ERR_INVALID_FD, s)
      else do {
        (io, s1) \<leftarrow> read_inode hw junk (eh_inode_num (ehandle s handle)) s;
        (case io of None \<Rightarrow> Some (VFS_ERR_IO, s1)
         | Some inode \<Rightarrow>
             let base = (if whence = 0 then Some 0 else if whence = 1 then Some (sint (eh_pos (ehandle s1 handle)))
                   else if whence = 2 then Some (sint (i_size inode)) else None) in
             case base of None \<Rightarrow> Some (VFS_ERR_INVALID_ARG, s1)
             | Some b \<Rightarrow> let target = to_i32 (b + offset) in
                 if target < 0 then Some (VFS_ERR_INVALID_ARG, s1)
                 else Some (target, upd_eh handle (\<lambda>h. h\<lparr>eh_pos := word_of_int target\<rparr>) s1)) })"

section \<open>Names\<close>

definition ext2_delete :: "'h hw \<Rightarrow> u8 list \<Rightarrow> string \<Rightarrow> ('h, int) e2_op" where
  "ext2_delete hw junk path s = do {
     (po, s1) \<leftarrow> resolve_path hw junk True path s;
     (case po of None \<Rightarrow> Some (VFS_ERR_INVALID_ARG, s1)
      | Some p \<Rightarrow>
          if pa_inode p = 0 \<or> pa_parent p = 0 then Some (VFS_ERR_NOT_FOUND, s1)
          else do {
            (io, s2) \<leftarrow> read_inode hw junk (pa_inode p) s1;
            (case io of None \<Rightarrow> Some (VFS_ERR_IO, s2)
             | Some inode \<Rightarrow> do {
                 (_, s3) \<leftarrow> inode_clear_blocks hw junk inode s2;
                 s4 \<leftarrow> free_inode hw junk (pa_inode p) s3;
                 (ok, s5) \<leftarrow> dir_remove_entry hw junk (pa_parent p) (pa_leaf p) s4;
                 Some (if \<not> ok then VFS_ERR_IO else VFS_OK, s5) }) }) }"

text \<open>Resolution of a path that must name an existing inode: the inode and its number.\<close>

definition with_inode :: "'h hw \<Rightarrow> u8 list \<Rightarrow> string \<Rightarrow> 'r \<Rightarrow> 'r \<Rightarrow> (u32 \<Rightarrow> e2_inode \<Rightarrow> ('h, 'r) e2_op) \<Rightarrow> ('h, 'r) e2_op" where
  "with_inode hw junk path nf io k s = do {
     (po, s1) \<leftarrow> resolve_path hw junk True path s;
     (case po of None \<Rightarrow> Some (nf, s1)
      | Some p \<Rightarrow>
          if pa_inode p = 0 then Some (nf, s1)
          else do {
            (i, s2) \<leftarrow> read_inode hw junk (pa_inode p) s1;
            (case i of None \<Rightarrow> Some (io, s2) | Some inode \<Rightarrow> k (pa_inode p) inode s2) }) }"

definition ext2_stat :: "'h hw \<Rightarrow> u8 list \<Rightarrow> string \<Rightarrow> ('h, int \<times> vfs_stat_info option) e2_op" where
  "ext2_stat hw junk path = with_inode hw junk path (VFS_ERR_NOT_FOUND, None) (VFS_ERR_IO, None)
     (\<lambda>_ inode s. Some ((VFS_OK, Some \<lparr>vs_size = i_size inode, vs_flags = 1\<rparr>), s))"

definition ext2_rename :: "'h hw \<Rightarrow> u8 list \<Rightarrow> string \<Rightarrow> string \<Rightarrow> ('h, int) e2_op" where
  "ext2_rename hw junk old_path new_path s = do {
     (oo, s1) \<leftarrow> resolve_path hw junk True old_path s;
     (case oo of None \<Rightarrow> Some (VFS_ERR_INVALID_ARG, s1)
      | Some old \<Rightarrow> do {
          (no, s2) \<leftarrow> resolve_path hw junk True new_path s1;
          (case no of None \<Rightarrow> Some (VFS_ERR_INVALID_ARG, s2)
           | Some new \<Rightarrow>
               if pa_inode old = 0 \<or> pa_parent old = 0 \<or> pa_parent new = 0 then Some (VFS_ERR_NOT_FOUND, s2)
               else if pa_inode new \<noteq> 0 then Some (VFS_ERR_PERM, s2)
               else do {
                 (io, s3) \<leftarrow> read_inode hw junk (pa_inode old) s2;
                 (case io of None \<Rightarrow> Some (VFS_ERR_IO, s3)
                  | Some inode \<Rightarrow> do {
                      let file_type = (if is_dir inode then EXT2_FT_DIR else EXT2_FT_REG_FILE);
                      (ok, s4) \<leftarrow> dir_add_entry hw junk (pa_parent new) (pa_leaf new) (pa_inode old) file_type s3;
                      (if \<not> ok then Some (VFS_ERR_IO, s4)
                       else do {
                         (ok, s5) \<leftarrow> dir_remove_entry hw junk (pa_parent old) (pa_leaf old) s4;
                         (if \<not> ok
                          then do {
                            (_, s6) \<leftarrow> dir_remove_entry hw junk (pa_parent new) (pa_leaf new) s5;
                            (_, s7) \<leftarrow> dir_add_entry hw junk (pa_parent old) (pa_leaf old) (pa_inode old) file_type s6;
                            Some (VFS_ERR_IO, s7) }
                          else Some (VFS_OK, s5)) }) }) }) }) }"

text \<open>A new inode that could not be linked into its directory is given back, and its block where there is one.\<close>

definition undo_new :: "'h hw \<Rightarrow> u8 list \<Rightarrow> u32 list \<Rightarrow> u32 \<Rightarrow> int \<Rightarrow> ('h, int) e2_op" where
  "undo_new hw junk blks inode_num e s = do {
     s1 \<leftarrow> free_blocks hw junk blks s;
     s2 \<leftarrow> free_inode hw junk inode_num s1;
     Some (e, s2) }"

text \<open>The first block of a directory: the entries for itself and its parent.\<close>

definition dot_block :: "u32 \<Rightarrow> u32 \<Rightarrow> u32 \<Rightarrow> u8 list \<Rightarrow> u8 list" where
  "dot_block inode_num parent_inode bs junk =
     poke 12 (le32 parent_inode @ le16 (ucast (bs - 12)) @ [2, EXT2_FT_DIR, 46, 46])
       (poke 0 (le32 inode_num @ le16 12 @ [1, EXT2_FT_DIR, 46]) (replicate (unat bs) 0 @ drop (unat bs) junk))"

definition mkdir_at :: "'h hw \<Rightarrow> u8 list \<Rightarrow> e2_path \<Rightarrow> e2_inode \<Rightarrow> int \<Rightarrow> ('h, int) e2_op" where
  "mkdir_at hw junk p parent mode s = do {
     (n, s1) \<leftarrow> alloc_inode hw junk s;
     (if n \<le> 0 then Some (VFS_ERR_NO_SPACE, s1)
      else let inode_num = word_of_int n;
               inode = new_inode (EXT2_S_IFDIR OR (word_of_int mode AND 0x1FF)) (e_block_size s1) 2 (e_block_size s1 div 512) in do {
        ((b, inode1), s2) \<leftarrow> inode_get_block hw junk inode 0 True s1;
        (if b \<le> 0 then undo_new hw junk [] inode_num VFS_ERR_NO_SPACE s2
         else let (ok, s3) = write_block hw (word_of_int b) (dot_block inode_num (pa_parent p) (e_block_size s2) junk) s2 in
           if \<not> ok then undo_new hw junk [word_of_int b] inode_num VFS_ERR_IO s3
           else do {
             (ok, s4) \<leftarrow> write_inode hw junk inode_num inode1 s3;
             (if \<not> ok then undo_new hw junk [word_of_int b] inode_num VFS_ERR_IO s4
              else do {
                (ok, s5) \<leftarrow> dir_add_entry hw junk (pa_parent p) (pa_leaf p) inode_num EXT2_FT_DIR s4;
                (if \<not> ok then undo_new hw junk [word_of_int b] inode_num VFS_ERR_IO s5
                 else do {
                   (_, s6) \<leftarrow> write_inode hw junk (pa_parent p) (parent\<lparr>i_links_count := i_links_count parent + 1\<rparr>) s5;
                   Some (VFS_OK, s6) }) }) }) }) }"

definition ext2_mkdir :: "'h hw \<Rightarrow> u8 list \<Rightarrow> string \<Rightarrow> int \<Rightarrow> ('h, int) e2_op" where
  "ext2_mkdir hw junk path mode s = do {
     (po, s1) \<leftarrow> resolve_path hw junk True path s;
     (case po of None \<Rightarrow> Some (VFS_ERR_INVALID_ARG, s1)
      | Some p \<Rightarrow>
          if pa_inode p \<noteq> 0 then Some (VFS_ERR_PERM, s1)
          else if pa_parent p = 0 \<or> pa_leaf p = [] then Some (VFS_ERR_INVALID_ARG, s1)
          else do {
            (io, s2) \<leftarrow> read_inode hw junk (pa_parent p) s1;
            (case io of None \<Rightarrow> Some (VFS_ERR_INVALID_ARG, s2)
             | Some parent \<Rightarrow> if \<not> is_dir parent then Some (VFS_ERR_INVALID_ARG, s2) else mkdir_at hw junk p parent mode s2) }) }"

definition ext2_rmdir :: "'h hw \<Rightarrow> u8 list \<Rightarrow> string \<Rightarrow> ('h, int) e2_op" where
  "ext2_rmdir hw junk path s = do {
     (po, s1) \<leftarrow> resolve_path hw junk True path s;
     (case po of None \<Rightarrow> Some (VFS_ERR_INVALID_ARG, s1)
      | Some p \<Rightarrow>
          if pa_inode p = 0 \<or> pa_parent p = 0 then Some (VFS_ERR_NOT_FOUND, s1)
          else do {
            (io, s2) \<leftarrow> read_inode hw junk (pa_inode p) s1;
            (case io of None \<Rightarrow> Some (VFS_ERR_INVALID_ARG, s2)
             | Some inode \<Rightarrow>
                 if \<not> is_dir inode then Some (VFS_ERR_INVALID_ARG, s2)
                 else do {
                   (empty, s3) \<leftarrow> ext2_is_dir_effectively_empty hw junk (pa_inode p) s2;
                   (if \<not> empty then Some (VFS_ERR_PERM, s3)
                    else do {
                      (ok, s4) \<leftarrow> dir_remove_entry hw junk (pa_parent p) (pa_leaf p) s3;
                      (if \<not> ok then Some (VFS_ERR_IO, s4)
                       else do {
                         (_, s5) \<leftarrow> inode_clear_blocks hw junk inode s4;
                         s6 \<leftarrow> free_inode hw junk (pa_inode p) s5;
                         (po, s7) \<leftarrow> read_inode hw junk (pa_parent p) s6;
                         (case po of None \<Rightarrow> Some (VFS_OK, s7)
                          | Some parent \<Rightarrow>
                              if i_links_count parent > 0
                              then do {
                                (_, s8) \<leftarrow> write_inode hw junk (pa_parent p) (parent\<lparr>i_links_count := i_links_count parent - 1\<rparr>) s7;
                                Some (VFS_OK, s8) }
                              else Some (VFS_OK, s7)) }) }) }) }) }"

definition ext2_truncate_path :: "'h hw \<Rightarrow> u8 list \<Rightarrow> string \<Rightarrow> u32 \<Rightarrow> ('h, int) e2_op" where
  "ext2_truncate_path hw junk path sz s = do {
     (po, s1) \<leftarrow> resolve_path hw junk True path s;
     (case po of None \<Rightarrow> Some (VFS_ERR_INVALID_ARG, s1)
      | Some p \<Rightarrow>
          if pa_inode p = 0 then Some (VFS_ERR_NOT_FOUND, s1)
          else do { (ok, s2) \<leftarrow> ext2_truncate_inode hw junk (pa_inode p) sz s1; Some (if \<not> ok then VFS_ERR_IO else VFS_OK, s2) }) }"

definition ext2_ftruncate :: "'h hw \<Rightarrow> u8 list \<Rightarrow> int \<Rightarrow> u32 \<Rightarrow> ('h, int) e2_op" where
  "ext2_ftruncate hw junk handle sz s =
     (if \<not> eh_ok handle s then Some (VFS_ERR_INVALID_FD, s)
      else do {
        (ok, s1) \<leftarrow> ext2_truncate_inode hw junk (eh_inode_num (ehandle s handle)) sz s;
        (if \<not> ok then Some (VFS_ERR_IO, s1)
         else Some (VFS_OK, if eh_pos (ehandle s1 handle) > sz then upd_eh handle (\<lambda>h. h\<lparr>eh_pos := sz\<rparr>) s1 else s1)) })"

text \<open>Rewriting an inode that a path names.\<close>

definition change_inode :: "'h hw \<Rightarrow> u8 list \<Rightarrow> string \<Rightarrow> (e2_inode \<Rightarrow> e2_inode) \<Rightarrow> ('h, int) e2_op" where
  "change_inode hw junk path f = with_inode hw junk path VFS_ERR_NOT_FOUND VFS_ERR_IO
     (\<lambda>n inode s. do { (ok, s1) \<leftarrow> write_inode hw junk n (f inode) s; Some (if \<not> ok then VFS_ERR_IO else VFS_OK, s1) })"

definition ext2_chmod :: "'h hw \<Rightarrow> u8 list \<Rightarrow> string \<Rightarrow> int \<Rightarrow> ('h, int) e2_op" where
  "ext2_chmod hw junk path mode = change_inode hw junk path (\<lambda>i. i\<lparr>i_mode := (i_mode i AND 0xF000) OR (word_of_int mode AND 0x1FF)\<rparr>)"

definition ext2_chown :: "'h hw \<Rightarrow> u8 list \<Rightarrow> string \<Rightarrow> int \<Rightarrow> int \<Rightarrow> ('h, int) e2_op" where
  "ext2_chown hw junk path uid gid = change_inode hw junk path (\<lambda>i. i\<lparr>i_uid := word_of_int uid, i_gid := word_of_int gid\<rparr>)"

section \<open>Links\<close>

definition link_at :: "'h hw \<Rightarrow> u8 list \<Rightarrow> u32 \<Rightarrow> e2_path \<Rightarrow> ('h, int) e2_op" where
  "link_at hw junk old_inode new s = do {
     (io, s1) \<leftarrow> read_inode hw junk old_inode s;
     (case io of None \<Rightarrow> Some (VFS_ERR_IO, s1)
      | Some inode \<Rightarrow>
          if is_dir inode then Some (VFS_ERR_PERM, s1)
          else do {
            (ok, s2) \<leftarrow> dir_add_entry hw junk (pa_parent new) (pa_leaf new) old_inode EXT2_FT_REG_FILE s1;
            (if \<not> ok then Some (VFS_ERR_IO, s2)
             else do {
               (ok, s3) \<leftarrow> write_inode hw junk old_inode (inode\<lparr>i_links_count := i_links_count inode + 1\<rparr>) s2;
               (if \<not> ok then do { (_, s4) \<leftarrow> dir_remove_entry hw junk (pa_parent new) (pa_leaf new) s3; Some (VFS_ERR_IO, s4) }
                else Some (VFS_OK, s3)) }) }) }"

definition ext2_link :: "'h hw \<Rightarrow> u8 list \<Rightarrow> string \<Rightarrow> string \<Rightarrow> ('h, int) e2_op" where
  "ext2_link hw junk old_path new_path s = do {
     (oo, s1) \<leftarrow> resolve_path hw junk True old_path s;
     (case oo of None \<Rightarrow> Some (VFS_ERR_NOT_FOUND, s1)
      | Some old \<Rightarrow>
          if pa_inode old = 0 then Some (VFS_ERR_NOT_FOUND, s1)
          else do {
            (no, s2) \<leftarrow> resolve_path hw junk False new_path s1;
            (case no of None \<Rightarrow> Some (VFS_ERR_INVALID_ARG, s2)
             | Some new \<Rightarrow> if pa_parent new = 0 \<or> pa_leaf new = [] then Some (VFS_ERR_INVALID_ARG, s2) else link_at hw junk (pa_inode old) new s2) }) }"

text \<open>The target of a symbolic link: in the pointers of the inode up to 60 characters, else in a block.\<close>

definition put_target :: "'h hw \<Rightarrow> u8 list \<Rightarrow> string \<Rightarrow> e2_inode \<Rightarrow> ('h, int + e2_inode) e2_op" where
  "put_target hw junk target inode s =
     (if length target \<le> 60
      then Some (Inr (bytes_inode (poke 40 (map of_char target) (inode_bytes inode))), s)
      else do {
        ((b, inode1), s1) \<leftarrow> inode_get_block hw junk inode 0 True s;
        (if b \<le> 0 then Some (Inl VFS_ERR_NO_SPACE, s1)
         else let (ok, s2) = write_block hw (word_of_int b) (poke 0 (map of_char target) junk) s1
              in if \<not> ok then Some (Inl VFS_ERR_IO, s2) else Some (Inr (inode1\<lparr>i_blocks := e_block_size s2 div 512\<rparr>), s2)) })"

definition symlink_at :: "'h hw \<Rightarrow> u8 list \<Rightarrow> string \<Rightarrow> e2_path \<Rightarrow> ('h, int) e2_op" where
  "symlink_at hw junk target p s = do {
     (n, s1) \<leftarrow> alloc_inode hw junk s;
     (if n \<le> 0 then Some (VFS_ERR_NO_SPACE, s1)
      else do {
        (r, s2) \<leftarrow> put_target hw junk target (new_inode 0xA1ED (of_nat (length target)) 1 0) s1;
        (case r of Inl e \<Rightarrow> undo_new hw junk [] (word_of_int n) e s2
         | Inr inode \<Rightarrow> do {
             (ok, s3) \<leftarrow> write_inode hw junk (word_of_int n) inode s2;
             (if \<not> ok then undo_new hw junk [] (word_of_int n) VFS_ERR_IO s3
              else do {
                (ok, s4) \<leftarrow> dir_add_entry hw junk (pa_parent p) (pa_leaf p) (word_of_int n) EXT2_FT_UNKNOWN s3;
                (if \<not> ok then do { (_, s5) \<leftarrow> inode_clear_blocks hw junk inode s4; undo_new hw junk [] (word_of_int n) VFS_ERR_IO s5 }
                 else Some (VFS_OK, s4)) }) }) }) }"

definition ext2_symlink :: "'h hw \<Rightarrow> u8 list \<Rightarrow> string \<Rightarrow> string \<Rightarrow> ('h, int) e2_op" where
  "ext2_symlink hw junk target link_path s =
     (if target = [] then Some (VFS_ERR_INVALID_ARG, s)
      else do {
        (po, s1) \<leftarrow> resolve_path hw junk True link_path s;
        (case po of None \<Rightarrow> Some (VFS_ERR_INVALID_ARG, s1)
         | Some p \<Rightarrow>
             if pa_inode p \<noteq> 0 then Some (VFS_ERR_PERM, s1)
             else if pa_parent p = 0 \<or> pa_leaf p = [] then Some (VFS_ERR_INVALID_ARG, s1)
             else if length target \<ge> 256 then Some (VFS_ERR_INVALID_ARG, s1)
             else symlink_at hw junk target p s1) })"

definition read_target :: "'h hw \<Rightarrow> u8 list \<Rightarrow> u32 \<Rightarrow> e2_inode \<Rightarrow> ('h, int \<times> string) e2_op" where
  "read_target hw junk max_len inode s =
     (let chars = map (\<lambda>b. char_of (unat (b :: u8))); link_len = (if sint (i_size inode) > sint max_len then sint max_len else sint (i_size inode)) in
      if i_mode inode AND 0xA000 = 0 then Some ((VFS_ERR_INVALID_ARG, []), s)
      else if sint (i_size inode) \<le> 0 then Some ((0, []), s)
      else if i_size inode \<le> 60
      then Some ((link_len, chars (take (nat link_len) (drop 40 (inode_bytes inode)))), s)
      else do {
        ((b, _), s1) \<leftarrow> inode_get_block hw junk inode 0 False s;
        (if b \<le> 0 then Some ((VFS_ERR_IO, []), s1)
         else let (ok, block, s2) = read_block hw (word_of_int b) junk s1
              in if \<not> ok then Some ((VFS_ERR_IO, []), s2)
                 else if link_len > 4096 then None
                 else Some ((link_len, chars (take (nat link_len) block)), s2)) })"

definition ext2_readlink :: "'h hw \<Rightarrow> u8 list \<Rightarrow> string \<Rightarrow> u32 \<Rightarrow> ('h, int \<times> string) e2_op" where
  "ext2_readlink hw junk link_path max_len = with_inode hw junk link_path (VFS_ERR_NOT_FOUND, []) (VFS_ERR_IO, [])
     (\<lambda>_ inode. read_target hw junk max_len inode)"

section \<open>Mounting\<close>

definition ext2_zero :: "u32 \<Rightarrow> 'h ext2 \<Rightarrow> 'h ext2" where
  "ext2_zero lba s = \<lparr>e_mounted = False, e_partition_lba = lba, e_block_size = 0, e_sectors_per_block = 0, e_inodes_per_group = 0, e_blocks_per_group = 0,
     e_inode_size = 0, e_inode_table_block = 0, e_block_bitmap_block = 0, e_inode_bitmap_block = 0, e_group_desc_block = 0, e_group_desc_count = 0,
     e_total_inodes = 0, e_total_blocks = 0,
     e_sb = \<lparr>sb_inode_count = 0, sb_block_count = 0, sb_first_data_block = 0, sb_log_block_size = 0, sb_blocks_per_group = 0, sb_inodes_per_group = 0,
       sb_magic = 0, sb_rev_level = 0, sb_first_ino = 0, sb_inode_size = 0\<rparr>, e_handles = e_handles s, e_dev = e_dev s\<rparr>"

definition ext2_init_state_from_partition :: "'h hw \<Rightarrow> u8 list \<Rightarrow> u32 \<Rightarrow> ('h, bool) e2_op" where
  "ext2_init_state_from_partition hw junk lba s =
     (let (ok, s1) = read_superblock hw junk (ext2_zero lba s); sb = e_sb s1; s2 = s1\<lparr>e_block_size := EXT2_BLOCK_SIZE\<rparr> in
      if \<not> ok then Some (False, s1)
      else if sb_log_block_size sb \<ge> 32 then None
      else if push_bit (unat (sb_log_block_size sb)) (1024 :: u32) \<noteq> EXT2_BLOCK_SIZE then Some (False, s2)
      else if sb_blocks_per_group sb = 0 then None
      else let s3 = s2\<lparr>e_sectors_per_block := EXT2_BLOCK_SIZE div 512, e_inodes_per_group := sb_inodes_per_group sb,
                 e_blocks_per_group := sb_blocks_per_group sb, e_inode_size := (if sb_inode_size sb \<noteq> 0 then ucast (sb_inode_size sb) else 128),
                 e_total_inodes := sb_inode_count sb, e_total_blocks := sb_block_count sb,
                 e_group_desc_count := (sb_block_count sb + sb_blocks_per_group sb - 1) div sb_blocks_per_group sb,
                 e_group_desc_block := 2, e_mounted := True\<rparr> in do {
        (gdo, s4) \<leftarrow> read_group_desc hw junk 0 s3;
        (case gdo of None \<Rightarrow> Some (False, s4\<lparr>e_mounted := False\<rparr>)
         | Some gd \<Rightarrow> Some (True, s4\<lparr>e_block_bitmap_block := gd_block_bitmap gd, e_inode_bitmap_block := gd_inode_bitmap gd,
             e_inode_table_block := gd_inode_table gd\<rparr>)) })"

definition ext2_mount_from_lba :: "'h hw \<Rightarrow> u8 list \<Rightarrow> u32 \<Rightarrow> ('h, bool) e2_op" where
  "ext2_mount_from_lba hw junk lba s = do {
     (ok, s1) \<leftarrow> ext2_init_state_from_partition hw junk lba s;
     Some (ok, if ok then s1\<lparr>e_handles := map (\<lambda>_. \<lparr>eh_used = False, eh_ref_count = 0, eh_inode_num = 0, eh_pos = 0, eh_flags = 0\<rparr>) (e_handles s1)\<rparr> else s1) }"

primrec mount_first :: "'h hw \<Rightarrow> u8 list \<Rightarrow> u32 list \<Rightarrow> ('h, bool) e2_op" where
  "mount_first hw junk [] s = Some (False, s)"
| "mount_first hw junk (lba # lbas) s = do {
     (ok, s1) \<leftarrow> ext2_mount_from_lba hw junk lba s;
     (if ok then Some (True, s1) else mount_first hw junk lbas s1) }"

text \<open>The partitions of the disk: the GPT entries, or the MBR entries when there are none.\<close>

definition find_partitions :: "'h hw \<Rightarrow> u8 list \<Rightarrow> ('h, u32 list) e2_op" where
  "find_partitions hw junk s =
     (let sec = pack_words (take 512 junk); parts = replicate PARTITION_MAX_ENTRIES entry_none; lbas = (\<lambda>n es. map lba_start (take (nat n) es)) in do {
      (n, es, d) \<leftarrow> partition_scan_gpt hw sec (Some parts) (int PARTITION_MAX_ENTRIES) (e_dev s);
      (if n \<le> 0
       then let (n1, es1, d1) = partition_scan_mbr hw sec es (int PARTITION_MAX_ENTRIES) d in Some (lbas n1 (the es1), s\<lparr>e_dev := d1\<rparr>)
       else Some (lbas n (the es), s\<lparr>e_dev := d\<rparr>)) })"

definition ext2_backend_from_spec :: "'h hw \<Rightarrow> u8 list \<Rightarrow> string \<Rightarrow> ('h, bool) e2_op" where
  "ext2_backend_from_spec hw junk spec s =
     (if spec = ''ext2'' then do { (lbas, s1) \<leftarrow> find_partitions hw junk s; mount_first hw junk lbas s1 }
      else if take 4 spec = ''ext2'' \<and> take 1 (drop 4 spec) \<in> {'':'', ''@''}
      then (case parse_u32_dec (drop 5 spec) of None \<Rightarrow> Some (False, s) | Some lba \<Rightarrow> ext2_mount_from_lba hw junk lba s)
      else Some (False, s))"

section \<open>Listing the root directory\<close>

record e2_ls_entry =
  ls_inode :: u32
  ls_size :: u32
  ls_mtime :: u32
  ls_name :: "u8 list"

function ls_block :: "'h hw \<Rightarrow> u8 list \<Rightarrow> nat \<Rightarrow> nat \<Rightarrow> u8 list \<Rightarrow> nat \<Rightarrow> e2_ls_entry list \<Rightarrow> ('h, e2_ls_entry list) e2_op" where
  "ls_block hw junk bs max_entries block off out s =
     (if off + 8 > bs \<or> length out \<ge> max_entries \<or> ent_rec_len block off = 0 then Some (out, s)
      else if ent_inode block off \<noteq> 0 \<and> ent_name_len block off > 0
      then (case read_inode hw junk (ent_inode block off) s of None \<Rightarrow> None
        | Some (io, s1) \<Rightarrow>
            ls_block hw junk bs max_entries block (off + unat (ent_rec_len block off)) (case io of None \<Rightarrow> out
              | Some inode \<Rightarrow> out @ [\<lparr>ls_inode = ent_inode block off, ls_size = i_size inode, ls_mtime = i_mtime inode,
                  ls_name = take (min (unat (ent_name_len block off)) 63) (drop (off + 8) block)\<rparr>]) s1)
      else ls_block hw junk bs max_entries block (off + unat (ent_rec_len block off)) out s)"
  by pat_completeness auto
termination
  by (relation "measure (\<lambda>(hw, junk, bs, m, block, off, out, s). bs - off)") (auto simp: rec_step_less)

declare ls_block.simps [simp del]

primrec ls_loop :: "'h hw \<Rightarrow> u8 list \<Rightarrow> nat \<Rightarrow> e2_inode \<Rightarrow> nat \<Rightarrow> u32 \<Rightarrow> e2_ls_entry list \<Rightarrow> ('h, e2_ls_entry list) e2_op" where
  "ls_loop hw junk max_entries root 0 b out s = Some (out, s)"
| "ls_loop hw junk max_entries root (Suc n) b out s =
     (if length out \<ge> max_entries then Some (out, s)
      else do {
        ((block_num, _), s1) \<leftarrow> inode_get_block hw junk root b False s;
        (if block_num \<le> 0 then ls_loop hw junk max_entries root n (b + 1) out s1
         else let (ok, block, s2) = read_block hw (word_of_int block_num) junk s1 in
           if \<not> ok then ls_loop hw junk max_entries root n (b + 1) out s2
           else do { (out1, s3) \<leftarrow> ls_block hw junk (unat (e_block_size s2)) max_entries block 0 out s2; ls_loop hw junk max_entries root n (b + 1) out1 s3 }) })"

definition ext2_list_root_long :: "'h hw \<Rightarrow> u8 list \<Rightarrow> bool \<Rightarrow> int \<Rightarrow> ('h, e2_ls_entry list option) e2_op" where
  "ext2_list_root_long hw junk out max_entries s =
     (if \<not> e_mounted s \<or> \<not> out \<or> max_entries \<le> 0 then Some (None, s)
      else do {
        (dir, s1) \<leftarrow> open_dir hw junk EXT2_ROOT_INODE s;
        (case dir of None \<Rightarrow> Some (None, s1)
         | Some (root, n) \<Rightarrow> do { (es, s2) \<leftarrow> ls_loop hw junk (nat max_entries) root (unat n) 0 [] s1; Some (Some es, s2) }) })"

end
