(* ===== verification/RamdiskCorrect.thy ===== *)
theory RamdiskCorrect
  imports Ramdisk
begin

text \<open>
  What the memory file system keeps: sizes and positions inside the 8192-byte arrays, handles on existing files, unique names; and that a read returns what was written.
\<close>

section \<open>The invariant\<close>

definition ram_file_ok :: "ram_file \<Rightarrow> bool" where
  "ram_file_ok f \<longleftrightarrow> length (rf_data f) = RAMDISK_FILE_CAPACITY \<and> unat (rf_size f) \<le> RAMDISK_FILE_CAPACITY"

definition ram_handle_wf :: "ram_file list \<Rightarrow> ram_handle \<Rightarrow> bool" where
  "ram_handle_wf fs h \<longleftrightarrow> (rh_used h \<longrightarrow> 0 \<le> rh_entry_idx h \<and> rh_entry_idx h < int RAMDISK_MAX_FILES \<and>
     rf_used (fs ! nat (rh_entry_idx h)) \<and> unat (rh_pos h) \<le> RAMDISK_FILE_CAPACITY)"

definition unique_names :: "ram_file list \<Rightarrow> bool" where
  "unique_names fs \<longleftrightarrow> (\<forall>i < length fs. \<forall>j < length fs. rf_used (fs ! i) \<and> rf_used (fs ! j) \<and> rf_name (fs ! i) = rf_name (fs ! j) \<longrightarrow> i = j)"

definition ram_inv :: "ramdisk \<Rightarrow> bool" where
  "ram_inv s \<longleftrightarrow> length (ramdisk_files s) = RAMDISK_MAX_FILES \<and> length (ramdisk_handles s) = RAMDISK_MAX_HANDLES \<and>
     list_all ram_file_ok (ramdisk_files s) \<and> list_all (ram_handle_wf (ramdisk_files s)) (ramdisk_handles s) \<and> unique_names (ramdisk_files s)"

lemma ram_invD:
  assumes "ram_inv s"
  shows "length (ramdisk_files s) = RAMDISK_MAX_FILES" "length (ramdisk_handles s) = RAMDISK_MAX_HANDLES"
    "list_all ram_file_ok (ramdisk_files s)" "list_all (ram_handle_wf (ramdisk_files s)) (ramdisk_handles s)" "unique_names (ramdisk_files s)"
  using assms by (simp_all add: ram_inv_def)

lemma handle_file:
  assumes "ram_inv s" "ram_handle_ok h s"
  shows "0 \<le> rh_entry_idx (rhandle s h)" "nat (rh_entry_idx (rhandle s h)) < length (ramdisk_files s)"
    "ram_file_ok (rfile s (rh_entry_idx (rhandle s h)))" "rf_used (rfile s (rh_entry_idx (rhandle s h)))"
    "unat (rh_pos (rhandle s h)) \<le> RAMDISK_FILE_CAPACITY" "nat h < length (ramdisk_handles s)"
proof -
  note I = ram_invD [OF assms(1)]
  show h: "nat h < length (ramdisk_handles s)" using assms(2) I(2) unfolding ram_handle_ok_def by linarith
  have "ram_handle_wf (ramdisk_files s) (rhandle s h)" by (rule list_all_nth [OF I(4) h])
  then show "0 \<le> rh_entry_idx (rhandle s h)" and i: "nat (rh_entry_idx (rhandle s h)) < length (ramdisk_files s)"
    and "rf_used (rfile s (rh_entry_idx (rhandle s h)))" and "unat (rh_pos (rhandle s h)) \<le> RAMDISK_FILE_CAPACITY"
    using assms(2) I(1) by (auto simp: ram_handle_wf_def ram_handle_ok_def)
  show "ram_file_ok (rfile s (rh_entry_idx (rhandle s h)))" by (rule list_all_nth [OF I(3) i])
qed

text \<open>Changes that the invariant allows: of one file, keeping its name and that it is in use; of one handle.\<close>

lemma upd_file_inv:
  assumes "ram_inv s" "ram_file_ok (f (rfile s i))" "rf_used (f (rfile s i)) = rf_used (rfile s i)" "rf_name (f (rfile s i)) = rf_name (rfile s i)"
  shows "ram_inv (upd_file i f s)"
proof -
  note I = ram_invD [OF assms(1)]
  let ?fs = "(ramdisk_files s)[nat i := f (rfile s i)]"
  have "?fs ! j = (if j = nat i \<and> nat i < length (ramdisk_files s) then f (rfile s i) else ramdisk_files s ! j)" for j
    by (cases "nat i < length (ramdisk_files s)") (simp_all add: nth_list_update list_update_beyond)
  then have u: "rf_used (?fs ! j) = rf_used (ramdisk_files s ! j)" "rf_name (?fs ! j) = rf_name (ramdisk_files s ! j)" for j
    using assms(3,4) by simp_all
  have "list_all (ram_handle_wf ?fs) (ramdisk_handles s)" using I(4) by (simp add: ram_handle_wf_def u list_all_iff)
  moreover have "unique_names ?fs" using I(5) by (simp add: unique_names_def u)
  ultimately show ?thesis using I assms(2) by (simp add: ram_inv_def upd_file_def list_all_update)
qed

lemma upd_handle_inv:
  assumes "ram_inv s" "ram_handle_wf (ramdisk_files s) (f (rhandle s h))"
  shows "ram_inv (upd_handle h f s)"
  using ram_invD [OF assms(1)] assms(2) by (simp add: ram_inv_def upd_handle_def list_all_update)

lemma counters_inv [simp]: "ram_inv (s\<lparr>ramdisk_mtime_tick := n\<rparr>) = ram_inv s" "ram_inv (s\<lparr>ramdisk_next_inode := n\<rparr>) = ram_inv s"
  by (simp_all add: ram_inv_def)

lemma touch_inv: "ram_inv s \<Longrightarrow> nat i < length (ramdisk_files s) \<Longrightarrow> ram_inv (touch i s)"
  using list_all_nth [of ram_file_ok "ramdisk_files s" "nat i"]
  by (auto simp: touch_def ram_file_ok_def ram_invD intro!: upd_file_inv)

lemma ram_upd_simps [simp]:
  "ramdisk_handles (upd_file i f s) = ramdisk_handles s" "ramdisk_files (upd_handle h g s) = ramdisk_files s"
  "ramdisk_handles (touch i s) = ramdisk_handles s" "length (ramdisk_files (upd_file i f s)) = length (ramdisk_files s)"
  "length (ramdisk_files (touch i s)) = length (ramdisk_files s)" "length (ramdisk_handles (upd_handle h g s)) = length (ramdisk_handles s)"
  by (simp_all add: upd_file_def upd_handle_def touch_def)

lemma length_poke [simp]: "length (poke pos bs data) = length data"
proof -
  have "length (fold (\<lambda>i d. d[pos + i := bs ! i]) xs data) = length data" for xs by (induction xs arbitrary: data) auto
  then show ?thesis by (simp add: poke_def)
qed

section \<open>Every operation keeps it\<close>

lemma ramdisk_read_inv:
  assumes "ram_inv s"
  shows "ram_inv (snd (ramdisk_read h b n s))"
proof (cases "ram_handle_ok h s")
  case True
  note H = handle_file [OF assms True]
  let ?f = "rfile s (rh_entry_idx (rhandle s h))" and ?p = "rh_pos (rhandle s h)"
  have wf: "ram_handle_wf (ramdisk_files s) (rhandle s h)" by (rule list_all_nth [OF ram_invD(4) [OF assms] H(6)])
  have "unat (?p + m) \<le> RAMDISK_FILE_CAPACITY" if "\<not> rf_size ?f \<le> ?p" "m \<le> rf_size ?f - ?p" for m
  proof -
    have "unat (rf_size ?f - ?p) = unat (rf_size ?f) - unat ?p" using that(1) by (simp add: unat_sub)
    then have "unat ?p + unat m \<le> unat (rf_size ?f)" using that unfolding word_le_nat_alt by linarith
    moreover have "unat (rf_size ?f) \<le> RAMDISK_FILE_CAPACITY" using H(3) by (simp add: ram_file_ok_def)
    ultimately show ?thesis by (subst unat_add_small) simp_all
  qed
  then show ?thesis using assms wf H
    by (auto simp: ramdisk_read_def Let_def ram_handle_wf_def ram_file_ok_def intro!: upd_handle_inv)
qed (use assms in \<open>simp add: ramdisk_read_def\<close>)

lemma ramdisk_close_inv: "ram_inv s \<Longrightarrow> ram_inv (snd (ramdisk_close h s))"
  by (auto simp: ramdisk_close_def ram_handle_wf_def intro!: upd_handle_inv)

lemma upd_file_gen:
  assumes "ram_inv s" "0 \<le> i" "nat i < length (ramdisk_files s)" "ram_file_ok (f (rfile s i))"
    and "\<And>j. rf_used (f (rfile s i)) \<Longrightarrow> j < length (ramdisk_files s) \<Longrightarrow> j \<noteq> nat i \<Longrightarrow> rf_used (ramdisk_files s ! j) \<Longrightarrow>
      rf_name (ramdisk_files s ! j) \<noteq> rf_name (f (rfile s i))"
    and "\<And>h. \<not> rf_used (f (rfile s i)) \<Longrightarrow> h \<in> set (ramdisk_handles s) \<Longrightarrow> rh_used h \<Longrightarrow> rh_entry_idx h \<noteq> i"
  shows "ram_inv (upd_file i f s)"
proof -
  note I = ram_invD [OF assms(1)]
  let ?fs = "(ramdisk_files s)[nat i := f (rfile s i)]"
  have "ram_handle_wf ?fs h" if h: "h \<in> set (ramdisk_handles s)" for h
  proof -
    have "ram_handle_wf (ramdisk_files s) h" using I(4) h by (simp add: list_all_iff)
    moreover have "rf_used (f (rfile s i)) \<or> (rh_used h \<longrightarrow> rh_entry_idx h \<noteq> i)" using assms(6) [OF _ h] by blast
    ultimately show ?thesis using assms(2,3) by (cases "nat (rh_entry_idx h) = nat i") (auto simp: ram_handle_wf_def eq_nat_nat_iff)
  qed
  moreover have "unique_names ?fs" unfolding unique_names_def
  proof (intro allI impI)
    fix j k assume jk: "j < length ?fs" "k < length ?fs" "rf_used (?fs ! j) \<and> rf_used (?fs ! k) \<and> rf_name (?fs ! j) = rf_name (?fs ! k)"
    then show "j = k" using assms(3) assms(5) [of j] assms(5) [of k] I(5)
      by (cases "j = nat i"; cases "k = nat i") (auto simp: unique_names_def nth_list_update)
  qed
  moreover have "list_all (ram_handle_wf ?fs) (ramdisk_handles s)" using calculation(1) by (simp add: list_all_iff)
  ultimately show ?thesis using I assms(4) by (simp add: ram_inv_def upd_file_def list_all_update)
qed

lemma found_entry:
  assumes "ram_inv s" "0 \<le> ramdisk_find_entry n s"
  shows "nat (ramdisk_find_entry n s) < length (ramdisk_files s)" "rf_used (rfile s (ramdisk_find_entry n s))"
    "rf_name (rfile s (ramdisk_find_entry n s)) = n" "ram_file_ok (rfile s (ramdisk_find_entry n s))"
  using slot_index_Some [OF assms(2) [unfolded ramdisk_find_entry_def]] ram_invD(3) [OF assms(1)] list_all_nth [of ram_file_ok "ramdisk_files s"]
  by (auto simp: ramdisk_find_entry_def dest!: find_slot_SomeD)

lemma not_found_entry: "ramdisk_find_entry n s < 0 \<longleftrightarrow> (\<forall>f \<in> set (ramdisk_files s). rf_used f \<longrightarrow> rf_name f \<noteq> n)"
  by (auto simp: ramdisk_find_entry_def slot_index_neg find_slot_None)

lemma name_scan_append: "n @ r = cs \<and> length n \<le> k" if "name_scan k cs = (n, r)"
  using that by (induction k cs arbitrary: n r rule: name_scan.induct) (auto split: if_splits prod.splits)

lemma extract_name_short: "ramdisk_extract_name path = Some n \<Longrightarrow> length n \<le> RAMDISK_NAME_MAX \<and> n \<noteq> []"
  by (auto simp: ramdisk_extract_name_def split: option.splits prod.splits if_splits dest!: name_scan_append)

lemma new_handle_inv:
  assumes "ram_inv t" "0 \<le> i" "nat i < length (ramdisk_files t)" "rf_used (rfile t i)"
  shows "ram_inv (snd (new_handle fl i t))"
  using assms ram_invD(1) [OF assms(1)] by (auto simp: new_handle_def Let_def ram_handle_wf_def intro!: upd_handle_inv)

lemma alloc_entry:
  assumes "ram_inv s" "0 \<le> ramdisk_alloc_entry s"
  shows "nat (ramdisk_alloc_entry s) < length (ramdisk_files s)" "\<not> rf_used (rfile s (ramdisk_alloc_entry s))"
    "ram_file_ok (rfile s (ramdisk_alloc_entry s))"
  using slot_index_Some [OF assms(2) [unfolded ramdisk_alloc_entry_def]] ram_invD(3) [OF assms(1)] list_all_nth [of ram_file_ok "ramdisk_files s"]
  by (auto simp: ramdisk_alloc_entry_def dest!: find_slot_SomeD)

lemma new_file_inv:
  assumes "ram_inv s" "0 \<le> ramdisk_alloc_entry s" "ramdisk_find_entry n s < 0" "length n \<le> RAMDISK_NAME_MAX"
  shows "ram_inv (new_file n s)"
proof -
  note A = alloc_entry [OF assms(1,2)]
  have "\<forall>f \<in> set (ramdisk_files s). rf_used f \<longrightarrow> rf_name f \<noteq> n" using assms(3) not_found_entry by simp
  then have "ram_inv (upd_file (ramdisk_alloc_entry s) (\<lambda>f. f\<lparr>rf_used := True, rf_name := copy_name (RAMDISK_NAME_MAX + 1) (Some n),
       rf_size := 0, rf_inode := ramdisk_next_inode s\<rparr>) (s\<lparr>ramdisk_next_inode := ramdisk_next_inode s + 1\<rparr>))"
    using assms A by (intro upd_file_gen) (auto simp: ram_file_ok_def)
  then show ?thesis unfolding new_file_def Let_def by (rule touch_inv) (use A in simp)
qed

lemma rfile_upd [simp]: "nat i < length (ramdisk_files s) \<Longrightarrow> rfile (upd_file i f s) i = f (rfile s i)"
  by (simp add: upd_file_def)

lemma rfile_touch [simp]: "nat i < length (ramdisk_files s) \<Longrightarrow> rfile (touch i s) i = (rfile s i)\<lparr>rf_mtime := ramdisk_mtime_tick s\<rparr>"
  by (simp add: touch_def)

lemma ramdisk_open_inv:
  assumes "ram_inv s"
  shows "ram_inv (snd (ramdisk_open path fl s))"
proof (cases "ramdisk_extract_name path")
  case (Some n)
  show ?thesis
  proof (cases "ramdisk_find_entry n s < 0")
    case True
    have "ram_inv (snd (new_handle fl (ramdisk_alloc_entry s) (new_file n s)))" if a: "0 \<le> ramdisk_alloc_entry s"
      using alloc_entry [OF assms a] extract_name_short [OF Some] new_file_inv [OF assms a True]
      by (intro new_handle_inv) (simp_all add: a new_file_def Let_def)
    then show ?thesis using True Some assms by (simp add: ramdisk_open_def Let_def)
  next
    case False
    then have f: "0 \<le> ramdisk_find_entry n s" by simp
    note F = found_entry [OF assms f]
    let ?i = "ramdisk_find_entry n s" and ?t = "upd_file (ramdisk_find_entry n s) (\<lambda>f. f\<lparr>rf_size := 0\<rparr>) s"
    have t: "ram_inv ?t" by (rule upd_file_inv [OF assms]) (use F(4) in \<open>simp_all add: ram_file_ok_def\<close>)
    have "ram_inv (touch ?i ?t)" by (rule touch_inv [OF t]) (use F(1) in simp)
    then have "ram_inv (snd (new_handle fl ?i (touch ?i ?t)))" by (rule new_handle_inv) (use F f in simp_all)
    moreover have "ram_inv (snd (new_handle fl ?i s))" by (rule new_handle_inv [OF assms f]) (use F in simp_all)
    ultimately show ?thesis using False Some by (simp add: ramdisk_open_def Let_def)
  qed
qed (use assms in \<open>simp add: ramdisk_open_def\<close>)

lemma ramdisk_write_inv:
  assumes "ram_inv s"
  shows "ram_inv (snd (ramdisk_write h buf s))"
proof (cases "ram_handle_ok h s \<and> buf \<noteq> None \<and> unat (rh_pos (rhandle s h)) < RAMDISK_FILE_CAPACITY")
  case True
  then have ok: "ram_handle_ok h s" by simp
  note H = handle_file [OF assms ok]
  let ?i = "rh_entry_idx (rhandle s h)" and ?p = "rh_pos (rhandle s h)"
  define bs where "bs = take (RAMDISK_FILE_CAPACITY - unat ?p) (the buf)"
  have len: "length bs \<le> RAMDISK_FILE_CAPACITY - unat ?p" by (simp add: bs_def)
  have n: "unat (of_nat (length bs) :: u32) = length bs" using len by (simp add: unat_of_nat)
  have p: "unat (?p + of_nat (length bs)) = unat ?p + length bs"
  proof -
    have "unat ?p + length bs \<le> RAMDISK_FILE_CAPACITY" using len conjunct2 [OF conjunct2 [OF True]] by linarith
    then show ?thesis using unat_add_small [of ?p "of_nat (length bs)"] n by simp
  qed
  then have le: "unat (?p + of_nat (length bs)) \<le> RAMDISK_FILE_CAPACITY" using len True by linarith
  let ?s1 = "upd_file ?i (\<lambda>f. f\<lparr>rf_data := poke (unat ?p) bs (rf_data f)\<rparr>) s"
  let ?s2 = "upd_handle h (\<lambda>h. h\<lparr>rh_pos := rh_pos h + of_nat (length bs)\<rparr>) ?s1"
  let ?s3 = "if ?p + of_nat (length bs) > rf_size (rfile ?s2 ?i) then upd_file ?i (\<lambda>f. f\<lparr>rf_size := ?p + of_nat (length bs)\<rparr>) ?s2 else ?s2"
  have i1: "ram_inv ?s1" by (rule upd_file_inv [OF assms]) (use H(3) in \<open>simp_all add: ram_file_ok_def\<close>)
  have "ram_handle_wf (ramdisk_files ?s1) (rhandle ?s1 h)" by (rule list_all_nth [OF ram_invD(4) [OF i1]]) (use H(6) in simp)
  then have i2: "ram_inv ?s2" by (intro upd_handle_inv [OF i1]) (use le in \<open>simp add: ram_handle_wf_def\<close>)
  have fo: "ram_file_ok (rfile ?s2 ?i)" by (rule list_all_nth [OF ram_invD(3) [OF i2]]) (use H(2) in simp)
  have i3: "ram_inv ?s3" using upd_file_inv [OF i2, of "\<lambda>f. f\<lparr>rf_size := ?p + of_nat (length bs)\<rparr>" ?i] fo le i2 by (simp add: ram_file_ok_def)
  have "ram_inv (touch ?i ?s3)" by (rule touch_inv [OF i3]) (use H(2) in simp)
  then show ?thesis using True assms by (auto simp: ramdisk_write_def Let_def bs_def)
qed (use assms in \<open>auto simp: ramdisk_write_def Let_def\<close>)

lemma ramdisk_delete_inv:
  assumes "ram_inv s"
  shows "ram_inv (snd (ramdisk_delete path s))"
proof -
  have "ram_inv (upd_file (ramdisk_find_entry n s) (\<lambda>f. f\<lparr>rf_used := False, rf_name := [], rf_size := 0, rf_inode := 0, rf_mtime := 0\<rparr>) s)"
    if "0 \<le> ramdisk_find_entry n s" "\<not> list_ex (\<lambda>h. rh_used h \<and> rh_entry_idx h = ramdisk_find_entry n s) (ramdisk_handles s)" for n
    using that found_entry [OF assms that(1)] by (intro upd_file_gen [OF assms]) (auto simp: ram_file_ok_def list_ex_iff)
  then show ?thesis using assms by (auto simp: ramdisk_delete_def Let_def split: option.split)
qed

lemma ramdisk_rename_inv:
  assumes "ram_inv s"
  shows "ram_inv (snd (ramdisk_rename old new s))"
proof -
  have "ram_inv (touch i (upd_file i (\<lambda>f. f\<lparr>rf_name := copy_name (RAMDISK_NAME_MAX + 1) (Some n)\<rparr>) s))"
    if i: "i = ramdisk_find_entry m s" "0 \<le> i" and n: "length n \<le> RAMDISK_NAME_MAX"
      "\<not> (0 \<le> ramdisk_find_entry n s \<and> ramdisk_find_entry n s \<noteq> i)" for m n i
  proof -
    note F = found_entry [OF assms, of m, folded i(1), OF i(2)]
    have "rf_name (ramdisk_files s ! j) \<noteq> n" if j: "j < length (ramdisk_files s)" "j \<noteq> nat i" "rf_used (ramdisk_files s ! j)" for j
    proof
      assume e: "rf_name (ramdisk_files s ! j) = n"
      then have "\<not> ramdisk_find_entry n s < 0" using j not_found_entry [of n s] nth_mem by metis
      then have "ramdisk_find_entry n s = i" using n(2) by simp
      then have "rf_name (rfile s i) = n" using found_entry(3) [OF assms, of n] i(2) by simp
      then show False using ram_invD(5) [OF assms] j e F(1,2) unfolding unique_names_def by metis
    qed
    then have "ram_inv (upd_file i (\<lambda>f. f\<lparr>rf_name := copy_name (RAMDISK_NAME_MAX + 1) (Some n)\<rparr>) s)"
      using F i(2) n(1) by (intro upd_file_gen [OF assms]) (auto simp: ram_file_ok_def)
    then show ?thesis by (rule touch_inv) (use F(1) in simp)
  qed
  then show ?thesis using assms extract_name_short [of new]
    by (auto simp: ramdisk_rename_def Let_def split: option.split simp del: copy_name_take)
qed

lemma unat_size_cap: "unat (ram_cap sz) \<le> RAMDISK_FILE_CAPACITY"
  by (auto simp: ram_cap_def word_less_nat_alt)

lemma ramdisk_truncate_inv:
  assumes "ram_inv s"
  shows "ram_inv (snd (ramdisk_truncate path sz s))"
proof -
  have "ram_inv (t\<lparr>ramdisk_handles := map (\<lambda>h. if rh_used h \<and> rh_entry_idx h = i \<and> rh_pos h > n then h\<lparr>rh_pos := n\<rparr> else h) (ramdisk_handles t)\<rparr>)"
    if t: "ram_inv t" and n: "unat n \<le> RAMDISK_FILE_CAPACITY" for t i and n :: u32
    using ram_invD [OF t] n by (auto simp: ram_inv_def ram_handle_wf_def list_all_iff)
  moreover have "ram_inv (touch i (upd_file i (\<lambda>f. f\<lparr>rf_size := n\<rparr>) s))"
    if "i = ramdisk_find_entry m s" "0 \<le> i" "unat n \<le> RAMDISK_FILE_CAPACITY" for i m n
    using found_entry [OF assms, of m] that
    by (intro touch_inv upd_file_inv [OF assms]) (auto simp: ram_file_ok_def)
  ultimately have "ram_inv ((touch i (upd_file i (\<lambda>f. f\<lparr>rf_size := ram_cap sz\<rparr>) s))\<lparr>ramdisk_handles :=
      map (\<lambda>h. if rh_used h \<and> rh_entry_idx h = i \<and> rh_pos h > ram_cap sz then h\<lparr>rh_pos := ram_cap sz\<rparr> else h)
        (ramdisk_handles (touch i (upd_file i (\<lambda>f. f\<lparr>rf_size := ram_cap sz\<rparr>) s)))\<rparr>)"
    if "i = ramdisk_find_entry m s" "0 \<le> i" for i m using that unat_size_cap by blast
  then show ?thesis using assms by (simp add: ramdisk_truncate_def Let_def split: option.split)
qed

lemma ramdisk_ftruncate_inv:
  assumes "ram_inv s"
  shows "ram_inv (snd (ramdisk_ftruncate h sz s))"
proof (cases "ram_handle_ok h s")
  case True
  note H = handle_file [OF assms True]
  let ?n = "ram_cap sz"
  let ?i = "rh_entry_idx (rhandle s h)" and ?s1 = "upd_file (rh_entry_idx (rhandle s h)) (\<lambda>f. f\<lparr>rf_size := ?n\<rparr>) s"
  have n: "unat ?n \<le> RAMDISK_FILE_CAPACITY" by (rule unat_size_cap)
  have i1: "ram_inv ?s1" by (rule upd_file_inv [OF assms]) (use H(3) n in \<open>simp_all add: ram_file_ok_def\<close>)
  have "ram_handle_wf (ramdisk_files ?s1) (rhandle ?s1 h)" by (rule list_all_nth [OF ram_invD(4) [OF i1]]) (use H(6) in simp)
  then have "ram_inv (upd_handle h (\<lambda>h. if rh_pos h > ?n then h\<lparr>rh_pos := ?n\<rparr> else h) ?s1)"
    by (intro upd_handle_inv [OF i1]) (use n in \<open>simp add: ram_handle_wf_def\<close>)
  then have "ram_inv (touch ?i (upd_handle h (\<lambda>h. if rh_pos h > ?n then h\<lparr>rh_pos := ?n\<rparr> else h) ?s1))"
    by (rule touch_inv) (use H(2) in simp)
  then show ?thesis using True by (simp add: ramdisk_ftruncate_def Let_def)
qed (use assms in \<open>simp add: ramdisk_ftruncate_def\<close>)

lemma sint_small:
  fixes w :: u32
  assumes "unat w < 0x80000000"
  shows "sint w = int (unat w)"
proof -
  have "uint w = int (unat w)" by simp
  then have "- 0x80000000 \<le> uint w" "uint w < 0x80000000" using assms by linarith+
  then show ?thesis by (simp add: sint_uint signed_take_bit_int_eq_self)
qed

lemma ramdisk_lseek_inv:
  assumes "ram_inv s"
  shows "ram_inv (snd (ramdisk_lseek h off wh s))"
proof (cases "ram_handle_ok h s")
  case True
  note H = handle_file [OF assms True]
  let ?f = "rfile s (rh_entry_idx (rhandle s h))"
  have le: "unat (rf_size ?f) \<le> RAMDISK_FILE_CAPACITY" using H(3) by (simp add: ram_file_ok_def)
  then have sz: "sint (rf_size ?f) = int (unat (rf_size ?f))" "unat (rf_size ?f) \<le> RAMDISK_FILE_CAPACITY"
    using sint_small [of "rf_size ?f"] by simp_all
  have "ram_handle_wf (ramdisk_files s) (rhandle s h)" by (rule list_all_nth [OF ram_invD(4) [OF assms] H(6)])
  then have "ram_inv (upd_handle h (\<lambda>h. h\<lparr>rh_pos := word_of_int p\<rparr>) s)" if "0 \<le> p" "p \<le> sint (rf_size ?f)" for p
  proof (intro upd_handle_inv [OF assms])
    define k where "k = nat p"
    then have k: "p = int k" using that(1) by simp
    have "k \<le> RAMDISK_FILE_CAPACITY" using k that(2) sz by linarith
    moreover have "(word_of_int p :: u32) = of_nat k" using k by simp
    ultimately have "unat (word_of_int p :: u32) \<le> RAMDISK_FILE_CAPACITY" by (simp add: unat_of_nat)
    then show "ram_handle_wf (ramdisk_files s) ((rhandle s h)\<lparr>rh_pos := word_of_int p\<rparr>)"
      using \<open>ram_handle_wf (ramdisk_files s) (rhandle s h)\<close> by (simp add: ram_handle_wf_def)
  qed
  moreover have "0 \<le> clamp_i32 x 0 (sint (rf_size ?f)) \<and> clamp_i32 x 0 (sint (rf_size ?f)) \<le> sint (rf_size ?f)" for x
    using clamp_i32_range sz(1) by simp
  ultimately show ?thesis using True assms by (auto simp: ramdisk_lseek_def Let_def)
qed (use assms in \<open>simp add: ramdisk_lseek_def\<close>)

lemmas ram_op_inv = ramdisk_open_inv ramdisk_read_inv ramdisk_write_inv ramdisk_close_inv ramdisk_delete_inv ramdisk_rename_inv
  ramdisk_truncate_inv ramdisk_ftruncate_inv ramdisk_lseek_inv

section \<open>Reading what was written\<close>

lemma poke_nth:
  assumes "pos + length bs \<le> length data" "j < length data"
  shows "poke pos bs data ! j = (if pos \<le> j \<and> j < pos + length bs then bs ! (j - pos) else data ! j)"
proof -
  have "fold (\<lambda>i d. d[pos + i := bs ! i]) [0..<n] data ! j = (if pos \<le> j \<and> j < pos + n then bs ! (j - pos) else data ! j) \<and>
      length (fold (\<lambda>i d. d[pos + i := bs ! i]) [0..<n] data) = length data" if "n \<le> length bs" for n
    using that
  proof (induction n)
    case (Suc n)
    then show ?case using assms by (auto simp: nth_list_update less_Suc_eq)
  qed auto
  from this [of "length bs"] show ?thesis by (simp add: poke_def)
qed

lemma poke_read:
  assumes "pos + length bs \<le> length data" "pos + length bs \<le> n"
  shows "take (length bs) (drop pos (take n (poke pos bs data))) = bs"
proof (rule nth_equalityI)
  show "length (take (length bs) (drop pos (take n (poke pos bs data)))) = length bs" using assms by simp
  fix i assume "i < length (take (length bs) (drop pos (take n (poke pos bs data))))"
  then have "i < length bs" by simp
  then show "take (length bs) (drop pos (take n (poke pos bs data))) ! i = bs ! i" using assms by (simp add: poke_nth)
qed

text \<open>The bytes of a file.\<close>

definition ram_content :: "ram_file \<Rightarrow> u8 list" where
  "ram_content f = take (unat (rf_size f)) (rf_data f)"

lemma ramdisk_read_content:
  assumes "ram_inv s" "ram_handle_ok h s" "rh_flags (rhandle s h) AND VFS_O_RDONLY \<noteq> 0"
    and "f = rfile s (rh_entry_idx (rhandle s h))" "p = unat (rh_pos (rhandle s h))" "bs = take (unat n) (drop p (ram_content f))"
  shows "ramdisk_read h True n s = ((int (length bs), bs), upd_handle h (\<lambda>h. h\<lparr>rh_pos := rh_pos h + of_nat (length bs)\<rparr>) s)"
proof -
  note H = handle_file [OF assms(1,2), folded assms(4)]
  have f: "length (rf_data f) = RAMDISK_FILE_CAPACITY" "unat (rf_size f) \<le> RAMDISK_FILE_CAPACITY" using H(3) by (simp_all add: ram_file_ok_def)
  then have lc: "length (ram_content f) = unat (rf_size f)" by (simp add: ram_content_def)
  show ?thesis
  proof (cases "rf_size f \<le> rh_pos (rhandle s h)")
    case True
    then have "bs = []" using lc assms(5,6) by (simp add: word_le_nat_alt)
    then show ?thesis using True assms(2-4) by (simp add: ramdisk_read_def Let_def upd_handle_def)
  next
    case False
    define m where "m = (if n > rf_size f - rh_pos (rhandle s h) then rf_size f - rh_pos (rhandle s h) else n)"
    have r: "unat (rf_size f - rh_pos (rhandle s h)) = unat (rf_size f) - p" using False assms(5) by (simp add: unat_sub)
    then have m: "unat m = min (unat n) (unat (rf_size f) - p)" by (auto simp: m_def word_less_nat_alt)
    have lb: "length bs = unat m" using lc m assms(6) by (simp add: min.commute)
    have "map (\<lambda>i. rf_data f ! (p + i)) [0..<unat m] = bs"
    proof (rule nth_equalityI)
      show "map (\<lambda>i. rf_data f ! (p + i)) [0..<unat m] ! i = bs ! i" if "i < length (map (\<lambda>i. rf_data f ! (p + i)) [0..<unat m])" for i
      proof -
        have "i < unat n" "p + i < unat (rf_size f)" using that m by auto
        then show ?thesis using f assms(6) that by (simp add: ram_content_def nth_drop)
      qed
    qed (simp add: lb)
    moreover have "sint m = int (length bs)" using sint_small [of m] m f(2) lb by simp
    moreover have "m = of_nat (length bs)" using lb by simp
    ultimately show ?thesis using False assms(2,3)
      unfolding ramdisk_read_def Let_def assms(4) [symmetric] assms(5) [symmetric] m_def [symmetric] by simp
  qed
qed

text \<open>The state a write leaves.\<close>

lemma ramdisk_write_result:
  assumes "ram_inv s" "ram_handle_ok h s" "rh_flags (rhandle s h) AND VFS_O_WRONLY \<noteq> 0 \<or> rh_flags (rhandle s h) AND VFS_O_RDWR = VFS_O_RDWR"
    and "e = rh_entry_idx (rhandle s h)" "p = unat (rh_pos (rhandle s h))" "p < RAMDISK_FILE_CAPACITY"
    and "bs = take (RAMDISK_FILE_CAPACITY - p) buf" "ramdisk_write h (Some buf) s = (r, t)"
  shows "r = int (length bs)" "ramdisk_handles t = (ramdisk_handles s)[nat h := (rhandle s h)\<lparr>rh_pos := of_nat (p + length bs)\<rparr>]"
    "rf_data (rfile t e) = poke p bs (rf_data (rfile s e))" "unat (rf_size (rfile t e)) = max (unat (rf_size (rfile s e))) (p + length bs)"
    "i \<noteq> nat e \<Longrightarrow> ramdisk_files t ! i = ramdisk_files s ! i" "rf_name (rfile t e) = rf_name (rfile s e)"
proof -
  note H = handle_file [OF assms(1,2), folded assms(4)]
  define q :: u32 where "q = of_nat (p + length bs)"
  have le: "p + length bs \<le> RAMDISK_FILE_CAPACITY" using assms(6,7) by simp
  have q: "rh_pos (rhandle s h) + of_nat (length bs) = q" using assms(5) by (simp add: q_def)
  have uq: "unat q = p + length bs" unfolding q_def using le by (subst unat_of_nat) simp
  have nz: "rh_flags (rhandle s h) AND VFS_O_WRONLY = 0 \<and> rh_flags (rhandle s h) AND VFS_O_RDWR \<noteq> VFS_O_RDWR \<longleftrightarrow> False" using assms(3) by blast
  let ?s2 = "upd_handle h (\<lambda>h. h\<lparr>rh_pos := rh_pos h + of_nat (length bs)\<rparr>) (upd_file e (\<lambda>f. f\<lparr>rf_data := poke p bs (rf_data f)\<rparr>) s)"
  have w: "r = int (length bs)" "t = touch e (if q > rf_size (rfile s e) then upd_file e (\<lambda>f. f\<lparr>rf_size := q\<rparr>) ?s2 else ?s2)"
    using assms(8) assms(2) assms(6) H(2) q unfolding ramdisk_write_def Let_def nz assms(4) [symmetric] assms(5) [symmetric]
    by (auto simp: assms(7) [symmetric] not_le upd_file_def upd_handle_def split: if_splits)
  show "r = int (length bs)" by (fact w(1))
  show "ramdisk_handles t = (ramdisk_handles s)[nat h := (rhandle s h)\<lparr>rh_pos := of_nat (p + length bs)\<rparr>]"
    using q by (simp add: w(2) q_def upd_handle_def touch_def upd_file_def)
  show "rf_data (rfile t e) = poke p bs (rf_data (rfile s e))" using H(2) by (simp add: w(2) upd_handle_def touch_def upd_file_def)
  show "unat (rf_size (rfile t e)) = max (unat (rf_size (rfile s e))) (p + length bs)"
    using H(2) uq by (simp add: w(2) upd_handle_def touch_def upd_file_def word_less_nat_alt)
  show "ramdisk_files t ! i = ramdisk_files s ! i" if "i \<noteq> nat e" using that by (simp add: w(2) upd_handle_def touch_def upd_file_def)
  show "rf_name (rfile t e) = rf_name (rfile s e)" using H(2) by (simp add: w(2) upd_handle_def touch_def upd_file_def)
qed

section \<open>The memory file system as a transition system\<close>

definition ram_boot :: "ramdisk \<Rightarrow> bool" where
  "ram_boot s \<longleftrightarrow> (\<exists>s0. length (ramdisk_files s0) = RAMDISK_MAX_FILES \<and> length (ramdisk_handles s0) = RAMDISK_MAX_HANDLES \<and>
     list_all (\<lambda>f. length (rf_data f) = RAMDISK_FILE_CAPACITY) (ramdisk_files s0) \<and> s = ramdisk_init s0)"

inductive ram_step :: "ramdisk \<Rightarrow> ramdisk \<Rightarrow> bool" where
  ram_step_open: "ram_step s (snd (ramdisk_open path flags s))"
| ram_step_read: "ram_step s (snd (ramdisk_read h b n s))"
| ram_step_write: "ram_step s (snd (ramdisk_write h buf s))"
| ram_step_close: "ram_step s (snd (ramdisk_close h s))"
| ram_step_delete: "ram_step s (snd (ramdisk_delete path s))"
| ram_step_lseek: "ram_step s (snd (ramdisk_lseek h off wh s))"
| ram_step_rename: "ram_step s (snd (ramdisk_rename path path2 s))"
| ram_step_truncate: "ram_step s (snd (ramdisk_truncate path n s))"
| ram_step_ftruncate: "ram_step s (snd (ramdisk_ftruncate h n s))"

lemma ram_boot_inv: "ram_boot s \<Longrightarrow> ram_inv s"
  by (auto simp: ram_boot_def ram_inv_def ramdisk_init_def list_all_iff ram_file_ok_def ram_handle_wf_def unique_names_def)

interpretation ram: invariant_system ram_boot ram_step ram_inv
  by unfold_locales (auto elim!: ram_step.cases intro: ram_boot_inv ram_op_inv)

text \<open>
  C21. Whatever the callers of the memory file system do, every open handle refers to a file in use, no position and no size exceeds the 8192 bytes of the
  file's array, and no two files have the same name.
\<close>

theorem ramdisk_invariant:
  assumes "reach ram_boot ram_step s"
  shows "ram_inv s"
  by (rule ram.reach_inv [OF assms])

definition zero_data :: "u8 list" where
  "zero_data = replicate RAMDISK_FILE_CAPACITY 0"

definition ram0 :: ramdisk where
  "ram0 = \<lparr>ramdisk_files = replicate RAMDISK_MAX_FILES \<lparr>rf_used = False, rf_name = [], rf_size = 0, rf_inode = 0, rf_mtime = 0, rf_data = zero_data\<rparr>,
     ramdisk_handles = replicate RAMDISK_MAX_HANDLES \<lparr>rh_used = False, rh_entry_idx = -1, rh_pos = 0, rh_flags = 0\<rparr>,
     ramdisk_next_inode = 1, ramdisk_mtime_tick = 1\<rparr>"

lemma ram0_boot: "ram_boot ram0"
proof -
  have "ramdisk_init ram0 = ram0" by (simp add: ramdisk_init_def ram0_def map_replicate_const)
  moreover have "list_all (\<lambda>f. length (rf_data f) = RAMDISK_FILE_CAPACITY) (ramdisk_files ram0)"
    by (simp add: ram0_def zero_data_def list_all_iff)
  ultimately show ?thesis unfolding ram_boot_def by (intro exI [of _ ram0]) (simp add: ram0_def)
qed

lemma ram1_reach: "reach ram_boot ram_step (snd (ramdisk_open (Some ''/a'') 7 ram0))"
proof (rule reach_step)
  show "reach ram_boot ram_step ram0" by (rule reach_init) (rule ram0_boot)
  show "ram_step ram0 (snd (ramdisk_open (Some ''/a'') 7 ram0))" by (rule ram_step_open)
qed

lemma ramdisk_invariant_witness: "ram_inv (snd (ramdisk_open (Some ''/a'') 7 ram0))"
  by (rule ramdisk_invariant [OF ram1_reach])

text \<open>
  C38. Bytes written through a handle opened for reading and writing are read back after seeking to where the write started: all of them, or those that fit the
  8192 bytes of a file; and no other file changes.
\<close>

theorem ramdisk_write_read_back:
  assumes "reach ram_boot ram_step s" "ram_handle_ok h s" "rh_flags (rhandle s h) AND VFS_O_RDWR = VFS_O_RDWR"
    and "p = unat (rh_pos (rhandle s h))" "p < RAMDISK_FILE_CAPACITY" "bs = take (RAMDISK_FILE_CAPACITY - p) buf"
    and "ramdisk_write h (Some buf) s = (r1, s1)" "ramdisk_lseek h (int p) 0 s1 = (r2, s2)"
    and "ramdisk_read h True (of_nat (length bs)) s2 = ((r3, got), s3)"
  shows "r1 = int (length bs) \<and> r2 = int p \<and> r3 = int (length bs) \<and> got = bs \<and>
    (\<forall>i. i \<noteq> nat (rh_entry_idx (rhandle s h)) \<longrightarrow> ramdisk_files s3 ! i = ramdisk_files s ! i)"
proof -
  let ?e = "rh_entry_idx (rhandle s h)" and ?hd = "(rhandle s h)\<lparr>rh_pos := of_nat p\<rparr>"
  note inv = ram.reach_inv [OF assms(1)]
  note H = handle_file [OF inv assms(2)]
  note W = ramdisk_write_result [OF inv assms(2) disjI2 [OF assms(3)] refl assms(4-7)]
  define c where "c = rf_data (rfile s1 ?e)"
  have h1: "rhandle s1 h = (rhandle s h)\<lparr>rh_pos := of_nat (p + length bs)\<rparr>" using H(6) W(2) by simp
  have ok1: "ram_handle_ok h s1" using assms(2) h1 by (simp add: ram_handle_ok_def)
  have lb: "p + length bs \<le> RAMDISK_FILE_CAPACITY" using assms(5,6) by simp
  have inv1: "ram_inv s1" using ramdisk_write_inv [OF inv, of h "Some buf"] assms(7) by simp
  have sz: "unat (rf_size (rfile s1 ?e)) \<le> RAMDISK_FILE_CAPACITY" "p + length bs \<le> unat (rf_size (rfile s1 ?e))"
    using handle_file(3) [OF inv1 ok1] h1 W(4) by (simp_all add: ram_file_ok_def)
  then have si: "sint (rf_size (rfile s1 ?e)) = int (unat (rf_size (rfile s1 ?e)))" by (intro sint_small) simp
  have ti: "to_i32 (int p) = int p" using assms(5) by (intro to_i32_id) simp_all
  have cl: "clamp_i32 (to_i32 (0 + int p)) 0 (sint (rf_size (rfile s1 ?e))) = int p"
  proof -
    have "int p \<le> int (unat (rf_size (rfile s1 ?e)))" using sz(2) by linarith
    then show ?thesis using ti unfolding si clamp_i32_def by simp
  qed
  have s2: "r2 = int p" "s2 = upd_handle h (\<lambda>h. h\<lparr>rh_pos := of_nat p\<rparr>) s1"
    using assms(8) ok1 h1 cl by (auto simp: ramdisk_lseek_def Let_def)
  then have h2: "rhandle s2 h = ?hd" "ramdisk_files s2 = ramdisk_files s1" using h1 W(2) H(6) by (simp_all add: upd_handle_def)
  have ok2: "ram_handle_ok h s2" using assms(2) h2 by (simp add: ram_handle_ok_def)
  have inv2: "ram_inv s2" using ramdisk_lseek_inv [OF inv1, of h "int p" 0] assms(8) by simp
  have p2: "unat (rh_pos (rhandle s2 h)) = p" using h2 assms(5) by (simp add: unat_of_nat)
  have ro: "rh_flags (rhandle s2 h) AND VFS_O_RDONLY \<noteq> 0"
  proof -
    have "rh_flags (rhandle s h) AND VFS_O_RDONLY = (rh_flags (rhandle s h) AND VFS_O_RDWR) AND VFS_O_RDONLY" by (simp add: and.assoc)
    then show ?thesis using h2 assms(3) by simp
  qed
  have n: "unat (of_nat (length bs) :: u32) = length bs" using lb by (simp add: unat_of_nat)
  have e2: "rfile s2 (rh_entry_idx (rhandle s2 h)) = rfile s1 ?e" using h2 by simp
  have got: "take (length bs) (drop p (ram_content (rfile s1 ?e))) = bs"
    using W(3) sz H(3) lb by (simp add: ram_content_def ram_file_ok_def poke_read)
  have "ramdisk_read h True (of_nat (length bs)) s2 = ((int (length bs), bs), upd_handle h (\<lambda>h. h\<lparr>rh_pos := rh_pos h + of_nat (length bs)\<rparr>) s2)"
    by (rule ramdisk_read_content [OF inv2 ok2 ro refl refl]) (simp only: n p2 e2 got)
  then show ?thesis using assms(9) s2(1) W(1,5) h2 by simp
qed

lemma replicate_hd: "replicate 64 x = x # replicate 63 x" "replicate 128 x = x # replicate 127 x"
  by (simp_all add: numeral_eq_Suc)

lemma ram0_lookups:
  "ramdisk_extract_name (Some ''/a'') = Some ''a''" "ramdisk_find_entry ''a'' ram0 = -1" "ramdisk_alloc_entry ram0 = 0" "ramdisk_alloc_handle ram0 = 0"
proof -
  show "ramdisk_extract_name (Some ''/a'') = Some ''a''" by (simp add: ramdisk_extract_name_def numeral_eq_Suc)
  have "find_slot (\<lambda>f. rf_used f \<and> str_eq_loop (rf_name f) ''a'') (ramdisk_files ram0) = None" by (auto simp: find_slot_None ram0_def)
  then show "ramdisk_find_entry ''a'' ram0 = -1" by (simp add: ramdisk_find_entry_def slot_index_def)
  show "ramdisk_alloc_entry ram0 = 0" "ramdisk_alloc_handle ram0 = 0"
    by (simp_all add: ramdisk_alloc_entry_def ramdisk_alloc_handle_def slot_index_def ram0_def replicate_hd)
qed

lemma ram1_handle:
  "ram_handle_ok 0 (snd (ramdisk_open (Some ''/a'') 7 ram0))" "rhandle (snd (ramdisk_open (Some ''/a'') 7 ram0)) 0 = \<lparr>rh_used = True, rh_entry_idx = 0, rh_pos = 0, rh_flags = 7\<rparr>"
proof -
  have "ramdisk_handles (new_file ''a'' ram0) = ramdisk_handles ram0" by (simp add: new_file_def Let_def)
  then have "ramdisk_alloc_handle (new_file ''a'' ram0) = 0" "0 < length (ramdisk_handles (new_file ''a'' ram0))"
    using ram0_lookups(4) by (simp_all add: ramdisk_alloc_handle_def ram0_def)
  then show "rhandle (snd (ramdisk_open (Some ''/a'') 7 ram0)) 0 = \<lparr>rh_used = True, rh_entry_idx = 0, rh_pos = 0, rh_flags = 7\<rparr>"
    by (simp add: ramdisk_open_def ram0_lookups new_handle_def upd_handle_def)
  then show "ram_handle_ok 0 (snd (ramdisk_open (Some ''/a'') 7 ram0))" by (simp add: ram_handle_ok_def)
qed

lemma ramdisk_write_read_back_witness:
  "snd (fst (ramdisk_read 0 True 3 (snd (ramdisk_lseek 0 0 0 (snd (ramdisk_write 0 (Some [1, 2, 3]) (snd (ramdisk_open (Some ''/a'') 7 ram0)))))))) = [1, 2, 3]"
proof -
  let ?s = "snd (ramdisk_open (Some ''/a'') 7 ram0)"
  obtain r1 s1 where 1: "ramdisk_write 0 (Some [1, 2, 3]) ?s = (r1, s1)" by fastforce
  obtain r2 s2 where 2: "ramdisk_lseek 0 (int 0) 0 s1 = (r2, s2)" by fastforce
  obtain r3 got s3 where 3: "ramdisk_read 0 True (of_nat (length [1, 2, 3 :: u8])) s2 = ((r3, got), s3)" by (metis prod.exhaust)
  have "got = [1, 2, 3]"
    using ramdisk_write_read_back [OF ram1_reach ram1_handle(1) _ _ _ _ 1 2 3] ram1_handle(2) by simp
  then show ?thesis using 1 2 3 by simp
qed

end
