(* ===== verification/TfsCorrect.thy ===== *)
theory TfsCorrect
  imports Tfs RamdiskCorrect
begin

text \<open>
  The tiny file system on a disk that behaves as an array of sectors: where the transfer loops put the bytes, that what is written is read back, and what
  a write beyond one sector does to the next file.
\<close>

section \<open>The disk the file system relies on\<close>

locale sector_disk =
  fixes dk :: "'c disk_if" and view :: "'c \<Rightarrow> u32 \<Rightarrow> sector" and ok :: "'c \<Rightarrow> bool" and valid :: "u32 \<Rightarrow> bool"
  assumes dk_read_ok: "ok c \<Longrightarrow> valid lba \<Longrightarrow>
      \<exists>c'. dk_read dk lba (Some b) c = (Some (view c lba), c') \<and> ok c' \<and> (\<forall>m. valid m \<longrightarrow> view c' m = view c m)"
    and dk_write_ok: "ok c \<Longrightarrow> valid lba \<Longrightarrow> length ws = 256 \<Longrightarrow> ok (dk_write dk lba (Some ws) c) \<and>
      (\<forall>m. valid m \<longrightarrow> view (dk_write dk lba (Some ws) c) m = (if m = lba then ws else view c m))"
    and view_length: "ok c \<Longrightarrow> valid lba \<Longrightarrow> length (view c lba) = 256"
    and valid_low: "lba < 0x100 \<Longrightarrow> valid lba"

text \<open>A chunk ends at the end of a sector or of the request.\<close>

lemma unat_tfs_chunk: "unat (tfs_chunk p n) = min (512 - unat p mod 512) (unat n)"
proof -
  have m: "unat (p mod 512) = unat p mod 512" by (simp add: unat_mod)
  moreover have "unat p mod 512 < 512" by simp
  ultimately have "unat ((512 :: u32) - p mod 512) = 512 - unat p mod 512" by (subst unat_sub) (simp_all add: word_le_nat_alt)
  then show ?thesis by (auto simp: tfs_chunk_def Let_def word_less_nat_alt)
qed

text \<open>The numbers of one round of a loop, as natural numbers.\<close>

lemma tfs_round:
  fixes lba0 pos sz tot :: u32
  assumes "tot < sz" "unat lba0 * 512 + unat pos + unat sz \<le> 225 * 512"
  defines "x \<equiv> unat lba0 * 512 + unat pos + unat tot" and "n \<equiv> unat (tfs_chunk (pos + tot) (sz - tot))"
  shows "unat ((pos + tot) mod 512) = x mod 512" "lba0 + (pos + tot) div 512 = of_nat (x div 512)" "x div 512 < 225"
    "n = min (512 - x mod 512) (unat sz - unat tot)" "0 < n" "unat (tot + tfs_chunk (pos + tot) (sz - tot)) = unat tot + n"
    "lba0 + (pos + tot) div 512 < TFS_DATA_START + of_nat TFS_MAX_FILES" "tot + tfs_chunk (pos + tot) (sz - tot) \<le> sz" "x mod 512 + n \<le> 512"
proof -
  have lt: "unat tot < unat sz" using assms(1) by (simp add: word_less_nat_alt)
  have a: "unat (pos + tot) = unat pos + unat tot" using assms(2) lt by (intro unat_add_small) simp
  then have x: "x = unat lba0 * 512 + unat (pos + tot)" by (simp add: x_def)
  then show m: "unat ((pos + tot) mod 512) = x mod 512" by (simp add: unat_mod)
  have d: "x div 512 = unat lba0 + unat (pos + tot) div 512" using x by simp
  have "(of_nat (unat lba0 + unat ((pos + tot) div 512)) :: u32) = lba0 + (pos + tot) div 512" by simp
  then show l: "lba0 + (pos + tot) div 512 = of_nat (x div 512)" using d by (simp add: unat_div)
  show x225: "x div 512 < 225" using assms(2) lt unfolding x_def by simp
  have s: "unat (sz - tot) = unat sz - unat tot" using assms(1) by (simp add: unat_sub)
  show n: "n = min (512 - x mod 512) (unat sz - unat tot)" using m s a by (simp add: n_def unat_tfs_chunk unat_mod)
  show "0 < n" using n lt by simp
  have "x mod 512 < 512" by simp
  then show "x mod 512 + n \<le> 512" using n by linarith
  have "n \<le> unat sz - unat tot" using n by simp
  then show u: "unat (tot + tfs_chunk (pos + tot) (sz - tot)) = unat tot + n"
    unfolding n_def using assms(2) lt by (intro unat_add_small) simp
  show "lba0 + (pos + tot) div 512 < TFS_DATA_START + of_nat TFS_MAX_FILES"
    using x225 unfolding l by (simp add: word_less_nat_alt unat_of_nat)
  show "tot + tfs_chunk (pos + tot) (sz - tot) \<le> sz" using u \<open>n \<le> unat sz - unat tot\<close> lt by (simp add: word_le_nat_alt)
qed

lemma same_sector:
  fixes x i :: nat
  assumes "x mod 512 + i < 512"
  shows "(x + i) div 512 = x div 512" "(x + i) mod 512 = x mod 512 + i"
proof -
  have e: "x + i = 512 * (x div 512) + (x mod 512 + i)" by simp
  have "512 * (x div 512) \<le> x + i" "x + i < 512 * (x div 512) + 512" using e assms by linarith+
  then show "(x + i) div 512 = x div 512" by (intro div_nat_eqI) simp_all
  show "(x + i) mod 512 = x mod 512 + i" using assms by (subst e) (simp only: mod_mult_self4 mod_less)
qed

text \<open>The byte of a disk at an address counted in bytes.\<close>

definition disk_byte :: "('c \<Rightarrow> u32 \<Rightarrow> sector) \<Rightarrow> 'c \<Rightarrow> nat \<Rightarrow> u8" where
  "disk_byte view c x = sector_bytes (view c (of_nat (x div 512))) ! (x mod 512)"

context sector_disk
begin

abbreviation dbyte where "dbyte \<equiv> disk_byte view"

lemma valid_sector: "k < 256 \<Longrightarrow> valid (of_nat k)"
  by (rule valid_low) (simp add: word_less_nat_alt unat_of_nat)

lemma view_bytes: "ok c \<Longrightarrow> valid lba \<Longrightarrow> length (sector_bytes (view c lba)) = 512"
  by (simp add: length_sector_bytes view_length)

lemma sector_part:
  assumes "ok c" "x div 512 < 256" "x mod 512 + n \<le> 512"
  shows "take n (drop (x mod 512) (sector_bytes (view c (of_nat (x div 512))))) = map (dbyte c) [x..<x + n]"
proof (rule nth_equalityI)
  have l: "length (sector_bytes (view c (of_nat (x div 512)))) = 512" using view_bytes [OF assms(1) valid_sector [OF assms(2)]] .
  then show "length (take n (drop (x mod 512) (sector_bytes (view c (of_nat (x div 512)))))) = length (map (dbyte c) [x..<x + n])"
    using assms(3) by simp
  fix i assume "i < length (take n (drop (x mod 512) (sector_bytes (view c (of_nat (x div 512))))))"
  then have i: "i < n" by simp
  then have "(x + i) div 512 = x div 512" "(x + i) mod 512 = x mod 512 + i"
    using same_sector [of x i] assms(3) by simp_all
  then show "take n (drop (x mod 512) (sector_bytes (view c (of_nat (x div 512))))) ! i = map (dbyte c) [x..<x + n] ! i"
    using i l assms(3) by (simp add: disk_byte_def)
qed

lemma disk_byte_cong: "\<forall>m. valid m \<longrightarrow> view c' m = view c m \<Longrightarrow> x div 512 < 256 \<Longrightarrow> dbyte c' x = dbyte c x"
  using valid_sector by (simp add: disk_byte_def)

lemma read_loop:
  assumes "ok c" "tot \<le> sz" "unat lba0 * 512 + unat pos + unat sz \<le> 225 * 512"
  shows "\<exists>c'. tfs_read_loop dk lba0 pos sz tot sector acc c =
      (acc @ map (dbyte c) [unat lba0 * 512 + unat pos + unat tot..<unat lba0 * 512 + unat pos + unat sz], c') \<and> ok c' \<and>
      (\<forall>m. valid m \<longrightarrow> view c' m = view c m)"
  using assms
proof (induction "unat sz - unat tot" arbitrary: tot sector acc c rule: less_induct)
  case less
  let ?base = "unat lba0 * 512 + unat pos"
  show ?case
  proof (cases "tot < sz")
    case True
    define x where "x = ?base + unat tot"
    define n where "n = unat (tfs_chunk (pos + tot) (sz - tot))"
    let ?tot = "tot + tfs_chunk (pos + tot) (sz - tot)"
    note R = tfs_round [OF True less.prems(3), folded x_def n_def]
    obtain c1 where c1: "dk_read dk (of_nat (x div 512)) (Some sector) c = (Some (view c (of_nat (x div 512))), c1)" "ok c1"
      "\<forall>m. valid m \<longrightarrow> view c1 m = view c m" using dk_read_ok [OF less.prems(1) valid_sector, of "x div 512" sector] R(3) by auto
    let ?v = "view c (of_nat (x div 512))"
    have part: "take n (drop (x mod 512) (sector_bytes ?v)) = map (dbyte c) [x..<x + n]"
      by (rule sector_part [OF less.prems(1)]) (use R(3,9) in simp_all)
    have lt: "unat tot < unat sz" using True by (simp add: word_less_nat_alt)
    have "unat sz - unat ?tot < unat sz - unat tot" using R(5,6) lt by simp
    from less.hyps [OF this c1(2) R(8) less.prems(3), of ?v "acc @ map (dbyte c) [x..<x + n]"] obtain c' where
      c': "tfs_read_loop dk lba0 pos sz ?tot ?v (acc @ map (dbyte c) [x..<x + n]) c1 =
        ((acc @ map (dbyte c) [x..<x + n]) @ map (dbyte c1) [?base + unat ?tot..<?base + unat sz], c')" "ok c'"
      "\<forall>m. valid m \<longrightarrow> view c' m = view c1 m" by blast
    have "map (dbyte c1) [?base + unat ?tot..<?base + unat sz] = map (dbyte c) [x + n..<?base + unat sz]"
      using R(6) less.prems(3) by (intro map_cong) (auto simp: x_def add.assoc intro!: disk_byte_cong [OF c1(3)])
    moreover have "[x..<x + n] @ [x + n..<?base + unat sz] = [x..<?base + unat sz]"
    proof -
      have "x + n \<le> ?base + unat sz" using R(4) lt unfolding x_def by linarith
      then show ?thesis using upt_add_eq_append [of x "x + n" "?base + unat sz - (x + n)"] by simp
    qed
    moreover have "tfs_read_loop dk lba0 pos sz tot sector acc c = tfs_read_loop dk lba0 pos sz ?tot ?v (acc @ map (dbyte c) [x..<x + n]) c1"
      using True c1(1) part R(1,2) by (subst tfs_read_loop.simps) (simp add: Let_def n_def [symmetric])
    ultimately show ?thesis using c' c1(3) by (intro exI [of _ c']) (simp add: x_def [symmetric] map_append [symmetric] del: map_append)
  next
    case False
    then have "tot = sz" using less.prems(2) by simp
    then show ?thesis using less.prems(1) by (subst tfs_read_loop.simps) simp
  qed
qed

lemma write_loop:
  assumes "ok c" "tot \<le> sz" "unat lba0 * 512 + unat pos + unat sz \<le> 225 * 512" "unat sz = length src"
  shows "\<exists>c'. tfs_write_loop dk lba0 pos src sz tot sector c = (sz, c') \<and> ok c' \<and>
      (\<forall>y. y div 512 < 256 \<longrightarrow> dbyte c' y = (if unat lba0 * 512 + unat pos + unat tot \<le> y \<and> y < unat lba0 * 512 + unat pos + unat sz
         then src ! (y - (unat lba0 * 512 + unat pos)) else dbyte c y))"
  using assms
proof (induction "unat sz - unat tot" arbitrary: tot sector c rule: less_induct)
  case less
  let ?base = "unat lba0 * 512 + unat pos"
  show ?case
  proof (cases "tot < sz")
    case True
    define x where "x = ?base + unat tot"
    define n where "n = unat (tfs_chunk (pos + tot) (sz - tot))"
    let ?tot = "tot + tfs_chunk (pos + tot) (sz - tot)"
    note R = tfs_round [OF True less.prems(3), folded x_def n_def]
    let ?L = "of_nat (x div 512) :: u32"
    have L: "valid ?L" using valid_sector R(3) by simp
    obtain c1 where c1: "dk_read dk ?L (Some sector) c = (Some (view c ?L), c1)" "ok c1"
      "\<forall>m. valid m \<longrightarrow> view c1 m = view c m" using dk_read_ok [OF less.prems(1) L, of sector] by auto
    define bs where "bs = poke (x mod 512) (take n (drop (unat tot) src)) (sector_bytes (view c ?L))"
    have lb: "length bs = 512" using view_bytes [OF less.prems(1) L] by (simp add: bs_def)
    then have pk: "sector_bytes (pack_words bs) = bs" "length (pack_words bs) = 256" by (simp_all add: sector_bytes_pack length_pack_words)
    define c2 where "c2 = dk_write dk ?L (Some (pack_words bs)) c1"
    have c2: "ok c2" "\<forall>m. valid m \<longrightarrow> view c2 m = (if m = ?L then pack_words bs else view c m)"
      using dk_write_ok [OF c1(2) L pk(2)] c1(3) by (simp_all add: c2_def)
    have lt: "unat tot < unat sz" using True by (simp add: word_less_nat_alt)
    have ln: "length (take n (drop (unat tot) src)) = n" "x mod 512 + n \<le> 512" using R(4,9) less.prems(4) lt by auto
    have tk: "take n (drop (unat tot) src) ! k = src ! (unat tot + k)" if "k < n" for k using that less.prems(4) lt by simp
    have b2: "dbyte c2 y = (if x \<le> y \<and> y < x + n then src ! (y - ?base) else dbyte c y)" if y: "y div 512 < 256" for y
    proof -
      have eqL: "(of_nat (y div 512) :: u32) = ?L \<longleftrightarrow> y div 512 = x div 512"
        using y R(3) by (auto simp: word_unat_eq_iff unat_of_nat)
      have in_sector: "x \<le> y \<and> y < x + n \<longleftrightarrow> y div 512 = x div 512 \<and> x mod 512 \<le> y mod 512 \<and> y mod 512 < x mod 512 + n"
        using same_sector [of x "y - x"] ln(2) div_mult_mod_eq [of x 512] div_mult_mod_eq [of y 512] by (intro iffI conjI) (linarith | simp)+
      show ?thesis
      proof (cases "y div 512 = x div 512")
        case True
        have "y mod 512 < length (sector_bytes (view c ?L))" using view_bytes [OF less.prems(1) L] by simp
        moreover have "take n (drop (unat tot) src) ! (y mod 512 - x mod 512) = src ! (unat tot + (y mod 512 - x mod 512))"
          if "x mod 512 \<le> y mod 512" "y mod 512 < x mod 512 + n" by (rule tk) (use that in linarith)
        ultimately have "bs ! (y mod 512) = (if x mod 512 \<le> y mod 512 \<and> y mod 512 < x mod 512 + n
            then src ! (unat tot + (y mod 512 - x mod 512)) else sector_bytes (view c ?L) ! (y mod 512))"
          using poke_nth [of "x mod 512" "take n (drop (unat tot) src)" "sector_bytes (view c ?L)" "y mod 512"] ln view_bytes [OF less.prems(1) L]
          unfolding bs_def by (simp del: nth_take nth_drop add_diff_assoc)
        moreover have "y - ?base = unat tot + (y mod 512 - x mod 512)" if "x \<le> y" "x mod 512 \<le> y mod 512"
        proof -
          have "x div 512 * 512 + y mod 512 = y" using div_mult_mod_eq [of y 512] True by simp
          then show ?thesis using that div_mult_mod_eq [of x 512] x_def by linarith
        qed
        ultimately show ?thesis using True c2(2) L pk(1) in_sector by (auto simp: disk_byte_def)
      next
        case False
        then show ?thesis using c2(2) valid_sector [OF y] eqL in_sector by (auto simp: disk_byte_def)
      qed
    qed
    have "unat sz - unat ?tot < unat sz - unat tot" using R(5,6) lt by simp
    from less.hyps [OF this c2(1) R(8) less.prems(3,4), of "pack_words bs"] obtain c' where
      c': "tfs_write_loop dk lba0 pos src sz ?tot (pack_words bs) c2 = (sz, c')" "ok c'"
      "\<forall>y. y div 512 < 256 \<longrightarrow> dbyte c' y = (if x + n \<le> y \<and> y < ?base + unat sz then src ! (y - ?base) else dbyte c2 y)"
      using R(6) by (auto simp: x_def add.assoc)
    have "tfs_write_loop dk lba0 pos src sz tot sector c = tfs_write_loop dk lba0 pos src sz ?tot (pack_words bs) c2"
    proof -
      have "\<not> TFS_DATA_START + of_nat TFS_MAX_FILES \<le> lba0 + (pos + tot) div 512" using R(7) by (simp only: not_le)
      then show ?thesis using True c1(1) R(1,2) by (subst tfs_write_loop.simps) (simp add: Let_def n_def [symmetric] bs_def c2_def)
    qed
    then show ?thesis using c' b2 R(4) lt by (intro exI [of _ c']) (auto simp: x_def)
  next
    case False
    then have "tot = sz" using less.prems(2) by simp
    then show ?thesis using less.prems(1) by (subst tfs_write_loop.simps) auto
  qed
qed

end

section \<open>Directory fields\<close>

lemma read_le32_poke:
  assumes "off + 4 \<le> length dir"
  shows "read_le32 (poke off (le32 v) dir) off = v"
    and "i + 4 \<le> off \<or> off + 4 \<le> i \<Longrightarrow> i + 4 \<le> length dir \<Longrightarrow> read_le32 (poke off (le32 v) dir) i = read_le32 dir i"
proof -
  have l: "off + length (le32 v) \<le> length dir" using assms by (simp add: le32_def)
  have "read_le32 (poke off (le32 v) dir) off = read_le32 (le32 v) 0" using assms by (simp add: read_le32_def poke_nth [OF l]) (simp add: le32_def)
  also have "\<dots> = v" using read_le32_le32 [of v] by (simp add: read_le32_def le32_def)
  finally show "read_le32 (poke off (le32 v) dir) off = v" .
  show "read_le32 (poke off (le32 v) dir) i = read_le32 dir i" if "i + 4 \<le> off \<or> off + 4 \<le> i" "i + 4 \<le> length dir"
    using that by (auto simp: read_le32_def poke_nth [OF l]) (simp_all add: le32_def)
qed

section \<open>What the operations do\<close>

definition tfs_wf :: "'c tfs \<Rightarrow> bool" where
  "tfs_wf s \<longleftrightarrow> length (root_directory s) = 24 * TFS_MAX_FILES \<and> length (tfs_handles s) = TFS_MAX_HANDLES"

text \<open>A handle on an entry with its data in the data area.\<close>

definition tfs_opened :: "int \<Rightarrow> int \<Rightarrow> u32 \<Rightarrow> 'c tfs \<Rightarrow> bool" where
  "tfs_opened h e lba s \<longleftrightarrow> tfs_wf s \<and> tfs_handle_ok h s \<and> th_entry_idx (thandle s h) = e \<and> 0 \<le> e \<and> e < int TFS_MAX_FILES \<and>
     entry_lba (root_directory s) e = lba \<and> 200 \<le> unat lba"

lemma entry_size_set:
  assumes "tfs_wf s" "0 \<le> e" "e < int TFS_MAX_FILES"
  shows "entry_size (root_directory (set_entry_size e v s)) e = v" "entry_lba (root_directory (set_entry_size e v s)) e = entry_lba (root_directory s) e"
proof -
  have "24 * nat e + 20 \<le> length (root_directory s)" using assms unfolding tfs_wf_def by linarith
  then show "entry_size (root_directory (set_entry_size e v s)) e = v" "entry_lba (root_directory (set_entry_size e v s)) e = entry_lba (root_directory s) e"
    by (simp_all add: set_entry_size_def set_field_def entry_size_def entry_lba_def read_le32_poke)
qed

lemma upd_th_simps [simp]:
  "root_directory (upd_th h f s) = root_directory s" "tfs_disk (upd_th h f s) = tfs_disk s" "length (tfs_handles (upd_th h f s)) = length (tfs_handles s)"
  "tfs_handles (set_entry_size e v s) = tfs_handles s" "tfs_disk (set_entry_size e v s) = tfs_disk s"
  "length (root_directory (set_entry_size e v s)) = length (root_directory s)"
  "tfs_handles (write_directory dk s) = tfs_handles s" "root_directory (write_directory dk s) = root_directory s"
  by (simp_all add: upd_th_def set_entry_size_def set_field_def write_directory_def)

context sector_disk
begin

lemma write_directory_disk:
  assumes "tfs_wf s" "ok (tfs_disk s)"
  shows "ok (tfs_disk (write_directory dk s))"
    "y div 512 < 256 \<Longrightarrow> y div 512 \<noteq> 150 \<Longrightarrow> dbyte (tfs_disk (write_directory dk s)) y = dbyte (tfs_disk s) y"
proof -
  have l: "length (pack_words (take 512 (root_directory s))) = 256" using assms(1) by (simp add: length_pack_words tfs_wf_def)
  have v: "valid TFS_DIR_LBA" by (rule valid_low) simp
  note W = dk_write_ok [OF assms(2) v l]
  then show "ok (tfs_disk (write_directory dk s))" by (simp add: write_directory_def)
  show "dbyte (tfs_disk (write_directory dk s)) y = dbyte (tfs_disk s) y" if y: "y div 512 < 256" "y div 512 \<noteq> 150"
  proof -
    have "(of_nat (y div 512) :: u32) \<noteq> 150" using y by (simp add: word_unat_eq_iff unat_of_nat)
    then show ?thesis using W valid_sector [OF y(1)] by (simp add: write_directory_def disk_byte_def)
  qed
qed

lemma write_spec:
  assumes "tfs_opened h e lba s" "ok (tfs_disk s)" "th_flags (thandle s h) AND VFS_O_WRONLY \<noteq> 0 \<or> th_flags (thandle s h) AND VFS_O_RDWR \<noteq> 0"
    and "p = unat (th_pos (thandle s h))" "buf \<noteq> []" "unat lba * 512 + p + length buf \<le> 225 * 512" "tfs_write dk junk h (Some buf) s = (r, t)"
  shows "r = int (length buf)" "ok (tfs_disk t)" "tfs_handles t = (tfs_handles s)[nat h := (thandle s h)\<lparr>th_pos := of_nat (p + length buf)\<rparr>]"
    "length (root_directory t) = length (root_directory s)" "entry_lba (root_directory t) e = lba"
    "unat (entry_size (root_directory t) e) = max (unat (entry_size (root_directory s) e)) (p + length buf)"
    "y div 512 < 256 \<Longrightarrow> y div 512 \<noteq> 150 \<Longrightarrow> dbyte (tfs_disk t) y =
       (if unat lba * 512 + p \<le> y \<and> y < unat lba * 512 + p + length buf then buf ! (y - (unat lba * 512 + p)) else dbyte (tfs_disk s) y)"
proof -
  have o: "tfs_wf s" "tfs_handle_ok h s" "th_entry_idx (thandle s h) = e" "0 \<le> e" "e < int TFS_MAX_FILES" "entry_lba (root_directory s) e = lba"
    using assms(1) by (simp_all add: tfs_opened_def)
  have sz: "unat (of_nat (length buf) :: u32) = length buf" using assms(6) by (simp add: unat_of_nat)
  obtain c where c: "tfs_write_loop dk lba (th_pos (thandle s h)) buf (of_nat (length buf)) 0 junk (tfs_disk s) = (of_nat (length buf), c)" "ok c"
    "\<forall>y. y div 512 < 256 \<longrightarrow> dbyte c y = (if unat lba * 512 + p \<le> y \<and> y < unat lba * 512 + p + length buf
         then buf ! (y - (unat lba * 512 + p)) else dbyte (tfs_disk s) y)"
    using write_loop [OF assms(2), of 0 "of_nat (length buf)" lba "th_pos (thandle s h)" buf junk] assms(4,6) sz by auto
  define q :: u32 where "q = th_pos (thandle s h) + of_nat (length buf)"
  have q: "q = of_nat (p + length buf)" "unat q = p + length buf" using assms(4,6) by (simp_all add: q_def unat_add_small sz)
  define s1 where "s1 = upd_th h (\<lambda>h. h\<lparr>th_pos := th_pos h + of_nat (length buf)\<rparr>) (s\<lparr>tfs_disk := c\<rparr>)"
  have s1: "tfs_wf s1" "ok (tfs_disk s1)" "root_directory s1 = root_directory s" "tfs_disk s1 = c"
    "tfs_handles s1 = (tfs_handles s)[nat h := (thandle s h)\<lparr>th_pos := q\<rparr>]"
    using o(1) c(2) by (simp_all add: s1_def tfs_wf_def upd_th_def q_def)
  define t1 where "t1 = write_directory dk (set_entry_size e q s1)"
  have wf2: "tfs_wf (set_entry_size e q s1)" using s1(1) by (simp add: tfs_wf_def)
  have t: "r = sint (of_nat (length buf) :: u32)" "t = (if q > entry_size (root_directory s) e then t1 else s1)"
    using assms(7) o(2,3,6) assms(3,5) c(1) by (auto simp: tfs_write_def Let_def q_def t1_def s1_def split: if_splits)
  show "r = int (length buf)" using t(1) sint_small [of "of_nat (length buf)"] sz assms(6) by simp
  show "ok (tfs_disk t)" using write_directory_disk(1) [OF wf2] s1(2) t(2) by (simp add: t1_def)
  show "tfs_handles t = (tfs_handles s)[nat h := (thandle s h)\<lparr>th_pos := of_nat (p + length buf)\<rparr>]" using s1(5) q(1) by (simp add: t(2) t1_def)
  show "length (root_directory t) = length (root_directory s)" using s1(3) by (simp add: t(2) t1_def)
  show "entry_lba (root_directory t) e = lba" using entry_size_set(2) [OF s1(1) o(4,5), of q] s1(3) o(6) by (simp add: t(2) t1_def)
  show "unat (entry_size (root_directory t) e) = max (unat (entry_size (root_directory s) e)) (p + length buf)"
    using entry_size_set(1) [OF s1(1) o(4,5), of q] s1(3) q(2) by (simp add: t(2) t1_def word_less_nat_alt max_def)
  show "dbyte (tfs_disk t) y = (if unat lba * 512 + p \<le> y \<and> y < unat lba * 512 + p + length buf then buf ! (y - (unat lba * 512 + p))
      else dbyte (tfs_disk s) y)" if "y div 512 < 256" "y div 512 \<noteq> 150"
    using write_directory_disk(2) [OF wf2 _ that] s1(2,4) c(3) that by (simp add: t(2) t1_def)
qed

lemma read_spec:
  assumes "tfs_opened h e lba s" "ok (tfs_disk s)" "th_flags (thandle s h) AND VFS_O_RDONLY \<noteq> 0" "p = unat (th_pos (thandle s h))" "0 < n"
    and "p + n \<le> unat (entry_size (root_directory s) e)" "unat lba * 512 + p + n \<le> 225 * 512"
  shows "fst (tfs_read dk junk h True (of_nat n) s) = (int n, map (dbyte (tfs_disk s)) [unat lba * 512 + p..<unat lba * 512 + p + n])"
proof -
  have o: "tfs_handle_ok h s" "th_entry_idx (thandle s h) = e" "entry_lba (root_directory s) e = lba" using assms(1) by (simp_all add: tfs_opened_def)
  have un: "unat (of_nat n :: u32) = n" using assms(7) by (simp add: unat_of_nat)
  let ?sz = "entry_size (root_directory s) e"
  have lt: "th_pos (thandle s h) < ?sz" using assms(4-6) by (simp add: word_less_nat_alt)
  then have "unat (?sz - th_pos (thandle s h)) = unat ?sz - p" using assms(4) by (simp add: unat_sub)
  then have le: "\<not> ?sz - th_pos (thandle s h) < of_nat n" using assms(6) un by (simp add: word_less_nat_alt)
  obtain c where "tfs_read_loop dk lba (th_pos (thandle s h)) (of_nat n) 0 junk [] (tfs_disk s) =
      (map (dbyte (tfs_disk s)) [unat lba * 512 + p..<unat lba * 512 + p + n], c)"
    using read_loop [OF assms(2), of 0 "of_nat n" lba "th_pos (thandle s h)" junk "[]"] assms(4,7) un by auto
  moreover have "(of_nat n :: u32) \<noteq> 0" "sint (of_nat n :: u32) = int n" using un assms(5,7) sint_small [of "of_nat n"] by auto
  moreover have "\<not> ?sz \<le> th_pos (thandle s h)" using lt by simp
  ultimately show ?thesis using o assms(3) le by (simp add: tfs_read_def Let_def)
qed

end

section \<open>On the cached ATA drive\<close>

definition dk_ata :: "ata_dev disk pcache disk_if" where
  "dk_ata = \<lparr>dk_read = disk_read_sector hw_ata, dk_write = disk_write_sector hw_ata, dk_available = (\<lambda>c. ata_disk_available (pc_dev c))\<rparr>"

interpretation tfsd: sector_disk dk_ata ata_view ata_inv ata_valid
proof
  have refl: "same_disk (ata_view c) (ata_view c)" for c by (simp add: same_disk_def)
  show "\<exists>c'. dk_read dk_ata lba (Some b) c = (Some (ata_view c lba), c') \<and> ata_inv c' \<and> (\<forall>m. ata_valid m \<longrightarrow> ata_view c' m = ata_view c m)"
    if "ata_inv c" "ata_valid lba" for c lba b
    using disk_step_refines [OF that(1) _ refl, of "Read_Op lba" b] that(2)
    by (cases "disk_read_sector hw_ata lba (Some b) c") (simp add: dk_ata_def same_disk_def)
  show "ata_inv (dk_write dk_ata lba (Some ws) c) \<and>
      (\<forall>m. ata_valid m \<longrightarrow> ata_view (dk_write dk_ata lba (Some ws) c) m = (if m = lba then ws else ata_view c m))"
    if "ata_inv c" "ata_valid lba" "length ws = 256" for c lba ws
    using disk_step_refines [OF that(1) _ refl, of "Write_Op lba ws" "[]"] that(2,3) by (simp add: dk_ata_def same_disk_def)
  show "length (ata_view c lba) = 256" if "ata_inv c" "ata_valid lba" for c lba using that by (rule ata.view_length)
  show "ata_valid lba" if "lba < 0x100" for lba :: u32
    using that by (simp add: ata_valid_def word_less_nat_alt)
qed

text \<open>
  C23. On the cached ATA drive, bytes written to a file of the tiny file system through a read-write handle are read back after seeking to where the write
  started, as long as they end before the last data sector does.
\<close>

theorem tfs_write_read_back:
  assumes "tfs_opened h e lba s" "ata_inv (tfs_disk s)" "th_flags (thandle s h) AND VFS_O_RDWR = VFS_O_RDWR" "p = unat (th_pos (thandle s h))"
    and "buf \<noteq> []" "unat lba * 512 + p + length buf \<le> 225 * 512"
    and "tfs_write dk_ata junk h (Some buf) s = (r1, s1)" "tfs_lseek h (int p) 0 s1 = (r2, s2)"
    and "tfs_read dk_ata junk' h True (of_nat (length buf)) s2 = ((r3, got), s3)"
  shows "r1 = int (length buf) \<and> r2 = int p \<and> r3 = int (length buf) \<and> got = buf"
proof -
  have ro: "th_flags (thandle s h) AND VFS_O_RDONLY \<noteq> 0"
  proof -
    have "th_flags (thandle s h) AND VFS_O_RDONLY = (th_flags (thandle s h) AND VFS_O_RDWR) AND VFS_O_RDONLY" by (simp add: and.assoc)
    then show ?thesis using assms(3) by simp
  qed
  note W = tfsd.write_spec [OF assms(1,2) _ assms(4-7)]
  have W1: "r1 = int (length buf)" "ata_inv (tfs_disk s1)" "tfs_handles s1 = (tfs_handles s)[nat h := (thandle s h)\<lparr>th_pos := of_nat (p + length buf)\<rparr>]"
    "length (root_directory s1) = length (root_directory s)" "entry_lba (root_directory s1) e = lba"
    "unat (entry_size (root_directory s1) e) = max (unat (entry_size (root_directory s) e)) (p + length buf)"
    using W assms(3) by simp_all
  have h: "nat h < length (tfs_handles s)" using assms(1) by (auto simp: tfs_opened_def tfs_wf_def tfs_handle_ok_def nat_less_iff)
  have h1: "thandle s1 h = (thandle s h)\<lparr>th_pos := of_nat (p + length buf)\<rparr>" using W1(3) h by simp
  have ok1: "tfs_handle_ok h s1" using assms(1) h1 by (simp add: tfs_opened_def tfs_handle_ok_def)
  have ti: "to_i32 (int p) = int p" using assms(6) by (intro to_i32_id) simp_all
  have s2: "r2 = int p" "s2 = upd_th h (\<lambda>h. h\<lparr>th_pos := of_nat p\<rparr>) s1" using assms(8) ok1 ti by (auto simp: tfs_lseek_def Let_def)
  have h2: "thandle s2 h = (thandle s h)\<lparr>th_pos := of_nat p\<rparr>" using h h1 W1(3) by (simp add: s2(2) upd_th_def)
  have o2: "tfs_opened h e lba s2" using assms(1) h2 W1(3-5) by (simp add: tfs_opened_def tfs_wf_def tfs_handle_ok_def s2(2) upd_th_def)
  have p2: "p = unat (th_pos (thandle s2 h))" using h2 assms(6) by (simp add: unat_of_nat)
  have "fst (tfs_read dk_ata junk' h True (of_nat (length buf)) s2) = (int (length buf), map (tfsd.dbyte (tfs_disk s2)) [unat lba * 512 + p..<unat lba * 512 + p + length buf])"
    by (rule tfsd.read_spec [OF o2 _ _ p2 _ _ assms(6)]) (use W1(2,6) s2(2) h2 ro assms(5) in simp_all)
  moreover have "map (tfsd.dbyte (tfs_disk s2)) [unat lba * 512 + p..<unat lba * 512 + p + length buf] = buf"
  proof (rule nth_equalityI)
    fix i assume i: "i < length (map (tfsd.dbyte (tfs_disk s2)) [unat lba * 512 + p..<unat lba * 512 + p + length buf])"
    have "200 \<le> unat lba" using assms(1) by (simp add: tfs_opened_def)
    then have "(unat lba * 512 + p + i) div 512 < 256" "(unat lba * 512 + p + i) div 512 \<noteq> 150" using i assms(6) by auto
    from W(7) [OF _ this] show "map (tfsd.dbyte (tfs_disk s2)) [unat lba * 512 + p..<unat lba * 512 + p + length buf] ! i = buf ! i"
      using i assms(3) s2(2) by simp
  qed simp
  ultimately show ?thesis using assms(9) W1(1) s2(1) by simp
qed

text \<open>
  The tiny file system gives a file one sector but does not stop a write there: a write of more than 512 bytes at the start of file \<open>e\<close> succeeds and
  replaces the beginning of the data of file \<open>e + 1\<close>; and a handle opened for reading only is enough to do it.
\<close>

theorem tfs_write_spills:
  assumes "tfs_opened h e (TFS_DATA_START + word_of_int e) s" "ata_inv (tfs_disk s)" "th_flags (thandle s h) = VFS_O_RDONLY" "th_pos (thandle s h) = 0"
    and "512 < length buf" "e + 1 < int TFS_MAX_FILES" "512 * (200 + nat e) + length buf \<le> 225 * 512"
    and "tfs_write dk_ata junk h (Some buf) s = (r, t)"
  shows "r = int (length buf) \<and> (\<forall>i. i < 512 \<and> 512 + i < length buf \<longrightarrow> disk_byte ata_view (tfs_disk t) (512 * (200 + nat (e + 1)) + i) = buf ! (512 + i))"
proof -
  have e: "0 \<le> e" "nat (e + 1) = Suc (nat e)" using assms(1) by (auto simp: tfs_opened_def nat_add_distrib)
  have "(word_of_int e :: u32) = of_nat (nat e)" using e(1) by simp
  then have w: "unat (word_of_int e :: u32) = nat e" using assms(6) by (simp add: unat_of_nat del: of_nat_nat)
  then have u: "unat (TFS_DATA_START + word_of_int e) = 200 + nat e" using assms(6) by (subst unat_add_small) simp_all
  have "buf \<noteq> []" using assms(5) by auto
  note W = tfsd.write_spec [OF assms(1,2) _ refl this _ assms(8), unfolded u]
  have "disk_byte ata_view (tfs_disk t) (512 * (200 + nat (e + 1)) + i) = buf ! (512 + i)" if "i < 512" "512 + i < length buf" for i
    using W(7) [of "512 * (200 + nat (e + 1)) + i"] that assms(3,4,6,7) e by (simp add: nat_less_iff)
  then show ?thesis using W(1) assms(3,4,7) by simp
qed

text \<open>A directory with one file on a blank drive, opened with the given flags.\<close>

definition tfs_one :: "u32 \<Rightarrow> ata_dev disk pcache tfs" where
  "tfs_one flags = \<lparr>root_directory = poke 20 (le32 1) (poke 12 (le32 200) (97 # replicate 599 0)),
     tfs_handles = \<lparr>th_used = True, th_ref_count = 1, th_entry_idx = 0, th_pos = 0, th_flags = flags\<rparr> #
       replicate 255 \<lparr>th_used = False, th_ref_count = 0, th_entry_idx = 0, th_pos = 0, th_flags = 0\<rparr>, tfs_disk = ata_blank\<rparr>"

lemma tfs_one_opened: "tfs_opened 0 0 200 (tfs_one flags)" "ata_inv (tfs_disk (tfs_one flags))"
  "thandle (tfs_one flags) 0 = \<lparr>th_used = True, th_ref_count = 1, th_entry_idx = 0, th_pos = 0, th_flags = flags\<rparr>"
proof -
  have "entry_lba (root_directory (tfs_one flags)) 0 = 200"
    by (simp add: entry_lba_def tfs_one_def read_le32_poke)
  moreover have "length (root_directory (tfs_one flags)) = 600" "length (tfs_handles (tfs_one flags)) = 256"
    by (simp_all add: tfs_one_def)
  ultimately show "tfs_opened 0 0 200 (tfs_one flags)" by (simp add: tfs_opened_def tfs_wf_def tfs_handle_ok_def tfs_one_def)
qed (simp_all add: tfs_one_def ata_blank_inv)

theorem tfs_write_read_back_witness:
  "snd (fst (tfs_read dk_ata [] 0 True 3 (snd (tfs_lseek 0 0 0 (snd (tfs_write dk_ata [] 0 (Some [1, 2, 3]) (tfs_one 3))))))) = [1, 2, 3]"
proof -
  obtain r1 s1 where 1: "tfs_write dk_ata [] 0 (Some [1, 2, 3]) (tfs_one 3) = (r1, s1)" by fastforce
  obtain r2 s2 where 2: "tfs_lseek 0 (int 0) 0 s1 = (r2, s2)" by fastforce
  obtain r3 got s3 where 3: "tfs_read dk_ata [] 0 True (of_nat (length [1, 2, 3 :: u8])) s2 = ((r3, got), s3)" by (metis prod.exhaust)
  have "got = [1, 2, 3]"
    using tfs_write_read_back [OF tfs_one_opened(1,2) _ _ _ _ 1 2 3] tfs_one_opened(3) [of 3] by simp
  then show ?thesis using 1 2 3 by simp
qed

theorem tfs_write_spills_witness:
  "disk_byte ata_view (tfs_disk (snd (tfs_write dk_ata [] 0 (Some (replicate 600 7)) (tfs_one VFS_O_RDONLY)))) (512 * 201 + 5) = 7"
proof -
  obtain r t where t: "tfs_write dk_ata [] 0 (Some (replicate 600 7)) (tfs_one VFS_O_RDONLY) = (r, t)" by fastforce
  have "tfs_opened 0 0 (TFS_DATA_START + word_of_int 0) (tfs_one VFS_O_RDONLY)" using tfs_one_opened(1) by simp
  from tfs_write_spills [OF this tfs_one_opened(2) _ _ _ _ _ t] tfs_one_opened(3) [of VFS_O_RDONLY]
  have "\<forall>i. i < 512 \<and> 512 + i < 600 \<longrightarrow> disk_byte ata_view (tfs_disk t) (512 * (200 + nat (0 + 1)) + i) = replicate 600 7 ! (512 + i)" by simp
  from this [rule_format, of 5] show ?thesis using t by simp
qed

end
