(* ===== verification/Ext2Blocks.thy ===== *)
theory Ext2Blocks
  imports Ext2 TfsCorrect
begin

text \<open>
  The blocks of an ext2 file system on a disk that keeps its sectors: a block that was written is read back and all others stay. What the operations do is
  stated on the function from block numbers to the 1024 bytes of a block, \<open>e2_blk\<close>.
\<close>

section \<open>Blocks as bytes\<close>

definition e2_blk :: "('h disk \<Rightarrow> u32 \<Rightarrow> sector) \<Rightarrow> 'h ext2 \<Rightarrow> u32 \<Rightarrow> u8 list" where
  "e2_blk content s n = (if n < e_total_blocks s
     then sector_bytes (content (e_dev s) (block_to_lba n s)) @ sector_bytes (content (e_dev s) (block_to_lba n s + 1)) else [])"

definition e2_geom :: "('h disk \<Rightarrow> bool) \<Rightarrow> (u32 \<Rightarrow> bool) \<Rightarrow> 'h ext2 \<Rightarrow> bool" where
  "e2_geom ok valid s \<longleftrightarrow> e_block_size s = 1024 \<and> e_sectors_per_block s = 2 \<and> ok (e_dev s) \<and>
     unat (e_partition_lba s) + 2 * unat (e_total_blocks s) < 2 ^ 32 \<and>
     (\<forall>n < e_total_blocks s. valid (block_to_lba n s) \<and> valid (block_to_lba n s + 1))"

text \<open>The state \<open>s'\<close> differs from \<open>s\<close> on the disk only, where the blocks are now \<open>B\<close>.\<close>

definition e2_after :: "('h disk \<Rightarrow> u32 \<Rightarrow> sector) \<Rightarrow> ('h disk \<Rightarrow> bool) \<Rightarrow> 'h ext2 \<Rightarrow> (u32 \<Rightarrow> u8 list) \<Rightarrow> 'h ext2 \<Rightarrow> bool" where
  "e2_after content ok s B s' \<longleftrightarrow> s' = s\<lparr>e_dev := e_dev s'\<rparr> \<and> ok (e_dev s') \<and> e2_blk content s' = B"

lemma block_to_lba_dev [simp]: "block_to_lba n (s\<lparr>e_dev := d\<rparr>) = block_to_lba n s"
  by (simp add: block_to_lba_def)

lemma e2_geom_dev: "e2_geom ok valid s \<Longrightarrow> ok d \<Longrightarrow> e2_geom ok valid (s\<lparr>e_dev := d\<rparr>)"
  by (simp add: e2_geom_def)

lemma e2_after_geom:
  assumes "e2_geom ok valid s" "e2_after content ok s B s'"
  shows "e2_geom ok valid s'"
proof -
  have "s' = s\<lparr>e_dev := e_dev s'\<rparr>" "ok (e_dev s')" using assms(2) by (simp_all add: e2_after_def)
  then show ?thesis using e2_geom_dev [OF assms(1)] by metis
qed

lemma e2_after_refl: "e2_geom ok valid s \<Longrightarrow> e2_after content ok s (e2_blk content s) s"
  by (simp add: e2_after_def e2_geom_def)

lemma e2_after_trans: "e2_after content ok s B s1 \<Longrightarrow> e2_after content ok s1 C s2 \<Longrightarrow> e2_after content ok s C s2"
  by (simp add: e2_after_def) (metis ext2.surjective ext2.update_convs(17))

lemma e2_after_blk: "e2_after content ok s B s' \<Longrightarrow> e2_blk content s' = B"
  by (simp add: e2_after_def)

text \<open>No field but the disk changes.\<close>

lemma e2_after_fields:
  assumes "e2_after content ok s B s'"
  shows "e_block_size s' = e_block_size s" "e_sectors_per_block s' = e_sectors_per_block s" "e_total_blocks s' = e_total_blocks s"
    "e_total_inodes s' = e_total_inodes s" "e_inodes_per_group s' = e_inodes_per_group s" "e_blocks_per_group s' = e_blocks_per_group s"
    "e_inode_size s' = e_inode_size s" "e_group_desc_block s' = e_group_desc_block s" "e_group_desc_count s' = e_group_desc_count s"
    "e_sb s' = e_sb s" "e_handles s' = e_handles s" "e_mounted s' = e_mounted s"
  using assms unfolding e2_after_def by (metis ext2.select_convs ext2.surjective ext2.update_convs(17))+

section \<open>Reading and writing a block\<close>

lemma poke_prefix:
  assumes "length xs \<le> length ys"
  shows "poke 0 xs ys = xs @ drop (length xs) ys"
  by (rule nth_equalityI) (use assms in \<open>auto simp: poke_nth nth_append\<close>)

lemma poke_middle:
  assumes "length xs = k" "length ys \<le> length zs"
  shows "poke k ys (xs @ zs) = xs @ ys @ drop (length ys) zs"
  by (rule nth_equalityI) (use assms in \<open>auto simp: poke_nth nth_append\<close>)

locale ext2_disk = block_device "disk_read_sector_uncached hw" "disk_write_sector_uncached hw" content ok valid
  for hw :: "'h hw" and content ok valid
begin

abbreviation blk where "blk \<equiv> e2_blk content"
abbreviation geom where "geom \<equiv> e2_geom ok valid"
abbreviation after where "after \<equiv> e2_after content ok"

lemma unat_lba:
  assumes "geom s" "n < e_total_blocks s"
  shows "unat (block_to_lba n s) = unat (e_partition_lba s) + 2 * unat n" "unat (block_to_lba n s + 1) = unat (e_partition_lba s) + 2 * unat n + 1"
proof -
  have n: "unat n < unat (e_total_blocks s)" using assms(2) by (simp add: word_less_nat_alt)
  have t: "unat (e_partition_lba s) + 2 * unat (e_total_blocks s) < 2 ^ 32" "e_sectors_per_block s = 2" using assms(1) by (simp_all add: e2_geom_def)
  have m: "unat (n * 2) = 2 * unat n" using n t(1) by (subst unat_mult_lem [THEN iffD1]) simp_all
  have "unat (e_partition_lba s + n * 2) = unat (e_partition_lba s) + unat (n * 2)" using n t m by (intro unat_add_small) simp
  then show a: "unat (block_to_lba n s) = unat (e_partition_lba s) + 2 * unat n" using t m by (simp add: block_to_lba_def)
  show "unat (block_to_lba n s + 1) = unat (e_partition_lba s) + 2 * unat n + 1" using a n t(1) by (subst unat_add_small) simp_all
qed

lemma lba_distinct:
  assumes "geom s" "n < e_total_blocks s" "m < e_total_blocks s"
  shows "block_to_lba n s = block_to_lba m s \<longleftrightarrow> n = m" "block_to_lba n s + 1 = block_to_lba m s + 1 \<longleftrightarrow> n = m"
    "block_to_lba n s \<noteq> block_to_lba m s + 1" "block_to_lba n s + 1 \<noteq> block_to_lba m s"
proof -
  note u = unat_lba [OF assms(1,2)] unat_lba [OF assms(1,3)]
  show "block_to_lba n s = block_to_lba m s \<longleftrightarrow> n = m" using u unfolding word_unat_eq_iff by auto
  then show "block_to_lba n s + 1 = block_to_lba m s + 1 \<longleftrightarrow> n = m" by simp
  have "2 * unat n \<noteq> 2 * unat m + 1" by presburger
  then show "block_to_lba n s \<noteq> block_to_lba m s + 1" using u unfolding word_unat_eq_iff by linarith
  have "2 * unat n + 1 \<noteq> 2 * unat m" by presburger
  then show "block_to_lba n s + 1 \<noteq> block_to_lba m s" using u unfolding word_unat_eq_iff by linarith
qed

lemma geomD:
  assumes "geom s"
  shows "e_block_size s = 1024" "e_sectors_per_block s = 2" "ok (e_dev s)"
    "n < e_total_blocks s \<Longrightarrow> valid (block_to_lba n s)" "n < e_total_blocks s \<Longrightarrow> valid (block_to_lba n s + 1)"
  using assms by (simp_all add: e2_geom_def)

lemma two_sectors: "geom s \<Longrightarrow> unat (e_sectors_per_block s) = Suc (Suc 0)"
  by (simp add: geomD(2))

lemma length_blk: "geom s \<Longrightarrow> n < e_total_blocks s \<Longrightarrow> length (blk s n) = 1024"
  by (simp add: e2_blk_def length_sector_bytes content_length geomD)

lemma blk_content: "content d = content (e_dev s) \<Longrightarrow> blk (s\<lparr>e_dev := d\<rparr>) = blk s"
  by (rule ext) (simp add: e2_blk_def)

lemma read_sector_at_ok:
  assumes "ok (e_dev s)" "valid lba"
  obtains d where "read_sector_at hw lba k buf s = (True, poke (512 * k) (sector_bytes (content (e_dev s) lba)) buf, s\<lparr>e_dev := d\<rparr>)"
    "ok d" "content d = content (e_dev s)"
proof -
  obtain d where "disk_read_sector_uncached hw lba (Some (pack_words (take 512 (drop (512 * k) buf)))) (e_dev s) = (DISK_IO_OK, Some (content (e_dev s) lba), d)"
    "ok d" "content d = content (e_dev s)" using rd_ok [OF assms] by blast
  then show ?thesis by (intro that [of d]) (simp_all add: read_sector_at_def)
qed

lemma read_block_ok:
  assumes "geom s" "n < e_total_blocks s" "1024 \<le> length buf"
  obtains s' where "read_block hw n buf s = (True, blk s n @ drop 1024 buf, s')" "after s (blk s) s'"
proof -
  let ?l = "block_to_lba n s"
  let ?a = "sector_bytes (content (e_dev s) ?l)" and ?b = "sector_bytes (content (e_dev s) (?l + 1))"
  note G = geomD [OF assms(1)]
  have len: "length ?a = 512" "length ?b = 512" using G assms(2) by (simp_all add: length_sector_bytes content_length)
  obtain d1 where d1: "read_sector_at hw ?l 0 buf s = (True, poke (512 * 0) ?a buf, s\<lparr>e_dev := d1\<rparr>)" "ok d1" "content d1 = content (e_dev s)"
    by (rule read_sector_at_ok [OF G(3) G(4) [OF assms(2)], of 0 buf])
  have p1: "poke (512 * 0) ?a buf = ?a @ drop 512 buf" using poke_prefix [of ?a buf] len assms(3) by simp
  let ?s1 = "s\<lparr>e_dev := d1\<rparr>"
  have "ok (e_dev ?s1)" using d1(2) by simp
  then obtain d2 where d2: "read_sector_at hw (?l + 1) 1 (?a @ drop 512 buf) ?s1 = (True, poke (512 * 1) (sector_bytes (content (e_dev ?s1) (?l + 1))) (?a @ drop 512 buf), ?s1\<lparr>e_dev := d2\<rparr>)"
    "ok d2" "content d2 = content (e_dev ?s1)"
    by (rule read_sector_at_ok [OF _ G(5) [OF assms(2)], of ?s1 1 "?a @ drop 512 buf"])
  have p2: "poke 512 ?b (?a @ drop 512 buf) = ?a @ ?b @ drop 1024 buf" using poke_middle [of ?a 512 ?b "drop 512 buf"] len assms(3) by simp
  have r: "read_block hw n buf s = (True, ?a @ ?b @ drop 1024 buf, s\<lparr>e_dev := d2\<rparr>)"
    using d1(1,3) d2(1) p1 p2 by (simp add: read_block_def two_sectors [OF assms(1)] Let_def)
  show ?thesis
  proof (rule that [of "s\<lparr>e_dev := d2\<rparr>"])
    show "read_block hw n buf s = (True, blk s n @ drop 1024 buf, s\<lparr>e_dev := d2\<rparr>)" using r assms(2) by (simp add: e2_blk_def)
    show "after s (blk s) (s\<lparr>e_dev := d2\<rparr>)" using d1(3) d2(2,3) by (simp add: e2_after_def blk_content)
  qed
qed

lemma write_block_ok:
  assumes "geom s" "n < e_total_blocks s" "1024 \<le> length buf"
  obtains s' where "write_block hw n buf s = (True, s')" "after s ((blk s)(n := take 1024 buf)) s'"
proof -
  let ?l = "block_to_lba n s"
  let ?w0 = "pack_words (take 512 buf)" and ?w1 = "pack_words (take 512 (drop 512 buf))"
  note G = geomD [OF assms(1)]
  note v = G(4,5) [OF assms(2)]
  have len: "length ?w0 = 256" "length ?w1 = 256" using assms(3) by (simp_all add: length_pack_words)
  let ?d1 = "disk_write_sector_uncached hw ?l (Some ?w0) (e_dev s)"
  let ?d2 = "disk_write_sector_uncached hw (?l + 1) (Some ?w1) ?d1"
  have o1: "ok ?d1" by (rule wr_ok [OF G(3) v(1) len(1)])
  have o2: "ok ?d2" by (rule wr_ok [OF o1 v(2) len(2)])
  have w: "write_block hw n buf s = (True, s\<lparr>e_dev := ?d2\<rparr>)" by (simp add: write_block_def two_sectors [OF assms(1)])
  have c: "content ?d2 x = (if x = ?l + 1 then ?w1 else if x = ?l then ?w0 else content (e_dev s) x)" if "valid x" for x
    using wr_content [OF o1 v(2) len(2) that] wr_content [OF G(3) v(1) len(1) that] by simp
  have bytes: "sector_bytes ?w0 = take 512 buf" "sector_bytes ?w1 = take 512 (drop 512 buf)" using assms(3) by (simp_all add: sector_bytes_pack)
  have t: "take 512 buf @ take 512 (drop 512 buf) = take 1024 buf" using take_add [of 512 512 buf] by simp
  have "blk (s\<lparr>e_dev := ?d2\<rparr>) m = ((blk s)(n := take 1024 buf)) m" for m
  proof (cases "m < e_total_blocks s")
    case True
    note L = lba_distinct [OF assms(1) True assms(2)]
    show ?thesis using True c [OF G(4) [OF True]] c [OF G(5) [OF True]] L bytes t by (auto simp: e2_blk_def)
  qed (use assms(2) in \<open>auto simp: e2_blk_def\<close>)
  then have "after s ((blk s)(n := take 1024 buf)) (s\<lparr>e_dev := ?d2\<rparr>)" using o2 by (simp add: e2_after_def ext)
  then show ?thesis using that w by blast
qed

end

end
