(* ===== verification/Ext2Alloc.thy ===== *)
theory Ext2Alloc
  imports Ext2Blocks
begin

text \<open>
  The two allocation bitmaps of ext2: an allocation takes the least free number and marks it, and changes nothing else.
\<close>

section \<open>Bits of a bitmap\<close>

definition bm_bit :: "u8 list \<Rightarrow> nat \<Rightarrow> bool" where
  "bm_bit bitmap k \<longleftrightarrow> bit (bitmap ! (k div 8)) (k mod 8)"

definition bm_set :: "u8 list \<Rightarrow> nat \<Rightarrow> bool \<Rightarrow> u8 list" where
  "bm_set bitmap k v = bitmap[k div 8 := (if v then bitmap ! (k div 8) OR push_bit (k mod 8) 1 else bitmap ! (k div 8) AND NOT (push_bit (k mod 8) 1))]"

lemma e2_bit_test_eq: "k < 8 * length bitmap \<Longrightarrow> e2_bit_test bitmap k = Some (bm_bit bitmap k)"
proof -
  assume "k < 8 * length bitmap"
  then have "k div 8 < length bitmap" by simp
  moreover have "x AND push_bit n 1 \<noteq> 0 \<longleftrightarrow> bit x n" for x :: u8 and n
    using and_exp_eq_0_iff_not_bit [of x n] by (simp add: push_bit_eq_mult)
  ultimately show ?thesis by (simp add: e2_bit_test_def bm_bit_def)
qed

lemma e2_bit_set_eq: "k < 8 * length bitmap \<Longrightarrow> e2_bit_set bitmap k v = Some (bm_set bitmap k v)"
  by (simp add: e2_bit_set_def bm_set_def Let_def)

lemma length_bm_set [simp]: "length (bm_set bitmap k v) = length bitmap"
  by (simp add: bm_set_def)

lemma bm_bit_set:
  assumes "k < 8 * length bitmap" "j < 8 * length bitmap"
  shows "bm_bit (bm_set bitmap k v) j \<longleftrightarrow> (if j = k then v else bm_bit bitmap j)"
proof (cases "j div 8 = k div 8")
  case True
  have l: "k div 8 < length bitmap" using assms(1) by simp
  have "j = k \<longleftrightarrow> j mod 8 = k mod 8" using True by (metis div_mult_mod_eq)
  then show ?thesis using True l by (auto simp: bm_bit_def bm_set_def bit_simps)
next
  case False
  then show ?thesis by (auto simp: bm_bit_def bm_set_def)
qed

lemma find_clear_bit_spec:
  assumes "k + n \<le> 8 * length bitmap" "n + k < 2 ^ 32"
  obtains "find_clear_bit bitmap stop n k = Some None" "\<And>j. k \<le> j \<Longrightarrow> j < k + n \<Longrightarrow> (\<forall>i. k \<le> i \<and> i \<le> j \<longrightarrow> \<not> stop (of_nat i)) \<Longrightarrow> bm_bit bitmap j"
  | j where "find_clear_bit bitmap stop n k = Some (Some j)" "k \<le> j" "j < k + n" "\<not> bm_bit bitmap j"
      "\<And>i. k \<le> i \<Longrightarrow> i \<le> j \<Longrightarrow> \<not> stop (of_nat i)" "\<And>i. k \<le> i \<Longrightarrow> i < j \<Longrightarrow> bm_bit bitmap i"
  using assms
proof (induction n arbitrary: k thesis)
  case 0
  then show ?case by simp
next
  case (Suc n)
  have t: "e2_bit_test bitmap k = Some (bm_bit bitmap k)" using Suc.prems(3) by (intro e2_bit_test_eq) simp
  show ?case
  proof (cases "stop (of_nat k) \<or> \<not> bm_bit bitmap k")
    case True
    then show ?thesis
    proof (cases "stop (of_nat k)")
      case True
      then show ?thesis by (intro Suc.prems(1)) auto
    next
      case False
      then have "\<not> bm_bit bitmap k" using True by blast
      then show ?thesis using False t by (intro Suc.prems(2) [of k]) (auto dest: le_antisym)
    qed
  next
    case False
    then have e: "find_clear_bit bitmap stop (Suc n) k = find_clear_bit bitmap stop n (Suc k)" using t by simp
    have split: "k \<le> i \<longleftrightarrow> i = k \<or> Suc k \<le> i" for i by auto
    show ?thesis
    proof (rule Suc.IH [of "Suc k"])
      assume a: "find_clear_bit bitmap stop n (Suc k) = Some None"
        "\<And>j. Suc k \<le> j \<Longrightarrow> j < Suc k + n \<Longrightarrow> \<forall>i. Suc k \<le> i \<and> i \<le> j \<longrightarrow> \<not> stop (of_nat i) \<Longrightarrow> bm_bit bitmap j"
      show thesis
      proof (rule Suc.prems(1))
        show "find_clear_bit bitmap stop (Suc n) k = Some None" using a(1) e by simp
        show "bm_bit bitmap j" if "k \<le> j" "j < k + Suc n" "\<forall>i. k \<le> i \<and> i \<le> j \<longrightarrow> \<not> stop (of_nat i)" for j
          using a(2) [of j] that False split [of j] by auto
      qed
    next
      fix j
      assume a: "find_clear_bit bitmap stop n (Suc k) = Some (Some j)" "Suc k \<le> j" "j < Suc k + n" "\<not> bm_bit bitmap j"
        "\<And>i. Suc k \<le> i \<Longrightarrow> i \<le> j \<Longrightarrow> \<not> stop (of_nat i)" "\<And>i. Suc k \<le> i \<Longrightarrow> i < j \<Longrightarrow> bm_bit bitmap i"
      show thesis
        by (rule Suc.prems(2) [of j]) (use a e False split in \<open>auto\<close>)
    qed (use Suc.prems in simp_all)
  qed
qed

section \<open>Group descriptors\<close>

definition gd_block :: "'h ext2 \<Rightarrow> u32 \<Rightarrow> u32" where
  "gd_block s g = e_group_desc_block s + g div 32"

definition e2_gd :: "'h ext2 \<Rightarrow> (u32 \<Rightarrow> u8 list) \<Rightarrow> u32 \<Rightarrow> e2_group_desc" where
  "e2_gd s B g = bytes_group_desc (B (gd_block s g)) (unat (g mod 32 * 32))"

lemma gd_offset: "unat (g mod 32 * 32 :: u32) + 32 \<le> 1024"
proof -
  have m: "unat (g mod 32) < 32" by (simp add: unat_mod)
  have "unat (g mod 32 * 32) = unat (g mod 32) * 32" using m by (subst unat_mult_lem [THEN iffD1]) simp_all
  then show ?thesis using m by linarith
qed

lemma e2_after_gd:
  assumes "e2_after content ok s B s'"
  shows "e2_gd s' = e2_gd s" "gd_block s' = gd_block s"
  using e2_after_fields(8) [OF assms] by (auto simp: e2_gd_def gd_block_def fun_eq_iff)

text \<open>
  A bitmap by its linear index: \<open>per\<close> bits for each group. The numbers that an allocation may give are those whose bit is clear below a bound; \<open>base\<close> is added to
  the index to give the number.
\<close>

definition e2_used :: "'h ext2 \<Rightarrow> (u32 \<Rightarrow> u8 list) \<Rightarrow> (e2_group_desc \<Rightarrow> u32) \<Rightarrow> nat \<Rightarrow> nat \<Rightarrow> bool" where
  "e2_used s B bm per i \<longleftrightarrow> bm_bit (B (bm (e2_gd s B (of_nat (i div per))))) (i mod per)"

definition e2_free :: "'h ext2 \<Rightarrow> (u32 \<Rightarrow> u8 list) \<Rightarrow> (e2_group_desc \<Rightarrow> u32) \<Rightarrow> nat \<Rightarrow> nat \<Rightarrow> nat \<Rightarrow> nat \<Rightarrow> nat \<Rightarrow> nat set" where
  "e2_free s B bm per base bound lo hi = {i. lo \<le> i \<and> i < hi \<and> i + base < bound \<and> \<not> e2_used s B bm per i}"

lemma e2_used_group:
  assumes "k < per"
  shows "e2_used s B bm per (unat g * per + k) \<longleftrightarrow> bm_bit (B (bm (e2_gd s B g))) k"
  using assms by (simp add: e2_used_def)

lemma e2_number:
  fixes g per b :: u32
  assumes "unat g * unat per + k + unat b < 2 ^ 31"
  shows "unat (g * per + of_nat k + b) = unat g * unat per + k + unat b"
proof -
  have "g * per + of_nat k + b = of_nat (unat g * unat per + k + unat b)" by simp
  then show ?thesis using assms by (simp only: unat_of_nat) (simp add: take_bit_nat_eq_self)
qed

context ext2_disk
begin

lemma read_group_desc_ok:
  assumes "geom s" "gd_block s g < e_total_blocks s" "1024 \<le> length junk"
  obtains s' where "read_group_desc hw junk g s = Some (Some (e2_gd s (blk s) g), s')" "after s (blk s) s'"
proof -
  have b: "e_block_size s = 1024" using assms(1) by (rule geomD)
  have len: "length (blk s (gd_block s g)) = 1024" using length_blk assms(1,2) by blast
  have "1024 \<le> length (take 1024 junk)" using assms(3) by simp
  from read_block_ok [OF assms(1,2) this] obtain s' where
    s': "read_block hw (gd_block s g) (take 1024 junk) s = (True, blk s (gd_block s g) @ drop 1024 (take 1024 junk), s')" "after s (blk s) s'" .
  show ?thesis
    by (rule that [OF _ s'(2)]) (use s'(1) b in \<open>simp add: read_group_desc_def e2_gd_def gd_block_def Let_def\<close>)
qed


lemma alloc_loop_ok:
  fixes per b :: u32
  defines "base \<equiv> unat b" and "p \<equiv> unat per"
  assumes "geom s" "1024 \<le> length junk" "0 < per" "per \<le> 8192" "n + unat g = cnt" "cnt * p + base < 2 ^ 31"
    and "\<And>h. unat h < cnt \<Longrightarrow> gd_block s h < e_total_blocks s \<and> bm (e2_gd s (blk s) h) < e_total_blocks s"
    and stop: "\<And>x. stop x \<longleftrightarrow> bound \<le> unat x"
  obtains s' where "alloc_loop hw junk bm (\<lambda>g k. g * per + k + b) stop per n g s = Some (-1, s')" "after s (blk s) s'"
      "e2_free s (blk s) bm p base bound (unat g * p) (cnt * p) = {}"
  | i s' where "alloc_loop hw junk bm (\<lambda>g k. g * per + k + b) stop per n g s = Some (int (i + base), s')"
      "i \<in> e2_free s (blk s) bm p base bound (unat g * p) (cnt * p)" "\<And>j. j \<in> e2_free s (blk s) bm p base bound (unat g * p) (cnt * p) \<Longrightarrow> i \<le> j"
      "after s ((blk s)(bm (e2_gd s (blk s) (of_nat (i div p))) := bm_set (blk s (bm (e2_gd s (blk s) (of_nat (i div p))))) (i mod p) True)) s'"
  using assms(3-)
proof (induction n arbitrary: g s thesis)
  case 0
  then show ?case by (intro "0.prems"(1) [of s]) (auto simp: e2_free_def e2_after_refl)
next
  case (Suc n)
  let ?B = "blk s" and ?bm = "bm (e2_gd s (blk s) g)"
  let ?loop = "alloc_loop hw junk bm (\<lambda>g k. g * per + k + b) stop per"
  have g: "unat g < cnt" "unat (g + 1) = unat g + 1" "Suc (unat g) \<le> cnt"
  proof -
    show "unat g < cnt" using Suc.prems(7) by simp
    then have "unat g * 1 < cnt * p" using Suc.prems(5) unfolding p_def by (intro mult_less_le_imp_less) (auto simp: Suc_le_eq unat_gt_0)
    then show "unat (g + 1) = unat g + 1" using Suc.prems(8) by (subst unat_add_small) simp_all
  qed (use Suc.prems(7) in simp)
  have pp: "0 < p" "p \<le> 8192" using Suc.prems(5,6) by (simp_all add: p_def unat_gt_0 word_le_nat_alt)
  have hi: "unat g * p + p \<le> cnt * p" using mult_le_mono1 [OF g(3), of p] by simp
  have num: "unat (g * per + of_nat k + b) = unat g * p + k + base" if "k < p" for k
    using that hi Suc.prems(8) unfolding p_def base_def by (intro e2_number) linarith
  note L = Suc.prems(9) [OF g(1)]
  obtain s1 where s1: "read_group_desc hw junk g s = Some (Some (e2_gd s ?B g), s1)" "after s ?B s1"
    by (rule read_group_desc_ok [OF Suc.prems(3) _ Suc.prems(4)]) (use L in blast)
  note F1 = e2_after_fields [OF s1(2)] e2_after_blk [OF s1(2)]
  have geom1: "geom s1" by (rule e2_after_geom [OF Suc.prems(3) s1(2)])
  have "?bm < e_total_blocks s1" "1024 \<le> length (take 1024 junk)" using L F1(3) Suc.prems(4) by simp_all
  from read_block_ok [OF geom1 this] obtain s2 where
    s2: "read_block hw ?bm (take 1024 junk) s1 = (True, ?B ?bm, s2)" "after s1 ?B s2" using F1(13) by auto
  have a2: "after s ?B s2" by (rule e2_after_trans [OF s1(2) s2(2)])
  have geom2: "geom s2" by (rule e2_after_geom [OF Suc.prems(3) a2])
  have len: "length (?B ?bm) = 1024" by (rule length_blk [OF Suc.prems(3)]) (use L in blast)
  let ?stop = "\<lambda>k. stop (g * per + k + b)"
  have st: "?stop (of_nat k) \<longleftrightarrow> bound \<le> unat g * p + k + base" if "k < p" for k
    using num [OF that] Suc.prems(10) by simp
  have inner: "i \<in> e2_free s ?B bm p base bound (unat g * p) (unat g * p + p) \<longleftrightarrow>
      (\<exists>k < p. i = unat g * p + k \<and> \<not> bm_bit (?B ?bm) k \<and> unat g * p + k + base < bound)" for i
  proof
    assume "i \<in> e2_free s ?B bm p base bound (unat g * p) (unat g * p + p)"
    then obtain k where k: "i = unat g * p + k" "k < p" "i + base < bound" "\<not> e2_used s ?B bm p i"
      unfolding e2_free_def by (auto dest!: le_Suc_ex)
    then show "\<exists>k < p. i = unat g * p + k \<and> \<not> bm_bit (?B ?bm) k \<and> unat g * p + k + base < bound" using e2_used_group [OF k(2)] by auto
  qed (auto simp: e2_free_def e2_used_group)
  have split: "e2_free s ?B bm p base bound (unat g * p) (cnt * p) =
      e2_free s ?B bm p base bound (unat g * p) (unat g * p + p) \<union> e2_free s ?B bm p base bound (unat (g + 1) * p) (cnt * p)"
    using hi g(2) by (auto simp: e2_free_def)
  show ?case
  proof (rule find_clear_bit_spec [of 0 p "?B ?bm" ?stop])
    assume none: "find_clear_bit (?B ?bm) ?stop p 0 = Some None"
      "\<And>j. 0 \<le> j \<Longrightarrow> j < 0 + p \<Longrightarrow> \<forall>i. 0 \<le> i \<and> i \<le> j \<longrightarrow> \<not> ?stop (of_nat i) \<Longrightarrow> bm_bit (?B ?bm) j"
    have e: "?loop (Suc n) g s = ?loop n (g + 1) s2" using s1(1) s2(1) none(1) by (simp add: p_def [symmetric])
    have empty: "e2_free s ?B bm p base bound (unat g * p) (unat g * p + p) = {}"
    proof (rule ccontr)
      assume "e2_free s ?B bm p base bound (unat g * p) (unat g * p + p) \<noteq> {}"
      then obtain i where i: "i \<in> e2_free s ?B bm p base bound (unat g * p) (unat g * p + p)" by blast
      then obtain k where k: "k < p" "\<not> bm_bit (?B ?bm) k" "unat g * p + k + base < bound" using inner by blast
      have "\<not> ?stop (of_nat i)" if "i \<le> k" for i using st [of i] that k(1,3) by simp
      then show False using none(2) [of k] k(1,2) by simp
    qed
    have same: "e2_free s2 (blk s2) bm p base bound lo up = e2_free s ?B bm p base bound lo up" for lo up
      using e2_after_gd [OF a2] e2_after_blk [OF a2] by (simp add: e2_free_def e2_used_def)
    note gd2 = e2_after_gd [OF a2] e2_after_blk [OF a2] e2_after_fields [OF a2]
    show thesis
    proof (rule Suc.IH [of "g + 1" s2])
      fix s' assume A: "?loop n (g + 1) s2 = Some (-1, s')" "after s2 (blk s2) s'" "e2_free s2 (blk s2) bm p base bound (unat (g + 1) * p) (cnt * p) = {}"
      show thesis
        by (rule Suc.prems(1) [of s']) (use A e split empty same gd2(3) e2_after_trans [OF a2, of _ s'] in \<open>simp_all\<close>)
    next
      fix i s' assume A: "?loop n (g + 1) s2 = Some (int (i + base), s')" "i \<in> e2_free s2 (blk s2) bm p base bound (unat (g + 1) * p) (cnt * p)"
        "\<And>j. j \<in> e2_free s2 (blk s2) bm p base bound (unat (g + 1) * p) (cnt * p) \<Longrightarrow> i \<le> j"
        "after s2 ((blk s2)(bm (e2_gd s2 (blk s2) (of_nat (i div p))) := bm_set (blk s2 (bm (e2_gd s2 (blk s2) (of_nat (i div p))))) (i mod p) True)) s'"
      have "after s (?B(bm (e2_gd s ?B (of_nat (i div p))) := bm_set (?B (bm (e2_gd s ?B (of_nat (i div p))))) (i mod p) True)) s'"
        using e2_after_trans [OF a2 A(4)] by (simp add: gd2)
      then show thesis
        by (rule Suc.prems(2) [of i s', rotated 3]) (use A(1,2,3) e split empty same in simp_all)
    qed (use Suc.prems geom2 g gd2 in \<open>auto\<close>)
  next
    fix k assume some: "find_clear_bit (?B ?bm) ?stop p 0 = Some (Some k)" "0 \<le> k" "k < 0 + p" "\<not> bm_bit (?B ?bm) k"
      "\<And>i. 0 \<le> i \<Longrightarrow> i \<le> k \<Longrightarrow> \<not> ?stop (of_nat i)" "\<And>i. 0 \<le> i \<Longrightarrow> i < k \<Longrightarrow> bm_bit (?B ?bm) i"
    then have kp: "k < p" by simp
    have "?bm < e_total_blocks s2" "1024 \<le> length (bm_set (?B ?bm) k True)" using L e2_after_fields(3) [OF a2] len by simp_all
    from write_block_ok [OF geom2 this] obtain s' where
      s': "write_block hw ?bm (bm_set (?B ?bm) k True) s2 = (True, s')" "after s2 (?B(?bm := bm_set (?B ?bm) k True)) s'"
      using e2_after_blk [OF a2] len by auto
    let ?i = "unat g * p + k"
    have small: "unat g * p + k + base < 2 ^ 31" using kp hi Suc.prems(8) by linarith
    have "sint (g * per + of_nat k + b) = int (?i + base)"
      using num [OF kp] small by (subst sint_small) simp_all
    moreover have "k < 8 * length (?B ?bm)" using len kp pp by simp
    ultimately have e: "?loop (Suc n) g s = Some (int (?i + base), s')"
      using s1(1) s2(1) s'(1) some(1) by (simp add: p_def [symmetric] e2_bit_set_eq)
    have mem: "?i \<in> e2_free s ?B bm p base bound (unat g * p) (unat g * p + p)"
      unfolding inner using kp some(4) some(5) [of k] st [OF kp] by auto
    have min: "?i \<le> j" if "j \<in> e2_free s ?B bm p base bound (unat g * p) (cnt * p)" for j
    proof (cases "j < unat g * p + p")
      case True
      then have "j \<in> e2_free s ?B bm p base bound (unat g * p) (unat g * p + p)" using that by (auto simp: e2_free_def)
      then obtain k' where "j = unat g * p + k'" "\<not> bm_bit (?B ?bm) k'" using inner by blast
      then show ?thesis using some(6) [of k'] by (cases "k' < k") auto
    qed (use kp in simp)
    show thesis
    proof (rule Suc.prems(2) [of ?i s', OF e _ min])
      show "?i \<in> e2_free s ?B bm p base bound (unat g * p) (cnt * p)" using mem split by blast
      show "after s (?B(bm (e2_gd s ?B (of_nat (?i div p))) := bm_set (?B (bm (e2_gd s ?B (of_nat (?i div p))))) (?i mod p) True)) s'"
        using e2_after_trans [OF a2 s'(2)] kp by simp
    qed
  qed (use len pp in simp_all)
qed

end

section \<open>The layout of a file system\<close>

definition e2_groups :: "'h ext2 \<Rightarrow> u32 set" where
  "e2_groups s = {g. g < e_group_desc_count s}"

text \<open>The block of the inode table of group \<open>g\<close> that holds its inode \<open>k\<close>.\<close>

definition itab_block :: "'h ext2 \<Rightarrow> (u32 \<Rightarrow> u8 list) \<Rightarrow> u32 \<Rightarrow> u32 \<Rightarrow> u32" where
  "itab_block s B g k = gd_inode_table (e2_gd s B g) + k * e_inode_size s div 1024"

abbreviation bbm :: "'h ext2 \<Rightarrow> (u32 \<Rightarrow> u8 list) \<Rightarrow> u32 \<Rightarrow> u32" where
  "bbm s B g \<equiv> gd_block_bitmap (e2_gd s B g)"

abbreviation ibm :: "'h ext2 \<Rightarrow> (u32 \<Rightarrow> u8 list) \<Rightarrow> u32 \<Rightarrow> u32" where
  "ibm s B g \<equiv> gd_inode_bitmap (e2_gd s B g)"

definition e2_itab :: "'h ext2 \<Rightarrow> (u32 \<Rightarrow> u8 list) \<Rightarrow> u32 \<Rightarrow> u32 set" where
  "e2_itab s B g = itab_block s B g ` {k. k < e_inodes_per_group s}"

definition e2_meta :: "'h ext2 \<Rightarrow> (u32 \<Rightarrow> u8 list) \<Rightarrow> u32 set" where
  "e2_meta s B = gd_block s ` e2_groups s \<union> bbm s B ` e2_groups s \<union> ibm s B ` e2_groups s \<union> (\<Union>g \<in> e2_groups s. e2_itab s B g)"

definition blk_used :: "'h ext2 \<Rightarrow> (u32 \<Rightarrow> u8 list) \<Rightarrow> u32 \<Rightarrow> bool" where
  "blk_used s B n \<longleftrightarrow> n < sb_first_data_block (e_sb s) \<or> e2_used s B gd_block_bitmap (unat (e_blocks_per_group s)) (unat n - unat (sb_first_data_block (e_sb s)))"

text \<open>
  What the driver relies on: numbers that fit, metadata inside the file system, the parts of the metadata disjoint, and every metadata block
  marked as used. All of it is a check of concrete numbers.
\<close>

definition e2_layout :: "'h ext2 \<Rightarrow> (u32 \<Rightarrow> u8 list) \<Rightarrow> bool" where
  "e2_layout s B \<longleftrightarrow>
     0 < e_blocks_per_group s \<and> e_blocks_per_group s \<le> 8192 \<and> 0 < e_inodes_per_group s \<and> e_inodes_per_group s \<le> 8192 \<and>
     e_inode_size s \<in> {128, 256, 512, 1024} \<and> 0 < sb_first_data_block (e_sb s) \<and>
     unat (e_group_desc_count s) * unat (e_blocks_per_group s) + unat (sb_first_data_block (e_sb s)) < 2 ^ 31 \<and>
     unat (e_group_desc_count s) * unat (e_inodes_per_group s) + 1 < 2 ^ 31 \<and>
     unat (e_total_blocks s) \<le> unat (e_group_desc_count s) * unat (e_blocks_per_group s) + unat (sb_first_data_block (e_sb s)) \<and>
     unat (e_total_inodes s) \<le> unat (e_group_desc_count s) * unat (e_inodes_per_group s) \<and>
     (\<forall>n \<in> e2_meta s B. n < e_total_blocks s \<and> blk_used s B n) \<and>
     inj_on (bbm s B) (e2_groups s) \<and> inj_on (ibm s B) (e2_groups s) \<and>
     (\<forall>g \<in> e2_groups s. \<forall>h \<in> e2_groups s. bbm s B g \<noteq> gd_block s h \<and> ibm s B g \<noteq> gd_block s h \<and> bbm s B g \<noteq> ibm s B h \<and>
        gd_block s h \<notin> e2_itab s B g \<and> bbm s B h \<notin> e2_itab s B g \<and> ibm s B h \<notin> e2_itab s B g \<and>
        (g \<noteq> h \<longrightarrow> e2_itab s B g \<inter> e2_itab s B h = {}))"

lemma e2_layoutD:
  assumes "e2_layout s B" "g \<in> e2_groups s"
  shows "gd_block s g < e_total_blocks s" "bbm s B g < e_total_blocks s" "ibm s B g < e_total_blocks s"
    "k < e_inodes_per_group s \<Longrightarrow> itab_block s B g k < e_total_blocks s"
proof -
  have m: "n < e_total_blocks s" if "n \<in> e2_meta s B" for n using assms(1) that by (simp add: e2_layout_def)
  show "gd_block s g < e_total_blocks s" "bbm s B g < e_total_blocks s" "ibm s B g < e_total_blocks s"
    using assms(2) by (auto intro!: m simp: e2_meta_def)
  show "itab_block s B g k < e_total_blocks s" if "k < e_inodes_per_group s"
    using assms(2) that by (intro m) (unfold e2_meta_def e2_itab_def, blast)
qed

lemma e2_layout_disj:
  assumes "e2_layout s B" "g \<in> e2_groups s" "h \<in> e2_groups s"
  shows "bbm s B g \<noteq> gd_block s h" "ibm s B g \<noteq> gd_block s h" "bbm s B g \<noteq> ibm s B h" "gd_block s h \<notin> e2_itab s B g" "bbm s B h \<notin> e2_itab s B g"
    "ibm s B h \<notin> e2_itab s B g" "g \<noteq> h \<Longrightarrow> e2_itab s B g \<inter> e2_itab s B h = {}"
  using assms by (simp_all add: e2_layout_def)

lemma e2_layout_nums:
  assumes "e2_layout s B"
  shows "0 < unat (e_blocks_per_group s)" "unat (e_blocks_per_group s) \<le> 8192" "0 < unat (e_inodes_per_group s)" "unat (e_inodes_per_group s) \<le> 8192"
    "inj_on (bbm s B) (e2_groups s)" "inj_on (ibm s B) (e2_groups s)"
proof -
  have "0 < e_blocks_per_group s" "e_blocks_per_group s \<le> 8192" "0 < e_inodes_per_group s" "e_inodes_per_group s \<le> 8192"
    using assms by (simp_all add: e2_layout_def)
  then show "0 < unat (e_blocks_per_group s)" "unat (e_blocks_per_group s) \<le> 8192" "0 < unat (e_inodes_per_group s)" "unat (e_inodes_per_group s) \<le> 8192"
    by (simp_all add: word_less_nat_alt word_le_nat_alt)
  show "inj_on (bbm s B) (e2_groups s)" "inj_on (ibm s B) (e2_groups s)" using assms by (simp_all add: e2_layout_def)
qed

text \<open>The descriptors are where they were when their blocks are.\<close>

lemma e2_gd_cong:
  assumes "C (gd_block s g) = B (gd_block s g)"
  shows "e2_gd s C g = e2_gd s B g"
  using assms by (simp add: e2_gd_def)

lemma e2_used_cong:
  assumes "\<And>g. g \<in> e2_groups s \<Longrightarrow> C (gd_block s g) = B (gd_block s g) \<and> C (bm (e2_gd s B g)) = B (bm (e2_gd s B g))"
    and "of_nat (i div per) \<in> e2_groups s"
  shows "e2_used s C bm per i = e2_used s B bm per i"
proof -
  have "e2_gd s C (of_nat (i div per)) = e2_gd s B (of_nat (i div per))" using assms(1) [OF assms(2)] by (intro e2_gd_cong) blast
  then show ?thesis using assms(1) [OF assms(2)] by (simp only: e2_used_def)
qed

lemma group_of_index:
  assumes "i < unat (e_group_desc_count s) * per"
  shows "of_nat (i div per) \<in> e2_groups s" "unat (of_nat (i div per) :: u32) = i div per"
proof -
  have d: "i div per < unat (e_group_desc_count s)" using assms by (simp add: less_mult_imp_div_less)
  then have "i div per < 2 ^ 32" using unsigned_less [of "e_group_desc_count s", where 'a = nat] by simp
  then show "unat (of_nat (i div per) :: u32) = i div per" by (simp add: unat_of_nat take_bit_nat_eq_self)
  then show "of_nat (i div per) \<in> e2_groups s" using d by (simp add: e2_groups_def word_less_nat_alt)
qed

text \<open>Changing one bit of the bitmap of one group.\<close>

lemma e2_used_set:
  fixes i j per :: nat and s :: "'h ext2" and B :: "u32 \<Rightarrow> u8 list" and bm :: "e2_group_desc \<Rightarrow> u32" and v :: bool
  defines "g \<equiv> of_nat (i div per) :: u32"
  defines "C \<equiv> B(bm (e2_gd s B g) := bm_set (B (bm (e2_gd s B g))) (i mod per) v)"
  assumes "i < unat (e_group_desc_count s) * per" "j < unat (e_group_desc_count s) * per" "0 < per" "per \<le> 8 * length (B (bm (e2_gd s B g)))"
    and inj: "inj_on (\<lambda>g. bm (e2_gd s B g)) (e2_groups s)" and gd: "\<And>h h'. h \<in> e2_groups s \<Longrightarrow> h' \<in> e2_groups s \<Longrightarrow> bm (e2_gd s B h) \<noteq> gd_block s h'"
  shows "e2_used s C bm per j \<longleftrightarrow> (if j = i then v else e2_used s B bm per j)"
proof -
  let ?h = "of_nat (j div per) :: u32"
  note G = group_of_index [OF assms(3)] group_of_index [OF assms(4)]
  have "g \<in> e2_groups s" using G(1) by (simp only: g_def)
  then have h: "e2_gd s C ?h = e2_gd s B ?h" using gd [OF _ G(3), of g] by (intro e2_gd_cong) (simp add: C_def)
  show ?thesis
  proof (cases "?h = g")
    case True
    then have "j div per = i div per" using G(2,4) by (simp add: g_def)
    then have "j = i \<longleftrightarrow> j mod per = i mod per" by (metis div_mult_mod_eq)
    moreover have "i mod per < 8 * length (B (bm (e2_gd s B g)))" "j mod per < 8 * length (B (bm (e2_gd s B g)))"
      using assms(5,6) by (auto intro: less_le_trans [OF mod_less_divisor])
    note bm_bit_set [OF this, of v]
    ultimately show ?thesis using True h by (simp add: e2_used_def C_def)
  next
    case False
    then have "bm (e2_gd s B ?h) \<noteq> bm (e2_gd s B g)" using inj_onD [OF inj] G(1,3) g_def by blast
    moreover have "j \<noteq> i" using False g_def by blast
    ultimately show ?thesis using h by (simp add: e2_used_def C_def)
  qed
qed

text \<open>Changing bits of the block bitmap for blocks outside of the metadata, or the contents of other blocks, keeps the layout.\<close>

lemma e2_layout_cong:
  assumes "e2_layout s B" "\<And>g. g \<in> e2_groups s \<Longrightarrow> C (gd_block s g) = B (gd_block s g)" "\<And>n. n \<in> e2_meta s B \<Longrightarrow> blk_used s C n"
  shows "e2_layout s C" "e2_meta s C = e2_meta s B" "\<And>g. g \<in> e2_groups s \<Longrightarrow> e2_gd s C g = e2_gd s B g"
proof -
  show gd: "e2_gd s C g = e2_gd s B g" if "g \<in> e2_groups s" for g using assms(2) [OF that] by (rule e2_gd_cong)
  have it: "e2_itab s C g = e2_itab s B g" if "g \<in> e2_groups s" for g using gd [OF that] by (simp add: e2_itab_def itab_block_def)
  have im: "bbm s C ` e2_groups s = bbm s B ` e2_groups s" "ibm s C ` e2_groups s = ibm s B ` e2_groups s" using gd by auto
  show m: "e2_meta s C = e2_meta s B" using it im by (simp add: e2_meta_def)
  have inj: "inj_on (bbm s C) (e2_groups s) = inj_on (bbm s B) (e2_groups s)" "inj_on (ibm s C) (e2_groups s) = inj_on (ibm s B) (e2_groups s)"
    using gd by (auto intro!: inj_on_cong)
  show "e2_layout s C" using assms(1,3) gd it by (simp add: e2_layout_def m inj)
qed

lemma blk_used_index:
  assumes "e2_layout s B" "n < e_total_blocks s" "\<not> n < sb_first_data_block (e_sb s)"
  shows "unat n - unat (sb_first_data_block (e_sb s)) < unat (e_group_desc_count s) * unat (e_blocks_per_group s)"
    "unat n = unat n - unat (sb_first_data_block (e_sb s)) + unat (sb_first_data_block (e_sb s))"
  using assms unfolding e2_layout_def word_less_nat_alt by linarith+

text \<open>The numbers of two blocks are the same when their places in the bitmap are.\<close>

lemma blk_used_set:
  fixes i :: nat and s :: "'h ext2" and B :: "u32 \<Rightarrow> u8 list" and v :: bool
  defines "p \<equiv> unat (e_blocks_per_group s)" and "base \<equiv> unat (sb_first_data_block (e_sb s))"
  defines "b \<equiv> bbm s B (of_nat (i div p))"
  defines "C \<equiv> B(b := bm_set (B b) (i mod p) v)"
  assumes "e2_layout s B" "i < unat (e_group_desc_count s) * p" "length (B b) = 1024" "n < e_total_blocks s"
  shows "blk_used s C n \<longleftrightarrow> (if unat n = i + base then v else blk_used s B n)"
proof (cases "n < sb_first_data_block (e_sb s)")
  case True
  then have "unat n \<noteq> i + base" by (simp add: word_less_nat_alt base_def)
  then show ?thesis using True by (simp add: blk_used_def)
next
  case False
  note j = blk_used_index [OF assms(5,8) False, folded p_def base_def]
  note L = e2_layout_nums(1,2,5) [OF assms(5), folded p_def] e2_layout_disj(1) [OF assms(5)]
  have "p \<le> 8 * length (B b)" using assms(7) L(2) by simp
  note e2_used_set [where bm = gd_block_bitmap, OF assms(6) j(1) L(1) this [unfolded b_def] L(3,4), of v, folded b_def, folded C_def]
  moreover have "unat n - base = i \<longleftrightarrow> unat n = i + base" using j(2) by linarith
  ultimately show ?thesis using False by (simp add: blk_used_def p_def [symmetric] base_def [symmetric])
qed

context ext2_disk
begin

text \<open>The effect of setting or clearing the bit of a block that is not metadata.\<close>

lemma mark_block:
  fixes s :: "'h ext2" and i :: nat and v :: bool
  defines "p \<equiv> unat (e_blocks_per_group s)" and "base \<equiv> unat (sb_first_data_block (e_sb s))"
  defines "b \<equiv> bbm s (blk s) (of_nat (i div p))"
  defines "C \<equiv> (blk s)(b := bm_set (blk s b) (i mod p) v)"
  assumes "geom s" "e2_layout s (blk s)" "i < unat (e_group_desc_count s) * p" "\<forall>m \<in> e2_meta s (blk s). unat m \<noteq> i + base"
  shows "e2_layout s C" "e2_meta s C = e2_meta s (blk s)" "n < e_total_blocks s \<Longrightarrow> blk_used s C n \<longleftrightarrow> (if unat n = i + base then v else blk_used s (blk s) n)"
    "m \<notin> bbm s (blk s) ` e2_groups s \<Longrightarrow> C m = blk s m" "g \<in> e2_groups s \<Longrightarrow> e2_gd s C g = e2_gd s (blk s) g"
proof -
  have g: "of_nat (i div p) \<in> e2_groups s" using group_of_index(1) [OF assms(7)] by simp
  have "length (blk s b) = 1024" unfolding b_def by (rule length_blk [OF assms(5) e2_layoutD(2) [OF assms(6) g]])
  note u = blk_used_set [OF assms(6) assms(7) [unfolded p_def] this [unfolded b_def p_def], of _ v, folded p_def base_def, folded b_def, folded C_def]
  show "blk_used s C n \<longleftrightarrow> (if unat n = i + base then v else blk_used s (blk s) n)" if "n < e_total_blocks s" by (rule u [OF that])
  have meta: "n < e_total_blocks s" "blk_used s (blk s) n" if "n \<in> e2_meta s (blk s)" for n using assms(6) that by (simp_all add: e2_layout_def)
  have gd: "C (gd_block s g) = blk s (gd_block s g)" if "g \<in> e2_groups s" for g
    using e2_layout_disj(1) [OF assms(6) g that] by (simp add: C_def b_def)
  have "blk_used s C n" if "n \<in> e2_meta s (blk s)" for n using u [OF meta(1) [OF that]] meta(2) [OF that] bspec [OF assms(8) that] by simp
  note K = e2_layout_cong [OF assms(6) gd this]
  show "e2_layout s C" "e2_meta s C = e2_meta s (blk s)" "g \<in> e2_groups s \<Longrightarrow> e2_gd s C g = e2_gd s (blk s) g" by (rule K; assumption)+
  show "C m = blk s m" if "m \<notin> bbm s (blk s) ` e2_groups s" using that g unfolding C_def b_def by (auto simp: fun_upd_def)
qed

lemma alloc_block_ok:
  assumes "geom s" "e2_layout s (blk s)" "1024 \<le> length junk"
  obtains s' where "alloc_block hw junk s = Some (-1, s')" "after s (blk s) s'" "\<And>n. n < e_total_blocks s \<Longrightarrow> blk_used s (blk s) n"
  | n s' C where "alloc_block hw junk s = Some (int (unat n), s')" "0 < n" "n < e_total_blocks s" "unat n < 2 ^ 31" "\<not> blk_used s (blk s) n"
      "\<And>m. m < n \<Longrightarrow> blk_used s (blk s) m" "after s C s'" "e2_layout s C" "e2_meta s C = e2_meta s (blk s)"
      "\<And>m. m < e_total_blocks s \<Longrightarrow> blk_used s C m \<longleftrightarrow> m = n \<or> blk_used s (blk s) m" "\<And>m. m \<notin> bbm s (blk s) ` e2_groups s \<Longrightarrow> C m = blk s m"
      "\<And>g. g \<in> e2_groups s \<Longrightarrow> e2_gd s C g = e2_gd s (blk s) g"
proof -
  let ?b = "sb_first_data_block (e_sb s)" and ?per = "e_blocks_per_group s" and ?cnt = "unat (e_group_desc_count s)"
  let ?free = "e2_free s (blk s) gd_block_bitmap (unat ?per) (unat ?b) (unat (e_total_blocks s)) 0 (?cnt * unat ?per)"
  have L: "0 < ?per" "?per \<le> 8192" "?cnt * unat ?per + unat ?b < 2 ^ 31" "0 < ?b"
    using assms(2) by (simp_all add: e2_layout_def)
  have G: "gd_block s h < e_total_blocks s \<and> bbm s (blk s) h < e_total_blocks s" if "unat h < ?cnt" for h
    using e2_layoutD(1,2) [OF assms(2), of h] that by (simp add: e2_groups_def word_less_nat_alt)
  have used: "blk_used s (blk s) n \<longleftrightarrow> n < ?b \<or> unat n - unat ?b \<notin> ?free" if "n < e_total_blocks s" for n
    using that blk_used_index [OF assms(2) that] by (auto simp: blk_used_def e2_free_def word_less_nat_alt)
  have a: "alloc_block hw junk s = alloc_loop hw junk gd_block_bitmap (\<lambda>g k. g * ?per + k + ?b) (\<lambda>n. e_total_blocks s \<le> n) ?per ?cnt 0 s"
    by (simp add: alloc_block_def)
  show ?thesis
  proof (rule alloc_loop_ok [OF assms(1,3) L(1,2), of ?cnt 0 ?cnt ?b gd_block_bitmap "\<lambda>n. e_total_blocks s \<le> n" "unat (e_total_blocks s)"])
    fix s' assume A: "alloc_loop hw junk gd_block_bitmap (\<lambda>g k. g * ?per + k + ?b) (\<lambda>n. e_total_blocks s \<le> n) ?per ?cnt 0 s = Some (- 1, s')"
      "after s (blk s) s'" "e2_free s (blk s) gd_block_bitmap (unat ?per) (unat ?b) (unat (e_total_blocks s)) (unat (0 :: u32) * unat ?per) (?cnt * unat ?per) = {}"
    then show thesis using used a by (intro that(1) [of s']) simp_all
  next
    fix i s' assume A: "alloc_loop hw junk gd_block_bitmap (\<lambda>g k. g * ?per + k + ?b) (\<lambda>n. e_total_blocks s \<le> n) ?per ?cnt 0 s = Some (int (i + unat ?b), s')"
      "i \<in> e2_free s (blk s) gd_block_bitmap (unat ?per) (unat ?b) (unat (e_total_blocks s)) (unat (0 :: u32) * unat ?per) (?cnt * unat ?per)"
      "\<And>j. j \<in> e2_free s (blk s) gd_block_bitmap (unat ?per) (unat ?b) (unat (e_total_blocks s)) (unat (0 :: u32) * unat ?per) (?cnt * unat ?per) \<Longrightarrow> i \<le> j"
      "after s ((blk s)(bbm s (blk s) (of_nat (i div unat ?per)) := bm_set (blk s (bbm s (blk s) (of_nat (i div unat ?per)))) (i mod unat ?per) True)) s'"
    define n :: u32 where "n = of_nat (i + unat ?b)"
    have i: "i \<in> ?free" using A(2) by simp
    then have lim: "i < ?cnt * unat ?per" "i + unat ?b < unat (e_total_blocks s)" by (simp_all add: e2_free_def)
    then have un: "unat n = i + unat ?b" unfolding n_def using unsigned_less [of "e_total_blocks s", where 'a = nat] by (simp only: unat_of_nat) (simp add: take_bit_nat_eq_self)
    have nt: "n < e_total_blocks s" using un lim(2) by (simp add: word_less_nat_alt)
    have notn: "\<not> blk_used s (blk s) n" using used [OF nt] un i by (simp add: word_less_nat_alt)
    have mn: "\<forall>m \<in> e2_meta s (blk s). unat m \<noteq> i + unat ?b"
    proof
      fix m assume m: "m \<in> e2_meta s (blk s)"
      have "m \<noteq> n" using notn assms(2) m by (auto simp: e2_layout_def)
      then show "unat m \<noteq> i + unat ?b" using un by (simp add: word_unat_eq_iff)
    qed
    note M = mark_block [where v = True, OF assms(1,2) lim(1) mn]
    show thesis
    proof (rule that(2) [of n s'])
      show "alloc_block hw junk s = Some (int (unat n), s')" using A(1) a un by simp
      show "0 < n" using un L(4) by (simp add: word_less_nat_alt)
      show "unat n < 2 ^ 31" using un lim(1) L(3) by linarith
      show "blk_used s (blk s) m" if "m < n" for m
      proof -
        have mt: "m < e_total_blocks s" using that nt by (rule less_trans)
        show ?thesis using used [OF mt] A(3) [of "unat m - unat ?b"] that un by (auto simp: word_less_nat_alt)
      qed
      show "blk_used s ((blk s)(bbm s (blk s) (of_nat (i div unat ?per)) := bm_set (blk s (bbm s (blk s) (of_nat (i div unat ?per)))) (i mod unat ?per) True)) m \<longleftrightarrow>
          m = n \<or> blk_used s (blk s) m" if "m < e_total_blocks s" for m
        using M(3) [OF that] un by (auto simp: word_unat_eq_iff)
    qed (use nt notn A(4) M in simp_all)
  qed (use G L in \<open>simp_all add: word_le_nat_alt\<close>)
qed

lemma clear_bit_in_ok:
  assumes "geom s" "1024 \<le> length junk" "gd_block s g < e_total_blocks s" "bm (e2_gd s (blk s) g) < e_total_blocks s" "unat k < 8192"
  obtains s' where "clear_bit_in hw junk bm g k s = Some s'"
    "after s ((blk s)(bm (e2_gd s (blk s) g) := bm_set (blk s (bm (e2_gd s (blk s) g))) (unat k) False)) s'"
proof -
  let ?b = "bm (e2_gd s (blk s) g)"
  obtain s1 where s1: "read_group_desc hw junk g s = Some (Some (e2_gd s (blk s) g), s1)" "after s (blk s) s1"
    by (rule read_group_desc_ok [OF assms(1,3,2)])
  note geom1 = e2_after_geom [OF assms(1) s1(2)]
  have "?b < e_total_blocks s1" "1024 \<le> length (take 1024 junk)" using assms(2,4) e2_after_fields(3) [OF s1(2)] by simp_all
  from read_block_ok [OF geom1 this] obtain s2 where s2: "read_block hw ?b (take 1024 junk) s1 = (True, blk s ?b, s2)" "after s1 (blk s) s2"
    using e2_after_blk [OF s1(2)] by auto
  note a2 = e2_after_trans [OF s1(2) s2(2)]
  have len: "length (blk s ?b) = 1024" by (rule length_blk [OF assms(1,4)])
  have "?b < e_total_blocks s2" "1024 \<le> length (bm_set (blk s ?b) (unat k) False)" using assms(4) e2_after_fields(3) [OF a2] len by simp_all
  from write_block_ok [OF e2_after_geom [OF assms(1) a2] this] obtain s' where
    s': "write_block hw ?b (bm_set (blk s ?b) (unat k) False) s2 = (True, s')" "after s2 ((blk s)(?b := bm_set (blk s ?b) (unat k) False)) s'"
    using e2_after_blk [OF a2] len by auto
  have "e2_bit_set (blk s ?b) (unat k) False = Some (bm_set (blk s ?b) (unat k) False)" by (rule e2_bit_set_eq) (use len assms(5) in simp)
  then have "clear_bit_in hw junk bm g k s = Some s'" using s1(1) s2(1) s'(1) by (simp add: clear_bit_in_def)
  then show ?thesis using that e2_after_trans [OF a2 s'(2)] by blast
qed

text \<open>A block number as a group and an index.\<close>

lemma block_place:
  fixes n :: u32 and s :: "'h ext2"
  defines "i \<equiv> unat n - unat (sb_first_data_block (e_sb s))" and "p \<equiv> unat (e_blocks_per_group s)"
  assumes "e2_layout s B" "n < e_total_blocks s" "\<not> n < sb_first_data_block (e_sb s)"
  shows "(n - sb_first_data_block (e_sb s)) div e_blocks_per_group s = of_nat (i div p)"
    "unat ((n - sb_first_data_block (e_sb s)) mod e_blocks_per_group s) = i mod p" "of_nat (i div p) \<in> e2_groups s"
    "i < unat (e_group_desc_count s) * p" "unat n = i + unat (sb_first_data_block (e_sb s))"
proof -
  have d: "unat (n - sb_first_data_block (e_sb s)) = i" using assms(5) by (simp add: i_def unat_sub)
  show "unat ((n - sb_first_data_block (e_sb s)) mod e_blocks_per_group s) = i mod p" by (simp add: unat_mod d p_def)
  show lt: "i < unat (e_group_desc_count s) * p" "unat n = i + unat (sb_first_data_block (e_sb s))"
    using blk_used_index [OF assms(3-5)] by (simp_all add: i_def p_def)
  note G = group_of_index [OF lt(1)]
  then show "of_nat (i div p) \<in> e2_groups s" by blast
  show "(n - sb_first_data_block (e_sb s)) div e_blocks_per_group s = of_nat (i div p)"
    using G(2) by (intro word_unat_eq_iff [THEN iffD2]) (simp only: unat_div d p_def)
qed

lemma free_block_ok:
  assumes "geom s" "e2_layout s (blk s)" "1024 \<le> length junk" "n < e_total_blocks s" "\<not> n < sb_first_data_block (e_sb s)" "n \<notin> e2_meta s (blk s)"
  obtains s' C where "free_block hw junk n s = Some s'" "after s C s'" "e2_layout s C" "e2_meta s C = e2_meta s (blk s)"
    "\<And>m. m < e_total_blocks s \<Longrightarrow> blk_used s C m \<longleftrightarrow> m \<noteq> n \<and> blk_used s (blk s) m" "\<And>m. m \<notin> bbm s (blk s) ` e2_groups s \<Longrightarrow> C m = blk s m"
    "\<And>g. g \<in> e2_groups s \<Longrightarrow> e2_gd s C g = e2_gd s (blk s) g"
proof -
  let ?p = "unat (e_blocks_per_group s)" and ?i = "unat n - unat (sb_first_data_block (e_sb s))"
  note P = block_place [OF assms(2,4,5)]
  note L = e2_layout_nums(1,2) [OF assms(2)] e2_layoutD(1,2) [OF assms(2) P(3)]
  let ?g = "of_nat (?i div ?p) :: u32" and ?k = "(n - sb_first_data_block (e_sb s)) mod e_blocks_per_group s"
  have k: "unat ?k < 8192" using P(2) L(1,2) by (simp add: less_le_trans [OF mod_less_divisor])
  obtain s' where s': "clear_bit_in hw junk gd_block_bitmap ?g ?k s = Some s'"
    "after s ((blk s)(bbm s (blk s) ?g := bm_set (blk s (bbm s (blk s) ?g)) (unat ?k) False)) s'"
    by (rule clear_bit_in_ok [where bm = gd_block_bitmap, OF assms(1,3) L(3,4) k])
  have "\<forall>m \<in> e2_meta s (blk s). unat m \<noteq> ?i + unat (sb_first_data_block (e_sb s))"
    using assms(6) P(5) by (metis word_unat_eq_iff)
  note M = mark_block [where v = False, OF assms(1,2) P(4) this]
  have "e_blocks_per_group s \<noteq> 0" "\<not> ?g \<ge> e_group_desc_count s" using L(1) P(3) by (auto simp: e2_groups_def)
  then have "free_block hw junk n s = Some s'" using s'(1) P(1) by (simp add: free_block_def Let_def)
  then show ?thesis
  proof (rule that)
    show "after s ((blk s)(bbm s (blk s) ?g := bm_set (blk s (bbm s (blk s) ?g)) (?i mod ?p) False)) s'" using s'(2) P(2) by simp
    show "blk_used s ((blk s)(bbm s (blk s) ?g := bm_set (blk s (bbm s (blk s) ?g)) (?i mod ?p) False)) m \<longleftrightarrow> m \<noteq> n \<and> blk_used s (blk s) m"
      if "m < e_total_blocks s" for m using M(3) [OF that] P(5) by (auto simp: word_unat_eq_iff)
  qed (use M in simp_all)
qed

end

end
