(* ===== verification/Ext2Inode.thy ===== *)
theory Ext2Inode
  imports Ext2Alloc
begin

text \<open>
  Inodes on the disk: an inode that was written is read back, and the other inodes stay.
\<close>

section \<open>The bytes of an inode\<close>

definition inode_wf :: "e2_inode \<Rightarrow> bool" where
  "inode_wf i \<longleftrightarrow> length (i_block i) = 15 \<and> length (i_osd2 i) = 12"

lemma length_le [simp]: "length (le32 v) = 4" "length (le16 w) = 2"
  by (simp_all add: le32_def le16_def)

lemma length_concat_le32: "length (concat (map le32 bs)) = 4 * length bs"
  by (induction bs) simp_all

lemma read_le_skip:
  "length xs \<le> k \<Longrightarrow> read_le32 (xs @ ys) k = read_le32 ys (k - length xs)" "length xs \<le> k \<Longrightarrow> read_le16 (xs @ ys) k = read_le16 ys (k - length xs)"
  by (simp_all add: read_le32_def read_le16_def nth_append Suc_diff_le)

lemma read_le32_here: "read_le32 (le32 v @ ys) 0 = v"
proof -
  have "read_le32 (le32 v @ ys) 0 = read_le32 (le32 v) 0" by (simp add: read_le32_def nth_append)
  then show ?thesis using read_le32_poke(1) [of 0 "replicate 4 0" v] by (simp add: poke_prefix)
qed

lemma read_le16_here: "read_le16 (le16 v @ ys) 0 = v"
  by (rule bit_word_eqI) (auto simp: read_le16_def le16_def nth_append bit_simps)

lemma read_block_ptr: "k < length bs \<Longrightarrow> read_le32 (concat (map le32 bs) @ ys) (4 * k) = bs ! k"
proof (induction bs arbitrary: k)
  case Nil
  then show ?case by simp
next
  case (Cons b bs)
  show ?case
  proof (cases k)
    case 0
    then show ?thesis by (simp add: read_le32_here)
  next
    case (Suc j)
    then show ?thesis using Cons.IH [of j] Cons.prems by (simp add: read_le_skip(1))
  qed
qed

lemma length_inode_bytes: "inode_wf i \<Longrightarrow> length (inode_bytes i) = 128"
  by (simp add: inode_wf_def inode_bytes_def length_concat_le32)

lemma inode_roundtrip:
  assumes "inode_wf i"
  shows "bytes_inode (inode_bytes i) = i"
proof -
  have len: "length (i_block i) = 15" "length (i_osd2 i) = 12" using assms by (simp_all add: inode_wf_def)
  note skip = read_le_skip length_concat_le32 len read_le32_here read_le16_here
  have blocks: "map (\<lambda>k. read_le32 (inode_bytes i) (40 + 4 * k)) [0..<15] = i_block i"
  proof (rule nth_equalityI)
    fix k assume "k < length (map (\<lambda>k. read_le32 (inode_bytes i) (40 + 4 * k)) [0..<15])"
    then have "k < length (i_block i)" "k < 15" using len by simp_all
    then show "map (\<lambda>k. read_le32 (inode_bytes i) (40 + 4 * k)) [0..<15] ! k = i_block i ! k"
      using read_block_ptr [of k "i_block i"] by (simp add: inode_bytes_def skip)
  qed (use len in simp)
  show ?thesis
    unfolding bytes_inode_def blocks by (rule e2_inode.equality) (simp_all add: inode_bytes_def skip)
qed

lemma bytes_inode_wf: "128 \<le> length p \<Longrightarrow> inode_wf (bytes_inode p)"
  by (simp add: inode_wf_def bytes_inode_def)

section \<open>Inodes in the table\<close>

definition inode_group :: "'h ext2 \<Rightarrow> u32 \<Rightarrow> u32" where
  "inode_group s n = (n - 1) div e_inodes_per_group s"

definition inode_index :: "'h ext2 \<Rightarrow> u32 \<Rightarrow> u32" where
  "inode_index s n = (n - 1) mod e_inodes_per_group s"

definition inode_blk :: "'h ext2 \<Rightarrow> (u32 \<Rightarrow> u8 list) \<Rightarrow> u32 \<Rightarrow> u32" where
  "inode_blk s B n = itab_block s B (inode_group s n) (inode_index s n)"

definition inode_off :: "'h ext2 \<Rightarrow> u32 \<Rightarrow> nat" where
  "inode_off s n = unat (inode_index s n * e_inode_size s mod 1024)"

definition e2_inode_at :: "'h ext2 \<Rightarrow> (u32 \<Rightarrow> u8 list) \<Rightarrow> u32 \<Rightarrow> e2_inode" where
  "e2_inode_at s B n = bytes_inode (take 128 (drop (inode_off s n) (B (inode_blk s B n))))"

definition inode_no :: "'h ext2 \<Rightarrow> u32 \<Rightarrow> bool" where
  "inode_no s n \<longleftrightarrow> 0 < n \<and> n \<le> e_total_inodes s"

lemma inode_group_index:
  assumes "e2_layout s B" "inode_no s n"
  shows "inode_group s n \<in> e2_groups s" "inode_index s n < e_inodes_per_group s"
    "unat n = unat (inode_group s n) * unat (e_inodes_per_group s) + unat (inode_index s n) + 1"
proof -
  let ?p = "unat (e_inodes_per_group s)"
  have p: "0 < ?p" by (rule e2_layout_nums(3) [OF assms(1)])
  have t: "unat (e_total_inodes s) \<le> unat (e_group_desc_count s) * ?p" using assms(1) by (simp add: e2_layout_def)
  have n: "0 < unat n" "unat n \<le> unat (e_total_inodes s)" using assms(2) by (simp_all add: inode_no_def word_less_nat_alt word_le_nat_alt)
  have u: "unat (n - 1) = unat n - 1" using n(1) by (subst unat_sub) (simp_all add: word_le_nat_alt)
  have "unat n - 1 < unat (e_group_desc_count s) * ?p" using n t by linarith
  then have "(unat n - 1) div ?p < unat (e_group_desc_count s)" by (rule less_mult_imp_div_less)
  then show "inode_group s n \<in> e2_groups s" by (simp add: e2_groups_def inode_group_def word_less_nat_alt unat_div u)
  show "inode_index s n < e_inodes_per_group s" using p by (simp add: inode_index_def word_less_nat_alt unat_mod)
  have "(unat n - 1) div ?p * ?p + (unat n - 1) mod ?p = unat n - 1" by (rule div_mult_mod_eq)
  then show "unat n = unat (inode_group s n) * ?p + unat (inode_index s n) + 1"
    using n(1) by (simp add: inode_group_def inode_index_def unat_div unat_mod u)
qed

text \<open>The place of inode \<open>k\<close> of a group in bytes; an inode lies in one block, and two inodes do not overlap.\<close>

lemma inode_bytes_place:
  fixes k z :: u32
  assumes "z \<in> {128, 256, 512, 1024}" "unat k < 8192"
  shows "unat (k * z) = unat k * unat z" "unat (k * z mod 1024) + 128 \<le> 1024" "unat (k * z) < 2 ^ 23"
proof -
  have z: "unat z \<in> {128, 256, 512, 1024}" using assms(1) by auto
  have "unat k * unat z \<le> 8191 * 1024" using assms(2) z by (intro mult_le_mono) auto
  then have lt: "unat k * unat z < 2 ^ 23" by simp
  then show u: "unat (k * z) = unat k * unat z" by (subst unat_mult_lem [THEN iffD1]) simp_all
  then show "unat (k * z) < 2 ^ 23" using lt by simp
  have e: "unat (k * z mod 1024) = (unat k * unat z) mod 1024" by (simp add: unat_mod u)
  have "(x * y) mod 1024 + 128 \<le> 1024" if "y \<in> {128, 256, 512, 1024}" for x y :: nat
  proof -
    have "y dvd (x * y) mod 1024" using that by (intro dvd_mod) auto
    then obtain q where "(x * y) mod 1024 = y * q" ..
    moreover have "(x * y) mod 1024 < 1024" by simp
    ultimately show ?thesis using that by auto
  qed
  then show "unat (k * z mod 1024) + 128 \<le> 1024" using z e by simp
qed

lemma place_apart:
  fixes k l z :: nat
  assumes "k * z div 1024 = l * z div 1024" "k \<noteq> l" "128 \<le> z"
  shows "k * z mod 1024 + 128 \<le> l * z mod 1024 \<or> l * z mod 1024 + 128 \<le> k * z mod 1024"
proof -
  have k: "k * z = 1024 * (k * z div 1024) + k * z mod 1024" and l: "l * z = 1024 * (k * z div 1024) + l * z mod 1024"
    using mult_div_mod_eq [of 1024 "k * z"] mult_div_mod_eq [of 1024 "l * z"] assms(1) by simp_all
  show ?thesis
  proof (cases "k < l")
    case True
    then have "(k + 1) * z \<le> l * z" by (intro mult_le_mono1) simp
    then have "k * z + z \<le> l * z" by simp
    then show ?thesis using k l assms(3) by linarith
  next
    case False
    then have "(l + 1) * z \<le> k * z" using assms(2) by (intro mult_le_mono1) simp
    then have "l * z + z \<le> k * z" by simp
    then show ?thesis using k l assms(3) by linarith
  qed
qed

lemma unat_div_1024: "unat (x div 1024 :: u32) = unat x div 1024"
  by (simp add: unat_div)

lemma inode_apart:
  assumes "e2_layout s B" "inode_no s n" "inode_no s m" "n \<noteq> m" "inode_blk s B n = inode_blk s B m"
  shows "inode_off s n + 128 \<le> inode_off s m \<or> inode_off s m + 128 \<le> inode_off s n"
proof -
  note N = inode_group_index [OF assms(1,2)] and M = inode_group_index [OF assms(1,3)]
  have z: "e_inode_size s \<in> {128, 256, 512, 1024}" using assms(1) unfolding e2_layout_def by blast
  have "inode_blk s B n \<in> e2_itab s B (inode_group s n)" "inode_blk s B m \<in> e2_itab s B (inode_group s m)"
    using N(2) M(2) by (auto simp: e2_itab_def inode_blk_def)
  then have g: "inode_group s n = inode_group s m" using e2_layout_disj(7) [OF assms(1) N(1) M(1)] assms(5) by auto
  have kl: "unat (inode_index s n) \<noteq> unat (inode_index s m)" using N(3) M(3) g assms(4) by (auto simp: word_unat_eq_iff)
  have lim: "unat (inode_index s n) < 8192" "unat (inode_index s m) < 8192" using N(2) M(2) e2_layout_nums(4) [OF assms(1)] by (simp_all add: word_less_nat_alt)
  note P = inode_bytes_place [OF z lim(1)] and Q = inode_bytes_place [OF z lim(2)]
  have "inode_index s n * e_inode_size s div 1024 = inode_index s m * e_inode_size s div 1024"
    using assms(5) g by (simp add: inode_blk_def itab_block_def)
  then have "unat (inode_index s n * e_inode_size s) div 1024 = unat (inode_index s m * e_inode_size s) div 1024"
    by (metis unat_div_1024)
  then have d: "unat (inode_index s n) * unat (e_inode_size s) div 1024 = unat (inode_index s m) * unat (e_inode_size s) div 1024"
    by (simp only: P(1) Q(1))
  have "128 \<le> unat (e_inode_size s)" using z by auto
  from place_apart [OF d kl this] show ?thesis by (simp add: inode_off_def unat_mod P(1) Q(1))
qed

lemma slice_poke:
  assumes "off + length bs \<le> length xs" "length bs = n"
  shows "take n (drop off (poke off bs xs)) = bs"
  by (rule nth_equalityI) (use assms in \<open>auto simp: poke_nth\<close>)

lemma slice_poke_other:
  assumes "off + length bs \<le> length xs" "j + n \<le> off \<or> off + length bs \<le> j"
  shows "take n (drop j (poke off bs xs)) = take n (drop j xs)"
  by (rule nth_equalityI) (use assms in \<open>auto simp: poke_nth\<close>)

lemma inode_blk_in:
  assumes "e2_layout s B" "inode_no s n"
  shows "inode_blk s B n < e_total_blocks s" "inode_blk s B n \<in> e2_meta s B" "inode_off s n + 128 \<le> 1024"
    "g \<in> e2_groups s \<Longrightarrow> inode_blk s B n \<noteq> gd_block s g" "g \<in> e2_groups s \<Longrightarrow> inode_blk s B n \<noteq> bbm s B g"
    "g \<in> e2_groups s \<Longrightarrow> inode_blk s B n \<noteq> ibm s B g"
proof -
  note N = inode_group_index [OF assms]
  have it: "inode_blk s B n \<in> e2_itab s B (inode_group s n)" using N(2) by (auto simp: e2_itab_def inode_blk_def)
  then show m: "inode_blk s B n \<in> e2_meta s B" using N(1) by (auto simp: e2_meta_def)
  then show "inode_blk s B n < e_total_blocks s" using assms(1) by (simp add: e2_layout_def)
  show "inode_blk s B n \<noteq> gd_block s g" "inode_blk s B n \<noteq> bbm s B g" "inode_blk s B n \<noteq> ibm s B g" if "g \<in> e2_groups s"
    using it e2_layout_disj(4,5,6) [OF assms(1) N(1) that] by auto
  have "e_inode_size s \<in> {128, 256, 512, 1024}" using assms(1) unfolding e2_layout_def by blast
  moreover have "unat (inode_index s n) < 8192" using N(2) e2_layout_nums(4) [OF assms(1)] by (simp add: word_less_nat_alt)
  ultimately show "inode_off s n + 128 \<le> 1024" unfolding inode_off_def by (rule inode_bytes_place(2))
qed

text \<open>Inodes and layout depend on the metadata only.\<close>

lemma e2_inode_cong:
  assumes "e2_layout s B" "inode_no s n" "\<And>g. g \<in> e2_groups s \<Longrightarrow> C (gd_block s g) = B (gd_block s g)" "C (inode_blk s B n) = B (inode_blk s B n)"
  shows "e2_inode_at s C n = e2_inode_at s B n" "inode_blk s C n = inode_blk s B n"
proof -
  have "e2_gd s C (inode_group s n) = e2_gd s B (inode_group s n)" by (rule e2_gd_cong, rule assms(3), rule inode_group_index(1) [OF assms(1,2)])
  then show b: "inode_blk s C n = inode_blk s B n" by (simp add: inode_blk_def itab_block_def)
  then show "e2_inode_at s C n = e2_inode_at s B n" using assms(4) by (simp add: e2_inode_at_def)
qed

context ext2_disk
begin

lemma inode_lookup:
  assumes "geom s" "e2_layout s (blk s)" "inode_no s n" "1024 \<le> length junk"
  obtains s' where "inode_group_and_offset n s = Some (Some (inode_group s n, inode_index s n))"
    "read_group_desc hw junk (inode_group s n) s = Some (Some (e2_gd s (blk s) (inode_group s n)), s')" "after s (blk s) s'"
    "inode_place (inode_index s n) (e2_gd s (blk s) (inode_group s n)) s' = Some (inode_blk s (blk s) n, inode_off s n)"
proof -
  note N = inode_group_index [OF assms(2,3)]
  have "gd_block s (inode_group s n) < e_total_blocks s" by (rule e2_layoutD(1) [OF assms(2) N(1)])
  from read_group_desc_ok [OF assms(1) this assms(4)] obtain s' where
    s': "read_group_desc hw junk (inode_group s n) s = Some (Some (e2_gd s (blk s) (inode_group s n)), s')" "after s (blk s) s'" .
  have "e_inodes_per_group s \<noteq> 0" using e2_layout_nums(3) [OF assms(2)] by auto
  then have "inode_group_and_offset n s = Some (Some (inode_group s n, inode_index s n))"
    using assms(3) by (auto simp: inode_group_and_offset_def inode_group_def inode_index_def inode_no_def not_le [symmetric])
  moreover have "inode_place (inode_index s n) (e2_gd s (blk s) (inode_group s n)) s' = Some (inode_blk s (blk s) n, inode_off s n)"
    using e2_after_fields [OF s'(2)] geomD(1) [OF assms(1)] by (simp add: inode_place_def inode_blk_def inode_off_def itab_block_def Let_def)
  ultimately show ?thesis using that s' by blast
qed

lemma read_inode_ok:
  assumes "geom s" "e2_layout s (blk s)" "inode_no s n" "1024 \<le> length junk"
  obtains s' where "read_inode hw junk n s = Some (Some (e2_inode_at s (blk s) n), s')" "after s (blk s) s'"
proof -
  obtain s1 where L: "inode_group_and_offset n s = Some (Some (inode_group s n, inode_index s n))"
    "read_group_desc hw junk (inode_group s n) s = Some (Some (e2_gd s (blk s) (inode_group s n)), s1)" "after s (blk s) s1"
    "inode_place (inode_index s n) (e2_gd s (blk s) (inode_group s n)) s1 = Some (inode_blk s (blk s) n, inode_off s n)"
    by (rule inode_lookup [OF assms])
  note I = inode_blk_in(1,3) [OF assms(2,3)]
  note geom1 = e2_after_geom [OF assms(1) L(3)]
  have "inode_blk s (blk s) n < e_total_blocks s1" "1024 \<le> length (take 1024 junk)" using I(1) e2_after_fields(3) [OF L(3)] assms(4) by simp_all
  from read_block_ok [OF geom1 this] obtain s2 where
    s2: "read_block hw (inode_blk s (blk s) n) (take 1024 junk) s1 = (True, blk s (inode_blk s (blk s) n), s2)" "after s1 (blk s) s2"
    using e2_after_blk [OF L(3)] by auto
  note a2 = e2_after_trans [OF L(3) s2(2)]
  have "unat (e_block_size s2) = 1024" using e2_after_fields(1) [OF a2] geomD(1) [OF assms(1)] by simp
  then have "\<not> inode_off s n + 128 > unat (e_block_size s2)" using I(2) by linarith
  then have "read_inode hw junk n s = Some (Some (e2_inode_at s (blk s) n), s2)"
    using L s2(1) by (simp add: read_inode_def e2_inode_at_def)
  then show ?thesis using that a2 by blast
qed

lemma write_inode_ok:
  assumes "geom s" "e2_layout s (blk s)" "inode_no s n" "1024 \<le> length junk" "inode_wf ino"
  obtains s' C where "write_inode hw junk n ino s = Some (True, s')" "after s C s'" "e2_layout s C" "e2_meta s C = e2_meta s (blk s)"
    "\<And>m. m \<noteq> inode_blk s (blk s) n \<Longrightarrow> C m = blk s m" "e2_inode_at s C n = ino" "\<And>m. inode_no s m \<Longrightarrow> m \<noteq> n \<Longrightarrow> e2_inode_at s C m = e2_inode_at s (blk s) m"
    "\<And>m. m < e_total_blocks s \<Longrightarrow> blk_used s C m \<longleftrightarrow> blk_used s (blk s) m" "\<And>g. g \<in> e2_groups s \<Longrightarrow> e2_gd s C g = e2_gd s (blk s) g"
proof -
  let ?b = "inode_blk s (blk s) n" and ?o = "inode_off s n"
  obtain s1 where L: "inode_group_and_offset n s = Some (Some (inode_group s n, inode_index s n))"
    "read_group_desc hw junk (inode_group s n) s = Some (Some (e2_gd s (blk s) (inode_group s n)), s1)" "after s (blk s) s1"
    "inode_place (inode_index s n) (e2_gd s (blk s) (inode_group s n)) s1 = Some (?b, ?o)"
    by (rule inode_lookup [OF assms(1-4)])
  note I = inode_blk_in [OF assms(2,3)]
  note geom1 = e2_after_geom [OF assms(1) L(3)]
  have b1: "?b < e_total_blocks s1" using I(1) e2_after_fields(3) [OF L(3)] by simp
  from read_block_ok [OF geom1 b1 assms(4)] obtain s2 where
    s2: "read_block hw ?b junk s1 = (True, blk s ?b @ drop 1024 junk, s2)" "after s1 (blk s) s2" using e2_after_blk [OF L(3)] by auto
  note a2 = e2_after_trans [OF L(3) s2(2)]
  have len: "length (blk s ?b) = 1024" by (rule length_blk [OF assms(1) I(1)])
  let ?raw = "poke ?o (inode_bytes ino) (blk s ?b @ drop 1024 junk)"
  have ib: "length (inode_bytes ino) = 128" by (rule length_inode_bytes [OF assms(5)])
  have "?b < e_total_blocks s2" "1024 \<le> length ?raw" using I(1) e2_after_fields(3) [OF a2] len by simp_all
  from write_block_ok [OF e2_after_geom [OF assms(1) a2] this] obtain s' where
    s': "write_block hw ?b ?raw s2 = (True, s')" "after s2 ((blk s)(?b := take 1024 ?raw)) s'" using e2_after_blk [OF a2] by auto
  have raw: "take 1024 ?raw = poke ?o (inode_bytes ino) (blk s ?b)"
    by (rule nth_equalityI) (use len I(3) ib in \<open>auto simp: poke_nth nth_append\<close>)
  define C where "C = (blk s)(?b := poke ?o (inode_bytes ino) (blk s ?b))"
  have a: "after s C s'" using e2_after_trans [OF a2 s'(2)] raw by (simp add: C_def)
  have "\<not> e_block_size s1 > 4096" using e2_after_fields(1) [OF L(3)] geomD(1) [OF assms(1)] by simp
  then have w: "write_inode hw junk n ino s = Some (True, s')" using L s2(1) s'(1) by (simp add: write_inode_def)
  have other: "C m = blk s m" if "m \<noteq> ?b" for m using that by (simp add: C_def)
  have gd: "C (gd_block s g) = blk s (gd_block s g)" if "g \<in> e2_groups s" for g using I(4) [OF that] by (simp add: C_def)
  have bm: "C (bbm s (blk s) g) = blk s (bbm s (blk s) g)" if "g \<in> e2_groups s" for g using I(5) [OF that] by (simp add: C_def)
  have used: "blk_used s C m \<longleftrightarrow> blk_used s (blk s) m" if "m < e_total_blocks s" for m
  proof (cases "m < sb_first_data_block (e_sb s)")
    case False
    show ?thesis using e2_used_cong [of s C "blk s" gd_block_bitmap] gd bm group_of_index(1) [OF blk_used_index(1) [OF assms(2) that False]]
      by (simp add: blk_used_def)
  qed (simp add: blk_used_def)
  have meta: "blk_used s C m" if "m \<in> e2_meta s (blk s)" for m using assms(2) that used [of m] by (simp add: e2_layout_def)
  note K = e2_layout_cong [OF assms(2) gd meta]
  have bn: "inode_blk s C m = inode_blk s (blk s) m" if "inode_no s m" for m
    using K(3) inode_group_index(1) [OF assms(2) that] by (simp add: inode_blk_def itab_block_def)
  have here: "e2_inode_at s C n = ino"
    using bn [OF assms(3)] slice_poke [of ?o "inode_bytes ino" "blk s ?b" 128] len I(3) ib inode_roundtrip [OF assms(5)]
    by (simp add: e2_inode_at_def C_def)
  have there: "e2_inode_at s C m = e2_inode_at s (blk s) m" if "inode_no s m" "m \<noteq> n" for m
  proof (cases "inode_blk s (blk s) m = ?b")
    case True
    have "inode_off s m + 128 \<le> ?o \<or> ?o + length (inode_bytes ino) \<le> inode_off s m" using inode_apart [OF assms(2) that(1) assms(3) that(2) True] ib by linarith
    then show ?thesis using bn [OF that(1)] True slice_poke_other [of ?o "inode_bytes ino" "blk s ?b" "inode_off s m" 128] len I(3) ib
      by (simp add: e2_inode_at_def C_def)
  next
    case False
    then show ?thesis using bn [OF that(1)] by (simp add: e2_inode_at_def C_def)
  qed
  show ?thesis by (rule that [OF w a K(1,2) other here there used K(3)])
qed

end

end
