(* ===== verification/Ext2Files.thy ===== *)
theory Ext2Files
  imports Ext2Inode
begin

text \<open>
  The contents of files: which block holds a byte, how blocks are added to a file, and that the bytes written to a file are read back.
\<close>

section \<open>What depends on the disk\<close>

text \<open>The notions of the previous theories depend on the numbers of the mounted state only, not on the handles or the disk.\<close>

definition same_numbers :: "'h ext2 \<Rightarrow> 'h ext2 \<Rightarrow> bool" where
  "same_numbers s t \<longleftrightarrow> t = s\<lparr>e_handles := e_handles t, e_dev := e_dev t\<rparr>"

lemma same_numbersD:
  assumes "same_numbers s t"
  shows "e_block_size t = e_block_size s" "e_sectors_per_block t = e_sectors_per_block s" "e_total_blocks t = e_total_blocks s"
    "e_total_inodes t = e_total_inodes s" "e_inodes_per_group t = e_inodes_per_group s" "e_blocks_per_group t = e_blocks_per_group s"
    "e_inode_size t = e_inode_size s" "e_group_desc_block t = e_group_desc_block s" "e_group_desc_count t = e_group_desc_count s"
    "e_sb t = e_sb s" "e_partition_lba t = e_partition_lba s"
proof -
  have t: "t = s\<lparr>e_handles := e_handles t, e_dev := e_dev t\<rparr>" using assms by (simp only: same_numbers_def)
  show "e_block_size t = e_block_size s" "e_sectors_per_block t = e_sectors_per_block s" "e_total_blocks t = e_total_blocks s"
    "e_total_inodes t = e_total_inodes s" "e_inodes_per_group t = e_inodes_per_group s" "e_blocks_per_group t = e_blocks_per_group s"
    "e_inode_size t = e_inode_size s" "e_group_desc_block t = e_group_desc_block s" "e_group_desc_count t = e_group_desc_count s"
    "e_sb t = e_sb s" "e_partition_lba t = e_partition_lba s" by (subst t, simp)+
qed

lemma same_numbers_after: "e2_after content ok s B t \<Longrightarrow> same_numbers s t"
  unfolding e2_after_def same_numbers_def by (metis ext2.surjective ext2.update_convs(16,17))

lemma same_numbers_trans:
  assumes "same_numbers s t" "same_numbers t u"
  shows "same_numbers s u"
proof -
  have t: "t = s\<lparr>e_handles := e_handles t, e_dev := e_dev t\<rparr>" and u: "u = t\<lparr>e_handles := e_handles u, e_dev := e_dev u\<rparr>"
    using assms by (simp_all only: same_numbers_def)
  have "t\<lparr>e_handles := e_handles u, e_dev := e_dev u\<rparr> = s\<lparr>e_handles := e_handles u, e_dev := e_dev u\<rparr>" by (subst t) simp
  then show ?thesis using u by (simp only: same_numbers_def)
qed

lemma same_numbers_eh: "same_numbers s (upd_eh h f s)"
  by (simp add: same_numbers_def upd_eh_def)

lemma same_numbers_frame:
  assumes "same_numbers s t"
  shows "gd_block t = gd_block s" "e2_gd t = e2_gd s" "e2_groups t = e2_groups s" "itab_block t = itab_block s" "e2_itab t = e2_itab s" "e2_meta t = e2_meta s"
    "blk_used t = blk_used s" "e2_layout t = e2_layout s" "inode_group t = inode_group s" "inode_index t = inode_index s" "inode_blk t = inode_blk s"
    "inode_off t = inode_off s" "e2_inode_at t = e2_inode_at s" "inode_no t = inode_no s"
proof -
  note D = same_numbersD [OF assms]
  show a: "gd_block t = gd_block s" "e2_groups t = e2_groups s" by (auto simp: gd_block_def e2_groups_def D fun_eq_iff)
  then show b: "e2_gd t = e2_gd s" by (simp add: e2_gd_def fun_eq_iff)
  then show c: "itab_block t = itab_block s" by (simp add: itab_block_def D fun_eq_iff)
  then show d: "e2_itab t = e2_itab s" by (simp add: e2_itab_def D fun_eq_iff)
  show e: "e2_meta t = e2_meta s" by (simp add: e2_meta_def a b d fun_eq_iff)
  show f: "blk_used t = blk_used s" by (simp add: blk_used_def e2_used_def D b fun_eq_iff)
  show "e2_layout t = e2_layout s" by (simp add: e2_layout_def D a b d e f fun_eq_iff)
  show g: "inode_group t = inode_group s" "inode_index t = inode_index s" by (simp_all add: inode_group_def inode_index_def D fun_eq_iff)
  show h: "inode_blk t = inode_blk s" by (simp add: inode_blk_def g c fun_eq_iff)
  show i: "inode_off t = inode_off s" by (simp add: inode_off_def g D fun_eq_iff)
  show "e2_inode_at t = e2_inode_at s" by (simp add: e2_inode_at_def h i fun_eq_iff)
  show "inode_no t = inode_no s" by (simp add: inode_no_def D fun_eq_iff)
qed

section \<open>The blocks of a file\<close>

abbreviation FILE_BLOCKS :: nat where "FILE_BLOCKS \<equiv> 268"

definition file_ptr :: "(u32 \<Rightarrow> u8 list) \<Rightarrow> e2_inode \<Rightarrow> nat \<Rightarrow> u32" where
  "file_ptr B ino k = (if k < 12 then i_block ino ! k else if i_block ino ! 12 = 0 then 0 else read_le32 (B (i_block ino ! 12)) ((k - 12) * 4))"

definition file_byte :: "(u32 \<Rightarrow> u8 list) \<Rightarrow> e2_inode \<Rightarrow> nat \<Rightarrow> u8" where
  "file_byte B ino x = B (file_ptr B ino (x div 1024)) ! (x mod 1024)"

text \<open>A block that may belong to a file.\<close>

definition data_block :: "'h ext2 \<Rightarrow> (u32 \<Rightarrow> u8 list) \<Rightarrow> u32 \<Rightarrow> bool" where
  "data_block s B n \<longleftrightarrow> 0 < n \<and> n < e_total_blocks s \<and> \<not> n < sb_first_data_block (e_sb s) \<and> blk_used s B n \<and> n \<notin> e2_meta s B"

definition file_wf :: "'h ext2 \<Rightarrow> (u32 \<Rightarrow> u8 list) \<Rightarrow> e2_inode \<Rightarrow> bool" where
  "file_wf s B ino \<longleftrightarrow> inode_wf ino \<and> (\<forall>k < FILE_BLOCKS. file_ptr B ino k \<noteq> 0 \<longrightarrow> data_block s B (file_ptr B ino k)) \<and>
     (i_block ino ! 12 \<noteq> 0 \<longrightarrow> data_block s B (i_block ino ! 12)) \<and>
     (\<forall>k < FILE_BLOCKS. \<forall>l < FILE_BLOCKS. file_ptr B ino k \<noteq> 0 \<longrightarrow> file_ptr B ino k = file_ptr B ino l \<longrightarrow> k = l) \<and>
     (\<forall>k < FILE_BLOCKS. file_ptr B ino k \<noteq> 0 \<longrightarrow> file_ptr B ino k \<noteq> i_block ino ! 12)"

lemma same_numbers_file:
  assumes "same_numbers s t"
  shows "data_block t = data_block s" "file_wf t = file_wf s"
proof -
  show "data_block t = data_block s" by (simp add: data_block_def same_numbersD [OF assms] same_numbers_frame [OF assms] fun_eq_iff)
  then show "file_wf t = file_wf s" by (simp add: file_wf_def fun_eq_iff)
qed

lemma file_ptr_cong:
  assumes "i_block ino ! 12 \<noteq> 0 \<Longrightarrow> C (i_block ino ! 12) = B (i_block ino ! 12)"
  shows "file_ptr C ino k = file_ptr B ino k"
  using assms by (simp add: file_ptr_def)

lemma data_block_small:
  assumes "e2_layout s B" "data_block s B n"
  shows "sint n = int (unat n)" "unat n < 2 ^ 31" "0 < int (unat n)" "word_of_int (int (unat n)) = n"
proof -
  have "unat n < unat (e_total_blocks s)" using assms(2) by (simp add: data_block_def word_less_nat_alt)
  moreover have "unat (e_total_blocks s) < 2 ^ 31" using assms(1) unfolding e2_layout_def by linarith
  ultimately show u: "unat n < 2 ^ 31" by linarith
  then show "sint n = int (unat n)" by (intro sint_small) simp
  have "0 < unat n" using assms(2) by (simp add: data_block_def word_less_nat_alt)
  then show "0 < int (unat n)" by (simp only: of_nat_0_less_iff)
  show "word_of_int (int (unat n)) = n" by simp
qed

lemma read_le32_prefix: "k + 4 \<le> length xs \<Longrightarrow> read_le32 (xs @ ys) k = read_le32 xs k"
  by (simp add: read_le32_def nth_append)

lemma unat_minus_12: "\<not> k < (12 :: u32) \<Longrightarrow> unat (k - 12) = unat k - 12"
  by (subst unat_sub) (simp_all add: word_le_nat_alt word_less_nat_alt)

context ext2_disk
begin

text \<open>Looking up the block of a file.\<close>

lemma get_block_lookup:
  assumes "geom s" "e2_layout s (blk s)" "file_wf s (blk s) ino" "unat k < FILE_BLOCKS" "1024 \<le> length junk" "\<not> create \<or> file_ptr (blk s) ino (unat k) \<noteq> 0"
  obtains s' where "inode_get_block hw junk ino k create s = Some ((int (unat (file_ptr (blk s) ino (unat k))), ino), s')" "after s (blk s) s'"
proof -
  let ?p = "file_ptr (blk s) ino (unat k)"
  have small: "sint ?p = int (unat ?p)" if "?p \<noteq> 0" using data_block_small(1) [OF assms(2)] assms(3,4) that by (simp add: file_wf_def)
  then have sp: "sint ?p = int (unat ?p)" by (cases "?p = 0") simp_all
  have refl: "after s (blk s) s" by (rule e2_after_refl [OF assms(1)])
  show ?thesis
  proof (cases "k < 12")
    case True
    then have k: "unat k < 12" by (simp add: word_less_nat_alt)
    then have p: "?p = i_block ino ! unat k" by (simp add: file_ptr_def)
    have "inode_get_block hw junk ino k create s = Some ((sint ?p, ino), s)" using True p assms(6) by (auto simp: inode_get_block_def)
    then show ?thesis using sp refl by (intro that) simp_all
  next
    case False
    have ik: "unat (k - 12) = unat k - 12" "\<not> unat k < 12" using False by (simp_all add: unat_minus_12 word_less_nat_alt)
    have "inode_ptrs_per_block s = 256" using geomD(1) [OF assms(1)] by (simp add: inode_ptrs_per_block_def)
    then have lim: "\<not> inode_ptrs_per_block s \<le> k - 12" using assms(4) ik by (simp add: word_le_nat_alt)
    show ?thesis
    proof (cases "i_block ino ! 12 = 0")
      case True
      then have "?p = 0" using ik(2) by (simp add: file_ptr_def)
      then have "inode_get_block hw junk ino k create s = Some ((0, ino), s)" using False True lim assms(6) by (simp add: inode_get_block_def get_indirect_def Let_def)
      then show ?thesis using \<open>?p = 0\<close> refl by (intro that) simp_all
    next
      case nz: False
      then have "i_block ino ! 12 < e_total_blocks s" using assms(3) by (simp add: file_wf_def data_block_def)
      from read_block_ok [OF assms(1) this assms(5)] obtain s' where
        s': "read_block hw (i_block ino ! 12) junk s = (True, blk s (i_block ino ! 12) @ drop 1024 junk, s')" "after s (blk s) s'" .
      have "length (blk s (i_block ino ! 12)) = 1024" using length_blk [OF assms(1)] \<open>i_block ino ! 12 < e_total_blocks s\<close> by blast
      then have r: "read_le32 (blk s (i_block ino ! 12) @ drop 1024 junk) (unat (k - 12) * 4) = ?p"
        using nz ik assms(4) read_le32_prefix [of "unat (k - 12) * 4" "blk s (i_block ino ! 12)"] by (simp add: file_ptr_def)
      then have "inode_get_block hw junk ino k create s = Some ((sint ?p, ino), s')"
        using False lim nz s'(1) assms(6) by (auto simp: inode_get_block_def get_indirect_def Let_def)
      then show ?thesis using sp s'(2) by (intro that) simp_all
    qed
  qed
qed

end

section \<open>Adding blocks\<close>

text \<open>
  A file with more blocks: nothing that was used becomes free, and no used block changes except the bitmaps and the indirect block of the file. The indirect block
  is the old one or one that was free.
\<close>

definition file_grow :: "'h ext2 \<Rightarrow> (u32 \<Rightarrow> u8 list) \<Rightarrow> e2_inode \<Rightarrow> (u32 \<Rightarrow> u8 list) \<Rightarrow> e2_inode \<Rightarrow> bool" where
  "file_grow s B ino C ino' \<longleftrightarrow> e2_layout s C \<and> e2_meta s C = e2_meta s B \<and> file_wf s C ino' \<and> ino' = ino\<lparr>i_block := i_block ino'\<rparr> \<and>
     (\<forall>g \<in> e2_groups s. e2_gd s C g = e2_gd s B g) \<and> (\<forall>m < e_total_blocks s. blk_used s B m \<longrightarrow> blk_used s C m) \<and>
     (\<forall>m < e_total_blocks s. blk_used s B m \<longrightarrow> m \<notin> bbm s B ` e2_groups s \<longrightarrow> i_block ino ! 12 = 0 \<or> m \<noteq> i_block ino ! 12 \<longrightarrow> C m = B m) \<and>
     (i_block ino' ! 12 = i_block ino ! 12 \<or> i_block ino ! 12 = 0 \<and> \<not> blk_used s B (i_block ino' ! 12))"

lemma file_grow_refl: "e2_layout s B \<Longrightarrow> file_wf s B ino \<Longrightarrow> file_grow s B ino B ino"
  by (simp add: file_grow_def)

lemma file_growD:
  assumes "file_grow s B ino C ino'"
  shows "e2_layout s C" "e2_meta s C = e2_meta s B" "file_wf s C ino'" "ino' = ino\<lparr>i_block := i_block ino'\<rparr>" "g \<in> e2_groups s \<Longrightarrow> e2_gd s C g = e2_gd s B g"
    "m < e_total_blocks s \<Longrightarrow> blk_used s B m \<Longrightarrow> blk_used s C m"
    "m < e_total_blocks s \<Longrightarrow> blk_used s B m \<Longrightarrow> m \<notin> bbm s B ` e2_groups s \<Longrightarrow> i_block ino ! 12 = 0 \<or> m \<noteq> i_block ino ! 12 \<Longrightarrow> C m = B m"
    "i_block ino' ! 12 = i_block ino ! 12 \<or> i_block ino ! 12 = 0 \<and> \<not> blk_used s B (i_block ino' ! 12)"
    "bbm s C ` e2_groups s = bbm s B ` e2_groups s"
proof -
  show gd: "e2_gd s C g = e2_gd s B g" if "g \<in> e2_groups s" for g using assms that unfolding file_grow_def by blast
  then show "bbm s C ` e2_groups s = bbm s B ` e2_groups s" by auto
  show "e2_layout s C" "e2_meta s C = e2_meta s B" "file_wf s C ino'" "ino' = ino\<lparr>i_block := i_block ino'\<rparr>"
    "m < e_total_blocks s \<Longrightarrow> blk_used s B m \<Longrightarrow> blk_used s C m"
    "m < e_total_blocks s \<Longrightarrow> blk_used s B m \<Longrightarrow> m \<notin> bbm s B ` e2_groups s \<Longrightarrow> i_block ino ! 12 = 0 \<or> m \<noteq> i_block ino ! 12 \<Longrightarrow> C m = B m"
    "i_block ino' ! 12 = i_block ino ! 12 \<or> i_block ino ! 12 = 0 \<and> \<not> blk_used s B (i_block ino' ! 12)"
    using assms unfolding file_grow_def by blast+
qed

lemma file_grow_trans:
  assumes "file_grow s B ino C ino'" "file_grow s C ino' D ino''"
  shows "file_grow s B ino D ino''"
proof -
  note P = file_growD [OF assms(1)] and Q = file_growD [OF assms(2)]
  have "D m = B m" if m: "m < e_total_blocks s" "blk_used s B m" "m \<notin> bbm s B ` e2_groups s" "i_block ino ! 12 = 0 \<or> m \<noteq> i_block ino ! 12" for m
  proof -
    have "i_block ino' ! 12 = 0 \<or> m \<noteq> i_block ino' ! 12" using P(8) m(2,4) by auto
    then have "D m = C m" using Q(7) [OF m(1) P(6) [OF m(1,2)]] m(3) P(9) by simp
    then show ?thesis using P(7) [OF m] by simp
  qed
  moreover have "i_block ino'' ! 12 = i_block ino ! 12 \<or> i_block ino ! 12 = 0 \<and> \<not> blk_used s B (i_block ino'' ! 12)"
  proof (cases "i_block ino'' ! 12 < e_total_blocks s")
    case True
    then show ?thesis using P(8) Q(8) P(6) [OF True] by auto
  next
    case False
    then have "i_block ino'' ! 12 = 0" using Q(3) by (auto simp: file_wf_def data_block_def)
    then show ?thesis using Q(8) P(8) Q(1) False by (auto simp: blk_used_def e2_layout_def)
  qed
  moreover have "ino'' = ino\<lparr>i_block := i_block ino''\<rparr>" using P(4) Q(4) by (metis e2_inode.surjective e2_inode.update_convs(13))
  ultimately show ?thesis using P Q unfolding file_grow_def by auto
qed

text \<open>Blocks of files stay blocks of files, and inodes stay.\<close>

lemma file_grow_data:
  assumes "e2_layout s B" "file_grow s B ino C ino'" "data_block s B m"
  shows "data_block s C m" "i_block ino ! 12 = 0 \<or> m \<noteq> i_block ino ! 12 \<Longrightarrow> C m = B m"
proof -
  note P = file_growD [OF assms(2)]
  show "data_block s C m" using assms(3) P(2,6) by (simp add: data_block_def)
  have "m \<notin> bbm s B ` e2_groups s" using assms(3) by (auto simp: data_block_def e2_meta_def)
  then show "C m = B m" if "i_block ino ! 12 = 0 \<or> m \<noteq> i_block ino ! 12" using P(7) [OF _ _ _ that] assms(3) by (simp add: data_block_def)
qed

lemma file_grow_inode:
  assumes "e2_layout s B" "file_wf s B ino" "file_grow s B ino C ino'" "inode_no s n"
  shows "e2_inode_at s C n = e2_inode_at s B n" "inode_blk s C n = inode_blk s B n"
proof -
  note P = file_growD [OF assms(3)] and I = inode_blk_in [OF assms(1,4)]
  have meta: "m < e_total_blocks s" "blk_used s B m" "i_block ino ! 12 = 0 \<or> m \<noteq> i_block ino ! 12" if "m \<in> e2_meta s B" for m
    using assms(1,2) that by (auto simp: e2_layout_def file_wf_def data_block_def)
  have gd: "C (gd_block s g) = B (gd_block s g)" if "g \<in> e2_groups s" for g
  proof -
    have "gd_block s g \<in> e2_meta s B" using that by (simp add: e2_meta_def)
    then show ?thesis using P(7) meta e2_layout_disj(1) [OF assms(1) _ that] by (metis imageE)
  qed
  have "C (inode_blk s B n) = B (inode_blk s B n)" using P(7) meta [OF I(2)] I(5) by (metis imageE)
  from e2_inode_cong [OF assms(1,4) gd this] show "e2_inode_at s C n = e2_inode_at s B n" "inode_blk s C n = inode_blk s B n" by simp_all
qed

text \<open>A block that was free and is now marked.\<close>

lemma new_block:
  assumes "e2_layout s B" "file_wf s B ino" "n < e_total_blocks s" "0 < n" "\<not> blk_used s B n" "e2_layout s C" "e2_meta s C = e2_meta s B"
    "\<And>m. m < e_total_blocks s \<Longrightarrow> blk_used s C m \<longleftrightarrow> m = n \<or> blk_used s B m" "\<And>m. m \<notin> bbm s B ` e2_groups s \<Longrightarrow> C m = B m"
    "\<And>g. g \<in> e2_groups s \<Longrightarrow> e2_gd s C g = e2_gd s B g"
  shows "file_grow s B ino C ino" "data_block s C n" "file_ptr C ino k = file_ptr B ino k" "k < FILE_BLOCKS \<Longrightarrow> file_ptr B ino k \<noteq> n" "i_block ino ! 12 \<noteq> n"
proof -
  have data: "data_block s C m" "C m = B m" "m \<noteq> n" if "data_block s B m" for m
    using that assms(5,7,8) assms(9) [of m] by (auto simp: data_block_def e2_meta_def)
  show p: "file_ptr C ino k = file_ptr B ino k" for k
    by (rule file_ptr_cong) (use assms(2) data(2) in \<open>auto simp: file_wf_def\<close>)
  have wf: "file_wf s C ino" using assms(2) data(1) by (auto simp: file_wf_def p)
  show "file_grow s B ino C ino" using wf assms(6-10) by (auto simp: file_grow_def)
  have "n \<notin> e2_meta s B" using assms(1,5) by (auto simp: e2_layout_def)
  then show "data_block s C n" using assms(3,4,5,7,8) by (auto simp: data_block_def blk_used_def)
  show "file_ptr B ino k \<noteq> n" if "k < FILE_BLOCKS" using assms(2,4,5) that by (auto simp: file_wf_def data_block_def)
  show "i_block ino ! 12 \<noteq> n" using assms(2,4,5) by (auto simp: file_wf_def data_block_def)
qed

text \<open>Overwriting a block that is not metadata.\<close>

lemma data_write:
  assumes "e2_layout s C" "data_block s C n"
  shows "e2_layout s (C(n := x))" "e2_meta s (C(n := x)) = e2_meta s C" "g \<in> e2_groups s \<Longrightarrow> e2_gd s (C(n := x)) g = e2_gd s C g"
    "m < e_total_blocks s \<Longrightarrow> blk_used s (C(n := x)) m \<longleftrightarrow> blk_used s C m" "data_block s (C(n := x)) m \<longleftrightarrow> data_block s C m"
    "inode_no s j \<Longrightarrow> e2_inode_at s (C(n := x)) j = e2_inode_at s C j"
proof -
  let ?D = "C(n := x)"
  have n: "n \<notin> e2_meta s C" using assms(2) by (simp add: data_block_def)
  then have gd: "?D (gd_block s g) = C (gd_block s g)" and bm: "?D (bbm s C g) = C (bbm s C g)" if "g \<in> e2_groups s" for g
    using that by (auto simp: e2_meta_def)
  show used: "blk_used s ?D m \<longleftrightarrow> blk_used s C m" if "m < e_total_blocks s" for m
  proof (cases "m < sb_first_data_block (e_sb s)")
    case False
    show ?thesis using e2_used_cong [of s ?D C gd_block_bitmap] gd bm group_of_index(1) [OF blk_used_index(1) [OF assms(1) that False]]
      by (simp add: blk_used_def)
  qed (simp add: blk_used_def)
  have "blk_used s ?D m" if "m \<in> e2_meta s C" for m using assms(1) that used [of m] by (simp add: e2_layout_def)
  note K = e2_layout_cong [OF assms(1) gd this]
  show "e2_layout s ?D" "e2_meta s ?D = e2_meta s C" "g \<in> e2_groups s \<Longrightarrow> e2_gd s ?D g = e2_gd s C g" using K by blast+
  then show "data_block s ?D m \<longleftrightarrow> data_block s C m" using used [of m] by (auto simp: data_block_def)
  show "e2_inode_at s ?D j = e2_inode_at s C j" if "inode_no s j"
    by (rule e2_inode_cong(1) [OF assms(1) that gd]) (use inode_blk_in(2) [OF assms(1) that] n in auto)
qed

text \<open>A file with one more pointer.\<close>

lemma file_wf_add:
  assumes "file_wf s C ino" "inode_wf ino'" "i_block ino' ! 12 = i_block ino ! 12" "data_block s C n" "i_block ino ! 12 \<noteq> n"
    "\<And>m. data_block s C m \<Longrightarrow> data_block s D m" "\<And>j. j < FILE_BLOCKS \<Longrightarrow> file_ptr D ino' j = (if j = k then n else file_ptr C ino j)"
    "\<And>j. j < FILE_BLOCKS \<Longrightarrow> file_ptr C ino j \<noteq> n"
  shows "file_wf s D ino'"
  using assms unfolding file_wf_def by (simp add: data_block_def) (metis (no_types, lifting))

lemma read_le32_zero: "k + 4 \<le> n \<Longrightarrow> read_le32 (replicate n 0) k = 0"
  by (simp add: read_le32_def)

lemma inode_wf_set: "inode_wf ino \<Longrightarrow> inode_wf (set_block k b ino)"
  by (simp add: inode_wf_def set_block_def)

lemma set_block_nth: "inode_wf ino \<Longrightarrow> k < 15 \<Longrightarrow> i_block (set_block k b ino) ! j = (if j = k then b else i_block ino ! j)"
  by (simp add: inode_wf_def set_block_def nth_list_update)

lemma set_block_same: "set_block k b ino = ino\<lparr>i_block := i_block (set_block k b ino)\<rparr>"
  by (simp add: set_block_def)

text \<open>A fresh indirect block, cleared.\<close>

lemma fresh_indirect:
  assumes "file_wf s B ino" "e2_layout s B" "i_block ino ! 12 = 0" "file_grow s B ino C ino" "data_block s C n" "\<not> blk_used s B n" "\<And>k. k < FILE_BLOCKS \<Longrightarrow> file_ptr B ino k \<noteq> n"
  defines "D \<equiv> C(n := replicate 1024 0)" and "ino1 \<equiv> set_block 12 n ino"
  shows "file_grow s B ino D ino1" "i_block ino1 ! 12 \<noteq> 0" "j < FILE_BLOCKS \<Longrightarrow> file_ptr D ino1 j = file_ptr B ino j"
proof -
  note G = file_growD [OF assms(4)] and W = data_write [where x = "replicate 1024 0", OF file_growD(1) [OF assms(4)] assms(5), folded D_def]
  have iw: "inode_wf ino" using assms(1) by (simp add: file_wf_def)
  have i12: "i_block ino1 ! 12 = n" using set_block_nth [OF iw, of 12 n 12] by (simp add: ino1_def)
  have n0: "n \<noteq> 0" using assms(5) by (auto simp: data_block_def)
  then show "i_block ino1 ! 12 \<noteq> 0" using i12 by simp
  show ptr: "file_ptr D ino1 j = file_ptr B ino j" if "j < FILE_BLOCKS" for j
  proof (cases "j < 12")
    case True
    then show ?thesis using set_block_nth [OF iw, of 12 n j] by (simp add: file_ptr_def ino1_def)
  next
    case False
    have "(j - 12) * 4 + 4 \<le> 1024" using that by simp
    then show ?thesis using False i12 n0 assms(3) read_le32_zero [of "(j - 12) * 4" 1024] by (simp add: file_ptr_def D_def)
  qed
  have data: "data_block s D m" if "data_block s B m" for m using file_grow_data(1) [OF assms(2,4) that] W(5) [of m] by simp
  have "inode_wf ino1" unfolding ino1_def by (rule inode_wf_set [OF iw])
  moreover have "data_block s D n" using W(5) [of n] assms(5) by simp
  ultimately have wf: "file_wf s D ino1"
    unfolding file_wf_def i12 using assms(1,7) data by (simp add: ptr file_wf_def)
  have "D m = B m" if "m < e_total_blocks s" "blk_used s B m" "m \<notin> bbm s B ` e2_groups s" for m
    using G(7) [OF that] assms(3,6) that by (auto simp: D_def)
  moreover have "\<forall>m < e_total_blocks s. blk_used s B m \<longrightarrow> blk_used s D m" using G(6) W(4) by simp
  moreover have "\<forall>g \<in> e2_groups s. e2_gd s D g = e2_gd s B g" using G(5) W(3) by simp
  ultimately show "file_grow s B ino D ino1"
    using W(1,2) G(2) wf assms(3,6) i12 set_block_same [of 12 n ino] by (simp add: file_grow_def ino1_def)
qed

context ext2_disk
begin

lemma alloc_file_block:
  assumes "geom s" "e2_layout s (blk s)" "file_wf s (blk s) ino" "1024 \<le> length junk"
  obtains s' where "alloc_block hw junk s = Some (-1, s')" "after s (blk s) s'" "\<And>n. n < e_total_blocks s \<Longrightarrow> blk_used s (blk s) n"
  | n s' C where "alloc_block hw junk s = Some (int (unat n), s')" "after s C s'" "file_grow s (blk s) ino C ino" "data_block s C n" "\<not> blk_used s (blk s) n"
      "\<And>k. file_ptr C ino k = file_ptr (blk s) ino k" "\<And>k. k < FILE_BLOCKS \<Longrightarrow> file_ptr (blk s) ino k \<noteq> n" "i_block ino ! 12 \<noteq> n" "0 < int (unat n)" "\<And>m. m \<notin> bbm s (blk s) ` e2_groups s \<Longrightarrow> C m = blk s m"
proof (rule alloc_block_ok [OF assms(1,2,4)])
  fix s' assume "alloc_block hw junk s = Some (- 1, s')" "after s (blk s) s'" "\<And>n. n < e_total_blocks s \<Longrightarrow> blk_used s (blk s) n"
  then show thesis by (rule that(1))
next
  fix n s' C
  assume A: "alloc_block hw junk s = Some (int (unat n), s')" "0 < n" "n < e_total_blocks s" "unat n < 2 ^ 31" "\<not> blk_used s (blk s) n"
    "\<And>m. m < n \<Longrightarrow> blk_used s (blk s) m" "after s C s'" "e2_layout s C" "e2_meta s C = e2_meta s (blk s)"
    "\<And>m. m < e_total_blocks s \<Longrightarrow> blk_used s C m \<longleftrightarrow> m = n \<or> blk_used s (blk s) m" "\<And>m. m \<notin> bbm s (blk s) ` e2_groups s \<Longrightarrow> C m = blk s m"
    "\<And>g. g \<in> e2_groups s \<Longrightarrow> e2_gd s C g = e2_gd s (blk s) g"
  note N = new_block [OF assms(2,3) A(3,2,5) A(8-12)]
  show thesis by (rule that(2) [OF A(1,7) N(1,2) A(5) N(3,4,5) data_block_small(3) [OF A(8) N(2)] A(11)])
qed

lemma get_indirect_ok:
  assumes "geom s" "e2_layout s (blk s)" "file_wf s (blk s) ino" "1024 \<le> length junk"
  obtains s' where "get_indirect hw junk True ino s = Some ((False, ino, junk), s')" "after s (blk s) s'" "\<And>n. n < e_total_blocks s \<Longrightarrow> blk_used s (blk s) n"
  | s' C ino1 buf where "get_indirect hw junk True ino s = Some ((True, ino1, buf), s')" "after s C s'" "file_grow s (blk s) ino C ino1" "i_block ino1 ! 12 \<noteq> 0"
      "\<And>j. j < FILE_BLOCKS \<Longrightarrow> file_ptr C ino1 j = file_ptr (blk s) ino j" "1024 \<le> length buf"
proof (cases "i_block ino ! 12 = 0")
  case False
  then show thesis
    by (intro that(2) [of ino junk s]) (use assms e2_after_refl [OF assms(1)] file_grow_refl in \<open>auto simp: get_indirect_def\<close>)
next
  case True
  show thesis
  proof (rule alloc_file_block [OF assms])
    fix s' assume A: "alloc_block hw junk s = Some (- 1, s')" "after s (blk s) s'" "\<And>n. n < e_total_blocks s \<Longrightarrow> blk_used s (blk s) n"
    show thesis by (rule that(1) [OF _ A(2,3)]) (use True A(1) in \<open>simp add: get_indirect_def\<close>)
  next
    fix n s1 C
    assume A: "alloc_block hw junk s = Some (int (unat n), s1)" "after s C s1" "file_grow s (blk s) ino C ino" "data_block s C n" "\<not> blk_used s (blk s) n"
      "\<And>k. file_ptr C ino k = file_ptr (blk s) ino k" "\<And>k. k < FILE_BLOCKS \<Longrightarrow> file_ptr (blk s) ino k \<noteq> n" "i_block ino ! 12 \<noteq> n" "0 < int (unat n)"
    let ?z = "replicate 1024 0 @ drop 1024 junk :: u8 list"
    have b: "e_block_size s1 = 1024" using e2_after_fields(1) [OF A(2)] geomD(1) [OF assms(1)] by simp
    have "n < e_total_blocks s1" "1024 \<le> length ?z" using A(4) e2_after_fields(3) [OF A(2)] by (simp_all add: data_block_def)
    from write_block_ok [OF e2_after_geom [OF assms(1) A(2)] this] obtain s' where
      s': "write_block hw n ?z s1 = (True, s')" "after s1 (C(n := replicate 1024 0)) s'" using e2_after_blk [OF A(2)] by auto
    note F = fresh_indirect [OF assms(3,2) True A(3,4,5,7)]
    have g: "get_indirect hw junk True ino s = Some ((True, set_block 12 n ino, ?z), s')"
      using True A(1,9) b s'(1) by (simp add: get_indirect_def Let_def)
    show thesis by (rule that(2) [OF g e2_after_trans [OF A(2) s'(2)] F]) simp_all
  qed
qed

text \<open>A data block behind the indirect block.\<close>

lemma add_indirect_ptr:
  assumes "geom s" "e2_layout s (blk s)" "file_wf s (blk s) ino" "i_block ino ! 12 \<noteq> 0" "12 \<le> k" "k < FILE_BLOCKS" "file_grow s (blk s) ino C ino" "data_block s C n"
    "\<And>j. file_ptr C ino j = file_ptr (blk s) ino j" "\<And>j. j < FILE_BLOCKS \<Longrightarrow> file_ptr (blk s) ino j \<noteq> n" "i_block ino ! 12 \<noteq> n"
    "\<And>m. m \<notin> bbm s (blk s) ` e2_groups s \<Longrightarrow> C m = blk s m"
  defines "D \<equiv> C(i_block ino ! 12 := poke ((k - 12) * 4) (le32 n) (blk s (i_block ino ! 12)))"
  shows "file_grow s (blk s) ino D ino" "file_ptr D ino k = n" "j < FILE_BLOCKS \<Longrightarrow> j \<noteq> k \<Longrightarrow> file_ptr D ino j = file_ptr (blk s) ino j" "data_block s D n"
proof -
  let ?i = "i_block ino ! 12" and ?x = "poke ((k - 12) * 4) (le32 n) (blk s (i_block ino ! 12))"
  note G = file_growD [OF assms(7)]
  have di: "data_block s (blk s) ?i" using assms(3,4) by (simp add: file_wf_def)
  have dC: "data_block s C ?i" by (rule file_grow_data(1) [OF assms(2,7) di])
  note W = data_write [where x = ?x, OF G(1) dC, folded D_def]
  have len: "length (blk s ?i) = 1024" using length_blk [OF assms(1)] di by (simp add: data_block_def)
  have ptr: "file_ptr D ino j = (if j = k then n else file_ptr C ino j)" if "j < FILE_BLOCKS" for j
  proof (cases "j < 12")
    case True
    then show ?thesis using assms(5) by (simp add: file_ptr_def)
  next
    case False
    have a: "(k - 12) * 4 + 4 \<le> length (blk s ?i)" "(j - 12) * 4 + 4 \<le> length (blk s ?i)" using assms(6) that len by simp_all
    show ?thesis
    proof (cases "j = k")
      case True
      then show ?thesis using False assms(4) read_le32_poke(1) [OF a(1)] by (simp add: file_ptr_def D_def)
    next
      case jk: False
      then have "(j - 12) * 4 + 4 \<le> (k - 12) * 4 \<or> (k - 12) * 4 + 4 \<le> (j - 12) * 4" using False assms(5) by linarith
      then have "file_ptr D ino j = read_le32 (blk s ?i) ((j - 12) * 4)"
        using False assms(4) read_le32_poke(2) [OF a(1) _ a(2)] by (simp add: file_ptr_def D_def)
      also have "\<dots> = file_ptr C ino j" using False assms(4) unfolding assms(9) by (simp add: file_ptr_def)
      finally show ?thesis using jk by simp
    qed
  qed
  show "file_ptr D ino k = n" using ptr [OF assms(6)] by simp
  show "file_ptr D ino j = file_ptr (blk s) ino j" if "j < FILE_BLOCKS" "j \<noteq> k" using ptr [OF that(1)] that(2) assms(9) by simp
  show "data_block s D n" using W(5) assms(8) by simp
  have "file_wf s D ino"
    by (rule file_wf_add [OF G(3) _ refl assms(8,11) _ ptr]) (use assms(3,9,10) W(5) in \<open>auto simp: file_wf_def\<close>)
  moreover have "\<forall>m < e_total_blocks s. blk_used s (blk s) m \<longrightarrow> m \<notin> bbm s (blk s) ` e2_groups s \<longrightarrow> ?i = 0 \<or> m \<noteq> ?i \<longrightarrow> D m = blk s m"
    using assms(4,12) by (simp add: D_def)
  moreover have "\<forall>m < e_total_blocks s. blk_used s (blk s) m \<longrightarrow> blk_used s D m" using G(6) W(4) by simp
  moreover have "\<forall>g \<in> e2_groups s. e2_gd s D g = e2_gd s (blk s) g" using G(5) W(3) by simp
  ultimately show "file_grow s (blk s) ino D ino" using W(1,2) G(2) by (simp add: file_grow_def)
qed

lemma add_direct_ptr:
  assumes "file_wf s B ino" "k < 12" "file_grow s B ino C ino" "data_block s C n"
    "\<And>j. file_ptr C ino j = file_ptr B ino j" "\<And>j. j < FILE_BLOCKS \<Longrightarrow> file_ptr B ino j \<noteq> n" "i_block ino ! 12 \<noteq> n"
  defines "ino' \<equiv> set_block k n ino"
  shows "file_grow s B ino C ino'" "file_ptr C ino' k = n" "j < FILE_BLOCKS \<Longrightarrow> j \<noteq> k \<Longrightarrow> file_ptr C ino' j = file_ptr B ino j"
proof -
  note G = file_growD [OF assms(3)]
  have iw: "inode_wf ino" using assms(1) by (simp add: file_wf_def)
  have nth: "i_block ino' ! j = (if j = k then n else i_block ino ! j)" for j using set_block_nth [OF iw, of k] assms(2) by (simp add: ino'_def)
  have ptr: "file_ptr C ino' j = (if j = k then n else file_ptr C ino j)" for j using assms(2) by (auto simp: file_ptr_def nth)
  then show "file_ptr C ino' k = n" "j < FILE_BLOCKS \<Longrightarrow> j \<noteq> k \<Longrightarrow> file_ptr C ino' j = file_ptr B ino j" by (simp_all add: assms(5))
  have i12: "i_block ino' ! 12 = i_block ino ! 12" using nth [of 12] assms(2) by simp
  have "file_wf s C ino'"
    by (rule file_wf_add [OF G(3) _ i12 assms(4,7) _ ptr]) (use inode_wf_set [OF iw] assms(5,6) in \<open>auto simp: ino'_def\<close>)
  then show "file_grow s B ino C ino'" using assms(3) i12 set_block_same [of k n ino] by (simp add: file_grow_def ino'_def)
qed

lemma get_block_create:
  assumes "geom s" "e2_layout s (blk s)" "file_wf s (blk s) ino" "unat k < FILE_BLOCKS" "1024 \<le> length junk"
  obtains ino' s' C where "inode_get_block hw junk ino k True s = Some ((0, ino'), s')" "after s C s'" "\<And>n. n < e_total_blocks s \<Longrightarrow> blk_used s C n"
  | n ino' s' C where "inode_get_block hw junk ino k True s = Some ((int (unat n), ino'), s')" "after s C s'" "file_grow s (blk s) ino C ino'"
      "file_ptr C ino' (unat k) = n" "data_block s C n" "\<And>j. j < FILE_BLOCKS \<Longrightarrow> j \<noteq> unat k \<Longrightarrow> file_ptr C ino' j = file_ptr (blk s) ino j"
      "file_ptr (blk s) ino (unat k) = n \<or> file_ptr (blk s) ino (unat k) = 0 \<and> \<not> blk_used s (blk s) n"
proof -
  let ?p = "file_ptr (blk s) ino (unat k)"
  consider "?p \<noteq> 0" | "?p = 0" "k < 12" | "?p = 0" "\<not> k < 12" by blast
  then show thesis
  proof cases
    case 1
    then obtain s' where s': "inode_get_block hw junk ino k True s = Some ((int (unat ?p), ino), s')" "after s (blk s) s'"
      by (rule get_block_lookup [where create = True, OF assms, of thesis, OF disjI2]) blast
    show thesis
      by (rule that(2) [OF s' file_grow_refl [OF assms(2,3)] refl]) (use assms(3,4) 1 in \<open>auto simp: file_wf_def\<close>)
  next
    case 2
    then have k: "unat k < 12" "i_block ino ! unat k = 0" by (simp_all add: word_less_nat_alt file_ptr_def)
    show thesis
    proof (rule alloc_file_block [OF assms(1-3,5)])
      fix s' assume A: "alloc_block hw junk s = Some (- 1, s')" "after s (blk s) s'" "\<And>n. n < e_total_blocks s \<Longrightarrow> blk_used s (blk s) n"
      show thesis by (rule that(1) [OF _ A(2,3)]) (use A(1) k 2 in \<open>simp add: inode_get_block_def\<close>)
    next
      fix n s1 C
      assume A: "alloc_block hw junk s = Some (int (unat n), s1)" "after s C s1" "file_grow s (blk s) ino C ino" "data_block s C n" "\<not> blk_used s (blk s) n"
        "\<And>k. file_ptr C ino k = file_ptr (blk s) ino k" "\<And>k. k < FILE_BLOCKS \<Longrightarrow> file_ptr (blk s) ino k \<noteq> n" "i_block ino ! 12 \<noteq> n" "0 < int (unat n)"
        "\<And>m. m \<notin> bbm s (blk s) ` e2_groups s \<Longrightarrow> C m = blk s m"
      note P = add_direct_ptr [OF assms(3) k(1) A(3,4,6,7,8)]
      have "inode_get_block hw junk ino k True s = Some ((int (unat n), set_block (unat k) n ino), s1)" using A(1,9) k 2 by (simp add: inode_get_block_def)
      then show thesis by (rule that(2) [OF _ A(2) P(1,2) A(4) P(3)]) (use A(5) 2 in auto)
    qed
  next
    case 3
    have ik: "unat (k - 12) = unat k - 12" "12 \<le> unat k" using 3(2) unat_minus_12 by (auto simp: word_less_nat_alt)
    have "inode_ptrs_per_block s = 256" using geomD(1) [OF assms(1)] by (simp add: inode_ptrs_per_block_def)
    then have lim: "\<not> inode_ptrs_per_block s \<le> k - 12" using assms(4) ik by (simp add: word_le_nat_alt)
    show thesis
    proof (rule get_indirect_ok [OF assms(1-3,5)])
      fix s' assume A: "get_indirect hw junk True ino s = Some ((False, ino, junk), s')" "after s (blk s) s'" "\<And>n. n < e_total_blocks s \<Longrightarrow> blk_used s (blk s) n"
      show thesis by (rule that(1) [OF _ A(2,3)]) (use A(1) 3(2) lim in \<open>simp add: inode_get_block_def Let_def\<close>)
    next
      fix s1 C1 ino1 buf
      assume A: "get_indirect hw junk True ino s = Some ((True, ino1, buf), s1)" "after s C1 s1" "file_grow s (blk s) ino C1 ino1" "i_block ino1 ! 12 \<noteq> 0"
        "\<And>j. j < FILE_BLOCKS \<Longrightarrow> file_ptr C1 ino1 j = file_ptr (blk s) ino j" "1024 \<le> length buf"
      let ?i = "i_block ino1 ! 12"
      note G1 = file_growD [OF A(3)]
      have di: "data_block s C1 ?i" using G1(3) A(4) by (simp add: file_wf_def)
      have "?i < e_total_blocks s1" using di e2_after_fields(3) [OF A(2)] by (simp add: data_block_def)
      from read_block_ok [OF e2_after_geom [OF assms(1) A(2)] this A(6)] obtain s2 where
        s2: "read_block hw ?i buf s1 = (True, C1 ?i @ drop 1024 buf, s2)" "after s1 C1 s2" using e2_after_blk [OF A(2)] by auto
      note a2 = e2_after_trans [OF A(2) s2(2)]
      note n2 = same_numbers_after [OF a2] and g2 = e2_after_geom [OF assms(1) a2] and b2 = e2_after_blk [OF a2]
      note fr = same_numbers_frame [OF n2] same_numbers_file [OF n2] same_numbersD(3) [OF n2]
      have len: "length (C1 ?i) = 1024" using length_blk [OF g2, of ?i] b2 di fr(17) by (simp add: data_block_def)
      have off: "unat (k - 12) * 4 + 4 \<le> length (C1 ?i)" using len assms(4) ik by simp
      have "read_le32 (C1 ?i @ drop 1024 buf) (unat (k - 12) * 4) = file_ptr C1 ino1 (unat k)"
        using read_le32_prefix [OF off] A(4) ik by (simp add: file_ptr_def)
      then have r0: "read_le32 (C1 ?i @ drop 1024 buf) (unat (k - 12) * 4) = 0" using A(5) [OF assms(4)] 3(1) by simp
      have L2: "e2_layout s2 (blk s2)" "file_wf s2 (blk s2) ino1" using G1(1,3) by (simp_all add: fr b2)
      show thesis
      proof (rule alloc_file_block [OF g2 L2 assms(5)])
        fix s' assume F: "alloc_block hw junk s2 = Some (- 1, s')" "after s2 (blk s2) s'" "\<And>n. n < e_total_blocks s2 \<Longrightarrow> blk_used s2 (blk s2) n"
        show thesis
          by (rule that(1) [of ino1 s' C1]) (use A(1) s2(1) F r0 3(2) lim e2_after_trans [OF a2, of _ s'] in \<open>simp_all add: inode_get_block_def Let_def fr b2\<close>)
      next
        fix n s3 C2
        assume F: "alloc_block hw junk s2 = Some (int (unat n), s3)" "after s2 C2 s3" "file_grow s2 (blk s2) ino1 C2 ino1" "data_block s2 C2 n" "\<not> blk_used s2 (blk s2) n"
          "\<And>k. file_ptr C2 ino1 k = file_ptr (blk s2) ino1 k" "\<And>k. k < FILE_BLOCKS \<Longrightarrow> file_ptr (blk s2) ino1 k \<noteq> n" "i_block ino1 ! 12 \<noteq> n" "0 < int (unat n)"
          "\<And>m. m \<notin> bbm s2 (blk s2) ` e2_groups s2 \<Longrightarrow> C2 m = blk s2 m"
        note a3 = e2_after_trans [OF a2 F(2)]
        note P = add_indirect_ptr [OF g2 L2 A(4) ik(2) assms(4) F(3,4,6,7,8,10)]
        let ?ind = "poke (unat (k - 12) * 4) (le32 n) (C1 ?i @ drop 1024 buf)"
        have "?i < e_total_blocks s3" "1024 \<le> length ?ind" using di e2_after_fields(3) [OF a3] len by (simp_all add: data_block_def)
        from write_block_ok [OF e2_after_geom [OF assms(1) a3] this] obtain s' where
          s': "write_block hw ?i ?ind s3 = (True, s')" "after s3 (C2(?i := take 1024 ?ind)) s'" using e2_after_blk [OF a3] by auto
        have t: "take 1024 ?ind = poke (unat (k - 12) * 4) (le32 n) (C1 ?i)"
          by (rule nth_equalityI) (use len off in \<open>auto simp: poke_nth nth_append\<close>)
        define D where "D = C2(?i := poke ((unat k - 12) * 4) (le32 n) (C1 ?i))"
        have aD: "after s D s'" using e2_after_trans [OF a3 s'(2)] t ik(1) by (simp add: D_def)
        note P' = P [unfolded b2, folded D_def]
        have grow2: "file_grow s C1 ino1 D ino1" using P'(1) fr(1-3,6-8,16,17) same_numbers_frame(2) [OF n2] by (simp add: file_grow_def)
        have "read_le32 ?ind (unat (k - 12) * 4) = n" by (rule read_le32_poke(1)) (use off in simp)
        then have v: "sint (read_le32 ?ind (unat (k - 12) * 4)) = int (unat n)"
          using data_block_small(1) [of s D n] file_growD(1) [OF grow2] P'(4) fr(15) by simp
        have nb: "\<not> blk_used s (blk s) n"
        proof
          assume u: "blk_used s (blk s) n"
          have "n < e_total_blocks s" using F(4) fr(15) by (simp add: data_block_def)
          from G1(6) [OF this u] show False using F(5) by (simp add: fr b2)
        qed
        have "inode_get_block hw junk ino k True s = Some ((int (unat n), ino1), s')"
          using A(1) s2(1) F(1,9) r0 3(2) lim s'(1) v by (simp add: inode_get_block_def Let_def)
        then show thesis
          by (rule that(2) [OF _ aD file_grow_trans [OF A(3) grow2] P'(2)]) (use P'(3,4) A(5) fr(15) nb 3(1) in auto)
      qed
    qed
  qed
qed

end

end
