(* ===== verification/Ext2Data.thy ===== *)
theory Ext2Data
  imports Ext2Files
begin

text \<open>
  The transfer loops of \<open>ext2_read\<close> and \<open>ext2_write\<close>: a write puts its bytes where a read finds them, leaves all other bytes of the file and all other files alone, and
  fails only when the disk is full.
\<close>

section \<open>What a write does to a file\<close>

abbreviation FILE_BYTES :: nat where "FILE_BYTES \<equiv> 274432"

definition file_blocks :: "(u32 \<Rightarrow> u8 list) \<Rightarrow> e2_inode \<Rightarrow> u32 set" where
  "file_blocks B ino = insert (i_block ino ! 12) (file_ptr B ino ` {k. k < FILE_BLOCKS}) - {0}"

definition file_wrote :: "'h ext2 \<Rightarrow> (u32 \<Rightarrow> u8 list) \<Rightarrow> e2_inode \<Rightarrow> (u32 \<Rightarrow> u8 list) \<Rightarrow> e2_inode \<Rightarrow> nat \<Rightarrow> u8 list \<Rightarrow> bool" where
  "file_wrote s B ino C ino' lo bs \<longleftrightarrow> e2_layout s C \<and> e2_meta s C = e2_meta s B \<and> file_wf s C ino' \<and> ino' = ino\<lparr>i_block := i_block ino'\<rparr> \<and>
     (\<forall>g \<in> e2_groups s. e2_gd s C g = e2_gd s B g) \<and> (\<forall>m < e_total_blocks s. blk_used s B m \<longrightarrow> blk_used s C m) \<and>
     (\<forall>m < e_total_blocks s. blk_used s B m \<longrightarrow> m \<notin> bbm s B ` e2_groups s \<longrightarrow> m \<notin> file_blocks B ino \<longrightarrow> C m = B m) \<and>
     (\<forall>m \<in> file_blocks C ino'. m \<in> file_blocks B ino \<or> \<not> blk_used s B m) \<and>
     (\<forall>x < FILE_BYTES. lo \<le> x \<and> x < lo + length bs \<longrightarrow> file_ptr C ino' (x div 1024) \<noteq> 0 \<and> file_byte C ino' x = bs ! (x - lo)) \<and>
     (\<forall>x < FILE_BYTES. \<not> (lo \<le> x \<and> x < lo + length bs) \<longrightarrow> file_ptr B ino (x div 1024) \<noteq> 0 \<longrightarrow>
        file_ptr C ino' (x div 1024) \<noteq> 0 \<and> file_byte C ino' x = file_byte B ino x)"

lemma file_wroteD:
  assumes "file_wrote s B ino C ino' lo bs"
  shows "e2_layout s C" "e2_meta s C = e2_meta s B" "file_wf s C ino'" "ino' = ino\<lparr>i_block := i_block ino'\<rparr>" "g \<in> e2_groups s \<Longrightarrow> e2_gd s C g = e2_gd s B g"
    "m < e_total_blocks s \<Longrightarrow> blk_used s B m \<Longrightarrow> blk_used s C m"
    "m < e_total_blocks s \<Longrightarrow> blk_used s B m \<Longrightarrow> m \<notin> bbm s B ` e2_groups s \<Longrightarrow> m \<notin> file_blocks B ino \<Longrightarrow> C m = B m"
    "m \<in> file_blocks C ino' \<Longrightarrow> m \<in> file_blocks B ino \<or> \<not> blk_used s B m"
    "x < FILE_BYTES \<Longrightarrow> lo \<le> x \<Longrightarrow> x < lo + length bs \<Longrightarrow> file_ptr C ino' (x div 1024) \<noteq> 0 \<and> file_byte C ino' x = bs ! (x - lo)"
    "x < FILE_BYTES \<Longrightarrow> \<not> (lo \<le> x \<and> x < lo + length bs) \<Longrightarrow> file_ptr B ino (x div 1024) \<noteq> 0 \<Longrightarrow> file_ptr C ino' (x div 1024) \<noteq> 0 \<and> file_byte C ino' x = file_byte B ino x"
    "bbm s C ` e2_groups s = bbm s B ` e2_groups s"
proof -
  show gd: "e2_gd s C g = e2_gd s B g" if "g \<in> e2_groups s" for g using assms that unfolding file_wrote_def by blast
  then show "bbm s C ` e2_groups s = bbm s B ` e2_groups s" by auto
qed (use assms in \<open>unfold file_wrote_def, blast+\<close>)

lemma file_wrote_nil: "e2_layout s B \<Longrightarrow> file_wf s B ino \<Longrightarrow> file_wrote s B ino B ino lo []"
  by (auto simp: file_wrote_def)

lemma file_wrote_append:
  assumes "file_wrote s B ino C ino1 lo bs" "file_wrote s C ino1 D ino2 (lo + length bs) cs"
  shows "file_wrote s B ino D ino2 lo (bs @ cs)"
proof -
  note P = file_wroteD [OF assms(1)] and Q = file_wroteD [OF assms(2)]
  have other: "D m = B m" if m: "m < e_total_blocks s" "blk_used s B m" "m \<notin> bbm s B ` e2_groups s" "m \<notin> file_blocks B ino" for m
  proof -
    have "m \<notin> file_blocks C ino1" using P(8) m(2,4) by blast
    then have "D m = C m" using Q(7) [OF m(1) P(6) [OF m(1,2)]] m(3) P(11) by simp
    then show ?thesis using P(7) [OF m] by simp
  qed
  have blocks: "m \<in> file_blocks B ino \<or> \<not> blk_used s B m" if "m \<in> file_blocks D ino2" for m
  proof -
    have "m < e_total_blocks s" using that Q(3) by (auto simp: file_blocks_def file_wf_def data_block_def)
    then show ?thesis using Q(8) [OF that] P(8) P(6) by blast
  qed
  have new: "file_ptr D ino2 (x div 1024) \<noteq> 0 \<and> file_byte D ino2 x = (bs @ cs) ! (x - lo)" if x: "x < FILE_BYTES" "lo \<le> x" "x < lo + length (bs @ cs)" for x
  proof (cases "x < lo + length bs")
    case True
    have out: "\<not> (lo + length bs \<le> x \<and> x < lo + length bs + length cs)" using True by linarith
    have b: "file_ptr C ino1 (x div 1024) \<noteq> 0 \<and> file_byte C ino1 x = bs ! (x - lo)" by (rule P(9) [OF x(1,2) True])
    then have "file_ptr D ino2 (x div 1024) \<noteq> 0 \<and> file_byte D ino2 x = file_byte C ino1 x" using Q(10) [OF x(1) out] by blast
    moreover have "x - lo < length bs" using True x(2) by linarith
    then have "(bs @ cs) ! (x - lo) = bs ! (x - lo)" by (simp add: nth_append)
    ultimately show ?thesis using b by simp
  next
    case False
    have "file_ptr D ino2 (x div 1024) \<noteq> 0 \<and> file_byte D ino2 x = cs ! (x - (lo + length bs))" by (rule Q(9) [OF x(1)]) (use False x(3) in simp_all)
    moreover have "\<not> x - lo < length bs" "x - lo - length bs = x - (lo + length bs)" using False by linarith+
    then have "(bs @ cs) ! (x - lo) = cs ! (x - (lo + length bs))" by (simp add: nth_append)
    ultimately show ?thesis by simp
  qed
  have old: "file_ptr D ino2 (x div 1024) \<noteq> 0 \<and> file_byte D ino2 x = file_byte B ino x"
    if x: "x < FILE_BYTES" "\<not> (lo \<le> x \<and> x < lo + length (bs @ cs))" "file_ptr B ino (x div 1024) \<noteq> 0" for x
  proof -
    have "\<not> (lo \<le> x \<and> x < lo + length bs)" "\<not> (lo + length bs \<le> x \<and> x < lo + length bs + length cs)" using x(2) by auto
    then show ?thesis using P(10) [OF x(1) _ x(3)] Q(10) [OF x(1)] by simp
  qed
  have "ino2 = ino\<lparr>i_block := i_block ino2\<rparr>" using P(4) Q(4) by (metis e2_inode.surjective e2_inode.update_convs(13))
  moreover have "\<forall>g \<in> e2_groups s. e2_gd s D g = e2_gd s B g" using P(5) Q(5) by simp
  moreover have "\<forall>m < e_total_blocks s. blk_used s B m \<longrightarrow> blk_used s D m" using P(6) Q(6) by blast
  ultimately show ?thesis unfolding file_wrote_def using P(2) Q(1,2,3) other blocks new old by simp
qed

text \<open>Bytes stored into one block of a file that may just have been added.\<close>

lemma div_mod_1024: "x < FILE_BYTES \<Longrightarrow> x div 1024 < FILE_BLOCKS"
  by (simp add: less_mult_imp_div_less)

lemma file_wrote_block:
  fixes k :: nat
  assumes "e2_layout s B" "file_wf s B ino" "file_grow s B ino C ino'" "k < FILE_BLOCKS" "file_ptr C ino' k = n" "data_block s C n"
    "\<And>j. j < FILE_BLOCKS \<Longrightarrow> j \<noteq> k \<Longrightarrow> file_ptr C ino' j = file_ptr B ino j" "file_ptr B ino k = n \<or> file_ptr B ino k = 0 \<and> \<not> blk_used s B n"
    "length (C n) = 1024" "off + length bs \<le> 1024"
  defines "D \<equiv> C(n := poke off bs (C n))"
  shows "file_wrote s B ino D ino' (1024 * k + off) bs"
proof -
  note G = file_growD [OF assms(3)]
  note W = data_write [where x = "poke off bs (C n)", OF G(1) assms(6), folded D_def]
  have n0: "n \<noteq> 0" "i_block ino' ! 12 \<noteq> n" using assms(4-6) G(3) by (auto simp: file_wf_def data_block_def)
  have ptr: "file_ptr D ino' j = file_ptr C ino' j" for j by (rule file_ptr_cong) (use n0 in \<open>simp add: D_def\<close>)
  have wf: "file_wf s D ino'" using G(3) W(5) by (simp add: file_wf_def ptr)
  have byte: "file_byte D ino' x = (if x div 1024 = k then poke off bs (C n) ! (x mod 1024) else file_byte C ino' x)" if "x < FILE_BYTES" for x
  proof (cases "x div 1024 = k")
    case True
    then show ?thesis using assms(5) unfolding file_byte_def ptr by (simp add: D_def)
  next
    case False
    have "file_ptr C ino' (x div 1024) \<noteq> n" using G(3) assms(4,5) n0(1) False div_mod_1024 [OF that] unfolding file_wf_def by metis
    then show ?thesis using False unfolding file_byte_def ptr by (simp add: D_def)
  qed
  have old: "file_byte C ino' x = file_byte B ino x" if "file_ptr B ino (x div 1024) \<noteq> 0" "x < FILE_BYTES" for x
  proof -
    have q: "x div 1024 < FILE_BLOCKS" by (rule div_mod_1024 [OF that(2)])
    have same: "file_ptr C ino' (x div 1024) = file_ptr B ino (x div 1024)" using assms(5,7,8) q that(1) by metis
    have "data_block s B (file_ptr B ino (x div 1024))" "file_ptr B ino (x div 1024) \<noteq> i_block ino ! 12" using assms(2) that(1) q by (auto simp: file_wf_def)
    then show ?thesis using file_grow_data(2) [OF assms(1,3)] same by (simp add: file_byte_def)
  qed
  have split: "1024 * k + off \<le> x \<and> x < 1024 * k + off + length bs \<longleftrightarrow> x div 1024 = k \<and> off \<le> x mod 1024 \<and> x mod 1024 < off + length bs" for x
  proof
    assume a: "1024 * k + off \<le> x \<and> x < 1024 * k + off + length bs"
    then have "1024 * k \<le> x" "x < 1024 * k + 1024" using assms(10) by linarith+
    then have "x div 1024 = k" by (intro div_nat_eqI) simp_all
    moreover have "x = 1024 * (x div 1024) + x mod 1024" by simp
    ultimately show "x div 1024 = k \<and> off \<le> x mod 1024 \<and> x mod 1024 < off + length bs" using a by linarith
  next
    assume a: "x div 1024 = k \<and> off \<le> x mod 1024 \<and> x mod 1024 < off + length bs"
    moreover have "x = 1024 * (x div 1024) + x mod 1024" by simp
    ultimately show "1024 * k + off \<le> x \<and> x < 1024 * k + off + length bs" by linarith
  qed
  have pk: "poke off bs (C n) ! j = (if off \<le> j \<and> j < off + length bs then bs ! (j - off) else C n ! j)" if "j < 1024" for j
    using poke_nth [of off bs "C n" j] assms(9,10) that by simp
  have new: "file_ptr D ino' (x div 1024) \<noteq> 0 \<and> file_byte D ino' x = bs ! (x - (1024 * k + off))"
    if x: "x < FILE_BYTES" "1024 * k + off \<le> x" "x < 1024 * k + off + length bs" for x
  proof -
    have s: "x div 1024 = k" "off \<le> x mod 1024" "x mod 1024 < off + length bs" using split [of x] x by simp_all
    have "x = 1024 * (x div 1024) + x mod 1024" by simp
    then have "x - (1024 * k + off) = x mod 1024 - off" using s(1) by linarith
    then show ?thesis using byte [OF x(1)] pk [of "x mod 1024"] s n0(1) assms(5) by (simp add: ptr)
  qed
  have keep: "file_ptr D ino' (x div 1024) \<noteq> 0 \<and> file_byte D ino' x = file_byte B ino x"
    if x: "x < FILE_BYTES" "\<not> (1024 * k + off \<le> x \<and> x < 1024 * k + off + length bs)" "file_ptr B ino (x div 1024) \<noteq> 0" for x
  proof -
    have "file_byte D ino' x = file_byte C ino' x"
    proof (cases "x div 1024 = k")
      case True
      then have "\<not> (off \<le> x mod 1024 \<and> x mod 1024 < off + length bs)" using split [of x] x(2) by blast
      then show ?thesis using byte [OF x(1)] pk [of "x mod 1024"] True assms(5) by (auto simp: file_byte_def)
    qed (use byte [OF x(1)] in simp)
    moreover have "file_ptr C ino' (x div 1024) \<noteq> 0" using assms(5,7) n0(1) div_mod_1024 [OF x(1)] x(3) by metis
    ultimately show ?thesis using old [OF x(3,1)] by (simp add: ptr)
  qed
  have own: "m \<in> file_blocks B ino \<or> \<not> blk_used s B m" if "m \<in> file_blocks D ino'" for m
  proof -
    from that consider "m = i_block ino' ! 12" "m \<noteq> 0" | j where "j < FILE_BLOCKS" "m = file_ptr C ino' j" "m \<noteq> 0"
      by (auto simp: file_blocks_def ptr)
    then show ?thesis
    proof cases
      case 1
      then show ?thesis using G(8) by (auto simp: file_blocks_def)
    next
      case (2 j)
      have mem: "file_ptr B ino q \<in> file_blocks B ino" if "q < FILE_BLOCKS" "file_ptr B ino q \<noteq> 0" for q using that by (simp add: file_blocks_def)
      show ?thesis
      proof (cases "j = k")
        case True
        then show ?thesis using assms(4,5,8) 2 mem [of k] by auto
      next
        case False
        then show ?thesis using assms(7) [of j] 2 mem [of j] by simp
      qed
    qed
  qed
  have foreign: "D m = B m" if m: "m < e_total_blocks s" "blk_used s B m" "m \<notin> bbm s B ` e2_groups s" "m \<notin> file_blocks B ino" for m
  proof -
    have "m \<noteq> n" using m(2,4) assms(4,8) n0(1) by (auto simp: file_blocks_def)
    moreover have "i_block ino ! 12 = 0 \<or> m \<noteq> i_block ino ! 12" using m(4) by (auto simp: file_blocks_def)
    ultimately show ?thesis using G(7) [OF m(1-3)] by (simp add: D_def)
  qed
  have "\<forall>g \<in> e2_groups s. e2_gd s D g = e2_gd s B g" using G(5) W(3) by simp
  moreover have "\<forall>m < e_total_blocks s. blk_used s B m \<longrightarrow> blk_used s D m" using G(6) W(4) by simp
  ultimately show ?thesis unfolding file_wrote_def using W(1,2) G(2,4) wf new keep own foreign by simp
qed

section \<open>The loops\<close>

lemma unat_e2_chunk: "unat (e2_chunk 1024 p n) = min (1024 - unat p mod 1024) (unat n)"
proof -
  have m: "unat (p mod 1024) = unat p mod 1024" by (simp add: unat_mod)
  moreover have "unat p mod 1024 < 1024" by simp
  ultimately have "unat ((1024 :: u32) - p mod 1024) = 1024 - unat p mod 1024" by (subst unat_sub) (simp_all add: word_le_nat_alt)
  then show ?thesis by (auto simp: e2_chunk_def Let_def word_less_nat_alt)
qed

text \<open>The numbers of one round.\<close>

lemma e2_round:
  fixes pos sz tot :: u32
  assumes "tot < sz" "unat pos + unat sz \<le> FILE_BYTES"
  defines "x \<equiv> unat pos + unat tot" and "n \<equiv> unat (e2_chunk 1024 (pos + tot) (sz - tot))"
  shows "unat ((pos + tot) mod 1024) = x mod 1024" "unat ((pos + tot) div 1024) = x div 1024" "x div 1024 < FILE_BLOCKS"
    "n = min (1024 - x mod 1024) (unat sz - unat tot)" "0 < n" "unat (tot + e2_chunk 1024 (pos + tot) (sz - tot)) = unat tot + n"
    "tot + e2_chunk 1024 (pos + tot) (sz - tot) \<le> sz" "x mod 1024 + n \<le> 1024" "1024 * (x div 1024) + x mod 1024 = x" "unat tot + n \<le> unat sz"
proof -
  have lt: "unat tot < unat sz" using assms(1) by (simp add: word_less_nat_alt)
  have a: "unat (pos + tot) = x" unfolding x_def using assms(2) lt by (intro unat_add_small) simp
  show "unat ((pos + tot) mod 1024) = x mod 1024" "unat ((pos + tot) div 1024) = x div 1024" by (simp_all add: unat_mod unat_div a)
  have "x < FILE_BYTES" using assms(2) lt unfolding x_def by linarith
  then show "x div 1024 < FILE_BLOCKS" by (rule div_mod_1024)
  have s: "unat (sz - tot) = unat sz - unat tot" using assms(1) by (simp add: unat_sub)
  show n: "n = min (1024 - x mod 1024) (unat sz - unat tot)" using s a by (simp add: n_def unat_e2_chunk)
  show "0 < n" using n lt by simp
  have "x mod 1024 < 1024" by simp
  then show "x mod 1024 + n \<le> 1024" using n by linarith
  note R = e2_round_less [OF assms(1), of 1024 "pos + tot"]
  show "unat (tot + e2_chunk 1024 (pos + tot) (sz - tot)) = unat tot + n" "tot + e2_chunk 1024 (pos + tot) (sz - tot) \<le> sz"
    using R(2,3) by (simp_all add: n_def)
  show "1024 * (x div 1024) + x mod 1024 = x" by simp
  show "unat tot + n \<le> unat sz" using n lt by linarith
qed

lemma file_slice:
  assumes "x mod 1024 + n \<le> 1024" "length (B (file_ptr B ino (x div 1024))) = 1024"
  shows "take n (drop (x mod 1024) (B (file_ptr B ino (x div 1024)))) = map (file_byte B ino) [x..<x + n]"
proof (rule nth_equalityI)
  show "length (take n (drop (x mod 1024) (B (file_ptr B ino (x div 1024))))) = length (map (file_byte B ino) [x..<x + n])" using assms by simp
  fix i assume "i < length (take n (drop (x mod 1024) (B (file_ptr B ino (x div 1024)))))"
  then have i: "i < n" by simp
  have e: "x + i = 1024 * (x div 1024) + (x mod 1024 + i)" by simp
  have "1024 * (x div 1024) \<le> x + i" "x + i < 1024 * (x div 1024) + 1024" using e i assms(1) by linarith+
  then have d: "(x + i) div 1024 = x div 1024" by (intro div_nat_eqI) simp_all
  have "1024 * ((x + i) div 1024) + (x + i) mod 1024 = x + i" by simp
  then have m: "(x + i) mod 1024 = x mod 1024 + i" using e d by linarith
  show "take n (drop (x mod 1024) (B (file_ptr B ino (x div 1024)))) ! i = map (file_byte B ino) [x..<x + n] ! i"
    using i assms d m by (simp add: file_byte_def)
qed

context ext2_disk
begin

lemma write_loop:
  assumes "geom s" "e2_layout s (blk s)" "file_wf s (blk s) ino" "tot \<le> sz" "unat pos + unat sz \<le> FILE_BYTES" "length src = unat sz" "1024 \<le> length junk"
  obtains ino' s' C where "e2_write_loop hw junk pos src sz tot ino s = Some ((Inl VFS_ERR_NO_SPACE, ino'), s')" "after s C s'"
      "\<And>n. n < e_total_blocks s \<Longrightarrow> blk_used s C n"
  | ino' s' C where "e2_write_loop hw junk pos src sz tot ino s = Some ((Inr sz, ino'), s')" "after s C s'"
      "file_wrote s (blk s) ino C ino' (unat pos + unat tot) (drop (unat tot) src)"
  using assms
proof (induction "unat sz - unat tot" arbitrary: tot ino s thesis rule: less_induct)
  case less
  note bs = geomD(1) [OF less.prems(3)]
  show ?case
  proof (cases "tot < sz")
    case False
    then have e: "tot = sz" using less.prems(6) by simp
    then have "e2_write_loop hw junk pos src sz tot ino s = Some ((Inr sz, ino), s)" by (simp add: e2_write_loop.simps)
    then show ?thesis
      using less.prems(2) [OF _ e2_after_refl [OF less.prems(3)]] file_wrote_nil [OF less.prems(4,5)] e less.prems(8) by simp
  next
    case True
    define x where "x = unat pos + unat tot"
    define n where "n = unat (e2_chunk 1024 (pos + tot) (sz - tot))"
    let ?tot = "tot + e2_chunk 1024 (pos + tot) (sz - tot)" and ?k = "(pos + tot) div 1024"
    let ?bytes = "take n (drop (unat tot) src)"
    note R = e2_round [OF True less.prems(7), folded x_def n_def]
    have k: "unat ?k < FILE_BLOCKS" using R(2,3) by simp
    have lb: "length ?bytes = n" using R(10) less.prems(8) by simp
    have fit: "x mod 1024 + length ?bytes \<le> 1024" unfolding lb by (rule R(8))
    show ?thesis
    proof (rule get_block_create [OF less.prems(3-5) k less.prems(9)])
      fix ino' s' C assume A: "inode_get_block hw junk ino ?k True s = Some ((0, ino'), s')" "after s C s'" "\<And>n. n < e_total_blocks s \<Longrightarrow> blk_used s C n"
      show thesis by (rule less.prems(1) [OF _ A(2,3)]) (use A(1) True bs in \<open>simp add: e2_write_loop.simps [of hw junk pos src sz tot] Let_def\<close>)
    next
      fix b ino1 s1 C
      assume A: "inode_get_block hw junk ino ?k True s = Some ((int (unat b), ino1), s1)" "after s C s1" "file_grow s (blk s) ino C ino1"
        "file_ptr C ino1 (unat ?k) = b" "data_block s C b" "\<And>j. j < FILE_BLOCKS \<Longrightarrow> j \<noteq> unat ?k \<Longrightarrow> file_ptr C ino1 j = file_ptr (blk s) ino j"
        "file_ptr (blk s) ino (unat ?k) = b \<or> file_ptr (blk s) ino (unat ?k) = 0 \<and> \<not> blk_used s (blk s) b"
      note pos_b = data_block_small(3,4) [OF file_growD(1) [OF A(3)] A(5)]
      have b1: "b < e_total_blocks s1" using A(5) e2_after_fields(3) [OF A(2)] by (simp add: data_block_def)
      from read_block_ok [OF e2_after_geom [OF less.prems(3) A(2)] b1 less.prems(9)] obtain s2 where
        s2: "read_block hw b junk s1 = (True, C b @ drop 1024 junk, s2)" "after s1 C s2" using e2_after_blk [OF A(2)] by auto
      note a2 = e2_after_trans [OF A(2) s2(2)]
      have len: "length (C b) = 1024" using length_blk [OF e2_after_geom [OF less.prems(3) A(2)] b1] e2_after_blk [OF A(2)] by simp
      let ?buf = "poke (unat ((pos + tot) mod 1024)) ?bytes (C b @ drop 1024 junk)"
      have "b < e_total_blocks s2" "1024 \<le> length ?buf" using A(5) e2_after_fields(3) [OF a2] len by (simp_all add: data_block_def)
      from write_block_ok [OF e2_after_geom [OF less.prems(3) a2] this] obtain s3 where
        s3: "write_block hw b ?buf s2 = (True, s3)" "after s2 (C(b := take 1024 ?buf)) s3" using e2_after_blk [OF a2] by auto
      have t: "take 1024 ?buf = poke (x mod 1024) ?bytes (C b)"
        by (rule nth_equalityI) (use len R(1,8) lb in \<open>auto simp: poke_nth nth_append\<close>)
      define D where "D = C(b := poke (x mod 1024) ?bytes (C b))"
      have a3: "after s D s3" using e2_after_trans [OF a2 s3(2)] t by (simp add: D_def)
      have "file_wrote s (blk s) ino D ino1 (1024 * unat ?k + x mod 1024) ?bytes"
        unfolding D_def by (rule file_wrote_block [OF less.prems(4,5) A(3) k A(4-7) len fit])
      then have w: "file_wrote s (blk s) ino D ino1 x ?bytes" using R(2,9) by simp
      note n3 = same_numbers_after [OF a3] and g3 = e2_after_geom [OF less.prems(3) a3] and b3 = e2_after_blk [OF a3]
      note fr = same_numbers_frame [OF n3] same_numbers_file [OF n3] same_numbersD(3) [OF n3]
      have L3: "e2_layout s3 (blk s3)" "file_wf s3 (blk s3) ino1" using file_wroteD(1,3) [OF w] by (simp_all add: fr b3)
      have step: "e2_write_loop hw junk pos src sz tot ino s = e2_write_loop hw junk pos src sz ?tot ino1 s3"
        using A(1) s2(1) s3(1) True bs pos_b by (simp add: e2_write_loop.simps [of hw junk pos src sz tot] Let_def n_def)
      have fw: "file_wrote s3 = file_wrote s" by (simp add: file_wrote_def fun_eq_iff fr)
      have m: "unat sz - unat ?tot < unat sz - unat tot" using R(5,6,10) by linarith
      show thesis
      proof (rule less.hyps [OF m _ _ g3 L3 R(7) less.prems(7-9)])
        fix ino' s' C' assume F: "e2_write_loop hw junk pos src sz ?tot ino1 s3 = Some ((Inl VFS_ERR_NO_SPACE, ino'), s')" "after s3 C' s'"
          "\<And>n. n < e_total_blocks s3 \<Longrightarrow> blk_used s3 C' n"
        show thesis by (rule less.prems(1) [OF _ e2_after_trans [OF a3 F(2)]]) (use F(1,3) step fr in simp_all)
      next
        fix ino' s' C' assume F: "e2_write_loop hw junk pos src sz ?tot ino1 s3 = Some ((Inr sz, ino'), s')" "after s3 C' s'"
          "file_wrote s3 (blk s3) ino1 C' ino' (unat pos + unat ?tot) (drop (unat ?tot) src)"
        have "file_wrote s D ino1 C' ino' (x + length ?bytes) (drop n (drop (unat tot) src))"
          using F(3) R(6) lb by (simp add: fw b3 x_def add.commute add.left_commute)
        from file_wrote_append [OF w this] have "file_wrote s (blk s) ino C' ino' x (drop (unat tot) src)" unfolding append_take_drop_id .
        then show thesis using less.prems(2) [OF _ e2_after_trans [OF a3 F(2)]] F(1) step by (simp add: x_def)
      qed
    qed
  qed
qed

lemma read_loop:
  assumes "geom s" "e2_layout s (blk s)" "file_wf s (blk s) ino" "tot \<le> sz" "unat pos + unat sz \<le> FILE_BYTES" "1024 \<le> length junk"
    "\<And>x. unat pos \<le> x \<Longrightarrow> x < unat pos + unat sz \<Longrightarrow> file_ptr (blk s) ino (x div 1024) \<noteq> 0"
  obtains s' where "e2_read_loop hw junk ino pos sz tot out s = Some (Some (out @ map (file_byte (blk s) ino) [unat pos + unat tot..<unat pos + unat sz]), s')"
    "after s (blk s) s'"
  using assms
proof (induction "unat sz - unat tot" arbitrary: tot out s thesis rule: less_induct)
  case less
  note bs = geomD(1) [OF less.prems(2)]
  show ?case
  proof (cases "tot < sz")
    case False
    then have e: "tot = sz" using less.prems(5) by simp
    then have "e2_read_loop hw junk ino pos sz tot out s = Some (Some out, s)" by (simp add: e2_read_loop.simps)
    then show ?thesis using less.prems(1) [OF _ e2_after_refl [OF less.prems(2)]] e by simp
  next
    case True
    define x where "x = unat pos + unat tot"
    define n where "n = unat (e2_chunk 1024 (pos + tot) (sz - tot))"
    let ?tot = "tot + e2_chunk 1024 (pos + tot) (sz - tot)" and ?k = "(pos + tot) div 1024" and ?B = "blk s"
    note R = e2_round [OF True less.prems(6), folded x_def n_def]
    have k: "unat ?k < FILE_BLOCKS" using R(2,3) by simp
    let ?b = "file_ptr ?B ino (x div 1024)"
    have xr: "unat pos \<le> x" "x < unat pos + unat sz" unfolding x_def using True by (simp_all add: word_less_nat_alt)
    have b0: "?b \<noteq> 0" by (rule less.prems(8) [OF xr])
    then have db: "data_block s ?B ?b" using less.prems(4) R(3) by (simp add: file_wf_def)
    note pos_b = data_block_small(3,4) [OF less.prems(3) db]
    obtain s1 where s1: "inode_get_block hw junk ino ?k False s = Some ((int (unat ?b), ino), s1)" "after s ?B s1"
      by (rule get_block_lookup [where create = False, OF less.prems(2-4) k less.prems(7)]) (use R(2) in auto)
    have b1: "?b < e_total_blocks s1" using db e2_after_fields(3) [OF s1(2)] by (simp add: data_block_def)
    from read_block_ok [OF e2_after_geom [OF less.prems(2) s1(2)] b1 less.prems(7)] obtain s2 where
      s2: "read_block hw ?b junk s1 = (True, ?B ?b @ drop 1024 junk, s2)" "after s1 ?B s2" using e2_after_blk [OF s1(2)] by auto
    note a2 = e2_after_trans [OF s1(2) s2(2)]
    have len: "length (?B ?b) = 1024" using length_blk [OF less.prems(2)] db by (simp add: data_block_def)
    have part: "take n (drop (x mod 1024) (?B ?b @ drop 1024 junk)) = map (file_byte ?B ino) [x..<x + n]"
      using file_slice [of x n ?B ino] R(8) len by simp
    note n2 = same_numbers_after [OF a2] and g2 = e2_after_geom [OF less.prems(2) a2] and b2 = e2_after_blk [OF a2]
    note fr = same_numbers_frame [OF n2] same_numbers_file [OF n2]
    have L2: "e2_layout s2 (blk s2)" "file_wf s2 (blk s2) ino" using less.prems(3,4) by (simp_all add: fr b2)
    have step: "e2_read_loop hw junk ino pos sz tot out s = e2_read_loop hw junk ino pos sz ?tot (out @ map (file_byte ?B ino) [x..<x + n]) s2"
      using s1(1) s2(1) True bs pos_b R(1) part by (simp add: e2_read_loop.simps [of hw junk ino pos sz tot] Let_def n_def)
    have m: "unat sz - unat ?tot < unat sz - unat tot" using R(5,6,10) by linarith
    have nz: "file_ptr (blk s2) ino (y div 1024) \<noteq> 0" if "unat pos \<le> y" "y < unat pos + unat sz" for y using less.prems(8) [OF that] b2 by simp
    show thesis
    proof (rule less.hyps [OF m _ g2 L2 R(7) less.prems(6,7) nz])
      fix s' assume F: "e2_read_loop hw junk ino pos sz ?tot (out @ map (file_byte ?B ino) [x..<x + n]) s2 =
          Some (Some ((out @ map (file_byte ?B ino) [x..<x + n]) @ map (file_byte (blk s2) ino) [unat pos + unat ?tot..<unat pos + unat sz]), s')" "after s2 (blk s2) s'"
      have "x + n \<le> unat pos + unat sz" using R(10) unfolding x_def by linarith
      then have "[x..<x + n] @ [x + n..<unat pos + unat sz] = [x..<unat pos + unat sz]"
        using upt_add_eq_append [of x "x + n" "unat pos + unat sz - (x + n)"] by simp
      moreover have "unat pos + unat ?tot = x + n" using R(6) by (simp add: x_def)
      ultimately have "e2_read_loop hw junk ino pos sz tot out s = Some (Some (out @ map (file_byte ?B ino) [x..<unat pos + unat sz]), s')"
        using F(1) step b2 by (simp add: map_append [symmetric] del: map_append)
      then show thesis using less.prems(1) [of s'] e2_after_trans [OF a2 F(2)] b2 by (simp add: x_def)
    qed
  qed
qed

end

section \<open>Writing and reading through a handle\<close>

text \<open>A file is not affected when a metadata block changes, or fields of its inode other than the pointers.\<close>

lemma file_meta_write:
  assumes "file_wf s C ino" "b \<in> e2_meta s C" "\<And>m. m \<noteq> b \<Longrightarrow> D m = C m" "e2_meta s D = e2_meta s C"
    "\<And>m. m < e_total_blocks s \<Longrightarrow> blk_used s D m \<longleftrightarrow> blk_used s C m" "i_block ino' = i_block ino" "inode_wf ino'"
  shows "file_ptr D ino' k = file_ptr C ino k" "file_wf s D ino'" "file_blocks D ino' = file_blocks C ino"
    "x < FILE_BYTES \<Longrightarrow> file_ptr C ino (x div 1024) \<noteq> 0 \<Longrightarrow> file_byte D ino' x = file_byte C ino x"
proof -
  have data: "data_block s D m \<longleftrightarrow> data_block s C m" for m using assms(4,5) by (auto simp: data_block_def)
  have same: "D m = C m" if "data_block s C m" for m
  proof (rule assms(3))
    show "m \<noteq> b" using assms(2) that by (auto simp: data_block_def)
  qed
  show p: "file_ptr D ino' k = file_ptr C ino k" for k using assms(1,6) same by (auto simp: file_ptr_def file_wf_def)
  show "file_wf s D ino'" using assms(1,6,7) by (simp add: file_wf_def p data)
  show "file_blocks D ino' = file_blocks C ino" using assms(6) by (simp add: file_blocks_def p)
  show "file_byte D ino' x = file_byte C ino x" if "x < FILE_BYTES" "file_ptr C ino (x div 1024) \<noteq> 0"
    using assms(1) same div_mod_1024 [OF that(1)] that(2) by (simp add: file_byte_def p file_wf_def)
qed

text \<open>Another file, disjoint from the one written.\<close>

lemma other_file_kept:
  assumes "e2_layout s B" "file_wrote s B ino C ino1 lo bs" "file_wf s B other" "file_blocks B other \<inter> file_blocks B ino = {}"
  shows "file_ptr C other k = file_ptr B other k" "file_wf s C other"
    "x < FILE_BYTES \<Longrightarrow> file_ptr B other (x div 1024) \<noteq> 0 \<Longrightarrow> file_byte C other x = file_byte B other x"
proof -
  note P = file_wroteD [OF assms(2)]
  have same: "C m = B m" "data_block s C m" if "data_block s B m" "m \<in> file_blocks B other" for m
  proof -
    have "m \<notin> bbm s B ` e2_groups s" using that(1) by (auto simp: data_block_def e2_meta_def)
    then show "C m = B m" using P(7) that assms(4) by (auto simp: data_block_def)
    show "data_block s C m" using that(1) P(2,6) by (simp add: data_block_def)
  qed
  have i12: "i_block other ! 12 \<in> file_blocks B other" if "i_block other ! 12 \<noteq> 0" using that by (simp add: file_blocks_def)
  have own: "file_ptr B other j \<in> file_blocks B other" if "j < FILE_BLOCKS" "file_ptr B other j \<noteq> 0" for j using that by (simp add: file_blocks_def)
  show p: "file_ptr C other k = file_ptr B other k" for k
    by (rule file_ptr_cong) (use assms(3) same(1) i12 in \<open>auto simp: file_wf_def\<close>)
  show "file_wf s C other" using assms(3) same(2) i12 own by (simp add: file_wf_def p)
  show "file_byte C other x = file_byte B other x" if "x < FILE_BYTES" "file_ptr B other (x div 1024) \<noteq> 0"
    using assms(3) same(1) own [OF div_mod_1024 [OF that(1)] that(2)] div_mod_1024 [OF that(1)] that(2) by (simp add: file_byte_def p file_wf_def)
qed

lemma blk_eh [simp]: "e2_blk content (upd_eh h f s) = e2_blk content s"
  by (simp add: e2_blk_def upd_eh_def block_to_lba_def fun_eq_iff)

lemma geom_eh [simp]: "e2_geom ok valid (upd_eh h f s) = e2_geom ok valid s"
  by (simp add: e2_geom_def upd_eh_def block_to_lba_def)

text \<open>An open handle on a well-formed file.\<close>

definition eh_file :: "('h disk \<Rightarrow> u32 \<Rightarrow> sector) \<Rightarrow> int \<Rightarrow> 'h ext2 \<Rightarrow> bool" where
  "eh_file content h s \<longleftrightarrow> eh_ok h s \<and> length (e_handles s) = EXT2_MAX_HANDLES \<and> inode_no s (eh_inode_num (ehandle s h)) \<and>
     file_wf s (e2_blk content s) (e2_inode_at s (e2_blk content s) (eh_inode_num (ehandle s h)))"

lemma eh_file_index: "eh_file content h s \<Longrightarrow> nat h < length (e_handles s)"
  unfolding eh_file_def eh_ok_def by linarith

context ext2_disk
begin

lemma ext2_write_ok:
  fixes s :: "'h ext2" and h :: int and bs :: "u8 list"
  defines "n \<equiv> eh_inode_num (ehandle s h)" and "pos \<equiv> eh_pos (ehandle s h)"
  defines "ino \<equiv> e2_inode_at s (blk s) n"
  assumes "geom s" "e2_layout s (blk s)" "1024 \<le> length junk" "eh_file content h s" "eh_flags (ehandle s h) AND VFS_O_WRONLY \<noteq> 0" "unat pos + length bs \<le> FILE_BYTES"
  obtains s' C where "ext2_write hw junk h (Some bs) s = Some (VFS_ERR_NO_SPACE, s')" "after s C s'" "\<And>m. m < e_total_blocks s \<Longrightarrow> blk_used s C m"
  | s' C ino' where "ext2_write hw junk h (Some bs) s = Some (int (length bs), s')" "file_wrote s (blk s) ino C ino' (unat pos) bs" "same_numbers s s'" "geom s'"
      "e_handles s' = e_handles (upd_eh h (\<lambda>h. h\<lparr>eh_pos := eh_pos h + of_nat (length bs)\<rparr>) s)" "e2_layout s (blk s')"
      "e2_inode_at s (blk s') n = ino'\<lparr>i_size := max (i_size ino) (pos + of_nat (length bs)), i_blocks := (max (i_size ino) (pos + of_nat (length bs)) + 511) div 512\<rparr>"
      "\<And>m. inode_no s m \<Longrightarrow> m \<noteq> n \<Longrightarrow> e2_inode_at s (blk s') m = e2_inode_at s C m" "\<And>m. m \<noteq> inode_blk s C n \<Longrightarrow> blk s' m = C m" "e2_meta s (blk s') = e2_meta s C"
      "\<And>m. m < e_total_blocks s \<Longrightarrow> blk_used s (blk s') m \<longleftrightarrow> blk_used s C m"
proof -
  note E = assms(7) [unfolded eh_file_def]
  have no: "inode_no s n" and wf: "file_wf s (blk s) ino" using E by (simp_all add: n_def ino_def)
  let ?sz = "of_nat (length bs) :: u32"
  have sz: "unat ?sz = length bs" using assms(9) by (simp add: unat_of_nat take_bit_nat_eq_self)
  obtain s1 where s1: "read_inode hw junk n s = Some (Some ino, s1)" "after s (blk s) s1"
    unfolding ino_def by (rule read_inode_ok [OF assms(4,5) no assms(6)])
  note n1 = same_numbers_after [OF s1(2)] and g1 = e2_after_geom [OF assms(4) s1(2)] and b1 = e2_after_blk [OF s1(2)]
  note fr1 = same_numbers_frame [OF n1] same_numbers_file [OF n1] same_numbersD(3) [OF n1]
  have L1: "e2_layout s1 (blk s1)" "file_wf s1 (blk s1) ino" using assms(5) wf by (simp_all add: fr1 b1)
  have le: "(0 :: u32) \<le> ?sz" "unat pos + unat ?sz \<le> FILE_BYTES" "length bs = unat ?sz" using sz assms(9) by simp_all
  have guards: "eh_ok h s" "\<not> (eh_flags (ehandle s h) AND VFS_O_WRONLY = 0 \<and> eh_flags (ehandle s h) AND VFS_O_RDWR \<noteq> VFS_O_RDWR)"
    using E assms(8) by simp_all
  have fw1: "file_wrote s1 = file_wrote s" by (simp add: file_wrote_def fun_eq_iff fr1)
  show thesis
  proof (rule write_loop [OF g1 L1 le assms(6)])
    fix ino' s' C assume F: "e2_write_loop hw junk pos bs ?sz 0 ino s1 = Some ((Inl VFS_ERR_NO_SPACE, ino'), s')" "after s1 C s'"
      "\<And>m. m < e_total_blocks s1 \<Longrightarrow> blk_used s1 C m"
    show thesis
      by (rule that(1) [OF _ e2_after_trans [OF s1(2) F(2)]])
        (use F(1,3) s1(1) guards fr1 in \<open>simp_all add: ext2_write_def n_def pos_def Let_def\<close>)
  next
    fix ino' s2 C assume F: "e2_write_loop hw junk pos bs ?sz 0 ino s1 = Some ((Inr ?sz, ino'), s2)" "after s1 C s2"
      "file_wrote s1 (blk s1) ino C ino' (unat pos + unat (0 :: u32)) (drop (unat (0 :: u32)) bs)"
    have w: "file_wrote s (blk s) ino C ino' (unat pos) bs" using F(3) by (simp add: fw1 b1)
    note W = file_wroteD [OF w] and a2 = e2_after_trans [OF s1(2) F(2)]
    note n2 = same_numbers_after [OF a2] and g2 = e2_after_geom [OF assms(4) a2] and b2 = e2_after_blk [OF a2] and h2 = e2_after_fields(11) [OF a2]
    let ?f = "\<lambda>h. h\<lparr>eh_pos := eh_pos h + ?sz\<rparr>"
    define s3 where "s3 = upd_eh h ?f s2"
    have n3: "same_numbers s s3" unfolding s3_def by (rule same_numbers_trans [OF n2 same_numbers_eh])
    note fr3 = same_numbers_frame [OF n3] same_numbers_file [OF n3] same_numbersD(3) [OF n3]
    have b3: "blk s3 = C" "geom s3" using b2 g2 by (simp_all add: s3_def)
    have p3: "eh_pos (ehandle s3 h) = pos + ?sz" using h2 eh_file_index [OF assms(7)] by (simp add: s3_def upd_eh_def pos_def)
    let ?size = "max (i_size ino') (pos + ?sz)"
    let ?ino = "ino'\<lparr>i_size := ?size, i_blocks := (?size + 511) div 512\<rparr>"
    have iw: "inode_wf ?ino" using W(3) by (simp add: file_wf_def inode_wf_def)
    have L3: "e2_layout s3 (blk s3)" "inode_no s3 n" using W(1) no by (simp_all add: fr3 b3)
    obtain s' D where D: "write_inode hw junk n ?ino s3 = Some (True, s')" "after s3 D s'" "e2_layout s3 D" "e2_meta s3 D = e2_meta s3 (blk s3)"
      "\<And>m. m \<noteq> inode_blk s3 (blk s3) n \<Longrightarrow> D m = blk s3 m" "e2_inode_at s3 D n = ?ino"
      "\<And>m. inode_no s3 m \<Longrightarrow> m \<noteq> n \<Longrightarrow> e2_inode_at s3 D m = e2_inode_at s3 (blk s3) m" "\<And>m. m < e_total_blocks s3 \<Longrightarrow> blk_used s3 D m \<longleftrightarrow> blk_used s3 (blk s3) m"
      "\<And>g. g \<in> e2_groups s3 \<Longrightarrow> e2_gd s3 D g = e2_gd s3 (blk s3) g"
      using write_inode_ok [OF b3(2) L3 assms(6) iw] by blast
    have b': "blk s' = D" by (rule e2_after_blk [OF D(2)])
    have "sint ?sz = int (length bs)" using sz assms(9) by (subst sint_small) simp_all
    then have r: "ext2_write hw junk h (Some bs) s = Some (int (length bs), s')"
      using s1(1) F(1) guards D(1) p3 by (simp add: ext2_write_def n_def pos_def s3_def Let_def)
    have size: "i_size ino' = i_size ino" using W(4) by (metis e2_inode.select_convs(3) e2_inode.surjective e2_inode.update_convs(13))
    have "same_numbers s s'" by (rule same_numbers_trans [OF n3 same_numbers_after [OF D(2)]])
    moreover have "e_handles s' = e_handles (upd_eh h ?f s)" using e2_after_fields(11) [OF D(2)] h2 by (simp add: s3_def upd_eh_def)
    moreover have "geom s'" by (rule e2_after_geom [OF b3(2) D(2)])
    ultimately show thesis
      using that(2) [OF r w] D(3-8) by (simp add: fr3 b3 b' size)
  qed
qed

end

end
