(* ===== verification/Ext2Correct.thy ===== *)
theory Ext2Correct
  imports Ext2Data
begin

text \<open>Properties of ext2 on an ATA drive: allocation, and what is written to a file.\<close>

section \<open>Reading through a handle\<close>

lemma file_wrote_inode:
  assumes "e2_layout s B" "file_wf s B ino" "file_wrote s B ino C ino' lo bs" "inode_no s n"
  shows "e2_inode_at s C n = e2_inode_at s B n" "inode_blk s C n = inode_blk s B n"
proof -
  note P = file_wroteD [OF assms(3)] and I = inode_blk_in [OF assms(1,4)]
  have meta: "m < e_total_blocks s" "blk_used s B m" "m \<notin> file_blocks B ino" if "m \<in> e2_meta s B" for m
    using assms(1,2) that by (auto simp: e2_layout_def file_wf_def data_block_def file_blocks_def)
  have gd: "C (gd_block s g) = B (gd_block s g)" if "g \<in> e2_groups s" for g
  proof -
    have m: "gd_block s g \<in> e2_meta s B" using that by (simp add: e2_meta_def)
    have "gd_block s g \<notin> bbm s B ` e2_groups s" using e2_layout_disj(1) [OF assms(1) _ that] by (metis imageE)
    then show ?thesis using P(7) meta [OF m] by blast
  qed
  have "inode_blk s B n \<notin> bbm s B ` e2_groups s" using I(5) by (metis imageE)
  then have "C (inode_blk s B n) = B (inode_blk s B n)" using P(7) meta [OF I(2)] by blast
  from e2_inode_cong [OF assms(1,4) gd this] show "e2_inode_at s C n = e2_inode_at s B n" "inode_blk s C n = inode_blk s B n" by simp_all
qed

context ext2_disk
begin

lemma ext2_lseek_ok:
  assumes "geom s" "e2_layout s (blk s)" "1024 \<le> length junk" "eh_file content h s" "p < 2 ^ 31"
  obtains s' where "ext2_lseek hw junk h (int p) 0 s = Some (int p, s')" "blk s' = blk s" "geom s'" "same_numbers s s'"
    "e_handles s' = e_handles (upd_eh h (\<lambda>h. h\<lparr>eh_pos := of_nat p\<rparr>) s)"
proof -
  note E = assms(4) [unfolded eh_file_def]
  let ?n = "eh_inode_num (ehandle s h)"
  have "inode_no s ?n" using E by blast
  then obtain s1 where s1: "read_inode hw junk ?n s = Some (Some (e2_inode_at s (blk s) ?n), s1)" "after s (blk s) s1"
    by (rule read_inode_ok [OF assms(1,2) _ assms(3)])
  have t: "to_i32 (int p) = int p" by (rule to_i32_id) (use assms(5) in simp_all)
  let ?s = "upd_eh h (\<lambda>h. h\<lparr>eh_pos := of_nat p\<rparr>) s1"
  have "ext2_lseek hw junk h (int p) 0 s = Some (int p, ?s)" using s1(1) E t by (simp add: ext2_lseek_def)
  moreover have "e_handles ?s = e_handles (upd_eh h (\<lambda>h. h\<lparr>eh_pos := of_nat p\<rparr>) s)" using e2_after_fields(11) [OF s1(2)] by (simp add: upd_eh_def)
  moreover have "same_numbers s ?s" by (rule same_numbers_trans [OF same_numbers_after [OF s1(2)] same_numbers_eh])
  ultimately show ?thesis using that [of ?s] e2_after_blk [OF s1(2)] e2_after_geom [OF assms(1) s1(2)] by simp
qed

lemma ext2_read_ok:
  fixes s :: "'h ext2" and h :: int and sz :: u32
  defines "n \<equiv> eh_inode_num (ehandle s h)" and "pos \<equiv> eh_pos (ehandle s h)"
  defines "ino \<equiv> e2_inode_at s (blk s) n"
  assumes "geom s" "e2_layout s (blk s)" "1024 \<le> length junk" "eh_file content h s" "eh_flags (ehandle s h) AND VFS_O_RDONLY \<noteq> 0"
    "unat pos + unat sz \<le> unat (i_size ino)" "unat pos + unat sz \<le> FILE_BYTES"
    "\<And>x. unat pos \<le> x \<Longrightarrow> x < unat pos + unat sz \<Longrightarrow> file_ptr (blk s) ino (x div 1024) \<noteq> 0"
  obtains s' where "ext2_read hw junk h True sz s = Some ((int (unat sz), map (file_byte (blk s) ino) [unat pos..<unat pos + unat sz]), s')"
proof -
  note E = assms(7) [unfolded eh_file_def]
  have no: "inode_no s n" and wf: "file_wf s (blk s) ino" using E by (simp_all add: n_def ino_def)
  obtain s1 where s1: "read_inode hw junk n s = Some (Some ino, s1)" "after s (blk s) s1"
    unfolding ino_def by (rule read_inode_ok [OF assms(4,5) no assms(6)])
  note n1 = same_numbers_after [OF s1(2)] and g1 = e2_after_geom [OF assms(4) s1(2)] and b1 = e2_after_blk [OF s1(2)]
  note fr1 = same_numbers_frame [OF n1] same_numbers_file [OF n1]
  have L1: "e2_layout s1 (blk s1)" "file_wf s1 (blk s1) ino" using assms(5) wf by (simp_all add: fr1 b1)
  have guards: "eh_ok h s" "\<not> (eh_flags (ehandle s h) AND VFS_O_RDONLY = 0 \<and> eh_flags (ehandle s h) AND VFS_O_RDWR \<noteq> VFS_O_RDWR)"
    using E assms(8) by simp_all
  show ?thesis
  proof (cases "i_size ino \<le> pos")
    case True
    then have "unat sz = 0" using assms(9) by (simp add: word_le_nat_alt)
    moreover have "ext2_read hw junk h True sz s = Some ((0, []), s1)" using s1(1) guards True by (simp add: ext2_read_def n_def pos_def Let_def)
    ultimately show ?thesis using that by simp
  next
    case False
    then have "unat (i_size ino - pos) = unat (i_size ino) - unat pos" by (simp add: unat_sub)
    then have "sz \<le> i_size ino - pos" using assms(9) unfolding word_le_nat_alt by linarith
    then have m: "min sz (i_size ino - pos) = sz" by (rule min_absorb1)
    have nz: "\<And>x. unat pos \<le> x \<Longrightarrow> x < unat pos + unat sz \<Longrightarrow> file_ptr (blk s1) ino (x div 1024) \<noteq> 0" using assms(11) b1 by simp
    have le: "(0 :: u32) \<le> sz" by simp
    from read_loop [OF g1 L1 le assms(10,6) nz, of "[]"] obtain s2 where
      s2: "e2_read_loop hw junk ino pos sz 0 [] s1 = Some (Some (map (file_byte (blk s) ino) [unat pos..<unat pos + unat sz]), s2)"
      using b1 by auto
    have "sint (of_nat (unat sz) :: u32) = int (unat sz)" using assms(10) by (subst sint_small) simp_all
    moreover have "(i_size ino \<le> pos) = False" using False by simp
    ultimately have "ext2_read hw junk h True sz s =
        Some ((int (unat sz), map (file_byte (blk s) ino) [unat pos..<unat pos + unat sz]), upd_eh h (\<lambda>h. h\<lparr>eh_pos := eh_pos h + sz\<rparr>) s2)"
      using guards(1) assms(8) s1(1) m s2 by (simp add: ext2_read_def n_def pos_def Let_def del: not_le)
    then show ?thesis by (rule that)
  qed
qed

text \<open>A write followed by a seek back and a read.\<close>

lemma write_read_back:
  fixes s :: "'h ext2" and h :: int and bs :: "u8 list"
  defines "n \<equiv> eh_inode_num (ehandle s h)" and "pos \<equiv> eh_pos (ehandle s h)"
  defines "B \<equiv> blk s"
  assumes "geom s" "e2_layout s B" "1024 \<le> length junk" "eh_file content h s" "eh_flags (ehandle s h) AND VFS_O_WRONLY \<noteq> 0"
    "eh_flags (ehandle s h) AND VFS_O_RDONLY \<noteq> 0" "unat pos + length bs \<le> FILE_BYTES"
  obtains s1 where "ext2_write hw junk h (Some bs) s = Some (VFS_ERR_NO_SPACE, s1)" "\<And>m. m < e_total_blocks s \<Longrightarrow> blk_used s (blk s1) m"
  | s1 s2 s3 where "ext2_write hw junk h (Some bs) s = Some (int (length bs), s1)" "ext2_lseek hw junk h (int (unat pos)) 0 s1 = Some (int (unat pos), s2)"
      "ext2_read hw junk h True (of_nat (length bs)) s2 = Some ((int (length bs), bs), s3)" "e2_layout s1 (blk s1)" "geom s1"
      "\<And>m. inode_no s m \<Longrightarrow> m \<noteq> n \<Longrightarrow> e2_inode_at s1 (blk s1) m = e2_inode_at s B m"
      "\<And>m x. inode_no s m \<Longrightarrow> m \<noteq> n \<Longrightarrow> file_wf s B (e2_inode_at s B m) \<Longrightarrow> file_blocks B (e2_inode_at s B m) \<inter> file_blocks B (e2_inode_at s B n) = {} \<Longrightarrow>
        x < FILE_BYTES \<Longrightarrow> file_ptr B (e2_inode_at s B m) (x div 1024) \<noteq> 0 \<Longrightarrow>
        file_byte (blk s1) (e2_inode_at s B m) x = file_byte B (e2_inode_at s B m) x"
proof -
  define ino where "ino = e2_inode_at s B n"
  note E = assms(7) [unfolded eh_file_def]
  have no: "inode_no s n" and wf: "file_wf s B ino" using E by (simp_all add: n_def ino_def B_def)
  have sz: "unat (of_nat (length bs) :: u32) = length bs" using assms(10) by (simp add: unat_of_nat take_bit_nat_eq_self)
  show thesis
  proof (rule ext2_write_ok [OF assms(4) assms(5) [unfolded B_def] assms(6-8) assms(10) [unfolded pos_def], folded pos_def n_def B_def, folded ino_def])
    fix s' C assume A: "ext2_write hw junk h (Some bs) s = Some (VFS_ERR_NO_SPACE, s')" "after s C s'" "\<And>m. m < e_total_blocks s \<Longrightarrow> blk_used s C m"
    show thesis by (rule that(1) [OF A(1)]) (use A(3) e2_after_blk [OF A(2)] in simp)
  next
    fix s1 C ino'
    assume A: "ext2_write hw junk h (Some bs) s = Some (int (length bs), s1)" "file_wrote s B ino C ino' (unat pos) bs" "same_numbers s s1" "geom s1"
      "e_handles s1 = e_handles (upd_eh h (\<lambda>h. h\<lparr>eh_pos := eh_pos h + of_nat (length bs)\<rparr>) s)" "e2_layout s (blk s1)"
      "e2_inode_at s (blk s1) n = ino'\<lparr>i_size := max (i_size ino) (pos + of_nat (length bs)), i_blocks := (max (i_size ino) (pos + of_nat (length bs)) + 511) div 512\<rparr>"
      "\<And>m. inode_no s m \<Longrightarrow> m \<noteq> n \<Longrightarrow> e2_inode_at s (blk s1) m = e2_inode_at s C m" "\<And>m. m \<noteq> inode_blk s C n \<Longrightarrow> blk s1 m = C m" "e2_meta s (blk s1) = e2_meta s C"
      "\<And>m. m < e_total_blocks s \<Longrightarrow> blk_used s (blk s1) m \<longleftrightarrow> blk_used s C m"
    define D where "D = blk s1"
    define ino2 where "ino2 = e2_inode_at s D n"
    note W = file_wroteD [OF A(2)]
    note fr = same_numbers_frame [OF A(3)] same_numbers_file [OF A(3)] same_numbersD [OF A(3)]
    have im: "inode_blk s C n \<in> e2_meta s C" by (rule inode_blk_in(2) [OF W(1) no])
    have ib: "i_block ino2 = i_block ino'" "inode_wf ino2" using A(7) W(3) by (simp_all add: ino2_def D_def file_wf_def inode_wf_def)
    note M = file_meta_write [OF W(3) im A(9) A(10,11) ib, folded D_def]
    have hs: "ehandle s1 h = (ehandle s h)\<lparr>eh_pos := pos + of_nat (length bs)\<rparr>" "length (e_handles s1) = EXT2_MAX_HANDLES"
      using A(5) eh_file_index [OF assms(7)] E by (simp_all add: upd_eh_def pos_def)
    have ok1: "eh_file content h s1" using E hs M(2) no by (auto simp: eh_file_def eh_ok_def fr n_def [symmetric] ino2_def D_def)
    have L1: "e2_layout s1 (blk s1)" using A(6) by (simp add: fr)
    have p31: "unat pos < 2 ^ 31" using assms(10) by simp
    obtain s2 where s2: "ext2_lseek hw junk h (int (unat pos)) 0 s1 = Some (int (unat pos), s2)" "blk s2 = D" "geom s2" "same_numbers s1 s2"
      "e_handles s2 = e_handles (upd_eh h (\<lambda>h. h\<lparr>eh_pos := of_nat (unat pos)\<rparr>) s1)"
      using ext2_lseek_ok [OF A(4) L1 assms(6) ok1 p31] unfolding D_def by blast
    note n2 = same_numbers_trans [OF A(3) s2(4)]
    note fr2 = same_numbers_frame [OF n2] same_numbers_file [OF n2]
    have h2: "ehandle s2 h = ehandle s h" "length (e_handles s2) = EXT2_MAX_HANDLES"
      using s2(5) hs eh_file_index [OF ok1] by (simp_all add: upd_eh_def pos_def)
    have ok2: "eh_file content h s2" using E h2 M(2) no by (auto simp: eh_file_def eh_ok_def fr2 n_def [symmetric] ino2_def s2(2))
    have L2: "e2_layout s2 (blk s2)" using A(6) by (simp add: fr2 s2(2) D_def)
    have add: "unat (pos + of_nat (length bs)) = unat pos + length bs" using sz assms(10) by (subst unat_add_small) simp_all
    have size: "unat pos + length bs \<le> unat (i_size ino2)" using A(7) add by (simp add: ino2_def D_def max_def word_le_nat_alt)
    have ino2': "e2_inode_at s2 (blk s2) (eh_inode_num (ehandle s h)) = ino2" by (simp add: fr2 s2(2) n_def [symmetric] ino2_def)
    have nz: "file_ptr (blk s2) ino2 (x div 1024) \<noteq> 0" "file_byte (blk s2) ino2 x = bs ! (x - unat pos)" if "unat pos \<le> x" "x < unat pos + length bs" for x
    proof -
      have x: "x < FILE_BYTES" using that assms(10) by linarith
      show "file_ptr (blk s2) ino2 (x div 1024) \<noteq> 0" "file_byte (blk s2) ino2 x = bs ! (x - unat pos)"
        using W(9) [OF x that] M(1,4) x by (simp_all add: s2(2))
    qed
    have "map (file_byte (blk s2) ino2) [unat pos..<unat pos + length bs] = bs"
      by (rule nth_equalityI) (use nz(2) in simp_all)
    moreover obtain s3 where "ext2_read hw junk h True (of_nat (length bs)) s2 =
        Some ((int (length bs), map (file_byte (blk s2) ino2) [unat pos..<unat pos + length bs]), s3)"
    proof (rule ext2_read_ok [OF s2(3) L2 assms(6) ok2, of "of_nat (length bs)", unfolded h2 ino2', folded pos_def, unfolded sz])
      show "eh_flags (ehandle s h) AND VFS_O_RDONLY \<noteq> 0" "unat pos + length bs \<le> unat (i_size ino2)" "unat pos + length bs \<le> FILE_BYTES"
        by (fact assms(9) size assms(10))+
      show "file_ptr (blk s2) ino2 (x div 1024) \<noteq> 0" if "unat pos \<le> x" "x < unat pos + length bs" for x by (rule nz(1) [OF that])
    qed
    ultimately have r: "ext2_read hw junk h True (of_nat (length bs)) s2 = Some ((int (length bs), bs), s3)" by simp
    have inodes: "e2_inode_at s1 (blk s1) m = e2_inode_at s B m" if "inode_no s m" "m \<noteq> n" for m
      using A(8) [OF that] file_wrote_inode(1) [OF assms(5) wf A(2) that(1)] by (simp add: fr)
    have bytes: "file_byte (blk s1) (e2_inode_at s B m) x = file_byte B (e2_inode_at s B m) x"
      if m: "inode_no s m" "m \<noteq> n" "file_wf s B (e2_inode_at s B m)" "file_blocks B (e2_inode_at s B m) \<inter> file_blocks B (e2_inode_at s B n) = {}"
        "x < FILE_BYTES" "file_ptr B (e2_inode_at s B m) (x div 1024) \<noteq> 0" for m x
    proof -
      note O = other_file_kept [OF assms(5) A(2) m(3) m(4) [folded ino_def]]
      have "inode_wf (e2_inode_at s B m)" using m(3) by (simp add: file_wf_def)
      from file_meta_write(4) [OF O(2) im A(9,10,11) refl this m(5)] show ?thesis using O(1,3) m(5,6) by simp
    qed
    show thesis by (rule that(2) [OF A(1) s2(1) r L1 A(4) inodes bytes])
  qed
qed

end

end
