(* ===== verification/Ext2Props.thy ===== *)
theory Ext2Props
  imports Ext2Correct
begin

text \<open>
  The properties of ext2 on an ATA drive: the block allocator as a set of free blocks, and a write that is read back. The witnesses run on a small file system of
  eight blocks.
\<close>

interpretation e2ata: ext2_disk hw_ata ata_content ata_ok ata_valid
  by unfold_locales

abbreviation e2blk :: "ata_dev ext2 \<Rightarrow> u32 \<Rightarrow> u8 list" where "e2blk \<equiv> e2_blk ata_content"
abbreviation e2geom :: "ata_dev ext2 \<Rightarrow> bool" where "e2geom \<equiv> e2_geom ata_ok ata_valid"

section \<open>A small file system\<close>

text \<open>
  Blocks of 1024 bytes: the superblock in block 1, one group descriptor in block 2, the block bitmap in block 3, the inode bitmap in block 4, eight inodes in
  block 5; blocks 6 and 7 are free. Handle 0 is open for reading and writing on inode 3, an empty file.
\<close>

definition small_store :: "nat \<Rightarrow> sector" where
  "small_store a = (if a = 4 then [3, 0, 4, 0, 5, 0] @ replicate 250 0 else if a = 6 then 0x1F # replicate 255 0 else replicate 256 0)"

definition small_ext2 :: "ata_dev ext2" where
  "small_ext2 = \<lparr>e_mounted = True, e_partition_lba = 0, e_block_size = 1024, e_sectors_per_block = 2, e_inodes_per_group = 8, e_blocks_per_group = 8192,
     e_inode_size = 128, e_inode_table_block = 5, e_block_bitmap_block = 3, e_inode_bitmap_block = 4, e_group_desc_block = 2, e_group_desc_count = 1,
     e_total_inodes = 8, e_total_blocks = 8,
     e_sb = \<lparr>sb_inode_count = 8, sb_block_count = 8, sb_first_data_block = 1, sb_log_block_size = 0, sb_blocks_per_group = 8192, sb_inodes_per_group = 8,
       sb_magic = 0xEF53, sb_rev_level = 0, sb_first_ino = 11, sb_inode_size = 128\<rparr>,
     e_handles = \<lparr>eh_used = True, eh_ref_count = 1, eh_inode_num = 3, eh_pos = 0, eh_flags = VFS_O_RDWR\<rparr> #
       replicate 255 \<lparr>eh_used = False, eh_ref_count = 0, eh_inode_num = 0, eh_pos = 0, eh_flags = 0\<rparr>,
     e_dev = (pc_dev ata_blank)\<lparr>hwst := (hwst (pc_dev ata_blank))\<lparr>av_store := small_store\<rparr>\<rparr>\<rparr>"

lemma small_ext2_simps [simp]:
  "e_partition_lba small_ext2 = 0" "e_block_size small_ext2 = 1024" "e_sectors_per_block small_ext2 = 2" "e_inodes_per_group small_ext2 = 8"
  "e_blocks_per_group small_ext2 = 8192" "e_total_inodes small_ext2 = 8" "e_total_blocks small_ext2 = 8" "e_inode_size small_ext2 = 128"
  "e_group_desc_block small_ext2 = 2" "e_group_desc_count small_ext2 = 1" "sb_first_data_block (e_sb small_ext2) = 1"
  "e_handles small_ext2 ! 0 = \<lparr>eh_used = True, eh_ref_count = 1, eh_inode_num = 3, eh_pos = 0, eh_flags = VFS_O_RDWR\<rparr>"
  "length (e_handles small_ext2) = 256"
  by (simp_all add: small_ext2_def)

lemma length_small_store [simp]: "length (small_store a) = 256"
  by (simp add: small_store_def)

lemma small_ok: "ata_ok (e_dev small_ext2)"
  by (simp add: small_ext2_def ata_ok_def ata_blank_def)

lemma small_blk: "n < 8 \<Longrightarrow> e2blk small_ext2 n = sector_bytes (small_store (2 * unat n)) @ sector_bytes (small_store (2 * unat n + 1))"
proof -
  assume n: "n < 8"
  then have u: "unat n < 8" by (simp add: word_less_nat_alt)
  have "unat (n * 2) = 2 * unat n" using u by (subst unat_mult_lem [THEN iffD1]) simp_all
  moreover then have "unat (n * 2 + 1) = 2 * unat n + 1" using u by (subst unat_add_small) simp_all
  ultimately show ?thesis using n u by (simp add: e2_blk_def block_to_lba_def ata_content_def) (simp add: small_ext2_def)
qed

lemma small_geom: "e2geom small_ext2"
proof -
  have "block_to_lba n small_ext2 < 0x10000000 \<and> block_to_lba n small_ext2 + 1 < 0x10000000" if "n < 8" for n
  proof -
    have u: "unat n < 8" using that by (simp add: word_less_nat_alt)
    have "unat (n * 2) = 2 * unat n" using u by (subst unat_mult_lem [THEN iffD1]) simp_all
    moreover then have "unat (n * 2 + 1) = 2 * unat n + 1" using u by (subst unat_add_small) simp_all
    ultimately show ?thesis using u by (simp add: block_to_lba_def word_less_nat_alt)
  qed
  then show ?thesis using small_ok by (simp add: e2_geom_def ata_valid_def)
qed

lemma sector_bytes_simps:
  "sector_bytes (replicate n 0) = replicate (2 * n) 0" "sector_bytes (w # ws) = ucast w # ucast (drop_bit 8 w) # sector_bytes ws"
  by (induction n) (simp_all add: sector_bytes_def)

lemma small_blocks:
  "e2blk small_ext2 2 = [3, 0, 0, 0, 4, 0, 0, 0, 5, 0, 0, 0] @ replicate 1012 0"
  "e2blk small_ext2 3 = 0x1F # replicate 1023 0" "e2blk small_ext2 5 = replicate 1024 0"
proof -
  have "replicate 500 0 @ replicate 512 0 = replicate 1012 (0 :: u8)" "0 # replicate 510 0 @ replicate 512 0 = replicate 1023 (0 :: u8)"
    "replicate 512 0 @ replicate 512 0 = replicate 1024 (0 :: u8)" by (simp_all flip: replicate_add replicate_Suc)
  then show "e2blk small_ext2 2 = [3, 0, 0, 0, 4, 0, 0, 0, 5, 0, 0, 0] @ replicate 1012 0"
    "e2blk small_ext2 3 = 0x1F # replicate 1023 0" "e2blk small_ext2 5 = replicate 1024 0"
    by (simp_all add: small_blk small_store_def sector_bytes_simps)
qed

lemma small_gd: "e2_gd small_ext2 (e2blk small_ext2) 0 =
  \<lparr>gd_block_bitmap = 3, gd_inode_bitmap = 4, gd_inode_table = 5, gd_free_blocks_count = 0, gd_free_inodes_count = 0, gd_used_dirs_count = 0\<rparr>"
  by (simp add: e2_gd_def gd_block_def small_blocks bytes_group_desc_def read_le32_def read_le16_def)

lemma small_groups [simp]: "e2_groups small_ext2 = {0}"
  by (auto simp: e2_groups_def word_less_nat_alt unat_eq_0)

lemma small_itab: "e2_itab small_ext2 (e2blk small_ext2) 0 = {5}"
proof -
  have "itab_block small_ext2 (e2blk small_ext2) 0 k = 5" if "k < 8" for k
  proof -
    have u: "unat k < 8" using that by (simp add: word_less_nat_alt)
    have "unat (k * 128) = unat k * 128" using u by (subst unat_mult_lem [THEN iffD1]) simp_all
    then have "unat (k * 128 div 1024) = 0" using u by (simp add: unat_div)
    then have "k * 128 div 1024 = 0" by (simp only: unat_eq_0)
    then show ?thesis by (simp add: itab_block_def small_gd)
  qed
  then have "e2_itab small_ext2 (e2blk small_ext2) 0 = (\<lambda>_. 5) ` {k :: u32. k < 8}" unfolding e2_itab_def by (intro image_cong) simp_all
  moreover have "0 \<in> {k :: u32. k < 8}" by simp
  ultimately show ?thesis by (metis empty_iff image_constant)
qed

lemma small_meta: "e2_meta small_ext2 (e2blk small_ext2) = {2, 3, 4, 5}"
  by (auto simp: e2_meta_def small_gd small_itab gd_block_def)

lemma small_numbers: "n < 8 \<Longrightarrow> n \<in> {0, 1, 2, 3, 4, 5, 6, 7 :: u32}"
proof -
  assume "n < 8"
  then have "unat n \<in> {0, 1, 2, 3, 4, 5, 6, 7}" by (auto simp: word_less_nat_alt)
  then have "of_nat (unat n) \<in> (of_nat :: nat \<Rightarrow> u32) ` {0, 1, 2, 3, 4, 5, 6, 7}" by (rule imageI)
  then show ?thesis by simp
qed

lemma small_used: "n < 8 \<Longrightarrow> blk_used small_ext2 (e2blk small_ext2) n \<longleftrightarrow> n < 6"
  by (drule small_numbers) (auto simp: blk_used_def e2_used_def small_gd small_blocks bm_bit_def)

lemma small_layout: "e2_layout small_ext2 (e2blk small_ext2)"
  by (simp add: e2_layout_def small_meta small_used small_gd small_itab gd_block_def)

lemma small_inode: "inode_no small_ext2 3" "e2_inode_at small_ext2 (e2blk small_ext2) 3 = bytes_inode (replicate 128 0)"
proof -
  show "inode_no small_ext2 3" by (simp add: inode_no_def)
  have "inode_blk small_ext2 (e2blk small_ext2) 3 = 5" "inode_off small_ext2 3 = 256"
    by (simp_all add: inode_blk_def inode_group_def inode_index_def inode_off_def itab_block_def small_gd)
  then show "e2_inode_at small_ext2 (e2blk small_ext2) 3 = bytes_inode (replicate 128 0)" by (simp add: e2_inode_at_def small_blocks)
qed

lemma small_file: "eh_file ata_content 0 small_ext2"
proof -
  have nth: "read_le32 (replicate 128 0) k = 0" if "k + 4 \<le> 128" for k using that by (simp add: read_le32_def)
  have "map (\<lambda>k. read_le32 (replicate 128 0) (40 + 4 * k)) [0..<15] = map (\<lambda>_. 0) [0..<15]" by (rule map_cong) (simp_all add: nth)
  then have "i_block (bytes_inode (replicate 128 0)) = replicate 15 0" by (simp add: bytes_inode_def map_replicate_const)
  then have "file_ptr B (bytes_inode (replicate 128 0)) k = 0" for B k by (simp add: file_ptr_def)
  moreover have "inode_wf (bytes_inode (replicate 128 0))" by (rule bytes_inode_wf) simp
  ultimately show ?thesis using small_inode \<open>i_block _ = _\<close> by (simp add: eh_file_def eh_ok_def file_wf_def)
qed

section \<open>The block allocator\<close>

definition free_set :: "ata_dev ext2 \<Rightarrow> u32 set" where
  "free_set s = {n. n < e_total_blocks s \<and> \<not> blk_used s (e2blk s) n}"

lemma free_set_after:
  assumes "e2_after ata_content ata_ok s C s'"
  shows "free_set s' = {n. n < e_total_blocks s \<and> \<not> blk_used s C n}"
  using assms by (simp add: free_set_def e2_after_blk [OF assms] same_numbers_frame [OF same_numbers_after [OF assms]] e2_after_fields [OF assms])

lemma layout_after: "e2_after ata_content ata_ok s C s' \<Longrightarrow> e2_layout s C \<Longrightarrow> e2_layout s' (e2blk s')"
  by (simp add: e2_after_blk same_numbers_frame [OF same_numbers_after])

text \<open>
  C12. The block allocator is a set of free blocks: it gives the least of them and takes it out of the set, or -1 when the set is empty; nothing but block bitmaps
  changes on the disk.
\<close>

theorem ext2_alloc_block_refines:
  assumes "e2geom s" "e2_layout s (e2blk s)" "1024 \<le> length junk"
  shows "\<exists>r s'. alloc_block hw_ata junk s = Some (r, s') \<and> e2geom s' \<and> e2_layout s' (e2blk s') \<and>
    (if free_set s = {} then r = -1 \<and> e2blk s' = e2blk s
     else r = int (unat (Min (free_set s))) \<and> free_set s' = free_set s - {Min (free_set s)} \<and>
       (\<forall>n. n \<notin> gd_block_bitmap ` e2_gd s (e2blk s) ` e2_groups s \<longrightarrow> e2blk s' n = e2blk s n))"
proof (rule e2ata.alloc_block_ok [OF assms])
  fix s' assume a: "alloc_block hw_ata junk s = Some (-1, s')" "e2_after ata_content ata_ok s (e2blk s) s'" "\<And>n. n < e_total_blocks s \<Longrightarrow> blk_used s (e2blk s) n"
  have "free_set s = {}" using a(3) by (auto simp: free_set_def)
  then show ?thesis using a e2_after_geom [OF assms(1) a(2)] layout_after [OF a(2) assms(2)] e2_after_blk [OF a(2)] by auto
next
  fix n s' C
  assume a: "alloc_block hw_ata junk s = Some (int (unat n), s')" "n < e_total_blocks s" "\<not> blk_used s (e2blk s) n" "\<And>m. m < n \<Longrightarrow> blk_used s (e2blk s) m"
    "e2_after ata_content ata_ok s C s'" "e2_layout s C" "\<And>m. m < e_total_blocks s \<Longrightarrow> blk_used s C m \<longleftrightarrow> m = n \<or> blk_used s (e2blk s) m"
    "\<And>m. m \<notin> bbm s (e2blk s) ` e2_groups s \<Longrightarrow> C m = e2blk s m"
  have n: "n \<in> free_set s" using a(2,3) by (simp add: free_set_def)
  have least: "Min (free_set s) = n"
    by (rule Min_eqI) (use n a(4) in \<open>auto simp: free_set_def not_less [symmetric]\<close>)
  have "free_set s' = free_set s - {n}" unfolding free_set_after [OF a(5)] by (auto simp: free_set_def a(7))
  then show ?thesis using a(1,8) n e2_after_geom [OF assms(1) a(5)] layout_after [OF a(5,6)] e2_after_blk [OF a(5)]
    by (auto simp: least image_image)
qed

theorem ext2_alloc_block_refines_witness:
  "\<exists>s'. alloc_block hw_ata (replicate 1024 0) small_ext2 = Some (6, s') \<and> free_set s' = {7} \<and> e2blk s' 5 = replicate 1024 0"
proof -
  have "n = 6 \<or> n = 7" if "n < 8" "\<not> n < 6" for n :: u32 using small_numbers [OF that(1)] that(2) by (elim insertE) simp_all
  then have "{n :: u32. n < 8 \<and> \<not> n < 6} \<subseteq> {6, 7}" by blast
  moreover have "free_set small_ext2 = {n. n < 8 \<and> \<not> n < 6}" by (auto simp: free_set_def small_used)
  ultimately have "free_set small_ext2 = {6, 7}" by auto
  then show ?thesis using ext2_alloc_block_refines [OF small_geom small_layout, of "replicate 1024 0"] by (auto simp: small_gd small_blocks)
qed

section \<open>Files\<close>

text \<open>
  C5. Through a handle open for reading and writing, a write that stays within the 268 blocks a file can have (12 direct ones and the 256 of the indirect block)
  either writes all its bytes or fails because no block is free. The bytes written are read back after seeking to where the write began; the file system stays
  well laid out, no other inode changes, and no byte of a file that shares no block with this one changes. (Beyond 268 blocks a write fails even when blocks are free.)
\<close>

theorem ext2_write_read_back:
  assumes "e2geom s" "e2_layout s (e2blk s)" "1024 \<le> length junk" "eh_file ata_content h s" "eh_flags (ehandle s h) AND VFS_O_WRONLY \<noteq> 0"
    "eh_flags (ehandle s h) AND VFS_O_RDONLY \<noteq> 0" "unat (eh_pos (ehandle s h)) + length bs \<le> FILE_BYTES"
  shows "(\<exists>s1. ext2_write hw_ata junk h (Some bs) s = Some (VFS_ERR_NO_SPACE, s1) \<and> (\<forall>m < e_total_blocks s. blk_used s (e2blk s1) m)) \<or>
    (\<exists>s1 s2 s3. ext2_write hw_ata junk h (Some bs) s = Some (int (length bs), s1) \<and> e2_layout s1 (e2blk s1) \<and>
      ext2_lseek hw_ata junk h (int (unat (eh_pos (ehandle s h)))) 0 s1 = Some (int (unat (eh_pos (ehandle s h))), s2) \<and>
      ext2_read hw_ata junk h True (of_nat (length bs)) s2 = Some ((int (length bs), bs), s3) \<and>
      (\<forall>m. inode_no s m \<and> m \<noteq> eh_inode_num (ehandle s h) \<longrightarrow> e2_inode_at s1 (e2blk s1) m = e2_inode_at s (e2blk s) m) \<and>
      (\<forall>m x. inode_no s m \<and> m \<noteq> eh_inode_num (ehandle s h) \<and> file_wf s (e2blk s) (e2_inode_at s (e2blk s) m) \<and>
        file_blocks (e2blk s) (e2_inode_at s (e2blk s) m) \<inter> file_blocks (e2blk s) (e2_inode_at s (e2blk s) (eh_inode_num (ehandle s h))) = {} \<and>
        x < FILE_BYTES \<and> file_ptr (e2blk s) (e2_inode_at s (e2blk s) m) (x div 1024) \<noteq> 0 \<longrightarrow>
        file_byte (e2blk s1) (e2_inode_at s (e2blk s) m) x = file_byte (e2blk s) (e2_inode_at s (e2blk s) m) x))"
proof (rule e2ata.write_read_back [OF assms])
  show ?thesis if "ext2_write hw_ata junk h (Some bs) s = Some (VFS_ERR_NO_SPACE, s1)" "\<And>m. m < e_total_blocks s \<Longrightarrow> blk_used s (e2blk s1) m" for s1
    using that by blast
qed blast

theorem ext2_write_read_back_witness:
  "\<exists>r s1. ext2_write hw_ata (replicate 1024 0) 0 (Some (replicate 1500 7)) small_ext2 = Some (r, s1) \<and>
     (r = VFS_ERR_NO_SPACE \<or> (r = 1500 \<and> (\<exists>s2 s3. ext2_lseek hw_ata (replicate 1024 0) 0 0 0 s1 = Some (0, s2) \<and>
       ext2_read hw_ata (replicate 1024 0) 0 True 1500 s2 = Some ((1500, replicate 1500 7), s3))))"
proof -
  have "1024 \<le> length (replicate 1024 (0 :: u8))" by simp
  note w = ext2_write_read_back [OF small_geom small_layout this small_file, of "replicate 1500 7"]
  show ?thesis using w by auto
qed

end
