(* ===== verification/Ext2Dir.thy ===== *)
theory Ext2Dir
  imports Ext2Props
begin

text \<open>
  The blocks of an ext2 directory: a block is a list of entries, a lookup is a search in this list, and adding an entry inserts one element. An entry that
  fills its room exactly is terminated inside the next record, whose inode number loses its low byte.
\<close>

section \<open>A block as a list of entries\<close>

abbreviation rec_len_at :: "u8 list \<Rightarrow> nat \<Rightarrow> nat" where
  "rec_len_at block off \<equiv> unat (ent_rec_len block off)"

definition name_room :: "nat \<Rightarrow> nat" where
  "name_room n = 4 * ((n + 11) div 4)"

lemma name_room_bounds: "n + 8 \<le> name_room n" "name_room n \<le> n + 11" "4 dvd name_room n"
  unfolding name_room_def by linarith+ simp

lemma unat_and_not_3: "unat (x AND NOT 3 :: u32) = 4 * (unat x div 4)"
proof -
  have s2: "Suc (Suc (n - 2)) = n" if "2 \<le> n" for n using that by simp
  have three: "(3 :: u32) = mask 2" by (simp add: mask_eq_exp_minus_1)
  have "x AND NOT 3 = push_bit 2 (drop_bit 2 x)" unfolding three by (rule bit_word_eqI) (auto simp: bit_simps not_less s2)
  moreover have "unat (drop_bit 2 x) = unat x div 4" by (simp add: unsigned_drop_bit_eq drop_bit_eq_div unat_div)
  moreover have "unat x div 4 * 4 < 2 ^ 32" using unsigned_less [of x, where 'a = nat] by simp
  ultimately show ?thesis by (simp add: push_bit_eq_mult unat_word_ariths)
qed

lemma unat_rec_room: "unat n \<le> 255 \<Longrightarrow> unat (rec_room n) = name_room (unat n)"
proof -
  assume n: "unat n \<le> 255"
  then have "unat (8 + n + 3) = unat n + 11" by (simp add: unat_word_ariths)
  then have "unat ((8 + n + 3) AND NOT 3) = name_room (unat n)" by (simp only: unat_and_not_3 name_room_def)
  then show ?thesis using n name_room_bounds(2) [of "unat n"] by (simp add: rec_room_def unsigned_ucast_eq take_bit_nat_eq_self)
qed

lemma rec_room_u8: "unat (rec_room (ucast (k :: u8))) = name_room (unat k)"
proof -
  have b: "unat k \<le> 255" using unsigned_less [of k, where 'a = nat] by simp
  then have "unat (ucast k :: u32) = unat k" by (simp add: unsigned_ucast_eq take_bit_nat_eq_self)
  with b show ?thesis by (metis unat_rec_room)
qed

function dir_entries :: "nat \<Rightarrow> u8 list \<Rightarrow> nat \<Rightarrow> (u32 \<times> string) list option" where
  "dir_entries bs block off =
     (if off = bs then Some []
      else if off + 8 > bs \<or> rec_len_at block off < name_room (unat (ent_name_len block off)) \<or> off + rec_len_at block off > bs then None
      else map_option ((#) (ent_inode block off, ent_name block off)) (dir_entries bs block (off + rec_len_at block off)))"
  by pat_completeness auto
termination
proof (relation "measure (\<lambda>(bs, block, off). bs - off)", goal_cases)
  case (2 bs block off)
  then show ?case using name_room_bounds(1) [of "unat (ent_name_len block off)"] by auto
qed simp

declare dir_entries.simps [simp del]

lemma dir_entries_cases:
  assumes "dir_entries bs block off = Some es"
  obtains "off = bs" "es = []"
  | es' where "off + 8 \<le> bs" "name_room (unat (ent_name_len block off)) \<le> rec_len_at block off" "off + rec_len_at block off \<le> bs" "ent_rec_len block off \<noteq> 0"
      "es = (ent_inode block off, ent_name block off) # es'" "dir_entries bs block (off + rec_len_at block off) = Some es'"
proof -
  have "ent_rec_len block off \<noteq> 0" if "name_room (unat (ent_name_len block off)) \<le> rec_len_at block off"
    using that name_room_bounds(1) [of "unat (ent_name_len block off)"] by auto
  then show ?thesis using assms that by (subst (asm) dir_entries.simps) (auto split: if_splits)
qed

text \<open>The walk over a block finds the first entry of the list.\<close>

lemma scan_find:
  "dir_entries bs block off = Some es \<Longrightarrow>
    map_option (\<lambda>k. (ent_inode block k, ent_name block k)) (dir_scan (\<lambda>k. Q (ent_inode block k, ent_name block k)) bs block off) = find Q es"
proof (induction bs block off arbitrary: es rule: dir_entries.induct)
  case (1 bs block off)
  from 1(2) show ?case
  proof (cases rule: dir_entries_cases)
    case 1
    then show ?thesis by (simp add: dir_scan.simps)
  next
    case (2 es')
    then show ?thesis using "1.IH" [of es'] by (subst dir_scan.simps) auto
  qed
qed

definition entry_named :: "string \<Rightarrow> u32 \<times> string \<Rightarrow> bool" where
  "entry_named name e \<longleftrightarrow> fst e \<noteq> 0 \<and> snd e = name"

lemma name_match_entry: "name \<noteq> [] \<Longrightarrow> name_match block name k \<longleftrightarrow> entry_named name (ent_inode block k, ent_name block k)"
  by (auto simp: name_match_def entry_named_def ent_name_def word_gt_0)

lemma lookup_find:
  assumes "dir_entries bs block off = Some es" "name \<noteq> []"
  shows "map_option (ent_inode block) (dir_scan (name_match block name) bs block off) = map_option fst (find (entry_named name) es)"
proof -
  have "name_match block name = (\<lambda>k. entry_named name (ent_inode block k, ent_name block k))" using assms(2) by (simp add: name_match_entry fun_eq_iff)
  then show ?thesis using arg_cong [OF scan_find [OF assms(1)], of "map_option fst" "entry_named name"] by (simp add: option.map_comp comp_def)
qed

section \<open>Where the bytes of an entry are\<close>

lemma ent_same:
  assumes "length block' = length block" "off + 8 + unat (ent_name_len block off) \<le> length block"
    "\<And>i. off \<le> i \<Longrightarrow> i < off + 8 + unat (ent_name_len block off) \<Longrightarrow> block' ! i = block ! i"
  shows "ent_inode block' off = ent_inode block off" "ent_rec_len block' off = ent_rec_len block off"
    "ent_name_len block' off = ent_name_len block off" "ent_name block' off = ent_name block off"
proof -
  show "ent_inode block' off = ent_inode block off" using assms(3) by (simp add: ent_inode_def read_le32_def)
  show "ent_rec_len block' off = ent_rec_len block off" using assms(3) by (simp add: ent_rec_len_def read_le16_def)
  show n: "ent_name_len block' off = ent_name_len block off" using assms(3) [of "off + 6"] by (simp add: ent_name_len_def)
  have "take (unat (ent_name_len block off)) (drop (off + 8) block') = take (unat (ent_name_len block off)) (drop (off + 8) block)"
    by (rule nth_equalityI) (use assms in auto)
  then show "ent_name block' off = ent_name block off" by (simp add: ent_name_def n)
qed

lemma dir_entries_same:
  assumes "length block' = length block" "bs \<le> length block"
  shows "dir_entries bs block off = Some es \<Longrightarrow> (\<And>i. off \<le> i \<Longrightarrow> i < bs \<Longrightarrow> block' ! i = block ! i) \<Longrightarrow> dir_entries bs block' off = Some es"
  using assms
proof (induction bs block off arbitrary: es rule: dir_entries.induct)
  case (1 bs block off)
  from "1.prems"(1) show ?case
  proof (cases rule: dir_entries_cases)
    case 1
    then show ?thesis by (simp add: dir_entries.simps)
  next
    case (2 es')
    note b = name_room_bounds(1) [of "unat (ent_name_len block off)"]
    have "off + 8 + unat (ent_name_len block off) \<le> bs" using 2(2,3) b by linarith
    then have e: "ent_inode block' off = ent_inode block off" "ent_rec_len block' off = ent_rec_len block off"
      "ent_name_len block' off = ent_name_len block off" "ent_name block' off = ent_name block off"
      using ent_same [OF "1.prems"(3), of off] "1.prems"(2,4) by auto
    have "dir_entries bs block' (off + rec_len_at block off) = Some es'"
      using "1.IH" [of es'] 2 "1.prems" by auto
    then show ?thesis using 2 b by (subst dir_entries.simps) (auto simp: e)
  qed
qed

lemma put_entry_nth:
  assumes "off + 9 + length name \<le> length block" "i < length block" "i < off \<or> off + 9 + length name \<le> i"
  shows "put_entry off inode_num rl ft name block ! i = block ! i"
  using assms by (auto simp: put_entry_def poke_nth)

lemma put_entry_ent:
  assumes "off + 9 + length name \<le> length block" "length name \<le> 255" "CHR 0x00 \<notin> set name"
  shows "ent_inode (put_entry off inode_num rl ft name block) off = inode_num" "ent_rec_len (put_entry off inode_num rl ft name block) off = rl"
    "ent_name_len (put_entry off inode_num rl ft name block) off = of_nat (length name)" "ent_name (put_entry off inode_num rl ft name block) off = name"
    "put_entry off inode_num rl ft name block ! (off + 8 + length name) = 0"
proof -
  let ?E = "le32 inode_num @ le16 rl @ [of_nat (length name), ft] @ map of_char name @ [0]" and ?b = "put_entry off inode_num rl ft name block"
  have l: "length ?E = 9 + length name" by simp
  have at: "?b ! (off + i) = ?E ! i" if "i < length ?E" for i
    unfolding put_entry_def using that assms(1) by (subst poke_nth) (simp_all add: l)
  show "ent_inode ?b off = inode_num" using read_le32_here [of inode_num] at [of 0] at [of 1] at [of 2] at [of 3] by (simp add: ent_inode_def read_le32_def nth_append numeral_2_eq_2)
  show "ent_rec_len ?b off = rl" using read_le16_here [of rl] at [of 4] at [of 5] by (simp add: ent_rec_len_def read_le16_def nth_append add.commute)
  show n: "ent_name_len ?b off = of_nat (length name)" using at [of 6] by (simp add: ent_name_len_def nth_append)
  show "?b ! (off + 8 + length name) = 0" using at [of "8 + length name"] by (simp add: nth_append add.assoc)
  have "take (length name) (drop (off + 8) ?b) = map of_char name"
    by (rule nth_equalityI) (use at assms(1) in \<open>auto simp: nth_append add.assoc put_entry_def\<close>)
  moreover have tw: "takeWhile (\<lambda>b. b \<noteq> 0) (map of_char name :: u8 list) = map of_char name"
    using assms(3) by (auto simp: takeWhile_eq_all_conv char_byte_zero)
  moreover have "unat (of_nat (length name) :: u8) = length name" using assms(2) by (simp add: unat_of_nat take_bit_nat_eq_self)
  ultimately show "ent_name ?b off = name" by (simp add: ent_name_def n comp_def char_byte tw)
qed

section \<open>Adding an entry to a block\<close>

fun lose_byte :: "(u32 \<times> string) list \<Rightarrow> (u32 \<times> string) list" where
  "lose_byte [] = []"
| "lose_byte ((i, n) # es) = (i AND NOT 0xFF, n) # es"

lemma low_byte_lost:
  assumes "block' ! off = 0" "\<And>k. k \<in> {1, 2, 3} \<Longrightarrow> block' ! (off + k) = block ! (off + k)"
  shows "read_le32 block' off = read_le32 block off AND NOT 0xFF"
proof -
  have m: "(0xFF :: u32) = mask 8" by (simp add: mask_eq_exp_minus_1)
  have hi: "push_bit k (ucast (b :: u8) :: u32) AND NOT (mask 8) = push_bit k (ucast b)" if "8 \<le> k" for k b
    by (rule bit_word_eqI) (use that in \<open>auto simp: bit_simps\<close>)
  have lo: "(ucast (b :: u8) :: u32) AND NOT (mask 8) = 0" for b by (rule bit_word_eqI) (auto simp: bit_simps dest: bit_imp_le_length)
  have "block' ! (off + 1) = block ! (off + 1)" "block' ! (off + 2) = block ! (off + 2)" "block' ! (off + 3) = block ! (off + 3)"
    by (rule assms(2), simp)+
  then show ?thesis unfolding m read_le32_def by (simp only: assms(1) bit.conj_disj_distrib2 hi lo) simp
qed

lemma dir_entries_lose:
  assumes "dir_entries bs block off = Some es" "length block' = length block" "bs \<le> length block" "off < bs \<Longrightarrow> block' ! off = 0"
    "\<And>i. off < i \<Longrightarrow> i < bs \<Longrightarrow> block' ! i = block ! i"
  shows "dir_entries bs block' off = Some (lose_byte es)"
  using assms(1)
proof (cases rule: dir_entries_cases)
  case 1
  then show ?thesis by (simp add: dir_entries.simps)
next
  case (2 es')
  note b = name_room_bounds(1) [of "unat (ent_name_len block off)"]
  let ?b = "block' [off := block ! off]"
  have same: "?b ! i = block ! i" if "off \<le> i" "i < bs" for i using that assms(2,3,5) by (cases "i = off") auto
  have nb: "off + 8 + unat (ent_name_len block off) \<le> bs" using 2(2,3) b by linarith
  note e = ent_same [of ?b block off]
  have r: "ent_rec_len block' off = ent_rec_len block off" "ent_name_len block' off = ent_name_len block off" "ent_name block' off = ent_name block off"
    using e(2-4) same nb assms(2,3) by (simp_all add: ent_rec_len_def ent_name_len_def ent_name_def read_le16_def)
  have i: "ent_inode block' off = ent_inode block off AND NOT 0xFF"
    unfolding ent_inode_def by (rule low_byte_lost) (use assms(4,5) 2(1) in auto)
  have "dir_entries bs block' (off + rec_len_at block off) = Some es'"
    by (rule dir_entries_same [OF assms(2,3) 2(6)]) (use assms(5) 2(2) b in auto)
  then show ?thesis using 2 b by (subst dir_entries.simps) (auto simp: r i)
qed

lemma split_entry_nth:
  assumes "off + 6 \<le> length block" "off + unat (rec_room (ucast (ent_name_len block off))) + 9 + length name \<le> length block" "i < length block"
    "i \<noteq> off + 4" "i \<noteq> off + 5" "i < off + unat (rec_room (ucast (ent_name_len block off))) \<or> off + unat (rec_room (ucast (ent_name_len block off))) + 9 + length name \<le> i"
  shows "split_entry off inode_num ft name block ! i = block ! i"
proof -
  have "poke (off + 4) (le16 r) block ! i = block ! i" for r using assms(1,3-5) by (subst poke_nth) auto
  then show ?thesis unfolding split_entry_def Let_def using assms(2,3,6) by (subst put_entry_nth) auto
qed

text \<open>The room of an entry that can be split, in bytes.\<close>

lemma split_room:
  assumes "dir_entries bs block off = Some (e # es)" "has_space bs block (rec_room (of_nat (length name))) off" "bs < length block" "length name \<le> 255"
  shows "name_room (unat (ent_name_len block off)) + name_room (length name) \<le> rec_len_at block off" "off + rec_len_at block off \<le> bs"
    "unat (ent_space block off) = rec_len_at block off - name_room (unat (ent_name_len block off))" "off + 6 \<le> length block"
    "off + name_room (unat (ent_name_len block off)) + 9 + length name \<le> length block"
proof -
  from assms(1) have C: "off + 8 \<le> bs" "name_room (unat (ent_name_len block off)) \<le> rec_len_at block off" "off + rec_len_at block off \<le> bs"
    by (auto elim: dir_entries_cases)
  show r: "off + rec_len_at block off \<le> bs" and "off + 6 \<le> length block" using C assms(3) by simp_all
  show sp: "unat (ent_space block off) = rec_len_at block off - name_room (unat (ent_name_len block off))"
    unfolding ent_space_def using C(2) by (simp add: unat_sub word_le_nat_alt rec_room_u8)
  have "unat (rec_room (of_nat (length name))) = name_room (length name)" using assms(4)
    by (subst unat_rec_room) (simp_all add: unat_of_nat take_bit_nat_eq_self)
  then show l: "name_room (unat (ent_name_len block off)) + name_room (length name) \<le> rec_len_at block off"
    using assms(2) sp C(2) by (simp add: has_space_def word_le_nat_alt) linarith
  show "off + name_room (unat (ent_name_len block off)) + 9 + length name \<le> length block"
    using l r assms(3) name_room_bounds(1) [of "length name"] by linarith
qed

text \<open>An entry with room for another one is split in two; a name that ends at the next record costs that record a byte.\<close>

lemma split_at:
  fixes inode_num :: u32 and ft :: u8
  assumes "dir_entries bs block off = Some (e # es)" "has_space bs block (rec_room (of_nat (length name))) off" "bs < length block"
    "length name \<le> 255" "CHR 0x00 \<notin> set name"
  defines "block' \<equiv> split_entry off inode_num ft name block"
  shows "dir_entries bs block' off = Some (e # (inode_num, name) # (if unat (ent_space block off) = 8 + length name then lose_byte es else es))"
proof -
  define a where "a = name_room (unat (ent_name_len block off))"
  define r where "r = rec_len_at block off"
  define need where "need = name_room (length name)"
  from assms(1) have C: "off + 8 \<le> bs" "a \<le> r" "off + r \<le> bs" "e = (ent_inode block off, ent_name block off)" "dir_entries bs block (off + r) = Some es"
    by (auto elim: dir_entries_cases simp: a_def r_def)
  have ra: "unat (rec_room (ucast (ent_name_len block off))) = a" by (simp add: rec_room_u8 a_def)
  note R = split_room [OF assms(1-4), folded a_def r_def need_def]
  note sp = R(3) and l6 = R(4) and fit = R(5)
  have room: "need \<le> r - a" using R(1) by simp
  note nb = name_room_bounds [of "length name", folded need_def] and ab = name_room_bounds [of "unat (ent_name_len block off)", folded a_def]
  have len: "length block' = length block" by (simp add: block'_def split_entry_def put_entry_def Let_def)
  have keep: "block' ! i = block ! i" if "i < length block" "i \<noteq> off + 4" "i \<noteq> off + 5" "i < off + a \<or> off + a + 9 + length name \<le> i" for i
    unfolding block'_def by (rule split_entry_nth) (use that fit l6 ra in auto)
  let ?b1 = "poke (off + 4) (le16 (rec_room (ucast (ent_name_len block off)))) block"
  have b': "block' = put_entry (off + a) inode_num (ent_space block off) ft name ?b1" by (simp add: block'_def split_entry_def Let_def ra)
  have fit1: "off + a + 9 + length name \<le> length ?b1" using fit by simp
  note new = put_entry_ent [OF fit1 assms(4,5), where inode_num = inode_num and rl = "ent_space block off" and ft = ft, folded b']
  have first: "ent_inode block' off = ent_inode block off" "ent_name_len block' off = ent_name_len block off" "ent_name block' off = ent_name block off"
    "rec_len_at block' off = a"
  proof -
    show "ent_inode block' off = ent_inode block off" using keep ab(1) l6 by (simp add: ent_inode_def read_le32_def)
    show n: "ent_name_len block' off = ent_name_len block off" using keep [of "off + 6"] ab(1) fit by (simp add: ent_name_len_def)
    have "take (unat (ent_name_len block off)) (drop (off + 8) block') = take (unat (ent_name_len block off)) (drop (off + 8) block)"
      by (rule nth_equalityI) (use keep len ab(1) fit in auto)
    then show "ent_name block' off = ent_name block off" by (simp add: ent_name_def n)
    have "block' ! i = ?b1 ! i" if "i < off + a" for i unfolding b' using that fit by (subst put_entry_nth) auto
    then have "ent_rec_len block' off = ent_rec_len ?b1 off" using ab(1) by (simp add: ent_rec_len_def read_le16_def)
    also have "\<dots> = rec_room (ucast (ent_name_len block off))"
      using read_le16_here [of "rec_room (ucast (ent_name_len block off))" "[]"] l6 by (simp add: ent_rec_len_def read_le16_def poke_nth)
    finally show "rec_len_at block' off = a" by (simp add: ra)
  qed
  have tail: "dir_entries bs block' (off + r) = Some (if r - a = 8 + length name then lose_byte es else es)"
  proof (cases "r - a = 8 + length name")
    case True
    then have end_name: "off + a + 8 + length name = off + r" using C(2) by linarith
    then have z: "block' ! (off + r) = 0" using new(5) by (simp only: end_name)
    have "dir_entries bs block' (off + r) = Some (lose_byte es)"
      by (rule dir_entries_lose [OF C(5) len]) (use end_name z keep assms(3) C(1) ab(1) C(2) in auto)
    then show ?thesis using True by simp
  next
    case False
    have "dir_entries bs block' (off + r) = Some es"
      by (rule dir_entries_same [OF len _ C(5)]) (use keep assms(3) room nb(1) C(2) ab(1) False in auto)
    then show ?thesis using False by simp
  qed
  have "unat (of_nat (length name) :: u8) = length name" using assms(4) by (simp add: unat_of_nat take_bit_nat_eq_self)
  then have "dir_entries bs block' (off + a) = Some ((inode_num, name) # (if r - a = 8 + length name then lose_byte es else es))"
    using tail room nb C(1-3) ab(1) by (subst dir_entries.simps) (auto simp: new sp need_def [symmetric])
  then show ?thesis using C(1-4) ab(1) room nb(1) by (subst dir_entries.simps) (auto simp: first sp a_def [symmetric])
qed

lemma dir_scan_at:
  "dir_entries bs block k = Some es \<Longrightarrow> dir_scan P bs block k = Some off \<Longrightarrow> \<exists>e es'. k \<le> off \<and> P off \<and> dir_entries bs block off = Some (e # es')"
proof (induction bs block k arbitrary: es rule: dir_entries.induct)
  case (1 bs block k)
  from "1.prems"(1) show ?case
  proof (cases rule: dir_entries_cases)
    case 1
    then show ?thesis using "1.prems"(2) by (simp add: dir_scan.simps)
  next
    case (2 es')
    show ?thesis
    proof (cases "P k")
      case True
      then have "off = k" using "1.prems"(2) 2 by (subst (asm) dir_scan.simps) (auto split: if_splits)
      then show ?thesis using True "1.prems"(1) 2 by auto
    next
      case False
      then have "dir_scan P bs block (k + rec_len_at block k) = Some off" using "1.prems"(2) 2 by (subst (asm) dir_scan.simps) (auto split: if_splits)
      then show ?thesis using "1.IH" [OF _ _ 2(6)] 2 by fastforce
    qed
  qed
qed

lemma add_from:
  fixes inode_num :: u32 and ft :: u8
  shows "dir_entries bs block k = Some es \<Longrightarrow> dir_scan (has_space bs block (rec_room (of_nat (length name)))) bs block k = Some off \<Longrightarrow> bs < length block \<Longrightarrow>
    length name \<le> 255 \<Longrightarrow> CHR 0x00 \<notin> set name \<Longrightarrow>
    \<exists>A e B. es = A @ e # B \<and> dir_entries bs block off = Some (e # B) \<and> dir_entries bs (split_entry off inode_num ft name block) k =
      Some (A @ e # (inode_num, name) # (if unat (ent_space block off) = 8 + length name then lose_byte B else B))"
proof (induction bs block k arbitrary: es rule: dir_entries.induct)
  case (1 bs block k)
  let ?P = "has_space bs block (rec_room (of_nat (length name)))" and ?b = "split_entry off inode_num ft name block"
  from "1.prems"(1) show ?case
  proof (cases rule: dir_entries_cases)
    case 1
    then show ?thesis using "1.prems"(2) by (simp add: dir_scan.simps)
  next
    case (2 es')
    show ?thesis
    proof (cases "?P k")
      case True
      then have off: "off = k" using "1.prems"(2) 2 by (subst (asm) dir_scan.simps) (auto split: if_splits)
      from split_at [OF "1.prems"(1) [unfolded 2(5)] True "1.prems"(3-5)] show ?thesis unfolding off 2(5) using "1.prems"(1) [unfolded 2(5)] by (metis append_Nil)
    next
      case False
      then have n: "dir_scan ?P bs block (k + rec_len_at block k) = Some off" using "1.prems"(2) 2 by (subst (asm) dir_scan.simps) (auto split: if_splits)
      from dir_scan_at [OF 2(6) n] obtain e es2 where o: "k + rec_len_at block k \<le> off" "?P off" "dir_entries bs block off = Some (e # es2)" by blast
      note R = split_room [OF o(3,2) "1.prems"(3,4)] and b = name_room_bounds(1) [of "unat (ent_name_len block k)"]
      have keep: "?b ! i = block ! i" if "i < off" for i by (rule split_entry_nth) (use R that in \<open>auto simp: rec_room_u8\<close>)
      have l: "length ?b = length block" by (simp add: split_entry_def put_entry_def Let_def)
      have kb: "k + 8 + unat (ent_name_len block k) \<le> length block" using 2(2,3) b "1.prems"(3) by linarith
      have e: "ent_inode ?b k = ent_inode block k" "ent_rec_len ?b k = ent_rec_len block k" "ent_name_len ?b k = ent_name_len block k" "ent_name ?b k = ent_name block k"
        using ent_same [OF l kb] keep 2(2) b o(1) by auto
      from "1.IH" [OF _ _ 2(6) n "1.prems"(3-5)] 2 obtain A e' B where ab: "es' = A @ e' # B" "dir_entries bs block off = Some (e' # B)" "dir_entries bs ?b (k + rec_len_at block k) =
          Some (A @ e' # (inode_num, name) # (if unat (ent_space block off) = 8 + length name then lose_byte B else B))" by fastforce
      then have "dir_entries bs ?b k = Some (((ent_inode block k, ent_name block k) # A) @ e' # (inode_num, name) #
          (if unat (ent_space block off) = 8 + length name then lose_byte B else B))"
        using 2(1-3) b by (subst dir_entries.simps) (auto simp: e)
      then show ?thesis unfolding 2(5) ab(1) using ab(2) by (metis append_Cons)
    qed
  qed
qed

section \<open>Properties\<close>

lemma find_behind: "(\<And>x. x \<in> set A \<Longrightarrow> \<not> P x) \<Longrightarrow> find P (A @ B) = find P B"
  by (induction A) auto

text \<open>
  C13. Adding an entry to a directory block inserts it in the list of entries behind the entry whose slack it takes: the name is found with its inode number,
  and every other name keeps its inode number, unless the new record fills the slack to the last byte. Then the terminating byte of the name goes into the
  next record and clears the low byte of its inode number.
\<close>

theorem dir_add_inserts:
  assumes "dir_entries 1024 block 0 = Some es" "dir_scan (has_space 1024 block (rec_room (of_nat (length name)))) 1024 block 0 = Some off"
    "1024 < length block" "name \<noteq> []" "length name \<le> 255" "CHR 0x00 \<notin> set name" "inode_num \<noteq> 0" "find (entry_named name) es = None"
    "block' = split_entry off inode_num ft name block"
  shows "(\<exists>A e B. es = A @ e # B \<and> dir_entries 1024 block off = Some (e # B) \<and>
      dir_entries 1024 block' 0 = Some (A @ e # (inode_num, name) # (if unat (ent_space block off) = 8 + length name then lose_byte B else B))) \<and>
    map_option (ent_inode block') (dir_scan (name_match block' name) 1024 block' 0) = Some inode_num \<and>
    (unat (ent_space block off) \<noteq> 8 + length name \<longrightarrow> (\<forall>n. n \<noteq> name \<and> n \<noteq> [] \<longrightarrow>
      map_option (ent_inode block') (dir_scan (name_match block' n) 1024 block' 0) = map_option (ent_inode block) (dir_scan (name_match block n) 1024 block 0)))"
proof (intro conjI impI allI)
  from add_from [OF assms(1-3,5,6), of inode_num ft] obtain A e B where ab: "es = A @ e # B" and add: "dir_entries 1024 block off = Some (e # B)"
    "dir_entries 1024 block' 0 = Some (A @ e # (inode_num, name) # (if unat (ent_space block off) = 8 + length name then lose_byte B else B))"
    unfolding assms(9) by blast
  from ab add show "\<exists>A e B. es = A @ e # B \<and> dir_entries 1024 block off = Some (e # B) \<and>
      dir_entries 1024 block' 0 = Some (A @ e # (inode_num, name) # (if unat (ent_space block off) = 8 + length name then lose_byte B else B))" by blast
  have "\<not> entry_named name x" if "x \<in> set A \<or> x = e" for x
  proof -
    have "x \<in> set es" using that ab by auto
    then show ?thesis using assms(8) unfolding find_None_iff by blast
  qed
  then have "find (entry_named name) ((A @ [e]) @ (inode_num, name) # B') = Some (inode_num, name)" for B' using assms(7)
    by (subst find_behind) (auto simp: entry_named_def)
  then show "map_option (ent_inode block') (dir_scan (name_match block' name) 1024 block' 0) = Some inode_num"
    using lookup_find [OF add(2) assms(4)] by simp
  fix n
  assume n: "unat (ent_space block off) \<noteq> 8 + length name" "n \<noteq> name \<and> n \<noteq> []"
  then have "find (entry_named n) (A @ e # (inode_num, name) # B) = find (entry_named n) (A @ e # B)" by (induction A) (auto simp: entry_named_def)
  then show "map_option (ent_inode block') (dir_scan (name_match block' n) 1024 block' 0) = map_option (ent_inode block) (dir_scan (name_match block n) 1024 block 0)"
    using lookup_find [OF add(2)] lookup_find [OF assms(1)] ab n by simp
qed

text \<open>A directory with the entries for itself and its parent, the slack of a removed name, and the file \<open>efgh\<close> with inode 13.\<close>

definition small_dir :: "u8 list" where
  "small_dir = [2, 0, 0, 0, 12, 0, 1, 2, 46, 0, 0, 0, 2, 0, 0, 0, 24, 0, 2, 2, 46, 46, 0, 0, 0, 0, 0, 0, 0, 0, 0, 0, 0, 0, 0, 0,
     13, 0, 0, 0, 220, 3, 4, 1, 101, 102, 103, 104] @ replicate 1000 0"

lemma small_dir_entries:
  "dir_entries 1024 small_dir 0 = Some [(2, ''.''), (2, ''..''), (13, ''efgh'')]" "dir_entries 1024 small_dir 12 = Some [(2, ''..''), (13, ''efgh'')]"
proof -
  have "ent_inode small_dir 0 = 2" "ent_rec_len small_dir 0 = 12" "ent_name_len small_dir 0 = 1" "ent_name small_dir 0 = ''.''"
    "ent_inode small_dir 12 = 2" "ent_rec_len small_dir 12 = 24" "ent_name_len small_dir 12 = 2" "ent_name small_dir 12 = ''..''"
    "ent_inode small_dir 36 = 13" "ent_rec_len small_dir 36 = 988" "ent_name_len small_dir 36 = 4" "ent_name small_dir 36 = ''efgh''"
    by (simp_all add: small_dir_def ent_inode_def ent_rec_len_def ent_name_len_def ent_name_def read_le32_def read_le16_def char_of_def bit_Suc_0_iff)
  then show "dir_entries 1024 small_dir 0 = Some [(2, ''.''), (2, ''..''), (13, ''efgh'')]" "dir_entries 1024 small_dir 12 = Some [(2, ''..''), (13, ''efgh'')]"
    by (simp_all add: dir_entries.simps name_room_def)
qed

lemma small_dir_space:
  "dir_scan (has_space 1024 small_dir (rec_room (of_nat (length ''xyz'')))) 1024 small_dir 0 = Some 12"
  "dir_scan (has_space 1024 small_dir (rec_room (of_nat (length ''wxyz'')))) 1024 small_dir 0 = Some 12"
  "unat (ent_space small_dir 12) = 12"
proof -
  have "ent_inode small_dir 0 = 2" "ent_rec_len small_dir 0 = 12" "ent_name_len small_dir 0 = 1"
    "ent_inode small_dir 12 = 2" "ent_rec_len small_dir 12 = 24" "ent_name_len small_dir 12 = 2"
    by (simp_all add: small_dir_def ent_inode_def ent_rec_len_def ent_name_len_def read_le32_def read_le16_def)
  then show "dir_scan (has_space 1024 small_dir (rec_room (of_nat (length ''xyz'')))) 1024 small_dir 0 = Some 12"
    "dir_scan (has_space 1024 small_dir (rec_room (of_nat (length ''wxyz'')))) 1024 small_dir 0 = Some 12" "unat (ent_space small_dir 12) = 12"
    by (simp_all add: dir_scan.simps has_space_def ent_space_def rec_room_def)
qed

theorem dir_add_inserts_witness:
  "let block' = split_entry 12 20 1 ''xyz'' small_dir in
     map_option (ent_inode block') (dir_scan (name_match block' ''xyz'') 1024 block' 0) = Some 20 \<and>
     map_option (ent_inode block') (dir_scan (name_match block' ''efgh'') 1024 block' 0) = Some 13"
proof -
  have "map_option (ent_inode small_dir) (dir_scan (name_match small_dir ''efgh'') 1024 small_dir 0) = Some 13"
    using lookup_find [OF small_dir_entries(1), of "''efgh''"] by (simp add: entry_named_def)
  moreover have h: "1024 < length small_dir" "''xyz'' \<noteq> []" "length ''xyz'' \<le> 255" "CHR 0x00 \<notin> set ''xyz''" "(20 :: u32) \<noteq> 0"
    "find (entry_named ''xyz'') [(2, ''.''), (2, ''..''), (13, ''efgh'')] = None" "unat (ent_space small_dir 12) \<noteq> 8 + length ''xyz''" "''efgh'' \<noteq> ''xyz'' \<and> ''efgh'' \<noteq> []"
    using small_dir_space(3) by (simp_all add: small_dir_def entry_named_def)
  note w = dir_add_inserts [OF small_dir_entries(1) small_dir_space(1) h(1-6) refl, where ft = 1]
  ultimately show ?thesis unfolding Let_def using w [THEN conjunct2, THEN conjunct1] w [THEN conjunct2, THEN conjunct2, rule_format, OF h(7,8)] by metis
qed

text \<open>
  C24. Adding a name whose length is a multiple of four into a slack that it fills exactly makes the next file of the block disappear when its inode number
  is below 256: a name that was found before is no longer found.
\<close>

theorem dir_add_loses_next:
  assumes "dir_entries 1024 block 0 = Some es" "dir_scan (has_space 1024 block (rec_room (of_nat (length name)))) 1024 block 0 = Some off"
    "1024 < length block" "length name \<le> 255" "CHR 0x00 \<notin> set name" "unat (ent_space block off) = 8 + length name"
    "block' = split_entry off inode_num ft name block"
    "dir_entries 1024 block off = Some (e # (i, n) # B)" "distinct (map snd es)" "0 < i" "i < 256" "n \<noteq> []" "n \<noteq> name"
  shows "map_option (ent_inode block) (dir_scan (name_match block n) 1024 block 0) = Some i \<and> dir_scan (name_match block' n) 1024 block' 0 = None"
proof
  from add_from [OF assms(1-5), of inode_num ft] obtain A where ab: "es = A @ e # (i, n) # B"
    "dir_entries 1024 block' 0 = Some (A @ e # (inode_num, name) # (i AND NOT 0xFF, n) # B)"
    unfolding assms(7) using assms(6,8) by auto
  have ne: "\<not> entry_named n x" if "x \<in> set A \<or> x = e \<or> x \<in> set B" for x using assms(9) that unfolding ab(1) by (auto simp: entry_named_def)
  have "find (entry_named n) ((A @ [e]) @ (i, n) # B) = Some (i, n)" using ne assms(10) by (subst find_behind) (auto simp: entry_named_def)
  then show "map_option (ent_inode block) (dir_scan (name_match block n) 1024 block 0) = Some i" using lookup_find [OF assms(1,12)] ab(1) by simp
  have m: "(0xFF :: u32) = mask 8" by (simp add: mask_eq_exp_minus_1)
  have "take_bit 8 i = i" using assms(11) by (simp add: word_unat_eq_iff unsigned_take_bit_eq take_bit_nat_eq_self word_less_nat_alt)
  then have "i AND NOT (mask 8) = 0" by (metis and.assoc bit.conj_cancel_right bit.conj_zero_right take_bit_eq_mask)
  then have "i AND NOT 0xFF = 0" by (simp only: m)
  then have "\<not> entry_named n (i AND NOT 0xFF, n)" "\<not> entry_named n (inode_num, name)" using assms(13) by (simp_all add: entry_named_def)
  then have "\<not> entry_named n x" if "x \<in> set (A @ e # (inode_num, name) # (i AND NOT 0xFF, n) # B)" for x
    using that ne [of x] by (simp only: set_append set_simps) blast
  then have "find (entry_named n) (A @ e # (inode_num, name) # (i AND NOT 0xFF, n) # B) = None" unfolding find_None_iff by blast
  then show "dir_scan (name_match block' n) 1024 block' 0 = None" using lookup_find [OF ab(2) assms(12)] by simp
qed

theorem dir_add_loses_next_witness:
  "let block' = split_entry 12 20 1 ''wxyz'' small_dir in
     map_option (ent_inode small_dir) (dir_scan (name_match small_dir ''efgh'') 1024 small_dir 0) = Some 13 \<and>
     dir_scan (name_match block' ''efgh'') 1024 block' 0 = None"
proof -
  have "1024 < length small_dir" by (simp add: small_dir_def)
  then show ?thesis using small_dir_entries(2) small_dir_space(3)
      dir_add_loses_next [OF small_dir_entries(1) small_dir_space(2), where inode_num = 20 and ft = 1 and e = "(2, ''..'')" and i = 13 and n = "''efgh''" and B = "[]"]
    by (simp add: Let_def)
qed

end
