(* ===== verification/Pci.thy ===== *)
theory Pci
  imports Prelude
begin

text \<open>
  The PCI bus (\<open>pci.c\<close>): configuration reads and writes through the two ports of the host bridge, the scan that fills the table of devices, and the
  searches in it. The ports of the machine are a record of operations on the state of the hardware.
\<close>

section \<open>Ports and shared memory\<close>

text \<open>
  \<open>dma_store\<close> and \<open>dma_load\<close> are accesses of the kernel to memory that a device reads and writes too, by its address.
\<close>

record 'h ports =
  p_inb :: "u16 \<Rightarrow> 'h \<Rightarrow> u8 \<times> 'h"
  p_inw :: "u16 \<Rightarrow> 'h \<Rightarrow> u16 \<times> 'h"
  p_inl :: "u16 \<Rightarrow> 'h \<Rightarrow> u32 \<times> 'h"
  p_outb :: "u16 \<Rightarrow> u8 \<Rightarrow> 'h \<Rightarrow> 'h"
  p_outw :: "u16 \<Rightarrow> u16 \<Rightarrow> 'h \<Rightarrow> 'h"
  p_outl :: "u16 \<Rightarrow> u32 \<Rightarrow> 'h \<Rightarrow> 'h"
  dma_store :: "u32 \<Rightarrow> u8 list \<Rightarrow> 'h \<Rightarrow> 'h"
  dma_load :: "u32 \<Rightarrow> nat \<Rightarrow> 'h \<Rightarrow> u8"

abbreviation PCI_CONFIG_ADDRESS :: u16 where "PCI_CONFIG_ADDRESS \<equiv> 0xCF8"
abbreviation PCI_CONFIG_DATA :: u16 where "PCI_CONFIG_DATA \<equiv> 0xCFC"
abbreviation PCI_MAX_DEVICES :: nat where "PCI_MAX_DEVICES \<equiv> 16"

section \<open>Configuration space\<close>

record pci_device =
  pd_vendor :: u16
  pd_device_id :: u16
  pd_class_code :: u8
  pd_subclass :: u8
  pd_bus :: u8
  pd_slot :: u8
  pd_function :: u8

definition config_address :: "u8 \<Rightarrow> u8 \<Rightarrow> u8 \<Rightarrow> u8 \<Rightarrow> u32" where
  "config_address bus slot func offset =
     push_bit 16 (ucast bus) OR push_bit 11 (ucast slot) OR push_bit 8 (ucast func) OR (ucast offset AND 0xFC) OR 0x80000000"

definition pci_read_config :: "'h ports \<Rightarrow> u8 \<Rightarrow> u8 \<Rightarrow> u8 \<Rightarrow> u8 \<Rightarrow> 'h \<Rightarrow> u32 \<times> 'h" where
  "pci_read_config pt bus slot func offset h = p_inl pt PCI_CONFIG_DATA (p_outl pt PCI_CONFIG_ADDRESS (config_address bus slot func offset) h)"

definition pci_write_config :: "'h ports \<Rightarrow> u8 \<Rightarrow> u8 \<Rightarrow> u8 \<Rightarrow> u8 \<Rightarrow> u32 \<Rightarrow> 'h \<Rightarrow> 'h" where
  "pci_write_config pt bus slot func offset v h = p_outl pt PCI_CONFIG_DATA v (p_outl pt PCI_CONFIG_ADDRESS (config_address bus slot func offset) h)"

text \<open>\<open>pci_found\<close> up to \<open>pci_found_count\<close>, as a list.\<close>

definition pci_read_bar :: "'h ports \<Rightarrow> pci_device list \<Rightarrow> int \<Rightarrow> u8 \<Rightarrow> 'h \<Rightarrow> u32 \<times> 'h" where
  "pci_read_bar pt found device_index bar_index h =
     (if device_index < 0 \<or> device_index \<ge> int (length found) \<or> bar_index > 5 then (0, h)
      else let d = found ! nat device_index; (bar, h1) = pci_read_config pt (pd_bus d) (pd_slot d) (pd_function d) (0x10 + bar_index * 4) h
           in (bar AND 0xFFFFFFF0, h1))"

definition pci_check_function :: "'h ports \<Rightarrow> u8 \<Rightarrow> u8 \<Rightarrow> u8 \<Rightarrow> pci_device list \<times> 'h \<Rightarrow> pci_device list \<times> 'h" where
  "pci_check_function pt bus device func = (\<lambda>(found, h).
     let (vendor_device, h1) = pci_read_config pt bus device func 0x00 h; vendor_id = ucast (vendor_device AND 0xFFFF) in
     if vendor_id = 0xFFFF then (found, h1)
     else let device_id = ucast (drop_bit 16 vendor_device); (class_reg, h2) = pci_read_config pt bus device func 0x08 h1;
              class_code = ucast (drop_bit 24 class_reg AND 0xFF); subclass = ucast (drop_bit 16 class_reg AND 0xFF)
          in (if length found < PCI_MAX_DEVICES
              then found @ [\<lparr>pd_vendor = vendor_id, pd_device_id = device_id, pd_class_code = class_code, pd_subclass = subclass,
                     pd_bus = bus, pd_slot = device, pd_function = func\<rparr>]
              else found, h2))"

definition pci_scan_all :: "'h ports \<Rightarrow> 'h \<Rightarrow> pci_device list \<times> 'h" where
  "pci_scan_all pt h = fold (\<lambda>bus r. fold (\<lambda>slot r. pci_check_function pt (of_nat bus) (of_nat slot) 0 r) [0..<32] r) [0..<256] ([], h)"

definition pci_read_bar5 :: "'h ports \<Rightarrow> pci_device list \<Rightarrow> int \<Rightarrow> 'h \<Rightarrow> u32 \<times> 'h" where
  "pci_read_bar5 pt found device_index h = pci_read_bar pt found device_index 5 h"

definition first_index :: "('a \<Rightarrow> bool) \<Rightarrow> 'a list \<Rightarrow> int" where
  "first_index P xs = (case find_slot P xs of Some i \<Rightarrow> int i | None \<Rightarrow> -1)"

definition pci_find_storage_controller :: "pci_device list \<Rightarrow> int" where
  "pci_find_storage_controller found = first_index (\<lambda>d. pd_class_code d = 0x01 \<and> (pd_subclass d = 0x06 \<or> pd_subclass d = 0x08)) found"

definition pci_find_network_controller :: "pci_device list \<Rightarrow> int" where
  "pci_find_network_controller found = first_index (\<lambda>d. pd_class_code d = 0x02) found"

text \<open>The outcome is the base, the size and the subclass with the returned flag.\<close>

definition pci_prepare_storage_mmio :: "'h ports \<Rightarrow> pci_device list \<Rightarrow> 'h \<Rightarrow> (bool \<times> (u32 \<times> u32 \<times> u8) option) \<times> 'h" where
  "pci_prepare_storage_mmio pt found h =
     (let idx = pci_find_storage_controller found in
      if idx < 0 then ((False, None), h)
      else let sub = pd_subclass (found ! nat idx) in
        if sub = 0x06 then let (base, h1) = pci_read_bar5 pt found idx h in ((base \<noteq> 0, Some (base, 0x2000, sub)), h1)
        else if sub = 0x08 then let (base, h1) = pci_read_bar pt found idx 0 h in ((base \<noteq> 0, Some (base, 0x4000, sub)), h1)
        else ((False, None), h))"

end
