(* ===== verification/Net.thy ===== *)
theory Net
  imports Pci Ring RemoteAuth
begin

text \<open>
  The network stack (\<open>net.c\<close>): Ethernet, ARP, IPv4 with routing, fragmentation and reassembly, ICMP echo, UDP and TCP over an RTL8139 card. The state is the
  static data of the file; memory that the card reads or writes is reached through \<open>dma_store\<close> and \<open>dma_load\<close>. A packet is a list of bytes with the length
  the code passes beside it; a buffer may be longer than that length.
\<close>

section \<open>Constants\<close>

abbreviation ETH_TYPE_NEURO :: u16 where "ETH_TYPE_NEURO \<equiv> 0x88B5"
abbreviation ETH_TYPE_IPV4 :: u16 where "ETH_TYPE_IPV4 \<equiv> 0x0800"
abbreviation ETH_TYPE_ARP :: u16 where "ETH_TYPE_ARP \<equiv> 0x0806"
abbreviation IP_PROTO_ICMP :: u8 where "IP_PROTO_ICMP \<equiv> 1"
abbreviation IP_PROTO_UDP :: u8 where "IP_PROTO_UDP \<equiv> 17"
abbreviation IP_PROTO_TCP :: u8 where "IP_PROTO_TCP \<equiv> 6"
abbreviation UDP_CTRL_PORT :: u16 where "UDP_CTRL_PORT \<equiv> 39000"
abbreviation UDP_DATA_PORT :: u16 where "UDP_DATA_PORT \<equiv> 39001"
abbreviation UDP_MAX_BINDINGS :: nat where "UDP_MAX_BINDINGS \<equiv> 16"
abbreviation UDP_QUEUE_DEPTH :: nat where "UDP_QUEUE_DEPTH \<equiv> 16"
abbreviation UDP_MAX_PAYLOAD :: nat where "UDP_MAX_PAYLOAD \<equiv> 1200"
abbreviation TCP_MAX_CONNS :: nat where "TCP_MAX_CONNS \<equiv> 32"
abbreviation TCP_QUEUE_DEPTH :: nat where "TCP_QUEUE_DEPTH \<equiv> 16"
abbreviation TCP_MAX_PAYLOAD :: nat where "TCP_MAX_PAYLOAD \<equiv> 1200"
abbreviation TCP_RETX_TICKS :: u32 where "TCP_RETX_TICKS \<equiv> 20"
abbreviation TCP_RETX_MAX :: nat where "TCP_RETX_MAX \<equiv> 5"
abbreviation IPV4_ETH_MTU :: u16 where "IPV4_ETH_MTU \<equiv> 1500"
abbreviation IPV4_MAX_HEADER :: nat where "IPV4_MAX_HEADER \<equiv> 60"
abbreviation IPV4_REASS_MAX_PAYLOAD :: nat where "IPV4_REASS_MAX_PAYLOAD \<equiv> 4096"
abbreviation IPV4_REASS_SLOT_MAX :: nat where "IPV4_REASS_SLOT_MAX \<equiv> 4"
abbreviation IPV4_REASS_TIMEOUT_TICKS :: u32 where "IPV4_REASS_TIMEOUT_TICKS \<equiv> 300"
abbreviation ROUTE_TABLE_MAX :: nat where "ROUTE_TABLE_MAX \<equiv> 8"
abbreviation TCP_FLAG_FIN :: u8 where "TCP_FLAG_FIN \<equiv> 0x01"
abbreviation TCP_FLAG_SYN :: u8 where "TCP_FLAG_SYN \<equiv> 0x02"
abbreviation TCP_FLAG_RST :: u8 where "TCP_FLAG_RST \<equiv> 0x04"
abbreviation TCP_FLAG_PSH :: u8 where "TCP_FLAG_PSH \<equiv> 0x08"
abbreviation TCP_FLAG_ACK :: u8 where "TCP_FLAG_ACK \<equiv> 0x10"
abbreviation BROADCAST :: u32 where "BROADCAST \<equiv> 0xFFFFFFFF"

section \<open>State\<close>

record udp_packet =
  up_src_ip :: u32
  up_src_port :: u16
  up_data :: "u8 list"

record udp_binding =
  ub_used :: bool
  ub_port :: u16
  ub_dropped :: u32
  ub_queue :: "udp_packet ring"

record route_entry =
  re_used :: bool
  re_network :: u32
  re_mask :: u32
  re_gateway :: u32
  re_prefix_len :: nat
  re_metric :: u8

record reass_slot =
  rs_used :: bool
  rs_src_ip :: u32
  rs_dst_ip :: u32
  rs_ident :: u16
  rs_proto :: u8
  rs_header_len :: u8
  rs_have_first :: bool
  rs_total_known :: bool
  rs_total_payload_len :: u16
  rs_last_tick :: u32
  rs_header :: "u8 list"
  rs_payload :: "u8 list"
  rs_present :: "u8 list"

datatype tcp_state = TCP_CLOSED | TCP_LISTEN | TCP_SYN_SENT | TCP_SYN_RCVD | TCP_ESTABLISHED | TCP_CLOSE_WAIT | TCP_CLOSING

record tcp_conn =
  tc_used :: bool
  tc_listening :: bool
  tc_parent_listen :: int
  tc_accepted :: bool
  tc_state :: tcp_state
  tc_local_port :: u16
  tc_remote_port :: u16
  tc_remote_ip :: u32
  tc_snd_una :: u32
  tc_snd_nxt :: u32
  tc_rcv_nxt :: u32
  tc_rx :: "u8 list ring"
  tc_last_tick :: u32
  tc_last_seq :: u32
  tc_last_ack :: u32
  tc_last_flags :: u8
  tc_last_retries :: nat
  tc_waiting_ack :: bool
  tc_last_data :: "u8 list"

record udp_hold =
  uh_valid :: bool
  uh_src_ip :: u32
  uh_src_port :: u16
  uh_dst_port :: u16
  uh_data :: "u8 list"

record net_rx_stats =
  ns_total_frames :: u32
  ns_total_bytes :: u32
  ns_ipv4_frames :: u32
  ns_arp_frames :: u32
  ns_neuro_frames :: u32
  ns_unknown_frames :: u32
  ns_dropped_frames :: u32
  ns_malformed_frames :: u32
  ns_quarantined_frames :: u32
  ns_injected_loss_frames :: u32
  ns_injected_reorder_frames :: u32
  ns_tcp_retransmits :: u32
  ns_tcp_retransmit_failures :: u32
  ns_tcp_half_open_cleanups :: u32
  ns_tcp_reset_events :: u32
  ns_irq_count :: u32
  ns_irq_rx_events :: u32
  ns_tx_probe_ok :: u32
  ns_tx_probe_fail :: u32
  ns_poll_budget :: u32
  ns_irq_poll_budget :: u32
  ns_coalesced_batches :: u32

text \<open>The static variables of the file, the table of PCI devices, the tick counter, the state of remote authorisation and the hardware.\<close>

record 'h net =
  n_ready :: bool
  n_idx :: int
  n_iobase :: u32
  n_mac :: "u8 list"
  n_ip :: u32
  n_mask :: u32
  n_gw :: u32
  n_remote_enabled :: bool
  n_remote_dst_ip :: u32
  n_loss :: u32
  n_reorder :: u32
  n_prng :: u32
  n_hold :: udp_hold
  n_tx_slot :: nat
  n_rx_offset :: u32
  n_poll_budget :: u32
  n_irq_budget :: u32
  n_stats :: net_rx_stats
  n_routes :: "route_entry list"
  n_route_count :: int
  n_reass :: "reass_slot list"
  n_ident :: u16
  n_arp_ip :: u32
  n_arp_mac :: "u8 list"
  n_arp_valid :: bool
  n_udp :: "udp_binding list"
  n_tcp :: "tcp_conn list"
  n_iss :: u32
  n_pci :: "pci_device list"
  n_tick :: u32
  n_auth :: auth
  n_hw :: 'h

type_synonym ('h, 'r) net_op = "'h net \<Rightarrow> 'r \<times> 'h net"

definition upd_rx_stats :: "(net_rx_stats \<Rightarrow> net_rx_stats) \<Rightarrow> 'h net \<Rightarrow> 'h net" where
  "upd_rx_stats f s = s\<lparr>n_stats := f (n_stats s)\<rparr>"

section \<open>Bytes in network order\<close>

definition be32 :: "u32 \<Rightarrow> u32" where
  "be32 v = push_bit 24 (v AND 0xFF) OR push_bit 8 (v AND 0xFF00) OR drop_bit 8 (v AND 0xFF0000) OR drop_bit 24 (v AND 0xFF000000)"

definition read_be16 :: "u8 list \<Rightarrow> nat \<Rightarrow> u16" where
  "read_be16 p i = push_bit 8 (ucast (p ! i)) OR ucast (p ! (i + 1))"

definition read_be32 :: "u8 list \<Rightarrow> nat \<Rightarrow> u32" where
  "read_be32 p i = push_bit 24 (ucast (p ! i)) OR push_bit 16 (ucast (p ! (i + 1))) OR push_bit 8 (ucast (p ! (i + 2))) OR ucast (p ! (i + 3))"

definition net_read_le16 :: "u8 list \<Rightarrow> nat \<Rightarrow> u16" where
  "net_read_le16 p i = push_bit 8 (ucast (p ! (i + 1))) OR ucast (p ! i)"

definition write_be16 :: "u16 \<Rightarrow> u8 list" where
  "write_be16 v = [ucast (drop_bit 8 v), ucast (v AND 0xFF)]"

definition write_be32 :: "u32 \<Rightarrow> u8 list" where
  "write_be32 v = [ucast (drop_bit 24 v AND 0xFF), ucast (drop_bit 16 v AND 0xFF), ucast (drop_bit 8 v AND 0xFF), ucast (v AND 0xFF)]"

text \<open>A 32-bit value in memory, low byte first.\<close>

definition mem32 :: "u32 \<Rightarrow> u8 list" where
  "mem32 v = [ucast v, ucast (drop_bit 8 v), ucast (drop_bit 16 v), ucast (drop_bit 24 v)]"

section \<open>The Internet checksum\<close>

fun sum_words :: "u8 list \<Rightarrow> u32 \<Rightarrow> u32" where
  "sum_words (a # b # bs) acc = sum_words bs (acc + ucast (push_bit 8 (ucast a) OR ucast b :: u16))"
| "sum_words [a] acc = acc + ucast (push_bit 8 (ucast a) :: u16)"
| "sum_words [] acc = acc"

lemma fold_carry_less: "drop_bit 16 (s :: u32) \<noteq> 0 \<Longrightarrow> unat ((s AND 0xFFFF) + drop_bit 16 s) < unat s"
proof -
  assume nz: "drop_bit 16 s \<noteq> 0"
  have m: "s AND 0xFFFF = take_bit 16 s" by (simp add: take_bit_eq_mask mask_eq_exp_minus_1)
  have u: "unat (take_bit 16 s) = unat s mod 65536" "unat (drop_bit 16 s) = unat s div 65536"
    by (simp_all add: unsigned_take_bit_eq unsigned_drop_bit_eq take_bit_eq_mod drop_bit_eq_div unat_div unat_mod)
  then have q: "0 < unat s div 65536" using nz by (metis neq0_conv unat_eq_zero)
  have "unat s mod 65536 + unat s div 65536 < unat s" using q div_mult_mod_eq [of "unat s" 65536] by linarith
  moreover have "unat (take_bit 16 s + drop_bit 16 s) = unat s mod 65536 + unat s div 65536"
    using u calculation unsigned_less [of s, where 'a = nat] by (subst unat_word_ariths(1)) simp
  ultimately show ?thesis by (simp add: m)
qed

function fold_carry :: "u32 \<Rightarrow> u32" where
  "fold_carry acc = (if drop_bit 16 acc \<noteq> 0 then fold_carry ((acc AND 0xFFFF) + drop_bit 16 acc) else acc)"
  by pat_completeness auto
termination by (relation "measure unat") (auto simp: fold_carry_less)

declare fold_carry.simps [simp del]

definition internet_checksum :: "u8 list \<Rightarrow> u16" where
  "internet_checksum data = ucast (NOT (fold_carry (sum_words data 0)) AND 0xFFFF)"

section \<open>Routes\<close>

lemma shift_drops_top:
  fixes m :: u32
  assumes "m AND 0x80000000 \<noteq> 0"
  shows "card {i. i < 32 \<and> bit (push_bit 1 m) i} < card {i. i < 32 \<and> bit m i}"
proof -
  have "bit m 31" using assms bit_iff_and_push_bit_not_eq_0 [of m 31] by simp
  have "{i. i < 32 \<and> bit (push_bit 1 m) i} = Suc ` {i. i < 31 \<and> bit m i}"
  proof (rule set_eqI)
    fix i
    show "i \<in> {i. i < 32 \<and> bit (push_bit 1 m) i} \<longleftrightarrow> i \<in> Suc ` {i. i < 31 \<and> bit m i}" by (cases i) (auto simp: mult.commute [of m 2] bit_double_iff)
  qed
  then have c: "card {i. i < 32 \<and> bit (push_bit 1 m) i} = card {i. i < 31 \<and> bit m i}" by (simp add: card_image)
  have "{i. i < 31 \<and> bit m i} \<subset> {i. i < 32 \<and> bit m i}"
  proof
    show "{i. i < 31 \<and> bit m i} \<subseteq> {i. i < 32 \<and> bit m i}" by auto
    have "31 \<in> {i. i < 32 \<and> bit m i}" "31 \<notin> {i. i < (31 :: nat) \<and> bit m i}" using \<open>bit m 31\<close> by simp_all
    then show "{i. i < 31 \<and> bit m i} \<noteq> {i. i < 32 \<and> bit m i}" by metis
  qed
  then have "card {i. i < 31 \<and> bit m i} < card {i. i < 32 \<and> bit m i}" by (rule psubset_card_mono [rotated]) simp
  then show ?thesis by (simp only: c)
qed

function prefix_loop :: "nat \<Rightarrow> u32 \<Rightarrow> nat" where
  "prefix_loop bits m = (if m AND 0x80000000 \<noteq> 0 then prefix_loop (bits + 1) (push_bit 1 m) else bits)"
  by pat_completeness auto
termination by (relation "measure (\<lambda>(bits, m). card {i. i < 32 \<and> bit m i})") (auto dest: shift_drops_top)

declare prefix_loop.simps [simp del]

definition prefix_len_from_mask :: "u32 \<Rightarrow> nat" where
  "prefix_len_from_mask m = prefix_loop 0 m"

definition route_zero :: route_entry where
  "route_zero = \<lparr>re_used = False, re_network = 0, re_mask = 0, re_gateway = 0, re_prefix_len = 0, re_metric = 0\<rparr>"

definition route_table_clear :: "'h net \<Rightarrow> 'h net" where
  "route_table_clear s = s\<lparr>n_route_count := 0, n_routes := replicate ROUTE_TABLE_MAX route_zero\<rparr>"

text \<open>The slot of the route to a network, or the first free one.\<close>

definition route_slot :: "u32 \<Rightarrow> u32 \<Rightarrow> route_entry list \<Rightarrow> nat option" where
  "route_slot network m t = (case find_slot (\<lambda>r. re_used r \<and> re_network r = network \<and> re_mask r = m) t of
     Some i \<Rightarrow> Some i | None \<Rightarrow> find_slot (\<lambda>r. \<not> re_used r) t)"

definition route_table_set :: "u32 \<Rightarrow> u32 \<Rightarrow> u32 \<Rightarrow> u8 \<Rightarrow> ('h, bool) net_op" where
  "route_table_set network m gateway metric s =
     (let net = (if m \<noteq> 0 then network AND m else 0) in
      case route_slot net m (n_routes s) of
        None \<Rightarrow> (False, s)
      | Some i \<Rightarrow> (True, s\<lparr>n_route_count := (if re_used (n_routes s ! i) then n_route_count s else n_route_count s + 1),
          n_routes := (n_routes s)[i := \<lparr>re_used = True, re_network = net, re_mask = m, re_gateway = gateway,
            re_prefix_len = prefix_len_from_mask m, re_metric = metric\<rparr>]\<rparr>))"

definition route_table_refresh_defaults :: "'h net \<Rightarrow> 'h net" where
  "route_table_refresh_defaults s =
     (let s1 = snd (route_table_set (n_ip s AND n_mask s) (n_mask s) 0 10 (route_table_clear s))
      in if n_gw s \<noteq> 0 then snd (route_table_set 0 0 (n_gw s) 100 s1) else s1)"

text \<open>One round of the search: the best entry so far.\<close>

definition route_better :: "route_entry \<Rightarrow> route_entry option \<Rightarrow> bool" where
  "route_better r best = (case best of
     None \<Rightarrow> True
   | Some b \<Rightarrow> re_prefix_len r > re_prefix_len b \<or> re_prefix_len r = re_prefix_len b \<and> re_metric r < re_metric b)"

definition route_step :: "u32 \<Rightarrow> route_entry \<Rightarrow> route_entry option \<Rightarrow> route_entry option" where
  "route_step dst_ip r best =
     (if re_used r \<and> dst_ip AND re_mask r = re_network r \<and> route_better r best then Some r else best)"

definition route_lookup :: "u32 \<Rightarrow> 'h net \<Rightarrow> u32 option" where
  "route_lookup dst_ip s = map_option (\<lambda>r. if re_gateway r \<noteq> 0 then re_gateway r else dst_ip) (fold (route_step dst_ip) (n_routes s) None)"

definition net_route_next_hop :: "u32 \<Rightarrow> 'h net \<Rightarrow> u32" where
  "net_route_next_hop dst_ip s =
     (if dst_ip = 0 \<or> dst_ip = BROADCAST then dst_ip else case route_lookup dst_ip s of Some hop \<Rightarrow> hop | None \<Rightarrow> dst_ip)"

section \<open>Sending\<close>

definition rtl_port :: "u32 \<Rightarrow> 'h net \<Rightarrow> u16" where
  "rtl_port reg s = ucast (n_iobase s + reg)"

text \<open>The four transmit buffers of 1600 bytes and the receive buffer are at fixed addresses.\<close>

record rtl_mem =
  rtl_tx_buffer :: u32
  rtl_rx_buffer :: u32

definition tx_buffer :: "rtl_mem \<Rightarrow> nat \<Rightarrow> u32" where
  "tx_buffer mem slot = rtl_tx_buffer mem + of_nat slot * 1600"

definition rtl8139_send_frame :: "'h ports \<Rightarrow> rtl_mem \<Rightarrow> u8 list \<Rightarrow> u32 \<Rightarrow> ('h, bool) net_op" where
  "rtl8139_send_frame pt mem frame len s =
     (if \<not> n_ready s \<or> n_iobase s = 0 \<or> len = 0 \<or> len > 1514 then (False, s)
      else let slot = n_tx_slot s; addr = tx_buffer mem slot;
               h1 = dma_store pt addr (take (unat len) frame) (n_hw s);
               h2 = p_outl pt (rtl_port (0x20 + of_nat slot * 4) s) addr h1;
               h3 = p_outl pt (rtl_port (0x10 + of_nat slot * 4) s) (len AND 0x1FFF) h2
           in (True, s\<lparr>n_tx_slot := (slot + 1) mod 4, n_hw := h3\<rparr>))"

definition arp_cache_update :: "u32 \<Rightarrow> u8 list \<Rightarrow> 'h net \<Rightarrow> 'h net" where
  "arp_cache_update ip mac s = s\<lparr>n_arp_ip := ip, n_arp_mac := take 6 mac, n_arp_valid := True\<rparr>"

definition arp_cache_lookup :: "u32 \<Rightarrow> 'h net \<Rightarrow> u8 list option" where
  "arp_cache_lookup ip s = (if \<not> n_arp_valid s \<or> n_arp_ip s \<noteq> ip then None else Some (n_arp_mac s))"

abbreviation MAC_ALL :: "u8 list" where "MAC_ALL \<equiv> replicate 6 0xFF"

definition net_send_arp_packet :: "'h ports \<Rightarrow> rtl_mem \<Rightarrow> u16 \<Rightarrow> u8 list \<Rightarrow> u32 \<Rightarrow> u32 \<Rightarrow> u8 list option \<Rightarrow> ('h, bool) net_op" where
  "net_send_arp_packet pt mem oper dst_mac sender_ip target_ip target_mac s =
     (if \<not> n_ready s then (False, s)
      else rtl8139_send_frame pt mem (dst_mac @ n_mac s @ write_be16 ETH_TYPE_ARP @ write_be16 1 @ write_be16 0x0800 @ [6, 4] @ write_be16 oper @
        n_mac s @ write_be32 sender_ip @ (case target_mac of Some m \<Rightarrow> m | None \<Rightarrow> replicate 6 0) @ write_be32 target_ip) 42 s)"

definition net_send_arp_request :: "'h ports \<Rightarrow> rtl_mem \<Rightarrow> u32 \<Rightarrow> ('h, bool) net_op" where
  "net_send_arp_request pt mem target_ip s = net_send_arp_packet pt mem 1 MAC_ALL (n_ip s) target_ip None s"

definition net_send_arp_reply :: "'h ports \<Rightarrow> rtl_mem \<Rightarrow> u8 list \<Rightarrow> u32 \<Rightarrow> ('h, bool) net_op" where
  "net_send_arp_reply pt mem requester_mac requester_ip s = net_send_arp_packet pt mem 2 requester_mac (n_ip s) requester_ip (Some requester_mac) s"

text \<open>The hardware address for a destination: the cached one, or broadcast after asking for it.\<close>

definition resolve_mac :: "'h ports \<Rightarrow> rtl_mem \<Rightarrow> u32 \<Rightarrow> ('h, u8 list) net_op" where
  "resolve_mac pt mem ip s = (case arp_cache_lookup ip s of Some m \<Rightarrow> (m, s) | None \<Rightarrow> (MAC_ALL, snd (net_send_arp_request pt mem ip s)))"

definition ipv4_header :: "u16 \<Rightarrow> u16 \<Rightarrow> u16 \<Rightarrow> u8 \<Rightarrow> u8 \<Rightarrow> u16 \<Rightarrow> u32 \<Rightarrow> u32 \<Rightarrow> u8 list" where
  "ipv4_header total_len ident flags_off ttl protocol csum src dst =
     [0x45, 0x00] @ write_be16 total_len @ write_be16 ident @ write_be16 flags_off @ [ttl, protocol] @ write_be16 csum @ write_be32 src @ write_be32 dst"

text \<open>The header with its checksum, which is computed over the header with a zero in its place.\<close>

definition ipv4_header_sum :: "u16 \<Rightarrow> u16 \<Rightarrow> u16 \<Rightarrow> u8 \<Rightarrow> u8 \<Rightarrow> u32 \<Rightarrow> u32 \<Rightarrow> u8 list" where
  "ipv4_header_sum total_len ident flags_off ttl protocol src dst =
     ipv4_header total_len ident flags_off ttl protocol (internet_checksum (ipv4_header total_len ident flags_off ttl protocol 0 src dst)) src dst"

text \<open>A frame in its buffer of 1514 bytes, and its length on the wire, at least 60.\<close>

definition eth_frame :: "u8 list \<Rightarrow> u8 list \<Rightarrow> u16 \<Rightarrow> u8 list \<Rightarrow> u8 list" where
  "eth_frame dst_mac src_mac ethertype data = (let f = dst_mac @ src_mac @ write_be16 ethertype @ data in f @ replicate (1514 - length f) 0)"

definition frame_len :: "u16 \<Rightarrow> u32" where
  "frame_len total_len = (let n = 14 + total_len in ucast (if n < 60 then 60 else n))"

definition send_ipv4 :: "'h ports \<Rightarrow> rtl_mem \<Rightarrow> u8 list \<Rightarrow> u32 \<Rightarrow> u8 \<Rightarrow> u8 \<Rightarrow> u16 \<Rightarrow> u16 \<Rightarrow> u8 list \<Rightarrow> ('h, bool) net_op" where
  "send_ipv4 pt mem dst_mac dst_ip protocol ttl ident flags_off payload s =
     (let total_len = 20 + of_nat (length payload)
      in rtl8139_send_frame pt mem (eth_frame dst_mac (n_mac s) ETH_TYPE_IPV4
           (ipv4_header_sum total_len ident flags_off ttl protocol (n_ip s) dst_ip @ payload)) (frame_len total_len) s)"

text \<open>Fragments: each carries a multiple of eight bytes, at most 1480, and all but the last are marked.\<close>

function send_fragments :: "'h ports \<Rightarrow> rtl_mem \<Rightarrow> u8 list \<Rightarrow> u32 \<Rightarrow> u8 \<Rightarrow> u8 \<Rightarrow> u16 \<Rightarrow> u8 list \<Rightarrow> nat \<Rightarrow> ('h, bool) net_op" where
  "send_fragments pt mem dst_mac dst_ip protocol ttl ident payload offset s =
     (if offset < length payload
      then let remain = length payload - offset; frag = min remain 1480;
               flags_off = (of_nat (offset div 8) AND 0x1FFF) OR (if offset + frag < length payload then 0x2000 else 0);
               (ok, s1) = send_ipv4 pt mem dst_mac dst_ip protocol ttl ident flags_off (take frag (drop offset payload)) s
           in if \<not> ok then (False, s1) else send_fragments pt mem dst_mac dst_ip protocol ttl ident payload (offset + frag) s1
      else (True, s))"
  by pat_completeness auto
termination by (relation "measure (\<lambda>(pt, mem, dst_mac, dst_ip, protocol, ttl, ident, payload, offset, s). length payload - offset)") auto

declare send_fragments.simps [simp del]

text \<open>Callers pass at most 4104 bytes, so the 16-bit sums of the code do not wrap.\<close>

definition net_send_ipv4_raw :: "'h ports \<Rightarrow> rtl_mem \<Rightarrow> u32 \<Rightarrow> u8 \<Rightarrow> u8 list \<Rightarrow> u8 \<Rightarrow> u16 \<Rightarrow> ('h, bool) net_op" where
  "net_send_ipv4_raw pt mem dst_ip protocol payload ttl ident s =
     (if \<not> n_ready s then (False, s)
      else let (dst_mac, s1) = (if dst_ip \<noteq> BROADCAST then resolve_mac pt mem (net_route_next_hop dst_ip s) s else (MAC_ALL, s))
           in if length payload + 20 \<le> 1500 then send_ipv4 pt mem dst_mac dst_ip protocol ttl ident 0 payload s1
              else send_fragments pt mem dst_mac dst_ip protocol ttl ident payload 0 s1)"

definition net_forward_ipv4_packet :: "'h ports \<Rightarrow> rtl_mem \<Rightarrow> u8 list \<Rightarrow> u16 \<Rightarrow> ('h, bool) net_op" where
  "net_forward_ipv4_packet pt mem ip_packet total_len s =
     (let ihl = unat ((ip_packet ! 0 AND 0x0F) * 4); ttl = ip_packet ! 8; dst_ip = read_be32 ip_packet 16 in
      if \<not> n_ready s \<or> total_len < 20 \<or> total_len > IPV4_ETH_MTU \<or> ihl < 20 \<or> ihl > unat total_len \<or> ttl \<le> 1 then (False, s)
      else case route_lookup dst_ip s of None \<Rightarrow> (False, s)
        | Some next_hop \<Rightarrow>
            let (dst_mac, s1) = resolve_mac pt mem next_hop s;
                p = (take (unat total_len) ip_packet)[8 := ttl - 1, 10 := 0, 11 := 0]; csum = write_be16 (internet_checksum (take ihl p))
            in rtl8139_send_frame pt mem (eth_frame dst_mac (n_mac s1) ETH_TYPE_IPV4 (p[10 := csum ! 0, 11 := csum ! 1])) (frame_len total_len) s1)"

definition next_ident :: "('h, u16) net_op" where
  "next_ident s = (n_ident s, s\<lparr>n_ident := n_ident s + 1\<rparr>)"

definition net_send_icmp_echo_reply :: "'h ports \<Rightarrow> rtl_mem \<Rightarrow> u32 \<Rightarrow> u8 list \<Rightarrow> u16 \<Rightarrow> ('h, bool) net_op" where
  "net_send_icmp_echo_reply pt mem dst_ip icmp_request icmp_len s =
     (if \<not> n_ready s \<or> icmp_len < 8 \<or> unat icmp_len > IPV4_REASS_MAX_PAYLOAD then (False, s)
      else let icmp = (take (unat icmp_len) icmp_request)[0 := 0, 1 := 0, 2 := 0, 3 := 0]; csum = write_be16 (internet_checksum icmp);
               (ident, s1) = next_ident s
           in net_send_ipv4_raw pt mem dst_ip IP_PROTO_ICMP (icmp[2 := csum ! 0, 3 := csum ! 1]) 64 ident s1)"

section \<open>TCP\<close>

definition tcp_pseudo :: "u32 \<Rightarrow> u32 \<Rightarrow> u8 \<Rightarrow> u8 list \<Rightarrow> u8 list" where
  "tcp_pseudo src dst protocol segment = write_be32 src @ write_be32 dst @ [0, protocol] @ write_be16 (of_nat (length segment)) @ segment"

definition tcp_segment :: "u16 \<Rightarrow> u16 \<Rightarrow> u32 \<Rightarrow> u32 \<Rightarrow> u8 \<Rightarrow> u16 \<Rightarrow> u8 list \<Rightarrow> u8 list" where
  "tcp_segment src_port dst_port sq ack flags csum payload =
     write_be16 src_port @ write_be16 dst_port @ write_be32 sq @ write_be32 ack @ [push_bit 4 5, flags] @ write_be16 4096 @ write_be16 csum @ write_be16 0 @ payload"

definition tcp_send_segment :: "'h ports \<Rightarrow> rtl_mem \<Rightarrow> u32 \<Rightarrow> u16 \<Rightarrow> u16 \<Rightarrow> u32 \<Rightarrow> u32 \<Rightarrow> u8 \<Rightarrow> u8 list \<Rightarrow> ('h, bool) net_op" where
  "tcp_send_segment pt mem dst_ip src_port dst_port sq ack flags payload s =
     (if \<not> n_ready s \<or> length payload > 1300 then (False, s)
      else let (dst_mac, s1) = (if dst_ip \<noteq> BROADCAST then resolve_mac pt mem (net_route_next_hop dst_ip s) s else (MAC_ALL, s));
               csum = internet_checksum (tcp_pseudo (n_ip s) dst_ip IP_PROTO_TCP (tcp_segment src_port dst_port sq ack flags 0 payload))
           in send_ipv4 pt mem dst_mac dst_ip IP_PROTO_TCP 64 (ucast (n_iss s1 AND 0xFFFF)) 0 (tcp_segment src_port dst_port sq ack flags csum payload) s1)"

definition upd_conn :: "nat \<Rightarrow> (tcp_conn \<Rightarrow> tcp_conn) \<Rightarrow> 'h net \<Rightarrow> 'h net" where
  "upd_conn i f s = s\<lparr>n_tcp := (n_tcp s)[i := f (n_tcp s ! i)]\<rparr>"

abbreviation conn :: "'h net \<Rightarrow> nat \<Rightarrow> tcp_conn" where "conn s i \<equiv> n_tcp s ! i"

text \<open>A fresh connection; the contents of its buffers stay.\<close>

definition conn_reset :: "tcp_conn \<Rightarrow> tcp_conn" where
  "conn_reset c = c\<lparr>tc_used := True, tc_listening := False, tc_parent_listen := -1, tc_accepted := False, tc_state := TCP_CLOSED, tc_local_port := 0,
     tc_remote_port := 0, tc_remote_ip := 0, tc_snd_una := 0, tc_snd_nxt := 0, tc_rcv_nxt := 0,
     tc_rx := (tc_rx c)\<lparr>r_head := 0, r_tail := 0, r_count := 0\<rparr>, tc_last_tick := 0, tc_last_seq := 0, tc_last_ack := 0, tc_last_data := [],
     tc_last_flags := 0, tc_last_retries := 0, tc_waiting_ack := False\<rparr>"

definition tcp_alloc_conn :: "('h, nat option) net_op" where
  "tcp_alloc_conn s = (case find_slot (\<lambda>c. \<not> tc_used c) (n_tcp s) of None \<Rightarrow> (None, s) | Some i \<Rightarrow> (Some i, upd_conn i conn_reset s))"

text \<open>The copy that is kept for a retransmission; its length is the length of the data.\<close>

definition track_outbound :: "u32 \<Rightarrow> u32 \<Rightarrow> u32 \<Rightarrow> u8 \<Rightarrow> u8 list \<Rightarrow> tcp_conn \<Rightarrow> tcp_conn" where
  "track_outbound tick sq ack flags payload c = c\<lparr>tc_last_tick := tick, tc_last_seq := sq, tc_last_ack := ack, tc_last_flags := flags,
     tc_last_data := payload, tc_last_retries := 0, tc_waiting_ack := (flags AND TCP_FLAG_SYN \<noteq> 0 \<or> flags AND TCP_FLAG_FIN \<noteq> 0 \<or> payload \<noteq> [])\<rparr>"

definition conn_send :: "'h ports \<Rightarrow> rtl_mem \<Rightarrow> nat \<Rightarrow> u32 \<Rightarrow> u32 \<Rightarrow> u8 \<Rightarrow> u8 list \<Rightarrow> ('h, bool) net_op" where
  "conn_send pt mem i sq ack flags payload s =
     tcp_send_segment pt mem (tc_remote_ip (conn s i)) (tc_local_port (conn s i)) (tc_remote_port (conn s i)) sq ack flags payload s"

definition tcp_send_and_track :: "'h ports \<Rightarrow> rtl_mem \<Rightarrow> nat \<Rightarrow> u8 \<Rightarrow> u8 list \<Rightarrow> ('h, bool) net_op" where
  "tcp_send_and_track pt mem i flags payload s =
     (let c = conn s i; (ok, s1) = conn_send pt mem i (tc_snd_nxt c) (tc_rcv_nxt c) flags payload s in
      if \<not> ok then (False, s1)
      else (True, upd_conn i (\<lambda>c. (track_outbound (n_tick s1) (tc_snd_nxt c) (tc_rcv_nxt c) flags payload c)
        \<lparr>tc_snd_nxt := tc_snd_nxt c + (if flags AND TCP_FLAG_SYN \<noteq> 0 \<or> flags AND TCP_FLAG_FIN \<noteq> 0 then 1 else 0) + of_nat (length payload)\<rparr>) s1))"

definition tcp_retransmit_last :: "'h ports \<Rightarrow> rtl_mem \<Rightarrow> nat \<Rightarrow> ('h, bool) net_op" where
  "tcp_retransmit_last pt mem i s =
     (let c = conn s i; half = (tc_state c = TCP_SYN_SENT \<or> tc_state c = TCP_SYN_RCVD) in
      if \<not> tc_used c \<or> tc_listening c \<or> \<not> tc_waiting_ack c then (False, s)
      else if tc_last_retries c \<ge> (if half then TCP_RETX_MAX + 2 else TCP_RETX_MAX)
      then (False, upd_conn i (\<lambda>c. c\<lparr>tc_used := False, tc_state := TCP_CLOSED\<rparr>)
        (upd_rx_stats (\<lambda>t. t\<lparr>ns_tcp_retransmit_failures := ns_tcp_retransmit_failures t + 1,
           ns_tcp_half_open_cleanups := ns_tcp_half_open_cleanups t + (if half \<or> tc_state c = TCP_CLOSING then 1 else 0)\<rparr>) s))
      else let (ok, s1) = conn_send pt mem i (tc_last_seq c) (tc_last_ack c) (tc_last_flags c) (tc_last_data c) s in
        if \<not> ok then (False, s1)
        else (True, upd_rx_stats (\<lambda>t. t\<lparr>ns_tcp_retransmits := ns_tcp_retransmits t + 1\<rparr>)
          (upd_conn i (\<lambda>c. c\<lparr>tc_last_tick := n_tick s1, tc_last_retries := tc_last_retries c + 1\<rparr>) s1)))"

definition tcp_find_listener :: "u16 \<Rightarrow> 'h net \<Rightarrow> nat option" where
  "tcp_find_listener port s = find_slot (\<lambda>c. tc_used c \<and> tc_listening c \<and> tc_local_port c = port) (n_tcp s)"

definition tcp_find_conn :: "u32 \<Rightarrow> u16 \<Rightarrow> u16 \<Rightarrow> 'h net \<Rightarrow> nat option" where
  "tcp_find_conn remote_ip remote_port local_port s = find_slot (\<lambda>c. tc_used c \<and> \<not> tc_listening c \<and> tc_remote_ip c = remote_ip \<and>
     tc_remote_port c = remote_port \<and> tc_local_port c = local_port \<and> tc_state c \<noteq> TCP_CLOSED) (n_tcp s)"

definition tcp_queue_rx :: "u8 list \<Rightarrow> tcp_conn \<Rightarrow> bool \<times> tcp_conn" where
  "tcp_queue_rx payload c =
     (if payload = [] then (True, c)
      else if length payload > TCP_MAX_PAYLOAD \<or> r_count (tc_rx c) \<ge> TCP_QUEUE_DEPTH then (False, c)
      else (True, c\<lparr>tc_rx := ring_push TCP_QUEUE_DEPTH payload (tc_rx c)\<rparr>))"

end
