(* ===== verification/NetRecv.thy ===== *)
theory NetRecv
  imports Net
begin

text \<open>
  The receiving side of the network stack: TCP segments, UDP datagrams and their queues, reassembly of fragments, and the dispatch of a frame by its type.
\<close>

section \<open>Injected faults and counters\<close>

definition net_fault_prng_next :: "('h, u32) net_op" where
  "net_fault_prng_next s = (let v = n_prng s * 1664525 + 1013904223 in (v, s\<lparr>n_prng := v\<rparr>))"

definition net_fault_should_apply :: "u32 \<Rightarrow> ('h, bool) net_op" where
  "net_fault_should_apply percent s =
     (if percent = 0 then (False, s) else if percent \<ge> 100 then (True, s)
      else let (v, s1) = net_fault_prng_next s in (v mod 100 < percent, s1))"

definition net_count_malformed :: "'h net \<Rightarrow> 'h net" where
  "net_count_malformed = upd_rx_stats (\<lambda>t. t\<lparr>ns_malformed_frames := ns_malformed_frames t + 1,
     ns_quarantined_frames := ns_quarantined_frames t + 1, ns_dropped_frames := ns_dropped_frames t + 1\<rparr>)"

definition count_loss :: "'h net \<Rightarrow> 'h net" where
  "count_loss = upd_rx_stats (\<lambda>t. t\<lparr>ns_injected_loss_frames := ns_injected_loss_frames t + 1\<rparr>)"

definition net_count_ethertype :: "u16 \<Rightarrow> 'h net \<Rightarrow> 'h net" where
  "net_count_ethertype ethertype = upd_rx_stats (\<lambda>t. let t1 = t\<lparr>ns_total_frames := ns_total_frames t + 1\<rparr> in
     if ethertype = ETH_TYPE_IPV4 then t1\<lparr>ns_ipv4_frames := ns_ipv4_frames t + 1\<rparr>
     else if ethertype = ETH_TYPE_ARP then t1\<lparr>ns_arp_frames := ns_arp_frames t + 1\<rparr>
     else if ethertype = ETH_TYPE_NEURO then t1\<lparr>ns_neuro_frames := ns_neuro_frames t + 1\<rparr>
     else t1\<lparr>ns_unknown_frames := ns_unknown_frames t + 1\<rparr>)"

section \<open>TCP segments\<close>

definition tcp_checksum_valid :: "u32 \<Rightarrow> u32 \<Rightarrow> u8 list \<Rightarrow> u16 \<Rightarrow> bool" where
  "tcp_checksum_valid src_ip dst_ip tcp tcp_len \<longleftrightarrow>
     \<not> tcp_len < 20 \<and> 12 + tcp_len \<le> 1600 \<and> internet_checksum (tcp_pseudo src_ip dst_ip IP_PROTO_TCP (take (unat tcp_len) tcp)) = 0"

text \<open>A connection request to a listener.\<close>

definition tcp_open_child :: "'h ports \<Rightarrow> rtl_mem \<Rightarrow> nat \<Rightarrow> u32 \<Rightarrow> u16 \<Rightarrow> u16 \<Rightarrow> u32 \<Rightarrow> ('h, bool) net_op" where
  "tcp_open_child pt mem listener src_ip src_port dst_port sq s =
     (case tcp_alloc_conn s of
        (None, s1) \<Rightarrow> (False, s1)
      | (Some i, s1) \<Rightarrow>
          let iss = n_iss s1;
              s2 = (upd_conn i (\<lambda>c. c\<lparr>tc_parent_listen := int listener, tc_state := TCP_SYN_RCVD, tc_local_port := dst_port, tc_remote_port := src_port,
                      tc_remote_ip := src_ip, tc_rcv_nxt := sq + 1, tc_snd_una := iss, tc_snd_nxt := iss + 1\<rparr>) s1)\<lparr>n_iss := iss + 0x101\<rparr>;
              (ok, s3) = conn_send pt mem i iss (sq + 1) (TCP_FLAG_SYN OR TCP_FLAG_ACK) [] s2
          in if \<not> ok then (False, upd_conn i (\<lambda>c. c\<lparr>tc_used := False\<rparr>) s3)
             else (True, upd_conn i (\<lambda>c. c\<lparr>tc_last_tick := n_tick s3, tc_last_seq := iss, tc_last_ack := sq + 1,
               tc_last_flags := TCP_FLAG_SYN OR TCP_FLAG_ACK, tc_last_data := [], tc_last_retries := 0, tc_waiting_ack := True\<rparr>) s3))"

definition send_ack :: "'h ports \<Rightarrow> rtl_mem \<Rightarrow> nat \<Rightarrow> 'h net \<Rightarrow> 'h net" where
  "send_ack pt mem i s = snd (conn_send pt mem i (tc_snd_nxt (conn s i)) (tc_rcv_nxt (conn s i)) TCP_FLAG_ACK [] s)"

definition conn_closed :: "tcp_conn \<Rightarrow> tcp_conn" where
  "conn_closed c = c\<lparr>tc_state := TCP_CLOSED, tc_used := False\<rparr>"

text \<open>What a connection does with a segment while it is closing.\<close>

definition tcp_on_closing :: "'h ports \<Rightarrow> rtl_mem \<Rightarrow> nat \<Rightarrow> u8 \<Rightarrow> u32 \<Rightarrow> u32 \<Rightarrow> ('h, bool) net_op" where
  "tcp_on_closing pt mem i flags sq ack s =
     (let done = (\<lambda>c. conn_closed (c\<lparr>tc_snd_una := ack, tc_waiting_ack := False\<rparr>)) in
      if flags AND TCP_FLAG_ACK \<noteq> 0 \<and> ack \<ge> tc_snd_nxt (conn s i) then (True, upd_conn i done s)
      else if flags AND TCP_FLAG_FIN \<noteq> 0
      then let s1 = send_ack pt mem i (upd_conn i (\<lambda>c. if sq = tc_rcv_nxt c then c\<lparr>tc_rcv_nxt := tc_rcv_nxt c + 1\<rparr> else c) s)
           in (True, if flags AND TCP_FLAG_ACK \<noteq> 0 \<and> ack \<ge> tc_snd_nxt (conn s1 i) then upd_conn i done s1 else s1)
      else (False, s))"

text \<open>Data and the end of the stream on an open connection.\<close>

definition tcp_take_ack :: "u8 \<Rightarrow> u32 \<Rightarrow> tcp_conn \<Rightarrow> tcp_conn" where
  "tcp_take_ack flags ack c =
     (if flags AND TCP_FLAG_ACK \<noteq> 0 \<and> ack > tc_snd_una c
      then c\<lparr>tc_snd_una := ack, tc_waiting_ack := (if ack \<ge> tc_snd_nxt c then False else tc_waiting_ack c)\<rparr> else c)"

definition tcp_take_data :: "u32 \<Rightarrow> u8 list \<Rightarrow> tcp_conn \<Rightarrow> tcp_conn" where
  "tcp_take_data sq payload c =
     (if sq = tc_rcv_nxt c
      then let (ok, c1) = tcp_queue_rx payload c in if ok then c1\<lparr>tc_rcv_nxt := tc_rcv_nxt c1 + of_nat (length payload)\<rparr> else c1
      else c)"

definition tcp_take_fin :: "u32 \<Rightarrow> tcp_conn \<Rightarrow> tcp_conn" where
  "tcp_take_fin sq c = c\<lparr>tc_rcv_nxt := (if sq = tc_rcv_nxt c then tc_rcv_nxt c + 1 else tc_rcv_nxt c), tc_state := TCP_CLOSE_WAIT\<rparr>"

definition tcp_on_open :: "'h ports \<Rightarrow> rtl_mem \<Rightarrow> nat \<Rightarrow> u8 \<Rightarrow> u32 \<Rightarrow> u32 \<Rightarrow> u8 list \<Rightarrow> ('h, bool) net_op" where
  "tcp_on_open pt mem i flags sq ack payload s =
     (let s1 = upd_conn i (tcp_take_ack flags ack) s;
          (lost, s2) = (if payload \<noteq> [] then net_fault_should_apply (n_loss s1) s1 else (False, s1))
      in if lost then (True, send_ack pt mem i (count_loss s2))
         else let s3 = (if payload \<noteq> [] then send_ack pt mem i (upd_conn i (tcp_take_data sq payload) s2) else s2)
              in (True, if flags AND TCP_FLAG_FIN \<noteq> 0 then send_ack pt mem i (upd_conn i (tcp_take_fin sq) s3) else s3))"

definition tcp_on_conn :: "'h ports \<Rightarrow> rtl_mem \<Rightarrow> nat \<Rightarrow> u8 \<Rightarrow> u32 \<Rightarrow> u32 \<Rightarrow> u8 list \<Rightarrow> ('h, bool) net_op" where
  "tcp_on_conn pt mem i flags sq ack payload s =
     (if flags AND TCP_FLAG_RST \<noteq> 0
      then (True, upd_conn i conn_closed (upd_rx_stats (\<lambda>t. t\<lparr>ns_tcp_reset_events := ns_tcp_reset_events t + 1\<rparr>) s))
      else case tc_state (conn s i) of
        TCP_CLOSING \<Rightarrow> tcp_on_closing pt mem i flags sq ack s
      | TCP_SYN_SENT \<Rightarrow>
          if flags AND TCP_FLAG_SYN \<noteq> 0 \<and> flags AND TCP_FLAG_ACK \<noteq> 0 \<and> ack = tc_snd_nxt (conn s i)
          then (True, send_ack pt mem i (upd_conn i (\<lambda>c. c\<lparr>tc_rcv_nxt := sq + 1, tc_snd_una := ack, tc_state := TCP_ESTABLISHED, tc_waiting_ack := False\<rparr>) s))
          else (False, s)
      | TCP_SYN_RCVD \<Rightarrow>
          if flags AND TCP_FLAG_ACK \<noteq> 0 \<and> ack = tc_snd_nxt (conn s i)
          then (True, upd_conn i (\<lambda>c. c\<lparr>tc_snd_una := ack, tc_state := TCP_ESTABLISHED, tc_waiting_ack := False\<rparr>) s)
          else (False, s)
      | TCP_ESTABLISHED \<Rightarrow> tcp_on_open pt mem i flags sq ack payload s
      | TCP_CLOSE_WAIT \<Rightarrow> tcp_on_open pt mem i flags sq ack payload s
      | _ \<Rightarrow> (False, s))"

definition net_handle_tcp_segment :: "'h ports \<Rightarrow> rtl_mem \<Rightarrow> u32 \<Rightarrow> u32 \<Rightarrow> u8 list \<Rightarrow> u16 \<Rightarrow> ('h, bool) net_op" where
  "net_handle_tcp_segment pt mem src_ip dst_ip tcp tcp_len s =
     (if tcp_len < 20 then (False, s)
      else if \<not> tcp_checksum_valid src_ip dst_ip tcp tcp_len then (False, net_count_malformed s)
      else let src_port = read_be16 tcp 0; dst_port = read_be16 tcp 2; sq = read_be32 tcp 4; ack = read_be32 tcp 8;
               hdr_len = unat (drop_bit 4 (tcp ! 12)) * 4; flags = tcp ! 13 in
        if hdr_len < 20 \<or> hdr_len > unat tcp_len then (False, s)
        else case tcp_find_conn src_ip src_port dst_port s of
          None \<Rightarrow> (case tcp_find_listener dst_port s of
              Some l \<Rightarrow> if flags AND TCP_FLAG_SYN \<noteq> 0 \<and> flags AND TCP_FLAG_ACK = 0 then tcp_open_child pt mem l src_ip src_port dst_port sq s else (False, s)
            | None \<Rightarrow> (False, s))
        | Some i \<Rightarrow> tcp_on_conn pt mem i flags sq ack (take (unat tcp_len - hdr_len) (drop hdr_len tcp)) s)"

section \<open>UDP datagrams\<close>

definition upd_binding :: "nat \<Rightarrow> (udp_binding \<Rightarrow> udp_binding) \<Rightarrow> 'h net \<Rightarrow> 'h net" where
  "upd_binding i f s = s\<lparr>n_udp := (n_udp s)[i := f (n_udp s ! i)]\<rparr>"

definition udp_find_binding :: "u16 \<Rightarrow> 'h net \<Rightarrow> nat option" where
  "udp_find_binding port s = find_slot (\<lambda>b. ub_used b \<and> ub_port b = port) (n_udp s)"

definition binding_reset :: "bool \<Rightarrow> u16 \<Rightarrow> udp_binding \<Rightarrow> udp_binding" where
  "binding_reset used port b = b\<lparr>ub_used := used, ub_port := port, ub_dropped := 0, ub_queue := (ub_queue b)\<lparr>r_head := 0, r_tail := 0, r_count := 0\<rparr>\<rparr>"

definition udp_alloc_binding :: "u16 \<Rightarrow> ('h, nat option) net_op" where
  "udp_alloc_binding port s = (case udp_find_binding port s of
     Some i \<Rightarrow> (Some i, s)
   | None \<Rightarrow> (case find_slot (\<lambda>b. \<not> ub_used b) (n_udp s) of None \<Rightarrow> (None, s) | Some i \<Rightarrow> (Some i, upd_binding i (binding_reset True port) s)))"

definition binding_push :: "udp_packet \<Rightarrow> udp_binding \<Rightarrow> bool \<times> udp_binding" where
  "binding_push p b =
     (if length (up_data p) > UDP_MAX_PAYLOAD \<or> r_count (ub_queue b) \<ge> UDP_QUEUE_DEPTH then (False, b\<lparr>ub_dropped := ub_dropped b + 1\<rparr>)
      else (True, b\<lparr>ub_queue := ring_push UDP_QUEUE_DEPTH p (ub_queue b)\<rparr>))"

definition udp_enqueue_packet :: "u16 \<Rightarrow> u32 \<Rightarrow> u16 \<Rightarrow> u8 list \<Rightarrow> ('h, bool) net_op" where
  "udp_enqueue_packet dst_port src_ip src_port payload s = (case udp_find_binding dst_port s of
     None \<Rightarrow> (False, s)
   | Some i \<Rightarrow> let (ok, b) = binding_push \<lparr>up_src_ip = src_ip, up_src_port = src_port, up_data = payload\<rparr> (n_udp s ! i) in (ok, upd_binding i (\<lambda>_. b) s))"

definition udp_enqueue_with_faults :: "u16 \<Rightarrow> u32 \<Rightarrow> u16 \<Rightarrow> u8 list \<Rightarrow> ('h, bool) net_op" where
  "udp_enqueue_with_faults dst_port src_ip src_port payload s =
     (let (lost, s1) = net_fault_should_apply (n_loss s) s in
      if lost then (True, count_loss s1)
      else if uh_valid (n_hold s1)
      then let (ok, s2) = udp_enqueue_packet dst_port src_ip src_port payload s1 in
        if \<not> ok then (False, s2)
        else let h = n_hold s2; (ok, s3) = udp_enqueue_packet (uh_dst_port h) (uh_src_ip h) (uh_src_port h) (uh_data h) s2 in
          if \<not> ok then (False, s3)
          else (True, upd_rx_stats (\<lambda>t. t\<lparr>ns_injected_reorder_frames := ns_injected_reorder_frames t + 1\<rparr>) (s3\<lparr>n_hold := (n_hold s3)\<lparr>uh_valid := False\<rparr>\<rparr>))
      else let (held, s2) = net_fault_should_apply (n_reorder s1) s1 in
        if held \<and> length payload \<le> UDP_MAX_PAYLOAD
        then (True, s2\<lparr>n_hold := \<lparr>uh_valid = True, uh_src_ip = src_ip, uh_src_port = src_port, uh_dst_port = dst_port, uh_data = payload\<rparr>\<rparr>)
        else udp_enqueue_packet dst_port src_ip src_port payload s2)"

definition net_handle_udp_datagram :: "u32 \<Rightarrow> u32 \<Rightarrow> u8 list \<Rightarrow> u16 \<Rightarrow> ('h, bool) net_op" where
  "net_handle_udp_datagram src_ip dst_ip udp_packet udp_len s =
     (if udp_len < 8 then (False, net_count_malformed s)
      else let src_port = read_be16 udp_packet 0; dst_port = read_be16 udp_packet 2; header_len = read_be16 udp_packet 4; checksum = read_be16 udp_packet 6 in
        if header_len < 8 \<or> header_len > udp_len then (False, net_count_malformed s)
        else if checksum \<noteq> 0 \<and> (12 + header_len > 1600 \<or> internet_checksum (tcp_pseudo src_ip dst_ip IP_PROTO_UDP (take (unat header_len) udp_packet)) \<noteq> 0)
        then (False, net_count_malformed s)
        else udp_enqueue_with_faults dst_port src_ip src_port (take (unat header_len - 8) (drop 8 udp_packet)) s)"

section \<open>Reassembly of IPv4 fragments\<close>

definition reass_gc :: "u32 \<Rightarrow> reass_slot \<Rightarrow> reass_slot" where
  "reass_gc tick r = (if rs_used r \<and> tick - rs_last_tick r > IPV4_REASS_TIMEOUT_TICKS then r\<lparr>rs_used := False\<rparr> else r)"

definition ipv4_reassembly_gc :: "'h net \<Rightarrow> 'h net" where
  "ipv4_reassembly_gc s = s\<lparr>n_reass := map (reass_gc (n_tick s)) (n_reass s)\<rparr>"

definition ipv4_reass_present_get :: "u8 list \<Rightarrow> nat \<Rightarrow> bool" where
  "ipv4_reass_present_get present block_idx \<longleftrightarrow> block_idx div 8 < 64 \<and> present ! (block_idx div 8) AND push_bit (block_idx mod 8) 1 \<noteq> 0"

definition ipv4_reass_present_set :: "nat \<Rightarrow> u8 list \<Rightarrow> u8 list" where
  "ipv4_reass_present_set block_idx present =
     (if block_idx div 8 \<ge> 64 then present else present[block_idx div 8 := present ! (block_idx div 8) OR push_bit (block_idx mod 8) 1])"

text \<open>The search for a slot: the one of the datagram, else the first free one, else the one not touched for longest.\<close>

fun reass_pick :: "(reass_slot \<Rightarrow> bool) \<Rightarrow> reass_slot list \<Rightarrow> nat \<Rightarrow> nat option \<Rightarrow> u32 \<Rightarrow> nat option \<Rightarrow> nat" where
  "reass_pick m [] i slot oldest_tick oldest = (case slot of Some k \<Rightarrow> k | None \<Rightarrow> (case oldest of Some k \<Rightarrow> k | None \<Rightarrow> 0))"
| "reass_pick m (r # rs) i slot oldest_tick oldest =
     (if \<not> rs_used r then reass_pick m rs (Suc i) (if slot = None then Some i else slot) oldest_tick oldest
      else if m r then i
      else if rs_last_tick r < oldest_tick then reass_pick m rs (Suc i) slot (rs_last_tick r) (Some i)
      else reass_pick m rs (Suc i) slot oldest_tick oldest)"

definition reass_match :: "u32 \<Rightarrow> u32 \<Rightarrow> u16 \<Rightarrow> u8 \<Rightarrow> reass_slot \<Rightarrow> bool" where
  "reass_match src_ip dst_ip ident proto r \<longleftrightarrow> rs_src_ip r = src_ip \<and> rs_dst_ip r = dst_ip \<and> rs_ident r = ident \<and> rs_proto r = proto"

definition reass_start :: "u32 \<Rightarrow> u32 \<Rightarrow> u16 \<Rightarrow> u8 \<Rightarrow> reass_slot \<Rightarrow> reass_slot" where
  "reass_start src_ip dst_ip ident proto r =
     (if \<not> rs_used r \<or> \<not> reass_match src_ip dst_ip ident proto r
      then r\<lparr>rs_used := True, rs_src_ip := src_ip, rs_dst_ip := dst_ip, rs_ident := ident, rs_proto := proto, rs_header_len := 0, rs_have_first := False,
        rs_total_known := False, rs_total_payload_len := 0, rs_present := replicate 64 0\<rparr>
      else r)"

text \<open>Storing a fragment: its bytes, the blocks it covers, the header of the first one and the length the last one tells.\<close>

definition reass_store :: "u32 \<Rightarrow> u16 \<Rightarrow> bool \<Rightarrow> u8 list \<Rightarrow> u8 \<Rightarrow> u8 list \<Rightarrow> reass_slot \<Rightarrow> reass_slot" where
  "reass_store tick frag_offset more_frags ip_header header_len payload r =
     (let off = unat frag_offset; len = length payload;
          r1 = r\<lparr>rs_last_tick := tick\<rparr>;
          r2 = (if frag_offset = 0 then r1\<lparr>rs_header_len := header_len, rs_have_first := True, rs_header := take (unat header_len) ip_header\<rparr> else r1);
          r3 = (if len > 0 then r2\<lparr>rs_payload := take off (rs_payload r2) @ payload @ drop (off + len) (rs_payload r2),
                  rs_present := fold ipv4_reass_present_set [off div 8..<(off + len + 7) div 8] (rs_present r2)\<rparr> else r2)
      in if \<not> more_frags then r3\<lparr>rs_total_known := True, rs_total_payload_len := frag_offset + of_nat len\<rparr> else r3)"

definition reass_complete :: "reass_slot \<Rightarrow> bool" where
  "reass_complete r \<longleftrightarrow> rs_have_first r \<and> rs_total_known r \<and>
     (\<forall>b \<in> set [0..<(unat (rs_total_payload_len r) + 7) div 8]. ipv4_reass_present_get (rs_present r) b)"

definition reass_packet :: "reass_slot \<Rightarrow> u8 list" where
  "reass_packet r =
     (let total = write_be16 (ucast (rs_header_len r) + rs_total_payload_len r);
          h = (take (unat (rs_header_len r)) (rs_header r))[2 := total ! 0, 3 := total ! 1, 6 := 0, 7 := 0, 10 := 0, 11 := 0];
          csum = write_be16 (internet_checksum h)
      in h[10 := csum ! 0, 11 := csum ! 1] @ take (unat (rs_total_payload_len r)) (rs_payload r))"

definition ipv4_reassemble_packet :: "u32 \<Rightarrow> u32 \<Rightarrow> u8 \<Rightarrow> u16 \<Rightarrow> u16 \<Rightarrow> u8 list \<Rightarrow> u8 \<Rightarrow> u8 list \<Rightarrow> u16 \<Rightarrow> ('h, u8 list option) net_op" where
  "ipv4_reassemble_packet src_ip dst_ip proto ident frag_off_flags ip_header header_len payload payload_len s =
     (let frag_offset = (frag_off_flags AND 0x1FFF) * 8; more_frags = (frag_off_flags AND 0x2000 \<noteq> 0) in
      if header_len < 20 \<or> unat header_len > IPV4_MAX_HEADER \<or> unat frag_offset + unat payload_len > IPV4_REASS_MAX_PAYLOAD then (None, s)
      else let s1 = ipv4_reassembly_gc s;
               k = reass_pick (reass_match src_ip dst_ip ident proto) (n_reass s1) 0 None 0xFFFFFFFF None;
               r = reass_store (n_tick s1) frag_offset more_frags ip_header header_len (take (unat payload_len) payload) (reass_start src_ip dst_ip ident proto (n_reass s1 ! k))
           in if \<not> reass_complete r then (None, s1\<lparr>n_reass := (n_reass s1)[k := r]\<rparr>)
              else (Some (reass_packet r), s1\<lparr>n_reass := (n_reass s1)[k := r\<lparr>rs_used := False\<rparr>]\<rparr>))"

section \<open>Frames\<close>

text \<open>A complete IPv4 packet for this host, by its protocol.\<close>

definition net_deliver_ipv4 :: "'h ports \<Rightarrow> rtl_mem \<Rightarrow> u8 list \<Rightarrow> u16 \<Rightarrow> u16 \<Rightarrow> u8 \<Rightarrow> u32 \<Rightarrow> u32 \<Rightarrow> ('h, bool) net_op" where
  "net_deliver_ipv4 pt mem ip header_len total_len protocol src_ip dst_ip s =
     (let len = total_len - header_len; payload = drop (unat header_len) ip in
      if dst_ip \<noteq> n_ip s \<and> dst_ip \<noteq> BROADCAST then (True, s)
      else if protocol = IP_PROTO_ICMP
      then (if len < 8 then (False, s) else if payload ! 0 = 8 \<and> payload ! 1 = 0 then net_send_icmp_echo_reply pt mem src_ip payload len s else (True, s))
      else if protocol = IP_PROTO_UDP then (if len < 8 then (False, s) else net_handle_udp_datagram src_ip dst_ip payload len s)
      else if protocol = IP_PROTO_TCP then (if len < 20 then (False, s) else net_handle_tcp_segment pt mem src_ip dst_ip payload len s)
      else (True, s))"

definition net_handle_ipv4_frame :: "'h ports \<Rightarrow> rtl_mem \<Rightarrow> u8 list \<Rightarrow> u16 \<Rightarrow> ('h, bool) net_op" where
  "net_handle_ipv4_frame pt mem frame len s =
     (if len < 34 then (False, net_count_malformed s)
      else let s1 = ipv4_reassembly_gc s; ip = drop 14 frame; version_ihl = ip ! 0; header_len = ucast (version_ihl AND 0x0F) * 4 in
        if drop_bit 4 version_ihl \<noteq> 4 then (False, s1)
        else if header_len < 20 \<or> header_len > 60 \<or> len < 14 + header_len then (False, net_count_malformed s1)
        else let total_len = read_be16 ip 2 in
          if total_len < header_len \<or> len < 14 + total_len then (False, net_count_malformed s1)
          else if internet_checksum (take (unat header_len) ip) \<noteq> 0 then (False, net_count_malformed s1)
          else let protocol = ip ! 9; src_ip = read_be32 ip 12; dst_ip = read_be32 ip 16; ident = read_be16 ip 4; frag_off_flags = read_be16 ip 6;
                   s2 = arp_cache_update src_ip (drop 6 frame) s1 in
            if dst_ip \<noteq> n_ip s2 \<and> dst_ip \<noteq> BROADCAST then net_forward_ipv4_packet pt mem ip total_len s2
            else if frag_off_flags AND 0x3FFF \<noteq> 0
            then (case ipv4_reassemble_packet src_ip dst_ip protocol ident frag_off_flags ip (ucast header_len)
                    (drop (unat header_len) ip) (total_len - header_len) s2 of
                  (None, s3) \<Rightarrow> (True, s3)
                | (Some a, s3) \<Rightarrow>
                    let hlen = ucast (a ! 0 AND 0x0F) * 4; alen = of_nat (length a) in
                    if alen < hlen then (False, s3)
                    else net_deliver_ipv4 pt mem a hlen alen (a ! 9) (read_be32 a 12) (read_be32 a 16) s3)
            else net_deliver_ipv4 pt mem ip header_len total_len protocol src_ip dst_ip s2)"

definition net_handle_arp_frame :: "'h ports \<Rightarrow> rtl_mem \<Rightarrow> u8 list \<Rightarrow> u16 \<Rightarrow> ('h, bool) net_op" where
  "net_handle_arp_frame pt mem frame len s =
     (if len < 42 then (False, net_count_malformed s)
      else if read_be16 frame 14 \<noteq> 1 \<or> read_be16 frame 16 \<noteq> 0x0800 \<or> frame ! 18 \<noteq> 6 \<or> frame ! 19 \<noteq> 4 then (False, s)
      else let sender_mac = take 6 (drop 22 frame); sender_ip = read_be32 frame 28; target_ip = read_be32 frame 38;
               s1 = arp_cache_update sender_ip sender_mac s
           in (True, if read_be16 frame 20 = 1 \<and> target_ip = n_ip s1 then snd (net_send_arp_reply pt mem sender_mac sender_ip s1) else s1))"

definition net_handle_eth_frame :: "'h ports \<Rightarrow> rtl_mem \<Rightarrow> u8 list \<Rightarrow> u16 \<Rightarrow> ('h, bool) net_op" where
  "net_handle_eth_frame pt mem frame len s =
     (if len < 14 then (False, upd_rx_stats (\<lambda>t. t\<lparr>ns_dropped_frames := ns_dropped_frames t + 1\<rparr>) s)
      else let ethertype = read_be16 frame 12;
               s1 = net_count_ethertype ethertype (upd_rx_stats (\<lambda>t. t\<lparr>ns_total_bytes := ns_total_bytes t + ucast len\<rparr>) s)
           in if ethertype = ETH_TYPE_IPV4 then net_handle_ipv4_frame pt mem frame len s1
              else if ethertype = ETH_TYPE_ARP then net_handle_arp_frame pt mem frame len s1 else (True, s1))"

end
