(* ===== verification/NetApi.thy ===== *)
theory NetApi
  imports NetRecv
begin

text \<open>
  The interface of the network stack: the receive ring of the card, the interrupt handler, start-up, the calls for UDP and TCP, and the packets of remote
  control.
\<close>

section \<open>The receive ring\<close>

definition copy_ring_bytes :: "'h ports \<Rightarrow> rtl_mem \<Rightarrow> u32 \<Rightarrow> nat \<Rightarrow> 'h net \<Rightarrow> u8 list" where
  "copy_ring_bytes pt mem offset len s = map (\<lambda>i. dma_load pt (rtl_rx_buffer mem) (unat ((offset + of_nat i) AND 0x1FFF)) (n_hw s)) [0..<len]"

definition hw_inw :: "'h ports \<Rightarrow> u32 \<Rightarrow> ('h, u16) net_op" where
  "hw_inw pt reg s = (let (v, h) = p_inw pt (rtl_port reg s) (n_hw s) in (v, s\<lparr>n_hw := h\<rparr>))"

definition hw_outw :: "'h ports \<Rightarrow> u32 \<Rightarrow> u16 \<Rightarrow> 'h net \<Rightarrow> 'h net" where
  "hw_outw pt reg v s = s\<lparr>n_hw := p_outw pt (rtl_port reg s) v (n_hw s)\<rparr>"

text \<open>The loop of \<open>net_rx_poll_budget\<close>, \<open>n\<close> packets left; \<open>junk\<close> is what the frame buffer on the stack held.\<close>

primrec rx_poll_loop :: "'h ports \<Rightarrow> rtl_mem \<Rightarrow> u8 list \<Rightarrow> nat \<Rightarrow> nat \<Rightarrow> ('h, nat) net_op" where
  "rx_poll_loop pt mem junk 0 processed s = (processed, s)"
| "rx_poll_loop pt mem junk (Suc n) processed s =
     (let (cbr, s1) = hw_inw pt 0x3A s; hw_offset = ucast cbr AND 0x1FFF in
      if n_rx_offset s1 = hw_offset then (processed, s1)
      else let hdr = copy_ring_bytes pt mem (n_rx_offset s1) 4 s1; status = net_read_le16 hdr 0; pkt_len = net_read_le16 hdr 2 in
        if status AND 1 = 0 \<or> pkt_len < 4 \<or> pkt_len > 2052 then (processed, upd_rx_stats (\<lambda>t. t\<lparr>ns_dropped_frames := ns_dropped_frames t + 1\<rparr>) s1)
        else let len = unat pkt_len - 4; data = copy_ring_bytes pt mem ((n_rx_offset s1 + 4) AND 0x1FFF) len s1;
                 s2 = snd (net_handle_eth_frame pt mem (data @ drop len junk) (of_nat len) s1);
                 off = ((n_rx_offset s2 + ucast pkt_len + 4 + 3) AND NOT 3) AND 0x1FFF;
                 s3 = hw_outw pt 0x38 (ucast ((off - 0x10) AND 0xFFFF)) (s2\<lparr>n_rx_offset := off\<rparr>)
             in rx_poll_loop pt mem junk n (processed + 1) s3)"

definition net_rx_poll_budget :: "'h ports \<Rightarrow> rtl_mem \<Rightarrow> u8 list \<Rightarrow> u32 \<Rightarrow> ('h, nat) net_op" where
  "net_rx_poll_budget pt mem junk max_packets s =
     (if \<not> n_ready s \<or> n_iobase s = 0 then (0, s) else rx_poll_loop pt mem junk (unat max_packets) 0 s)"

definition net_set_rx_coalesce :: "u32 \<Rightarrow> u32 \<Rightarrow> 'h net \<Rightarrow> 'h net" where
  "net_set_rx_coalesce poll_budget irq_budget s = s\<lparr>n_poll_budget := min 256 (max 4 poll_budget), n_irq_budget := min 512 (max 8 irq_budget)\<rparr>"

definition net_get_rx_coalesce :: "'h net \<Rightarrow> u32 \<times> u32" where
  "net_get_rx_coalesce s = (n_poll_budget s, n_irq_budget s)"

definition count_batch :: "nat \<Rightarrow> u32 \<Rightarrow> 'h net \<Rightarrow> 'h net" where
  "count_batch processed budget s = (if processed \<ge> unat budget then upd_rx_stats (\<lambda>t. t\<lparr>ns_coalesced_batches := ns_coalesced_batches t + 1\<rparr>) s else s)"

definition net_rx_poll :: "'h ports \<Rightarrow> rtl_mem \<Rightarrow> u8 list \<Rightarrow> ('h, nat) net_op" where
  "net_rx_poll pt mem junk s = (let (processed, s1) = net_rx_poll_budget pt mem junk (n_poll_budget s) s in (processed, count_batch processed (n_poll_budget s1) s1))"

definition net_irq_handler :: "'h ports \<Rightarrow> rtl_mem \<Rightarrow> u8 list \<Rightarrow> ('h, nat) net_op" where
  "net_irq_handler pt mem junk s =
     (if \<not> n_ready s \<or> n_iobase s = 0 then (0, s)
      else let (isr, s1) = hw_inw pt 0x3E s in
        if isr AND 0x1F = 0 then (0, s1)
        else let s2 = hw_outw pt 0x3E isr (upd_rx_stats (\<lambda>t. t\<lparr>ns_irq_count := ns_irq_count t + 1\<rparr>) s1) in
          if isr AND 0x13 = 0 then (0, s2)
          else let s3 = upd_rx_stats (\<lambda>t. t\<lparr>ns_irq_rx_events := ns_irq_rx_events t + 1\<rparr>) s2; (processed, s4) = net_rx_poll_budget pt mem junk (n_irq_budget s3) s3
               in (processed, count_batch processed (n_irq_budget s4) s4))"

definition net_get_rx_stats :: "('h, net_rx_stats) net_op" where
  "net_get_rx_stats s = (let s1 = upd_rx_stats (\<lambda>t. t\<lparr>ns_poll_budget := n_poll_budget s, ns_irq_poll_budget := n_irq_budget s\<rparr>) s in (n_stats s1, s1))"

definition net_set_fault_injection :: "u32 \<Rightarrow> u32 \<Rightarrow> 'h net \<Rightarrow> 'h net" where
  "net_set_fault_injection loss reorder s =
     (let l = min 100 loss; r = min 100 reorder; s1 = s\<lparr>n_loss := l, n_reorder := r\<rparr>
      in if l = 0 \<and> r = 0 then s1\<lparr>n_hold := (n_hold s1)\<lparr>uh_valid := False\<rparr>\<rparr> else s1)"

definition net_get_fault_injection :: "'h net \<Rightarrow> u32 \<times> u32" where
  "net_get_fault_injection s = (n_loss s, n_reorder s)"

section \<open>Start-up\<close>

text \<open>The static variables before start-up; the table of PCI devices and the hardware are given.\<close>

definition conn0 :: tcp_conn where
  "conn0 = \<lparr>tc_used = False, tc_listening = False, tc_parent_listen = 0, tc_accepted = False, tc_state = TCP_CLOSED, tc_local_port = 0, tc_remote_port = 0,
     tc_remote_ip = 0, tc_snd_una = 0, tc_snd_nxt = 0, tc_rcv_nxt = 0, tc_rx = ring_init TCP_QUEUE_DEPTH [], tc_last_tick = 0, tc_last_seq = 0,
     tc_last_ack = 0, tc_last_flags = 0, tc_last_retries = 0, tc_waiting_ack = False, tc_last_data = []\<rparr>"

definition binding0 :: udp_binding where
  "binding0 = \<lparr>ub_used = False, ub_port = 0, ub_dropped = 0, ub_queue = ring_init UDP_QUEUE_DEPTH \<lparr>up_src_ip = 0, up_src_port = 0, up_data = []\<rparr>\<rparr>"

definition reass0 :: reass_slot where
  "reass0 = \<lparr>rs_used = False, rs_src_ip = 0, rs_dst_ip = 0, rs_ident = 0, rs_proto = 0, rs_header_len = 0, rs_have_first = False, rs_total_known = False,
     rs_total_payload_len = 0, rs_last_tick = 0, rs_header = replicate IPV4_MAX_HEADER 0, rs_payload = replicate IPV4_REASS_MAX_PAYLOAD 0, rs_present = replicate 64 0\<rparr>"

definition stats0 :: net_rx_stats where
  "stats0 = \<lparr>ns_total_frames = 0, ns_total_bytes = 0, ns_ipv4_frames = 0, ns_arp_frames = 0, ns_neuro_frames = 0, ns_unknown_frames = 0,
     ns_dropped_frames = 0, ns_malformed_frames = 0, ns_quarantined_frames = 0, ns_injected_loss_frames = 0, ns_injected_reorder_frames = 0,
     ns_tcp_retransmits = 0, ns_tcp_retransmit_failures = 0, ns_tcp_half_open_cleanups = 0, ns_tcp_reset_events = 0, ns_irq_count = 0,
     ns_irq_rx_events = 0, ns_tx_probe_ok = 0, ns_tx_probe_fail = 0, ns_poll_budget = 0, ns_irq_poll_budget = 0, ns_coalesced_batches = 0\<rparr>"

definition net0 :: "pci_device list \<Rightarrow> 'h \<Rightarrow> 'h net" where
  "net0 devices h = \<lparr>n_ready = False, n_idx = -1, n_iobase = 0, n_mac = replicate 6 0, n_ip = 0x0A00020F, n_mask = 0xFFFFFF00, n_gw = 0x0A000201,
     n_remote_enabled = False, n_remote_dst_ip = 0xFFFFFFFF, n_loss = 0, n_reorder = 0, n_prng = 0xC0FFEE11,
     n_hold = \<lparr>uh_valid = False, uh_src_ip = 0, uh_src_port = 0, uh_dst_port = 0, uh_data = []\<rparr>, n_tx_slot = 0, n_rx_offset = 0, n_poll_budget = 32,
     n_irq_budget = 96, n_stats = stats0, n_routes = replicate ROUTE_TABLE_MAX route_zero, n_route_count = 0, n_reass = replicate IPV4_REASS_SLOT_MAX reass0,
     n_ident = 1, n_arp_ip = 0, n_arp_mac = replicate 6 0, n_arp_valid = False, n_udp = replicate UDP_MAX_BINDINGS binding0,
     n_tcp = replicate TCP_MAX_CONNS conn0, n_iss = 0x10203040, n_pci = devices, n_tick = 0, n_auth = auth0, n_hw = h\<rparr>"

definition read_rtl8139_bar0_iobase :: "'h ports \<Rightarrow> int \<Rightarrow> ('h, bool) net_op" where
  "read_rtl8139_bar0_iobase pt idx s =
     (if idx < 0 \<or> idx \<ge> int (length (n_pci s)) then (False, s)
      else let d = n_pci s ! nat idx; (bar0, h) = pci_read_config pt (pd_bus d) (pd_slot d) (pd_function d) 0x10 (n_hw s); s1 = s\<lparr>n_hw := h\<rparr> in
        if bar0 AND 1 = 0 then (False, s1) else let io = bar0 AND 0xFFFFFFFC in (io \<noteq> 0, s1\<lparr>n_iobase := io\<rparr>))"

definition rtl8139_enable_busmaster :: "'h ports \<Rightarrow> int \<Rightarrow> ('h, bool) net_op" where
  "rtl8139_enable_busmaster pt idx s =
     (if idx < 0 \<or> idx \<ge> int (length (n_pci s)) then (False, s)
      else let d = n_pci s ! nat idx; (cmd, h) = pci_read_config pt (pd_bus d) (pd_slot d) (pd_function d) 0x04 (n_hw s)
           in (True, s\<lparr>n_hw := pci_write_config pt (pd_bus d) (pd_slot d) (pd_function d) 0x04 (cmd OR 7) h\<rparr>))"

primrec wait_reset :: "'h ports \<Rightarrow> u16 \<Rightarrow> nat \<Rightarrow> 'h \<Rightarrow> bool \<times> 'h" where
  "wait_reset pt port 0 h = (False, h)"
| "wait_reset pt port (Suc n) h = (let (v, h1) = p_inb pt port h in if v AND 0x10 = 0 then (True, h1) else wait_reset pt port n h1)"

primrec read_mac :: "'h ports \<Rightarrow> u32 \<Rightarrow> nat list \<Rightarrow> 'h \<Rightarrow> u8 list \<times> 'h" where
  "read_mac pt iobase [] h = ([], h)"
| "read_mac pt iobase (i # is) h = (let (v, h1) = p_inb pt (ucast (iobase + of_nat i)) h; (vs, h2) = read_mac pt iobase is h1 in (v # vs, h2))"

definition rtl8139_hw_init :: "'h ports \<Rightarrow> rtl_mem \<Rightarrow> ('h, bool) net_op" where
  "rtl8139_hw_init pt mem s =
     (let port = (\<lambda>r. rtl_port r s);
          h1 = p_outb pt (port 0x37) 0x10 (p_outb pt (port 0x52) 0 (n_hw s));
          (ok, h2) = wait_reset pt (port 0x37) 100000 h1
      in if \<not> ok then (False, s\<lparr>n_hw := h2\<rparr>)
         else let h3 = p_outl pt (port 0x30) (rtl_rx_buffer mem) h2;
                  h4 = p_outl pt (port 0x44) 0xF (p_outw pt (port 0x3E) 0xFFFF (p_outw pt (port 0x3C) 0x1F (p_outw pt (port 0x38) 0xFFF0 h3)));
                  (mac, h5) = read_mac pt (n_iobase s) [0..<6] (p_outb pt (port 0x37) 0x0C h4)
              in (True, s\<lparr>n_rx_offset := 0, n_mac := mac, n_hw := h5\<rparr>))"

definition stats_reset :: "net_rx_stats \<Rightarrow> net_rx_stats" where
  "stats_reset t = t\<lparr>ns_total_frames := 0, ns_total_bytes := 0, ns_ipv4_frames := 0, ns_arp_frames := 0, ns_neuro_frames := 0, ns_unknown_frames := 0,
     ns_dropped_frames := 0, ns_malformed_frames := 0, ns_quarantined_frames := 0, ns_injected_loss_frames := 0, ns_injected_reorder_frames := 0,
     ns_tcp_retransmits := 0, ns_tcp_retransmit_failures := 0, ns_tcp_half_open_cleanups := 0, ns_tcp_reset_events := 0, ns_irq_count := 0,
     ns_irq_rx_events := 0, ns_tx_probe_ok := 0, ns_tx_probe_fail := 0\<rparr>"

definition find_nic :: "'h net \<Rightarrow> int" where
  "find_nic s = (case find_slot (\<lambda>d. pd_class_code d = 0x02 \<and> pd_vendor d = 0x10EC \<and> pd_device_id d = 0x8139) (n_pci s) of
     Some i \<Rightarrow> int i | None \<Rightarrow> n_idx s)"

definition net_tables_reset :: "'h net \<Rightarrow> 'h net" where
  "net_tables_reset s =
     (let s1 = route_table_refresh_defaults (upd_rx_stats stats_reset (s\<lparr>n_rx_offset := 0, n_loss := 0, n_reorder := 0, n_hold := (n_hold s)\<lparr>uh_valid := False\<rparr>\<rparr>))
      in s1\<lparr>n_ident := 1, n_reass := map (\<lambda>r. r\<lparr>rs_used := False\<rparr>) (n_reass s1), n_udp := map (binding_reset False 0) (n_udp s1),
        n_tcp := map (\<lambda>c. (conn_reset c)\<lparr>tc_used := False\<rparr>) (n_tcp s1)\<rparr>)"

definition net_init :: "'h ports \<Rightarrow> rtl_mem \<Rightarrow> ('h, bool) net_op" where
  "net_init pt mem s =
     (let s1 = s\<lparr>n_idx := find_nic s\<rparr> in
      if n_idx s1 < 0 then (False, s1\<lparr>n_ready := False\<rparr>)
      else let (ok, s2) = read_rtl8139_bar0_iobase pt (n_idx s1) s1 in
        if \<not> ok then (False, s2\<lparr>n_ready := False\<rparr>)
        else let s3 = net_tables_reset (snd (rtl8139_enable_busmaster pt (n_idx s2) s2)); (ok, s4) = rtl8139_hw_init pt mem s3; s5 = s4\<lparr>n_ready := ok\<rparr>;
                 (session, a) = remote_get_session (n_auth s5)
             in (ok, if ok then s5\<lparr>n_auth := (if session = 0 then remote_rotate_session_key_internal a else a)\<rparr> else s5))"

definition net_up :: "'h ports \<Rightarrow> rtl_mem \<Rightarrow> ('h, bool) net_op" where
  "net_up pt mem s = (if n_ready s then (True, s) else net_init pt mem s)"

definition net_driver_name :: "'h net \<Rightarrow> string" where
  "net_driver_name s = (if \<not> n_ready s then ''NONE'' else ''RTL8139'')"

definition net_set_mac :: "'h ports \<Rightarrow> u8 list \<Rightarrow> ('h, bool) net_op" where
  "net_set_mac pt mac s =
     (if \<not> n_ready s then (False, s)
      else (True, s\<lparr>n_mac := take 6 mac, n_hw := fold (\<lambda>i. p_outb pt (ucast (n_iobase s + of_nat i)) (mac ! i)) [0..<6] (n_hw s)\<rparr>))"

definition net_link_speed_mbps :: "'h ports \<Rightarrow> ('h, nat) net_op" where
  "net_link_speed_mbps pt s =
     (if \<not> n_ready s then (0, s)
      else let (msr, h) = p_inb pt (rtl_port 0x58 s) (n_hw s) in (if msr AND 0x08 \<noteq> 0 then 10 else 100, s\<lparr>n_hw := h\<rparr>))"

definition net_set_ipv4 :: "u32 \<Rightarrow> u32 \<Rightarrow> u32 \<Rightarrow> ('h, bool) net_op" where
  "net_set_ipv4 ip m gw s = (if ip = 0 \<or> m = 0 then (False, s) else (True, route_table_refresh_defaults (s\<lparr>n_ip := ip, n_mask := m, n_gw := gw\<rparr>)))"

section \<open>UDP\<close>

definition net_send_udp :: "'h ports \<Rightarrow> rtl_mem \<Rightarrow> u32 \<Rightarrow> u16 \<Rightarrow> u16 \<Rightarrow> u8 list \<Rightarrow> ('h, bool) net_op" where
  "net_send_udp pt mem dst_ip src_port dst_port payload s =
     (if \<not> n_ready s \<or> length payload > IPV4_REASS_MAX_PAYLOAD then (False, s)
      else let udp = write_be16 src_port @ write_be16 dst_port @ write_be16 (8 + of_nat (length payload)) @ write_be16 0 @ payload;
               s1 = (if dst_ip = n_ip s \<or> dst_ip = 0x7F000001 \<or> dst_ip = BROADCAST then snd (udp_enqueue_with_faults dst_port (n_ip s) src_port payload s) else s);
               (ident, s2) = next_ident s1
           in net_send_ipv4_raw pt mem dst_ip IP_PROTO_UDP udp 64 ident s2)"

definition net_udp_bind :: "u16 \<Rightarrow> ('h, bool) net_op" where
  "net_udp_bind port s = (if port = 0 then (False, s) else let (r, s1) = udp_alloc_binding port s in (r \<noteq> None, s1))"

definition net_udp_unbind :: "u16 \<Rightarrow> ('h, bool) net_op" where
  "net_udp_unbind port s = (case udp_find_binding port s of None \<Rightarrow> (False, s) | Some i \<Rightarrow> (True, upd_binding i (binding_reset False 0) s))"

definition net_udp_has_data :: "u16 \<Rightarrow> 'h net \<Rightarrow> bool" where
  "net_udp_has_data port s = (case udp_find_binding port s of None \<Rightarrow> False | Some i \<Rightarrow> r_count (ub_queue (n_udp s ! i)) > 0)"

definition net_udp_send :: "'h ports \<Rightarrow> rtl_mem \<Rightarrow> u32 \<Rightarrow> u16 \<Rightarrow> u16 \<Rightarrow> u8 list option \<Rightarrow> ('h, bool) net_op" where
  "net_udp_send pt mem dst_ip src_port dst_port payload s = (case payload of None \<Rightarrow> (False, s) | Some p \<Rightarrow> net_send_udp pt mem dst_ip src_port dst_port p s)"

text \<open>The bytes copied, with the sender; \<open>None\<close> stands for the return value 0 of the guards.\<close>

definition net_udp_recv :: "u16 \<Rightarrow> u16 \<Rightarrow> ('h, (u8 list \<times> u32 \<times> u16) option) net_op" where
  "net_udp_recv port max_len s = (case udp_find_binding port s of None \<Rightarrow> (None, s)
   | Some i \<Rightarrow>
       if max_len = 0 \<or> r_count (ub_queue (n_udp s ! i)) = 0 then (None, s)
       else let (p, q) = ring_pop UDP_QUEUE_DEPTH (ub_queue (n_udp s ! i))
            in (Some (take (unat max_len) (up_data p), up_src_ip p, up_src_port p), upd_binding i (\<lambda>b. b\<lparr>ub_queue := q\<rparr>) s))"

section \<open>TCP\<close>

definition conn_ok :: "int \<Rightarrow> bool" where
  "conn_ok conn_id \<longleftrightarrow> \<not> (conn_id < 0 \<or> conn_id \<ge> int TCP_MAX_CONNS)"

definition net_tcp_listen :: "u16 \<Rightarrow> ('h, int) net_op" where
  "net_tcp_listen port s =
     (if port = 0 \<or> tcp_find_listener port s \<noteq> None then (-1, s)
      else case tcp_alloc_conn s of (None, s1) \<Rightarrow> (-1, s1)
        | (Some i, s1) \<Rightarrow> (int i, upd_conn i (\<lambda>c. c\<lparr>tc_listening := True, tc_state := TCP_LISTEN, tc_local_port := port, tc_accepted := True\<rparr>) s1))"

definition net_tcp_unlisten :: "u16 \<Rightarrow> ('h, bool) net_op" where
  "net_tcp_unlisten port s = (case tcp_find_listener port s of None \<Rightarrow> (False, s) | Some i \<Rightarrow> (True, upd_conn i (\<lambda>c. c\<lparr>tc_used := False\<rparr>) s))"

definition pending_child :: "nat \<Rightarrow> 'h net \<Rightarrow> nat option" where
  "pending_child listener s = find_slot (\<lambda>c. tc_used c \<and> \<not> tc_listening c \<and> tc_parent_listen c = int listener \<and> tc_state c = TCP_ESTABLISHED \<and> \<not> tc_accepted c) (n_tcp s)"

definition net_tcp_accept_ready :: "u16 \<Rightarrow> 'h net \<Rightarrow> bool" where
  "net_tcp_accept_ready listen_port s = (case tcp_find_listener listen_port s of None \<Rightarrow> False | Some l \<Rightarrow> pending_child l s \<noteq> None)"

definition net_tcp_connect :: "'h ports \<Rightarrow> rtl_mem \<Rightarrow> u32 \<Rightarrow> u16 \<Rightarrow> u16 \<Rightarrow> ('h, int) net_op" where
  "net_tcp_connect pt mem dst_ip dst_port src_port s =
     (if dst_ip = 0 \<or> dst_port = 0 \<or> src_port = 0 then (-1, s)
      else case tcp_alloc_conn s of (None, s1) \<Rightarrow> (-1, s1)
        | (Some i, s1) \<Rightarrow>
            let iss = n_iss s1;
                s2 = (upd_conn i (\<lambda>c. c\<lparr>tc_accepted := True, tc_state := TCP_SYN_SENT, tc_local_port := src_port, tc_remote_port := dst_port,
                        tc_remote_ip := dst_ip, tc_snd_una := iss, tc_snd_nxt := iss + 1\<rparr>) s1)\<lparr>n_iss := iss + 0x101\<rparr>;
                (ok, s3) = tcp_send_segment pt mem dst_ip src_port dst_port iss 0 TCP_FLAG_SYN [] s2
            in if \<not> ok then (-1, upd_conn i (\<lambda>c. c\<lparr>tc_used := False\<rparr>) s3)
               else (int i, upd_conn i (\<lambda>c. c\<lparr>tc_last_tick := n_tick s3, tc_last_seq := iss, tc_last_ack := 0, tc_last_data := [], tc_last_flags := TCP_FLAG_SYN,
                 tc_last_retries := 0, tc_waiting_ack := True\<rparr>) s3))"

definition net_tcp_accept :: "u16 \<Rightarrow> ('h, (int \<times> u32 \<times> u16) option) net_op" where
  "net_tcp_accept listen_port s = (case tcp_find_listener listen_port s of None \<Rightarrow> (None, s)
   | Some l \<Rightarrow> (case pending_child l s of None \<Rightarrow> (None, s)
     | Some i \<Rightarrow> (Some (int i, tc_remote_ip (conn s i), tc_remote_port (conn s i)), upd_conn i (\<lambda>c. c\<lparr>tc_accepted := True\<rparr>) s)))"

definition net_tcp_is_established :: "int \<Rightarrow> 'h net \<Rightarrow> bool" where
  "net_tcp_is_established conn_id s \<longleftrightarrow> conn_ok conn_id \<and> (let c = conn s (nat conn_id) in tc_used c \<and> \<not> tc_listening c \<and> tc_state c = TCP_ESTABLISHED)"

definition net_tcp_can_recv :: "int \<Rightarrow> 'h net \<Rightarrow> bool" where
  "net_tcp_can_recv conn_id s \<longleftrightarrow> conn_ok conn_id \<and> (let c = conn s (nat conn_id) in tc_used c \<and> \<not> tc_listening c \<and> r_count (tc_rx c) > 0)"

definition net_tcp_can_send :: "int \<Rightarrow> 'h net \<Rightarrow> bool" where
  "net_tcp_can_send conn_id s \<longleftrightarrow> conn_ok conn_id \<and> (let c = conn s (nat conn_id) in tc_used c \<and> \<not> tc_listening c \<and> tc_state c = TCP_ESTABLISHED)"

definition net_tcp_send :: "'h ports \<Rightarrow> rtl_mem \<Rightarrow> int \<Rightarrow> u8 list option \<Rightarrow> ('h, nat) net_op" where
  "net_tcp_send pt mem conn_id payload s = (case payload of None \<Rightarrow> (0, s)
   | Some p \<Rightarrow>
       if \<not> conn_ok conn_id \<or> p = [] then (0, s)
       else let c = conn s (nat conn_id) in
         if \<not> tc_used c \<or> tc_listening c \<or> tc_state c \<noteq> TCP_ESTABLISHED then (0, s)
         else let q = take TCP_MAX_PAYLOAD p; (ok, s1) = tcp_send_and_track pt mem (nat conn_id) (TCP_FLAG_ACK OR TCP_FLAG_PSH) q s
              in (if ok then length q else 0, s1))"

definition net_tcp_recv :: "int \<Rightarrow> u16 \<Rightarrow> ('h, u8 list) net_op" where
  "net_tcp_recv conn_id max_len s =
     (if \<not> conn_ok conn_id \<or> max_len = 0 then ([], s)
      else let c = conn s (nat conn_id) in
        if \<not> tc_used c \<or> tc_listening c \<or> r_count (tc_rx c) = 0 then ([], s)
        else let (seg, q) = ring_pop TCP_QUEUE_DEPTH (tc_rx c) in (take (unat max_len) seg, upd_conn (nat conn_id) (\<lambda>c. c\<lparr>tc_rx := q\<rparr>) s))"

definition net_tcp_close :: "'h ports \<Rightarrow> rtl_mem \<Rightarrow> int \<Rightarrow> ('h, bool) net_op" where
  "net_tcp_close pt mem conn_id s =
     (if \<not> conn_ok conn_id then (False, s)
      else let i = nat conn_id; c = conn s i in
        if \<not> tc_used c then (False, s)
        else if tc_listening c then (True, upd_conn i conn_closed s)
        else let (ok, s1) = (if tc_state c = TCP_ESTABLISHED \<or> tc_state c = TCP_CLOSE_WAIT then tcp_send_and_track pt mem i (TCP_FLAG_FIN OR TCP_FLAG_ACK) [] s else (False, s))
             in (True, if ok then upd_conn i (\<lambda>c. c\<lparr>tc_state := TCP_CLOSING\<rparr>) s1 else upd_conn i conn_closed s1))"

definition retx_timeout :: "tcp_conn \<Rightarrow> u32" where
  "retx_timeout c = push_bit (min 4 (tc_last_retries c)) TCP_RETX_TICKS"

definition poll_conn :: "'h ports \<Rightarrow> rtl_mem \<Rightarrow> nat \<Rightarrow> nat \<times> 'h net \<Rightarrow> nat \<times> 'h net" where
  "poll_conn pt mem i = (\<lambda>(n, s).
     let c = conn s i in
     if \<not> tc_used c \<or> tc_listening c \<or> \<not> tc_waiting_ack c \<or> n_tick s - tc_last_tick c < retx_timeout c then (n, s)
     else let (ok, s1) = tcp_retransmit_last pt mem i s in (if ok then n + 1 else n, s1))"

definition net_tcp_poll :: "'h ports \<Rightarrow> rtl_mem \<Rightarrow> ('h, nat) net_op" where
  "net_tcp_poll pt mem s = fold (poll_conn pt mem) [0..<TCP_MAX_CONNS] (0, s)"

section \<open>Remote control\<close>

definition remote_header :: "u32 \<Rightarrow> u32 \<Rightarrow> u32 \<Rightarrow> u32 \<Rightarrow> u32 \<Rightarrow> u32 \<Rightarrow> u32 \<Rightarrow> u32 \<Rightarrow> u32 \<Rightarrow> u32 \<Rightarrow> u8 list" where
  "remote_header ty flags session request_id token nonce role checksum status len =
     concat (map (mem32 \<circ> be32) [0x52435031, 1, ty, flags, session, request_id, token, nonce, role, checksum, status, len])"

definition remote_send_payload :: "'h ports \<Rightarrow> rtl_mem \<Rightarrow> u8 \<Rightarrow> u8 list \<Rightarrow> u32 \<Rightarrow> u32 \<Rightarrow> u32 \<Rightarrow> ('h, bool) net_op" where
  "remote_send_payload pt mem ty data flags request_id status s =
     (if \<not> n_ready s \<or> \<not> n_remote_enabled s \<or> \<not> remote_auth_valid (n_auth s) \<or> length data > 512 - 48 then (False, s)
      else let (session, a1) = remote_get_session (n_auth s); (nonce, a2) = remote_next_nonce request_id a1; s1 = s\<lparr>n_auth := a2\<rparr>;
               header = (\<lambda>checksum. remote_header (ucast ty) flags session request_id (remote_token a1) nonce (remote_role a2) checksum status (of_nat (length data)));
               payload = header (remote_checksum32 (header 0 @ data)) @ data;
               (sent, s2) = net_send_udp pt mem (n_remote_dst_ip s1) UDP_CTRL_PORT UDP_DATA_PORT payload s1
           in if flags AND 1 \<noteq> 0 \<and> sent then net_send_udp pt mem (n_remote_dst_ip s2) UDP_CTRL_PORT UDP_DATA_PORT payload s2 else (sent, s2))"

definition chunk_header :: "u32 \<Rightarrow> u32 \<Rightarrow> u32 \<Rightarrow> u32 \<Rightarrow> u32 \<Rightarrow> u32 \<Rightarrow> u32 \<Rightarrow> u8 list" where
  "chunk_header transfer_id chunk_index chunk_count total_len chunk_offset chunk_len checksum =
     concat (map (mem32 \<circ> be32) [0x43484B31, transfer_id, chunk_index, chunk_count, total_len, chunk_offset, chunk_len, checksum])"

abbreviation CHUNK_LIMIT :: nat where "CHUNK_LIMIT \<equiv> 480"

text \<open>The loop over the chunks, \<open>n\<close> of them left, \<open>k\<close> sent.\<close>

primrec send_chunks :: "'h ports \<Rightarrow> rtl_mem \<Rightarrow> u8 \<Rightarrow> u8 list \<Rightarrow> u32 \<Rightarrow> u32 \<Rightarrow> u32 \<Rightarrow> nat \<Rightarrow> nat \<Rightarrow> nat \<Rightarrow> ('h, bool) net_op" where
  "send_chunks pt mem ty data flags request_id status cnt k 0 s = (True, s)"
| "send_chunks pt mem ty data flags request_id status cnt k (Suc n) s =
     (let offset = k * CHUNK_LIMIT; chunk = take CHUNK_LIMIT (drop offset data);
          chunk_flags = flags OR 2 OR (if k = 0 then 4 else 0) OR (if k + 1 = cnt then 8 else 0);
          (ok, s1) = remote_send_payload pt mem ty
            (chunk_header request_id (of_nat k) (of_nat cnt) (of_nat (length data)) (of_nat offset) (of_nat (length chunk)) (remote_checksum32 data) @ chunk)
            chunk_flags request_id status s
      in if \<not> ok then (False, s1) else send_chunks pt mem ty data flags request_id status cnt (k + 1) n s1)"

definition on_auth :: "(auth \<Rightarrow> 'r \<times> auth) \<Rightarrow> ('h, 'r) net_op" where
  "on_auth f s = (let (r, a) = f (n_auth s) in (r, s\<lparr>n_auth := a\<rparr>))"

definition remote_send_chunked_payload :: "'h ports \<Rightarrow> rtl_mem \<Rightarrow> u8 \<Rightarrow> u8 list \<Rightarrow> u32 \<Rightarrow> u32 \<Rightarrow> u32 \<Rightarrow> ('h, bool) net_op" where
  "remote_send_chunked_payload pt mem ty data flags request_id status s =
     (let cnt = (if data = [] then 1 else (length data + CHUNK_LIMIT - 1) div CHUNK_LIMIT);
          (rid, s1) = (if request_id = 0 then on_auth remote_next_request_id s else (request_id, s))
      in send_chunks pt mem ty data flags rid status cnt 0 cnt s1)"

definition net_send_probe :: "'h ports \<Rightarrow> rtl_mem \<Rightarrow> ('h, bool) net_op" where
  "net_send_probe pt mem s =
     (if \<not> n_ready s then (False, upd_rx_stats (\<lambda>t. t\<lparr>ns_tx_probe_fail := ns_tx_probe_fail t + 1\<rparr>) s)
      else let (session, s1) = on_auth remote_get_session s;
               p = map of_char ''NSPROBE'' @ [0] @ mem32 (be32 (n_ip s1)) @ mem32 (be32 (n_mask s1)) @ mem32 (be32 (n_gw s1)) @ mem32 (be32 session);
               (sent, s2) = net_send_udp pt mem BROADCAST UDP_CTRL_PORT UDP_CTRL_PORT p s1
           in (sent, upd_rx_stats (\<lambda>t. if sent then t\<lparr>ns_tx_probe_ok := ns_tx_probe_ok t + 1\<rparr> else t\<lparr>ns_tx_probe_fail := ns_tx_probe_fail t + 1\<rparr>) s2))"

text \<open>A report goes out in chunks when remote control is on and authorised, else as a broadcast.\<close>

definition send_report :: "'h ports \<Rightarrow> rtl_mem \<Rightarrow> u8 \<Rightarrow> u8 list \<Rightarrow> u32 \<Rightarrow> ('h, bool) net_op" where
  "send_report pt mem ty payload request_id s =
     (if n_remote_enabled s \<and> remote_auth_valid (n_auth s) then remote_send_chunked_payload pt mem ty payload 0 request_id 0 s
      else net_send_udp pt mem BROADCAST UDP_DATA_PORT UDP_DATA_PORT payload s)"

text \<open>The answers of the storage manager, the signature and the tag of a snapshot, are arguments.\<close>

definition net_export_snapshot :: "'h ports \<Rightarrow> rtl_mem \<Rightarrow> (u32 \<times> u32 \<times> u32) option \<Rightarrow> string option \<Rightarrow> u8 \<Rightarrow> ('h, bool) net_op" where
  "net_export_snapshot pt mem signature tag slot s = (case signature of None \<Rightarrow> (False, s)
   | Some (v, w, t) \<Rightarrow>
       if \<not> n_ready s then (False, s)
       else let tg = (case tag of Some x \<Rightarrow> take 15 x | None \<Rightarrow> ''-'');
                body = map of_char ''SNAP'' @ [slot, 0, 0, 0] @ mem32 (be32 v) @ mem32 (be32 w) @ mem32 (be32 t) @ map of_char tg @ [0];
                (request_id, s1) = on_auth remote_next_request_id s
            in send_report pt mem 3 (body @ mem32 (remote_checksum32 body)) request_id s1)"

text \<open>The four averages and the switch of the profiler are arguments.\<close>

definition net_export_profile :: "'h ports \<Rightarrow> rtl_mem \<Rightarrow> u32 list \<Rightarrow> u32 \<Rightarrow> ('h, bool) net_op" where
  "net_export_profile pt mem averages enabled s =
     (if \<not> n_ready s then (False, s)
      else let body = map of_char ''PRF1'' @ concat (map (mem32 \<circ> be32) averages) @ mem32 (be32 enabled) @ mem32 (be32 (n_tick s));
               (request_id, s1) = on_auth remote_next_request_id s
           in send_report pt mem 4 (body @ mem32 (be32 (remote_checksum32 body))) request_id s1)"

definition net_export_manifest :: "'h ports \<Rightarrow> rtl_mem \<Rightarrow> string option \<Rightarrow> ('h, bool) net_op" where
  "net_export_manifest pt mem summary s = (case summary of None \<Rightarrow> (False, s)
   | Some text \<Rightarrow>
       if \<not> n_ready s then (False, s)
       else let body = map of_char (''MAN1'' @ take 244 text) @ [0]; (request_id, s1) = on_auth remote_next_request_id s
            in send_report pt mem 5 (body @ mem32 (be32 (remote_checksum32 body))) request_id s1)"

definition remote_set_enabled :: "bool \<Rightarrow> 'h net \<Rightarrow> 'h net" where
  "remote_set_enabled enabled s = s\<lparr>n_remote_enabled := enabled\<rparr>"

definition net_remote_resume_transfer :: "u32 \<Rightarrow> 'h net \<Rightarrow> bool" where
  "net_remote_resume_transfer transfer_id s = remote_transfer_can_resume transfer_id (n_auth s)"

definition remote_send_command_result :: "'h ports \<Rightarrow> rtl_mem \<Rightarrow> string \<Rightarrow> ('h, bool) net_op" where
  "remote_send_command_result pt mem cmd_text s =
     (if \<not> n_remote_enabled s \<or> \<not> n_ready s \<or> \<not> remote_auth_valid (n_auth s) \<or> remote_role (n_auth s) < 2 then (False, s)
      else let (request_id, s1) = on_auth remote_next_request_id s
           in remote_send_chunked_payload pt mem 2 (map of_char (''CMD:'' @ take 123 cmd_text) @ [0]) 1 request_id 0 s1)"

end
