(* ===== verification/NetChecksum.thy ===== *)
theory NetChecksum
  imports NetApi
begin

text \<open>
  The Internet checksum against its definition as a sum in one's complement arithmetic, and the packets that the stack builds: their checksums verify.
\<close>

section \<open>One's complement sums\<close>

fun word_sum :: "u8 list \<Rightarrow> nat" where
  "word_sum (a # b # bs) = 256 * unat a + unat b + word_sum bs"
| "word_sum [a] = 256 * unat a"
| "word_sum [] = 0"

text \<open>A sum with the carries added back in: zero stays zero, every other number goes to its residue between 1 and 65535.\<close>

definition ones_fold :: "nat \<Rightarrow> nat" where
  "ones_fold n = (if n = 0 then 0 else (n - 1) mod 65535 + 1)"

lemma ones_fold_le: "ones_fold n \<le> 65535"
proof -
  have "(n - 1) mod 65535 < 65535" by (rule mod_less_divisor) simp
  then show ?thesis unfolding ones_fold_def by simp linarith
qed

lemma ones_fold_id: "n \<le> 65535 \<Longrightarrow> ones_fold n = n"
  by (simp add: ones_fold_def)

lemma ones_fold_carry: "ones_fold (n mod 65536 + n div 65536) = ones_fold n"
proof (cases "n = 0")
  case True
  then show ?thesis by (simp add: ones_fold_def)
next
  case False
  let ?q = "n div 65536" and ?r = "n mod 65536"
  have n: "n = 65536 * ?q + ?r" by simp
  have p: "0 < ?r + ?q" using False n by (metis add_is_0 bot_nat_0.not_eq_extremum mult_0_right)
  have "n - 1 = (?r + ?q - 1) + 65535 * ?q" using n p by linarith
  then have "(n - 1) mod 65535 = (?r + ?q - 1) mod 65535" by (metis mod_mult_self2)
  then show ?thesis using False p by (simp add: ones_fold_def)
qed

lemma unat_carry:
  "unat ((s AND 0xFFFF) + drop_bit 16 s :: u32) = unat s mod 65536 + unat s div 65536"
proof -
  have m: "s AND 0xFFFF = take_bit 16 s" by (simp add: take_bit_eq_mask mask_eq_exp_minus_1)
  have u: "unat (take_bit 16 s) = unat s mod 65536" "unat (drop_bit 16 s) = unat s div 65536"
    by (simp_all add: unsigned_take_bit_eq unsigned_drop_bit_eq take_bit_eq_mod drop_bit_eq_div unat_div unat_mod)
  have "unat s < 2 ^ 32" using unsigned_less [of s, where 'a = nat] by simp
  then have "unat s mod 65536 + unat s div 65536 < 2 ^ 32" by simp
  then show ?thesis unfolding m using u by (subst unat_word_ariths(1)) simp
qed

lemma fold_carry_ones: "unat (fold_carry s) = ones_fold (unat s)"
proof (induction s rule: fold_carry.induct)
  case (1 s)
  have d: "unat (drop_bit 16 s) = unat s div 65536" by (simp add: unsigned_drop_bit_eq drop_bit_eq_div unat_div)
  show ?case
  proof (cases "drop_bit 16 s = 0")
    case True
    then have "unat s div 65536 = 0" using d by simp
    then have "unat s \<le> 65535" by simp
    then show ?thesis using True by (subst fold_carry.simps) (simp add: ones_fold_id)
  next
    case False
    then have "unat (fold_carry s) = ones_fold (unat s mod 65536 + unat s div 65536)" using 1 by (subst fold_carry.simps) (simp add: unat_carry)
    then show ?thesis by (simp only: ones_fold_carry)
  qed
qed

lemma word_of_bytes: "unat (push_bit 8 (ucast (a :: u8)) OR ucast (b :: u8) :: u16) = 256 * unat a + unat b"
proof -
  have ab: "unat a < 256" "unat b < 256" using unsigned_less [of a, where 'a = nat] unsigned_less [of b, where 'a = nat] by simp_all
  have "push_bit 8 (ucast a) OR ucast b = (push_bit 8 (ucast a) + ucast b :: u16)"
    by (rule disjunctive_add [symmetric]) (auto simp: bit_simps dest: bit_imp_le_length)
  moreover have "unat (push_bit 8 (ucast a) :: u16) = 256 * unat a"
    using ab(1) by (simp add: push_bit_eq_mult unat_word_ariths unsigned_ucast_eq take_bit_nat_eq_self)
  moreover have "unat (ucast b :: u16) = unat b" using ab(2) by (simp add: unsigned_ucast_eq take_bit_nat_eq_self)
  ultimately show ?thesis using ab by (simp add: unat_word_ariths(1))
qed

lemma sum_words_nat: "unat acc + word_sum bs < 2 ^ 32 \<Longrightarrow> unat (sum_words bs acc) = unat acc + word_sum bs"
proof (induction bs acc rule: sum_words.induct)
  case (1 a b bs acc)
  let ?w = "push_bit 8 (ucast a) OR ucast b :: u16"
  have w: "unat (ucast ?w :: u32) = 256 * unat a + unat b"
    using word_of_bytes [of a b] unsigned_less [of ?w, where 'a = nat] by (simp add: unsigned_ucast_eq take_bit_nat_eq_self)
  have "unat (acc + ucast ?w) = unat acc + (256 * unat a + unat b)" using 1(2) w by (subst unat_word_ariths(1)) simp
  then show ?case using 1 by simp
next
  case (2 a acc)
  have "unat (push_bit 8 (ucast a) :: u16) = 256 * unat a" using word_of_bytes [of a 0] by simp
  then have w: "unat (ucast (push_bit 8 (ucast a) :: u16) :: u32) = 256 * unat a"
    using unsigned_less [of "push_bit 8 (ucast a) :: u16", where 'a = nat] by (simp add: unsigned_ucast_eq take_bit_nat_eq_self)
  then show ?case using 2 by (simp add: unat_word_ariths(1))
qed simp

lemma word_sum_bound: "word_sum bs \<le> 65535 * ((length bs + 1) div 2)"
proof (induction bs rule: word_sum.induct)
  case (1 a b bs)
  then show ?case using unsigned_less [of a, where 'a = nat] unsigned_less [of b, where 'a = nat] by simp
next
  case (2 a)
  then show ?case using unsigned_less [of a, where 'a = nat] by simp
qed simp

lemma unat_not_u16: "unat (NOT y :: u16) = 65535 - unat y"
proof -
  have "NOT y = 65535 - y" by (simp add: not_eq_complement)
  moreover have "y \<le> 65535" using unsigned_less [of y, where 'a = nat] by (simp add: word_le_nat_alt)
  ultimately show ?thesis by (simp add: unat_sub)
qed

text \<open>The checksum is the complement of the folded sum, for every packet of at most 100000 bytes.\<close>

lemma internet_checksum_eq:
  assumes "length bs \<le> 100000"
  shows "unat (internet_checksum bs) = 65535 - ones_fold (word_sum bs)"
proof -
  have "word_sum bs < 2 ^ 32" using word_sum_bound [of bs] assms by simp
  then have f: "unat (fold_carry (sum_words bs 0)) = ones_fold (word_sum bs)" by (simp add: fold_carry_ones sum_words_nat)
  let ?x = "fold_carry (sum_words bs 0)"
  have m: "(0xFFFF :: u32) = mask 16" by (simp add: mask_eq_exp_minus_1)
  have "(ucast (NOT ?x AND 0xFFFF) :: u16) = NOT (ucast ?x)" unfolding m by (rule bit_word_eqI) (auto simp: bit_simps)
  moreover have "unat (ucast ?x :: u16) = ones_fold (word_sum bs)"
    using f ones_fold_le [of "word_sum bs"] by (simp add: unsigned_ucast_eq take_bit_nat_eq_self)
  ultimately show ?thesis unfolding internet_checksum_def by (simp only: unat_not_u16)
qed

section \<open>Packets that verify\<close>

lemma length_write_be [simp]: "length (write_be16 v) = 2" "length (write_be32 w) = 4"
  by (simp_all add: write_be16_def write_be32_def)

lemma word_sum_append: "even (length xs) \<Longrightarrow> word_sum (xs @ ys) = word_sum xs + word_sum ys"
  by (induction xs rule: word_sum.induct) auto

lemma word_sum_be16: "word_sum (write_be16 v @ bs) = unat v + word_sum bs"
proof -
  have "unat (ucast (drop_bit 8 v) :: u8) = unat v div 256"
    using unsigned_less [of v, where 'a = nat] by (simp add: unsigned_ucast_eq unsigned_drop_bit_eq drop_bit_eq_div take_bit_nat_eq_self unat_div less_mult_imp_div_less)
  moreover have "unat (ucast (v AND 0xFF) :: u8) = unat v mod 256"
  proof -
    have "v AND 0xFF = take_bit 8 v" by (simp add: take_bit_eq_mask mask_eq_exp_minus_1)
    then show ?thesis by (simp add: unsigned_ucast_eq unsigned_take_bit_eq take_bit_eq_mod unat_mod)
  qed
  ultimately show ?thesis by (simp add: write_be16_def)
qed

lemma ones_fold_complement: "ones_fold (n + (65535 - ones_fold n)) = 65535"
proof (cases "n = 0")
  case True
  then show ?thesis by (simp add: ones_fold_def)
next
  case False
  define q where "q = (n - 1) div 65535"
  have f: "ones_fold n = (n - 1) mod 65535 + 1" using False by (simp add: ones_fold_def)
  have "n - 1 = 65535 * q + (n - 1) mod 65535" by (simp add: q_def)
  then have n: "n = 65535 * q + ones_fold n" using False f by linarith
  have "65535 * q + m + (65535 - m) = 65535 * (q + 1)" if "m \<le> 65535" for m :: nat using that by simp
  from this [OF ones_fold_le [of n]] have "n + (65535 - ones_fold n) = 65535 * (q + 1)" unfolding n [symmetric] .
  moreover have "ones_fold (65535 * (q + 1)) = 65535"
  proof -
    have "65535 * (q + 1) - 1 = 65534 + 65535 * q" by simp
    then have "(65535 * (q + 1) - 1) mod 65535 = 65534" by (simp only: mod_mult_self2) simp
    then show ?thesis by (simp add: ones_fold_def)
  qed
  ultimately show ?thesis by simp
qed

text \<open>Putting the checksum in the place where a zero was makes the packet verify.\<close>

lemma checksum_insert:
  assumes "even (length xs)" "length xs + length ys \<le> 90000"
  shows "internet_checksum (xs @ write_be16 (internet_checksum (xs @ write_be16 0 @ ys)) @ ys) = 0"
proof -
  let ?c = "internet_checksum (xs @ write_be16 0 @ ys)"
  have l: "length (xs @ write_be16 w @ ys) \<le> 100000" for w using assms(2) by simp
  have "word_sum (xs @ write_be16 w @ ys) = unat w + (word_sum xs + word_sum ys)" for w using assms(1) by (simp add: word_sum_append word_sum_be16)
  then have "unat (internet_checksum (xs @ write_be16 ?c @ ys)) = 65535 - ones_fold ((word_sum xs + word_sum ys) + (65535 - ones_fold (word_sum xs + word_sum ys)))"
    using internet_checksum_eq [OF l, of ?c] internet_checksum_eq [OF l, of 0] by (simp add: add.commute)
  then show ?thesis by (simp only: ones_fold_complement) (simp add: unat_eq_0)
qed

lemma ipv4_header_verifies: "internet_checksum (ipv4_header_sum total_len ident flags_off ttl protocol src dst) = 0"
proof -
  define xs where "xs = [0x45, 0x00] @ write_be16 total_len @ write_be16 ident @ write_be16 flags_off @ [ttl, protocol]"
  have h: "ipv4_header total_len ident flags_off ttl protocol c src dst = xs @ write_be16 c @ (write_be32 src @ write_be32 dst)" for c
    by (simp add: ipv4_header_def xs_def)
  show ?thesis unfolding ipv4_header_sum_def h by (rule checksum_insert) (simp_all add: xs_def)
qed

lemma tcp_segment_verifies:
  assumes "length payload \<le> 1300"
    "seg = tcp_segment src_port dst_port sq ack flags (internet_checksum (tcp_pseudo src dst IP_PROTO_TCP (tcp_segment src_port dst_port sq ack flags 0 payload))) payload"
  shows "tcp_checksum_valid src dst (seg @ rest) (of_nat (length seg))"
proof -
  define xs where "xs = write_be32 src @ write_be32 dst @ [0, IP_PROTO_TCP] @ write_be16 (of_nat (20 + length payload)) @ write_be16 src_port @ write_be16 dst_port @
    write_be32 sq @ write_be32 ack @ [push_bit 4 5, flags] @ write_be16 4096"
  have p: "tcp_pseudo src dst IP_PROTO_TCP (tcp_segment src_port dst_port sq ack flags c payload) = xs @ write_be16 c @ (write_be16 0 @ payload)" for c
    by (simp add: tcp_pseudo_def tcp_segment_def xs_def)
  have l: "length seg = 20 + length payload" by (simp add: assms(2) tcp_segment_def)
  have u: "unat (of_nat (20 + length payload) :: u16) = 20 + length payload" "unat (12 + of_nat (20 + length payload) :: u16) = 32 + length payload"
    using assms(1) by (simp_all add: unat_of_nat take_bit_nat_eq_self unat_word_ariths)
  have "internet_checksum (tcp_pseudo src dst IP_PROTO_TCP seg) = 0" unfolding assms(2) p by (rule checksum_insert) (use assms(1) in \<open>simp_all add: xs_def\<close>)
  then show ?thesis using u assms(1) by (simp add: tcp_checksum_valid_def l word_less_nat_alt word_le_nat_alt)
qed

section \<open>The definition of RFC 1071\<close>

text \<open>Addition in one's complement: a carry out of the top is added back in. The words of a packet, an odd byte at the end padded with a zero.\<close>

definition oc_add :: "nat \<Rightarrow> nat \<Rightarrow> nat" where
  "oc_add a b = (if a + b \<ge> 65536 then a + b - 65536 + 1 else a + b)"

fun packet_words :: "u8 list \<Rightarrow> nat list" where
  "packet_words (a # b # bs) = (256 * unat a + unat b) # packet_words bs"
| "packet_words [a] = [256 * unat a]"
| "packet_words [] = []"

lemma packet_words_le: "w \<in> set (packet_words bs) \<Longrightarrow> w \<le> 65535"
proof (induction bs rule: packet_words.induct)
  case (1 a b bs)
  then show ?case using unsigned_less [of a, where 'a = nat] unsigned_less [of b, where 'a = nat] by auto
next
  case (2 a)
  then show ?case using unsigned_less [of a, where 'a = nat] by auto
qed simp

lemma word_sum_words: "word_sum bs = sum_list (packet_words bs)"
  by (induction bs rule: packet_words.induct) auto

lemma ones_fold_add: "a \<le> 65535 \<Longrightarrow> b \<le> 65535 \<Longrightarrow> ones_fold (oc_add a b + n) = ones_fold (a + b + n) \<and> oc_add a b \<le> 65535"
proof (cases "a + b \<ge> 65536")
  case True
  assume "a \<le> 65535" "b \<le> 65535"
  define m where "m = a + b - 65536 + n"
  have e: "oc_add a b + n = m + 1" "a + b + n = m + 65535 + 1" using True by (simp_all add: oc_add_def m_def)
  have "ones_fold (m + 1) = ones_fold (m + 65535 + 1)" unfolding ones_fold_def by simp
  then show ?thesis using e \<open>a \<le> 65535\<close> \<open>b \<le> 65535\<close> by (simp add: oc_add_def)
qed (simp add: oc_add_def)

lemma oc_sum: "acc \<le> 65535 \<Longrightarrow> (\<And>w. w \<in> set ws \<Longrightarrow> w \<le> 65535) \<Longrightarrow> foldl oc_add acc ws = ones_fold (acc + sum_list ws)"
proof (induction ws arbitrary: acc)
  case Nil
  then show ?case by (simp add: ones_fold_id)
next
  case (Cons w ws)
  have a: "oc_add acc w \<le> 65535" "ones_fold (oc_add acc w + sum_list ws) = ones_fold (acc + w + sum_list ws)"
    using ones_fold_add [of acc w "sum_list ws"] Cons.prems by simp_all
  from Cons.IH [OF a(1)] Cons.prems(2) a(2) show ?case by (simp add: add.assoc)
qed

text \<open>
  C20. \<open>internet_checksum\<close> adds with 32 bits and folds the carries at the end; for every packet of up to 90000 bytes that is the complement of the sum of its 16-bit
  words in one's complement arithmetic, as RFC 1071 defines it. A packet whose checksum field was zero, with the checksum put there, passes the receiver's test.
\<close>

theorem internet_checksum_ones_complement:
  assumes "length bs \<le> 90000"
  shows "unat (internet_checksum bs) = 65535 - foldl oc_add 0 (packet_words bs) \<and>
    (\<forall>xs ys. bs = xs @ write_be16 0 @ ys \<longrightarrow> even (length xs) \<longrightarrow> internet_checksum (xs @ write_be16 (internet_checksum bs) @ ys) = 0)"
proof
  have "foldl oc_add 0 (packet_words bs) = ones_fold (word_sum bs)" using oc_sum [of 0 "packet_words bs"] packet_words_le by (simp add: word_sum_words)
  then show "unat (internet_checksum bs) = 65535 - foldl oc_add 0 (packet_words bs)" using internet_checksum_eq [of bs] assms by simp
  show "\<forall>xs ys. bs = xs @ write_be16 0 @ ys \<longrightarrow> even (length xs) \<longrightarrow> internet_checksum (xs @ write_be16 (internet_checksum bs) @ ys) = 0"
    using checksum_insert assms by auto
qed

lemma internet_checksum_ones_complement_witness:
  "unat (internet_checksum [0x45, 0x00, 0xFF, 0xFF, 0x00, 0x00, 0x12]) = 65535 - (0x4500 + 0xFFFF + 0x1200 - 65535) \<and>
   internet_checksum [0x45, 0x00, 0xFF, 0xFF, 0xA8, 0xFF, 0x12] = 0"
proof -
  note t = internet_checksum_ones_complement [of "[0x45, 0x00, 0xFF, 0xFF, 0x00, 0x00, 0x12]"]
  have u: "unat (internet_checksum [0x45, 0x00, 0xFF, 0xFF, 0x00, 0x00, 0x12]) = 0xA8FF" using t by (simp add: oc_add_def)
  then have c: "internet_checksum [0x45, 0x00, 0xFF, 0xFF, 0x00, 0x00, 0x12] = 0xA8FF" by (intro unsigned_word_eqI [where 'a = nat]) simp
  have e: "[0x45, 0x00, 0xFF, 0xFF, 0x00, 0x00, 0x12] = [0x45, 0x00, 0xFF, 0xFF] @ write_be16 0 @ [0x12 :: u8]" by (simp add: write_be16_def)
  have l: "length [0x45, 0x00, 0xFF, 0xFF, 0x00, 0x00, 0x12 :: u8] \<le> 90000" "even (length [0x45, 0x00, 0xFF, 0xFF :: u8])" by simp_all
  have "internet_checksum ([0x45, 0x00, 0xFF, 0xFF] @ write_be16 0xA8FF @ [0x12]) = 0"
    using t [OF l(1), THEN conjunct2, rule_format, OF e l(2)] unfolding c .
  then show ?thesis using u by (simp add: write_be16_def)
qed

end
