(* ===== verification/NetTcp.thy ===== *)
theory NetTcp
  imports NetChecksum
begin

text \<open>
  TCP: what sending a segment changes, and what polls do to a connection whose peer does not answer.
\<close>

section \<open>An ideal card\<close>

text \<open>
  A card at the ports from 0xC000: a write to one of the four address registers is kept, a write of a length to a status register sends that many bytes from the
  kept address. All other ports read as zero. A host is the state before start-up with the card in place and an address.
\<close>

record wire =
  w_mem :: "u32 \<Rightarrow> u8 list"
  w_addr :: "u16 \<Rightarrow> u32"
  w_sent :: "u8 list list"

definition wire_outl :: "u16 \<Rightarrow> u32 \<Rightarrow> wire \<Rightarrow> wire" where
  "wire_outl port v w =
     (if port \<in> {0xC020, 0xC024, 0xC028, 0xC02C} then w\<lparr>w_addr := (w_addr w)(port := v)\<rparr>
      else if port \<in> {0xC010, 0xC014, 0xC018, 0xC01C} then w\<lparr>w_sent := w_sent w @ [take (unat v) (w_mem w (w_addr w (port + 0x10)))]\<rparr>
      else w)"

definition wire_ports :: "wire ports" where
  "wire_ports = \<lparr>p_inb = (\<lambda>_ w. (0, w)), p_inw = (\<lambda>_ w. (0, w)), p_inl = (\<lambda>_ w. (0, w)), p_outb = (\<lambda>_ _ w. w), p_outw = (\<lambda>_ _ w. w), p_outl = wire_outl,
     dma_store = (\<lambda>addr bs w. w\<lparr>w_mem := (w_mem w)(addr := bs)\<rparr>), dma_load = (\<lambda>_ _ _. 0)\<rparr>"

definition wire_host :: "u32 \<Rightarrow> wire net" where
  "wire_host ip = (net0 [] \<lparr>w_mem = \<lambda>_. [], w_addr = \<lambda>_. 0, w_sent = []\<rparr>)\<lparr>n_ready := True, n_iobase := 0xC000, n_mac := [2, 0, 0, 0, 0, 1], n_ip := ip\<rparr>"

abbreviation wire_mem :: rtl_mem where "wire_mem \<equiv> \<lparr>rtl_tx_buffer = 0x200000, rtl_rx_buffer = 0x210000\<rparr>"

section \<open>What sending changes\<close>

text \<open>Sending writes to the card and moves to the next transmit buffer; everything else in the state stays.\<close>

definition sends :: "'h net \<Rightarrow> 'h net \<Rightarrow> bool" where
  "sends s s' \<longleftrightarrow> s' = s\<lparr>n_tx_slot := n_tx_slot s', n_hw := n_hw s'\<rparr>"

named_theorems net_sends \<open>operations that only send\<close>

lemma sends_refl [simp]: "sends s s"
  by (simp add: sends_def)

lemma sends_trans: "sends s t \<Longrightarrow> sends t u \<Longrightarrow> sends s u"
  unfolding sends_def by (cases s; cases t; cases u) simp

lemma sends_fields:
  assumes "sends s s'"
  shows "n_tcp s' = n_tcp s" "n_tick s' = n_tick s" "n_ready s' = n_ready s" "n_iobase s' = n_iobase s" "n_ip s' = n_ip s" "n_udp s' = n_udp s"
    "n_loss s' = n_loss s" "n_stats s' = n_stats s" "n_mac s' = n_mac s" "n_routes s' = n_routes s" "n_auth s' = n_auth s" "n_iss s' = n_iss s"
  by (subst assms [unfolded sends_def], simp)+

lemma sends_frame [net_sends]: "sends s (snd (rtl8139_send_frame pt mem frame len s))"
  by (simp add: rtl8139_send_frame_def sends_def Let_def)

lemma sends_arp [net_sends]: "sends s (snd (net_send_arp_packet pt mem oper dst sip tip tmac s))"
  by (simp add: net_send_arp_packet_def sends_frame)

lemma sends_resolve [net_sends]: "sends s (snd (resolve_mac pt mem ip s))"
  by (simp add: resolve_mac_def net_send_arp_request_def sends_arp split: option.split)

lemma sends_ipv4 [net_sends]: "sends s (snd (send_ipv4 pt mem dst_mac dst_ip protocol ttl ident flags_off payload s))"
  by (simp add: send_ipv4_def Let_def sends_frame)

lemma sends_segment [net_sends]: "sends s (snd (tcp_send_segment pt mem dst_ip src_port dst_port sq ack flags payload s))"
  unfolding tcp_send_segment_def by (auto simp: Let_def split_beta intro: sends_trans [OF sends_resolve sends_ipv4] sends_ipv4)

lemma sends_conn [net_sends]: "sends s (snd (conn_send pt mem i sq ack flags payload s))"
  by (simp add: conn_send_def sends_segment)

lemma sends_ack [net_sends]: "sends s (send_ack pt mem i s)"
  by (simp add: send_ack_def sends_conn)

section \<open>When sending succeeds\<close>

lemma frame_len_ok:
  assumes "n \<le> 1480"
  shows "frame_len (20 + of_nat n) \<noteq> 0" "frame_len (20 + of_nat n) \<le> 1514" "unat (frame_len (20 + of_nat n)) = max 60 (34 + n)"
proof -
  have u: "unat (14 + (20 + of_nat n) :: u16) = 34 + n" using assms by (simp add: unat_word_ariths unat_of_nat take_bit_nat_eq_self)
  show f: "unat (frame_len (20 + of_nat n)) = max 60 (34 + n)"
    using assms u by (auto simp: frame_len_def Let_def word_less_nat_alt unsigned_ucast_eq take_bit_nat_eq_self)
  then have "unat (frame_len (20 + of_nat n)) \<noteq> 0" by simp
  then show "frame_len (20 + of_nat n) \<noteq> 0" by (metis unat_eq_0)
  show "frame_len (20 + of_nat n) \<le> 1514" using f assms by (simp add: word_le_nat_alt)
qed

lemma send_ipv4_ok: "n_ready s \<Longrightarrow> n_iobase s \<noteq> 0 \<Longrightarrow> length payload \<le> 1480 \<Longrightarrow> fst (send_ipv4 pt mem dst_mac dst_ip protocol ttl ident flags_off payload s)"
  using frame_len_ok [of "length payload"] by (simp add: send_ipv4_def rtl8139_send_frame_def Let_def)

lemma length_tcp_segment [simp]: "length (tcp_segment src_port dst_port sq ack flags c payload) = 20 + length payload"
  by (simp add: tcp_segment_def)

lemma conn_send_ok:
  assumes "n_ready s" "n_iobase s \<noteq> 0" "length payload \<le> 1300"
  shows "fst (conn_send pt mem i sq ack flags payload s)"
proof -
  have "n_ready (snd (resolve_mac pt mem ip s))" "n_iobase (snd (resolve_mac pt mem ip s)) \<noteq> 0" for ip
    using assms by (simp_all add: sends_fields [OF sends_resolve])
  then show ?thesis using assms by (auto simp: conn_send_def tcp_send_segment_def Let_def split_beta intro!: send_ipv4_ok)
qed

section \<open>Retransmission ends\<close>

definition half_open :: "tcp_conn \<Rightarrow> bool" where
  "half_open c \<longleftrightarrow> tc_state c = TCP_SYN_SENT \<or> tc_state c = TCP_SYN_RCVD"

definition retx_limit :: "tcp_conn \<Rightarrow> nat" where
  "retx_limit c = (if half_open c then TCP_RETX_MAX + 2 else TCP_RETX_MAX)"

text \<open>A connection with a segment that is not acknowledged.\<close>

definition unacked :: "tcp_conn \<Rightarrow> bool" where
  "unacked c \<longleftrightarrow> tc_used c \<and> \<not> tc_listening c \<and> tc_waiting_ack c \<and> length (tc_last_data c) \<le> TCP_MAX_PAYLOAD"

definition after_retx :: "u32 \<Rightarrow> tcp_conn \<Rightarrow> tcp_conn" where
  "after_retx tick c = (if tc_last_retries c \<ge> retx_limit c then c\<lparr>tc_used := False, tc_state := TCP_CLOSED\<rparr>
     else c\<lparr>tc_last_tick := tick, tc_last_retries := tc_last_retries c + 1\<rparr>)"

lemma retransmit_conn:
  assumes "n_ready s" "n_iobase s \<noteq> 0" "i < length (n_tcp s)" "unacked (conn s i)"
  shows "n_tcp (snd (tcp_retransmit_last pt mem i s)) = (n_tcp s)[i := after_retx (n_tick s) (conn s i)]"
proof -
  let ?r = "conn_send pt mem i (tc_last_seq (conn s i)) (tc_last_ack (conn s i)) (tc_last_flags (conn s i)) (tc_last_data (conn s i)) s"
  have "fst ?r" using assms by (intro conn_send_ok) (auto simp: unacked_def)
  moreover have "n_tcp (snd ?r) = n_tcp s" "n_tick (snd ?r) = n_tick s" using sends_fields [OF sends_conn] by blast+
  ultimately show ?thesis using assms(4)
    by (auto simp: tcp_retransmit_last_def unacked_def after_retx_def retx_limit_def half_open_def Let_def split_beta upd_conn_def upd_rx_stats_def)
qed

text \<open>What a poll of one connection keeps.\<close>

definition net_keeps :: "'h net \<Rightarrow> 'h net \<Rightarrow> bool" where
  "net_keeps s s' \<longleftrightarrow> n_ready s' = n_ready s \<and> n_iobase s' = n_iobase s \<and> n_tick s' = n_tick s \<and> length (n_tcp s') = length (n_tcp s) \<and>
     n_mac s' = n_mac s \<and> n_ip s' = n_ip s \<and> n_iss s' = n_iss s"

lemma net_keeps_trans: "net_keeps s t \<Longrightarrow> net_keeps t u \<Longrightarrow> net_keeps s u"
  by (simp add: net_keeps_def)

lemma retransmit_keeps:
  "net_keeps s (snd (tcp_retransmit_last pt mem i s)) \<and> (\<forall>j. j \<noteq> i \<longrightarrow> conn (snd (tcp_retransmit_last pt mem i s)) j = conn s j)"
  using sends_fields [OF sends_conn, of pt mem i "tc_last_seq (conn s i)" "tc_last_ack (conn s i)" "tc_last_flags (conn s i)" "tc_last_data (conn s i)" s]
  by (auto simp: tcp_retransmit_last_def net_keeps_def Let_def split_beta upd_conn_def upd_rx_stats_def)

lemma poll_conn_keeps: "net_keeps (snd x) (snd (poll_conn pt mem i x)) \<and> (\<forall>j. j \<noteq> i \<longrightarrow> conn (snd (poll_conn pt mem i x)) j = conn (snd x) j)"
  using retransmit_keeps [where s = "snd x" and pt = pt and mem = mem and i = i] by (cases x) (auto simp: poll_conn_def Let_def split_beta net_keeps_def)

lemma poll_others:
  "i \<notin> set js \<Longrightarrow> net_keeps (snd x) (snd (fold (poll_conn pt mem) js x)) \<and> conn (snd (fold (poll_conn pt mem) js x)) i = conn (snd x) i"
proof (induction js arbitrary: x)
  case Nil
  then show ?case by (simp add: net_keeps_def)
next
  case (Cons j js)
  then have ne: "i \<noteq> j" "i \<notin> set js" by auto
  from Cons.IH [OF ne(2), of "poll_conn pt mem j x"] poll_conn_keeps [of x pt mem j] ne(1) show ?case by (auto intro: net_keeps_trans)
qed

lemma retx_timeout_le: "retx_timeout c \<le> 320"
proof -
  have "n \<le> 4 \<Longrightarrow> n \<in> {0, 1, 2, 3, 4}" for n :: nat by auto
  from this [of "min 4 (tc_last_retries c)"] show ?thesis unfolding retx_timeout_def by auto
qed

lemma poll_due:
  assumes "n_ready s" "n_iobase s \<noteq> 0" "length (n_tcp s) = TCP_MAX_CONNS" "i < TCP_MAX_CONNS" "unacked (conn s i)" "n_tick s - tc_last_tick (conn s i) \<ge> 320"
  shows "net_keeps s (snd (net_tcp_poll pt mem s)) \<and> conn (snd (net_tcp_poll pt mem s)) i = after_retx (n_tick s) (conn s i)"
proof -
  have l: "[0..<TCP_MAX_CONNS] = [0..<i] @ i # [Suc i..<TCP_MAX_CONNS]" using assms(4) upt_add_eq_append [of 0 i "TCP_MAX_CONNS - i"] by (simp add: upt_conv_Cons)
  define x where "x = fold (poll_conn pt mem) [0..<i] (0, s)"
  define y where "y = poll_conn pt mem i x"
  have x: "net_keeps s (snd x)" "conn (snd x) i = conn s i" using poll_others [of i "[0..<i]" "(0, s)" pt mem] by (simp_all add: x_def)
  have due: "\<not> n_tick (snd x) - tc_last_tick (conn s i) < retx_timeout (conn s i)"
    using x(1) assms(6) retx_timeout_le [of "conn s i"] by (auto simp: net_keeps_def not_less)
  have y: "net_keeps (snd x) (snd y)" "conn (snd y) i = after_retx (n_tick s) (conn s i)"
    using poll_conn_keeps [of x pt mem i] retransmit_conn [of "snd x" i pt mem] assms x due
    by (auto simp: y_def poll_conn_def Let_def split_beta net_keeps_def unacked_def)
  have "net_tcp_poll pt mem s = fold (poll_conn pt mem) [Suc i..<TCP_MAX_CONNS] y" unfolding net_tcp_poll_def l by (simp add: x_def y_def)
  then show ?thesis using poll_others [of i "[Suc i..<TCP_MAX_CONNS]" y pt mem] x y by (auto intro: net_keeps_trans)
qed

text \<open>Polls at the given ticks; nothing arrives in between. \<open>spaced\<close>: each poll is at least 320 ticks, the longest timeout, after the one before.\<close>

primrec polls :: "'h ports \<Rightarrow> rtl_mem \<Rightarrow> u32 list \<Rightarrow> 'h net \<Rightarrow> 'h net" where
  "polls pt mem [] s = s"
| "polls pt mem (t # ts) s = polls pt mem ts (snd (net_tcp_poll pt mem (s\<lparr>n_tick := t\<rparr>)))"

primrec spaced :: "u32 \<Rightarrow> u32 list \<Rightarrow> bool" where
  "spaced t [] \<longleftrightarrow> True"
| "spaced t (u # us) \<longleftrightarrow> u - t \<ge> 320 \<and> spaced u us"

lemma polls_append: "polls pt mem (ts @ us) s = polls pt mem us (polls pt mem ts s)"
  by (induction ts arbitrary: s) auto

definition card_up :: "'h net \<Rightarrow> bool" where
  "card_up s \<longleftrightarrow> n_ready s \<and> n_iobase s \<noteq> 0 \<and> length (n_tcp s) = TCP_MAX_CONNS"

lemma poll_at:
  assumes "card_up s" "i < TCP_MAX_CONNS" "unacked (conn s i)" "t - tc_last_tick (conn s i) \<ge> 320" "s' = snd (net_tcp_poll pt mem (s\<lparr>n_tick := t\<rparr>))"
  shows "card_up s' \<and> conn s' i = after_retx t (conn s i)"
  using poll_due [of "s\<lparr>n_tick := t\<rparr>" i pt mem] assms by (auto simp: card_up_def net_keeps_def)

lemma polls_open:
  assumes "card_up s" "i < TCP_MAX_CONNS" "unacked (conn s i)" "spaced (tc_last_tick (conn s i)) ts" "tc_last_retries (conn s i) + length ts \<le> retx_limit (conn s i)"
  shows "card_up (polls pt mem ts s) \<and> conn (polls pt mem ts s) i =
    (conn s i)\<lparr>tc_last_tick := last (tc_last_tick (conn s i) # ts), tc_last_retries := tc_last_retries (conn s i) + length ts\<rparr>"
  using assms
proof (induction ts arbitrary: s)
  case Nil
  then show ?case by simp
next
  case (Cons t ts)
  define s1 where "s1 = snd (net_tcp_poll pt mem (s\<lparr>n_tick := t\<rparr>))"
  have p: "card_up s1" "conn s1 i = (conn s i)\<lparr>tc_last_tick := t, tc_last_retries := tc_last_retries (conn s i) + 1\<rparr>"
    using poll_at [OF Cons.prems(1-3) _ s1_def] Cons.prems(4,5) by (auto simp: after_retx_def)
  have "card_up (polls pt mem ts s1) \<and> conn (polls pt mem ts s1) i =
    (conn s1 i)\<lparr>tc_last_tick := last (tc_last_tick (conn s1 i) # ts), tc_last_retries := tc_last_retries (conn s1 i) + length ts\<rparr>"
    using Cons.prems p by (intro Cons.IH) (auto simp: unacked_def retx_limit_def half_open_def)
  then show ?case using p(2) by (simp add: s1_def)
qed

lemma spaced_append: "spaced t (us @ vs) \<longleftrightarrow> spaced t us \<and> spaced (last (t # us)) vs"
  by (induction us arbitrary: t) auto

end
