(* ===== verification/NetPath.thy ===== *)
theory NetPath
  imports NetTcp
begin

text \<open>
  The way of a packet from one host to another: the frame that the sender hands to its card, and what the receiver makes of it.
\<close>

section \<open>Fields in network order\<close>

lemma be16_join: "push_bit 8 (ucast (ucast (drop_bit 8 v) :: u8)) OR ucast (ucast (v AND 0xFF) :: u8) = (v :: u16)"
proof -
  have m: "(0xFF :: u16) = mask 8" by (simp add: mask_eq_exp_minus_1)
  show ?thesis unfolding m by (rule bit_word_eqI) (auto simp: bit_simps)
qed

lemma be32_join: "push_bit 24 (ucast (ucast (drop_bit 24 v AND 0xFF) :: u8)) OR push_bit 16 (ucast (ucast (drop_bit 16 v AND 0xFF) :: u8)) OR
    push_bit 8 (ucast (ucast (drop_bit 8 v AND 0xFF) :: u8)) OR ucast (ucast (v AND 0xFF) :: u8) = (v :: u32)"
proof -
  have m: "(0xFF :: u32) = mask 8" by (simp add: mask_eq_exp_minus_1)
  show ?thesis unfolding m
  proof (rule bit_word_eqI)
    fix n assume "n < LENGTH(32)"
    then consider "n < 8" | k where "k < 8" "n = 8 + k" | k where "k < 8" "n = 16 + k" | k where "k < 8" "n = 24 + k"
      by (cases "n < 8"; cases "n < 16"; cases "n < 24") (auto simp: not_less le_iff_add)
    then show "bit (push_bit 24 (ucast (ucast (drop_bit 24 v AND mask 8) :: u8)) OR push_bit 16 (ucast (ucast (drop_bit 16 v AND mask 8) :: u8)) OR
      push_bit 8 (ucast (ucast (drop_bit 8 v AND mask 8) :: u8)) OR ucast (ucast (v AND mask 8) :: u8) :: u32) n = bit v n"
      by cases (auto simp: bit_simps)
  qed
qed

lemma read_be16_shift: "length xs \<le> i \<Longrightarrow> read_be16 (xs @ ys) i = read_be16 ys (i - length xs)"
  by (simp add: read_be16_def nth_append Suc_diff_le)

lemma read_be32_shift: "length xs \<le> i \<Longrightarrow> read_be32 (xs @ ys) i = read_be32 ys (i - length xs)"
  by (simp add: read_be32_def nth_append Suc_diff_le)

lemma read_be16_here [simp]: "read_be16 (write_be16 v @ ys) 0 = v"
  by (simp add: read_be16_def write_be16_def be16_join)

lemma read_be32_here [simp]: "read_be32 (write_be32 v @ ys) 0 = v"
  by (simp add: read_be32_def write_be32_def be32_join numeral_2_eq_2 numeral_3_eq_3)

lemmas read_be = read_be16_shift read_be32_shift

section \<open>The header of an IPv4 packet\<close>

lemma length_ipv4_header [simp]: "length (ipv4_header total_len ident flags_off ttl protocol c src dst) = 20"
  by (simp add: ipv4_header_def)

lemma length_ipv4_header_sum [simp]: "length (ipv4_header_sum total_len ident flags_off ttl protocol src dst) = 20"
  by (simp add: ipv4_header_sum_def)

lemma ipv4_header_fields:
  fixes rest :: "u8 list" and total_len ident flags_off c :: u16 and ttl protocol :: u8 and src dst :: u32
  defines "ip \<equiv> ipv4_header total_len ident flags_off ttl protocol c src dst @ rest"
  shows "ip ! 0 = 0x45" "read_be16 ip 2 = total_len" "read_be16 ip 4 = ident" "read_be16 ip 6 = flags_off" "ip ! 9 = protocol"
    "read_be32 ip 12 = src" "read_be32 ip 16 = dst"
proof -
  show "ip ! 0 = 0x45" "ip ! 9 = protocol" by (simp_all add: ip_def ipv4_header_def write_be16_def)
  have a: "ip = [0x45, 0x00] @ write_be16 total_len @ write_be16 ident @ write_be16 flags_off @ [ttl, protocol] @ write_be16 c @ write_be32 src @ write_be32 dst @ rest"
    by (simp add: ip_def ipv4_header_def)
  show "read_be16 ip 2 = total_len" "read_be16 ip 4 = ident" "read_be16 ip 6 = flags_off" "read_be32 ip 12 = src" "read_be32 ip 16 = dst"
    unfolding a by (simp_all add: read_be del: append_Cons append_Nil)
qed

section \<open>Frames\<close>

text \<open>The frame that carries a packet: what \<open>send_ipv4\<close> hands to the card.\<close>

definition ip_frame :: "u8 list \<Rightarrow> u8 list \<Rightarrow> u32 \<Rightarrow> u32 \<Rightarrow> u8 \<Rightarrow> u8 \<Rightarrow> u16 \<Rightarrow> u16 \<Rightarrow> u8 list \<Rightarrow> u8 list" where
  "ip_frame dst_mac src_mac src dst protocol ttl ident flags_off payload = take (max 60 (34 + length payload))
     (eth_frame dst_mac src_mac ETH_TYPE_IPV4 (ipv4_header_sum (20 + of_nat (length payload)) ident flags_off ttl protocol src dst @ payload))"

text \<open>
  A card that transmits: when a buffer has been stored, its address written to the address register of a transmit slot and its length to the status register,
  the card has sent these bytes.
\<close>

definition transmits :: "'h ports \<Rightarrow> u32 \<Rightarrow> ('h \<Rightarrow> u8 list list) \<Rightarrow> bool" where
  "transmits pt io sent \<longleftrightarrow> (\<forall>slot < 4. \<forall>addr bs len h. unat len = length bs \<longrightarrow>
     sent (p_outl pt (ucast (io + (0x10 + of_nat slot * 4))) len (p_outl pt (ucast (io + (0x20 + of_nat slot * 4))) addr (dma_store pt addr bs h))) = sent h @ [bs])"

lemma send_frame_sent:
  assumes "transmits pt (n_iobase s) sent" "n_ready s" "n_iobase s \<noteq> 0" "n_tx_slot s < 4" "len \<noteq> 0" "len \<le> 1514" "unat len \<le> length frame"
  shows "sent (n_hw (snd (rtl8139_send_frame pt mem frame len s))) = sent (n_hw s) @ [take (unat len) frame] \<and> n_tx_slot (snd (rtl8139_send_frame pt mem frame len s)) < 4"
proof -
  have "len AND 0x1FFF = take_bit 13 len" by (simp add: take_bit_eq_mask mask_eq_exp_minus_1)
  also have "\<dots> = len" using assms(6) by (intro unsigned_word_eqI [where 'a = nat]) (simp add: unsigned_take_bit_eq take_bit_nat_eq_self word_le_nat_alt)
  finally have l: "len AND 0x1FFF = len" .
  show ?thesis using assms by (auto simp: rtl8139_send_frame_def Let_def l rtl_port_def transmits_def not_less)
qed

lemma send_ipv4_sent:
  assumes "transmits pt (n_iobase s) sent" "n_ready s" "n_iobase s \<noteq> 0" "n_tx_slot s < 4" "length payload \<le> 1480"
  shows "sent (n_hw (snd (send_ipv4 pt mem dst_mac dst_ip protocol ttl ident flags_off payload s))) =
    sent (n_hw s) @ [ip_frame dst_mac (n_mac s) (n_ip s) dst_ip protocol ttl ident flags_off payload]"
proof -
  note f = frame_len_ok [OF assms(5)]
  have "unat (frame_len (20 + of_nat (length payload))) \<le> length (eth_frame dst_mac (n_mac s) ETH_TYPE_IPV4 d)" for d
    using f(3) assms(5) unfolding eth_frame_def Let_def length_append length_replicate by linarith
  from send_frame_sent [OF assms(1-4) f(1,2) this, THEN conjunct1] show ?thesis unfolding send_ipv4_def ip_frame_def Let_def f(3) by simp
qed

lemma resolve_ready:
  assumes "transmits pt (n_iobase s) sent" "n_ready s" "n_iobase s \<noteq> 0" "n_tx_slot s < 4" "length (n_mac s) = 6" "n_arp_valid s \<longrightarrow> length (n_arp_mac s) = 6"
  shows "n_tx_slot (snd (resolve_mac pt mem ip s)) < 4" "length (fst (resolve_mac pt mem ip s)) = 6"
proof -
  have "n_tx_slot (snd (rtl8139_send_frame pt mem f l s)) < 4" for f l using assms(4) by (simp add: rtl8139_send_frame_def Let_def)
  then show "n_tx_slot (snd (resolve_mac pt mem ip s)) < 4"
    using assms(4) by (simp add: resolve_mac_def net_send_arp_request_def net_send_arp_packet_def split: option.split)
  show "length (fst (resolve_mac pt mem ip s)) = 6" using assms(6) by (auto simp: resolve_mac_def arp_cache_lookup_def split: option.split)
qed

section \<open>Receiving\<close>

text \<open>The state when the packet of a frame is delivered: counted, old fragments dropped, the sender's address learned.\<close>

definition on_frame :: "nat \<Rightarrow> u32 \<Rightarrow> u8 list \<Rightarrow> 'h net \<Rightarrow> 'h net" where
  "on_frame len src mac s = arp_cache_update src mac (ipv4_reassembly_gc (net_count_ethertype ETH_TYPE_IPV4
     (upd_rx_stats (\<lambda>t. t\<lparr>ns_total_bytes := ns_total_bytes t + ucast (of_nat len :: u16)\<rparr>) s)))"

lemma on_frame_fields [simp]:
  "n_tcp (on_frame len src mac s) = n_tcp s" "n_udp (on_frame len src mac s) = n_udp s" "n_ip (on_frame len src mac s) = n_ip s"
  "n_loss (on_frame len src mac s) = n_loss s" "n_reorder (on_frame len src mac s) = n_reorder s" "n_hold (on_frame len src mac s) = n_hold s"
  "n_arp_ip (on_frame len src mac s) = src" "n_arp_mac (on_frame len src mac s) = take 6 mac" "n_arp_valid (on_frame len src mac s)"
  "n_ready (on_frame len src mac s) = n_ready s" "n_iobase (on_frame len src mac s) = n_iobase s"
  by (simp_all add: on_frame_def arp_cache_update_def ipv4_reassembly_gc_def net_count_ethertype_def upd_rx_stats_def)

text \<open>A frame with an unfragmented packet for this host reaches \<open>net_deliver_ipv4\<close> with the payload that was sent, followed by padding.\<close>

lemma frame_delivered:
  assumes "length dst_mac = 6" "length src_mac = 6" "length payload \<le> 1480" "frame = ip_frame dst_mac src_mac src (n_ip s) protocol ttl ident 0 payload"
  shows "\<exists>pad. net_handle_eth_frame pt mem frame (of_nat (length frame)) s = net_deliver_ipv4 pt mem
    (ipv4_header_sum (20 + of_nat (length payload)) ident 0 ttl protocol src (n_ip s) @ payload @ pad) 20 (20 + of_nat (length payload)) protocol src (n_ip s)
    (on_frame (length frame) src src_mac s)"
proof -
  let ?n = "length payload" and ?h = "ipv4_header_sum (20 + of_nat (length payload)) ident 0 ttl protocol src (n_ip s)"
  define pad where "pad = take (max 60 (34 + ?n) - (34 + ?n)) (replicate (1514 - (34 + ?n)) (0 :: u8))"
  have f: "frame = dst_mac @ src_mac @ write_be16 ETH_TYPE_IPV4 @ ?h @ payload @ pad"
    using assms(1-3) by (simp add: assms(4) ip_frame_def eth_frame_def Let_def pad_def)
  have l: "length frame = max 60 (34 + ?n)" using assms(1-3) by (simp add: f pad_def)
  define len where "len = (of_nat (length frame) :: u16)"
  have u: "unat len = max 60 (34 + ?n)" "unat (20 + of_nat ?n :: u16) = 20 + ?n" "unat (14 + (20 + of_nat ?n) :: u16) = 34 + ?n"
    using assms(3) by (simp_all add: len_def l unat_word_ariths unat_of_nat take_bit_nat_eq_self)
  have c: "\<not> len < 14" "\<not> len < 34" "\<not> (20 + of_nat ?n :: u16) < 20" "\<not> len < 14 + (20 + of_nat ?n)" using u by (simp_all add: word_less_nat_alt)
  have ty: "read_be16 frame 12 = ETH_TYPE_IPV4" using assms(1,2) by (simp add: f read_be)
  have d: "drop 14 frame = ?h @ payload @ pad" "drop 6 frame = src_mac @ write_be16 ETH_TYPE_IPV4 @ ?h @ payload @ pad" using assms(1,2) by (simp_all add: f)
  note hf = ipv4_header_fields [where total_len = "20 + of_nat ?n" and ident = ident and flags_off = 0 and ttl = ttl and protocol = protocol and src = src and dst = "n_ip s"
      and c = "internet_checksum (ipv4_header (20 + of_nat ?n) ident 0 ttl protocol 0 src (n_ip s))" and rest = "payload @ pad", folded ipv4_header_sum_def]
  have ok: "internet_checksum (take 20 (?h @ payload @ pad)) = 0" by (simp add: ipv4_header_verifies)
  have arp: "arp_cache_update src (src_mac @ xs) t = arp_cache_update src src_mac t" for xs and t :: "'a net" using assms(2) by (simp add: arp_cache_update_def)
  have s1: "n_ip (arp_cache_update ip m (ipv4_reassembly_gc (net_count_ethertype e (upd_rx_stats g s)))) = n_ip s" for ip m e g
    by (simp add: arp_cache_update_def ipv4_reassembly_gc_def net_count_ethertype_def upd_rx_stats_def)
  have "net_handle_eth_frame pt mem frame len s = net_deliver_ipv4 pt mem (?h @ payload @ pad) 20 (20 + of_nat ?n) protocol src (n_ip s) (on_frame (length frame) src src_mac s)"
    unfolding net_handle_eth_frame_def net_handle_ipv4_frame_def Let_def ty d hf on_frame_def len_def [symmetric]
    using c ok by (simp add: s1 arp)
  then show ?thesis unfolding len_def by blast
qed

section \<open>Datagrams\<close>

definition udp_bytes :: "u16 \<Rightarrow> u16 \<Rightarrow> u8 list \<Rightarrow> u8 list" where
  "udp_bytes src_port dst_port payload = write_be16 src_port @ write_be16 dst_port @ write_be16 (8 + of_nat (length payload)) @ write_be16 0 @ payload"

lemma length_udp_bytes [simp]: "length (udp_bytes src_port dst_port payload) = 8 + length payload"
  by (simp add: udp_bytes_def)

text \<open>A datagram to another host leaves as one frame, whatever hardware address was found.\<close>

lemma udp_sent:
  assumes "transmits pt (n_iobase a) sent" "n_ready a" "n_iobase a \<noteq> 0" "n_tx_slot a < 4" "length (n_mac a) = 6" "n_arp_valid a \<longrightarrow> length (n_arp_mac a) = 6"
    "length payload \<le> 1200" "dst \<noteq> n_ip a" "dst \<noteq> 0x7F000001" "dst \<noteq> BROADCAST"
  shows "\<exists>dst_mac. length dst_mac = 6 \<and> fst (net_udp_send pt mem dst src_port dst_port (Some payload) a) \<and>
    last (sent (n_hw (snd (net_udp_send pt mem dst src_port dst_port (Some payload) a)))) =
      ip_frame dst_mac (n_mac a) (n_ip a) dst IP_PROTO_UDP 64 (n_ident a) 0 (udp_bytes src_port dst_port payload)"
proof -
  let ?a1 = "a\<lparr>n_ident := n_ident a + 1\<rparr>"
  define r where "r = resolve_mac pt mem (net_route_next_hop dst ?a1) ?a1"
  have r: "n_tx_slot (snd r) < 4" "length (fst r) = 6" unfolding r_def using assms by (intro resolve_ready; simp)+
  have k: "n_iobase (snd r) = n_iobase a" "n_ready (snd r) = n_ready a" "n_mac (snd r) = n_mac a" "n_ip (snd r) = n_ip a"
    unfolding r_def by (simp_all add: sends_fields [OF sends_resolve])
  have e: "net_udp_send pt mem dst src_port dst_port (Some payload) a =
      send_ipv4 pt mem (fst r) dst IP_PROTO_UDP 64 (n_ident a) 0 (udp_bytes src_port dst_port payload) (snd r)"
    using assms by (simp add: net_udp_send_def net_send_udp_def next_ident_def net_send_ipv4_raw_def udp_bytes_def r_def Let_def split_beta)
  have "fst (net_udp_send pt mem dst src_port dst_port (Some payload) a)" unfolding e using assms k by (intro send_ipv4_ok) simp_all
  moreover have "sent (n_hw (snd (net_udp_send pt mem dst src_port dst_port (Some payload) a))) = sent (n_hw (snd r)) @
      [ip_frame (fst r) (n_mac (snd r)) (n_ip (snd r)) dst IP_PROTO_UDP 64 (n_ident a) 0 (udp_bytes src_port dst_port payload)]"
    unfolding e using assms k r(1) by (intro send_ipv4_sent) simp_all
  ultimately show ?thesis using r(2) k by auto
qed

lemma udp_fields:
  fixes src_port dst_port :: u16 and payload pad :: "u8 list"
  defines "udp \<equiv> udp_bytes src_port dst_port payload @ pad"
  shows "read_be16 udp 0 = src_port" "read_be16 udp 2 = dst_port" "read_be16 udp 4 = 8 + of_nat (length payload)" "read_be16 udp 6 = 0" "drop 8 udp = payload @ pad"
proof -
  have a: "udp = write_be16 src_port @ write_be16 dst_port @ write_be16 (8 + of_nat (length payload)) @ write_be16 0 @ payload @ pad" by (simp add: udp_def udp_bytes_def)
  show "read_be16 udp 0 = src_port" "read_be16 udp 2 = dst_port" "read_be16 udp 4 = 8 + of_nat (length payload)" "read_be16 udp 6 = 0" "drop 8 udp = payload @ pad"
    unfolding a by (simp_all add: read_be)
qed

lemma udp_handled:
  assumes "length payload \<le> 1200" "n_loss s = 0" "n_reorder s = 0" "\<not> uh_valid (n_hold s)"
  shows "net_handle_udp_datagram src dst (udp_bytes src_port dst_port payload @ pad) (8 + of_nat (length payload)) s = udp_enqueue_packet dst_port src src_port payload s"
proof -
  have u: "unat (8 + of_nat (length payload) :: u16) = 8 + length payload" using assms(1) by (simp add: unat_word_ariths unat_of_nat take_bit_nat_eq_self)
  then have "\<not> (8 + of_nat (length payload) :: u16) < 8" by (simp add: word_less_nat_alt)
  then show ?thesis unfolding net_handle_udp_datagram_def Let_def udp_fields u using assms
    by (simp add: udp_enqueue_with_faults_def net_fault_should_apply_def)
qed

lemma udp_queued:
  assumes "udp_find_binding port s = Some j" "ring_wf UDP_QUEUE_DEPTH (ub_queue (n_udp s ! j))" "r_count (ub_queue (n_udp s ! j)) < UDP_QUEUE_DEPTH"
    "length payload \<le> 1200" "r = udp_enqueue_packet port src src_port payload s" "q = ub_queue (n_udp (snd r) ! j)"
  shows "fst r \<and> ring_wf UDP_QUEUE_DEPTH q \<and> udp_find_binding port (snd r) = Some j \<and> ring_items UDP_QUEUE_DEPTH q =
    ring_items UDP_QUEUE_DEPTH (ub_queue (n_udp s ! j)) @ [\<lparr>up_src_ip = src, up_src_port = src_port, up_data = payload\<rparr>]"
proof -
  have j: "j < length (n_udp s)" "ub_used (n_udp s ! j)" "ub_port (n_udp s ! j) = port" "\<And>k. k < j \<Longrightarrow> \<not> (ub_used (n_udp s ! k) \<and> ub_port (n_udp s ! k) = port)"
    using find_slot_SomeD [OF assms(1) [unfolded udp_find_binding_def]] by auto
  define b where "b = (n_udp s ! j)\<lparr>ub_queue := ring_push UDP_QUEUE_DEPTH \<lparr>up_src_ip = src, up_src_port = src_port, up_data = payload\<rparr> (ub_queue (n_udp s ! j))\<rparr>"
  have r: "r = (True, s\<lparr>n_udp := (n_udp s)[j := b]\<rparr>)" using assms(1,3-5) by (simp add: udp_enqueue_packet_def binding_push_def upd_binding_def b_def)
  moreover have "udp_find_binding port (snd r) = Some j" unfolding udp_find_binding_def
    using j by (intro find_slot_SomeI) (auto simp: r b_def)
  ultimately show ?thesis using j(1) ring_push_wf [OF assms(2,3)] ring_push_items [OF assms(2,3)] by (simp add: assms(6) b_def)
qed

text \<open>
  C8. A datagram arrives as it was sent: the last frame that \<open>net_udp_send\<close> gives to the card of one host, handled by the other host, appends the payload with the
  sender's address and port to the queue of the bound port, and the receiver has learned the sender's hardware address. When the queue was empty the next
  \<open>net_udp_recv\<close> returns exactly the payload. The card is one that transmits what is stored for it; the receiver injects no faults.
\<close>

theorem udp_end_to_end:
  fixes a :: "'h net" and b :: "'k net" and payload :: "u8 list" and src_port dst_port :: u16 and pt :: "'h ports" and ptb :: "'k ports" and mem memb sent
  defines "sa \<equiv> net_udp_send pt mem (n_ip b) src_port dst_port (Some payload) a"
  defines "frame \<equiv> last (sent (n_hw (snd sa)))"
  defines "rb \<equiv> net_handle_eth_frame ptb memb frame (of_nat (length frame)) b"
  assumes "transmits pt (n_iobase a) sent" "n_ready a" "n_iobase a \<noteq> 0" "n_tx_slot a < 4" "length (n_mac a) = 6" "n_arp_valid a \<longrightarrow> length (n_arp_mac a) = 6"
    "length payload \<le> 1200" "n_ip b \<noteq> n_ip a" "n_ip b \<noteq> 0x7F000001" "n_ip b \<noteq> BROADCAST" "n_loss b = 0" "n_reorder b = 0" "\<not> uh_valid (n_hold b)"
    "udp_find_binding dst_port b = Some j" "ring_wf UDP_QUEUE_DEPTH (ub_queue (n_udp b ! j))" "r_count (ub_queue (n_udp b ! j)) < UDP_QUEUE_DEPTH"
  shows "fst sa \<and> fst rb \<and> arp_cache_lookup (n_ip a) (snd rb) = Some (n_mac a) \<and> ring_items UDP_QUEUE_DEPTH (ub_queue (n_udp (snd rb) ! j)) =
      ring_items UDP_QUEUE_DEPTH (ub_queue (n_udp b ! j)) @ [\<lparr>up_src_ip = n_ip a, up_src_port = src_port, up_data = payload\<rparr>] \<and>
    (r_count (ub_queue (n_udp b ! j)) = 0 \<longrightarrow> fst (net_udp_recv dst_port 1200 (snd rb)) = Some (payload, n_ip a, src_port))"
proof -
  let ?n = "length payload" and ?udp = "udp_bytes src_port dst_port payload"
  obtain m where m: "length m = 6" "fst sa" "frame = ip_frame m (n_mac a) (n_ip a) (n_ip b) IP_PROTO_UDP 64 (n_ident a) 0 ?udp"
    using udp_sent [OF assms(4-13), of mem src_port dst_port] unfolding sa_def frame_def by auto
  let ?b1 = "on_frame (length frame) (n_ip a) (n_mac a) b" and ?t = "20 + of_nat (length ?udp) :: u16"
  define h where "h = ipv4_header_sum ?t (n_ident a) 0 64 IP_PROTO_UDP (n_ip a) (n_ip b)"
  obtain pad where d: "rb = net_deliver_ipv4 ptb memb (h @ ?udp @ pad) 20 ?t IP_PROTO_UDP (n_ip a) (n_ip b) ?b1"
    using frame_delivered [OF m(1) assms(8) _ m(3), of ptb memb] assms(10) unfolding rb_def h_def by auto
  have "unat (8 + of_nat ?n :: u16) = 8 + ?n" using assms(10) by (simp add: unat_word_ariths unat_of_nat take_bit_nat_eq_self)
  then have l: "\<not> (8 + of_nat ?n :: u16) < 8" "?t - 20 = 8 + of_nat ?n" by (simp_all add: word_less_nat_alt)
  have "length h = 20" by (simp add: h_def)
  then have "rb = net_handle_udp_datagram (n_ip a) (n_ip b) (?udp @ pad) (8 + of_nat ?n) ?b1"
    unfolding d net_deliver_ipv4_def Let_def l(2) using l(1) by simp
  then have rb: "rb = udp_enqueue_packet dst_port (n_ip a) src_port payload ?b1" using assms(10,14-16) by (simp add: udp_handled)
  have f: "udp_find_binding dst_port ?b1 = Some j" using assms(17) by (simp add: udp_find_binding_def)
  define q where "q = ub_queue (n_udp (snd rb) ! j)"
  have q: "fst rb" "ring_wf UDP_QUEUE_DEPTH q" "udp_find_binding dst_port (snd rb) = Some j" "ring_items UDP_QUEUE_DEPTH q =
      ring_items UDP_QUEUE_DEPTH (ub_queue (n_udp b ! j)) @ [\<lparr>up_src_ip = n_ip a, up_src_port = src_port, up_data = payload\<rparr>]"
    using udp_queued [OF f _ _ assms(10) rb q_def] assms(18,19) by auto
  have "arp_cache_lookup (n_ip a) (snd rb) = Some (n_mac a)"
    using assms(8) f by (simp add: rb udp_enqueue_packet_def split_beta Let_def upd_binding_def arp_cache_lookup_def)
  moreover have "fst (net_udp_recv dst_port 1200 (snd rb)) = Some (payload, n_ip a, src_port)" if "r_count (ub_queue (n_udp b ! j)) = 0"
  proof -
    have i: "ring_items UDP_QUEUE_DEPTH q = [\<lparr>up_src_ip = n_ip a, up_src_port = src_port, up_data = payload\<rparr>]"
      using q(4) that by (simp add: ring_items_empty [THEN iffD2])
    then have c: "r_count q = 1" by (metis length_ring_items One_nat_def length_Cons list.size(3))
    then have "fst (ring_pop UDP_QUEUE_DEPTH q) = \<lparr>up_src_ip = n_ip a, up_src_port = src_port, up_data = payload\<rparr>" using ring_pop_items [OF q(2)] i by simp
    then show ?thesis using q(3) c assms(10) unfolding q_def by (simp add: net_udp_recv_def split_beta)
  qed
  ultimately show ?thesis using m(2) q(1,4) by (simp add: q_def)
qed

lemma wire_send:
  "p \<in> {0xC010, 0xC014, 0xC018, 0xC01C} \<Longrightarrow> unat len = length bs \<Longrightarrow>
    w_sent (p_outl wire_ports p len (p_outl wire_ports (p + 0x10) addr (dma_store wire_ports addr bs h))) = w_sent h @ [bs]"
  by (auto simp: wire_ports_def wire_outl_def)

lemma wire_transmits: "transmits wire_ports 0xC000 w_sent"
  unfolding transmits_def
proof (intro allI impI)
  fix slot :: nat and addr len :: u32 and bs :: "u8 list" and h :: wire
  assume "slot < 4" and l: "unat len = length bs"
  then consider "slot = 0" | "slot = 1" | "slot = 2" | "slot = 3" by linarith
  then have "ucast (0xC000 + (0x10 + of_nat slot * 4) :: u32) \<in> {0xC010 :: u16, 0xC014, 0xC018, 0xC01C}"
    "ucast (0xC000 + (0x20 + of_nat slot * 4) :: u32) = (ucast (0xC000 + (0x10 + of_nat slot * 4) :: u32) + 0x10 :: u16)"
    by (cases; simp)+
  from wire_send [OF this(1) l] this(2)
  show "w_sent (p_outl wire_ports (ucast (0xC000 + (0x10 + of_nat slot * 4) :: u32)) len
      (p_outl wire_ports (ucast (0xC000 + (0x20 + of_nat slot * 4) :: u32)) addr (dma_store wire_ports addr bs h))) = w_sent h @ [bs]" by metis
qed

definition wire_bound :: "u32 \<Rightarrow> u16 \<Rightarrow> wire net" where
  "wire_bound ip port = snd (net_udp_bind port (wire_host ip))"

lemma wire_bound_fields:
  "n_ip (wire_bound ip port) = ip" "n_loss (wire_bound ip port) = 0" "n_reorder (wire_bound ip port) = 0" "\<not> uh_valid (n_hold (wire_bound ip port))"
  by (simp_all add: wire_bound_def net_udp_bind_def udp_alloc_binding_def udp_find_binding_def upd_binding_def wire_host_def net0_def Let_def split: option.split)

lemma wire_bound_binding:
  assumes "port \<noteq> 0"
  shows "udp_find_binding port (wire_bound ip port) = Some 0" "ring_wf UDP_QUEUE_DEPTH (ub_queue (n_udp (wire_bound ip port) ! 0))"
    "r_count (ub_queue (n_udp (wire_bound ip port) ! 0)) = 0"
proof -
  have r: "replicate UDP_MAX_BINDINGS binding0 = binding0 # replicate 15 binding0" by (simp add: numeral_nat)
  have "find_slot (\<lambda>b. ub_used b \<and> ub_port b = port) (replicate UDP_MAX_BINDINGS binding0) = None" by (simp add: find_slot_None binding0_def)
  moreover have "find_slot (\<lambda>b. \<not> ub_used b) (replicate UDP_MAX_BINDINGS binding0) = Some 0" unfolding r by (simp add: binding0_def)
  moreover have "n_udp (wire_host ip) = replicate UDP_MAX_BINDINGS binding0" by (simp add: wire_host_def net0_def)
  ultimately have b: "n_udp (wire_bound ip port) = binding_reset True port binding0 # replicate 15 binding0"
    using assms by (simp add: wire_bound_def net_udp_bind_def udp_alloc_binding_def udp_find_binding_def upd_binding_def r)
  show "udp_find_binding port (wire_bound ip port) = Some 0" "ring_wf UDP_QUEUE_DEPTH (ub_queue (n_udp (wire_bound ip port) ! 0))"
    "r_count (ub_queue (n_udp (wire_bound ip port) ! 0)) = 0"
    by (simp_all add: udp_find_binding_def b binding_reset_def binding0_def ring_init_def ring_wf_def)
qed

lemma udp_end_to_end_witness:
  "let frame = last (w_sent (n_hw (snd (net_udp_send wire_ports wire_mem 0x0A000002 5000 7000 (Some [1, 2, 3]) (wire_host 0x0A000001)))));
     b1 = snd (net_handle_eth_frame wire_ports wire_mem frame (of_nat (length frame)) (wire_bound 0x0A000002 7000))
   in fst (net_udp_recv 7000 1200 b1) = Some ([1, 2, 3], 0x0A000001, 5000)"
proof -
  note f = wire_bound_fields [of "0x0A000002" 7000] wire_bound_binding [of 7000 "0x0A000002"] wire_transmits
  have h: "n_iobase (wire_host 0x0A000001) = 0xC000" "n_ready (wire_host 0x0A000001)" "n_tx_slot (wire_host 0x0A000001) = 0" "length (n_mac (wire_host 0x0A000001)) = 6"
    "\<not> n_arp_valid (wire_host 0x0A000001)" "n_ip (wire_host 0x0A000001) = 0x0A000001" by (simp_all add: wire_host_def net0_def)
  show ?thesis
    using udp_end_to_end [where a = "wire_host 0x0A000001" and b = "wire_bound 0x0A000002 7000" and pt = wire_ports and sent = w_sent and payload = "[1, 2, 3]"
      and dst_port = 7000 and src_port = 5000 and j = 0 and mem = wire_mem and ptb = wire_ports and memb = wire_mem] by (simp add: f h Let_def)
qed

end
