(* ===== verification/NetStream.thy ===== *)
theory NetStream
  imports NetPath
begin

text \<open>
  The receiving end of a TCP connection as a stream: whatever segments of the peer's stream arrive, in whatever order and however often, the bytes that the
  application reads are a prefix of what the peer sent.
\<close>

section \<open>Segments of a stream\<close>

text \<open>A segment carries \<open>sg_len\<close> bytes of the stream from \<open>sg_off\<close>; the first byte of the stream has sequence number \<open>isn\<close>.\<close>

record stream_seg =
  sg_off :: nat
  sg_len :: nat
  sg_ack :: u32
  sg_flags :: u8
  sg_ident :: u16

definition seg_data :: "u8 list \<Rightarrow> stream_seg \<Rightarrow> u8 list" where
  "seg_data xs e = take (sg_len e) (drop (sg_off e) xs)"

text \<open>The ends of a connection, seen from the receiver.\<close>

record ends =
  en_ip :: u32
  en_port :: u16
  en_my_ip :: u32
  en_my_port :: u16
  en_isn :: u32

definition seg_bytes :: "ends \<Rightarrow> u8 list \<Rightarrow> stream_seg \<Rightarrow> u8 list" where
  "seg_bytes en xs e = (let seg = (\<lambda>c. tcp_segment (en_port en) (en_my_port en) (en_isn en + of_nat (sg_off e)) (sg_ack e) (sg_flags e) c (seg_data xs e))
     in seg (internet_checksum (tcp_pseudo (en_ip en) (en_my_ip en) IP_PROTO_TCP (seg 0))))"

definition seg_frame :: "u8 list \<Rightarrow> u8 list \<Rightarrow> ends \<Rightarrow> u8 list \<Rightarrow> stream_seg \<Rightarrow> u8 list" where
  "seg_frame dst_mac src_mac en xs e = ip_frame dst_mac src_mac (en_ip en) (en_my_ip en) IP_PROTO_TCP 64 (sg_ident e) 0 (seg_bytes en xs e)"

text \<open>Segments of data or bare acknowledgements, with no end of the stream and no reset, of a size that the peer may send.\<close>

definition seg_plain :: "u8 list \<Rightarrow> stream_seg \<Rightarrow> bool" where
  "seg_plain xs e \<longleftrightarrow> sg_flags e AND TCP_FLAG_RST = 0 \<and> sg_flags e AND TCP_FLAG_FIN = 0 \<and> length (seg_data xs e) \<le> 1300"

lemma length_seg_bytes [simp]: "length (seg_bytes en xs e) = 20 + length (seg_data xs e)"
  by (simp add: seg_bytes_def Let_def)

lemma tcp_fields:
  fixes src_port dst_port csum :: u16 and sq ack :: u32 and flags :: u8 and payload pad :: "u8 list"
  defines "tcp \<equiv> tcp_segment src_port dst_port sq ack flags csum payload @ pad"
  shows "read_be16 tcp 0 = src_port" "read_be16 tcp 2 = dst_port" "read_be32 tcp 4 = sq" "read_be32 tcp 8 = ack" "tcp ! 12 = 0x50" "tcp ! 13 = flags" "drop 20 tcp = payload @ pad"
proof -
  have a: "tcp = write_be16 src_port @ write_be16 dst_port @ write_be32 sq @ write_be32 ack @ [0x50, flags] @ write_be16 4096 @ write_be16 csum @ write_be16 0 @ payload @ pad"
    by (simp add: tcp_def tcp_segment_def)
  show "read_be16 tcp 0 = src_port" "read_be16 tcp 2 = dst_port" "read_be32 tcp 4 = sq" "read_be32 tcp 8 = ack" "drop 20 tcp = payload @ pad"
    unfolding a by (simp_all add: read_be del: append_Cons append_Nil)
  show "tcp ! 12 = 0x50" "tcp ! 13 = flags" unfolding a by (simp_all add: nth_append)
qed

section \<open>A segment on an open connection\<close>

definition open_conn :: "ends \<Rightarrow> nat \<Rightarrow> 'h net \<Rightarrow> bool" where
  "open_conn en i s \<longleftrightarrow> n_ip s = en_my_ip en \<and> n_loss s = 0 \<and> length (n_tcp s) = TCP_MAX_CONNS \<and> tcp_find_conn (en_ip en) (en_port en) (en_my_port en) s = Some i \<and>
     tc_state (conn s i) = TCP_ESTABLISHED"

definition take_segment :: "ends \<Rightarrow> u8 list \<Rightarrow> stream_seg \<Rightarrow> tcp_conn \<Rightarrow> tcp_conn" where
  "take_segment en xs e c = (let c1 = tcp_take_ack (sg_flags e) (sg_ack e) c
     in if seg_data xs e \<noteq> [] then tcp_take_data (en_isn en + of_nat (sg_off e)) (seg_data xs e) c1 else c1)"

lemma on_open_plain:
  assumes "flags AND TCP_FLAG_FIN = 0" "n_loss s = 0" "s' = snd (tcp_on_open pt mem i flags sq ack payload s)" "i < length (n_tcp s)"
  shows "n_tcp s' = (n_tcp s)[i := (let c1 = tcp_take_ack flags ack (conn s i) in if payload \<noteq> [] then tcp_take_data sq payload c1 else c1)] \<and> n_loss s' = 0 \<and> n_ip s' = n_ip s"
proof -
  let ?s1 = "upd_conn i (tcp_take_ack flags ack) s"
  have l: "n_loss ?s1 = 0" using assms(2) by (simp add: upd_conn_def)
  have "s' = (if payload \<noteq> [] then send_ack pt mem i (upd_conn i (tcp_take_data sq payload) ?s1) else ?s1)"
    unfolding assms(3) tcp_on_open_def Let_def using assms(1) l by (simp add: net_fault_should_apply_def)
  then show ?thesis using assms(2,4) by (cases "payload = []") (simp_all add: sends_fields [OF sends_ack] upd_conn_def Let_def)
qed

lemma find_conn_same:
  assumes "tcp_find_conn ip rp lp s = Some i" "n_tcp s' = (n_tcp s)[i := c]"
    "tc_used c = tc_used (conn s i)" "tc_listening c = tc_listening (conn s i)" "tc_remote_ip c = tc_remote_ip (conn s i)"
    "tc_remote_port c = tc_remote_port (conn s i)" "tc_local_port c = tc_local_port (conn s i)" "tc_state c = tc_state (conn s i)"
  shows "tcp_find_conn ip rp lp s' = Some i"
  using find_slot_SomeD [OF assms(1) [unfolded tcp_find_conn_def]] unfolding tcp_find_conn_def assms(2)
  by (intro find_slot_SomeI) (auto simp: assms(3-8))

lemma take_segment_keeps:
  "tc_used (take_segment en xs e c) = tc_used c" "tc_listening (take_segment en xs e c) = tc_listening c" "tc_remote_ip (take_segment en xs e c) = tc_remote_ip c"
  "tc_remote_port (take_segment en xs e c) = tc_remote_port c" "tc_local_port (take_segment en xs e c) = tc_local_port c" "tc_state (take_segment en xs e c) = tc_state c"
  by (simp_all add: take_segment_def tcp_take_ack_def tcp_take_data_def tcp_queue_rx_def Let_def)

lemma segment_handled:
  assumes "open_conn en i s" "seg_plain xs e" "length dst_mac = 6" "length src_mac = 6" "frame = seg_frame dst_mac src_mac en xs e"
    "s' = snd (net_handle_eth_frame pt mem frame (of_nat (length frame)) s)"
  shows "open_conn en i s' \<and> conn s' i = take_segment en xs e (conn s i)"
proof -
  let ?d = "seg_data xs e" and ?b = "seg_bytes en xs e"
  define s1 where "s1 = on_frame (length frame) (en_ip en) src_mac s"
  note o = assms(1) [unfolded open_conn_def]
  have d: "length ?d \<le> 1300" using assms(2) by (simp add: seg_plain_def)
  define h where "h = ipv4_header_sum (20 + of_nat (length ?b)) (sg_ident e) 0 64 IP_PROTO_TCP (en_ip en) (en_my_ip en)"
  define t where "t = (20 + of_nat (length ?b) :: u16)"
  have fr: "frame = ip_frame dst_mac src_mac (en_ip en) (n_ip s) IP_PROTO_TCP 64 (sg_ident e) 0 ?b" using o by (simp add: assms(5) seg_frame_def)
  have b: "length ?b \<le> 1480" using d by simp
  obtain pad where p: "net_handle_eth_frame pt mem frame (of_nat (length frame)) s =
      net_deliver_ipv4 pt mem (h @ ?b @ pad) 20 t IP_PROTO_TCP (en_ip en) (en_my_ip en) s1"
    using frame_delivered [OF assms(3,4) b fr, of pt mem] o unfolding h_def s1_def t_def by auto
  define csum where "csum = internet_checksum (tcp_pseudo (en_ip en) (en_my_ip en) IP_PROTO_TCP
    (tcp_segment (en_port en) (en_my_port en) (en_isn en + of_nat (sg_off e)) (sg_ack e) (sg_flags e) 0 ?d))"
  have bs: "?b = tcp_segment (en_port en) (en_my_port en) (en_isn en + of_nat (sg_off e)) (sg_ack e) (sg_flags e) csum ?d" by (simp add: seg_bytes_def csum_def)
  note tf = tcp_fields [where src_port = "en_port en" and dst_port = "en_my_port en" and sq = "en_isn en + of_nat (sg_off e)" and ack = "sg_ack e" and flags = "sg_flags e"
      and csum = csum and payload = ?d and pad = pad, folded bs]
  have dr: "drop 20 ?b = ?d" unfolding bs by (simp add: tcp_segment_def)
  have v: "tcp_checksum_valid (en_ip en) (en_my_ip en) (?b @ pad) (of_nat (length ?b))" using tcp_segment_verifies [OF d bs [unfolded csum_def]] .
  have u: "unat (of_nat (20 + length ?d) :: u16) = 20 + length ?d" using d by (simp add: unat_word_ariths unat_of_nat take_bit_nat_eq_self)
  have l: "\<not> (of_nat (length ?b) :: u16) < 20" "t - 20 = of_nat (length ?b)" using u by (simp_all add: word_less_nat_alt t_def)
  have f: "tcp_find_conn (en_ip en) (en_port en) (en_my_port en) s1 = Some i" using o by (simp add: s1_def tcp_find_conn_def)
  have "length h = 20" by (simp add: h_def)
  then have "net_deliver_ipv4 pt mem (h @ ?b @ pad) 20 t IP_PROTO_TCP (en_ip en) (en_my_ip en) s1 =
      net_handle_tcp_segment pt mem (en_ip en) (en_my_ip en) (?b @ pad) (of_nat (length ?b)) s1"
    unfolding net_deliver_ipv4_def Let_def l(2) using l(1) o by (simp add: s1_def)
  also have "\<dots> = tcp_on_conn pt mem i (sg_flags e) (en_isn en + of_nat (sg_off e)) (sg_ack e) ?d s1"
    unfolding net_handle_tcp_segment_def using v l(1) f u by (simp add: Let_def tf dr)
  also have "\<dots> = tcp_on_open pt mem i (sg_flags e) (en_isn en + of_nat (sg_off e)) (sg_ack e) ?d s1"
    using assms(2) o by (simp add: tcp_on_conn_def seg_plain_def s1_def)
  finally have s': "s' = snd (tcp_on_open pt mem i (sg_flags e) (en_isn en + of_nat (sg_off e)) (sg_ack e) ?d s1)" by (simp add: assms(6) p)
  have i: "i < length (n_tcp s1)" using f unfolding tcp_find_conn_def by blast
  have r: "n_tcp s' = (n_tcp s1)[i := take_segment en xs e (conn s1 i)]" "n_loss s' = 0" "n_ip s' = n_ip s1"
    using on_open_plain [OF _ _ s' i] assms(2) o by (simp_all add: seg_plain_def take_segment_def s1_def)
  have "tcp_find_conn (en_ip en) (en_port en) (en_my_port en) s' = Some i" by (rule find_conn_same [OF f r(1)]) (simp_all add: take_segment_keeps)
  then show ?thesis using r i o by (simp add: open_conn_def take_segment_keeps s1_def)
qed

section \<open>The stream\<close>

text \<open>
  The specification: the receiver has \<open>k\<close> bytes of the stream, in a queue of at most 16 segments behind what has left the queue (\<open>gone\<close>). A segment that starts at
  \<open>k\<close> is taken when there is room for it; every other one is ignored. A read takes the first segment off the queue and delivers as much of it as the caller's
  buffer holds; the rest of the segment is lost.
\<close>

datatype stream_op = Arrive stream_seg | Read u16

type_synonym stream_state = "nat \<times> u8 list list \<times> u8 list \<times> u8 list"

fun stream_spec :: "u8 list \<Rightarrow> stream_op \<Rightarrow> stream_state \<Rightarrow> stream_state" where
  "stream_spec xs (Arrive e) (k, q, gone, out) =
     (let d = seg_data xs e in if d \<noteq> [] \<and> sg_off e = k \<and> length d \<le> TCP_MAX_PAYLOAD \<and> length q < TCP_QUEUE_DEPTH then (k + length d, q @ [d], gone, out) else (k, q, gone, out))"
| "stream_spec xs (Read n) (k, q, gone, out) =
     (case q of [] \<Rightarrow> (k, [], gone, out) | d # q' \<Rightarrow> if n = 0 then (k, q, gone, out) else (k, q', gone @ d, out @ take (unat n) d))"

text \<open>Reads that lose nothing: the buffer holds the largest segment.\<close>

definition reads_whole :: "stream_op \<Rightarrow> bool" where
  "reads_whole op \<longleftrightarrow> (case op of Arrive e \<Rightarrow> True | Read n \<Rightarrow> unat n \<ge> TCP_MAX_PAYLOAD)"

lemma stream_spec_prefix:
  assumes "gone @ concat q = take k xs" "k \<le> length xs" "stream_spec xs op (k, q, gone, out) = (k', q', gone', out')"
  shows "gone' @ concat q' = take k' xs \<and> k' \<le> length xs"
proof (cases op)
  case (Arrive e)
  have "gone @ concat q @ seg_data xs e = take (k + length (seg_data xs e)) xs" if "sg_off e = k"
  proof -
    have "take k xs @ seg_data xs e = take (k + length (seg_data xs e)) xs" using that by (simp add: seg_data_def take_add [symmetric] min_def)
    then show ?thesis using assms(1) append_assoc by metis
  qed
  moreover have "k + length (seg_data xs e) \<le> length xs" if "sg_off e = k" using that assms(2) by (simp add: seg_data_def)
  ultimately show ?thesis using assms Arrive by (auto simp: Let_def split: if_splits)
next
  case (Read n)
  then show ?thesis using assms by (cases q) (auto split: if_splits)
qed

lemma stream_spec_whole:
  assumes "list_all (\<lambda>d. length d \<le> TCP_MAX_PAYLOAD) q" "reads_whole op" "stream_spec xs op (k, q, gone, gone) = (k', q', gone', out')"
  shows "out' = gone'"
  using assms by (cases op; cases q) (auto simp: Let_def reads_whole_def split: if_splits)

text \<open>The model under the same operations: frames that arrive, and reads.\<close>

fun stream_run :: "'h ports \<Rightarrow> rtl_mem \<Rightarrow> u8 list \<Rightarrow> u8 list \<Rightarrow> ends \<Rightarrow> nat \<Rightarrow> u8 list \<Rightarrow> stream_op \<Rightarrow> 'h net \<times> u8 list \<Rightarrow> 'h net \<times> u8 list" where
  "stream_run pt mem dst_mac src_mac en i xs (Arrive e) (s, out) =
     (let frame = seg_frame dst_mac src_mac en xs e in (snd (net_handle_eth_frame pt mem frame (of_nat (length frame)) s), out))"
| "stream_run pt mem dst_mac src_mac en i xs (Read n) (s, out) = (let (d, s') = net_tcp_recv (int i) n s in (s', out @ d))"

definition stream_rel :: "ends \<Rightarrow> nat \<Rightarrow> 'h net \<times> u8 list \<Rightarrow> stream_state \<Rightarrow> bool" where
  "stream_rel en i = (\<lambda>(s, out) (k, q, gone, out'). open_conn en i s \<and> tc_rcv_nxt (conn s i) = en_isn en + of_nat k \<and> ring_wf TCP_QUEUE_DEPTH (tc_rx (conn s i)) \<and>
     ring_items TCP_QUEUE_DEPTH (tc_rx (conn s i)) = q \<and> list_all (\<lambda>d. length d \<le> TCP_MAX_PAYLOAD) q \<and> out = out')"

lemma take_segment_rel:
  assumes "tc_rcv_nxt c = en_isn en + of_nat k" "ring_wf TCP_QUEUE_DEPTH (tc_rx c)" "k \<le> length xs" "length xs < 2 ^ 32" "c' = take_segment en xs e c"
    "stream_spec xs (Arrive e) (k, ring_items TCP_QUEUE_DEPTH (tc_rx c), gone, out) = (k', q', gone', out')"
  shows "tc_rcv_nxt c' = en_isn en + of_nat k' \<and> ring_wf TCP_QUEUE_DEPTH (tc_rx c') \<and> ring_items TCP_QUEUE_DEPTH (tc_rx c') = q' \<and> out' = out"
proof -
  let ?d = "seg_data xs e"
  have eq: "(of_nat (sg_off e) :: u32) = of_nat k \<longleftrightarrow> sg_off e = k" if "?d \<noteq> []"
  proof -
    have "sg_off e < 2 ^ 32" using that assms(4) by (simp add: seg_data_def)
    then show ?thesis using assms(3,4) by (simp add: word_of_nat_eq_iff take_bit_nat_eq_self)
  qed
  have a: "tc_rcv_nxt (tcp_take_ack f ak c) = tc_rcv_nxt c" "tc_rx (tcp_take_ack f ak c) = tc_rx c" for f ak by (simp_all add: tcp_take_ack_def)
  show ?thesis
  proof (cases "?d \<noteq> [] \<and> sg_off e = k \<and> length ?d \<le> TCP_MAX_PAYLOAD \<and> r_count (tc_rx c) < TCP_QUEUE_DEPTH")
    case True
    then have "tc_rx c' = ring_push TCP_QUEUE_DEPTH ?d (tc_rx c)" "tc_rcv_nxt c' = tc_rcv_nxt c + of_nat (length ?d)"
      using assms(1,5) by (simp_all add: take_segment_def Let_def tcp_take_data_def tcp_queue_rx_def a)
    then show ?thesis using True assms(1,2,6) ring_push_wf [OF assms(2), of ?d] ring_push_items [OF assms(2), of ?d] by (auto simp: Let_def)
  next
    case False
    then have "tc_rx c' = tc_rx c" "tc_rcv_nxt c' = tc_rcv_nxt c"
      using assms(1,5) eq by (auto simp: take_segment_def Let_def tcp_take_data_def tcp_queue_rx_def a)
    moreover have "k' = k" "q' = ring_items TCP_QUEUE_DEPTH (tc_rx c)" "out' = out" using assms(6) False by (auto simp: Let_def split: if_splits)
    ultimately show ?thesis using assms(1,2) by simp
  qed
qed

lemma stream_spec_sizes:
  "list_all (\<lambda>d. length d \<le> TCP_MAX_PAYLOAD) q \<Longrightarrow> stream_spec xs op (k, q, gone, out) = (k', q', gone', out') \<Longrightarrow> list_all (\<lambda>d. length d \<le> TCP_MAX_PAYLOAD) q'"
  by (cases op; cases q) (auto simp: Let_def split: if_splits)

lemma recv_rel:
  assumes "stream_rel en i (s, out) (k, q, gone, out)"
  shows "stream_rel en i (stream_run pt mem dst_mac src_mac en i xs (Read m) (s, out)) (stream_spec xs (Read m) (k, q, gone, out))"
proof -
  let ?c = "conn s i"
  have o: "open_conn en i s" "ring_wf TCP_QUEUE_DEPTH (tc_rx ?c)" "ring_items TCP_QUEUE_DEPTH (tc_rx ?c) = q" "list_all (\<lambda>d. length d \<le> TCP_MAX_PAYLOAD) q"
    using assms by (simp_all add: stream_rel_def)
  then have f: "tcp_find_conn (en_ip en) (en_port en) (en_my_port en) s = Some i" "length (n_tcp s) = TCP_MAX_CONNS" by (simp_all add: open_conn_def)
  from find_slot_SomeD [OF f(1) [unfolded tcp_find_conn_def]] have i: "i < TCP_MAX_CONNS" "tc_used ?c" "\<not> tc_listening ?c" using f(2) by auto
  have ok: "conn_ok (int i)" using i(1) by (simp add: conn_ok_def)
  show ?thesis
  proof (cases "q = [] \<or> m = 0")
    case True
    then show ?thesis
    proof
      assume e: "q = []"
      then have "r_count (tc_rx ?c) = 0" using o(3) by (simp add: ring_items_empty)
      then show ?thesis using assms e by (simp add: net_tcp_recv_def)
    qed (use assms in \<open>cases q; simp add: net_tcp_recv_def\<close>)
  next
    case False
    then obtain d q' where Cons: "q = d # q'" and m0: "m \<noteq> 0" by (cases q) auto
    then have n: "0 < r_count (tc_rx ?c)" using o(3) by (metis length_ring_items length_greater_0_conv list.distinct(1))
    define r where "r = ring_pop TCP_QUEUE_DEPTH (tc_rx ?c)"
    have r: "fst r = d" "ring_items TCP_QUEUE_DEPTH (snd r) = q'" "ring_wf TCP_QUEUE_DEPTH (snd r)"
      using ring_pop_items [OF o(2) n] ring_pop_wf [OF o(2) n] o(3) Cons by (simp_all add: r_def)
    define s' where "s' = upd_conn i (\<lambda>c. c\<lparr>tc_rx := snd r\<rparr>) s"
    have "net_tcp_recv (int i) m s = (take (unat m) d, s')" using ok i n r(1) m0 by (simp add: net_tcp_recv_def split_beta r_def [symmetric] s'_def)
    moreover have "tcp_find_conn (en_ip en) (en_port en) (en_my_port en) s' = Some i"
      by (rule find_conn_same [OF f(1), where c = "?c\<lparr>tc_rx := snd r\<rparr>"]) (simp_all add: s'_def upd_conn_def)
    moreover have "n_tcp s' = (n_tcp s)[i := ?c\<lparr>tc_rx := snd r\<rparr>]" "n_ip s' = n_ip s" "n_loss s' = n_loss s" by (simp_all add: s'_def upd_conn_def)
    ultimately show ?thesis using assms i(1) f(2) r Cons m0 by (simp add: stream_rel_def open_conn_def)
  qed
qed

lemma arrive_rel:
  assumes "stream_rel en i (s, out) (k, q, gone, out)" "seg_plain xs e" "length dst_mac = 6" "length src_mac = 6" "k \<le> length xs" "length xs < 2 ^ 32"
  shows "stream_rel en i (stream_run pt mem dst_mac src_mac en i xs (Arrive e) (s, out)) (stream_spec xs (Arrive e) (k, q, gone, out))"
proof -
  obtain k' q' gone' out' where sp: "stream_spec xs (Arrive e) (k, q, gone, out) = (k', q', gone', out')" by (metis surj_pair)
  have o: "open_conn en i s" "tc_rcv_nxt (conn s i) = en_isn en + of_nat k" "ring_wf TCP_QUEUE_DEPTH (tc_rx (conn s i))" "ring_items TCP_QUEUE_DEPTH (tc_rx (conn s i)) = q"
    "list_all (\<lambda>d. length d \<le> TCP_MAX_PAYLOAD) q" using assms(1) by (simp_all add: stream_rel_def)
  define frame where "frame = seg_frame dst_mac src_mac en xs e"
  define s' where "s' = snd (net_handle_eth_frame pt mem frame (of_nat (length frame)) s)"
  have h: "open_conn en i s'" "conn s' i = take_segment en xs e (conn s i)" using segment_handled [OF o(1) assms(2-4) frame_def s'_def] by simp_all
  have "stream_run pt mem dst_mac src_mac en i xs (Arrive e) (s, out) = (s', out)" by (simp add: Let_def frame_def s'_def)
  then show ?thesis unfolding sp using take_segment_rel [OF o(2,3) assms(5,6) h(2), unfolded o(4), OF sp] h(1) stream_spec_sizes [OF o(5) sp]
    by (simp add: stream_rel_def)
qed

definition ops_plain :: "u8 list \<Rightarrow> stream_op list \<Rightarrow> bool" where
  "ops_plain xs ops \<longleftrightarrow> list_all (\<lambda>op. case op of Arrive e \<Rightarrow> seg_plain xs e | Read n \<Rightarrow> True) ops"

lemma stream_fold_rel:
  assumes "ops_plain xs ops" "length dst_mac = 6" "length src_mac = 6" "length xs < 2 ^ 32" "stream_rel en i (s, out) (k, q, gone, out)" "k \<le> length xs"
    "gone @ concat q = take k xs"
  shows "stream_rel en i (fold (stream_run pt mem dst_mac src_mac en i xs) ops (s, out)) (fold (stream_spec xs) ops (k, q, gone, out)) \<and>
    (case fold (stream_spec xs) ops (k, q, gone, out) of (k', q', gone', out') \<Rightarrow> gone' @ concat q' = take k' xs \<and> k' \<le> length xs \<and>
      (out = gone \<and> list_all reads_whole ops \<longrightarrow> out' = gone'))"
  using assms(1,5-7)
proof (induction ops arbitrary: s out k q gone)
  case Nil
  then show ?case by simp
next
  case (Cons op ops)
  obtain k1 q1 g1 out1 where sp: "stream_spec xs op (k, q, gone, out) = (k1, q1, g1, out1)" by (metis surj_pair)
  obtain s1 o1 where ru: "stream_run pt mem dst_mac src_mac en i xs op (s, out) = (s1, o1)" by (metis surj_pair)
  have "stream_rel en i (stream_run pt mem dst_mac src_mac en i xs op (s, out)) (stream_spec xs op (k, q, gone, out))"
    using Cons.prems assms(2-4) by (cases op) (auto simp: ops_plain_def simp del: stream_run.simps stream_spec.simps intro: recv_rel arrive_rel)
  then have r: "stream_rel en i (s1, out1) (k1, q1, g1, out1)" "o1 = out1" by (simp_all add: sp ru stream_rel_def)
  have z: "list_all (\<lambda>d. length d \<le> TCP_MAX_PAYLOAD) q" using Cons.prems(2) by (simp add: stream_rel_def)
  have w: "out1 = g1" if "out = gone" "reads_whole op" using stream_spec_whole [OF z that(2), of xs k gone] sp that(1) by simp
  from stream_spec_prefix [OF Cons.prems(4,3) sp] Cons.IH [OF _ r(1)] Cons.prems(1) w show ?case by (auto simp: sp ru r(2) ops_plain_def split: prod.splits)
qed

text \<open>
  C6. The receiving end of an established TCP connection refines a specification of a stream. Frames with segments of the peer's stream arrive in any order, with
  gaps, overlaps and repetitions, between reads of the application with buffers of any size; no segment carries FIN or RST, and no loss is injected. The connection
  behaves exactly as the specification that takes a segment only when it is the next one and there is room, and loses what is left of a segment when the buffer of
  the read is too small: what has left the queue, followed by what is queued, is always a prefix of the stream, and the next sequence number expected is the one
  behind it. When every buffer holds a segment of the largest size (1200 bytes), what the application has read is what has left the queue: then nothing is
  lost, repeated or reordered. Checksums, headers and padding of every frame are parsed on the way.
\<close>

theorem tcp_stream_in_order:
  assumes "ops_plain xs ops" "length dst_mac = 6" "length src_mac = 6" "length xs < 2 ^ 32" "open_conn en i s" "tc_rcv_nxt (conn s i) = en_isn en"
    "ring_wf TCP_QUEUE_DEPTH (tc_rx (conn s i))" "r_count (tc_rx (conn s i)) = 0"
    "fold (stream_run pt mem dst_mac src_mac en i xs) ops (s, []) = (s', out)" "fold (stream_spec xs) ops (0, [], [], []) = (k, q, gone, out')"
  shows "out = out' \<and> ring_items TCP_QUEUE_DEPTH (tc_rx (conn s' i)) = q \<and> tc_rcv_nxt (conn s' i) = en_isn en + of_nat k \<and> tc_state (conn s' i) = TCP_ESTABLISHED \<and>
    gone @ concat q = take k xs \<and> (list_all reads_whole ops \<longrightarrow> out = gone)"
proof -
  have "stream_rel en i (s, []) (0, [], [], [])" using assms(5-8) by (simp add: stream_rel_def ring_items_empty)
  from stream_fold_rel [OF assms(1-4) this, of pt mem] assms(9,10) show ?thesis by (simp add: stream_rel_def open_conn_def)
qed

definition wire_ends :: ends where
  "wire_ends = \<lparr>en_ip = 0x0A000002, en_port = 5000, en_my_ip = 0x0A000001, en_my_port = 80, en_isn = 1000\<rparr>"

definition wire_open :: "wire net" where
  "wire_open = (wire_host 0x0A000001)\<lparr>n_tcp := (replicate TCP_MAX_CONNS conn0)[0 := conn0\<lparr>tc_used := True, tc_state := TCP_ESTABLISHED, tc_remote_ip := 0x0A000002,
     tc_remote_port := 5000, tc_local_port := 80, tc_rcv_nxt := 1000\<rparr>]\<rparr>"

definition wire_seg :: "nat \<Rightarrow> stream_op" where
  "wire_seg off = Arrive \<lparr>sg_off = off, sg_len = 2, sg_ack = 0, sg_flags = TCP_FLAG_ACK, sg_ident = 7\<rparr>"

lemma wire_open_conn: "open_conn wire_ends 0 wire_open \<and> tc_rcv_nxt (conn wire_open 0) = 1000 \<and> tc_rx (conn wire_open 0) = ring_init TCP_QUEUE_DEPTH []"
proof -
  have "replicate TCP_MAX_CONNS conn0 = conn0 # replicate 31 conn0" by (simp add: numeral_nat)
  then show ?thesis by (simp add: open_conn_def wire_open_def wire_ends_def wire_host_def net0_def tcp_find_conn_def conn0_def)
qed

text \<open>The second half before the first, the first half twice, then the second half again; a read with room, and one of a single byte.\<close>

lemma tcp_stream_in_order_witness:
  "let run = fold (stream_run wire_ports wire_mem MAC_ALL MAC_ALL wire_ends 0 [1, 2, 3, 4]); arrive = [wire_seg 2, wire_seg 0, wire_seg 0, wire_seg 2];
     r = run (arrive @ [Read 1200]) (wire_open, []); r' = run (arrive @ [Read 1]) (wire_open, [])
   in snd r = [1, 2] \<and> ring_items TCP_QUEUE_DEPTH (tc_rx (conn (fst r) 0)) = [[3, 4]] \<and> tc_rcv_nxt (conn (fst r) 0) = 1004 \<and>
      snd r' = [1] \<and> ring_items TCP_QUEUE_DEPTH (tc_rx (conn (fst r') 0)) = [[3, 4]]"
proof -
  let ?ops = "\<lambda>n. [wire_seg 2, wire_seg 0, wire_seg 0, wire_seg 2] @ [Read n]"
  have sp: "fold (stream_spec [1, 2, 3, 4]) (?ops 1200) (0, [], [], []) = (4, [[3, 4]], [1, 2], [1, 2])"
    "fold (stream_spec [1, 2, 3, 4]) (?ops 1) (0, [], [], []) = (4, [[3, 4]], [1, 2], [1])" by (simp_all add: wire_seg_def seg_data_def)
  have pl: "ops_plain [1, 2, 3, 4] (?ops n)" for n by (simp add: ops_plain_def wire_seg_def seg_plain_def seg_data_def)
  have "en_isn wire_ends = 1000" by (simp add: wire_ends_def)
  then show ?thesis
    using tcp_stream_in_order [OF pl _ _ _ wire_open_conn [THEN conjunct1] _ _ _ prod.collapse [symmetric] sp(1), of MAC_ALL MAC_ALL wire_ports wire_mem]
      tcp_stream_in_order [OF pl _ _ _ wire_open_conn [THEN conjunct1] _ _ _ prod.collapse [symmetric] sp(2), of MAC_ALL MAC_ALL wire_ports wire_mem] wire_open_conn
    unfolding Let_def by (simp del: fold_append append_Cons append_Nil add: ring_init_wf)
qed

end
