(* ===== verification/NetReass.thy ===== *)
theory NetReass
  imports NetPath
begin

text \<open>
  Reassembly of IPv4 fragments: the fragments of a datagram, in any order and with repetitions, give back the datagram when the last missing piece arrives, and
  not before.
\<close>

section \<open>Fragments of a datagram\<close>

record frag =
  fg_off :: nat
  fg_len :: nat
  fg_hdr :: "u8 list"

text \<open>
  A fragment begins at a multiple of eight and is a multiple of eight long unless it is the last one; fragments at offset 0 carry the header \<open>H\<close>.
\<close>

definition frag_ok :: "u8 list \<Rightarrow> u8 list \<Rightarrow> frag \<Rightarrow> bool" where
  "frag_ok H p f \<longleftrightarrow> 8 dvd fg_off f \<and> 0 < fg_len f \<and> fg_off f + fg_len f \<le> length p \<and> (8 dvd fg_len f \<or> fg_off f + fg_len f = length p) \<and> (fg_off f = 0 \<longrightarrow> fg_hdr f = H)"

definition frag_flags :: "u8 list \<Rightarrow> frag \<Rightarrow> u16" where
  "frag_flags p f = of_nat (fg_off f div 8) OR (if fg_off f + fg_len f < length p then 0x2000 else 0)"

definition frag_data :: "u8 list \<Rightarrow> frag \<Rightarrow> u8 list" where
  "frag_data p f = take (fg_len f) (drop (fg_off f) p)"

definition frag_blocks :: "frag \<Rightarrow> nat set" where
  "frag_blocks f = {fg_off f div 8..<(fg_off f + fg_len f + 7) div 8}"

definition all_blocks :: "u8 list \<Rightarrow> nat set" where
  "all_blocks p = {0..<(length p + 7) div 8}"

lemma frag_flags_parts:
  assumes "frag_ok H p f" "length p \<le> 4096"
  shows "(frag_flags p f AND 0x1FFF) * 8 = of_nat (fg_off f)" "frag_flags p f AND 0x2000 \<noteq> 0 \<longleftrightarrow> fg_off f + fg_len f < length p"
proof -
  let ?x = "of_nat (fg_off f div 8) :: u16"
  have o: "fg_off f \<le> 4096" "8 dvd fg_off f" using assms by (auto simp: frag_ok_def)
  then have u: "unat ?x = fg_off f div 8" by (simp add: unat_of_nat take_bit_nat_eq_self)
  have "?x AND 0x1FFF = take_bit 13 ?x" by (simp add: take_bit_eq_mask mask_eq_exp_minus_1)
  also have "\<dots> = ?x" using u o(1) by (intro unsigned_word_eqI [where 'a = nat]) (simp add: unsigned_take_bit_eq take_bit_nat_eq_self)
  finally have x: "?x AND 0x1FFF = ?x" .
  have y: "?x AND 0x2000 = 0"
  proof -
    have "(?x AND 0x1FFF) AND 0x2000 = ?x AND (0x1FFF AND 0x2000)" by (rule and.assoc)
    then show ?thesis unfolding x by simp
  qed
  have d: "(?x OR m) AND n = (?x AND n) OR (m AND n)" for m n by (simp add: bit.conj_disj_distrib2)
  have "(frag_flags p f AND 0x1FFF) = ?x" unfolding frag_flags_def d by (simp add: x)
  moreover have "?x * 8 = of_nat (fg_off f)" using o(2) by (metis dvd_div_mult_self of_nat_mult of_nat_numeral)
  ultimately show "(frag_flags p f AND 0x1FFF) * 8 = of_nat (fg_off f)" by simp
  show "frag_flags p f AND 0x2000 \<noteq> 0 \<longleftrightarrow> fg_off f + fg_len f < length p" unfolding frag_flags_def d by (simp add: y)
qed

lemma frag_blocks_sub: "frag_ok H p f \<Longrightarrow> frag_blocks f \<subseteq> all_blocks p"
  by (auto simp: frag_ok_def frag_blocks_def all_blocks_def div_le_mono elim: less_le_trans)

lemma frag_first: "frag_ok H p f \<Longrightarrow> 0 \<in> frag_blocks f \<longleftrightarrow> fg_off f = 0"
  by (auto simp: frag_ok_def frag_blocks_def div_greater_zero_iff Suc_le_eq elim!: dvdE)

lemma frag_last:
  assumes "frag_ok H p f"
  shows "(length p + 7) div 8 - 1 \<in> frag_blocks f \<longleftrightarrow> fg_off f + fg_len f = length p"
proof -
  obtain a where a: "fg_off f = 8 * a" using assms by (auto simp: frag_ok_def elim: dvdE)
  have l: "0 < fg_len f" "8 * a + fg_len f \<le> length p" "8 dvd fg_len f \<or> 8 * a + fg_len f = length p" using assms by (auto simp: frag_ok_def a)
  show ?thesis
  proof (cases "8 * a + fg_len f = length p")
    case True
    then show ?thesis using l(1) by (simp add: frag_blocks_def a; linarith)
  next
    case False
    then obtain b where b: "fg_len f = 8 * b" using l(3) by (auto elim: dvdE)
    then have e: "(8 * a + fg_len f + 7) div 8 = a + b" by presburger
    have "(a + b + 1) * 8 \<le> length p + 7" using le_neq_implies_less [OF l(2) False] b by simp
    then have "a + b + 1 \<le> (length p + 7) div 8" by (simp only: less_eq_div_iff_mult_less_eq zero_less_numeral)
    then have "\<not> (length p + 7) div 8 - 1 < a + b" by linarith
    then show ?thesis using False by (simp add: frag_blocks_def a e)
  qed
qed

lemma frag_byte:
  assumes "frag_ok H p f" "j < length p" "j div 8 \<in> frag_blocks f"
  shows "fg_off f \<le> j \<and> j < fg_off f + fg_len f"
proof -
  obtain a where a: "fg_off f = 8 * a" using assms(1) by (auto simp: frag_ok_def elim: dvdE)
  have j: "a \<le> j div 8" "j div 8 < (8 * a + fg_len f + 7) div 8" using assms(3) by (simp_all add: frag_blocks_def a)
  have l: "8 dvd fg_len f \<or> 8 * a + fg_len f = length p" using assms(1) by (auto simp: frag_ok_def a)
  show ?thesis
  proof (cases "8 * a + fg_len f = length p")
    case True
    then show ?thesis using assms(2) j(1) by (simp add: a; linarith)
  next
    case False
    then obtain b where b: "fg_len f = 8 * b" using l by (auto elim: dvdE)
    then have "(8 * a + fg_len f + 7) div 8 = a + b" by presburger
    then have "a \<le> j div 8" "j div 8 < a + b" using j by simp_all
    then show ?thesis unfolding a b by linarith
  qed
qed

section \<open>The map of blocks\<close>

lemma length_present_set [simp]: "length (ipv4_reass_present_set k present) = length present"
  by (simp add: ipv4_reass_present_set_def)

lemma present_get_set:
  assumes "length present = 64"
  shows "ipv4_reass_present_get (ipv4_reass_present_set k present) j \<longleftrightarrow> ipv4_reass_present_get present j \<or> j = k \<and> k < 512"
proof -
  have b: "x AND push_bit n 1 \<noteq> 0 \<longleftrightarrow> bit x n" for x :: u8 and n by (simp add: bit_iff_and_push_bit_not_eq_0)
  have m: "j mod 8 = k mod 8 \<and> j div 8 = k div 8 \<longleftrightarrow> j = k" by (metis div_mult_mod_eq)
  have "bit (x OR push_bit (k mod 8) 1) n \<longleftrightarrow> bit x n \<or> n = k mod 8" for x :: u8 and n by (auto simp: bit_simps)
  then show ?thesis using assms m unfolding ipv4_reass_present_get_def ipv4_reass_present_set_def b by (auto simp: nth_list_update)
qed

lemma present_fold:
  "length present = 64 \<Longrightarrow> length (fold ipv4_reass_present_set ks present) = 64 \<and>
    (ipv4_reass_present_get (fold ipv4_reass_present_set ks present) j \<longleftrightarrow> ipv4_reass_present_get present j \<or> j \<in> set ks \<and> j < 512)"
  by (induction ks arbitrary: present) (auto simp: present_get_set)

section \<open>A slot\<close>

definition reass_wf :: "reass_slot \<Rightarrow> bool" where
  "reass_wf r \<longleftrightarrow> length (rs_payload r) = IPV4_REASS_MAX_PAYLOAD \<and> length (rs_present r) = 64"

text \<open>The slot has the blocks \<open>B\<close> of the datagram with payload \<open>p\<close>.\<close>

definition slot_inv :: "u8 list \<Rightarrow> u8 list \<Rightarrow> nat set \<Rightarrow> reass_slot \<Rightarrow> bool" where
  "slot_inv H p B r \<longleftrightarrow> rs_used r \<and> reass_wf r \<and> B \<subseteq> all_blocks p \<and> (\<forall>b. ipv4_reass_present_get (rs_present r) b \<longleftrightarrow> b \<in> B) \<and>
     (\<forall>j < length p. j div 8 \<in> B \<longrightarrow> rs_payload r ! j = p ! j) \<and> (rs_have_first r \<longleftrightarrow> 0 \<in> B) \<and> (0 \<in> B \<longrightarrow> rs_header_len r = 20 \<and> rs_header r = take 20 H) \<and>
     (rs_total_known r \<longleftrightarrow> (length p + 7) div 8 - 1 \<in> B) \<and> (rs_total_known r \<longrightarrow> rs_total_payload_len r = of_nat (length p))"

lemma store_inv:
  assumes "slot_inv H p B r" "frag_ok H p f" "length p \<le> 4096"
    "r' = reass_store tick (of_nat (fg_off f)) (fg_off f + fg_len f < length p) (fg_hdr f) 20 (frag_data p f) r"
  shows "slot_inv H p (B \<union> frag_blocks f) r'"
proof -
  have l: "length (frag_data p f) = fg_len f" "0 < fg_len f" "fg_off f + fg_len f \<le> 4096" using assms(2,3) by (auto simp: frag_data_def frag_ok_def)
  then have o: "unat (of_nat (fg_off f) :: u16) = fg_off f" by (simp add: unat_of_nat take_bit_nat_eq_self)
  then have z: "(of_nat (fg_off f) :: u16) = 0 \<longleftrightarrow> fg_off f = 0" by (metis unat_eq_0 of_nat_0)
  have i: "length (rs_payload r) = 4096" "length (rs_present r) = 64" "\<And>b. ipv4_reass_present_get (rs_present r) b \<longleftrightarrow> b \<in> B"
    "\<And>j. j < length p \<Longrightarrow> j div 8 \<in> B \<Longrightarrow> rs_payload r ! j = p ! j" using assms(1) by (auto simp: slot_inv_def reass_wf_def)
  have pl: "rs_payload r' = take (fg_off f) (rs_payload r) @ frag_data p f @ drop (fg_off f + fg_len f) (rs_payload r)"
    and pr: "rs_present r' = fold ipv4_reass_present_set [fg_off f div 8..<(fg_off f + fg_len f + 7) div 8] (rs_present r)"
    using l by (simp_all add: assms(4) reass_store_def Let_def o)
  have lp: "length (rs_payload r') = 4096" using l i(1) by (simp add: pl)
  have bytes: "rs_payload r' ! j = p ! j" if "j < length p" "j div 8 \<in> B \<union> frag_blocks f" for j
  proof (cases "fg_off f \<le> j \<and> j < fg_off f + fg_len f")
    case True
    then have "j - fg_off f < fg_len f" by linarith
    then have "rs_payload r' ! j = frag_data p f ! (j - fg_off f)" using True l i(1) by (simp add: pl nth_append)
    then show ?thesis using True that(1) \<open>j - fg_off f < fg_len f\<close> by (simp add: frag_data_def)
  next
    case False
    then have "j div 8 \<in> B" using frag_byte [OF assms(2) that(1)] that(2) by blast
    moreover have "rs_payload r' ! j = rs_payload r ! j" using False l i(1) that(1) assms(3) by (auto simp: pl nth_append)
    ultimately show ?thesis using i(4) that(1) by simp
  qed
  have pres: "ipv4_reass_present_get (rs_present r') b \<longleftrightarrow> b \<in> B \<union> frag_blocks f" for b
    using present_fold [OF i(2), of "[fg_off f div 8..<(fg_off f + fg_len f + 7) div 8]" b] l(3) unfolding pr i(3) frag_blocks_def by auto
  have hd: "rs_have_first r' \<longleftrightarrow> 0 \<in> B \<union> frag_blocks f" "0 \<in> B \<union> frag_blocks f \<longrightarrow> rs_header_len r' = 20 \<and> rs_header r' = take 20 H"
    using assms(1,2) frag_first [OF assms(2)] l by (auto simp: assms(4) reass_store_def Let_def z slot_inv_def frag_ok_def)
  have "fg_off f + fg_len f < length p \<or> fg_off f + fg_len f = length p" using assms(2) by (auto simp: frag_ok_def)
  then have tt: "rs_total_known r' \<longleftrightarrow> (length p + 7) div 8 - 1 \<in> B \<union> frag_blocks f" "rs_total_known r' \<longrightarrow> rs_total_payload_len r' = of_nat (length p)"
    using assms(1) frag_last [OF assms(2)] l by (auto simp: assms(4) reass_store_def Let_def slot_inv_def simp flip: of_nat_add)
  have "rs_used r'" using assms(1) by (simp add: assms(4) reass_store_def Let_def slot_inv_def)
  moreover have "length (rs_present r') = 64" using present_fold [OF i(2)] unfolding pr by blast
  moreover have "B \<union> frag_blocks f \<subseteq> all_blocks p" using assms(1) frag_blocks_sub [OF assms(2)] by (auto simp: slot_inv_def)
  ultimately show ?thesis using lp bytes pres hd tt by (simp add: slot_inv_def reass_wf_def)
qed

lemma complete_iff:
  assumes "slot_inv H p B r" "length p \<le> 4096" "p \<noteq> []"
  shows "reass_complete r \<longleftrightarrow> B = all_blocks p"
proof -
  have n: "unat (of_nat (length p) :: u16) = length p" using assms(2) by (simp add: unat_of_nat take_bit_nat_eq_self)
  have b: "0 \<in> all_blocks p" "(length p + 7) div 8 - 1 \<in> all_blocks p" using assms(3) by (cases p; simp add: all_blocks_def)+
  show ?thesis using assms(1) b n by (auto simp: reass_complete_def slot_inv_def all_blocks_def)
qed

section \<open>The table of slots\<close>

lemma pick_match:
  "k < length rs \<Longrightarrow> rs_used (rs ! k) \<Longrightarrow> m (rs ! k) \<Longrightarrow> (\<And>j. j < k \<Longrightarrow> \<not> (rs_used (rs ! j) \<and> m (rs ! j))) \<Longrightarrow> reass_pick m rs i slot ot old = i + k"
proof (induction rs arbitrary: i k slot ot old)
  case Nil
  then show ?case by simp
next
  case (Cons r rs)
  show ?case
  proof (cases k)
    case 0
    with Cons.prems show ?thesis by simp
  next
    case (Suc k')
    have h: "k' < length rs" "rs_used (rs ! k')" "m (rs ! k')" using Cons.prems(1-3) Suc by simp_all
    have "\<And>j. j < k' \<Longrightarrow> \<not> (rs_used (rs ! j) \<and> m (rs ! j))" using Cons.prems(4) Suc by force
    note ih = Cons.IH [OF h this]
    have "\<not> (rs_used r \<and> m r)" using Cons.prems(4) [of 0] Suc by simp
    then show ?thesis using Suc by (auto simp: ih)
  qed
qed

lemma pick_slot:
  "(\<And>r. r \<in> set rs \<Longrightarrow> rs_used r \<Longrightarrow> \<not> m r) \<Longrightarrow> reass_pick m rs i (Some k) ot old = k"
  by (induction rs arbitrary: i ot old) auto

lemma pick_free:
  "(\<And>r. r \<in> set rs \<Longrightarrow> rs_used r \<Longrightarrow> \<not> m r) \<Longrightarrow> find_slot (\<lambda>r. \<not> rs_used r) rs = Some k \<Longrightarrow> reass_pick m rs i None ot old = i + k"
proof (induction rs arbitrary: i k ot old)
  case Nil
  then show ?case by simp
next
  case (Cons r rs)
  have n: "\<And>r. r \<in> set rs \<Longrightarrow> rs_used r \<Longrightarrow> \<not> m r" using Cons.prems(1) by simp
  show ?case
  proof (cases "rs_used r")
    case True
    with Cons.prems obtain k' where "find_slot (\<lambda>r. \<not> rs_used r) rs = Some k'" "k = Suc k'" by auto
    then show ?thesis using Cons.IH [OF n] Cons.prems(1) True by simp
  next
    case False
    then show ?thesis using Cons.prems(2) pick_slot [where m = m, OF n] by simp
  qed
qed

text \<open>One datagram under way: the blocks that have arrived.\<close>

record datagram =
  dg_src :: u32
  dg_dst :: u32
  dg_ident :: u16
  dg_proto :: u8
  dg_header :: "u8 list"
  dg_payload :: "u8 list"

abbreviation dg_match :: "datagram \<Rightarrow> reass_slot \<Rightarrow> bool" where
  "dg_match d \<equiv> reass_match (dg_src d) (dg_dst d) (dg_ident d) (dg_proto d)"

definition reass_inv :: "datagram \<Rightarrow> nat set \<Rightarrow> 'h net \<Rightarrow> bool" where
  "reass_inv d B s \<longleftrightarrow> list_all reass_wf (n_reass s) \<and>
     (if B = {} then list_all (\<lambda>r. \<not> (rs_used r \<and> dg_match d r)) (n_reass s) \<and> \<not> list_all rs_used (n_reass s)
      else \<exists>k < length (n_reass s). slot_inv (dg_header d) (dg_payload d) B (n_reass s ! k) \<and> dg_match d (n_reass s ! k) \<and> rs_last_tick (n_reass s ! k) = n_tick s \<and>
        (\<forall>j < length (n_reass s). j \<noteq> k \<longrightarrow> \<not> (rs_used (n_reass s ! j) \<and> dg_match d (n_reass s ! j))))"

definition fragment_in :: "datagram \<Rightarrow> frag \<Rightarrow> ('h, u8 list option) net_op" where
  "fragment_in d f s = ipv4_reassemble_packet (dg_src d) (dg_dst d) (dg_proto d) (dg_ident d) (frag_flags (dg_payload d) f) (fg_hdr f) 20
     (frag_data (dg_payload d) f) (of_nat (fg_len f)) s"

lemma gc_slot: "reass_wf (reass_gc t r) = reass_wf r" "reass_match a b c e (reass_gc t r) = reass_match a b c e r" "rs_used (reass_gc t r) \<Longrightarrow> rs_used r"
  by (auto simp: reass_gc_def reass_wf_def reass_match_def split: if_splits)

lemma fragment_slot:
  assumes "frag_ok (dg_header d) (dg_payload d) f" "length (dg_payload d) \<le> 4096" "reass_inv d B s" "rs = map (reass_gc (n_tick s)) (n_reass s)"
  shows "\<exists>k r. k < length rs \<and> slot_inv (dg_header d) (dg_payload d) (B \<union> frag_blocks f) r \<and> dg_match d r \<and> rs_last_tick r = n_tick s \<and>
    list_all reass_wf rs \<and> (\<forall>j < length rs. j \<noteq> k \<longrightarrow> \<not> (rs_used (rs ! j) \<and> dg_match d (rs ! j))) \<and>
    fragment_in d f s = (if \<not> reass_complete r then (None, s\<lparr>n_reass := rs[k := r]\<rparr>) else (Some (reass_packet r), s\<lparr>n_reass := rs[k := r\<lparr>rs_used := False\<rparr>]\<rparr>))"
proof -
  let ?p = "dg_payload d" and ?m = "dg_match d"
  define k where "k = reass_pick ?m rs 0 None 0xFFFFFFFF None"
  define r0 where "r0 = reass_start (dg_src d) (dg_dst d) (dg_ident d) (dg_proto d) (rs ! k)"
  define r where "r = reass_store (n_tick s) (of_nat (fg_off f)) (fg_off f + fg_len f < length ?p) (fg_hdr f) 20 (frag_data ?p f) r0"
  have wf: "list_all reass_wf rs" using assms(3) by (simp add: assms(4) reass_inv_def list_all_iff gc_slot)
  have "k < length rs \<and> slot_inv (dg_header d) ?p B r0 \<and> ?m r0 \<and> (\<forall>j < length rs. j \<noteq> k \<longrightarrow> \<not> (rs_used (rs ! j) \<and> ?m (rs ! j)))"
  proof (cases "B = {}")
    case True
    then have n: "\<And>r. r \<in> set rs \<Longrightarrow> rs_used r \<Longrightarrow> \<not> ?m r" and "\<exists>r \<in> set rs. \<not> rs_used r"
      using assms(3) by (auto simp: assms(4) reass_inv_def list_all_iff gc_slot dest: gc_slot(3))
    then obtain q where q: "find_slot (\<lambda>r. \<not> rs_used r) rs = Some q" using find_slot_None [of "\<lambda>r. \<not> rs_used r" rs] by (cases "find_slot (\<lambda>r. \<not> rs_used r) rs") auto
    then have "k = q" using pick_free [where i = 0 and ot = "0xFFFFFFFF" and old = None, OF n q] by (simp add: k_def)
    with find_slot_SomeD [OF q] have k: "k < length rs" "\<not> rs_used (rs ! k)" by simp_all
    have "reass_wf (rs ! k)" using wf k(1) by (simp add: list_all_nth)
    then have "slot_inv (dg_header d) ?p {} r0" "?m r0" using k(2)
      by (simp_all add: r0_def reass_start_def slot_inv_def reass_wf_def reass_match_def ipv4_reass_present_get_def)
    then show ?thesis using n k(1) True by auto
  next
    case False
    then obtain q where q: "q < length (n_reass s)" "slot_inv (dg_header d) ?p B (n_reass s ! q)" "?m (n_reass s ! q)" "rs_last_tick (n_reass s ! q) = n_tick s"
      "\<And>j. j < length (n_reass s) \<Longrightarrow> j \<noteq> q \<Longrightarrow> \<not> (rs_used (n_reass s ! j) \<and> ?m (n_reass s ! j))" using assms(3) by (auto simp: reass_inv_def)
    have l: "length rs = length (n_reass s)" by (simp add: assms(4))
    have e: "rs ! q = n_reass s ! q" using q(1,4) by (simp add: assms(4) reass_gc_def)
    have o: "\<not> (rs_used (rs ! j) \<and> ?m (rs ! j))" if "j < length rs" "j \<noteq> q" for j using q(5) [of j] that gc_slot(2,3) by (auto simp: assms(4))
    have u: "rs_used (rs ! q)" using q(2) by (simp add: e slot_inv_def)
    have "k = q" unfolding k_def using pick_match [of q rs ?m 0 None "0xFFFFFFFF" None] q(1,3) u o by (simp add: l e)
    moreover have "reass_start (dg_src d) (dg_dst d) (dg_ident d) (dg_proto d) (rs ! q) = n_reass s ! q" using q(3) u by (simp add: e reass_start_def)
    ultimately show ?thesis using q l o by (simp add: r0_def)
  qed
  then have k: "k < length rs" "slot_inv (dg_header d) ?p B r0" "?m r0" "\<forall>j < length rs. j \<noteq> k \<longrightarrow> \<not> (rs_used (rs ! j) \<and> ?m (rs ! j))" by blast+
  have len: "length (frag_data ?p f) = fg_len f" "fg_off f + fg_len f \<le> 4096" using assms(1,2) by (auto simp: frag_data_def frag_ok_def)
  then have u: "unat (of_nat (fg_off f) :: u16) = fg_off f" "unat (of_nat (fg_len f) :: u16) = fg_len f" by (simp_all add: unat_of_nat take_bit_nat_eq_self)
  have g: "ipv4_reassembly_gc s = s\<lparr>n_reass := rs\<rparr>" by (simp add: ipv4_reassembly_gc_def assms(4))
  have "fragment_in d f s = (if \<not> reass_complete r then (None, s\<lparr>n_reass := rs[k := r]\<rparr>) else (Some (reass_packet r), s\<lparr>n_reass := rs[k := r\<lparr>rs_used := False\<rparr>]\<rparr>))"
    unfolding fragment_in_def ipv4_reassemble_packet_def frag_flags_parts [OF assms(1,2)] Let_def g u using len
    by (simp add: k_def [symmetric] r0_def [symmetric] r_def [symmetric])
  moreover have "?m r" "rs_last_tick r = n_tick s" using k(3) by (simp_all add: r_def reass_store_def reass_match_def Let_def)
  ultimately show ?thesis using k wf store_inv [OF k(2) assms(1,2) r_def] by blast
qed

section \<open>The datagram\<close>

text \<open>The header of the assembled packet: that of the first fragment with the whole length, no fragment offset, and a checksum that verifies.\<close>

definition whole_header :: "u8 list \<Rightarrow> nat \<Rightarrow> u8 list \<Rightarrow> bool" where
  "whole_header H n h \<longleftrightarrow> length h = 20 \<and> read_be16 h 2 = 20 + of_nat n \<and> read_be16 h 6 = 0 \<and> internet_checksum h = 0 \<and>
     (\<forall>i < 20. i \<notin> {2, 3, 6, 7, 10, 11} \<longrightarrow> h ! i = H ! i)"

lemma packet_header:
  assumes "slot_inv H p (all_blocks p) r" "p \<noteq> []" "length p \<le> 4096" "20 \<le> length H"
  shows "\<exists>h. reass_packet r = h @ p \<and> whole_header H (length p) h"
proof -
  have b: "0 \<in> all_blocks p" "(length p + 7) div 8 - 1 \<in> all_blocks p" using assms(2) by (cases p; simp add: all_blocks_def)+
  have r: "rs_header_len r = 20" "rs_header r = take 20 H" "rs_total_payload_len r = of_nat (length p)" "length (rs_payload r) = 4096"
    "\<And>j. j < length p \<Longrightarrow> rs_payload r ! j = p ! j" using assms(1) b by (auto simp: slot_inv_def reass_wf_def all_blocks_def div_le_mono)
  have n: "unat (of_nat (length p) :: u16) = length p" using assms(3) by (simp add: unat_of_nat take_bit_nat_eq_self)
  have p: "take (length p) (rs_payload r) = p" using r(4,5) assms(3) by (intro nth_equalityI) auto
  define t where "t = write_be16 (20 + of_nat (length p))"
  define g where "g = (take 20 H)[2 := t ! 0, 3 := t ! 1, 6 := 0, 7 := 0, 10 := 0, 11 := 0]"
  define c where "c = write_be16 (internet_checksum g)"
  define h where "h = g[10 := c ! 0, 11 := c ! 1]"
  have e: "reass_packet r = h @ p" by (simp add: reass_packet_def Let_def r(1-3) n p t_def g_def c_def h_def)
  have lg: "length g = 20" using assms(4) by (simp add: g_def)
  have upd: "xs[10 := a, 11 := b] = take 10 xs @ [a, b] @ drop 12 xs" if "length xs = 20" for xs :: "u8 list" and a b
    using that by (simp add: upd_conv_take_nth_drop)
  have lt: "length t = 2" by (simp add: t_def)
  then have t2: "t = [t ! 0, t ! 1]" by (cases t rule: list.exhaust; cases "tl t") auto
  have g0: "g = take 10 g @ write_be16 0 @ drop 12 g"
  proof -
    have "g = g[10 := 0, 11 := 0]" by (simp add: g_def list_update_swap)
    then show ?thesis using upd [OF lg, of 0 0] by (simp add: write_be16_def)
  qed
  have "internet_checksum h = 0"
    using checksum_insert [of "take 10 g" "drop 12 g"] lg g0 unfolding h_def upd [OF lg] c_def by (simp add: write_be16_def)
  moreover have "read_be16 h 2 = 20 + of_nat (length p)"
  proof -
    have "h ! 2 = t ! 0" "h ! 3 = t ! 1" using assms(4) by (simp_all add: h_def g_def)
    then show ?thesis using be16_join [of "20 + of_nat (length p)"] by (simp add: read_be16_def t_def write_be16_def)
  qed
  moreover have "read_be16 h 6 = 0" using assms(4) by (simp add: read_be16_def h_def g_def)
  moreover have "h ! i = H ! i" if "i < 20" "i \<notin> {2, 3, 6, 7, 10, 11}" for i using that by (auto simp: h_def g_def)
  ultimately show ?thesis using e lg by (auto simp: whole_header_def h_def)
qed

primrec fragments_in :: "datagram \<Rightarrow> frag list \<Rightarrow> ('h, u8 list option list) net_op" where
  "fragments_in d [] s = ([], s)"
| "fragments_in d (f # fs) s = (let (r, s1) = fragment_in d f s; (rs, s2) = fragments_in d fs s1 in (r # rs, s2))"

lemma fragments_append: "fragments_in d (fs @ gs) s = (let (rs, s1) = fragments_in d fs s; (qs, s2) = fragments_in d gs s1 in (rs @ qs, s2))"
  by (induction fs arbitrary: s) (simp_all add: Let_def split_beta)

abbreviation blocks_of :: "frag list \<Rightarrow> nat set" where "blocks_of fs \<equiv> \<Union> (frag_blocks ` set fs)"

lemma frag_blocks_nonempty: "frag_ok H p f \<Longrightarrow> frag_blocks f \<noteq> {}"
  unfolding frag_ok_def frag_blocks_def by (auto simp: dvd_def)

lemma fragment_step:
  assumes "frag_ok (dg_header d) (dg_payload d) f" "length (dg_payload d) \<le> 4096" "dg_payload d \<noteq> []" "20 \<le> length (dg_header d)" "reass_inv d B s"
    "fragment_in d f s = (res, s')"
  shows "B \<union> frag_blocks f \<noteq> all_blocks (dg_payload d) \<Longrightarrow> res = None \<and> reass_inv d (B \<union> frag_blocks f) s'"
    and "B \<union> frag_blocks f = all_blocks (dg_payload d) \<Longrightarrow> reass_inv d {} s' \<and> (\<exists>h. res = Some (h @ dg_payload d) \<and> whole_header (dg_header d) (length (dg_payload d)) h)"
proof -
  define rs where "rs = map (reass_gc (n_tick s)) (n_reass s)"
  obtain k r where k: "k < length rs" "slot_inv (dg_header d) (dg_payload d) (B \<union> frag_blocks f) r" "dg_match d r" "rs_last_tick r = n_tick s" "list_all reass_wf rs"
    "\<And>j. j < length rs \<Longrightarrow> j \<noteq> k \<Longrightarrow> \<not> (rs_used (rs ! j) \<and> dg_match d (rs ! j))"
    "fragment_in d f s = (if \<not> reass_complete r then (None, s\<lparr>n_reass := rs[k := r]\<rparr>) else (Some (reass_packet r), s\<lparr>n_reass := rs[k := r\<lparr>rs_used := False\<rparr>]\<rparr>))"
    using fragment_slot [OF assms(1,2,5) rs_def] by blast
  note c = complete_iff [OF k(2) assms(2,3)]
  have w: "reass_wf r" using k(2) by (simp add: slot_inv_def)
  show "res = None \<and> reass_inv d (B \<union> frag_blocks f) s'" if "B \<union> frag_blocks f \<noteq> all_blocks (dg_payload d)"
  proof -
    have r: "res = None" "s' = s\<lparr>n_reass := rs[k := r]\<rparr>" using k(7) assms(6) that c by auto
    have "\<exists>i < length rs. slot_inv (dg_header d) (dg_payload d) (B \<union> frag_blocks f) (rs[k := r] ! i) \<and> dg_match d (rs[k := r] ! i) \<and> rs_last_tick (rs[k := r] ! i) = n_tick s \<and>
        (\<forall>j < length rs. j \<noteq> i \<longrightarrow> \<not> (rs_used (rs[k := r] ! j) \<and> dg_match d (rs[k := r] ! j)))"
      using k(1-4,6) by (intro exI [of _ k]) auto
    then show ?thesis using r k(5) w frag_blocks_nonempty [OF assms(1)] by (simp add: reass_inv_def list_all_update)
  qed
  show "reass_inv d {} s' \<and> (\<exists>h. res = Some (h @ dg_payload d) \<and> whole_header (dg_header d) (length (dg_payload d)) h)" if "B \<union> frag_blocks f = all_blocks (dg_payload d)"
  proof -
    have r: "res = Some (reass_packet r)" "s' = s\<lparr>n_reass := rs[k := r\<lparr>rs_used := False\<rparr>]\<rparr>" using k(7) assms(6) that c by auto
    have "\<forall>j < length rs. \<not> (rs_used (rs[k := r\<lparr>rs_used := False\<rparr>] ! j) \<and> dg_match d (rs[k := r\<lparr>rs_used := False\<rparr>] ! j))" 
    proof (intro allI impI)
      fix j assume j: "j < length rs"
      show "\<not> (rs_used (rs[k := r\<lparr>rs_used := False\<rparr>] ! j) \<and> dg_match d (rs[k := r\<lparr>rs_used := False\<rparr>] ! j))" using k(6) [OF j] j by (cases "j = k") auto
    qed
    moreover have "\<not> list_all rs_used (rs[k := r\<lparr>rs_used := False\<rparr>])" using k(1) by (auto simp: list_all_length)
    moreover have "list_all reass_wf (rs[k := r\<lparr>rs_used := False\<rparr>])" using k(5) w by (intro list_all_update) (simp_all add: reass_wf_def)
    ultimately have "reass_inv d {} s'" using r(2) by (simp add: reass_inv_def) (simp add: list_all_length)
    then show ?thesis using r(1) packet_header [OF k(2) [unfolded that] assms(3,2,4)] by auto
  qed
qed

lemma fragments_wait:
  assumes "list_all (frag_ok (dg_header d) (dg_payload d)) fs" "length (dg_payload d) \<le> 4096" "dg_payload d \<noteq> []" "20 \<le> length (dg_header d)" "reass_inv d B s"
    "B \<union> blocks_of fs \<noteq> all_blocks (dg_payload d)" "B \<subseteq> all_blocks (dg_payload d)"
  shows "fst (fragments_in d fs s) = replicate (length fs) None \<and> reass_inv d (B \<union> blocks_of fs) (snd (fragments_in d fs s))"
  using assms(1,5-7)
proof (induction fs arbitrary: s B)
  case Nil
  then show ?case by simp
next
  case (Cons f fs)
  have ok: "frag_ok (dg_header d) (dg_payload d) f" "list_all (frag_ok (dg_header d) (dg_payload d)) fs" using Cons.prems(1) by simp_all
  have sub: "blocks_of fs \<subseteq> all_blocks (dg_payload d)" "B \<union> frag_blocks f \<subseteq> all_blocks (dg_payload d)"
    using ok(2) Cons.prems(4) frag_blocks_sub [OF ok(1)] by (auto simp: list_all_iff dest: frag_blocks_sub)
  obtain res s1 where f: "fragment_in d f s = (res, s1)" by (metis surj_pair)
  have ne: "B \<union> frag_blocks f \<noteq> all_blocks (dg_payload d)" using Cons.prems(3) sub by auto
  from fragment_step(1) [OF ok(1) assms(2-4) Cons.prems(2) f ne] have r: "res = None" "reass_inv d (B \<union> frag_blocks f) s1" by simp_all
  have "B \<union> frag_blocks f \<union> blocks_of fs = B \<union> blocks_of (f # fs)" by auto
  then show ?case using Cons.IH [OF ok(2) r(2) _ sub(2)] Cons.prems(3) r(1) by (simp add: f Let_def split_beta)
qed

text \<open>
  C11. Reassembly gives back the datagram: fragments that cover a datagram of at most 4096 bytes, in any order and with any repetitions, are kept silently until the
  one that fills the last gap arrives; that call returns the whole payload behind a header that names the whole length, has no fragment offset and verifies, and
  the slot is free again. Other datagrams may be under way in the other slots.
\<close>

theorem reassembly_complete:
  fixes s :: "'h net" and d
  defines "p \<equiv> dg_payload d"
  assumes "list_all (frag_ok (dg_header d) p) (fs @ [f])" "length p \<le> 4096" "p \<noteq> []" "20 \<le> length (dg_header d)" "reass_inv d {} s"
    "blocks_of fs \<noteq> all_blocks p" "blocks_of (fs @ [f]) = all_blocks p"
  shows "reass_inv d {} (snd (fragments_in d (fs @ [f]) s)) \<and>
    (\<exists>h. whole_header (dg_header d) (length p) h \<and> fst (fragments_in d (fs @ [f]) s) = replicate (length fs) None @ [Some (h @ p)])"
proof -
  have ok: "list_all (frag_ok (dg_header d) p) fs" "frag_ok (dg_header d) p f" using assms(2) by simp_all
  define s1 where "s1 = snd (fragments_in d fs s)"
  have w: "fst (fragments_in d fs s) = replicate (length fs) None" "reass_inv d (blocks_of fs) s1"
    using fragments_wait [OF ok(1) [unfolded p_def] assms(3-6) [unfolded p_def]] assms(7) by (simp_all add: p_def s1_def)
  obtain res s2 where f: "fragment_in d f s1 = (res, s2)" by (metis surj_pair)
  have "blocks_of fs \<union> frag_blocks f = all_blocks (dg_payload d)" using assms(8) by (auto simp: p_def)
  from fragment_step(2) [OF ok(2) [unfolded p_def] assms(3-5) [unfolded p_def] w(2) f this] show ?thesis
    using w(1) f by (auto simp: fragments_append Let_def split_beta s1_def p_def)
qed

definition wire_datagram :: datagram where
  "wire_datagram = \<lparr>dg_src = 0x0A000002, dg_dst = 0x0A000001, dg_ident = 9, dg_proto = IP_PROTO_UDP, dg_header = replicate 20 0x45,
     dg_payload = [1, 2, 3, 4, 5, 6, 7, 8, 9, 10, 11, 12, 13, 14, 15, 16, 17, 18, 19, 20, 21]\<rparr>"

definition wire_frag :: "nat \<Rightarrow> nat \<Rightarrow> frag" where
  "wire_frag off len = \<lparr>fg_off = off, fg_len = len, fg_hdr = replicate 20 0x45\<rparr>"

text \<open>The end first, twice, then the beginning.\<close>

lemma reassembly_complete_witness:
  "\<exists>h. whole_header (dg_header wire_datagram) 21 h \<and>
    fst (fragments_in wire_datagram [wire_frag 16 5, wire_frag 16 5, wire_frag 0 16] (wire_host 0x0A000001)) = [None, None, Some (h @ dg_payload wire_datagram)]"
proof -
  have l: "length (dg_payload wire_datagram) = 21" "dg_payload wire_datagram \<noteq> []" "20 \<le> length (dg_header wire_datagram)" by (simp_all add: wire_datagram_def)
  have ok: "list_all (frag_ok (dg_header wire_datagram) (dg_payload wire_datagram)) ([wire_frag 16 5, wire_frag 16 5] @ [wire_frag 0 16])"
    by (simp add: frag_ok_def l(1)) (simp add: wire_frag_def wire_datagram_def)
  have i: "reass_inv wire_datagram {} (wire_host 0x0A000001)"
    by (simp add: reass_inv_def wire_host_def net0_def reass0_def reass_wf_def list_all_iff)
  have "blocks_of [wire_frag 16 5, wire_frag 16 5] = {2}" "blocks_of ([wire_frag 16 5, wire_frag 16 5] @ [wire_frag 0 16]) = {0, 1, 2}" "all_blocks (dg_payload wire_datagram) = {0, 1, 2}"
    by (auto simp: frag_blocks_def wire_frag_def all_blocks_def l(1))
  then have b: "blocks_of [wire_frag 16 5, wire_frag 16 5] \<noteq> all_blocks (dg_payload wire_datagram)"
    "blocks_of ([wire_frag 16 5, wire_frag 16 5] @ [wire_frag 0 16]) = all_blocks (dg_payload wire_datagram)" by (metis insertI1 singletonD zero_neq_numeral, metis)
  have n: "length (dg_payload wire_datagram) \<le> 4096" using l(1) by simp
  show ?thesis using reassembly_complete [OF ok n l(2,3) i b] unfolding l(1) by (simp add: numeral_2_eq_2 del: fragments_in.simps)
qed

end
