(* ===== verification/NetControl.thy ===== *)
theory NetControl
  imports NetStream NetReass
begin

text \<open>
  Routing, and the packets of remote control.
\<close>

section \<open>Routing\<close>

definition route_applies :: "u32 \<Rightarrow> route_entry \<Rightarrow> bool" where
  "route_applies dst r \<longleftrightarrow> re_used r \<and> dst AND re_mask r = re_network r"

text \<open>\<open>r\<close> is the best route of a table: first among those with the longest prefix and, of these, the least metric.\<close>

definition best_route :: "u32 \<Rightarrow> route_entry list \<Rightarrow> nat \<Rightarrow> bool" where
  "best_route dst rs i \<longleftrightarrow> i < length rs \<and> route_applies dst (rs ! i) \<and>
     (\<forall>j < length rs. route_applies dst (rs ! j) \<longrightarrow> re_prefix_len (rs ! j) < re_prefix_len (rs ! i) \<or>
        re_prefix_len (rs ! j) = re_prefix_len (rs ! i) \<and> (re_metric (rs ! i) < re_metric (rs ! j) \<or> re_metric (rs ! i) = re_metric (rs ! j) \<and> i \<le> j))"

lemma route_fold:
  "case fold (route_step dst) rs None of None \<Rightarrow> \<forall>r \<in> set rs. \<not> route_applies dst r | Some b \<Rightarrow> \<exists>i. best_route dst rs i \<and> rs ! i = b"
proof (induction rs rule: rev_induct)
  case Nil
  then show ?case by simp
next
  case (snoc r rs)
  have step: "fold (route_step dst) (rs @ [r]) None = route_step dst r (fold (route_step dst) rs None)" by simp
  show ?case
  proof (cases "fold (route_step dst) rs None")
    case None
    with snoc.IH have n: "\<forall>r \<in> set rs. \<not> route_applies dst r" by simp
    have "best_route dst (rs @ [r]) (length rs)" if "route_applies dst r" using n that by (auto simp: best_route_def nth_append)
    then show ?thesis using n None unfolding step by (auto simp: route_step_def route_better_def route_applies_def intro!: exI [of _ "length rs"])
  next
    case (Some b)
    with snoc.IH obtain i where i: "best_route dst rs i" "rs ! i = b" by auto
    show ?thesis
    proof (cases "route_applies dst r \<and> route_better r (Some b)")
      case True
      then have "best_route dst (rs @ [r]) (length rs)" using i unfolding best_route_def route_better_def by (auto simp: nth_append; force)
      then show ?thesis using True Some unfolding step by (auto simp: route_step_def route_applies_def intro!: exI [of _ "length rs"])
    next
      case False
      then have "best_route dst (rs @ [r]) i" using i unfolding best_route_def route_better_def by (auto simp: nth_append less_Suc_eq not_less)
      then show ?thesis using False Some i unfolding step by (auto simp: route_step_def route_applies_def best_route_def nth_append intro!: exI [of _ i])
    qed
  qed
qed

lemma best_route_unique: "best_route dst rs i \<Longrightarrow> best_route dst rs j \<Longrightarrow> i = j"
  unfolding best_route_def by (metis le_antisym less_asym' order_less_irrefl)

text \<open>
  C29. A packet takes the most specific route: \<open>route_lookup\<close> finds no next hop exactly when no entry of the table covers the destination; otherwise the hop is the
  gateway of the first entry that has the longest prefix and, among these, the least metric, or the destination itself when that entry has no gateway.
\<close>

theorem route_longest_prefix:
  "case route_lookup dst s of
     None \<Rightarrow> \<forall>r \<in> set (n_routes s). \<not> route_applies dst r
   | Some hop \<Rightarrow> \<exists>!i. best_route dst (n_routes s) i \<and> hop = (if re_gateway (n_routes s ! i) \<noteq> 0 then re_gateway (n_routes s ! i) else dst)"
proof (cases "fold (route_step dst) (n_routes s) None")
  case None
  then show ?thesis using route_fold [where dst = dst and rs = "n_routes s"] by (simp add: route_lookup_def)
next
  case (Some b)
  with route_fold [where dst = dst and rs = "n_routes s"] obtain i where "best_route dst (n_routes s) i" "n_routes s ! i = b" by auto
  then show ?thesis using Some best_route_unique [where dst = dst and rs = "n_routes s"] by (auto simp: route_lookup_def)
qed

definition wire_routes :: "route_entry list" where
  "wire_routes = [\<lparr>re_used = True, re_network = 0, re_mask = 0, re_gateway = 0x0A000201, re_prefix_len = 0, re_metric = 100\<rparr>,
     \<lparr>re_used = True, re_network = 0x0A000200, re_mask = 0xFFFFFF00, re_gateway = 0, re_prefix_len = 24, re_metric = 10\<rparr>]"

text \<open>An address of the network of the host is reached directly, another one through the gateway.\<close>

lemma route_longest_prefix_witness:
  "(\<exists>!i. best_route 0x0A000233 wire_routes i \<and> 0x0A000233 = (if re_gateway (wire_routes ! i) \<noteq> 0 then re_gateway (wire_routes ! i) else 0x0A000233)) \<and>
   (\<exists>!i. best_route 0x08080808 wire_routes i \<and> 0x0A000201 = (if re_gateway (wire_routes ! i) \<noteq> 0 then re_gateway (wire_routes ! i) else 0x08080808))"
proof -
  let ?s = "(wire_host 0x0A00020F)\<lparr>n_routes := wire_routes\<rparr>"
  have "route_lookup 0x0A000233 ?s = Some 0x0A000233" "route_lookup 0x08080808 ?s = Some 0x0A000201"
    by (simp_all add: route_lookup_def wire_routes_def route_step_def route_better_def)
  then show ?thesis using route_longest_prefix [where dst = "0x0A000233" and s = ?s] route_longest_prefix [where dst = "0x08080808" and s = ?s] by (simp cong: if_cong)
qed

section \<open>Remote control\<close>

text \<open>
  C22. Reports of more than 432 bytes are never sent: \<open>remote_send_chunked_payload\<close> cuts its data into chunks of up to 480 bytes and puts a header of 32 bytes before
  each, but \<open>remote_send_payload\<close> refuses more than 464 bytes, so the first chunk fails and nothing reaches the card.
\<close>

theorem chunked_report_fails:
  assumes "length data > 432"
  shows "\<not> fst (remote_send_chunked_payload pt mem ty data flags request_id status s) \<and>
    n_hw (snd (remote_send_chunked_payload pt mem ty data flags request_id status s)) = n_hw s"
proof -
  have l: "length (chunk_header a b c e f g h @ take 480 data) > 464" for a b c e f g h using assms unfolding chunk_header_def by (simp add: mem32_def)
  have r: "remote_send_payload pt mem ty (chunk_header a b c e f g h @ take 480 data) fl rid status t = (False, t)" for a b c e f g h fl rid t
    using l [of a b c e f g h] by (simp add: remote_send_payload_def)
  obtain n where n: "(length data + 480 - 1) div 480 = Suc n" using assms by (cases "(length data + 480 - 1) div 480") auto
  have d: "data \<noteq> []" using assms by auto
  have hw: "n_hw (snd (on_auth f s)) = n_hw s" for f :: "auth \<Rightarrow> u32 \<times> auth" by (simp add: on_auth_def split_beta)
  show ?thesis unfolding remote_send_chunked_payload_def using n d hw by (simp add: r Let_def split_beta)
qed

lemma chunked_report_fails_witness:
  "\<not> fst (remote_send_chunked_payload wire_ports wire_mem 3 (replicate 500 0) 0 1 0 (wire_host 0x0A000001))"
  using chunked_report_fails [where data = "replicate 500 0" and pt = wire_ports and mem = wire_mem] by simp

end
