(* ===== verification/Module.thy ===== *)
theory Module
  imports Task
begin

text \<open>
  The module loader (\<open>module_loader.c\<close>): ELF objects are read from a file into a buffer, their sections are placed in a pool, relocations are applied against the
  exports of the kernel and of other modules, and modules are counted by the tasks and modules that use them. Memory is one flat space of bytes, as the code sees
  it: the pool and the buffer are at fixed addresses, and an access through a wrapped pointer reaches whatever is there. The header and the number of entries of a
  table are read once, before the loop over the table. Module code that is called is an argument; it may change memory.
  Counts of references are integers without a bound: the model is about runs in which no counter overflows, which takes \<open>2\<^sup>3\<^sup>1\<close> calls. The tables of the loader are
  kept apart from the flat memory, so a relocation that is misdirected into them is not covered.
\<close>

section \<open>State\<close>

record ns_export =
  ex_name :: string
  ex_addr :: u32

record ns_object =
  ob_used :: bool
  ob_kind :: int
  ob_handle :: int
  ob_ref_count :: int
  ob_init_called :: bool
  ob_kernel_refs :: int
  ob_image_base :: u32
  ob_init_addr :: u32
  ob_fini_addr :: u32
  ob_deps :: "nat list"
  ob_task_refs :: "int list"
  ob_path :: string
  ob_exports :: "ns_export list"

record ns_pending =
  pr_used :: bool
  pr_target :: nat
  pr_place :: u32
  pr_addend :: u32
  pr_type :: u32
  pr_symbol :: string

text \<open>The static variables of the file, the running task, memory and the file system.\<close>

record 'v mods =
  md_objs :: "ns_object list"
  md_kexports :: "ns_export list"
  md_pending :: "ns_pending list"
  md_dlerror :: "string list"
  md_cursor :: u32
  md_mem :: "u32 \<Rightarrow> u8"
  md_task :: int
  md_fs :: 'v

record mod_addr =
  ma_pool :: u32
  ma_buf :: u32

record 'v mod_files =
  mf_stat :: "string \<Rightarrow> 'v \<Rightarrow> (u32 \<times> u32) option \<times> 'v"
  mf_read :: "string \<Rightarrow> nat \<Rightarrow> 'v \<Rightarrow> int \<times> u8 list \<times> 'v"

type_synonym module_code = "u32 \<Rightarrow> (u32 \<Rightarrow> u8) \<Rightarrow> int \<times> (u32 \<Rightarrow> u8)"
type_synonym ('v, 'r) mod_op = "'v mods \<Rightarrow> 'r \<times> 'v mods"

abbreviation NS_MODULE_MAX :: nat where "NS_MODULE_MAX \<equiv> 12"
abbreviation NS_KERNEL_EXPORTS_MAX :: nat where "NS_KERNEL_EXPORTS_MAX \<equiv> 64"
abbreviation NS_EXPORTS_MAX :: nat where "NS_EXPORTS_MAX \<equiv> 64"
abbreviation NS_DEPS_MAX :: nat where "NS_DEPS_MAX \<equiv> 8"
abbreviation NS_MODULE_POOL_SIZE :: u32 where "NS_MODULE_POOL_SIZE \<equiv> 262144"
abbreviation NS_MODULE_LOAD_LIMIT :: nat where "NS_MODULE_LOAD_LIMIT \<equiv> 65536"
abbreviation NS_MODULE_MAX_SECTIONS :: nat where "NS_MODULE_MAX_SECTIONS \<equiv> 96"
abbreviation NS_MODULE_ABI_MAGIC :: u32 where "NS_MODULE_ABI_MAGIC \<equiv> 0x4E534D31"
abbreviation NS_DLERROR_LEN :: nat where "NS_DLERROR_LEN \<equiv> 96"
abbreviation NS_PENDING_RELOC_MAX :: nat where "NS_PENDING_RELOC_MAX \<equiv> 192"
abbreviation NS_MODULE_KIND_LIBRARY :: int where "NS_MODULE_KIND_LIBRARY \<equiv> 1"
abbreviation NS_MODULE_KIND_KERNEL :: int where "NS_MODULE_KIND_KERNEL \<equiv> 2"
abbreviation SHT_SYMTAB :: u32 where "SHT_SYMTAB \<equiv> 2"
abbreviation SHT_STRTAB :: u32 where "SHT_STRTAB \<equiv> 3"
abbreviation SHT_RELA :: u32 where "SHT_RELA \<equiv> 4"
abbreviation SHT_NOBITS :: u32 where "SHT_NOBITS \<equiv> 8"
abbreviation SHT_REL :: u32 where "SHT_REL \<equiv> 9"
abbreviation SHT_DYNSYM :: u32 where "SHT_DYNSYM \<equiv> 11"
abbreviation R_386_NONE :: u32 where "R_386_NONE \<equiv> 0"
abbreviation R_386_32 :: u32 where "R_386_32 \<equiv> 1"
abbreviation R_386_PC32 :: u32 where "R_386_PC32 \<equiv> 2"
abbreviation R_386_GLOB_DAT :: u32 where "R_386_GLOB_DAT \<equiv> 6"
abbreviation R_386_JMP_SLOT :: u32 where "R_386_JMP_SLOT \<equiv> 7"
abbreviation R_386_RELATIVE :: u32 where "R_386_RELATIVE \<equiv> 8"

section \<open>Memory\<close>

definition ld16 :: "(u32 \<Rightarrow> u8) \<Rightarrow> u32 \<Rightarrow> u16" where
  "ld16 m a = ucast (m a) OR push_bit 8 (ucast (m (a + 1)))"

definition ld32 :: "(u32 \<Rightarrow> u8) \<Rightarrow> u32 \<Rightarrow> u32" where
  "ld32 m a = ucast (m a) OR push_bit 8 (ucast (m (a + 1))) OR push_bit 16 (ucast (m (a + 2))) OR push_bit 24 (ucast (m (a + 3)))"

definition st32 :: "u32 \<Rightarrow> u32 \<Rightarrow> (u32 \<Rightarrow> u8) \<Rightarrow> u32 \<Rightarrow> u8" where
  "st32 a v m = m(a := ucast v, a + 1 := ucast (drop_bit 8 v), a + 2 := ucast (drop_bit 16 v), a + 3 := ucast (drop_bit 24 v))"

definition st_bytes :: "u32 \<Rightarrow> u8 list \<Rightarrow> (u32 \<Rightarrow> u8) \<Rightarrow> u32 \<Rightarrow> u8" where
  "st_bytes a bs m = (\<lambda>x. if unat (x - a) < length bs then bs ! unat (x - a) else m x)"

definition mem_zero_local :: "u32 \<Rightarrow> u32 \<Rightarrow> (u32 \<Rightarrow> u8) \<Rightarrow> u32 \<Rightarrow> u8" where
  "mem_zero_local dst n m = fold (\<lambda>i m. m(dst + of_nat i := 0)) [0..<unat n] m"

definition mem_copy_local :: "u32 \<Rightarrow> u32 \<Rightarrow> u32 \<Rightarrow> (u32 \<Rightarrow> u8) \<Rightarrow> u32 \<Rightarrow> u8" where
  "mem_copy_local dst src n m = fold (\<lambda>i m. m(dst + of_nat i := m (src + of_nat i))) [0..<unat n] m"

text \<open>A C string in memory, of which the code looks at no more than 48 characters: names of symbols are at most 47 long.\<close>

primrec cstr :: "nat \<Rightarrow> (u32 \<Rightarrow> u8) \<Rightarrow> u32 \<Rightarrow> string" where
  "cstr 0 m a = []"
| "cstr (Suc n) m a = (if m a = 0 then [] else char_of (unat (m a)) # cstr n m (a + 1))"

definition upd_mem :: "((u32 \<Rightarrow> u8) \<Rightarrow> u32 \<Rightarrow> u8) \<Rightarrow> 'v mods \<Rightarrow> 'v mods" where
  "upd_mem f s = s\<lparr>md_mem := f (md_mem s)\<rparr>"

section \<open>Helpers\<close>

definition current_task_slot :: "'v mods \<Rightarrow> nat" where
  "current_task_slot s = (if md_task s < 0 \<or> md_task s \<ge> int MAX_TASKS then 0 else nat (md_task s))"

definition set_dlerror_for_task :: "nat \<Rightarrow> string \<Rightarrow> 'v mods \<Rightarrow> 'v mods" where
  "set_dlerror_for_task tid msg s = s\<lparr>md_dlerror := (md_dlerror s)[tid := copy_name NS_DLERROR_LEN (Some msg)]\<rparr>"

definition clear_dlerror_for_task :: "nat \<Rightarrow> 'v mods \<Rightarrow> 'v mods" where
  "clear_dlerror_for_task tid s = s\<lparr>md_dlerror := (md_dlerror s)[tid := []]\<rparr>"

definition parse_u32_dec_local :: "string \<Rightarrow> u32 option" where
  "parse_u32_dec_local s = (if s = [] then None
     else fold (\<lambda>c r. case r of None \<Rightarrow> None | Some v \<Rightarrow> if of_char c < (48 :: nat) \<or> of_char c > (57 :: nat) then None else Some (v * 10 + (of_char c - 48))) s (Some 0))"

definition align_up_u32 :: "u32 \<Rightarrow> u32 \<Rightarrow> u32" where
  "align_up_u32 value align = (if align = 0 \<or> align = 1 then value else (value + align - 1) AND NOT (align - 1))"

definition pool_alloc :: "mod_addr \<Rightarrow> u32 \<Rightarrow> u32 \<Rightarrow> ('v, u32) mod_op" where
  "pool_alloc ma sz align s =
     (let off = align_up_u32 (md_cursor s) (if align = 0 then 1 else align); fin = off + sz in
      if fin < off \<or> fin > NS_MODULE_POOL_SIZE then (0, s) else (ma_pool ma + off, s\<lparr>md_cursor := fin\<rparr>))"

definition export_set :: "nat \<Rightarrow> string \<Rightarrow> u32 \<Rightarrow> ns_export list \<Rightarrow> bool \<times> ns_export list" where
  "export_set cap name addr es =
     (if length es \<ge> cap then (False, es)
      else case find_slot (\<lambda>e. str_eq_loop (ex_name e) name) es of
        Some i \<Rightarrow> (True, es[i := (es ! i)\<lparr>ex_addr := addr\<rparr>])
      | None \<Rightarrow> (True, es @ [\<lparr>ex_name = copy_name 48 (Some name), ex_addr = addr\<rparr>]))"

definition add_kernel_export :: "string \<Rightarrow> u32 \<Rightarrow> 'v mods \<Rightarrow> 'v mods" where
  "add_kernel_export name addr s =
     (if name = [] \<or> addr = 0 then s else s\<lparr>md_kexports := snd (export_set NS_KERNEL_EXPORTS_MAX name addr (md_kexports s))\<rparr>)"

definition find_module_slot_by_path :: "string \<Rightarrow> int \<Rightarrow> 'v mods \<Rightarrow> nat option" where
  "find_module_slot_by_path path kind s = find_slot (\<lambda>ob. ob_used ob \<and> ob_kind ob = kind \<and> str_eq_loop (ob_path ob) path) (md_objs s)"

definition alloc_module_slot :: "'v mods \<Rightarrow> nat option" where
  "alloc_module_slot s = find_slot (\<lambda>ob. \<not> ob_used ob) (md_objs s)"

definition find_module_slot_by_handle :: "int \<Rightarrow> 'v mods \<Rightarrow> nat option" where
  "find_module_slot_by_handle handle s = find_slot (\<lambda>ob. ob_used ob \<and> ob_handle ob = handle) (md_objs s)"

definition upd_obj :: "nat \<Rightarrow> (ns_object \<Rightarrow> ns_object) \<Rightarrow> 'v mods \<Rightarrow> 'v mods" where
  "upd_obj i f s = s\<lparr>md_objs := (md_objs s)[i := f (md_objs s ! i)]\<rparr>"

definition module_add_export :: "string \<Rightarrow> u32 \<Rightarrow> ns_object \<Rightarrow> ns_object" where
  "module_add_export name addr ob = (if name = [] \<or> addr = 0 then ob else ob\<lparr>ob_exports := snd (export_set NS_EXPORTS_MAX name addr (ob_exports ob))\<rparr>)"

text \<open>The address of a symbol and the module that has it; \<open>None\<close> for the kernel.\<close>

definition export_addr :: "string \<Rightarrow> ns_export list \<Rightarrow> u32 option" where
  "export_addr name es = map_option (\<lambda>i. ex_addr (es ! i)) (find_slot (\<lambda>e. str_eq_loop (ex_name e) name) es)"

definition resolve_external_symbol :: "string \<Rightarrow> 'v mods \<Rightarrow> (u32 \<times> nat option) option" where
  "resolve_external_symbol name s =
     (if name = [] then None
      else case export_addr name (md_kexports s) of
        Some a \<Rightarrow> Some (a, None)
      | None \<Rightarrow> (case find_slot (\<lambda>ob. ob_used ob \<and> export_addr name (ob_exports ob) \<noteq> None) (md_objs s) of
          Some k \<Rightarrow> map_option (\<lambda>a. (a, Some k)) (export_addr name (ob_exports (md_objs s ! k)))
        | None \<Rightarrow> None))"

definition module_resolve_symbol_global :: "string \<Rightarrow> 'v mods \<Rightarrow> u32 option" where
  "module_resolve_symbol_global symbol s = map_option fst (resolve_external_symbol symbol s)"

definition add_dependency :: "nat \<Rightarrow> nat option \<Rightarrow> ('v, bool) mod_op" where
  "add_dependency slot own s = (case own of None \<Rightarrow> (True, s)
   | Some k \<Rightarrow>
       if k \<ge> NS_MODULE_MAX then (True, s)
       else let deps = ob_deps (md_objs s ! slot) in
         if k \<in> set deps then (True, s)
         else if length deps \<ge> NS_DEPS_MAX then (False, s)
         else (True, upd_obj k (\<lambda>ob. ob\<lparr>ob_ref_count := ob_ref_count ob + 1\<rparr>) (upd_obj slot (\<lambda>ob. ob\<lparr>ob_deps := deps @ [k]\<rparr>) s)))"

definition lazy_type_supported :: "u32 \<Rightarrow> bool" where
  "lazy_type_supported r_type \<longleftrightarrow> r_type = R_386_JMP_SLOT \<or> r_type = R_386_GLOB_DAT"

definition add_pending_reloc :: "nat \<Rightarrow> u32 \<Rightarrow> u32 \<Rightarrow> u32 \<Rightarrow> string \<Rightarrow> ('v, bool) mod_op" where
  "add_pending_reloc slot place r_type addend symbol s = (case find_slot (\<lambda>p. \<not> pr_used p) (md_pending s) of
     None \<Rightarrow> (False, s)
   | Some i \<Rightarrow> (True, s\<lparr>md_pending := (md_pending s)[i := \<lparr>pr_used = True, pr_target = slot, pr_place = place, pr_addend = addend, pr_type = r_type,
       pr_symbol = copy_name 48 (Some symbol)\<rparr>]\<rparr>))"

text \<open>The value that a relocation stores; \<open>None\<close> for a type that is not known.\<close>

definition reloc_value :: "u32 \<Rightarrow> u32 \<Rightarrow> u32 \<Rightarrow> u32 \<Rightarrow> u32 option" where
  "reloc_value r_type addend sy place =
     (if r_type = R_386_32 then Some (addend + sy) else if r_type = R_386_PC32 then Some (addend + sy - place)
      else if r_type = R_386_GLOB_DAT \<or> r_type = R_386_JMP_SLOT then Some sy else None)"

definition resolve_pending :: "nat \<Rightarrow> nat \<times> 'v mods \<Rightarrow> nat \<times> 'v mods" where
  "resolve_pending i = (\<lambda>(unresolved, s).
     let p = md_pending s ! i in
     if \<not> pr_used p then (unresolved, s)
     else case resolve_external_symbol (pr_symbol p) s of None \<Rightarrow> (unresolved + 1, s)
       | Some (a, own) \<Rightarrow>
           let s1 = (case reloc_value (pr_type p) (pr_addend p) a (pr_place p) of Some v \<Rightarrow> upd_mem (st32 (pr_place p) v) s | None \<Rightarrow> s);
               s2 = (if pr_target p < NS_MODULE_MAX then snd (add_dependency (pr_target p) own s1) else s1)
           in (unresolved, s2\<lparr>md_pending := (md_pending s2)[i := (md_pending s2 ! i)\<lparr>pr_used := False\<rparr>]\<rparr>))"

definition try_resolve_pending_relocs :: "('v, nat) mod_op" where
  "try_resolve_pending_relocs s = fold resolve_pending [0..<NS_PENDING_RELOC_MAX] (0, s)"

definition module_has_dependents :: "nat \<Rightarrow> 'v mods \<Rightarrow> bool" where
  "module_has_dependents slot s \<longleftrightarrow> list_ex (\<lambda>i. i \<noteq> slot \<and> ob_used (md_objs s ! i) \<and> slot \<in> set (ob_deps (md_objs s ! i))) [0..<NS_MODULE_MAX]"

definition module_dlsym :: "int \<Rightarrow> string \<Rightarrow> ('v, u32) mod_op" where
  "module_dlsym handle symbol s =
     (let t = current_task_slot s in
      case find_module_slot_by_handle handle s of
        None \<Rightarrow> (0, set_dlerror_for_task t ''dlsym: bad args'' s)
      | Some slot \<Rightarrow>
          if symbol = [] then (0, set_dlerror_for_task t ''dlsym: bad args'' s)
          else case export_addr symbol (ob_exports (md_objs s ! slot)) of
            Some a \<Rightarrow> (a, clear_dlerror_for_task t s)
          | None \<Rightarrow> (0, set_dlerror_for_task t ''dlsym: symbol not found'' s))"

section \<open>Loading an object\<close>

text \<open>Fields of the section header \<open>i\<close> of the table at \<open>sh\<close>, by their offset.\<close>

definition sec_field :: "u32 \<Rightarrow> nat \<Rightarrow> u32 \<Rightarrow> 'v mods \<Rightarrow> u32" where
  "sec_field sh i off s = ld32 (md_mem s) (sh + of_nat i * 40 + off)"

abbreviation sh_type :: "u32 \<Rightarrow> nat \<Rightarrow> 'v mods \<Rightarrow> u32" where "sh_type sh i s \<equiv> sec_field sh i 4 s"
abbreviation sh_flags :: "u32 \<Rightarrow> nat \<Rightarrow> 'v mods \<Rightarrow> u32" where "sh_flags sh i s \<equiv> sec_field sh i 8 s"
abbreviation sh_offset :: "u32 \<Rightarrow> nat \<Rightarrow> 'v mods \<Rightarrow> u32" where "sh_offset sh i s \<equiv> sec_field sh i 16 s"
abbreviation sh_size :: "u32 \<Rightarrow> nat \<Rightarrow> 'v mods \<Rightarrow> u32" where "sh_size sh i s \<equiv> sec_field sh i 20 s"
abbreviation sh_link :: "u32 \<Rightarrow> nat \<Rightarrow> 'v mods \<Rightarrow> u32" where "sh_link sh i s \<equiv> sec_field sh i 24 s"
abbreviation sh_info :: "u32 \<Rightarrow> nat \<Rightarrow> 'v mods \<Rightarrow> u32" where "sh_info sh i s \<equiv> sec_field sh i 28 s"
abbreviation sh_addralign :: "u32 \<Rightarrow> nat \<Rightarrow> 'v mods \<Rightarrow> u32" where "sh_addralign sh i s \<equiv> sec_field sh i 32 s"
abbreviation sh_entsize :: "u32 \<Rightarrow> nat \<Rightarrow> 'v mods \<Rightarrow> u32" where "sh_entsize sh i s \<equiv> sec_field sh i 36 s"

record load_ctx =
  lc_addrs :: "u32 list"
  lc_symtab :: "nat option"
  lc_dynsym :: "nat option"

text \<open>The object being loaded: its slot, the image and its size, the section headers and their number.\<close>

record load_env =
  le_slot :: nat
  le_image :: u32
  le_size :: u32
  le_sh :: u32
  le_shnum :: nat

definition set_base :: "u32 \<Rightarrow> ns_object \<Rightarrow> ns_object" where
  "set_base a ob = (if ob_image_base ob = 0 \<or> a < ob_image_base ob then ob\<lparr>ob_image_base := a\<rparr> else ob)"

definition fill_section :: "load_env \<Rightarrow> nat \<Rightarrow> u32 \<Rightarrow> 'v mods \<Rightarrow> 'v mods" where
  "fill_section le i a s = (let sh = le_sh le in
     if sh_type sh i s = SHT_NOBITS then upd_mem (mem_zero_local a (sh_size sh i s)) s
     else upd_mem (mem_copy_local a (le_image le + sh_offset sh i s) (sh_size sh i s)) s)"

primrec place_sections :: "mod_addr \<Rightarrow> load_env \<Rightarrow> nat list \<Rightarrow> load_ctx \<Rightarrow> ('v, load_ctx option) mod_op" where
  "place_sections ma le [] c s = (Some c, s)"
| "place_sections ma le (i # is) c s =
     (let sh = le_sh le; ty = sh_type sh i s in
      if sh_offset sh i s + sh_size sh i s > le_size le \<and> ty \<noteq> SHT_NOBITS then (None, s)
      else if sh_flags sh i s AND 2 = 0 \<or> sh_size sh i s = 0 then place_sections ma le is c s
      else let (a, s1) = pool_alloc ma (sh_size sh i s) (if sh_addralign sh i s = 0 then 4 else sh_addralign sh i s) s in
        if a = 0 then (None, s1)
        else place_sections ma le is (c\<lparr>lc_addrs := (lc_addrs c)[i := a],
            lc_symtab := (if ty = SHT_SYMTAB \<and> lc_symtab c = None then Some i else lc_symtab c),
            lc_dynsym := (if ty = SHT_DYNSYM \<and> lc_dynsym c = None then Some i else lc_dynsym c)\<rparr>)
          (fill_section le i a (upd_obj (le_slot le) (set_base a) s1)))"

text \<open>The address of a defined symbol, whose entry is at \<open>sy\<close>.\<close>

definition compute_symbol_addr :: "load_env \<Rightarrow> load_ctx \<Rightarrow> u32 \<Rightarrow> 'v mods \<Rightarrow> u32 option" where
  "compute_symbol_addr le c sy s =
     (let shndx = unat (ld16 (md_mem s) (sy + 14)) in
      if shndx = 0 \<or> shndx \<ge> le_shnum le \<or> lc_addrs c ! shndx = 0 then None
      else Some (lc_addrs c ! shndx + ld32 (md_mem s) (sy + 4)))"

text \<open>Entry \<open>r\<close> of the relocation section \<open>i\<close>.\<close>

definition store_reloc :: "load_env \<Rightarrow> u32 \<Rightarrow> u32 \<Rightarrow> u32 \<Rightarrow> u32 \<Rightarrow> ('v, bool) mod_op" where
  "store_reloc le r_type addend sy place s =
     (if r_type = R_386_NONE then (True, s)
      else if r_type = R_386_RELATIVE then (True, upd_mem (st32 place (ob_image_base (md_objs s ! le_slot le) + addend)) s)
      else case reloc_value r_type addend sy place of Some v \<Rightarrow> (True, upd_mem (st32 place v) s) | None \<Rightarrow> (False, s))"

definition bind_symbol :: "load_env \<Rightarrow> u32 \<Rightarrow> u32 \<Rightarrow> u32 \<Rightarrow> string \<Rightarrow> ('v, bool) mod_op" where
  "bind_symbol le r_type addend place name s = (case resolve_external_symbol name s of
     None \<Rightarrow>
       if lazy_type_supported r_type
       then let (ok, s1) = add_pending_reloc (le_slot le) place r_type addend name s in if ok then (True, upd_mem (st32 place 0) s1) else (False, s1)
       else (False, s)
   | Some (a, own) \<Rightarrow> let (ok, s1) = add_dependency (le_slot le) own s in if ok then store_reloc le r_type addend a place s1 else (False, s1))"

definition apply_reloc :: "load_env \<Rightarrow> load_ctx \<Rightarrow> nat \<Rightarrow> bool \<Rightarrow> nat \<Rightarrow> ('v, bool) mod_op" where
  "apply_reloc le c i is_rela r s =
     (let sh = le_sh le; m = md_mem s; info = unat (sh_info sh i s); link = unat (sh_link sh i s); str = unat (sh_link sh link s);
          entry = le_image le + sh_offset sh i s + of_nat r * (if is_rela then 12 else 8);
          r_offset = ld32 m entry; r_info = ld32 m (entry + 4); sym_idx = drop_bit 8 r_info; r_type = r_info AND 0xFF;
          place = lc_addrs c ! info + r_offset; addend = (if is_rela then ld32 m (entry + 8) else ld32 m place);
          sy = le_image le + sh_offset sh link s + sym_idx * 16
      in if sym_idx \<ge> sh_size sh link s div 16 \<or> r_offset + 4 > sh_size sh info s then (False, s)
         else if ld16 m (sy + 14) = 0
         then (if ld32 m sy \<ge> sh_size sh str s then (False, s)
               else bind_symbol le r_type addend place (cstr 48 m (le_image le + sh_offset sh str s + ld32 m sy)) s)
         else case compute_symbol_addr le c sy s of None \<Rightarrow> (False, s) | Some a \<Rightarrow> store_reloc le r_type addend a place s)"

primrec apply_relocs :: "load_env \<Rightarrow> load_ctx \<Rightarrow> nat \<Rightarrow> bool \<Rightarrow> nat list \<Rightarrow> ('v, bool) mod_op" where
  "apply_relocs le c i is_rela [] s = (True, s)"
| "apply_relocs le c i is_rela (r # rs) s = (let (ok, s1) = apply_reloc le c i is_rela r s in if ok then apply_relocs le c i is_rela rs s1 else (False, s1))"

definition reloc_section :: "load_env \<Rightarrow> load_ctx \<Rightarrow> nat \<Rightarrow> ('v, bool) mod_op" where
  "reloc_section le c i s =
     (let sh = le_sh le; n = le_shnum le; rel = (sh_type sh i s = SHT_REL \<and> sh_entsize sh i s = 8); rela = (sh_type sh i s = SHT_RELA \<and> sh_entsize sh i s = 12);
          info = unat (sh_info sh i s); link = unat (sh_link sh i s); str = unat (sh_link sh link s)
      in if \<not> rel \<and> \<not> rela then (True, s)
         else if info \<ge> n \<or> link \<ge> n then (False, s)
         else if lc_addrs c ! info = 0 then (True, s)
         else if (sh_type sh link s \<noteq> SHT_SYMTAB \<and> sh_type sh link s \<noteq> SHT_DYNSYM) \<or> sh_entsize sh link s \<noteq> 16 \<or> str \<ge> n then (False, s)
         else if sh_type sh str s \<noteq> SHT_STRTAB then (False, s)
         else if sh_offset sh link s + sh_size sh link s > le_size le \<or> sh_offset sh str s + sh_size sh str s > le_size le \<or>
             sh_offset sh i s + sh_size sh i s > le_size le then (False, s)
         else apply_relocs le c i rela [0..<unat (sh_size sh i s div sh_entsize sh i s)] s)"

primrec reloc_sections :: "load_env \<Rightarrow> load_ctx \<Rightarrow> nat list \<Rightarrow> ('v, bool) mod_op" where
  "reloc_sections le c [] s = (True, s)"
| "reloc_sections le c (i # is) s = (let (ok, s1) = reloc_section le c i s in if ok then reloc_sections le c is s1 else (False, s1))"

definition export_symbol :: "load_env \<Rightarrow> load_ctx \<Rightarrow> u32 \<Rightarrow> u32 \<Rightarrow> u32 \<Rightarrow> nat \<Rightarrow> 'v mods \<Rightarrow> 'v mods" where
  "export_symbol le c syms strtab str_size k s =
     (let m = md_mem s; sy = syms + of_nat k * 16; bnd = drop_bit 4 (m (sy + 12)) in
      if ld32 m sy \<ge> str_size then s
      else case compute_symbol_addr le c sy s of None \<Rightarrow> s
        | Some a \<Rightarrow> if bnd = 1 \<or> bnd = 2 then upd_obj (le_slot le) (module_add_export (cstr 48 m (strtab + ld32 m sy)) a) s else s)"

definition export_symbols :: "load_env \<Rightarrow> load_ctx \<Rightarrow> ('v, bool) mod_op" where
  "export_symbols le c s = (case (if lc_symtab c = None then lc_dynsym c else lc_symtab c) of
     None \<Rightarrow> (True, s)
   | Some k \<Rightarrow>
       let sh = le_sh le; str = unat (sh_link sh k s) in
       if str \<ge> le_shnum le \<or> sh_type sh str s \<noteq> SHT_STRTAB then (False, s)
       else (True, fold (export_symbol le c (le_image le + sh_offset sh k s) (le_image le + sh_offset sh str s) (sh_size sh str s)) [0..<unat (sh_size sh k s div 16)] s))"

definition elf_ident_ok :: "(u32 \<Rightarrow> u8) \<Rightarrow> u32 \<Rightarrow> bool" where
  "elf_ident_ok m im \<longleftrightarrow> m im = 0x7F \<and> m (im + 1) = 0x45 \<and> m (im + 2) = 0x4C \<and> m (im + 3) = 0x46 \<and> m (im + 4) = 1"

text \<open>The entry points and the check of the version, when all sections are in place.\<close>

definition finish_object :: "load_env \<Rightarrow> ('v, bool) mod_op" where
  "finish_object le s =
     (let h = ob_handle (md_objs s ! le_slot le);
          (i, s1) = module_dlsym h ''ns_module_init'' s; s2 = upd_obj (le_slot le) (\<lambda>ob. ob\<lparr>ob_init_addr := i\<rparr>) s1;
          (f, s3) = module_dlsym h ''ns_module_fini'' s2; s4 = upd_obj (le_slot le) (\<lambda>ob. ob\<lparr>ob_fini_addr := f\<rparr>) s3
      in if ob_kind (md_objs s4 ! le_slot le) = NS_MODULE_KIND_KERNEL
         then let (p, s5) = module_dlsym h ''ns_module_abi'' s4 in (\<not> (p \<noteq> 0 \<and> ld32 (md_mem s5) p \<noteq> NS_MODULE_ABI_MAGIC), s5)
         else (True, s4))"

definition load_object_from_image :: "mod_addr \<Rightarrow> nat \<Rightarrow> u32 \<Rightarrow> ('v, bool) mod_op" where
  "load_object_from_image ma slot image_size s =
     (let m = md_mem s; im = ma_buf ma; e_type = ld16 m (im + 16); e_shoff = ld32 m (im + 32); e_shnum = ld16 m (im + 48) in
      if image_size < 52 \<or> \<not> elf_ident_ok m im \<or> ld16 m (im + 18) \<noteq> 3 \<or> e_type \<noteq> 1 \<and> e_type \<noteq> 3 \<or> ld16 m (im + 46) \<noteq> 40 \<or> e_shnum = 0 \<or>
         unat e_shnum > NS_MODULE_MAX_SECTIONS \<or> e_shoff + ucast e_shnum * 40 > image_size then (False, s)
      else let le = \<lparr>le_slot = slot, le_image = im, le_size = image_size, le_sh = im + e_shoff, le_shnum = unat e_shnum\<rparr>;
               c0 = \<lparr>lc_addrs = replicate NS_MODULE_MAX_SECTIONS 0, lc_symtab = None, lc_dynsym = None\<rparr>;
               (r, s1) = place_sections ma le [0..<unat e_shnum] c0 (upd_obj slot (\<lambda>ob. ob\<lparr>ob_image_base := 0\<rparr>) s)
           in case r of None \<Rightarrow> (False, s1)
              | Some c \<Rightarrow>
                  let (ok, s2) = reloc_sections le c [0..<unat e_shnum] s1 in
                  if \<not> ok then (False, s2)
                  else let (ok, s3) = export_symbols le c s2 in if \<not> ok then (False, s3) else finish_object le s3)"

section \<open>Modules\<close>

definition object_zero :: ns_object where
  "object_zero = \<lparr>ob_used = False, ob_kind = 0, ob_handle = 0, ob_ref_count = 0, ob_init_called = False, ob_kernel_refs = 0, ob_image_base = 0, ob_init_addr = 0,
     ob_fini_addr = 0, ob_deps = [], ob_task_refs = replicate MAX_TASKS 0, ob_path = [], ob_exports = []\<rparr>"

definition object_fresh :: "nat \<Rightarrow> int \<Rightarrow> string \<Rightarrow> ns_object" where
  "object_fresh slot kind path = object_zero\<lparr>ob_used := True, ob_kind := kind, ob_handle := 0x4000 + int slot, ob_ref_count := 1, ob_path := copy_name 64 (Some path)\<rparr>"

definition load_new_module :: "mod_addr \<Rightarrow> 'v mod_files \<Rightarrow> string option \<Rightarrow> int \<Rightarrow> ('v, int) mod_op" where
  "load_new_module ma mf path kind s = (case path of None \<Rightarrow> (-1, s) | Some p \<Rightarrow>
     if p = [] then (-1, s)
     else case find_module_slot_by_path p kind s of
       Some slot \<Rightarrow> (ob_handle (md_objs s ! slot), upd_obj slot (\<lambda>ob. ob\<lparr>ob_ref_count := ob_ref_count ob + 1\<rparr>) s)
     | None \<Rightarrow>
         let (st, v1) = mf_stat mf p (md_fs s); s1 = s\<lparr>md_fs := v1\<rparr> in
         (case st of None \<Rightarrow> (-1, s1)
          | Some (flags, sz) \<Rightarrow>
              if flags = 0 \<or> sz = 0 \<or> unat sz > NS_MODULE_LOAD_LIMIT then (-1, s1)
              else let (got, bytes, v2) = mf_read mf p NS_MODULE_LOAD_LIMIT (md_fs s1); s2 = upd_mem (st_bytes (ma_buf ma) bytes) (s1\<lparr>md_fs := v2\<rparr>) in
                if got \<le> 0 \<or> got \<noteq> uint sz then (-1, s2)
                else case alloc_module_slot s2 of None \<Rightarrow> (-1, s2)
                  | Some slot \<Rightarrow>
                      let (ok, s3) = load_object_from_image ma slot (word_of_int got) (upd_obj slot (\<lambda>_. object_fresh slot kind p) s2)
                      in if \<not> ok then (-1, upd_obj slot (\<lambda>_. object_zero) s3) else (ob_handle (md_objs s3 ! slot), s3)))"

text \<open>
  Releasing a module calls itself for each module that it depends on. The depth of the calls is bounded by the fuel: one more than the number of slots,
  of which the first level is all that is used (\<open>release_depth\<close>).
\<close>

fun release_slot :: "nat \<Rightarrow> module_code \<Rightarrow> nat \<Rightarrow> bool \<Rightarrow> ('v, bool) mod_op" where
  "release_slot 0 run slot run_fini s = (False, s)"
| "release_slot (Suc n) run slot run_fini s =
     (let ob = md_objs s ! slot in
      if slot \<ge> NS_MODULE_MAX \<or> \<not> ob_used ob then (False, s)
      else if ob_ref_count ob > 0 then (True, s)
      else if module_has_dependents slot s then (False, s)
      else let s1 = (if run_fini \<and> ob_fini_addr ob \<noteq> 0 then s\<lparr>md_mem := snd (run (ob_fini_addr ob) (md_mem s))\<rparr> else s);
               s2 = fold (\<lambda>dep s. if dep < NS_MODULE_MAX \<and> ob_used (md_objs s ! dep) \<and> ob_ref_count (md_objs s ! dep) > 0
                       then snd (release_slot n run dep False (upd_obj dep (\<lambda>ob. ob\<lparr>ob_ref_count := ob_ref_count ob - 1\<rparr>) s)) else s) (ob_deps ob) s1;
               s3 = s2\<lparr>md_pending := map (\<lambda>p. if pr_used p \<and> pr_target p = slot then p\<lparr>pr_used := False\<rparr> else p) (md_pending s2)\<rparr>
           in (True, upd_obj slot (\<lambda>_. object_zero) s3))"

definition release_module_slot :: "module_code \<Rightarrow> nat \<Rightarrow> bool \<Rightarrow> ('v, bool) mod_op" where
  "release_module_slot = release_slot (NS_MODULE_MAX + 1)"

text \<open>The kernel's own functions are at the addresses of \<open>exports\<close>, in the order in which the code adds them.\<close>

definition module_loader_init :: "(string \<times> u32) list \<Rightarrow> 'v mods \<Rightarrow> 'v mods" where
  "module_loader_init exports s = fold (\<lambda>(n, a). add_kernel_export n a) exports
     (s\<lparr>md_kexports := [], md_cursor := 0, md_objs := replicate NS_MODULE_MAX object_zero,
        md_pending := replicate NS_PENDING_RELOC_MAX \<lparr>pr_used = False, pr_target = 0, pr_place = 0, pr_addend = 0, pr_type = 0, pr_symbol = []\<rparr>,
        md_dlerror := replicate MAX_TASKS []\<rparr>)"

definition task_in_range :: "int \<Rightarrow> bool" where
  "task_in_range t \<longleftrightarrow> \<not> (t < 0 \<or> t \<ge> int MAX_TASKS)"

definition module_dlopen_for_task :: "mod_addr \<Rightarrow> 'v mod_files \<Rightarrow> int \<Rightarrow> string option \<Rightarrow> ('v, int) mod_op" where
  "module_dlopen_for_task ma mf tid path s =
     (if \<not> task_in_range tid then (-1, s)
      else let t = nat tid; (handle, s1) = load_new_module ma mf path NS_MODULE_KIND_LIBRARY (clear_dlerror_for_task t s) in
        if handle < 0 then (-1, set_dlerror_for_task t ''dlopen: load failed'' s1)
        else case find_module_slot_by_handle handle s1 of
          None \<Rightarrow> (-1, set_dlerror_for_task t ''dlopen: bad handle'' s1)
        | Some slot \<Rightarrow>
            let (unresolved, s2) = try_resolve_pending_relocs (upd_obj slot (\<lambda>ob. ob\<lparr>ob_task_refs := (ob_task_refs ob)[t := ob_task_refs ob ! t + 1]\<rparr>) s1)
            in (handle, if unresolved > 0 then set_dlerror_for_task t ''dlopen: pending lazy symbols'' s2 else s2))"

definition module_dlopen :: "mod_addr \<Rightarrow> 'v mod_files \<Rightarrow> string option \<Rightarrow> ('v, int) mod_op" where
  "module_dlopen ma mf path s = module_dlopen_for_task ma mf (int (current_task_slot s)) path s"

definition drop_ref :: "ns_object \<Rightarrow> ns_object" where
  "drop_ref ob = (if ob_ref_count ob > 0 then ob\<lparr>ob_ref_count := ob_ref_count ob - 1\<rparr> else ob)"

definition module_dlclose_for_task :: "module_code \<Rightarrow> int \<Rightarrow> int \<Rightarrow> ('v, int) mod_op" where
  "module_dlclose_for_task run tid handle s =
     (if \<not> task_in_range tid then (-1, s)
      else let t = nat tid; s1 = clear_dlerror_for_task t s in
        case find_module_slot_by_handle handle s1 of
          None \<Rightarrow> (-1, set_dlerror_for_task t ''dlclose: bad handle'' s1)
        | Some slot \<Rightarrow>
            let ob = md_objs s1 ! slot in
            if ob_kind ob \<noteq> NS_MODULE_KIND_LIBRARY then (-1, set_dlerror_for_task t ''dlclose: not library'' s1)
            else if ob_task_refs ob ! t \<le> 0 then (-1, set_dlerror_for_task t ''dlclose: not owned by task'' s1)
            else let (ok, s2) = release_module_slot run slot False
                       (upd_obj slot (\<lambda>ob. drop_ref (ob\<lparr>ob_task_refs := (ob_task_refs ob)[t := ob_task_refs ob ! t - 1]\<rparr>)) s1)
                 in if ok then (0, s2) else (-1, set_dlerror_for_task t ''dlclose: dependency busy'' s2))"

definition module_dlclose :: "module_code \<Rightarrow> int \<Rightarrow> ('v, int) mod_op" where
  "module_dlclose run handle s = module_dlclose_for_task run (int (current_task_slot s)) handle s"

definition module_dlerror_for_task :: "int \<Rightarrow> 'v mods \<Rightarrow> string" where
  "module_dlerror_for_task tid s = (if \<not> task_in_range tid then ''dlerror: invalid task'' else md_dlerror s ! nat tid)"

definition module_copy_dlerror_for_task :: "int \<Rightarrow> nat \<Rightarrow> 'v mods \<Rightarrow> string option" where
  "module_copy_dlerror_for_task tid cap s = (if cap = 0 then None else Some (copy_name cap (Some (module_dlerror_for_task tid s))))"

definition module_insmod :: "mod_addr \<Rightarrow> 'v mod_files \<Rightarrow> module_code \<Rightarrow> string option \<Rightarrow> ('v, int) mod_op" where
  "module_insmod ma mf run path s =
     (let (handle, s1) = load_new_module ma mf path NS_MODULE_KIND_KERNEL s; t = current_task_slot s1 in
      if handle < 0 then (-1, set_dlerror_for_task t ''insmod: load failed'' s1)
      else case find_module_slot_by_handle handle s1 of
        None \<Rightarrow> (-1, set_dlerror_for_task t ''insmod: bad handle'' s1)
      | Some slot \<Rightarrow>
          let s2 = upd_obj slot (\<lambda>ob. ob\<lparr>ob_kernel_refs := ob_kernel_refs ob + 1\<rparr>) s1; ob = md_objs s2 ! slot;
              (rc, s3) = (if \<not> ob_init_called ob \<and> ob_init_addr ob \<noteq> 0 then let (rc, m) = run (ob_init_addr ob) (md_mem s2) in (rc, s2\<lparr>md_mem := m\<rparr>) else (0, s2))
          in if rc \<noteq> 0
             then (-1, set_dlerror_for_task t ''insmod: init failed'' (snd (release_module_slot run slot False
                    (upd_obj slot (\<lambda>ob. drop_ref (if ob_kernel_refs ob > 0 then ob\<lparr>ob_kernel_refs := ob_kernel_refs ob - 1\<rparr> else ob)) s3))))
             else let (unresolved, s4) = try_resolve_pending_relocs (upd_obj slot (\<lambda>ob. ob\<lparr>ob_init_called := True\<rparr>) s3)
                  in (0, if unresolved > 0 then set_dlerror_for_task t ''insmod: unresolved lazy symbols'' s4 else clear_dlerror_for_task t s4))"

definition module_rmmod :: "module_code \<Rightarrow> string option \<Rightarrow> ('v, int) mod_op" where
  "module_rmmod run arg s =
     (let t = current_task_slot s in
      case arg of None \<Rightarrow> (-1, set_dlerror_for_task t ''rmmod: bad args'' s)
      | Some p \<Rightarrow>
        if p = [] then (-1, set_dlerror_for_task t ''rmmod: bad args'' s)
        else let by_handle = (case parse_u32_dec_local p of Some h \<Rightarrow> find_module_slot_by_handle (sint h) s | None \<Rightarrow> None) in
          case (case by_handle of Some k \<Rightarrow> Some k | None \<Rightarrow> find_module_slot_by_path p NS_MODULE_KIND_KERNEL s) of
            None \<Rightarrow> (-1, set_dlerror_for_task t ''rmmod: module not found'' s)
          | Some slot \<Rightarrow>
              if ob_kind (md_objs s ! slot) \<noteq> NS_MODULE_KIND_KERNEL then (-1, set_dlerror_for_task t ''rmmod: module not found'' s)
              else if ob_kernel_refs (md_objs s ! slot) \<le> 0 then (-1, set_dlerror_for_task t ''rmmod: no kernel ref'' s)
              else if module_has_dependents slot s then (-1, set_dlerror_for_task t ''rmmod: dependent modules exist'' s)
              else let (ok, s1) = release_module_slot run slot True (upd_obj slot (\<lambda>ob. drop_ref (ob\<lparr>ob_kernel_refs := ob_kernel_refs ob - 1\<rparr>)) s)
                   in if ok then (0, clear_dlerror_for_task t s1) else (-1, set_dlerror_for_task t ''rmmod: module still busy'' s1))"

record module_info =
  mi_kind :: int
  mi_handle :: int
  mi_ref_count :: int
  mi_exported_symbols :: nat
  mi_path :: string

definition module_list :: "nat \<Rightarrow> 'v mods \<Rightarrow> module_info list" where
  "module_list max_entries s = map (\<lambda>ob. \<lparr>mi_kind = ob_kind ob, mi_handle = ob_handle ob, mi_ref_count = ob_ref_count ob, mi_exported_symbols = length (ob_exports ob),
     mi_path = copy_name 64 (Some (ob_path ob))\<rparr>) (copy_out ob_used max_entries (md_objs s))"

end
