(* ===== verification/ModuleProps.thy ===== *)
theory ModuleProps
  imports Module
begin

text \<open>
  References between modules: the count of a module is at least the number of references that tasks, the kernel and other modules hold, in every reachable state, so
  that no module is freed while something uses it.
\<close>

section \<open>The invariant\<close>

definition users :: "ns_object list \<Rightarrow> nat \<Rightarrow> nat set" where
  "users os k = {j. j < NS_MODULE_MAX \<and> ob_used (os ! j) \<and> k \<in> set (ob_deps (os ! j))}"

definition refs :: "ns_object list \<Rightarrow> nat \<Rightarrow> int" where
  "refs os k = sum_list (ob_task_refs (os ! k)) + ob_kernel_refs (os ! k) + int (card (users os k))"

definition obj_ok :: "ns_object list \<Rightarrow> nat \<Rightarrow> bool" where
  "obj_ok os k \<longleftrightarrow> ob_handle (os ! k) = 0x4000 + int k \<and> length (ob_task_refs (os ! k)) = MAX_TASKS \<and> (\<forall>r \<in> set (ob_task_refs (os ! k)). 0 \<le> r) \<and>
     0 \<le> ob_kernel_refs (os ! k) \<and> distinct (ob_deps (os ! k)) \<and> (\<forall>d \<in> set (ob_deps (os ! k)). d < NS_MODULE_MAX \<and> ob_used (os ! d)) \<and>
     refs os k \<le> ob_ref_count (os ! k)"

definition mod_inv :: "ns_object list \<Rightarrow> bool" where
  "mod_inv os \<longleftrightarrow> length os = NS_MODULE_MAX \<and> (\<forall>k < NS_MODULE_MAX. ob_used (os ! k) \<longrightarrow> obj_ok os k)"

lemma mod_invD: "mod_inv os \<Longrightarrow> k < NS_MODULE_MAX \<Longrightarrow> ob_used (os ! k) \<Longrightarrow> obj_ok os k"
  by (simp add: mod_inv_def)

lemma mod_inv_length: "mod_inv os \<Longrightarrow> length os = NS_MODULE_MAX"
  by (simp add: mod_inv_def)

lemma finite_users [simp]: "finite (users os k)"
  by (simp add: users_def)

lemma upd_nth: "xs[i := x] ! k = (if i = k \<and> i < length xs then x else xs ! k)"
  by (cases "i < length xs") (simp_all add: list_update_beyond)

text \<open>Changing an object in place: the users of every module stay when the object stays in use with its dependencies.\<close>

lemma users_same: "ob_used x = ob_used (os ! i) \<Longrightarrow> (ob_used x \<Longrightarrow> set (ob_deps x) = set (ob_deps (os ! i))) \<Longrightarrow> users (os[i := x]) k = users os k"
  unfolding users_def by (auto simp: upd_nth)

lemma used_update: "ob_used x = ob_used (os ! i) \<Longrightarrow> ob_used (os[i := x] ! k) = ob_used (os ! k)"
  by (auto simp: upd_nth)

lemma inv_update:
  assumes "mod_inv os" "ob_used x = ob_used (os ! i)" "ob_deps x = ob_deps (os ! i)" "ob_handle x = ob_handle (os ! i)"
    "ob_used x \<Longrightarrow> i < NS_MODULE_MAX \<Longrightarrow> length (ob_task_refs x) = MAX_TASKS \<and> (\<forall>r \<in> set (ob_task_refs x). 0 \<le> r) \<and> 0 \<le> ob_kernel_refs x \<and>
      sum_list (ob_task_refs x) + ob_kernel_refs x + int (card (users os i)) \<le> ob_ref_count x"
  shows "mod_inv (os[i := x])"
proof -
  have u: "users (os[i := x]) k = users os k" for k using assms(2,3) by (intro users_same) simp_all
  have "obj_ok (os[i := x]) k" if k: "k < NS_MODULE_MAX" "ob_used (os[i := x] ! k)" for k
  proof -
    have ok: "obj_ok os k" using mod_invD [OF assms(1) k(1)] k(2) used_update [OF assms(2)] by simp
    have ud: "ob_used (os[i := x] ! d) = ob_used (os ! d)" for d by (rule used_update [OF assms(2)])
    show ?thesis
    proof (cases "k = i")
      case True
      then have "os[i := x] ! k = x" using k(1) assms(1) by (simp add: mod_inv_def)
      then show ?thesis using ok assms(3-5) k True ud u by (simp add: obj_ok_def refs_def)
    next
      case False
      then have "os[i := x] ! k = os ! k" by simp
      then show ?thesis using ok ud u by (simp add: obj_ok_def refs_def)
    qed
  qed
  then show ?thesis using assms(1) by (simp add: mod_inv_def)
qed

text \<open>Fields that the invariant does not look at.\<close>

definition same_core :: "ns_object \<Rightarrow> ns_object \<Rightarrow> bool" where
  "same_core x y \<longleftrightarrow> ob_used x = ob_used y \<and> ob_deps x = ob_deps y \<and> ob_handle x = ob_handle y \<and> ob_task_refs x = ob_task_refs y \<and>
     ob_kernel_refs x = ob_kernel_refs y \<and> ob_ref_count x = ob_ref_count y"

lemma same_core_refl [simp]: "same_core x x"
  by (simp add: same_core_def)

definition core_eq :: "ns_object list \<Rightarrow> ns_object list \<Rightarrow> bool" where
  "core_eq os os' \<longleftrightarrow> length os' = length os \<and> (\<forall>k < length os. same_core (os' ! k) (os ! k))"

lemma core_eq_refl [simp]: "core_eq os os"
  by (simp add: core_eq_def)

lemma core_eq_trans: "core_eq a b \<Longrightarrow> core_eq b c \<Longrightarrow> core_eq a c"
  by (auto simp: core_eq_def same_core_def)

lemma core_eq_update: "same_core x (os ! i) \<Longrightarrow> core_eq os (os[i := x])"
  by (auto simp: core_eq_def upd_nth)

lemma core_eq_users: "core_eq os os' \<Longrightarrow> length os = NS_MODULE_MAX \<Longrightarrow> users os' k = users os k"
  unfolding users_def by (rule Collect_cong) (auto simp: core_eq_def same_core_def)

lemma core_eq_inv: "core_eq os os' \<Longrightarrow> mod_inv os \<Longrightarrow> mod_inv os'"
proof -
  assume c: "core_eq os os'" and i: "mod_inv os"
  have l: "length os = NS_MODULE_MAX" "length os' = NS_MODULE_MAX" using c i by (simp_all add: core_eq_def mod_inv_def)
  have s: "same_core (os' ! k) (os ! k)" if "k < NS_MODULE_MAX" for k using c l that by (simp add: core_eq_def)
  have "obj_ok os' k" if k: "k < NS_MODULE_MAX" "ob_used (os' ! k)" for k
  proof -
    have "obj_ok os k" using mod_invD [OF i k(1)] k s [OF k(1)] by (simp add: same_core_def)
    then show ?thesis using s [OF k(1)] s by (simp add: obj_ok_def refs_def core_eq_users [OF c l(1)] same_core_def)
  qed
  then show ?thesis using l by (simp add: mod_inv_def)
qed

section \<open>Dependencies\<close>

lemma dependency_inv:
  assumes "mod_inv os" "slot < NS_MODULE_MAX" "k < NS_MODULE_MAX" "ob_used (os ! k)" "k \<notin> set (ob_deps (os ! slot))"
    "os' = (os[slot := (os ! slot)\<lparr>ob_deps := ob_deps (os ! slot) @ [k]\<rparr>])"
  shows "mod_inv (os'[k := (os' ! k)\<lparr>ob_ref_count := ob_ref_count (os' ! k) + 1\<rparr>])"
proof -
  let ?y = "(os' ! k)\<lparr>ob_ref_count := ob_ref_count (os' ! k) + 1\<rparr>"
  have l: "length os = NS_MODULE_MAX" using assms(1) by (simp add: mod_inv_def)
  have deps: "ob_deps (os'[k := ?y] ! j) = (if j = slot then ob_deps (os ! slot) @ [k] else ob_deps (os ! j))" for j
    using l assms(2,3) by (simp add: assms(6) upd_nth)
  have keep: "ob_used (os'[k := ?y] ! j) = ob_used (os ! j)" "ob_handle (os'[k := ?y] ! j) = ob_handle (os ! j)" "ob_task_refs (os'[k := ?y] ! j) = ob_task_refs (os ! j)"
    "ob_kernel_refs (os'[k := ?y] ! j) = ob_kernel_refs (os ! j)" "ob_ref_count (os'[k := ?y] ! j) = ob_ref_count (os ! j) + (if j = k then 1 else 0)" for j
    using l assms(2,3) by (simp_all add: assms(6) upd_nth)
  have card: "card (users (os'[k := ?y]) j) \<le> card (users os j) + (if j = k then 1 else 0)" for j
  proof -
    have "users (os'[k := ?y]) j \<subseteq> users os j \<union> (if j = k then {slot} else {})" by (auto simp: users_def keep(1) deps split: if_splits)
    from card_mono [OF _ this] have "card (users (os'[k := ?y]) j) \<le> card (users os j \<union> (if j = k then {slot} else {}))" by simp
    also have "\<dots> \<le> card (users os j) + card (if j = k then {slot} else {})" by (rule card_Un_le)
    also have "\<dots> = card (users os j) + (if j = k then 1 else 0)" by simp
    finally show ?thesis .
  qed
  have "obj_ok (os'[k := ?y]) j" if j: "j < NS_MODULE_MAX" "ob_used (os ! j)" for j
  proof -
    have ok: "obj_ok os j" using mod_invD [OF assms(1) j] .
    have "distinct (ob_deps (os'[k := ?y] ! j))" "\<forall>d \<in> set (ob_deps (os'[k := ?y] ! j)). d < NS_MODULE_MAX \<and> ob_used (os ! d)"
      using ok assms(3-5) by (auto simp: deps obj_ok_def)
    moreover have "refs (os'[k := ?y]) j \<le> ob_ref_count (os'[k := ?y] ! j)" using ok card [of j] by (auto simp: obj_ok_def refs_def keep split: if_splits)
    ultimately show ?thesis using ok by (simp add: obj_ok_def keep)
  qed
  moreover have "length (os'[k := ?y]) = NS_MODULE_MAX" using l by (simp add: assms(6))
  ultimately show ?thesis unfolding mod_inv_def keep(1) by blast
qed

lemma add_dependency_inv:
  assumes "mod_inv (md_objs s)" "slot < NS_MODULE_MAX" "\<And>k. own = Some k \<Longrightarrow> k < NS_MODULE_MAX \<and> ob_used (md_objs s ! k)"
  shows "mod_inv (md_objs (snd (add_dependency slot own s)))"
proof (cases own)
  case None
  then show ?thesis using assms(1) by (simp add: add_dependency_def)
next
  case (Some k)
  show ?thesis
  proof (cases "k \<in> set (ob_deps (md_objs s ! slot)) \<or> length (ob_deps (md_objs s ! slot)) \<ge> NS_DEPS_MAX")
    case True
    then show ?thesis using assms(1) Some by (auto simp: add_dependency_def Let_def)
  next
    case False
    then show ?thesis using dependency_inv [OF assms(1,2) _ _ _ refl, of k] assms(3) [OF Some] Some
      by (auto simp: add_dependency_def Let_def upd_obj_def)
  qed
qed

lemma resolve_owner:
  "resolve_external_symbol name s = Some (a, Some k) \<Longrightarrow> k < length (md_objs s) \<and> ob_used (md_objs s ! k) \<and> ob_exports (md_objs s ! k) \<noteq> []"
proof -
  assume "resolve_external_symbol name s = Some (a, Some k)"
  then have "find_slot (\<lambda>ob. ob_used ob \<and> export_addr name (ob_exports ob) \<noteq> None) (md_objs s) = Some k"
    by (auto simp: resolve_external_symbol_def split: if_splits option.splits)
  from find_slot_SomeD [OF this] show ?thesis by (auto simp: export_addr_def)
qed

lemma resolve_pending_inv: "mod_inv (md_objs (snd x)) \<Longrightarrow> mod_inv (md_objs (snd (resolve_pending i x)))"
proof -
  assume inv: "mod_inv (md_objs (snd x))"
  obtain n s where x: "x = (n, s)" by (cases x)
  let ?p = "md_pending s ! i"
  show ?thesis
  proof (cases "\<not> pr_used ?p \<or> resolve_external_symbol (pr_symbol ?p) s = None")
    case True
    then show ?thesis using inv by (auto simp: resolve_pending_def x Let_def)
  next
    case False
    then obtain a own where r: "pr_used ?p" "resolve_external_symbol (pr_symbol ?p) s = Some (a, own)" by auto
    define s1 where "s1 = (case reloc_value (pr_type ?p) (pr_addend ?p) a (pr_place ?p) of Some v \<Rightarrow> upd_mem (st32 (pr_place ?p) v) s | None \<Rightarrow> s)"
    have o: "md_objs s1 = md_objs s" by (simp add: s1_def upd_mem_def split: option.split)
    have "mod_inv (md_objs (snd (add_dependency (pr_target ?p) own s1)))" if "pr_target ?p < NS_MODULE_MAX"
    proof (rule add_dependency_inv)
      show "mod_inv (md_objs s1)" using inv by (simp add: o x)
      show "k < NS_MODULE_MAX \<and> ob_used (md_objs s1 ! k)" if "own = Some k" for k
        using resolve_owner [OF r(2) [unfolded that]] inv by (simp add: o x mod_inv_def)
    qed (rule that)
    then show ?thesis using r inv o by (simp add: resolve_pending_def x Let_def s1_def [symmetric])
  qed
qed

lemma try_resolve_inv: "mod_inv (md_objs s) \<Longrightarrow> mod_inv (md_objs (snd (try_resolve_pending_relocs s)))"
proof -
  have "mod_inv (md_objs (snd x)) \<Longrightarrow> mod_inv (md_objs (snd (fold resolve_pending is x)))" for "is" and x :: "nat \<times> 'a mods"
    by (induction "is" arbitrary: x) (auto simp: resolve_pending_inv)
  from this [of "(0, s)"] show "mod_inv (md_objs s) \<Longrightarrow> mod_inv (md_objs (snd (try_resolve_pending_relocs s)))" by (simp add: try_resolve_pending_relocs_def)
qed

section \<open>Loading\<close>

text \<open>The object that is being loaded: nothing depends on it, and its count is one more than its references.\<close>

definition loading :: "nat \<Rightarrow> ns_object list \<Rightarrow> bool" where
  "loading slot os \<longleftrightarrow> mod_inv os \<and> slot < NS_MODULE_MAX \<and> ob_used (os ! slot) \<and> users os slot = {} \<and> refs os slot + 1 \<le> ob_ref_count (os ! slot)"

lemma core_eq_loading: "core_eq os os' \<Longrightarrow> loading slot os \<Longrightarrow> loading slot os'"
proof -
  assume c: "core_eq os os'" and l: "loading slot os"
  then have i: "mod_inv os" "length os = NS_MODULE_MAX" "slot < NS_MODULE_MAX" by (simp_all add: loading_def mod_inv_def)
  have s: "same_core (os' ! slot) (os ! slot)" using c i(2,3) by (simp add: core_eq_def)
  show ?thesis using l s core_eq_inv [OF c i(1)] core_eq_users [OF c i(2)] by (simp add: loading_def refs_def same_core_def)
qed

definition fresh_loading :: "nat \<Rightarrow> 'v mods \<Rightarrow> bool" where
  "fresh_loading slot s \<longleftrightarrow> loading slot (md_objs s) \<and> ob_exports (md_objs s ! slot) = []"

lemma fresh_objs: "md_objs s' = md_objs s \<Longrightarrow> fresh_loading slot s \<Longrightarrow> fresh_loading slot s'"
  by (simp add: fresh_loading_def)

lemma fresh_update:
  assumes "fresh_loading slot s" "\<And>ob. same_core (f ob) ob \<and> ob_exports (f ob) = ob_exports ob"
  shows "fresh_loading slot (upd_obj i f s)"
proof -
  have "core_eq (md_objs s) (md_objs (upd_obj i f s))" using assms(2) by (simp add: upd_obj_def core_eq_update)
  then show ?thesis using assms core_eq_loading by (auto simp: fresh_loading_def upd_obj_def upd_nth)
qed

lemma pool_alloc_objs: "md_objs (snd (pool_alloc ma sz al s)) = md_objs s"
  by (simp add: pool_alloc_def Let_def)

lemma fill_section_objs: "md_objs (fill_section le i a s) = md_objs s"
  by (simp add: fill_section_def upd_mem_def Let_def)

lemma place_sections_fresh: "fresh_loading (le_slot le) s \<Longrightarrow> fresh_loading (le_slot le) (snd (place_sections ma le is c s))"
proof (induction "is" arbitrary: c s)
  case Nil
  then show ?case by simp
next
  case (Cons i "is")
  define r where "r = pool_alloc ma (sh_size (le_sh le) i s) (if sh_addralign (le_sh le) i s = 0 then 4 else sh_addralign (le_sh le) i s) s"
  have f1: "fresh_loading (le_slot le) (snd r)" unfolding r_def by (rule fresh_objs [OF pool_alloc_objs Cons.prems])
  have "fresh_loading (le_slot le) (upd_obj (le_slot le) (set_base a) (snd r))" for a by (rule fresh_update [OF f1]) (simp add: set_base_def same_core_def)
  then have f2: "fresh_loading (le_slot le) (fill_section le i a (upd_obj (le_slot le) (set_base a) (snd r)))" for a using fresh_objs [OF fill_section_objs] by blast
  show ?case using Cons.IH [OF Cons.prems] Cons.IH [OF f2] Cons.prems f1 by (simp add: Let_def split_beta r_def)
qed

lemma add_dependency_fresh:
  assumes "fresh_loading slot s" "\<And>k. own = Some k \<Longrightarrow> k < NS_MODULE_MAX \<and> ob_used (md_objs s ! k) \<and> k \<noteq> slot"
  shows "fresh_loading slot (snd (add_dependency slot own s))"
proof -
  have l: "loading slot (md_objs s)" "ob_exports (md_objs s ! slot) = []" "length (md_objs s) = NS_MODULE_MAX" "slot < NS_MODULE_MAX"
    using assms(1) by (simp_all add: fresh_loading_def loading_def mod_inv_def)
  have inv: "mod_inv (md_objs (snd (add_dependency slot own s)))" using add_dependency_inv [of s slot own] assms(2) l(1,4) by (simp add: loading_def)
  let ?t = "snd (add_dependency slot own s)"
  have e: "ob_used (md_objs ?t ! j) = ob_used (md_objs s ! j)" "j \<noteq> slot \<Longrightarrow> ob_deps (md_objs ?t ! j) = ob_deps (md_objs s ! j)"
    "ob_exports (md_objs ?t ! j) = ob_exports (md_objs s ! j)" for j
    using l(3,4) assms(2) by (auto simp: add_dependency_def Let_def upd_obj_def upd_nth split: option.splits)
  have d: "slot \<notin> set (ob_deps (md_objs ?t ! slot))"
  proof -
    have "slot \<notin> set (ob_deps (md_objs s ! slot))" using l(1) by (auto simp: loading_def users_def)
    then show ?thesis using l(3,4) assms(2) by (auto simp: add_dependency_def Let_def upd_obj_def upd_nth split: option.splits)
  qed
  have c: "ob_task_refs (md_objs ?t ! slot) = ob_task_refs (md_objs s ! slot)" "ob_kernel_refs (md_objs ?t ! slot) = ob_kernel_refs (md_objs s ! slot)"
    "ob_ref_count (md_objs ?t ! slot) = ob_ref_count (md_objs s ! slot)"
    using l(3,4) assms(2) by (auto simp: add_dependency_def Let_def upd_obj_def upd_nth split: option.splits)
  have "users (md_objs ?t) slot = {}"
  proof -
    have "slot \<notin> set (ob_deps (md_objs s ! j))" if "j < NS_MODULE_MAX" "ob_used (md_objs s ! j)" for j using l(1) that by (auto simp: loading_def users_def)
    then show ?thesis using d e(1,2) by (auto simp: users_def) metis
  qed
  then show ?thesis using l inv c e(1,3) by (simp add: fresh_loading_def loading_def refs_def)
qed

lemma store_reloc_objs: "md_objs (snd (store_reloc le r_type addend sy place s)) = md_objs s"
  by (simp add: store_reloc_def upd_mem_def split: option.split)

lemma bind_symbol_fresh: "fresh_loading (le_slot le) s \<Longrightarrow> fresh_loading (le_slot le) (snd (bind_symbol le r_type addend place name s))"
proof (cases "resolve_external_symbol name s")
  case None
  assume f: "fresh_loading (le_slot le) s"
  show ?thesis using f by (auto simp: bind_symbol_def None add_pending_reloc_def upd_mem_def Let_def fresh_loading_def split: option.splits)
next
  case (Some p)
  assume f: "fresh_loading (le_slot le) s"
  obtain a own where p: "p = (a, own)" by (cases p)
  have k: "k < NS_MODULE_MAX \<and> ob_used (md_objs s ! k) \<and> k \<noteq> le_slot le" if "own = Some k" for k
    using resolve_owner [OF Some [unfolded p that]] f by (auto simp: fresh_loading_def loading_def mod_inv_def)
  have "fresh_loading (le_slot le) (snd (add_dependency (le_slot le) own s))" by (rule add_dependency_fresh [OF f k])
  then show ?thesis using fresh_objs [OF store_reloc_objs] by (auto simp: bind_symbol_def Some p Let_def split_beta)
qed

lemma apply_reloc_fresh: "fresh_loading (le_slot le) s \<Longrightarrow> fresh_loading (le_slot le) (snd (apply_reloc le c i is_rela r s))"
  using bind_symbol_fresh fresh_objs [OF store_reloc_objs] by (auto simp: apply_reloc_def Let_def split: option.split)

lemma apply_relocs_fresh: "fresh_loading (le_slot le) s \<Longrightarrow> fresh_loading (le_slot le) (snd (apply_relocs le c i is_rela rs s))"
  by (induction rs arbitrary: s) (auto simp: Let_def split_beta apply_reloc_fresh)

lemma reloc_sections_fresh: "fresh_loading (le_slot le) s \<Longrightarrow> fresh_loading (le_slot le) (snd (reloc_sections le c is s))"
proof (induction "is" arbitrary: s)
  case (Cons i "is")
  have "fresh_loading (le_slot le) (snd (reloc_section le c i s))" using Cons.prems apply_relocs_fresh by (auto simp: reloc_section_def Let_def)
  with Cons.IH show ?case by (auto simp: Let_def split_beta)
qed simp

lemma export_symbols_core: "core_eq (md_objs s) (md_objs (snd (export_symbols le c s)))"
proof -
  have one: "core_eq (md_objs s) (md_objs (export_symbol le c sy st z k s))" for sy st z k and s :: "'a mods"
    by (auto simp: export_symbol_def Let_def upd_obj_def module_add_export_def same_core_def intro!: core_eq_update split: option.split)
  have "core_eq (md_objs s) (md_objs (fold (export_symbol le c sy st z) ks s))" for sy st z ks and s :: "'a mods"
  proof (induction ks arbitrary: s)
    case (Cons k ks)
    show ?case using core_eq_trans [OF one Cons.IH] by simp
  qed simp
  then show ?thesis by (auto simp: export_symbols_def Let_def split: option.split)
qed

lemma dlsym_objs: "md_objs (snd (module_dlsym h sy s)) = md_objs s"
  by (auto simp: module_dlsym_def set_dlerror_for_task_def clear_dlerror_for_task_def Let_def split: option.split)

lemma finish_core: "core_eq (md_objs s) (md_objs (snd (finish_object le s)))"
proof -
  have u: "core_eq (md_objs t) (md_objs (upd_obj i f t))" if "\<And>ob. same_core (f ob) ob" for f i and t :: "'a mods" using that by (simp add: upd_obj_def core_eq_update)
  define s1 where "s1 = snd (module_dlsym (ob_handle (md_objs s ! le_slot le)) ''ns_module_init'' s)"
  define s2 where "s2 = upd_obj (le_slot le) (\<lambda>ob. ob\<lparr>ob_init_addr := fst (module_dlsym (ob_handle (md_objs s ! le_slot le)) ''ns_module_init'' s)\<rparr>) s1"
  define s3 where "s3 = snd (module_dlsym (ob_handle (md_objs s ! le_slot le)) ''ns_module_fini'' s2)"
  have "core_eq (md_objs s) (md_objs s1)" by (simp add: s1_def dlsym_objs)
  then have "core_eq (md_objs s) (md_objs s2)" unfolding s2_def by (rule core_eq_trans) (rule u, simp add: same_core_def)
  then have "core_eq (md_objs s) (md_objs s3)" by (simp add: s3_def dlsym_objs)
  then have "core_eq (md_objs s) (md_objs (upd_obj (le_slot le) (\<lambda>ob. ob\<lparr>ob_fini_addr := a\<rparr>) s3))" for a
    by (rule core_eq_trans) (rule u, simp add: same_core_def)
  then show ?thesis by (auto simp: finish_object_def Let_def split_beta dlsym_objs s1_def s2_def s3_def)
qed

lemma load_object_loading:
  assumes "fresh_loading slot s"
  shows "loading slot (md_objs (snd (load_object_from_image ma slot image_size s)))"
proof -
  define s0 where "s0 = upd_obj slot (\<lambda>ob. ob\<lparr>ob_image_base := 0\<rparr>) s"
  have f0: "fresh_loading slot s0" unfolding s0_def by (rule fresh_update [OF assms]) (simp add: same_core_def)
  have p: "fresh_loading slot (snd (place_sections ma le is c s0))" if "le_slot le = slot" for le "is" c using place_sections_fresh [of le s0] f0 that by auto
  have r: "fresh_loading slot (snd (reloc_sections le c' js (snd (place_sections ma le is c s0))))" if "le_slot le = slot" for le "is" c c' js
    using reloc_sections_fresh [where le = le and s = "snd (place_sections ma le is c s0)"] p [OF that] that by simp
  have e: "loading slot (md_objs (snd (export_symbols le c'' (snd (reloc_sections le c' js (snd (place_sections ma le is c s0)))))))" if "le_slot le = slot" for le "is" c c' c'' js
    by (rule core_eq_loading [OF export_symbols_core r [OF that, unfolded fresh_loading_def, THEN conjunct1]])
  have fi: "loading slot (md_objs (snd (finish_object le (snd (export_symbols le c'' (snd (reloc_sections le c' js (snd (place_sections ma le is c s0)))))))))"
    if "le_slot le = slot" for le "is" c c' c'' js using core_eq_loading [OF finish_core e [OF that]] .
  show ?thesis unfolding load_object_from_image_def Let_def split_beta s0_def [symmetric]
    using assms p r e fi by (auto simp: fresh_loading_def split: option.split)
qed


lemma users_unused: "mod_inv os \<Longrightarrow> \<not> ob_used (os ! k) \<Longrightarrow> users os k = {}"
  by (auto simp: users_def mod_inv_def obj_ok_def)

lemma fresh_object_loading:
  assumes "mod_inv os" "slot < NS_MODULE_MAX" "\<not> ob_used (os ! slot)"
  shows "loading slot (os[slot := object_fresh slot kind path])"
proof -
  let ?os = "os[slot := object_fresh slot kind path]"
  have l: "length os = NS_MODULE_MAX" using assms(1) by (rule mod_inv_length)
  have f: "?os ! slot = object_fresh slot kind path" using l assms(2) by simp
  have fields: "ob_used (object_fresh slot kind path)" "ob_deps (object_fresh slot kind path) = []" "ob_ref_count (object_fresh slot kind path) = 1"
    "ob_handle (object_fresh slot kind path) = 0x4000 + int slot" "ob_task_refs (object_fresh slot kind path) = replicate MAX_TASKS 0" "ob_kernel_refs (object_fresh slot kind path) = 0"
    by (simp_all add: object_fresh_def object_zero_def)
  have u: "users ?os k = users os k" for k unfolding users_def using assms(3) by (auto simp: upd_nth fields split: if_splits)
  have z: "users ?os slot = {}" unfolding u by (rule users_unused [OF assms(1,3)])
  have r: "refs ?os slot = 0" by (simp only: refs_def f fields z) (simp add: numeral_eq_Suc)
  have "obj_ok ?os k" if k: "k < NS_MODULE_MAX" "ob_used (?os ! k)" for k
  proof (cases "k = slot")
    case True
    then show ?thesis using f r by (simp add: obj_ok_def fields)
  next
    case False
    then have ok: "obj_ok os k" "?os ! k = os ! k" using mod_invD [OF assms(1)] k by simp_all
    have "ob_used (os ! d) \<Longrightarrow> ob_used (?os ! d)" for d by (auto simp: upd_nth object_fresh_def object_zero_def)
    then show ?thesis using ok u by (simp add: obj_ok_def refs_def)
  qed
  then show ?thesis using l assms(2) f z r by (simp add: loading_def mod_inv_def fields)
qed

text \<open>Clearing a slot on which nothing else depends.\<close>

lemma zero_inv:
  assumes "mod_inv os" "users os slot \<subseteq> {slot}"
  shows "mod_inv (os[slot := object_zero])"
proof -
  let ?os = "os[slot := object_zero]"
  have l: "length os = NS_MODULE_MAX" using assms(1) by (rule mod_inv_length)
  have zu: "\<not> ob_used object_zero" by (simp add: object_zero_def)
  have sub: "users ?os k \<subseteq> users os k" for k unfolding users_def using zu by (auto simp: upd_nth split: if_splits)
  have "obj_ok ?os k" if k: "k < NS_MODULE_MAX" "ob_used (?os ! k)" for k
  proof -
    have ne: "k \<noteq> slot" using k zu l by (auto simp: upd_nth split: if_splits)
    then have ok: "obj_ok os k" "?os ! k = os ! k" using mod_invD [OF assms(1)] k by simp_all
    have "slot \<notin> set (ob_deps (os ! k))" using assms(2) ne k ok(2) by (auto simp: users_def)
    then have "\<forall>d \<in> set (ob_deps (os ! k)). ob_used (?os ! d)" using ok(1) by (auto simp: obj_ok_def upd_nth)
    moreover have "card (users ?os k) \<le> card (users os k)" by (rule card_mono [OF finite_users sub])
    ultimately show ?thesis using ok by (simp add: obj_ok_def refs_def)
  qed
  then show ?thesis using l by (simp add: mod_inv_def)
qed

lemma load_new_module_inv:
  assumes "mod_inv (md_objs s)" "load_new_module ma mf path kind s = (handle, s')"
  shows "mod_inv (md_objs s') \<and> (handle \<ge> 0 \<longrightarrow> (\<exists>slot < NS_MODULE_MAX. handle = 0x4000 + int slot \<and> ob_used (md_objs s' ! slot) \<and>
    refs (md_objs s') slot + 1 \<le> ob_ref_count (md_objs s' ! slot)))"
proof (cases path)
  case None
  then show ?thesis using assms by (simp add: load_new_module_def)
next
  case (Some p)
  have l: "length (md_objs s) = NS_MODULE_MAX" using assms(1) by (rule mod_inv_length)
  show ?thesis
  proof (cases "p = [] \<or> find_module_slot_by_path p kind s \<noteq> None")
    case True
    then consider "p = []" | slot where "p \<noteq> []" "find_module_slot_by_path p kind s = Some slot" by auto
    then show ?thesis
    proof cases
      case 1
      then show ?thesis using assms Some by (simp add: load_new_module_def)
    next
      case 2
      from find_slot_SomeD [OF 2(2) [unfolded find_module_slot_by_path_def]] have k: "slot < NS_MODULE_MAX" "ob_used (md_objs s ! slot)" using l by auto
      let ?x = "(md_objs s ! slot)\<lparr>ob_ref_count := ob_ref_count (md_objs s ! slot) + 1\<rparr>"
      have ok: "obj_ok (md_objs s) slot" by (rule mod_invD [OF assms(1) k])
      have r: "handle = ob_handle (md_objs s ! slot)" "md_objs s' = (md_objs s)[slot := ?x]" using assms(2) 2 Some by (auto simp: load_new_module_def upd_obj_def)
      have "mod_inv ((md_objs s)[slot := ?x])" using ok by (intro inv_update [OF assms(1)]) (simp_all add: obj_ok_def refs_def)
      moreover have "users ((md_objs s)[slot := ?x]) slot = users (md_objs s) slot" by (rule users_same) simp_all
      ultimately show ?thesis using r k ok l by (auto simp: obj_ok_def refs_def)
    qed
  next
    case False
    define st where "st = mf_stat mf p (md_fs s)"
    define s1 where "s1 = s\<lparr>md_fs := snd st\<rparr>"
    define rd where "rd = mf_read mf p NS_MODULE_LOAD_LIMIT (md_fs s1)"
    define s2 where "s2 = upd_mem (st_bytes (ma_buf ma) (fst (snd rd))) (s1\<lparr>md_fs := snd (snd rd)\<rparr>)"
    have o: "md_objs s1 = md_objs s" "md_objs s2 = md_objs s" by (simp_all add: s1_def s2_def upd_mem_def)
    show ?thesis
    proof (cases "fst st = None \<or> (\<exists>fl sz. fst st = Some (fl, sz) \<and> (fl = 0 \<or> sz = 0 \<or> unat sz > NS_MODULE_LOAD_LIMIT \<or> fst rd \<le> 0 \<or> fst rd \<noteq> uint sz)) \<or> alloc_module_slot s2 = None")
      case True
      then have "handle = -1 \<and> md_objs s' = md_objs s" using assms(2) False Some o
        by (auto simp: load_new_module_def Let_def split_beta st_def [symmetric] s1_def [symmetric] rd_def [symmetric] s2_def [symmetric] split: option.splits if_splits)
      then show ?thesis using assms(1) by simp
    next
      case f: False
      then obtain fl sz slot where g: "fst st = Some (fl, sz)" "\<not> (fl = 0 \<or> sz = 0 \<or> unat sz > NS_MODULE_LOAD_LIMIT)" "\<not> (fst rd \<le> 0 \<or> fst rd \<noteq> uint sz)"
        "alloc_module_slot s2 = Some slot" by (cases "fst st") auto
      from find_slot_SomeD [OF g(4) [unfolded alloc_module_slot_def]] have k: "slot < NS_MODULE_MAX" "\<not> ob_used (md_objs s ! slot)" using l o by auto
      define s3 where "s3 = upd_obj slot (\<lambda>_. object_fresh slot kind p) s2"
      define r where "r = load_object_from_image ma slot (word_of_int (fst rd)) s3"
      have "fresh_loading slot s3" using fresh_object_loading [OF assms(1) k] k l o
        by (simp add: fresh_loading_def s3_def upd_obj_def) (simp add: object_fresh_def object_zero_def)
      then have ld: "loading slot (md_objs (snd r))" unfolding r_def by (rule load_object_loading)
      have e: "(handle, s') = (if \<not> fst r then (-1, upd_obj slot (\<lambda>_. object_zero) (snd r)) else (ob_handle (md_objs (snd r) ! slot), snd r))"
        using assms(2) False Some g unfolding load_new_module_def r_def s3_def s2_def rd_def s1_def st_def by (auto simp: Let_def split_beta split: if_splits)
      show ?thesis
      proof (cases "fst r")
        case True
        then have "handle = 0x4000 + int slot" "s' = snd r" using e ld mod_invD [of "md_objs (snd r)" slot] by (auto simp: loading_def obj_ok_def)
        then show ?thesis using ld by (auto simp: loading_def)
      next
        case False
        then have "handle = -1" "s' = upd_obj slot (\<lambda>_. object_zero) (snd r)" using e by simp_all
        then show ?thesis using ld zero_inv [of "md_objs (snd r)" slot] by (simp add: loading_def upd_obj_def)
      qed
    qed
  qed
qed

section \<open>Releasing\<close>

text \<open>
  A recursive call never frees anything: the module that is being released is still in its slot with its dependencies, so each of these has a dependent.
\<close>

lemma release_stuck:
  "j \<noteq> dep \<Longrightarrow> j < NS_MODULE_MAX \<Longrightarrow> ob_used (md_objs s ! j) \<Longrightarrow> dep \<in> set (ob_deps (md_objs s ! j)) \<Longrightarrow> snd (release_slot n run dep fini s) = s"
  by (cases n) (auto simp: Let_def module_has_dependents_def list_ex_iff)

definition dec_ref :: "nat \<Rightarrow> ns_object list \<Rightarrow> ns_object list" where
  "dec_ref d os = (if d < NS_MODULE_MAX \<and> ob_used (os ! d) \<and> ob_ref_count (os ! d) > 0 then os[d := (os ! d)\<lparr>ob_ref_count := ob_ref_count (os ! d) - 1\<rparr>] else os)"

definition give_back :: "nat \<Rightarrow> 'v mods \<Rightarrow> 'v mods" where
  "give_back d s = (if d < NS_MODULE_MAX \<and> ob_used (md_objs s ! d) \<and> ob_ref_count (md_objs s ! d) > 0
     then upd_obj d (\<lambda>ob. ob\<lparr>ob_ref_count := ob_ref_count ob - 1\<rparr>) s else s)"

lemma give_back_objs: "md_objs (give_back d s) = dec_ref d (md_objs s)"
  by (simp add: give_back_def dec_ref_def upd_obj_def)

lemma fold_give_back_objs: "md_objs (fold give_back ds s) = fold dec_ref ds (md_objs s)"
  by (induction ds arbitrary: s) (simp_all add: give_back_objs)

lemma fold_release:
  assumes "slot < NS_MODULE_MAX" "ob_used (md_objs s ! slot)" "ob_ref_count (md_objs s ! slot) \<le> 0" "set ds \<subseteq> set (ob_deps (md_objs s ! slot))"
  shows "fold (\<lambda>dep s. if dep < NS_MODULE_MAX \<and> ob_used (md_objs s ! dep) \<and> ob_ref_count (md_objs s ! dep) > 0
      then snd (release_slot n run dep False (upd_obj dep (\<lambda>ob. ob\<lparr>ob_ref_count := ob_ref_count ob - 1\<rparr>) s)) else s) ds s = fold give_back ds s"
  using assms
proof (induction ds arbitrary: s)
  case Nil
  then show ?case by simp
next
  case (Cons d ds)
  let ?t = "upd_obj d (\<lambda>ob. ob\<lparr>ob_ref_count := ob_ref_count ob - 1\<rparr>) s"
  show ?case
  proof (cases "d < NS_MODULE_MAX \<and> ob_used (md_objs s ! d) \<and> ob_ref_count (md_objs s ! d) > 0")
    case True
    then have ne: "d \<noteq> slot" using Cons.prems(3) by auto
    then have sl: "md_objs ?t ! slot = md_objs s ! slot" by (simp add: upd_obj_def)
    have r: "snd (release_slot n run d False ?t) = ?t" using Cons.prems ne sl by (intro release_stuck [of slot]) simp_all
    have "give_back d s = ?t" using True by (simp add: give_back_def)
    then show ?thesis using Cons.IH [of ?t] Cons.prems True sl r by simp
  next
    case False
    then have "give_back d s = s" by (auto simp: give_back_def)
    moreover have "set ds \<subseteq> set (ob_deps (md_objs s ! slot))" using Cons.prems(4) by simp
    ultimately show ?thesis using Cons.IH [of s] Cons.prems(1-3) False by auto
  qed
qed

text \<open>The calls are one level deep, so the depth that the code allows is never used up.\<close>

lemma release_depth: "release_slot (Suc n) run slot fini s = release_slot (Suc 0) run slot fini s"
proof (cases "slot < NS_MODULE_MAX \<and> ob_used (md_objs s ! slot) \<and> ob_ref_count (md_objs s ! slot) \<le> 0 \<and> \<not> module_has_dependents slot s")
  case True
  let ?ob = "md_objs s ! slot"
  define s1 where "s1 = (if fini \<and> ob_fini_addr ?ob \<noteq> 0 then s\<lparr>md_mem := snd (run (ob_fini_addr ?ob) (md_mem s))\<rparr> else s)"
  have o: "md_objs s1 = md_objs s" by (simp add: s1_def)
  show ?thesis using True fold_release [of slot s1 "ob_deps ?ob" n run] fold_release [of slot s1 "ob_deps ?ob" 0 run] o
    by (simp add: Let_def s1_def [symmetric])
qed (auto simp: Let_def)

lemma fold_dec_nth:
  "distinct ds \<Longrightarrow> length os = NS_MODULE_MAX \<Longrightarrow> fold dec_ref ds os ! k =
    (if k \<in> set ds \<and> k < NS_MODULE_MAX \<and> ob_used (os ! k) \<and> ob_ref_count (os ! k) > 0 then (os ! k)\<lparr>ob_ref_count := ob_ref_count (os ! k) - 1\<rparr> else os ! k)"
proof (induction ds arbitrary: os)
  case (Cons d ds)
  have "length (dec_ref d os) = NS_MODULE_MAX" using Cons.prems by (simp add: dec_ref_def)
  from Cons.IH [OF _ this] Cons.prems show ?case by (auto simp: dec_ref_def upd_nth)
qed simp

lemma length_fold_dec: "length (fold dec_ref ds os) = length os"
  by (induction ds arbitrary: os) (simp_all add: dec_ref_def)

lemma dec_zero_inv:
  assumes "mod_inv os" "slot < NS_MODULE_MAX" "ob_used (os ! slot)" "users os slot \<subseteq> {slot}"
  shows "mod_inv ((fold dec_ref (ob_deps (os ! slot)) os)[slot := object_zero])"
proof -
  let ?os = "(fold dec_ref (ob_deps (os ! slot)) os)[slot := object_zero]"
  have l: "length os = NS_MODULE_MAX" using assms(1) by (rule mod_inv_length)
  have dist: "distinct (ob_deps (os ! slot))" using mod_invD [OF assms(1-3)] by (simp add: obj_ok_def)
  note nth = fold_dec_nth [OF dist l]
  have f: "ob_used (?os ! k) \<longleftrightarrow> k \<noteq> slot \<and> ob_used (os ! k)" for k using l assms(2) by (simp add: upd_nth length_fold_dec nth object_zero_def)
  have g: "ob_handle (?os ! k) = ob_handle (os ! k)" "ob_task_refs (?os ! k) = ob_task_refs (os ! k)" "ob_kernel_refs (?os ! k) = ob_kernel_refs (os ! k)" "ob_deps (?os ! k) = ob_deps (os ! k)"
    "ob_ref_count (?os ! k) \<ge> ob_ref_count (os ! k) - (if k \<in> set (ob_deps (os ! slot)) then 1 else 0)" if "k \<noteq> slot" for k
    using that by (simp_all add: upd_nth nth)
  have u: "users ?os k = users os k - {slot}" for k unfolding users_def using f g(4) by auto
  have c: "int (card (users ?os k)) \<le> int (card (users os k)) - (if k \<in> set (ob_deps (os ! slot)) then 1 else 0)" for k
  proof (cases "k \<in> set (ob_deps (os ! slot))")
    case True
    then have "slot \<in> users os k" using assms(2,3) by (simp add: users_def)
    then have "card (users os k) = Suc (card (users os k - {slot}))" by (metis card.remove finite_users)
    then show ?thesis using True by (simp add: u)
  next
    case False
    then show ?thesis unfolding u using card_mono [OF finite_users Diff_subset [of "users os k" "{slot}"]] by simp
  qed
  have "obj_ok ?os k" if k: "k < NS_MODULE_MAX" "ob_used (?os ! k)" for k
  proof -
    have ne: "k \<noteq> slot" "ob_used (os ! k)" using k(2) f by auto
    have ok: "obj_ok os k" by (rule mod_invD [OF assms(1) k(1) ne(2)])
    have "slot \<notin> set (ob_deps (os ! k))" using assms(4) ne k(1) by (auto simp: users_def)
    then have "\<forall>d \<in> set (ob_deps (os ! k)). d < NS_MODULE_MAX \<and> ob_used (?os ! d)" using ok f by (auto simp: obj_ok_def)
    moreover have "refs ?os k \<le> ob_ref_count (?os ! k)" using ok c [of k] g(5) [OF ne(1)] by (simp add: obj_ok_def refs_def g(2,3) [OF ne(1)])
    ultimately show ?thesis using ok by (simp add: obj_ok_def g [OF ne(1)])
  qed
  then show ?thesis using l by (simp add: mod_inv_def length_fold_dec)
qed

text \<open>What a release does: nothing, or it clears the slot and takes one from the count of each dependency.\<close>

lemma release_objs:
  assumes "slot < NS_MODULE_MAX"
  shows "md_objs (snd (release_slot (Suc n) run slot fini s)) =
    (if ob_used (md_objs s ! slot) \<and> ob_ref_count (md_objs s ! slot) \<le> 0 \<and> \<not> module_has_dependents slot s
     then (fold dec_ref (ob_deps (md_objs s ! slot)) (md_objs s))[slot := object_zero] else md_objs s)"
proof -
  let ?ob = "md_objs s ! slot"
  define s1 where "s1 = (if fini \<and> ob_fini_addr ?ob \<noteq> 0 then s\<lparr>md_mem := snd (run (ob_fini_addr ?ob) (md_mem s))\<rparr> else s)"
  have o: "md_objs s1 = md_objs s" by (simp add: s1_def)
  show ?thesis
  proof (cases "ob_used ?ob \<and> ob_ref_count ?ob \<le> 0 \<and> \<not> module_has_dependents slot s")
    case True
    then show ?thesis using assms fold_release [of slot s1 "ob_deps ?ob" n run] o by (simp add: Let_def s1_def [symmetric] upd_obj_def fold_give_back_objs)
  next
    case False
    then show ?thesis by (auto simp: Let_def)
  qed
qed

lemma release_module_slot_Suc: "release_module_slot = release_slot (Suc 12)"
  unfolding release_module_slot_def by (rule arg_cong [where f = release_slot]) simp

lemma release_inv:
  assumes "mod_inv (md_objs s)"
  shows "mod_inv (md_objs (snd (release_module_slot run slot fini s)))"
proof (cases "slot < NS_MODULE_MAX")
  case True
  have "users (md_objs s) slot \<subseteq> {slot}" if "\<not> module_has_dependents slot s" using that by (auto simp: module_has_dependents_def list_ex_iff users_def)
  then show ?thesis using assms dec_zero_inv [OF assms True] unfolding release_module_slot_Suc release_objs [OF True] by auto
next
  case False
  then show ?thesis unfolding release_module_slot_Suc release_slot.simps Let_def using assms by simp
qed

section \<open>The calls\<close>

lemma set_dlerror_objs [simp]: "md_objs (set_dlerror_for_task t msg s) = md_objs s" "md_objs (clear_dlerror_for_task t s) = md_objs s"
  by (simp_all add: set_dlerror_for_task_def clear_dlerror_for_task_def)

lemma in_range_nat: "task_in_range tid \<Longrightarrow> nat tid < MAX_TASKS"
  by (simp add: task_in_range_def nat_less_iff)

lemma find_by_handle:
  assumes "mod_inv (md_objs s)" "slot < NS_MODULE_MAX" "ob_used (md_objs s ! slot)" "handle = 0x4000 + int slot"
  shows "find_module_slot_by_handle handle s = Some slot"
  unfolding find_module_slot_by_handle_def
proof (rule find_slot_SomeI)
  show "slot < length (md_objs s)" using assms(1,2) by (simp add: mod_inv_def)
  show "ob_used (md_objs s ! slot) \<and> ob_handle (md_objs s ! slot) = handle" using mod_invD [OF assms(1-3)] assms(3,4) by (simp add: obj_ok_def)
  show "\<not> (ob_used (md_objs s ! j) \<and> ob_handle (md_objs s ! j) = handle)" if "j < slot" for j
    using mod_invD [OF assms(1), of j] that assms(2,4) by (auto simp: obj_ok_def)
qed

lemma sum_list_set: "t < length xs \<Longrightarrow> sum_list (xs[t := x]) = sum_list xs + x - (xs ! t :: int)"
  by (induction xs arbitrary: t) (auto split: nat.splits)

text \<open>Taking a reference, when the count already has room for it, and giving one back.\<close>

lemma task_ref_inv:
  assumes "mod_inv os" "slot < NS_MODULE_MAX" "ob_used (os ! slot)" "t < MAX_TASKS" "refs os slot + 1 \<le> ob_ref_count (os ! slot)"
  shows "mod_inv (os[slot := (os ! slot)\<lparr>ob_task_refs := (ob_task_refs (os ! slot))[t := ob_task_refs (os ! slot) ! t + 1]\<rparr>])"
proof -
  have ok: "obj_ok os slot" by (rule mod_invD [OF assms(1-3)])
  then have r: "length (ob_task_refs (os ! slot)) = MAX_TASKS" "\<forall>r \<in> set (ob_task_refs (os ! slot)). 0 \<le> r" by (simp_all add: obj_ok_def)
  have "0 \<le> ob_task_refs (os ! slot) ! t" using r assms(4) by simp
  then have "\<forall>r \<in> set ((ob_task_refs (os ! slot))[t := ob_task_refs (os ! slot) ! t + 1]). 0 \<le> r" using r(2) set_update_subset_insert [of "ob_task_refs (os ! slot)" t] by fastforce
  then show ?thesis using ok assms(4,5) r(1) by (intro inv_update [OF assms(1)]) (auto simp: obj_ok_def refs_def sum_list_set)
qed

lemma kernel_ref_inv:
  assumes "mod_inv os" "slot < NS_MODULE_MAX" "ob_used (os ! slot)" "refs os slot + 1 \<le> ob_ref_count (os ! slot)"
  shows "mod_inv (os[slot := (os ! slot)\<lparr>ob_kernel_refs := ob_kernel_refs (os ! slot) + 1\<rparr>])"
  using mod_invD [OF assms(1-3)] assms(4) by (intro inv_update [OF assms(1)]) (auto simp: obj_ok_def refs_def)

lemma task_drop_inv:
  assumes "mod_inv os" "slot < NS_MODULE_MAX" "ob_used (os ! slot)" "t < MAX_TASKS" "ob_task_refs (os ! slot) ! t > 0"
  shows "mod_inv (os[slot := drop_ref ((os ! slot)\<lparr>ob_task_refs := (ob_task_refs (os ! slot))[t := ob_task_refs (os ! slot) ! t - 1]\<rparr>)])"
proof -
  have ok: "obj_ok os slot" by (rule mod_invD [OF assms(1-3)])
  then have r: "length (ob_task_refs (os ! slot)) = MAX_TASKS" "\<forall>r \<in> set (ob_task_refs (os ! slot)). 0 \<le> r" "0 \<le> ob_kernel_refs (os ! slot)" by (simp_all add: obj_ok_def)
  let ?rs = "(ob_task_refs (os ! slot))[t := ob_task_refs (os ! slot) ! t - 1]"
  have n: "\<forall>r \<in> set ?rs. 0 \<le> r" using r(2) assms(5) set_update_subset_insert [of "ob_task_refs (os ! slot)" t] by fastforce
  have s: "sum_list ?rs = sum_list (ob_task_refs (os ! slot)) - 1" using r(1) assms(4) by (simp add: sum_list_set)
  have "0 \<le> sum_list ?rs" using n by (intro sum_list_nonneg) simp
  then have "ob_ref_count (os ! slot) > 0" using ok s r(3) by (simp add: obj_ok_def refs_def)
  then show ?thesis using ok n s r(1) by (intro inv_update [OF assms(1)]) (auto simp: obj_ok_def refs_def drop_ref_def)
qed

lemma kernel_drop_inv:
  assumes "mod_inv os" "slot < NS_MODULE_MAX" "ob_used (os ! slot)" "ob_kernel_refs (os ! slot) > 0"
  shows "mod_inv (os[slot := drop_ref ((os ! slot)\<lparr>ob_kernel_refs := ob_kernel_refs (os ! slot) - 1\<rparr>)])"
proof -
  have ok: "obj_ok os slot" by (rule mod_invD [OF assms(1-3)])
  have "0 \<le> sum_list (ob_task_refs (os ! slot))" using ok by (intro sum_list_nonneg) (simp add: obj_ok_def)
  then have "ob_ref_count (os ! slot) > 0" using ok assms(4) by (simp add: obj_ok_def refs_def)
  then show ?thesis using ok assms(4) by (intro inv_update [OF assms(1)]) (auto simp: obj_ok_def refs_def drop_ref_def)
qed

lemma handle_slot: "mod_inv (md_objs s) \<Longrightarrow> find_module_slot_by_handle h s = Some slot \<Longrightarrow> slot < NS_MODULE_MAX \<and> ob_used (md_objs s ! slot)"
  unfolding find_module_slot_by_handle_def by (drule find_slot_SomeD) (simp add: mod_inv_def)

lemma dlopen_inv:
  assumes "mod_inv (md_objs s)"
  shows "mod_inv (md_objs (snd (module_dlopen_for_task ma mf tid path s)))"
proof (cases "task_in_range tid")
  case True
  obtain handle s1 where l: "load_new_module ma mf path NS_MODULE_KIND_LIBRARY (clear_dlerror_for_task (nat tid) s) = (handle, s1)" by (metis surj_pair)
  have i: "mod_inv (md_objs s1)" "handle \<ge> 0 \<longrightarrow> (\<exists>slot < NS_MODULE_MAX. handle = 0x4000 + int slot \<and> ob_used (md_objs s1 ! slot) \<and>
      refs (md_objs s1) slot + 1 \<le> ob_ref_count (md_objs s1 ! slot))"
    using load_new_module_inv [OF _ l] assms by simp_all
  show ?thesis
  proof (cases "handle < 0")
    case True
    then show ?thesis using i(1) assms l by (simp add: module_dlopen_for_task_def Let_def)
  next
    case False
    then obtain slot where k: "slot < NS_MODULE_MAX" "handle = 0x4000 + int slot" "ob_used (md_objs s1 ! slot)" "refs (md_objs s1) slot + 1 \<le> ob_ref_count (md_objs s1 ! slot)"
      using i(2) by auto
    have f: "find_module_slot_by_handle handle s1 = Some slot" by (rule find_by_handle [OF i(1) k(1,3,2)])
    have "nat tid < MAX_TASKS" using True by (rule in_range_nat)
    from try_resolve_inv [of "upd_obj slot (\<lambda>ob. ob\<lparr>ob_task_refs := (ob_task_refs ob)[nat tid := ob_task_refs ob ! nat tid + 1]\<rparr>) s1"] task_ref_inv [OF i(1) k(1,3) this k(4)]
    show ?thesis using True False l f by (auto simp: module_dlopen_for_task_def Let_def split_beta upd_obj_def)
  qed
qed (use assms in \<open>simp add: module_dlopen_for_task_def\<close>)

lemma dlclose_inv:
  assumes "mod_inv (md_objs s)"
  shows "mod_inv (md_objs (snd (module_dlclose_for_task run tid handle s)))"
proof (cases "find_module_slot_by_handle handle (clear_dlerror_for_task (nat tid) s)")
  case None
  then show ?thesis using assms by (simp add: module_dlclose_for_task_def Let_def)
next
  case (Some slot)
  then have k: "slot < NS_MODULE_MAX" "ob_used (md_objs s ! slot)" using handle_slot [OF _ Some] assms by simp_all
  have "mod_inv (md_objs (upd_obj slot (\<lambda>ob. drop_ref (ob\<lparr>ob_task_refs := (ob_task_refs ob)[nat tid := ob_task_refs ob ! nat tid - 1]\<rparr>)) (clear_dlerror_for_task (nat tid) s)))"
    if "task_in_range tid" "ob_task_refs (md_objs s ! slot) ! nat tid > 0"
    using task_drop_inv [OF assms k, of "nat tid"] that in_range_nat by (simp add: upd_obj_def)
  then show ?thesis using assms Some release_inv by (auto simp: module_dlclose_for_task_def Let_def split_beta)
qed

lemma insmod_inv:
  assumes "mod_inv (md_objs s)"
  shows "mod_inv (md_objs (snd (module_insmod ma mf run path s)))"
proof -
  obtain handle s1 where l: "load_new_module ma mf path NS_MODULE_KIND_KERNEL s = (handle, s1)" by (metis surj_pair)
  have i: "mod_inv (md_objs s1)" "handle \<ge> 0 \<longrightarrow> (\<exists>slot < NS_MODULE_MAX. handle = 0x4000 + int slot \<and> ob_used (md_objs s1 ! slot) \<and>
      refs (md_objs s1) slot + 1 \<le> ob_ref_count (md_objs s1 ! slot))"
    using load_new_module_inv [OF assms l] by simp_all
  show ?thesis
  proof (cases "handle < 0")
    case True
    then show ?thesis using i(1) l by (simp add: module_insmod_def Let_def)
  next
    case False
    then obtain slot where k: "slot < NS_MODULE_MAX" "handle = 0x4000 + int slot" "ob_used (md_objs s1 ! slot)" "refs (md_objs s1) slot + 1 \<le> ob_ref_count (md_objs s1 ! slot)"
      using i(2) by auto
    have f: "find_module_slot_by_handle handle s1 = Some slot" by (rule find_by_handle [OF i(1) k(1,3,2)])
    define s2 where "s2 = upd_obj slot (\<lambda>ob. ob\<lparr>ob_kernel_refs := ob_kernel_refs ob + 1\<rparr>) s1"
    have i2: "mod_inv (md_objs s2)" using kernel_ref_inv [OF i(1) k(1,3,4)] by (simp add: s2_def upd_obj_def)
    have ln: "length (md_objs s1) = NS_MODULE_MAX" using i(1) by (rule mod_inv_length)
    have ob: "ob_used (md_objs s2 ! slot)" "ob_kernel_refs (md_objs s2 ! slot) > 0"
      using k(1,3) ln mod_invD [OF i(1) k(1,3)] by (simp_all add: s2_def upd_obj_def obj_ok_def)
    have d: "mod_inv (md_objs (upd_obj slot (\<lambda>ob. drop_ref (if ob_kernel_refs ob > 0 then ob\<lparr>ob_kernel_refs := ob_kernel_refs ob - 1\<rparr> else ob)) s3))" if "md_objs s3 = md_objs s2" for s3 :: "'a mods"
      using kernel_drop_inv [OF i2 k(1) ob] ob(2) that by (simp add: upd_obj_def)
    have c: "mod_inv (md_objs (upd_obj slot (\<lambda>ob. ob\<lparr>ob_init_called := True\<rparr>) s3))" if "md_objs s3 = md_objs s2" for s3 :: "'a mods"
      using core_eq_inv [OF core_eq_update i2, of "(md_objs s2 ! slot)\<lparr>ob_init_called := True\<rparr>" slot] that by (simp add: upd_obj_def same_core_def)
    have r: "mod_inv (md_objs (snd (release_module_slot run slot False
        (upd_obj slot (\<lambda>ob. drop_ref (if ob_kernel_refs ob > 0 then ob\<lparr>ob_kernel_refs := ob_kernel_refs ob - 1\<rparr> else ob)) s3))))" if "md_objs s3 = md_objs s2" for s3 :: "'a mods"
      by (rule release_inv [OF d [OF that]])
    have t: "mod_inv (md_objs (snd (try_resolve_pending_relocs (upd_obj slot (\<lambda>ob. ob\<lparr>ob_init_called := True\<rparr>) s3))))" if "md_objs s3 = md_objs s2" for s3 :: "'a mods"
      by (rule try_resolve_inv [OF c [OF that]])
    show ?thesis using False l f by (auto simp: module_insmod_def Let_def split_beta s2_def [symmetric] r t)
  qed
qed

lemma rmmod_inv:
  assumes "mod_inv (md_objs s)"
  shows "mod_inv (md_objs (snd (module_rmmod run arg s)))"
proof -
  have d: "mod_inv (md_objs (upd_obj slot (\<lambda>ob. drop_ref (ob\<lparr>ob_kernel_refs := ob_kernel_refs ob - 1\<rparr>)) s))"
    if "slot < NS_MODULE_MAX" "ob_used (md_objs s ! slot)" "ob_kernel_refs (md_objs s ! slot) > 0" for slot
    using kernel_drop_inv [OF assms that] by (simp add: upd_obj_def)
  have p: "slot < NS_MODULE_MAX \<and> ob_used (md_objs s ! slot)" if "find_module_slot_by_path path kind s = Some slot" for path kind slot
    using find_slot_SomeD [OF that [unfolded find_module_slot_by_path_def]] assms by (simp add: mod_inv_def)
  show ?thesis using assms release_inv [OF d] p handle_slot [OF assms]
    by (auto simp: module_rmmod_def Let_def split_beta not_le split: option.splits)
qed

section \<open>Reachable states\<close>

text \<open>
  The system starts with the tables that \<open>module_loader_init\<close> sets up; then tasks and the kernel make calls in any order, with any arguments, while memory, the
  running task and the file system change in between as they may.
\<close>

definition mod_boot :: "(string \<times> u32) list \<Rightarrow> 'v mods \<Rightarrow> bool" where
  "mod_boot exports s \<longleftrightarrow> (\<exists>s0. s = module_loader_init exports s0)"

inductive mod_step :: "mod_addr \<Rightarrow> 'v mod_files \<Rightarrow> module_code \<Rightarrow> 'v mods \<Rightarrow> 'v mods \<Rightarrow> bool" for ma mf run where
  mod_step_dlopen: "mod_step ma mf run s (snd (module_dlopen_for_task ma mf tid path s))"
| mod_step_dlsym: "mod_step ma mf run s (snd (module_dlsym handle symbol s))"
| mod_step_dlclose: "mod_step ma mf run s (snd (module_dlclose_for_task run tid handle s))"
| mod_step_insmod: "mod_step ma mf run s (snd (module_insmod ma mf run path s))"
| mod_step_rmmod: "mod_step ma mf run s (snd (module_rmmod run arg s))"
| mod_step_other: "mod_step ma mf run s (s\<lparr>md_mem := m, md_task := t, md_fs := v\<rparr>)"

lemma kernel_export_objs: "md_objs (fold (\<lambda>(n, a). add_kernel_export n a) es s) = md_objs s"
  by (induction es arbitrary: s) (auto simp: add_kernel_export_def)

lemma init_objs: "md_objs (module_loader_init exports s) = replicate NS_MODULE_MAX object_zero"
  unfolding module_loader_init_def kernel_export_objs by simp

interpretation mod: invariant_system "mod_boot exports" "mod_step ma mf run" "\<lambda>s. mod_inv (md_objs s)"
proof unfold_locales
  show "mod_inv (md_objs s)" if "mod_boot exports s" for s :: "'a mods"
    using that by (auto simp: mod_boot_def init_objs mod_inv_def object_zero_def)
  show "mod_inv (md_objs s')" if "mod_inv (md_objs s)" "mod_step ma mf run s s'" for s s' :: "'a mods"
    using that(2,1) by cases (simp_all add: dlopen_inv dlclose_inv insmod_inv rmmod_inv dlsym_objs)
qed

text \<open>The references that are held on a module: those of tasks and of the kernel, and one for each module in use that depends on it.\<close>

definition module_held :: "'v mods \<Rightarrow> nat \<Rightarrow> bool" where
  "module_held s k \<longleftrightarrow> (\<exists>t < MAX_TASKS. ob_task_refs (md_objs s ! k) ! t > 0) \<or> ob_kernel_refs (md_objs s ! k) > 0 \<or>
     (\<exists>j < NS_MODULE_MAX. ob_used (md_objs s ! j) \<and> k \<in> set (ob_deps (md_objs s ! j)))"

lemma member_le_sum_list: "x \<in> set xs \<Longrightarrow> \<forall>r \<in> set xs. (0 :: int) \<le> r \<Longrightarrow> x \<le> sum_list xs"
proof (induction xs)
  case (Cons a xs)
  have "0 \<le> sum_list xs" using Cons.prems(2) by (intro sum_list_nonneg) simp
  then show ?case using Cons by auto
qed simp

lemma held_refs:
  assumes "mod_inv (md_objs s)" "k < NS_MODULE_MAX" "ob_used (md_objs s ! k)" "module_held s k"
  shows "ob_ref_count (md_objs s ! k) > 0"
proof -
  let ?ob = "md_objs s ! k"
  have ok: "obj_ok (md_objs s) k" by (rule mod_invD [OF assms(1-3)])
  then have r: "\<forall>r \<in> set (ob_task_refs ?ob). 0 \<le> r" "0 \<le> ob_kernel_refs ?ob" "length (ob_task_refs ?ob) = MAX_TASKS" by (simp_all add: obj_ok_def)
  have s0: "0 \<le> sum_list (ob_task_refs ?ob)" using r(1) by (intro sum_list_nonneg) simp
  have t: "ob_task_refs ?ob ! t \<le> sum_list (ob_task_refs ?ob)" if "t < MAX_TASKS" for t using that r by (intro member_le_sum_list) simp_all
  have u: "0 < card (users (md_objs s) k)" if "j < NS_MODULE_MAX" "ob_used (md_objs s ! j)" "k \<in> set (ob_deps (md_objs s ! j))" for j
    using that by (auto simp: card_gt_0_iff users_def)
  have "0 < refs (md_objs s) k" using assms(4) s0 t u r(2) unfolding module_held_def refs_def by (smt (verit) of_nat_0_less_iff of_nat_0_le_iff)
  then show ?thesis using ok by (simp add: obj_ok_def)
qed

text \<open>
  No module is freed while a recorded reference is on it. In every reachable state, each recorded dependency of a loaded module is loaded, the count of a module is at
  least the number of recorded references on it, releasing a module on which a task, the kernel or a module holds one does nothing, and its handle leads to it.
  Counts are integers without a bound here, so this is about runs in which no C counter overflows, and the tables of the loader are apart from the memory that
  relocations write; a ninth dependency that is bound lazily is not recorded by the code.
\<close>

theorem module_references_safe:
  assumes "reach (mod_boot exports) (mod_step ma mf run) s"
    and "k < NS_MODULE_MAX" "ob_used (md_objs s ! k)"
  shows "(\<forall>d \<in> set (ob_deps (md_objs s ! k)). d < NS_MODULE_MAX \<and> ob_used (md_objs s ! d)) \<and>
    refs (md_objs s) k \<le> ob_ref_count (md_objs s ! k) \<and> (module_held s k \<longrightarrow> release_module_slot run k fini s = (True, s)) \<and>
    find_module_slot_by_handle (ob_handle (md_objs s ! k)) s = Some k"
proof -
  have inv: "mod_inv (md_objs s)" by (rule mod.reach_inv [OF assms(1)])
  have ok: "obj_ok (md_objs s) k" by (rule mod_invD [OF inv assms(2,3)])
  have "release_module_slot run k fini s = (True, s)" if "module_held s k"
    using held_refs [OF inv assms(2,3) that] assms(2,3) unfolding release_module_slot_Suc release_slot.simps Let_def by simp
  moreover have "find_module_slot_by_handle (ob_handle (md_objs s ! k)) s = Some k"
    using ok by (intro find_by_handle [OF inv assms(2,3)]) (simp add: obj_ok_def)
  ultimately show ?thesis using ok by (simp add: obj_ok_def)
qed

text \<open>A shared object of one empty section, in a file system with this file only.\<close>

definition empty_elf :: "u8 list" where
  "empty_elf = [0x7F, 0x45, 0x4C, 0x46, 1] @ replicate 11 0 @ [3, 0, 3, 0] @ replicate 12 0 @ [52, 0, 0, 0] @ replicate 10 0 @ [40, 0, 1, 0] @ replicate 42 0"

definition elf_files :: "unit mod_files" where
  "elf_files = \<lparr>mf_stat = (\<lambda>p v. (Some (1, 92), v)), mf_read = (\<lambda>p n v. (92, empty_elf, v))\<rparr>"

definition mod0 :: "unit mods" where
  "mod0 = module_loader_init [(''kmalloc'', 0x1000)] \<lparr>md_objs = [], md_kexports = [], md_pending = [], md_dlerror = [], md_cursor = 0, md_mem = (\<lambda>_. 0), md_task = 0, md_fs = ()\<rparr>"

definition mod_ma :: mod_addr where
  "mod_ma = \<lparr>ma_pool = 0x100000, ma_buf = 0x200000\<rparr>"

definition mod1 :: "unit mods" where
  "mod1 = snd (module_dlopen_for_task mod_ma elf_files 0 (Some ''/a.so'') mod0)"

definition elf_mem :: "u32 \<Rightarrow> u8" where
  "elf_mem = st_bytes (ma_buf mod_ma) empty_elf (\<lambda>_. 0)"

lemma elf_mem_bytes: "map elf_mem [0x200000, 0x200001, 0x200002, 0x200003, 0x200004] = [0x7F, 0x45, 0x4C, 0x46, 1]"
  by code_simp

lemma elf_mem_head:
  "ld16 elf_mem 0x200010 = 3" "ld16 elf_mem 0x200012 = 3" "ld32 elf_mem 0x200020 = 52" "ld16 elf_mem 0x20002E = 40" "ld16 elf_mem 0x200030 = 1"
  by code_simp+

lemma elf_mem_section: "ld32 elf_mem 0x200038 = 0" "ld32 elf_mem 0x20003C = 0" "ld32 elf_mem 0x200044 = 0" "ld32 elf_mem 0x200048 = 0"
  by code_simp+

lemma elf_loads:
  assumes "md_mem s = elf_mem"
  shows "load_object_from_image mod_ma 0 92 s = finish_object \<lparr>le_slot = 0, le_image = 0x200000, le_size = 92, le_sh = 0x200034, le_shnum = Suc 0\<rparr>
    (upd_obj 0 (\<lambda>ob. ob\<lparr>ob_image_base := 0\<rparr>) s)"
  using assms elf_mem_head elf_mem_bytes elf_mem_section
  by (simp add: load_object_from_image_def Let_def elf_ident_ok_def mod_ma_def [THEN arg_cong [where f = ma_buf]] sec_field_def reloc_section_def export_symbols_def upd_obj_def)

lemma elf_finish:
  assumes "md_objs s = ob # os" "ob_used ob" "ob_handle ob = 0x4000" "ob_exports ob = []" "ob_kind ob = NS_MODULE_KIND_LIBRARY"
  shows "\<exists>s'. finish_object \<lparr>le_slot = 0, le_image = im, le_size = n, le_sh = sh, le_shnum = c\<rparr> s = (True, s') \<and>
    md_objs s' = ob\<lparr>ob_init_addr := 0, ob_fini_addr := 0\<rparr> # os \<and> md_pending s' = md_pending s"
  using assms by (simp add: finish_object_def Let_def module_dlsym_def find_module_slot_by_handle_def  export_addr_def upd_obj_def set_dlerror_for_task_def)

lemma try_resolve_idle:
  assumes "\<And>i. i < NS_PENDING_RELOC_MAX \<Longrightarrow> \<not> pr_used (md_pending s ! i)"
  shows "try_resolve_pending_relocs s = (0, s)"
proof -
  have "fold resolve_pending is (0, s) = (0, s)" if "set is \<subseteq> {..<NS_PENDING_RELOC_MAX}" for "is"
    using that assms by (induction "is") (simp_all add: resolve_pending_def)
  from this [of "[0..<NS_PENDING_RELOC_MAX]"] show ?thesis unfolding try_resolve_pending_relocs_def by (simp add: atLeast0LessThan)
qed

lemma mod0_fields:
  "md_objs mod0 = replicate NS_MODULE_MAX object_zero" "md_mem mod0 = (\<lambda>_. 0)" "\<And>i. i < NS_PENDING_RELOC_MAX \<Longrightarrow> \<not> pr_used (md_pending mod0 ! i)"
  by (simp_all add: mod0_def module_loader_init_def add_kernel_export_def)

lemma mod0_load:
  "\<exists>s. load_new_module mod_ma elf_files (Some ''/a.so'') NS_MODULE_KIND_LIBRARY (clear_dlerror_for_task 0 mod0) = (0x4000, s) \<and>
    md_objs s = object_fresh 0 NS_MODULE_KIND_LIBRARY ''/a.so'' # replicate 11 object_zero \<and> md_pending s = md_pending mod0"
proof -
  let ?c = "clear_dlerror_for_task 0 mod0" and ?f = "object_fresh 0 NS_MODULE_KIND_LIBRARY ''/a.so''"
  define s2 where "s2 = upd_obj 0 (\<lambda>_. ?f) (upd_mem (st_bytes (ma_buf mod_ma) empty_elf) (?c\<lparr>md_fs := ()\<rparr>))"
  have o: "md_objs mod0 = object_zero # replicate 11 object_zero" "md_mem ?c = (\<lambda>_. 0)" "md_pending ?c = md_pending mod0"
    by (simp_all add: mod0_fields clear_dlerror_for_task_def numeral_eq_Suc)
  have m: "md_mem s2 = elf_mem" "md_objs s2 = ?f # replicate 11 object_zero" "md_pending s2 = md_pending mod0"
    using o by (simp_all add: s2_def upd_obj_def upd_mem_def elf_mem_def)
  have "md_objs (upd_obj 0 (\<lambda>ob. ob\<lparr>ob_image_base := 0\<rparr>) s2) = ?f # replicate 11 object_zero" using m(2) by (simp add: upd_obj_def object_fresh_def object_zero_def)
  from elf_finish [where im = "0x200000" and n = 92 and sh = "0x200034" and c = "Suc 0", OF this]
  have "\<exists>s3. load_object_from_image mod_ma 0 92 s2 = (True, s3) \<and> md_objs s3 = ?f\<lparr>ob_init_addr := 0, ob_fini_addr := 0\<rparr> # replicate 11 object_zero \<and> md_pending s3 = md_pending s2"
    unfolding elf_loads [OF m(1)] by (simp add: object_fresh_def object_zero_def) (simp add: upd_obj_def)
  then obtain s3 where f: "load_object_from_image mod_ma 0 92 s2 = (True, s3)" "md_objs s3 = ?f # replicate 11 object_zero" "md_pending s3 = md_pending mod0"
    using m(3) by (auto simp: object_fresh_def object_zero_def)
  have nf: "find_module_slot_by_path ''/a.so'' NS_MODULE_KIND_LIBRARY ?c = None" "alloc_module_slot (upd_mem (st_bytes (ma_buf mod_ma) empty_elf) (?c\<lparr>md_fs := ()\<rparr>)) = Some 0"
    using o by (simp_all add: find_module_slot_by_path_def alloc_module_slot_def find_slot_None upd_mem_def object_zero_def)
  show ?thesis using f nf by (simp add: load_new_module_def elf_files_def Let_def s2_def [symmetric]) (simp add: object_fresh_def)
qed

lemma mod1_loaded: "ob_used (md_objs mod1 ! 0) \<and> ob_task_refs (md_objs mod1 ! 0) ! 0 = 1"
proof -
  obtain s where s: "load_new_module mod_ma elf_files (Some ''/a.so'') NS_MODULE_KIND_LIBRARY (clear_dlerror_for_task 0 mod0) = (0x4000, s)"
    "md_objs s = object_fresh 0 NS_MODULE_KIND_LIBRARY ''/a.so'' # replicate 11 object_zero" "md_pending s = md_pending mod0" using mod0_load by auto
  have h: "find_module_slot_by_handle 0x4000 s = Some 0" using s(2) by (simp add: find_module_slot_by_handle_def  object_fresh_def)
  show ?thesis using s(1,2) h s(3) mod0_fields(3)
    by (simp add: mod1_def module_dlopen_for_task_def task_in_range_def try_resolve_idle upd_obj_def object_fresh_def object_zero_def)
qed

lemma mod1_reach: "reach (mod_boot [(''kmalloc'', 0x1000)]) (mod_step mod_ma elf_files (\<lambda>_ m. (0, m))) mod1"
  unfolding mod1_def
proof (rule reach_step)
  show "reach (mod_boot [(''kmalloc'', 0x1000)]) (mod_step mod_ma elf_files (\<lambda>_ m. (0, m))) mod0" by (rule reach_init) (auto simp: mod_boot_def mod0_def)
qed (rule mod_step_dlopen)

lemma module_references_safe_witness:
  "reach (mod_boot [(''kmalloc'', 0x1000)]) (mod_step mod_ma elf_files (\<lambda>_ m. (0, m))) mod1 \<and> module_held mod1 0 \<and>
   release_module_slot (\<lambda>_ m. (0, m)) 0 False mod1 = (True, mod1)"
proof -
  have h: "module_held mod1 0" using mod1_loaded by (auto simp: module_held_def intro: exI [of _ 0])
  show ?thesis using module_references_safe [OF mod1_reach, of 0 False] mod1_loaded mod1_reach h by simp
qed

section \<open>Closing a library leaves its dependencies\<close>

text \<open>A module that only one other module uses, once: nobody else holds it.\<close>

lemma only_user:
  assumes "mod_inv os" "d < NS_MODULE_MAX" "ob_used (os ! d)" "ob_ref_count (os ! d) = 1" "k \<in> users os d"
  shows "users os d = {k}" "ob_kernel_refs (os ! d) = 0" "\<And>t. t < MAX_TASKS \<Longrightarrow> ob_task_refs (os ! d) ! t = 0"
proof -
  have ok: "obj_ok os d" by (rule mod_invD [OF assms(1-3)])
  then have r: "\<forall>r \<in> set (ob_task_refs (os ! d)). 0 \<le> r" "0 \<le> ob_kernel_refs (os ! d)" "length (ob_task_refs (os ! d)) = MAX_TASKS" "refs os d \<le> 1"
    using assms(4) by (simp_all add: obj_ok_def)
  have s0: "0 \<le> sum_list (ob_task_refs (os ! d))" using r(1) by (intro sum_list_nonneg) simp
  have c: "0 < card (users os d)" using assms(5) by (auto simp: card_gt_0_iff)
  have z: "sum_list (ob_task_refs (os ! d)) = 0" "card (users os d) = 1" "ob_kernel_refs (os ! d) = 0" using r(2,4) s0 c by (simp_all add: refs_def)
  show "users os d = {k}" using z(2) assms(5) by (auto simp: card_1_singleton_iff)
  show "ob_kernel_refs (os ! d) = 0" by (rule z(3))
  show "ob_task_refs (os ! d) ! t = 0" if "t < MAX_TASKS" for t
    using member_le_sum_list [of "ob_task_refs (os ! d) ! t" "ob_task_refs (os ! d)"] r z(1) that by (simp add: antisym)
qed

lemma no_task_refs_close:
  assumes "mod_inv (md_objs s)" "d < NS_MODULE_MAX" "ob_used (md_objs s ! d)" "\<And>t. t < MAX_TASKS \<Longrightarrow> ob_task_refs (md_objs s ! d) ! t = 0"
  shows "fst (module_dlclose_for_task run tid (0x4000 + int d) s) = -1"
proof (cases "task_in_range tid")
  case True
  have "find_module_slot_by_handle (0x4000 + int d) (clear_dlerror_for_task (nat tid) s) = Some d" by (rule find_by_handle) (simp_all add: assms)
  then show ?thesis using True assms(4) [OF in_range_nat [OF True]] by (simp add: module_dlclose_for_task_def Let_def)
qed (simp add: module_dlclose_for_task_def)

lemma last_ref_no_users:
  assumes "mod_inv os" "k < NS_MODULE_MAX" "ob_used (os ! k)" "t < MAX_TASKS" "ob_task_refs (os ! k) ! t = 1" "ob_ref_count (os ! k) = 1"
  shows "users os k = {}"
proof -
  have ok: "obj_ok os k" by (rule mod_invD [OF assms(1-3)])
  then have "ob_task_refs (os ! k) ! t \<le> sum_list (ob_task_refs (os ! k))" using assms(4) by (intro member_le_sum_list nth_mem) (simp_all add: obj_ok_def)
  then have "1 \<le> sum_list (ob_task_refs (os ! k))" using assms(5) by simp
  moreover have "sum_list (ob_task_refs (os ! k)) + ob_kernel_refs (os ! k) + int (card (users os k)) \<le> 1" "0 \<le> ob_kernel_refs (os ! k)"
    using ok assms(6) by (simp_all add: obj_ok_def refs_def)
  ultimately have "card (users os k) = 0" by linarith
  then show ?thesis by simp
qed

text \<open>
  C25. Closing the last reference on a library frees the library, but a module that it alone depended on stays: its count is zero and nobody holds it, yet it keeps its
  slot, and no task can close it. The code releases the dependencies while the library is still in its slot, so each dependency still appears to be in use.
\<close>

theorem dlclose_leaks_deps:
  assumes inv: "mod_inv (md_objs s)" and tid: "task_in_range tid" and k: "k < NS_MODULE_MAX" "ob_used (md_objs s ! k)"
    and lib: "ob_kind (md_objs s ! k) = NS_MODULE_KIND_LIBRARY" "ob_task_refs (md_objs s ! k) ! nat tid = 1" "ob_ref_count (md_objs s ! k) = 1"
    and d: "d \<in> set (ob_deps (md_objs s ! k))" "ob_ref_count (md_objs s ! d) = 1"
    and c: "module_dlclose_for_task run tid (ob_handle (md_objs s ! k)) s = (r, s')"
  shows "r = 0 \<and> \<not> ob_used (md_objs s' ! k) \<and> ob_used (md_objs s' ! d) \<and> ob_ref_count (md_objs s' ! d) = 0 \<and> \<not> module_held s' d \<and>
    fst (module_dlclose_for_task run tid' (ob_handle (md_objs s' ! d)) s') = -1"
proof -
  let ?os = "md_objs s" and ?t = "nat tid"
  define s1 where "s1 = upd_obj k (\<lambda>ob. drop_ref (ob\<lparr>ob_task_refs := (ob_task_refs ob)[?t := ob_task_refs ob ! ?t - 1]\<rparr>)) (clear_dlerror_for_task ?t s)"
  note ln = mod_inv_length [OF inv]
  have ok: "obj_ok ?os k" by (rule mod_invD [OF inv k])
  have t: "?t < MAX_TASKS" by (rule in_range_nat [OF tid])
  have uk: "users ?os k = {}" by (rule last_ref_no_users [OF inv k t lib(2,3)])
  then have ne: "d \<noteq> k" using d(1) k by (auto simp: users_def)
  have dm: "d < NS_MODULE_MAX" "ob_used (?os ! d)" using ok d(1) by (simp_all add: obj_ok_def)
  have du: "k \<in> users ?os d" using d(1) k by (simp add: users_def)
  note ou = only_user [OF inv dm d(2) du]
  have o1: "md_objs s1 ! k = (?os ! k)\<lparr>ob_task_refs := (ob_task_refs (?os ! k))[?t := 0], ob_ref_count := 0\<rparr>" "\<And>j. j \<noteq> k \<Longrightarrow> md_objs s1 ! j = ?os ! j" "length (md_objs s1) = NS_MODULE_MAX"
    using lib k ln by (simp_all add: s1_def upd_obj_def drop_ref_def)
  have inv1: "mod_inv (md_objs s1)" using task_drop_inv [OF inv k t] lib(2) by (simp add: s1_def upd_obj_def)
  have nd: "\<not> module_has_dependents k s1" using uk o1(2) by (auto simp: module_has_dependents_def list_ex_iff users_def)
  have f: "find_module_slot_by_handle (ob_handle (?os ! k)) (clear_dlerror_for_task ?t s) = Some k"
    using ok by (intro find_by_handle) (simp_all add: inv k obj_ok_def)
  have rel: "fst (release_module_slot run k False s1)" using k o1(1) nd unfolding release_module_slot_Suc release_slot.simps Let_def by simp
  have rs: "r = 0" "s' = snd (release_module_slot run k False s1)"
    using c tid f lib(1,2) rel by (auto simp: module_dlclose_for_task_def Let_def s1_def split: prod.splits)
  have o': "md_objs s' = (fold dec_ref (ob_deps (?os ! k)) (md_objs s1))[k := object_zero]"
    unfolding rs(2) release_module_slot_Suc release_objs [OF k(1)] using k(2) nd o1(1) by simp
  have inv': "mod_inv (md_objs s')" unfolding rs(2) by (rule release_inv [OF inv1])
  have dist: "distinct (ob_deps (?os ! k))" using ok by (simp add: obj_ok_def)
  have nth: "md_objs s' ! j = (if j = k then object_zero else if j \<in> set (ob_deps (?os ! k)) \<and> j < NS_MODULE_MAX \<and> ob_used (?os ! j) \<and> ob_ref_count (?os ! j) > 0
      then (?os ! j)\<lparr>ob_ref_count := ob_ref_count (?os ! j) - 1\<rparr> else ?os ! j)" for j
    using o1 k by (simp add: o' upd_nth length_fold_dec fold_dec_nth [OF dist o1(3)])
  have dd: "md_objs s' ! d = (?os ! d)\<lparr>ob_ref_count := 0\<rparr>" using nth [of d] ne d dm by simp
  have nh: "\<not> module_held s' d" using ou dd nth by (auto simp: module_held_def users_def object_zero_def split: if_splits)
  have "ob_handle (?os ! d) = 0x4000 + int d" using mod_invD [OF inv dm] by (simp add: obj_ok_def)
  then have "fst (module_dlclose_for_task run tid' (ob_handle (md_objs s' ! d)) s') = -1" using no_task_refs_close [OF inv' dm(1)] dm(2) dd ou(3) by simp
  then show ?thesis using rs(1) dd dm(2) nth [of k] nh by (simp add: object_zero_def)
qed

text \<open>Task 0 has opened the library of slot 0, which depends on the one of slot 1.\<close>

definition dep_objs :: "ns_object list" where
  "dep_objs = [object_zero\<lparr>ob_used := True, ob_kind := NS_MODULE_KIND_LIBRARY, ob_handle := 0x4000, ob_ref_count := 1, ob_task_refs := 1 # replicate 7 0, ob_deps := [1]\<rparr>,
     object_zero\<lparr>ob_used := True, ob_kind := NS_MODULE_KIND_LIBRARY, ob_handle := 0x4001, ob_ref_count := 1\<rparr>] @ replicate 10 object_zero"

definition dep_mods :: "unit mods" where
  "dep_mods = \<lparr>md_objs = dep_objs, md_kexports = [], md_pending = [], md_dlerror = replicate MAX_TASKS [], md_cursor = 0, md_mem = (\<lambda>_. 0), md_task = 0, md_fs = ()\<rparr>"

lemma dep_objs_used: "k < NS_MODULE_MAX \<Longrightarrow> ob_used (dep_objs ! k) \<longleftrightarrow> k \<le> 1"
  by (auto simp: dep_objs_def object_zero_def nth_append nth_Cons split: nat.splits)

lemma dep_users: "users dep_objs 0 = {}" "users dep_objs 1 = {0}"
  using dep_objs_used by (auto simp: users_def le_Suc_eq) (auto simp: dep_objs_def object_zero_def)

lemma dep_objs_inv: "mod_inv dep_objs"
proof -
  have u: "ob_used (dep_objs ! Suc 0)" using dep_objs_used [of 1] by simp
  have "refs dep_objs 0 = 1" "refs dep_objs 1 = 1" unfolding refs_def dep_users by (simp_all add: dep_objs_def object_zero_def sum_list_replicate)
  then have "obj_ok dep_objs 0" "obj_ok dep_objs 1" unfolding obj_ok_def using u by (simp_all add: dep_objs_def object_zero_def)
  then have "obj_ok dep_objs k" if "k < NS_MODULE_MAX" "ob_used (dep_objs ! k)" for k using dep_objs_used [OF that(1)] that(2) by (auto simp: le_Suc_eq)
  then show ?thesis by (simp add: mod_inv_def) (simp add: dep_objs_def)
qed

lemma dlclose_leaks_deps_witness:
  "case module_dlclose_for_task (\<lambda>_ m. (0, m)) 0 0x4000 dep_mods of (r, s') \<Rightarrow> r = 0 \<and> ob_used (md_objs s' ! 1) \<and> \<not> module_held s' 1"
proof -
  obtain r s' where c: "module_dlclose_for_task (\<lambda>_ m. (0, m)) 0 (ob_handle (md_objs dep_mods ! 0)) dep_mods = (r, s')" by (metis surj_pair)
  have "r = 0 \<and> ob_used (md_objs s' ! 1) \<and> \<not> module_held s' 1"
    using dlclose_leaks_deps [OF _ _ _ _ _ _ _ _ _ c, of 1 0] dep_objs_inv by (simp add: dep_mods_def task_in_range_def) (simp add: dep_objs_def object_zero_def)
  then show ?thesis using c by (simp add: dep_mods_def) (simp add: dep_objs_def)
qed

end
