(* ===== verification/NetRetx.thy ===== *)
theory NetRetx
  imports NetPath
begin

text \<open>
  Retransmission: a connection whose segment is never acknowledged sends it again, and ends.
\<close>

section \<open>The log of a card that transmits\<close>

definition host_ok :: "'h ports \<Rightarrow> ('h \<Rightarrow> u8 list list) \<Rightarrow> 'h net \<Rightarrow> bool" where
  "host_ok pt sent s \<longleftrightarrow> transmits pt (n_iobase s) sent \<and> card_up s \<and> n_tx_slot s < 4 \<and> length (n_mac s) = 6"

text \<open>What is in the log stays; frames are added behind.\<close>

definition logged :: "('h \<Rightarrow> u8 list list) \<Rightarrow> 'h net \<Rightarrow> 'h net \<Rightarrow> bool" where
  "logged sent s s' \<longleftrightarrow> (\<exists>fs. sent (n_hw s') = sent (n_hw s) @ fs)"

lemma logged_refl [simp]: "logged sent s s"
  by (simp add: logged_def)

lemma logged_trans: "logged sent s t \<Longrightarrow> logged sent t u \<Longrightarrow> logged sent s u"
  by (auto simp: logged_def)

lemma sends_host: "sends s s' \<Longrightarrow> n_tx_slot s' < 4 \<Longrightarrow> host_ok pt sent s \<Longrightarrow> host_ok pt sent s'"
  using sends_fields [of s s'] by (simp add: host_ok_def card_up_def)

lemma send_frame_log:
  assumes "host_ok pt sent s" "unat len \<le> length frame"
  shows "logged sent s (snd (rtl8139_send_frame pt mem frame len s))" "host_ok pt sent (snd (rtl8139_send_frame pt mem frame len s))"
proof -
  have h: "transmits pt (n_iobase s) sent" "n_ready s" "n_iobase s \<noteq> 0" "n_tx_slot s < 4" using assms(1) by (simp_all add: host_ok_def card_up_def)
  have "logged sent s (snd (rtl8139_send_frame pt mem frame len s)) \<and> n_tx_slot (snd (rtl8139_send_frame pt mem frame len s)) < 4"
  proof (cases "len \<noteq> 0 \<and> len \<le> 1514")
    case True
    then show ?thesis using send_frame_sent [OF h _ _ assms(2), of mem] by (auto simp: logged_def)
  next
    case False
    then have "snd (rtl8139_send_frame pt mem frame len s) = s" by (auto simp: rtl8139_send_frame_def not_less)
    then show ?thesis using h(4) by simp
  qed
  then show "logged sent s (snd (rtl8139_send_frame pt mem frame len s))" "host_ok pt sent (snd (rtl8139_send_frame pt mem frame len s))"
    using sends_host [OF sends_frame _ assms(1)] by auto
qed

lemma resolve_log:
  assumes "host_ok pt sent s"
  shows "logged sent s (snd (resolve_mac pt mem ip s))" "host_ok pt sent (snd (resolve_mac pt mem ip s))"
proof -
  have "length (n_mac s) = 6" using assms by (simp add: host_ok_def)
  then have "unat (42 :: u32) \<le> length (MAC_ALL @ n_mac s @ write_be16 ETH_TYPE_ARP @ write_be16 1 @ write_be16 0x0800 @ [6, 4] @ write_be16 1 @
      n_mac s @ write_be32 (n_ip s) @ replicate 6 0 @ write_be32 ip)" by (simp add: length_write_be)
  from send_frame_log [OF assms this, of mem]
  show "logged sent s (snd (resolve_mac pt mem ip s))" "host_ok pt sent (snd (resolve_mac pt mem ip s))"
    using assms by (auto simp: resolve_mac_def net_send_arp_request_def net_send_arp_packet_def split: option.splits)
qed

text \<open>The frame in which the last segment of a connection goes out again.\<close>

definition retx_frame :: "u8 list \<Rightarrow> tcp_conn \<Rightarrow> 'h net \<Rightarrow> u8 list" where
  "retx_frame mac c s =
     (let seg = (\<lambda>csum. tcp_segment (tc_local_port c) (tc_remote_port c) (tc_last_seq c) (tc_last_ack c) (tc_last_flags c) csum (tc_last_data c))
      in ip_frame mac (n_mac s) (n_ip s) (tc_remote_ip c) IP_PROTO_TCP 64 (ucast (n_iss s AND 0xFFFF)) 0
           (seg (internet_checksum (tcp_pseudo (n_ip s) (tc_remote_ip c) IP_PROTO_TCP (seg 0)))))"

lemma conn_send_log:
  assumes "host_ok pt sent s" "length (tc_last_data (conn s i)) \<le> 1300"
    "s' = snd (conn_send pt mem i (tc_last_seq (conn s i)) (tc_last_ack (conn s i)) (tc_last_flags (conn s i)) (tc_last_data (conn s i)) s)"
  shows "(\<exists>pre mac. sent (n_hw s') = sent (n_hw s) @ pre @ [retx_frame mac (conn s i) s]) \<and> host_ok pt sent s'"
proof -
  let ?c = "conn s i"
  define x where "x = (if tc_remote_ip ?c \<noteq> BROADCAST then resolve_mac pt mem (net_route_next_hop (tc_remote_ip ?c) s) s else (MAC_ALL, s))"
  have x: "logged sent s (snd x)" "host_ok pt sent (snd x)" "sends s (snd x)" using resolve_log [OF assms(1)] sends_resolve assms(1) by (auto simp: x_def)
  note f = sends_fields [OF x(3)]
  have h: "transmits pt (n_iobase (snd x)) sent" "n_ready (snd x)" "n_iobase (snd x) \<noteq> 0" "n_tx_slot (snd x) < 4" using x(2) by (simp_all add: host_ok_def card_up_def)
  define seg where "seg = tcp_segment (tc_local_port ?c) (tc_remote_port ?c) (tc_last_seq ?c) (tc_last_ack ?c) (tc_last_flags ?c)
    (internet_checksum (tcp_pseudo (n_ip s) (tc_remote_ip ?c) IP_PROTO_TCP (tcp_segment (tc_local_port ?c) (tc_remote_port ?c) (tc_last_seq ?c) (tc_last_ack ?c)
      (tc_last_flags ?c) 0 (tc_last_data ?c)))) (tc_last_data ?c)"
  have l: "length seg \<le> 1480" using assms(2) by (simp add: seg_def)
  have s': "s' = snd (send_ipv4 pt mem (fst x) (tc_remote_ip ?c) IP_PROTO_TCP 64 (ucast (n_iss (snd x) AND 0xFFFF)) 0 seg (snd x))"
    using assms(1,2) unfolding assms(3) conn_send_def tcp_send_segment_def x_def [symmetric] seg_def by (simp add: host_ok_def card_up_def Let_def split_beta)
  have e: "sent (n_hw s') = sent (n_hw (snd x)) @ [retx_frame (fst x) ?c s]"
    unfolding s' send_ipv4_sent [OF h l] by (simp add: retx_frame_def Let_def seg_def f)
  have "unat (frame_len (20 + of_nat (length seg))) \<le> length (eth_frame m (n_mac (snd x)) ETH_TYPE_IPV4 d)" for m d
    using frame_len_ok(3) [OF l] l unfolding eth_frame_def Let_def length_append length_replicate by linarith
  then have "host_ok pt sent s'" unfolding s' send_ipv4_def Let_def by (intro send_frame_log(2) [OF x(2)])
  with e x(1) show ?thesis by (auto simp: logged_def)
qed

section \<open>Polls\<close>

lemma retransmit_log:
  assumes "host_ok pt sent s" "length (tc_last_data (conn s i)) \<le> 1300" "s' = snd (tcp_retransmit_last pt mem i s)"
  shows "logged sent s s' \<and> host_ok pt sent s' \<and> (unacked (conn s i) \<and> tc_last_retries (conn s i) < retx_limit (conn s i) \<longrightarrow>
    (\<exists>pre mac. sent (n_hw s') = sent (n_hw s) @ pre @ [retx_frame mac (conn s i) s]))"
proof -
  define r where "r = conn_send pt mem i (tc_last_seq (conn s i)) (tc_last_ack (conn s i)) (tc_last_flags (conn s i)) (tc_last_data (conn s i)) s"
  have r: "(\<exists>pre mac. sent (n_hw (snd r)) = sent (n_hw s) @ pre @ [retx_frame mac (conn s i) s])" "host_ok pt sent (snd r)"
    using conn_send_log [OF assms(1,2) refl, of mem] by (simp_all add: r_def)
  have ex: "n_hw s' = n_hw s \<and> s' = s\<lparr>n_tcp := n_tcp s', n_stats := n_stats s'\<rparr> \<and> length (n_tcp s') = length (n_tcp s) \<or>
      n_hw s' = n_hw (snd r) \<and> s' = (snd r)\<lparr>n_tcp := n_tcp s', n_stats := n_stats s'\<rparr> \<and> length (n_tcp s') = length (n_tcp (snd r))"
    unfolding assms(3) tcp_retransmit_last_def Let_def r_def [symmetric] by (auto simp: upd_conn_def upd_rx_stats_def split_beta)
  have up: "host_ok pt sent s'" if "s' = t\<lparr>n_tcp := n_tcp s', n_stats := n_stats s'\<rparr>" "length (n_tcp s') = length (n_tcp t)" "host_ok pt sent t" for t
    using that by (cases t, cases s') (simp add: host_ok_def card_up_def)
  have ok: "fst r" using assms(1,2) unfolding r_def by (intro conn_send_ok) (simp_all add: host_ok_def card_up_def)
  have go: "n_hw s' = n_hw (snd r)" if "unacked (conn s i)" "tc_last_retries (conn s i) < retx_limit (conn s i)"
    using that ok unfolding assms(3) tcp_retransmit_last_def Let_def r_def [symmetric]
    by (auto simp: upd_conn_def upd_rx_stats_def split_beta unacked_def retx_limit_def half_open_def)
  show ?thesis using ex up r go assms(1) by (auto simp: logged_def)
qed

text \<open>All connections keep segments that fit a frame.\<close>

definition conns_ok :: "'h net \<Rightarrow> bool" where
  "conns_ok s \<longleftrightarrow> list_all (\<lambda>c. length (tc_last_data c) \<le> TCP_MAX_PAYLOAD) (n_tcp s)"

lemma retransmit_conns: "conns_ok s \<Longrightarrow> conns_ok (snd (tcp_retransmit_last pt mem i s))"
proof (cases "i < length (n_tcp s)")
  case True
  assume c: "conns_ok s"
  let ?r = "conn_send pt mem i (tc_last_seq (conn s i)) (tc_last_ack (conn s i)) (tc_last_flags (conn s i)) (tc_last_data (conn s i)) s"
  have "n_tcp (snd ?r) = n_tcp s" using sends_fields [OF sends_conn] by blast
  then show ?thesis using c True by (auto simp: tcp_retransmit_last_def Let_def split_beta upd_conn_def upd_rx_stats_def conns_ok_def list_all_length nth_list_update)
next
  case False
  assume c: "conns_ok s"
  let ?r = "conn_send pt mem i (tc_last_seq (conn s i)) (tc_last_ack (conn s i)) (tc_last_flags (conn s i)) (tc_last_data (conn s i)) s"
  have "n_tcp (snd ?r) = n_tcp s" using sends_fields [OF sends_conn] by blast
  then show ?thesis using c False by (auto simp: tcp_retransmit_last_def Let_def split_beta upd_conn_def upd_rx_stats_def conns_ok_def list_update_beyond)
qed

lemma poll_conn_log:
  assumes "host_ok pt sent (snd x)" "conns_ok (snd x)" "i < TCP_MAX_CONNS" "y = poll_conn pt mem i x"
  shows "logged sent (snd x) (snd y) \<and> host_ok pt sent (snd y) \<and> conns_ok (snd y)"
proof -
  have l: "length (n_tcp (snd x)) = TCP_MAX_CONNS" using assms(1) by (simp add: host_ok_def card_up_def)
  then have "length (tc_last_data (conn (snd x) i)) \<le> 1300" using assms(2,3) by (auto simp: conns_ok_def list_all_length)
  from retransmit_log [OF assms(1) this refl, of mem] retransmit_conns [OF assms(2), of pt mem i] assms(1,2)
  show ?thesis unfolding assms(4) by (cases x) (auto simp: poll_conn_def Let_def split_beta)
qed

lemma poll_fold_log:
  "host_ok pt sent (snd x) \<Longrightarrow> conns_ok (snd x) \<Longrightarrow> (\<And>j. j \<in> set js \<Longrightarrow> j < TCP_MAX_CONNS) \<Longrightarrow>
    logged sent (snd x) (snd (fold (poll_conn pt mem) js x)) \<and> host_ok pt sent (snd (fold (poll_conn pt mem) js x)) \<and> conns_ok (snd (fold (poll_conn pt mem) js x))"
proof (induction js arbitrary: x)
  case (Cons j js)
  have "j < TCP_MAX_CONNS" using Cons.prems(3) by simp
  from poll_conn_log [OF Cons.prems(1,2) this refl, of mem] Cons.IH [of "poll_conn pt mem j x"] Cons.prems(3) show ?case by (auto intro: logged_trans)
qed simp

lemma host_tick [simp]: "host_ok pt sent (s\<lparr>n_tick := t\<rparr>) = host_ok pt sent s" "conns_ok (s\<lparr>n_tick := t\<rparr>) = conns_ok s"
  by (simp_all add: host_ok_def card_up_def conns_ok_def)

lemma poll_due_log:
  assumes "host_ok pt sent s" "conns_ok s" "i < TCP_MAX_CONNS" "unacked (conn s i)" "n_tick s - tc_last_tick (conn s i) \<ge> 320"
    "tc_last_retries (conn s i) < retx_limit (conn s i)" "s' = snd (net_tcp_poll pt mem s)"
  shows "\<exists>pre mac post. sent (n_hw s') = sent (n_hw s) @ pre @ [retx_frame mac (conn s i) s] @ post"
proof -
  have l: "[0..<TCP_MAX_CONNS] = [0..<i] @ i # [Suc i..<TCP_MAX_CONNS]" using assms(3) upt_add_eq_append [of 0 i "TCP_MAX_CONNS - i"] by (simp add: upt_conv_Cons)
  define x where "x = fold (poll_conn pt mem) [0..<i] (0, s)"
  define y where "y = poll_conn pt mem i x"
  have x: "logged sent s (snd x)" "host_ok pt sent (snd x)" "conns_ok (snd x)"
    using poll_fold_log [of pt sent "(0, s)" "[0..<i]" mem] assms(1-3) by (auto simp: x_def)
  have k: "net_keeps s (snd x)" "conn (snd x) i = conn s i" using poll_others [of i "[0..<i]" "(0, s)" pt mem] by (simp_all add: x_def)
  have due: "\<not> n_tick (snd x) - tc_last_tick (conn s i) < retx_timeout (conn s i)"
    using k(1) assms(5) retx_timeout_le [of "conn s i"] by (auto simp: net_keeps_def not_less)
  have "snd y = snd (tcp_retransmit_last pt mem i (snd x))"
    using assms(4) due k(2) unfolding y_def by (cases x) (simp add: poll_conn_def Let_def split_beta unacked_def)
  then have y: "\<exists>pre mac. sent (n_hw (snd y)) = sent (n_hw (snd x)) @ pre @ [retx_frame mac (conn s i) (snd x)]"
    using retransmit_log [OF x(2) _ refl, of i mem] assms(4,6) k(2) by (simp add: unacked_def)
  have f: "retx_frame mac c (snd x) = retx_frame mac c s" for mac c using k(1) by (simp add: retx_frame_def net_keeps_def)
  have yo: "host_ok pt sent (snd y)" "conns_ok (snd y)" using poll_conn_log [OF x(2,3) assms(3) y_def] by simp_all
  have "s' = snd (fold (poll_conn pt mem) [Suc i..<TCP_MAX_CONNS] y)" unfolding assms(7) net_tcp_poll_def l by (simp add: x_def y_def)
  then have "logged sent (snd y) s'" using poll_fold_log [OF yo, of "[Suc i..<TCP_MAX_CONNS]" mem] by auto
  with x(1) y show ?thesis unfolding f logged_def by (metis append_assoc)
qed

lemma poll_host:
  assumes "host_ok pt sent s" "conns_ok s" "s' = snd (net_tcp_poll pt mem (s\<lparr>n_tick := t\<rparr>))"
  shows "host_ok pt sent s' \<and> conns_ok s' \<and> n_mac s' = n_mac s \<and> n_ip s' = n_ip s \<and> n_iss s' = n_iss s"
proof -
  have "host_ok pt sent s' \<and> conns_ok s'" using poll_fold_log [of pt sent "(0, s\<lparr>n_tick := t\<rparr>)" "[0..<TCP_MAX_CONNS]" mem] assms(1,2) by (auto simp: assms(3) net_tcp_poll_def)
  moreover have "net_keeps (s\<lparr>n_tick := t\<rparr>) s'"
    using poll_others [of TCP_MAX_CONNS "[0..<TCP_MAX_CONNS]" "(0, s\<lparr>n_tick := t\<rparr>)" pt mem] by (simp add: assms(3) net_tcp_poll_def)
  ultimately show ?thesis by (simp add: net_keeps_def)
qed

lemma polls_host:
  "host_ok pt sent s \<Longrightarrow> conns_ok s \<Longrightarrow> host_ok pt sent (polls pt mem ts s) \<and> conns_ok (polls pt mem ts s) \<and>
    n_mac (polls pt mem ts s) = n_mac s \<and> n_ip (polls pt mem ts s) = n_ip s \<and> n_iss (polls pt mem ts s) = n_iss s"
proof (induction ts arbitrary: s)
  case (Cons t ts)
  note h = poll_host [OF Cons.prems refl, of mem t]
  from Cons.IH h show ?case by simp
qed simp

text \<open>
  C15. A connection whose segment is never acknowledged is given up in bounded time: of polls that are each at least the longest timeout (320 ticks) after the one
  before, the first ones, as many as retries are left (five in all, seven while the connection is half open), each give the card a frame with that very segment,
  and the next one closes the connection and frees its slot. Other connections may send at the same polls; the card transmits what is stored for it, and nothing
  arrives in between.
\<close>

theorem tcp_retransmission_ends:
  fixes s :: "'h net" and pt :: "'h ports" and mem i sent
  defines "c \<equiv> conn s i"
  assumes "host_ok pt sent s" "conns_ok s" "i < TCP_MAX_CONNS" "unacked c" "spaced (tc_last_tick c) (ts @ [t])" "tc_last_retries c + length ts = retx_limit c"
  shows "(\<forall>k \<le> length ts. conn (polls pt mem (take k ts) s) i = c\<lparr>tc_last_tick := last (tc_last_tick c # take k ts), tc_last_retries := tc_last_retries c + k\<rparr>) \<and>
    (\<forall>k < length ts. \<exists>pre mac post. sent (n_hw (polls pt mem (take (Suc k) ts) s)) = sent (n_hw (polls pt mem (take k ts) s)) @ pre @ [retx_frame mac c s] @ post) \<and>
    conn (polls pt mem (ts @ [t]) s) i = c\<lparr>tc_used := False, tc_state := TCP_CLOSED, tc_last_tick := last (tc_last_tick c # ts), tc_last_retries := retx_limit c\<rparr>"
proof (intro conjI)
  have up: "card_up s" using assms(2) by (simp add: host_ok_def)
  have sp: "spaced (tc_last_tick c) ts" "t - last (tc_last_tick c # ts) \<ge> 320" using assms(6) by (simp_all only: spaced_append spaced.simps)
  have spk: "spaced (tc_last_tick c) (take k ts)" for k using sp(1) spaced_append [of "tc_last_tick c" "take k ts" "drop k ts"] by simp
  have ck: "conn (polls pt mem (take k ts) s) i = c\<lparr>tc_last_tick := last (tc_last_tick c # take k ts), tc_last_retries := tc_last_retries c + k\<rparr>" if "k \<le> length ts" for k
    using polls_open [OF up assms(4), of "take k ts" pt mem] assms(5,7) that spk [of k] by (simp add: c_def)
  then show "\<forall>k \<le> length ts. conn (polls pt mem (take k ts) s) i = c\<lparr>tc_last_tick := last (tc_last_tick c # take k ts), tc_last_retries := tc_last_retries c + k\<rparr>" by blast
  show "\<forall>k < length ts. \<exists>pre mac post. sent (n_hw (polls pt mem (take (Suc k) ts) s)) = sent (n_hw (polls pt mem (take k ts) s)) @ pre @ [retx_frame mac c s] @ post"
  proof (intro allI impI)
    fix k assume k: "k < length ts"
    let ?p = "polls pt mem (take k ts) s"
    note h = polls_host [OF assms(2,3), of mem "take k ts"]
    have cp: "conn ?p i = c\<lparr>tc_last_tick := last (tc_last_tick c # take k ts), tc_last_retries := tc_last_retries c + k\<rparr>" using ck k by simp
    have e: "polls pt mem (take (Suc k) ts) s = snd (net_tcp_poll pt mem (?p\<lparr>n_tick := ts ! k\<rparr>))" using k by (simp add: take_Suc_conv_app_nth polls_append)
    have due: "ts ! k - last (tc_last_tick c # take k ts) \<ge> 320"
      using spk [of "Suc k"] k unfolding take_Suc_conv_app_nth [OF k] spaced_append by simp
    have hp: "host_ok pt sent (?p\<lparr>n_tick := ts ! k\<rparr>)" "conns_ok (?p\<lparr>n_tick := ts ! k\<rparr>)" using h by simp_all
    have "\<exists>pre mac post. sent (n_hw (polls pt mem (take (Suc k) ts) s)) = sent (n_hw (?p\<lparr>n_tick := ts ! k\<rparr>)) @ pre @ [retx_frame mac (conn (?p\<lparr>n_tick := ts ! k\<rparr>) i) (?p\<lparr>n_tick := ts ! k\<rparr>)] @ post"
      by (rule poll_due_log [OF hp assms(4) _ _ _ e]) (use cp due assms(5,7) k in \<open>simp_all add: unacked_def retx_limit_def half_open_def\<close>)
    moreover have "retx_frame mac (conn (?p\<lparr>n_tick := ts ! k\<rparr>) i) (?p\<lparr>n_tick := ts ! k\<rparr>) = retx_frame mac c s" for mac using cp h by (simp add: retx_frame_def)
    ultimately show "\<exists>pre mac post. sent (n_hw (polls pt mem (take (Suc k) ts) s)) = sent (n_hw ?p) @ pre @ [retx_frame mac c s] @ post" by simp
  qed
  have o: "card_up (polls pt mem ts s)" "conn (polls pt mem ts s) i = c\<lparr>tc_last_tick := last (tc_last_tick c # ts), tc_last_retries := retx_limit c\<rparr>"
    using polls_open [OF up assms(4), of ts pt mem] assms(5,7) sp(1) by (simp_all add: c_def)
  have "conn (snd (net_tcp_poll pt mem ((polls pt mem ts s)\<lparr>n_tick := t\<rparr>))) i = after_retx t (conn (polls pt mem ts s) i)"
    using o assms(4,5) sp(2) by (intro poll_at [THEN conjunct2, OF _ _ _ _ refl]) (auto simp: unacked_def)
  then show "conn (polls pt mem (ts @ [t]) s) i = c\<lparr>tc_used := False, tc_state := TCP_CLOSED, tc_last_tick := last (tc_last_tick c # ts), tc_last_retries := retx_limit c\<rparr>"
    using o(2) by (simp add: polls_append after_retx_def retx_limit_def half_open_def)
qed

definition wire_waiting :: "wire net" where
  "wire_waiting = (wire_host 0x0A000001)\<lparr>n_tcp := (replicate TCP_MAX_CONNS conn0)[3 := conn0\<lparr>tc_used := True, tc_state := TCP_ESTABLISHED, tc_remote_ip := 0x0A000002,
      tc_last_data := [1, 2], tc_waiting_ack := True, tc_last_retries := 3\<rparr>]\<rparr>"

lemma tcp_retransmission_ends_witness:
  "(\<exists>pre mac post. w_sent (n_hw (polls wire_ports wire_mem [400] wire_waiting)) = pre @ [retx_frame mac (conn wire_waiting 3) wire_waiting] @ post) \<and>
   tc_state (conn (polls wire_ports wire_mem [400, 800, 1200] wire_waiting) 3) = TCP_CLOSED"
proof -
  have h: "host_ok wire_ports w_sent wire_waiting" "conns_ok wire_waiting" "unacked (conn wire_waiting 3)" "spaced (tc_last_tick (conn wire_waiting 3)) ([400, 800] @ [1200])"
    "tc_last_retries (conn wire_waiting 3) + length [400, 800 :: u32] = retx_limit (conn wire_waiting 3)" "w_sent (n_hw wire_waiting) = []"
    using wire_transmits by (simp_all add: host_ok_def card_up_def wire_waiting_def wire_host_def net0_def conn0_def conns_ok_def list_all_length nth_list_update unacked_def retx_limit_def half_open_def)
  note w = tcp_retransmission_ends [OF h(1,2) _ h(3-5), where mem = wire_mem]
  have "\<exists>pre mac post. w_sent (n_hw (polls wire_ports wire_mem [400] wire_waiting)) = pre @ [retx_frame mac (conn wire_waiting 3) wire_waiting] @ post"
    using w [THEN conjunct2, THEN conjunct1, rule_format, of 0] h(6) by simp
  moreover have "tc_state (conn (polls wire_ports wire_mem ([400, 800] @ [1200]) wire_waiting) 3) = TCP_CLOSED" using w by simp
  ultimately show ?thesis by simp
qed

end
