(* ===== verification/AiRuntimeCorrect.thy ===== *)
theory AiRuntimeCorrect
  imports AiRuntime
begin

text \<open>
  What the checksum of a model is worth. The mixing function is a bijection, so two descriptions that differ in exactly one word
  never have the same checksum; from this follow which models verify and which never do.
\<close>

section \<open>The checksum\<close>

lemma mix_step_inj: "mix_step w h = mix_step w h' \<Longrightarrow> h = h'"
proof -
  assume "mix_step w h = mix_step w h'"
  then have "(h XOR w) XOR w = (h' XOR w) XOR w" by (auto simp: mix_step_def dest: mix_u32_inj)
  then show "h = h'" by (simp add: xor.assoc)
qed

lemma mix_step_inj_word: "mix_step w h = mix_step w' h \<Longrightarrow> w = w'"
proof -
  assume "mix_step w h = mix_step w' h"
  then have "h XOR w = h XOR w'" unfolding mix_step_def by (rule mix_u32_inj)
  then have "h XOR (h XOR w) = h XOR (h XOR w')" by (simp only:)
  then show "w = w'" by (simp add: xor.assoc [symmetric])
qed

lemma fold_mix_inj: "fold mix_step ws h = fold mix_step ws h' \<Longrightarrow> h = h'"
  by (induction ws arbitrary: h h') (auto dest: mix_step_inj)

lemma hash_payload_inj:
  "model_package_hash nm k v b s p bias x art sch pkg = model_package_hash nm k v b s p bias y art sch pkg \<Longrightarrow> x = y"
  unfolding model_package_hash_def by (auto dest!: mix_step_inj mix_step_inj_word)

lemma hash_bias_inj:
  "model_package_hash nm k v b s p x pay art sch pkg = model_package_hash nm k v b s p y pay art sch pkg \<Longrightarrow>
   (word_of_int x :: u32) = word_of_int y"
  unfolding model_package_hash_def by (auto dest!: mix_step_inj mix_step_inj_word)

lemma small_bias_inj:
  assumes "(word_of_int x :: u32) = word_of_int y" "\<bar>x\<bar> \<le> 100000" "\<bar>y\<bar> \<le> 100000"
  shows "x = y"
proof -
  have "to_i32 x = to_i32 y" using assms(1) by (simp add: to_i32_def)
  then show ?thesis using assms(2,3) by (simp add: to_i32_id)
qed

section \<open>Storing\<close>

lemma upd_rstats_models [simp]: "g_models (upd_rstats f a) = g_models a" "find_model_index n (upd_rstats f a) = find_model_index n a"
  by (simp_all add: upd_rstats_def find_model_index_def)

text \<open>After storing under a name that fits, the name finds the stored model and every other slot is as before.\<close>

lemma store_model_find:
  assumes "store_model d a = (True, a1)" "length (mi_name d) \<le> 15"
  shows "\<exists>i < length (g_models a). find_model_index (Some (mi_name d)) a1 = Some i \<and>
    g_models a1 = (g_models a)[i := fill_model d (g_models a ! i)]"
proof -
  let ?P = "\<lambda>m. mi_active m \<and> str_eq_local (Some (mi_name m)) (Some (mi_name d))"
  define idx where "idx = (case find_model_index (Some (mi_name d)) a of Some i \<Rightarrow> Some i
    | None \<Rightarrow> find_slot (\<lambda>m. \<not> mi_active m) (g_models a))"
  from assms(1) obtain i where i: "idx = Some i" and a1: "g_models a1 = (g_models a)[i := fill_model d (g_models a ! i)]"
    unfolding store_model_def idx_def [symmetric] Let_def by (cases idx) (auto split: if_splits)
  have P: "?P (fill_model d m)" for m using assms(2) by (simp add: fill_model_def)
  have lt: "i < length (g_models a)" and before: "\<And>j. j < i \<Longrightarrow> \<not> ?P (g_models a ! j)"
  proof -
    show "i < length (g_models a)" using i by (auto simp: idx_def find_model_index_def split: option.splits)
    fix j assume j: "j < i"
    show "\<not> ?P (g_models a ! j)"
    proof (cases "find_model_index (Some (mi_name d)) a")
      case None
      then have "\<forall>m \<in> set (g_models a). \<not> ?P m" unfolding find_model_index_def find_slot_None by simp
      moreover have "j < length (g_models a)" using j \<open>i < length (g_models a)\<close> by simp
      ultimately show ?thesis using nth_mem by blast
    next
      case (Some k)
      then have "k = i" using i by (simp add: idx_def)
      with Some j find_slot_Some_first [of ?P "g_models a" i j] show ?thesis by (simp add: find_model_index_def)
    qed
  qed
  have "find_model_index (Some (mi_name d)) a1 = Some i" unfolding find_model_index_def a1
    by (rule find_slot_SomeI) (use lt before P in auto)
  with lt a1 show ?thesis by blast
qed

definition model_hash :: "model_info \<Rightarrow> u32" where
  "model_hash m = model_package_hash (mi_name m) (mi_kind m) (mi_version m) (mi_preferred_backend m) (mi_seed m)
     (mi_provenance m) (mi_bias m) (mi_package_bytes m) (mi_artifact_hash m) (mi_schema_version m) (mi_package_bytes m)"

lemma verify_iff:
  "find_model_index n a = Some i \<Longrightarrow>
   fst (ai_runtime_verify_model n a) = (if model_hash (g_models a ! i) = mi_checksum (g_models a ! i)
     then Some (mi_checksum (g_models a ! i)) else None)"
  by (auto simp: ai_runtime_verify_model_def model_hash_def Let_def)

lemma verify_stored:
  assumes "store_model d a = (True, a1)" "length (mi_name d) \<le> 15" "\<bar>mi_bias d\<bar> \<le> 100000"
  shows "fst (ai_runtime_verify_model (Some (mi_name d)) a1) = (if model_hash d = mi_checksum d then Some (mi_checksum d) else None)"
proof -
  obtain i where i: "i < length (g_models a)" "find_model_index (Some (mi_name d)) a1 = Some i"
    "g_models a1 = (g_models a)[i := fill_model d (g_models a ! i)]" using store_model_find [OF assms(1,2)] by blast
  have "model_hash (fill_model d m) = model_hash d" "mi_checksum (fill_model d m) = mi_checksum d" for m
    using assms(2,3) by (auto simp: model_hash_def fill_model_def)
  then show ?thesis unfolding verify_iff [OF i(2)] using i(1,3) by simp
qed

lemma store_model_ok:
  assumes "name_valid (Some (mi_name d))" "valid_kind (mi_kind d)" "valid_backend (mi_preferred_backend d)"
    "find_model_index (Some (mi_name d)) a \<noteq> None \<or> (\<exists>m \<in> set (g_models a). \<not> mi_active m)"
  shows "\<exists>a1. store_model d a = (True, a1)"
proof -
  have "find_slot (\<lambda>m. \<not> mi_active m) (g_models a) \<noteq> None" if "find_model_index (Some (mi_name d)) a = None"
    using assms(4) that by (simp add: find_slot_None)
  then show ?thesis using assms(1-3) by (auto simp: store_model_def Let_def split: option.splits)
qed

section \<open>Packages\<close>

lemma length_derive: "0 < n \<Longrightarrow> length (derive_name_from_path p n) \<le> max (n - 1) 5"
proof -
  have "length (derive_loop k cs) \<le> k" for k cs by (induction k cs rule: derive_loop.induct) auto
  then show ?thesis by (auto simp: derive_name_from_path_def Let_def le_max_iff_disj split: option.split)
qed

lemma length_copy_16: "length (copy_name 16 s) \<le> 15"
  using length_copy_name [of 16 s] by simp

lemma info_hash_simps [simp]: "info_hash (i\<lparr>pi_checksum := c\<rparr>) = info_hash i" "info_hash (i\<lparr>pi_source_path := s\<rparr>) = info_hash i"
  by (simp_all add: info_hash_def)

lemma info_simps [simp]:
  "pi_schema_version (info_v1 h p) = ph_schema_version h" "pi_package_bytes (info_v1 h p) = p"
  "pi_payload_bytes (info_v1 h p) = ph_payload_bytes h" "pi_schema_version (info_raw p) = 0" "pi_package_bytes (info_raw p) = p"
  "pi_payload_bytes (info_raw p) = p"
  by (simp_all add: info_v1_def info_raw_def info_zero_def)

lemma import_body_info:
  assumes "import_body vo path alias pkg fd v = (Some i, v2)"
  shows "length (pi_name i) \<le> 15 \<and> pi_checksum i = info_hash i \<and> pi_package_bytes i = pkg \<and>
    (pi_schema_version i = 0 \<and> pi_payload_bytes i = pkg \<or>
     pi_schema_version i = 1 \<and> pi_payload_bytes i \<le> pkg - of_nat HEADER_BYTES)"
  using assms length_copy_16 length_derive [of 16 "Some path"]
  by (auto simp: import_body_def Let_def header_ok_def split: if_splits prod.splits option.splits)

lemma payload_ne_package: "x \<le> p - 96 \<Longrightarrow> \<not> p < 96 \<Longrightarrow> x \<noteq> p" for x p :: u32
proof
  assume a: "x \<le> p - 96" "\<not> p < 96" "x = p"
  have "unat (p - 96) = unat p - 96" using a(2) by (simp add: unat_sub not_less)
  moreover have "96 \<le> unat p" using a(2) by (simp add: not_less word_le_nat_alt)
  ultimately show False using a(1,3) by (simp add: word_le_nat_alt)
qed

lemma import_cases:
  assumes "ai_runtime_import_model_package vo path alias v a = ((True, info), v', a1)"
  shows "\<exists>p pkg fd v1 i v2. \<not> pkg < of_nat HEADER_BYTES \<and> import_body vo p alias pkg fd v1 = (Some i, v2) \<and>
    store_model (info_model i p) a = (True, a1) \<and> info = i\<lparr>pi_source_path := copy_name 48 (Some p)\<rparr>"
  using assms unfolding ai_runtime_import_model_package_def
  by (auto simp: Let_def split: option.splits if_splits prod.splits) blast

section \<open>An empty registry and a package\<close>

definition model_none :: model_info where
  "model_none = \<lparr>mi_id = 0, mi_active = False, mi_schema_version = 0, mi_kind = 0, mi_version = 0, mi_checksum = 0, mi_artifact_hash = 0,
     mi_package_bytes = 0, mi_provenance = 0, mi_preferred_backend = 0, mi_seed = 0, mi_bias = 0, mi_source_path = [], mi_name = []\<rparr>"

definition stats_none :: runtime_stats where
  "stats_none = \<lparr>rs_model_count = 0, rs_active_backend = 0, rs_load_ok = 0, rs_load_fail = 0, rs_verify_ok = 0, rs_verify_fail = 0,
     rs_infer_ok = 0, rs_infer_fail = 0, rs_last_hash = 0\<rparr>"

definition ai_blank :: ai where
  "ai_blank = ai_runtime_init \<lparr>g_models = replicate AI_MAX_MODELS model_none, g_stats = stats_none\<rparr>"

lemma ai_blank_facts: "\<exists>m \<in> set (g_models ai_blank). \<not> mi_active m" "valid_backend (rs_active_backend (g_stats ai_blank))"
  by (simp_all add: ai_blank_def ai_runtime_init_def valid_backend_def exI [of _ "0 :: nat"])

text \<open>A version-1 package of 100 bytes with the payload of 4 bytes and no checksum, in a file that is always at hand.\<close>

definition pkg_bytes :: "u8 list" where
  "pkg_bytes = le32 AI_MODEL_PACKAGE_MAGIC @ le32 1 @ le32 96 @ le32 100 @ le32 1 @ le32 0 @ le32 1 @ le32 7 @ le32 9 @ le32 0 @ le32 4 @
     le32 0 @ [0x6E, 0x65, 0x74] @ replicate 45 0"

definition pkg_ops :: "unit vfs_ops" where
  "pkg_ops = \<lparr>vo_stat = \<lambda>_ _. Some 100, vo_open = \<lambda>_ v. (3, v), vo_read = \<lambda>_ n v. (int n, take n pkg_bytes, v),
     vo_lseek = \<lambda>_ _ v. (0, v), vo_close = \<lambda>_ v. v\<rparr>"

lemma pkg_header: "parse_header pkg_bytes = \<lparr>ph_magic = AI_MODEL_PACKAGE_MAGIC, ph_schema_version = 1, ph_header_size = 96, ph_package_size = 100,
   ph_model_kind = 1, ph_preferred_backend = 0, ph_model_version = 1, ph_seed = 7, ph_provenance = 9, ph_bias = 0, ph_payload_bytes = 4,
   ph_checksum = 0, ph_model_name = ''net''\<rparr>"
  by (simp add: parse_header_def pkg_bytes_def le32_def read_le32_def bytes_string_def char_of_def bit_0)

lemma pkg_import:
  "\<exists>h v2. import_body pkg_ops ''/m'' None 100 3 () = (Some ((info_v1 (parse_header pkg_bytes) 100)\<lparr>pi_artifact_hash := h, pi_name := ''net'',
     pi_checksum := info_hash ((info_v1 (parse_header pkg_bytes) 100)\<lparr>pi_artifact_hash := h, pi_name := ''net''\<rparr>)\<rparr>), v2)"
proof -
  have len: "take 96 pkg_bytes = pkg_bytes" by (simp add: pkg_bytes_def le32_def)
  obtain h where h: "hash_chunks pkg_ops 3 4 hash_init () = (Some h, ())"
    by (simp add: hash_chunks.simps pkg_ops_def)
  have nv: "name_valid (Some ''net'')" by (simp add: name_valid_def name_char_def)
  have ok: "header_ok (parse_header pkg_bytes) 100" by (simp add: pkg_header header_ok_def valid_kind_def valid_backend_def)
  show ?thesis using h nv ok
    by (simp add: import_body_def pkg_ops_def len Let_def hash_stream_range_def has_alias_def)
      (rule exI [of _ h], simp add: pkg_header Let_def)
qed

section \<open>Loading\<close>

lemma load_model_spec:
  assumes "name_valid (Some nm)" "length nm \<le> 15" "valid_kind kind" "valid_backend backend"
    and "find_model_index (Some nm) a \<noteq> None \<or> (\<exists>m \<in> set (g_models a). \<not> mi_active m)"
    and "valid_backend (rs_active_backend (g_stats a))"
  shows "\<exists>a1 i. ai_runtime_load_model (Some nm) kind version backend seed prov a = (True, a1) \<and>
    find_model_index (Some nm) a1 = Some i \<and> fst (ai_runtime_verify_model (Some nm) a1) = Some (mi_checksum (g_models a1 ! i)) \<and>
    ai_runtime_get_model_bias (Some nm) a1 = Some 0 \<and> (\<forall>x s. fst (ai_runtime_infer (Some nm) x s a1) \<noteq> None) \<and>
    (\<forall>j. j \<noteq> i \<longrightarrow> g_models a1 ! j = g_models a ! j)"
proof -
  define art where "art = mix_u32 (seed XOR prov XOR push_bit 1 version XOR kind XOR backend)"
  define d where "d = \<lparr>mi_id = 0, mi_active = True, mi_schema_version = 0, mi_kind = kind, mi_version = version,
     mi_checksum = model_package_hash nm kind version backend seed prov 0 0 art 0 0, mi_artifact_hash = art,
     mi_package_bytes = 0, mi_provenance = prov, mi_preferred_backend = backend, mi_seed = seed, mi_bias = 0,
     mi_source_path = ''<memory>'', mi_name = nm\<rparr>"
  have dn: "mi_name d = nm" "mi_kind d = kind" "mi_preferred_backend d = backend" "mi_bias d = 0" by (simp_all add: d_def)
  obtain a1 where a1: "store_model d a = (True, a1)" using store_model_ok [of d a] assms(1,3-5) dn by auto
  have load: "ai_runtime_load_model (Some nm) kind version backend seed prov a = (True, a1)"
    using assms(1,3,4) a1 [unfolded d_def art_def] by (simp add: ai_runtime_load_model_def Let_def)
  obtain i where i: "i < length (g_models a)" "find_model_index (Some nm) a1 = Some i"
    "g_models a1 = (g_models a)[i := fill_model d (g_models a ! i)]" using store_model_find [OF a1] assms(2) dn by auto
  have "model_hash d = mi_checksum d" by (simp add: model_hash_def d_def)
  then have v: "fst (ai_runtime_verify_model (Some nm) a1) = Some (mi_checksum (g_models a1 ! i))"
    using verify_stored [OF a1] assms(2) dn i(1,3) by (simp add: fill_model_def)
  have "rs_active_backend (g_stats a1) = rs_active_backend (g_stats a)"
    using a1 by (auto simp: store_model_def Let_def upd_rstats_def split: if_splits option.splits)
  then have "\<exists>f. resolve_backend (rs_active_backend (g_stats a1)) = Some f" using assms(6) by (auto simp: valid_backend_def resolve_backend_def)
  then have inf: "fst (ai_runtime_infer (Some nm) x s a1) \<noteq> None" for x s
    using i(2) by (auto simp: ai_runtime_infer_def Let_def split: prod.split)
  have "ai_runtime_get_model_bias (Some nm) a1 = Some 0" using i dn by (simp add: ai_runtime_get_model_bias_def fill_model_def)
  then show ?thesis using load i(2,3) v inf by (intro exI [of _ a1] exI [of _ i]) simp
qed

section \<open>Properties\<close>

text \<open>
  Loading a model by hand: with a valid name of at most 15 characters, a valid kind and backend, and room in the registry (or a model of that name already there), loading
  succeeds, the name then finds the model with bias 0, its checksum verifies, inference with it works on the active backend, and every
  other slot of the registry is untouched.
\<close>
theorem load_model_verifies:
  assumes "name_valid (Some nm)" "length nm \<le> 15" "valid_kind kind" "valid_backend backend"
    and "find_model_index (Some nm) a \<noteq> None \<or> (\<exists>m \<in> set (g_models a). \<not> mi_active m)"
    and "valid_backend (rs_active_backend (g_stats a))"
  shows "\<exists>a1 i. ai_runtime_load_model (Some nm) kind version backend seed prov a = (True, a1) \<and>
    find_model_index (Some nm) a1 = Some i \<and> fst (ai_runtime_verify_model (Some nm) a1) = Some (mi_checksum (g_models a1 ! i)) \<and>
    ai_runtime_get_model_bias (Some nm) a1 = Some 0 \<and> (\<forall>x s. fst (ai_runtime_infer (Some nm) x s a1) \<noteq> None) \<and>
    (\<forall>j. j \<noteq> i \<longrightarrow> g_models a1 ! j = g_models a ! j)"
  by (rule load_model_spec [OF assms])

theorem load_model_verifies_witness: "fst (ai_runtime_load_model (Some ''net'') 1 1 0 7 9 ai_blank)"
proof -
  have "name_valid (Some ''net'')" "valid_kind 1" "valid_backend 0"
    by (simp_all add: name_valid_def name_char_def valid_kind_def valid_backend_def)
  with load_model_verifies [of "''net''" 1 0 ai_blank 1 7 9] ai_blank_facts show ?thesis by auto
qed

text \<open>
  Which imported models verify. An import that succeeds (with a bias in the permitted range) leaves a model that verifies if and only if the file had no valid version-1 header: for a version-1 package
  the checksum covers the size of the payload, verification recomputes it with the size of the whole package in its place, and since the mixing function is a bijection the two never agree.
\<close>
theorem imported_verifies_iff_raw:
  assumes "ai_runtime_import_model_package vo path alias v a = ((True, info), v', a1)" "\<bar>pi_bias info\<bar> \<le> 100000"
  shows "fst (ai_runtime_verify_model (Some (pi_name info)) a1) = (if pi_schema_version info = 0 then Some (pi_checksum info) else None)"
proof -
  obtain p pkg fd v1 i v2 where I: "\<not> pkg < of_nat HEADER_BYTES" "import_body vo p alias pkg fd v1 = (Some i, v2)"
    "store_model (info_model i p) a = (True, a1)" "info = i\<lparr>pi_source_path := copy_name 48 (Some p)\<rparr>"
    using import_cases [OF assms(1)] by blast
  note B = import_body_info [OF I(2)]
  have f: "pi_name info = pi_name i" "pi_bias info = pi_bias i" "pi_schema_version info = pi_schema_version i" "pi_checksum info = pi_checksum i"
    by (simp_all add: I(4))
  have V: "fst (ai_runtime_verify_model (Some (pi_name i)) a1) =
    (if model_hash (info_model i p) = pi_checksum i then Some (pi_checksum i) else None)"
    using verify_stored [OF I(3)] B assms(2) f(2) by (simp add: info_model_def)
  have h: "model_hash (info_model i p) = info_hash (i\<lparr>pi_payload_bytes := pi_package_bytes i\<rparr>)"
    by (simp add: model_hash_def info_model_def info_hash_def)
  have "model_hash (info_model i p) = pi_checksum i \<longleftrightarrow> pi_payload_bytes i = pi_package_bytes i"
    using B unfolding h by (auto simp: info_hash_def dest: hash_payload_inj)
  moreover have "pi_payload_bytes i = pi_package_bytes i \<longleftrightarrow> pi_schema_version i = 0"
    using B payload_ne_package [of "pi_payload_bytes i" pkg] I(1) by auto
  ultimately show ?thesis using V f by simp
qed

theorem imported_verifies_iff_raw_witness:
  "\<exists>info v' a1. ai_runtime_import_model_package pkg_ops (Some ''/m'') None () ai_blank = ((True, info), v', a1) \<and>
     fst (ai_runtime_verify_model (Some (pi_name info)) a1) = None"
proof -
  obtain h v2 where b: "import_body pkg_ops ''/m'' None 100 3 () = (Some ((info_v1 (parse_header pkg_bytes) 100)\<lparr>pi_artifact_hash := h,
     pi_name := ''net'', pi_checksum := info_hash ((info_v1 (parse_header pkg_bytes) 100)\<lparr>pi_artifact_hash := h, pi_name := ''net''\<rparr>)\<rparr>), v2)"
    using pkg_import by blast
  define i where "i = (info_v1 (parse_header pkg_bytes) 100)\<lparr>pi_artifact_hash := h,
     pi_name := ''net'', pi_checksum := info_hash ((info_v1 (parse_header pkg_bytes) 100)\<lparr>pi_artifact_hash := h, pi_name := ''net''\<rparr>)\<rparr>"
  have m: "mi_name (info_model i ''/m'') = ''net''" "mi_kind (info_model i ''/m'') = 1" "mi_preferred_backend (info_model i ''/m'') = 0"
    by (simp_all add: i_def info_model_def info_v1_def info_zero_def pkg_header)
  obtain a1 where st: "store_model (info_model i ''/m'') ai_blank = (True, a1)"
    using store_model_ok [of "info_model i ''/m''" ai_blank] ai_blank_facts(1) m
    by (auto simp: name_valid_def name_char_def valid_kind_def valid_backend_def)
  have imp: "ai_runtime_import_model_package pkg_ops (Some ''/m'') None () ai_blank =
      ((True, i\<lparr>pi_source_path := ''/m''\<rparr>), vo_close pkg_ops 3 v2, a1)"
    using b [folded i_def] st by (simp add: ai_runtime_import_model_package_def Let_def pkg_ops_def)
  have "pi_bias (i\<lparr>pi_source_path := ''/m''\<rparr>) = 0" "pi_schema_version (i\<lparr>pi_source_path := ''/m''\<rparr>) = 1"
    by (simp_all add: i_def info_v1_def pkg_header)
  with imported_verifies_iff_raw [OF imp] imp show ?thesis by auto
qed

text \<open>
  Changing the bias of a model invalidates it: the checksum covers the bias and is not recomputed, so a model that verified does not verify
  any more after its bias was set to a different value in the permitted range.
\<close>
theorem bias_change_breaks_verify:
  assumes "fst (ai_runtime_verify_model n a) = Some c" "ai_runtime_get_model_bias n a = Some b0"
    and "\<bar>b0\<bar> \<le> 100000" "\<bar>b\<bar> \<le> 100000" "b \<noteq> b0"
  shows "\<exists>a1. ai_runtime_set_model_bias n b a = (True, a1) \<and> fst (ai_runtime_verify_model n a1) = None"
proof -
  obtain i where i: "find_model_index n a = Some i" and b0: "mi_bias (g_models a ! i) = b0"
    using assms(2) by (auto simp: ai_runtime_get_model_bias_def)
  let ?m = "(g_models a ! i)\<lparr>mi_bias := b\<rparr>" and ?P = "\<lambda>m. mi_active m \<and> str_eq_local (Some (mi_name m)) n"
  let ?a = "a\<lparr>g_models := (g_models a)[i := ?m]\<rparr>"
  have s: "ai_runtime_set_model_bias n b a = (True, ?a)" using i assms(4) by (simp add: ai_runtime_set_model_bias_def Let_def)
  note F = find_slot_SomeD [OF i [unfolded find_model_index_def]]
  have fi: "find_model_index n ?a = Some i" unfolding find_model_index_def
    by (rule find_slot_SomeI) (use F in auto)
  have "model_hash (g_models a ! i) = mi_checksum (g_models a ! i)" using assms(1) unfolding verify_iff [OF i] by (simp split: if_splits)
  moreover have "model_hash ?m \<noteq> model_hash (g_models a ! i)"
  proof
    assume "model_hash ?m = model_hash (g_models a ! i)"
    then have "(word_of_int b :: u32) = word_of_int b0" by (auto simp: model_hash_def b0 dest: hash_bias_inj)
    then show False using small_bias_inj assms(3-5) by blast
  qed
  ultimately have "fst (ai_runtime_verify_model n ?a) = None" unfolding verify_iff [OF fi] using F by simp
  with s show ?thesis by blast
qed

theorem bias_change_breaks_verify_witness:
  "\<exists>a. fst (ai_runtime_verify_model (Some ''net'') a) \<noteq> None \<and>
     fst (ai_runtime_verify_model (Some ''net'') (snd (ai_runtime_set_model_bias (Some ''net'') 5 a))) = None"
proof -
  have "name_valid (Some ''net'')" "valid_kind 1" "valid_backend 0"
    by (simp_all add: name_valid_def name_char_def valid_kind_def valid_backend_def)
  then obtain a i where a: "fst (ai_runtime_verify_model (Some ''net'') a) = Some (mi_checksum (g_models a ! i))"
    "ai_runtime_get_model_bias (Some ''net'') a = Some 0"
    using load_model_spec [of "''net''" 1 0 ai_blank 1 7 9] ai_blank_facts by auto
  from bias_change_breaks_verify [OF a, of 5] a(1) show ?thesis by (intro exI [of _ a]) auto
qed

end
