(* ===== verification/AiTrain.thy ===== *)
theory AiTrain
  imports AiRuntimeCorrect
begin

text \<open>
  On-line training of \<open>src/kernel/ai_train.c\<close> and \<open>ai_train.h\<close>: the bias of one model moved by steps, with a checkpoint in memory and in a
  file. The file is reached through two operations on its bytes (\<open>vfs_write_file\<close> and \<open>vfs_read_file\<close> on the fixed path), over a state \<open>'v\<close>; the checkpoint is
  written as the packed C structure of 44 bytes, whose name field keeps the bytes that were on the stack after the terminating zero.
\<close>

section \<open>State\<close>

record train =
  tn_active :: bool
  tn_paused :: bool
  tn_total_steps :: u32
  tn_checkpoints :: u32
  tn_rollbacks :: u32
  tn_divergence_events :: u32
  tn_drift_alarms :: u32
  tn_learning_rate_ppm :: u32
  tn_max_drift :: u32
  tn_current_bias :: int
  tn_checkpoint_bias :: int
  tn_model_name :: string

record ckpt =
  ck_magic :: u32
  ck_version :: u32
  ck_total_steps :: u32
  ck_learning_rate_ppm :: u32
  ck_max_drift :: u32
  ck_current_bias :: int
  ck_checkpoint_bias :: int
  ck_model_name :: string

abbreviation CKPT_MAGIC :: u32 where "CKPT_MAGIC \<equiv> 0x314B5043"
abbreviation CKPT_BYTES :: nat where "CKPT_BYTES \<equiv> 44"

record 'v ckpt_file =
  cf_write :: "u8 list \<Rightarrow> 'v \<Rightarrow> int \<times> 'v"
  cf_read :: "nat \<Rightarrow> 'v \<Rightarrow> int \<times> u8 list \<times> 'v"

record 'v trainer =
  t_train :: train
  t_ai :: ai
  t_file :: 'v

definition upd_train :: "(train \<Rightarrow> train) \<Rightarrow> 'v trainer \<Rightarrow> 'v trainer" where
  "upd_train f s = s\<lparr>t_train := f (t_train s)\<rparr>"

section \<open>Checkpoints\<close>

definition abs_i32 :: "int \<Rightarrow> int" where
  "abs_i32 v = (if v < 0 then -v else v)"

definition ckpt_encode :: "u8 list \<Rightarrow> ckpt \<Rightarrow> u8 list" where
  "ckpt_encode junk c = le32 (ck_magic c) @ le32 (ck_version c) @ le32 (ck_total_steps c) @ le32 (ck_learning_rate_ppm c) @
     le32 (ck_max_drift c) @ le32 (word_of_int (ck_current_bias c)) @ le32 (word_of_int (ck_checkpoint_bias c)) @
     take 16 (map of_char (ck_model_name c) @ [0] @ junk)"

definition ckpt_decode :: "u8 list \<Rightarrow> ckpt" where
  "ckpt_decode bs = \<lparr>ck_magic = read_le32 bs 0, ck_version = read_le32 bs 4, ck_total_steps = read_le32 bs 8,
     ck_learning_rate_ppm = read_le32 bs 12, ck_max_drift = read_le32 bs 16, ck_current_bias = sint (read_le32 bs 20),
     ck_checkpoint_bias = sint (read_le32 bs 24), ck_model_name = bytes_string (take 16 (drop 28 bs))\<rparr>"

definition ai_train_save_checkpoint :: "'v ckpt_file \<Rightarrow> u8 list \<Rightarrow> 'v trainer \<Rightarrow> bool \<times> 'v trainer" where
  "ai_train_save_checkpoint cf junk s =
     (let g = t_train s;
          c = \<lparr>ck_magic = CKPT_MAGIC, ck_version = 1, ck_total_steps = tn_total_steps g, ck_learning_rate_ppm = tn_learning_rate_ppm g,
               ck_max_drift = tn_max_drift g, ck_current_bias = tn_current_bias g, ck_checkpoint_bias = tn_checkpoint_bias g,
               ck_model_name = copy_name 16 (Some (tn_model_name g))\<rparr>;
          (n, v) = cf_write cf (ckpt_encode junk c) (t_file s)
      in (n = int CKPT_BYTES, s\<lparr>t_file := v\<rparr>))"

text \<open>Loading: the current bias is overwritten already when the name of the model turns out to be another one.\<close>

definition ai_train_load_checkpoint :: "'v ckpt_file \<Rightarrow> string option \<Rightarrow> 'v trainer \<Rightarrow> bool \<times> 'v trainer" where
  "ai_train_load_checkpoint cf expected s0 =
     (let (n, bs, v) = cf_read cf CKPT_BYTES (t_file s0); s = s0\<lparr>t_file := v\<rparr>; c = ckpt_decode bs; check = has_alias expected in
      if n \<noteq> int CKPT_BYTES then (False, s)
      else if ck_magic c \<noteq> CKPT_MAGIC \<or> ck_version c \<noteq> 1 then (False, s)
      else if check \<and> ai_runtime_get_model_bias expected (t_ai s) = None then (False, s)
      else let s1 = (if check then upd_train (\<lambda>g. g\<lparr>tn_current_bias := the (ai_runtime_get_model_bias expected (t_ai s))\<rparr>) s else s) in
        if check \<and> \<not> str_eq_local expected (Some (ck_model_name c)) then (False, s1)
        else let s2 = upd_train (\<lambda>g. g\<lparr>tn_total_steps := ck_total_steps c, tn_learning_rate_ppm := ck_learning_rate_ppm c,
                        tn_max_drift := ck_max_drift c, tn_current_bias := ck_current_bias c, tn_checkpoint_bias := ck_checkpoint_bias c,
                        tn_model_name := copy_name 16 (Some (ck_model_name c))\<rparr>) s1;
                 (ok, a) = ai_runtime_set_model_bias (Some (tn_model_name (t_train s2))) (tn_current_bias (t_train s2)) (t_ai s2)
             in (ok, s2\<lparr>t_ai := a\<rparr>))"

section \<open>Operations\<close>

definition train_reset :: train where
  "train_reset = \<lparr>tn_active = False, tn_paused = False, tn_total_steps = 0, tn_checkpoints = 0, tn_rollbacks = 0,
     tn_divergence_events = 0, tn_drift_alarms = 0, tn_learning_rate_ppm = 100, tn_max_drift = 5000, tn_current_bias = 0,
     tn_checkpoint_bias = 0, tn_model_name = []\<rparr>"

definition ai_train_init :: "'v trainer \<Rightarrow> 'v trainer" where
  "ai_train_init s = s\<lparr>t_train := train_reset\<rparr>"

definition ai_train_start :: "'v ckpt_file \<Rightarrow> string option \<Rightarrow> u32 \<Rightarrow> u32 \<Rightarrow> 'v trainer \<Rightarrow> bool \<times> 'v trainer" where
  "ai_train_start cf name ppm drift s =
     (if \<not> has_alias name then (False, s)
      else if ppm = 0 \<or> ppm > 10000 then (False, s)
      else if drift < 100 \<or> drift > 100000 then (False, s)
      else case ai_runtime_get_model_bias name (t_ai s) of None \<Rightarrow> (False, s)
        | Some bias \<Rightarrow>
            (True, snd (ai_train_load_checkpoint cf name (upd_train (\<lambda>g. g\<lparr>tn_active := True, tn_paused := False, tn_total_steps := 0,
               tn_learning_rate_ppm := ppm, tn_max_drift := drift, tn_current_bias := bias, tn_checkpoint_bias := bias,
               tn_model_name := copy_name 16 name\<rparr>) s))))"

definition publish_bias :: "'v trainer \<Rightarrow> 'v trainer" where
  "publish_bias s = s\<lparr>t_ai := snd (ai_runtime_set_model_bias (Some (tn_model_name (t_train s))) (tn_current_bias (t_train s)) (t_ai s))\<rparr>"

text \<open>The loop over the steps, from step \<open>i\<close> with \<open>n\<close> left: \<open>Inl\<close> after a divergence, \<open>Inr\<close> at the end.\<close>

primrec train_loop :: "u32 \<Rightarrow> nat \<Rightarrow> u32 \<Rightarrow> train \<Rightarrow> train + train" where
  "train_loop stride 0 i g = Inr g"
| "train_loop stride (Suc n) i g =
     (let dir = (if (tn_total_steps g + i) AND 1 \<noteq> 0 then 1 else -1);
          g1 = g\<lparr>tn_current_bias := to_i32 (tn_current_bias g + sint stride * dir)\<rparr> in
      if abs_i32 (to_i32 (tn_current_bias g1 - tn_checkpoint_bias g1)) > sint (tn_max_drift g1)
      then Inl (g1\<lparr>tn_drift_alarms := tn_drift_alarms g1 + 1, tn_divergence_events := tn_divergence_events g1 + 1,
                   tn_current_bias := tn_checkpoint_bias g1, tn_rollbacks := tn_rollbacks g1 + 1\<rparr>)
      else train_loop stride n (i + 1) g1)"

definition clip_steps :: "u32 \<Rightarrow> u32" where
  "clip_steps steps = (let s1 = (if steps = 0 then 1 else steps) in if s1 > 4096 then 4096 else s1)"

definition train_stride :: "train \<Rightarrow> u32" where
  "train_stride g = (let x = tn_learning_rate_ppm g div 100 in if x = 0 then 1 else x)"

definition ai_train_step :: "u32 \<Rightarrow> 'v trainer \<Rightarrow> bool \<times> 'v trainer" where
  "ai_train_step steps0 s =
     (let g = t_train s in
      if \<not> tn_active g \<or> tn_paused g \<or> tn_model_name g = [] then (False, s)
      else let steps = clip_steps steps0 in
        case train_loop (train_stride g) (unat steps) 0 g of
          Inl g1 \<Rightarrow> (False, publish_bias (s\<lparr>t_train := g1\<rparr>))
        | Inr g1 \<Rightarrow> (True, publish_bias (s\<lparr>t_train := g1\<lparr>tn_total_steps := tn_total_steps g1 + steps\<rparr>\<rparr>)))"

definition ai_train_pause :: "'v trainer \<Rightarrow> bool \<times> 'v trainer" where
  "ai_train_pause s = (if \<not> tn_active (t_train s) then (False, s) else (True, upd_train (\<lambda>g. g\<lparr>tn_paused := True\<rparr>) s))"

definition ai_train_resume :: "'v trainer \<Rightarrow> bool \<times> 'v trainer" where
  "ai_train_resume s = (if \<not> tn_active (t_train s) then (False, s) else (True, upd_train (\<lambda>g. g\<lparr>tn_paused := False\<rparr>) s))"

definition ai_train_checkpoint :: "'v ckpt_file \<Rightarrow> u8 list \<Rightarrow> 'v trainer \<Rightarrow> bool \<times> 'v trainer" where
  "ai_train_checkpoint cf junk s =
     (if \<not> tn_active (t_train s) then (False, s)
      else (True, snd (ai_train_save_checkpoint cf junk
         (upd_train (\<lambda>g. g\<lparr>tn_checkpoint_bias := tn_current_bias g, tn_checkpoints := tn_checkpoints g + 1\<rparr>) s))))"

definition ai_train_rollback :: "'v ckpt_file \<Rightarrow> 'v trainer \<Rightarrow> bool \<times> 'v trainer" where
  "ai_train_rollback cf s =
     (if \<not> tn_active (t_train s) then (False, s)
      else case ai_train_load_checkpoint cf (Some (tn_model_name (t_train s))) s of
        (True, s1) \<Rightarrow> (True, upd_train (\<lambda>g. g\<lparr>tn_rollbacks := tn_rollbacks g + 1\<rparr>) s1)
      | (False, s1) \<Rightarrow>
          let s2 = upd_train (\<lambda>g. g\<lparr>tn_current_bias := tn_checkpoint_bias g, tn_rollbacks := tn_rollbacks g + 1\<rparr>) s1;
              (ok, a) = ai_runtime_set_model_bias (Some (tn_model_name (t_train s2))) (tn_current_bias (t_train s2)) (t_ai s2)
          in (ok, s2\<lparr>t_ai := a\<rparr>))"

definition ai_train_get_stats :: "'v trainer \<Rightarrow> train" where
  "ai_train_get_stats s = t_train s"

section \<open>The checkpoint file\<close>

lemma read_le32_append: "i + 4 \<le> length p \<Longrightarrow> read_le32 (p @ q) i = read_le32 p i"
  by (simp add: read_le32_def nth_append)

lemma read_le32_skip: "length p \<le> i \<Longrightarrow> read_le32 (p @ q) i = read_le32 q (i - length p)"
  by (simp add: read_le32_def nth_append Suc_diff_le)

lemma read_le32_word: "read_le32 (le32 x @ q) 0 = x"
  using read_le32_le32 [of x] by (simp add: read_le32_def le32_def)

lemma length_le32 [simp]: "length (le32 x) = 4"
  by (simp add: le32_def)

lemma bytes_string_name:
  assumes "CHR 0x00 \<notin> set s"
  shows "bytes_string (map of_char s @ 0 # q) = s"
proof -
  have "takeWhile (\<lambda>b. b \<noteq> 0) (map of_char s @ 0 # q) = (map of_char s :: u8 list)"
    using assms by (induction s) (auto simp: char_byte_zero)
  then show ?thesis by (simp add: bytes_string_def o_def char_byte)
qed

lemma ckpt_decode_encode:
  assumes "length (ck_model_name c) \<le> 15" "CHR 0x00 \<notin> set (ck_model_name c)" "15 \<le> length junk"
    "to_i32 (ck_current_bias c) = ck_current_bias c" "to_i32 (ck_checkpoint_bias c) = ck_checkpoint_bias c"
  shows "ckpt_decode (ckpt_encode junk c) = c" "length (ckpt_encode junk c) = CKPT_BYTES"
proof -
  have t: "take 16 (map of_char (ck_model_name c) @ [0] @ junk) =
    map of_char (ck_model_name c) @ 0 # take (15 - length (ck_model_name c)) junk"
    using assms(1) by (simp add: take_Cons' Suc_diff_le)
  show "length (ckpt_encode junk c) = CKPT_BYTES" using assms(1,3) by (simp add: ckpt_encode_def)
  have "drop 28 (ckpt_encode junk c) = take 16 (map of_char (ck_model_name c) @ [0] @ junk)"
    by (simp add: ckpt_encode_def)
  then have d: "take 16 (drop 28 (ckpt_encode junk c)) = take 16 (map of_char (ck_model_name c) @ [0] @ junk)"
    by (simp only: take_take min.idem)
  have n: "bytes_string (take 16 (drop 28 (ckpt_encode junk c))) = ck_model_name c"
    unfolding d t using assms(2) by (rule bytes_string_name)
  show "ckpt_decode (ckpt_encode junk c) = c"
    unfolding ckpt_decode_def n unfolding ckpt_encode_def
    by (rule ckpt.equality) (use assms(4,5) in \<open>simp_all add: read_le32_skip read_le32_word to_i32_def\<close>)
qed

section \<open>Checkpoint and rollback\<close>

definition clamp_bias :: "int \<Rightarrow> int" where
  "clamp_bias b = min 100000 (max (-100000) b)"

lemma set_bias_find:
  assumes "find_model_index n a = Some i"
  shows "ai_runtime_set_model_bias n b a = (True, a\<lparr>g_models := (g_models a)[i := (g_models a ! i)\<lparr>mi_bias := clamp_bias b\<rparr>]\<rparr>)"
    "find_model_index n (snd (ai_runtime_set_model_bias n b a)) = Some i"
    "ai_runtime_get_model_bias n (snd (ai_runtime_set_model_bias n b a)) = Some (clamp_bias b)"
proof -
  let ?m = "(g_models a ! i)\<lparr>mi_bias := clamp_bias b\<rparr>"
  show s: "ai_runtime_set_model_bias n b a = (True, a\<lparr>g_models := (g_models a)[i := ?m]\<rparr>)"
    using assms by (simp add: ai_runtime_set_model_bias_def clamp_bias_def Let_def min_def max_def)
  note F = find_slot_SomeD [OF assms [unfolded find_model_index_def]]
  show fi: "find_model_index n (snd (ai_runtime_set_model_bias n b a)) = Some i" unfolding s find_model_index_def
    by (rule find_slot_SomeI) (use F in auto)
  show "ai_runtime_get_model_bias n (snd (ai_runtime_set_model_bias n b a)) = Some (clamp_bias b)"
    unfolding ai_runtime_get_model_bias_def fi using F s by simp
qed

text \<open>What every step keeps: the file, the session and the presence of the model.\<close>

definition train_ready :: "string \<Rightarrow> 'v trainer \<Rightarrow> bool" where
  "train_ready n s \<longleftrightarrow> tn_active (t_train s) \<and> tn_model_name (t_train s) = n \<and> find_model_index (Some n) (t_ai s) \<noteq> None"

abbreviation either :: "'a + 'a \<Rightarrow> 'a" where
  "either \<equiv> case_sum (\<lambda>x. x) (\<lambda>x. x)"

lemma train_loop_keeps:
  "tn_active (either (train_loop st k i g)) = tn_active g" "tn_model_name (either (train_loop st k i g)) = tn_model_name g"
  "tn_checkpoint_bias (either (train_loop st k i g)) = tn_checkpoint_bias g"
  "tn_max_drift (either (train_loop st k i g)) = tn_max_drift g"
  by (induction k arbitrary: i g) (simp_all add: Let_def)

lemma publish_bias_simps [simp]: "t_train (publish_bias s) = t_train s" "t_file (publish_bias s) = t_file s"
  by (simp_all add: publish_bias_def)

lemma publish_ready: "train_ready n s \<Longrightarrow> train_ready n (publish_bias s)"
  using set_bias_find(2) [of "Some n" "t_ai s"] by (auto simp: train_ready_def publish_bias_def)

lemma step_ready:
  assumes "train_ready n s"
  shows "train_ready n (snd (ai_train_step k s))" "t_file (snd (ai_train_step k s)) = t_file s"
proof -
  have r: "train_ready n (publish_bias (s\<lparr>t_train := h\<rparr>))" if "tn_active h" "tn_model_name h = n" for h
    by (rule publish_ready) (use assms that in \<open>simp add: train_ready_def\<close>)
  have "tn_active (t_train s)" "tn_model_name (t_train s) = n" using assms by (simp_all add: train_ready_def)
  then show "train_ready n (snd (ai_train_step k s))"
    using assms train_loop_keeps(1,2) [where st = "train_stride (t_train s)" and k = "unat (clip_steps k)" and i = 0 and g = "t_train s"]
    by (simp add: ai_train_step_def Let_def r split: sum.splits)
  show "t_file (snd (ai_train_step k s)) = t_file s" by (simp add: ai_train_step_def Let_def split: sum.splits)
qed

lemma steps_ready:
  "train_ready n s \<Longrightarrow> train_ready n (fold (\<lambda>k. snd \<circ> ai_train_step k) ks s) \<and>
   t_file (fold (\<lambda>k. snd \<circ> ai_train_step k) ks s) = t_file s"
  by (induction ks arbitrary: s) (auto simp: step_ready)

text \<open>What a load of the file that a checkpoint of the same model left does.\<close>

lemma load_saved:
  assumes "cf_read cf CKPT_BYTES (t_file s) = (int CKPT_BYTES, ckpt_encode junk c, v)" "train_ready n s" "n \<noteq> []"
    "ck_magic c = CKPT_MAGIC" "ck_version c = 1" "ck_model_name c = n" "ckpt_decode (ckpt_encode junk c) = c" "length n \<le> 15"
  shows "\<exists>s1. ai_train_load_checkpoint cf (Some n) s = (True, s1) \<and> tn_current_bias (t_train s1) = ck_current_bias c \<and>
    tn_checkpoint_bias (t_train s1) = ck_checkpoint_bias c \<and> tn_total_steps (t_train s1) = ck_total_steps c \<and>
    tn_learning_rate_ppm (t_train s1) = ck_learning_rate_ppm c \<and> tn_max_drift (t_train s1) = ck_max_drift c \<and>
    tn_rollbacks (t_train s1) = tn_rollbacks (t_train s) \<and>
    ai_runtime_get_model_bias (Some n) (t_ai s1) = Some (clamp_bias (ck_current_bias c))"
proof -
  obtain i where i: "find_model_index (Some n) (t_ai s) = Some i" using assms(2) by (auto simp: train_ready_def)
  then have g: "ai_runtime_get_model_bias (Some n) (t_ai s) \<noteq> None" by (simp add: ai_runtime_get_model_bias_def)
  have b: "ai_runtime_get_model_bias (Some n) (snd (ai_runtime_set_model_bias (Some n) b (t_ai s))) = Some (clamp_bias b)" for b
    by (rule set_bias_find(3) [OF i])
  have o: "fst (ai_runtime_set_model_bias (Some n) b (t_ai s))" for b using set_bias_find(1) [OF i] by simp
  show ?thesis using assms g b [of "ck_current_bias c"] o [of "ck_current_bias c"]
    by (auto simp: ai_train_load_checkpoint_def has_alias_def upd_train_def split: prod.split)
qed

text \<open>
  A checkpoint, training, and a rollback, when the file operations write the 44 bytes of the checkpoint and read them back: the session of the checkpointed moment is
  back and its bias published.
\<close>

definition ckpt_of :: "train \<Rightarrow> ckpt" where
  "ckpt_of g = \<lparr>ck_magic = CKPT_MAGIC, ck_version = 1, ck_total_steps = tn_total_steps g, ck_learning_rate_ppm = tn_learning_rate_ppm g,
     ck_max_drift = tn_max_drift g, ck_current_bias = tn_current_bias g, ck_checkpoint_bias = tn_current_bias g, ck_model_name = tn_model_name g\<rparr>"

lemma rollback_restores:
  assumes "train_ready n s" "n \<noteq> []" "length n \<le> 15" "CHR 0x00 \<notin> set n" "15 \<le> length junk"
    and "to_i32 (tn_current_bias (t_train s)) = tn_current_bias (t_train s)"
    and "cf_write cf (ckpt_encode junk (ckpt_of (t_train s))) (t_file s) = (int CKPT_BYTES, v)"
    and "cf_read cf CKPT_BYTES v = (int CKPT_BYTES, ckpt_encode junk (ckpt_of (t_train s)), v')"
    and "s1 = fold (\<lambda>k. snd \<circ> ai_train_step k) ks (snd (ai_train_checkpoint cf junk s))"
  shows "fst (ai_train_checkpoint cf junk s) \<and> (\<exists>s2. ai_train_rollback cf s1 = (True, s2) \<and>
    tn_current_bias (t_train s2) = tn_current_bias (t_train s) \<and> tn_total_steps (t_train s2) = tn_total_steps (t_train s) \<and>
    tn_learning_rate_ppm (t_train s2) = tn_learning_rate_ppm (t_train s) \<and> tn_max_drift (t_train s2) = tn_max_drift (t_train s) \<and>
    tn_rollbacks (t_train s2) = tn_rollbacks (t_train s1) + 1 \<and>
    ai_runtime_get_model_bias (Some n) (t_ai s2) = Some (clamp_bias (tn_current_bias (t_train s))))"
proof -
  let ?g = "t_train s" and ?c = "ckpt_of (t_train s)"
  define s0 where "s0 = snd (ai_train_checkpoint cf junk s)"
  have act: "tn_active ?g" "tn_model_name ?g = n" using assms(1) by (simp_all add: train_ready_def)
  have d: "ckpt_decode (ckpt_encode junk ?c) = ?c" using assms(3-6) act by (simp_all add: ckpt_decode_encode ckpt_of_def)
  have s0: "t_file s0 = v" "train_ready n s0"
    using assms(1,3,7) act by (simp_all add: s0_def ai_train_checkpoint_def ai_train_save_checkpoint_def upd_train_def ckpt_of_def train_ready_def split: prod.split)
  have r: "train_ready n s1" "t_file s1 = v" using steps_ready [OF s0(2)] assms(9) s0(1) by (simp_all add: s0_def)
  have f: "cf_read cf CKPT_BYTES (t_file s1) = (int CKPT_BYTES, ckpt_encode junk ?c, v')" using assms(8) r(2) by simp
  obtain s2 where s2: "ai_train_load_checkpoint cf (Some n) s1 = (True, s2)" and v: "tn_current_bias (t_train s2) = ck_current_bias ?c"
    "tn_total_steps (t_train s2) = ck_total_steps ?c" "tn_learning_rate_ppm (t_train s2) = ck_learning_rate_ppm ?c"
    "tn_max_drift (t_train s2) = ck_max_drift ?c" "tn_rollbacks (t_train s2) = tn_rollbacks (t_train s1)"
    "ai_runtime_get_model_bias (Some n) (t_ai s2) = Some (clamp_bias (ck_current_bias ?c))"
    using load_saved [OF f r(1) assms(2) _ _ _ d assms(3)] act by (auto simp: ckpt_of_def)
  have "fst (ai_train_checkpoint cf junk s)" using act by (simp add: ai_train_checkpoint_def)
  moreover have "ai_train_rollback cf s1 = (True, upd_train (\<lambda>g. g\<lparr>tn_rollbacks := tn_rollbacks g + 1\<rparr>) s2)"
    using r(1) s2 by (simp add: ai_train_rollback_def train_ready_def)
  ultimately show ?thesis using v by (simp add: upd_train_def ckpt_of_def)
qed

section \<open>What a training step does to the bias\<close>

lemma and_1_odd: "x AND 1 \<noteq> 0 \<longleftrightarrow> odd x" for x :: u32
  by (simp add: and_one_eq odd_iff_mod_2_eq_one)

lemma abs_i32_abs: "abs_i32 x = \<bar>x\<bar>"
  by (simp add: abs_i32_def)

abbreviation bias_fits :: "train \<Rightarrow> int \<Rightarrow> bool" where
  "bias_fits g b \<equiv> - (2 ^ 31) \<le> b \<and> b < 2 ^ 31 \<and> - (2 ^ 31) \<le> b - tn_checkpoint_bias g \<and> b - tn_checkpoint_bias g < 2 ^ 31 \<and>
     \<bar>b - tn_checkpoint_bias g\<bar> \<le> sint (tn_max_drift g)"

lemma train_loop_closed:
  assumes "d = (if odd (tn_total_steps g + i) then 1 else - 1) * sint st"
    and "bias_fits g (tn_current_bias g)" "bias_fits g (tn_current_bias g + d)"
  shows "train_loop st n i g = Inr (g\<lparr>tn_current_bias := tn_current_bias g + (if odd n then d else 0)\<rparr>)"
  using assms
proof (induction n arbitrary: i g d)
  case 0
  then show ?case by simp
next
  case (Suc n)
  let ?g = "g\<lparr>tn_current_bias := tn_current_bias g + d\<rparr>"
  have t: "to_i32 (tn_current_bias g + d) = tn_current_bias g + d"
    "to_i32 (tn_current_bias g + d - tn_checkpoint_bias g) = tn_current_bias g + d - tn_checkpoint_bias g"
    using Suc.prems(3) by (simp_all add: to_i32_id)
  have "train_loop st n (i + 1) ?g = Inr (?g\<lparr>tn_current_bias := tn_current_bias ?g + (if odd n then - d else 0)\<rparr>)"
    by (rule Suc.IH) (use Suc.prems in \<open>simp_all add: add.assoc [symmetric]\<close>)
  moreover have "sint st * (if odd (tn_total_steps g + i) then 1 else - 1) = d" using Suc.prems(1) by simp
  moreover have "abs_i32 (tn_current_bias g + d - tn_checkpoint_bias g) \<le> sint (tn_max_drift g)"
    using Suc.prems(3) unfolding abs_i32_abs by simp
  ultimately show ?case using t by (simp add: Let_def and_1_odd del: even_add)
qed

lemma stride_small:
  assumes "tn_learning_rate_ppm g \<le> 10000"
  shows "1 \<le> sint (train_stride g) \<and> sint (train_stride g) \<le> 100"
proof -
  let ?x = "tn_learning_rate_ppm g div 100"
  have le: "unat ?x \<le> 100" using assms by (simp add: word_le_nat_alt unat_div)
  have "train_stride g = (if ?x = 0 then 1 else ?x)" by (simp add: train_stride_def Let_def)
  then have u: "1 \<le> unat (train_stride g)" "unat (train_stride g) \<le> 100"
    using le by (auto simp: unat_eq_zero Suc_le_eq unat_gt_0)
  moreover have "uint (train_stride g) = int (unat (train_stride g))" by simp
  ultimately have n: "1 \<le> uint (train_stride g)" "uint (train_stride g) \<le> 100" by linarith+
  then have "sint (train_stride g) = uint (train_stride g)"
    by (simp add: sint_uint signed_take_bit_int_eq_self)
  then show ?thesis using n by simp
qed

text \<open>
  Training does not accumulate: for every learning rate that \<open>ai_train_start\<close> accepts (at most 10000), and as long as the bias
  is at least 100 away from the drift limit, a call of \<open>ai_train_step\<close> with any number of steps raises no
  drift alarm, succeeds, and leaves the bias where it was when the (clipped) number of steps is even, and one stride below or above it, by the parity of
  the step counter, when it is odd.
\<close>

theorem train_step_oscillates:
  assumes "tn_active (t_train s)" "\<not> tn_paused (t_train s)" "tn_model_name (t_train s) \<noteq> []" "tn_learning_rate_ppm (t_train s) \<le> 10000"
    and "\<bar>tn_current_bias (t_train s)\<bar> \<le> 200000" "\<bar>tn_checkpoint_bias (t_train s)\<bar> \<le> 200000"
    and "\<bar>tn_current_bias (t_train s) - tn_checkpoint_bias (t_train s)\<bar> + 100 \<le> sint (tn_max_drift (t_train s))"
  shows "\<exists>s1. ai_train_step k s = (True, s1) \<and> tn_drift_alarms (t_train s1) = tn_drift_alarms (t_train s) \<and>
    tn_total_steps (t_train s1) = tn_total_steps (t_train s) + clip_steps k \<and>
    tn_current_bias (t_train s1) = tn_current_bias (t_train s) +
      (if even (unat (clip_steps k)) then 0
       else (if odd (tn_total_steps (t_train s)) then 1 else - 1) * sint (train_stride (t_train s)))"
proof -
  let ?g = "t_train s" and ?st = "train_stride (t_train s)"
  define d where "d = (if odd (tn_total_steps ?g) then 1 else - 1) * sint ?st"
  have "\<bar>d\<bar> \<le> 100" using stride_small [OF assms(4)] by (simp add: d_def)
  then have "bias_fits ?g (tn_current_bias ?g)" "bias_fits ?g (tn_current_bias ?g + d)" using assms(5-7) by auto
  then have "train_loop ?st (unat (clip_steps k)) 0 ?g =
      Inr (?g\<lparr>tn_current_bias := tn_current_bias ?g + (if odd (unat (clip_steps k)) then d else 0)\<rparr>)"
    by (intro train_loop_closed) (simp_all add: d_def)
  then show ?thesis using assms(1-3) by (simp add: ai_train_step_def Let_def d_def)
qed

theorem train_step_oscillates_witness:
  "\<exists>s1. ai_train_step 4095 \<lparr>t_train = train_reset\<lparr>tn_active := True, tn_model_name := ''net'', tn_current_bias := 7, tn_checkpoint_bias := 7\<rparr>,
      t_ai = ai_blank, t_file = ()\<rparr> = (True, s1) \<and> tn_current_bias (t_train s1) = 6"
proof -
  let ?s = "\<lparr>t_train = train_reset\<lparr>tn_active := True, tn_model_name := ''net'', tn_current_bias := 7, tn_checkpoint_bias := 7\<rparr>,
      t_ai = ai_blank, t_file = ()\<rparr>"
  have c: "clip_steps 4095 = 4095" by (simp add: clip_steps_def)
  have st: "train_stride (t_train ?s) = 1" by (simp add: train_stride_def train_reset_def)
  show ?thesis using train_step_oscillates [of ?s 4095] by (auto simp: c train_reset_def train_stride_def)
qed

end
