(* ===== verification/VfsCorrect.thy ===== *)
theory VfsCorrect
  imports Vfs
begin

text \<open>
  The descriptor tables: the reference count of an open file is the number of descriptors that refer to it, whatever the tasks do and whatever the
  backends answer; and the mount that a path resolves to.
\<close>

section \<open>Counting references\<close>

lemma count_list_update:
  "i < length xs \<Longrightarrow> int (count_list (xs[i := v]) x) = int (count_list xs x) - of_bool (xs ! i = x) + of_bool (v = x)"
proof (induction xs arbitrary: i)
  case (Cons a xs)
  then show ?case by (cases i) (auto simp: Cons.IH)
qed simp

definition fd_refs :: "int list list \<Rightarrow> int \<Rightarrow> int" where
  "fd_refs m g = (\<Sum>row\<leftarrow>m. int (count_list row g))"

lemma sum_list_update_int:
  fixes f :: "'a \<Rightarrow> int"
  shows "k < length xs \<Longrightarrow> sum_list (map f (xs[k := x])) = sum_list (map f xs) - f (xs ! k) + f x"
  by (induction xs arbitrary: k) (auto split: nat.split simp: nth_Cons')

lemma fd_refs_update:
  assumes "t < length m" "i < length (m ! t)"
  shows "fd_refs (m[t := (m ! t)[i := v]]) g = fd_refs m g - of_bool (m ! t ! i = g) + of_bool (v = g)"
  using assms by (simp add: fd_refs_def sum_list_update_int count_list_update)

lemma fd_refs_nonneg: "0 \<le> fd_refs m g"
  by (auto simp: fd_refs_def intro!: sum_list_nonneg)

lemma fd_refs_pos:
  assumes "t < length m" "i < length (m ! t)" "m ! t ! i = g"
  shows "0 < fd_refs m g"
proof -
  have "fd_refs (m[t := (m ! t)[i := g - 1]]) g = fd_refs m g - 1" using fd_refs_update [OF assms(1,2), of "g - 1" g] assms(3) by simp
  then show ?thesis using fd_refs_nonneg [of "m[t := (m ! t)[i := g - 1]]" g] by linarith
qed

section \<open>The invariant\<close>

definition gfd_wf :: "vfs_fd \<Rightarrow> int \<Rightarrow> bool" where
  "gfd_wf f n \<longleftrightarrow> fd_ref_count f = n \<and> (fd_used f \<longleftrightarrow> 0 < n) \<and> (fd_used f \<longrightarrow> fd_ops f \<noteq> None)"

definition fd_rows_ok :: "int list list \<Rightarrow> bool" where
  "fd_rows_ok m \<longleftrightarrow> length m = VFS_MAX_TASKS \<and>
     list_all (\<lambda>row. length row = TASK_MAX_FDS \<and> list_all (\<lambda>g. -1 \<le> g \<and> g < int VFS_MAX_GLOBAL_FDS) row) m"

definition fd_inv :: "'w vfs \<Rightarrow> bool" where
  "fd_inv s \<longleftrightarrow> length (fd_table s) = VFS_MAX_GLOBAL_FDS \<and> fd_rows_ok (task_fd_map s) \<and>
     (\<forall>g < VFS_MAX_GLOBAL_FDS. gfd_wf (fd_table s ! g) (fd_refs (task_fd_map s) (int g)))"

lemma fd_inv_rest [simp]:
  "fd_inv (s\<lparr>world := w\<rparr>) = fd_inv s" "fd_inv (s\<lparr>mounts := ms\<rparr>) = fd_inv s" "fd_inv (s\<lparr>vfs_task := t\<rparr>) = fd_inv s"
  by (simp_all add: fd_inv_def)

lemma fd_row:
  assumes "fd_inv s" "t < VFS_MAX_TASKS"
  shows "t < length (task_fd_map s)" "length (task_fd_map s ! t) = TASK_MAX_FDS"
    and "i < TASK_MAX_FDS \<Longrightarrow> -1 \<le> task_fd_map s ! t ! i \<and> task_fd_map s ! t ! i < int VFS_MAX_GLOBAL_FDS"
proof -
  have m: "fd_rows_ok (task_fd_map s)" using assms(1) by (simp add: fd_inv_def)
  then show t: "t < length (task_fd_map s)" using assms(2) by (simp add: fd_rows_ok_def)
  have r: "length (task_fd_map s ! t) = TASK_MAX_FDS \<and> list_all (\<lambda>g. -1 \<le> g \<and> g < int VFS_MAX_GLOBAL_FDS) (task_fd_map s ! t)"
    by (rule list_all_nth [OF _ t]) (use m in \<open>simp add: fd_rows_ok_def\<close>)
  then show "length (task_fd_map s ! t) = TASK_MAX_FDS" by blast
  show "-1 \<le> task_fd_map s ! t ! i \<and> task_fd_map s ! t ! i < int VFS_MAX_GLOBAL_FDS" if "i < TASK_MAX_FDS"
    using r that by (simp only: list_all_length)
qed

lemma current_task_less [simp]: "current_task_id s < VFS_MAX_TASKS"
  by (auto simp: current_task_id_def)

lemma open_slot:
  assumes "fd_inv s" "t < VFS_MAX_TASKS" "i < TASK_MAX_FDS" "0 \<le> task_fd_map s ! t ! i"
  shows "gfd_ok (task_fd_map s ! t ! i) s" "fd_ref_count (gfd_of s (task_fd_map s ! t ! i)) = fd_refs (task_fd_map s) (task_fd_map s ! t ! i)"
proof -
  note R = fd_row [OF assms(1,2)]
  let ?g = "task_fd_map s ! t ! i"
  have g: "nat ?g < VFS_MAX_GLOBAL_FDS" "int (nat ?g) = ?g" using R(3) [OF assms(3)] assms(4) by auto
  then have w: "gfd_wf (gfd_of s ?g) (fd_refs (task_fd_map s) ?g)" using assms(1) unfolding fd_inv_def by metis
  have "0 < fd_refs (task_fd_map s) ?g" by (rule fd_refs_pos [OF R(1)]) (use R(2) assms(3) in simp_all)
  then show "gfd_ok ?g s" using w g R(3) [OF assms(3)] assms(4) by (simp add: gfd_wf_def gfd_ok_def)
  show "fd_ref_count (gfd_of s ?g) = fd_refs (task_fd_map s) ?g" using w by (simp add: gfd_wf_def)
qed

text \<open>Replacing one slot and one file, so that the counts stay right, keeps the invariant.\<close>

lemma fd_inv_change:
  assumes "fd_inv s" "t < VFS_MAX_TASKS" "i < TASK_MAX_FDS" "-1 \<le> v" "v < int VFS_MAX_GLOBAL_FDS" "0 \<le> g" "g < int VFS_MAX_GLOBAL_FDS"
    and "m = (task_fd_map s)[t := (task_fd_map s ! t)[i := v]]" "gfd_wf f (fd_refs m g)"
    and "\<And>x. 0 \<le> x \<Longrightarrow> x \<noteq> g \<Longrightarrow> fd_refs m x = fd_refs (task_fd_map s) x"
    and "fd_table s' = (fd_table s)[nat g := f]" "task_fd_map s' = m"
  shows "fd_inv s'"
proof -
  note R = fd_row [OF assms(1,2)]
  have row: "list_all (\<lambda>g. -1 \<le> g \<and> g < int VFS_MAX_GLOBAL_FDS) (task_fd_map s ! t)"
    using R(2,3) by (simp only: list_all_length) blast
  have m: "fd_rows_ok m" using assms(1,4,5,8) R(2) row unfolding fd_inv_def fd_rows_ok_def by (simp add: list_all_update)
  have "gfd_wf (fd_table s' ! k) (fd_refs m (int k))" if k: "k < VFS_MAX_GLOBAL_FDS" for k
  proof (cases "int k = g")
    case True
    then have "nat g = k" "k < length (fd_table s)" using assms(1) k by (auto simp: fd_inv_def)
    then show ?thesis using assms(9,11) True by simp
  next
    case False
    then have "nat g \<noteq> k" using assms(6) by auto
    then show ?thesis using assms(1,11) assms(10) [of "int k"] False k unfolding fd_inv_def by simp
  qed
  then show ?thesis using m assms(1,11,12) by (simp add: fd_inv_def)
qed

lemma fd_inv_link:
  assumes "fd_inv s" "t < VFS_MAX_TASKS" "i < TASK_MAX_FDS" "task_fd_map s ! t ! i = -1" "0 \<le> g" "g < int VFS_MAX_GLOBAL_FDS"
    and "fd_used f" "fd_ops f \<noteq> None" "fd_ref_count f = fd_refs (task_fd_map s) g + 1"
    and "fd_table s' = (fd_table s)[nat g := f]" "task_fd_map s' = (task_fd_map s)[t := (task_fd_map s ! t)[i := g]]"
  shows "fd_inv s'"
proof -
  note R = fd_row [OF assms(1,2)]
  have rf: "fd_refs ((task_fd_map s)[t := (task_fd_map s ! t)[i := g]]) x = fd_refs (task_fd_map s) x + of_bool (g = x)" if "0 \<le> x" for x
    using fd_refs_update [OF R(1), of i g x] R(2) assms(3,4) that by simp
  have "gfd_wf f (fd_refs (task_fd_map s) g + 1)" using assms(7-9) fd_refs_nonneg [of "task_fd_map s" g] by (simp add: gfd_wf_def)
  then show ?thesis
    by (intro fd_inv_change [OF assms(1-3) _ assms(6,5,6) refl _ _ assms(10,11)]) (use assms(5) in \<open>simp_all add: rf\<close>)
qed

lemma fd_inv_unlink:
  assumes "fd_inv s" "t < VFS_MAX_TASKS" "i < TASK_MAX_FDS" "task_fd_map s ! t ! i = g" "0 \<le> g"
    and "gfd_wf f (fd_refs (task_fd_map s) g - 1)"
    and "fd_table s' = (fd_table s)[nat g := f]" "task_fd_map s' = (task_fd_map s)[t := (task_fd_map s ! t)[i := -1]]"
  shows "fd_inv s'"
proof -
  note R = fd_row [OF assms(1,2)]
  have rf: "fd_refs ((task_fd_map s)[t := (task_fd_map s ! t)[i := -1]]) x = fd_refs (task_fd_map s) x - of_bool (g = x)" if "0 \<le> x" for x
    using fd_refs_update [OF R(1), of i "-1" x] R(2) assms(3,4) that by simp
  have g: "g < int VFS_MAX_GLOBAL_FDS" using R(3) [OF assms(3)] assms(4) by simp
  show ?thesis
    by (rule fd_inv_change [OF assms(1-3) _ _ assms(5) g refl _ _ assms(7,8)]) (use assms(5,6) in \<open>simp_all add: rf\<close>)
qed

section \<open>Every operation keeps it\<close>

lemma on_world_simps [simp]:
  "fd_table (snd (on_world f s)) = fd_table s" "task_fd_map (snd (on_world f s)) = task_fd_map s"
  "mounts (snd (on_world f s)) = mounts s" "vfs_task (snd (on_world f s)) = vfs_task s" "fd_inv (snd (on_world f s)) = fd_inv s"
  by (simp_all add: on_world_def fd_inv_def split: prod.split)

lemma fd_upd_simps [simp]:
  "fd_table (set_fd_map t i g s) = fd_table s" "task_fd_map (upd_gfd k f s) = task_fd_map s"
  "vfs_task (set_fd_map t i g s) = vfs_task s" "vfs_task (upd_gfd k f s) = vfs_task s"
  "mounts (set_fd_map t i g s) = mounts s" "mounts (upd_gfd k f s) = mounts s"
  by (simp_all add: set_fd_map_def upd_gfd_def)

lemma close_global_result:
  assumes "gfd_ok g s"
  shows "task_fd_map (snd (close_global_fd ops g s)) = task_fd_map s" "vfs_task (snd (close_global_fd ops g s)) = vfs_task s"
    "mounts (snd (close_global_fd ops g s)) = mounts s"
    "fd_table (snd (close_global_fd ops g s)) = (fd_table s)[nat g := if fd_ref_count (gfd_of s g) > 1
       then (gfd_of s g)\<lparr>fd_ref_count := fd_ref_count (gfd_of s g) - 1\<rparr> else free_fd]"
  using assms by (auto simp: close_global_fd_def Let_def case_prod_beta upd_gfd_def split: option.split)

lemma unlink_inv:
  assumes "fd_inv s" "t < VFS_MAX_TASKS" "i < TASK_MAX_FDS" "task_fd_map s ! t ! i = g" "0 \<le> g"
  shows "fd_inv (snd (close_global_fd ops g (set_fd_map t i (-1) s)))"
proof -
  note O = open_slot [OF assms(1-3), unfolded assms(4), OF assms(5)]
  let ?s1 = "set_fd_map t i (-1) s"
  have ok: "gfd_ok g ?s1" using O(1) by (simp add: gfd_ok_def)
  have f: "fd_used (gfd_of s g)" "fd_ops (gfd_of s g) \<noteq> None" using O(1) by (simp_all add: gfd_ok_def)
  have pos: "0 < fd_refs (task_fd_map s) g"
    by (rule fd_refs_pos [OF fd_row(1) [OF assms(1,2)] _ assms(4)]) (use fd_row(2) [OF assms(1,2)] assms(3) in simp)
  have "gfd_wf (if fd_ref_count (gfd_of s g) > 1 then (gfd_of s g)\<lparr>fd_ref_count := fd_ref_count (gfd_of s g) - 1\<rparr> else free_fd)
      (fd_refs (task_fd_map s) g - 1)"
    using f pos O(2) by (simp add: gfd_wf_def)
  then show ?thesis
    by (rule fd_inv_unlink [OF assms]) (simp_all add: close_global_result [OF ok], simp_all add: set_fd_map_def)
qed

lemma vfs_close_inv: "fd_inv s \<Longrightarrow> fd_inv (snd (vfs_close ops fd s))"
  by (auto simp: vfs_close_def Let_def intro!: unlink_inv)

lemma alloc_task_fd_slot:
  assumes "fd_inv s" "t < VFS_MAX_TASKS" "0 \<le> alloc_task_fd t s"
  shows "nat (alloc_task_fd t s) < TASK_MAX_FDS" "task_fd_map s ! t ! nat (alloc_task_fd t s) = -1"
proof -
  have f: "find_slot (\<lambda>g. g < 0) (task_fd_map s ! t) = Some (nat (alloc_task_fd t s))"
    using assms(3) unfolding alloc_task_fd_def by (rule slot_index_Some)
  then show l: "nat (alloc_task_fd t s) < TASK_MAX_FDS" using find_slot_Some_less [OF f] fd_row(2) [OF assms(1,2)] by simp
  show "task_fd_map s ! t ! nat (alloc_task_fd t s) = -1" using find_slot_Some_sat [OF f] fd_row(3) [OF assms(1,2) l] by simp
qed

lemma alloc_global_fd_slot:
  assumes "fd_inv s" "0 \<le> alloc_global_fd s"
  shows "alloc_global_fd s < int VFS_MAX_GLOBAL_FDS" "fd_refs (task_fd_map s) (alloc_global_fd s) = 0"
proof -
  let ?g = "alloc_global_fd s"
  have f: "find_slot (\<lambda>f. \<not> fd_used f) (fd_table s) = Some (nat ?g)" using assms(2) unfolding alloc_global_fd_def by (rule slot_index_Some)
  have l: "nat ?g < VFS_MAX_GLOBAL_FDS" using find_slot_Some_less [OF f] assms(1) by (simp add: fd_inv_def)
  then show "?g < int VFS_MAX_GLOBAL_FDS" using assms(2) by linarith
  have "gfd_wf (fd_table s ! nat ?g) (fd_refs (task_fd_map s) (int (nat ?g)))" using assms(1) l unfolding fd_inv_def by blast
  then show "fd_refs (task_fd_map s) ?g = 0" using find_slot_Some_sat [OF f] assms(2) fd_refs_nonneg [of "task_fd_map s" ?g] by (simp add: gfd_wf_def)
qed

lemma with_backend_inv:
  assumes "fd_inv s" "\<And>b f rel. fd_inv (snd (k b f rel s))"
  shows "fd_inv (snd (with_backend ops op path r k s))"
  using assms by (auto simp: with_backend_def split: option.split)

lemma new_fd_inv:
  assumes "fd_inv s" "t < VFS_MAX_TASKS" "0 \<le> alloc_task_fd t s" "0 \<le> alloc_global_fd s"
  shows "fd_inv (set_fd_map t (nat (alloc_task_fd t s)) (alloc_global_fd s) (upd_gfd (alloc_global_fd s) (\<lambda>_. \<lparr>fd_used = True, fd_ops = Some b,
      fd_backend_handle = h, fd_flags = flags, fd_ref_count = 1\<rparr>) s))"
  using alloc_task_fd_slot [OF assms(1-3)] alloc_global_fd_slot [OF assms(1,4)]
  by (intro fd_inv_link [OF assms(1,2) _ _ assms(4)]) (simp_all add: set_fd_map_def upd_gfd_def)

lemma vfs_open_inv: "fd_inv s \<Longrightarrow> fd_inv (snd (vfs_open ops path flags s))"
  by (auto simp: vfs_open_def Let_def not_less case_prod_beta intro!: with_backend_inv new_fd_inv split: option.split)

lemma with_fd_inv: "fd_inv s \<Longrightarrow> fd_inv (snd (with_fd ops op fd r k s))"
  by (auto simp: with_fd_def Let_def split: option.split)

lemma fd_slot_of:
  assumes "gfd_ok (task_fd_to_global fd s) s"
  shows "0 \<le> fd" "nat fd < TASK_MAX_FDS" "task_fd_to_global fd s = task_fd_map s ! current_task_id s ! nat fd" "0 \<le> task_fd_to_global fd s"
  using assms by (auto simp: task_fd_to_global_def gfd_ok_def split: if_splits)

text \<open>One more descriptor for the file of an open descriptor.\<close>

lemma share_inv:
  assumes "fd_inv s" "t < VFS_MAX_TASKS" "i < TASK_MAX_FDS" "u < VFS_MAX_TASKS" "j < TASK_MAX_FDS" "task_fd_map s ! t ! i = g" "0 \<le> g"
    and "task_fd_map s ! u ! j = -1"
  shows "fd_inv (upd_gfd g (\<lambda>f. f\<lparr>fd_ref_count := fd_ref_count f + 1\<rparr>) (set_fd_map u j g s))"
proof -
  note O = open_slot [OF assms(1-3), unfolded assms(6), OF assms(7)]
  show ?thesis
    by (rule fd_inv_link [OF assms(1,4,5,8,7), of "(gfd_of s g)\<lparr>fd_ref_count := fd_ref_count (gfd_of s g) + 1\<rparr>"])
      (use O in \<open>simp_all add: gfd_ok_def upd_gfd_def set_fd_map_def\<close>)
qed

lemma vfs_dup_inv:
  assumes "fd_inv s"
  shows "fd_inv (snd (vfs_dup fd s))"
proof (cases "gfd_ok (task_fd_to_global fd s) s \<and> 0 \<le> alloc_task_fd (current_task_id s) s")
  case True
  note F = fd_slot_of [OF conjunct1 [OF True]] and A = alloc_task_fd_slot [OF assms current_task_less conjunct2 [OF True]]
  show ?thesis
    using True share_inv [OF assms current_task_less F(2) current_task_less A(1) F(3) [symmetric] F(4) A(2)] by (simp add: vfs_dup_def Let_def)
qed (use assms in \<open>auto simp: vfs_dup_def Let_def\<close>)

lemma vfs_close_slot:
  assumes "fd_inv s" "0 \<le> fd" "nat fd < TASK_MAX_FDS" "0 \<le> task_fd_map s ! current_task_id s ! nat fd"
  shows "task_fd_map (snd (vfs_close ops fd s)) = (task_fd_map s)[current_task_id s := (task_fd_map s ! current_task_id s)[nat fd := -1]]"
proof -
  let ?g = "task_fd_map s ! current_task_id s ! nat fd"
  have "gfd_ok ?g (set_fd_map (current_task_id s) (nat fd) (-1) s)"
    using open_slot(1) [OF assms(1) current_task_less assms(3,4)] by (simp add: gfd_ok_def)
  note R = close_global_result [OF this, of ops]
  have "fd < int TASK_MAX_FDS" using assms(2,3) by linarith
  have "vfs_close ops fd s = close_global_fd ops ?g (set_fd_map (current_task_id s) (nat fd) (-1) s)"
    using assms(2-4) \<open>fd < int TASK_MAX_FDS\<close> by (simp add: vfs_close_def Let_def)
  then show ?thesis using R(1) by (simp add: set_fd_map_def)
qed

lemma vfs_dup2_inv:
  assumes "fd_inv s"
  shows "fd_inv (snd (vfs_dup2 ops fd newfd s))"
proof (cases "gfd_ok (task_fd_to_global fd s) s \<and> 0 \<le> newfd \<and> newfd < int TASK_MAX_FDS \<and> fd \<noteq> newfd")
  case True
  let ?t = "current_task_id s" and ?g = "task_fd_to_global fd s"
  define s1 where "s1 = (if task_fd_map s ! ?t ! nat newfd \<ge> 0 then snd (vfs_close ops newfd s) else s)"
  note F = fd_slot_of [OF conjunct1 [OF True]] and R = fd_row [OF assms current_task_less [of s]]
  have new: "nat newfd < TASK_MAX_FDS" "nat fd \<noteq> nat newfd" using True F(1) by auto
  have inv: "fd_inv s1" using vfs_close_inv [OF assms] assms by (simp add: s1_def)
  have m: "task_fd_map s1 ! ?t ! nat newfd = -1 \<and> task_fd_map s1 ! ?t ! nat fd = ?g"
  proof (cases "0 \<le> task_fd_map s ! ?t ! nat newfd")
    case open_new: True
    then show ?thesis using vfs_close_slot [OF assms _ new(1) open_new] True new F(3) R(1,2) by (simp add: s1_def)
  next
    case False
    then show ?thesis using R(3) [OF new(1)] F(3) by (simp add: s1_def)
  qed
  have "snd (vfs_dup2 ops fd newfd s) = upd_gfd ?g (\<lambda>f. f\<lparr>fd_ref_count := fd_ref_count f + 1\<rparr>) (set_fd_map ?t (nat newfd) ?g s1)"
    using True by (simp add: vfs_dup2_def Let_def s1_def)
  then show ?thesis using share_inv [OF inv current_task_less [of s] F(2) current_task_less [of s] new(1)] m F(4) by simp
qed (use assms in \<open>auto simp: vfs_dup2_def Let_def not_less not_le\<close>)

lemma vfs_fcntl_inv:
  assumes "fd_inv s"
  shows "fd_inv (snd (vfs_fcntl fd cmd arg s))"
proof -
  have "fd_inv (upd_gfd g (\<lambda>f. f\<lparr>fd_flags := arg\<rparr>) s)" if "nat g < VFS_MAX_GLOBAL_FDS" for g
    using assms that by (auto simp: fd_inv_def upd_gfd_def nth_list_update gfd_wf_def)
  then show ?thesis using assms by (auto simp: vfs_fcntl_def Let_def not_less not_le nat_less_iff)
qed

lemma close_slot_inv: "fd_inv s \<Longrightarrow> t < VFS_MAX_TASKS \<Longrightarrow> i < TASK_MAX_FDS \<Longrightarrow> fd_inv (close_slot ops t i s)"
  by (auto simp: close_slot_def Let_def intro!: unlink_inv)

lemma close_slot_row:
  assumes "fd_inv s" "t < VFS_MAX_TASKS" "i < TASK_MAX_FDS"
  shows "task_fd_map (close_slot ops t i s) = (task_fd_map s)[t := (task_fd_map s ! t)[i := -1]]"
proof (cases "0 \<le> task_fd_map s ! t ! i")
  case True
  have "gfd_ok (task_fd_map s ! t ! i) (set_fd_map t i (-1) s)" using open_slot(1) [OF assms True] by (simp add: gfd_ok_def)
  then show ?thesis using True by (simp add: close_slot_def Let_def close_global_result(1), simp add: set_fd_map_def)
next
  case False
  have "task_fd_map s ! t ! i = -1" using fd_row(3) [OF assms] False by simp
  then show ?thesis using False list_update_id [of "task_fd_map s ! t" i] by (simp add: close_slot_def)
qed

lemma close_slots:
  assumes "fd_inv s" "t < VFS_MAX_TASKS" "n \<le> TASK_MAX_FDS"
  shows "fd_inv (fold (close_slot ops t) [0..<n] s)" (is ?A)
    and "task_fd_map (fold (close_slot ops t) [0..<n] s) = (task_fd_map s)[t := replicate n (-1) @ drop n (task_fd_map s ! t)]" (is ?B)
proof -
  have "?A \<and> ?B" using assms(3)
  proof (induction n)
    case (Suc n)
    let ?s = "fold (close_slot ops t) [0..<n] s"
    have IH: "fd_inv ?s" "task_fd_map ?s = (task_fd_map s)[t := replicate n (-1) @ drop n (task_fd_map s ! t)]" and n: "n < TASK_MAX_FDS"
      using Suc by simp_all
    have "(replicate n (-1) @ drop n (task_fd_map s ! t))[n := -1] = replicate (Suc n) (-1) @ drop (Suc n) (task_fd_map s ! t)"
      using fd_row(2) [OF assms(1,2)] n by (simp add: list_update_append replicate_append_same [symmetric] Cons_nth_drop_Suc [symmetric])
    then show ?case using close_slot_inv [OF IH(1) assms(2) n, of ops] close_slot_row [OF IH(1) assms(2) n, of ops] IH(2) fd_row(1) [OF assms(1,2)] by simp
  qed (use assms(1) in simp)
  then show ?A ?B by blast+
qed

lemma vfs_close_all_inv: "fd_inv s \<Longrightarrow> fd_inv (vfs_close_all_for_task ops t s)"
  using close_slots(1) [of s "nat t" TASK_MAX_FDS ops] by (auto simp: vfs_close_all_for_task_def not_less not_le nat_less_iff simp del: upt_conv_Cons upt_rec_numeral)

text \<open>Copying the descriptors of a task into the empty table of another one.\<close>

lemma clone_slot_inv:
  assumes "fd_inv s" "src < VFS_MAX_TASKS" "dst < VFS_MAX_TASKS" "src \<noteq> dst" "i < TASK_MAX_FDS" "task_fd_map s ! dst ! i = -1"
  shows "fd_inv (clone_slot src dst i s)"
    "task_fd_map (clone_slot src dst i s) = (task_fd_map s)[dst := (task_fd_map s ! dst)[i := task_fd_map s ! src ! i]]"
proof -
  let ?g = "task_fd_map s ! src ! i"
  have g: "?g < int VFS_MAX_GLOBAL_FDS" "-1 \<le> ?g" using fd_row(3) [OF assms(1,2,5)] by simp_all
  have o: "0 \<le> ?g \<Longrightarrow> fd_used (gfd_of s ?g)" using open_slot(1) [OF assms(1,2,5)] by (simp add: gfd_ok_def)
  show "fd_inv (clone_slot src dst i s)" using share_inv [OF assms(1,2,5,3,5) refl _ assms(6)] assms(1) by (simp add: clone_slot_def Let_def)
  show "task_fd_map (clone_slot src dst i s) = (task_fd_map s)[dst := (task_fd_map s ! dst)[i := ?g]]"
  proof (cases "0 \<le> ?g")
    case True
    then show ?thesis using g o by (simp add: clone_slot_def Let_def, simp add: set_fd_map_def)
  next
    case False
    then have "?g = task_fd_map s ! dst ! i" using g assms(6) by simp
    then show ?thesis using False by (simp add: clone_slot_def)
  qed
qed

lemma clone_slots:
  assumes "fd_inv s" "src < VFS_MAX_TASKS" "dst < VFS_MAX_TASKS" "src \<noteq> dst" "\<forall>i < TASK_MAX_FDS. task_fd_map s ! dst ! i = -1" "n \<le> TASK_MAX_FDS"
  shows "fd_inv (fold (clone_slot src dst) [0..<n] s)" (is ?A)
    and "task_fd_map (fold (clone_slot src dst) [0..<n] s) = (task_fd_map s)[dst := take n (task_fd_map s ! src) @ drop n (task_fd_map s ! dst)]" (is ?B)
proof -
  have "?A \<and> ?B" using assms(6)
  proof (induction n)
    case (Suc n)
    let ?s = "fold (clone_slot src dst) [0..<n] s"
    note R = fd_row [OF assms(1,2)] fd_row [OF assms(1,3)]
    have IH: "fd_inv ?s" "task_fd_map ?s = (task_fd_map s)[dst := take n (task_fd_map s ! src) @ drop n (task_fd_map s ! dst)]" and n: "n < TASK_MAX_FDS"
      using Suc by simp_all
    have e: "task_fd_map ?s ! dst ! n = -1" "task_fd_map ?s ! src = task_fd_map s ! src"
      using IH(2) R assms(4,5) n by (simp_all add: nth_append)
    note C = clone_slot_inv [OF IH(1) assms(2-4) n e(1)]
    have "(take n (task_fd_map s ! src) @ drop n (task_fd_map s ! dst))[n := task_fd_map s ! src ! n] =
        take (Suc n) (task_fd_map s ! src) @ drop (Suc n) (task_fd_map s ! dst)"
      using R n by (simp add: list_update_append take_Suc_conv_app_nth Cons_nth_drop_Suc [symmetric])
    then show ?case using C IH(2) e(2) R by simp
  qed (use assms(1) in simp)
  then show ?A ?B by blast+
qed

lemma clear_row:
  assumes "fd_inv s" "dst < VFS_MAX_TASKS" "\<forall>i < TASK_MAX_FDS. task_fd_map s ! dst ! i = -1"
  shows "n \<le> TASK_MAX_FDS \<Longrightarrow> fold (\<lambda>i. set_fd_map dst i (-1)) [0..<n] s = s"
proof (induction n)
  case (Suc n)
  have "(task_fd_map s ! dst)[n := -1] = task_fd_map s ! dst" using assms(3) Suc.prems list_update_id [of "task_fd_map s ! dst" n] by simp
  then have "set_fd_map dst n (-1) s = s" by (simp add: set_fd_map_def)
  then show ?case using Suc by simp
qed simp

lemma vfs_clone_inv:
  assumes "fd_inv s" "src \<noteq> dst" "\<forall>i < TASK_MAX_FDS. task_fd_map s ! nat dst ! i = -1"
  shows "fd_inv (snd (vfs_clone_task_fds src dst s))"
proof (cases "0 \<le> src \<and> src < int VFS_MAX_TASKS \<and> 0 \<le> dst \<and> dst < int VFS_MAX_TASKS")
  case True
  then have d: "nat src < VFS_MAX_TASKS" "nat dst < VFS_MAX_TASKS" "nat src \<noteq> nat dst" using assms(2) by auto
  have "snd (vfs_clone_task_fds src dst s) = fold (clone_slot (nat src) (nat dst)) [0..<TASK_MAX_FDS] s"
    using True clear_row [OF assms(1) d(2) assms(3) order_refl] unfolding vfs_clone_task_fds_def Let_def by (auto simp del: upt_rec_numeral)
  then show ?thesis using clone_slots(1) [OF assms(1) d assms(3) order_refl] by simp
qed (use assms(1) in \<open>auto simp: vfs_clone_task_fds_def\<close>)

section \<open>Mounts\<close>

definition mount_wf :: "vfs_mnt \<Rightarrow> bool" where
  "mount_wf m \<longleftrightarrow> (mt_used m \<longrightarrow> mt_ops m \<noteq> None \<and> mt_len m = length (mt_path m) \<and> (\<exists>r. mt_path m = CHR ''/'' # r))"

text \<open>The root mount is in slot 0 from the start and cannot be removed.\<close>

definition mounts_inv :: "'w vfs \<Rightarrow> bool" where
  "mounts_inv s \<longleftrightarrow> length (mounts s) = VFS_MAX_MOUNTS \<and> list_all mount_wf (mounts s) \<and> mt_used (mounts s ! 0) \<and> mt_path (mounts s ! 0) = ''/''"

lemma mounts_inv_cong: "mounts s' = mounts s \<Longrightarrow> mounts_inv s' = mounts_inv s"
  by (simp add: mounts_inv_def)

lemma mounts_inv_upd:
  assumes "mounts_inv s" "mount_wf (f (mounts s ! i))" "i = 0 \<Longrightarrow> mt_used (f (mounts s ! i)) \<and> mt_path (f (mounts s ! i)) = ''/''"
  shows "mounts_inv (upd_mount i f s)"
  using assms by (cases "i = 0") (simp_all add: mounts_inv_def upd_mount_def list_all_update)

lemma vfs_mount_inv:
  assumes "mounts_inv s"
  shows "mounts_inv (snd (vfs_mount p b s))"
proof (cases p)
  case (Some q)
  have wf: "mount_wf (mounts s ! i)" if "i < length (mounts s)" for i by (rule list_all_nth [OF _ that]) (use assms in \<open>simp add: mounts_inv_def\<close>)
  have "mounts_inv (upd_mount i (\<lambda>m. m\<lparr>mt_ops := Some x\<rparr>) s)" if "find_slot (\<lambda>m. mt_used m \<and> str_eq_loop (mt_path m) q) (mounts s) = Some i" for i x
    using find_slot_Some_less [OF that] wf [of i] assms by (intro mounts_inv_upd) (auto simp: mount_wf_def mounts_inv_def)
  moreover have "mounts_inv (upd_mount i (\<lambda>_. \<lparr>mt_used = True, mt_path = take 23 q, mt_len = length (take 23 q), mt_ops = Some x\<rparr>) s)"
    if "find_slot (\<lambda>m. \<not> mt_used m) (mounts s) = Some i" "q \<noteq> []" "hd q = CHR ''/''" for i x
  proof (rule mounts_inv_upd [OF assms])
    have "i \<noteq> 0" using find_slot_Some_sat [OF that(1)] assms unfolding mounts_inv_def by metis
    then show "mt_used \<lparr>mt_used = True, mt_path = take 23 q, mt_len = length (take 23 q), mt_ops = Some x\<rparr> \<and>
      mt_path \<lparr>mt_used = True, mt_path = take 23 q, mt_len = length (take 23 q), mt_ops = Some x\<rparr> = ''/''" if "i = 0" using that by blast
    show "mount_wf \<lparr>mt_used = True, mt_path = take 23 q, mt_len = length (take 23 q), mt_ops = Some x\<rparr>"
      using that(2,3) by (cases q) (simp_all add: mount_wf_def)
  qed
  ultimately show ?thesis using Some assms by (auto simp: vfs_mount_def Let_def split: option.split)
qed (use assms in \<open>simp add: vfs_mount_def\<close>)

lemma vfs_umount_inv:
  assumes "mounts_inv s"
  shows "mounts_inv (snd (vfs_umount p s))"
proof (cases p)
  case (Some q)
  have "mounts_inv (upd_mount i (\<lambda>_. \<lparr>mt_used = False, mt_path = [], mt_len = 0, mt_ops = None\<rparr>) s)"
    if "find_slot (\<lambda>m. mt_used m \<and> str_eq_loop (mt_path m) q) (mounts s) = Some i" "q \<noteq> ''/''" for i
    using find_slot_Some_sat [OF that(1)] that(2) assms by (intro mounts_inv_upd) (auto simp: mount_wf_def mounts_inv_def)
  then show ?thesis using Some assms by (auto simp: vfs_umount_def split: option.split)
qed (use assms in \<open>simp add: vfs_umount_def\<close>)

lemma str_prefix_iff: "str_prefix s p \<longleftrightarrow> (\<exists>r. s = p @ r)"
  by (induction s p rule: str_prefix.induct) auto

text \<open>The mounts a path lies below: component by component, so \<open>/ram\<close> does not match \<open>/ramdisk\<close>.\<close>

definition mount_matches :: "string \<Rightarrow> vfs_mnt \<Rightarrow> bool" where
  "mount_matches path m \<longleftrightarrow> mt_used m \<and> (mt_path m = ''/'' \<or> path = mt_path m \<or> (\<exists>r. path = mt_path m @ CHR ''/'' # r))"

lemma mount_step_matches:
  assumes "mount_wf (ms ! i)"
  shows "mount_step path ms i best = (if mount_matches path (ms ! i) \<and> (best = None \<or> mt_path (ms ! i) \<noteq> ''/'' \<and> mt_len (ms ! i) > mt_len (ms ! the best))
    then Some i else best)"
proof (cases "mt_used (ms ! i) \<and> mt_path (ms ! i) \<noteq> ''/'' \<and> str_prefix path (mt_path (ms ! i))")
  case True
  then obtain r where r: "path = mt_path (ms ! i) @ r" by (auto simp: str_prefix_iff)
  then have "mount_matches path (ms ! i) \<longleftrightarrow> r = [] \<or> hd r = CHR ''/''" using True by (cases r) (auto simp: mount_matches_def)
  then show ?thesis using True r assms by (auto simp: mount_step_def mount_wf_def)
next
  case False
  then have "mount_matches path (ms ! i) \<longleftrightarrow> mt_used (ms ! i) \<and> mt_path (ms ! i) = ''/''" by (auto simp: mount_matches_def str_prefix_iff)
  then show ?thesis using False by (auto simp: mount_step_def Let_def)
qed

lemma mount_search:
  assumes "list_all mount_wf ms" "n \<le> length ms" "best = fold (mount_step path ms) [0..<n] None"
  shows "best = None \<Longrightarrow> \<forall>i < n. \<not> mount_matches path (ms ! i)"
    and "best = Some b \<Longrightarrow> b < n \<and> mount_matches path (ms ! b) \<and> (\<forall>j < n. mount_matches path (ms ! j) \<longrightarrow> mt_len (ms ! j) \<le> mt_len (ms ! b))"
proof -
  have len1: "0 < mt_len (ms ! i) \<and> (mt_path (ms ! i) = ''/'' \<longrightarrow> mt_len (ms ! i) = 1)" if "i < length ms" "mt_used (ms ! i)" for i
    using list_all_nth [OF assms(1) that(1)] that(2) by (auto simp: mount_wf_def)
  have "(fold (mount_step path ms) [0..<n] None = None \<longrightarrow> (\<forall>i < n. \<not> mount_matches path (ms ! i))) \<and>
    (\<forall>b. fold (mount_step path ms) [0..<n] None = Some b \<longrightarrow> b < n \<and> mount_matches path (ms ! b) \<and>
      (\<forall>j < n. mount_matches path (ms ! j) \<longrightarrow> mt_len (ms ! j) \<le> mt_len (ms ! b)))" using assms(2)
  proof (induction n)
    case (Suc n)
    then have n: "n < length ms" by simp
    note step = mount_step_matches [OF list_all_nth [OF assms(1) n], of path]
    have "mount_matches path (ms ! n) \<longrightarrow> mt_used (ms ! n)" by (simp add: mount_matches_def)
    moreover have "mt_len (ms ! b) > 0" if "fold (mount_step path ms) [0..<n] None = Some b" for b
      using Suc that len1 [of b] by (auto simp: mount_matches_def)
    ultimately show ?case using Suc len1 [OF n] by (auto simp: step less_Suc_eq) (meson le_less_trans less_imp_le)
  qed simp
  then show "best = None \<Longrightarrow> \<forall>i < n. \<not> mount_matches path (ms ! i)"
    and "best = Some b \<Longrightarrow> b < n \<and> mount_matches path (ms ! b) \<and> (\<forall>j < n. mount_matches path (ms ! j) \<longrightarrow> mt_len (ms ! j) \<le> mt_len (ms ! b))"
    using assms(3) by simp_all
qed

section \<open>The layer as a transition system\<close>

definition vfs_inv :: "'w vfs \<Rightarrow> bool" where
  "vfs_inv s \<longleftrightarrow> fd_inv s \<and> mounts_inv s"

definition vfs_boot :: "'w vfs \<Rightarrow> bool" where
  "vfs_boot s \<longleftrightarrow> (\<exists>s0 w. length (mounts s0) = VFS_MAX_MOUNTS \<and> length (fd_table s0) = VFS_MAX_GLOBAL_FDS \<and>
     length (task_fd_map s0) = VFS_MAX_TASKS \<and> list_all (\<lambda>row. length row = TASK_MAX_FDS) (task_fd_map s0) \<and> s = vfs_init w s0)"

text \<open>
  A child of fork starts with an empty descriptor table: its slot is fresh, or its last task closed all its files when it ended. Operations that only
  call a backend, the scheduler and the drivers change the rest of the state.
\<close>

inductive vfs_step :: "(backend \<Rightarrow> 'w vfs_ops) \<Rightarrow> 'w vfs \<Rightarrow> 'w vfs \<Rightarrow> bool" for ops where
  vfs_step_open: "vfs_step ops s (snd (vfs_open ops path flags s))"
| vfs_step_read: "vfs_step ops s (snd (vfs_read ops fd b n s))"
| vfs_step_write: "vfs_step ops s (snd (vfs_write ops fd buf s))"
| vfs_step_lseek: "vfs_step ops s (snd (vfs_lseek ops fd off wh s))"
| vfs_step_ftruncate: "vfs_step ops s (snd (vfs_ftruncate ops fd n s))"
| vfs_step_close: "vfs_step ops s (snd (vfs_close ops fd s))"
| vfs_step_dup: "vfs_step ops s (snd (vfs_dup fd s))"
| vfs_step_dup2: "vfs_step ops s (snd (vfs_dup2 ops fd newfd s))"
| vfs_step_fcntl: "vfs_step ops s (snd (vfs_fcntl fd cmd arg s))"
| vfs_step_close_all: "vfs_step ops s (vfs_close_all_for_task ops t s)"
| vfs_step_clone: "src \<noteq> dst \<Longrightarrow> \<forall>i < TASK_MAX_FDS. task_fd_map s ! nat dst ! i = -1 \<Longrightarrow> vfs_step ops s (snd (vfs_clone_task_fds src dst s))"
| vfs_step_mount: "vfs_step ops s (snd (vfs_mount path b s))"
| vfs_step_umount: "vfs_step ops s (snd (vfs_umount path s))"
| vfs_step_rest: "vfs_step ops s (s\<lparr>vfs_task := t, world := w\<rparr>)"

lemma vfs_mount_fds [simp]: "fd_inv (snd (vfs_mount p b s)) = fd_inv s" "fd_inv (snd (vfs_umount p s)) = fd_inv s"
  by (auto simp: vfs_mount_def vfs_umount_def upd_mount_def Let_def split: option.split)

lemma close_global_mounts [simp]: "mounts (snd (close_global_fd ops g s)) = mounts s"
  using close_global_result(3) [of g s ops] by (cases "gfd_ok g s") (simp_all add: close_global_fd_def)

lemma vfs_close_mounts [simp]: "mounts (snd (vfs_close ops fd s)) = mounts s"
  by (simp add: vfs_close_def Let_def)

lemma fold_mounts:
  assumes "\<And>i s. mounts (f i s) = mounts s"
  shows "mounts (fold f xs s) = mounts s"
  by (induction xs arbitrary: s) (simp_all add: assms)

lemma fd_op_mounts [simp]:
  "mounts (snd (vfs_open ops path flags s)) = mounts s" "mounts (snd (with_fd ops op fd r k s)) = mounts s"
  "mounts (snd (vfs_dup fd s)) = mounts s" "mounts (snd (vfs_dup2 ops fd newfd s)) = mounts s"
  "mounts (snd (vfs_fcntl fd cmd arg s)) = mounts s" "mounts (vfs_close_all_for_task ops t s) = mounts s"
  "mounts (snd (vfs_clone_task_fds src dst s)) = mounts s"
proof -
  show "mounts (vfs_close_all_for_task ops t s) = mounts s" unfolding vfs_close_all_for_task_def
    by (cases "t < 0 \<or> int VFS_MAX_TASKS \<le> t") (simp_all only: if_True if_False, rule fold_mounts, simp add: close_slot_def Let_def)
  have "mounts (fold (clone_slot a b) xs (fold (\<lambda>i. set_fd_map c i d) ys s)) = mounts s" for a b c d xs ys
    by (subst fold_mounts, simp add: clone_slot_def Let_def, rule fold_mounts, simp)
  then show "mounts (snd (vfs_clone_task_fds src dst s)) = mounts s" unfolding vfs_clone_task_fds_def Let_def
    by (cases "src < 0 \<or> int VFS_MAX_TASKS \<le> src \<or> dst < 0 \<or> int VFS_MAX_TASKS \<le> dst") (simp_all only: if_True if_False snd_conv)
qed (auto simp: vfs_open_def with_backend_def with_fd_def vfs_dup_def vfs_dup2_def vfs_fcntl_def Let_def case_prod_beta split: option.split)

lemma fd_refs_boot:
  assumes "0 \<le> g"
  shows "fd_refs (map (map (\<lambda>_. -1)) m) g = 0"
proof -
  have "count_list (map (\<lambda>_. -1) row) g = 0" for row :: "'a list" using assms by (induction row) simp_all
  then show ?thesis by (simp add: fd_refs_def comp_def)
qed

lemma find_slot_False [simp]: "find_slot (\<lambda>x. False) xs = None"
  by (simp add: find_slot_None)

lemma vfs_boot_inv:
  assumes "vfs_boot s"
  shows "vfs_inv s"
proof -
  obtain s0 w where s0: "length (mounts s0) = VFS_MAX_MOUNTS" "length (fd_table s0) = VFS_MAX_GLOBAL_FDS" "length (task_fd_map s0) = VFS_MAX_TASKS"
    "list_all (\<lambda>row. length row = TASK_MAX_FDS) (task_fd_map s0)" "s = vfs_init w s0" using assms by (auto simp: vfs_boot_def)
  let ?m = "map (map (\<lambda>_. -1)) (task_fd_map s0) :: int list list"
  have "fd_rows_ok ?m" using s0(3,4) by (auto simp: fd_rows_ok_def list_all_iff)
  moreover have "fd_refs ?m (int g) = 0" for g by (rule fd_refs_boot) simp
  ultimately have "fd_inv (s0\<lparr>mounts := ms, fd_table := map (\<lambda>_. free_fd) (fd_table s0), task_fd_map := ?m, world := w (world s0)\<rparr>)" for ms
    using s0(2) by (simp add: fd_inv_def gfd_wf_def)
  then have "fd_inv s" unfolding s0(5) vfs_init_def by (simp only: vfs_mount_fds)
  obtain x xs where "mounts s0 = x # xs" using s0(1) by (cases "mounts s0") auto
  then have "mounts_inv s" using s0(1,5)
    by (simp add: vfs_init_def vfs_mount_def Let_def find_slot_map upd_mount_def mounts_inv_def mount_wf_def list_all_iff)
  then show ?thesis using \<open>fd_inv s\<close> by (simp add: vfs_inv_def)
qed

lemmas fd_op_mounts_inv = fd_op_mounts [THEN mounts_inv_cong] vfs_close_mounts [THEN mounts_inv_cong]
lemmas fd_op_inv = vfs_open_inv with_fd_inv vfs_close_inv vfs_dup_inv vfs_dup2_inv vfs_fcntl_inv vfs_close_all_inv vfs_clone_inv

lemma vfs_rest_inv [simp]: "fd_inv (s\<lparr>vfs_task := t, world := w\<rparr>) = fd_inv s" "mounts_inv (s\<lparr>vfs_task := t, world := w\<rparr>) = mounts_inv s"
  by (simp_all add: fd_inv_def mounts_inv_def)

lemma vfs_step_inv: "vfs_step ops s t \<Longrightarrow> vfs_inv s \<Longrightarrow> vfs_inv t"
  by (induction rule: vfs_step.induct)
    (auto simp: vfs_inv_def vfs_read_def vfs_write_def vfs_lseek_def vfs_ftruncate_def fd_op_mounts_inv intro: fd_op_inv vfs_mount_inv vfs_umount_inv)

interpretation vfs: invariant_system vfs_boot "vfs_step ops" vfs_inv for ops
  by unfold_locales (auto intro: vfs_boot_inv vfs_step_inv)

section \<open>Properties\<close>

lemma fd_refs_card:
  assumes "fd_inv s"
  shows "fd_refs (task_fd_map s) g = int (card {(t, i). t < VFS_MAX_TASKS \<and> i < TASK_MAX_FDS \<and> task_fd_map s ! t ! i = g})"
proof -
  let ?m = "task_fd_map s" and ?B = "\<lambda>t. {i. i < TASK_MAX_FDS \<and> task_fd_map s ! t ! i = g}"
  have l: "length ?m = VFS_MAX_TASKS" using assms by (simp add: fd_inv_def fd_rows_ok_def)
  have c: "count_list (?m ! t) g = card (?B t)" if "t < VFS_MAX_TASKS" for t
    using fd_row(2) [OF assms that] by (simp add: count_list_eq_length_filter length_filter_conv_card eq_commute)
  have "fd_refs ?m g = (\<Sum>t = 0..<VFS_MAX_TASKS. int (count_list (?m ! t) g))"
    unfolding fd_refs_def sum_list_sum_nth by (rule sum.cong) (simp_all add: l)
  also have "\<dots> = (\<Sum>t = 0..<VFS_MAX_TASKS. int (card (?B t)))" by (rule sum.cong) (simp_all only: c atLeastLessThan_iff)
  also have "\<dots> = int (card (Sigma {0..<VFS_MAX_TASKS} ?B))"
  proof -
    have "card (Sigma {0..<VFS_MAX_TASKS} ?B) = (\<Sum>t = 0..<VFS_MAX_TASKS. card (?B t))" by (rule card_SigmaI) auto
    then show ?thesis by (simp only: of_nat_sum)
  qed
  also have "Sigma {0..<VFS_MAX_TASKS} ?B = {(t, i). t < VFS_MAX_TASKS \<and> i < TASK_MAX_FDS \<and> ?m ! t ! i = g}" by (auto simp: Sigma_def)
  finally show ?thesis .
qed

end
