(* ===== verification/VfsFiles.thy ===== *)
theory VfsFiles
  imports VfsCorrect RamdiskCorrect
begin

text \<open>
  Whole files through the descriptor layer: a backend that keeps what is written to a file makes \<open>vfs_write_file\<close> and \<open>vfs_read_file\<close> end and be
  inverse to each other.
\<close>

section \<open>One open file\<close>

text \<open>A descriptor of the running task for a handle of a backend, the only one for this file.\<close>

definition opened :: "int \<Rightarrow> backend \<Rightarrow> int \<Rightarrow> 'w vfs \<Rightarrow> bool" where
  "opened fd b h s \<longleftrightarrow> fd_inv s \<and> 0 \<le> fd \<and> fd < int TASK_MAX_FDS \<and> gfd_ok (task_fd_to_global fd s) s \<and>
     fd_ops (gfd_of s (task_fd_to_global fd s)) = Some b \<and> fd_backend_handle (gfd_of s (task_fd_to_global fd s)) = h \<and>
     fd_ref_count (gfd_of s (task_fd_to_global fd s)) = 1"

text \<open>Room for one more open file, and one more descriptor of the running task.\<close>

definition fd_room :: "'w vfs \<Rightarrow> bool" where
  "fd_room s \<longleftrightarrow> 0 \<le> alloc_global_fd s \<and> 0 \<le> alloc_task_fd (current_task_id s) s"

lemma opened_world: "opened fd b h (s\<lparr>world := w\<rparr>) = opened fd b h s"
  by (simp add: opened_def task_fd_to_global_def current_task_id_def gfd_ok_def)

lemma open_file:
  assumes "fd_inv s" "fd_room s" "resolve_mount path s = Some (Some b, rel)" "op_open (ops b) = Some f" "f rel flags (world s) = (h, w)" "0 \<le> h" "path \<noteq> []"
  shows "\<exists>fd s1. vfs_open ops (Some path) flags s = (fd, s1) \<and> 0 \<le> fd \<and> opened fd b h s1 \<and> world s1 = w \<and> mounts s1 = mounts s"
proof -
  define s0 where "s0 = s\<lparr>world := w\<rparr>"
  let ?t = "current_task_id s" and ?g = "alloc_global_fd s" and ?l = "alloc_task_fd (current_task_id s) s"
  define s1 where "s1 = set_fd_map ?t (nat ?l) ?g (upd_gfd ?g (\<lambda>_. \<lparr>fd_used = True, fd_ops = Some b, fd_backend_handle = h, fd_flags = flags, fd_ref_count = 1\<rparr>) s0)"
  have same: "current_task_id s0 = ?t" "alloc_global_fd s0 = ?g" "alloc_task_fd ?t s0 = ?l" "fd_inv s0"
    using assms(1) by (simp_all add: s0_def current_task_id_def alloc_global_fd_def alloc_task_fd_def)
  have o: "vfs_open ops (Some path) flags s = (?l, s1)"
    using assms(2-7) same(1-3) by (simp add: vfs_open_def with_backend_def on_world_def Let_def fd_room_def s1_def s0_def [symmetric])
  have room: "0 \<le> ?l" "0 \<le> ?g" using assms(2) by (simp_all add: fd_room_def)
  note L = alloc_task_fd_slot [OF assms(1) current_task_less room(1)] and G = alloc_global_fd_slot [OF assms(1) room(2)]
  have m: "task_fd_map s1 = (task_fd_map s)[?t := (task_fd_map s ! ?t)[nat ?l := ?g]]" by (simp add: s1_def set_fd_map_def s0_def)
  have t1: "current_task_id s1 = ?t" by (simp add: s1_def current_task_id_def s0_def)
  have l: "?l < int TASK_MAX_FDS" using L(1) room(1) by linarith
  have g: "task_fd_to_global ?l s1 = ?g"
    using room(1) l L(1) fd_row(1,2) [OF assms(1) current_task_less [of s]] by (simp add: task_fd_to_global_def t1 m)
  have "nat ?g < length (fd_table s)" using G(1) room(2) assms(1) by (simp add: fd_inv_def nat_less_iff)
  then have f: "gfd_of s1 ?g = \<lparr>fd_used = True, fd_ops = Some b, fd_backend_handle = h, fd_flags = flags, fd_ref_count = 1\<rparr>"
    by (simp add: s1_def upd_gfd_def s0_def)
  have "fd_inv s1" using new_fd_inv [OF same(4) current_task_less [of s]] room same(2,3) by (simp add: s1_def)
  then have "opened ?l b h s1" using l room g f G(1) by (simp add: opened_def gfd_ok_def)
  moreover have "world s1 = w" "mounts s1 = mounts s" by (simp_all add: s1_def set_fd_map_def upd_gfd_def s0_def)
  ultimately show ?thesis using o room(1) by blast
qed

lemma opened_call:
  assumes "opened fd b h s" "op (ops b) = Some f" "k f h (world s) = (r, w)"
  shows "with_fd ops op fd bad k s = (r, s\<lparr>world := w\<rparr>)"
  using assms by (simp add: with_fd_def opened_def Let_def on_world_def)

lemma opened_close:
  assumes "opened fd b h s" "op_close (ops b) = Some f" "f h (world s) = (r, w)"
  shows "\<exists>s1. vfs_close ops fd s = (r, s1) \<and> world s1 = w \<and> mounts s1 = mounts s \<and> fd_inv s1 \<and> fd_room s1"
proof -
  let ?g = "task_fd_to_global fd s" and ?t = "current_task_id s"
  define s0 where "s0 = set_fd_map ?t (nat fd) (-1) s"
  have o: "fd_inv s" "0 \<le> fd" "fd < int TASK_MAX_FDS" "gfd_ok ?g s" "fd_ops (gfd_of s ?g) = Some b" "fd_backend_handle (gfd_of s ?g) = h"
    "fd_ref_count (gfd_of s ?g) = 1" using assms(1) by (simp_all add: opened_def)
  have g: "?g = task_fd_map s ! ?t ! nat fd" "0 \<le> ?g" "nat fd < TASK_MAX_FDS" using o(2-4) by (auto simp: task_fd_to_global_def gfd_ok_def nat_less_iff)
  have ok0: "gfd_ok ?g s0" using o(4) by (simp add: gfd_ok_def s0_def)
  define s1 where "s1 = upd_gfd ?g (\<lambda>_. free_fd) (s0\<lparr>world := w\<rparr>)"
  have "close_global_fd ops ?g s0 = (r, s1)"
    using ok0 o(5-7) assms(2,3) unfolding close_global_fd_def s1_def by (simp add: s0_def on_world_def set_fd_map_def)
  then have c: "vfs_close ops fd s = (r, s1)" using o(2,3) g by (simp add: vfs_close_def Let_def s0_def)
  have inv1: "fd_inv s1" using vfs_close_inv [OF o(1), of ops fd] c by simp
  have "nat ?g < length (fd_table s1)" using o(1,4) by (simp add: s1_def upd_gfd_def s0_def fd_inv_def gfd_ok_def nat_less_iff)
  moreover have "\<not> fd_used (fd_table s1 ! nat ?g)" using calculation by (simp add: s1_def upd_gfd_def s0_def)
  ultimately have "0 \<le> alloc_global_fd s1" using find_slot_exists [of "nat ?g" "fd_table s1" "\<lambda>f. \<not> fd_used f"] by (auto simp: alloc_global_fd_def slot_index_def)
  moreover have "0 \<le> alloc_task_fd (current_task_id s1) s1"
  proof -
    have t: "current_task_id s1 = ?t" by (simp add: s1_def s0_def current_task_id_def)
    have m: "task_fd_map s1 ! ?t = (task_fd_map s ! ?t)[nat fd := -1]"
      using fd_row(1) [OF o(1) current_task_less [of s]] by (simp add: s1_def s0_def set_fd_map_def)
    have "\<exists>k. find_slot (\<lambda>g. g < 0) (task_fd_map s1 ! ?t) = Some k"
      by (rule find_slot_exists [of "nat fd"]) (use m fd_row(2) [OF o(1) current_task_less [of s]] g(3) in simp_all)
    then show ?thesis by (auto simp: alloc_task_fd_def slot_index_def t)
  qed
  ultimately have "fd_room s1" by (simp add: fd_room_def)
  moreover have "world s1 = w" "mounts s1 = mounts s" by (simp_all add: s1_def upd_gfd_def s0_def set_fd_map_def)
  ultimately show ?thesis using c inv1 by blast
qed

section \<open>What a backend promises\<close>

text \<open>
  \<open>ready\<close>: a file of this name can be created; \<open>writing h rel c\<close>: the handle has just written the contents \<open>c\<close>; \<open>stored rel c\<close>: the file has the
  contents \<open>c\<close> and can be opened; \<open>reading h rel c p\<close>: the handle has read \<open>p\<close> bytes of them. \<open>cap\<close> bounds the size of a file.
\<close>

locale file_backend =
  fixes ops :: "backend \<Rightarrow> 'w vfs_ops" and b :: backend
    and f_open :: "string \<Rightarrow> u32 \<Rightarrow> 'w \<Rightarrow> int \<times> 'w" and f_read :: "int \<Rightarrow> bool \<Rightarrow> u32 \<Rightarrow> 'w \<Rightarrow> (int \<times> u8 list) \<times> 'w"
    and f_write :: "int \<Rightarrow> u8 list option \<Rightarrow> 'w \<Rightarrow> int \<times> 'w" and f_close :: "int \<Rightarrow> 'w \<Rightarrow> int \<times> 'w"
    and ready :: "string \<Rightarrow> 'w \<Rightarrow> bool" and writing :: "int \<Rightarrow> string \<Rightarrow> u8 list \<Rightarrow> 'w \<Rightarrow> bool"
    and stored :: "string \<Rightarrow> u8 list \<Rightarrow> 'w \<Rightarrow> bool" and reading :: "int \<Rightarrow> string \<Rightarrow> u8 list \<Rightarrow> nat \<Rightarrow> 'w \<Rightarrow> bool" and cap :: nat
  assumes f_ops: "op_open (ops b) = Some f_open" "op_read (ops b) = Some f_read" "op_write (ops b) = Some f_write" "op_close (ops b) = Some f_close"
    and cap: "cap < 2 ^ 31"
    and open_write: "ready rel w \<Longrightarrow> \<exists>h w'. f_open rel (VFS_O_WRONLY OR VFS_O_CREAT OR VFS_O_TRUNC) w = (h, w') \<and> 0 \<le> h \<and> writing h rel [] w'"
    and write_more: "writing h rel c w \<Longrightarrow> bs \<noteq> [] \<Longrightarrow> length c + length bs \<le> cap \<Longrightarrow>
      \<exists>w'. f_write h (Some bs) w = (int (length bs), w') \<and> writing h rel (c @ bs) w'"
    and close_written: "writing h rel c w \<Longrightarrow> \<exists>r w'. f_close h w = (r, w') \<and> stored rel c w'"
    and open_read: "stored rel c w \<Longrightarrow> \<exists>h w'. f_open rel VFS_O_RDONLY w = (h, w') \<and> 0 \<le> h \<and> reading h rel c 0 w'"
    and read_more: "reading h rel c p w \<Longrightarrow> 0 < n \<Longrightarrow>
      \<exists>w'. f_read h True n w = ((int (min (unat n) (length c - p)), take (unat n) (drop p c)), w') \<and> reading h rel c (p + min (unat n) (length c - p)) w'"
    and close_read: "reading h rel c p w \<Longrightarrow> \<exists>r w'. f_close h w = (r, w') \<and> stored rel c w'"
begin

lemma write_file:
  assumes "fd_inv s" "fd_room s" "resolve_mount path s = Some (Some b, rel)" "path \<noteq> []" "ready rel (world s)" "length buf \<le> cap"
  shows "\<exists>s1. vfs_write_file ops (Some path) buf s = Some (int (length buf), s1) \<and> stored rel buf (world s1) \<and> mounts s1 = mounts s \<and> fd_inv s1 \<and> fd_room s1"
proof -
  obtain h w where ow: "f_open rel (VFS_O_WRONLY OR VFS_O_CREAT OR VFS_O_TRUNC) (world s) = (h, w)" "0 \<le> h" "writing h rel [] w"
    using open_write [OF assms(5)] by blast
  obtain fd s1 where o: "vfs_open ops (Some path) (VFS_O_WRONLY OR VFS_O_CREAT OR VFS_O_TRUNC) s = (fd, s1)" "0 \<le> fd" "opened fd b h s1" "world s1 = w"
    "mounts s1 = mounts s" using open_file [where ops = ops, OF assms(1-3) f_ops(1) ow(1,2) assms(4)] by blast
  have un: "unat (of_nat (length buf) :: u32) = length buf" using assms(6) cap by (simp add: unat_of_nat)
  have fin: "\<exists>s3. write_file_loop ops fd buf (of_nat (length buf)) s2 = Some (int (length buf), s3) \<and> stored rel buf (world s3) \<and> mounts s3 = mounts s \<and> fd_inv s3 \<and> fd_room s3"
    if s2: "opened fd b h s2" "writing h rel buf (world s2)" "mounts s2 = mounts s" for s2
  proof -
    obtain r w3 where c: "f_close h (world s2) = (r, w3)" "stored rel buf w3" using close_written [OF s2(2)] by blast
    obtain s3 where "vfs_close ops fd s2 = (r, s3)" "world s3 = w3" "mounts s3 = mounts s2" "fd_inv s3" "fd_room s3"
      using opened_close [where ops = ops, OF s2(1) f_ops(4) c(1)] by blast
    moreover have "sint (of_nat (length buf) :: u32) = int (length buf)" using sint_small [of "of_nat (length buf)"] un assms(6) cap by simp
    ultimately show ?thesis using c(2) s2(3) by (subst write_file_loop.simps) simp
  qed
  show ?thesis
  proof (cases "buf = []")
    case True
    then show ?thesis using fin [of s1] o ow(3) by (simp add: vfs_write_file_def)
  next
    case False
    obtain w2 where w2: "f_write h (Some buf) w = (int (length buf), w2)" "writing h rel buf w2"
      using write_more [OF ow(3) False] assms(6) by auto
    have wr: "vfs_write ops fd (Some buf) s1 = (int (length buf), s1\<lparr>world := w2\<rparr>)"
      unfolding vfs_write_def by (rule opened_call [where ops = ops and op = op_write, OF o(3) f_ops(3)]) (simp add: w2(1) o(4))
    have lt: "(0 :: u32) < of_nat (length buf)" using un False by (simp add: word_less_nat_alt)
    have "write_file_loop ops fd buf 0 s1 = write_file_loop ops fd buf (of_nat (length buf)) (s1\<lparr>world := w2\<rparr>)"
      using lt False wr by (subst write_file_loop.simps) simp
    then show ?thesis using fin [of "s1\<lparr>world := w2\<rparr>"] w2(2) o by (simp add: vfs_write_file_def opened_world)
  qed
qed

lemma read_file:
  assumes "fd_inv s" "fd_room s" "resolve_mount path s = Some (Some b, rel)" "path \<noteq> []" "stored rel c (world s)" "length c \<le> cap" "length c \<le> unat n"
  shows "\<exists>s1. vfs_read_file ops (Some path) True n s = Some ((int (length c), c), s1) \<and> stored rel c (world s1) \<and> mounts s1 = mounts s \<and> fd_inv s1 \<and> fd_room s1"
proof -
  obtain h w where ow: "f_open rel VFS_O_RDONLY (world s) = (h, w)" "0 \<le> h" "reading h rel c 0 w" using open_read [OF assms(5)] by blast
  obtain fd s1 where o: "vfs_open ops (Some path) VFS_O_RDONLY s = (fd, s1)" "0 \<le> fd" "opened fd b h s1" "world s1 = w"
    "mounts s1 = mounts s" using open_file [where ops = ops, OF assms(1-3) f_ops(1) ow(1,2) assms(4)] by blast
  have un: "unat (of_nat (length c) :: u32) = length c" using assms(6) cap by (simp add: unat_of_nat)
  have closed: "\<exists>r s3. vfs_close ops fd s2 = (r, s3) \<and> stored rel c (world s3) \<and> mounts s3 = mounts s \<and> fd_inv s3 \<and> fd_room s3"
    if s2: "opened fd b h s2" "reading h rel c p (world s2)" "mounts s2 = mounts s" for s2 p
    using close_read [OF s2(2)] opened_close [where ops = ops, OF s2(1) f_ops(4)] s2(3) by metis
  have rd: "\<exists>w'. vfs_read ops fd True k s2 = ((int (min (unat k) (length c - p)), take (unat k) (drop p c)), s2\<lparr>world := w'\<rparr>) \<and>
      reading h rel c (p + min (unat k) (length c - p)) w'" if s2: "opened fd b h s2" "reading h rel c p (world s2)" "0 < k" for s2 p k
    using read_more [OF s2(2,3)] opened_call [where ops = ops and op = op_read and k = "\<lambda>f h. f h True k", OF s2(1) f_ops(2)] unfolding vfs_read_def by metis
  have fin: "\<exists>s3. read_file_loop ops fd True n (of_nat (length c)) c s2 = Some ((int (length c), c), s3) \<and> stored rel c (world s3) \<and> mounts s3 = mounts s \<and> fd_inv s3 \<and> fd_room s3"
    if s2: "opened fd b h s2" "reading h rel c (length c) (world s2)" "mounts s2 = mounts s" for s2
  proof -
    have si: "sint (of_nat (length c) :: u32) = int (length c)" using sint_small [of "of_nat (length c)"] un assms(6) cap by simp
    show ?thesis
    proof (cases "(of_nat (length c) :: u32) < n")
      case True
      then have "0 < n - of_nat (length c)" by (simp add: word_gt_0)
      from rd [OF s2(1,2) this] obtain w' where r: "vfs_read ops fd True (n - of_nat (length c)) s2 = ((0, []), s2\<lparr>world := w'\<rparr>)" "reading h rel c (length c) w'" by auto
      obtain r' s3 where "vfs_close ops fd (s2\<lparr>world := w'\<rparr>) = (r', s3)" "stored rel c (world s3)" "mounts s3 = mounts s" "fd_inv s3" "fd_room s3"
        using closed [of "s2\<lparr>world := w'\<rparr>" "length c"] r(2) s2 by (auto simp: opened_world)
      then show ?thesis using True r(1) si by (subst read_file_loop.simps) simp
    next
      case False
      obtain r' s3 where "vfs_close ops fd s2 = (r', s3)" "stored rel c (world s3)" "mounts s3 = mounts s" "fd_inv s3" "fd_room s3"
        using closed [OF s2] by blast
      then show ?thesis using False si by (subst read_file_loop.simps) simp
    qed
  qed
  show ?thesis
  proof (cases "c = []")
    case True
    then show ?thesis using fin [of s1] o ow(3) by (simp add: vfs_read_file_def)
  next
    case False
    have "0 < length c" using False by simp
    then have "0 < unat n" using assms(7) by (rule less_le_trans)
    then have n: "0 < n" by (simp add: word_less_nat_alt)
    from rd [OF o(3) _ n, of 0] ow(3) o(4) obtain w2 where
      r: "vfs_read ops fd True n s1 = ((int (length c), c), s1\<lparr>world := w2\<rparr>)" "reading h rel c (length c) w2"
      using assms(7) by (auto simp: min_absorb2)
    have "read_file_loop ops fd True n 0 [] s1 = read_file_loop ops fd True n (of_nat (length c)) c (s1\<lparr>world := w2\<rparr>)"
      using n r(1) False by (subst read_file_loop.simps) simp
    then show ?thesis using fin [of "s1\<lparr>world := w2\<rparr>"] r(2) o by (simp add: vfs_read_file_def opened_world)
  qed
qed

end

end
