(* ===== verification/RamdiskFiles.thy ===== *)
theory RamdiskFiles
  imports RamdiskCorrect
begin

text \<open>The sessions of a client of the memory file system: create and write, close, open and read, close.\<close>

definition ram_room :: "ramdisk \<Rightarrow> bool" where
  "ram_room s \<longleftrightarrow> 0 \<le> ramdisk_alloc_handle s"

definition ram_ready :: "string \<Rightarrow> ramdisk \<Rightarrow> bool" where
  "ram_ready rel s \<longleftrightarrow> ram_inv s \<and> ram_room s \<and>
     (\<exists>n. ramdisk_extract_name (Some rel) = Some n \<and> (0 \<le> ramdisk_find_entry n s \<or> 0 \<le> ramdisk_alloc_entry s))"

text \<open>A handle with the given flags on the file of this name and contents, at the given position.\<close>

definition ram_session :: "u32 \<Rightarrow> int \<Rightarrow> string \<Rightarrow> u8 list \<Rightarrow> nat \<Rightarrow> ramdisk \<Rightarrow> bool" where
  "ram_session flags h rel c p s \<longleftrightarrow> ram_inv s \<and> ram_handle_ok h s \<and> rh_flags (rhandle s h) = flags \<and> unat (rh_pos (rhandle s h)) = p \<and> p \<le> length c \<and>
     ramdisk_extract_name (Some rel) = Some (rf_name (rfile s (rh_entry_idx (rhandle s h)))) \<and> ram_content (rfile s (rh_entry_idx (rhandle s h))) = c"

definition ram_stored :: "string \<Rightarrow> u8 list \<Rightarrow> ramdisk \<Rightarrow> bool" where
  "ram_stored rel c s \<longleftrightarrow> ram_inv s \<and> ram_room s \<and>
     (\<exists>i < RAMDISK_MAX_FILES. rf_used (ramdisk_files s ! i) \<and> ramdisk_extract_name (Some rel) = Some (rf_name (ramdisk_files s ! i)) \<and>
        ram_content (ramdisk_files s ! i) = c)"

lemma found_unique:
  assumes "ram_inv s" "i < RAMDISK_MAX_FILES" "rf_used (ramdisk_files s ! i)"
  shows "ramdisk_find_entry (rf_name (ramdisk_files s ! i)) s = int i"
proof -
  let ?k = "ramdisk_find_entry (rf_name (ramdisk_files s ! i)) s"
  have "i < length (ramdisk_files s)" using assms(1,2) by (simp add: ram_invD)
  then have k: "0 \<le> ?k" using assms(3) not_found_entry [of "rf_name (ramdisk_files s ! i)" s] by (metis linorder_not_less nth_mem)
  note F = found_entry [OF assms(1) k]
  have "nat ?k = i" using F(1-3) ram_invD(5) [OF assms(1)] \<open>i < length (ramdisk_files s)\<close> assms(3) unfolding unique_names_def by blast
  then show ?thesis using k by linarith
qed

text \<open>The new handle of an open.\<close>

lemma new_handle_session:
  assumes "ram_inv t" "ram_room t" "0 \<le> i" "nat i < length (ramdisk_files t)" "rf_used (rfile t i)" "ramdisk_extract_name (Some rel) = Some (rf_name (rfile t i))"
  shows "\<exists>h w. new_handle fl i t = (h, w) \<and> 0 \<le> h \<and> ram_session fl h rel (ram_content (rfile t i)) 0 w"
proof -
  let ?h = "ramdisk_alloc_handle t"
  have h: "0 \<le> ?h" using assms(2) by (simp add: ram_room_def)
  have l: "nat ?h < length (ramdisk_handles t)"
    using slot_index_range [of "\<lambda>h. \<not> rh_used h" "ramdisk_handles t"] h by (simp add: ramdisk_alloc_handle_def nat_less_iff)
  define w where "w = upd_handle ?h (\<lambda>_. \<lparr>rh_used = True, rh_entry_idx = i, rh_pos = 0, rh_flags = fl\<rparr>) t"
  have n: "new_handle fl i t = (?h, w)" using h by (simp add: new_handle_def Let_def w_def)
  have "ram_inv w" using new_handle_inv [OF assms(1,3-5), of fl] n by simp
  moreover have "rhandle w ?h = \<lparr>rh_used = True, rh_entry_idx = i, rh_pos = 0, rh_flags = fl\<rparr>" "ramdisk_files w = ramdisk_files t"
    using l by (simp_all add: w_def upd_handle_def)
  ultimately have "ram_session fl ?h rel (ram_content (rfile t i)) 0 w"
    using h l ram_invD(2) [OF assms(1)] assms(6) by (simp add: ram_session_def ram_handle_ok_def nat_less_iff)
  then show ?thesis using n h by blast
qed

lemma ram_open_write:
  assumes "ram_ready rel s"
  shows "\<exists>h w. ramdisk_open (Some rel) (VFS_O_WRONLY OR VFS_O_CREAT OR VFS_O_TRUNC) s = (h, w) \<and> 0 \<le> h \<and> ram_session 14 h rel [] 0 w"
proof -
  obtain n where n: "ramdisk_extract_name (Some rel) = Some n" "0 \<le> ramdisk_find_entry n s \<or> 0 \<le> ramdisk_alloc_entry s"
    and i: "ram_inv s" "ram_room s" using assms by (auto simp: ram_ready_def)
  show ?thesis
  proof (cases "ramdisk_find_entry n s < 0")
    case True
    then have a: "0 \<le> ramdisk_alloc_entry s" using n(2) by simp
    note A = alloc_entry [OF i(1) a]
    let ?t = "new_file n s" and ?i = "ramdisk_alloc_entry s"
    have short: "length n \<le> RAMDISK_NAME_MAX" using extract_name_short [OF n(1)] by simp
    have t: "ram_inv ?t" by (rule new_file_inv [OF i(1) a True short])
    have f: "nat ?i < length (ramdisk_files ?t)" "rf_used (rfile ?t ?i)" "rf_name (rfile ?t ?i) = n" "ram_content (rfile ?t ?i) = []" "ram_room ?t"
      using A short i(2) by (simp_all add: new_file_def Let_def ram_content_def ram_room_def ramdisk_alloc_handle_def)
    have "ramdisk_open (Some rel) (VFS_O_WRONLY OR VFS_O_CREAT OR VFS_O_TRUNC) s = new_handle 14 ?i ?t" using True a n(1) by (simp add: ramdisk_open_def)
    then show ?thesis using new_handle_session [OF t f(5) a f(1,2), of rel 14] n(1) f(3,4) by simp
  next
    case False
    then have k: "0 \<le> ramdisk_find_entry n s" by simp
    note F = found_entry [OF i(1) k]
    let ?i = "ramdisk_find_entry n s"
    let ?t = "touch ?i (upd_file ?i (\<lambda>f. f\<lparr>rf_size := 0\<rparr>) s)"
    have "ram_inv (upd_file ?i (\<lambda>f. f\<lparr>rf_size := 0\<rparr>) s)" by (rule upd_file_inv [OF i(1)]) (use F(4) in \<open>simp_all add: ram_file_ok_def\<close>)
    then have t: "ram_inv ?t" by (rule touch_inv) (use F(1) in simp)
    have f: "nat ?i < length (ramdisk_files ?t)" "rf_used (rfile ?t ?i)" "rf_name (rfile ?t ?i) = n" "ram_content (rfile ?t ?i) = []" "ram_room ?t"
      using F i(2) by (simp_all add: ram_content_def ram_room_def ramdisk_alloc_handle_def)
    have "ramdisk_open (Some rel) (VFS_O_WRONLY OR VFS_O_CREAT OR VFS_O_TRUNC) s = new_handle 14 ?i ?t" using False n(1) by (simp add: ramdisk_open_def Let_def)
    then show ?thesis using new_handle_session [OF t f(5) k f(1,2), of rel 14] n(1) f(3,4) by simp
  qed
qed

lemma ram_open_read:
  assumes "ram_stored rel c s"
  shows "\<exists>h w. ramdisk_open (Some rel) VFS_O_RDONLY s = (h, w) \<and> 0 \<le> h \<and> ram_session 1 h rel c 0 w"
proof -
  obtain i where s: "ram_inv s" "ram_room s" "i < RAMDISK_MAX_FILES" "rf_used (ramdisk_files s ! i)"
    "ramdisk_extract_name (Some rel) = Some (rf_name (ramdisk_files s ! i))" "ram_content (ramdisk_files s ! i) = c" using assms by (auto simp: ram_stored_def)
  note k = found_unique [OF s(1,3,4)]
  have "ramdisk_open (Some rel) VFS_O_RDONLY s = new_handle 1 (int i) s" using k s(5) by (simp add: ramdisk_open_def)
  then show ?thesis using new_handle_session [OF s(1,2), of "int i" rel 1] s(3-6) ram_invD(1) [OF s(1)] by simp
qed

lemma ram_close_session:
  assumes "ram_session fl h rel c p s"
  shows "\<exists>r w. ramdisk_close h s = (r, w) \<and> ram_stored rel c w"
proof -
  note S = assms [unfolded ram_session_def]
  have ok: "ram_handle_ok h s" and inv: "ram_inv s" using S by simp_all
  note H = handle_file [OF inv ok]
  define w where "w = snd (ramdisk_close h s)"
  have c: "ramdisk_close h s = (VFS_OK, w)" "ramdisk_files w = ramdisk_files s" "ramdisk_handles w = (ramdisk_handles s)[nat h := \<lparr>rh_used = False, rh_entry_idx = -1, rh_pos = 0, rh_flags = 0\<rparr>]"
    using ok by (simp_all add: w_def ramdisk_close_def upd_handle_def)
  have "ram_inv w" using ramdisk_close_inv [OF inv, of h] by (simp add: w_def)
  moreover have "ram_room w" using find_slot_exists [of "nat h" "ramdisk_handles w" "\<lambda>h. \<not> rh_used h"] H(6) c(3)
    by (auto simp: ram_room_def ramdisk_alloc_handle_def slot_index_def)
  ultimately have "ram_stored rel c w" using S H ram_invD(1) [OF inv] c(2) by (auto simp: ram_stored_def intro!: exI [of _ "nat (rh_entry_idx (rhandle s h))"])
  then show ?thesis using c(1) by blast
qed

lemma ram_write_session:
  assumes "ram_session 14 h rel c (length c) s" "bs \<noteq> []" "length c + length bs \<le> RAMDISK_FILE_CAPACITY"
  shows "\<exists>w. ramdisk_write h (Some bs) s = (int (length bs), w) \<and> ram_session 14 h rel (c @ bs) (length (c @ bs)) w"
proof -
  note S = assms(1) [unfolded ram_session_def]
  have ok: "ram_handle_ok h s" and inv: "ram_inv s" using S by simp_all
  note H = handle_file [OF inv ok]
  let ?e = "rh_entry_idx (rhandle s h)"
  obtain r w where w: "ramdisk_write h (Some bs) s = (r, w)" by fastforce
  have "0 < length bs" using assms(2) by simp
  then have p: "length c = unat (rh_pos (rhandle s h))" "length c < RAMDISK_FILE_CAPACITY" using S assms(3) by linarith+
  have b: "bs = take (RAMDISK_FILE_CAPACITY - length c) bs" using assms(3) by simp
  have fl: "rh_flags (rhandle s h) AND VFS_O_WRONLY \<noteq> 0 \<or> rh_flags (rhandle s h) AND VFS_O_RDWR = VFS_O_RDWR" using S by simp
  note W = ramdisk_write_result [OF inv ok fl refl p b w]
  have h1: "rhandle w h = (rhandle s h)\<lparr>rh_pos := of_nat (length c + length bs)\<rparr>" using H(6) W(2) by simp
  have iw: "ram_inv w" using ramdisk_write_inv [OF inv, of h "Some bs"] w by simp
  have sz: "unat (rf_size (rfile s ?e)) = length c" "take (length c) (rf_data (rfile s ?e)) = c" "length (rf_data (rfile s ?e)) = RAMDISK_FILE_CAPACITY"
  proof -
    have "ram_file_ok (rfile s ?e)" "ram_content (rfile s ?e) = c" using H(3) S by simp_all
    then show "unat (rf_size (rfile s ?e)) = length c" "take (length c) (rf_data (rfile s ?e)) = c" "length (rf_data (rfile s ?e)) = RAMDISK_FILE_CAPACITY"
      by (auto simp: ram_content_def ram_file_ok_def)
  qed
  have "ram_content (rfile w ?e) = c @ bs"
  proof (rule nth_equalityI)
    show "length (ram_content (rfile w ?e)) = length (c @ bs)" using W(3,4) sz assms(3) by (simp add: ram_content_def)
    fix i assume "i < length (ram_content (rfile w ?e))"
    then have i: "i < length c + length bs" using W(3,4) sz assms(3) by (simp add: ram_content_def)
    have "rf_data (rfile s ?e) ! i = c ! i" if "i < length c" using sz(2) that by (metis nth_take)
    then show "ram_content (rfile w ?e) ! i = (c @ bs) ! i"
      using W(3,4) sz(1,3) assms(3) i poke_nth [of "length c" bs "rf_data (rfile s ?e)" i] by (auto simp: ram_content_def nth_append)
  qed
  moreover have "unat (of_nat (length c + length bs) :: u32) = length c + length bs" using assms(3) by (subst unat_of_nat) simp
  ultimately have "ram_session 14 h rel (c @ bs) (length (c @ bs)) w"
    using S iw h1 W(6) unfolding ram_session_def ram_handle_ok_def by simp
  then show ?thesis using w W(1) by blast
qed

lemma ram_read_session:
  assumes "ram_session 1 h rel c p s" "m = min (unat n) (length c - p)"
  shows "\<exists>w. ramdisk_read h True n s = ((int m, take (unat n) (drop p c)), w) \<and> ram_session 1 h rel c (p + m) w"
proof -
  note S = assms(1) [unfolded ram_session_def]
  have ok: "ram_handle_ok h s" and inv: "ram_inv s" and p: "p = unat (rh_pos (rhandle s h))" using S by simp_all
  note H = handle_file [OF inv ok]
  let ?f = "rfile s (rh_entry_idx (rhandle s h))" and ?bs = "take (unat n) (drop p c)"
  have l: "length ?bs = m" using assms(2) by (simp add: min.commute)
  define w where "w = upd_handle h (\<lambda>h. h\<lparr>rh_pos := rh_pos h + of_nat (length ?bs)\<rparr>) s"
  have r: "ramdisk_read h True n s = ((int (length ?bs), ?bs), w)"
    unfolding w_def by (rule ramdisk_read_content [OF inv ok _ refl p]) (use S in simp_all)
  have h1: "rhandle w h = (rhandle s h)\<lparr>rh_pos := rh_pos (rhandle s h) + of_nat m\<rparr>" "ramdisk_files w = ramdisk_files s"
    using H(6) l by (simp_all add: w_def upd_handle_def)
  have c: "length c \<le> RAMDISK_FILE_CAPACITY" using S H(3) by (auto simp: ram_content_def ram_file_ok_def)
  have "p + m \<le> length c" using assms(2) S by linarith
  moreover have "unat (rh_pos (rhandle s h) + of_nat m) = p + m"
    using p calculation c by (subst unat_add_small) (simp_all add: unat_of_nat)
  moreover have "ram_inv w" using ramdisk_read_inv [OF inv, of h True n] r by simp
  ultimately have "ram_session 1 h rel c (p + m) w" using S h1 unfolding ram_session_def ram_handle_ok_def by simp
  then show ?thesis using r l by auto
qed

end
