(* ===== verification/VfsKernel.thy ===== *)
theory VfsKernel
  imports VfsFiles TfsCorrect RamdiskFiles
begin

text \<open>
  The backends of \<open>src/kernel/vfs.c\<close> behind the descriptor layer: the tables of function pointers, \<open>vfs_pipe\<close>, and what the layers guarantee together. The
  operations of ext2 are an argument.
\<close>

record ('c, 'e) kworld =
  kw_tfs :: "'c tfs"
  kw_ram :: ramdisk
  kw_pipes :: pipes
  kw_ext2 :: 'e

definition on_tfs :: "('c tfs \<Rightarrow> 'r \<times> 'c tfs) \<Rightarrow> ('c, 'e) kworld \<Rightarrow> 'r \<times> ('c, 'e) kworld" where
  "on_tfs f w = (let (r, t) = f (kw_tfs w) in (r, w\<lparr>kw_tfs := t\<rparr>))"

definition on_ram :: "(ramdisk \<Rightarrow> 'r \<times> ramdisk) \<Rightarrow> ('c, 'e) kworld \<Rightarrow> 'r \<times> ('c, 'e) kworld" where
  "on_ram f w = (let (r, t) = f (kw_ram w) in (r, w\<lparr>kw_ram := t\<rparr>))"

definition on_pipes :: "(pipes \<Rightarrow> 'r \<times> pipes) \<Rightarrow> ('c, 'e) kworld \<Rightarrow> 'r \<times> ('c, 'e) kworld" where
  "on_pipes f w = (let (r, t) = f (kw_pipes w) in (r, w\<lparr>kw_pipes := t\<rparr>))"

section \<open>The tables of operations\<close>

definition tfs_backend_ops :: "'c disk_if \<Rightarrow> sector \<Rightarrow> ('c, 'e) kworld vfs_ops" where
  "tfs_backend_ops dk junk = \<lparr>op_open = Some (\<lambda>p fl. on_tfs (tfs_open dk p fl)), op_read = Some (\<lambda>h b n. on_tfs (tfs_read dk junk h b n)),
     op_write = Some (\<lambda>h buf. on_tfs (tfs_write dk junk h buf)), op_close = Some (\<lambda>h. on_tfs (tfs_close h)),
     op_delete = Some (\<lambda>p. on_tfs (tfs_delete dk p)), op_lseek = Some (\<lambda>h off wh. on_tfs (tfs_lseek h off wh)),
     op_stat = Some (\<lambda>p. on_tfs (tfs_stat dk p)), op_rename = Some (\<lambda>p q. on_tfs (tfs_rename dk p q)),
     op_mkdir = Some (\<lambda>p m w. (VFS_ERR_INVALID_ARG, w)), op_rmdir = Some (\<lambda>p w. (VFS_ERR_INVALID_ARG, w)),
     op_truncate = Some (\<lambda>p n. on_tfs (tfs_truncate dk p n)), op_ftruncate = Some (\<lambda>h n. on_tfs (tfs_ftruncate dk h n)),
     op_chmod = Some (\<lambda>p m w. (VFS_ERR_PERM, w)), op_chown = Some (\<lambda>p u g w. (VFS_ERR_PERM, w)), op_link = Some (\<lambda>p q w. (VFS_ERR_INVALID_ARG, w)),
     op_symlink = Some (\<lambda>p q w. (VFS_ERR_INVALID_ARG, w)), op_readlink = Some (\<lambda>p n w. ((VFS_ERR_INVALID_ARG, []), w))\<rparr>"

definition ramdisk_backend_ops :: "('c, 'e) kworld vfs_ops" where
  "ramdisk_backend_ops = \<lparr>op_open = Some (\<lambda>p fl. on_ram (ramdisk_open (Some p) fl)), op_read = Some (\<lambda>h b n. on_ram (ramdisk_read h b n)),
     op_write = Some (\<lambda>h buf. on_ram (ramdisk_write h buf)), op_close = Some (\<lambda>h. on_ram (ramdisk_close h)),
     op_delete = Some (\<lambda>p. on_ram (ramdisk_delete (Some p))), op_lseek = Some (\<lambda>h off wh. on_ram (ramdisk_lseek h off wh)),
     op_stat = Some (\<lambda>p. on_ram (\<lambda>s. (ramdisk_stat (Some p) True s, s))), op_rename = Some (\<lambda>p q. on_ram (ramdisk_rename (Some p) (Some q))),
     op_mkdir = Some (\<lambda>p m w. (VFS_ERR_INVALID_ARG, w)), op_rmdir = Some (\<lambda>p w. (VFS_ERR_INVALID_ARG, w)),
     op_truncate = Some (\<lambda>p n. on_ram (ramdisk_truncate (Some p) n)), op_ftruncate = Some (\<lambda>h n. on_ram (ramdisk_ftruncate h n)),
     op_chmod = Some (\<lambda>p m w. (VFS_OK, w)), op_chown = Some (\<lambda>p u g w. (VFS_OK, w)), op_link = Some (\<lambda>p q w. (VFS_ERR_INVALID_ARG, w)),
     op_symlink = Some (\<lambda>p q w. (VFS_ERR_INVALID_ARG, w)), op_readlink = Some (\<lambda>p n w. ((VFS_ERR_INVALID_ARG, []), w))\<rparr>"

definition pipe_backend_ops :: "('c, 'e) kworld vfs_ops" where
  "pipe_backend_ops = \<lparr>op_open = None, op_read = Some (\<lambda>h b n. on_pipes (pipe_read_backend h b n)),
     op_write = Some (\<lambda>h buf. on_pipes (pipe_write_backend h buf)), op_close = Some (\<lambda>h. on_pipes (pipe_close_backend h)),
     op_delete = Some (\<lambda>p w. (VFS_ERR_PERM, w)), op_lseek = Some (\<lambda>h off wh w. (VFS_ERR_INVALID_ARG, w)),
     op_stat = Some (\<lambda>p w. ((VFS_ERR_INVALID_ARG, None), w)), op_rename = Some (\<lambda>p q w. (VFS_ERR_PERM, w)),
     op_mkdir = Some (\<lambda>p m w. (VFS_ERR_PERM, w)), op_rmdir = Some (\<lambda>p w. (VFS_ERR_PERM, w)),
     op_truncate = Some (\<lambda>p n w. (VFS_ERR_PERM, w)), op_ftruncate = Some (\<lambda>h n w. (VFS_ERR_PERM, w)),
     op_chmod = Some (\<lambda>p m w. (VFS_ERR_PERM, w)), op_chown = Some (\<lambda>p u g w. (VFS_ERR_PERM, w)), op_link = Some (\<lambda>p q w. (VFS_ERR_PERM, w)),
     op_symlink = Some (\<lambda>p q w. (VFS_ERR_PERM, w)), op_readlink = Some (\<lambda>p n w. ((VFS_ERR_PERM, []), w))\<rparr>"

primrec kernel_ops :: "'c disk_if \<Rightarrow> sector \<Rightarrow> ('c, 'e) kworld vfs_ops \<Rightarrow> backend \<Rightarrow> ('c, 'e) kworld vfs_ops" where
  "kernel_ops dk junk ext2_ops TFS = tfs_backend_ops dk junk"
| "kernel_ops dk junk ext2_ops RAMDISK = ramdisk_backend_ops"
| "kernel_ops dk junk ext2_ops PIPE = pipe_backend_ops"
| "kernel_ops dk junk ext2_ops EXT2 = ext2_ops"

definition kworld_init :: "('c, 'e) kworld \<Rightarrow> ('c, 'e) kworld" where
  "kworld_init w = w\<lparr>kw_tfs := tfs_init (kw_tfs w), kw_ram := ramdisk_init (kw_ram w), kw_pipes := pipes_init (kw_pipes w)\<rparr>"

section \<open>Creating a pipe\<close>

definition vfs_pipe :: "bool \<Rightarrow> ('c, 'e) kworld vfs \<Rightarrow> (int \<times> (int \<times> int) option) \<times> ('c, 'e) kworld vfs" where
  "vfs_pipe has_out s =
     (if \<not> has_out then ((VFS_ERR_INVALID_ARG, None), s)
      else let task_id = current_task_id s; (pipe_idx, s1) = on_world (on_pipes vfs_pipe_alloc_slot) s in
        if pipe_idx < 0 then ((VFS_ERR_NO_SPACE, None), s1)
        else let (read_handle, s2) = on_world (on_pipes (vfs_pipe_handle_alloc pipe_idx False)) s1;
                 (write_handle, s3) = on_world (on_pipes (vfs_pipe_handle_alloc pipe_idx True)) s2 in
          if read_handle < 0 \<or> write_handle < 0
          then let s4 = (if read_handle \<ge> 0 then snd (on_world (on_pipes (pipe_close_backend read_handle)) s3) else s3);
                   s5 = (if write_handle \<ge> 0 then snd (on_world (on_pipes (pipe_close_backend write_handle)) s4) else s4)
               in ((VFS_ERR_NO_SPACE, None), snd (on_world (on_pipes (\<lambda>p. ((), upd_pipe (nat pipe_idx) (\<lambda>q. q\<lparr>vp_used := False\<rparr>) p))) s5))
          else let read_gfd = alloc_global_fd s3; s4 = (if read_gfd \<ge> 0 then upd_gfd read_gfd (\<lambda>f. f\<lparr>fd_used := True\<rparr>) s3 else s3);
                   write_gfd = alloc_global_fd s4; s5 = (if write_gfd \<ge> 0 then upd_gfd write_gfd (\<lambda>f. f\<lparr>fd_used := True\<rparr>) s4 else s4);
                   read_lfd = alloc_task_fd task_id s5; s6 = (if read_lfd \<ge> 0 then set_fd_map task_id (nat read_lfd) (-2) s5 else s5);
                   write_lfd = alloc_task_fd task_id s6 in
            if read_gfd < 0 \<or> write_gfd < 0 \<or> read_lfd < 0 \<or> write_lfd < 0 \<or> read_lfd = write_lfd
            then let s7 = (if read_gfd \<ge> 0 then upd_gfd read_gfd (\<lambda>f. f\<lparr>fd_used := False\<rparr>) s6 else s6);
                     s8 = (if write_gfd \<ge> 0 then upd_gfd write_gfd (\<lambda>f. f\<lparr>fd_used := False\<rparr>) s7 else s7);
                     s9 = (if read_lfd \<ge> 0 \<and> task_fd_map s8 ! task_id ! nat read_lfd = -2 then set_fd_map task_id (nat read_lfd) (-1) s8 else s8);
                     s10 = snd (on_world (on_pipes (pipe_close_backend read_handle)) s9)
                 in ((VFS_ERR_NO_SPACE, None), snd (on_world (on_pipes (pipe_close_backend write_handle)) s10))
            else let s7 = upd_gfd read_gfd (\<lambda>_. \<lparr>fd_used = True, fd_ops = Some PIPE, fd_backend_handle = read_handle, fd_flags = VFS_O_RDONLY, fd_ref_count = 1\<rparr>) s6;
                     s8 = upd_gfd write_gfd (\<lambda>_. \<lparr>fd_used = True, fd_ops = Some PIPE, fd_backend_handle = write_handle, fd_flags = VFS_O_WRONLY, fd_ref_count = 1\<rparr>) s7
                 in ((VFS_OK, Some (read_lfd, write_lfd)), set_fd_map task_id (nat write_lfd) write_gfd (set_fd_map task_id (nat read_lfd) read_gfd s8)))"

text \<open>A slot marked \<open>-2\<close> still counts as free: it is found again.\<close>

lemma realloc_same:
  assumes "t < length (task_fd_map s)" "0 \<le> alloc_task_fd t s"
  shows "alloc_task_fd t (set_fd_map t (nat (alloc_task_fd t s)) (-2) s) = alloc_task_fd t s"
proof -
  let ?l = "alloc_task_fd t s"
  have f: "find_slot (\<lambda>g. g < 0) (task_fd_map s ! t) = Some (nat ?l)" using assms(2) unfolding alloc_task_fd_def by (rule slot_index_Some)
  have "find_slot (\<lambda>g. g < 0) ((task_fd_map s ! t)[nat ?l := -2]) = Some (nat ?l)"
    by (rule find_slot_SomeI) (use find_slot_SomeD [OF f] in simp_all)
  then have "alloc_task_fd t (set_fd_map t (nat ?l) (-2) s) = int (nat ?l)"
    using assms(1) by (simp add: alloc_task_fd_def set_fd_map_def slot_index_def)
  then show ?thesis using assms(2) by simp
qed

lemma reserve_release:
  assumes "rg = alloc_global_fd s" "s4 = (if rg \<ge> 0 then upd_gfd rg (\<lambda>f. f\<lparr>fd_used := True\<rparr>) s else s)" "wg = alloc_global_fd s4"
    and "s5 = (if wg \<ge> 0 then upd_gfd wg (\<lambda>f. f\<lparr>fd_used := True\<rparr>) s4 else s4)" "fd_table s6 = fd_table s5"
    and "s7 = (if rg \<ge> 0 then upd_gfd rg (\<lambda>f. f\<lparr>fd_used := False\<rparr>) s6 else s6)" "s8 = (if wg \<ge> 0 then upd_gfd wg (\<lambda>f. f\<lparr>fd_used := False\<rparr>) s7 else s7)"
  shows "fd_table s8 = fd_table s"
proof (cases "0 \<le> rg")
  case True
  have r: "nat rg < length (fd_table s)" "\<not> fd_used (gfd_of s rg)"
    using find_slot_SomeD [OF slot_index_Some [of "\<lambda>f. \<not> fd_used f" "fd_table s"]] True assms(1) unfolding alloc_global_fd_def by auto
  have t4: "fd_table s4 = (fd_table s)[nat rg := (gfd_of s rg)\<lparr>fd_used := True\<rparr>]" using True assms(2) by (simp add: upd_gfd_def)
  show ?thesis
  proof (cases "0 \<le> wg")
    case w: True
    have w4: "nat wg < length (fd_table s4)" "\<not> fd_used (gfd_of s4 wg)"
      using find_slot_SomeD [OF slot_index_Some [of "\<lambda>f. \<not> fd_used f" "fd_table s4"]] w assms(3) unfolding alloc_global_fd_def by auto
    then have ne: "nat wg \<noteq> nat rg" using r t4 by auto
    then have "gfd_of s4 wg = gfd_of s wg" using t4 by simp
    then show ?thesis using True w r w4 ne t4 assms(4-7) by (auto simp: upd_gfd_def list_eq_iff_nth_eq nth_list_update)
  next
    case False
    then show ?thesis using True r t4 assms(4-7) by (auto simp: upd_gfd_def list_eq_iff_nth_eq nth_list_update)
  qed
next
  case False
  then have "s4 = s" "wg = rg" using assms(1-3) by simp_all
  then show ?thesis using False assms(4-7) by simp
qed

text \<open>
  C39. \<open>vfs_pipe\<close> never creates a pipe: it marks the descriptor for the read end with \<open>-2\<close>, which the search for the write end takes for a free slot, so both
  ends get the same descriptor and the call gives up. The descriptor tables are left as they were.
\<close>

theorem vfs_pipe_never_succeeds:
  assumes "vfs_inv s"
  shows "fst (fst (vfs_pipe has_out s)) \<in> {VFS_ERR_INVALID_ARG, VFS_ERR_NO_SPACE} \<and>
    fd_table (snd (vfs_pipe has_out s)) = fd_table s \<and> task_fd_map (snd (vfs_pipe has_out s)) = task_fd_map s"
proof (cases has_out)
  case True
  let ?t = "current_task_id s"
  obtain pipe_idx s1 where 1: "on_world (on_pipes vfs_pipe_alloc_slot) s = (pipe_idx, s1)" by fastforce
  obtain rh s2 where 2: "on_world (on_pipes (vfs_pipe_handle_alloc pipe_idx False)) s1 = (rh, s2)" by fastforce
  obtain wh s3 where 3: "on_world (on_pipes (vfs_pipe_handle_alloc pipe_idx True)) s2 = (wh, s3)" by fastforce
  have same: "fd_table s1 = fd_table s" "task_fd_map s1 = task_fd_map s" "fd_table s3 = fd_table s" "task_fd_map s3 = task_fd_map s"
    using on_world_simps(1,2) [of "on_pipes vfs_pipe_alloc_slot" s] on_world_simps(1,2) [of "on_pipes (vfs_pipe_handle_alloc pipe_idx False)" s1]
      on_world_simps(1,2) [of "on_pipes (vfs_pipe_handle_alloc pipe_idx True)" s2] 1 2 3 by simp_all
  define rg where "rg = alloc_global_fd s3"
  define s4 where "s4 = (if rg \<ge> 0 then upd_gfd rg (\<lambda>f. f\<lparr>fd_used := True\<rparr>) s3 else s3)"
  define wg where "wg = alloc_global_fd s4"
  define s5 where "s5 = (if wg \<ge> 0 then upd_gfd wg (\<lambda>f. f\<lparr>fd_used := True\<rparr>) s4 else s4)"
  define rl where "rl = alloc_task_fd ?t s5"
  define s6 where "s6 = (if rl \<ge> 0 then set_fd_map ?t (nat rl) (-2) s5 else s5)"
  define wl where "wl = alloc_task_fd ?t s6"
  define s7 where "s7 = (if rg \<ge> 0 then upd_gfd rg (\<lambda>f. f\<lparr>fd_used := False\<rparr>) s6 else s6)"
  define s8 where "s8 = (if wg \<ge> 0 then upd_gfd wg (\<lambda>f. f\<lparr>fd_used := False\<rparr>) s7 else s7)"
  define s9 where "s9 = (if rl \<ge> 0 \<and> task_fd_map s8 ! ?t ! nat rl = -2 then set_fd_map ?t (nat rl) (-1) s8 else s8)"
  have inv: "fd_inv s" using assms by (simp add: vfs_inv_def)
  note R = fd_row [OF inv current_task_less [of s]]
  have m5: "task_fd_map s5 = task_fd_map s" using same(4) by (simp add: s5_def s4_def)
  have rl: "rl = alloc_task_fd ?t s" using m5 by (simp add: rl_def alloc_task_fd_def)
  have eq: "rl < 0 \<or> rl = wl" using realloc_same [of ?t s5] R(1) m5 by (auto simp: wl_def s6_def rl_def)
  have tab: "fd_table s8 = fd_table s" using reserve_release [OF rg_def s4_def wg_def s5_def _ s7_def s8_def] same(3) by (simp add: s6_def)
  have m9: "task_fd_map s9 = task_fd_map s"
  proof (cases "0 \<le> rl")
    case True
    have m8: "task_fd_map s8 = (task_fd_map s)[?t := (task_fd_map s ! ?t)[nat rl := -2]]"
      using True m5 by (simp add: s8_def s7_def s6_def) (simp add: set_fd_map_def)
    note L = alloc_task_fd_slot [OF inv current_task_less [of s], folded rl, OF True]
    have "(task_fd_map s ! ?t)[nat rl := -1] = task_fd_map s ! ?t" using L(2) list_update_id [of "task_fd_map s ! ?t" "nat rl"] by simp
    then show ?thesis using m8 R(1,2) L(1) True by (simp add: s9_def set_fd_map_def)
  next
    case False
    then show ?thesis using m5 by (simp add: s9_def s8_def s7_def s6_def)
  qed
  have t9: "fd_table s9 = fd_table s" using tab by (simp add: s9_def)
  have v: "vfs_pipe has_out s = (if pipe_idx < 0 then ((VFS_ERR_NO_SPACE, None), s1) else if rh < 0 \<or> wh < 0
      then let s4 = (if rh \<ge> 0 then snd (on_world (on_pipes (pipe_close_backend rh)) s3) else s3);
               s5 = (if wh \<ge> 0 then snd (on_world (on_pipes (pipe_close_backend wh)) s4) else s4)
           in ((VFS_ERR_NO_SPACE, None), snd (on_world (on_pipes (\<lambda>p. ((), upd_pipe (nat pipe_idx) (\<lambda>q. q\<lparr>vp_used := False\<rparr>) p))) s5))
      else ((VFS_ERR_NO_SPACE, None), snd (on_world (on_pipes (pipe_close_backend wh)) (snd (on_world (on_pipes (pipe_close_backend rh)) s9)))))"
    using True eq unfolding vfs_pipe_def Let_def 1 2 3 prod.case rg_def [symmetric] s4_def [symmetric] wg_def [symmetric] s5_def [symmetric]
      rl_def [symmetric] s6_def [symmetric] wl_def [symmetric] s7_def [symmetric] s8_def [symmetric] s9_def [symmetric] by auto
  show ?thesis unfolding v Let_def using same t9 m9 by simp
qed (simp add: vfs_pipe_def)

section \<open>Files of the memory file system through the descriptor layer\<close>

lemma on_ram_eq [simp]: "f (kw_ram w) = (r, t) \<Longrightarrow> on_ram f w = (r, w\<lparr>kw_ram := t\<rparr>)"
  by (simp add: on_ram_def)

interpretation ramfs: file_backend "kernel_ops dk junk ext2_ops" RAMDISK "\<lambda>p fl. on_ram (ramdisk_open (Some p) fl)" "\<lambda>h b n. on_ram (ramdisk_read h b n)"
  "\<lambda>h buf. on_ram (ramdisk_write h buf)" "\<lambda>h. on_ram (ramdisk_close h)" "\<lambda>rel w. ram_ready rel (kw_ram w)"
  "\<lambda>h rel c w. ram_session 14 h rel c (length c) (kw_ram w)" "\<lambda>rel c w. ram_stored rel c (kw_ram w)" "\<lambda>h rel c p w. ram_session 1 h rel c p (kw_ram w)"
  RAMDISK_FILE_CAPACITY for dk junk ext2_ops
proof
  show "\<exists>h w'. on_ram (ramdisk_open (Some rel) (VFS_O_WRONLY OR VFS_O_CREAT OR VFS_O_TRUNC)) w = (h, w') \<and> 0 \<le> h \<and> ram_session 14 h rel [] (length []) (kw_ram w')"
    if "ram_ready rel (kw_ram w)" for rel and w :: "('c, 'e) kworld" using ram_open_write [OF that] by (force simp: on_ram_def)
  show "\<exists>w'. on_ram (ramdisk_write h (Some bs)) w = (int (length bs), w') \<and> ram_session 14 h rel (c @ bs) (length (c @ bs)) (kw_ram w')"
    if "ram_session 14 h rel c (length c) (kw_ram w)" "bs \<noteq> []" "length c + length bs \<le> RAMDISK_FILE_CAPACITY" for h rel c bs and w :: "('c, 'e) kworld"
    using ram_write_session [OF that] by (force simp: on_ram_def)
  show "\<exists>r w'. on_ram (ramdisk_close h) w = (r, w') \<and> ram_stored rel c (kw_ram w')"
    if "ram_session 14 h rel c (length c) (kw_ram w)" for h rel c and w :: "('c, 'e) kworld" using ram_close_session [OF that] by (force simp: on_ram_def)
  show "\<exists>h w'. on_ram (ramdisk_open (Some rel) VFS_O_RDONLY) w = (h, w') \<and> 0 \<le> h \<and> ram_session VFS_O_RDONLY h rel c 0 (kw_ram w')"
    if "ram_stored rel c (kw_ram w)" for rel c and w :: "('c, 'e) kworld" using ram_open_read [OF that] by (force simp: on_ram_def)
  show "\<exists>w'. on_ram (ramdisk_read h True n) w = ((int (min (unat n) (length c - p)), take (unat n) (drop p c)), w') \<and>
      ram_session VFS_O_RDONLY h rel c (p + min (unat n) (length c - p)) (kw_ram w')"
    if "ram_session VFS_O_RDONLY h rel c p (kw_ram w)" for h rel c p n and w :: "('c, 'e) kworld"
    using ram_read_session [OF that refl, of n] by (force simp: on_ram_def)
  show "\<exists>r w'. on_ram (ramdisk_close h) w = (r, w') \<and> ram_stored rel c (kw_ram w')"
    if "ram_session VFS_O_RDONLY h rel c p (kw_ram w)" for h rel c p and w :: "('c, 'e) kworld" using ram_close_session [OF that] by (force simp: on_ram_def)
qed (simp_all add: ramdisk_backend_ops_def)

lemma resolve_mount_cong: "mounts s' = mounts s \<Longrightarrow> resolve_mount p s' = resolve_mount p s"
  unfolding resolve_mount_def by (simp only:)

text \<open>Writing a file below a mount of the memory file system and reading it back.\<close>

lemma ram_file_roundtrip:
  assumes "reach vfs_boot (vfs_step ops) s" "ops = kernel_ops dk junk ext2_ops" "fd_room s" "resolve_mount path s = Some (Some RAMDISK, rel)" "path \<noteq> []"
    and "ram_ready rel (kw_ram (world s))" "length buf \<le> RAMDISK_FILE_CAPACITY" "length buf \<le> unat n"
  shows "\<exists>s1 s2. vfs_write_file ops (Some path) buf s = Some (int (length buf), s1) \<and>
    vfs_read_file ops (Some path) True n s1 = Some ((int (length buf), buf), s2)"
proof -
  have inv: "fd_inv s" using vfs.reach_inv [OF assms(1)] by (simp add: vfs_inv_def)
  obtain s1 where w: "vfs_write_file ops (Some path) buf s = Some (int (length buf), s1)" "ram_stored rel buf (kw_ram (world s1))" "mounts s1 = mounts s"
    "fd_inv s1" "fd_room s1" using ramfs.write_file [OF inv assms(3-7)] assms(2) by blast
  have "resolve_mount path s1 = Some (Some RAMDISK, rel)" using resolve_mount_cong [OF w(3)] assms(4) by simp
  from ramfs.read_file [OF w(4,5) this assms(5) w(2) assms(7,8)] w(1) show ?thesis using assms(2) by blast
qed

text \<open>
  C16. Through the whole stack: writing a file of at most 8192 bytes below a mount of the memory file system returns its length, and reading it back, with a buffer
  large enough, returns the same bytes; both loops end. Any state that the kernel can reach will do, as long as the tables have room.
\<close>

theorem vfs_file_roundtrip:
  assumes "reach vfs_boot (vfs_step ops) s" "ops = kernel_ops dk junk ext2_ops" "fd_room s" "resolve_mount path s = Some (Some RAMDISK, rel)" "path \<noteq> []"
    and "ram_ready rel (kw_ram (world s))" "length buf \<le> RAMDISK_FILE_CAPACITY" "length buf \<le> unat n"
  shows "\<exists>s1 s2. vfs_write_file ops (Some path) buf s = Some (int (length buf), s1) \<and>
    vfs_read_file ops (Some path) True n s1 = Some ((int (length buf), buf), s2)"
  by (rule ram_file_roundtrip [OF assms])

section \<open>A small system\<close>

definition no_ops :: "'w vfs_ops" where
  "no_ops = \<lparr>op_open = None, op_read = None, op_write = None, op_close = None, op_delete = None, op_lseek = None, op_stat = None, op_rename = None, op_mkdir = None,
     op_rmdir = None, op_truncate = None, op_ftruncate = None, op_chmod = None, op_chown = None, op_link = None, op_symlink = None, op_readlink = None\<rparr>"

definition kvfs_blank :: "(ata_dev disk pcache, unit) kworld vfs" where
  "kvfs_blank = \<lparr>mounts = replicate VFS_MAX_MOUNTS \<lparr>mt_used = False, mt_path = [], mt_len = 0, mt_ops = None\<rparr>, fd_table = replicate VFS_MAX_GLOBAL_FDS free_fd,
     task_fd_map = replicate VFS_MAX_TASKS (replicate TASK_MAX_FDS (-1)), vfs_task = 0,
     world = \<lparr>kw_tfs = tfs_one 0, kw_ram = ram0, kw_pipes = pipe_pair, kw_ext2 = ()\<rparr>\<rparr>"

definition kvfs_ram :: "(ata_dev disk pcache, unit) kworld vfs" where
  "kvfs_ram = snd (vfs_mount (Some ''/ram'') (Some RAMDISK) (vfs_init (\<lambda>w. w) kvfs_blank))"

lemma kvfs_boot_reach: "reach vfs_boot (vfs_step ops) (vfs_init (\<lambda>w. w) kvfs_blank)"
proof (rule reach_init)
  show "vfs_boot (vfs_init (\<lambda>w. w) kvfs_blank)" unfolding vfs_boot_def by (rule exI [of _ kvfs_blank], rule exI [of _ "\<lambda>w. w"]) (simp add: kvfs_blank_def list_all_iff)
qed

lemma kvfs_ram_reach: "reach vfs_boot (vfs_step ops) kvfs_ram"
  by (rule reach_step [OF kvfs_boot_reach]) (unfold kvfs_ram_def, rule vfs_step_mount)

lemma replicate_8: "replicate 8 x = [x, x, x, x, x, x, x, x]"
  by (simp add: numeral_eq_Suc)

abbreviation no_mount :: vfs_mnt where
  "no_mount \<equiv> \<lparr>mt_used = False, mt_path = [], mt_len = 0, mt_ops = None\<rparr>"

lemma kvfs_boot_state:
  "vfs_init (\<lambda>w. w) kvfs_blank = kvfs_blank\<lparr>mounts := [\<lparr>mt_used = True, mt_path = ''/'', mt_len = 1, mt_ops = Some TFS\<rparr>, no_mount, no_mount, no_mount, no_mount,
     no_mount, no_mount, no_mount]\<rparr>"
  by (simp add: vfs_init_def vfs_mount_def kvfs_blank_def replicate_8 upd_mount_def Let_def)

lemma kvfs_ram_state:
  "kvfs_ram = kvfs_blank\<lparr>mounts := [\<lparr>mt_used = True, mt_path = ''/'', mt_len = 1, mt_ops = Some TFS\<rparr>, \<lparr>mt_used = True, mt_path = ''/ram'', mt_len = 4, mt_ops = Some RAMDISK\<rparr>,
     no_mount, no_mount, no_mount, no_mount, no_mount, no_mount]\<rparr>"
  by (simp add: kvfs_ram_def kvfs_boot_state vfs_mount_def upd_mount_def Let_def)

lemma kvfs_ram_room: "fd_room kvfs_ram"
proof -
  have "\<exists>k. find_slot (\<lambda>f. \<not> fd_used f) (fd_table kvfs_ram) = Some k" by (rule find_slot_exists [of 0]) (simp_all add: kvfs_ram_state kvfs_blank_def)
  moreover have "\<exists>k. find_slot (\<lambda>g. g < 0) (task_fd_map kvfs_ram ! 0) = Some k" by (rule find_slot_exists [of 0]) (simp_all add: kvfs_ram_state kvfs_blank_def)
  moreover have "current_task_id kvfs_ram = 0" by (simp add: current_task_id_def kvfs_ram_state kvfs_blank_def)
  ultimately show ?thesis by (auto simp: fd_room_def alloc_global_fd_def alloc_task_fd_def slot_index_def)
qed

lemma kvfs_ram_mounts:
  "mounts kvfs_ram = [\<lparr>mt_used = True, mt_path = ''/'', mt_len = 1, mt_ops = Some TFS\<rparr>, \<lparr>mt_used = True, mt_path = ''/ram'', mt_len = 4, mt_ops = Some RAMDISK\<rparr>,
     no_mount, no_mount, no_mount, no_mount, no_mount, no_mount]"
  by (simp add: kvfs_ram_state)

lemma kvfs_ram_best: "fold (mount_step ''/ram/a'' (mounts kvfs_ram)) [0..<8] None = Some 1"
  unfolding kvfs_ram_mounts by code_simp

lemma kvfs_ram_resolve: "resolve_mount ''/ram/a'' kvfs_ram = Some (Some RAMDISK, ''/a'')"
  using kvfs_ram_best by (simp add: resolve_mount_def Let_def) (simp add: kvfs_ram_mounts)

lemma kvfs_ram_ready: "ram_ready ''/a'' (kw_ram (world kvfs_ram))"
  using ram_boot_inv [OF ram0_boot] ram0_lookups by (simp add: ram_ready_def kvfs_ram_state kvfs_blank_def ram_room_def)

abbreviation kops :: "backend \<Rightarrow> (ata_dev disk pcache, unit) kworld vfs_ops" where
  "kops \<equiv> kernel_ops dk_ata [] no_ops"

theorem vfs_file_roundtrip_witness:
  "\<exists>s1 s2. vfs_write_file kops (Some ''/ram/a'') [1, 2, 3] kvfs_ram = Some (3, s1) \<and> vfs_read_file kops (Some ''/ram/a'') True 10 s1 = Some ((3, [1, 2, 3]), s2)"
  using vfs_file_roundtrip [OF kvfs_ram_reach refl kvfs_ram_room kvfs_ram_resolve _ kvfs_ram_ready, of "[1, 2, 3]" 10] by simp

theorem vfs_pipe_never_succeeds_witness:
  "vfs_inv kvfs_ram \<and> fst (fst (vfs_pipe True kvfs_ram)) \<in> {VFS_ERR_INVALID_ARG, VFS_ERR_NO_SPACE}"
  using vfs.reach_inv [OF kvfs_ram_reach] vfs_pipe_never_succeeds [of kvfs_ram True] by blast

section \<open>Descriptors and mounts\<close>

text \<open>
  C7. Whatever the tasks do, and whatever the backends answer, every open descriptor of every task refers to an open file, and the reference count of an
  open file is the number of descriptors that refer to it: no file is released while a descriptor refers to it and none stays open without one.
\<close>

theorem vfs_fd_invariant:
  assumes "reach vfs_boot (vfs_step ops) s"
  shows "(\<forall>t < VFS_MAX_TASKS. \<forall>i < TASK_MAX_FDS. task_fd_map s ! t ! i \<ge> 0 \<longrightarrow> gfd_ok (task_fd_map s ! t ! i) s) \<and>
    (\<forall>g < VFS_MAX_GLOBAL_FDS.
       fd_ref_count (fd_table s ! g) = int (card {(t, i). t < VFS_MAX_TASKS \<and> i < TASK_MAX_FDS \<and> task_fd_map s ! t ! i = int g}) \<and>
       (fd_used (fd_table s ! g) \<longleftrightarrow> (\<exists>t < VFS_MAX_TASKS. \<exists>i < TASK_MAX_FDS. task_fd_map s ! t ! i = int g)))"
proof (intro conjI allI impI)
  have inv: "fd_inv s" using vfs.reach_inv [OF assms] by (simp add: vfs_inv_def)
  show "gfd_ok (task_fd_map s ! t ! i) s" if "t < VFS_MAX_TASKS" "i < TASK_MAX_FDS" "0 \<le> task_fd_map s ! t ! i" for t i
    by (rule open_slot(1) [OF inv that])
  fix g :: nat
  let ?S = "{(t, i). t < VFS_MAX_TASKS \<and> i < TASK_MAX_FDS \<and> task_fd_map s ! t ! i = int g}"
  assume "g < VFS_MAX_GLOBAL_FDS"
  then have w: "gfd_wf (fd_table s ! g) (int (card ?S))" using inv unfolding fd_inv_def fd_refs_card [OF inv, symmetric] by blast
  then show "fd_ref_count (fd_table s ! g) = int (card ?S)" by (simp only: gfd_wf_def)
  have "finite ?S" by (rule finite_subset [of _ "{..<VFS_MAX_TASKS} \<times> {..<TASK_MAX_FDS}"]) auto
  then have "0 < card ?S \<longleftrightarrow> ?S \<noteq> {}" using card_gt_0_iff [of ?S] by blast
  then show "fd_used (fd_table s ! g) \<longleftrightarrow> (\<exists>t < VFS_MAX_TASKS. \<exists>i < TASK_MAX_FDS. task_fd_map s ! t ! i = int g)"
    using w by (auto simp: gfd_wf_def simp del: Collect_empty_eq)
qed

text \<open>
  C26. A path resolves to the mount with the longest path that the given path lies below, component by component, and the backend gets the rest of the
  path; the root mount guarantees that there is one.
\<close>

theorem resolve_mount_longest:
  assumes "reach vfs_boot (vfs_step ops) s"
  shows "\<exists>i < VFS_MAX_MOUNTS. mount_matches path (mounts s ! i) \<and>
    (\<forall>j < VFS_MAX_MOUNTS. mount_matches path (mounts s ! j) \<longrightarrow> length (mt_path (mounts s ! j)) \<le> length (mt_path (mounts s ! i))) \<and>
    resolve_mount path s = Some (mt_ops (mounts s ! i), let p = mt_path (mounts s ! i) in if p = ''/'' then path else if path = p then ''/'' else drop (length p) path)"
proof -
  have inv: "mounts_inv s" using vfs.reach_inv [OF assms] by (simp add: vfs_inv_def)
  then have wf: "list_all mount_wf (mounts s)" and l: "VFS_MAX_MOUNTS \<le> length (mounts s)" and root: "mount_matches path (mounts s ! 0)"
    by (simp_all add: mounts_inv_def mount_matches_def)
  define best where "best = fold (mount_step path (mounts s)) [0..<VFS_MAX_MOUNTS] None"
  note M = mount_search [OF wf l best_def]
  obtain b where b: "best = Some b" using M(1) root by (cases best) auto
  note B = M(2) [OF b]
  have len: "mt_len (mounts s ! j) = length (mt_path (mounts s ! j))" if "mount_matches path (mounts s ! j)" "j < VFS_MAX_MOUNTS" for j
    using list_all_nth [OF wf, of j] that l by (auto simp: mount_wf_def mount_matches_def)
  have "resolve_mount path s = Some (mt_ops (mounts s ! b), let p = mt_path (mounts s ! b) in if p = ''/'' then path else if path = p then ''/'' else drop (length p) path)"
  proof -
    have "drop (length (mt_path (mounts s ! b))) path = [] \<longleftrightarrow> path = mt_path (mounts s ! b)" if "mt_path (mounts s ! b) \<noteq> ''/''"
      using B that by (auto simp: mount_matches_def)
    then show ?thesis using B len [of b] b unfolding resolve_mount_def best_def [symmetric] by (auto simp: Let_def)
  qed
  then show ?thesis using B len by (intro exI [of _ b]) auto
qed

theorem vfs_fd_invariant_witness:
  "fd_ref_count (fd_table (snd (vfs_open kops (Some ''/ram/a'') 7 kvfs_ram)) ! 0) =
     int (card {(t, i). t < VFS_MAX_TASKS \<and> i < TASK_MAX_FDS \<and> task_fd_map (snd (vfs_open kops (Some ''/ram/a'') 7 kvfs_ram)) ! t ! i = int 0})"
proof -
  have "reach vfs_boot (vfs_step kops) (snd (vfs_open kops (Some ''/ram/a'') 7 kvfs_ram))" by (rule reach_step [OF kvfs_ram_reach]) (rule vfs_step_open)
  from vfs_fd_invariant [OF this, THEN conjunct2, THEN spec, of 0] show ?thesis by (simp only: zero_less_numeral simp_thms)
qed

theorem resolve_mount_longest_witness:
  "\<exists>i < VFS_MAX_MOUNTS. mount_matches ''/ram/a'' (mounts kvfs_ram ! i) \<and> resolve_mount ''/ram/a'' kvfs_ram = Some (mt_ops (mounts kvfs_ram ! i),
    let p = mt_path (mounts kvfs_ram ! i) in if p = ''/'' then ''/ram/a'' else if ''/ram/a'' = p then ''/'' else drop (length p) ''/ram/a'')"
  using resolve_mount_longest [OF kvfs_ram_reach [of kops], of "''/ram/a''"] by blast

end
