(* ===== verification/TrainVfs.thy ===== *)
theory TrainVfs
  imports AiTrain VfsKernel
begin

text \<open>
  The trainer's checkpoint file on the kernel's own virtual file system (\<open>src/kernel/ai_train.c\<close> over \<open>src/kernel/vfs.c\<close>): \<open>vfs_ckpt\<close> instantiates the two file
  operations that the trainer's model takes with \<open>vfs_write_file\<close> and \<open>vfs_read_file\<close> of the model of the virtual file system. A call that does not return has
  no specified value in this instance; in the states of the result below both calls return.

  At boot the root is the tiny file system on disk; the shell's mount command can put the memory file system there, and the result is about that configuration.
\<close>

definition AI_TRAIN_CKPT_PATH :: string where
  "AI_TRAIN_CKPT_PATH = ''/ai_train.ckpt''"

definition vfs_ckpt :: "(backend \<Rightarrow> 'w vfs_ops) \<Rightarrow> 'w vfs ckpt_file" where
  "vfs_ckpt ops = \<lparr>
     cf_write = \<lambda>bs v. the (vfs_write_file ops (Some AI_TRAIN_CKPT_PATH) bs v),
     cf_read = \<lambda>n v. (case the (vfs_read_file ops (Some AI_TRAIN_CKPT_PATH) True (of_nat n) v) of ((r, bs), v') \<Rightarrow> (r, bs, v'))\<rparr>"

text \<open>
  C28. A checkpoint can be rolled back: when the trainer has saved a checkpoint of its model and then made any number of training steps, a roll back succeeds and
  restores the bias, the step counter, the learning rate and the drift limit of the checkpoint, counts one roll back, and the runtime's model has the (clamped) bias
  again. The checkpoint goes through the kernel's virtual file system: the path is on a mount of the memory file system, in any state of the virtual file system
  that its calls can reach, with a descriptor and a file entry free. The name of the model has at most 15 characters, the bytes that the stack leaves behind it in the
  checkpoint are arbitrary, and no other call comes in between.
\<close>

theorem checkpoint_rollback:
  assumes "reach vfs_boot (vfs_step ops) (t_file s)" "ops = kernel_ops dk jd ext2_ops" "fd_room (t_file s)"
    and "resolve_mount AI_TRAIN_CKPT_PATH (t_file s) = Some (Some RAMDISK, rel)" "ram_ready rel (kw_ram (world (t_file s)))"
    and "train_ready n s" "n \<noteq> []" "length n \<le> 15" "CHR 0x00 \<notin> set n" "15 \<le> length junk"
    and "to_i32 (tn_current_bias (t_train s)) = tn_current_bias (t_train s)"
    and "s1 = fold (\<lambda>k. snd \<circ> ai_train_step k) ks (snd (ai_train_checkpoint (vfs_ckpt ops) junk s))"
  shows "fst (ai_train_checkpoint (vfs_ckpt ops) junk s) \<and> (\<exists>s2. ai_train_rollback (vfs_ckpt ops) s1 = (True, s2) \<and>
    tn_current_bias (t_train s2) = tn_current_bias (t_train s) \<and> tn_total_steps (t_train s2) = tn_total_steps (t_train s) \<and>
    tn_learning_rate_ppm (t_train s2) = tn_learning_rate_ppm (t_train s) \<and> tn_max_drift (t_train s2) = tn_max_drift (t_train s) \<and>
    tn_rollbacks (t_train s2) = tn_rollbacks (t_train s1) + 1 \<and>
    ai_runtime_get_model_bias (Some n) (t_ai s2) = Some (clamp_bias (tn_current_bias (t_train s))))"
proof -
  let ?bs = "ckpt_encode junk (ckpt_of (t_train s))"
  have "tn_model_name (t_train s) = n" using assms(6) by (simp add: train_ready_def)
  then have l: "length ?bs = CKPT_BYTES" using assms(8-11) by (intro ckpt_decode_encode(2)) (simp_all add: ckpt_of_def)
  obtain v v' where "vfs_write_file ops (Some AI_TRAIN_CKPT_PATH) ?bs (t_file s) = Some (int CKPT_BYTES, v)"
    "vfs_read_file ops (Some AI_TRAIN_CKPT_PATH) True (of_nat CKPT_BYTES) v = Some ((int CKPT_BYTES, ?bs), v')"
    using ram_file_roundtrip [OF assms(1-4) _ assms(5), of ?bs "of_nat CKPT_BYTES"] l by (auto simp: AI_TRAIN_CKPT_PATH_def)
  then have "cf_write (vfs_ckpt ops) ?bs (t_file s) = (int CKPT_BYTES, v)" "cf_read (vfs_ckpt ops) CKPT_BYTES v = (int CKPT_BYTES, ?bs, v')"
    by (simp_all add: vfs_ckpt_def)
  from rollback_restores [OF assms(6-11) this assms(12)] show ?thesis .
qed

section \<open>The root on the memory file system\<close>

definition kvfs_root :: "(ata_dev disk pcache, unit) kworld vfs" where
  "kvfs_root = snd (vfs_mount (Some ''/'') (Some RAMDISK) (vfs_init (\<lambda>w. w) kvfs_blank))"

lemma kvfs_root_reach: "reach vfs_boot (vfs_step ops) kvfs_root"
proof (rule reach_step)
  show "reach vfs_boot (vfs_step ops) (vfs_init (\<lambda>w. w) kvfs_blank)" by (rule kvfs_boot_reach)
  show "vfs_step ops (vfs_init (\<lambda>w. w) kvfs_blank) kvfs_root" unfolding kvfs_root_def by (rule vfs_step_mount)
qed

lemma kvfs_root_state:
  "kvfs_root = kvfs_blank\<lparr>mounts := [\<lparr>mt_used = True, mt_path = ''/'', mt_len = 1, mt_ops = Some RAMDISK\<rparr>, no_mount, no_mount, no_mount, no_mount, no_mount,
     no_mount, no_mount]\<rparr>"
  by (simp add: kvfs_root_def kvfs_boot_state vfs_mount_def upd_mount_def Let_def)

lemma kvfs_root_mounts:
  "mounts kvfs_root = [\<lparr>mt_used = True, mt_path = ''/'', mt_len = 1, mt_ops = Some RAMDISK\<rparr>, no_mount, no_mount, no_mount, no_mount, no_mount, no_mount, no_mount]"
  by (simp add: kvfs_root_state)

lemma kvfs_root_room: "fd_room kvfs_root"
proof -
  have "\<exists>k. find_slot (\<lambda>f. \<not> fd_used f) (fd_table kvfs_root) = Some k" by (rule find_slot_exists [of 0]) (simp_all add: kvfs_root_state kvfs_blank_def)
  moreover have "\<exists>k. find_slot (\<lambda>g. g < 0) (task_fd_map kvfs_root ! 0) = Some k" by (rule find_slot_exists [of 0]) (simp_all add: kvfs_root_state kvfs_blank_def)
  moreover have "current_task_id kvfs_root = 0" by (simp add: current_task_id_def kvfs_root_state kvfs_blank_def)
  ultimately show ?thesis by (auto simp: fd_room_def alloc_global_fd_def alloc_task_fd_def slot_index_def)
qed

lemma kvfs_root_best: "fold (mount_step ''/ai_train.ckpt'' (mounts kvfs_root)) [0..<8] None = Some 0"
  unfolding kvfs_root_mounts by code_simp

lemma kvfs_root_resolve: "resolve_mount AI_TRAIN_CKPT_PATH kvfs_root = Some (Some RAMDISK, ''/ai_train.ckpt'')"
  using kvfs_root_best by (simp add: resolve_mount_def Let_def AI_TRAIN_CKPT_PATH_def) (simp add: kvfs_root_mounts)

lemma kvfs_root_ready: "ram_ready ''/ai_train.ckpt'' (kw_ram (world kvfs_root))"
proof -
  have "ramdisk_extract_name (Some ''/ai_train.ckpt'') = Some ''ai_train.ckpt''" by code_simp
  then show ?thesis using ram_boot_inv [OF ram0_boot] ram0_lookups by (simp add: ram_ready_def kvfs_root_state kvfs_blank_def ram_room_def)
qed

theorem checkpoint_rollback_witness:
  "\<exists>s s2. ai_train_rollback (vfs_ckpt kops) (fold (\<lambda>k. snd \<circ> ai_train_step k) [3, 5] (snd (ai_train_checkpoint (vfs_ckpt kops) (replicate 16 0) s))) = (True, s2) \<and>
     t_file s = kvfs_root \<and> tn_current_bias (t_train s) = 7 \<and> tn_current_bias (t_train s2) = 7"
proof -
  have "name_valid (Some ''net'')" "valid_kind 1" "valid_backend 0"
    by (simp_all add: name_valid_def name_char_def valid_kind_def valid_backend_def)
  then obtain a i where a: "find_model_index (Some ''net'') a = Some i"
    using load_model_spec [of "''net''" 1 0 ai_blank 1 7 9] ai_blank_facts by auto
  let ?s = "\<lparr>t_train = train_reset\<lparr>tn_active := True, tn_model_name := ''net'', tn_current_bias := 7\<rparr>, t_ai = a, t_file = kvfs_root\<rparr>"
  have "train_ready ''net'' ?s" "to_i32 7 = 7" using a by (simp_all add: train_ready_def to_i32_id)
  then have "\<exists>s2. ai_train_rollback (vfs_ckpt kops) (fold (\<lambda>k. snd \<circ> ai_train_step k) [3, 5] (snd (ai_train_checkpoint (vfs_ckpt kops) (replicate 16 0) ?s))) = (True, s2) \<and>
      tn_current_bias (t_train s2) = tn_current_bias (t_train ?s)"
    using checkpoint_rollback [of kops ?s, OF _ refl _ _ _ _ _ _ _ _ _ refl, of "''/ai_train.ckpt''" "''net''" "replicate 16 0" "[3, 5]"]
      kvfs_root_reach kvfs_root_room kvfs_root_resolve kvfs_root_ready by auto
  then show ?thesis by - (rule exI [of _ ?s], simp)
qed

end
