(* ===== verification/Spec2Isabelle.thy ===== *)
theory Spec2Isabelle
  imports Slab SchedulerCorrect Partition RemoteAuth NetSocketCorrect Neural AiScheduler PagingClone Ext2Dir NetControl ModuleProps NetRetx TrainVfs
begin

text \<open>
  Verification library of the NeuroSpark kernel (\<open>src/kernel\<close>), a 32-bit single-processor operating system kernel in C.

  \<^bold>\<open>The program.\<close> At the bottom are the physical page allocator and the slab allocator on it (\<open>pmm.c\<close>), the page tables (\<open>paging.c\<close>), the disk
  driver with its sector cache (\<open>disk.c\<close>, \<open>page_cache.c\<close>) and the partition tables on it (\<open>partition.c\<close>, \<open>filesystem.c\<close>). Tasks live in a fixed table
  (\<open>task.c\<close>) that the scheduler (\<open>scheduler.c\<close>) drives from the timer interrupt; wait queues, events and IPC channels are built on it. The file layer
  (\<open>vfs.c\<close>) has mounts, a table of open files, a descriptor table for each task and four backends: the tiny file system on the cached disk, a memory file
  system, pipes, and ext2 (\<open>ext2fs.c\<close>). The network stack (\<open>net.c\<close>) drives a card that the scan of the PCI bus (\<open>pci.c\<close>) finds. Above are socket and epoll descriptors (\<open>net_socket.c\<close>), authorisation of remote access
  (\<open>remote_auth.c\<close>), neuron models (\<open>model_manager.c\<close>), and inference with its queue and on-line training (\<open>ai_runtime.c\<close>, \<open>ai_scheduler.c\<close>, \<open>ai_train.c\<close>).

  \<^bold>\<open>How the code is modelled.\<close> A C structure is a record, a static table a list field of the record of its component, \<open>uint32_t\<close> and the like are words of that
  width, so that arithmetic wraps; a C string is a HOL string without its NUL. An operation is a function from the state of its component to a result and
  the next state; it has every guard, error code and early return of the source in the order of the source. What a function would do outside an array or through a
  page that is not mapped is undefined in C: there the result type has an option, and \<open>None\<close> stands for it. A null pointer argument is \<open>None\<close> or a flag. Code outside of the
  component (hardware ports, other tasks that run while one waits, the caller's memory) is a parameter; locales say what is relied on, and each locale is interpreted on
  the model of the code that provides it. Sections that run with interrupts off are one step.

  \<^bold>\<open>Theories.\<close>
  \<^item> \<open>Prelude\<close>: word types, search of a slot in a table, C strings and C division, and the locale \<open>invariant_system\<close> for reachable states.
    \<open>Ring\<close>: the circular buffer and the locale \<open>fifo\<close> with its trace refinement, interpreted on the ring of the code for every capacity.
  \<^item> \<open>Pmm\<close>, \<open>Slab\<close> (\<open>pmm.c\<close>): the bitmap allocator refines a set of used pages; the free lists stored in the objects refine a partition of each page into live
    and free objects; what a double free does.
  \<^item> \<open>Paging\<close>, \<open>PagingCorrect\<close>, \<open>PagingClone\<close> (\<open>paging.c\<close>): page tables in physical memory; mapping, unmapping and the check of user ranges against the
    view of a directory; a cloned address space has the same contents in fresh frames and shares nothing with its source.
  \<^item> \<open>Task\<close>, \<open>Scheduler\<close>, \<open>SchedulerProps\<close>, \<open>SchedulerSteps\<close>, \<open>SchedulerCorrect\<close> (\<open>task.c\<close>, \<open>scheduler.c\<close>): all operations of
    the task table and a step relation over them, each step marked with whether it waits on a full queue; in every reachable state the current task is RUNNING,
    and it is the only one as long as no wait has found its queue full; round robin among the highest effective priority, exit, kill and
    timer, wake-up in order of arrival, IPC channels as bounded queues.
  \<^item> \<open>Disk\<close>, \<open>DiskCorrect\<close>, \<open>PageCache\<close>, \<open>AtaDevice\<close> (\<open>disk.c\<close>, \<open>page_cache.c\<close>): the driver over a record of hardware operations, batches, the clock
    cache with the locale \<open>block_device\<close>; on an ideal ATA drive the cached disk is one flat array of sectors. Timeouts of the driver are its own loop bounds.
  \<^item> \<open>Partition\<close> (\<open>partition.c\<close>, \<open>filesystem.c\<close>): MBR and GPT scanning, the ext2 probe.
  \<^item> \<open>Pipe\<close>, \<open>Ramdisk\<close>, \<open>RamdiskCorrect\<close>, \<open>RamdiskFiles\<close>, \<open>Vfs\<close>, \<open>VfsCorrect\<close>, \<open>VfsFiles\<close>, \<open>Tfs\<close>, \<open>TfsCorrect\<close>, \<open>VfsKernel\<close>
    (\<open>vfs.c\<close>): the backends, the descriptor layer over any backends with reference counts that are exact in every reachable state, longest-prefix mounts,
    whole-file writes that are read back, and \<open>vfs_pipe\<close>, which never succeeds. The two file loops are partial functions; that they end is part of the
    round trip.
  \<^item> \<open>Ext2\<close> (\<open>ext2fs.c\<close>): the whole driver; \<open>Ext2Blocks\<close>, \<open>Ext2Alloc\<close>, \<open>Ext2Inode\<close>, \<open>Ext2Files\<close>, \<open>Ext2Data\<close>, \<open>Ext2Correct\<close>,
    \<open>Ext2Props\<close>: on a disk that keeps its sectors, blocks, bitmaps, inodes and file contents behave as functions from numbers to bytes; the allocator is a set
    of free blocks, and what is written to a file is read back. \<open>Ext2Dir\<close>: a directory block as a list of entries; what adding an entry does to the names in it.
  \<^item> \<open>NetSocket\<close>, \<open>NetSocketCorrect\<close> (\<open>net_socket.c\<close>): descriptors, epoll sets as bounded maps, and a timed wait whose deadline wraps. The waiting loops have no bound
    in the source and are partial functions.
  \<^item> \<open>RemoteAuth\<close> (\<open>remote_auth.c\<close>): sessions, the audit ring, transfers.
  \<^item> \<open>Neural\<close> (\<open>scheduler.c\<close>, \<open>model_manager.c\<close>), \<open>AiRuntime\<close>, \<open>AiRuntimeCorrect\<close>, \<open>AiScheduler\<close>, \<open>AiTrain\<close>: neuron models and their
    manifests, model checksums and import, queued inference against direct inference, on-line training.
    \<open>TrainVfs\<close>: the checkpoint file of the trainer on the virtual file system; roll back restores what the checkpoint has.
  \<^item> \<open>Pci\<close> (\<open>pci.c\<close>): the ports of the machine as a record of operations, configuration space, the scan of the bus.
  \<^item> \<open>Net\<close>, \<open>NetRecv\<close>, \<open>NetApi\<close> (\<open>net.c\<close>): the whole network stack, sending, receiving and the calls on top. \<open>NetChecksum\<close>: the checksum is the one's complement
    sum of RFC 1071. \<open>NetTcp\<close>: what sending changes, and the schedule of retransmission. \<open>NetPath\<close>: a datagram from \<open>net_udp_send\<close> of one host to \<open>net_udp_recv\<close> of another, over
    a card that transmits what is stored for it. \<open>NetStream\<close>: the receiving end of a connection refines a stream, with reads of any
    size. \<open>NetRetx\<close>: each due poll sends the unacknowledged segment again, until the connection is given up. \<open>NetReass\<close>: reassembly of fragments.
    \<open>NetControl\<close>: longest-prefix routing; reports that are too long for remote control.
  \<^item> \<open>Module\<close> (\<open>module_loader.c\<close>): ELF objects are placed, relocated and counted, in a flat memory; the code of modules and the file system are
    arguments. \<open>ModuleProps\<close>: no module is freed while a recorded reference is on it; what closing a library leaves behind.
  \<^bold>\<open>Not modelled.\<close> System calls, the POSIX layer and the program loader dispatch to the parts above. The shell, the window manager, the desktop and
  the boot sequence print, draw and start the other parts; USB, AC97 and AHCI drivers are sequences of accesses to device registers whose meaning is in the
  hardware. Assembly (boot, context switch, interrupt entry) is not C. Cached translations and memory ordering have no counterpart in the model.
\<close>

end
